(* ===== verification/Prelude.thy ===== *)
theory Prelude
  imports Main "HOL-Library.Word"
begin

text \<open>
  Shared vocabulary of the development.  Rust's fixed-width integers are words of the same
  width; \<open>usize\<close> values that index vectors are natural numbers, and every narrowing cast the
  source writes (\<open>as u32\<close>, \<open>as u8\<close>) is written out as a conversion that wraps.  A Rust
  panic (a failed \<open>assert!\<close>, an index out of bounds, \<open>unreachable!\<close>, an \<open>expect\<close> on
  \<open>None\<close>, a trait default of \<open>unimplemented!\<close>) is a value of type \<open>panic\<close>; code that may
  panic returns \<open>panic + 'a\<close>, sequenced with \<open>rbind\<close>.
\<close>

unbundle bit_operations_syntax

named_theorems result_simps \<open>equations for sequencing computations that may panic\<close>

type_synonym u8 = "8 word"
type_synonym u32 = "32 word"
type_synonym u64 = "64 word"
type_synonym usize = nat

subsection \<open>Panics and their sequencing\<close>

datatype panic =
    AssertionFailed
  | IndexOutOfBounds
  | Unreachable
  | ExpectFailed
  | Unimplemented
  | ArithmeticOverflow
  | ExplicitPanic

type_synonym 'a result = "panic + 'a"

definition rbind :: "'e + 'a \<Rightarrow> ('a \<Rightarrow> 'e + 'b) \<Rightarrow> 'e + 'b" where
  "rbind m f = (case m of Inl e \<Rightarrow> Inl e | Inr x \<Rightarrow> f x)"

definition rassert :: "bool \<Rightarrow> unit result" where
  "rassert b = (if b then Inr () else Inl AssertionFailed)"

definition rexpect :: "'a option \<Rightarrow> 'a result" where
  "rexpect x = (case x of None \<Rightarrow> Inl ExpectFailed | Some v \<Rightarrow> Inr v)"

definition vec_get :: "'a list \<Rightarrow> nat \<Rightarrow> 'a result" where
  "vec_get xs i = (if i < length xs then Inr (xs ! i) else Inl IndexOutOfBounds)"

definition vec_set :: "'a list \<Rightarrow> nat \<Rightarrow> 'a \<Rightarrow> 'a list result" where
  "vec_set xs i v = (if i < length xs then Inr (xs[i := v]) else Inl IndexOutOfBounds)"

definition is_ok :: "'e + 'a \<Rightarrow> bool" where
  "is_ok m = (case m of Inl _ \<Rightarrow> False | Inr _ \<Rightarrow> True)"

subsection \<open>Narrowing casts\<close>

definition as_u32 :: "usize \<Rightarrow> u32" where
  "as_u32 n = word_of_nat n"

definition as_u8 :: "u32 \<Rightarrow> u8" where
  "as_u8 w = ucast w"

definition u8_as_u32 :: "u8 \<Rightarrow> u32" where
  "u8_as_u32 w = ucast w"

subsection \<open>Signed integers\<close>

text \<open>An \<open>i32\<close> is an integer in its range; an operation that leaves the range panics.  Rust's division
  truncates towards zero, and a cast to \<open>u32\<close> wraps.\<close>

definition i32_range :: "int \<Rightarrow> bool" where
  "i32_range i = (- (2 ^ 31) \<le> i \<and> i < 2 ^ 31)"

definition checked_i32 :: "int \<Rightarrow> int result" where
  "checked_i32 i = (if i32_range i then Inr i else Inl ArithmeticOverflow)"

definition rust_div :: "int \<Rightarrow> int \<Rightarrow> int" where
  "rust_div a b = sgn a * sgn b * (\<bar>a\<bar> div \<bar>b\<bar>)"

definition rust_rem :: "int \<Rightarrow> int \<Rightarrow> int" where
  "rust_rem a b = a - rust_div a b * b"

definition as_i32 :: "u32 \<Rightarrow> int" where
  "as_i32 w = sint w"

definition i32_as_u32 :: "int \<Rightarrow> u32" where
  "i32_as_u32 i = word_of_int i"

text \<open>Sequencing.\<close>

lemma rbind_Inl [simp, result_simps]: "rbind (Inl e) f = Inl e"
  by (simp add: rbind_def)

lemma rbind_Inr [simp, result_simps]: "rbind (Inr x) f = f x"
  by (simp add: rbind_def)

lemma rbind_assoc [result_simps]: "rbind (rbind m f) g = rbind m (\<lambda>x. rbind (f x) g)"
  by (cases m) simp_all

lemma rbind_eq_Inr_iff [result_simps]:
  "rbind m f = Inr y \<longleftrightarrow> (\<exists>x. m = Inr x \<and> f x = Inr y)"
  by (cases m) simp_all

lemma rbind_eq_InrE:
  assumes "rbind m f = Inr y"
  obtains x where "m = Inr x" and "f x = Inr y"
  using assms by (auto simp: rbind_eq_Inr_iff)

lemma rbind_cong [fundef_cong]:
  "\<lbrakk> m = m'; \<And>x. m' = Inr x \<Longrightarrow> f x = f' x \<rbrakk> \<Longrightarrow> rbind m f = rbind m' f'"
  by (cases m') simp_all

lemma rassert_simps [simp]: "rassert True = Inr ()" "rassert False = Inl AssertionFailed"
  by (simp_all add: rassert_def)

lemma rassert_eq_Inr [simp]: "rassert b = Inr u \<longleftrightarrow> b"
  by (simp add: rassert_def)

lemma rexpect_simps [simp]: "rexpect (Some v) = Inr v" "rexpect None = Inl ExpectFailed"
  by (simp_all add: rexpect_def)

lemma rexpect_eq_Inr [simp]: "rexpect x = Inr v \<longleftrightarrow> x = Some v"
  by (cases x) simp_all

lemma vec_get_eq_Inr [simp]: "vec_get xs i = Inr v \<longleftrightarrow> i < length xs \<and> v = xs ! i"
  by (auto simp: vec_get_def)

lemma vec_get_inside [simp]: "i < length xs \<Longrightarrow> vec_get xs i = Inr (xs ! i)"
  by (simp add: vec_get_def)

lemma vec_set_eq_Inr [simp]: "vec_set xs i v = Inr ys \<longleftrightarrow> i < length xs \<and> ys = xs[i := v]"
  by (auto simp: vec_set_def)

lemma vec_set_inside [simp]: "i < length xs \<Longrightarrow> vec_set xs i v = Inr (xs[i := v])"
  by (simp add: vec_set_def)

lemma is_ok_simps [simp]: "is_ok (Inr x)" "\<not> is_ok (Inl e)"
  by (simp_all add: is_ok_def)

lemma is_ok_iff: "is_ok m \<longleftrightarrow> (\<exists>x. m = Inr x)"
  by (cases m) simp_all

text \<open>Casts.\<close>

lemma unat_u8_less: "unat b < 256" for b :: u8
  using unsigned_less [of b, where ?'a = nat] by simp

lemma unat_u32_less: "unat w < 2 ^ 32" for w :: u32
  using unsigned_less [of w, where ?'a = nat] by simp

lemma unat_as_u32 [simp]: "unat (as_u32 n) = n mod 2 ^ 32"
  by (simp add: as_u32_def unat_of_nat)

lemma unat_as_u32_small: "n < 2 ^ 32 \<Longrightarrow> unat (as_u32 n) = n"
  by simp

lemma as_u32_unat [simp]: "as_u32 (unat w) = w"
  by (simp add: as_u32_def)

lemma as_u32_mod [simp]: "as_u32 (n mod 2 ^ 32) = as_u32 n" "as_u32 (n mod 4294967296) = as_u32 n"
  by (simp_all add: word_unat_eq_iff)

lemma as_u32_0 [simp]: "as_u32 0 = 0"
  by (simp add: as_u32_def)

lemma as_u32_inject: "\<lbrakk> m < 2 ^ 32; n < 2 ^ 32 \<rbrakk> \<Longrightarrow> as_u32 m = as_u32 n \<longleftrightarrow> m = n"
  by (metis unat_as_u32_small)

lemma unat_u8_as_u32 [simp]: "unat (u8_as_u32 b) = unat b"
proof -
  have "unat b < 2 ^ 8" by (simp add: unat_u8_less)
  then show ?thesis
    by (simp add: u8_as_u32_def unsigned_ucast_eq take_bit_nat_eq_self)
qed

lemma u8_as_u32_as_u8: "w \<le> 255 \<Longrightarrow> u8_as_u32 (as_u8 w) = w"
proof -
  assume "w \<le> 255"
  then have "unat w \<le> 255" by (simp add: word_le_nat_alt)
  then have "unat (u8_as_u32 (as_u8 w)) = unat w"
    by (simp add: as_u8_def unsigned_ucast_eq take_bit_nat_eq_self)
  then show ?thesis by (simp add: word_unat_eq_iff)
qed

lemma as_u8_u8_as_u32 [simp]: "as_u8 (u8_as_u32 b) = b"
proof -
  have "unat b < 2 ^ 8" by (simp add: unat_u8_less)
  then have "unat (as_u8 (u8_as_u32 b)) = unat b"
    unfolding as_u8_def by (simp add: unsigned_ucast_eq take_bit_nat_eq_self)
  then show ?thesis by (simp add: word_unat_eq_iff)
qed

text \<open>Lists: prefixes and in-place updates.\<close>

lemma drop_eq_append_nth:
  "drop n xs = ys @ zs \<Longrightarrow> i < length ys \<Longrightarrow> xs ! (n + i) = ys ! i"
  by (metis length_append length_drop linorder_not_le nat_less_le nth_append nth_drop
      drop_all append_is_Nil_conv list.size(3) not_less_zero)

lemma drop_eq_append_length: "drop n xs = ys @ zs \<Longrightarrow> ys \<noteq> [] \<Longrightarrow> n + length ys + length zs = length xs"
  by (metis Nat.add_diff_assoc2 add.assoc append_is_Nil_conv drop_eq_Nil2 le_add_diff_inverse
      length_append length_drop nle_le)

lemma drop_eq_append_drop: "drop n xs = ys @ zs \<Longrightarrow> drop (n + length ys) xs = zs"
  by (metis add.commute append_eq_conv_conj drop_drop)

lemma list_update_append2: "(xs @ ys)[length xs + i := v] = xs @ ys[i := v]"
  by (simp add: list_update_append)

end
