(* ===== verification/SourceTypes.thy ===== *)
theory SourceTypes
  imports Prelude
begin

text \<open>
  The types of the Dora language (\<open>dora/src/language/ty.rs\<close>): \<open>SourceType\<close>, the shared
  parameter lists \<open>SourceTypeArray\<close> with their iterator, the classification predicates, and
  the assignability check \<open>allows\<close>.  Identifiers of definitions are the integers their newtypes
  wrap.  The semantic-analysis context is passed to \<open>allows\<close>, \<open>is_defined_type\<close> and
  \<open>is_concrete_type\<close> in the source but never read by them, so it is no argument here.
\<close>

type_synonym class_definition_id = usize
type_synonym struct_definition_id = u32
type_synonym enum_definition_id = u32
type_synonym trait_definition_id = u32
type_synonym type_param_id = usize

datatype source_type =
    TyError
  | TyAny
  | TyUnit
  | TyBool
  | TyChar
  | TyUInt8
  | TyInt32
  | TyInt64
  | TyFloat32
  | TyFloat64
  | TyPtr
  | TyThis
  | TyClass class_definition_id source_type_array
  | TyStruct struct_definition_id source_type_array
  | TyTuple source_type_array
  | TyTrait trait_definition_id source_type_array
  | TyTypeParam type_param_id
  | TyLambda source_type_array source_type
  | TyEnum enum_definition_id source_type_array
and source_type_array =
    ArrEmpty
  | ArrList "source_type list"

subsection \<open>Type arrays\<close>

fun types_of :: "source_type_array \<Rightarrow> source_type list" where
  "types_of ArrEmpty = []"
| "types_of (ArrList ts) = ts"

fun arr_len :: "source_type_array \<Rightarrow> usize" where
  "arr_len ArrEmpty = 0"
| "arr_len (ArrList ts) = length ts"

definition arr_is_empty :: "source_type_array \<Rightarrow> bool" where
  "arr_is_empty a = (arr_len a = 0)"

definition arr_single :: "source_type \<Rightarrow> source_type_array" where
  "arr_single t = ArrList [t]"

definition arr_with :: "source_type list \<Rightarrow> source_type_array" where
  "arr_with ts = (if length ts = 0 then ArrEmpty else ArrList ts)"

definition arr_connect :: "source_type_array \<Rightarrow> source_type_array \<Rightarrow> source_type_array" where
  "arr_connect a b =
     (if arr_is_empty a then b
      else if arr_is_empty b then a
      else ArrList (types_of a @ types_of b))"

definition arr_connect_single :: "source_type_array \<Rightarrow> source_type \<Rightarrow> source_type_array" where
  "arr_connect_single a t =
     (if arr_is_empty a then arr_single t else ArrList (types_of a @ [t]))"

fun arr_index :: "source_type_array \<Rightarrow> usize \<Rightarrow> source_type result" where
  "arr_index ArrEmpty i = Inl ExplicitPanic"
| "arr_index (ArrList ts) i = vec_get ts i"

record arr_iter =
  it_params :: source_type_array
  it_idx :: usize

definition arr_iter_new :: "source_type_array \<Rightarrow> arr_iter" where
  "arr_iter_new a = \<lparr>it_params = a, it_idx = 0\<rparr>"

definition arr_iter_next :: "arr_iter \<Rightarrow> source_type option \<times> arr_iter" where
  "arr_iter_next it =
     (case it_params it of
        ArrEmpty \<Rightarrow> (None, it)
      | ArrList ts \<Rightarrow>
          (if it_idx it < length ts
           then (Some (ts ! it_idx it), it\<lparr>it_idx := it_idx it + 1\<rparr>)
           else (None, it)))"

function arr_collect :: "arr_iter \<Rightarrow> source_type list" where
  "arr_collect it =
     (case arr_iter_next it of
        (None, _) \<Rightarrow> []
      | (Some t, it') \<Rightarrow> t # arr_collect it')"
  by pat_completeness auto
termination
  by (relation "measure (\<lambda>it. arr_len (it_params it) - it_idx it)")
     (auto simp: arr_iter_next_def split: source_type_array.splits if_splits)

subsection \<open>Classification\<close>

fun is_primitive :: "source_type \<Rightarrow> bool" where
  "is_primitive TyBool = True"
| "is_primitive TyUInt8 = True"
| "is_primitive TyChar = True"
| "is_primitive TyInt32 = True"
| "is_primitive TyInt64 = True"
| "is_primitive TyFloat32 = True"
| "is_primitive TyFloat64 = True"
| "is_primitive _ = False"

fun is_float :: "source_type \<Rightarrow> bool" where
  "is_float TyFloat32 = True"
| "is_float TyFloat64 = True"
| "is_float _ = False"

fun is_tuple_or_unit :: "source_type \<Rightarrow> bool" where
  "is_tuple_or_unit (TyTuple _) = True"
| "is_tuple_or_unit TyUnit = True"
| "is_tuple_or_unit _ = False"

fun reference_type :: "source_type \<Rightarrow> bool" where
  "reference_type TyPtr = True"
| "reference_type (TyClass _ _) = True"
| "reference_type (TyTrait _ _) = True"
| "reference_type (TyLambda _ _) = True"
| "reference_type _ = False"

fun value_type :: "source_type \<Rightarrow> bool" where
  "value_type TyUnit = True"
| "value_type TyBool = True"
| "value_type TyUInt8 = True"
| "value_type TyInt32 = True"
| "value_type TyInt64 = True"
| "value_type TyFloat32 = True"
| "value_type TyFloat64 = True"
| "value_type _ = False"

fun type_params :: "source_type \<Rightarrow> source_type_array" where
  "type_params (TyClass _ ps) = ps"
| "type_params (TyEnum _ ps) = ps"
| "type_params (TyStruct _ ps) = ps"
| "type_params (TyTrait _ ps) = ps"
| "type_params _ = ArrEmpty"

fun to_lambda :: "source_type \<Rightarrow> (source_type_array \<times> source_type) option" where
  "to_lambda (TyLambda ps r) = Some (ps, r)"
| "to_lambda _ = None"

fun tuple_subtypes :: "source_type \<Rightarrow> source_type_array result" where
  "tuple_subtypes (TyTuple s) = Inr s"
| "tuple_subtypes _ = Inl Unreachable"

fun is_defined_type :: "source_type \<Rightarrow> bool"
and defined_arr :: "source_type_array \<Rightarrow> bool"
and defined_all :: "source_type list \<Rightarrow> bool" where
  "is_defined_type TyError = False"
| "is_defined_type TyThis = False"
| "is_defined_type TyAny = False"
| "is_defined_type TyPtr = False"
| "is_defined_type TyUnit = True"
| "is_defined_type TyBool = True"
| "is_defined_type TyUInt8 = True"
| "is_defined_type TyChar = True"
| "is_defined_type TyInt32 = True"
| "is_defined_type TyInt64 = True"
| "is_defined_type TyFloat32 = True"
| "is_defined_type TyFloat64 = True"
| "is_defined_type (TyTrait _ _) = True"
| "is_defined_type (TyLambda _ _) = True"
| "is_defined_type (TyTypeParam _) = True"
| "is_defined_type (TyEnum _ ps) = defined_arr ps"
| "is_defined_type (TyClass _ ps) = defined_arr ps"
| "is_defined_type (TyStruct _ ps) = defined_arr ps"
| "is_defined_type (TyTuple ss) = defined_arr ss"
| "defined_arr ArrEmpty = True"
| "defined_arr (ArrList ts) = defined_all ts"
| "defined_all [] = True"
| "defined_all (t # ts) = (if \<not> is_defined_type t then False else defined_all ts)"

fun is_concrete_type :: "source_type \<Rightarrow> bool"
and concrete_arr :: "source_type_array \<Rightarrow> bool"
and concrete_all :: "source_type list \<Rightarrow> bool" where
  "is_concrete_type TyError = False"
| "is_concrete_type TyThis = False"
| "is_concrete_type TyAny = False"
| "is_concrete_type TyUnit = True"
| "is_concrete_type TyBool = True"
| "is_concrete_type TyUInt8 = True"
| "is_concrete_type TyChar = True"
| "is_concrete_type TyInt32 = True"
| "is_concrete_type TyInt64 = True"
| "is_concrete_type TyFloat32 = True"
| "is_concrete_type TyFloat64 = True"
| "is_concrete_type TyPtr = True"
| "is_concrete_type (TyClass _ ps) = concrete_arr ps"
| "is_concrete_type (TyEnum _ ps) = concrete_arr ps"
| "is_concrete_type (TyStruct _ ps) = concrete_arr ps"
| "is_concrete_type (TyTrait _ ps) = concrete_arr ps"
| "is_concrete_type (TyTuple ss) = concrete_arr ss"
| "is_concrete_type (TyLambda ps r) = (if \<not> concrete_arr ps then False else is_concrete_type r)"
| "is_concrete_type (TyTypeParam _) = False"
| "concrete_arr ArrEmpty = True"
| "concrete_arr (ArrList ts) = concrete_all ts"
| "concrete_all [] = True"
| "concrete_all (t # ts) = (if \<not> is_concrete_type t then False else concrete_all ts)"

subsection \<open>Assignability\<close>

text \<open>
  The tuple case walks both sub-type lists by index and stops at the first pair that is not
  allowed; a panic of a component check propagates.  The lists have equal length there.
\<close>

fun allows :: "source_type \<Rightarrow> source_type \<Rightarrow> bool result"
and allows_arr :: "source_type_array \<Rightarrow> source_type list \<Rightarrow> bool result"
and allows_all :: "source_type list \<Rightarrow> source_type list \<Rightarrow> bool result" where
  "allows TyError u = Inr True"
| "allows TyAny u = Inr True"
| "allows TyUnit u = Inr (TyUnit = u)"
| "allows TyBool u = Inr (TyBool = u)"
| "allows TyUInt8 u = Inr (TyUInt8 = u)"
| "allows TyChar u = Inr (TyChar = u)"
| "allows (TyStruct i ps) u = Inr (TyStruct i ps = u)"
| "allows (TyEnum i ps) u = Inr (TyEnum i ps = u)"
| "allows (TyTrait i ps) u = Inr (TyTrait i ps = u)"
| "allows TyInt32 u = Inr (TyInt32 = u)"
| "allows TyInt64 u = Inr (TyInt64 = u)"
| "allows TyFloat32 u = Inr (TyFloat32 = u)"
| "allows TyFloat64 u = Inr (TyFloat64 = u)"
| "allows TyPtr u = Inl ExplicitPanic"
| "allows TyThis u = Inl Unreachable"
| "allows (TyClass i ps) u =
     (if TyClass i ps = u then Inr True
      else (case u of
              TyClass j qs \<Rightarrow> Inr (i = j \<and> ps = qs)
            | _ \<Rightarrow> Inr False))"
| "allows (TyTuple ss) u =
     (case u of
        TyTuple os \<Rightarrow>
          (if arr_len ss \<noteq> arr_len os then Inr False else allows_arr ss (types_of os))
      | _ \<Rightarrow> Inr False)"
| "allows (TyTypeParam i) u = Inr (TyTypeParam i = u)"
| "allows (TyLambda ps r) u = Inr (TyLambda ps r = u)"
| "allows_arr ArrEmpty os = Inr True"
| "allows_arr (ArrList ts) os = allows_all ts os"
| "allows_all [] os = Inr True"
| "allows_all (t # ts) [] = Inl IndexOutOfBounds"
| "allows_all (t # ts) (u # us) =
     rbind (allows t u) (\<lambda>ok. if \<not> ok then Inr False else allows_all ts us)"

subsection \<open>Specification: types up to the two spellings of an empty tuple\<close>

fun norm_ty :: "source_type \<Rightarrow> source_type"
and norm_arr :: "source_type_array \<Rightarrow> source_type list"
and norm_all :: "source_type list \<Rightarrow> source_type list" where
  "norm_ty (TyTuple ss) = TyTuple (ArrList (norm_arr ss))"
| "norm_ty t = t"
| "norm_arr ArrEmpty = []"
| "norm_arr (ArrList ts) = norm_all ts"
| "norm_all [] = []"
| "norm_all (t # ts) = norm_ty t # norm_all ts"

fun mentions_type_param :: "source_type \<Rightarrow> bool"
and mentions_arr :: "source_type_array \<Rightarrow> bool"
and mentions_any :: "source_type list \<Rightarrow> bool" where
  "mentions_type_param (TyTypeParam _) = True"
| "mentions_type_param (TyClass _ ps) = mentions_arr ps"
| "mentions_type_param (TyStruct _ ps) = mentions_arr ps"
| "mentions_type_param (TyEnum _ ps) = mentions_arr ps"
| "mentions_type_param (TyTrait _ ps) = mentions_arr ps"
| "mentions_type_param (TyTuple ss) = mentions_arr ss"
| "mentions_type_param (TyLambda ps r) = (mentions_arr ps \<or> mentions_type_param r)"
| "mentions_type_param _ = False"
| "mentions_arr ArrEmpty = False"
| "mentions_arr (ArrList ts) = mentions_any ts"
| "mentions_any [] = False"
| "mentions_any (t # ts) = (mentions_type_param t \<or> mentions_any ts)"

subsection \<open>Lemmas\<close>

lemma arr_len_types_of [simp]: "arr_len a = length (types_of a)"
  by (cases a) simp_all

lemma types_of_arr_with [simp]: "types_of (arr_with ts) = ts"
  by (simp add: arr_with_def)

lemma types_of_connect: "types_of (arr_connect a b) = types_of a @ types_of b"
  by (simp add: arr_connect_def arr_is_empty_def)

lemma types_of_connect_single: "types_of (arr_connect_single a t) = types_of a @ [t]"
  by (simp add: arr_connect_single_def arr_single_def arr_is_empty_def)

lemma arr_index_types_of: "i < length (types_of a) \<Longrightarrow> arr_index a i = Inr (types_of a ! i)"
  by (cases a) simp_all

declare arr_collect.simps [simp del]

lemma arr_collect_drop: "arr_collect it = drop (it_idx it) (types_of (it_params it))"
proof (induction it rule: arr_collect.induct)
  case (1 it)
  show ?case
  proof (cases "it_params it")
    case ArrEmpty
    then show ?thesis
      by (subst arr_collect.simps) (simp add: arr_iter_next_def)
  next
    case (ArrList ts)
    show ?thesis
    proof (cases "it_idx it < length ts")
      case True
      then have "arr_iter_next it = (Some (ts ! it_idx it), it\<lparr>it_idx := it_idx it + 1\<rparr>)"
        by (simp add: arr_iter_next_def ArrList)
      with "1" [OF this [symmetric] refl] True ArrList show ?thesis
        by (subst arr_collect.simps) (simp add: Cons_nth_drop_Suc)
    next
      case False
      with ArrList show ?thesis
        by (subst arr_collect.simps) (simp add: arr_iter_next_def)
    qed
  qed
qed

lemma norm_arr_types_of: "norm_arr a = norm_all (types_of a)"
  by (cases a) simp_all

lemma length_norm_all [simp]: "length (norm_all ts) = length ts"
  by (induction ts) simp_all

lemma norm_ty_eq_TyTuple: "norm_ty u = TyTuple a \<longleftrightarrow> (\<exists>s. u = TyTuple s \<and> a = ArrList (norm_arr s))"
  by (cases u) auto

lemma norm_ty_other:
  "(\<And>s. t \<noteq> TyTuple s) \<Longrightarrow> t = norm_ty u \<longleftrightarrow> t = u"
  by (cases u) auto

lemma allows_defined_aux:
  "is_defined_type t \<Longrightarrow> allows t u = Inr (norm_ty t = norm_ty u)"
  "defined_arr a \<Longrightarrow> length (types_of a) = length us \<Longrightarrow>
     allows_arr a us = Inr (norm_arr a = norm_all us)"
  "defined_all ts \<Longrightarrow> length ts = length us \<Longrightarrow>
     allows_all ts us = Inr (norm_all ts = norm_all us)"
proof (induction t u and a us and ts us rule: allows_allows_arr_allows_all.induct)
  case (17 ss u)
  show ?case
  proof (cases u)
    case (TyTuple os)
    show ?thesis
    proof (cases "length (types_of ss) = length (types_of os)")
      case True
      with 17 TyTuple show ?thesis by (simp add: norm_arr_types_of)
    next
      case False
      then have "norm_all (types_of ss) \<noteq> norm_all (types_of os)"
        by (metis length_norm_all)
      with False TyTuple show ?thesis by (simp add: norm_arr_types_of)
    qed
  qed simp_all
next
  case (16 i ps u)
  then show ?case by (cases u) auto
qed (auto simp: norm_ty_other split: if_splits)

lemma concrete_aux:
  "is_concrete_type t \<Longrightarrow> \<not> mentions_type_param t"
  "concrete_arr a \<Longrightarrow> \<not> mentions_arr a"
  "concrete_all ts \<Longrightarrow> \<not> mentions_any ts"
  by (induction t and a and ts rule: is_concrete_type_concrete_arr_concrete_all.induct)
     (auto split: if_splits)

end
