(* ===== verification/BytecodeData.thy ===== *)
theory BytecodeData
  imports SourceTypes
begin

text \<open>
  The bytecode's data model (\<open>dora/src/bytecode/data.rs\<close> and \<open>ty.rs\<close>): the opcodes with
  their byte numbering, the decoded instructions, register types, constant-pool entries and the
  finished \<open>BytecodeFunction\<close> with its lookups.  \<open>BytecodeOpcode\<close> is a newtype over \<open>u8\<close>
  whose only values are the constants that the \<open>enumeration!\<close> macro numbers from zero
  (\<open>dora/src/utils.rs\<close>); it is a datatype here, with the macro's \<open>to_u8\<close> and \<open>from_u8\<close>.
  The newtypes \<open>Register\<close>, \<open>ConstPoolIdx\<close> and \<open>BytecodeOffset\<close> are the integers they wrap.
  Floating-point constants are their bit patterns and a \<open>char\<close> is its code point.
\<close>

type_synonym register = usize
type_synonym const_pool_idx = usize
type_synonym global_definition_id = u32
type_synonym fct_definition_id = usize
type_synonym field_id = usize
type_synonym class_instance_id = usize
type_synonym bytecode_offset = u32

record position =
  pos_line :: u32
  pos_column :: u32

subsection \<open>Opcodes\<close>

datatype (plugins only: code size) opcode =
    OpWide
  | OpAdd
  | OpSub
  | OpNeg
  | OpMul
  | OpDiv
  | OpMod
  | OpAnd
  | OpOr
  | OpXor
  | OpNot
  | OpShl
  | OpShr
  | OpSar
  | OpMov
  | OpLoadTupleElement
  | OpLoadEnumElement
  | OpLoadEnumVariant
  | OpLoadStructField
  | OpLoadField
  | OpStoreField
  | OpLoadGlobal
  | OpStoreGlobal
  | OpPushRegister
  | OpConstTrue
  | OpConstFalse
  | OpConstUInt8
  | OpConstChar
  | OpConstInt32
  | OpConstInt64
  | OpConstFloat32
  | OpConstFloat64
  | OpConstString
  | OpTestIdentity
  | OpTestEq
  | OpTestNe
  | OpTestGt
  | OpTestGe
  | OpTestLt
  | OpTestLe
  | OpJumpLoop
  | OpLoopStart
  | OpJump
  | OpJumpConst
  | OpJumpIfFalse
  | OpJumpIfFalseConst
  | OpJumpIfTrue
  | OpJumpIfTrueConst
  | OpInvokeDirect
  | OpInvokeVirtual
  | OpInvokeStatic
  | OpInvokeLambda
  | OpInvokeGenericStatic
  | OpInvokeGenericDirect
  | OpNewObject
  | OpNewObjectInitialized
  | OpNewArray
  | OpNewTuple
  | OpNewEnum
  | OpNewStruct
  | OpNewTraitObject
  | OpNewLambda
  | OpArrayLength
  | OpLoadArray
  | OpStoreArray
  | OpRet

definition opcodes :: "opcode list" where
  "opcodes = [
    OpWide, OpAdd, OpSub, OpNeg, OpMul, OpDiv, OpMod, OpAnd, OpOr, OpXor, OpNot, OpShl,
    OpShr, OpSar, OpMov, OpLoadTupleElement, OpLoadEnumElement, OpLoadEnumVariant,
    OpLoadStructField, OpLoadField, OpStoreField, OpLoadGlobal, OpStoreGlobal,
    OpPushRegister, OpConstTrue, OpConstFalse, OpConstUInt8, OpConstChar, OpConstInt32,
    OpConstInt64, OpConstFloat32, OpConstFloat64, OpConstString, OpTestIdentity, OpTestEq,
    OpTestNe, OpTestGt, OpTestGe, OpTestLt, OpTestLe, OpJumpLoop, OpLoopStart, OpJump,
    OpJumpConst, OpJumpIfFalse, OpJumpIfFalseConst, OpJumpIfTrue, OpJumpIfTrueConst,
    OpInvokeDirect, OpInvokeVirtual, OpInvokeStatic, OpInvokeLambda, OpInvokeGenericStatic,
    OpInvokeGenericDirect, OpNewObject, OpNewObjectInitialized, OpNewArray, OpNewTuple,
    OpNewEnum, OpNewStruct, OpNewTraitObject, OpNewLambda, OpArrayLength, OpLoadArray,
    OpStoreArray, OpRet]"

primrec to_u8 :: "opcode \<Rightarrow> u8" where
  "to_u8 OpWide = 0"
| "to_u8 OpAdd = 1"
| "to_u8 OpSub = 2"
| "to_u8 OpNeg = 3"
| "to_u8 OpMul = 4"
| "to_u8 OpDiv = 5"
| "to_u8 OpMod = 6"
| "to_u8 OpAnd = 7"
| "to_u8 OpOr = 8"
| "to_u8 OpXor = 9"
| "to_u8 OpNot = 10"
| "to_u8 OpShl = 11"
| "to_u8 OpShr = 12"
| "to_u8 OpSar = 13"
| "to_u8 OpMov = 14"
| "to_u8 OpLoadTupleElement = 15"
| "to_u8 OpLoadEnumElement = 16"
| "to_u8 OpLoadEnumVariant = 17"
| "to_u8 OpLoadStructField = 18"
| "to_u8 OpLoadField = 19"
| "to_u8 OpStoreField = 20"
| "to_u8 OpLoadGlobal = 21"
| "to_u8 OpStoreGlobal = 22"
| "to_u8 OpPushRegister = 23"
| "to_u8 OpConstTrue = 24"
| "to_u8 OpConstFalse = 25"
| "to_u8 OpConstUInt8 = 26"
| "to_u8 OpConstChar = 27"
| "to_u8 OpConstInt32 = 28"
| "to_u8 OpConstInt64 = 29"
| "to_u8 OpConstFloat32 = 30"
| "to_u8 OpConstFloat64 = 31"
| "to_u8 OpConstString = 32"
| "to_u8 OpTestIdentity = 33"
| "to_u8 OpTestEq = 34"
| "to_u8 OpTestNe = 35"
| "to_u8 OpTestGt = 36"
| "to_u8 OpTestGe = 37"
| "to_u8 OpTestLt = 38"
| "to_u8 OpTestLe = 39"
| "to_u8 OpJumpLoop = 40"
| "to_u8 OpLoopStart = 41"
| "to_u8 OpJump = 42"
| "to_u8 OpJumpConst = 43"
| "to_u8 OpJumpIfFalse = 44"
| "to_u8 OpJumpIfFalseConst = 45"
| "to_u8 OpJumpIfTrue = 46"
| "to_u8 OpJumpIfTrueConst = 47"
| "to_u8 OpInvokeDirect = 48"
| "to_u8 OpInvokeVirtual = 49"
| "to_u8 OpInvokeStatic = 50"
| "to_u8 OpInvokeLambda = 51"
| "to_u8 OpInvokeGenericStatic = 52"
| "to_u8 OpInvokeGenericDirect = 53"
| "to_u8 OpNewObject = 54"
| "to_u8 OpNewObjectInitialized = 55"
| "to_u8 OpNewArray = 56"
| "to_u8 OpNewTuple = 57"
| "to_u8 OpNewEnum = 58"
| "to_u8 OpNewStruct = 59"
| "to_u8 OpNewTraitObject = 60"
| "to_u8 OpNewLambda = 61"
| "to_u8 OpArrayLength = 62"
| "to_u8 OpLoadArray = 63"
| "to_u8 OpStoreArray = 64"
| "to_u8 OpRet = 65"

definition from_u8 :: "u8 \<Rightarrow> opcode option" where
  "from_u8 v = (if v < 66 then Some (opcodes ! unat v) else None)"

subsection \<open>Operand widths and instruction sizes\<close>

datatype operand_width = Normal | Wide

fun width_size :: "operand_width \<Rightarrow> usize" where
  "width_size Normal = 1"
| "width_size Wide = 4"

fun needs_bytecode :: "operand_width \<Rightarrow> bool" where
  "needs_bytecode Normal = False"
| "needs_bytecode Wide = True"

fun opcode_size :: "operand_width \<Rightarrow> nat" where
  "opcode_size Normal = 1"
| "opcode_size Wide = 2"

fun operand_size :: "operand_width \<Rightarrow> nat" where
  "operand_size Normal = 1"
| "operand_size Wide = 4"

definition is_loop_start :: "opcode \<Rightarrow> bool" where
  "is_loop_start op =
     (case op of OpLoopStart \<Rightarrow> True | _ \<Rightarrow> False)"

definition is_new_enum :: "opcode \<Rightarrow> bool" where
  "is_new_enum op =
     (case op of OpNewEnum \<Rightarrow> True | _ \<Rightarrow> False)"

definition is_new_struct :: "opcode \<Rightarrow> bool" where
  "is_new_struct op =
     (case op of OpNewStruct \<Rightarrow> True | _ \<Rightarrow> False)"

definition is_new_tuple :: "opcode \<Rightarrow> bool" where
  "is_new_tuple op =
     (case op of OpNewTuple \<Rightarrow> True | _ \<Rightarrow> False)"

definition is_push_register :: "opcode \<Rightarrow> bool" where
  "is_push_register op =
     (case op of OpPushRegister \<Rightarrow> True | _ \<Rightarrow> False)"

definition is_new_object_initialized :: "opcode \<Rightarrow> bool" where
  "is_new_object_initialized op =
     (case op of OpNewObjectInitialized \<Rightarrow> True | _ \<Rightarrow> False)"

definition is_new_lambda :: "opcode \<Rightarrow> bool" where
  "is_new_lambda op =
     (case op of OpNewLambda \<Rightarrow> True | _ \<Rightarrow> False)"

definition is_any_invoke :: "opcode \<Rightarrow> bool" where
  "is_any_invoke op =
     (case op of
        OpInvokeDirect \<Rightarrow> True
      | OpInvokeGenericDirect \<Rightarrow> True
      | OpInvokeGenericStatic \<Rightarrow> True
      | OpInvokeStatic \<Rightarrow> True
      | OpInvokeVirtual \<Rightarrow> True
      | OpInvokeLambda \<Rightarrow> True
      | _ \<Rightarrow> False)"

definition inst_size :: "opcode \<Rightarrow> operand_width \<Rightarrow> nat result" where
  "inst_size op w =
     (case op of
        OpWide \<Rightarrow> Inl Unreachable
      | OpLoopStart \<Rightarrow> Inr (opcode_size w)
      | OpPushRegister \<Rightarrow> Inr (opcode_size w + 1 * operand_size w)
      | OpConstTrue \<Rightarrow> Inr (opcode_size w + 1 * operand_size w)
      | OpConstFalse \<Rightarrow> Inr (opcode_size w + 1 * operand_size w)
      | OpRet \<Rightarrow> Inr (opcode_size w + 1 * operand_size w)
      | OpJumpConst \<Rightarrow> Inr (opcode_size w + 1 * operand_size w)
      | OpJump \<Rightarrow> Inr (opcode_size w + 1 * operand_size w)
      | OpJumpLoop \<Rightarrow> Inr (opcode_size w + 1 * operand_size w)
      | OpNeg \<Rightarrow> Inr (opcode_size w + 2 * operand_size w)
      | OpNot \<Rightarrow> Inr (opcode_size w + 2 * operand_size w)
      | OpMov \<Rightarrow> Inr (opcode_size w + 2 * operand_size w)
      | OpLoadGlobal \<Rightarrow> Inr (opcode_size w + 2 * operand_size w)
      | OpStoreGlobal \<Rightarrow> Inr (opcode_size w + 2 * operand_size w)
      | OpConstChar \<Rightarrow> Inr (opcode_size w + 2 * operand_size w)
      | OpConstInt32 \<Rightarrow> Inr (opcode_size w + 2 * operand_size w)
      | OpConstInt64 \<Rightarrow> Inr (opcode_size w + 2 * operand_size w)
      | OpConstFloat32 \<Rightarrow> Inr (opcode_size w + 2 * operand_size w)
      | OpConstFloat64 \<Rightarrow> Inr (opcode_size w + 2 * operand_size w)
      | OpConstString \<Rightarrow> Inr (opcode_size w + 2 * operand_size w)
      | OpArrayLength \<Rightarrow> Inr (opcode_size w + 2 * operand_size w)
      | OpNewObject \<Rightarrow> Inr (opcode_size w + 2 * operand_size w)
      | OpNewTuple \<Rightarrow> Inr (opcode_size w + 2 * operand_size w)
      | OpNewEnum \<Rightarrow> Inr (opcode_size w + 2 * operand_size w)
      | OpNewStruct \<Rightarrow> Inr (opcode_size w + 2 * operand_size w)
      | OpInvokeGenericDirect \<Rightarrow> Inr (opcode_size w + 2 * operand_size w)
      | OpInvokeGenericStatic \<Rightarrow> Inr (opcode_size w + 2 * operand_size w)
      | OpInvokeStatic \<Rightarrow> Inr (opcode_size w + 2 * operand_size w)
      | OpInvokeDirect \<Rightarrow> Inr (opcode_size w + 2 * operand_size w)
      | OpInvokeVirtual \<Rightarrow> Inr (opcode_size w + 2 * operand_size w)
      | OpJumpIfTrueConst \<Rightarrow> Inr (opcode_size w + 2 * operand_size w)
      | OpJumpIfTrue \<Rightarrow> Inr (opcode_size w + 2 * operand_size w)
      | OpJumpIfFalseConst \<Rightarrow> Inr (opcode_size w + 2 * operand_size w)
      | OpJumpIfFalse \<Rightarrow> Inr (opcode_size w + 2 * operand_size w)
      | OpAdd \<Rightarrow> Inr (opcode_size w + 3 * operand_size w)
      | OpSub \<Rightarrow> Inr (opcode_size w + 3 * operand_size w)
      | OpMul \<Rightarrow> Inr (opcode_size w + 3 * operand_size w)
      | OpDiv \<Rightarrow> Inr (opcode_size w + 3 * operand_size w)
      | OpMod \<Rightarrow> Inr (opcode_size w + 3 * operand_size w)
      | OpAnd \<Rightarrow> Inr (opcode_size w + 3 * operand_size w)
      | OpOr \<Rightarrow> Inr (opcode_size w + 3 * operand_size w)
      | OpXor \<Rightarrow> Inr (opcode_size w + 3 * operand_size w)
      | OpShl \<Rightarrow> Inr (opcode_size w + 3 * operand_size w)
      | OpShr \<Rightarrow> Inr (opcode_size w + 3 * operand_size w)
      | OpSar \<Rightarrow> Inr (opcode_size w + 3 * operand_size w)
      | OpLoadEnumVariant \<Rightarrow> Inr (opcode_size w + 3 * operand_size w)
      | OpLoadStructField \<Rightarrow> Inr (opcode_size w + 3 * operand_size w)
      | OpLoadField \<Rightarrow> Inr (opcode_size w + 3 * operand_size w)
      | OpStoreField \<Rightarrow> Inr (opcode_size w + 3 * operand_size w)
      | OpTestEq \<Rightarrow> Inr (opcode_size w + 3 * operand_size w)
      | OpTestNe \<Rightarrow> Inr (opcode_size w + 3 * operand_size w)
      | OpTestGt \<Rightarrow> Inr (opcode_size w + 3 * operand_size w)
      | OpTestGe \<Rightarrow> Inr (opcode_size w + 3 * operand_size w)
      | OpTestLt \<Rightarrow> Inr (opcode_size w + 3 * operand_size w)
      | OpTestLe \<Rightarrow> Inr (opcode_size w + 3 * operand_size w)
      | OpLoadArray \<Rightarrow> Inr (opcode_size w + 3 * operand_size w)
      | OpStoreArray \<Rightarrow> Inr (opcode_size w + 3 * operand_size w)
      | OpNewArray \<Rightarrow> Inr (opcode_size w + 3 * operand_size w)
      | OpNewTraitObject \<Rightarrow> Inr (opcode_size w + 3 * operand_size w)
      | OpLoadTupleElement \<Rightarrow> Inr (opcode_size w + 4 * operand_size w)
      | OpLoadEnumElement \<Rightarrow> Inr (opcode_size w + 4 * operand_size w)
      | OpConstUInt8 \<Rightarrow> Inr (opcode_size w + operand_size w + 1)
      | _ \<Rightarrow> Inl Unreachable)"

definition needs_position :: "opcode \<Rightarrow> bool" where
  "needs_position op =
     (case op of
        OpDiv \<Rightarrow> True
      | OpMod \<Rightarrow> True
      | OpLoadField \<Rightarrow> True
      | OpStoreField \<Rightarrow> True
      | OpInvokeDirect \<Rightarrow> True
      | OpInvokeVirtual \<Rightarrow> True
      | OpInvokeStatic \<Rightarrow> True
      | OpInvokeLambda \<Rightarrow> True
      | OpInvokeGenericStatic \<Rightarrow> True
      | OpInvokeGenericDirect \<Rightarrow> True
      | OpNewObject \<Rightarrow> True
      | OpNewObjectInitialized \<Rightarrow> True
      | OpNewArray \<Rightarrow> True
      | OpNewEnum \<Rightarrow> True
      | OpNewTuple \<Rightarrow> True
      | OpNewStruct \<Rightarrow> True
      | OpNewTraitObject \<Rightarrow> True
      | OpNewLambda \<Rightarrow> True
      | OpArrayLength \<Rightarrow> True
      | OpLoadArray \<Rightarrow> True
      | OpStoreArray \<Rightarrow> True
      | OpLoadEnumElement \<Rightarrow> True
      | OpLoadEnumVariant \<Rightarrow> True
      | OpAdd \<Rightarrow> True
      | OpSub \<Rightarrow> True
      | OpMul \<Rightarrow> True
      | _ \<Rightarrow> False)"

subsection \<open>Instructions\<close>

text \<open>The fields of each variant are in the order of the source's declaration.\<close>

datatype (plugins only: code size) instruction =
    InstAdd register register register
  | InstSub register register register
  | InstNeg register register
  | InstMul register register register
  | InstDiv register register register
  | InstMod register register register
  | InstAnd register register register
  | InstOr register register register
  | InstXor register register register
  | InstNot register register
  | InstShl register register register
  | InstShr register register register
  | InstSar register register register
  | InstMov register register
  | InstLoadTupleElement register register const_pool_idx
  | InstLoadEnumElement register register const_pool_idx
  | InstLoadEnumVariant register register const_pool_idx
  | InstLoadStructField register register const_pool_idx
  | InstLoadField register register const_pool_idx
  | InstStoreField register register const_pool_idx
  | InstLoadGlobal register global_definition_id
  | InstStoreGlobal register global_definition_id
  | InstPushRegister register
  | InstConstTrue register
  | InstConstFalse register
  | InstConstUInt8 register u8
  | InstConstChar register const_pool_idx
  | InstConstInt32 register const_pool_idx
  | InstConstInt64 register const_pool_idx
  | InstConstFloat32 register const_pool_idx
  | InstConstFloat64 register const_pool_idx
  | InstConstString register const_pool_idx
  | InstTestIdentity register register register
  | InstTestEq register register register
  | InstTestNe register register register
  | InstTestGt register register register
  | InstTestGe register register register
  | InstTestLt register register register
  | InstTestLe register register register
  | InstJumpLoop u32
  | InstLoopStart
  | InstJump u32
  | InstJumpConst const_pool_idx
  | InstJumpIfFalse register u32
  | InstJumpIfFalseConst register const_pool_idx
  | InstJumpIfTrue register u32
  | InstJumpIfTrueConst register const_pool_idx
  | InstInvokeDirect register const_pool_idx
  | InstInvokeVirtual register const_pool_idx
  | InstInvokeStatic register const_pool_idx
  | InstInvokeLambda register const_pool_idx
  | InstInvokeGenericStatic register const_pool_idx
  | InstInvokeGenericDirect register const_pool_idx
  | InstNewObject register const_pool_idx
  | InstNewObjectInitialized register const_pool_idx
  | InstNewArray register const_pool_idx register
  | InstNewTuple register const_pool_idx
  | InstNewEnum register const_pool_idx
  | InstNewStruct register const_pool_idx
  | InstNewTraitObject register const_pool_idx register
  | InstNewLambda register const_pool_idx
  | InstArrayLength register register
  | InstLoadArray register register register
  | InstStoreArray register register register
  | InstRet register

subsection \<open>Registers\<close>

definition usize_max :: usize where
  "usize_max = 2 ^ 64 - 1"

definition reg_invalid :: register where
  "reg_invalid = usize_max"

definition reg_zero :: register where
  "reg_zero = 0"

definition reg_is_invalid :: "register \<Rightarrow> bool" where
  "reg_is_invalid r = (r = usize_max)"

definition reg_offset :: "register \<Rightarrow> usize \<Rightarrow> register result" where
  "reg_offset r v = (if r + v \<le> usize_max then Inr (r + v) else Inl ArithmeticOverflow)"

subsection \<open>Register types\<close>

datatype (plugins only: code size) bytecode_type_kind =
    KindUnit | KindBool | KindUInt8 | KindChar | KindInt32 | KindInt64 | KindFloat32 | KindFloat64
  | KindPtr | KindTuple | KindEnum | KindStruct | KindTypeParam | KindClass | KindTrait | KindLambda

datatype (plugins only: code size) bytecode_type =
    BtUnit
  | BtBool
  | BtUInt8
  | BtChar
  | BtInt32
  | BtInt64
  | BtFloat32
  | BtFloat64
  | BtPtr
  | BtTuple source_type_array
  | BtTypeParam u32
  | BtEnum enum_definition_id source_type_array
  | BtStruct struct_definition_id source_type_array
  | BtClass class_definition_id source_type_array
  | BtTrait trait_definition_id source_type_array
  | BtLambda source_type_array source_type

primrec bt_kind :: "bytecode_type \<Rightarrow> bytecode_type_kind" where
  "bt_kind BtUnit = KindUnit"
| "bt_kind BtBool = KindBool"
| "bt_kind BtUInt8 = KindUInt8"
| "bt_kind BtChar = KindChar"
| "bt_kind BtInt32 = KindInt32"
| "bt_kind BtInt64 = KindInt64"
| "bt_kind BtFloat32 = KindFloat32"
| "bt_kind BtFloat64 = KindFloat64"
| "bt_kind BtPtr = KindPtr"
| "bt_kind (BtTuple _) = KindTuple"
| "bt_kind (BtTypeParam _) = KindTypeParam"
| "bt_kind (BtEnum _ _) = KindEnum"
| "bt_kind (BtStruct _ _) = KindStruct"
| "bt_kind (BtClass _ _) = KindClass"
| "bt_kind (BtTrait _ _) = KindTrait"
| "bt_kind (BtLambda _ _) = KindLambda"

definition bt_is_any_float :: "bytecode_type \<Rightarrow> bool" where
  "bt_is_any_float t = (case t of BtFloat32 \<Rightarrow> True | BtFloat64 \<Rightarrow> True | _ \<Rightarrow> False)"

definition bt_is_class :: "bytecode_type \<Rightarrow> bool" where
  "bt_is_class t = (case t of BtClass _ _ \<Rightarrow> True | _ \<Rightarrow> False)"

definition bt_tuple_subtypes :: "bytecode_type \<Rightarrow> source_type_array result" where
  "bt_tuple_subtypes t = (case t of BtTuple s \<Rightarrow> Inr s | _ \<Rightarrow> Inl Unreachable)"

subsection \<open>Constant pool\<close>

datatype (plugins only: code size) const_pool_entry =
    CpString string
  | CpFloat32 u32
  | CpFloat64 u64
  | CpInt32 "32 word"
  | CpInt64 "64 word"
  | CpChar u32
  | CpClass class_definition_id source_type_array
  | CpField class_definition_id source_type_array field_id
  | CpFieldFixed class_instance_id field_id
  | CpFct fct_definition_id source_type_array
  | CpGeneric type_param_id fct_definition_id source_type_array
  | CpEnum enum_definition_id source_type_array
  | CpEnumVariant enum_definition_id source_type_array usize
  | CpEnumElement enum_definition_id source_type_array usize usize
  | CpStruct struct_definition_id source_type_array
  | CpStructField struct_definition_id source_type_array usize
  | CpTrait trait_definition_id source_type_array source_type
  | CpTupleElement source_type usize
  | CpTuple source_type_array
  | CpLambda source_type_array source_type

definition cp_to_int32 :: "const_pool_entry \<Rightarrow> 32 word option" where
  "cp_to_int32 e = (case e of CpInt32 v \<Rightarrow> Some v | _ \<Rightarrow> None)"

definition cp_to_int64 :: "const_pool_entry \<Rightarrow> 64 word option" where
  "cp_to_int64 e = (case e of CpInt64 v \<Rightarrow> Some v | _ \<Rightarrow> None)"

definition cp_to_char :: "const_pool_entry \<Rightarrow> u32 option" where
  "cp_to_char e = (case e of CpChar v \<Rightarrow> Some v | _ \<Rightarrow> None)"

definition cp_to_float32 :: "const_pool_entry \<Rightarrow> u32 option" where
  "cp_to_float32 e = (case e of CpFloat32 v \<Rightarrow> Some v | _ \<Rightarrow> None)"

definition cp_to_float64 :: "const_pool_entry \<Rightarrow> u64 option" where
  "cp_to_float64 e = (case e of CpFloat64 v \<Rightarrow> Some v | _ \<Rightarrow> None)"

definition cp_to_string :: "const_pool_entry \<Rightarrow> string option" where
  "cp_to_string e = (case e of CpString v \<Rightarrow> Some v | _ \<Rightarrow> None)"

definition cp_is_fct :: "const_pool_entry \<Rightarrow> bool" where
  "cp_is_fct e = (case e of CpFct _ _ \<Rightarrow> True | _ \<Rightarrow> False)"

subsection \<open>Functions\<close>

record bytecode_function =
  fn_code :: "u8 list"
  fn_registers :: "bytecode_type list"
  fn_const_pool :: "const_pool_entry list"
  fn_arguments :: u32
  fn_positions :: "(u32 \<times> position) list"
  fn_params :: "bytecode_type list"
  fn_return_type :: "bytecode_type option"

definition register_type :: "bytecode_function \<Rightarrow> register \<Rightarrow> bytecode_type result" where
  "register_type f r =
     rexpect (if r < length (fn_registers f) then Some (fn_registers f ! r) else None)"

definition const_pool :: "bytecode_function \<Rightarrow> const_pool_idx \<Rightarrow> const_pool_entry result" where
  "const_pool f i = vec_get (fn_const_pool f) i"

text \<open>
  \<open>slice::binary_search_by_key\<close> of the standard library: \<open>Inr i\<close> for a match at \<open>i\<close>
  (\<open>Ok\<close>), \<open>Inl i\<close> for the insertion point (\<open>Err\<close>).
\<close>

function bsearch_key :: "(u32 \<times> 'a) list \<Rightarrow> u32 \<Rightarrow> usize \<Rightarrow> usize \<Rightarrow> usize + usize" where
  "bsearch_key xs k left right =
     (if left < right then
        (let mid = left + (right - left) div 2; key = fst (xs ! mid) in
           if key < k then bsearch_key xs k (mid + 1) right
           else if k < key then bsearch_key xs k left mid
           else Inr mid)
      else Inl left)"
  by pat_completeness auto
termination
  by (relation "measure (\<lambda>(xs, k, left, right). right - left)") auto

definition offset_position :: "bytecode_function \<Rightarrow> u32 \<Rightarrow> position result" where
  "offset_position f offset =
     rbind (case bsearch_key (fn_positions f) offset 0 (length (fn_positions f)) of
              Inl index \<Rightarrow> (if index = 0 then Inl ArithmeticOverflow else Inr (index - 1))
            | Inr index \<Rightarrow> Inr index)
       (\<lambda>index. rbind (vec_get (fn_positions f) index) (\<lambda>p. Inr (snd p)))"

text \<open>The specification of \<open>offset_position\<close>: the position recorded last at or before an
  offset.\<close>

definition position_before :: "(u32 \<times> position) list \<Rightarrow> u32 \<Rightarrow> position option" where
  "position_before ps off =
     (let before = takeWhile (\<lambda>p. fst p \<le> off) ps in
      if before = [] then None else Some (snd (last before)))"

subsection \<open>Opcode numbering\<close>

lemma from_u8_to_u8 [simp]: "from_u8 (to_u8 op) = Some op"
  by (cases op) (simp_all add: from_u8_def opcodes_def)

lemma to_u8_inject [simp]: "to_u8 a = to_u8 b \<longleftrightarrow> a = b"
  by (metis from_u8_to_u8 option.inject)

lemma to_u8_less: "unat (to_u8 op) < 66"
  by (cases op) simp_all

lemma length_opcodes [simp]: "length opcodes = 66"
  by (simp add: opcodes_def)

lemma to_u8_from_u8: "from_u8 v = Some op \<Longrightarrow> to_u8 op = v"
proof -
  assume a: "from_u8 v = Some op"
  then have v: "unat v < 66" and op: "op = opcodes ! unat v"
    by (auto simp: from_u8_def word_less_nat_alt split: if_splits)
  have "map to_u8 opcodes = map word_of_nat [0..<66]"
    by (simp add: opcodes_def upt_rec)
  then have "map to_u8 opcodes ! unat v = map word_of_nat [0..<66] ! unat v" by simp
  with v op show ?thesis by simp
qed

subsection \<open>Position lookup\<close>

declare bsearch_key.simps [simp del]

lemma sorted_keys_nth_less:
  "sorted_wrt (<) (map fst xs) \<Longrightarrow> i < j \<Longrightarrow> j < length xs \<Longrightarrow> fst (xs ! i) < fst (xs ! j)"
  using sorted_wrt_nth_less [of "(<)" "map fst xs" i j] by simp

lemma bsearch_key_correct:
  assumes "sorted_wrt (<) (map fst xs)"
    and "left \<le> right" and "right \<le> length xs"
    and "\<forall>i < left. fst (xs ! i) < k"
    and "\<forall>i. right \<le> i \<and> i < length xs \<longrightarrow> k < fst (xs ! i)"
  shows "case bsearch_key xs k left right of
           Inr m \<Rightarrow> m < length xs \<and> fst (xs ! m) = k
         | Inl m \<Rightarrow> m \<le> length xs \<and> (\<forall>i < m. fst (xs ! i) < k)
                    \<and> (\<forall>i. m \<le> i \<and> i < length xs \<longrightarrow> k < fst (xs ! i))"
  using assms
proof (induction xs k left right rule: bsearch_key.induct)
  case (1 xs k left right)
  show ?case
  proof (cases "left < right")
    case True
    define mid where "mid = left + (right - left) div 2"
    have mid: "left \<le> mid" "mid < right" using True by (auto simp: mid_def)
    then have in_range: "mid < length xs" using "1.prems" by simp
    show ?thesis
    proof (cases "fst (xs ! mid)" k rule: linorder_cases)
      case less
      have "\<forall>i < mid + 1. fst (xs ! i) < k"
        using less sorted_keys_nth_less [OF "1.prems"(1) _ in_range]
        by (metis Suc_eq_plus1 less_Suc_eq order.strict_trans)
      then show ?thesis
        using "1.IH"(1) [OF True mid_def refl less] "1.prems" mid less True
        by (subst bsearch_key.simps) (simp add: Let_def mid_def)
    next
      case equal
      then show ?thesis using in_range True
        by (subst bsearch_key.simps) (simp add: Let_def mid_def)
    next
      case greater
      have "\<forall>i. mid \<le> i \<and> i < length xs \<longrightarrow> k < fst (xs ! i)"
        using greater sorted_keys_nth_less [OF "1.prems"(1), of mid]
        by (metis le_eq_less_or_eq order.strict_trans)
      moreover have "\<not> fst (xs ! mid) < k" using greater by simp
      ultimately show ?thesis
        using "1.IH"(2) [OF True mid_def refl _ greater] "1.prems" mid greater True in_range
        by (subst bsearch_key.simps) (simp add: Let_def mid_def)
    qed
  next
    case False
    with "1.prems" show ?thesis by (subst bsearch_key.simps) simp
  qed
qed

lemma takeWhile_keys_prefix:
  assumes "m \<le> length xs" and "\<forall>i < m. P (xs ! i)" and "\<forall>i. m \<le> i \<and> i < length xs \<longrightarrow> \<not> P (xs ! i)"
  shows "takeWhile P xs = take m xs"
proof (cases "m < length xs")
  case True
  then show ?thesis using assms by (intro takeWhile_eq_take_P_nth) auto
next
  case False
  then have "m = length xs" using assms(1) by simp
  then show ?thesis using assms(2) by (simp add: takeWhile_eq_all_conv) (metis in_set_conv_nth)
qed

lemma offset_position_correct:
  assumes "sorted_wrt (<) (map fst (fn_positions f))"
  shows "offset_position f off =
           (case position_before (fn_positions f) off of
              None \<Rightarrow> Inl ArithmeticOverflow
            | Some p \<Rightarrow> Inr p)"
proof -
  let ?ps = "fn_positions f"
  have s: "case bsearch_key ?ps off 0 (length ?ps) of
           Inr m \<Rightarrow> m < length ?ps \<and> fst (?ps ! m) = off
         | Inl m \<Rightarrow> m \<le> length ?ps \<and> (\<forall>i < m. fst (?ps ! i) < off)
                    \<and> (\<forall>i. m \<le> i \<and> i < length ?ps \<longrightarrow> off < fst (?ps ! i))"
    by (rule bsearch_key_correct [OF assms]) auto
  show ?thesis
  proof (cases "bsearch_key ?ps off 0 (length ?ps)")
    case (Inl m)
    with s have m: "m \<le> length ?ps" "\<forall>i < m. fst (?ps ! i) < off"
        "\<forall>i. m \<le> i \<and> i < length ?ps \<longrightarrow> off < fst (?ps ! i)"
      by simp_all
    then have "takeWhile (\<lambda>p. fst p \<le> off) ?ps = take m ?ps"
      by (intro takeWhile_keys_prefix) (auto simp: less_imp_le not_le)
    moreover have "m \<noteq> 0 \<Longrightarrow> last (take m ?ps) = ?ps ! (m - 1)"
      using m(1) by (subst last_conv_nth) auto
    ultimately show ?thesis
      using Inl m(1) by (auto simp: offset_position_def position_before_def Let_def)
  next
    case (Inr m)
    with s have m: "m < length ?ps" "fst (?ps ! m) = off" by simp_all
    then have "takeWhile (\<lambda>p. fst p \<le> off) ?ps = take (Suc m) ?ps"
      using sorted_keys_nth_less [OF assms, of m] sorted_keys_nth_less [OF assms, of _ m]
      by (intro takeWhile_keys_prefix) (auto simp: less_Suc_eq less_imp_le not_le Suc_le_eq)
    moreover have "last (take (Suc m) ?ps) = ?ps ! m"
      using m(1) by (simp add: take_Suc_conv_app_nth)
    ultimately show ?thesis
      using Inr m(1) by (auto simp: offset_position_def position_before_def Let_def)
  qed
qed
end
