(* ===== verification/BytecodeWriter.thy ===== *)
theory BytecodeWriter
  imports BytecodeData
begin

text \<open>
  The bytecode assembler (\<open>dora/src/bytecode/writer.rs\<close>).  The record \<open>writer\<close> is the struct
  \<open>BytecodeWriter\<close>, field by field; each method is a function of its arguments and the writer
  that returns the updated writer, or the panic the method would raise.  Operands are narrowed to
  \<open>u32\<close> and emitted as one byte each, or as four little-endian bytes behind a \<open>Wide\<close> prefix
  when one of them exceeds a byte.  Forward jumps are recorded as unresolved and patched by
  \<open>resolve_forward_jumps\<close> when the function is generated.
\<close>

type_synonym label = usize

record writer =
  w_code :: "u8 list"
  w_arguments :: u32
  w_label_offsets :: "bytecode_offset option list"
  w_unresolved_jump_offsets :: "(bytecode_offset \<times> bytecode_offset \<times> label) list"
  w_unresolved_jump_consts :: "(bytecode_offset \<times> const_pool_idx \<times> label) list"
  w_registers :: "bytecode_type list"
  w_const_pool :: "const_pool_entry list"
  w_positions :: "(u32 \<times> position) list"
  w_position :: "position option"
  w_params :: "bytecode_type list"
  w_return_type :: "bytecode_type option"

type_synonym wstep = "writer \<Rightarrow> writer result"

definition writer_new :: writer where
  "writer_new = \<lparr>w_code = [], w_arguments = 0, w_label_offsets = [],
     w_unresolved_jump_offsets = [], w_unresolved_jump_consts = [],
     w_registers = [], w_const_pool = [], w_positions = [], w_position = None,
     w_params = [], w_return_type = None\<rparr>"

subsection \<open>Registers, labels, constants\<close>

definition add_register :: "bytecode_type \<Rightarrow> writer \<Rightarrow> register \<times> writer" where
  "add_register ty w =
     (let w = w\<lparr>w_registers := w_registers w @ [ty]\<rparr> in (length (w_registers w) - 1, w))"

definition offset :: "writer \<Rightarrow> bytecode_offset" where
  "offset w = as_u32 (length (w_code w))"

definition create_label :: "writer \<Rightarrow> label \<times> writer" where
  "create_label w =
     (let w = w\<lparr>w_label_offsets := w_label_offsets w @ [None]\<rparr>
      in (length (w_label_offsets w) - 1, w))"

definition define_label :: "writer \<Rightarrow> label \<times> writer" where
  "define_label w =
     (let w = w\<lparr>w_label_offsets := w_label_offsets w @ [Some (as_u32 (length (w_code w)))]\<rparr>
      in (length (w_label_offsets w) - 1, w))"

definition bind_label :: "label \<Rightarrow> wstep" where
  "bind_label lbl w =
     rbind (vec_get (w_label_offsets w) lbl) (\<lambda>l.
     rbind (rassert (l = None)) (\<lambda>_.
     rbind (vec_set (w_label_offsets w) lbl (Some (offset w))) (\<lambda>ls.
     Inr (w\<lparr>w_label_offsets := ls\<rparr>))))"

definition lookup_label :: "writer \<Rightarrow> label \<Rightarrow> bytecode_offset option result" where
  "lookup_label w lbl = vec_get (w_label_offsets w) lbl"

definition set_arguments :: "u32 \<Rightarrow> writer \<Rightarrow> writer" where
  "set_arguments arguments w = w\<lparr>w_arguments := arguments\<rparr>"

definition set_params :: "bytecode_type list \<Rightarrow> writer \<Rightarrow> writer" where
  "set_params params w = w\<lparr>w_params := params\<rparr>"

definition set_return_type :: "bytecode_type option \<Rightarrow> writer \<Rightarrow> writer" where
  "set_return_type return_type w = w\<lparr>w_return_type := return_type\<rparr>"

definition set_position :: "position \<Rightarrow> writer \<Rightarrow> writer" where
  "set_position pos w = w\<lparr>w_position := Some pos\<rparr>"

definition add_const :: "const_pool_entry \<Rightarrow> writer \<Rightarrow> const_pool_idx \<times> writer" where
  "add_const value w = (length (w_const_pool w), w\<lparr>w_const_pool := w_const_pool w @ [value]\<rparr>)"

subsection \<open>Bytes\<close>

definition fits_u8 :: "u32 \<Rightarrow> bool" where
  "fits_u8 value = (value \<le> 255)"

definition emit_u8 :: "u8 \<Rightarrow> writer \<Rightarrow> writer" where
  "emit_u8 value w = w\<lparr>w_code := w_code w @ [value]\<rparr>"

definition emit_wide :: "writer \<Rightarrow> writer" where
  "emit_wide w = w\<lparr>w_code := w_code w @ [to_u8 OpWide]\<rparr>"

definition emit_opcode :: "u32 \<Rightarrow> wstep" where
  "emit_opcode code w =
     (if code \<ge> 255 then
        (let w = emit_u8 255 w in
         rbind (rassert (code < 512)) (\<lambda>_. Inr (emit_u8 (as_u8 (code - 255)) w)))
      else Inr (emit_u8 (as_u8 code) w))"

definition emit_u32 :: "u32 \<Rightarrow> writer \<Rightarrow> writer" where
  "emit_u32 value w = w\<lparr>w_code := w_code w @
     [as_u8 (value AND 255),
      as_u8 (drop_bit 8 value AND 255),
      as_u8 (drop_bit 16 value AND 255),
      as_u8 (drop_bit 24 value AND 255)]\<rparr>"

definition patch_u32 :: "bytecode_offset \<Rightarrow> u32 \<Rightarrow> wstep" where
  "patch_u32 off value w =
     (let i = unat off in
      rbind (vec_set (w_code w) i (as_u8 (value AND 255))) (\<lambda>c.
      rbind (vec_set c (i + 1) (as_u8 (drop_bit 8 value AND 255))) (\<lambda>c.
      rbind (vec_set c (i + 2) (as_u8 (drop_bit 16 value AND 255))) (\<lambda>c.
      rbind (vec_set c (i + 3) (as_u8 (drop_bit 24 value AND 255))) (\<lambda>c.
      Inr (w\<lparr>w_code := c\<rparr>))))))"

definition patch_const :: "const_pool_idx \<Rightarrow> const_pool_entry \<Rightarrow> wstep" where
  "patch_const idx entry w =
     rbind (vec_set (w_const_pool w) idx entry) (\<lambda>p. Inr (w\<lparr>w_const_pool := p\<rparr>))"

definition bytecode_at :: "writer \<Rightarrow> bytecode_offset \<Rightarrow> opcode result" where
  "bytecode_at w off = rbind (vec_get (w_code w) (unat off)) (\<lambda>b. rexpect (from_u8 b))"

subsection \<open>Instructions with fixed operands\<close>

text \<open>A position equal to the last recorded one is dropped, otherwise it is recorded at the
  current code offset.\<close>

definition emit_position :: wstep where
  "emit_position w =
     (let off = as_u32 (length (w_code w)) in
      rbind (rassert (w_position w \<noteq> None)) (\<lambda>_.
      (let pos = the (w_position w);
           last_position =
             (if w_positions w = [] then None else Some (snd (last (w_positions w)))) in
       if last_position = Some pos
       then Inr (w\<lparr>w_position := None\<rparr>)
       else Inr (w\<lparr>w_positions := w_positions w @ [(off, pos)], w_position := None\<rparr>))))"

definition emit_values :: "opcode \<Rightarrow> u32 list \<Rightarrow> wstep" where
  "emit_values op values w =
     rbind (if needs_position op then emit_position w
            else rbind (rassert (w_position w = None)) (\<lambda>_. Inr w)) (\<lambda>w.
     (let is_wide = list_ex (\<lambda>val. val > 255) values in
      if is_wide then
        (let w = emit_wide w in
         rbind (emit_opcode (u8_as_u32 (to_u8 op)) w) (\<lambda>w.
         Inr (fold emit_u32 values w)))
      else
        rbind (emit_opcode (u8_as_u32 (to_u8 op)) w) (\<lambda>w.
        Inr (fold (\<lambda>value. emit_u8 (as_u8 value)) values w))))"

definition emit_op :: "opcode \<Rightarrow> wstep" where
  "emit_op inst w = emit_values inst [] w"

definition emit_jmp :: "opcode \<Rightarrow> u32 \<Rightarrow> wstep" where
  "emit_jmp inst off w = emit_values inst [off] w"

definition emit_reg3 :: "opcode \<Rightarrow> register \<Rightarrow> register \<Rightarrow> register \<Rightarrow> wstep" where
  "emit_reg3 inst r1 r2 r3 w = emit_values inst [as_u32 r1, as_u32 r2, as_u32 r3] w"

definition emit_reg2 :: "opcode \<Rightarrow> register \<Rightarrow> register \<Rightarrow> wstep" where
  "emit_reg2 inst r1 r2 w = emit_values inst [as_u32 r1, as_u32 r2] w"

definition emit_reg2_idx :: "opcode \<Rightarrow> register \<Rightarrow> register \<Rightarrow> const_pool_idx \<Rightarrow> wstep" where
  "emit_reg2_idx inst r1 r2 idx w = emit_values inst [as_u32 r1, as_u32 r2, as_u32 idx] w"

definition emit_reg1 :: "opcode \<Rightarrow> register \<Rightarrow> wstep" where
  "emit_reg1 inst r1 w = emit_values inst [as_u32 r1] w"

definition emit_reg1_idx :: "opcode \<Rightarrow> register \<Rightarrow> const_pool_idx \<Rightarrow> wstep" where
  "emit_reg1_idx inst r1 idx w = emit_values inst [as_u32 r1, as_u32 idx] w"

definition emit_reg1_uint8 :: "opcode \<Rightarrow> register \<Rightarrow> u8 \<Rightarrow> wstep" where
  "emit_reg1_uint8 inst r1 value w =
     rbind (emit_values inst [as_u32 r1] w) (\<lambda>w. Inr (emit_u8 value w))"

definition emit_new :: "opcode \<Rightarrow> register \<Rightarrow> const_pool_idx \<Rightarrow> wstep" where
  "emit_new inst r1 idx w = emit_values inst [as_u32 r1, as_u32 idx] w"

definition emit_new_arr :: "opcode \<Rightarrow> register \<Rightarrow> const_pool_idx \<Rightarrow> register \<Rightarrow> wstep" where
  "emit_new_arr inst r1 idx lth w = emit_values inst [as_u32 r1, as_u32 idx, as_u32 lth] w"

definition emit_fct :: "opcode \<Rightarrow> register \<Rightarrow> const_pool_idx \<Rightarrow> wstep" where
  "emit_fct inst r1 idx w = emit_values inst [as_u32 r1, as_u32 idx] w"

definition emit_access_field :: "opcode \<Rightarrow> register \<Rightarrow> register \<Rightarrow> const_pool_idx \<Rightarrow> wstep" where
  "emit_access_field inst r1 r2 field_idx w =
     emit_values inst [as_u32 r1, as_u32 r2, as_u32 field_idx] w"

definition emit_access_tuple :: "opcode \<Rightarrow> register \<Rightarrow> register \<Rightarrow> const_pool_idx \<Rightarrow> wstep" where
  "emit_access_tuple inst r1 r2 idx w = emit_values inst [as_u32 r1, as_u32 r2, as_u32 idx] w"

definition emit_access_enum :: "opcode \<Rightarrow> register \<Rightarrow> register \<Rightarrow> const_pool_idx \<Rightarrow> wstep" where
  "emit_access_enum inst r1 r2 idx w = emit_values inst [as_u32 r1, as_u32 r2, as_u32 idx] w"

definition emit_load_global_inst :: "opcode \<Rightarrow> register \<Rightarrow> global_definition_id \<Rightarrow> wstep" where
  "emit_load_global_inst inst r1 gid w = emit_values inst [as_u32 r1, as_u32 (unat gid)] w"

definition emit_store_global_inst :: "opcode \<Rightarrow> register \<Rightarrow> global_definition_id \<Rightarrow> wstep" where
  "emit_store_global_inst inst r1 gid w = emit_values inst [as_u32 r1, as_u32 (unat gid)] w"

subsection \<open>One method per instruction\<close>

definition emit_add :: "register \<Rightarrow> register \<Rightarrow> register \<Rightarrow> wstep" where
  "emit_add dest lhs rhs w = emit_reg3 OpAdd dest lhs rhs w"

definition emit_and :: "register \<Rightarrow> register \<Rightarrow> register \<Rightarrow> wstep" where
  "emit_and dest lhs rhs w = emit_reg3 OpAnd dest lhs rhs w"

definition emit_or :: "register \<Rightarrow> register \<Rightarrow> register \<Rightarrow> wstep" where
  "emit_or dest lhs rhs w = emit_reg3 OpOr dest lhs rhs w"

definition emit_xor :: "register \<Rightarrow> register \<Rightarrow> register \<Rightarrow> wstep" where
  "emit_xor dest lhs rhs w = emit_reg3 OpXor dest lhs rhs w"

definition emit_div :: "register \<Rightarrow> register \<Rightarrow> register \<Rightarrow> wstep" where
  "emit_div dest lhs rhs w = emit_reg3 OpDiv dest lhs rhs w"

definition emit_load_struct_field :: "register \<Rightarrow> register \<Rightarrow> const_pool_idx \<Rightarrow> wstep" where
  "emit_load_struct_field dest obj field_idx w =
     emit_access_field OpLoadStructField dest obj field_idx w"

definition emit_load_field :: "register \<Rightarrow> register \<Rightarrow> const_pool_idx \<Rightarrow> wstep" where
  "emit_load_field dest obj field_idx w = emit_access_field OpLoadField dest obj field_idx w"

definition emit_store_field :: "register \<Rightarrow> register \<Rightarrow> const_pool_idx \<Rightarrow> wstep" where
  "emit_store_field src obj field_idx w = emit_access_field OpStoreField src obj field_idx w"

definition emit_const_char :: "register \<Rightarrow> u32 \<Rightarrow> wstep" where
  "emit_const_char dest value w =
     (let (idx, w) = add_const (CpChar value) w in emit_reg1_idx OpConstChar dest idx w)"

definition emit_const_uint8 :: "register \<Rightarrow> u8 \<Rightarrow> wstep" where
  "emit_const_uint8 dest value w = emit_reg1_uint8 OpConstUInt8 dest value w"

definition emit_const_int32 :: "register \<Rightarrow> 32 word \<Rightarrow> wstep" where
  "emit_const_int32 dest value w =
     (let (idx, w) = add_const (CpInt32 value) w in emit_reg1_idx OpConstInt32 dest idx w)"

definition emit_const_int64 :: "register \<Rightarrow> 64 word \<Rightarrow> wstep" where
  "emit_const_int64 dest value w =
     (let (idx, w) = add_const (CpInt64 value) w in emit_reg1_idx OpConstInt64 dest idx w)"

definition emit_const_float32 :: "register \<Rightarrow> u32 \<Rightarrow> wstep" where
  "emit_const_float32 dest value w =
     (let (idx, w) = add_const (CpFloat32 value) w in emit_reg1_idx OpConstFloat32 dest idx w)"

definition emit_const_float64 :: "register \<Rightarrow> u64 \<Rightarrow> wstep" where
  "emit_const_float64 dest value w =
     (let (idx, w) = add_const (CpFloat64 value) w in emit_reg1_idx OpConstFloat64 dest idx w)"

definition emit_const_string :: "register \<Rightarrow> string \<Rightarrow> wstep" where
  "emit_const_string dest value w =
     (let (idx, w) = add_const (CpString value) w in emit_reg1_idx OpConstString dest idx w)"

definition emit_const_true :: "register \<Rightarrow> wstep" where
  "emit_const_true dest w = emit_reg1 OpConstTrue dest w"

definition emit_const_false :: "register \<Rightarrow> wstep" where
  "emit_const_false dest w = emit_reg1 OpConstFalse dest w"

definition emit_not :: "register \<Rightarrow> register \<Rightarrow> wstep" where
  "emit_not dest src w = emit_reg2 OpNot dest src w"

definition emit_mod :: "register \<Rightarrow> register \<Rightarrow> register \<Rightarrow> wstep" where
  "emit_mod dest lhs rhs w = emit_reg3 OpMod dest lhs rhs w"

definition emit_mul :: "register \<Rightarrow> register \<Rightarrow> register \<Rightarrow> wstep" where
  "emit_mul dest lhs rhs w = emit_reg3 OpMul dest lhs rhs w"

definition emit_neg :: "register \<Rightarrow> register \<Rightarrow> wstep" where
  "emit_neg dest src w = emit_reg2 OpNeg dest src w"

definition emit_shl :: "register \<Rightarrow> register \<Rightarrow> register \<Rightarrow> wstep" where
  "emit_shl dest lhs rhs w = emit_reg3 OpShl dest lhs rhs w"

definition emit_shr :: "register \<Rightarrow> register \<Rightarrow> register \<Rightarrow> wstep" where
  "emit_shr dest lhs rhs w = emit_reg3 OpShr dest lhs rhs w"

definition emit_sar :: "register \<Rightarrow> register \<Rightarrow> register \<Rightarrow> wstep" where
  "emit_sar dest lhs rhs w = emit_reg3 OpSar dest lhs rhs w"

definition emit_sub :: "register \<Rightarrow> register \<Rightarrow> register \<Rightarrow> wstep" where
  "emit_sub dest lhs rhs w = emit_reg3 OpSub dest lhs rhs w"

definition emit_mov :: "register \<Rightarrow> register \<Rightarrow> wstep" where
  "emit_mov dest src w = emit_reg2 OpMov dest src w"

definition emit_load_tuple_element :: "register \<Rightarrow> register \<Rightarrow> const_pool_idx \<Rightarrow> wstep" where
  "emit_load_tuple_element dest src idx w = emit_access_tuple OpLoadTupleElement dest src idx w"

definition emit_load_enum_element :: "register \<Rightarrow> register \<Rightarrow> const_pool_idx \<Rightarrow> wstep" where
  "emit_load_enum_element dest src idx w = emit_access_enum OpLoadEnumElement dest src idx w"

definition emit_load_enum_variant :: "register \<Rightarrow> register \<Rightarrow> const_pool_idx \<Rightarrow> wstep" where
  "emit_load_enum_variant dest src idx w = emit_reg2_idx OpLoadEnumVariant dest src idx w"

definition emit_ret :: "register \<Rightarrow> wstep" where
  "emit_ret src w = emit_reg1 OpRet src w"

definition emit_test_identity :: "register \<Rightarrow> register \<Rightarrow> register \<Rightarrow> wstep" where
  "emit_test_identity dest lhs rhs w = emit_reg3 OpTestIdentity dest lhs rhs w"

definition emit_test_eq :: "register \<Rightarrow> register \<Rightarrow> register \<Rightarrow> wstep" where
  "emit_test_eq dest lhs rhs w = emit_reg3 OpTestEq dest lhs rhs w"

definition emit_test_ne :: "register \<Rightarrow> register \<Rightarrow> register \<Rightarrow> wstep" where
  "emit_test_ne dest lhs rhs w = emit_reg3 OpTestNe dest lhs rhs w"

definition emit_test_gt :: "register \<Rightarrow> register \<Rightarrow> register \<Rightarrow> wstep" where
  "emit_test_gt dest lhs rhs w = emit_reg3 OpTestGt dest lhs rhs w"

definition emit_test_ge :: "register \<Rightarrow> register \<Rightarrow> register \<Rightarrow> wstep" where
  "emit_test_ge dest lhs rhs w = emit_reg3 OpTestGe dest lhs rhs w"

definition emit_test_lt :: "register \<Rightarrow> register \<Rightarrow> register \<Rightarrow> wstep" where
  "emit_test_lt dest lhs rhs w = emit_reg3 OpTestLt dest lhs rhs w"

definition emit_test_le :: "register \<Rightarrow> register \<Rightarrow> register \<Rightarrow> wstep" where
  "emit_test_le dest lhs rhs w = emit_reg3 OpTestLe dest lhs rhs w"

definition emit_load_global :: "register \<Rightarrow> global_definition_id \<Rightarrow> wstep" where
  "emit_load_global dest gid w = emit_load_global_inst OpLoadGlobal dest gid w"

definition emit_store_global :: "register \<Rightarrow> global_definition_id \<Rightarrow> wstep" where
  "emit_store_global src gid w = emit_store_global_inst OpStoreGlobal src gid w"

definition emit_push_register :: "register \<Rightarrow> wstep" where
  "emit_push_register src w = emit_reg1 OpPushRegister src w"

definition emit_invoke_direct :: "register \<Rightarrow> const_pool_idx \<Rightarrow> wstep" where
  "emit_invoke_direct dest fid w = emit_fct OpInvokeDirect dest fid w"

definition emit_invoke_virtual :: "register \<Rightarrow> const_pool_idx \<Rightarrow> wstep" where
  "emit_invoke_virtual dest idx w = emit_fct OpInvokeVirtual dest idx w"

definition emit_invoke_lambda :: "register \<Rightarrow> const_pool_idx \<Rightarrow> wstep" where
  "emit_invoke_lambda dest idx w = emit_reg1_idx OpInvokeLambda dest idx w"

definition emit_invoke_static :: "register \<Rightarrow> const_pool_idx \<Rightarrow> wstep" where
  "emit_invoke_static dest idx w = emit_fct OpInvokeStatic dest idx w"

definition emit_invoke_generic_static :: "register \<Rightarrow> const_pool_idx \<Rightarrow> wstep" where
  "emit_invoke_generic_static dest idx w = emit_fct OpInvokeGenericStatic dest idx w"

definition emit_invoke_generic_direct :: "register \<Rightarrow> const_pool_idx \<Rightarrow> wstep" where
  "emit_invoke_generic_direct dest idx w = emit_fct OpInvokeGenericDirect dest idx w"

definition emit_new_object :: "register \<Rightarrow> const_pool_idx \<Rightarrow> wstep" where
  "emit_new_object dest idx w = emit_new OpNewObject dest idx w"

definition emit_new_object_initialized :: "register \<Rightarrow> const_pool_idx \<Rightarrow> wstep" where
  "emit_new_object_initialized dest idx w = emit_new OpNewObjectInitialized dest idx w"

definition emit_new_array :: "register \<Rightarrow> const_pool_idx \<Rightarrow> register \<Rightarrow> wstep" where
  "emit_new_array dest cls_id len w = emit_new_arr OpNewArray dest cls_id len w"

definition emit_new_tuple :: "register \<Rightarrow> const_pool_idx \<Rightarrow> wstep" where
  "emit_new_tuple dest idx w = emit_values OpNewTuple [as_u32 dest, as_u32 idx] w"

definition emit_new_enum :: "register \<Rightarrow> const_pool_idx \<Rightarrow> wstep" where
  "emit_new_enum dest idx w = emit_values OpNewEnum [as_u32 dest, as_u32 idx] w"

definition emit_new_struct :: "register \<Rightarrow> const_pool_idx \<Rightarrow> wstep" where
  "emit_new_struct dest idx w = emit_values OpNewStruct [as_u32 dest, as_u32 idx] w"

definition emit_new_trait_object :: "register \<Rightarrow> const_pool_idx \<Rightarrow> register \<Rightarrow> wstep" where
  "emit_new_trait_object dest idx src w =
     emit_values OpNewTraitObject [as_u32 dest, as_u32 idx, as_u32 src] w"

definition emit_new_lambda :: "register \<Rightarrow> const_pool_idx \<Rightarrow> wstep" where
  "emit_new_lambda dest idx w = emit_values OpNewLambda [as_u32 dest, as_u32 idx] w"

definition emit_array_length :: "register \<Rightarrow> register \<Rightarrow> wstep" where
  "emit_array_length dest array w = emit_reg2 OpArrayLength dest array w"

definition emit_store_array :: "register \<Rightarrow> register \<Rightarrow> register \<Rightarrow> wstep" where
  "emit_store_array src array idx w = emit_reg3 OpStoreArray src array idx w"

definition emit_load_array :: "register \<Rightarrow> register \<Rightarrow> register \<Rightarrow> wstep" where
  "emit_load_array dest array idx w = emit_reg3 OpLoadArray dest array idx w"

subsection \<open>Jumps\<close>

definition emit_jmp_forward ::
  "opcode \<Rightarrow> opcode \<Rightarrow> register option \<Rightarrow> label \<Rightarrow> wstep" where
  "emit_jmp_forward inst inst_const cond lbl w =
     rbind (rassert (fits_u8 (u8_as_u32 (to_u8 inst)))) (\<lambda>_.
     rbind (rassert (fits_u8 (u8_as_u32 (to_u8 inst_const)))) (\<lambda>_.
     (let start = offset w in
      if (case cond of None \<Rightarrow> False | Some c \<Rightarrow> \<not> fits_u8 (as_u32 c))
         \<or> \<not> fits_u8 (as_u32 (length (w_const_pool w)))
      then
        (let w = emit_wide w in
         rbind (emit_opcode (u8_as_u32 (to_u8 inst)) w) (\<lambda>w.
         (let w = (case cond of None \<Rightarrow> w | Some c \<Rightarrow> emit_u32 (as_u32 c) w);
              address = offset w;
              w = emit_u32 0 w in
          Inr (w\<lparr>w_unresolved_jump_offsets :=
                 w_unresolved_jump_offsets w @ [(start, address, lbl)]\<rparr>))))
      else
        rbind (emit_opcode (u8_as_u32 (to_u8 inst_const)) w) (\<lambda>w.
        (let w = (case cond of None \<Rightarrow> w | Some c \<Rightarrow> emit_u8 (as_u8 (as_u32 c)) w);
             (idx, w) = add_const (CpInt32 0) w;
             w = emit_u8 (as_u8 (as_u32 idx)) w in
         Inr (w\<lparr>w_unresolved_jump_consts :=
                w_unresolved_jump_consts w @ [(start, idx, lbl)]\<rparr>))))))"

definition emit_jump_if_false :: "register \<Rightarrow> label \<Rightarrow> wstep" where
  "emit_jump_if_false opnd lbl w =
     rbind (lookup_label w lbl) (\<lambda>l.
     rbind (rassert (l = None)) (\<lambda>_.
     emit_jmp_forward OpJumpIfFalse OpJumpIfFalseConst (Some opnd) lbl w))"

definition emit_jump_if_true :: "register \<Rightarrow> label \<Rightarrow> wstep" where
  "emit_jump_if_true opnd lbl w =
     rbind (lookup_label w lbl) (\<lambda>l.
     rbind (rassert (l = None)) (\<lambda>_.
     emit_jmp_forward OpJumpIfTrue OpJumpIfTrueConst (Some opnd) lbl w))"

definition emit_jump :: "label \<Rightarrow> wstep" where
  "emit_jump lbl w =
     rbind (lookup_label w lbl) (\<lambda>l.
     rbind (rassert (l = None)) (\<lambda>_.
     emit_jmp_forward OpJump OpJumpConst None lbl w))"

definition emit_jump_loop :: "label \<Rightarrow> wstep" where
  "emit_jump_loop lbl w =
     rbind (lookup_label w lbl) (\<lambda>l.
     rbind (rexpect l) (\<lambda>off.
     rbind (rassert (unat off \<le> length (w_code w))) (\<lambda>_.
     (let distance = as_u32 (length (w_code w) - unat off) in
      emit_jmp OpJumpLoop distance w))))"

definition emit_loop_start :: wstep where
  "emit_loop_start w = emit_op OpLoopStart w"

subsection \<open>Generation\<close>

definition resolve_jump_offset :: "bytecode_offset \<times> bytecode_offset \<times> label \<Rightarrow> wstep" where
  "resolve_jump_offset u w =
     (case u of (start, address, lbl) \<Rightarrow>
      rbind (lookup_label w lbl) (\<lambda>l.
      rbind (rexpect l) (\<lambda>target.
      rbind (rassert (unat start < unat target)) (\<lambda>_.
      (let distance = as_u32 (unat target - unat start) in
       patch_u32 address distance w)))))"

definition immediate_jump :: "opcode \<Rightarrow> opcode result" where
  "immediate_jump inst =
     (case inst of
        OpJumpIfFalseConst \<Rightarrow> Inr OpJumpIfFalse
      | OpJumpIfTrueConst \<Rightarrow> Inr OpJumpIfTrue
      | OpJumpConst \<Rightarrow> Inr OpJump
      | _ \<Rightarrow> Inl Unreachable)"

definition resolve_jump_const :: "bytecode_offset \<times> const_pool_idx \<times> label \<Rightarrow> wstep" where
  "resolve_jump_const u w =
     (case u of (start, const_idx, lbl) \<Rightarrow>
      rbind (lookup_label w lbl) (\<lambda>l.
      rbind (rexpect l) (\<lambda>target.
      rbind (rassert (unat start < unat target)) (\<lambda>_.
      (let distance = as_u32 (unat target - unat start) in
       rbind (bytecode_at w start) (\<lambda>inst.
       if inst \<noteq> OpWide \<and> fits_u8 distance then
         rbind (immediate_jump inst) (\<lambda>inst_imm.
         (let jump_target = (if inst = OpJumpConst then 1 else 2) in
          rbind (vec_set (w_code w) (unat start) (to_u8 inst_imm)) (\<lambda>c.
          rbind (vec_set c (unat start + jump_target) (as_u8 distance)) (\<lambda>c.
          Inr (w\<lparr>w_code := c\<rparr>)))))
       else patch_const const_idx (CpInt32 distance) w))))))"

primrec for_each :: "('a \<Rightarrow> 's \<Rightarrow> 's result) \<Rightarrow> 'a list \<Rightarrow> 's \<Rightarrow> 's result" where
  "for_each f [] s = Inr s"
| "for_each f (x # xs) s = rbind (f x s) (for_each f xs)"

definition resolve_forward_jumps :: wstep where
  "resolve_forward_jumps w =
     (let unresolved_jumps = w_unresolved_jump_offsets w;
          w = w\<lparr>w_unresolved_jump_offsets := []\<rparr> in
      rbind (for_each resolve_jump_offset unresolved_jumps w) (\<lambda>w.
      (let unresolved_jumps = w_unresolved_jump_consts w;
           w = w\<lparr>w_unresolved_jump_consts := []\<rparr> in
       for_each resolve_jump_const unresolved_jumps w)))"

definition generate :: "writer \<Rightarrow> bytecode_function result" where
  "generate w =
     rbind (resolve_forward_jumps w) (\<lambda>w.
     Inr \<lparr>fn_code = w_code w, fn_registers = w_registers w, fn_const_pool = w_const_pool w,
          fn_arguments = w_arguments w, fn_positions = w_positions w, fn_params = [],
          fn_return_type = None\<rparr>)"

definition generate_with_registers ::
  "bytecode_type list \<Rightarrow> writer \<Rightarrow> bytecode_function result" where
  "generate_with_registers registers w =
     rbind (resolve_forward_jumps w) (\<lambda>w.
     rbind (rassert (w_registers w = [])) (\<lambda>_.
     Inr \<lparr>fn_code = w_code w, fn_registers = registers, fn_const_pool = w_const_pool w,
          fn_arguments = w_arguments w, fn_positions = w_positions w, fn_params = [],
          fn_return_type = None\<rparr>))"

end
