(* ===== verification/BytecodeReader.thy ===== *)
theory BytecodeReader
  imports BytecodeData
begin

text \<open>
  The bytecode decoder (\<open>dora/src/bytecode/reader.rs\<close>).  \<open>reader\<close> is the struct
  \<open>BytecodeReader\<close>; every read returns the value and the advanced reader, and an access past
  the end of the code is the panic of the slice index.  \<open>read_instruction\<close> is one \<open>match\<close>
  over the opcode in the source; its arms are three definitions here, in the order of the source,
  each passing the remaining opcodes on to the next.  The visitor trait is the type
  \<open>visit_call\<close> of its methods' calls: a visitor is a function that performs a call on its own
  state and may panic, as the trait's default methods do.
\<close>

record reader =
  r_code :: "u8 list"
  r_offset :: usize
  r_width :: operand_width

definition reader_new :: "u8 list \<Rightarrow> reader" where
  "reader_new code = \<lparr>r_code = code, r_offset = 0, r_width = Normal\<rparr>"

definition read_byte :: "reader \<Rightarrow> (u8 \<times> reader) result" where
  "read_byte r =
     rbind (vec_get (r_code r) (r_offset r)) (\<lambda>value.
     Inr (value, r\<lparr>r_offset := r_offset r + 1\<rparr>))"

definition read_wide :: "reader \<Rightarrow> (u32 \<times> reader) result" where
  "read_wide r =
     rbind (read_byte r) (\<lambda>(v1, r).
     rbind (read_byte r) (\<lambda>(v2, r).
     rbind (read_byte r) (\<lambda>(v3, r).
     rbind (read_byte r) (\<lambda>(v4, r).
     Inr (push_bit 24 (u8_as_u32 v4) OR push_bit 16 (u8_as_u32 v3)
            OR push_bit 8 (u8_as_u32 v2) OR u8_as_u32 v1, r)))))"

definition read_opcode :: "reader \<Rightarrow> (opcode \<times> reader) result" where
  "read_opcode r =
     rbind (read_byte r) (\<lambda>(opc, r).
     rbind (if opc = to_u8 OpWide then read_byte (r\<lparr>r_width := Wide\<rparr>)
            else Inr (opc, r\<lparr>r_width := Normal\<rparr>)) (\<lambda>(opc, r).
     rbind (rexpect (from_u8 opc)) (\<lambda>op. Inr (op, r))))"

definition read_index :: "reader \<Rightarrow> (u32 \<times> reader) result" where
  "read_index r =
     (case r_width r of
        Normal \<Rightarrow> rbind (read_byte r) (\<lambda>(b, r). Inr (u8_as_u32 b, r))
      | Wide \<Rightarrow> read_wide r)"

definition read_register :: "reader \<Rightarrow> (register \<times> reader) result" where
  "read_register r = rbind (read_index r) (\<lambda>(v, r). Inr (unat v, r))"

definition global_usize_to_id :: "usize \<Rightarrow> global_definition_id result" where
  "global_usize_to_id v = rexpect (if v < 2 ^ 32 then Some (as_u32 v) else None)"

definition read_global :: "reader \<Rightarrow> (global_definition_id \<times> reader) result" where
  "read_global r =
     rbind (read_index r) (\<lambda>(v, r). rbind (global_usize_to_id (unat v)) (\<lambda>g. Inr (g, r)))"

definition read_const_pool_idx :: "reader \<Rightarrow> (const_pool_idx \<times> reader) result" where
  "read_const_pool_idx r = rbind (read_index r) (\<lambda>(v, r). Inr (unat v, r))"

definition read_offset :: "reader \<Rightarrow> (u32 \<times> reader) result" where
  "read_offset r = read_index r"

definition read_opcode_at :: "u8 list \<Rightarrow> usize \<Rightarrow> opcode result" where
  "read_opcode_at code off =
     rbind (read_opcode \<lparr>r_code = code, r_offset = off, r_width = Normal\<rparr>) (\<lambda>(op, _). Inr op)"

definition fn_read_opcode :: "bytecode_function \<Rightarrow> bytecode_offset \<Rightarrow> opcode result" where
  "fn_read_opcode f off = read_opcode_at (fn_code f) (unat off)"

subsection \<open>Instructions\<close>

definition read_invoke_new :: "opcode \<Rightarrow> reader \<Rightarrow> (instruction \<times> reader) result" where
  "read_invoke_new op r =
     (case op of
        OpInvokeDirect \<Rightarrow>
          rbind (read_register r) (\<lambda>(dest, r).
          rbind (read_const_pool_idx r) (\<lambda>(fct, r).
          Inr (InstInvokeDirect dest fct, r)))
      | OpInvokeVirtual \<Rightarrow>
          rbind (read_register r) (\<lambda>(dest, r).
          rbind (read_const_pool_idx r) (\<lambda>(fct, r).
          Inr (InstInvokeVirtual dest fct, r)))
      | OpInvokeStatic \<Rightarrow>
          rbind (read_register r) (\<lambda>(dest, r).
          rbind (read_const_pool_idx r) (\<lambda>(fct, r).
          Inr (InstInvokeStatic dest fct, r)))
      | OpInvokeLambda \<Rightarrow>
          rbind (read_register r) (\<lambda>(dest, r).
          rbind (read_const_pool_idx r) (\<lambda>(idx, r).
          Inr (InstInvokeLambda dest idx, r)))
      | OpInvokeGenericStatic \<Rightarrow>
          rbind (read_register r) (\<lambda>(dest, r).
          rbind (read_const_pool_idx r) (\<lambda>(fct, r).
          Inr (InstInvokeGenericStatic dest fct, r)))
      | OpInvokeGenericDirect \<Rightarrow>
          rbind (read_register r) (\<lambda>(dest, r).
          rbind (read_const_pool_idx r) (\<lambda>(fct, r).
          Inr (InstInvokeGenericDirect dest fct, r)))
      | OpNewObject \<Rightarrow>
          rbind (read_register r) (\<lambda>(dest, r).
          rbind (read_const_pool_idx r) (\<lambda>(cls, r).
          Inr (InstNewObject dest cls, r)))
      | OpNewObjectInitialized \<Rightarrow>
          rbind (read_register r) (\<lambda>(dest, r).
          rbind (read_const_pool_idx r) (\<lambda>(cls, r).
          Inr (InstNewObjectInitialized dest cls, r)))
      | OpNewArray \<Rightarrow>
          rbind (read_register r) (\<lambda>(dest, r).
          rbind (read_const_pool_idx r) (\<lambda>(cls, r).
          rbind (read_register r) (\<lambda>(len, r).
          Inr (InstNewArray dest cls len, r))))
      | OpNewTuple \<Rightarrow>
          rbind (read_register r) (\<lambda>(dest, r).
          rbind (read_const_pool_idx r) (\<lambda>(idx, r).
          Inr (InstNewTuple dest idx, r)))
      | OpNewEnum \<Rightarrow>
          rbind (read_register r) (\<lambda>(dest, r).
          rbind (read_const_pool_idx r) (\<lambda>(idx, r).
          Inr (InstNewEnum dest idx, r)))
      | OpNewStruct \<Rightarrow>
          rbind (read_register r) (\<lambda>(dest, r).
          rbind (read_const_pool_idx r) (\<lambda>(idx, r).
          Inr (InstNewStruct dest idx, r)))
      | OpNewTraitObject \<Rightarrow>
          rbind (read_register r) (\<lambda>(dest, r).
          rbind (read_const_pool_idx r) (\<lambda>(idx, r).
          rbind (read_register r) (\<lambda>(src, r).
          Inr (InstNewTraitObject dest idx src, r))))
      | OpNewLambda \<Rightarrow>
          rbind (read_register r) (\<lambda>(dest, r).
          rbind (read_const_pool_idx r) (\<lambda>(idx, r).
          Inr (InstNewLambda dest idx, r)))
      | OpArrayLength \<Rightarrow>
          rbind (read_register r) (\<lambda>(dest, r).
          rbind (read_register r) (\<lambda>(arr, r).
          Inr (InstArrayLength dest arr, r)))
      | OpLoadArray \<Rightarrow>
          rbind (read_register r) (\<lambda>(dest, r).
          rbind (read_register r) (\<lambda>(arr, r).
          rbind (read_register r) (\<lambda>(idx, r).
          Inr (InstLoadArray dest arr idx, r))))
      | OpStoreArray \<Rightarrow>
          rbind (read_register r) (\<lambda>(src, r).
          rbind (read_register r) (\<lambda>(arr, r).
          rbind (read_register r) (\<lambda>(idx, r).
          Inr (InstStoreArray src arr idx, r))))
      | OpRet \<Rightarrow>
          rbind (read_register r) (\<lambda>(opnd, r).
          Inr (InstRet opnd, r))
      | _ \<Rightarrow> Inl Unreachable)"

definition read_const_test_jump :: "opcode \<Rightarrow> reader \<Rightarrow> (instruction \<times> reader) result" where
  "read_const_test_jump op r =
     (case op of
        OpPushRegister \<Rightarrow>
          rbind (read_register r) (\<lambda>(src, r).
          Inr (InstPushRegister src, r))
      | OpConstTrue \<Rightarrow>
          rbind (read_register r) (\<lambda>(dest, r).
          Inr (InstConstTrue dest, r))
      | OpConstFalse \<Rightarrow>
          rbind (read_register r) (\<lambda>(dest, r).
          Inr (InstConstFalse dest, r))
      | OpConstChar \<Rightarrow>
          rbind (read_register r) (\<lambda>(dest, r).
          rbind (read_const_pool_idx r) (\<lambda>(idx, r).
          Inr (InstConstChar dest idx, r)))
      | OpConstUInt8 \<Rightarrow>
          rbind (read_register r) (\<lambda>(dest, r).
          rbind (read_byte r) (\<lambda>(value, r).
          Inr (InstConstUInt8 dest value, r)))
      | OpConstInt32 \<Rightarrow>
          rbind (read_register r) (\<lambda>(dest, r).
          rbind (read_const_pool_idx r) (\<lambda>(idx, r).
          Inr (InstConstInt32 dest idx, r)))
      | OpConstInt64 \<Rightarrow>
          rbind (read_register r) (\<lambda>(dest, r).
          rbind (read_const_pool_idx r) (\<lambda>(idx, r).
          Inr (InstConstInt64 dest idx, r)))
      | OpConstFloat32 \<Rightarrow>
          rbind (read_register r) (\<lambda>(dest, r).
          rbind (read_const_pool_idx r) (\<lambda>(idx, r).
          Inr (InstConstFloat32 dest idx, r)))
      | OpConstFloat64 \<Rightarrow>
          rbind (read_register r) (\<lambda>(dest, r).
          rbind (read_const_pool_idx r) (\<lambda>(idx, r).
          Inr (InstConstFloat64 dest idx, r)))
      | OpConstString \<Rightarrow>
          rbind (read_register r) (\<lambda>(dest, r).
          rbind (read_const_pool_idx r) (\<lambda>(idx, r).
          Inr (InstConstString dest idx, r)))
      | OpTestIdentity \<Rightarrow>
          rbind (read_register r) (\<lambda>(dest, r).
          rbind (read_register r) (\<lambda>(lhs, r).
          rbind (read_register r) (\<lambda>(rhs, r).
          Inr (InstTestIdentity dest lhs rhs, r))))
      | OpTestEq \<Rightarrow>
          rbind (read_register r) (\<lambda>(dest, r).
          rbind (read_register r) (\<lambda>(lhs, r).
          rbind (read_register r) (\<lambda>(rhs, r).
          Inr (InstTestEq dest lhs rhs, r))))
      | OpTestNe \<Rightarrow>
          rbind (read_register r) (\<lambda>(dest, r).
          rbind (read_register r) (\<lambda>(lhs, r).
          rbind (read_register r) (\<lambda>(rhs, r).
          Inr (InstTestNe dest lhs rhs, r))))
      | OpTestGt \<Rightarrow>
          rbind (read_register r) (\<lambda>(dest, r).
          rbind (read_register r) (\<lambda>(lhs, r).
          rbind (read_register r) (\<lambda>(rhs, r).
          Inr (InstTestGt dest lhs rhs, r))))
      | OpTestGe \<Rightarrow>
          rbind (read_register r) (\<lambda>(dest, r).
          rbind (read_register r) (\<lambda>(lhs, r).
          rbind (read_register r) (\<lambda>(rhs, r).
          Inr (InstTestGe dest lhs rhs, r))))
      | OpTestLt \<Rightarrow>
          rbind (read_register r) (\<lambda>(dest, r).
          rbind (read_register r) (\<lambda>(lhs, r).
          rbind (read_register r) (\<lambda>(rhs, r).
          Inr (InstTestLt dest lhs rhs, r))))
      | OpTestLe \<Rightarrow>
          rbind (read_register r) (\<lambda>(dest, r).
          rbind (read_register r) (\<lambda>(lhs, r).
          rbind (read_register r) (\<lambda>(rhs, r).
          Inr (InstTestLe dest lhs rhs, r))))
      | OpJumpLoop \<Rightarrow>
          rbind (read_offset r) (\<lambda>(off, r).
          Inr (InstJumpLoop off, r))
      | OpLoopStart \<Rightarrow> Inr (InstLoopStart, r)
      | OpJumpIfFalse \<Rightarrow>
          rbind (read_register r) (\<lambda>(opnd, r).
          rbind (read_offset r) (\<lambda>(off, r).
          Inr (InstJumpIfFalse opnd off, r)))
      | OpJumpIfFalseConst \<Rightarrow>
          rbind (read_register r) (\<lambda>(opnd, r).
          rbind (read_const_pool_idx r) (\<lambda>(idx, r).
          Inr (InstJumpIfFalseConst opnd idx, r)))
      | OpJumpIfTrue \<Rightarrow>
          rbind (read_register r) (\<lambda>(opnd, r).
          rbind (read_offset r) (\<lambda>(off, r).
          Inr (InstJumpIfTrue opnd off, r)))
      | OpJumpIfTrueConst \<Rightarrow>
          rbind (read_register r) (\<lambda>(opnd, r).
          rbind (read_const_pool_idx r) (\<lambda>(idx, r).
          Inr (InstJumpIfTrueConst opnd idx, r)))
      | OpJump \<Rightarrow>
          rbind (read_offset r) (\<lambda>(off, r).
          Inr (InstJump off, r))
      | OpJumpConst \<Rightarrow>
          rbind (read_const_pool_idx r) (\<lambda>(idx, r).
          Inr (InstJumpConst idx, r))
      | _ \<Rightarrow> read_invoke_new op r)"

definition read_operation :: "opcode \<Rightarrow> reader \<Rightarrow> (instruction \<times> reader) result" where
  "read_operation op r =
     (case op of
        OpWide \<Rightarrow> Inl Unreachable
      | OpAdd \<Rightarrow>
          rbind (read_register r) (\<lambda>(dest, r).
          rbind (read_register r) (\<lambda>(lhs, r).
          rbind (read_register r) (\<lambda>(rhs, r).
          Inr (InstAdd dest lhs rhs, r))))
      | OpSub \<Rightarrow>
          rbind (read_register r) (\<lambda>(dest, r).
          rbind (read_register r) (\<lambda>(lhs, r).
          rbind (read_register r) (\<lambda>(rhs, r).
          Inr (InstSub dest lhs rhs, r))))
      | OpNeg \<Rightarrow>
          rbind (read_register r) (\<lambda>(dest, r).
          rbind (read_register r) (\<lambda>(src, r).
          Inr (InstNeg dest src, r)))
      | OpMul \<Rightarrow>
          rbind (read_register r) (\<lambda>(dest, r).
          rbind (read_register r) (\<lambda>(lhs, r).
          rbind (read_register r) (\<lambda>(rhs, r).
          Inr (InstMul dest lhs rhs, r))))
      | OpDiv \<Rightarrow>
          rbind (read_register r) (\<lambda>(dest, r).
          rbind (read_register r) (\<lambda>(lhs, r).
          rbind (read_register r) (\<lambda>(rhs, r).
          Inr (InstDiv dest lhs rhs, r))))
      | OpMod \<Rightarrow>
          rbind (read_register r) (\<lambda>(dest, r).
          rbind (read_register r) (\<lambda>(lhs, r).
          rbind (read_register r) (\<lambda>(rhs, r).
          Inr (InstMod dest lhs rhs, r))))
      | OpAnd \<Rightarrow>
          rbind (read_register r) (\<lambda>(dest, r).
          rbind (read_register r) (\<lambda>(lhs, r).
          rbind (read_register r) (\<lambda>(rhs, r).
          Inr (InstAnd dest lhs rhs, r))))
      | OpOr \<Rightarrow>
          rbind (read_register r) (\<lambda>(dest, r).
          rbind (read_register r) (\<lambda>(lhs, r).
          rbind (read_register r) (\<lambda>(rhs, r).
          Inr (InstOr dest lhs rhs, r))))
      | OpXor \<Rightarrow>
          rbind (read_register r) (\<lambda>(dest, r).
          rbind (read_register r) (\<lambda>(lhs, r).
          rbind (read_register r) (\<lambda>(rhs, r).
          Inr (InstXor dest lhs rhs, r))))
      | OpNot \<Rightarrow>
          rbind (read_register r) (\<lambda>(dest, r).
          rbind (read_register r) (\<lambda>(src, r).
          Inr (InstNot dest src, r)))
      | OpShl \<Rightarrow>
          rbind (read_register r) (\<lambda>(dest, r).
          rbind (read_register r) (\<lambda>(lhs, r).
          rbind (read_register r) (\<lambda>(rhs, r).
          Inr (InstShl dest lhs rhs, r))))
      | OpShr \<Rightarrow>
          rbind (read_register r) (\<lambda>(dest, r).
          rbind (read_register r) (\<lambda>(lhs, r).
          rbind (read_register r) (\<lambda>(rhs, r).
          Inr (InstShr dest lhs rhs, r))))
      | OpSar \<Rightarrow>
          rbind (read_register r) (\<lambda>(dest, r).
          rbind (read_register r) (\<lambda>(lhs, r).
          rbind (read_register r) (\<lambda>(rhs, r).
          Inr (InstSar dest lhs rhs, r))))
      | OpMov \<Rightarrow>
          rbind (read_register r) (\<lambda>(dest, r).
          rbind (read_register r) (\<lambda>(src, r).
          Inr (InstMov dest src, r)))
      | OpLoadTupleElement \<Rightarrow>
          rbind (read_register r) (\<lambda>(dest, r).
          rbind (read_register r) (\<lambda>(src, r).
          rbind (read_const_pool_idx r) (\<lambda>(idx, r).
          Inr (InstLoadTupleElement dest src idx, r))))
      | OpLoadEnumElement \<Rightarrow>
          rbind (read_register r) (\<lambda>(dest, r).
          rbind (read_register r) (\<lambda>(src, r).
          rbind (read_const_pool_idx r) (\<lambda>(idx, r).
          Inr (InstLoadEnumElement dest src idx, r))))
      | OpLoadEnumVariant \<Rightarrow>
          rbind (read_register r) (\<lambda>(dest, r).
          rbind (read_register r) (\<lambda>(src, r).
          rbind (read_const_pool_idx r) (\<lambda>(idx, r).
          Inr (InstLoadEnumVariant dest src idx, r))))
      | OpLoadStructField \<Rightarrow>
          rbind (read_register r) (\<lambda>(dest, r).
          rbind (read_register r) (\<lambda>(obj, r).
          rbind (read_const_pool_idx r) (\<lambda>(fld, r).
          Inr (InstLoadStructField dest obj fld, r))))
      | OpLoadField \<Rightarrow>
          rbind (read_register r) (\<lambda>(dest, r).
          rbind (read_register r) (\<lambda>(obj, r).
          rbind (read_const_pool_idx r) (\<lambda>(fld, r).
          Inr (InstLoadField dest obj fld, r))))
      | OpStoreField \<Rightarrow>
          rbind (read_register r) (\<lambda>(src, r).
          rbind (read_register r) (\<lambda>(obj, r).
          rbind (read_const_pool_idx r) (\<lambda>(fld, r).
          Inr (InstStoreField src obj fld, r))))
      | OpLoadGlobal \<Rightarrow>
          rbind (read_register r) (\<lambda>(dest, r).
          rbind (read_global r) (\<lambda>(global_id, r).
          Inr (InstLoadGlobal dest global_id, r)))
      | OpStoreGlobal \<Rightarrow>
          rbind (read_register r) (\<lambda>(src, r).
          rbind (read_global r) (\<lambda>(global_id, r).
          Inr (InstStoreGlobal src global_id, r)))
      | _ \<Rightarrow> read_const_test_jump op r)"

definition read_instruction ::
  "reader \<Rightarrow> ((usize \<times> operand_width \<times> opcode \<times> instruction) \<times> reader) result" where
  "read_instruction r =
     (let start = r_offset r in
      rbind (read_opcode r) (\<lambda>(op, r).
      rbind (read_operation op r) (\<lambda>(inst, r).
      Inr ((start, r_width r, op, inst), r))))"

definition reader_next :: "reader \<Rightarrow> (instruction option \<times> reader) result" where
  "reader_next r =
     (if r_offset r < length (r_code r) then
        rbind (read_instruction r) (\<lambda>((start, width, op, inst), r). Inr (Some inst, r))
      else
        rbind (rassert (r_offset r = length (r_code r))) (\<lambda>_. Inr (None, r)))"

subsection \<open>The visitor\<close>

datatype (plugins only: size) visit_call =
    VisitInstruction bytecode_offset
  | VisitAdd register register register
  | VisitSub register register register
  | VisitNeg register register
  | VisitMul register register register
  | VisitDiv register register register
  | VisitMod register register register
  | VisitAnd register register register
  | VisitOr register register register
  | VisitXor register register register
  | VisitNot register register
  | VisitShl register register register
  | VisitShr register register register
  | VisitSar register register register
  | VisitMov register register
  | VisitLoadTupleElement register register const_pool_idx
  | VisitLoadEnumElement register register const_pool_idx
  | VisitLoadEnumVariant register register const_pool_idx
  | VisitLoadStructField register register const_pool_idx
  | VisitLoadField register register const_pool_idx
  | VisitStoreField register register const_pool_idx
  | VisitLoadGlobal register global_definition_id
  | VisitStoreGlobal register global_definition_id
  | VisitPushRegister register
  | VisitConstTrue register
  | VisitConstFalse register
  | VisitConstZeroUInt8 register
  | VisitConstZeroChar register
  | VisitConstZeroInt32 register
  | VisitConstZeroInt64 register
  | VisitConstZeroFloat32 register
  | VisitConstZeroFloat64 register
  | VisitConstChar register const_pool_idx
  | VisitConstUInt8 register u8
  | VisitConstInt32 register const_pool_idx
  | VisitConstInt64 register const_pool_idx
  | VisitConstFloat32 register const_pool_idx
  | VisitConstFloat64 register const_pool_idx
  | VisitConstString register const_pool_idx
  | VisitTestIdentity register register register
  | VisitTestEq register register register
  | VisitTestNe register register register
  | VisitTestGt register register register
  | VisitTestGe register register register
  | VisitTestLt register register register
  | VisitTestLe register register register
  | VisitJumpIfFalse register u32
  | VisitJumpIfFalseConst register const_pool_idx
  | VisitJumpIfTrue register u32
  | VisitJumpIfTrueConst register const_pool_idx
  | VisitJumpLoop u32
  | VisitLoopStart
  | VisitJump u32
  | VisitJumpConst const_pool_idx
  | VisitInvokeDirect register const_pool_idx
  | VisitInvokeVirtual register const_pool_idx
  | VisitInvokeStatic register const_pool_idx
  | VisitInvokeLambda register const_pool_idx
  | VisitInvokeGenericStaticVoid const_pool_idx
  | VisitInvokeGenericStatic register const_pool_idx
  | VisitInvokeGenericDirectVoid const_pool_idx
  | VisitInvokeGenericDirect register const_pool_idx
  | VisitNewObject register const_pool_idx
  | VisitNewObjectInitialized register const_pool_idx
  | VisitNewArray register const_pool_idx register
  | VisitNewTuple register const_pool_idx
  | VisitNewEnum register const_pool_idx
  | VisitNewStruct register const_pool_idx
  | VisitNewTraitObject register const_pool_idx register
  | VisitNewLambda register const_pool_idx
  | VisitArrayLength register register
  | VisitLoadArray register register register
  | VisitStoreArray register register register
  | VisitRet register

definition dispatch_instruction :: "instruction \<Rightarrow> visit_call" where
  "dispatch_instruction inst =
     (case inst of
        InstAdd dest lhs rhs \<Rightarrow> VisitAdd dest lhs rhs
      | InstSub dest lhs rhs \<Rightarrow> VisitSub dest lhs rhs
      | InstNeg dest src \<Rightarrow> VisitNeg dest src
      | InstMul dest lhs rhs \<Rightarrow> VisitMul dest lhs rhs
      | InstDiv dest lhs rhs \<Rightarrow> VisitDiv dest lhs rhs
      | InstMod dest lhs rhs \<Rightarrow> VisitMod dest lhs rhs
      | InstAnd dest lhs rhs \<Rightarrow> VisitAnd dest lhs rhs
      | InstOr dest lhs rhs \<Rightarrow> VisitOr dest lhs rhs
      | InstXor dest lhs rhs \<Rightarrow> VisitXor dest lhs rhs
      | InstNot dest src \<Rightarrow> VisitNot dest src
      | InstShl dest lhs rhs \<Rightarrow> VisitShl dest lhs rhs
      | InstShr dest lhs rhs \<Rightarrow> VisitShr dest lhs rhs
      | InstSar dest lhs rhs \<Rightarrow> VisitSar dest lhs rhs
      | InstMov dest src \<Rightarrow> VisitMov dest src
      | InstLoadTupleElement dest src idx \<Rightarrow> VisitLoadTupleElement dest src idx
      | InstLoadEnumElement dest src idx \<Rightarrow> VisitLoadEnumElement dest src idx
      | InstLoadEnumVariant dest src idx \<Rightarrow> VisitLoadEnumVariant dest src idx
      | InstLoadStructField dest obj fld \<Rightarrow> VisitLoadStructField dest obj fld
      | InstLoadField dest obj fld \<Rightarrow> VisitLoadField dest obj fld
      | InstStoreField src obj fld \<Rightarrow> VisitStoreField src obj fld
      | InstLoadGlobal dest global_id \<Rightarrow> VisitLoadGlobal dest global_id
      | InstStoreGlobal src global_id \<Rightarrow> VisitStoreGlobal src global_id
      | InstPushRegister src \<Rightarrow> VisitPushRegister src
      | InstConstTrue dest \<Rightarrow> VisitConstTrue dest
      | InstConstFalse dest \<Rightarrow> VisitConstFalse dest
      | InstConstChar dest idx \<Rightarrow> VisitConstChar dest idx
      | InstConstUInt8 dest value \<Rightarrow> VisitConstUInt8 dest value
      | InstConstInt32 dest idx \<Rightarrow> VisitConstInt32 dest idx
      | InstConstInt64 dest idx \<Rightarrow> VisitConstInt64 dest idx
      | InstConstFloat32 dest idx \<Rightarrow> VisitConstFloat32 dest idx
      | InstConstFloat64 dest idx \<Rightarrow> VisitConstFloat64 dest idx
      | InstConstString dest idx \<Rightarrow> VisitConstString dest idx
      | InstTestIdentity dest lhs rhs \<Rightarrow> VisitTestIdentity dest lhs rhs
      | InstTestEq dest lhs rhs \<Rightarrow> VisitTestEq dest lhs rhs
      | InstTestNe dest lhs rhs \<Rightarrow> VisitTestNe dest lhs rhs
      | InstTestGt dest lhs rhs \<Rightarrow> VisitTestGt dest lhs rhs
      | InstTestGe dest lhs rhs \<Rightarrow> VisitTestGe dest lhs rhs
      | InstTestLt dest lhs rhs \<Rightarrow> VisitTestLt dest lhs rhs
      | InstTestLe dest lhs rhs \<Rightarrow> VisitTestLe dest lhs rhs
      | InstJumpLoop off \<Rightarrow> VisitJumpLoop off
      | InstLoopStart \<Rightarrow> VisitLoopStart
      | InstJumpIfFalse opnd off \<Rightarrow> VisitJumpIfFalse opnd off
      | InstJumpIfFalseConst opnd idx \<Rightarrow> VisitJumpIfFalseConst opnd idx
      | InstJumpIfTrue opnd off \<Rightarrow> VisitJumpIfTrue opnd off
      | InstJumpIfTrueConst opnd idx \<Rightarrow> VisitJumpIfTrueConst opnd idx
      | InstJump off \<Rightarrow> VisitJump off
      | InstJumpConst idx \<Rightarrow> VisitJumpConst idx
      | InstInvokeDirect dest fct \<Rightarrow> VisitInvokeDirect dest fct
      | InstInvokeVirtual dest fct \<Rightarrow> VisitInvokeVirtual dest fct
      | InstInvokeStatic dest fct \<Rightarrow> VisitInvokeStatic dest fct
      | InstInvokeLambda dest idx \<Rightarrow> VisitInvokeLambda dest idx
      | InstInvokeGenericStatic dest fct \<Rightarrow> VisitInvokeGenericStatic dest fct
      | InstInvokeGenericDirect dest fct \<Rightarrow> VisitInvokeGenericDirect dest fct
      | InstNewObject dest cls \<Rightarrow> VisitNewObject dest cls
      | InstNewObjectInitialized dest cls \<Rightarrow> VisitNewObjectInitialized dest cls
      | InstNewArray dest cls len \<Rightarrow> VisitNewArray dest cls len
      | InstNewTuple dest idx \<Rightarrow> VisitNewTuple dest idx
      | InstNewEnum dest idx \<Rightarrow> VisitNewEnum dest idx
      | InstNewStruct dest idx \<Rightarrow> VisitNewStruct dest idx
      | InstNewTraitObject dest idx src \<Rightarrow> VisitNewTraitObject dest idx src
      | InstNewLambda dest idx \<Rightarrow> VisitNewLambda dest idx
      | InstArrayLength dest arr \<Rightarrow> VisitArrayLength dest arr
      | InstLoadArray dest arr idx \<Rightarrow> VisitLoadArray dest arr idx
      | InstStoreArray src arr idx \<Rightarrow> VisitStoreArray src arr idx
      | InstRet opnd \<Rightarrow> VisitRet opnd)"

subsection \<open>Reading advances\<close>

text \<open>Every successful read keeps the code and moves the offset forward, so decoding ends.\<close>

definition later :: "reader \<Rightarrow> reader \<Rightarrow> bool" where
  "later r r' = (r_code r' = r_code r \<and> r_offset r \<le> r_offset r' \<and> r_width r' = r_width r)"

lemma later_refl [simp]: "later r r"
  by (simp add: later_def)

lemma later_trans: "later r s \<Longrightarrow> later s t \<Longrightarrow> later r t"
  by (simp add: later_def)

lemma read_byte_Inr:
  "read_byte r = Inr (v, r') \<Longrightarrow>
     r_offset r < length (r_code r) \<and> v = r_code r ! r_offset r \<and> r' = r\<lparr>r_offset := r_offset r + 1\<rparr>"
  by (auto simp: read_byte_def rbind_eq_Inr_iff)

lemma read_byte_later: "read_byte r = Inr (v, r') \<Longrightarrow> later r r'"
  by (drule read_byte_Inr) (simp add: later_def)

lemma read_index_later: "read_index r = Inr (v, r') \<Longrightarrow> later r r'"
  by (auto simp: read_index_def read_wide_def rbind_eq_Inr_iff split: operand_width.splits
      dest!: read_byte_later intro: later_trans)

lemma read_operand_later:
  "read_register r = Inr (n, r') \<Longrightarrow> later r r'"
  "read_const_pool_idx r = Inr (n, r') \<Longrightarrow> later r r'"
  "read_offset r = Inr (v, r') \<Longrightarrow> later r r'"
  "read_global r = Inr (g, r') \<Longrightarrow> later r r'"
  by (auto simp: read_register_def read_const_pool_idx_def read_offset_def read_global_def
      rbind_eq_Inr_iff dest!: read_index_later)

lemma rbind_laterI:
  assumes "rbind m (\<lambda>(x, s). f x s) = Inr (y, t)"
    and "\<And>x s. m = Inr (x, s) \<Longrightarrow> later r s"
    and "\<And>x s. f x s = Inr (y, t) \<Longrightarrow> later s t"
  shows "later r t"
  using assms by (auto simp: rbind_eq_Inr_iff intro: later_trans)

lemma read_invoke_new_later: "read_invoke_new op r = Inr (inst, r') \<Longrightarrow> later r r'"
  by (cases op)
     (simp_all add: read_invoke_new_def,
      (erule rbind_laterI | drule read_operand_later read_byte_later, assumption | clarsimp)+)

lemma read_const_test_jump_later: "read_const_test_jump op r = Inr (inst, r') \<Longrightarrow> later r r'"
  by (cases op)
     (simp_all add: read_const_test_jump_def read_invoke_new_later,
      (erule rbind_laterI | drule read_operand_later read_byte_later, assumption | clarsimp)+)

lemma read_operation_later: "read_operation op r = Inr (inst, r') \<Longrightarrow> later r r'"
  by (cases op)
     (simp_all add: read_operation_def read_const_test_jump_later,
      (erule rbind_laterI | drule read_operand_later read_byte_later, assumption | clarsimp)+)

lemma read_opcode_progress:
  "read_opcode r = Inr (op, r') \<Longrightarrow> r_code r' = r_code r \<and> r_offset r < r_offset r'"
  by (auto simp: read_opcode_def rbind_eq_Inr_iff split: if_splits dest!: read_byte_Inr)

lemma read_instruction_progress:
  "read_instruction r = Inr (x, r') \<Longrightarrow> r_code r' = r_code r \<and> r_offset r < r_offset r'"
  by (fastforce simp: read_instruction_def rbind_eq_Inr_iff later_def
      dest: read_opcode_progress read_operation_later)

lemma reader_next_progress:
  "reader_next r = Inr (Some inst, r') \<Longrightarrow>
     r_code r' = r_code r \<and> r_offset r < r_offset r' \<and> r_offset r < length (r_code r)"
  by (auto simp: reader_next_def rbind_eq_Inr_iff split: if_splits dest!: read_instruction_progress)


subsection \<open>Full iteration\<close>

type_synonym 's visitor = "visit_call \<Rightarrow> 's \<Rightarrow> 's result"

definition default_visitor :: "'s visitor" where
  "default_visitor c s =
     (case c of VisitInstruction _ \<Rightarrow> Inr s | _ \<Rightarrow> Inl Unimplemented)"

function full_read :: "'s visitor \<Rightarrow> reader \<Rightarrow> usize \<Rightarrow> 's \<Rightarrow> 's result" where
  "full_read visitor iter last_off s =
     rbind (reader_next iter) (\<lambda>(next, iter').
     (case next of
        None \<Rightarrow> Inr s
      | Some inst \<Rightarrow>
          rbind (visitor (VisitInstruction (as_u32 last_off)) s) (\<lambda>s.
          rbind (visitor (dispatch_instruction inst) s) (\<lambda>s.
          full_read visitor iter' (r_offset iter') s))))"
  by pat_completeness auto
termination
  by (relation "measure (\<lambda>(visitor, iter, last_off, s). length (r_code iter) - r_offset iter)")
     (auto dest: reader_next_progress)

declare full_read.simps [simp del]

definition read_bytecode :: "u8 list \<Rightarrow> 's visitor \<Rightarrow> 's \<Rightarrow> 's result" where
  "read_bytecode data visitor s =
     (let iter = reader_new data in full_read visitor iter (r_offset iter) s)"

end
