(* ===== verification/BytecodeCodec.thy ===== *)
theory BytecodeCodec
  imports BytecodeWriter BytecodeReader
begin

text \<open>
  The encoding shared by the writer and the reader, stated once: an instruction is a header (its
  opcode byte, behind a \<open>Wide\<close> byte when wide), its operands in the order both sides use, one
  byte or four little-endian bytes each, and for \<open>ConstUInt8\<close> the raw value byte.  The locale
  \<open>stream_codec\<close> is the contract between the two components: what the reader returns at the
  offset of an encoded item.  Its client lemmas locate every item of a concatenated stream, and
  \<open>stream_walk\<close> lifts them to a loop that visits the items in order.  Both are interpreted on
  the reader's own functions; the writer's methods are shown to append exactly this encoding.
\<close>

subsection \<open>Specification of the encoding\<close>

primrec inst_op :: "instruction \<Rightarrow> opcode" where
  "inst_op (InstAdd _ _ _) = OpAdd"
| "inst_op (InstSub _ _ _) = OpSub"
| "inst_op (InstNeg _ _) = OpNeg"
| "inst_op (InstMul _ _ _) = OpMul"
| "inst_op (InstDiv _ _ _) = OpDiv"
| "inst_op (InstMod _ _ _) = OpMod"
| "inst_op (InstAnd _ _ _) = OpAnd"
| "inst_op (InstOr _ _ _) = OpOr"
| "inst_op (InstXor _ _ _) = OpXor"
| "inst_op (InstNot _ _) = OpNot"
| "inst_op (InstShl _ _ _) = OpShl"
| "inst_op (InstShr _ _ _) = OpShr"
| "inst_op (InstSar _ _ _) = OpSar"
| "inst_op (InstMov _ _) = OpMov"
| "inst_op (InstLoadTupleElement _ _ _) = OpLoadTupleElement"
| "inst_op (InstLoadEnumElement _ _ _) = OpLoadEnumElement"
| "inst_op (InstLoadEnumVariant _ _ _) = OpLoadEnumVariant"
| "inst_op (InstLoadStructField _ _ _) = OpLoadStructField"
| "inst_op (InstLoadField _ _ _) = OpLoadField"
| "inst_op (InstStoreField _ _ _) = OpStoreField"
| "inst_op (InstLoadGlobal _ _) = OpLoadGlobal"
| "inst_op (InstStoreGlobal _ _) = OpStoreGlobal"
| "inst_op (InstPushRegister _) = OpPushRegister"
| "inst_op (InstConstTrue _) = OpConstTrue"
| "inst_op (InstConstFalse _) = OpConstFalse"
| "inst_op (InstConstUInt8 _ _) = OpConstUInt8"
| "inst_op (InstConstChar _ _) = OpConstChar"
| "inst_op (InstConstInt32 _ _) = OpConstInt32"
| "inst_op (InstConstInt64 _ _) = OpConstInt64"
| "inst_op (InstConstFloat32 _ _) = OpConstFloat32"
| "inst_op (InstConstFloat64 _ _) = OpConstFloat64"
| "inst_op (InstConstString _ _) = OpConstString"
| "inst_op (InstTestIdentity _ _ _) = OpTestIdentity"
| "inst_op (InstTestEq _ _ _) = OpTestEq"
| "inst_op (InstTestNe _ _ _) = OpTestNe"
| "inst_op (InstTestGt _ _ _) = OpTestGt"
| "inst_op (InstTestGe _ _ _) = OpTestGe"
| "inst_op (InstTestLt _ _ _) = OpTestLt"
| "inst_op (InstTestLe _ _ _) = OpTestLe"
| "inst_op (InstJumpLoop _) = OpJumpLoop"
| "inst_op InstLoopStart = OpLoopStart"
| "inst_op (InstJump _) = OpJump"
| "inst_op (InstJumpConst _) = OpJumpConst"
| "inst_op (InstJumpIfFalse _ _) = OpJumpIfFalse"
| "inst_op (InstJumpIfFalseConst _ _) = OpJumpIfFalseConst"
| "inst_op (InstJumpIfTrue _ _) = OpJumpIfTrue"
| "inst_op (InstJumpIfTrueConst _ _) = OpJumpIfTrueConst"
| "inst_op (InstInvokeDirect _ _) = OpInvokeDirect"
| "inst_op (InstInvokeVirtual _ _) = OpInvokeVirtual"
| "inst_op (InstInvokeStatic _ _) = OpInvokeStatic"
| "inst_op (InstInvokeLambda _ _) = OpInvokeLambda"
| "inst_op (InstInvokeGenericStatic _ _) = OpInvokeGenericStatic"
| "inst_op (InstInvokeGenericDirect _ _) = OpInvokeGenericDirect"
| "inst_op (InstNewObject _ _) = OpNewObject"
| "inst_op (InstNewObjectInitialized _ _) = OpNewObjectInitialized"
| "inst_op (InstNewArray _ _ _) = OpNewArray"
| "inst_op (InstNewTuple _ _) = OpNewTuple"
| "inst_op (InstNewEnum _ _) = OpNewEnum"
| "inst_op (InstNewStruct _ _) = OpNewStruct"
| "inst_op (InstNewTraitObject _ _ _) = OpNewTraitObject"
| "inst_op (InstNewLambda _ _) = OpNewLambda"
| "inst_op (InstArrayLength _ _) = OpArrayLength"
| "inst_op (InstLoadArray _ _ _) = OpLoadArray"
| "inst_op (InstStoreArray _ _ _) = OpStoreArray"
| "inst_op (InstRet _) = OpRet"

primrec inst_operands :: "instruction \<Rightarrow> nat list" where
  "inst_operands (InstAdd dest lhs rhs) = [dest, lhs, rhs]"
| "inst_operands (InstSub dest lhs rhs) = [dest, lhs, rhs]"
| "inst_operands (InstNeg dest src) = [dest, src]"
| "inst_operands (InstMul dest lhs rhs) = [dest, lhs, rhs]"
| "inst_operands (InstDiv dest lhs rhs) = [dest, lhs, rhs]"
| "inst_operands (InstMod dest lhs rhs) = [dest, lhs, rhs]"
| "inst_operands (InstAnd dest lhs rhs) = [dest, lhs, rhs]"
| "inst_operands (InstOr dest lhs rhs) = [dest, lhs, rhs]"
| "inst_operands (InstXor dest lhs rhs) = [dest, lhs, rhs]"
| "inst_operands (InstNot dest src) = [dest, src]"
| "inst_operands (InstShl dest lhs rhs) = [dest, lhs, rhs]"
| "inst_operands (InstShr dest lhs rhs) = [dest, lhs, rhs]"
| "inst_operands (InstSar dest lhs rhs) = [dest, lhs, rhs]"
| "inst_operands (InstMov dest src) = [dest, src]"
| "inst_operands (InstLoadTupleElement dest src idx) = [dest, src, idx]"
| "inst_operands (InstLoadEnumElement dest src idx) = [dest, src, idx]"
| "inst_operands (InstLoadEnumVariant dest src idx) = [dest, src, idx]"
| "inst_operands (InstLoadStructField dest obj fld) = [dest, obj, fld]"
| "inst_operands (InstLoadField dest obj fld) = [dest, obj, fld]"
| "inst_operands (InstStoreField src obj fld) = [src, obj, fld]"
| "inst_operands (InstLoadGlobal dest global_id) = [dest, unat global_id]"
| "inst_operands (InstStoreGlobal src global_id) = [src, unat global_id]"
| "inst_operands (InstPushRegister src) = [src]"
| "inst_operands (InstConstTrue dest) = [dest]"
| "inst_operands (InstConstFalse dest) = [dest]"
| "inst_operands (InstConstUInt8 dest _) = [dest]"
| "inst_operands (InstConstChar dest idx) = [dest, idx]"
| "inst_operands (InstConstInt32 dest idx) = [dest, idx]"
| "inst_operands (InstConstInt64 dest idx) = [dest, idx]"
| "inst_operands (InstConstFloat32 dest idx) = [dest, idx]"
| "inst_operands (InstConstFloat64 dest idx) = [dest, idx]"
| "inst_operands (InstConstString dest idx) = [dest, idx]"
| "inst_operands (InstTestIdentity dest lhs rhs) = [dest, lhs, rhs]"
| "inst_operands (InstTestEq dest lhs rhs) = [dest, lhs, rhs]"
| "inst_operands (InstTestNe dest lhs rhs) = [dest, lhs, rhs]"
| "inst_operands (InstTestGt dest lhs rhs) = [dest, lhs, rhs]"
| "inst_operands (InstTestGe dest lhs rhs) = [dest, lhs, rhs]"
| "inst_operands (InstTestLt dest lhs rhs) = [dest, lhs, rhs]"
| "inst_operands (InstTestLe dest lhs rhs) = [dest, lhs, rhs]"
| "inst_operands (InstJumpLoop off) = [unat off]"
| "inst_operands InstLoopStart = []"
| "inst_operands (InstJump off) = [unat off]"
| "inst_operands (InstJumpConst idx) = [idx]"
| "inst_operands (InstJumpIfFalse opnd off) = [opnd, unat off]"
| "inst_operands (InstJumpIfFalseConst opnd idx) = [opnd, idx]"
| "inst_operands (InstJumpIfTrue opnd off) = [opnd, unat off]"
| "inst_operands (InstJumpIfTrueConst opnd idx) = [opnd, idx]"
| "inst_operands (InstInvokeDirect dest fct) = [dest, fct]"
| "inst_operands (InstInvokeVirtual dest fct) = [dest, fct]"
| "inst_operands (InstInvokeStatic dest fct) = [dest, fct]"
| "inst_operands (InstInvokeLambda dest idx) = [dest, idx]"
| "inst_operands (InstInvokeGenericStatic dest fct) = [dest, fct]"
| "inst_operands (InstInvokeGenericDirect dest fct) = [dest, fct]"
| "inst_operands (InstNewObject dest cls) = [dest, cls]"
| "inst_operands (InstNewObjectInitialized dest cls) = [dest, cls]"
| "inst_operands (InstNewArray dest cls len) = [dest, cls, len]"
| "inst_operands (InstNewTuple dest idx) = [dest, idx]"
| "inst_operands (InstNewEnum dest idx) = [dest, idx]"
| "inst_operands (InstNewStruct dest idx) = [dest, idx]"
| "inst_operands (InstNewTraitObject dest idx src) = [dest, idx, src]"
| "inst_operands (InstNewLambda dest idx) = [dest, idx]"
| "inst_operands (InstArrayLength dest arr) = [dest, arr]"
| "inst_operands (InstLoadArray dest arr idx) = [dest, arr, idx]"
| "inst_operands (InstStoreArray src arr idx) = [src, arr, idx]"
| "inst_operands (InstRet opnd) = [opnd]"

definition inst_imm :: "instruction \<Rightarrow> u8 list" where
  "inst_imm i = (case i of InstConstUInt8 _ value \<Rightarrow> [value] | _ \<Rightarrow> [])"

definition inst_values :: "instruction \<Rightarrow> u32 list" where
  "inst_values i = map as_u32 (inst_operands i)"

definition le_bytes :: "u32 \<Rightarrow> u8 list" where
  "le_bytes v =
     [as_u8 (v AND 255), as_u8 (drop_bit 8 v AND 255),
      as_u8 (drop_bit 16 v AND 255), as_u8 (drop_bit 24 v AND 255)]"

fun enc_operand :: "operand_width \<Rightarrow> u32 \<Rightarrow> u8 list" where
  "enc_operand Normal v = [as_u8 v]"
| "enc_operand Wide v = le_bytes v"

fun enc_header :: "operand_width \<Rightarrow> opcode \<Rightarrow> u8 list" where
  "enc_header Normal op = [to_u8 op]"
| "enc_header Wide op = [to_u8 OpWide, to_u8 op]"

definition enc_operands :: "operand_width \<Rightarrow> u32 list \<Rightarrow> u8 list" where
  "enc_operands w vs = concat (map (enc_operand w) vs)"

definition enc_inst :: "operand_width \<Rightarrow> instruction \<Rightarrow> u8 list" where
  "enc_inst w i = enc_header w (inst_op i) @ enc_operands w (inst_values i) @ inst_imm i"

definition width_for :: "u32 list \<Rightarrow> operand_width" where
  "width_for vs = (if list_ex (\<lambda>v. v > 255) vs then Wide else Normal)"

text \<open>An instruction can be encoded at a width when its indices are \<open>u32\<close> values and, at
  the normal width, single bytes.\<close>

definition fits :: "operand_width \<Rightarrow> u32 list \<Rightarrow> bool" where
  "fits w vs = (w = Normal \<longrightarrow> list_all (\<lambda>v. v \<le> 255) vs)"

definition wf_inst :: "instruction \<Rightarrow> bool" where
  "wf_inst i = list_all (\<lambda>n. n < 2 ^ 32) (inst_operands i)"

definition encodable :: "operand_width \<times> instruction \<Rightarrow> bool" where
  "encodable wi = (wf_inst (snd wi) \<and> fits (fst wi) (inst_values (snd wi)))"

definition encode :: "operand_width \<times> instruction \<Rightarrow> u8 list" where
  "encode wi = enc_inst (fst wi) (snd wi)"

definition decode :: "u8 list \<Rightarrow> usize \<Rightarrow> ((operand_width \<times> instruction) \<times> usize) result" where
  "decode code off =
     rbind (read_instruction \<lparr>r_code = code, r_offset = off, r_width = Normal\<rparr>)
       (\<lambda>((start, w, op, inst), r). Inr ((w, inst), r_offset r))"

subsection \<open>Operands\<close>

lemma le_bytes_join:
  "push_bit 24 (u8_as_u32 (as_u8 (drop_bit 24 v AND 255)))
     OR push_bit 16 (u8_as_u32 (as_u8 (drop_bit 16 v AND 255)))
     OR push_bit 8 (u8_as_u32 (as_u8 (drop_bit 8 v AND 255)))
     OR u8_as_u32 (as_u8 (v AND 255)) = v"
proof -
  have byte: "bit (u8_as_u32 (as_u8 (x AND 255))) n \<longleftrightarrow> n < 8 \<and> bit x n" for x :: u32 and n
  proof -
    have "x AND 255 = take_bit 8 x"
      by (simp add: take_bit_eq_mask mask_eq_exp_minus_1)
    then show ?thesis
      by (auto simp: u8_as_u32_def as_u8_def bit_simps dest: bit_imp_le_length)
  qed
  show ?thesis
  proof (rule bit_word_eqI)
    fix n :: nat
    assume "n < LENGTH(32)"
    then consider "n < 8" | "8 \<le> n" "n < 16" | "16 \<le> n" "n < 24" | "24 \<le> n" "n < 32"
      by fastforce
    then show "bit (push_bit 24 (u8_as_u32 (as_u8 (drop_bit 24 v AND 255)))
       OR push_bit 16 (u8_as_u32 (as_u8 (drop_bit 16 v AND 255)))
       OR push_bit 8 (u8_as_u32 (as_u8 (drop_bit 8 v AND 255)))
       OR u8_as_u32 (as_u8 (v AND 255))) n = bit v n"
      by cases (auto simp: byte bit_simps)
  qed
qed

lemma length_enc_operand [simp]: "length (enc_operand w v) = operand_size w"
  by (cases w) (simp_all add: le_bytes_def)

lemma length_enc_header [simp]: "length (enc_header w op) = opcode_size w"
  by (cases w) simp_all

lemma length_enc_operands [simp]: "length (enc_operands w vs) = length vs * operand_size w"
  by (induction vs) (simp_all add: enc_operands_def)

lemma length_inst_values [simp]: "length (inst_values i) = length (inst_operands i)"
  by (simp add: inst_values_def)

lemma enc_operands_Nil [simp]: "enc_operands w [] = []"
  by (simp add: enc_operands_def)

lemma enc_operands_Cons [simp]: "enc_operands w (v # vs) = enc_operand w v @ enc_operands w vs"
  by (simp add: enc_operands_def)

lemma fits_Cons [simp]: "fits w (v # vs) \<longleftrightarrow> (w = Normal \<longrightarrow> v \<le> 255) \<and> fits w vs"
  by (auto simp: fits_def)

lemma fits_Nil [simp]: "fits w []"
  by (simp add: fits_def)

lemma fits_Wide [simp]: "fits Wide vs"
  by (simp add: fits_def)

lemma fits_width_for [simp]: "fits (width_for vs) vs"
  by (induction vs) (auto simp: width_for_def fits_def not_less)

text \<open>\<open>reads_at r vs rest\<close>: the reader stands before the encoded operands \<open>vs\<close>.\<close>

definition reads_at :: "reader \<Rightarrow> u32 list \<Rightarrow> u8 list \<Rightarrow> bool" where
  "reads_at r vs rest =
     (drop (r_offset r) (r_code r) = enc_operands (r_width r) vs @ rest \<and> fits (r_width r) vs)"

definition advance :: "reader \<Rightarrow> reader" where
  "advance r = r\<lparr>r_offset := r_offset r + operand_size (r_width r)\<rparr>"

lemma advance_simps [simp]:
  "r_width (advance r) = r_width r" "r_code (advance r) = r_code r"
  "r_offset (advance r) = r_offset r + operand_size (r_width r)"
  by (simp_all add: advance_def)

lemma read_byte_drop:
  assumes "drop (r_offset r) (r_code r) = b # rest"
  shows "read_byte r = Inr (b, r\<lparr>r_offset := r_offset r + 1\<rparr>)"
    and "drop (r_offset r + 1) (r_code r) = rest"
proof -
  have "r_offset r < length (r_code r)"
    using assms by (metis drop_all linorder_not_less list.distinct(1))
  moreover have "r_code r ! r_offset r = b"
    using assms drop_eq_append_nth [of "r_offset r" "r_code r" "[b]" rest 0] by simp
  ultimately show "read_byte r = Inr (b, r\<lparr>r_offset := r_offset r + 1\<rparr>)"
    by (simp add: read_byte_def)
  show "drop (r_offset r + 1) (r_code r) = rest"
    using assms by (metis drop_Suc tl_drop list.sel(3) Suc_eq_plus1 drop_Suc_Cons)
qed

lemma reads_at_advance: "reads_at r (v # vs) rest \<Longrightarrow> reads_at (advance r) vs rest"
  by (auto simp: reads_at_def dest: drop_eq_append_drop)

lemma read_wide_drop:
  assumes "drop (r_offset r) (r_code r) = le_bytes v @ rest"
  shows "read_wide r = Inr (v, r\<lparr>r_offset := r_offset r + 4\<rparr>)"
proof -
  let ?r = "\<lambda>n. r\<lparr>r_offset := r_offset r + n\<rparr>"
  let ?b = "\<lambda>n. as_u8 (drop_bit n v AND 255)"
  have d0: "drop (r_offset (?r 0)) (r_code (?r 0)) = ?b 0 # ?b 8 # ?b 16 # ?b 24 # rest"
    using assms by (simp add: le_bytes_def)
  have d1: "drop (r_offset (?r 1)) (r_code (?r 1)) = ?b 8 # ?b 16 # ?b 24 # rest"
    using read_byte_drop(2) [OF d0] by simp
  have d2: "drop (r_offset (?r 2)) (r_code (?r 2)) = ?b 16 # ?b 24 # rest"
    using read_byte_drop(2) [OF d1] by simp
  have d3: "drop (r_offset (?r 3)) (r_code (?r 3)) = ?b 24 # rest"
    using read_byte_drop(2) [OF d2] by (simp add: eval_nat_numeral)
  have "read_byte r = Inr (?b 0, ?r 1)"
    using read_byte_drop(1) [OF d0] by simp
  moreover have "read_byte (?r 1) = Inr (?b 8, ?r 2)"
    using read_byte_drop(1) [OF d1] by simp
  moreover have "read_byte (?r 2) = Inr (?b 16, ?r 3)"
    using read_byte_drop(1) [OF d2] by (simp add: eval_nat_numeral)
  moreover have "read_byte (?r 3) = Inr (?b 24, ?r 4)"
    using read_byte_drop(1) [OF d3] by (simp add: eval_nat_numeral)
  ultimately show ?thesis
    by (simp add: read_wide_def le_bytes_join)
qed

lemma read_index_at:
  assumes "reads_at r (v # vs) rest"
  shows "read_index r = Inr (v, advance r)"
proof (cases "r_width r")
  case Normal
  with assms have "drop (r_offset r) (r_code r) = as_u8 v # enc_operands Normal vs @ rest"
    and "v \<le> 255"
    by (simp_all add: reads_at_def)
  from read_byte_drop(1) [OF this(1)] this(2) Normal show ?thesis
    by (simp add: read_index_def advance_def u8_as_u32_as_u8)
next
  case Wide
  with assms have "drop (r_offset r) (r_code r) = le_bytes v @ enc_operands Wide vs @ rest"
    by (simp add: reads_at_def)
  from read_wide_drop [OF this] Wide show ?thesis
    by (simp add: read_index_def advance_def)
qed

text \<open>The reads of one, two and three operands, as equations for the simplifier.\<close>

lemma reads1:
  assumes "reads_at r [a] rest"
  shows "read_index r = Inr (a, advance r)"
  using assms by (rule read_index_at)

lemma reads2:
  assumes "reads_at r [a, b] rest"
  shows "read_index r = Inr (a, advance r) \<and> read_index (advance r) = Inr (b, advance (advance r))"
  using read_index_at [OF assms] reads1 [OF reads_at_advance [OF assms]] by simp

lemma reads3:
  assumes "reads_at r [a, b, c] rest"
  shows "read_index r = Inr (a, advance r) \<and> read_index (advance r) = Inr (b, advance (advance r))
    \<and> read_index (advance (advance r)) = Inr (c, advance (advance (advance r)))"
  using read_index_at [OF assms] reads2 [OF reads_at_advance [OF assms]] by simp

lemma reads1_imm:
  assumes "reads_at r [a] (b # rest)"
  shows "read_index r = Inr (a, advance r) \<and>
    read_byte (advance r) = Inr (b, (advance r)\<lparr>r_offset := r_offset (advance r) + 1\<rparr>)"
  using read_index_at [OF assms] reads_at_advance [OF assms]
  by (simp add: reads_at_def read_byte_drop)

lemmas read_operand_defs =
  read_register_def read_const_pool_idx_def read_offset_def read_global_def global_usize_to_id_def

lemmas read_operation_defs =
  read_operation_def read_const_test_jump_def read_invoke_new_def

lemma read_operation_at:
  assumes "reads_at r (inst_values i) (inst_imm i @ rest)" and "wf_inst i"
  shows "read_operation (inst_op i) r =
    Inr (i, r\<lparr>r_offset := r_offset r + length (inst_operands i) * operand_size (r_width r)
                                     + length (inst_imm i)\<rparr>)"
  using assms
  by (cases i)
     (simp_all add: read_operation_defs read_operand_defs inst_values_def inst_imm_def wf_inst_def,
      (drule reads3 reads2 reads1_imm reads1, simp add: advance_def unat_u32_less)+)

subsection \<open>One instruction\<close>

lemma inst_op_not_Wide [simp]: "inst_op i \<noteq> OpWide"
  by (cases i) simp_all

lemma to_u8_eq_0 [simp]: "to_u8 op = 0 \<longleftrightarrow> op = OpWide"
  using to_u8_inject [of op OpWide] by simp

lemma read_byte_record:
  "read_byte \<lparr>r_code = pre @ b # post, r_offset = length pre, r_width = w\<rparr> =
     Inr (b, \<lparr>r_code = pre @ b # post, r_offset = length pre + 1, r_width = w\<rparr>)"
  by (simp add: read_byte_def)

lemma read_opcode_header:
  assumes "op \<noteq> OpWide"
  shows "read_opcode \<lparr>r_code = pre @ enc_header w op @ post, r_offset = length pre, r_width = w0\<rparr> =
    Inr (op, \<lparr>r_code = pre @ enc_header w op @ post, r_offset = length pre + opcode_size w, r_width = w\<rparr>)"
proof (cases w)
  case Normal
  with assms show ?thesis
    by (simp add: read_opcode_def read_byte_record)
next
  case Wide
  have "read_byte \<lparr>r_code = pre @ to_u8 OpWide # to_u8 op # post,
          r_offset = length pre + 1, r_width = Wide\<rparr> =
        Inr (to_u8 op, \<lparr>r_code = pre @ to_u8 OpWide # to_u8 op # post,
          r_offset = length pre + 2, r_width = Wide\<rparr>)"
    using read_byte_record [of "pre @ [to_u8 OpWide]"] by simp
  with Wide show ?thesis
    by (simp add: read_opcode_def read_byte_record)
qed

lemma read_instruction_encoded:
  assumes "encodable (w, i)"
  shows "read_instruction \<lparr>r_code = pre @ enc_inst w i @ post, r_offset = length pre, r_width = w0\<rparr> =
    Inr ((length pre, w, inst_op i, i),
         \<lparr>r_code = pre @ enc_inst w i @ post, r_offset = length pre + length (enc_inst w i),
          r_width = w\<rparr>)"
proof -
  let ?code = "pre @ enc_inst w i @ post"
  let ?r = "\<lparr>r_code = ?code, r_offset = length pre + opcode_size w, r_width = w\<rparr>"
  have "read_opcode \<lparr>r_code = ?code, r_offset = length pre, r_width = w0\<rparr> = Inr (inst_op i, ?r)"
    using read_opcode_header [of "inst_op i" pre w
        "enc_operands w (inst_values i) @ inst_imm i @ post" w0]
    by (simp add: enc_inst_def)
  moreover have "reads_at ?r (inst_values i) (inst_imm i @ post)"
    using assms by (simp add: reads_at_def enc_inst_def encodable_def)
  then have "read_operation (inst_op i) ?r =
      Inr (i, ?r\<lparr>r_offset := length pre + length (enc_inst w i)\<rparr>)"
    using assms by (simp add: read_operation_at encodable_def enc_inst_def)
  ultimately show ?thesis
    by (simp add: read_instruction_def)
qed

subsection \<open>The contract between writer and reader\<close>

text \<open>Where each item of a stream starts.\<close>

primrec locate :: "('i \<Rightarrow> 'b list) \<Rightarrow> nat \<Rightarrow> 'i list \<Rightarrow> (nat \<times> 'i) list" where
  "locate enc off [] = []"
| "locate enc off (i # is) = (off, i) # locate enc (off + length (enc i)) is"

lemma locate_append:
  "locate enc off (is @ js) = locate enc off is @ locate enc (off + length (concat (map enc is))) js"
  by (induction "is" arbitrary: off) (simp_all add: add.assoc)

lemma map_snd_locate [simp]: "map snd (locate enc off is) = is"
  by (induction "is" arbitrary: off) simp_all

locale stream_codec =
  fixes enc :: "'i \<Rightarrow> u8 list"
    and dec :: "u8 list \<Rightarrow> nat \<Rightarrow> ('i \<times> nat) result"
    and ok :: "'i \<Rightarrow> bool"
  assumes enc_nonempty: "enc i \<noteq> []"
    and dec_enc: "ok i \<Longrightarrow>
      dec (pre @ enc i @ post) (length pre) = Inr (i, length pre + length (enc i))"
begin

lemma dec_located:
  assumes "list_all ok is" and "(off, i) \<in> set (locate enc 0 is)"
  shows "dec (concat (map enc is)) off = Inr (i, off + length (enc i))"
proof -
  from assms(2) obtain xs ys where "locate enc 0 is = xs @ (off, i) # ys"
    by (meson split_list)
  then have "is = map snd xs @ i # map snd ys"
    by (metis map_append map_snd_locate list.simps(9) snd_conv)
  then obtain as bs where split: "is = as @ i # bs" "length as = length xs"
    by (metis length_map)
  then have "locate enc 0 is = locate enc 0 as @ (length (concat (map enc as)), i) #
      locate enc (length (concat (map enc as)) + length (enc i)) bs"
    by (simp add: locate_append)
  moreover have "length (locate enc 0 as) = length xs"
    using split(2) by (metis length_map map_snd_locate)
  ultimately have "off = length (concat (map enc as))"
    using \<open>locate enc 0 is = xs @ (off, i) # ys\<close> by (simp add: append_eq_append_conv)
  with dec_enc [of i "concat (map enc as)" "concat (map enc bs)"] assms(1) split(1)
  show ?thesis by simp
qed

lemma stream_unambiguous:
  assumes "list_all ok is" and "list_all ok js"
    and "concat (map enc is) = concat (map enc js)"
  shows "is = js"
  using assms
proof (induction "is" arbitrary: js)
  case Nil
  then show ?case using enc_nonempty by (cases js) auto
next
  case (Cons i "is")
  from Cons.prems(3) enc_nonempty obtain j js' where js: "js = j # js'"
    by (cases js) auto
  have "Inr (i, length (enc i)) = Inr (j, length (enc j))"
    using dec_enc [of i "[]" "concat (map enc is)"] dec_enc [of j "[]" "concat (map enc js')"]
      Cons.prems js by simp
  then have "i = j" by simp
  moreover from this Cons.prems js have "is = js'"
    by (intro Cons.IH) simp_all
  ultimately show ?case using js by simp
qed

end

locale stream_walk = stream_codec enc dec ok
  for enc :: "'i \<Rightarrow> u8 list" and dec ok +
  fixes walk :: "u8 list \<Rightarrow> nat \<Rightarrow> 's \<Rightarrow> 's result"
    and visit :: "nat \<Rightarrow> 'i \<Rightarrow> 's \<Rightarrow> 's result"
  assumes walk_end: "walk code (length code) s = Inr s"
    and walk_step: "off < length code \<Longrightarrow> dec code off = Inr (i, off') \<Longrightarrow>
      walk code off s = rbind (visit off i s) (walk code off')"
begin

lemma walk_from:
  assumes "list_all ok is"
  shows "walk (pre @ concat (map enc is)) (length pre) s =
    for_each (\<lambda>(off, i). visit off i) (locate enc (length pre) is) s"
  using assms
proof (induction "is" arbitrary: pre s)
  case Nil
  then show ?case by (simp add: walk_end)
next
  case (Cons i "is")
  let ?code = "pre @ concat (map enc (i # is))"
  have "dec ?code (length pre) = Inr (i, length pre + length (enc i))"
    using dec_enc [of i pre "concat (map enc is)"] Cons.prems by simp
  moreover have "length pre < length ?code"
    using enc_nonempty by simp
  moreover have "walk ?code (length pre + length (enc i)) =
      for_each (\<lambda>(off, i). visit off i) (locate enc (length pre + length (enc i)) is)"
    using Cons.IH [of "pre @ enc i"] Cons.prems by (simp add: fun_eq_iff)
  ultimately show ?case by (simp add: walk_step)
qed

lemma walk_stream:
  "list_all ok is \<Longrightarrow>
     walk (concat (map enc is)) 0 s = for_each (\<lambda>(off, i). visit off i) (locate enc 0 is) s"
  using walk_from [of "is" "[]"] by simp

end

subsection \<open>The reader provides the contract\<close>

lemma encode_nonempty: "encode wi \<noteq> []"
  by (cases "fst wi") (simp_all add: encode_def enc_inst_def)

lemma decode_encode:
  "encodable wi \<Longrightarrow>
     decode (pre @ encode wi @ post) (length pre) = Inr (wi, length pre + length (encode wi))"
  by (cases wi) (simp add: decode_def encode_def read_instruction_encoded)

interpretation bc: stream_codec encode decode encodable
  by unfold_locales (simp_all add: encode_nonempty decode_encode)

lemma read_instruction_width:
  "read_instruction (r\<lparr>r_width := w\<rparr>) = read_instruction r"
proof -
  have "read_byte (r\<lparr>r_width := w\<rparr>) =
      rbind (read_byte r) (\<lambda>(b, r). Inr (b, r\<lparr>r_width := w\<rparr>))"
    by (cases "r_offset r < length (r_code r)") (simp_all add: read_byte_def vec_get_def)
  then have "read_opcode (r\<lparr>r_width := w\<rparr>) = read_opcode r"
    by (cases "read_byte r") (auto simp: read_opcode_def)
  then show ?thesis by (simp add: read_instruction_def)
qed

text \<open>The iteration from an offset, and what it does at one instruction.\<close>

definition read_from :: "'s visitor \<Rightarrow> u8 list \<Rightarrow> nat \<Rightarrow> 's \<Rightarrow> 's result" where
  "read_from visitor code off s =
     full_read visitor \<lparr>r_code = code, r_offset = off, r_width = Normal\<rparr> off s"

definition visit_at :: "'s visitor \<Rightarrow> nat \<Rightarrow> operand_width \<times> instruction \<Rightarrow> 's \<Rightarrow> 's result" where
  "visit_at visitor off wi s =
     rbind (visitor (VisitInstruction (as_u32 off)) s) (visitor (dispatch_instruction (snd wi)))"

lemma full_read_width:
  "full_read visitor (r\<lparr>r_width := w\<rparr>) off s = full_read visitor r off s"
proof -
  have "reader_next (r\<lparr>r_width := w\<rparr>) =
      (if r_offset r < length (r_code r) then reader_next r
       else rbind (rassert (r_offset r = length (r_code r))) (\<lambda>_. Inr (None, r\<lparr>r_width := w\<rparr>)))"
    by (simp add: reader_next_def read_instruction_width)
  then show ?thesis
    by (subst (1 2) full_read.simps) (auto simp: reader_next_def rassert_def)
qed

lemma read_from_step:
  assumes "off < length code" and "decode code off = Inr (wi, off')"
  shows "read_from visitor code off s = rbind (visit_at visitor off wi s) (read_from visitor code off')"
proof -
  let ?r = "\<lparr>r_code = code, r_offset = off, r_width = Normal\<rparr>"
  from assms(2) obtain start w op inst r' where
    ri: "read_instruction ?r = Inr ((start, w, op, inst), r')" and wi: "wi = (w, inst)"
    and off': "off' = r_offset r'"
    by (auto simp: decode_def rbind_eq_Inr_iff)
  from read_instruction_progress [OF ri] have "r_code r' = code" by simp
  with off' have "r' = \<lparr>r_code = code, r_offset = off', r_width = Normal\<rparr>\<lparr>r_width := r_width r'\<rparr>"
    by (cases r') simp
  then have "full_read visitor r' off' = read_from visitor code off'"
    unfolding read_from_def fun_eq_iff by (metis full_read_width)
  moreover have "reader_next ?r = Inr (Some inst, r')"
    using assms(1) ri by (simp add: reader_next_def)
  ultimately show ?thesis
    unfolding read_from_def visit_at_def
    by (subst full_read.simps) (simp add: wi off' rbind_assoc)
qed

lemma read_from_end: "read_from visitor code (length code) s = Inr s"
  unfolding read_from_def by (subst full_read.simps) (simp add: reader_next_def)

interpretation bcw: stream_walk encode decode encodable
  "read_from visitor" "visit_at visitor" for visitor :: "'s visitor"
  by unfold_locales (simp_all add: read_from_end read_from_step)

lemma read_bytecode_from: "read_bytecode code visitor s = read_from visitor code 0 s"
  by (simp add: read_bytecode_def read_from_def reader_new_def)

subsection \<open>The writer appends the encoding\<close>

definition position_step :: "opcode \<Rightarrow> wstep" where
  "position_step op w =
     (if needs_position op then emit_position w
      else rbind (rassert (w_position w = None)) (\<lambda>_. Inr w))"

lemma fold_emit_u32:
  "fold emit_u32 vs w = w\<lparr>w_code := w_code w @ enc_operands Wide vs\<rparr>"
  by (induction vs arbitrary: w) (simp_all add: emit_u32_def le_bytes_def)

lemma fold_emit_u8:
  "fold (\<lambda>v. emit_u8 (as_u8 v)) vs w = w\<lparr>w_code := w_code w @ enc_operands Normal vs\<rparr>"
  by (induction vs arbitrary: w) (simp_all add: emit_u8_def)

lemma u8_as_u32_to_u8_less: "u8_as_u32 (to_u8 op) < 255"
  using to_u8_less [of op] by (simp add: word_less_nat_alt)

lemma emit_opcode_to_u8 [simp]:
  "emit_opcode (u8_as_u32 (to_u8 op)) w = Inr (w\<lparr>w_code := w_code w @ [to_u8 op]\<rparr>)"
proof -
  have "\<not> 255 \<le> u8_as_u32 (to_u8 op)"
    using u8_as_u32_to_u8_less [of op] by (simp only: not_le)
  then show ?thesis by (simp add: emit_opcode_def emit_u8_def)
qed

lemma emit_values_eq:
  "emit_values op vs w =
     rbind (position_step op w) (\<lambda>w.
     Inr (w\<lparr>w_code := w_code w @ enc_header (width_for vs) op @ enc_operands (width_for vs) vs\<rparr>))"
  by (simp add: emit_values_def position_step_def width_for_def emit_wide_def
      fold_emit_u32 fold_emit_u8)
end
