(* ===== verification/BytecodeAssembly.thy ===== *)
theory BytecodeAssembly
  imports BytecodeCodec
begin

text \<open>
  Whole functions: a sequence of calls on \<open>BytecodeWriter\<close>, followed by \<open>generate\<close>, seen as an
  assembler.  \<open>wcmd\<close> lists the calls; \<open>run_cmds\<close> performs them with the writer's own methods.
  The specification keeps one \<open>item\<close> per emitted instruction, where a forward jump is still
  symbolic (its label).  The refinement lemmas show that the writer's code is the concatenation
  of the items' encodings, that its lists of unresolved jumps are the pending items at their
  offsets, and that \<open>resolve_forward_jumps\<close> turns every pending item into the jump to its
  label, in the short form when the distance fits a byte.  \<open>jump_target\<close> is how the compiler
  reads a jump (\<open>visit_jump*\<close> in \<open>dora/src/cannon/codegen.rs\<close>).
\<close>

subsection \<open>Reading a jump\<close>

text \<open>The sums are \<open>u32\<close> sums; \<open>i32\<close> and \<open>u32\<close> addition agree on the bits.  The
  constant forms add as \<open>i32\<close>, so that for code of \<open>2^31\<close> bytes or more a build with overflow checks panics
  where the sum here wraps as in a release build.\<close>

definition const_jump_offset :: "bytecode_function \<Rightarrow> const_pool_idx \<Rightarrow> u32 result" where
  "const_jump_offset f idx = rbind (const_pool f idx) (\<lambda>e. rexpect (cp_to_int32 e))"

definition jump_target ::
  "bytecode_function \<Rightarrow> bytecode_offset \<Rightarrow> instruction \<Rightarrow> bytecode_offset option result" where
  "jump_target f current_offset inst =
     (case inst of
        InstJumpIfFalse opnd off \<Rightarrow> Inr (Some (current_offset + off))
      | InstJumpIfFalseConst opnd idx \<Rightarrow>
          rbind (const_jump_offset f idx) (\<lambda>off. Inr (Some (current_offset + off)))
      | InstJumpIfTrue opnd off \<Rightarrow> Inr (Some (current_offset + off))
      | InstJumpIfTrueConst opnd idx \<Rightarrow>
          rbind (const_jump_offset f idx) (\<lambda>off. Inr (Some (current_offset + off)))
      | InstJumpLoop off \<Rightarrow> Inr (Some (current_offset - off))
      | InstJump off \<Rightarrow> Inr (Some (current_offset + off))
      | InstJumpConst idx \<Rightarrow>
          rbind (const_jump_offset f idx) (\<lambda>off. Inr (Some (current_offset + off)))
      | _ \<Rightarrow> Inr None)"

subsection \<open>Calls on the writer\<close>

definition call_emit :: "instruction \<Rightarrow> wstep" where
  "call_emit inst w =
     (case inst of
        InstAdd dest lhs rhs \<Rightarrow> emit_add dest lhs rhs w
      | InstSub dest lhs rhs \<Rightarrow> emit_sub dest lhs rhs w
      | InstNeg dest src \<Rightarrow> emit_neg dest src w
      | InstMul dest lhs rhs \<Rightarrow> emit_mul dest lhs rhs w
      | InstDiv dest lhs rhs \<Rightarrow> emit_div dest lhs rhs w
      | InstMod dest lhs rhs \<Rightarrow> emit_mod dest lhs rhs w
      | InstAnd dest lhs rhs \<Rightarrow> emit_and dest lhs rhs w
      | InstOr dest lhs rhs \<Rightarrow> emit_or dest lhs rhs w
      | InstXor dest lhs rhs \<Rightarrow> emit_xor dest lhs rhs w
      | InstNot dest src \<Rightarrow> emit_not dest src w
      | InstShl dest lhs rhs \<Rightarrow> emit_shl dest lhs rhs w
      | InstShr dest lhs rhs \<Rightarrow> emit_shr dest lhs rhs w
      | InstSar dest lhs rhs \<Rightarrow> emit_sar dest lhs rhs w
      | InstMov dest src \<Rightarrow> emit_mov dest src w
      | InstLoadTupleElement dest src idx \<Rightarrow> emit_load_tuple_element dest src idx w
      | InstLoadEnumElement dest src idx \<Rightarrow> emit_load_enum_element dest src idx w
      | InstLoadEnumVariant dest src idx \<Rightarrow> emit_load_enum_variant dest src idx w
      | InstLoadStructField dest obj fld \<Rightarrow> emit_load_struct_field dest obj fld w
      | InstLoadField dest obj fld \<Rightarrow> emit_load_field dest obj fld w
      | InstStoreField src obj fld \<Rightarrow> emit_store_field src obj fld w
      | InstLoadGlobal dest global_id \<Rightarrow> emit_load_global dest global_id w
      | InstStoreGlobal src global_id \<Rightarrow> emit_store_global src global_id w
      | InstPushRegister src \<Rightarrow> emit_push_register src w
      | InstConstTrue dest \<Rightarrow> emit_const_true dest w
      | InstConstFalse dest \<Rightarrow> emit_const_false dest w
      | InstConstUInt8 dest value \<Rightarrow> emit_const_uint8 dest value w
      | InstTestIdentity dest lhs rhs \<Rightarrow> emit_test_identity dest lhs rhs w
      | InstTestEq dest lhs rhs \<Rightarrow> emit_test_eq dest lhs rhs w
      | InstTestNe dest lhs rhs \<Rightarrow> emit_test_ne dest lhs rhs w
      | InstTestGt dest lhs rhs \<Rightarrow> emit_test_gt dest lhs rhs w
      | InstTestGe dest lhs rhs \<Rightarrow> emit_test_ge dest lhs rhs w
      | InstTestLt dest lhs rhs \<Rightarrow> emit_test_lt dest lhs rhs w
      | InstTestLe dest lhs rhs \<Rightarrow> emit_test_le dest lhs rhs w
      | InstLoopStart \<Rightarrow> emit_loop_start w
      | InstInvokeDirect dest fct \<Rightarrow> emit_invoke_direct dest fct w
      | InstInvokeVirtual dest fct \<Rightarrow> emit_invoke_virtual dest fct w
      | InstInvokeStatic dest fct \<Rightarrow> emit_invoke_static dest fct w
      | InstInvokeLambda dest idx \<Rightarrow> emit_invoke_lambda dest idx w
      | InstInvokeGenericStatic dest fct \<Rightarrow> emit_invoke_generic_static dest fct w
      | InstInvokeGenericDirect dest fct \<Rightarrow> emit_invoke_generic_direct dest fct w
      | InstNewObject dest cls \<Rightarrow> emit_new_object dest cls w
      | InstNewObjectInitialized dest cls \<Rightarrow> emit_new_object_initialized dest cls w
      | InstNewArray dest cls len \<Rightarrow> emit_new_array dest cls len w
      | InstNewTuple dest idx \<Rightarrow> emit_new_tuple dest idx w
      | InstNewEnum dest idx \<Rightarrow> emit_new_enum dest idx w
      | InstNewStruct dest idx \<Rightarrow> emit_new_struct dest idx w
      | InstNewTraitObject dest idx src \<Rightarrow> emit_new_trait_object dest idx src w
      | InstNewLambda dest idx \<Rightarrow> emit_new_lambda dest idx w
      | InstArrayLength dest arr \<Rightarrow> emit_array_length dest arr w
      | InstLoadArray dest arr idx \<Rightarrow> emit_load_array dest arr idx w
      | InstStoreArray src arr idx \<Rightarrow> emit_store_array src arr idx w
      | InstRet opnd \<Rightarrow> emit_ret opnd w
      | _ \<Rightarrow> Inl Unreachable)"

lemmas emit_method_defs =
  emit_add_def emit_sub_def emit_neg_def emit_mul_def emit_div_def emit_mod_def emit_and_def
  emit_or_def emit_xor_def emit_not_def emit_shl_def emit_shr_def emit_sar_def emit_mov_def
  emit_load_tuple_element_def emit_load_enum_element_def emit_load_enum_variant_def
  emit_load_struct_field_def emit_load_field_def emit_store_field_def emit_load_global_def
  emit_store_global_def emit_push_register_def emit_const_true_def emit_const_false_def
  emit_const_uint8_def emit_test_identity_def emit_test_eq_def emit_test_ne_def emit_test_gt_def
  emit_test_ge_def emit_test_lt_def emit_test_le_def emit_loop_start_def emit_invoke_direct_def
  emit_invoke_virtual_def emit_invoke_static_def emit_invoke_lambda_def
  emit_invoke_generic_static_def emit_invoke_generic_direct_def emit_new_object_def
  emit_new_object_initialized_def emit_new_array_def emit_new_tuple_def emit_new_enum_def
  emit_new_struct_def emit_new_trait_object_def emit_new_lambda_def emit_array_length_def
  emit_load_array_def emit_store_array_def emit_ret_def emit_reg3_def emit_reg2_def
  emit_reg2_idx_def emit_reg1_def emit_reg1_idx_def emit_reg1_uint8_def emit_new_def
  emit_new_arr_def emit_fct_def emit_access_field_def emit_access_tuple_def emit_access_enum_def
  emit_load_global_inst_def emit_store_global_inst_def emit_op_def

datatype fwd = FJump | FIfFalse register | FIfTrue register

fun emit_forward :: "fwd \<Rightarrow> label \<Rightarrow> wstep" where
  "emit_forward FJump lbl w = emit_jump lbl w"
| "emit_forward (FIfFalse opnd) lbl w = emit_jump_if_false opnd lbl w"
| "emit_forward (FIfTrue opnd) lbl w = emit_jump_if_true opnd lbl w"

fun emit_const :: "register \<Rightarrow> const_pool_entry \<Rightarrow> wstep" where
  "emit_const dest (CpChar v) w = emit_const_char dest v w"
| "emit_const dest (CpInt32 v) w = emit_const_int32 dest v w"
| "emit_const dest (CpInt64 v) w = emit_const_int64 dest v w"
| "emit_const dest (CpFloat32 v) w = emit_const_float32 dest v w"
| "emit_const dest (CpFloat64 v) w = emit_const_float64 dest v w"
| "emit_const dest (CpString v) w = emit_const_string dest v w"
| "emit_const dest _ w = Inl Unreachable"

datatype wcmd =
    CInst instruction
  | CConst register const_pool_entry
  | CAddConst const_pool_entry
  | CSetPosition position
  | CSetArguments u32
  | CSetParams "bytecode_type list"
  | CSetReturnType "bytecode_type option"
  | CAddRegister bytecode_type
  | CCreateLabel
  | CDefineLabel
  | CBindLabel label
  | CForward fwd label
  | CLoop label

fun run_cmd :: "wcmd \<Rightarrow> wstep" where
  "run_cmd (CInst i) w = call_emit i w"
| "run_cmd (CConst dest e) w = emit_const dest e w"
| "run_cmd (CAddConst e) w = Inr (snd (add_const e w))"
| "run_cmd (CSetPosition p) w = Inr (set_position p w)"
| "run_cmd (CSetArguments n) w = Inr (set_arguments n w)"
| "run_cmd (CSetParams ps) w = Inr (set_params ps w)"
| "run_cmd (CSetReturnType t) w = Inr (set_return_type t w)"
| "run_cmd (CAddRegister ty) w = Inr (snd (add_register ty w))"
| "run_cmd CCreateLabel w = Inr (snd (create_label w))"
| "run_cmd CDefineLabel w = Inr (snd (define_label w))"
| "run_cmd (CBindLabel l) w = bind_label l w"
| "run_cmd (CForward k l) w = emit_forward k l w"
| "run_cmd (CLoop l) w = emit_jump_loop l w"

lemmas writer_frame_defs =
  add_const_def set_position_def create_label_def define_label_def set_arguments_def
  set_params_def set_return_type_def add_register_def

definition run_cmds :: "wcmd list \<Rightarrow> wstep" where
  "run_cmds cs w = for_each run_cmd cs w"

subsection \<open>Specification: symbolic instructions\<close>

fun fwd_inst :: "fwd \<Rightarrow> u32 \<Rightarrow> instruction" where
  "fwd_inst FJump d = InstJump d"
| "fwd_inst (FIfFalse r) d = InstJumpIfFalse r d"
| "fwd_inst (FIfTrue r) d = InstJumpIfTrue r d"

fun fwd_inst_const :: "fwd \<Rightarrow> const_pool_idx \<Rightarrow> instruction" where
  "fwd_inst_const FJump i = InstJumpConst i"
| "fwd_inst_const (FIfFalse r) i = InstJumpIfFalseConst r i"
| "fwd_inst_const (FIfTrue r) i = InstJumpIfTrueConst r i"

fun fwd_conds :: "fwd \<Rightarrow> register list" where
  "fwd_conds FJump = []"
| "fwd_conds (FIfFalse r) = [r]"
| "fwd_conds (FIfTrue r) = [r]"

datatype item =
    Fixed operand_width instruction
  | PendWide fwd label
  | PendConst fwd const_pool_idx label

fun item_inst :: "item \<Rightarrow> operand_width \<times> instruction" where
  "item_inst (Fixed w i) = (w, i)"
| "item_inst (PendWide k l) = (Wide, fwd_inst k 0)"
| "item_inst (PendConst k idx l) = (Normal, fwd_inst_const k idx)"

definition item_enc :: "item \<Rightarrow> u8 list" where
  "item_enc x = encode (item_inst x)"

definition auto_item :: "instruction \<Rightarrow> item" where
  "auto_item i = Fixed (width_for (inst_values i)) i"

fun const_inst :: "register \<Rightarrow> const_pool_entry \<Rightarrow> const_pool_idx \<Rightarrow> instruction" where
  "const_inst dest (CpChar v) idx = InstConstChar dest idx"
| "const_inst dest (CpInt32 v) idx = InstConstInt32 dest idx"
| "const_inst dest (CpInt64 v) idx = InstConstInt64 dest idx"
| "const_inst dest (CpFloat32 v) idx = InstConstFloat32 dest idx"
| "const_inst dest (CpFloat64 v) idx = InstConstFloat64 dest idx"
| "const_inst dest (CpString v) idx = InstConstString dest idx"
| "const_inst dest _ idx = InstLoopStart"

text \<open>The item a call adds, given the state it is made in.\<close>

fun emitted :: "wcmd \<Rightarrow> writer \<Rightarrow> item list" where
  "emitted (CInst i) w = [auto_item i]"
| "emitted (CConst dest e) w = [auto_item (const_inst dest e (length (w_const_pool w)))]"
| "emitted (CForward k l) w =
     [if list_all (\<lambda>r. as_u32 r \<le> 255) (fwd_conds k) \<and> as_u32 (length (w_const_pool w)) \<le> 255
      then PendConst k (length (w_const_pool w)) l
      else PendWide k l]"
| "emitted (CLoop l) w =
     [auto_item (InstJumpLoop
        (as_u32 (length (w_code w) - unat (the (w_label_offsets w ! l)))))]"
| "emitted _ w = []"

fun emitted_all :: "wcmd list \<Rightarrow> writer \<Rightarrow> item list" where
  "emitted_all [] w = []"
| "emitted_all (c # cs) w =
     emitted c w @ (case run_cmd c w of Inl _ \<Rightarrow> [] | Inr w' \<Rightarrow> emitted_all cs w')"

text \<open>Pending items and the writer's lists of unresolved jumps.\<close>

fun wide_entry :: "nat \<times> item \<Rightarrow> (bytecode_offset \<times> bytecode_offset \<times> label) list" where
  "wide_entry (s, PendWide k l) = [(as_u32 s, as_u32 (s + 2 + 4 * length (fwd_conds k)), l)]"
| "wide_entry (s, _) = []"

fun const_entry :: "nat \<times> item \<Rightarrow> (bytecode_offset \<times> const_pool_idx \<times> label) list" where
  "const_entry (s, PendConst k idx l) = [(as_u32 s, idx, l)]"
| "const_entry (s, _) = []"

definition wide_entries :: "nat \<Rightarrow> item list \<Rightarrow> (bytecode_offset \<times> bytecode_offset \<times> label) list" where
  "wide_entries s xs = concat (map wide_entry (locate item_enc s xs))"

definition const_entries :: "nat \<Rightarrow> item list \<Rightarrow> (bytecode_offset \<times> const_pool_idx \<times> label) list" where
  "const_entries s xs = concat (map const_entry (locate item_enc s xs))"

definition code_of :: "item list \<Rightarrow> u8 list" where
  "code_of xs = concat (map item_enc xs)"

text \<open>The refinement relation between items and a writer that has not been generated yet.\<close>

definition refines :: "item list \<Rightarrow> writer \<Rightarrow> bool" where
  "refines xs w =
     (w_code w = code_of xs
      \<and> w_unresolved_jump_offsets w = wide_entries 0 xs
      \<and> w_unresolved_jump_consts w = const_entries 0 xs)"

subsection \<open>Every call keeps the refinement\<close>

lemma call_emit_eq:
  assumes "call_emit i w = Inr w'"
  shows "rbind (position_step (inst_op i) w) (\<lambda>w. Inr (w\<lparr>w_code := w_code w @ item_enc (auto_item i)\<rparr>)) = Inr w'"
  using assms
  by (cases i)
     (simp_all add: call_emit_def emit_method_defs emit_values_eq item_enc_def auto_item_def
       encode_def enc_inst_def inst_values_def inst_imm_def emit_u8_def result_simps)

lemma emit_const_eq:
  assumes "emit_const dest e w = Inr w'"
  shows "w_position w = None \<and>
     w' = w\<lparr>w_const_pool := w_const_pool w @ [e],
            w_code := w_code w @ item_enc (auto_item (const_inst dest e (length (w_const_pool w))))\<rparr>"
  using assms
  by (cases e)
     (auto simp: emit_const_char_def emit_const_int32_def emit_const_int64_def
       emit_const_float32_def emit_const_float64_def emit_const_string_def add_const_def
       emit_reg1_idx_def emit_values_eq item_enc_def auto_item_def encode_def enc_inst_def
       inst_values_def inst_imm_def position_step_def needs_position_def result_simps)


lemma position_step_frame:
  assumes "position_step op w = Inr w'"
  shows "w_code w' = w_code w \<and> w_label_offsets w' = w_label_offsets w
    \<and> w_unresolved_jump_offsets w' = w_unresolved_jump_offsets w
    \<and> w_unresolved_jump_consts w' = w_unresolved_jump_consts w
    \<and> w_const_pool w' = w_const_pool w"
  using assms
  by (auto simp: position_step_def emit_position_def Let_def rbind_eq_Inr_iff split: if_splits)

lemma code_of_append [simp]: "code_of (xs @ ys) = code_of xs @ code_of ys"
  by (simp add: code_of_def)

lemma code_of_Nil [simp]: "code_of [] = []"
  by (simp add: code_of_def)

lemma code_of_Cons [simp]: "code_of (x # xs) = item_enc x @ code_of xs"
  by (simp add: code_of_def)

lemma wide_entries_append:
  "wide_entries s (xs @ ys) = wide_entries s xs @ wide_entries (s + length (code_of xs)) ys"
  by (simp add: wide_entries_def locate_append code_of_def)

lemma const_entries_append:
  "const_entries s (xs @ ys) = const_entries s xs @ const_entries (s + length (code_of xs)) ys"
  by (simp add: const_entries_def locate_append code_of_def)

lemma entries_Cons:
  "wide_entries s (x # xs) = wide_entry (s, x) @ wide_entries (s + length (item_enc x)) xs"
  "const_entries s (x # xs) = const_entry (s, x) @ const_entries (s + length (item_enc x)) xs"
  by (simp_all add: wide_entries_def const_entries_def)

lemma entries_Nil [simp]: "wide_entries s [] = []" "const_entries s [] = []"
  by (simp_all add: wide_entries_def const_entries_def)

lemma entries_auto_item [simp]:
  "wide_entries s [auto_item i] = []" "const_entries s [auto_item i] = []"
  by (simp_all add: entries_Cons auto_item_def)

lemma fits_u8_to_u8 [simp]: "fits_u8 (u8_as_u32 (to_u8 op))"
  using u8_as_u32_to_u8_less [of op] by (simp add: fits_u8_def)

text \<open>A forward jump, in both of its forms.\<close>

lemma emit_jmp_forward_eq:
  assumes "conds = (case cond of None \<Rightarrow> [] | Some c \<Rightarrow> [c])"
  shows "emit_jmp_forward op op_const cond l w =
    Inr (if list_all (\<lambda>r. as_u32 r \<le> 255) conds \<and> as_u32 (length (w_const_pool w)) \<le> 255
         then w\<lparr>w_code := w_code w @ enc_header Normal op_const @
                  enc_operands Normal (map as_u32 (conds @ [length (w_const_pool w)])),
                w_const_pool := w_const_pool w @ [CpInt32 0],
                w_unresolved_jump_consts :=
                  w_unresolved_jump_consts w @ [(offset w, length (w_const_pool w), l)]\<rparr>
         else w\<lparr>w_code := w_code w @ enc_header Wide op @
                  enc_operands Wide (map as_u32 conds @ [0]),
                w_unresolved_jump_offsets :=
                  w_unresolved_jump_offsets w @
                    [(offset w, as_u32 (length (w_code w) + 2 + 4 * length conds), l)]\<rparr>)"
proof -
  have six: "Suc (Suc (Suc (Suc (Suc (Suc n))))) = n + 6" for n by simp
  from assms show ?thesis
    by (cases cond)
       (simp_all add: emit_jmp_forward_def fits_u8_def [of "as_u32 _"] add_const_def emit_wide_def
         emit_u8_def emit_u32_def offset_def le_bytes_def six add.commute)
qed

lemma emit_forward_eq:
  assumes "emit_forward k l w = Inr w'"
  shows "l < length (w_label_offsets w) \<and> w_label_offsets w ! l = None \<and>
    w' = (if list_all (\<lambda>r. as_u32 r \<le> 255) (fwd_conds k) \<and> as_u32 (length (w_const_pool w)) \<le> 255
          then w\<lparr>w_code := w_code w @ item_enc (PendConst k (length (w_const_pool w)) l),
                 w_const_pool := w_const_pool w @ [CpInt32 0],
                 w_unresolved_jump_consts :=
                   w_unresolved_jump_consts w @ [(offset w, length (w_const_pool w), l)]\<rparr>
          else w\<lparr>w_code := w_code w @ item_enc (PendWide k l),
                 w_unresolved_jump_offsets :=
                   w_unresolved_jump_offsets w @
                     [(offset w, as_u32 (length (w_code w) + 2 + 4 * length (fwd_conds k)), l)]\<rparr>)"
  using assms
  by (cases k)
     (auto simp: emit_jump_def emit_jump_if_false_def emit_jump_if_true_def lookup_label_def
       emit_jmp_forward_eq [OF refl] item_enc_def encode_def enc_inst_def inst_values_def
       inst_imm_def rbind_eq_Inr_iff)

lemma run_cmd_refines:
  assumes "refines xs w" and "run_cmd c w = Inr w'"
  shows "refines (xs @ emitted c w) w'"
proof (cases c)
  case (CInst i)
  with assms show ?thesis
    by (auto simp: refines_def rbind_eq_Inr_iff wide_entries_append const_entries_append
        dest!: call_emit_eq position_step_frame)
next
  case (CConst dest e)
  with assms show ?thesis
    by (auto simp: refines_def wide_entries_append const_entries_append dest!: emit_const_eq)
next
  case (CForward k l)
  with assms show ?thesis
    by (auto simp: refines_def wide_entries_append const_entries_append entries_Cons offset_def
        dest!: emit_forward_eq)
next
  case (CLoop l)
  with assms show ?thesis
    by (auto simp: refines_def emit_jump_loop_def lookup_label_def emit_jmp_def emit_values_eq
        rbind_eq_Inr_iff wide_entries_append const_entries_append item_enc_def auto_item_def
        encode_def enc_inst_def inst_values_def inst_imm_def Let_def entries_Cons
        dest!: position_step_frame)
qed (use assms in \<open>auto simp: refines_def writer_frame_defs bind_label_def rbind_eq_Inr_iff\<close>)

subsection \<open>Resolving the forward jumps\<close>

abbreviation label_at :: "bytecode_offset option list \<Rightarrow> label \<Rightarrow> bytecode_offset" where
  "label_at ls l \<equiv> the (ls ! l)"

definition distance :: "bytecode_offset option list \<Rightarrow> nat \<Rightarrow> label \<Rightarrow> u32" where
  "distance ls s l = as_u32 (unat (label_at ls l) - s)"

fun resolve_wide :: "bytecode_offset option list \<Rightarrow> nat \<times> item \<Rightarrow> item" where
  "resolve_wide ls (s, PendWide k l) = Fixed Wide (fwd_inst k (distance ls s l))"
| "resolve_wide ls (s, x) = x"

fun resolve_const :: "bytecode_offset option list \<Rightarrow> nat \<times> item \<Rightarrow> item" where
  "resolve_const ls (s, PendConst k idx l) =
     Fixed Normal (if distance ls s l \<le> 255 then fwd_inst k (distance ls s l)
                   else fwd_inst_const k idx)"
| "resolve_const ls (s, x) = x"

fun patch_pool :: "bytecode_offset option list \<Rightarrow> nat \<times> item \<Rightarrow> const_pool_entry list \<Rightarrow> const_pool_entry list" where
  "patch_pool ls (s, PendConst k idx l) pool =
     (if distance ls s l \<le> 255 then pool else pool[idx := CpInt32 (distance ls s l)])"
| "patch_pool ls (s, x) pool = pool"

text \<open>A pending jump at \<open>s\<close> has a bound label that lies behind it.\<close>

fun bound_ahead :: "bytecode_offset option list \<Rightarrow> nat \<times> item \<Rightarrow> bool" where
  "bound_ahead ls (s, PendWide k l) =
     (l < length ls \<and> (\<exists>t. ls ! l = Some t \<and> s < unat t))"
| "bound_ahead ls (s, PendConst k idx l) =
     (l < length ls \<and> (\<exists>t. ls ! l = Some t \<and> s < unat t))"
| "bound_ahead ls (s, Fixed w i) = True"

lemma writer_same [simp]:
  "w\<lparr>w_code := w_code w\<rparr> = w" "w\<lparr>w_code := w_code w, w_const_pool := w_const_pool w\<rparr> = w"
  by (cases w; simp)+

lemma length_item_enc:
  "length (item_enc x) =
     (let (w, i) = item_inst x in
      opcode_size w + length (inst_operands i) * operand_size w + length (inst_imm i))"
  by (simp add: item_enc_def encode_def enc_inst_def case_prod_unfold Let_def)

lemma inst_imm_fwd [simp]: "inst_imm (fwd_inst k d) = []" "inst_imm (fwd_inst_const k i) = []"
  by (cases k; simp add: inst_imm_def)+

lemma inst_operands_fwd [simp]:
  "inst_operands (fwd_inst k d) = fwd_conds k @ [unat d]"
  "inst_operands (fwd_inst_const k i) = fwd_conds k @ [i]"
  by (cases k; simp)+

lemma length_resolved [simp]:
  "length (item_enc (resolve_wide ls (s, x))) = length (item_enc x)"
  "length (item_enc (resolve_const ls (s, x))) = length (item_enc x)"
  by (cases x; simp add: length_item_enc)+

lemma locate_map:
  assumes "\<And>s x. length (enc (f (s, x))) = length (enc x)"
  shows "locate enc off (map f (locate enc off xs)) = map (\<lambda>(s, x). (s, f (s, x))) (locate enc off xs)"
  by (induction xs arbitrary: off) (simp_all add: assms)

lemma patch_u32_eq:
  assumes "w_code w = a @ le_bytes v0 @ b" and "length (w_code w) < 2 ^ 32"
  shows "patch_u32 (as_u32 (length a)) v w = Inr (w\<lparr>w_code := a @ le_bytes v @ b\<rparr>)"
proof -
  have l: "unat (as_u32 (length a)) = length a"
    using assms by (intro unat_as_u32_small) (simp add: le_bytes_def)
  show ?thesis
    using assms(1) l
    by (simp add: patch_u32_def le_bytes_def list_update_append nth_append)
qed

definition wide_prefix :: "fwd \<Rightarrow> u8 list" where
  "wide_prefix k = enc_header Wide (inst_op (fwd_inst k 0)) @ enc_operands Wide (map as_u32 (fwd_conds k))"

lemma length_le_bytes [simp]: "length (le_bytes v) = 4"
  by (simp add: le_bytes_def)

lemma length_wide_prefix [simp]: "length (wide_prefix k) = 2 + 4 * length (fwd_conds k)"
  by (simp add: wide_prefix_def mult.commute)

lemma item_enc_wide_jump:
  "item_enc (PendWide k l) = wide_prefix k @ le_bytes 0"
  "item_enc (Fixed Wide (fwd_inst k d)) = wide_prefix k @ le_bytes d"
  by (cases k; simp add: item_enc_def encode_def enc_inst_def wide_prefix_def inst_values_def
      inst_imm_def)+

lemma resolve_jump_offset_eq:
  assumes code: "w_code w = pre @ item_enc (PendWide k l) @ post"
    and small: "length (w_code w) < 2 ^ 32"
    and res: "resolve_jump_offset
      (as_u32 (length pre), as_u32 (length pre + 2 + 4 * length (fwd_conds k)), l) w = Inr w'"
  shows "bound_ahead (w_label_offsets w) (length pre, PendWide k l)
    \<and> w' = w\<lparr>w_code := pre @ item_enc (resolve_wide (w_label_offsets w) (length pre, PendWide k l)) @ post\<rparr>"
proof -
  have s: "unat (as_u32 (length pre)) = length pre"
    using code small by (intro unat_as_u32_small) simp
  from res s obtain t where t: "l < length (w_label_offsets w)" "w_label_offsets w ! l = Some t"
      "length pre < unat t"
    and p: "patch_u32 (as_u32 (length pre + 2 + 4 * length (fwd_conds k)))
        (distance (w_label_offsets w) (length pre) l) w = Inr w'"
    by (auto simp: resolve_jump_offset_def lookup_label_def rbind_eq_Inr_iff Let_def distance_def)
  have "w_code w = (pre @ wide_prefix k) @ le_bytes 0 @ post"
    using code by (simp add: item_enc_wide_jump)
  from patch_u32_eq [OF this small] p t show ?thesis
    by (simp add: item_enc_wide_jump add.assoc)
qed

lemma resolve_offsets:
  assumes "for_each resolve_jump_offset (wide_entries (length pre) xs) w = Inr w'"
    and "w_code w = pre @ code_of xs" and "length (w_code w) < 2 ^ 32"
  shows "list_all (\<lambda>(s, x). (\<exists>k l. x = PendWide k l) \<longrightarrow> bound_ahead (w_label_offsets w) (s, x))
            (locate item_enc (length pre) xs)
    \<and> w' = w\<lparr>w_code := pre @ code_of (map (resolve_wide (w_label_offsets w)) (locate item_enc (length pre) xs))\<rparr>"
  using assms
proof (induction xs arbitrary: pre w)
  case Nil
  then show ?case by simp
next
  case (Cons x xs)
  let ?ls = "w_label_offsets w"
  let ?y = "resolve_wide ?ls (length pre, x)"
  let ?w = "w\<lparr>w_code := pre @ item_enc ?y @ code_of xs\<rparr>"
  have step: "for_each resolve_jump_offset (wide_entries (length (pre @ item_enc ?y)) xs) ?w = Inr w'
      \<and> ((\<exists>k l. x = PendWide k l) \<longrightarrow> bound_ahead ?ls (length pre, x))"
  proof (cases x)
    case (PendWide k l)
    with Cons.prems(1) obtain w1 where
      r: "resolve_jump_offset
        (as_u32 (length pre), as_u32 (length pre + 2 + 4 * length (fwd_conds k)), l) w = Inr w1"
      and rest: "for_each resolve_jump_offset
        (wide_entries (length pre + length (item_enc x)) xs) w1 = Inr w'"
      by (auto simp: entries_Cons rbind_eq_Inr_iff)
    have "w_code w = pre @ item_enc (PendWide k l) @ code_of xs"
      using Cons.prems(2) PendWide by simp
    from resolve_jump_offset_eq [OF this Cons.prems(3) r] rest PendWide show ?thesis
      by (simp add: item_enc_wide_jump)
  qed (use Cons.prems(1) Cons.prems(2) [symmetric] in \<open>simp_all add: entries_Cons\<close>)
  moreover have "length (w_code ?w) < 2 ^ 32"
    using Cons.prems(2,3) by simp
  ultimately show ?case
    using Cons.IH [of "pre @ item_enc ?y" ?w] by simp
qed

text \<open>The short form: the opcode and the last operand byte are overwritten.\<close>

lemma item_enc_const_jump:
  "item_enc (PendConst k idx l) =
     to_u8 (inst_op (fwd_inst_const k idx)) # map (as_u8 \<circ> as_u32) (fwd_conds k) @ [as_u8 (as_u32 idx)]"
  "item_enc (Fixed Normal (fwd_inst_const k idx)) =
     to_u8 (inst_op (fwd_inst_const k idx)) # map (as_u8 \<circ> as_u32) (fwd_conds k) @ [as_u8 (as_u32 idx)]"
  "item_enc (Fixed Normal (fwd_inst k d)) =
     to_u8 (inst_op (fwd_inst k d)) # map (as_u8 \<circ> as_u32) (fwd_conds k) @ [as_u8 d]"
  by (cases k; simp add: item_enc_def encode_def enc_inst_def inst_values_def inst_imm_def)+

lemma immediate_jump_fwd:
  "immediate_jump (inst_op (fwd_inst_const k idx)) = Inr (inst_op (fwd_inst k d))"
  by (cases k) (simp_all add: immediate_jump_def)

lemma jump_operand_index:
  "(if inst_op (fwd_inst_const k idx) = OpJumpConst then 1 else 2) = Suc (length (fwd_conds k))"
  by (cases k) simp_all

lemma resolve_jump_const_eq:
  assumes code: "w_code w = pre @ item_enc (PendConst k idx l) @ post"
    and small: "length (w_code w) < 2 ^ 32"
    and idx: "idx < length (w_const_pool w)"
    and res: "resolve_jump_const (as_u32 (length pre), idx, l) w = Inr w'"
  shows "bound_ahead (w_label_offsets w) (length pre, PendConst k idx l)
    \<and> w' = w\<lparr>w_code := pre @ item_enc (resolve_const (w_label_offsets w) (length pre, PendConst k idx l)) @ post,
             w_const_pool := patch_pool (w_label_offsets w) (length pre, PendConst k idx l) (w_const_pool w)\<rparr>"
proof -
  let ?ls = "w_label_offsets w"
  let ?d = "distance ?ls (length pre) l"
  let ?op = "inst_op (fwd_inst_const k idx)"
  have s: "unat (as_u32 (length pre)) = length pre"
    using code small by (intro unat_as_u32_small) simp
  have at: "bytecode_at w (as_u32 (length pre)) = Inr ?op"
    using code s by (simp add: bytecode_at_def item_enc_const_jump)
  from res s obtain t where t: "l < length ?ls" "?ls ! l = Some t" "length pre < unat t"
    by (auto simp: resolve_jump_const_def lookup_label_def rbind_eq_Inr_iff)
  note facts = res t at s immediate_jump_fwd [of k idx ?d] jump_operand_index [of k idx]
  show ?thesis
  proof (cases "?d \<le> 255")
    case True
    with facts have "Inr w' =
         rbind (vec_set (w_code w) (length pre) (to_u8 (inst_op (fwd_inst k ?d)))) (\<lambda>c.
         rbind (vec_set c (length pre + Suc (length (fwd_conds k))) (as_u8 ?d)) (\<lambda>c.
         Inr (w\<lparr>w_code := c\<rparr>)))"
      by (simp add: resolve_jump_const_def lookup_label_def distance_def fits_u8_def Let_def)
    with True t code show ?thesis
      by (simp add: item_enc_const_jump list_update_append nth_append)
  next
    case False
    with facts have "Inr w' = patch_const idx (CpInt32 ?d) w"
      by (simp add: resolve_jump_const_def lookup_label_def distance_def fits_u8_def Let_def)
    with False t code idx show ?thesis
      by (simp add: item_enc_const_jump patch_const_def)
  qed
qed

fun pending_idx :: "item \<Rightarrow> const_pool_idx list" where
  "pending_idx (PendConst k idx l) = [idx]"
| "pending_idx _ = []"

definition pending_idxs :: "item list \<Rightarrow> const_pool_idx list" where
  "pending_idxs xs = concat (map pending_idx xs)"

lemma length_patch_pool [simp]: "length (patch_pool ls sx pool) = length pool"
  by (cases "(ls, sx, pool)" rule: patch_pool.cases) simp_all

lemma resolve_consts:
  assumes "for_each resolve_jump_const (const_entries (length pre) xs) w = Inr w'"
    and "w_code w = pre @ code_of xs" and "length (w_code w) < 2 ^ 32"
    and "list_all (\<lambda>idx. idx < length (w_const_pool w)) (pending_idxs xs)"
  shows "list_all (\<lambda>(s, x). (\<exists>k idx l. x = PendConst k idx l) \<longrightarrow> bound_ahead (w_label_offsets w) (s, x))
            (locate item_enc (length pre) xs)
    \<and> w' = w\<lparr>w_code := pre @ code_of (map (resolve_const (w_label_offsets w)) (locate item_enc (length pre) xs)),
             w_const_pool := fold (patch_pool (w_label_offsets w)) (locate item_enc (length pre) xs) (w_const_pool w)\<rparr>"
  using assms
proof (induction xs arbitrary: pre w)
  case Nil
  then show ?case by simp
next
  case (Cons x xs)
  let ?ls = "w_label_offsets w"
  let ?y = "resolve_const ?ls (length pre, x)"
  let ?p = "patch_pool ?ls (length pre, x) (w_const_pool w)"
  let ?w = "w\<lparr>w_code := pre @ item_enc ?y @ code_of xs, w_const_pool := ?p\<rparr>"
  have len: "length (pre @ item_enc ?y) = length pre + length (item_enc x)" by simp
  have step: "for_each resolve_jump_const (const_entries (length (pre @ item_enc ?y)) xs) ?w = Inr w'
      \<and> ((\<exists>k idx l. x = PendConst k idx l) \<longrightarrow> bound_ahead ?ls (length pre, x))"
  proof (cases x)
    case (PendConst k idx l)
    with Cons.prems(1) obtain w1 where
      r: "resolve_jump_const (as_u32 (length pre), idx, l) w = Inr w1"
      and rest: "for_each resolve_jump_const
        (const_entries (length pre + length (item_enc x)) xs) w1 = Inr w'"
      by (auto simp: entries_Cons rbind_eq_Inr_iff)
    have c: "w_code w = pre @ item_enc (PendConst k idx l) @ code_of xs"
      using Cons.prems(2) PendConst by simp
    have "idx < length (w_const_pool w)"
      using Cons.prems(4) PendConst by (simp add: pending_idxs_def)
    from resolve_jump_const_eq [OF c Cons.prems(3) this r] rest show ?thesis
      unfolding len PendConst by (simp del: resolve_const.simps patch_pool.simps)
  qed (use Cons.prems(1) Cons.prems(2) [symmetric] in \<open>simp_all add: entries_Cons\<close>)
  moreover have "length (w_code ?w) < 2 ^ 32"
    using Cons.prems(2,3) by simp
  moreover have "list_all (\<lambda>idx. idx < length (w_const_pool ?w)) (pending_idxs xs)"
    using Cons.prems(4) by (simp add: pending_idxs_def)
  ultimately show ?case
    using Cons.IH [of "pre @ item_enc ?y" ?w] by simp
qed

text \<open>The resolved instruction of an item, and the two passes together.\<close>

definition resolve_item :: "bytecode_offset option list \<Rightarrow> nat \<times> item \<Rightarrow> operand_width \<times> instruction" where
  "resolve_item ls sx = item_inst (resolve_const ls (fst sx, resolve_wide ls sx))"

lemma pending_idxs_resolve_wide [simp]:
  "pending_idxs (map (resolve_wide ls) (locate item_enc off xs)) = pending_idxs xs"
proof (induction xs arbitrary: off)
  case (Cons x xs)
  then show ?case by (cases x) (simp_all add: pending_idxs_def)
qed simp

lemma const_entries_resolve_wide [simp]:
  "const_entries off (map (resolve_wide ls) (locate item_enc off xs)) = const_entries off xs"
proof (induction xs arbitrary: off)
  case (Cons x xs)
  then show ?case by (cases x) (simp_all add: entries_Cons item_enc_wide_jump)
qed simp

lemma patch_pool_resolve_wide [simp]:
  "patch_pool ls (s, resolve_wide ls (s, x)) = patch_pool ls (s, x)"
  by (cases x) (simp_all add: fun_eq_iff)

lemma fold_patch_pool_resolve_wide:
  "fold (patch_pool ls) (map (\<lambda>(s, x). (s, resolve_wide ls (s, x))) sxs) = fold (patch_pool ls) sxs"
  by (induction sxs) auto

lemma resolve_forward_jumps_eq:
  assumes ref: "refines xs w" and small: "length (w_code w) < 2 ^ 32"
    and idx: "list_all (\<lambda>idx. idx < length (w_const_pool w)) (pending_idxs xs)"
    and res: "resolve_forward_jumps w = Inr w'"
  shows "list_all (bound_ahead (w_label_offsets w)) (locate item_enc 0 xs)
    \<and> w_code w' = concat (map encode (map (resolve_item (w_label_offsets w)) (locate item_enc 0 xs)))
    \<and> w_const_pool w' = fold (patch_pool (w_label_offsets w)) (locate item_enc 0 xs) (w_const_pool w)
    \<and> w_positions w' = w_positions w \<and> w_registers w' = w_registers w
    \<and> w_arguments w' = w_arguments w"
proof -
  let ?ls = "w_label_offsets w"
  let ?ys = "map (resolve_wide ?ls) (locate item_enc 0 xs)"
  let ?w0 = "w\<lparr>w_unresolved_jump_offsets := []\<rparr>"
  from res obtain w1 where
    p1: "for_each resolve_jump_offset (w_unresolved_jump_offsets w) ?w0 = Inr w1" and
    p2: "for_each resolve_jump_const (w_unresolved_jump_consts w1)
           (w1\<lparr>w_unresolved_jump_consts := []\<rparr>) = Inr w'"
    by (auto simp: resolve_forward_jumps_def Let_def rbind_eq_Inr_iff)
  from ref have code: "w_code w = code_of xs"
    and e1: "w_unresolved_jump_offsets w = wide_entries 0 xs"
    and e2: "w_unresolved_jump_consts w = const_entries 0 xs"
    by (simp_all add: refines_def)
  have ph1: "list_all (\<lambda>(s, x). (\<exists>k l. x = PendWide k l) \<longrightarrow> bound_ahead ?ls (s, x)) (locate item_enc 0 xs)
      \<and> w1 = ?w0\<lparr>w_code := code_of ?ys\<rparr>"
    using resolve_offsets [of "[]" xs ?w0 w1] p1 e1 code small by simp
  let ?w1 = "w1\<lparr>w_unresolved_jump_consts := []\<rparr>"
  have len: "length (code_of ?ys) = length (code_of xs)"
  proof -
    have "length (code_of (map (resolve_wide ?ls) (locate item_enc off zs))) = length (code_of zs)" for off zs
      by (induction zs arbitrary: off) simp_all
    then show ?thesis .
  qed
  have "for_each resolve_jump_const (const_entries (length ([] :: u8 list)) ?ys) ?w1 = Inr w'"
    using p2 ph1 e2 by simp
  moreover have "w_code ?w1 = [] @ code_of ?ys" and "length (w_code ?w1) < 2 ^ 32"
    and "list_all (\<lambda>idx. idx < length (w_const_pool ?w1)) (pending_idxs ?ys)"
    using ph1 len small code idx by simp_all
  ultimately have ph2: "list_all (\<lambda>(s, x). (\<exists>k idx l. x = PendConst k idx l) \<longrightarrow> bound_ahead ?ls (s, x))
        (locate item_enc 0 ?ys)
      \<and> w' = ?w1\<lparr>w_code := code_of (map (resolve_const ?ls) (locate item_enc 0 ?ys)),
             w_const_pool := fold (patch_pool ?ls) (locate item_enc 0 ?ys) (w_const_pool w)\<rparr>"
    using resolve_consts [of "[]" ?ys ?w1 w'] ph1 by simp
  have loc: "locate item_enc 0 ?ys = map (\<lambda>(s, x). (s, resolve_wide ?ls (s, x))) (locate item_enc 0 xs)"
    by (rule locate_map) simp
  have "list_all (bound_ahead ?ls) (locate item_enc 0 xs)"
  proof -
    have "bound_ahead ?ls (s, x)" if "(s, x) \<in> set (locate item_enc 0 xs)" for s x
      using ph1 ph2 that unfolding loc by (cases x) (fastforce simp: list_all_iff)+
    then show ?thesis by (auto simp: list_all_iff)
  qed
  moreover have "code_of (map (resolve_const ?ls) (locate item_enc 0 ?ys)) =
      concat (map encode (map (resolve_item ?ls) (locate item_enc 0 xs)))"
    unfolding loc code_of_def by (simp add: comp_def case_prod_unfold item_enc_def resolve_item_def)
  ultimately show ?thesis
    using ph1 ph2 by (simp add: loc fold_patch_pool_resolve_wide)
qed

subsection \<open>Whole runs\<close>

text \<open>The offsets at which an instruction starts, and the end of the code.\<close>

definition boundaries :: "('i \<Rightarrow> 'b list) \<Rightarrow> 'i list \<Rightarrow> bytecode_offset list" where
  "boundaries enc xs = map as_u32 (map fst (locate enc 0 xs) @ [length (concat (map enc xs))])"

definition asm_inv :: "item list \<Rightarrow> writer \<Rightarrow> bool" where
  "asm_inv xs w =
     (refines xs w
      \<and> sorted_wrt (<) (pending_idxs xs)
      \<and> list_all (\<lambda>idx. idx < length (w_const_pool w)) (pending_idxs xs)
      \<and> (\<forall>t. Some t \<in> set (w_label_offsets w) \<longrightarrow> t \<in> set (boundaries item_enc xs)))"

fun wf_cmd :: "wcmd \<Rightarrow> bool" where
  "wf_cmd (CInst i) = wf_inst i"
| "wf_cmd (CConst dest e) = (dest < 2 ^ 32)"
| "wf_cmd (CForward k l) = list_all (\<lambda>r. r < 2 ^ 32) (fwd_conds k)"
| "wf_cmd _ = True"

lemma pending_idxs_append [simp]: "pending_idxs (xs @ ys) = pending_idxs xs @ pending_idxs ys"
  by (simp add: pending_idxs_def)

lemma pending_idxs_simps [simp]:
  "pending_idxs [] = []" "pending_idxs [auto_item i] = []"
  "pending_idxs [PendWide k l] = []" "pending_idxs [PendConst k idx l] = [idx]"
  by (simp_all add: pending_idxs_def auto_item_def)

text \<open>How a call changes the label table and the constant pool.\<close>

lemma run_cmd_labels:
  assumes "run_cmd c w = Inr w'" and "Some t \<in> set (w_label_offsets w')"
  shows "Some t \<in> set (w_label_offsets w) \<or> (emitted c w = [] \<and> t = as_u32 (length (w_code w)))"
proof (cases c)
  case (CInst i)
  with assms show ?thesis
    by (auto simp: rbind_eq_Inr_iff dest!: call_emit_eq position_step_frame)
next
  case (CConst dest e)
  with assms show ?thesis by (auto dest!: emit_const_eq)
next
  case (CForward k l)
  with assms show ?thesis by (auto dest!: emit_forward_eq split: if_splits)
next
  case (CLoop l)
  with assms show ?thesis
    by (auto simp: emit_jump_loop_def lookup_label_def emit_jmp_def emit_values_eq
        rbind_eq_Inr_iff Let_def dest!: position_step_frame)
next
  case (CBindLabel l)
  with assms set_update_subset_insert [of "w_label_offsets w" l "Some (offset w)"] show ?thesis
    by (auto simp: bind_label_def rbind_eq_Inr_iff offset_def)
qed (use assms in \<open>auto simp: writer_frame_defs\<close>)

lemma run_cmd_pool:
  assumes "run_cmd c w = Inr w'"
  shows "length (w_const_pool w) \<le> length (w_const_pool w')
    \<and> list_all (\<lambda>idx. length (w_const_pool w) \<le> idx \<and> idx < length (w_const_pool w'))
        (pending_idxs (emitted c w))
    \<and> sorted_wrt (<) (pending_idxs (emitted c w))"
proof (cases c)
  case (CInst i)
  with assms show ?thesis
    by (auto simp: rbind_eq_Inr_iff dest!: call_emit_eq position_step_frame)
next
  case (CConst dest e)
  with assms show ?thesis by (auto dest!: emit_const_eq)
next
  case (CForward k l)
  with assms show ?thesis by (auto dest!: emit_forward_eq)
next
  case (CLoop l)
  with assms show ?thesis
    by (auto simp: emit_jump_loop_def lookup_label_def emit_jmp_def emit_values_eq
        rbind_eq_Inr_iff Let_def dest!: position_step_frame)
qed (use assms in \<open>auto simp: writer_frame_defs
       bind_label_def rbind_eq_Inr_iff\<close>)

lemma boundaries_append: "set (boundaries enc xs) \<subseteq> set (boundaries enc (xs @ ys))"
  by (cases ys) (auto simp: boundaries_def locate_append)

lemma boundaries_end: "as_u32 (length (code_of xs)) \<in> set (boundaries item_enc xs)"
  by (simp add: boundaries_def code_of_def)

lemma run_cmd_inv:
  assumes inv: "asm_inv xs w" and run: "run_cmd c w = Inr w'"
  shows "asm_inv (xs @ emitted c w) w'"
proof -
  from inv have ref: "refines xs w" and code: "w_code w = code_of xs"
    by (simp_all add: asm_inv_def refines_def)
  have "t \<in> set (boundaries item_enc (xs @ emitted c w))"
    if "Some t \<in> set (w_label_offsets w')" for t
  proof (cases "Some t \<in> set (w_label_offsets w)")
    case True
    with inv boundaries_append [of item_enc xs "emitted c w"] show ?thesis
      by (auto simp: asm_inv_def)
  next
    case False
    with run_cmd_labels [OF run that] code have "t = as_u32 (length (code_of xs))" by simp
    with boundaries_append [of item_enc xs "emitted c w"] show ?thesis
      by (auto simp: boundaries_end)
  qed
  moreover note run_cmd_pool [OF run] run_cmd_refines [OF ref run]
  ultimately show ?thesis
    using inv by (auto simp: asm_inv_def sorted_wrt_append list_all_iff intro: less_le_trans)
qed

lemma run_cmds_inv:
  "asm_inv xs w \<Longrightarrow> run_cmds cs w = Inr w' \<Longrightarrow> asm_inv (xs @ emitted_all cs w) w'"
proof (induction cs arbitrary: xs w)
  case Nil
  then show ?case by (simp add: run_cmds_def)
next
  case (Cons c cs)
  from Cons.prems(2) obtain w1 where "run_cmd c w = Inr w1" "run_cmds cs w1 = Inr w'"
    by (auto simp: run_cmds_def rbind_eq_Inr_iff)
  with Cons.IH [OF run_cmd_inv [OF Cons.prems(1)]] show ?case by simp
qed

lemma asm_inv_new: "asm_inv [] writer_new"
  by (simp add: asm_inv_def refines_def writer_new_def)

lemma encodable_auto_item: "wf_inst i \<Longrightarrow> encodable (item_inst (auto_item i))"
  by (simp add: auto_item_def encodable_def)

lemma run_cmd_encodable:
  assumes "wf_cmd c" and "run_cmd c w = Inr w'" and "length (w_const_pool w) < 2 ^ 32"
  shows "list_all (\<lambda>x. encodable (item_inst x)) (emitted c w)"
proof (cases c)
  case (CForward k l)
  with assms show ?thesis
    by (cases k) (auto simp: encodable_def wf_inst_def inst_values_def)
next
  case (CConst dest e)
  with assms show ?thesis
    by (cases e) (auto intro!: encodable_auto_item simp: wf_inst_def)
next
  case (CLoop l)
  then show ?thesis
    by (auto intro!: encodable_auto_item simp: wf_inst_def)
qed (use assms in \<open>auto intro: encodable_auto_item\<close>)

lemma run_cmds_encodable:
  "list_all wf_cmd cs \<Longrightarrow> run_cmds cs w = Inr w' \<Longrightarrow> length (w_const_pool w') < 2 ^ 32 \<Longrightarrow>
     list_all (\<lambda>x. encodable (item_inst x)) (emitted_all cs w)
     \<and> length (w_const_pool w) \<le> length (w_const_pool w')"
proof (induction cs arbitrary: w)
  case Nil
  then show ?case by (simp add: run_cmds_def)
next
  case (Cons c cs)
  from Cons.prems(2) obtain w1 where c: "run_cmd c w = Inr w1" and cs: "run_cmds cs w1 = Inr w'"
    by (auto simp: run_cmds_def rbind_eq_Inr_iff)
  with Cons.IH [of w1] Cons.prems have IH:
    "list_all (\<lambda>x. encodable (item_inst x)) (emitted_all cs w1)"
    "length (w_const_pool w1) \<le> length (w_const_pool w')"
    by simp_all
  with run_cmd_pool [OF c] Cons.prems(3) have "length (w_const_pool w) < 2 ^ 32" by linarith
  with run_cmd_encodable [OF _ c] Cons.prems(1) IH run_cmd_pool [OF c] c show ?case by simp
qed

end
