(* ===== verification/BytecodeFunctions.thy ===== *)
theory BytecodeFunctions
  imports BytecodeAssembly
begin

text \<open>
  What a generated function means.  The two passes of \<open>resolve_forward_jumps\<close> turn the symbolic
  items of a run into instructions; here it is shown that the reader delivers exactly those
  instructions, that every jump read from the generated code lands on the offset its label was
  bound to and on an instruction boundary, that generation fails only when a used label was
  never bound, that constants survive generation, and that the source position recorded for an
  instruction is the one \<open>offset_position\<close> returns for it.
\<close>

subsection \<open>Instructions that realise an item\<close>

definition fwd_kind :: "instruction \<Rightarrow> fwd option" where
  "fwd_kind i =
     (case i of
        InstJump d \<Rightarrow> Some FJump
      | InstJumpConst c \<Rightarrow> Some FJump
      | InstJumpIfFalse r d \<Rightarrow> Some (FIfFalse r)
      | InstJumpIfFalseConst r c \<Rightarrow> Some (FIfFalse r)
      | InstJumpIfTrue r d \<Rightarrow> Some (FIfTrue r)
      | InstJumpIfTrueConst r c \<Rightarrow> Some (FIfTrue r)
      | _ \<Rightarrow> None)"

text \<open>An instruction realises a pending item when it is a jump of the same kind whose target,
  as the compiler computes it, is the offset of the label.\<close>

fun realises ::
  "bytecode_function \<Rightarrow> bytecode_offset option list \<Rightarrow> nat \<times> item \<Rightarrow> operand_width \<times> instruction \<Rightarrow> bool"
where
  "realises f ls (s, Fixed w i) wi = (wi = (w, i))"
| "realises f ls (s, PendWide k l) wi =
     (fwd_kind (snd wi) = Some k \<and> jump_target f (as_u32 s) (snd wi) = Inr (ls ! l))"
| "realises f ls (s, PendConst k idx l) wi =
     (fwd_kind (snd wi) = Some k \<and> jump_target f (as_u32 s) (snd wi) = Inr (ls ! l))"

lemma fwd_kind_fwd [simp]:
  "fwd_kind (fwd_inst k d) = Some k" "fwd_kind (fwd_inst_const k idx) = Some k"
  by (cases k; simp add: fwd_kind_def)+

lemma jump_target_fwd [simp]:
  "jump_target f s (fwd_inst k d) = Inr (Some (s + d))"
  "jump_target f s (fwd_inst_const k idx) =
     rbind (const_jump_offset f idx) (\<lambda>off. Inr (Some (s + off)))"
  by (cases k; simp add: jump_target_def)+

lemma as_u32_add_distance:
  "ls ! l = Some t \<Longrightarrow> s < unat t \<Longrightarrow> as_u32 s + distance ls s l = t"
  by (simp add: distance_def as_u32_def flip: of_nat_add)

subsection \<open>The constant pool after generation\<close>

lemma patch_pool_other:
  "j \<notin> set (pending_idx x) \<Longrightarrow> patch_pool ls (s, x) pool ! j = pool ! j"
  by (cases x) auto

lemma fold_patch_pool_other:
  "j \<notin> set (pending_idxs (map snd sxs)) \<Longrightarrow> fold (patch_pool ls) sxs pool ! j = pool ! j"
  by (induction sxs arbitrary: pool) (auto simp: pending_idxs_def patch_pool_other)

lemma length_fold_patch_pool [simp]: "length (fold (patch_pool ls) sxs pool) = length pool"
  by (induction sxs arbitrary: pool) simp_all

lemma fold_patch_pool_pending:
  assumes "(s, PendConst k idx l) \<in> set sxs" and "distinct (pending_idxs (map snd sxs))"
    and "idx < length pool" and "\<not> distance ls s l \<le> 255"
  shows "fold (patch_pool ls) sxs pool ! idx = CpInt32 (distance ls s l)"
  using assms
proof (induction sxs arbitrary: pool)
  case (Cons sx sxs)
  show ?case
  proof (cases "(s, PendConst k idx l) = sx")
    case True
    with Cons.prems have "idx \<notin> set (pending_idxs (map snd sxs))"
      by (auto simp: pending_idxs_def)
    with True [symmetric] Cons.prems show ?thesis by (simp add: fold_patch_pool_other)
  next
    case False
    with Cons show ?thesis by (auto simp: pending_idxs_def)
  qed
qed simp

subsection \<open>Resolved items\<close>

lemma resolve_item_realises:
  assumes mem: "(s, x) \<in> set (locate item_enc 0 xs)" and ahead: "bound_ahead ls (s, x)"
    and dist: "distinct (pending_idxs xs)"
    and idx: "list_all (\<lambda>idx. idx < length pool) (pending_idxs xs)"
    and pool: "fn_const_pool f = fold (patch_pool ls) (locate item_enc 0 xs) pool"
  shows "realises f ls (s, x) (resolve_item ls (s, x))"
proof (cases x)
  case (PendConst k idx l)
  have in_xs: "x \<in> set xs"
    using mem map_snd_locate [of item_enc 0 xs] by (metis image_eqI set_map snd_conv)
  with PendConst idx have i: "idx < length pool" by (force simp: pending_idxs_def list_all_iff)
  have "const_jump_offset f idx = Inr (distance ls s l)" if "\<not> distance ls s l \<le> 255"
    using fold_patch_pool_pending [of s k idx l "locate item_enc 0 xs" pool ls] mem dist i that
      PendConst pool
    by (simp add: const_jump_offset_def const_pool_def cp_to_int32_def)
  with PendConst ahead show ?thesis
    by (auto simp: resolve_item_def as_u32_add_distance)
qed (use ahead in \<open>auto simp: resolve_item_def as_u32_add_distance\<close>)

lemma resolve_item_encodable:
  assumes "encodable (item_inst x)" shows "encodable (resolve_item ls (s, x))"
proof (cases x)
  case (Fixed w i)
  with assms show ?thesis by (simp add: resolve_item_def)
next
  case (PendWide k l)
  with assms show ?thesis
    by (simp add: resolve_item_def encodable_def wf_inst_def fits_def unat_u32_less [simplified])
next
  case (PendConst k idx l)
  with assms show ?thesis
    by (simp add: resolve_item_def encodable_def wf_inst_def fits_def unat_u32_less [simplified] inst_values_def)
qed

lemma length_resolve_item:
  "length (encode (resolve_item ls (s, x))) = length (item_enc x)"
  using length_resolved(2) [of ls s "resolve_wide ls (s, x)"]
  by (simp add: resolve_item_def item_enc_def [symmetric])

lemma locate_resolve_item:
  "locate encode off (map (resolve_item ls) (locate item_enc off xs)) =
     map (\<lambda>(s, x). (s, resolve_item ls (s, x))) (locate item_enc off xs)"
  by (induction xs arbitrary: off) (simp_all add: length_resolve_item)

text \<open>Everything the passes establish, for a run that generated a function.\<close>

lemma generated_function:
  assumes inv: "asm_inv xs w" and enc: "list_all (\<lambda>x. encodable (item_inst x)) xs"
    and gen: "generate w = Inr f" and small: "length (w_code w) < 2 ^ 32"
  defines "is \<equiv> map (resolve_item (w_label_offsets w)) (locate item_enc 0 xs)"
  shows "fn_code f = concat (map encode is)" and "list_all encodable is"
    and "list_all2 (realises f (w_label_offsets w)) (locate item_enc 0 xs) is"
    and "map fst (locate encode 0 is) = map fst (locate item_enc 0 xs)"
    and "fn_const_pool f = fold (patch_pool (w_label_offsets w)) (locate item_enc 0 xs) (w_const_pool w)"
    and "fn_positions f = w_positions w"
proof -
  from gen obtain w' where res: "resolve_forward_jumps w = Inr w'"
    and f: "fn_code f = w_code w'" "fn_const_pool f = w_const_pool w'" "fn_positions f = w_positions w'"
    by (auto simp: generate_def rbind_eq_Inr_iff)
  from inv have "refines xs w" "distinct (pending_idxs xs)"
    and idx: "list_all (\<lambda>idx. idx < length (w_const_pool w)) (pending_idxs xs)"
    by (auto simp: asm_inv_def strict_sorted_iff)
  note eqs = resolve_forward_jumps_eq [OF \<open>refines xs w\<close> small idx res]
  from eqs f show "fn_code f = concat (map encode is)" "fn_positions f = w_positions w"
    and pool: "fn_const_pool f = fold (patch_pool (w_label_offsets w)) (locate item_enc 0 xs) (w_const_pool w)"
    by (simp_all add: is_def)
  show "map fst (locate encode 0 is) = map fst (locate item_enc 0 xs)"
    by (simp add: is_def locate_resolve_item case_prod_unfold comp_def)
  have "encodable (item_inst x)" if "(s, x) \<in> set (locate item_enc 0 xs)" for s x
    using enc that map_snd_locate [of item_enc 0 xs]
    by (metis (no_types, lifting) image_eqI list_all_iff set_map snd_conv)
  then show "list_all encodable is"
    by (auto simp: is_def list_all_iff resolve_item_encodable)
  show "list_all2 (realises f (w_label_offsets w)) (locate item_enc 0 xs) is"
    unfolding is_def list.rel_map
    using eqs resolve_item_realises [OF _ _ \<open>distinct (pending_idxs xs)\<close> idx pool]
    by (auto simp: list_all_iff intro!: list.rel_refl_strong)
qed

subsection \<open>Reachable writers\<close>

inductive writes :: "item list \<Rightarrow> writer \<Rightarrow> bool" where
  start: "writes [] writer_new"
| step: "writes xs w \<Longrightarrow> run_cmd c w = Inr w' \<Longrightarrow> writes (xs @ emitted c w) w'"

lemma run_cmds_Cons:
  "run_cmds (c # cs) w = Inr w' \<longleftrightarrow> (\<exists>w1. run_cmd c w = Inr w1 \<and> run_cmds cs w1 = Inr w')"
  by (simp add: run_cmds_def rbind_eq_Inr_iff)

lemma run_cmds_Nil [simp]: "run_cmds [] w = Inr w"
  by (simp add: run_cmds_def)

lemma run_cmds_append:
  "run_cmds (cs @ ds) w = Inr w' \<longleftrightarrow> (\<exists>w1. run_cmds cs w = Inr w1 \<and> run_cmds ds w1 = Inr w')"
  by (induction cs arbitrary: w) (auto simp: run_cmds_Cons)

lemma run_cmds_writes_from:
  "writes xs w \<Longrightarrow> run_cmds cs w = Inr w' \<Longrightarrow> writes (xs @ emitted_all cs w) w'"
proof (induction cs arbitrary: xs w)
  case (Cons c cs)
  then obtain w1 where "run_cmd c w = Inr w1" "run_cmds cs w1 = Inr w'"
    by (auto simp: run_cmds_Cons)
  with Cons.IH [OF writes.step [OF Cons.prems(1)]] show ?case by simp
qed simp

lemmas run_cmds_writes = run_cmds_writes_from [OF writes.start, simplified]

lemma writes_inv: "writes xs w \<Longrightarrow> asm_inv xs w"
  by (induction rule: writes.induct) (simp_all add: asm_inv_new run_cmd_inv)

lemma writes_code: "writes xs w \<Longrightarrow> w_code w = code_of xs"
  using writes_inv by (simp add: asm_inv_def refines_def)

lemma run_cmd_code:
  assumes "writes xs w" and "run_cmd c w = Inr w'"
  shows "w_code w' = w_code w @ code_of (emitted c w)"
  using writes_code [OF assms(1)] writes_code [OF writes.step [OF assms]] by simp

lemma item_enc_nonempty: "item_enc x \<noteq> []"
  by (simp add: item_enc_def encode_nonempty)

lemma locate_less:
  "(s, x) \<in> set (locate item_enc off xs) \<Longrightarrow> s < off + length (code_of xs)"
proof (induction xs arbitrary: off)
  case (Cons y xs)
  then show ?case using item_enc_nonempty [of y] by (force simp: add.assoc)
qed simp

subsection \<open>Labels of pending jumps\<close>

fun item_labels :: "item \<Rightarrow> label list" where
  "item_labels (Fixed w i) = []"
| "item_labels (PendWide k l) = [l]"
| "item_labels (PendConst k idx l) = [l]"

text \<open>A label changes only by being bound, at the current offset.\<close>

lemma run_cmd_label_at:
  assumes "run_cmd c w = Inr w'" and "l < length (w_label_offsets w)"
  shows "l < length (w_label_offsets w') \<and>
    (w_label_offsets w' ! l = w_label_offsets w ! l
     \<or> w_label_offsets w ! l = None \<and> w_label_offsets w' ! l = Some (offset w))"
proof (cases c)
  case (CInst i)
  with assms show ?thesis
    by (auto simp: rbind_eq_Inr_iff dest!: call_emit_eq position_step_frame)
next
  case (CConst dest e)
  with assms show ?thesis by (auto dest!: emit_const_eq)
next
  case (CForward k l')
  with assms show ?thesis by (auto dest!: emit_forward_eq split: if_splits)
next
  case (CLoop l')
  with assms show ?thesis
    by (auto simp: emit_jump_loop_def lookup_label_def emit_jmp_def emit_values_eq
        rbind_eq_Inr_iff Let_def dest!: position_step_frame)
next
  case (CBindLabel l')
  with assms show ?thesis
    by (auto simp: bind_label_def rbind_eq_Inr_iff nth_list_update split: if_splits)
qed (use assms in \<open>auto simp: writer_frame_defs nth_append\<close>)

lemma emitted_label_unbound:
  assumes "run_cmd c w = Inr w'" and "x \<in> set (emitted c w)" and "l \<in> set (item_labels x)"
  shows "l < length (w_label_offsets w') \<and> w_label_offsets w' ! l = None"
proof (cases c)
  case (CForward k l')
  with assms show ?thesis by (auto dest!: emit_forward_eq split: if_splits)
qed (use assms in \<open>auto simp: auto_item_def\<close>)

text \<open>A pending jump starts before the offset its label is bound to.\<close>

definition labels_ahead :: "item list \<Rightarrow> writer \<Rightarrow> bool" where
  "labels_ahead xs w =
     list_all (\<lambda>(s, x). list_all (\<lambda>l. l < length (w_label_offsets w) \<and>
         (case w_label_offsets w ! l of None \<Rightarrow> True | Some t \<Rightarrow> s < unat t)) (item_labels x))
       (locate item_enc 0 xs)"

lemma writes_labels_ahead:
  "writes xs w \<Longrightarrow> length (w_code w) < 2 ^ 32 \<Longrightarrow> labels_ahead xs w"
proof (induction rule: writes.induct)
  case start
  then show ?case by (simp add: labels_ahead_def)
next
  case (step xs w c w')
  note code = run_cmd_code [OF step(1,2)]
  have small: "length (w_code w) < 2 ^ 32" using step(4) code by simp
  have "l < length (w_label_offsets w') \<and>
      (case w_label_offsets w' ! l of None \<Rightarrow> True | Some t \<Rightarrow> s < unat t)"
    if mem: "(s, x) \<in> set (locate item_enc 0 (xs @ emitted c w))" and l: "l \<in> set (item_labels x)"
    for s x l
  proof (cases "(s, x) \<in> set (locate item_enc 0 xs)")
    case True
    with step.IH [OF small] l have old: "l < length (w_label_offsets w)"
        "case w_label_offsets w ! l of None \<Rightarrow> True | Some t \<Rightarrow> s < unat t"
      by (auto simp: labels_ahead_def list_all_iff)
    have "s < unat (offset w)"
      using locate_less [OF True] small writes_code [OF step(1)] by (simp add: offset_def)
    with run_cmd_label_at [OF step(2) old(1)] old(2) show ?thesis by auto
  next
    case False
    with mem have "x \<in> set (emitted c w)"
      by (metis Un_iff image_eqI locate_append map_snd_locate set_append set_map snd_conv)
    from emitted_label_unbound [OF step(2) this l] show ?thesis by simp
  qed
  then show ?case by (auto simp: labels_ahead_def list_all_iff)
qed

subsection \<open>Fixed jumps\<close>

text \<open>Instructions emitted directly are no jumps, and loop jumps go back to a boundary.\<close>

lemma call_emit_no_jump:
  "call_emit i w = Inr w' \<Longrightarrow> jump_target f s i = Inr None"
  by (cases i) (simp_all add: call_emit_def jump_target_def)

lemma const_inst_no_jump: "jump_target f s (const_inst dest e idx) = Inr None"
  by (cases e) (simp_all add: jump_target_def)

definition fixed_jump_ok :: "bytecode_function \<Rightarrow> bytecode_offset list \<Rightarrow> nat \<times> item \<Rightarrow> bool" where
  "fixed_jump_ok f bs sx =
     (case snd sx of
        Fixed w i \<Rightarrow>
          (case jump_target f (as_u32 (fst sx)) i of
             Inl _ \<Rightarrow> False
           | Inr None \<Rightarrow> True
           | Inr (Some t) \<Rightarrow> t \<in> set bs)
      | _ \<Rightarrow> True)"

lemma emitted_fixed_jump_ok:
  assumes inv: "asm_inv xs w" and run: "run_cmd c w = Inr w'" and mem: "x \<in> set (emitted c w)"
  shows "fixed_jump_ok f (boundaries item_enc xs) (length (w_code w), x)"
proof (cases c)
  case (CInst i)
  with assms call_emit_no_jump [of i w w'] show ?thesis
    by (simp add: fixed_jump_ok_def auto_item_def)
next
  case (CConst dest e)
  with assms show ?thesis
    by (simp add: fixed_jump_ok_def auto_item_def const_inst_no_jump)
next
  case (CForward k l)
  with assms show ?thesis
    by (simp add: fixed_jump_ok_def split: if_splits)
next
  case (CLoop l)
  with run obtain t where l: "l < length (w_label_offsets w)" "w_label_offsets w ! l = Some t"
    and le: "unat t \<le> length (w_code w)"
    by (auto simp: emit_jump_loop_def lookup_label_def rbind_eq_Inr_iff)
  from l inv have "t \<in> set (boundaries item_enc xs)"
    by (metis asm_inv_def nth_mem)
  moreover have "as_u32 (length (w_code w)) - as_u32 (length (w_code w) - unat t) = t"
    using le by (simp add: as_u32_def of_nat_diff)
  ultimately show ?thesis
    using mem CLoop l by (simp add: fixed_jump_ok_def auto_item_def jump_target_def)
qed (use mem in auto)

lemma fixed_jump_ok_mono: "fixed_jump_ok f bs sx \<Longrightarrow> set bs \<subseteq> set cs \<Longrightarrow> fixed_jump_ok f cs sx"
  by (auto simp: fixed_jump_ok_def split: item.splits sum.splits option.splits)

lemma emitted_cases: "emitted c w = [] \<or> (\<exists>x. emitted c w = [x])"
  by (cases c) simp_all

lemma writes_fixed_jump_ok:
  "writes xs w \<Longrightarrow> list_all (fixed_jump_ok f (boundaries item_enc xs)) (locate item_enc 0 xs)"
proof (induction rule: writes.induct)
  case (step xs w c w')
  note mono = fixed_jump_ok_mono [OF _ boundaries_append, of f item_enc xs _ "emitted c w"]
  have "fixed_jump_ok f (boundaries item_enc (xs @ emitted c w)) (length (w_code w), x)"
    if "x \<in> set (emitted c w)" for x
    by (rule mono [OF emitted_fixed_jump_ok [OF writes_inv [OF step(1)] step(2) that]])
  moreover have "list_all (fixed_jump_ok f (boundaries item_enc (xs @ emitted c w))) (locate item_enc 0 xs)"
    using step.IH by (auto simp: list_all_iff intro: mono)
  ultimately show ?case
    using emitted_cases [of c w] writes_code [OF step(1)]
    by (auto simp: locate_append code_of_def)
qed simp

subsection \<open>Generation succeeds\<close>

lemma resolve_jump_offset_ok:
  assumes code: "w_code w = pre @ item_enc (PendWide k l) @ post"
    and small: "length (w_code w) < 2 ^ 32"
    and ahead: "bound_ahead (w_label_offsets w) (length pre, PendWide k l)"
  shows "\<exists>w'. resolve_jump_offset
      (as_u32 (length pre), as_u32 (length pre + 2 + 4 * length (fwd_conds k)), l) w = Inr w'"
proof -
  have s: "unat (as_u32 (length pre)) = length pre"
    using code small by (intro unat_as_u32_small) simp
  have "w_code w = (pre @ wide_prefix k) @ le_bytes 0 @ post"
    using code by (simp add: item_enc_wide_jump)
  from patch_u32_eq [OF this small] ahead s show ?thesis
    by (auto simp: resolve_jump_offset_def lookup_label_def Let_def add.assoc)
qed

lemma resolve_jump_const_ok:
  assumes code: "w_code w = pre @ item_enc (PendConst k idx l) @ post"
    and small: "length (w_code w) < 2 ^ 32" and idx: "idx < length (w_const_pool w)"
    and ahead: "bound_ahead (w_label_offsets w) (length pre, PendConst k idx l)"
  shows "\<exists>w'. resolve_jump_const (as_u32 (length pre), idx, l) w = Inr w'"
proof -
  have s: "unat (as_u32 (length pre)) = length pre"
    using code small by (intro unat_as_u32_small) simp
  have at: "bytecode_at w (as_u32 (length pre)) = Inr (inst_op (fwd_inst_const k idx))"
    using code s by (simp add: bytecode_at_def item_enc_const_jump)
  have len: "length pre + Suc (length (fwd_conds k)) < length (w_code w)"
    using code by (simp add: item_enc_const_jump)
  with at s idx ahead immediate_jump_fwd [of k idx undefined] jump_operand_index [of k idx]
  show ?thesis
    by (auto simp: resolve_jump_const_def lookup_label_def patch_const_def Let_def)
qed

lemma resolve_offsets_ok:
  assumes "w_code w = pre @ code_of xs" and "length (w_code w) < 2 ^ 32"
    and "list_all (bound_ahead (w_label_offsets w)) (locate item_enc (length pre) xs)"
  shows "\<exists>w'. for_each resolve_jump_offset (wide_entries (length pre) xs) w = Inr w'"
  using assms
proof (induction xs arbitrary: pre w)
  case (Cons x xs)
  show ?case
  proof (cases x)
    case (PendWide k l)
    have code: "w_code w = pre @ item_enc (PendWide k l) @ code_of xs"
      using Cons.prems(1) PendWide by simp
    let ?y = "item_enc (resolve_wide (w_label_offsets w) (length pre, PendWide k l))"
    let ?w = "w\<lparr>w_code := pre @ ?y @ code_of xs\<rparr>"
    obtain w1 where r: "resolve_jump_offset
      (as_u32 (length pre), as_u32 (length pre + 2 + 4 * length (fwd_conds k)), l) w = Inr w1"
      using resolve_jump_offset_ok [OF code Cons.prems(2)] Cons.prems(3) PendWide by auto
    with resolve_jump_offset_eq [OF code Cons.prems(2) r] have "w1 = ?w" by simp
    moreover have "length ?y = length (item_enc x)"
      using PendWide by (simp del: resolve_wide.simps)
    ultimately show ?thesis
      using Cons.IH [of ?w "pre @ ?y"] Cons.prems r PendWide
      by (simp add: entries_Cons del: resolve_wide.simps)
  qed (use Cons.IH [of w "pre @ item_enc x"] Cons.prems in \<open>simp_all add: entries_Cons\<close>)
qed simp

lemma resolve_consts_ok:
  assumes "w_code w = pre @ code_of xs" and "length (w_code w) < 2 ^ 32"
    and "list_all (\<lambda>idx. idx < length (w_const_pool w)) (pending_idxs xs)"
    and "list_all (bound_ahead (w_label_offsets w)) (locate item_enc (length pre) xs)"
  shows "\<exists>w'. for_each resolve_jump_const (const_entries (length pre) xs) w = Inr w'"
  using assms
proof (induction xs arbitrary: pre w)
  case (Cons x xs)
  show ?case
  proof (cases x)
    case (PendConst k idx l)
    have code: "w_code w = pre @ item_enc (PendConst k idx l) @ code_of xs"
      using Cons.prems(1) PendConst by simp
    let ?y = "item_enc (resolve_const (w_label_offsets w) (length pre, PendConst k idx l))"
    let ?p = "patch_pool (w_label_offsets w) (length pre, PendConst k idx l) (w_const_pool w)"
    let ?w = "w\<lparr>w_code := pre @ ?y @ code_of xs, w_const_pool := ?p\<rparr>"
    have idx: "idx < length (w_const_pool w)"
      using Cons.prems(3) PendConst by (simp add: pending_idxs_def)
    obtain w1 where r: "resolve_jump_const (as_u32 (length pre), idx, l) w = Inr w1"
      using resolve_jump_const_ok [OF code Cons.prems(2) idx] Cons.prems(4) PendConst by auto
    with resolve_jump_const_eq [OF code Cons.prems(2) idx r] have "w1 = ?w" by simp
    moreover have "length ?y = length (item_enc x)"
      using PendConst by (simp del: resolve_const.simps)
    moreover have "list_all (\<lambda>idx. idx < length ?p) (pending_idxs xs)"
      using Cons.prems(3) by (simp add: pending_idxs_def del: patch_pool.simps)
    ultimately show ?thesis
      using Cons.IH [of ?w "pre @ ?y"] Cons.prems r PendConst
      by (simp add: entries_Cons del: resolve_const.simps patch_pool.simps)
  qed (use Cons.IH [of w "pre @ item_enc x"] Cons.prems in \<open>simp_all add: entries_Cons pending_idxs_def\<close>)
qed simp

lemma bound_ahead_resolve_wide:
  "bound_ahead ls (s, x) \<Longrightarrow> bound_ahead ls (s, resolve_wide ls (s, x))"
  by (cases x) simp_all

lemma code_of_resolve_wide_length:
  "length (code_of (map (resolve_wide ls) (locate item_enc off xs))) = length (code_of xs)"
  by (induction xs arbitrary: off) simp_all

lemma resolve_forward_jumps_ok:
  assumes inv: "asm_inv xs w" and small: "length (w_code w) < 2 ^ 32"
    and ahead: "list_all (bound_ahead (w_label_offsets w)) (locate item_enc 0 xs)"
  shows "\<exists>w'. resolve_forward_jumps w = Inr w'"
proof -
  let ?ls = "w_label_offsets w"
  let ?w0 = "w\<lparr>w_unresolved_jump_offsets := []\<rparr>"
  let ?ys = "map (resolve_wide ?ls) (locate item_enc 0 xs)"
  from inv have code: "w_code w = code_of xs"
    and e1: "w_unresolved_jump_offsets w = wide_entries 0 xs"
    and e2: "w_unresolved_jump_consts w = const_entries 0 xs"
    and idx: "list_all (\<lambda>idx. idx < length (w_const_pool w)) (pending_idxs xs)"
    by (simp_all add: asm_inv_def refines_def)
  obtain w1 where w1: "for_each resolve_jump_offset (wide_entries 0 xs) ?w0 = Inr w1"
    using resolve_offsets_ok [of ?w0 "[]" xs] code small ahead by auto
  with resolve_offsets [of "[]" xs ?w0 w1] code small have eq: "w1 = ?w0\<lparr>w_code := code_of ?ys\<rparr>"
    by simp
  have "locate item_enc 0 ?ys = map (\<lambda>(s, x). (s, resolve_wide ?ls (s, x))) (locate item_enc 0 xs)"
    by (rule locate_map) simp
  with ahead have "list_all (bound_ahead ?ls) (locate item_enc 0 ?ys)"
    by (auto simp: list_all_iff bound_ahead_resolve_wide)
  with eq code small idx have "\<exists>w'. for_each resolve_jump_const (const_entries 0 ?ys)
      (w1\<lparr>w_unresolved_jump_consts := []\<rparr>) = Inr w'"
    using resolve_consts_ok [of "w1\<lparr>w_unresolved_jump_consts := []\<rparr>" "[]" ?ys]
    by (simp add: code_of_resolve_wide_length)
  with w1 eq e1 e2 show ?thesis
    by (simp add: resolve_forward_jumps_def Let_def)
qed

definition labels_bound :: "item list \<Rightarrow> bytecode_offset option list \<Rightarrow> bool" where
  "labels_bound xs ls = list_all (\<lambda>x. list_all (\<lambda>l. ls ! l \<noteq> None) (item_labels x)) xs"

lemma generate_bound_iff:
  assumes "writes xs w" and small: "length (w_code w) < 2 ^ 32"
  shows "(\<exists>f. generate w = Inr f) \<longleftrightarrow> labels_bound xs (w_label_offsets w)"
proof
  let ?ls = "w_label_offsets w"
  note inv = writes_inv [OF assms(1)]
  have snd: "set xs = snd ` set (locate item_enc 0 xs)"
    using map_snd_locate [of item_enc 0 xs] by (metis set_map)
  show "\<exists>f. generate w = Inr f" if "labels_bound xs ?ls"
  proof -
    have "bound_ahead ?ls (s, x)" if "(s, x) \<in> set (locate item_enc 0 xs)" for s x
      using writes_labels_ahead [OF assms] \<open>labels_bound xs ?ls\<close> that snd
      by (cases x) (fastforce simp: labels_ahead_def labels_bound_def list_all_iff)+
    then have "\<exists>w'. resolve_forward_jumps w = Inr w'"
      by (intro resolve_forward_jumps_ok [OF inv small]) (auto simp: list_all_iff)
    then show ?thesis by (auto simp: generate_def)
  qed
  show "labels_bound xs ?ls" if gen: "\<exists>f. generate w = Inr f"
  proof -
    from gen obtain w' where res: "resolve_forward_jumps w = Inr w'"
      by (auto simp: generate_def rbind_eq_Inr_iff)
    from inv have "refines xs w"
      and "list_all (\<lambda>idx. idx < length (w_const_pool w)) (pending_idxs xs)"
      by (simp_all add: asm_inv_def)
    from resolve_forward_jumps_eq [OF this(1) small this(2) res]
    have ahead: "list_all (bound_ahead ?ls) (locate item_enc 0 xs)" by simp
    have "list_all (\<lambda>l. ?ls ! l \<noteq> None) (item_labels x)" if "(s, x) \<in> set (locate item_enc 0 xs)" for s x
      using ahead that by (cases x) (fastforce simp: list_all_iff)+
    with snd show ?thesis by (auto simp: labels_bound_def list_all_iff)
  qed
qed

subsection \<open>Source positions\<close>

text \<open>Positions recorded by a call start at the current offset.\<close>

lemma position_step_positions:
  assumes "position_step op w = Inr w'"
  shows "w_positions w' = w_positions w
    \<or> (\<exists>p. w_positions w' = w_positions w @ [(as_u32 (length (w_code w)), p)])"
  using assms
  by (auto simp: position_step_def emit_position_def Let_def rbind_eq_Inr_iff split: if_splits)

lemma run_cmd_positions:
  assumes "run_cmd c w = Inr w'"
  shows "w_positions w' = w_positions w
    \<or> emitted c w \<noteq> [] \<and> (\<exists>p. w_positions w' = w_positions w @ [(as_u32 (length (w_code w)), p)])"
proof (cases c)
  case (CInst i)
  with assms show ?thesis
    by (auto simp: rbind_eq_Inr_iff dest!: call_emit_eq position_step_positions)
next
  case (CConst dest e)
  with assms show ?thesis by (auto dest!: emit_const_eq)
next
  case (CForward k l)
  with assms show ?thesis by (auto dest!: emit_forward_eq split: if_splits)
next
  case (CLoop l)
  with assms show ?thesis
    by (auto simp: emit_jump_loop_def lookup_label_def emit_jmp_def emit_values_eq
        rbind_eq_Inr_iff Let_def dest!: position_step_positions)
qed (use assms in \<open>auto simp: writer_frame_defs
       bind_label_def rbind_eq_Inr_iff\<close>)

definition positions_ok :: "writer \<Rightarrow> bool" where
  "positions_ok w =
     (sorted_wrt (<) (map fst (w_positions w))
      \<and> list_all (\<lambda>p. unat (fst p) < length (w_code w)) (w_positions w))"

lemma emitted_longer:
  "writes xs w \<Longrightarrow> run_cmd c w = Inr w' \<Longrightarrow> emitted c w \<noteq> [] \<Longrightarrow> length (w_code w) < length (w_code w')"
  using emitted_cases [of c w] item_enc_nonempty by (auto simp: run_cmd_code)

lemma writes_positions_ok:
  "writes xs w \<Longrightarrow> length (w_code w) < 2 ^ 32 \<Longrightarrow> positions_ok w"
proof (induction rule: writes.induct)
  case start
  then show ?case by (simp add: positions_ok_def writer_new_def)
next
  case (step xs w c w')
  have le: "length (w_code w) \<le> length (w_code w')" using run_cmd_code [OF step(1,2)] by simp
  then have ok: "positions_ok w" and small: "length (w_code w) < 2 ^ 32"
    using step by simp_all
  from run_cmd_positions [OF step(2)] show ?case
  proof (elim disjE conjE exE)
    assume "w_positions w' = w_positions w"
    with ok le show ?thesis by (auto simp: positions_ok_def list_all_iff)
  next
    fix p assume ne: "emitted c w \<noteq> []"
      and eq: "w_positions w' = w_positions w @ [(as_u32 (length (w_code w)), p)]"
    with emitted_longer [OF step(1,2) ne] ok small show ?thesis
      by (auto simp: positions_ok_def list_all_iff sorted_wrt_append word_less_nat_alt)
  qed
qed

lemma run_cmds_positions:
  assumes "writes xs w" and "run_cmds cs w = Inr w'" and "length (w_code w') < 2 ^ 32"
  shows "\<exists>ps. w_positions w' = w_positions w @ ps
    \<and> list_all (\<lambda>p. length (w_code w) \<le> unat (fst p)) ps \<and> length (w_code w) \<le> length (w_code w')"
  using assms
proof (induction cs arbitrary: xs w)
  case (Cons c cs)
  from Cons.prems(2) obtain w1 where c: "run_cmd c w = Inr w1" and cs: "run_cmds cs w1 = Inr w'"
    by (auto simp: run_cmds_Cons)
  from Cons.IH [OF writes.step [OF Cons.prems(1) c] cs Cons.prems(3)] obtain ps where
    ps: "w_positions w' = w_positions w1 @ ps" "list_all (\<lambda>p. length (w_code w1) \<le> unat (fst p)) ps"
      "length (w_code w1) \<le> length (w_code w')"
    by blast
  have le: "length (w_code w) \<le> length (w_code w1)" using run_cmd_code [OF Cons.prems(1) c] by simp
  have "list_all (\<lambda>p. length (w_code w) \<le> unat (fst p)) ps"
    using ps(2) le by (auto simp: list_all_iff)
  with ps(1,3) le Cons.prems(3) run_cmd_positions [OF c] show ?case by (auto simp: list_all_iff)
qed (simp add: exI [of _ "[]"])

lemma emit_positioned:
  assumes "needs_position (inst_op i)" and "run_cmds [CSetPosition p, CInst i] w = Inr w'"
  shows "w_positions w' \<noteq> [] \<and> snd (last (w_positions w')) = p"
  using assms
  by (auto simp: run_cmds_Cons rbind_eq_Inr_iff position_step_def emit_position_def set_position_def
      Let_def split: if_splits dest!: call_emit_eq)

lemma position_before_prefix:
  assumes "ps = qs @ rs" and "qs \<noteq> []" and "\<forall>q \<in> set qs. fst q \<le> off" and "\<forall>r \<in> set rs. \<not> fst r \<le> off"
  shows "position_before ps off = Some (snd (last qs))"
proof -
  have "takeWhile (\<lambda>p. fst p \<le> off) ps = qs"
    using assms by (cases rs) (auto simp: takeWhile_eq_all_conv)
  with assms(2) show ?thesis by (simp add: position_before_def)
qed

lemma generate_positions:
  assumes "writes xs w" and small: "length (w_code w) < 2 ^ 32" and gen: "generate w = Inr f"
  shows "fn_positions f = w_positions w"
proof -
  from gen obtain w' where res: "resolve_forward_jumps w = Inr w'"
    and f: "fn_positions f = w_positions w'"
    by (auto simp: generate_def rbind_eq_Inr_iff)
  from writes_inv [OF assms(1)] have "refines xs w"
    and "list_all (\<lambda>idx. idx < length (w_const_pool w)) (pending_idxs xs)"
    by (simp_all add: asm_inv_def)
  from resolve_forward_jumps_eq [OF this(1) small this(2) res] f show ?thesis by simp
qed

lemma recorded_position:
  assumes w0: "writes xs w0" and emit: "run_cmds [CSetPosition p, CInst i] w0 = Inr w1"
    and pos: "needs_position (inst_op i)" and rest: "run_cmds ds w1 = Inr w"
    and gen: "generate w = Inr f" and small: "length (w_code w) < 2 ^ 32"
  shows "offset_position f (offset w0) = Inr p"
proof -
  have w1: "writes (xs @ emitted_all [CSetPosition p, CInst i] w0) w1"
    by (rule run_cmds_writes_from [OF w0 emit])
  have len: "length (w_code w0) < length (w_code w1)"
    using writes_code [OF w0] writes_code [OF w1] item_enc_nonempty by simp
  from run_cmds_positions [OF w1 rest small] obtain ps where
    ps: "w_positions w = w_positions w1 @ ps" "list_all (\<lambda>p. length (w_code w1) \<le> unat (fst p)) ps"
      "length (w_code w1) \<le> length (w_code w)"
    by blast
  have small0: "length (w_code w0) < 2 ^ 32" using len ps(3) small by simp
  have ok: "positions_ok w" "positions_ok w0"
    using writes_positions_ok [OF run_cmds_writes_from [OF w1 rest] small]
      writes_positions_ok [OF w0 small0] .
  have "w_positions w1 = w_positions w0
      \<or> (\<exists>q. w_positions w1 = w_positions w0 @ [(offset w0, q)])"
    using emit run_cmd_positions [of "CInst i" "set_position p w0" w1]
    by (auto simp: run_cmds_Cons set_position_def offset_def)
  with ok(2) small0 have "\<forall>q \<in> set (w_positions w1). fst q \<le> offset w0"
    by (fastforce simp: positions_ok_def list_all_iff offset_def word_le_nat_alt)
  moreover have "\<forall>r \<in> set ps. \<not> fst r \<le> offset w0"
    using ps(2) len small0 by (auto simp: list_all_iff offset_def word_le_nat_alt)
  ultimately have "position_before (w_positions w) (offset w0) = Some p"
    using position_before_prefix [OF ps(1)] emit_positioned [OF pos emit] by simp
  moreover have "fn_positions f = w_positions w"
    by (rule generate_positions [OF run_cmds_writes_from [OF w1 rest] small gen])
  ultimately show ?thesis
    using ok(1) by (simp add: offset_position_correct positions_ok_def)
qed

end
