(* ===== verification/BytecodeTheorems.thy ===== *)
theory BytecodeTheorems
  imports BytecodeFunctions
begin

text \<open>
  The properties of the bytecode component: what is promised to a code generator that drives
  \<open>BytecodeWriter\<close> and to a visitor that walks the generated function.  Each is followed by an
  instance on a small program with a loop, a conditional forward jump, a constant and a
  positioned instruction with a wide operand.
\<close>

subsection \<open>A sample program\<close>

definition demo_prefix :: "wcmd list" where
  "demo_prefix =
     [CCreateLabel, CDefineLabel, CInst InstLoopStart, CConst 1 (CpInt32 7), CForward (FIfFalse 0) 0]"

definition demo_cmds :: "wcmd list" where
  "demo_cmds = demo_prefix @ [CSetPosition \<lparr>pos_line = 3, pos_column = 5\<rparr>, CInst (InstAdd 300 1 2)] @
     [CLoop 1, CBindLabel 0, CInst (InstRet 300)]"

definition demo_ok :: "writer result \<Rightarrow> bool" where
  "demo_ok r = (case r of Inl _ \<Rightarrow> False
     | Inr w \<Rightarrow> length (w_code w) \<le> 50 \<and> length (w_const_pool w) \<le> 50 \<and> is_ok (generate w))"

lemma demo_okE:
  assumes "demo_ok (run_cmds cs writer_new)"
  obtains w f where "run_cmds cs writer_new = Inr w" and "generate w = Inr f"
    and "length (w_code w) < 2 ^ 32" and "length (w_const_pool w) < 2 ^ 32"
  using assms by (fastforce simp: demo_ok_def is_ok_iff split: sum.splits)

lemma demo_runs: "demo_ok (run_cmds demo_cmds writer_new)"
  by code_simp

lemma demo_wf: "list_all wf_cmd demo_cmds"
  by (simp add: demo_cmds_def demo_prefix_def wf_inst_def)

subsection \<open>Functions read back as written\<close>

lemma assembled:
  assumes run: "run_cmds cs writer_new = Inr w" and gen: "generate w = Inr f"
    and small: "length (w_code w) < 2 ^ 32" "length (w_const_pool w) < 2 ^ 32"
    and wf: "list_all wf_cmd cs"
  obtains "is" where "fn_code f = concat (map encode is)" and "list_all encodable is"
    and "list_all2 (realises f (w_label_offsets w)) (locate item_enc 0 (emitted_all cs writer_new)) is"
    and "map fst (locate encode 0 is) = map fst (locate item_enc 0 (emitted_all cs writer_new))"
    and "fn_const_pool f = fold (patch_pool (w_label_offsets w))
           (locate item_enc 0 (emitted_all cs writer_new)) (w_const_pool w)"
proof -
  have "list_all (\<lambda>x. encodable (item_inst x)) (emitted_all cs writer_new)"
    using run_cmds_encodable [OF wf run small(2)] by simp
  note facts = generated_function [OF writes_inv [OF run_cmds_writes [OF run]] this gen small(1)]
  show thesis by (rule that [OF facts(1-5)])
qed

text \<open>
  C1. A function generated from a sequence of writer calls reads back as written: there is a list
  of instructions, one for every instruction emitted and at the same offset, in which everything
  but a forward jump is unchanged and every forward jump goes to the offset its label was
  bound to, and reading the generated code with any visitor announces and dispatches exactly
  these instructions, in order.
\<close>

theorem assembled_function_reads_back:
  assumes "run_cmds cs writer_new = Inr w" and "generate w = Inr f"
    and "length (w_code w) < 2 ^ 32" and "length (w_const_pool w) < 2 ^ 32"
    and "list_all wf_cmd cs"
  shows "\<exists>is. list_all2 (realises f (w_label_offsets w))
              (locate item_enc 0 (emitted_all cs writer_new)) is
    \<and> map fst (locate encode 0 is) = map fst (locate item_enc 0 (emitted_all cs writer_new))
    \<and> (\<forall>visitor s. read_bytecode (fn_code f) visitor s =
          for_each (\<lambda>(off, wi). visit_at visitor off wi) (locate encode 0 is) s)"
proof -
  from assms obtain "is" where i: "fn_code f = concat (map encode is)" "list_all encodable is"
    "list_all2 (realises f (w_label_offsets w)) (locate item_enc 0 (emitted_all cs writer_new)) is"
    "map fst (locate encode 0 is) = map fst (locate item_enc 0 (emitted_all cs writer_new))"
    by (rule assembled)
  then show ?thesis
    by (intro exI [of _ "is"]) (simp add: read_bytecode_from bcw.walk_stream)
qed

theorem assembled_function_reads_back_witness:
  "\<exists>w f is. run_cmds demo_cmds writer_new = Inr w \<and> generate w = Inr f
    \<and> list_all2 (realises f (w_label_offsets w)) (locate item_enc 0 (emitted_all demo_cmds writer_new)) is
    \<and> map fst (locate encode 0 is) = map fst (locate item_enc 0 (emitted_all demo_cmds writer_new))
    \<and> (\<forall>visitor (s :: nat). read_bytecode (fn_code f) visitor s =
          for_each (\<lambda>(off, wi). visit_at visitor off wi) (locate encode 0 is) s)"
proof (rule demo_okE [OF demo_runs])
  fix w f assume "run_cmds demo_cmds writer_new = Inr w" "generate w = Inr f"
    "length (w_code w) < 2 ^ 32" "length (w_const_pool w) < 2 ^ 32"
  from assembled_function_reads_back [OF this demo_wf] this(1,2) show ?thesis by fast
qed

subsection \<open>Jumps\<close>

definition jump_ok :: "bytecode_function \<Rightarrow> bytecode_offset list \<Rightarrow> nat \<times> operand_width \<times> instruction \<Rightarrow> bool" where
  "jump_ok f bs swi =
     (case jump_target f (as_u32 (fst swi)) (snd (snd swi)) of
        Inl _ \<Rightarrow> False
      | Inr None \<Rightarrow> True
      | Inr (Some t) \<Rightarrow> t \<in> set bs)"

lemma realised_jump_ok:
  assumes "realises f ls (s, x) wi" and "fixed_jump_ok f bs (s, x)" and "bound_ahead ls (s, x)"
    and "\<forall>t. Some t \<in> set ls \<longrightarrow> t \<in> set bs"
  shows "jump_ok f bs (s, wi)"
  using assms by (cases x) (auto simp: jump_ok_def fixed_jump_ok_def, (metis nth_mem)+)

lemma generated_bound_ahead:
  assumes "writes xs w" and "length (w_code w) < 2 ^ 32" and "generate w = Inr f"
  shows "list_all (bound_ahead (w_label_offsets w)) (locate item_enc 0 xs)"
proof -
  have refs: "refines xs w" "list_all (\<lambda>idx. idx < length (w_const_pool w)) (pending_idxs xs)"
    using writes_inv [OF assms(1)] by (simp_all add: asm_inv_def)
  from assms(3) obtain w' where "resolve_forward_jumps w = Inr w'"
    by (auto simp: generate_def rbind_eq_Inr_iff)
  from resolve_forward_jumps_eq [OF refs(1) assms(2) refs(2) this] show ?thesis by simp
qed

lemma length_locate [simp]: "length (locate enc off is) = length is"
  by (induction "is" arbitrary: off) simp_all

lemma length_resolved_code:
  "length (concat (map encode (map (resolve_item ls) (locate item_enc off xs)))) = length (code_of xs)"
  by (induction xs arbitrary: off) (simp_all add: length_resolve_item)

lemma generated_length:
  assumes "writes xs w" and "length (w_code w) < 2 ^ 32" and "generate w = Inr f"
  shows "length (fn_code f) = length (w_code w)"
proof -
  have refs: "refines xs w" "list_all (\<lambda>idx. idx < length (w_const_pool w)) (pending_idxs xs)"
    using writes_inv [OF assms(1)] by (simp_all add: asm_inv_def)
  from assms(3) obtain w' where "resolve_forward_jumps w = Inr w'" and "fn_code f = w_code w'"
    by (auto simp: generate_def rbind_eq_Inr_iff)
  with resolve_forward_jumps_eq [OF refs(1) assms(2) refs(2)] writes_code [OF assms(1)]
  show ?thesis by (simp add: length_resolved_code del: map_map)
qed

text \<open>
  C2. Every jump of a generated function is safe: its target can be computed without a panic
  (constant-pool entries of long jumps hold the distance) and is the start of an
  instruction of the function or its end, for forward jumps in both encodings and for loop jumps.
\<close>

theorem generated_jumps_on_boundaries:
  assumes "run_cmds cs writer_new = Inr w" and "generate w = Inr f"
    and "length (w_code w) < 2 ^ 32" and "length (w_const_pool w) < 2 ^ 32"
    and "list_all wf_cmd cs"
  shows "\<exists>is. fn_code f = concat (map encode is) \<and> list_all encodable is
    \<and> list_all (jump_ok f (boundaries encode is)) (locate encode 0 is)"
proof -
  let ?xs = "emitted_all cs writer_new" and ?ls = "w_label_offsets w"
  from assms obtain "is" where i: "fn_code f = concat (map encode is)" "list_all encodable is"
    "list_all2 (realises f ?ls) (locate item_enc 0 ?xs) is"
    "map fst (locate encode 0 is) = map fst (locate item_enc 0 ?xs)"
    by (rule assembled)
  note w = run_cmds_writes [OF assms(1)]
  have len: "length (fn_code f) = length (w_code w)"
    using generated_length [OF w assms(3,2)] .
  then have bs: "boundaries encode is = boundaries item_enc ?xs"
    using i(1,4) writes_code [OF w] by (simp add: boundaries_def code_of_def)
  have "jump_ok f (boundaries encode is) (locate encode 0 is ! n)" if n: "n < length is" for n
  proof -
    have l: "length (locate encode 0 is) = length is" "length (locate item_enc 0 ?xs) = length is"
      using list_all2_lengthD [OF i(3)] by simp_all
    obtain s x where sx: "locate item_enc 0 ?xs ! n = (s, x)" by fastforce
    have "locate encode 0 is ! n = (s, is ! n)"
      using i(4) sx n l map_snd_locate [of encode 0 "is"]
      by (metis fst_conv nth_map prod.collapse)
    moreover have "realises f ?ls (s, x) (is ! n)"
      using list_all2_nthD2 [OF i(3) n] sx by simp
    moreover have "(s, x) \<in> set (locate item_enc 0 ?xs)"
      using sx n l by (metis nth_mem)
    ultimately show ?thesis
      using realised_jump_ok [of f ?ls s x "is ! n" "boundaries item_enc ?xs"]
        writes_fixed_jump_ok [OF w, of f] generated_bound_ahead [OF w assms(3,2)]
        writes_inv [OF w] bs
      by (auto simp: list_all_iff asm_inv_def)
  qed
  with i(1,2) show ?thesis
    by (intro exI [of _ "is"]) (simp add: list_all_length)
qed

theorem generated_jumps_on_boundaries_witness:
  "\<exists>w f is. run_cmds demo_cmds writer_new = Inr w \<and> generate w = Inr f
    \<and> fn_code f = concat (map encode is) \<and> list_all encodable is
    \<and> list_all (jump_ok f (boundaries encode is)) (locate encode 0 is)"
proof (rule demo_okE [OF demo_runs])
  fix w f assume "run_cmds demo_cmds writer_new = Inr w" "generate w = Inr f"
    "length (w_code w) < 2 ^ 32" "length (w_const_pool w) < 2 ^ 32"
  from generated_jumps_on_boundaries [OF this demo_wf] this(1,2) show ?thesis by fast
qed

text \<open>
  C34. Generation fails only for the caller's mistake: after any sequence of writer calls,
  \<open>generate\<close> returns a function exactly when every label used by a forward jump has been bound.
  In particular the assertions of \<open>resolve_forward_jumps\<close> (the target lies behind the jump, the
  patched opcode is a jump, the patched slots exist) never fire.
\<close>

theorem generate_succeeds_iff_labels_bound:
  assumes "run_cmds cs writer_new = Inr w" and "length (w_code w) < 2 ^ 32"
  shows "(\<exists>f. generate w = Inr f) \<longleftrightarrow>
    labels_bound (emitted_all cs writer_new) (w_label_offsets w)"
  by (rule generate_bound_iff [OF run_cmds_writes [OF assms(1)] assms(2)])

theorem generate_succeeds_iff_labels_bound_witness:
  "\<exists>w. run_cmds demo_cmds writer_new = Inr w \<and> length (w_code w) < 2 ^ 32
     \<and> labels_bound (emitted_all demo_cmds writer_new) (w_label_offsets w)"
proof (rule demo_okE [OF demo_runs])
  fix w f assume "run_cmds demo_cmds writer_new = Inr w" "generate w = Inr f"
    "length (w_code w) < 2 ^ 32"
  then show ?thesis using generate_succeeds_iff_labels_bound [of demo_cmds w] by blast
qed

subsection \<open>Constants\<close>

lemma run_cmd_pool_prefix:
  assumes "run_cmd c w = Inr w'"
  shows "\<exists>ps. w_const_pool w' = w_const_pool w @ ps"
proof (cases c)
  case (CInst i)
  with assms show ?thesis
    by (auto simp: rbind_eq_Inr_iff dest!: call_emit_eq position_step_frame)
next
  case (CConst dest e)
  with assms show ?thesis by (auto dest!: emit_const_eq)
next
  case (CForward k l)
  with assms show ?thesis by (auto dest!: emit_forward_eq)
next
  case (CLoop l)
  with assms show ?thesis
    by (auto simp: emit_jump_loop_def lookup_label_def emit_jmp_def emit_values_eq
        rbind_eq_Inr_iff Let_def dest!: position_step_frame)
qed (use assms in \<open>auto simp: writer_frame_defs
       bind_label_def rbind_eq_Inr_iff\<close>)

lemma run_cmds_pool:
  assumes "run_cmds cs w = Inr w'"
  shows "(\<exists>ps. w_const_pool w' = w_const_pool w @ ps)
    \<and> list_all (\<lambda>i. length (w_const_pool w) \<le> i) (pending_idxs (emitted_all cs w))"
  using assms
proof (induction cs arbitrary: w)
  case (Cons c cs)
  then obtain w1 where c: "run_cmd c w = Inr w1" and cs: "run_cmds cs w1 = Inr w'"
    by (auto simp: run_cmds_Cons)
  from Cons.IH [OF cs] run_cmd_pool_prefix [OF c] run_cmd_pool [OF c] c show ?case
    by (auto simp: list_all_iff)
qed simp

fun stores_const :: "wcmd \<Rightarrow> const_pool_entry option" where
  "stores_const (CConst dest e) = Some e"
| "stores_const (CAddConst e) = Some e"
| "stores_const _ = None"

lemma stores_const_pool:
  assumes "stores_const c = Some e" and "run_cmd c w = Inr w'"
  shows "w_const_pool w' = w_const_pool w @ [e] \<and> pending_idxs (emitted c w) = []"
  using assms by (cases c) (auto simp: add_const_def dest!: emit_const_eq)

text \<open>
  A constant added to the pool (directly or by a constant-loading instruction) keeps its
  index and its value in the generated function, whatever jumps are emitted before and after
  it and are patched into the same pool.
\<close>

theorem constants_survive_generation:
  assumes "run_cmds cs writer_new = Inr w0" and "stores_const c = Some e"
    and "run_cmds (c # ds) w0 = Inr w" and "generate w = Inr f" and "length (w_code w) < 2 ^ 32"
  shows "const_pool f (length (w_const_pool w0)) = Inr e"
proof -
  let ?xs = "emitted_all cs writer_new @ emitted_all (c # ds) w0"
  from assms(3) obtain w1 where c: "run_cmd c w0 = Inr w1" and ds: "run_cmds ds w1 = Inr w"
    by (auto simp: run_cmds_Cons)
  note pool1 = stores_const_pool [OF assms(2) c]
  note w = run_cmds_writes_from [OF run_cmds_writes [OF assms(1)] assms(3)]
  from writes_inv [OF w] have refs: "refines ?xs w"
    "list_all (\<lambda>idx. idx < length (w_const_pool w)) (pending_idxs ?xs)"
    by (simp_all add: asm_inv_def)
  from assms(4) obtain w' where res: "resolve_forward_jumps w = Inr w'"
    and f: "fn_const_pool f = w_const_pool w'"
    by (auto simp: generate_def rbind_eq_Inr_iff)
  have fresh: "length (w_const_pool w0) \<notin> set (pending_idxs ?xs)"
    using writes_inv [OF run_cmds_writes [OF assms(1)]] run_cmds_pool [OF ds] pool1 c
    by (auto simp: asm_inv_def list_all_iff)
  obtain ps where "w_const_pool w = w_const_pool w0 @ e # ps"
    using run_cmds_pool [OF ds] pool1 by auto
  with resolve_forward_jumps_eq [OF refs(1) assms(5) refs(2) res] f fresh show ?thesis
    by (simp add: const_pool_def fold_patch_pool_other)
qed

theorem constants_survive_generation_witness:
  "\<exists>w0 w f. run_cmds (take 3 demo_cmds) writer_new = Inr w0
    \<and> run_cmds (CConst 1 (CpInt32 7) # drop 4 demo_cmds) w0 = Inr w \<and> generate w = Inr f
    \<and> const_pool f (length (w_const_pool w0)) = Inr (CpInt32 7)"
proof (rule demo_okE [OF demo_runs])
  fix w f assume run: "run_cmds demo_cmds writer_new = Inr w" and gen: "generate w = Inr f"
    and small: "length (w_code w) < 2 ^ 32"
  have "demo_cmds = take 3 demo_cmds @ CConst 1 (CpInt32 7) # drop 4 demo_cmds"
    by (simp add: demo_cmds_def demo_prefix_def)
  then obtain w0 where "run_cmds (take 3 demo_cmds) writer_new = Inr w0"
    "run_cmds (CConst 1 (CpInt32 7) # drop 4 demo_cmds) w0 = Inr w"
    using run by (metis run_cmds_append)
  with constants_survive_generation [OF this(1) _ this(2) gen small] gen show ?thesis by auto
qed

subsection \<open>Positions\<close>

text \<open>
  The source position set before an instruction that needs one is the position that
  \<open>offset_position\<close> finds for the instruction's offset in the generated function, although equal
  consecutive positions are stored only once and the table is searched by bisection.
\<close>

theorem instruction_position_found:
  assumes "run_cmds cs writer_new = Inr w0"
    and "run_cmds [CSetPosition p, CInst i] w0 = Inr w1" and "needs_position (inst_op i)"
    and "run_cmds ds w1 = Inr w" and "generate w = Inr f" and "length (w_code w) < 2 ^ 32"
  shows "offset_position f (offset w0) = Inr p"
  by (rule recorded_position [OF run_cmds_writes [OF assms(1)] assms(2-6)])

theorem instruction_position_found_witness:
  "\<exists>w0 w f. run_cmds demo_prefix writer_new = Inr w0
     \<and> run_cmds demo_cmds writer_new = Inr w \<and> generate w = Inr f
     \<and> offset_position f (offset w0) = Inr \<lparr>pos_line = 3, pos_column = 5\<rparr>"
proof (rule demo_okE [OF demo_runs])
  fix w f assume run: "run_cmds demo_cmds writer_new = Inr w" and gen: "generate w = Inr f"
    and small: "length (w_code w) < 2 ^ 32"
  from run obtain w0 w1 where "run_cmds demo_prefix writer_new = Inr w0"
    "run_cmds [CSetPosition \<lparr>pos_line = 3, pos_column = 5\<rparr>, CInst (InstAdd 300 1 2)] w0 = Inr w1"
    "run_cmds [CLoop 1, CBindLabel 0, CInst (InstRet 300)] w1 = Inr w"
    unfolding demo_cmds_def run_cmds_append by blast
  with instruction_position_found [OF this(1,2) _ this(3) gen small] run gen show ?thesis
    by (auto simp: needs_position_def)
qed

subsection \<open>The encoding\<close>

definition auto_width :: "instruction \<Rightarrow> operand_width \<times> instruction" where
  "auto_width i = (width_for (inst_values i), i)"

text \<open>
  The instruction encoding is unambiguous: two lists of encodable instructions with the same
  bytes are the same list, widths included.
\<close>

theorem encoding_unambiguous:
  assumes "list_all encodable is" and "list_all encodable js"
    and "concat (map encode is) = concat (map encode js)"
  shows "is = js"
  using assms by (rule bc.stream_unambiguous)

theorem encoding_unambiguous_witness:
  "list_all encodable [(Wide, InstMov 1 2), (Normal, InstRet 1)]
   \<and> list_all encodable ((Wide, InstMov 1 2) # [auto_width (InstRet 1)])
   \<and> [(Wide, InstMov 1 2), (Normal, InstRet 1)] = (Wide, InstMov 1 2) # [auto_width (InstRet 1)]"
proof -
  have enc: "list_all encodable [(Wide, InstMov 1 2), (Normal, InstRet 1)]"
    "list_all encodable ((Wide, InstMov 1 2) # [auto_width (InstRet 1)])"
    by (simp_all add: auto_width_def encodable_def wf_inst_def fits_def inst_values_def as_u32_def
        width_for_def)
  have "concat (map encode [(Wide, InstMov 1 2), (Normal, InstRet 1)]) =
      concat (map encode ((Wide, InstMov 1 2) # [auto_width (InstRet 1)]))"
    by (simp add: auto_width_def width_for_def inst_values_def as_u32_def)
  from encoding_unambiguous [OF enc this] enc show ?thesis by simp
qed

text \<open>
  Opcode numbers: decoding a byte yields an opcode exactly when the byte is that opcode's
  number, so the numbering is injective and every other byte is rejected.
\<close>

theorem opcode_number_iff: "from_u8 b = Some op \<longleftrightarrow> b = to_u8 op"
  using to_u8_from_u8 by auto

end
