(* ===== verification/Registers.thy ===== *)
theory Registers
  imports BytecodeData
begin

text \<open>
  The register allocator of the bytecode builder (\<open>struct Registers\<close> in
  \<open>dora/src/bytecode/builder.rs\<close>).  Registers are either in use, as a temporary or as a variable
  of one of the open scopes, or kept for reuse in a list per type.  \<open>pop_scope\<close> iterates over a
  \<open>HashSet\<close>, whose order the standard library leaves open: the order is the argument \<open>iter\<close>, of
  which only \<open>hash_iter\<close> is assumed.  The locale \<open>register_pool\<close> is what code generation relies
  on.
\<close>

record registers =
  regs_all :: "bytecode_type list"
  regs_scopes :: "register set list"
  regs_used :: "register set"
  regs_temps :: "register set"
  regs_unused :: "bytecode_type \<rightharpoonup> register list"

definition registers_new :: registers where
  "registers_new = \<lparr>regs_all = [], regs_scopes = [], regs_used = {}, regs_temps = {},
     regs_unused = Map.empty\<rparr>"

definition regs_push_scope :: "registers \<Rightarrow> registers" where
  "regs_push_scope r = r\<lparr>regs_scopes := regs_scopes r @ [{}]\<rparr>"

text \<open>\<open>self.unused.entry(ty).or_insert(Vec::new()).push(reg)\<close>.\<close>

definition unused_push ::
  "bytecode_type \<Rightarrow> register \<Rightarrow> (bytecode_type \<rightharpoonup> register list) \<Rightarrow> (bytecode_type \<rightharpoonup> register list)" where
  "unused_push ty reg m = m(ty \<mapsto> (case m ty of None \<Rightarrow> [] | Some v \<Rightarrow> v) @ [reg])"

fun release_all :: "register list \<Rightarrow> registers \<Rightarrow> registers result" where
  "release_all [] r = Inr r"
| "release_all (reg # regs) r =
     rbind (vec_get (regs_all r) reg) (\<lambda>ty.
     (let r = r\<lparr>regs_unused := unused_push ty reg (regs_unused r)\<rparr> in
      rbind (rassert (reg \<in> regs_used r)) (\<lambda>_.
      release_all regs (r\<lparr>regs_used := regs_used r - {reg}\<rparr>))))"

definition regs_pop_scope :: "(register set \<Rightarrow> register list) \<Rightarrow> registers \<Rightarrow> registers result" where
  "regs_pop_scope iter r =
     (if regs_scopes r = [] then Inl ExpectFailed
      else let scope = last (regs_scopes r);
               r = r\<lparr>regs_scopes := butlast (regs_scopes r)\<rparr>
           in release_all (iter scope) r)"

definition new_register :: "bytecode_type \<Rightarrow> registers \<Rightarrow> register \<times> registers" where
  "new_register ty r =
     (let r = r\<lparr>regs_all := regs_all r @ [ty]\<rparr> in (length (regs_all r) - 1, r))"

definition alloc_internal :: "bytecode_type \<Rightarrow> registers \<Rightarrow> register \<times> registers" where
  "alloc_internal ty r =
     (case regs_unused r ty of
        Some regs \<Rightarrow>
          (if regs \<noteq> []
           then (last regs, r\<lparr>regs_unused := (regs_unused r)(ty \<mapsto> butlast regs)\<rparr>)
           else new_register ty r)
      | None \<Rightarrow> new_register ty r)"

definition regs_alloc_var :: "bytecode_type \<Rightarrow> registers \<Rightarrow> (register \<times> registers) result" where
  "regs_alloc_var ty r =
     (let (reg, r) = alloc_internal ty r in
      if regs_scopes r = [] then Inl ExpectFailed
      else
        rbind (rassert (reg \<notin> last (regs_scopes r))) (\<lambda>_.
        (let r = r\<lparr>regs_scopes := butlast (regs_scopes r) @ [insert reg (last (regs_scopes r))]\<rparr> in
         rbind (rassert (reg \<notin> regs_used r)) (\<lambda>_.
         Inr (reg, r\<lparr>regs_used := insert reg (regs_used r)\<rparr>)))))"

definition regs_alloc_temp :: "bytecode_type \<Rightarrow> registers \<Rightarrow> (register \<times> registers) result" where
  "regs_alloc_temp ty r =
     (let (reg, r) = alloc_internal ty r in
      rbind (rassert (reg \<notin> regs_temps r)) (\<lambda>_.
      (let r = r\<lparr>regs_temps := insert reg (regs_temps r)\<rparr> in
       rbind (rassert (reg \<notin> regs_used r)) (\<lambda>_.
       Inr (reg, r\<lparr>regs_used := insert reg (regs_used r)\<rparr>)))))"

definition regs_alloc_global :: "bytecode_type \<Rightarrow> registers \<Rightarrow> (register \<times> registers) result" where
  "regs_alloc_global ty r =
     (let (reg, r) = alloc_internal ty r in
      case regs_scopes r of
        [] \<Rightarrow> Inl ExpectFailed
      | scope # scopes \<Rightarrow>
          rbind (rassert (reg \<notin> scope)) (\<lambda>_.
          (let r = r\<lparr>regs_scopes := insert reg scope # scopes\<rparr> in
           rbind (rassert (reg \<notin> regs_used r)) (\<lambda>_.
           Inr (reg, r\<lparr>regs_used := insert reg (regs_used r)\<rparr>)))))"

definition regs_free_temp :: "register \<Rightarrow> registers \<Rightarrow> registers result" where
  "regs_free_temp reg r =
     rbind (rassert (reg \<in> regs_temps r)) (\<lambda>_.
     (let r = r\<lparr>regs_temps := regs_temps r - {reg}\<rparr> in
      rbind (vec_get (regs_all r) reg) (\<lambda>ty.
      (let r = r\<lparr>regs_unused := unused_push ty reg (regs_unused r)\<rparr> in
       rbind (rassert (reg \<in> regs_used r)) (\<lambda>_.
       Inr (r\<lparr>regs_used := regs_used r - {reg}\<rparr>))))))"

definition regs_free_if_temp :: "register \<Rightarrow> registers \<Rightarrow> (bool \<times> registers) result" where
  "regs_free_if_temp reg r =
     (if reg \<in> regs_temps r
      then rbind (regs_free_temp reg r) (\<lambda>r. Inr (True, r))
      else Inr (False, r))"

definition regs_in_use :: "registers \<Rightarrow> bool" where
  "regs_in_use r = (regs_scopes r \<noteq> [] \<or> regs_used r \<noteq> {})"

subsection \<open>Invariant\<close>

definition free_list :: "registers \<Rightarrow> bytecode_type \<Rightarrow> register list" where
  "free_list r ty = (case regs_unused r ty of None \<Rightarrow> [] | Some regs \<Rightarrow> regs)"

definition free_regs :: "registers \<Rightarrow> register set" where
  "free_regs r = {reg. \<exists>ty. reg \<in> set (free_list r ty)}"

fun pairwise_disjoint :: "'a set list \<Rightarrow> bool" where
  "pairwise_disjoint [] = True"
| "pairwise_disjoint (s # ss) = (s \<inter> \<Union>(set ss) = {} \<and> pairwise_disjoint ss)"

definition free_typed :: "registers \<Rightarrow> bool" where
  "free_typed r =
     (\<forall>ty. distinct (free_list r ty) \<and> (\<forall>reg \<in> set (free_list r ty). regs_all r ! reg = ty))"

definition regs_partition :: "registers \<Rightarrow> bool" where
  "regs_partition r =
     (regs_used r \<inter> free_regs r = {} \<and> regs_used r \<union> free_regs r = {..<length (regs_all r)}
      \<and> free_typed r)"

definition regs_owned :: "registers \<Rightarrow> bool" where
  "regs_owned r =
     (regs_used r = regs_temps r \<union> \<Union>(set (regs_scopes r))
      \<and> pairwise_disjoint (regs_temps r # regs_scopes r))"

definition regs_ok :: "registers \<Rightarrow> bool" where
  "regs_ok r = (regs_partition r \<and> regs_owned r)"

definition hash_iter :: "(register set \<Rightarrow> register list) \<Rightarrow> bool" where
  "hash_iter iter = (\<forall>S. finite S \<longrightarrow> distinct (iter S) \<and> set (iter S) = S)"

subsection \<open>Lemmas\<close>

lemma pairwise_disjoint_append:
  "pairwise_disjoint (xs @ ys) \<longleftrightarrow>
     pairwise_disjoint xs \<and> pairwise_disjoint ys \<and> \<Union>(set xs) \<inter> \<Union>(set ys) = {}"
  by (induction xs) auto

lemma regs_ok_new: "regs_ok registers_new"
  by (simp add: regs_ok_def regs_partition_def regs_owned_def free_typed_def registers_new_def
      free_regs_def free_list_def)

lemma regs_partition_bound:
  "regs_partition r \<Longrightarrow> reg \<in> regs_used r \<union> free_regs r \<Longrightarrow> reg < length (regs_all r)"
  by (auto simp: regs_partition_def)

lemma regs_partition_frame [simp]:
  "regs_partition (r\<lparr>regs_scopes := ss\<rparr>) = regs_partition r"
  "regs_partition (r\<lparr>regs_temps := ts\<rparr>) = regs_partition r"
  by (simp_all add: regs_partition_def free_typed_def free_regs_def free_list_def)

lemma free_regs_member: "reg \<in> set (free_list r ty) \<Longrightarrow> reg \<in> free_regs r"
  by (auto simp: free_regs_def)

text \<open>What allocation without an owner does: the register leaves the free lists.\<close>

definition takes :: "registers \<Rightarrow> bytecode_type \<Rightarrow> register \<Rightarrow> registers \<Rightarrow> bool" where
  "takes r ty reg r' =
     (reg \<notin> regs_used r \<and> regs_used r' = regs_used r \<and> regs_temps r' = regs_temps r
      \<and> regs_scopes r' = regs_scopes r
      \<and> reg < length (regs_all r') \<and> regs_all r' ! reg = ty
      \<and> (\<exists>ts. regs_all r' = regs_all r @ ts)
      \<and> reg \<notin> free_regs r' \<and> regs_used r \<inter> free_regs r' = {}
      \<and> insert reg (regs_used r \<union> free_regs r') = {..<length (regs_all r')}
      \<and> free_typed r')"

lemma takes_reuse:
  assumes part: "regs_partition r" and u: "regs_unused r ty = Some (regs @ [reg])"
  shows "takes r ty reg (r\<lparr>regs_unused := (regs_unused r)(ty \<mapsto> regs)\<rparr>)" (is "takes r ty reg ?r'")
proof -
  have fl: "free_list r ty = regs @ [reg]" "free_list ?r' = (free_list r)(ty := regs)"
    using u by (auto simp: free_list_def fun_eq_iff)
  from part have dist: "distinct (free_list r t)"
    and typed: "q \<in> set (free_list r t) \<Longrightarrow> regs_all r ! q = t" for t q
    by (simp_all add: regs_partition_def free_typed_def)
  have reg_ty: "regs_all r ! reg = ty" using typed [of reg ty] fl(1) by simp
  then have other: "reg \<notin> set (free_list r t)" if "t \<noteq> ty" for t
    using typed [of reg t] that by auto
  have set_eq: "set (free_list ?r' t) = set (free_list r t) - {reg}" for t
    using dist [of ty] fl other [of t] by auto
  then have free: "free_regs ?r' = free_regs r - {reg}" by (auto simp: free_regs_def)
  have mem: "reg \<in> free_regs r" using fl(1) by (intro free_regs_member [of _ _ ty]) simp
  have "distinct (free_list ?r' t)" for t using dist [of t] dist [of ty] fl by simp
  then have "free_typed ?r'" using typed set_eq by (simp add: free_typed_def)
  moreover have "reg \<notin> regs_used r" "reg < length (regs_all r)"
    using mem part by (auto simp: regs_partition_def)
  moreover have "insert reg (regs_used r \<union> free_regs ?r') = {..<length (regs_all r)}"
    "regs_used r \<inter> free_regs ?r' = {}"
    using part mem unfolding free regs_partition_def by blast+
  ultimately show ?thesis using reg_ty free by (simp add: takes_def)
qed

lemma takes_new:
  assumes part: "regs_partition r"
  shows "takes r ty (length (regs_all r)) (r\<lparr>regs_all := regs_all r @ [ty]\<rparr>)" (is "takes r ty ?reg ?r'")
proof -
  have fl: "free_list ?r' = free_list r" "free_regs ?r' = free_regs r"
    by (simp_all add: free_list_def free_regs_def fun_eq_iff)
  have "?reg \<notin> regs_used r" "?reg \<notin> free_regs r"
    using regs_partition_bound [OF part, of ?reg] by auto
  moreover have "free_typed ?r'"
    using part free_regs_member [of _ r] regs_partition_bound [OF part]
    by (auto simp: free_typed_def fl regs_partition_def nth_append)
  moreover have "insert ?reg (regs_used r \<union> free_regs r) = {..<Suc ?reg}"
    using part by (auto simp: regs_partition_def)
  ultimately show ?thesis using part fl by (simp add: takes_def regs_partition_def)
qed

lemma alloc_internal_takes:
  assumes "regs_partition r" and alloc: "alloc_internal ty r = (reg, r')"
  shows "takes r ty reg r'"
proof (cases "\<exists>regs q. regs_unused r ty = Some (regs @ [q])")
  case True
  then obtain regs q where u: "regs_unused r ty = Some (regs @ [q])" by blast
  with takes_reuse [OF assms(1) u] alloc show ?thesis by (simp add: alloc_internal_def)
next
  case False
  then have "alloc_internal ty r = new_register ty r"
    by (auto simp: alloc_internal_def split: option.splits) (metis rev_exhaust)
  with takes_new [OF assms(1), of ty] alloc show ?thesis by (auto simp: new_register_def Let_def)
qed

lemma regs_ok_use:
  assumes t: "takes r ty reg r1" and own: "regs_owned r"
    and r': "regs_all r' = regs_all r1" "regs_unused r' = regs_unused r1"
      "regs_used r' = insert reg (regs_used r)"
    and "regs_temps r' \<union> \<Union>(set (regs_scopes r')) = insert reg (regs_temps r \<union> \<Union>(set (regs_scopes r)))"
    and "pairwise_disjoint (regs_temps r' # regs_scopes r')"
  shows "regs_ok r'"
proof -
  have fl: "free_list r' = free_list r1" "free_regs r' = free_regs r1"
    using r'(2) by (simp_all add: free_list_def free_regs_def fun_eq_iff)
  have "regs_partition r'"
    using t r' fl by (auto simp: regs_partition_def takes_def free_typed_def)
  moreover have "regs_owned r'"
    using assms by (simp add: regs_owned_def)
  ultimately show ?thesis by (simp add: regs_ok_def)
qed

definition owners_fresh :: "registers \<Rightarrow> register \<Rightarrow> bool" where
  "owners_fresh r reg = (reg \<notin> regs_temps r \<and> (\<forall>s \<in> set (regs_scopes r). reg \<notin> s))"

lemma takes_owners_fresh: "regs_owned r \<Longrightarrow> takes r ty reg r1 \<Longrightarrow> owners_fresh r reg"
  by (auto simp: regs_owned_def takes_def owners_fresh_def)

definition allocates :: "registers \<Rightarrow> bytecode_type \<Rightarrow> register \<Rightarrow> registers \<Rightarrow> bool" where
  "allocates r ty reg r' =
     (regs_ok r' \<and> reg \<notin> regs_used r \<and> regs_used r' = insert reg (regs_used r)
      \<and> reg < length (regs_all r') \<and> regs_all r' ! reg = ty
      \<and> (\<exists>ts. regs_all r' = regs_all r @ ts)
      \<and> length (regs_scopes r') = length (regs_scopes r))"

lemma regs_alloc_temp_ok:
  assumes ok: "regs_ok r"
  shows "\<exists>reg r'. regs_alloc_temp ty r = Inr (reg, r') \<and> allocates r ty reg r'
    \<and> regs_temps r' = insert reg (regs_temps r)"
proof -
  obtain reg r1 where a: "alloc_internal ty r = (reg, r1)" by fastforce
  from ok have own: "regs_owned r" and t: "takes r ty reg r1"
    using alloc_internal_takes [OF _ a] by (simp_all add: regs_ok_def)
  note fresh = takes_owners_fresh [OF own t]
  let ?r' = "r1\<lparr>regs_temps := insert reg (regs_temps r1), regs_used := insert reg (regs_used r1)\<rparr>"
  have "regs_ok ?r'"
    using t fresh own
    by (intro regs_ok_use [OF t own]) (auto simp: owners_fresh_def regs_owned_def takes_def)
  with a t fresh show ?thesis
    by (simp add: regs_alloc_temp_def allocates_def owners_fresh_def takes_def)
qed

lemma regs_alloc_var_ok:
  assumes ok: "regs_ok r" and sc: "regs_scopes r = ss @ [s]"
  shows "\<exists>reg r'. regs_alloc_var ty r = Inr (reg, r') \<and> allocates r ty reg r'
    \<and> regs_scopes r' = ss @ [insert reg s] \<and> regs_temps r' = regs_temps r"
proof -
  obtain reg r1 where a: "alloc_internal ty r = (reg, r1)" by fastforce
  from ok have own: "regs_owned r" and t: "takes r ty reg r1"
    using alloc_internal_takes [OF _ a] by (simp_all add: regs_ok_def)
  note fresh = takes_owners_fresh [OF own t]
  let ?r' = "r1\<lparr>regs_scopes := ss @ [insert reg s], regs_used := insert reg (regs_used r1)\<rparr>"
  have "regs_ok ?r'"
    using t fresh own sc
    by (intro regs_ok_use [OF t own])
       (auto simp: owners_fresh_def regs_owned_def takes_def pairwise_disjoint_append)
  with a t fresh sc show ?thesis
    by (simp add: regs_alloc_var_def allocates_def owners_fresh_def takes_def)
qed

lemma regs_alloc_global_ok:
  assumes ok: "regs_ok r" and sc: "regs_scopes r = s # ss"
  shows "\<exists>reg r'. regs_alloc_global ty r = Inr (reg, r') \<and> allocates r ty reg r'
    \<and> regs_scopes r' = insert reg s # ss \<and> regs_temps r' = regs_temps r"
proof -
  obtain reg r1 where a: "alloc_internal ty r = (reg, r1)" by fastforce
  from ok have own: "regs_owned r" and t: "takes r ty reg r1"
    using alloc_internal_takes [OF _ a] by (simp_all add: regs_ok_def)
  note fresh = takes_owners_fresh [OF own t]
  let ?r' = "r1\<lparr>regs_scopes := insert reg s # ss, regs_used := insert reg (regs_used r1)\<rparr>"
  have "regs_ok ?r'"
    using t fresh own sc
    by (intro regs_ok_use [OF t own]) (auto simp: owners_fresh_def regs_owned_def takes_def)
  with a t fresh sc show ?thesis
    by (simp add: regs_alloc_global_def allocates_def owners_fresh_def takes_def)
qed

text \<open>Releasing registers.\<close>

definition releases :: "registers \<Rightarrow> register set \<Rightarrow> registers \<Rightarrow> bool" where
  "releases r S r' =
     (regs_all r' = regs_all r \<and> regs_used r' = regs_used r - S
      \<and> regs_partition r' \<and> regs_temps r' = regs_temps r \<and> regs_scopes r' = regs_scopes r)"

lemma free_list_push:
  "free_list (r\<lparr>regs_unused := unused_push ty reg (regs_unused r), regs_used := U\<rparr>) t =
     free_list r t @ (if t = ty then [reg] else [])"
  by (simp add: free_list_def unused_push_def)

lemma release_one:
  assumes part: "regs_partition r" and used: "reg \<in> regs_used r"
  shows "regs_partition (r\<lparr>regs_unused := unused_push (regs_all r ! reg) reg (regs_unused r),
    regs_used := regs_used r - {reg}\<rparr>)" (is "regs_partition ?r")
proof -
  let ?ty = "regs_all r ! reg"
  have fr: "free_regs ?r = insert reg (free_regs r)"
    by (auto simp: free_regs_def free_list_push)
  have "reg \<notin> free_regs r" using part used by (auto simp: regs_partition_def)
  then have "reg \<notin> set (free_list r t)" for t by (auto simp: free_regs_def)
  then have "free_typed ?r"
    using part by (auto simp: free_typed_def free_list_push regs_partition_def)
  moreover have "regs_used ?r \<inter> free_regs ?r = {}" "regs_used ?r \<union> free_regs ?r = {..<length (regs_all ?r)}"
    using part used unfolding fr regs_partition_def by auto
  ultimately show ?thesis by (simp add: regs_partition_def)
qed

lemma release_all_ok:
  assumes "distinct regs" and "set regs \<subseteq> regs_used r" and "regs_partition r"
  shows "\<exists>r'. release_all regs r = Inr r' \<and> releases r (set regs) r'"
  using assms
proof (induction regs arbitrary: r)
  case Nil
  then show ?case by (simp add: releases_def)
next
  case (Cons reg regs)
  let ?r = "r\<lparr>regs_unused := unused_push (regs_all r ! reg) reg (regs_unused r),
    regs_used := regs_used r - {reg}\<rparr>"
  have used: "reg \<in> regs_used r" and "reg < length (regs_all r)"
    using Cons.prems regs_partition_bound [of r reg] by auto
  moreover have "\<exists>r'. release_all regs ?r = Inr r' \<and> releases ?r (set regs) r'"
    using Cons.prems by (intro Cons.IH release_one) auto
  ultimately show ?case by (auto simp: releases_def Let_def)
qed

lemma regs_free_temp_ok:
  assumes ok: "regs_ok r" and t: "reg \<in> regs_temps r"
  shows "\<exists>r'. regs_free_temp reg r = Inr r' \<and> regs_ok r'
    \<and> regs_used r' = regs_used r - {reg} \<and> regs_temps r' = regs_temps r - {reg}
    \<and> regs_scopes r' = regs_scopes r \<and> regs_all r' = regs_all r"
proof -
  let ?r = "r\<lparr>regs_temps := regs_temps r - {reg}\<rparr>"
  have part: "regs_partition ?r" and own: "regs_owned r" and used: "reg \<in> regs_used r"
    using ok t by (auto simp: regs_ok_def regs_owned_def)
  have "\<exists>r'. release_all [reg] ?r = Inr r' \<and> releases ?r (set [reg]) r'"
    using used part by (intro release_all_ok) simp_all
  then obtain r' where r': "release_all [reg] ?r = Inr r'" "releases ?r {reg} r'" by auto
  have "regs_free_temp reg r = Inr r'"
    using r'(1) t used by (simp add: regs_free_temp_def Let_def)
  moreover have "regs_owned r'"
    using r'(2) own t by (auto simp: regs_owned_def releases_def)
  ultimately show ?thesis using r'(2) by (auto simp: releases_def regs_ok_def)
qed

lemma regs_pop_scope_ok:
  assumes ok: "regs_ok r" and sc: "regs_scopes r = ss @ [s]" and it: "hash_iter iter"
  shows "\<exists>r'. regs_pop_scope iter r = Inr r' \<and> regs_ok r' \<and> regs_scopes r' = ss
    \<and> regs_used r' = regs_used r - s \<and> regs_temps r' = regs_temps r \<and> regs_all r' = regs_all r"
proof -
  let ?r = "r\<lparr>regs_scopes := ss\<rparr>"
  have part: "regs_partition ?r" and own: "regs_owned r"
    using ok by (simp_all add: regs_ok_def)
  have sub: "s \<subseteq> regs_used r" using own sc by (auto simp: regs_owned_def)
  moreover have "regs_used r \<subseteq> {..<length (regs_all r)}"
    using ok by (auto simp: regs_ok_def regs_partition_def)
  ultimately have "finite s" by (meson finite_lessThan finite_subset)
  then have iter: "distinct (iter s)" "set (iter s) = s" using it by (auto simp: hash_iter_def)
  have "\<exists>r'. release_all (iter s) ?r = Inr r' \<and> releases ?r (set (iter s)) r'"
    using sub part iter by (intro release_all_ok) simp_all
  then obtain r' where r': "release_all (iter s) ?r = Inr r'" "releases ?r s r'"
    using iter by auto
  have "regs_owned r'"
    using r'(2) own sc by (auto simp: regs_owned_def releases_def pairwise_disjoint_append)
  with r' sc show ?thesis
    by (auto simp: regs_pop_scope_def releases_def regs_ok_def Let_def)
qed

lemma regs_push_scope_ok: "regs_ok r \<Longrightarrow> regs_ok (regs_push_scope r)"
  by (auto simp: regs_ok_def regs_owned_def regs_push_scope_def pairwise_disjoint_append)

subsection \<open>The contract of an allocator\<close>

locale register_pool =
  fixes alloc :: "'t \<Rightarrow> 's \<Rightarrow> ('r \<times> 's) result"
    and live :: "'s \<Rightarrow> 'r set"
    and type_of :: "'s \<Rightarrow> 'r \<Rightarrow> 't"
    and ok :: "'s \<Rightarrow> bool"
  assumes alloc_fresh: "ok s \<Longrightarrow> \<exists>r s'. alloc t s = Inr (r, s') \<and> ok s' \<and> r \<notin> live s
      \<and> live s' = insert r (live s) \<and> type_of s' r = t \<and> (\<forall>q \<in> live s. type_of s' q = type_of s q)"
begin

primrec alloc_all :: "'t list \<Rightarrow> 's \<Rightarrow> ('r list \<times> 's) result" where
  "alloc_all [] s = Inr ([], s)"
| "alloc_all (t # ts) s =
     rbind (alloc t s) (\<lambda>(r, s). rbind (alloc_all ts s) (\<lambda>(rs, s). Inr (r # rs, s)))"

lemma alloc_all_distinct:
  "ok s \<Longrightarrow> \<exists>rs s'. alloc_all ts s = Inr (rs, s') \<and> ok s' \<and> distinct rs \<and> set rs \<inter> live s = {}
     \<and> live s' = live s \<union> set rs \<and> map (type_of s') rs = ts
     \<and> (\<forall>q \<in> live s. type_of s' q = type_of s q)"
proof (induction ts arbitrary: s)
  case Nil
  then show ?case by simp
next
  case (Cons t ts)
  from alloc_fresh [OF Cons.prems] obtain r s1 where s1: "alloc t s = Inr (r, s1)" "ok s1" "r \<notin> live s"
    "live s1 = insert r (live s)" "type_of s1 r = t" "\<forall>q \<in> live s. type_of s1 q = type_of s q"
    by blast
  from Cons.IH [OF s1(2)] obtain rs s2 where "alloc_all ts s1 = Inr (rs, s2)" "ok s2" "distinct rs"
    "set rs \<inter> live s1 = {}" "live s2 = live s1 \<union> set rs" "map (type_of s2) rs = ts"
    "\<forall>q \<in> live s1. type_of s2 q = type_of s1 q"
    by blast
  with s1 show ?case by auto
qed

end

definition reg_type :: "registers \<Rightarrow> register \<Rightarrow> bytecode_type" where
  "reg_type r reg = regs_all r ! reg"

definition regs_ok_scoped :: "registers \<Rightarrow> bool" where
  "regs_ok_scoped r = (regs_ok r \<and> regs_scopes r \<noteq> [])"

lemma allocates_contract:
  assumes "regs_ok r" and "allocates r ty reg r'"
  shows "reg \<notin> regs_used r \<and> regs_used r' = insert reg (regs_used r) \<and> reg_type r' reg = ty
    \<and> (\<forall>q \<in> regs_used r. reg_type r' q = reg_type r q)"
proof -
  have "q < length (regs_all r)" if "q \<in> regs_used r" for q
    using assms(1) that regs_partition_bound [of r q] by (simp add: regs_ok_def)
  with assms(2) show ?thesis by (auto simp: allocates_def reg_type_def nth_append)
qed

lemma allocates_regs_ok: "allocates r ty reg r' \<Longrightarrow> regs_ok r'"
  by (simp add: allocates_def)

interpretation temp_pool: register_pool regs_alloc_temp regs_used reg_type regs_ok
proof
  fix r ty assume ok: "regs_ok r"
  from regs_alloc_temp_ok [OF ok] obtain reg r' where
    a: "regs_alloc_temp ty r = Inr (reg, r')" "allocates r ty reg r'" by blast
  with allocates_contract [OF ok a(2)] allocates_regs_ok [OF a(2)] show "\<exists>reg r'. regs_alloc_temp ty r = Inr (reg, r') \<and> regs_ok r'
    \<and> reg \<notin> regs_used r \<and> regs_used r' = insert reg (regs_used r) \<and> reg_type r' reg = ty
    \<and> (\<forall>q \<in> regs_used r. reg_type r' q = reg_type r q)"
    by simp
qed

interpretation var_pool: register_pool regs_alloc_var regs_used reg_type regs_ok_scoped
proof
  fix r ty assume ok: "regs_ok_scoped r"
  then obtain ss s where sc: "regs_scopes r = ss @ [s]"
    by (cases "regs_scopes r" rule: rev_cases) (auto simp: regs_ok_scoped_def)
  from ok have rok: "regs_ok r" by (simp add: regs_ok_scoped_def)
  from regs_alloc_var_ok [OF rok sc] obtain reg r' where
    a: "regs_alloc_var ty r = Inr (reg, r')" "allocates r ty reg r'" "regs_scopes r' = ss @ [insert reg s]"
    by blast
  with allocates_contract [OF rok a(2)] allocates_regs_ok [OF a(2)] show "\<exists>reg r'. regs_alloc_var ty r = Inr (reg, r') \<and> regs_ok_scoped r'
    \<and> reg \<notin> regs_used r \<and> regs_used r' = insert reg (regs_used r) \<and> reg_type r' reg = ty
    \<and> (\<forall>q \<in> regs_used r. reg_type r' q = reg_type r q)"
    by (simp add: regs_ok_scoped_def)
qed

interpretation global_pool: register_pool regs_alloc_global regs_used reg_type regs_ok_scoped
proof
  fix r ty assume ok: "regs_ok_scoped r"
  then obtain ss s where sc: "regs_scopes r = s # ss"
    by (cases "regs_scopes r") (auto simp: regs_ok_scoped_def)
  from ok have rok: "regs_ok r" by (simp add: regs_ok_scoped_def)
  from regs_alloc_global_ok [OF rok sc] obtain reg r' where
    a: "regs_alloc_global ty r = Inr (reg, r')" "allocates r ty reg r'" "regs_scopes r' = insert reg s # ss"
    by blast
  with allocates_contract [OF rok a(2)] allocates_regs_ok [OF a(2)] show "\<exists>reg r'. regs_alloc_global ty r = Inr (reg, r') \<and> regs_ok_scoped r'
    \<and> reg \<notin> regs_used r \<and> regs_used r' = insert reg (regs_used r) \<and> reg_type r' reg = ty
    \<and> (\<forall>q \<in> regs_used r. reg_type r' q = reg_type r q)"
    by (simp add: regs_ok_scoped_def)
qed

end
