(* ===== verification/Builder.thy ===== *)
theory Builder
  imports BytecodeFunctions Registers
begin

text \<open>
  The bytecode builder (\<open>dora/src/bytecode/builder.rs\<close>): the writer behind the register
  allocator.  Every \<open>emit_*\<close> method asserts that its register operands are in use, sets the
  position of instructions that need one, and calls the writer's method of the same name.
  \<open>generate\<close> refuses to return a function while registers are in use.
\<close>

record builder =
  b_writer :: writer
  b_registers :: registers
  b_params :: "bytecode_type list option"
  b_return_type :: "bytecode_type option option"

type_synonym bstep = "builder \<Rightarrow> builder result"

definition builder_new :: builder where
  "builder_new = \<lparr>b_writer = writer_new, b_registers = registers_new, b_params = None,
     b_return_type = None\<rparr>"

definition b_write :: "wstep \<Rightarrow> bstep" where
  "b_write f b = rbind (f (b_writer b)) (\<lambda>w. Inr (b\<lparr>b_writer := w\<rparr>))"

definition b_used :: "builder \<Rightarrow> register \<Rightarrow> bool" where
  "b_used b reg = (reg \<in> regs_used (b_registers b))"

definition b_def :: "builder \<Rightarrow> register \<Rightarrow> bool" where
  "b_def b reg = (reg \<in> regs_used (b_registers b))"

definition b_set_position :: "position \<Rightarrow> builder \<Rightarrow> builder" where
  "b_set_position pos b = b\<lparr>b_writer := set_position pos (b_writer b)\<rparr>"

subsection \<open>Labels, arguments and constants\<close>

definition b_create_label :: "builder \<Rightarrow> label \<times> builder" where
  "b_create_label b = (let (l, w) = create_label (b_writer b) in (l, b\<lparr>b_writer := w\<rparr>))"

definition b_define_label :: "builder \<Rightarrow> label \<times> builder" where
  "b_define_label b = (let (l, w) = define_label (b_writer b) in (l, b\<lparr>b_writer := w\<rparr>))"

definition b_bind_label :: "label \<Rightarrow> bstep" where
  "b_bind_label lbl b = b_write (bind_label lbl) b"

definition b_set_arguments :: "u32 \<Rightarrow> builder \<Rightarrow> builder" where
  "b_set_arguments arguments b = b\<lparr>b_writer := set_arguments arguments (b_writer b)\<rparr>"

definition b_set_params :: "bytecode_type list \<Rightarrow> builder \<Rightarrow> builder" where
  "b_set_params params b =
     (let b = b\<lparr>b_writer := set_arguments (as_u32 (length params)) (b_writer b)\<rparr> in
      b\<lparr>b_writer := set_params params (b_writer b)\<rparr>)"

definition b_set_return_type :: "bytecode_type option \<Rightarrow> builder \<Rightarrow> builder" where
  "b_set_return_type return_type b = b\<lparr>b_writer := set_return_type return_type (b_writer b)\<rparr>"

definition b_add_const :: "const_pool_entry \<Rightarrow> builder \<Rightarrow> const_pool_idx \<times> builder" where
  "b_add_const entry b = (let (i, w) = add_const entry (b_writer b) in (i, b\<lparr>b_writer := w\<rparr>))"

definition b_add_const_lambda ::
  "source_type_array \<Rightarrow> source_type \<Rightarrow> builder \<Rightarrow> const_pool_idx \<times> builder" where
  "b_add_const_lambda params return_type b = b_add_const (CpLambda params return_type) b"

definition b_add_const_fct ::
  "fct_definition_id \<Rightarrow> builder \<Rightarrow> const_pool_idx \<times> builder" where
  "b_add_const_fct i b = b_add_const (CpFct i ArrEmpty) b"

definition b_add_const_enum ::
  "enum_definition_id \<Rightarrow> source_type_array \<Rightarrow> builder \<Rightarrow> const_pool_idx \<times> builder" where
  "b_add_const_enum i tps b = b_add_const (CpEnum i tps) b"

definition b_add_const_enum_variant ::
  "enum_definition_id \<Rightarrow> source_type_array \<Rightarrow> usize \<Rightarrow> builder \<Rightarrow> const_pool_idx \<times> builder" where
  "b_add_const_enum_variant i tps variant_idx b = b_add_const (CpEnumVariant i tps variant_idx) b"

definition b_add_const_enum_element ::
  "enum_definition_id \<Rightarrow> source_type_array \<Rightarrow> usize \<Rightarrow> usize \<Rightarrow> builder \<Rightarrow> const_pool_idx \<times> builder" where
  "b_add_const_enum_element i tps variant_idx element_idx b =
     b_add_const (CpEnumElement i tps variant_idx element_idx) b"

definition b_add_const_struct ::
  "struct_definition_id \<Rightarrow> source_type_array \<Rightarrow> builder \<Rightarrow> const_pool_idx \<times> builder" where
  "b_add_const_struct i tps b = b_add_const (CpStruct i tps) b"

definition b_add_const_struct_field ::
  "struct_definition_id \<Rightarrow> source_type_array \<Rightarrow> usize \<Rightarrow> builder \<Rightarrow> const_pool_idx \<times> builder" where
  "b_add_const_struct_field i tps field_idx b = b_add_const (CpStructField i tps field_idx) b"

definition b_add_const_fct_types ::
  "fct_definition_id \<Rightarrow> source_type_array \<Rightarrow> builder \<Rightarrow> const_pool_idx \<times> builder" where
  "b_add_const_fct_types i tps b = b_add_const (CpFct i tps) b"

definition b_add_const_generic ::
  "type_param_id \<Rightarrow> fct_definition_id \<Rightarrow> source_type_array \<Rightarrow> builder \<Rightarrow> const_pool_idx \<times> builder" where
  "b_add_const_generic i fct_id tps b = b_add_const (CpGeneric i fct_id tps) b"

definition b_add_const_field_types ::
  "class_definition_id \<Rightarrow> source_type_array \<Rightarrow> field_id \<Rightarrow> builder \<Rightarrow> const_pool_idx \<times> builder" where
  "b_add_const_field_types cls_id tps field_id b = b_add_const (CpField cls_id tps field_id) b"

definition b_add_const_field_fixed ::
  "class_instance_id \<Rightarrow> field_id \<Rightarrow> builder \<Rightarrow> const_pool_idx \<times> builder" where
  "b_add_const_field_fixed cls_def_id field_id b = b_add_const (CpFieldFixed cls_def_id field_id) b"

definition b_add_const_cls ::
  "class_definition_id \<Rightarrow> builder \<Rightarrow> const_pool_idx \<times> builder" where
  "b_add_const_cls i b = b_add_const (CpClass i ArrEmpty) b"

definition b_add_const_cls_types ::
  "class_definition_id \<Rightarrow> source_type_array \<Rightarrow> builder \<Rightarrow> const_pool_idx \<times> builder" where
  "b_add_const_cls_types i tps b = b_add_const (CpClass i tps) b"

definition b_add_const_trait ::
  "trait_definition_id \<Rightarrow> source_type_array \<Rightarrow> source_type \<Rightarrow> builder \<Rightarrow> const_pool_idx \<times> builder" where
  "b_add_const_trait i tps object_ty b = b_add_const (CpTrait i tps object_ty) b"

definition b_add_const_tuple_element ::
  "source_type \<Rightarrow> usize \<Rightarrow> builder \<Rightarrow> const_pool_idx \<times> builder" where
  "b_add_const_tuple_element tuple_ty subtype_idx b = b_add_const (CpTupleElement tuple_ty subtype_idx) b"

definition b_add_const_tuple ::
  "source_type_array \<Rightarrow> builder \<Rightarrow> const_pool_idx \<times> builder" where
  "b_add_const_tuple subtypes b = b_add_const (CpTuple subtypes) b"

subsection \<open>Instructions\<close>

definition b_emit_add :: "register \<Rightarrow> register \<Rightarrow> register \<Rightarrow> position \<Rightarrow> bstep" where
  "b_emit_add dest lhs rhs pos b =
     rbind (rassert (b_def b dest \<and> b_used b lhs \<and> b_used b rhs)) (\<lambda>_.
     b_write (emit_add dest lhs rhs) (b_set_position pos b))"

definition b_emit_and :: "register \<Rightarrow> register \<Rightarrow> register \<Rightarrow> bstep" where
  "b_emit_and dest lhs rhs b =
     rbind (rassert (b_def b dest \<and> b_used b lhs \<and> b_used b rhs)) (\<lambda>_.
     b_write (emit_and dest lhs rhs) b)"

definition b_emit_or :: "register \<Rightarrow> register \<Rightarrow> register \<Rightarrow> bstep" where
  "b_emit_or dest lhs rhs b =
     rbind (rassert (b_def b dest \<and> b_used b lhs \<and> b_used b rhs)) (\<lambda>_.
     b_write (emit_or dest lhs rhs) b)"

definition b_emit_xor :: "register \<Rightarrow> register \<Rightarrow> register \<Rightarrow> bstep" where
  "b_emit_xor dest lhs rhs b =
     rbind (rassert (b_def b dest \<and> b_used b lhs \<and> b_used b rhs)) (\<lambda>_.
     b_write (emit_xor dest lhs rhs) b)"

definition b_emit_div :: "register \<Rightarrow> register \<Rightarrow> register \<Rightarrow> position \<Rightarrow> bstep" where
  "b_emit_div dest lhs rhs pos b =
     rbind (rassert (b_def b dest \<and> b_used b lhs \<and> b_used b rhs)) (\<lambda>_.
     b_write (emit_div dest lhs rhs) (b_set_position pos b))"

definition b_emit_load_struct_field :: "register \<Rightarrow> register \<Rightarrow> const_pool_idx \<Rightarrow> bstep" where
  "b_emit_load_struct_field dest obj field_idx b =
     rbind (rassert (b_def b dest \<and> b_used b obj)) (\<lambda>_.
     b_write (emit_load_struct_field dest obj field_idx) b)"

definition b_emit_load_field :: "register \<Rightarrow> register \<Rightarrow> const_pool_idx \<Rightarrow> position \<Rightarrow> bstep" where
  "b_emit_load_field dest obj field_idx pos b =
     rbind (rassert (b_def b dest \<and> b_used b obj)) (\<lambda>_.
     b_write (emit_load_field dest obj field_idx) (b_set_position pos b))"

definition b_emit_store_field :: "register \<Rightarrow> register \<Rightarrow> const_pool_idx \<Rightarrow> position \<Rightarrow> bstep" where
  "b_emit_store_field src obj field_idx pos b =
     rbind (rassert (b_used b src \<and> b_used b obj)) (\<lambda>_.
     b_write (emit_store_field src obj field_idx) (b_set_position pos b))"

definition b_emit_const_char :: "register \<Rightarrow> u32 \<Rightarrow> bstep" where
  "b_emit_const_char dest value b =
     rbind (rassert (b_def b dest)) (\<lambda>_.
     b_write (emit_const_char dest value) b)"

definition b_emit_const_uint8 :: "register \<Rightarrow> u8 \<Rightarrow> bstep" where
  "b_emit_const_uint8 dest value b =
     rbind (rassert (b_def b dest)) (\<lambda>_.
     b_write (emit_const_uint8 dest value) b)"

definition b_emit_const_int32 :: "register \<Rightarrow> (32 word) \<Rightarrow> bstep" where
  "b_emit_const_int32 dest value b =
     rbind (rassert (b_def b dest)) (\<lambda>_.
     b_write (emit_const_int32 dest value) b)"

definition b_emit_const_int64 :: "register \<Rightarrow> (64 word) \<Rightarrow> bstep" where
  "b_emit_const_int64 dest value b =
     rbind (rassert (b_def b dest)) (\<lambda>_.
     b_write (emit_const_int64 dest value) b)"

definition b_emit_const_float32 :: "register \<Rightarrow> u32 \<Rightarrow> bstep" where
  "b_emit_const_float32 dest value b =
     rbind (rassert (b_def b dest)) (\<lambda>_.
     b_write (emit_const_float32 dest value) b)"

definition b_emit_const_float64 :: "register \<Rightarrow> u64 \<Rightarrow> bstep" where
  "b_emit_const_float64 dest value b =
     rbind (rassert (b_def b dest)) (\<lambda>_.
     b_write (emit_const_float64 dest value) b)"

definition b_emit_const_string :: "register \<Rightarrow> string \<Rightarrow> bstep" where
  "b_emit_const_string dest value b =
     rbind (rassert (b_def b dest)) (\<lambda>_.
     b_write (emit_const_string dest value) b)"

definition b_emit_const_true :: "register \<Rightarrow> bstep" where
  "b_emit_const_true dest b =
     rbind (rassert (b_def b dest)) (\<lambda>_.
     b_write (emit_const_true dest) b)"

definition b_emit_const_false :: "register \<Rightarrow> bstep" where
  "b_emit_const_false dest b =
     rbind (rassert (b_def b dest)) (\<lambda>_.
     b_write (emit_const_false dest) b)"

definition b_emit_not :: "register \<Rightarrow> register \<Rightarrow> bstep" where
  "b_emit_not dest src b =
     rbind (rassert (b_def b dest \<and> b_used b src)) (\<lambda>_.
     b_write (emit_not dest src) b)"

definition b_emit_jump_if_false :: "register \<Rightarrow> label \<Rightarrow> bstep" where
  "b_emit_jump_if_false opnd lbl b =
     rbind (rassert (b_used b opnd)) (\<lambda>_.
     b_write (emit_jump_if_false opnd lbl) b)"

definition b_emit_jump_if_true :: "register \<Rightarrow> label \<Rightarrow> bstep" where
  "b_emit_jump_if_true opnd lbl b =
     rbind (rassert (b_used b opnd)) (\<lambda>_.
     b_write (emit_jump_if_true opnd lbl) b)"

definition b_emit_jump_loop :: "label \<Rightarrow> bstep" where
  "b_emit_jump_loop lbl b =
     b_write (emit_jump_loop lbl) b"

definition b_emit_loop_start :: "bstep" where
  "b_emit_loop_start b =
     b_write emit_loop_start b"

definition b_emit_jump :: "label \<Rightarrow> bstep" where
  "b_emit_jump lbl b =
     b_write (emit_jump lbl) b"

definition b_emit_mod :: "register \<Rightarrow> register \<Rightarrow> register \<Rightarrow> position \<Rightarrow> bstep" where
  "b_emit_mod dest lhs rhs pos b =
     rbind (rassert (b_def b dest \<and> b_used b lhs \<and> b_used b rhs)) (\<lambda>_.
     b_write (emit_mod dest lhs rhs) (b_set_position pos b))"

definition b_emit_mul :: "register \<Rightarrow> register \<Rightarrow> register \<Rightarrow> position \<Rightarrow> bstep" where
  "b_emit_mul dest lhs rhs pos b =
     rbind (rassert (b_def b dest \<and> b_used b lhs \<and> b_used b rhs)) (\<lambda>_.
     b_write (emit_mul dest lhs rhs) (b_set_position pos b))"

definition b_emit_neg :: "register \<Rightarrow> register \<Rightarrow> bstep" where
  "b_emit_neg dest src b =
     rbind (rassert (b_def b dest \<and> b_used b src)) (\<lambda>_.
     b_write (emit_neg dest src) b)"

definition b_emit_shl :: "register \<Rightarrow> register \<Rightarrow> register \<Rightarrow> bstep" where
  "b_emit_shl dest lhs rhs b =
     rbind (rassert (b_def b dest \<and> b_used b lhs \<and> b_used b rhs)) (\<lambda>_.
     b_write (emit_shl dest lhs rhs) b)"

definition b_emit_shr :: "register \<Rightarrow> register \<Rightarrow> register \<Rightarrow> bstep" where
  "b_emit_shr dest lhs rhs b =
     rbind (rassert (b_def b dest \<and> b_used b lhs \<and> b_used b rhs)) (\<lambda>_.
     b_write (emit_shr dest lhs rhs) b)"

definition b_emit_sar :: "register \<Rightarrow> register \<Rightarrow> register \<Rightarrow> bstep" where
  "b_emit_sar dest lhs rhs b =
     rbind (rassert (b_def b dest \<and> b_used b lhs \<and> b_used b rhs)) (\<lambda>_.
     b_write (emit_sar dest lhs rhs) b)"

definition b_emit_sub :: "register \<Rightarrow> register \<Rightarrow> register \<Rightarrow> position \<Rightarrow> bstep" where
  "b_emit_sub dest lhs rhs pos b =
     rbind (rassert (b_def b dest \<and> b_used b lhs \<and> b_used b rhs)) (\<lambda>_.
     b_write (emit_sub dest lhs rhs) (b_set_position pos b))"

definition b_emit_mov :: "register \<Rightarrow> register \<Rightarrow> bstep" where
  "b_emit_mov dest src b =
     rbind (rassert (b_def b dest \<and> b_used b src)) (\<lambda>_.
     b_write (emit_mov dest src) b)"

definition b_emit_load_tuple_element :: "register \<Rightarrow> register \<Rightarrow> const_pool_idx \<Rightarrow> bstep" where
  "b_emit_load_tuple_element dest src idx b =
     rbind (rassert (b_def b dest \<and> b_used b src)) (\<lambda>_.
     b_write (emit_load_tuple_element dest src idx) b)"

definition b_emit_load_enum_element :: "register \<Rightarrow> register \<Rightarrow> const_pool_idx \<Rightarrow> position \<Rightarrow> bstep" where
  "b_emit_load_enum_element dest src idx pos b =
     rbind (rassert (b_def b dest \<and> b_used b src)) (\<lambda>_.
     b_write (emit_load_enum_element dest src idx) (b_set_position pos b))"

definition b_emit_load_enum_variant :: "register \<Rightarrow> register \<Rightarrow> const_pool_idx \<Rightarrow> position \<Rightarrow> bstep" where
  "b_emit_load_enum_variant dest src idx pos b =
     rbind (rassert (b_def b dest \<and> b_used b src)) (\<lambda>_.
     b_write (emit_load_enum_variant dest src idx) (b_set_position pos b))"

definition b_emit_ret :: "register \<Rightarrow> bstep" where
  "b_emit_ret src b =
     rbind (rassert (b_used b src)) (\<lambda>_.
     b_write (emit_ret src) b)"

definition b_emit_test_identity :: "register \<Rightarrow> register \<Rightarrow> register \<Rightarrow> bstep" where
  "b_emit_test_identity dest lhs rhs b =
     rbind (rassert (b_def b dest \<and> b_used b lhs \<and> b_used b rhs)) (\<lambda>_.
     b_write (emit_test_identity dest lhs rhs) b)"

definition b_emit_test_eq :: "register \<Rightarrow> register \<Rightarrow> register \<Rightarrow> bstep" where
  "b_emit_test_eq dest lhs rhs b =
     rbind (rassert (b_def b dest \<and> b_used b lhs \<and> b_used b rhs)) (\<lambda>_.
     b_write (emit_test_eq dest lhs rhs) b)"

definition b_emit_test_ne :: "register \<Rightarrow> register \<Rightarrow> register \<Rightarrow> bstep" where
  "b_emit_test_ne dest lhs rhs b =
     rbind (rassert (b_def b dest \<and> b_used b lhs \<and> b_used b rhs)) (\<lambda>_.
     b_write (emit_test_ne dest lhs rhs) b)"

definition b_emit_test_gt :: "register \<Rightarrow> register \<Rightarrow> register \<Rightarrow> bstep" where
  "b_emit_test_gt dest lhs rhs b =
     rbind (rassert (b_def b dest \<and> b_used b lhs \<and> b_used b rhs)) (\<lambda>_.
     b_write (emit_test_gt dest lhs rhs) b)"

definition b_emit_test_ge :: "register \<Rightarrow> register \<Rightarrow> register \<Rightarrow> bstep" where
  "b_emit_test_ge dest lhs rhs b =
     rbind (rassert (b_def b dest \<and> b_used b lhs \<and> b_used b rhs)) (\<lambda>_.
     b_write (emit_test_ge dest lhs rhs) b)"

definition b_emit_test_lt :: "register \<Rightarrow> register \<Rightarrow> register \<Rightarrow> bstep" where
  "b_emit_test_lt dest lhs rhs b =
     rbind (rassert (b_def b dest \<and> b_used b lhs \<and> b_used b rhs)) (\<lambda>_.
     b_write (emit_test_lt dest lhs rhs) b)"

definition b_emit_test_le :: "register \<Rightarrow> register \<Rightarrow> register \<Rightarrow> bstep" where
  "b_emit_test_le dest lhs rhs b =
     rbind (rassert (b_def b dest \<and> b_used b lhs \<and> b_used b rhs)) (\<lambda>_.
     b_write (emit_test_le dest lhs rhs) b)"

definition b_emit_load_global :: "register \<Rightarrow> global_definition_id \<Rightarrow> bstep" where
  "b_emit_load_global dest gid b =
     rbind (rassert (b_def b dest)) (\<lambda>_.
     b_write (emit_load_global dest gid) b)"

definition b_emit_store_global :: "register \<Rightarrow> global_definition_id \<Rightarrow> bstep" where
  "b_emit_store_global src gid b =
     rbind (rassert (b_used b src)) (\<lambda>_.
     b_write (emit_store_global src gid) b)"

definition b_emit_push_register :: "register \<Rightarrow> bstep" where
  "b_emit_push_register src b =
     rbind (rassert (b_used b src)) (\<lambda>_.
     b_write (emit_push_register src) b)"

definition b_emit_invoke_direct :: "register \<Rightarrow> const_pool_idx \<Rightarrow> position \<Rightarrow> bstep" where
  "b_emit_invoke_direct dest fid pos b =
     rbind (rassert (b_def b dest)) (\<lambda>_.
     b_write (emit_invoke_direct dest fid) (b_set_position pos b))"

definition b_emit_invoke_virtual :: "register \<Rightarrow> const_pool_idx \<Rightarrow> position \<Rightarrow> bstep" where
  "b_emit_invoke_virtual dest idx pos b =
     rbind (rassert (b_def b dest)) (\<lambda>_.
     b_write (emit_invoke_virtual dest idx) (b_set_position pos b))"

definition b_emit_invoke_static :: "register \<Rightarrow> const_pool_idx \<Rightarrow> position \<Rightarrow> bstep" where
  "b_emit_invoke_static dest idx pos b =
     rbind (rassert (b_def b dest)) (\<lambda>_.
     b_write (emit_invoke_static dest idx) (b_set_position pos b))"

definition b_emit_invoke_lambda :: "register \<Rightarrow> const_pool_idx \<Rightarrow> position \<Rightarrow> bstep" where
  "b_emit_invoke_lambda dest idx pos b =
     rbind (rassert (b_def b dest)) (\<lambda>_.
     b_write (emit_invoke_lambda dest idx) (b_set_position pos b))"

definition b_emit_invoke_generic_static :: "register \<Rightarrow> const_pool_idx \<Rightarrow> position \<Rightarrow> bstep" where
  "b_emit_invoke_generic_static dest idx pos b =
     rbind (rassert (b_def b dest)) (\<lambda>_.
     b_write (emit_invoke_generic_static dest idx) (b_set_position pos b))"

definition b_emit_invoke_generic_direct :: "register \<Rightarrow> const_pool_idx \<Rightarrow> position \<Rightarrow> bstep" where
  "b_emit_invoke_generic_direct dest idx pos b =
     rbind (rassert (b_def b dest)) (\<lambda>_.
     b_write (emit_invoke_generic_direct dest idx) (b_set_position pos b))"

definition b_emit_new_object :: "register \<Rightarrow> const_pool_idx \<Rightarrow> position \<Rightarrow> bstep" where
  "b_emit_new_object dest idx pos b =
     rbind (rassert (b_def b dest)) (\<lambda>_.
     b_write (emit_new_object dest idx) (b_set_position pos b))"

definition b_emit_new_object_initialized :: "register \<Rightarrow> const_pool_idx \<Rightarrow> position \<Rightarrow> bstep" where
  "b_emit_new_object_initialized dest idx pos b =
     rbind (rassert (b_def b dest)) (\<lambda>_.
     b_write (emit_new_object_initialized dest idx) (b_set_position pos b))"

definition b_emit_new_array :: "register \<Rightarrow> const_pool_idx \<Rightarrow> register \<Rightarrow> position \<Rightarrow> bstep" where
  "b_emit_new_array dest cls_idx len pos b =
     rbind (rassert (b_def b dest)) (\<lambda>_.
     b_write (emit_new_array dest cls_idx len) (b_set_position pos b))"

definition b_emit_new_tuple :: "register \<Rightarrow> const_pool_idx \<Rightarrow> position \<Rightarrow> bstep" where
  "b_emit_new_tuple dest idx pos b =
     rbind (rassert (b_def b dest)) (\<lambda>_.
     b_write (emit_new_tuple dest idx) (b_set_position pos b))"

definition b_emit_new_enum :: "register \<Rightarrow> const_pool_idx \<Rightarrow> position \<Rightarrow> bstep" where
  "b_emit_new_enum dest idx pos b =
     rbind (rassert (b_def b dest)) (\<lambda>_.
     b_write (emit_new_enum dest idx) (b_set_position pos b))"

definition b_emit_new_struct :: "register \<Rightarrow> const_pool_idx \<Rightarrow> position \<Rightarrow> bstep" where
  "b_emit_new_struct dest idx pos b =
     rbind (rassert (b_def b dest)) (\<lambda>_.
     b_write (emit_new_struct dest idx) (b_set_position pos b))"

definition b_emit_new_trait_object :: "register \<Rightarrow> const_pool_idx \<Rightarrow> register \<Rightarrow> position \<Rightarrow> bstep" where
  "b_emit_new_trait_object dest idx src pos b =
     rbind (rassert (b_def b dest \<and> b_used b src)) (\<lambda>_.
     b_write (emit_new_trait_object dest idx src) (b_set_position pos b))"

definition b_emit_new_lambda :: "register \<Rightarrow> const_pool_idx \<Rightarrow> position \<Rightarrow> bstep" where
  "b_emit_new_lambda dest idx pos b =
     rbind (rassert (b_def b dest)) (\<lambda>_.
     b_write (emit_new_lambda dest idx) (b_set_position pos b))"

definition b_emit_array_length :: "register \<Rightarrow> register \<Rightarrow> position \<Rightarrow> bstep" where
  "b_emit_array_length dest arr pos b =
     rbind (rassert (b_def b dest \<and> b_used b arr)) (\<lambda>_.
     b_write (emit_array_length dest arr) (b_set_position pos b))"

definition b_emit_store_array :: "register \<Rightarrow> register \<Rightarrow> register \<Rightarrow> position \<Rightarrow> bstep" where
  "b_emit_store_array src arr idx pos b =
     rbind (rassert (b_used b src \<and> b_used b arr \<and> b_used b idx)) (\<lambda>_.
     b_write (emit_store_array src arr idx) (b_set_position pos b))"

definition b_emit_load_array :: "register \<Rightarrow> register \<Rightarrow> register \<Rightarrow> position \<Rightarrow> bstep" where
  "b_emit_load_array dest arr idx pos b =
     rbind (rassert (b_def b dest \<and> b_used b arr \<and> b_used b idx)) (\<lambda>_.
     b_write (emit_load_array dest arr idx) (b_set_position pos b))"

subsection \<open>Registers and generation\<close>

definition b_push_scope :: "builder \<Rightarrow> builder" where
  "b_push_scope b = b\<lparr>b_registers := regs_push_scope (b_registers b)\<rparr>"

definition b_pop_scope :: "(register set \<Rightarrow> register list) \<Rightarrow> bstep" where
  "b_pop_scope iter b =
     rbind (regs_pop_scope iter (b_registers b)) (\<lambda>r. Inr (b\<lparr>b_registers := r\<rparr>))"

definition b_alloc_var :: "bytecode_type \<Rightarrow> builder \<Rightarrow> (register \<times> builder) result" where
  "b_alloc_var ty b =
     rbind (rassert (\<not> bt_is_class ty)) (\<lambda>_.
     rbind (regs_alloc_var ty (b_registers b)) (\<lambda>(reg, r). Inr (reg, b\<lparr>b_registers := r\<rparr>)))"

definition b_alloc_temp :: "bytecode_type \<Rightarrow> builder \<Rightarrow> (register \<times> builder) result" where
  "b_alloc_temp ty b =
     rbind (rassert (\<not> bt_is_class ty)) (\<lambda>_.
     rbind (regs_alloc_temp ty (b_registers b)) (\<lambda>(reg, r). Inr (reg, b\<lparr>b_registers := r\<rparr>)))"

definition b_alloc_global :: "bytecode_type \<Rightarrow> builder \<Rightarrow> (register \<times> builder) result" where
  "b_alloc_global ty b =
     rbind (rassert (\<not> bt_is_class ty)) (\<lambda>_.
     rbind (regs_alloc_global ty (b_registers b)) (\<lambda>(reg, r). Inr (reg, b\<lparr>b_registers := r\<rparr>)))"

definition b_free_if_temp :: "register \<Rightarrow> bstep" where
  "b_free_if_temp reg b =
     rbind (regs_free_if_temp reg (b_registers b)) (\<lambda>(_, r). Inr (b\<lparr>b_registers := r\<rparr>))"

definition b_free_temp :: "register \<Rightarrow> bstep" where
  "b_free_temp reg b =
     rbind (regs_free_temp reg (b_registers b)) (\<lambda>r. Inr (b\<lparr>b_registers := r\<rparr>))"

definition b_generate :: "builder \<Rightarrow> bytecode_function result" where
  "b_generate b =
     (let in_use = regs_in_use (b_registers b) in
      rbind (generate_with_registers (regs_all (b_registers b)) (b_writer b)) (\<lambda>bc.
      if in_use then Inl ExplicitPanic else Inr bc))"

subsection \<open>Calls on the builder\<close>

definition b_call :: "instruction \<Rightarrow> position \<Rightarrow> bstep" where
  "b_call inst pos b =
     (case inst of
        InstAdd dest lhs rhs \<Rightarrow> b_emit_add dest lhs rhs pos b
      | InstSub dest lhs rhs \<Rightarrow> b_emit_sub dest lhs rhs pos b
      | InstNeg dest src \<Rightarrow> b_emit_neg dest src b
      | InstMul dest lhs rhs \<Rightarrow> b_emit_mul dest lhs rhs pos b
      | InstDiv dest lhs rhs \<Rightarrow> b_emit_div dest lhs rhs pos b
      | InstMod dest lhs rhs \<Rightarrow> b_emit_mod dest lhs rhs pos b
      | InstAnd dest lhs rhs \<Rightarrow> b_emit_and dest lhs rhs b
      | InstOr dest lhs rhs \<Rightarrow> b_emit_or dest lhs rhs b
      | InstXor dest lhs rhs \<Rightarrow> b_emit_xor dest lhs rhs b
      | InstNot dest src \<Rightarrow> b_emit_not dest src b
      | InstShl dest lhs rhs \<Rightarrow> b_emit_shl dest lhs rhs b
      | InstShr dest lhs rhs \<Rightarrow> b_emit_shr dest lhs rhs b
      | InstSar dest lhs rhs \<Rightarrow> b_emit_sar dest lhs rhs b
      | InstMov dest src \<Rightarrow> b_emit_mov dest src b
      | InstLoadTupleElement dest src idx \<Rightarrow> b_emit_load_tuple_element dest src idx b
      | InstLoadEnumElement dest src idx \<Rightarrow> b_emit_load_enum_element dest src idx pos b
      | InstLoadEnumVariant dest src idx \<Rightarrow> b_emit_load_enum_variant dest src idx pos b
      | InstLoadStructField dest obj fld \<Rightarrow> b_emit_load_struct_field dest obj fld b
      | InstLoadField dest obj fld \<Rightarrow> b_emit_load_field dest obj fld pos b
      | InstStoreField src obj fld \<Rightarrow> b_emit_store_field src obj fld pos b
      | InstLoadGlobal dest global_id \<Rightarrow> b_emit_load_global dest global_id b
      | InstStoreGlobal src global_id \<Rightarrow> b_emit_store_global src global_id b
      | InstPushRegister src \<Rightarrow> b_emit_push_register src b
      | InstConstTrue dest \<Rightarrow> b_emit_const_true dest b
      | InstConstFalse dest \<Rightarrow> b_emit_const_false dest b
      | InstConstUInt8 dest value \<Rightarrow> b_emit_const_uint8 dest value b
      | InstTestIdentity dest lhs rhs \<Rightarrow> b_emit_test_identity dest lhs rhs b
      | InstTestEq dest lhs rhs \<Rightarrow> b_emit_test_eq dest lhs rhs b
      | InstTestNe dest lhs rhs \<Rightarrow> b_emit_test_ne dest lhs rhs b
      | InstTestGt dest lhs rhs \<Rightarrow> b_emit_test_gt dest lhs rhs b
      | InstTestGe dest lhs rhs \<Rightarrow> b_emit_test_ge dest lhs rhs b
      | InstTestLt dest lhs rhs \<Rightarrow> b_emit_test_lt dest lhs rhs b
      | InstTestLe dest lhs rhs \<Rightarrow> b_emit_test_le dest lhs rhs b
      | InstLoopStart \<Rightarrow> b_emit_loop_start b
      | InstInvokeDirect dest fct \<Rightarrow> b_emit_invoke_direct dest fct pos b
      | InstInvokeVirtual dest fct \<Rightarrow> b_emit_invoke_virtual dest fct pos b
      | InstInvokeStatic dest fct \<Rightarrow> b_emit_invoke_static dest fct pos b
      | InstInvokeLambda dest idx \<Rightarrow> b_emit_invoke_lambda dest idx pos b
      | InstInvokeGenericStatic dest fct \<Rightarrow> b_emit_invoke_generic_static dest fct pos b
      | InstInvokeGenericDirect dest fct \<Rightarrow> b_emit_invoke_generic_direct dest fct pos b
      | InstNewObject dest cls \<Rightarrow> b_emit_new_object dest cls pos b
      | InstNewObjectInitialized dest cls \<Rightarrow> b_emit_new_object_initialized dest cls pos b
      | InstNewArray dest cls len \<Rightarrow> b_emit_new_array dest cls len pos b
      | InstNewTuple dest idx \<Rightarrow> b_emit_new_tuple dest idx pos b
      | InstNewEnum dest idx \<Rightarrow> b_emit_new_enum dest idx pos b
      | InstNewStruct dest idx \<Rightarrow> b_emit_new_struct dest idx pos b
      | InstNewTraitObject dest idx src \<Rightarrow> b_emit_new_trait_object dest idx src pos b
      | InstNewLambda dest idx \<Rightarrow> b_emit_new_lambda dest idx pos b
      | InstArrayLength dest arr \<Rightarrow> b_emit_array_length dest arr pos b
      | InstLoadArray dest arr idx \<Rightarrow> b_emit_load_array dest arr idx pos b
      | InstStoreArray src arr idx \<Rightarrow> b_emit_store_array src arr idx pos b
      | InstRet opnd \<Rightarrow> b_emit_ret opnd b
      | _ \<Rightarrow> Inl Unreachable)"

fun b_forward :: "fwd \<Rightarrow> label \<Rightarrow> bstep" where
  "b_forward FJump lbl b = b_emit_jump lbl b"
| "b_forward (FIfFalse opnd) lbl b = b_emit_jump_if_false opnd lbl b"
| "b_forward (FIfTrue opnd) lbl b = b_emit_jump_if_true opnd lbl b"

fun b_const :: "register \<Rightarrow> const_pool_entry \<Rightarrow> bstep" where
  "b_const dest (CpChar v) b = b_emit_const_char dest v b"
| "b_const dest (CpInt32 v) b = b_emit_const_int32 dest v b"
| "b_const dest (CpInt64 v) b = b_emit_const_int64 dest v b"
| "b_const dest (CpFloat32 v) b = b_emit_const_float32 dest v b"
| "b_const dest (CpFloat64 v) b = b_emit_const_float64 dest v b"
| "b_const dest (CpString v) b = b_emit_const_string dest v b"
| "b_const dest _ b = Inl Unreachable"

datatype bcmd =
    BInst instruction position
  | BConst register const_pool_entry
  | BAddConst const_pool_entry
  | BCreateLabel
  | BDefineLabel
  | BBindLabel label
  | BForward fwd label
  | BLoop label
  | BSetArguments u32
  | BSetParams "bytecode_type list"
  | BSetReturnType "bytecode_type option"
  | BPushScope
  | BPopScope
  | BAllocVar bytecode_type
  | BAllocTemp bytecode_type
  | BAllocGlobal bytecode_type
  | BFreeTemp register
  | BFreeIfTemp register

definition b_snd :: "('a \<times> builder) result \<Rightarrow> builder result" where
  "b_snd m = rbind m (\<lambda>(_, b). Inr b)"

fun run_bcmd :: "(register set \<Rightarrow> register list) \<Rightarrow> bcmd \<Rightarrow> bstep" where
  "run_bcmd iter (BInst i pos) b = b_call i pos b"
| "run_bcmd iter (BConst dest e) b = b_const dest e b"
| "run_bcmd iter (BAddConst e) b = Inr (snd (b_add_const e b))"
| "run_bcmd iter BCreateLabel b = Inr (snd (b_create_label b))"
| "run_bcmd iter BDefineLabel b = Inr (snd (b_define_label b))"
| "run_bcmd iter (BBindLabel l) b = b_bind_label l b"
| "run_bcmd iter (BForward k l) b = b_forward k l b"
| "run_bcmd iter (BLoop l) b = b_emit_jump_loop l b"
| "run_bcmd iter (BSetArguments n) b = Inr (b_set_arguments n b)"
| "run_bcmd iter (BSetParams ps) b = Inr (b_set_params ps b)"
| "run_bcmd iter (BSetReturnType t) b = Inr (b_set_return_type t b)"
| "run_bcmd iter BPushScope b = Inr (b_push_scope b)"
| "run_bcmd iter BPopScope b = b_pop_scope iter b"
| "run_bcmd iter (BAllocVar ty) b = b_snd (b_alloc_var ty b)"
| "run_bcmd iter (BAllocTemp ty) b = b_snd (b_alloc_temp ty b)"
| "run_bcmd iter (BAllocGlobal ty) b = b_snd (b_alloc_global ty b)"
| "run_bcmd iter (BFreeTemp reg) b = b_free_temp reg b"
| "run_bcmd iter (BFreeIfTemp reg) b = b_free_if_temp reg b"

subsection \<open>Specification: the registers of an instruction\<close>

primrec inst_regs :: "instruction \<Rightarrow> register list" where
  "inst_regs (InstAdd r0 r1 r2) = [r0, r1, r2]"
| "inst_regs (InstSub r0 r1 r2) = [r0, r1, r2]"
| "inst_regs (InstNeg r0 r1) = [r0, r1]"
| "inst_regs (InstMul r0 r1 r2) = [r0, r1, r2]"
| "inst_regs (InstDiv r0 r1 r2) = [r0, r1, r2]"
| "inst_regs (InstMod r0 r1 r2) = [r0, r1, r2]"
| "inst_regs (InstAnd r0 r1 r2) = [r0, r1, r2]"
| "inst_regs (InstOr r0 r1 r2) = [r0, r1, r2]"
| "inst_regs (InstXor r0 r1 r2) = [r0, r1, r2]"
| "inst_regs (InstNot r0 r1) = [r0, r1]"
| "inst_regs (InstShl r0 r1 r2) = [r0, r1, r2]"
| "inst_regs (InstShr r0 r1 r2) = [r0, r1, r2]"
| "inst_regs (InstSar r0 r1 r2) = [r0, r1, r2]"
| "inst_regs (InstMov r0 r1) = [r0, r1]"
| "inst_regs (InstLoadTupleElement r0 r1 x2) = [r0, r1]"
| "inst_regs (InstLoadEnumElement r0 r1 x2) = [r0, r1]"
| "inst_regs (InstLoadEnumVariant r0 r1 x2) = [r0, r1]"
| "inst_regs (InstLoadStructField r0 r1 x2) = [r0, r1]"
| "inst_regs (InstLoadField r0 r1 x2) = [r0, r1]"
| "inst_regs (InstStoreField r0 r1 x2) = [r0, r1]"
| "inst_regs (InstLoadGlobal r0 x1) = [r0]"
| "inst_regs (InstStoreGlobal r0 x1) = [r0]"
| "inst_regs (InstPushRegister r0) = [r0]"
| "inst_regs (InstConstTrue r0) = [r0]"
| "inst_regs (InstConstFalse r0) = [r0]"
| "inst_regs (InstConstUInt8 r0 x1) = [r0]"
| "inst_regs (InstConstChar r0 x1) = [r0]"
| "inst_regs (InstConstInt32 r0 x1) = [r0]"
| "inst_regs (InstConstInt64 r0 x1) = [r0]"
| "inst_regs (InstConstFloat32 r0 x1) = [r0]"
| "inst_regs (InstConstFloat64 r0 x1) = [r0]"
| "inst_regs (InstConstString r0 x1) = [r0]"
| "inst_regs (InstTestIdentity r0 r1 r2) = [r0, r1, r2]"
| "inst_regs (InstTestEq r0 r1 r2) = [r0, r1, r2]"
| "inst_regs (InstTestNe r0 r1 r2) = [r0, r1, r2]"
| "inst_regs (InstTestGt r0 r1 r2) = [r0, r1, r2]"
| "inst_regs (InstTestGe r0 r1 r2) = [r0, r1, r2]"
| "inst_regs (InstTestLt r0 r1 r2) = [r0, r1, r2]"
| "inst_regs (InstTestLe r0 r1 r2) = [r0, r1, r2]"
| "inst_regs (InstJumpLoop x0) = []"
| "inst_regs InstLoopStart = []"
| "inst_regs (InstJump x0) = []"
| "inst_regs (InstJumpConst x0) = []"
| "inst_regs (InstJumpIfFalse r0 x1) = [r0]"
| "inst_regs (InstJumpIfFalseConst r0 x1) = [r0]"
| "inst_regs (InstJumpIfTrue r0 x1) = [r0]"
| "inst_regs (InstJumpIfTrueConst r0 x1) = [r0]"
| "inst_regs (InstInvokeDirect r0 x1) = [r0]"
| "inst_regs (InstInvokeVirtual r0 x1) = [r0]"
| "inst_regs (InstInvokeStatic r0 x1) = [r0]"
| "inst_regs (InstInvokeLambda r0 x1) = [r0]"
| "inst_regs (InstInvokeGenericStatic r0 x1) = [r0]"
| "inst_regs (InstInvokeGenericDirect r0 x1) = [r0]"
| "inst_regs (InstNewObject r0 x1) = [r0]"
| "inst_regs (InstNewObjectInitialized r0 x1) = [r0]"
| "inst_regs (InstNewArray r0 x1 r1) = [r0, r1]"
| "inst_regs (InstNewTuple r0 x1) = [r0]"
| "inst_regs (InstNewEnum r0 x1) = [r0]"
| "inst_regs (InstNewStruct r0 x1) = [r0]"
| "inst_regs (InstNewTraitObject r0 x1 r1) = [r0, r1]"
| "inst_regs (InstNewLambda r0 x1) = [r0]"
| "inst_regs (InstArrayLength r0 r1) = [r0, r1]"
| "inst_regs (InstLoadArray r0 r1 r2) = [r0, r1, r2]"
| "inst_regs (InstStoreArray r0 r1 r2) = [r0, r1, r2]"
| "inst_regs (InstRet r0) = [r0]"

text \<open>The registers whose use the builder checks: \<open>emit_new_array\<close> does not look at the register
  holding the length.\<close>

definition checked_regs :: "instruction \<Rightarrow> register list" where
  "checked_regs i = (case i of InstNewArray dest cls len \<Rightarrow> [dest] | _ \<Rightarrow> inst_regs i)"

text \<open>The instructions \<open>b_call\<close> has a method for.\<close>

definition emittable :: "instruction \<Rightarrow> bool" where
  "emittable i =
     (case i of
        InstConstChar _ _ \<Rightarrow> False
      | InstConstInt32 _ _ \<Rightarrow> False
      | InstConstInt64 _ _ \<Rightarrow> False
      | InstConstFloat32 _ _ \<Rightarrow> False
      | InstConstFloat64 _ _ \<Rightarrow> False
      | InstConstString _ _ \<Rightarrow> False
      | InstJumpLoop _ \<Rightarrow> False
      | InstJump _ \<Rightarrow> False
      | InstJumpConst _ \<Rightarrow> False
      | InstJumpIfFalse _ _ \<Rightarrow> False
      | InstJumpIfFalseConst _ _ \<Rightarrow> False
      | InstJumpIfTrue _ _ \<Rightarrow> False
      | InstJumpIfTrueConst _ _ \<Rightarrow> False
      | _ \<Rightarrow> True)"

lemmas b_emit_defs =
  b_emit_add_def b_emit_and_def b_emit_or_def b_emit_xor_def b_emit_div_def
  b_emit_load_struct_field_def b_emit_load_field_def b_emit_store_field_def b_emit_const_char_def
  b_emit_const_uint8_def b_emit_const_int32_def b_emit_const_int64_def b_emit_const_float32_def
  b_emit_const_float64_def b_emit_const_string_def b_emit_const_true_def b_emit_const_false_def
  b_emit_not_def b_emit_jump_if_false_def b_emit_jump_if_true_def b_emit_jump_loop_def
  b_emit_loop_start_def b_emit_jump_def b_emit_mod_def b_emit_mul_def b_emit_neg_def
  b_emit_shl_def b_emit_shr_def b_emit_sar_def b_emit_sub_def b_emit_mov_def
  b_emit_load_tuple_element_def b_emit_load_enum_element_def b_emit_load_enum_variant_def
  b_emit_ret_def b_emit_test_identity_def b_emit_test_eq_def b_emit_test_ne_def
  b_emit_test_gt_def b_emit_test_ge_def b_emit_test_lt_def b_emit_test_le_def
  b_emit_load_global_def b_emit_store_global_def b_emit_push_register_def
  b_emit_invoke_direct_def b_emit_invoke_virtual_def b_emit_invoke_static_def
  b_emit_invoke_lambda_def b_emit_invoke_generic_static_def b_emit_invoke_generic_direct_def
  b_emit_new_object_def b_emit_new_object_initialized_def b_emit_new_array_def
  b_emit_new_tuple_def b_emit_new_enum_def b_emit_new_struct_def b_emit_new_trait_object_def
  b_emit_new_lambda_def b_emit_array_length_def b_emit_store_array_def b_emit_load_array_def

end
