(* ===== verification/BuilderTheorems.thy ===== *)
theory BuilderTheorems
  imports Builder BytecodeTheorems
begin

text \<open>
  The builder drives the writer as the writer expects it: each of its methods is the guarded
  writer call, with the position set exactly for the opcodes that need one, and the registers in
  the generated code are registers of the generated function.
\<close>

subsection \<open>Builder calls are guarded writer calls\<close>

fun b_cmds :: "bcmd \<Rightarrow> wcmd list" where
  "b_cmds (BInst i pos) = (if needs_position (inst_op i) then [CSetPosition pos, CInst i] else [CInst i])"
| "b_cmds (BConst dest e) = [CConst dest e]"
| "b_cmds (BAddConst e) = [CAddConst e]"
| "b_cmds BCreateLabel = [CCreateLabel]"
| "b_cmds BDefineLabel = [CDefineLabel]"
| "b_cmds (BBindLabel l) = [CBindLabel l]"
| "b_cmds (BForward k l) = [CForward k l]"
| "b_cmds (BLoop l) = [CLoop l]"
| "b_cmds (BSetArguments n) = [CSetArguments n]"
| "b_cmds (BSetParams ps) = [CSetArguments (as_u32 (length ps)), CSetParams ps]"
| "b_cmds (BSetReturnType t) = [CSetReturnType t]"
| "b_cmds _ = []"

lemma b_call_guarded:
  assumes "emittable i"
  shows "b_call i pos b =
    rbind (rassert (list_all (b_used b) (checked_regs i))) (\<lambda>_.
    b_write (run_cmds (b_cmds (BInst i pos))) b)"
  using assms
  by (cases i)
     (simp_all add: emittable_def b_call_def b_emit_defs checked_regs_def b_write_def b_used_def
       b_def_def b_set_position_def run_cmds_def call_emit_def needs_position_def result_simps)

lemma b_call_emittable: "b_call i pos b = Inr b' \<Longrightarrow> emittable i"
  by (cases i) (simp_all add: b_call_def emittable_def)

lemma call_emit_emittable:
  assumes "emittable i"
  shows "call_emit i w =
    rbind (position_step (inst_op i) w) (\<lambda>w. Inr (w\<lparr>w_code := w_code w @ item_enc (auto_item i)\<rparr>))"
  using assms
  by (cases i)
     (simp_all add: emittable_def call_emit_def emit_method_defs emit_values_eq item_enc_def
       auto_item_def encode_def enc_inst_def inst_values_def inst_imm_def emit_u8_def result_simps)

definition next_positions :: "position \<Rightarrow> writer \<Rightarrow> (u32 \<times> position) list" where
  "next_positions pos w =
     (if w_positions w \<noteq> [] \<and> snd (last (w_positions w)) = pos then w_positions w
      else w_positions w @ [(as_u32 (length (w_code w)), pos)])"

lemma run_inst_cmds:
  assumes "emittable i" and "w_position w = None"
  shows "run_cmds (b_cmds (BInst i pos)) w =
    Inr (w\<lparr>w_code := w_code w @ item_enc (auto_item i),
           w_positions := if needs_position (inst_op i) then next_positions pos w else w_positions w\<rparr>)"
  using assms
  by (auto simp: run_cmds_def call_emit_emittable position_step_def emit_position_def
      set_position_def next_positions_def Let_def)

definition demo_builder :: builder where
  "demo_builder = builder_new\<lparr>b_registers := \<lparr>regs_all = [BtInt32, BtInt32], regs_scopes = [{0}],
     regs_used = {0, 1}, regs_temps = {1}, regs_unused = Map.empty\<rparr>\<rparr>"

text \<open>
  A builder method succeeds exactly when its register operands are in use (all but the length
  operand of \<open>emit_new_array\<close>, which is not checked): it then appends one instruction and records
  the position exactly when the opcode needs one, so the writer's position assertions never
  fire behind the builder.
\<close>

theorem builder_emit_guarded:
  assumes "emittable i" and "w_position (b_writer b) = None"
  shows "b_call i pos b =
    (if list_all (b_used b) (checked_regs i)
     then Inr (b\<lparr>b_writer := (b_writer b)\<lparr>
            w_code := w_code (b_writer b) @ item_enc (auto_item i),
            w_positions := (if needs_position (inst_op i) then next_positions pos (b_writer b)
                            else w_positions (b_writer b))\<rparr>\<rparr>)
     else Inl AssertionFailed)"
  using run_inst_cmds [OF assms, of pos]
  by (simp add: b_call_guarded [OF assms(1)] b_write_def)

theorem builder_emit_guarded_witness:
  "is_ok (b_call (InstAdd 0 0 1) \<lparr>pos_line = 1, pos_column = 2\<rparr> demo_builder)
   \<and> b_call (InstAdd 0 0 2) \<lparr>pos_line = 1, pos_column = 2\<rparr> demo_builder = Inl AssertionFailed"
  using builder_emit_guarded [of "InstAdd 0 0 1" demo_builder "\<lparr>pos_line = 1, pos_column = 2\<rparr>"]
    builder_emit_guarded [of "InstAdd 0 0 2" demo_builder "\<lparr>pos_line = 1, pos_column = 2\<rparr>"]
  by (simp add: emittable_def demo_builder_def builder_new_def writer_new_def b_used_def
      checked_regs_def)

subsection \<open>Whole functions\<close>

definition run_bcmds :: "(register set \<Rightarrow> register list) \<Rightarrow> bcmd list \<Rightarrow> bstep" where
  "run_bcmds iter cs b = for_each (run_bcmd iter) cs b"

definition reg_cmd :: "bcmd \<Rightarrow> bool" where
  "reg_cmd c = (b_cmds c = [])"

lemma b_const_guarded:
  "b_const dest e b = Inr b' \<Longrightarrow>
     dest \<in> regs_used (b_registers b) \<and> b_write (emit_const dest e) b = Inr b'"
  by (cases e) (auto simp: b_emit_defs b_def_def rbind_eq_Inr_iff b_write_def)

lemma b_forward_guarded:
  "b_forward k l b = Inr b' \<Longrightarrow>
     set (fwd_conds k) \<subseteq> regs_used (b_registers b) \<and> b_write (emit_forward k l) b = Inr b'"
  by (cases k) (auto simp: b_emit_defs b_used_def rbind_eq_Inr_iff b_write_def)

text \<open>On the writer, a builder call is a sequence of writer calls; on the registers, an emitting
  call changes nothing.\<close>

lemma run_bcmd_writer:
  assumes "run_bcmd iter c b = Inr b'"
  shows "run_cmds (b_cmds c) (b_writer b) = Inr (b_writer b')
    \<and> (b_registers b' = b_registers b \<or> b_cmds c = [])"
proof (cases c)
  case (BInst i pos)
  with assms b_call_emittable have e: "emittable i" by auto
  from assms BInst show ?thesis
    by (auto simp: b_call_guarded [OF e] b_write_def rbind_eq_Inr_iff simp del: b_cmds.simps)
next
  case (BConst dest e)
  with assms show ?thesis
    by (auto simp: b_write_def rbind_eq_Inr_iff run_cmds_def dest!: b_const_guarded)
next
  case (BForward k l)
  with assms show ?thesis
    by (auto simp: b_write_def rbind_eq_Inr_iff run_cmds_def dest!: b_forward_guarded)
qed (use assms in \<open>auto simp: b_add_const_def b_create_label_def b_define_label_def b_bind_label_def
       b_set_arguments_def b_set_params_def b_set_return_type_def b_push_scope_def b_pop_scope_def
       b_alloc_var_def b_alloc_temp_def b_alloc_global_def b_free_temp_def b_free_if_temp_def b_snd_def
       b_emit_jump_loop_def b_write_def rbind_eq_Inr_iff run_cmds_def Let_def case_prod_unfold\<close>)

lemma checked_regs_const: "set (checked_regs (const_inst dest e idx)) \<subseteq> {dest}"
  by (cases e) (auto simp: checked_regs_def)

lemma checked_regs_fwd [simp]:
  "checked_regs (fwd_inst k d) = fwd_conds k" "checked_regs (fwd_inst_const k idx) = fwd_conds k"
  by (cases k; simp add: checked_regs_def)+

lemma run_bcmd_emitted_regs:
  assumes "run_bcmd iter c b = Inr b'" and "x \<in> set (emitted_all (b_cmds c) (b_writer b))"
  shows "set (checked_regs (snd (item_inst x))) \<subseteq> regs_used (b_registers b)"
proof (cases c)
  case (BInst i pos)
  with assms b_call_emittable have e: "emittable i" by auto
  from assms(1) BInst have "set (checked_regs i) \<subseteq> regs_used (b_registers b)"
    by (auto simp: b_call_guarded [OF e] rbind_eq_Inr_iff list_all_iff b_used_def)
  moreover have "x = auto_item i"
    using assms(2) BInst by (auto split: if_splits sum.splits)
  ultimately show ?thesis by (simp add: auto_item_def)
next
  case (BConst dest e)
  with assms checked_regs_const [of dest e] show ?thesis
    by (auto simp: auto_item_def split: sum.splits dest!: b_const_guarded)
next
  case (BForward k l)
  with assms show ?thesis
    by (auto split: sum.splits if_splits dest!: b_forward_guarded)
next
  case (BLoop l)
  with assms(2) show ?thesis by (auto simp: auto_item_def checked_regs_def split: sum.splits)
qed (use assms(2) in \<open>auto split: sum.splits\<close>)

text \<open>Register commands keep the allocator's invariant and never shrink the register file.\<close>

lemma run_bcmd_registers:
  assumes ok: "regs_ok (b_registers b)" and it: "hash_iter iter" and run: "run_bcmd iter c b = Inr b'"
  shows "regs_ok (b_registers b') \<and> length (regs_all (b_registers b)) \<le> length (regs_all (b_registers b'))"
proof -
  let ?r = "b_registers b"
  show ?thesis
  proof (cases c)
    case (BAllocTemp ty)
    with run obtain reg r' where "regs_alloc_temp ty ?r = Inr (reg, r')" "b_registers b' = r'"
      by (auto simp: b_snd_def b_alloc_temp_def rbind_eq_Inr_iff)
    with regs_alloc_temp_ok [OF ok, of ty] show ?thesis by (auto simp: allocates_def)
  next
    case (BAllocVar ty)
    with run obtain reg r' where a: "regs_alloc_var ty ?r = Inr (reg, r')" "b_registers b' = r'"
      by (auto simp: b_snd_def b_alloc_var_def rbind_eq_Inr_iff)
    then obtain ss s where "regs_scopes ?r = ss @ [s]"
      by (cases "regs_scopes ?r" rule: rev_cases)
         (auto simp: regs_alloc_var_def alloc_internal_def new_register_def Let_def split: option.splits if_splits)
    with a regs_alloc_var_ok [OF ok, of ss s ty] show ?thesis by (auto simp: allocates_def)
  next
    case (BAllocGlobal ty)
    with run obtain reg r' where a: "regs_alloc_global ty ?r = Inr (reg, r')" "b_registers b' = r'"
      by (auto simp: b_snd_def b_alloc_global_def rbind_eq_Inr_iff)
    then obtain ss s where "regs_scopes ?r = s # ss"
      by (cases "regs_scopes ?r")
         (auto simp: regs_alloc_global_def alloc_internal_def new_register_def Let_def split: option.splits if_splits)
    with a regs_alloc_global_ok [OF ok, of s ss ty] show ?thesis by (auto simp: allocates_def)
  next
    case (BFreeTemp reg)
    with run obtain r' where a: "regs_free_temp reg ?r = Inr r'" "b_registers b' = r'"
      by (auto simp: b_free_temp_def rbind_eq_Inr_iff)
    then have "reg \<in> regs_temps ?r" by (auto simp: regs_free_temp_def rbind_eq_Inr_iff)
    from regs_free_temp_ok [OF ok this] a show ?thesis by auto
  next
    case (BFreeIfTemp reg)
    show ?thesis
    proof (cases "reg \<in> regs_temps ?r")
      case True
      from regs_free_temp_ok [OF ok True] obtain r' where
        "regs_free_temp reg ?r = Inr r'" "regs_ok r'" "regs_all r' = regs_all ?r" by blast
      with run BFreeIfTemp True show ?thesis
        by (auto simp: b_free_if_temp_def regs_free_if_temp_def)
    next
      case False
      with run BFreeIfTemp ok show ?thesis
        by (auto simp: b_free_if_temp_def regs_free_if_temp_def)
    qed
  next
    case BPopScope
    with run obtain r' where a: "regs_pop_scope iter ?r = Inr r'" "b_registers b' = r'"
      by (auto simp: b_pop_scope_def rbind_eq_Inr_iff)
    then obtain ss s where "regs_scopes ?r = ss @ [s]"
      by (cases "regs_scopes ?r" rule: rev_cases) (auto simp: regs_pop_scope_def)
    with a regs_pop_scope_ok [OF ok _ it, of ss s] show ?thesis by auto
  next
    case BPushScope
    with run regs_push_scope_ok [OF ok] show ?thesis
      by (auto simp: b_push_scope_def regs_push_scope_def)
  qed (use run_bcmd_writer [OF run] ok in \<open>auto split: if_splits\<close>)
qed

definition builder_inv :: "item list \<Rightarrow> builder \<Rightarrow> bool" where
  "builder_inv xs b =
     (writes xs (b_writer b) \<and> regs_ok (b_registers b)
      \<and> list_all (\<lambda>x. list_all (\<lambda>r. r < length (regs_all (b_registers b))) (checked_regs (snd (item_inst x)))) xs)"

lemma run_bcmd_inv:
  assumes inv: "builder_inv xs b" and it: "hash_iter iter" and run: "run_bcmd iter c b = Inr b'"
  shows "builder_inv (xs @ emitted_all (b_cmds c) (b_writer b)) b'"
proof -
  from inv have ok: "regs_ok (b_registers b)" and w: "writes xs (b_writer b)" by (simp_all add: builder_inv_def)
  note regs = run_bcmd_registers [OF ok it run]
  have "\<forall>r \<in> regs_used (b_registers b). r < length (regs_all (b_registers b))"
    using ok regs_partition_bound [of "b_registers b"] by (auto simp: regs_ok_def)
  with run_bcmd_emitted_regs [OF run] have
    "list_all (\<lambda>x. list_all (\<lambda>r. r < length (regs_all (b_registers b'))) (checked_regs (snd (item_inst x))))
       (emitted_all (b_cmds c) (b_writer b))"
    using regs by (fastforce simp: list_all_iff)
  with inv regs run_cmds_writes_from [OF w] run_bcmd_writer [OF run] show ?thesis
    by (fastforce simp: builder_inv_def list_all_iff)
qed

lemma emitted_all_append:
  "run_cmds cs w = Inr w' \<Longrightarrow> emitted_all (cs @ ds) w = emitted_all cs w @ emitted_all ds w'"
  by (induction cs arbitrary: w) (auto simp: run_cmds_Cons)

lemma run_bcmds_cmds:
  assumes "builder_inv xs b" and "hash_iter iter" and "run_bcmds iter cs b = Inr b'"
  shows "run_cmds (concat (map b_cmds cs)) (b_writer b) = Inr (b_writer b')
    \<and> builder_inv (xs @ emitted_all (concat (map b_cmds cs)) (b_writer b)) b'"
  using assms
proof (induction cs arbitrary: xs b)
  case Nil
  then show ?case by (simp add: run_bcmds_def)
next
  case (Cons c cs)
  from Cons.prems(3) obtain b1 where c: "run_bcmd iter c b = Inr b1" and cs: "run_bcmds iter cs b1 = Inr b'"
    by (auto simp: run_bcmds_def rbind_eq_Inr_iff)
  note inv1 = run_bcmd_inv [OF Cons.prems(1,2) c]
  have run1: "run_cmds (b_cmds c) (b_writer b) = Inr (b_writer b1)" using run_bcmd_writer [OF c] by simp
  from Cons.IH [OF inv1 Cons.prems(2) cs] run1 show ?case
    by (auto simp: run_cmds_append emitted_all_append [OF run1])
qed

lemma builder_inv_new: "builder_inv [] builder_new"
  by (simp add: builder_inv_def builder_new_def writes.start regs_ok_new)

lemma b_generate_writer:
  assumes "b_generate b = Inr f"
  shows "\<exists>f0. generate (b_writer b) = Inr f0 \<and> f = f0\<lparr>fn_registers := regs_all (b_registers b)\<rparr>
    \<and> \<not> regs_in_use (b_registers b)"
  using assms
  by (auto simp: b_generate_def generate_with_registers_def generate_def rbind_eq_Inr_iff Let_def
      split: if_splits)

lemma realises_checked:
  "realises f ls (s, x) wi \<Longrightarrow> set (checked_regs (snd wi)) \<subseteq> set (checked_regs (snd (item_inst x)))"
proof -
  have "fwd_kind i = Some k \<Longrightarrow> checked_regs i = fwd_conds k" for i k
    by (cases i) (auto simp: fwd_kind_def checked_regs_def)
  then show "realises f ls (s, x) wi \<Longrightarrow> ?thesis" by (cases x) auto
qed

text \<open>
  C9. Functions from the builder are well formed: the generated code is a sequence of encodable
  instructions whose checked register operands all denote registers of the function, and
  no register is left in use.
\<close>

theorem built_function_well_formed:
  assumes "hash_iter iter" and "run_bcmds iter cs builder_new = Inr b" and "b_generate b = Inr f"
    and "length (w_code (b_writer b)) < 2 ^ 32" and "length (w_const_pool (b_writer b)) < 2 ^ 32"
    and "list_all wf_cmd (concat (map b_cmds cs))"
  shows "\<exists>is. fn_code f = concat (map encode is) \<and> list_all encodable is
    \<and> list_all (\<lambda>wi. list_all (\<lambda>r. r < length (fn_registers f)) (checked_regs (snd wi))) is
    \<and> \<not> regs_in_use (b_registers b)"
proof -
  let ?cs = "concat (map b_cmds cs)"
  from run_bcmds_cmds [OF builder_inv_new assms(1,2)]
  have run: "run_cmds ?cs writer_new = Inr (b_writer b)"
    and inv: "builder_inv (emitted_all ?cs writer_new) b"
    by (simp_all add: builder_new_def)
  from b_generate_writer [OF assms(3)] obtain f0 where gen: "generate (b_writer b) = Inr f0"
    and f: "f = f0\<lparr>fn_registers := regs_all (b_registers b)\<rparr>" and free: "\<not> regs_in_use (b_registers b)"
    by blast
  from run gen assms(4-6) obtain "is" where i: "fn_code f0 = concat (map encode is)" "list_all encodable is"
    "list_all2 (realises f0 (w_label_offsets (b_writer b))) (locate item_enc 0 (emitted_all ?cs writer_new)) is"
    by (rule assembled)
  have "list_all (\<lambda>r. r < length (fn_registers f)) (checked_regs (snd wi))" if mem: "wi \<in> set is" for wi
  proof -
    from mem obtain n where n: "n < length is" "wi = is ! n" by (metis in_set_conv_nth)
    obtain s x where sx: "locate item_enc 0 (emitted_all ?cs writer_new) ! n = (s, x)" by fastforce
    have "realises f0 (w_label_offsets (b_writer b)) (s, x) wi"
      using list_all2_nthD2 [OF i(3) n(1)] sx n(2) by simp
    note sub = realises_checked [OF this]
    have "x = emitted_all ?cs writer_new ! n"
      using sx n(1) list_all2_lengthD [OF i(3)] map_snd_locate [of item_enc 0 "emitted_all ?cs writer_new"]
      by (metis nth_map snd_conv)
    then have "x \<in> set (emitted_all ?cs writer_new)"
      using n(1) list_all2_lengthD [OF i(3)] by simp
    with inv sub f show ?thesis by (auto simp: builder_inv_def list_all_iff)
  qed
  with i f free show ?thesis by (intro exI [of _ "is"]) (simp add: list_all_iff)
qed

definition demo_bcmds :: "bcmd list" where
  "demo_bcmds =
     [BPushScope, BAllocVar BtInt32, BAllocTemp BtBool, BCreateLabel, BConst 0 (CpInt32 7),
      BForward (FIfFalse 1) 0, BInst (InstAdd 0 0 0) \<lparr>pos_line = 1, pos_column = 1\<rparr>, BBindLabel 0,
      BInst (InstRet 0) \<lparr>pos_line = 2, pos_column = 1\<rparr>, BFreeTemp 1, BPopScope]"

definition insert_order :: "register set \<Rightarrow> register list" where
  "insert_order S = sorted_list_of_set S"

theorem built_function_well_formed_witness:
  "\<exists>b f is. run_bcmds insert_order demo_bcmds builder_new = Inr b \<and> b_generate b = Inr f
    \<and> fn_code f = concat (map encode is) \<and> list_all encodable is
    \<and> list_all (\<lambda>wi. list_all (\<lambda>r. r < length (fn_registers f)) (checked_regs (snd wi))) is
    \<and> \<not> regs_in_use (b_registers b)"
proof -
  have it: "hash_iter insert_order" by (simp add: hash_iter_def insert_order_def)
  have "case run_bcmds insert_order demo_bcmds builder_new of Inl _ \<Rightarrow> False
      | Inr b \<Rightarrow> length (w_code (b_writer b)) \<le> 50 \<and> length (w_const_pool (b_writer b)) \<le> 50
          \<and> is_ok (b_generate b)"
    by code_simp
  then obtain b f where b: "run_bcmds insert_order demo_bcmds builder_new = Inr b" "b_generate b = Inr f"
    "length (w_code (b_writer b)) < 2 ^ 32" "length (w_const_pool (b_writer b)) < 2 ^ 32"
    by (fastforce simp: is_ok_iff split: sum.splits)
  have wf: "list_all wf_cmd (concat (map b_cmds demo_bcmds))"
    by (simp add: demo_bcmds_def wf_inst_def needs_position_def)
  from built_function_well_formed [OF it b wf] b(1,2) show ?thesis by fast
qed

subsection \<open>Registers\<close>

lemma regs_alloc_var_scope:
  assumes "regs_alloc_var ty r = Inr (reg, r')" and "regs_scopes r = ss @ [s]"
  shows "regs_scopes r' = ss @ [insert reg s]"
  using assms
  by (auto simp: regs_alloc_var_def alloc_internal_def new_register_def Let_def rbind_eq_Inr_iff
      split: option.splits if_splits)

lemma alloc_vars_scope:
  assumes "var_pool.alloc_all tys r = Inr (regs, r')" and "regs_scopes r = ss @ [s]"
  shows "regs_scopes r' = ss @ [s \<union> set regs]"
  using assms
proof (induction tys arbitrary: r regs s)
  case (Cons ty tys)
  then obtain reg r1 regs' where "regs_alloc_var ty r = Inr (reg, r1)"
    "var_pool.alloc_all tys r1 = Inr (regs', r')" "regs = reg # regs'"
    by (auto simp: rbind_eq_Inr_iff)
  with Cons.IH [of r1 regs' "insert reg s"] regs_alloc_var_scope [of ty r reg r1 ss s] Cons.prems(2)
  show ?case by simp
qed simp

text \<open>
  C33. Allocation in a scope: opening a scope, allocating any number of variables and closing the
  scope again never panics, whatever the order in which the hash set is iterated; the
  variables are distinct, were not in use, have the requested types while they live, and
  afterwards the registers in use are those from before, with their types.
\<close>

theorem scope_allocation_balanced:
  assumes "regs_ok r" and "hash_iter iter"
  shows "\<exists>regs r1 r2. var_pool.alloc_all tys (regs_push_scope r) = Inr (regs, r1)
    \<and> distinct regs \<and> set regs \<inter> regs_used r = {} \<and> map (reg_type r1) regs = tys
    \<and> regs_pop_scope iter r1 = Inr r2 \<and> regs_ok r2 \<and> regs_used r2 = regs_used r
    \<and> regs_scopes r2 = regs_scopes r
    \<and> (\<forall>q. q \<in> regs_used r \<longrightarrow> reg_type r2 q = reg_type r q)"
proof -
  let ?r = "regs_push_scope r"
  have ok: "regs_ok_scoped ?r"
    using regs_push_scope_ok [OF assms(1)] by (simp add: regs_ok_scoped_def regs_push_scope_def)
  from var_pool.alloc_all_distinct [OF ok, of tys] obtain regs r1 where
    a: "var_pool.alloc_all tys ?r = Inr (regs, r1)" "regs_ok_scoped r1" "distinct regs"
      "set regs \<inter> regs_used ?r = {}" "regs_used r1 = regs_used ?r \<union> set regs"
      "map (reg_type r1) regs = tys" "\<forall>q \<in> regs_used ?r. reg_type r1 q = reg_type ?r q"
    by blast
  have sc: "regs_scopes r1 = regs_scopes r @ [set regs]"
    using alloc_vars_scope [OF a(1), of "regs_scopes r" "{}"] by (simp add: regs_push_scope_def)
  have ok1: "regs_ok r1" using a(2) by (simp add: regs_ok_scoped_def)
  from regs_pop_scope_ok [OF ok1 sc assms(2)] obtain r2 where
    "regs_pop_scope iter r1 = Inr r2" "regs_ok r2" "regs_scopes r2 = regs_scopes r"
    "regs_used r2 = regs_used r1 - set regs" "regs_all r2 = regs_all r1"
    by blast
  with a show ?thesis
    by (intro exI [of _ regs] exI [of _ r1] exI [of _ r2])
       (auto simp: regs_push_scope_def reg_type_def)
qed

theorem scope_allocation_balanced_witness:
  "\<exists>regs r1 r2. var_pool.alloc_all [BtInt32, BtBool, BtInt32] (regs_push_scope registers_new) = Inr (regs, r1)
    \<and> distinct regs \<and> map (reg_type r1) regs = [BtInt32, BtBool, BtInt32]
    \<and> regs_pop_scope insert_order r1 = Inr r2 \<and> regs_used r2 = {}"
proof -
  have it: "hash_iter insert_order" by (simp add: hash_iter_def insert_order_def)
  have "regs_used registers_new = {}" by (simp add: registers_new_def)
  with scope_allocation_balanced [OF regs_ok_new it, of "[BtInt32, BtBool, BtInt32]"] show ?thesis by metis
qed

end
