(* ===== verification/TypeSpecialization.thy ===== *)
theory TypeSpecialization
  imports SourceTypes
begin

text \<open>
  Instantiating generic types (\<open>dora/src/language/specialize.rs\<close>, with \<open>build_type_params\<close> of
  \<open>dora/src/language/type_params.rs\<close> and \<open>create_tuple\<close>).  \<open>replace_type_param\<close> substitutes
  type parameters by index and \<open>Self\<close> by a given type; it panics on a parameter out of range, on
  \<open>Self\<close> without a type, and on \<open>Any\<close> and \<open>Ptr\<close>.  The lemmas describe when it succeeds
  and show that substitutions compose and that a generic definition's own parameters are the
  identity substitution.
\<close>

subsection \<open>Substitution\<close>

definition create_tuple :: "source_type list \<Rightarrow> source_type" where
  "create_tuple args = TyTuple (arr_with args)"

fun replace_type_param ::
  "source_type \<Rightarrow> source_type_array \<Rightarrow> source_type option \<Rightarrow> source_type result"
and replace_arr ::
  "source_type_array \<Rightarrow> source_type_array \<Rightarrow> source_type option \<Rightarrow> source_type list result"
and replace_all ::
  "source_type list \<Rightarrow> source_type_array \<Rightarrow> source_type option \<Rightarrow> source_type list result" where
  "replace_type_param (TyTypeParam tpid) tps self_ty = arr_index tps tpid"
| "replace_type_param (TyClass cls_id params) tps self_ty =
     rbind (replace_arr params tps self_ty) (\<lambda>ps. Inr (TyClass cls_id (arr_with ps)))"
| "replace_type_param (TyTrait trait_id params) tps self_ty =
     rbind (replace_arr params tps self_ty) (\<lambda>ps. Inr (TyTrait trait_id (arr_with ps)))"
| "replace_type_param (TyStruct struct_id params) tps self_ty =
     rbind (replace_arr params tps self_ty) (\<lambda>ps. Inr (TyStruct struct_id (arr_with ps)))"
| "replace_type_param (TyEnum enum_id params) tps self_ty =
     rbind (replace_arr params tps self_ty) (\<lambda>ps. Inr (TyEnum enum_id (arr_with ps)))"
| "replace_type_param TyThis tps self_ty = rexpect self_ty"
| "replace_type_param (TyLambda params return_type) tps self_ty =
     rbind (replace_arr params tps self_ty) (\<lambda>ps.
     rbind (replace_type_param return_type tps self_ty) (\<lambda>r.
     Inr (TyLambda (arr_with ps) r)))"
| "replace_type_param (TyTuple subtypes) tps self_ty =
     rbind (replace_arr subtypes tps self_ty) (\<lambda>ss. Inr (create_tuple ss))"
| "replace_type_param TyAny tps self_ty = Inl ExplicitPanic"
| "replace_type_param TyPtr tps self_ty = Inl ExplicitPanic"
| "replace_type_param ty tps self_ty = Inr ty"
| "replace_arr ArrEmpty tps self_ty = Inr []"
| "replace_arr (ArrList ts) tps self_ty = replace_all ts tps self_ty"
| "replace_all [] tps self_ty = Inr []"
| "replace_all (t # ts) tps self_ty =
     rbind (replace_type_param t tps self_ty) (\<lambda>t'.
     rbind (replace_all ts tps self_ty) (\<lambda>ts'. Inr (t' # ts')))"

definition specialize_type :: "source_type \<Rightarrow> source_type_array \<Rightarrow> source_type result" where
  "specialize_type ty tps = replace_type_param ty tps None"

definition specialize_type_list ::
  "source_type_array \<Rightarrow> source_type_array \<Rightarrow> source_type_array result" where
  "specialize_type_list lst tps =
     (if types_of lst = [] then Inr ArrEmpty
      else rbind (replace_all (types_of lst) tps None) (\<lambda>ts. Inr (arr_with ts)))"

definition build_type_params :: "usize \<Rightarrow> source_type_array" where
  "build_type_params n = arr_with (map TyTypeParam [0..<n])"

subsection \<open>Specification\<close>

text \<open>A type that can be specialised with \<open>n\<close> parameters.\<close>

fun specializable :: "usize \<Rightarrow> source_type \<Rightarrow> bool"
and specializable_arr :: "usize \<Rightarrow> source_type_array \<Rightarrow> bool"
and specializable_all :: "usize \<Rightarrow> source_type list \<Rightarrow> bool" where
  "specializable n (TyTypeParam i) = (i < n)"
| "specializable n (TyClass _ ps) = specializable_arr n ps"
| "specializable n (TyTrait _ ps) = specializable_arr n ps"
| "specializable n (TyStruct _ ps) = specializable_arr n ps"
| "specializable n (TyEnum _ ps) = specializable_arr n ps"
| "specializable n (TyTuple ps) = specializable_arr n ps"
| "specializable n (TyLambda ps r) = (specializable_arr n ps \<and> specializable n r)"
| "specializable n TyThis = False"
| "specializable n TyAny = False"
| "specializable n TyPtr = False"
| "specializable n _ = True"
| "specializable_arr n ArrEmpty = True"
| "specializable_arr n (ArrList ts) = specializable_all n ts"
| "specializable_all n [] = True"
| "specializable_all n (t # ts) = (specializable n t \<and> specializable_all n ts)"

text \<open>Types whose parameter lists were built by \<open>SourceTypeArray::with\<close>.\<close>

fun canonical :: "source_type \<Rightarrow> bool"
and canonical_arr :: "source_type_array \<Rightarrow> bool"
and canonical_all :: "source_type list \<Rightarrow> bool" where
  "canonical (TyClass _ ps) = canonical_arr ps"
| "canonical (TyTrait _ ps) = canonical_arr ps"
| "canonical (TyStruct _ ps) = canonical_arr ps"
| "canonical (TyEnum _ ps) = canonical_arr ps"
| "canonical (TyTuple ps) = canonical_arr ps"
| "canonical (TyLambda ps r) = (canonical_arr ps \<and> canonical r)"
| "canonical _ = True"
| "canonical_arr ArrEmpty = True"
| "canonical_arr (ArrList ts) = (ts \<noteq> [] \<and> canonical_all ts)"
| "canonical_all [] = True"
| "canonical_all (t # ts) = (canonical t \<and> canonical_all ts)"

fun mentions_error :: "source_type \<Rightarrow> bool"
and mentions_error_arr :: "source_type_array \<Rightarrow> bool"
and mentions_error_any :: "source_type list \<Rightarrow> bool" where
  "mentions_error TyError = True"
| "mentions_error (TyClass _ ps) = mentions_error_arr ps"
| "mentions_error (TyTrait _ ps) = mentions_error_arr ps"
| "mentions_error (TyStruct _ ps) = mentions_error_arr ps"
| "mentions_error (TyEnum _ ps) = mentions_error_arr ps"
| "mentions_error (TyTuple ps) = mentions_error_arr ps"
| "mentions_error (TyLambda ps r) = (mentions_error_arr ps \<or> mentions_error r)"
| "mentions_error _ = False"
| "mentions_error_arr ArrEmpty = False"
| "mentions_error_arr (ArrList ts) = mentions_error_any ts"
| "mentions_error_any [] = False"
| "mentions_error_any (t # ts) = (mentions_error t \<or> mentions_error_any ts)"

subsection \<open>Lemmas\<close>

lemma arr_index_eq_Inr: "arr_index a i = Inr t \<longleftrightarrow> i < length (types_of a) \<and> t = types_of a ! i"
  by (cases a) auto

lemma replace_arr_types_of: "replace_arr a tps s = replace_all (types_of a) tps s"
  by (cases a) simp_all

lemma replace_all_nth:
  "replace_all ts tps s = Inr us \<Longrightarrow>
     length us = length ts \<and> (\<forall>i < length ts. replace_type_param (ts ! i) tps s = Inr (us ! i))"
proof (induction ts arbitrary: us)
  case (Cons t ts)
  then obtain u vs where "replace_type_param t tps s = Inr u" "replace_all ts tps s = Inr vs"
    "us = u # vs"
    by (auto simp: rbind_eq_Inr_iff)
  with Cons.IH [of vs] show ?case by (auto simp: nth_Cons split: nat.splits)
qed simp

lemmas type_induct =
  mentions_type_param_mentions_arr_mentions_any.induct [case_names TypeParam]

lemma specializable_iff:
  "(\<exists>t'. replace_type_param t tps None = Inr t') \<longleftrightarrow> specializable (length (types_of tps)) t"
  "(\<exists>ts'. replace_arr a tps None = Inr ts') \<longleftrightarrow> specializable_arr (length (types_of tps)) a"
  "(\<exists>ts'. replace_all ts tps None = Inr ts') \<longleftrightarrow> specializable_all (length (types_of tps)) ts"
  by (induction t and a and ts rule: type_induct)
     (auto simp: rbind_eq_Inr_iff arr_index_eq_Inr)

lemma replace_compose:
  assumes "specialize_type_list sg ta = Inr sg'"
  shows "replace_type_param t sg None = Inr t' \<Longrightarrow>
      replace_type_param t' ta None = replace_type_param t sg' None"
    and "replace_arr a sg None = Inr ts' \<Longrightarrow> replace_all ts' ta None = replace_arr a sg' None"
    and "replace_all ts sg None = Inr ts' \<Longrightarrow> replace_all ts' ta None = replace_all ts sg' None"
proof (induction t and a and ts arbitrary: t' and ts' and ts' rule: type_induct)
  case (TypeParam i)
  then have i: "i < length (types_of sg)" "t' = types_of sg ! i"
    by (simp_all add: arr_index_eq_Inr)
  from assms i obtain us where us: "replace_all (types_of sg) ta None = Inr us" "sg' = arr_with us"
    by (auto simp: specialize_type_list_def rbind_eq_Inr_iff split: if_splits)
  with i replace_all_nth [OF us(1)] show ?case
    by (simp add: arr_index_types_of)
qed (auto simp: rbind_eq_Inr_iff replace_arr_types_of create_tuple_def)

lemma replace_own_params:
  "specializable n t \<Longrightarrow> canonical t \<Longrightarrow> replace_type_param t (build_type_params n) None = Inr t"
  "specializable_arr n a \<Longrightarrow> canonical_arr a \<Longrightarrow>
     replace_arr a (build_type_params n) None = Inr (types_of a) \<and> arr_with (types_of a) = a"
  "specializable_all n ts \<Longrightarrow> canonical_all ts \<Longrightarrow>
     replace_all ts (build_type_params n) None = Inr ts"
  by (induction t and a and ts rule: type_induct)
     (auto simp: build_type_params_def arr_index_types_of create_tuple_def arr_with_def)

lemma replace_concrete:
  assumes "concrete_all (types_of tps)"
  shows "replace_type_param t tps None = Inr t' \<Longrightarrow> \<not> mentions_error t \<Longrightarrow> is_concrete_type t'"
    and "replace_arr a tps None = Inr ts' \<Longrightarrow> \<not> mentions_error_arr a \<Longrightarrow> concrete_all ts'"
    and "replace_all ts tps None = Inr ts' \<Longrightarrow> \<not> mentions_error_any ts \<Longrightarrow> concrete_all ts'"
proof (induction t and a and ts arbitrary: t' and ts' and ts' rule: type_induct)
  case (TypeParam i)
  have nth: "concrete_all us \<Longrightarrow> i < length us \<Longrightarrow> is_concrete_type (us ! i)" for us i
    by (induction us arbitrary: i) (auto simp: nth_Cons split: nat.splits if_splits)
  from TypeParam show ?case by (auto simp: arr_index_eq_Inr intro: nth [OF assms])
qed (auto simp: rbind_eq_Inr_iff create_tuple_def arr_with_def)

end
