(* ===== verification/TypeTheorems.thy ===== *)
theory TypeTheorems
  imports TypeSpecialization
begin

text \<open>
  The properties of the type component: assignability is decided without a panic for defined
  types, specialisation is a total, composable substitution on the types it is meant for, and
  type arrays behave as the lists they share.
\<close>

text \<open>
  On a defined type, \<open>allows\<close> never panics and answers exactly whether the two types are the
  same up to the two representations of an empty tuple's sub-type list.
\<close>

theorem allows_iff_same_type:
  assumes "is_defined_type t"
  shows "allows t u = Inr (norm_ty t = norm_ty u)"
  by (rule allows_defined_aux(1) [OF assms])

theorem allows_iff_same_type_witness:
  "is_defined_type (TyTuple (ArrList [TyInt32, TyTuple ArrEmpty]))
   \<and> allows (TyTuple (ArrList [TyInt32, TyTuple ArrEmpty]))
        (TyTuple (ArrList [TyInt32, TyTuple (ArrList [])])) = Inr True"
  using allows_iff_same_type [of "TyTuple (ArrList [TyInt32, TyTuple ArrEmpty])"
      "TyTuple (ArrList [TyInt32, TyTuple (ArrList [])])"]
  by simp

text \<open>
  C32. Specialisations compose: when specialising a type with \<open>sg\<close> returns, and specialising the list \<open>sg\<close>
  itself with \<open>ta\<close> returns, then specialising the result with \<open>ta\<close> is the same as specialising the type
  once with the specialised list.
\<close>

theorem specialize_composes:
  assumes "specialize_type t sg = Inr t'" and "specialize_type_list sg ta = Inr sg'"
  shows "specialize_type t' ta = specialize_type t sg'"
  using replace_compose(1) [OF assms(2), of t t'] assms(1) by (simp add: specialize_type_def)

theorem specialize_composes_witness:
  "specialize_type (TyClass 4 (ArrList [TyTypeParam 0])) (ArrList [TyEnum 2 (ArrList [TyTypeParam 1])]) =
     Inr (TyClass 4 (ArrList [TyEnum 2 (ArrList [TyTypeParam 1])]))
   \<and> specialize_type (TyClass 4 (ArrList [TyEnum 2 (ArrList [TyTypeParam 1])])) (ArrList [TyBool, TyInt32]) =
     specialize_type (TyClass 4 (ArrList [TyTypeParam 0])) (ArrList [TyEnum 2 (ArrList [TyInt32])])"
proof -
  have "specialize_type_list (ArrList [TyEnum 2 (ArrList [TyTypeParam 1])]) (ArrList [TyBool, TyInt32]) =
      Inr (ArrList [TyEnum 2 (ArrList [TyInt32])])"
    by (simp add: specialize_type_list_def arr_with_def)
  moreover have "specialize_type (TyClass 4 (ArrList [TyTypeParam 0]))
      (ArrList [TyEnum 2 (ArrList [TyTypeParam 1])]) =
      Inr (TyClass 4 (ArrList [TyEnum 2 (ArrList [TyTypeParam 1])]))"
    by (simp add: specialize_type_def arr_with_def)
  ultimately show ?thesis using specialize_composes by blast
qed

text \<open>
  \<open>specialize_type\<close> returns exactly for the types that mention only parameters in range and
  neither \<open>Self\<close>, \<open>Any\<close> nor \<open>Ptr\<close>; on all others it panics.
\<close>

theorem specialize_succeeds_iff:
  "is_ok (specialize_type t tps) \<longleftrightarrow> specializable (arr_len tps) t"
  by (simp add: specialize_type_def is_ok_iff specializable_iff(1))

text \<open>
  A generic definition's own parameters, as built for its type, are the identity
  substitution on canonical types.
\<close>

theorem specialize_with_own_params:
  assumes "specializable n t" and "canonical t"
  shows "specialize_type t (build_type_params n) = Inr t"
  using replace_own_params(1) [OF assms] by (simp add: specialize_type_def)

theorem specialize_with_own_params_witness:
  "specialize_type (TyLambda (ArrList [TyTypeParam 0, TyTuple ArrEmpty]) (TyTypeParam 1))
     (build_type_params 2) = Inr (TyLambda (ArrList [TyTypeParam 0, TyTuple ArrEmpty]) (TyTypeParam 1))"
  by (rule specialize_with_own_params) simp_all

text \<open>
  C40. When specialising an error-free type with concrete types returns, the result is a concrete type, in
  which no type parameter is left.
\<close>

theorem specialize_makes_concrete:
  assumes "list_all is_concrete_type (types_of tps)" and "\<not> mentions_error t"
    and "specialize_type t tps = Inr t'"
  shows "is_concrete_type t' \<and> \<not> mentions_type_param t'"
proof -
  have "concrete_all ts \<longleftrightarrow> list_all is_concrete_type ts" for ts
    by (induction ts) simp_all
  with assms have "is_concrete_type t'"
    by (auto simp: specialize_type_def intro: replace_concrete(1))
  with concrete_aux(1) show ?thesis by blast
qed

theorem specialize_makes_concrete_witness:
  "is_concrete_type (TyTuple (ArrList [TyInt64, TyClass 1 (ArrList [TyBool])]))
   \<and> \<not> mentions_type_param (TyTuple (ArrList [TyInt64, TyClass 1 (ArrList [TyBool])]))"
  by (rule specialize_makes_concrete
      [of "ArrList [TyInt64, TyBool]" "TyTuple (ArrList [TyTypeParam 0, TyClass 1 (ArrList [TyTypeParam 1])])"])
     (simp_all add: specialize_type_def create_tuple_def arr_with_def)

text \<open>
  Type arrays are lists: iterating over connected arrays yields the elements of both in order,
  and indexing agrees with the iteration, whichever of the two representations is used.
\<close>

theorem type_array_iteration:
  "arr_collect (arr_iter_new (arr_connect a b)) = arr_collect (arr_iter_new a) @ arr_collect (arr_iter_new b)
   \<and> arr_index a i = (if i < length (arr_collect (arr_iter_new a))
        then Inr (arr_collect (arr_iter_new a) ! i)
        else Inl (case a of ArrEmpty \<Rightarrow> ExplicitPanic | ArrList _ \<Rightarrow> IndexOutOfBounds))"
  by (cases a) (simp_all add: arr_collect_drop arr_iter_new_def types_of_connect vec_get_def)

end
