(* ===== verification/SymTables.thy ===== *)
theory SymTables
  imports SourceTypes
begin

text \<open>
  Symbol tables (\<open>dora/src/language/sym.rs\<close>).  A \<open>SymTable\<close> is a hash map from interned names to
  symbols; a \<open>ModuleSymTable\<close> is a stack of local levels over the tables of the module, of the
  package's dependencies and of the prelude.  The tables behind a lock (\<open>Arc<RwLock<SymTable>>\<close>)
  are read as values.  The locale \<open>scoped_env\<close> states what the front end relies on: inserting
  shadows, and leaving a scope restores the environment it was entered in.
\<close>

type_synonym name = usize
type_synonym module_definition_id = usize
type_synonym fct_id = usize
type_synonym const_definition_id = usize
type_synonym annotation_definition_id = usize
type_synonym nested_var_id = usize
type_synonym sym_field_id = usize
type_synonym global_id = u32

datatype sym =
    SymClass class_definition_id
  | SymStruct struct_definition_id
  | SymTrait trait_definition_id
  | SymTypeParam type_param_id
  | SymEnum enum_definition_id
  | SymField sym_field_id
  | SymFct fct_id
  | SymVar nested_var_id
  | SymAnnotation annotation_definition_id
  | SymGlobal global_id
  | SymConst const_definition_id
  | SymModule module_definition_id
  | SymEnumVariant enum_definition_id usize

subsection \<open>Symbols\<close>

fun sym_to_class :: "sym \<Rightarrow> class_definition_id option" where
  "sym_to_class (SymClass i) = Some i"
| "sym_to_class _ = None"

fun sym_to_struct :: "sym \<Rightarrow> struct_definition_id option" where
  "sym_to_struct (SymStruct i) = Some i"
| "sym_to_struct _ = None"

fun sym_to_trait :: "sym \<Rightarrow> trait_definition_id option" where
  "sym_to_trait (SymTrait i) = Some i"
| "sym_to_trait _ = None"

fun sym_to_enum :: "sym \<Rightarrow> enum_definition_id option" where
  "sym_to_enum (SymEnum i) = Some i"
| "sym_to_enum _ = None"

fun sym_to_fct :: "sym \<Rightarrow> fct_id option" where
  "sym_to_fct (SymFct i) = Some i"
| "sym_to_fct _ = None"

fun sym_to_var :: "sym \<Rightarrow> nested_var_id option" where
  "sym_to_var (SymVar i) = Some i"
| "sym_to_var _ = None"

fun sym_to_const :: "sym \<Rightarrow> const_definition_id option" where
  "sym_to_const (SymConst i) = Some i"
| "sym_to_const _ = None"

fun sym_to_global :: "sym \<Rightarrow> global_id option" where
  "sym_to_global (SymGlobal i) = Some i"
| "sym_to_global _ = None"

fun sym_to_annotation :: "sym \<Rightarrow> annotation_definition_id option" where
  "sym_to_annotation (SymAnnotation i) = Some i"
| "sym_to_annotation _ = None"

fun sym_to_module :: "sym \<Rightarrow> module_definition_id option" where
  "sym_to_module (SymModule i) = Some i"
| "sym_to_module _ = None"

subsection \<open>Tables\<close>

type_synonym sym_table = "name \<rightharpoonup> sym"

definition symtable_new :: sym_table where
  "symtable_new = Map.empty"

definition symtable_get :: "sym_table \<Rightarrow> name \<Rightarrow> sym option" where
  "symtable_get t n = t n"

definition symtable_insert :: "name \<Rightarrow> sym \<Rightarrow> sym_table \<Rightarrow> sym option \<times> sym_table" where
  "symtable_insert n s t = (t n, t(n \<mapsto> s))"

record module_sym_table =
  mst_module_id :: module_definition_id
  mst_levels :: "sym_table list"
  mst_outer :: sym_table
  mst_dependencies :: sym_table
  mst_prelude :: sym_table

definition mst_new ::
  "module_definition_id \<Rightarrow> sym_table \<Rightarrow> sym_table \<Rightarrow> sym_table \<Rightarrow> module_sym_table" where
  "mst_new module_id outer dependencies prelude =
     \<lparr>mst_module_id = module_id, mst_levels = [], mst_outer = outer,
      mst_dependencies = dependencies, mst_prelude = prelude\<rparr>"

definition push_level :: "module_sym_table \<Rightarrow> module_sym_table" where
  "push_level t = t\<lparr>mst_levels := mst_levels t @ [symtable_new]\<rparr>"

definition pop_level :: "module_sym_table \<Rightarrow> module_sym_table result" where
  "pop_level t =
     rbind (rassert (length (mst_levels t) \<ge> 1)) (\<lambda>_.
     Inr (t\<lparr>mst_levels := butlast (mst_levels t)\<rparr>))"

definition levels :: "module_sym_table \<Rightarrow> usize" where
  "levels t = length (mst_levels t)"

fun find_level :: "sym_table list \<Rightarrow> name \<Rightarrow> sym option" where
  "find_level [] n = None"
| "find_level (l # ls) n =
     (case symtable_get l n of Some v \<Rightarrow> Some v | None \<Rightarrow> find_level ls n)"

definition mst_get :: "module_sym_table \<Rightarrow> name \<Rightarrow> sym option" where
  "mst_get t n =
     (case find_level (rev (mst_levels t)) n of
        Some s \<Rightarrow> Some s
      | None \<Rightarrow>
        (case symtable_get (mst_outer t) n of
           Some s \<Rightarrow> Some s
         | None \<Rightarrow>
           (case symtable_get (mst_dependencies t) n of
              Some s \<Rightarrow> Some s
            | None \<Rightarrow>
              (case symtable_get (mst_prelude t) n of
                 Some s \<Rightarrow> Some s
               | None \<Rightarrow> None))))"

definition mst_get_class :: "module_sym_table \<Rightarrow> name \<Rightarrow> class_definition_id option" where
  "mst_get_class t n = Option.bind (mst_get t n) sym_to_class"

definition mst_get_const :: "module_sym_table \<Rightarrow> name \<Rightarrow> const_definition_id option" where
  "mst_get_const t n = Option.bind (mst_get t n) sym_to_const"

definition mst_get_fct :: "module_sym_table \<Rightarrow> name \<Rightarrow> fct_id option" where
  "mst_get_fct t n = Option.bind (mst_get t n) sym_to_fct"

definition mst_get_struct :: "module_sym_table \<Rightarrow> name \<Rightarrow> struct_definition_id option" where
  "mst_get_struct t n = Option.bind (mst_get t n) sym_to_struct"

definition mst_get_trait :: "module_sym_table \<Rightarrow> name \<Rightarrow> trait_definition_id option" where
  "mst_get_trait t n = Option.bind (mst_get t n) sym_to_trait"

definition mst_get_enum :: "module_sym_table \<Rightarrow> name \<Rightarrow> enum_definition_id option" where
  "mst_get_enum t n = Option.bind (mst_get t n) sym_to_enum"

definition mst_get_global :: "module_sym_table \<Rightarrow> name \<Rightarrow> global_id option" where
  "mst_get_global t n = Option.bind (mst_get t n) sym_to_global"

definition mst_get_var :: "module_sym_table \<Rightarrow> name \<Rightarrow> nested_var_id option" where
  "mst_get_var t n = Option.bind (mst_get t n) sym_to_var"

definition mst_get_annotation :: "module_sym_table \<Rightarrow> name \<Rightarrow> annotation_definition_id option" where
  "mst_get_annotation t n = Option.bind (mst_get t n) sym_to_annotation"

definition mst_insert ::
  "name \<Rightarrow> sym \<Rightarrow> module_sym_table \<Rightarrow> (sym option \<times> module_sym_table) result" where
  "mst_insert n s t =
     (if mst_levels t = [] then Inl ExpectFailed
      else let (old, l) = symtable_insert n s (last (mst_levels t))
           in Inr (old, t\<lparr>mst_levels := butlast (mst_levels t) @ [l]\<rparr>))"

subsection \<open>The contract of a scoped environment\<close>

text \<open>What a checker does with a symbol table while it walks a body.\<close>

datatype ('n, 'v) scope_cmd = Enter | Leave | Declare 'n 'v

inductive balanced :: "('n, 'v) scope_cmd list \<Rightarrow> bool" where
  balanced_Nil: "balanced []"
| balanced_Declare: "balanced cs \<Longrightarrow> balanced (Declare n v # cs)"
| balanced_Scope: "balanced cs \<Longrightarrow> balanced ds \<Longrightarrow> balanced (Enter # cs @ Leave # ds)"

inductive_cases balanced_DeclareE: "balanced (Declare n v # cs)"
inductive_cases balanced_LeaveE: "balanced (Leave # cs)"

locale scoped_env =
  fixes enter :: "'s \<Rightarrow> 's"
    and leave :: "'s \<Rightarrow> 's result"
    and declare_name :: "'n \<Rightarrow> 'v \<Rightarrow> 's \<Rightarrow> 's result"
    and lookup :: "'s \<Rightarrow> 'n \<Rightarrow> 'v option"
    and depth :: "'s \<Rightarrow> nat"
  assumes depth_enter: "depth (enter s) = Suc (depth s)"
    and lookup_enter: "lookup (enter s) = lookup s"
    and leave_enter: "leave (enter s) = Inr s"
    and declare_ok: "depth s > 0 \<Longrightarrow> \<exists>s'. declare_name n v s = Inr s'"
    and declare_depth: "declare_name n v s = Inr s' \<Longrightarrow> depth s' = depth s"
    and lookup_declare: "declare_name n v s = Inr s' \<Longrightarrow> lookup s' = (lookup s)(n \<mapsto> v)"
    and leave_declare: "declare_name n v s = Inr s' \<Longrightarrow> leave s' = leave s"
begin

primrec run :: "('n, 'v) scope_cmd list \<Rightarrow> 's \<Rightarrow> 's result" where
  "run [] s = Inr s"
| "run (c # cs) s =
     rbind (case c of Enter \<Rightarrow> Inr (enter s) | Leave \<Rightarrow> leave s | Declare n v \<Rightarrow> declare_name n v s)
       (run cs)"

lemma run_append: "run (cs @ ds) s = rbind (run cs s) (run ds)"
  by (induction cs arbitrary: s) (auto simp: rbind_assoc cong: rbind_cong)

lemma run_balanced:
  "balanced cs \<Longrightarrow> depth s > 0 \<Longrightarrow>
     \<exists>s'. run cs s = Inr s' \<and> depth s' = depth s \<and> leave s' = leave s"
proof (induction arbitrary: s rule: balanced.induct)
  case balanced_Nil
  then show ?case by simp
next
  case (balanced_Declare cs n v)
  from declare_ok [OF balanced_Declare.prems] obtain s1 where s1: "declare_name n v s = Inr s1" ..
  with declare_depth [OF s1] leave_declare [OF s1] balanced_Declare.IH [of s1] balanced_Declare.prems
  show ?case by simp
next
  case (balanced_Scope cs ds)
  obtain s1 where s1: "run cs (enter s) = Inr s1" "leave s1 = Inr s"
    using balanced_Scope.IH(1) [of "enter s"] by (auto simp: depth_enter leave_enter)
  with balanced_Scope.IH(2) [OF balanced_Scope.prems] show ?case by (simp add: run_append)
qed

theorem scope_restores:
  "balanced cs \<Longrightarrow> run (Enter # cs @ [Leave]) s = Inr s"
  using run_balanced [of cs "enter s"] by (auto simp: run_append depth_enter leave_enter)

end

text \<open>The module symbol table provides the contract.\<close>

definition mst_declare :: "name \<Rightarrow> sym \<Rightarrow> module_sym_table \<Rightarrow> module_sym_table result" where
  "mst_declare n s t = rbind (mst_insert n s t) (\<lambda>(old, t). Inr t)"

lemma find_level_rev_map_add:
  "find_level (rev ls) n = foldl (++) Map.empty ls n"
proof (induction ls rule: rev_induct)
  case (snoc l ls)
  then show ?case by (simp add: symtable_get_def map_add_def split: option.splits)
qed simp

lemma mst_get_map_add:
  "mst_get t = mst_prelude t ++ mst_dependencies t ++ mst_outer t ++ foldl (++) Map.empty (mst_levels t)"
  by (auto simp: fun_eq_iff mst_get_def find_level_rev_map_add symtable_get_def map_add_def
      split: option.splits)

lemma mst_declare_eq_Inr:
  "mst_declare n s t = Inr t' \<longleftrightarrow>
     (\<exists>ls l. mst_levels t = ls @ [l] \<and> t' = t\<lparr>mst_levels := ls @ [l(n \<mapsto> s)]\<rparr>)"
  by (cases "mst_levels t" rule: rev_cases)
     (auto simp: mst_declare_def mst_insert_def symtable_insert_def)

interpretation mst: scoped_env push_level pop_level mst_declare mst_get levels
proof
  fix t t' :: module_sym_table and n s
  show "levels (push_level t) = Suc (levels t)" by (simp add: levels_def push_level_def)
  show "mst_get (push_level t) = mst_get t"
    by (simp add: mst_get_map_add push_level_def symtable_new_def)
  show "pop_level (push_level t) = Inr t" by (simp add: pop_level_def push_level_def)
  show "\<exists>t'. mst_declare n s t = Inr t'" if "levels t > 0"
    using that by (cases "mst_levels t" rule: rev_cases) (auto simp: levels_def mst_declare_eq_Inr)
  assume d: "mst_declare n s t = Inr t'"
  then show "levels t' = levels t" and "mst_get t' = (mst_get t)(n \<mapsto> s)" and "pop_level t' = pop_level t"
    by (auto simp: mst_declare_eq_Inr levels_def mst_get_map_add pop_level_def)
qed

end
