(* ===== verification/ModuleAccess.thy ===== *)
theory ModuleAccess
  imports SymTables "HOL-Library.Sublist"
begin

text \<open>
  Visibility (\<open>dora/src/language/access.rs\<close>) over the module tree
  (\<open>dora/src/language/sem_analysis/modules.rs\<close>, \<open>SemAnalysis::add_package\<close>).  A module keeps
  the list of its ancestors from the root; \<open>accessible_from\<close> walks the part of the target's path
  below the common parent.  Of a definition only the fields the checks read are kept: its module,
  its visibility, and for functions the parent.  The inductive set of tables is what the program
  parser can build; the specification is in terms of the paths.
\<close>

subsection \<open>Modules\<close>

datatype visibility = Public | ModuleVis

fun vis_is_public :: "visibility \<Rightarrow> bool" where
  "vis_is_public Public = True"
| "vis_is_public ModuleVis = False"

record module_def =
  m_package_id :: "usize option"
  m_parent_module_id :: "module_definition_id option"
  m_visibility :: visibility
  m_parents :: "module_definition_id list"
  m_depth :: usize

type_synonym modules = "module_def list"

definition new_top_level :: module_def where
  "new_top_level = \<lparr>m_package_id = None, m_parent_module_id = None, m_visibility = Public,
     m_parents = [], m_depth = 0\<rparr>"

definition new_inner ::
  "modules \<Rightarrow> usize \<Rightarrow> module_definition_id \<Rightarrow> visibility \<Rightarrow> module_def result" where
  "new_inner ms package_id parent_id vis =
     rbind (vec_get ms parent_id) (\<lambda>parent.
     (let parents = m_parents parent @ [parent_id]; dep = length parents in
      Inr \<lparr>m_package_id = Some package_id, m_parent_module_id = Some parent_id,
           m_visibility = vis, m_parents = parents, m_depth = dep\<rparr>))"

definition modules_push :: "module_def \<Rightarrow> modules \<Rightarrow> module_definition_id \<times> modules" where
  "modules_push m ms = (length ms, ms @ [m])"

text \<open>A package table holds the top-level module of each package.\<close>

definition add_package ::
  "module_definition_id list \<Rightarrow> modules \<Rightarrow> (usize \<times> module_definition_id) \<times> module_definition_id list \<times> modules" where
  "add_package packages ms =
     (let (module_id, ms) = modules_push new_top_level ms;
          package_id = length packages;
          packages = packages @ [module_id];
          ms = ms[module_id := (ms ! module_id)\<lparr>m_package_id := Some package_id\<rparr>] in
      ((package_id, module_id), packages, ms))"

subsection \<open>Access checks\<close>

definition module_contains :: "modules \<Rightarrow> module_definition_id \<Rightarrow> module_definition_id \<Rightarrow> bool result" where
  "module_contains ms parent_id child_id =
     (if parent_id = child_id then Inr True
      else rbind (vec_get ms child_id) (\<lambda>m. Inr (parent_id \<in> set (m_parents m))))"

text \<open>The loop over \<open>(0..start).rev()\<close>.\<close>

fun common_depth ::
  "module_definition_id list \<Rightarrow> module_definition_id list \<Rightarrow> usize \<Rightarrow> module_definition_id option result" where
  "common_depth ls rs 0 = Inr None"
| "common_depth ls rs (Suc d) =
     rbind (vec_get ls d) (\<lambda>l.
     rbind (vec_get rs d) (\<lambda>r.
     if l = r then Inr (Some l) else common_depth ls rs d))"

definition common_parent ::
  "modules \<Rightarrow> module_definition_id \<Rightarrow> module_definition_id \<Rightarrow> module_definition_id option result" where
  "common_parent ms lhs_id rhs_id =
     (if lhs_id = rhs_id then Inr (Some lhs_id)
      else
        rbind (vec_get ms lhs_id) (\<lambda>lhs.
        rbind (vec_get ms rhs_id) (\<lambda>rhs.
        rbind (if m_depth lhs > m_depth rhs
               then rbind (vec_get (m_parents lhs) (m_depth rhs)) (\<lambda>p.
                    Inr (if p = rhs_id then Some rhs_id else None))
               else if m_depth rhs > m_depth lhs
               then rbind (vec_get (m_parents rhs) (m_depth lhs)) (\<lambda>p.
                    Inr (if p = lhs_id then Some lhs_id else None))
               else Inr None) (\<lambda>found.
        case found of
          Some i \<Rightarrow> Inr (Some i)
        | None \<Rightarrow>
            (let start = min (m_depth lhs) (m_depth rhs) in
             common_depth (m_parents lhs) (m_parents rhs) start)))))"

fun all_public :: "modules \<Rightarrow> module_definition_id list \<Rightarrow> bool result" where
  "all_public ms [] = Inr True"
| "all_public ms (i # is) =
     rbind (vec_get ms i) (\<lambda>m.
     if \<not> vis_is_public (m_visibility m) then Inr False else all_public ms is)"

definition vec_from :: "'a list \<Rightarrow> usize \<Rightarrow> 'a list result" where
  "vec_from xs i = (if i \<le> length xs then Inr (drop i xs) else Inl IndexOutOfBounds)"

definition accessible_from ::
  "modules \<Rightarrow> module_definition_id \<Rightarrow> visibility \<Rightarrow> module_definition_id \<Rightarrow> bool result" where
  "accessible_from ms target_module_id element_visibility user_module_id =
     (if target_module_id = user_module_id then Inr True
      else
        rbind (module_contains ms target_module_id user_module_id) (\<lambda>c.
        if c then Inr True
        else
          rbind (common_parent ms target_module_id user_module_id) (\<lambda>common_parent_id.
          rbind (vec_get ms target_module_id) (\<lambda>target_module.
          rbind (vec_get ms user_module_id) (\<lambda>user_module.
          rbind (if m_package_id target_module = m_package_id user_module
                 then rassert (common_parent_id \<noteq> None)
                 else rassert (common_parent_id = None)) (\<lambda>_.
          case common_parent_id of
            Some common_parent_id \<Rightarrow>
              rbind (vec_get ms common_parent_id) (\<lambda>cp.
              if m_depth cp + 1 = m_depth target_module
              then Inr (vis_is_public element_visibility)
              else
                rbind (vec_from (m_parents target_module) (m_depth cp + 2)) (\<lambda>ps.
                rbind (all_public ms ps) (\<lambda>ok.
                if \<not> ok then Inr False
                else Inr (vis_is_public (m_visibility target_module)
                          \<and> vis_is_public element_visibility))))
          | None \<Rightarrow>
              rbind (all_public ms (m_parents target_module)) (\<lambda>ok.
              if \<not> ok then Inr False
              else Inr (vis_is_public (m_visibility target_module)
                        \<and> vis_is_public element_visibility))))))))"

definition is_default_accessible ::
  "modules \<Rightarrow> module_definition_id \<Rightarrow> module_definition_id \<Rightarrow> bool result" where
  "is_default_accessible ms target_id from_id =
     (if target_id = from_id then Inr True else module_contains ms target_id from_id)"

text \<open>Definitions, as far as the checks read them.\<close>

datatype fct_parent =
    ParentTrait trait_definition_id
  | ParentImpl usize
  | ParentExtension usize
  | ParentFunction fct_id
  | ParentNone

record element_def =
  el_module_id :: module_definition_id
  el_visibility :: visibility
  el_field_visibility :: "visibility list"
  el_parent :: fct_parent

record sem_analysis =
  sa_modules :: modules
  sa_globals :: "element_def list"
  sa_classes :: "element_def list"
  sa_fcts :: "element_def list"
  sa_enums :: "element_def list"
  sa_structs :: "element_def list"
  sa_traits :: "element_def list"
  sa_consts :: "element_def list"

definition element_accessible ::
  "sem_analysis \<Rightarrow> element_def list \<Rightarrow> usize \<Rightarrow> module_definition_id \<Rightarrow> bool result" where
  "element_accessible sa els i module_id =
     rbind (vec_get els i) (\<lambda>e.
     accessible_from (sa_modules sa) (el_module_id e) (el_visibility e) module_id)"

definition global_accessible_from :: "sem_analysis \<Rightarrow> global_id \<Rightarrow> module_definition_id \<Rightarrow> bool result" where
  "global_accessible_from sa i module_id = element_accessible sa (sa_globals sa) (unat i) module_id"

definition class_accessible_from :: "sem_analysis \<Rightarrow> class_definition_id \<Rightarrow> module_definition_id \<Rightarrow> bool result" where
  "class_accessible_from sa i module_id = element_accessible sa (sa_classes sa) i module_id"

definition fct_accessible_from :: "sem_analysis \<Rightarrow> fct_id \<Rightarrow> module_definition_id \<Rightarrow> bool result" where
  "fct_accessible_from sa i module_id = element_accessible sa (sa_fcts sa) i module_id"

definition enum_accessible_from :: "sem_analysis \<Rightarrow> enum_definition_id \<Rightarrow> module_definition_id \<Rightarrow> bool result" where
  "enum_accessible_from sa i module_id = element_accessible sa (sa_enums sa) (unat i) module_id"

definition struct_accessible_from :: "sem_analysis \<Rightarrow> struct_definition_id \<Rightarrow> module_definition_id \<Rightarrow> bool result" where
  "struct_accessible_from sa i module_id = element_accessible sa (sa_structs sa) (unat i) module_id"

definition trait_accessible_from :: "sem_analysis \<Rightarrow> trait_definition_id \<Rightarrow> module_definition_id \<Rightarrow> bool result" where
  "trait_accessible_from sa i module_id = element_accessible sa (sa_traits sa) (unat i) module_id"

definition const_accessible_from :: "sem_analysis \<Rightarrow> const_definition_id \<Rightarrow> module_definition_id \<Rightarrow> bool result" where
  "const_accessible_from sa i module_id = element_accessible sa (sa_consts sa) i module_id"

definition field_accessible ::
  "sem_analysis \<Rightarrow> element_def list \<Rightarrow> usize \<Rightarrow> usize \<Rightarrow> module_definition_id \<Rightarrow> bool result" where
  "field_accessible sa els i field_id module_id =
     rbind (vec_get els i) (\<lambda>e.
     rbind (vec_get (el_field_visibility e) field_id) (\<lambda>fv.
     accessible_from (sa_modules sa) (el_module_id e)
       (if vis_is_public (el_visibility e) \<and> vis_is_public fv then Public else ModuleVis) module_id))"

definition class_field_accessible_from ::
  "sem_analysis \<Rightarrow> class_definition_id \<Rightarrow> usize \<Rightarrow> module_definition_id \<Rightarrow> bool result" where
  "class_field_accessible_from sa cls_id field_id module_id =
     field_accessible sa (sa_classes sa) cls_id field_id module_id"

definition struct_field_accessible_from ::
  "sem_analysis \<Rightarrow> struct_definition_id \<Rightarrow> usize \<Rightarrow> module_definition_id \<Rightarrow> bool result" where
  "struct_field_accessible_from sa struct_id field_id module_id =
     field_accessible sa (sa_structs sa) (unat struct_id) field_id module_id"

definition method_accessible_from :: "sem_analysis \<Rightarrow> fct_id \<Rightarrow> module_definition_id \<Rightarrow> bool result" where
  "method_accessible_from sa i module_id =
     rbind (vec_get (sa_fcts sa) i) (\<lambda>fct.
     rbind (case el_parent fct of
              ParentExtension _ \<Rightarrow> Inr (el_visibility fct)
            | ParentImpl _ \<Rightarrow> Inr Public
            | ParentTrait _ \<Rightarrow> Inr Public
            | ParentFunction _ \<Rightarrow> Inl Unreachable
            | ParentNone \<Rightarrow> Inl Unreachable) (\<lambda>element_visibility.
     accessible_from (sa_modules sa) (el_module_id fct) element_visibility module_id))"

definition module_accessible_from ::
  "sem_analysis \<Rightarrow> module_definition_id \<Rightarrow> module_definition_id \<Rightarrow> bool result" where
  "module_accessible_from sa target_id from_id =
     accessible_from (sa_modules sa) target_id Public from_id"

definition sym_accessible_from :: "sem_analysis \<Rightarrow> sym \<Rightarrow> module_definition_id \<Rightarrow> bool result" where
  "sym_accessible_from sa s module_id =
     (case s of
        SymAnnotation _ \<Rightarrow> Inl Unimplemented
      | SymClass i \<Rightarrow> class_accessible_from sa i module_id
      | SymConst i \<Rightarrow> const_accessible_from sa i module_id
      | SymEnum i \<Rightarrow> enum_accessible_from sa i module_id
      | SymEnumVariant _ _ \<Rightarrow> Inl Unreachable
      | SymFct i \<Rightarrow> fct_accessible_from sa i module_id
      | SymField _ \<Rightarrow> Inl Unreachable
      | SymGlobal i \<Rightarrow> global_accessible_from sa i module_id
      | SymModule i \<Rightarrow> module_accessible_from sa i module_id
      | SymStruct i \<Rightarrow> struct_accessible_from sa i module_id
      | SymTrait i \<Rightarrow> trait_accessible_from sa i module_id
      | SymTypeParam _ \<Rightarrow> Inl Unreachable
      | SymVar _ \<Rightarrow> Inl Unreachable)"

subsection \<open>Specification\<close>

definition path :: "modules \<Rightarrow> module_definition_id \<Rightarrow> module_definition_id list" where
  "path ms i = m_parents (ms ! i) @ [i]"

text \<open>
  An element is accessible from a module when its module is on the user's path, or when it is
  public and so is everything on the path to it below the first module the user does not share;
  from another package, everything on the path counts.
\<close>

definition access_spec ::
  "modules \<Rightarrow> module_definition_id \<Rightarrow> visibility \<Rightarrow> module_definition_id \<Rightarrow> bool" where
  "access_spec ms target vis user =
     (target \<in> set (path ms user)
      \<or> vis_is_public vis
        \<and> (let common = length (longest_common_prefix (path ms target) (path ms user)) in
           list_all (\<lambda>i. vis_is_public (m_visibility (ms ! i)))
             (drop (if common = 0 then 0 else common + 1) (path ms target))))"

text \<open>Module tables as the program parser builds them: packages, inner modules whose package is
  that of their parent, and one prelude module outside all packages.\<close>

inductive module_tables :: "module_definition_id list \<Rightarrow> modules \<Rightarrow> bool" where
  tables_empty: "module_tables [] []"
| tables_package: "module_tables packages ms \<Longrightarrow>
    add_package packages ms = (ids, packages', ms') \<Longrightarrow> module_tables packages' ms'"
| tables_inner: "module_tables packages ms \<Longrightarrow> parent_id < length ms \<Longrightarrow>
    m_package_id (ms ! parent_id) = Some package_id \<Longrightarrow>
    new_inner ms package_id parent_id vis = Inr m \<Longrightarrow>
    module_tables packages (snd (modules_push m ms))"
| tables_prelude: "module_tables packages ms \<Longrightarrow> \<forall>m \<in> set ms. m_package_id m \<noteq> None \<Longrightarrow>
    module_tables packages (snd (modules_push new_top_level ms))"

definition modules_ok :: "module_definition_id list \<Rightarrow> modules \<Rightarrow> bool" where
  "modules_ok packages ms =
     ((\<forall>i < length ms. m_depth (ms ! i) = length (m_parents (ms ! i))
        \<and> (\<forall>d < length (m_parents (ms ! i)).
             m_parents (ms ! i) ! d < i
             \<and> m_parents (ms ! (m_parents (ms ! i) ! d)) = take d (m_parents (ms ! i))
             \<and> m_package_id (ms ! (m_parents (ms ! i) ! d)) = m_package_id (ms ! i))
        \<and> (case m_package_id (ms ! i) of None \<Rightarrow> m_parents (ms ! i) = [] | Some p \<Rightarrow> p < length packages))
      \<and> (\<forall>i < length ms. \<forall>j < length ms. m_parents (ms ! i) = [] \<and> m_parents (ms ! j) = []
           \<and> m_package_id (ms ! i) = m_package_id (ms ! j) \<longrightarrow> i = j))"

subsection \<open>The invariant of module tables\<close>

lemma modules_ok_snoc:
  assumes "modules_ok pk ms" and "length pk \<le> length pk'"
    and "m_depth m = length (m_parents m)"
    and "\<forall>d < length (m_parents m). m_parents m ! d < length ms
       \<and> m_parents (ms ! (m_parents m ! d)) = take d (m_parents m)
       \<and> m_package_id (ms ! (m_parents m ! d)) = m_package_id m"
    and "case m_package_id m of None \<Rightarrow> m_parents m = [] | Some p \<Rightarrow> p < length pk'"
    and "m_parents m = [] \<Longrightarrow> \<forall>i < length ms. m_parents (ms ! i) = [] \<longrightarrow> m_package_id (ms ! i) \<noteq> m_package_id m"
  shows "modules_ok pk' (ms @ [m])"
proof -
  have old: "\<forall>d < length (m_parents (ms ! i)). m_parents (ms ! i) ! d < length ms" if "i < length ms" for i
    using assms(1) that by (fastforce simp: modules_ok_def)
  show ?thesis
    using assms old
    by (auto simp: modules_ok_def nth_append less_Suc_eq split: option.splits)
qed

lemma add_package_eq:
  "add_package packages ms =
     ((length packages, length ms), packages @ [length ms],
      ms @ [new_top_level\<lparr>m_package_id := Some (length packages)\<rparr>])"
  by (simp add: add_package_def modules_push_def Let_def)

lemma module_tables_ok: "module_tables packages ms \<Longrightarrow> modules_ok packages ms"
proof (induction rule: module_tables.induct)
  case tables_empty
  then show ?case by (simp add: modules_ok_def)
next
  case (tables_package packages ms ids packages' ms')
  have "m_package_id (ms ! i) \<noteq> Some (length packages)" if "i < length ms" for i
    using tables_package.IH that by (fastforce simp: modules_ok_def split: option.splits)
  with tables_package show ?case
    by (auto simp: add_package_eq new_top_level_def intro!: modules_ok_snoc [of packages ms])
next
  case (tables_inner packages ms parent_id package_id vis m)
  then have m: "m_parents m = m_parents (ms ! parent_id) @ [parent_id]"
    "m_depth m = length (m_parents m)" "m_package_id m = Some package_id"
    by (auto simp: new_inner_def)
  from tables_inner have p: "package_id < length packages"
    by (fastforce simp: modules_ok_def split: option.splits)
  have "m_parents m ! d < length ms
       \<and> m_parents (ms ! (m_parents m ! d)) = take d (m_parents m)
       \<and> m_package_id (ms ! (m_parents m ! d)) = m_package_id m"
    if "d < length (m_parents m)" for d
  proof (cases "d < length (m_parents (ms ! parent_id))")
    case True
    with tables_inner m show ?thesis
      by (fastforce simp: modules_ok_def nth_append)
  next
    case False
    with that m have "d = length (m_parents (ms ! parent_id))" by simp
    with tables_inner m show ?thesis by simp
  qed
  with m p tables_inner.IH show ?case
    by (auto simp: modules_push_def intro!: modules_ok_snoc [of packages ms])
next
  case (tables_prelude packages ms)
  then have "\<forall>i < length ms. m_package_id (ms ! i) \<noteq> None" by simp
  with tables_prelude.IH show ?case
    by (auto simp: modules_push_def new_top_level_def intro!: modules_ok_snoc [of packages ms])
qed

subsection \<open>Paths\<close>

lemma path_nth:
  assumes ok: "modules_ok packages ms" and "i < length ms" and "d < length (path ms i)"
  shows "path ms i ! d < length ms \<and> path ms (path ms i ! d) = take (Suc d) (path ms i)"
proof (cases "d < length (m_parents (ms ! i))")
  case True
  with ok assms(2) have "m_parents (ms ! i) ! d < i"
    "m_parents (ms ! (m_parents (ms ! i) ! d)) = take d (m_parents (ms ! i))"
    by (auto simp: modules_ok_def)
  with True assms(2) show ?thesis by (simp add: path_def nth_append take_Suc_conv_app_nth)
next
  case False
  with assms have "d = length (m_parents (ms ! i))" by (simp add: path_def)
  with assms(2) show ?thesis by (simp add: path_def)
qed

lemma path_agree:
  assumes ok: "modules_ok packages ms" and "i < length ms" and "j < length ms"
    and "d < length (path ms i)" and "d < length (path ms j)"
  shows "path ms i ! d = path ms j ! d \<longleftrightarrow> d < length (longest_common_prefix (path ms i) (path ms j))"
    (is "_ \<longleftrightarrow> d < length ?c")
proof
  assume "path ms i ! d = path ms j ! d"
  with path_nth [OF ok assms(2,4)] path_nth [OF ok assms(3,5)]
  have "take (Suc d) (path ms i) = take (Suc d) (path ms j)" by simp
  then have "prefix (take (Suc d) (path ms i)) ?c"
    by (intro longest_common_prefix_max_prefix) (metis take_is_prefix)+
  from prefix_length_le [OF this] assms(4) show "d < length ?c" by simp
next
  assume d: "d < length ?c"
  have "prefix ?c (path ms i)" "prefix ?c (path ms j)"
    by (rule longest_common_prefix_prefix1 longest_common_prefix_prefix2)+
  with d show "path ms i ! d = path ms j ! d" by (metis nth_append prefix_def)
qed

lemma common_depth_eq:
  assumes "\<forall>d < n. ls ! d = rs ! d \<longleftrightarrow> d < c" and "n \<le> length ls" and "n \<le> length rs"
  shows "common_depth ls rs n = Inr (if min n c = 0 then None else Some (ls ! (min n c - 1)))"
  using assms
proof (induction n)
  case (Suc n)
  then show ?case by (cases "n < c") (auto simp: min_def)
qed simp

lemma all_public_eq:
  "\<forall>i \<in> set is. i < length ms \<Longrightarrow>
     all_public ms is = Inr (list_all (\<lambda>i. vis_is_public (m_visibility (ms ! i))) is)"
  by (induction "is") auto

lemma lcp_length_le:
  "length (longest_common_prefix xs ys) \<le> length xs" "length (longest_common_prefix xs ys) \<le> length ys"
  using longest_common_prefix_prefix1 [of xs ys] longest_common_prefix_prefix2 [of xs ys]
  by (simp_all add: prefix_length_le)

lemma module_fields:
  assumes "modules_ok packages ms" and "i < length ms"
  shows "m_depth (ms ! i) = length (m_parents (ms ! i))"
    and "length (path ms i) = Suc (length (m_parents (ms ! i)))"
    and "d < length (m_parents (ms ! i)) \<Longrightarrow> m_parents (ms ! i) ! d = path ms i ! d"
    and "path ms i ! length (m_parents (ms ! i)) = i"
  using assms by (auto simp: modules_ok_def path_def nth_append)

lemma common_parent_eq:
  assumes ok: "modules_ok packages ms" and i: "i < length ms" and j: "j < length ms" and "i \<noteq> j"
  defines "c \<equiv> length (longest_common_prefix (path ms i) (path ms j))"
  shows "common_parent ms i j = Inr (if c = 0 then None else Some (path ms i ! (c - 1)))"
proof -
  note fi = module_fields [OF ok i] and fj = module_fields [OF ok j]
  let ?di = "length (m_parents (ms ! i))" and ?dj = "length (m_parents (ms ! j))"
  have agree: "path ms i ! d = path ms j ! d \<longleftrightarrow> d < c" if "d \<le> ?di" "d \<le> ?dj" for d
    using path_agree [OF ok i j, of d] that fi(2) fj(2) by (simp add: c_def)
  have le: "c \<le> Suc ?di" "c \<le> Suc ?dj"
    using lcp_length_le [of "path ms i" "path ms j"] fi(2) fj(2) by (simp_all add: c_def)
  have walk: "common_depth (m_parents (ms ! i)) (m_parents (ms ! j)) (min ?di ?dj) =
      Inr (if c = 0 then None else Some (path ms i ! (c - 1)))" if "c \<le> min ?di ?dj"
  proof -
    have "\<forall>d < min ?di ?dj. m_parents (ms ! i) ! d = m_parents (ms ! j) ! d \<longleftrightarrow> d < c"
      using agree fi(3) fj(3) by simp
    from common_depth_eq [OF this] that fi(3) show ?thesis by (auto simp: min_absorb2)
  qed
  consider (gt) "?di > ?dj" | (lt) "?di < ?dj" | (eq) "?di = ?dj" by linarith
  then show ?thesis
  proof cases
    case gt
    have "m_parents (ms ! i) ! ?dj = j \<longleftrightarrow> ?dj < c" using agree [of ?dj] gt fi(3) fj(4) by simp
    moreover have "?dj < c \<Longrightarrow> c - 1 = ?dj" using le by simp
    moreover have "?dj < c \<Longrightarrow> path ms i ! ?dj = j" using agree [of ?dj] gt fj(4) by simp
    ultimately show ?thesis using gt le walk i j \<open>i \<noteq> j\<close> fi fj
      by (auto simp: common_parent_def Let_def)
  next
    case lt
    have "m_parents (ms ! j) ! ?di = i \<longleftrightarrow> ?di < c" using agree [of ?di] lt fj(3) fi(4) by auto
    moreover have "?di < c \<Longrightarrow> c - 1 = ?di" using le by simp
    ultimately show ?thesis using lt le walk i j \<open>i \<noteq> j\<close> fi fj
      by (auto simp: common_parent_def Let_def)
  next
    case eq
    have "\<not> ?di < c" using agree [of ?di] eq fi(4) fj(4) \<open>i \<noteq> j\<close> by simp
    with eq le walk i j \<open>i \<noteq> j\<close> fi fj show ?thesis
      by (auto simp: common_parent_def Let_def)
  qed
qed

text \<open>Modules share a package exactly when their paths share the root.\<close>

lemma same_package_iff:
  assumes ok: "modules_ok packages ms" and i: "i < length ms" and j: "j < length ms"
  shows "m_package_id (ms ! i) = m_package_id (ms ! j) \<longleftrightarrow>
    longest_common_prefix (path ms i) (path ms j) \<noteq> []"
proof -
  have root: "path ms k ! 0 < length ms \<and> m_parents (ms ! (path ms k ! 0)) = []
      \<and> m_package_id (ms ! (path ms k ! 0)) = m_package_id (ms ! k)" if "k < length ms" for k
  proof (cases "m_parents (ms ! k) = []")
    case True
    with that show ?thesis by (simp add: path_def)
  next
    case False
    then have "0 < length (m_parents (ms ! k))" by simp
    moreover from ok that this have "m_parents (ms ! k) ! 0 < k"
      "m_parents (ms ! (m_parents (ms ! k) ! 0)) = take 0 (m_parents (ms ! k))"
      "m_package_id (ms ! (m_parents (ms ! k) ! 0)) = m_package_id (ms ! k)"
      unfolding modules_ok_def by blast+
    ultimately show ?thesis using that by (simp add: path_def nth_append)
  qed
  have "path ms i ! 0 = path ms j ! 0 \<longleftrightarrow> longest_common_prefix (path ms i) (path ms j) \<noteq> []"
    using path_agree [OF ok i j, of 0] by (simp add: path_def)
  moreover have "m_package_id (ms ! i) = m_package_id (ms ! j) \<longleftrightarrow> path ms i ! 0 = path ms j ! 0"
    using root [OF i] root [OF j] ok unfolding modules_ok_def by metis
  ultimately show ?thesis by simp
qed

lemma accessible_from_correct:
  assumes ok: "modules_ok packages ms" and t: "target < length ms" and u: "user < length ms"
  shows "accessible_from ms target vis user = Inr (access_spec ms target vis user)"
proof (cases "target \<in> set (path ms user)")
  case True
  with u show ?thesis
    by (auto simp: accessible_from_def module_contains_def access_spec_def path_def)
next
  case False
  let ?T = "path ms target" and ?U = "path ms user"
  let ?lcp = "longest_common_prefix ?T ?U" and ?ps = "m_parents (ms ! target)"
  let ?pub = "\<lambda>i. vis_is_public (m_visibility (ms ! i))"
  from False have ne: "target \<noteq> user" and nc: "module_contains ms target user = Inr False"
    using u by (auto simp: path_def module_contains_def)
  note ft = module_fields [OF ok t]
  have in_range: "\<forall>i \<in> set ?ps. i < length ms"
    using path_nth [OF ok t] ft(2,3) by (metis in_set_conv_nth less_Suc_eq)
  have cp: "common_parent ms target user = Inr (if ?lcp = [] then None else Some (?T ! (length ?lcp - 1)))"
    using common_parent_eq [OF ok t u ne] by simp
  have lt: "length ?lcp < length ?T"
  proof (rule ccontr)
    assume "\<not> length ?lcp < length ?T"
    then have "?lcp = ?T"
      using longest_common_prefix_prefix1 [of ?T ?U] by (metis prefix_length_less strict_prefixI)
    then have "prefix ?T ?U" by (metis longest_common_prefix_prefix2)
    moreover have "target \<in> set ?T" by (simp add: path_def)
    ultimately show False using False by (auto dest: set_mono_prefix)
  qed
  show ?thesis
  proof (cases "?lcp = []")
    case True
    with False ne nc cp t u same_package_iff [OF ok t u] all_public_eq [OF in_range]
    show ?thesis by (auto simp: accessible_from_def access_spec_def path_def)
  next
    case c: False
    let ?cp = "?T ! (length ?lcp - 1)"
    have "length ?lcp - 1 < length ?T" using lt by simp
    from path_nth [OF ok t this] have cpr: "?cp < length ms" "path ms ?cp = take (length ?lcp) ?T"
      using c by simp_all
    from module_fields(1,2) [OF ok cpr(1)] cpr(2) lt c have dep: "m_depth (ms ! ?cp) = length ?lcp - 1"
      by simp
    have "\<forall>i \<in> set (drop (length ?lcp + 1) ?ps). i < length ms"
      using in_range by (meson in_set_dropD)
    note pub = all_public_eq [OF this]
    from False ne nc cp t u same_package_iff [OF ok t u] pub c cpr(1) dep ft(1,2) lt show ?thesis
      by (auto simp: accessible_from_def access_spec_def vec_from_def path_def Let_def)
  qed
qed

end
