(* ===== verification/FrontendTheorems.thy ===== *)
theory FrontendTheorems
  imports ModuleAccess
begin

text \<open>
  The properties of name resolution and visibility: scopes of a symbol table nest and restore,
  lookup prefers inner tables, and the access check decides the path rule without running into
  one of its assertions.
\<close>

subsection \<open>Symbol tables\<close>

text \<open>
  Scopes restore: whatever names a well-bracketed walk declares in the levels it enters, leaving
  them again gives back the symbol table that was entered, and no operation of it panics.
\<close>

theorem symbol_scopes_restore:
  assumes "balanced cs"
  shows "mst.run (Enter # cs @ [Leave]) t = Inr t"
  by (rule mst.scope_restores [OF assms])

theorem symbol_scopes_restore_witness:
  "mst.run (Enter # ([Declare 7 (SymVar 1)] @ Enter # [Declare 7 (SymVar 2)] @ Leave # []) @ [Leave])
     (mst_new 0 [7 \<mapsto> SymFct 3] Map.empty Map.empty) = Inr (mst_new 0 [7 \<mapsto> SymFct 3] Map.empty Map.empty)"
  by (rule symbol_scopes_restore) (auto intro!: balanced.intros balanced_Scope [of "[Declare 7 (SymVar 2)]" "[]", simplified])

text \<open>
  Lookup order: a name is found in the innermost level that declares it, then in the
  module, the dependencies and the prelude; an insertion into the current level shadows all of
  them for its name and changes no other.
\<close>

theorem symbol_lookup_order:
  assumes "mst_insert n s t = Inr (old, t')"
  shows "mst_get t' = (mst_prelude t ++ mst_dependencies t ++ mst_outer t
           ++ foldl (++) Map.empty (mst_levels t))(n \<mapsto> s)
    \<and> old = last (mst_levels t) n"
proof -
  have "mst_declare n s t = Inr t'" using assms by (simp add: mst_declare_def)
  from mst.lookup_declare [OF this] assms show ?thesis
    by (auto simp: mst_get_map_add mst_insert_def symtable_insert_def split: if_splits)
qed

theorem symbol_lookup_order_witness:
  "mst_get (push_level (mst_new 0 [7 \<mapsto> SymFct 3] Map.empty Map.empty)\<lparr>mst_levels := [[7 \<mapsto> SymVar 1]]\<rparr>) =
     ([7 \<mapsto> SymFct 3])(7 \<mapsto> SymVar 1)"
proof -
  let ?t = "push_level (mst_new 0 [7 \<mapsto> SymFct 3] Map.empty Map.empty)"
  have "mst_insert 7 (SymVar 1) ?t = Inr (None, ?t\<lparr>mst_levels := [[7 \<mapsto> SymVar 1]]\<rparr>)"
    by (simp add: mst_insert_def push_level_def mst_new_def symtable_insert_def symtable_new_def)
  from symbol_lookup_order [OF this] show ?thesis
    by (simp add: push_level_def mst_new_def symtable_new_def)
qed

subsection \<open>Visibility\<close>

definition demo_modules :: modules where
  "demo_modules =
     (let (_, pk, ms) = add_package [] [];
          inner = (\<lambda>p v ms. case new_inner ms 0 p v of Inl _ \<Rightarrow> ms | Inr m \<Rightarrow> ms @ [m]);
          ms = inner 0 ModuleVis ms;
          ms = inner 1 Public ms;
          ms = inner 2 Public ms
      in snd (snd (add_package pk ms)))"

lemma demo_tables: "module_tables [0, Suc 3] demo_modules"
proof -
  let ?inner = "\<lambda>p v ms. case new_inner ms 0 p v of Inl _ \<Rightarrow> ms | Inr m \<Rightarrow> ms @ [m]"
  have step: "module_tables [0] (?inner p v ms)"
    if "module_tables [0] ms" "p < length ms" "m_package_id (ms ! p) = Some 0" for p v ms
    using tables_inner [OF that, of v] that(2) by (simp add: new_inner_def Let_def modules_push_def)
  have "module_tables [0] (snd (snd (add_package [] [])))"
    by (rule tables_package [OF tables_empty]) (simp add: add_package_eq)
  then have "module_tables [0] (?inner 2 Public (?inner 1 Public (?inner 0 ModuleVis (snd (snd (add_package [] []))))))"
    by (intro step) (simp_all add: add_package_eq new_inner_def new_top_level_def Let_def)
  from tables_package [OF this add_package_eq] show ?thesis
    by (simp add: demo_modules_def add_package_eq new_inner_def new_top_level_def Let_def numeral_3_eq_3)
qed

text \<open>
  C26. The access check decides the path rule: in every module table the program parser can build,
  \<open>accessible_from\<close> returns, for all modules and visibilities, exactly the answer of the
  specification over paths; its index operations stay in range and its assertions about packages
  and common parents never fire.
\<close>

theorem access_check_decides_path_rule:
  assumes "module_tables packages ms" and "target < length ms" and "user < length ms"
  shows "accessible_from ms target vis user = Inr (access_spec ms target vis user)"
  by (rule accessible_from_correct [OF module_tables_ok [OF assms(1)] assms(2,3)])

theorem access_check_decides_path_rule_witness:
  "accessible_from demo_modules 3 Public 0 = Inr True
   \<and> accessible_from demo_modules 3 Public 4 = Inr False"
proof -
  have len: "length demo_modules = 5" by code_simp
  have "access_spec demo_modules 3 Public 0" "\<not> access_spec demo_modules 3 Public 4" by code_simp+
  with access_check_decides_path_rule [OF demo_tables, of 3 0 Public]
    access_check_decides_path_rule [OF demo_tables, of 3 4 Public] len
  show ?thesis by simp
qed

text \<open>
  Module-private elements are exactly the default-accessible ones: for them the check agrees
  with \<open>is_default_accessible\<close>, that is, only the module itself and the modules inside it may
  use them.
\<close>

theorem private_means_inside:
  assumes "module_tables packages ms" and "target < length ms" and "user < length ms"
  shows "accessible_from ms target ModuleVis user = is_default_accessible ms target user
    \<and> is_default_accessible ms target user = Inr (target \<in> set (path ms user))"
proof -
  have "is_default_accessible ms target user = Inr (target \<in> set (path ms user))"
    using assms(3) by (auto simp: is_default_accessible_def module_contains_def path_def)
  then show ?thesis
    using accessible_from_correct [OF module_tables_ok [OF assms(1)] assms(2,3), of ModuleVis]
    by (simp add: access_spec_def)
qed

theorem private_means_inside_witness:
  "is_default_accessible demo_modules 1 3 = Inr (1 \<in> set (path demo_modules 3))"
proof -
  have "length demo_modules = 5" by code_simp
  with private_means_inside [OF demo_tables, of 1 3] show ?thesis by simp
qed

end
