(* ===== verification/LexTokens.thy ===== *)
theory LexTokens
  imports Prelude "HOL-Library.Char_ord"
begin

text \<open>
  Characters and tokens of the Dora lexer (\<open>dora-parser/src/lexer/token.rs\<close>).  Characters are
  Unicode code points and texts are their lists.
\<close>

type_synonym code = nat
type_synonym chars = "code list"

abbreviation cc :: "char \<Rightarrow> code" where
  "cc c \<equiv> of_char c"

definition str :: "string \<Rightarrow> chars" where
  "str s = map of_char s"

subsection \<open>Characters\<close>

definition len_utf8 :: "code \<Rightarrow> usize" where
  "len_utf8 c = (if c < 128 then 1 else if c < 2048 then 2 else if c < 65536 then 3 else 4)"

primrec byte_len :: "chars \<Rightarrow> usize" where
  "byte_len [] = 0"
| "byte_len (c # cs) = len_utf8 c + byte_len cs"

text \<open>\<open>char::is_digit\<close> and \<open>char::is_whitespace\<close> (the Unicode property \<open>White_Space\<close>).\<close>

definition char_is_digit :: "nat \<Rightarrow> code \<Rightarrow> bool" where
  "char_is_digit radix c =
     (if 48 \<le> c \<and> c \<le> 57 then c - 48 < radix
      else if 97 \<le> c \<and> c \<le> 122 then c - 97 + 10 < radix
      else if 65 \<le> c \<and> c \<le> 90 then c - 65 + 10 < radix
      else False)"

definition char_is_whitespace :: "code \<Rightarrow> bool" where
  "char_is_whitespace c =
     (9 \<le> c \<and> c \<le> 13 \<or> c = 32 \<or> c = 133 \<or> c = 160 \<or> c = 5760 \<or> 8192 \<le> c \<and> c \<le> 8202
      \<or> c = 8232 \<or> c = 8233 \<or> c = 8239 \<or> c = 8287 \<or> c = 12288)"

subsection \<open>Tokens, positions and errors\<close>

datatype int_base = BaseBin | BaseDec | BaseHex

fun base_num :: "int_base \<Rightarrow> nat" where
  "base_num BaseBin = 2"
| "base_num BaseDec = 10"
| "base_num BaseHex = 16"

datatype int_suffix = IntUInt8 | IntInt32 | IntInt64 | IntNone

datatype float_suffix = FloatFloat32 | FloatFloat64

datatype (plugins only: code size) token_kind =
    TkStringTail chars
  | TkStringExpr chars
  | TkLitChar code
  | TkLitInt chars int_base int_suffix
  | TkLitFloat chars float_suffix
  | TkIdentifier chars
  | TkTrue
  | TkFalse
  | TkEnd
  | TkClass
  | TkEnum
  | TkStruct
  | TkTrait
  | TkImpl
  | TkAnnotation
  | TkMod
  | TkUse
  | TkPackage
  | TkExtern
  | TkFn
  | TkLet
  | TkMut
  | TkConst
  | TkReturn
  | TkIf
  | TkElse
  | TkWhile
  | TkFor
  | TkIn
  | TkBreak
  | TkContinue
  | TkMatch
  | TkThis
  | TkSuper
  | TkAs
  | TkAdd
  | TkSub
  | TkMul
  | TkDiv
  | TkModulo
  | TkNot
  | TkOr
  | TkAnd
  | TkCaret
  | TkAndAnd
  | TkOrOr
  | TkEqEq
  | TkNotEq
  | TkEqEqEq
  | TkNeEqEq
  | TkLt
  | TkLe
  | TkGt
  | TkGe
  | TkGtGt
  | TkGtGtGt
  | TkLtLt
  | TkEq
  | TkComma
  | TkSemicolon
  | TkDot
  | TkDotDotDot
  | TkColon
  | TkColonColon
  | TkAt
  | TkArrow
  | TkDoubleArrow
  | TkLParen
  | TkRParen
  | TkLBracket
  | TkRBracket
  | TkLBrace
  | TkRBrace
  | TkType
  | TkAlias
  | TkCapitalThis
  | TkUnderscore

primrec token_name :: "token_kind \<Rightarrow> string" where
  "token_name (TkStringTail val) = ''string tail''"
| "token_name (TkStringExpr val) = ''string epxr''"
| "token_name (TkLitChar val) = ''char''"
| "token_name (TkLitInt val base suffix) = (case suffix of IntUInt8 \<Rightarrow> ''byte number'' | IntInt32 \<Rightarrow> ''int32 number''
       | IntInt64 \<Rightarrow> ''int64 number'' | IntNone \<Rightarrow> ''untyped number'')"
| "token_name (TkLitFloat val suffix) = (case suffix of FloatFloat32 \<Rightarrow> ''float32 number'' | FloatFloat64 \<Rightarrow> ''float64 number'')"
| "token_name (TkIdentifier val) = ''identifier''"
| "token_name TkTrue = ''true''"
| "token_name TkFalse = ''false''"
| "token_name TkEnd = ''<<EOF>>''"
| "token_name TkClass = ''class''"
| "token_name TkEnum = ''enum''"
| "token_name TkStruct = ''struct''"
| "token_name TkTrait = ''trait''"
| "token_name TkImpl = ''impl''"
| "token_name TkAnnotation = ''annotation''"
| "token_name TkMod = ''mod''"
| "token_name TkUse = ''use''"
| "token_name TkPackage = ''package''"
| "token_name TkExtern = ''extern''"
| "token_name TkFn = ''fn''"
| "token_name TkLet = ''let''"
| "token_name TkMut = ''mut''"
| "token_name TkConst = ''const''"
| "token_name TkReturn = ''return''"
| "token_name TkIf = ''if''"
| "token_name TkElse = ''else''"
| "token_name TkWhile = ''while''"
| "token_name TkFor = ''for''"
| "token_name TkIn = ''in''"
| "token_name TkBreak = ''break''"
| "token_name TkContinue = ''continue''"
| "token_name TkMatch = ''match''"
| "token_name TkThis = ''self''"
| "token_name TkSuper = ''super''"
| "token_name TkAs = ''as''"
| "token_name TkAdd = ''+''"
| "token_name TkSub = ''-''"
| "token_name TkMul = ''*''"
| "token_name TkDiv = ''/''"
| "token_name TkModulo = ''%''"
| "token_name TkNot = ''!''"
| "token_name TkOr = ''|''"
| "token_name TkAnd = ''&''"
| "token_name TkCaret = ''^''"
| "token_name TkAndAnd = ''&&''"
| "token_name TkOrOr = ''||''"
| "token_name TkEqEq = ''==''"
| "token_name TkNotEq = ''!=''"
| "token_name TkEqEqEq = ''===''"
| "token_name TkNeEqEq = ''!==''"
| "token_name TkLt = ''<''"
| "token_name TkLe = ''<=''"
| "token_name TkGt = ''>''"
| "token_name TkGe = ''>=''"
| "token_name TkGtGt = ''>>''"
| "token_name TkGtGtGt = ''>>>''"
| "token_name TkLtLt = ''<<''"
| "token_name TkEq = ''=''"
| "token_name TkComma = '',''"
| "token_name TkSemicolon = '';''"
| "token_name TkDot = ''.''"
| "token_name TkDotDotDot = ''...''"
| "token_name TkColon = '':''"
| "token_name TkColonColon = ''::''"
| "token_name TkAt = ''@''"
| "token_name TkArrow = ''->''"
| "token_name TkDoubleArrow = ''=>''"
| "token_name TkLParen = ''(''"
| "token_name TkRParen = '')''"
| "token_name TkLBracket = ''[''"
| "token_name TkRBracket = '']''"
| "token_name TkLBrace = ''{''"
| "token_name TkRBrace = ''}''"
| "token_name TkType = ''type''"
| "token_name TkAlias = ''alias''"
| "token_name TkCapitalThis = ''Self''"
| "token_name TkUnderscore = ''_''"

end
