(* ===== verification/Lexer.thy ===== *)
theory Lexer
  imports LexTokens
begin

text \<open>
  The lexer of the Dora language (\<open>dora-parser/src/lexer.rs\<close> with \<open>reader.rs\<close>, \<open>token.rs\<close> and
  \<open>position.rs\<close>).  Characters are Unicode code points and the source text is their list; the
  reader's index counts UTF-8 bytes, as in the source, and slicing the text at an index that is
  no character boundary panics.  A lexer method returns the reader it leaves behind together with
  a value or a \<open>ParseErrorAndPos\<close>, or panics.  Spans and positions are \<open>u32\<close>.
\<close>

subsection \<open>Positions and errors\<close>

record lex_pos =
  lp_line :: u32
  lp_column :: u32

definition pos_new :: "u32 \<Rightarrow> u32 \<Rightarrow> lex_pos result" where
  "pos_new l c =
     rbind (rassert (l \<ge> 1)) (\<lambda>_.
     rbind (rassert (c \<ge> 1)) (\<lambda>_.
     Inr \<lparr>lp_line = l, lp_column = c\<rparr>))"

record span =
  span_loc :: u32
  span_count :: u32

definition span_new :: "u32 \<Rightarrow> u32 \<Rightarrow> span result" where
  "span_new start count =
     rbind (rassert (start < - 1)) (\<lambda>_. Inr \<lparr>span_loc = start, span_count = count\<rparr>)"

definition span_at :: "u32 \<Rightarrow> span result" where
  "span_at start = rbind (rassert (start < - 1)) (\<lambda>_. Inr \<lparr>span_loc = start, span_count = 0\<rparr>)"

definition span_invalid :: span where
  "span_invalid = \<lparr>span_loc = - 1, span_count = 0\<rparr>"

definition span_is_valid :: "span \<Rightarrow> bool" where
  "span_is_valid s = (span_loc s \<noteq> - 1)"

definition span_start :: "span \<Rightarrow> u32 result" where
  "span_start s = rbind (rassert (span_is_valid s)) (\<lambda>_. Inr (span_loc s))"

definition span_end :: "span \<Rightarrow> u32 result" where
  "span_end s = rbind (span_start s) (\<lambda>start. Inr (start + span_count s))"

record token =
  tok_kind :: token_kind
  tok_position :: lex_pos
  tok_span :: span

datatype parse_error =
    UnknownChar code
  | UnclosedComment
  | UnclosedString
  | UnclosedChar
  | InvalidEscapeSequence code
  | ExpectedTopLevelElement chars
  | UnknownAnnotation chars
  | RedundantAnnotation chars
  | MisplacedAnnotation chars
  | ExpectedToken chars chars
  | ExpectedType chars
  | MisplacedElse
  | ExpectedFactor chars
  | NumberOverflow
  | UnclosedStringTemplate
  | ExpectedIdentifier chars
  | InvalidSuffix chars

subsection \<open>The reader\<close>

record lex_reader =
  lr_content :: chars
  lr_idx :: usize
  lr_pos :: lex_pos
  lr_tabwidth :: u32

definition from_string :: "chars \<Rightarrow> lex_reader" where
  "from_string src = \<lparr>lr_content = src, lr_idx = 0, lr_pos = \<lparr>lp_line = 1, lp_column = 1\<rparr>,
     lr_tabwidth = 4\<rparr>"

definition set_tabwidth :: "u32 \<Rightarrow> lex_reader \<Rightarrow> lex_reader" where
  "set_tabwidth tabwidth r = r\<lparr>lr_tabwidth := tabwidth\<rparr>"

text \<open>\<open>content[i..]\<close>.\<close>

fun slice_from :: "chars \<Rightarrow> usize \<Rightarrow> chars result" where
  "slice_from cs 0 = Inr cs"
| "slice_from [] (Suc i) = Inl IndexOutOfBounds"
| "slice_from (c # cs) (Suc i) =
     (if Suc i < len_utf8 c then Inl IndexOutOfBounds else slice_from cs (Suc i - len_utf8 c))"

fun first_char :: "chars \<Rightarrow> code option" where
  "first_char [] = None"
| "first_char (c # _) = Some c"

definition nth_char :: "lex_reader \<Rightarrow> usize \<Rightarrow> code option result" where
  "nth_char r off =
     (let pos = lr_idx r + off in
      if pos < byte_len (lr_content r)
      then rbind (slice_from (lr_content r) pos) (\<lambda>s. Inr (first_char s))
      else Inr None)"

definition curr :: "lex_reader \<Rightarrow> code option result" where
  "curr r = nth_char r 0"

definition next_char :: "lex_reader \<Rightarrow> code option result" where
  "next_char r = nth_char r 1"

text \<open>Line and column are \<open>u32\<close>; their sums wrap here as in a release build.  They cannot reach \<open>2^32\<close> in a text
  of the size that the theorems assume.\<close>

definition advance_pos :: "lex_reader \<Rightarrow> code \<Rightarrow> lex_pos result" where
  "advance_pos r c =
     (let p = lr_pos r in
      if c = 10 then pos_new (lp_line p + 1) 1
      else if c = 9 then
        (if lr_tabwidth r = 0 then Inl ArithmeticOverflow
         else let tabdepth = (lp_column p - 1) div lr_tabwidth r;
                  col = 1 + lr_tabwidth r * (tabdepth + 1)
              in pos_new (lp_line p) col)
      else pos_new (lp_line p) (lp_column p + 1))"

definition advance :: "lex_reader \<Rightarrow> (code option \<times> lex_reader) result" where
  "advance r =
     rbind (curr r) (\<lambda>ch.
     case ch of
       None \<Rightarrow> Inl ExplicitPanic
     | Some c \<Rightarrow>
         rbind (advance_pos r c) (\<lambda>p.
         (let r = r\<lparr>lr_pos := p, lr_idx := lr_idx r + len_utf8 c\<rparr> in
          rbind (curr r) (\<lambda>n. Inr (n, r)))))"

definition reader_idx :: "lex_reader \<Rightarrow> u32" where
  "reader_idx r = as_u32 (lr_idx r)"

definition read_char :: "lex_reader \<Rightarrow> lex_reader result" where
  "read_char r = rbind (advance r) (\<lambda>(_, r). Inr r)"

subsection \<open>Character classes of the lexer\<close>

fun is_digit :: "code option \<Rightarrow> bool" where
  "is_digit (Some c) = char_is_digit 10 c"
| "is_digit None = False"

fun is_digit_or_underscore :: "code option \<Rightarrow> int_base \<Rightarrow> bool" where
  "is_digit_or_underscore (Some c) base = (char_is_digit (base_num base) c \<or> c = cc CHR ''_'')"
| "is_digit_or_underscore None base = False"

fun is_whitespace :: "code option \<Rightarrow> bool" where
  "is_whitespace (Some c) = char_is_whitespace c"
| "is_whitespace None = False"

definition is_newline :: "code option \<Rightarrow> bool" where
  "is_newline ch = (ch = Some 10)"

definition is_quote :: "code option \<Rightarrow> bool" where
  "is_quote ch = (ch = Some 34)"

definition is_char_quote :: "code option \<Rightarrow> bool" where
  "is_char_quote ch = (ch = Some 39)"

definition operator_chars :: chars where
  "operator_chars = str ''^+-*/%&|,=!~;:.()[]{}<>@''"

fun is_operator :: "code option \<Rightarrow> bool" where
  "is_operator (Some c) = (c \<in> set operator_chars)"
| "is_operator None = False"

fun is_identifier_start :: "code option \<Rightarrow> bool" where
  "is_identifier_start (Some c) =
     (cc CHR ''a'' \<le> c \<and> c \<le> cc CHR ''z'' \<or> cc CHR ''A'' \<le> c \<and> c \<le> cc CHR ''Z'' \<or> c = cc CHR ''_'')"
| "is_identifier_start None = False"

definition is_identifier :: "code option \<Rightarrow> bool" where
  "is_identifier ch = (is_identifier_start ch \<or> is_digit ch)"

definition keyword_map :: "(chars \<times> token_kind) list" where
  "keyword_map = map (\<lambda>(s, k). (str s, k))
     [(''true'', TkTrue),
      (''false'', TkFalse),
      (''class'', TkClass),
      (''enum'', TkEnum),
      (''struct'', TkStruct),
      (''trait'', TkTrait),
      (''impl'', TkImpl),
      (''annotation'', TkAnnotation),
      (''mod'', TkMod),
      (''use'', TkUse),
      (''package'', TkPackage),
      (''fn'', TkFn),
      (''let'', TkLet),
      (''mut'', TkMut),
      (''const'', TkConst),
      (''return'', TkReturn),
      (''if'', TkIf),
      (''else'', TkElse),
      (''while'', TkWhile),
      (''for'', TkFor),
      (''in'', TkIn),
      (''break'', TkBreak),
      (''continue'', TkContinue),
      (''match'', TkMatch),
      (''self'', TkThis),
      (''super'', TkSuper),
      (''as'', TkAs),
      (''type'', TkType),
      (''alias'', TkAlias),
      (''Self'', TkCapitalThis)]"

subsection \<open>Reading advances\<close>

type_synonym 'a lres = "(((parse_error \<times> lex_pos) + 'a) \<times> lex_reader) result"

definition left :: "lex_reader \<Rightarrow> nat" where
  "left r = byte_len (lr_content r) - lr_idx r"

lemma len_utf8_pos [simp]: "0 < len_utf8 c"
  by (simp add: len_utf8_def)

lemma curr_Some_less: "curr r = Inr (Some c) \<Longrightarrow> lr_idx r < byte_len (lr_content r)"
  by (auto simp: curr_def nth_char_def Let_def split: if_splits)

lemma read_char_Inr:
  assumes "read_char r = Inr r'"
  shows "\<exists>c p. curr r = Inr (Some c) \<and> advance_pos r c = Inr p
    \<and> r' = r\<lparr>lr_pos := p, lr_idx := lr_idx r + len_utf8 c\<rparr>"
  using assms
  by (auto simp: read_char_def advance_def rbind_eq_Inr_iff Let_def split: option.splits)

lemma read_char_left: "read_char r = Inr r' \<Longrightarrow> left r' < left r"
  using read_char_Inr [of r r'] curr_Some_less [of r] len_utf8_pos
  by (fastforce simp: left_def intro: diff_less_mono2)

subsection \<open>White space and comments\<close>

function skip_white :: "lex_reader \<Rightarrow> lex_reader result" where
  "skip_white r =
     rbind (curr r) (\<lambda>ch.
     if is_whitespace ch then rbind (read_char r) skip_white else Inr r)"
  by pat_completeness auto
termination
  by (relation "measure left") (auto dest: read_char_left)

definition is_comment_start :: "lex_reader \<Rightarrow> bool result" where
  "is_comment_start r =
     rbind (curr r) (\<lambda>c. if c = Some (cc CHR ''/'') then rbind (next_char r) (\<lambda>n. Inr (n = Some (cc CHR ''/'')))
                        else Inr False)"

definition is_multi_comment_start :: "lex_reader \<Rightarrow> bool result" where
  "is_multi_comment_start r =
     rbind (curr r) (\<lambda>c. if c = Some (cc CHR ''/'') then rbind (next_char r) (\<lambda>n. Inr (n = Some (cc CHR ''*'')))
                        else Inr False)"

definition is_multi_comment_end :: "lex_reader \<Rightarrow> bool result" where
  "is_multi_comment_end r =
     rbind (curr r) (\<lambda>c. if c = Some (cc CHR ''*'') then rbind (next_char r) (\<lambda>n. Inr (n = Some (cc CHR ''/'')))
                        else Inr False)"

function skip_line :: "lex_reader \<Rightarrow> lex_reader result" where
  "skip_line r =
     rbind (curr r) (\<lambda>ch.
     if ch \<noteq> None \<and> \<not> is_newline ch then rbind (read_char r) skip_line else Inr r)"
  by pat_completeness auto
termination
  by (relation "measure left") (auto dest: read_char_left)

definition read_comment :: "lex_reader \<Rightarrow> unit lres" where
  "read_comment r = rbind (skip_line r) (\<lambda>r. Inr (Inr (), r))"

function skip_to_comment_end :: "lex_reader \<Rightarrow> lex_reader result" where
  "skip_to_comment_end r =
     rbind (curr r) (\<lambda>ch.
     if ch = None then Inr r
     else rbind (is_multi_comment_end r) (\<lambda>fin.
          if fin then Inr r else rbind (read_char r) skip_to_comment_end))"
  by pat_completeness auto
termination
  by (relation "measure left") (auto dest: read_char_left)

definition read_multi_comment :: "lex_reader \<Rightarrow> unit lres" where
  "read_multi_comment r =
     (let pos = lr_pos r in
      rbind (read_char r) (\<lambda>r.
      rbind (read_char r) (\<lambda>r.
      rbind (skip_to_comment_end r) (\<lambda>r.
      rbind (curr r) (\<lambda>ch.
      if ch = None then Inr (Inl (UnclosedComment, pos), r)
      else rbind (read_char r) (\<lambda>r.
           rbind (read_char r) (\<lambda>r.
           Inr (Inr (), r))))))))"

subsection \<open>Identifiers, characters and strings\<close>

definition span_from :: "lex_reader \<Rightarrow> u32 \<Rightarrow> span result" where
  "span_from r start = span_new start (reader_idx r - start)"

definition token_new :: "token_kind \<Rightarrow> lex_pos \<Rightarrow> span \<Rightarrow> token" where
  "token_new kind pos sp = \<lparr>tok_kind = kind, tok_position = pos, tok_span = sp\<rparr>"

definition finish_token :: "token_kind \<Rightarrow> lex_pos \<Rightarrow> u32 \<Rightarrow> lex_reader \<Rightarrow> token lres" where
  "finish_token kind pos idx r =
     rbind (span_from r idx) (\<lambda>sp. Inr (Inr (token_new kind pos sp), r))"

function read_identifier_as_string :: "lex_reader \<Rightarrow> (chars \<times> lex_reader) result" where
  "read_identifier_as_string r =
     rbind (curr r) (\<lambda>ch.
     if is_identifier ch then
       rbind (read_char r) (\<lambda>r.
       rbind (read_identifier_as_string r) (\<lambda>(value, r). Inr (the ch # value, r)))
     else Inr ([], r))"
  by pat_completeness auto
termination
  by (relation "measure left") (auto dest: read_char_left)

definition read_identifier :: "lex_reader \<Rightarrow> token lres" where
  "read_identifier r =
     (let pos = lr_pos r; idx = reader_idx r in
      rbind (read_identifier_as_string r) (\<lambda>(value, r).
      (let ttype = (case map_of keyword_map value of
                      Some tok_type \<Rightarrow> tok_type
                    | None \<Rightarrow> if value = str ''_'' then TkUnderscore else TkIdentifier value) in
       finish_token ttype pos idx r)))"

definition unescape :: "code \<Rightarrow> code option" where
  "unescape ch =
     (if ch = 92 then Some 92
      else if ch = cc CHR ''n'' then Some 10
      else if ch = cc CHR ''t'' then Some 9
      else if ch = cc CHR ''r'' then Some 13
      else if ch = 34 then Some 34
      else if ch = 39 then Some 39
      else if ch = cc CHR ''0'' then Some 0
      else if ch = cc CHR ''$'' then Some (cc CHR ''$'')
      else None)"

definition read_escaped_char :: "lex_pos \<Rightarrow> parse_error \<Rightarrow> lex_reader \<Rightarrow> code lres" where
  "read_escaped_char pos unclosed r =
     rbind (curr r) (\<lambda>ch.
     case ch of
       None \<Rightarrow> Inr (Inl (unclosed, pos), r)
     | Some c \<Rightarrow>
         rbind (read_char r) (\<lambda>r.
         if c = 92 then
           rbind (curr r) (\<lambda>ch.
           case ch of
             None \<Rightarrow> Inr (Inl (unclosed, pos), r)
           | Some c \<Rightarrow>
               rbind (read_char r) (\<lambda>r.
               case unescape c of
                 Some v \<Rightarrow> Inr (Inr v, r)
               | None \<Rightarrow> Inr (Inl (InvalidEscapeSequence c, pos), r)))
         else Inr (Inr c, r)))"

definition read_char_literal :: "lex_reader \<Rightarrow> token lres" where
  "read_char_literal r =
     (let pos = lr_pos r; idx = reader_idx r in
      rbind (read_char r) (\<lambda>r.
      rbind (read_escaped_char pos UnclosedChar r) (\<lambda>(res, r).
      case res of
        Inl e \<Rightarrow> Inr (Inl e, r)
      | Inr ch \<Rightarrow>
          rbind (curr r) (\<lambda>q.
          if is_char_quote q then
            rbind (read_char r) (\<lambda>r. finish_token (TkLitChar ch) pos idx r)
          else Inr (Inl (UnclosedChar, pos), r)))))"

lemma read_escaped_char_left:
  "read_escaped_char pos unclosed r = Inr (Inr ch, r') \<Longrightarrow> left r' < left r"
  by (fastforce simp: read_escaped_char_def rbind_eq_Inr_iff split: option.splits if_splits
      dest: read_char_left)

text \<open>The loop of \<open>read_string\<close>; the accumulated text is its argument, and the result says
  whether the string ended in a template expression.\<close>

function read_string_loop :: "lex_pos \<Rightarrow> chars \<Rightarrow> lex_reader \<Rightarrow> (bool \<times> chars) lres" where
  "read_string_loop pos value r =
     rbind (curr r) (\<lambda>ch.
     if ch = None \<or> is_quote ch then Inr (Inr (False, value), r)
     else
       rbind (if ch = Some (cc CHR ''$'') then next_char r else Inr None) (\<lambda>n.
       if ch = Some (cc CHR ''$'') \<and> n = Some (cc CHR ''{'') then
         rbind (read_char r) (\<lambda>r.
         rbind (read_char r) (\<lambda>r.
         Inr (Inr (True, value), r)))
       else
         rbind (read_escaped_char pos UnclosedString r) (\<lambda>x.
         case x of
           (Inl e, r) \<Rightarrow> Inr (Inl e, r)
         | (Inr c, r) \<Rightarrow> read_string_loop pos (value @ [c]) r)))"
  by pat_completeness auto
termination
  by (relation "measure (\<lambda>(_, _, r). left r)") (auto dest: read_escaped_char_left)

definition read_string :: "bool \<Rightarrow> lex_reader \<Rightarrow> token lres" where
  "read_string skip_quote r =
     (let pos = lr_pos r; idx = reader_idx r in
      rbind (if skip_quote then
               rbind (curr r) (\<lambda>ch.
               rbind (rassert (ch = Some 34)) (\<lambda>_.
               read_char r))
             else Inr r) (\<lambda>r.
      rbind (read_string_loop pos [] r) (\<lambda>(res, r).
      case res of
        Inl e \<Rightarrow> Inr (Inl e, r)
      | Inr (True, value) \<Rightarrow> finish_token (TkStringExpr value) pos idx r
      | Inr (False, value) \<Rightarrow>
          rbind (curr r) (\<lambda>ch.
          if is_quote ch then
            rbind (read_char r) (\<lambda>r. finish_token (TkStringTail value) pos idx r)
          else Inr (Inl (UnclosedString, pos), r)))))"

definition read_string_continuation :: "lex_reader \<Rightarrow> token lres" where
  "read_string_continuation r = read_string False r"

subsection \<open>Operators\<close>

text \<open>The operator a character starts, given the two characters behind it, and how many of these
  belong to it; \<open>None\<close> where the source reports an unknown character.\<close>

definition operator_kind :: "code \<Rightarrow> code \<Rightarrow> code \<Rightarrow> (token_kind \<times> nat) option" where
  "operator_kind ch nch nnch =
     (if ch = cc CHR ''+'' then Some (TkAdd, 0)
      else if ch = cc CHR ''-'' then (if nch = cc CHR ''>'' then Some (TkArrow, 1) else Some (TkSub, 0))
      else if ch = cc CHR ''*'' then Some (TkMul, 0)
      else if ch = cc CHR ''/'' then Some (TkDiv, 0)
      else if ch = cc CHR ''%'' then Some (TkModulo, 0)
      else if ch = cc CHR ''('' then Some (TkLParen, 0)
      else if ch = cc CHR '')'' then Some (TkRParen, 0)
      else if ch = cc CHR ''['' then Some (TkLBracket, 0)
      else if ch = cc CHR '']'' then Some (TkRBracket, 0)
      else if ch = cc CHR ''{'' then Some (TkLBrace, 0)
      else if ch = cc CHR ''}'' then Some (TkRBrace, 0)
      else if ch = cc CHR ''|'' then (if nch = cc CHR ''|'' then Some (TkOrOr, 1) else Some (TkOr, 0))
      else if ch = cc CHR ''&'' then (if nch = cc CHR ''&'' then Some (TkAndAnd, 1) else Some (TkAnd, 0))
      else if ch = cc CHR ''^'' then Some (TkCaret, 0)
      else if ch = cc CHR '','' then Some (TkComma, 0)
      else if ch = cc CHR '';'' then Some (TkSemicolon, 0)
      else if ch = cc CHR '':'' then (if nch = cc CHR '':'' then Some (TkColonColon, 1) else Some (TkColon, 0))
      else if ch = cc CHR ''.'' then
        (if nch = cc CHR ''.'' \<and> nnch = cc CHR ''.'' then Some (TkDotDotDot, 2) else Some (TkDot, 0))
      else if ch = cc CHR ''='' then
        (if nch = cc CHR ''='' then (if nnch = cc CHR ''='' then Some (TkEqEqEq, 2) else Some (TkEqEq, 1))
         else if nch = cc CHR ''>'' then Some (TkDoubleArrow, 1)
         else Some (TkEq, 0))
      else if ch = cc CHR ''<'' then
        (if nch = cc CHR ''='' then Some (TkLe, 1)
         else if nch = cc CHR ''<'' then Some (TkLtLt, 1)
         else Some (TkLt, 0))
      else if ch = cc CHR ''>'' then
        (if nch = cc CHR ''='' then Some (TkGe, 1)
         else if nch = cc CHR ''>'' then (if nnch = cc CHR ''>'' then Some (TkGtGtGt, 2) else Some (TkGtGt, 1))
         else Some (TkGt, 0))
      else if ch = cc CHR ''!'' then
        (if nch = cc CHR ''='' then (if nnch = cc CHR ''='' then Some (TkNeEqEq, 2) else Some (TkNotEq, 1))
         else Some (TkNot, 0))
      else if ch = cc CHR ''@'' then Some (TkAt, 0)
      else None)"

primrec read_chars :: "nat \<Rightarrow> lex_reader \<Rightarrow> lex_reader result" where
  "read_chars 0 r = Inr r"
| "read_chars (Suc n) r = rbind (read_char r) (read_chars n)"

definition unwrap_or :: "code option \<Rightarrow> code \<Rightarrow> code" where
  "unwrap_or x d = (case x of None \<Rightarrow> d | Some c \<Rightarrow> c)"

definition read_operator :: "lex_reader \<Rightarrow> token lres" where
  "read_operator r =
     (let pos = lr_pos r; idx = reader_idx r in
      rbind (curr r) (\<lambda>c.
      rbind (rexpect c) (\<lambda>ch.
      rbind (read_char r) (\<lambda>r.
      rbind (curr r) (\<lambda>n.
      rbind (next_char r) (\<lambda>nn.
      (let nch = unwrap_or n (cc CHR ''x''); nnch = unwrap_or nn (cc CHR ''x'') in
       case operator_kind ch nch nnch of
         None \<Rightarrow> Inr (Inl (UnknownChar ch, pos), r)
       | Some (kind, extra) \<Rightarrow>
           rbind (read_chars extra r) (\<lambda>r. finish_token kind pos idx r))))))))"

subsection \<open>Numbers\<close>

function read_digits :: "int_base \<Rightarrow> lex_reader \<Rightarrow> (chars \<times> lex_reader) result" where
  "read_digits base r =
     rbind (curr r) (\<lambda>ch.
     if is_digit_or_underscore ch base then
       rbind (read_char r) (\<lambda>r.
       rbind (read_digits base r) (\<lambda>(value, r). Inr (the ch # value, r)))
     else Inr ([], r))"
  by pat_completeness auto
termination
  by (relation "measure (\<lambda>(_, r). left r)") (auto dest: read_char_left)

definition read_number_as_float :: "lex_pos \<Rightarrow> u32 \<Rightarrow> chars \<Rightarrow> lex_reader \<Rightarrow> token lres" where
  "read_number_as_float pos idx value r =
     rbind (read_char r) (\<lambda>r.
     (let value = value @ [cc CHR ''.''] in
      rbind (read_digits BaseDec r) (\<lambda>(ds, r).
      (let value = value @ ds in
       rbind (curr r) (\<lambda>e.
       rbind (if e = Some (cc CHR ''e'') \<or> e = Some (cc CHR ''E'') then
                (let value = value @ [the e] in
                 rbind (read_char r) (\<lambda>r.
                 rbind (curr r) (\<lambda>s.
                 rbind (if s = Some (cc CHR ''+'') \<or> s = Some (cc CHR ''-'')
                        then rbind (read_char r) (\<lambda>r. Inr (value @ [the s], r))
                        else Inr (value, r)) (\<lambda>(value, r).
                 rbind (read_digits BaseDec r) (\<lambda>(ds, r). Inr (value @ ds, r))))))
              else Inr (value, r)) (\<lambda>(value, r).
       rbind (curr r) (\<lambda>ch.
       if is_identifier_start ch then
         rbind (read_identifier_as_string r) (\<lambda>(suffix, r).
         if suffix = str ''f32'' then finish_token (TkLitFloat value FloatFloat32) pos idx r
         else if suffix = str ''f64'' then finish_token (TkLitFloat value FloatFloat64) pos idx r
         else Inr (Inl (InvalidSuffix suffix, pos), r))
       else finish_token (TkLitFloat value FloatFloat64) pos idx r)))))))"

definition number_base :: "lex_reader \<Rightarrow> (int_base \<times> lex_reader) result" where
  "number_base r =
     rbind (curr r) (\<lambda>ch.
     if ch = Some (cc CHR ''0'') then
       rbind (next_char r) (\<lambda>n.
       if n = Some (cc CHR ''x'') then rbind (read_chars 2 r) (\<lambda>r. Inr (BaseHex, r))
       else if n = Some (cc CHR ''b'') then rbind (read_chars 2 r) (\<lambda>r. Inr (BaseBin, r))
       else Inr (BaseDec, r))
     else Inr (BaseDec, r))"

definition number_kind :: "chars \<Rightarrow> int_base \<Rightarrow> chars \<Rightarrow> token_kind option" where
  "number_kind value base suffix =
     (if suffix = str ''u8'' then Some (TkLitInt value base IntUInt8)
      else if suffix = str ''i32'' then Some (TkLitInt value base IntInt32)
      else if suffix = str ''i64'' then Some (TkLitInt value base IntInt64)
      else if suffix = str ''f32'' \<and> base = BaseDec then Some (TkLitFloat value FloatFloat32)
      else if suffix = str ''f64'' \<and> base = BaseDec then Some (TkLitFloat value FloatFloat64)
      else None)"

definition read_number :: "lex_reader \<Rightarrow> token lres" where
  "read_number r =
     (let pos = lr_pos r; idx = reader_idx r in
      rbind (number_base r) (\<lambda>(base, r).
      rbind (read_digits base r) (\<lambda>(value, r).
      rbind (curr r) (\<lambda>ch.
      rbind (if base = BaseDec \<and> ch = Some (cc CHR ''.'') then next_char r else Inr None) (\<lambda>n.
      if base = BaseDec \<and> ch = Some (cc CHR ''.'') \<and> is_digit n then
        read_number_as_float pos idx value r
      else if is_identifier_start ch then
        rbind (read_identifier_as_string r) (\<lambda>(suffix, r).
        case number_kind value base suffix of
          Some kind \<Rightarrow> finish_token kind pos idx r
        | None \<Rightarrow> Inr (Inl (InvalidSuffix suffix, pos), r))
      else finish_token (TkLitInt value base IntNone) pos idx r)))))"

subsection \<open>Tokens\<close>

definition later_reader :: "lex_reader \<Rightarrow> lex_reader \<Rightarrow> bool" where
  "later_reader r r' = (lr_content r' = lr_content r \<and> lr_idx r \<le> lr_idx r' \<and> lr_tabwidth r' = lr_tabwidth r)"

lemma later_reader_refl [simp]: "later_reader r r"
  by (simp add: later_reader_def)

lemma later_reader_trans: "later_reader r s \<Longrightarrow> later_reader s t \<Longrightarrow> later_reader r t"
  by (simp add: later_reader_def)

lemma later_reader_left: "later_reader r r' \<Longrightarrow> left r' \<le> left r"
  by (auto simp: later_reader_def left_def)

lemma read_char_later: "read_char r = Inr r' \<Longrightarrow> later_reader r r'"
  by (auto simp: later_reader_def dest!: read_char_Inr)

declare skip_white.simps [simp del] skip_line.simps [simp del] skip_to_comment_end.simps [simp del]
declare read_identifier_as_string.simps [simp del] read_string_loop.simps [simp del] read_digits.simps [simp del]

lemma skip_white_later: "skip_white r = Inr r' \<Longrightarrow> later_reader r r'"
proof (induction r rule: skip_white.induct)
  case (1 r)
  from "1.prems" show ?case
    by (subst (asm) skip_white.simps)
       (auto simp: rbind_eq_Inr_iff split: if_splits
         intro: later_reader_trans [OF read_char_later] dest: "1.IH")
qed

lemma skip_line_later: "skip_line r = Inr r' \<Longrightarrow> later_reader r r'"
proof (induction r rule: skip_line.induct)
  case (1 r)
  from "1.prems" show ?case
    by (subst (asm) skip_line.simps)
       (auto simp: rbind_eq_Inr_iff split: if_splits
         intro: later_reader_trans [OF read_char_later] dest: "1.IH")
qed

lemma skip_to_comment_end_later: "skip_to_comment_end r = Inr r' \<Longrightarrow> later_reader r r'"
proof (induction r rule: skip_to_comment_end.induct)
  case (1 r)
  from "1.prems" show ?case
    by (subst (asm) skip_to_comment_end.simps)
       (auto simp: rbind_eq_Inr_iff split: if_splits
         intro: later_reader_trans [OF read_char_later] dest: "1.IH")
qed

lemma read_multi_comment_left: "read_multi_comment r = Inr (Inr u, r') \<Longrightarrow> left r' < left r"
  by (fastforce simp: read_multi_comment_def rbind_eq_Inr_iff Let_def split: if_splits
      dest: read_char_left skip_to_comment_end_later [THEN later_reader_left])

lemma read_comment_left:
  assumes "is_comment_start r = Inr True" and "read_comment r = Inr (Inr u, r')"
  shows "left r' < left r"
proof -
  from assms(1) have c: "curr r = Inr (Some (cc CHR ''/''))"
    by (auto simp: is_comment_start_def rbind_eq_Inr_iff split: if_splits)
  with assms(2) obtain r1 where "read_char r = Inr r1" "skip_line r1 = Inr r'"
    by (subst (asm) read_comment_def, subst (asm) skip_line.simps)
       (auto simp: rbind_eq_Inr_iff is_newline_def)
  with read_char_left skip_line_later [THEN later_reader_left] show ?thesis
    by (meson le_less_trans)
qed

function read_token :: "lex_reader \<Rightarrow> token lres" where
  "read_token r0 =
     rbind (skip_white r0) (\<lambda>r.
     (let pos = lr_pos r; idx = reader_idx r in
      rbind (curr r) (\<lambda>ch.
      if ch = None then rbind (span_at idx) (\<lambda>sp. Inr (Inr (token_new TkEnd pos sp), r))
      else if is_digit ch then read_number r
      else
        rbind (is_comment_start r) (\<lambda>comment.
        if comment then
          rbind (read_comment r) (\<lambda>x.
          case x of (Inl e, r) \<Rightarrow> Inr (Inl e, r) | (Inr _, r) \<Rightarrow> read_token r)
        else
          rbind (is_multi_comment_start r) (\<lambda>multi.
          if multi then
            rbind (read_multi_comment r) (\<lambda>x.
            case x of (Inl e, r) \<Rightarrow> Inr (Inl e, r) | (Inr _, r) \<Rightarrow> read_token r)
          else if is_identifier_start ch then read_identifier r
          else if is_quote ch then read_string True r
          else if is_char_quote ch then read_char_literal r
          else if is_operator ch then read_operator r
          else Inr (Inl (UnknownChar (the ch), pos), r))))))"
  by pat_completeness auto
termination
proof (relation "measure left", goal_cases)
  case 1
  show ?case by simp
next
  case (2 r0 r)
  then show ?case
    by (auto dest!: skip_white_later [THEN later_reader_left] read_comment_left)
next
  case (3 r0 r)
  then show ?case
    by (auto dest!: skip_white_later [THEN later_reader_left] read_multi_comment_left)
qed

declare read_token.simps [simp del]

subsection \<open>Readers at a place in the text\<close>

text \<open>The text split at the reader's index, with positions that cannot have overflowed.\<close>

definition reader_at :: "lex_reader \<Rightarrow> chars \<Rightarrow> chars \<Rightarrow> bool" where
  "reader_at r pre post =
     (lr_content r = pre @ post \<and> lr_idx r = byte_len pre \<and> lr_tabwidth r = 4
      \<and> byte_len (pre @ post) < 2 ^ 28
      \<and> 1 \<le> unat (lp_line (lr_pos r)) \<and> unat (lp_line (lr_pos r)) \<le> 1 + byte_len pre
      \<and> 1 \<le> unat (lp_column (lr_pos r)) \<and> unat (lp_column (lr_pos r)) \<le> 1 + 4 * byte_len pre)"

lemma byte_len_append [simp]: "byte_len (xs @ ys) = byte_len xs + byte_len ys"
  by (induction xs) simp_all

lemma slice_from_append [simp]: "slice_from (pre @ post) (byte_len pre) = Inr post"
proof (induction pre)
  case (Cons c pre)
  obtain n where n: "len_utf8 c = Suc n" using gr0_implies_Suc [OF len_utf8_pos] by blast
  then have "slice_from ((c # pre) @ post) (byte_len (c # pre)) = slice_from (pre @ post) (byte_len pre)"
    by simp
  with Cons show ?case by simp
qed simp

lemma reader_at_from_string: "byte_len src < 2 ^ 28 \<Longrightarrow> reader_at (from_string src) [] src"
  by (simp add: reader_at_def from_string_def)

lemma curr_at: "reader_at r pre post \<Longrightarrow> curr r = Inr (first_char post)"
  by (cases post) (simp_all add: reader_at_def curr_def nth_char_def Let_def)

lemma next_char_at:
  assumes "reader_at r pre (c # post)" and "c < 128"
  shows "next_char r = Inr (first_char post)"
proof -
  have "lr_content r = (pre @ [c]) @ post" "lr_idx r + 1 = byte_len (pre @ [c])"
    using assms by (simp_all add: reader_at_def len_utf8_def)
  with slice_from_append [of "pre @ [c]" post] show ?thesis
    by (cases post) (simp_all add: next_char_def nth_char_def Let_def del: slice_from_append)
qed

lemma next_char_at_end: "reader_at r pre [] \<Longrightarrow> next_char r = Inr None"
  by (simp add: reader_at_def next_char_def nth_char_def Let_def)

lemma slice_inside:
  assumes "1 < len_utf8 c"
  shows "slice_from (pre @ c # post) (byte_len pre + 1) = Inl IndexOutOfBounds"
proof (induction pre)
  case Nil
  with assms show ?case by (simp add: numeral_eq_Suc)
next
  case (Cons d pre)
  obtain n where n: "len_utf8 d = Suc n" using gr0_implies_Suc [OF len_utf8_pos] by blast
  with Cons show ?case by simp
qed

lemma next_char_inside:
  assumes "reader_at r pre (c # post)" and "128 \<le> c"
  shows "next_char r = Inl IndexOutOfBounds"
proof -
  have "1 < len_utf8 c" using assms(2) by (simp add: len_utf8_def)
  with slice_inside [OF this, of pre post] assms(1) show ?thesis
    by (simp add: reader_at_def next_char_def nth_char_def Let_def)
qed

lemma len_utf8_le: "len_utf8 c \<le> 4"
  by (simp add: len_utf8_def)

text \<open>Positions stay in range, so advancing never panics.\<close>

lemma unat_plus_small: "unat a + unat b < 2 ^ 32 \<Longrightarrow> unat (a + b) = unat a + unat b" for a b :: u32
  by (simp add: unat_word_ariths)

lemma tab_column:
  fixes col :: u32
  assumes "1 \<le> unat col" and "unat col < 2 ^ 31"
  shows "1 \<le> unat (1 + 4 * ((col - 1) div 4 + 1)) \<and> unat (1 + 4 * ((col - 1) div 4 + 1)) \<le> unat col + 4"
proof -
  have m: "unat (col - 1) = unat col - 1" using assms(1) by (simp add: unat_sub word_le_nat_alt)
  have "unat ((col - 1) div 4) = (unat col - 1) div 4" using m by (simp add: unat_div)
  moreover have b: "(unat col - 1) div 4 \<le> 2 ^ 29" using assms(2) by auto
  ultimately have q: "unat ((col - 1) div 4 + 1) = (unat col - 1) div 4 + 1"
    by (subst unat_plus_small) auto
  define q where "q = (col - 1) div 4 + 1"
  have "unat q = (unat col - 1) div 4 + 1" using q by (simp add: q_def)
  then have "unat (4 * q) = 4 * ((unat col - 1) div 4 + 1)"
    using b by (simp add: unat_word_ariths)
  then have "unat (1 + 4 * q) = 1 + 4 * ((unat col - 1) div 4 + 1)"
    using b by (subst unat_plus_small) auto
  then show ?thesis using assms by (auto simp: q_def)
qed

lemma advance_pos_at:
  assumes "reader_at r pre (c # post)"
  shows "\<exists>p. advance_pos r c = Inr p
    \<and> 1 \<le> unat (lp_line p) \<and> unat (lp_line p) \<le> 1 + byte_len (pre @ [c])
    \<and> 1 \<le> unat (lp_column p) \<and> unat (lp_column p) \<le> 1 + 4 * byte_len (pre @ [c])"
proof -
  let ?l = "lp_line (lr_pos r)" and ?c = "lp_column (lr_pos r)"
  have b: "byte_len pre < 2 ^ 28" "1 \<le> unat ?l" "unat ?l \<le> 1 + byte_len pre"
    "1 \<le> unat ?c" "unat ?c \<le> 1 + 4 * byte_len pre"
    using assms by (simp_all add: reader_at_def)
  have l: "unat (?l + 1) = unat ?l + 1" using b by (subst unat_plus_small) simp_all
  have cl: "unat (?c + 1) = unat ?c + 1" using b by (subst unat_plus_small) simp_all
  have pos: "1 \<le> w \<longleftrightarrow> 1 \<le> unat w" for w :: u32 by (simp add: word_le_nat_alt)
  have len: "1 \<le> len_utf8 c" by (simp add: len_utf8_def)
  have t: "1 \<le> unat (1 + 4 * ((?c - 1) div 4 + 1)) \<and> unat (1 + 4 * ((?c - 1) div 4 + 1)) \<le> unat ?c + 4"
    using b by (intro tab_column) simp_all
  have tw: "lr_tabwidth r = 4" using assms by (simp add: reader_at_def)
  consider "c = 10" | "c = 9" | "c \<noteq> 10" "c \<noteq> 9" by blast
  then show ?thesis
  proof cases
    case 1
    then show ?thesis using b l len by (simp add: advance_pos_def pos_new_def pos Let_def)
  next
    case 2
    then show ?thesis using b t len tw by (simp add: advance_pos_def pos_new_def pos Let_def)
  next
    case 3
    then show ?thesis using b cl len by (simp add: advance_pos_def pos_new_def pos Let_def)
  qed
qed

lemma read_char_at:
  assumes "reader_at r pre (c # post)"
  shows "\<exists>r'. read_char r = Inr r' \<and> reader_at r' (pre @ [c]) post"
proof -
  obtain p where p: "advance_pos r c = Inr p"
    "1 \<le> unat (lp_line p)" "unat (lp_line p) \<le> 1 + byte_len (pre @ [c])"
    "1 \<le> unat (lp_column p)" "unat (lp_column p) \<le> 1 + 4 * byte_len (pre @ [c])"
    using advance_pos_at [OF assms] by blast
  let ?r' = "r\<lparr>lr_pos := p, lr_idx := lr_idx r + len_utf8 c\<rparr>"
  have at: "reader_at ?r' (pre @ [c]) post" using assms p by (simp add: reader_at_def)
  then show ?thesis
    using curr_at [OF assms] curr_at [OF at] p(1) by (simp add: read_char_def advance_def Let_def)
qed

end
