(* ===== verification/LexerProgress.thy ===== *)
theory LexerProgress
  imports Lexer
begin

text \<open>
  How the lexer moves through the text.  The two loops that skip characters and the two that
  collect them are instances of two contracts, so that what they consume is proved once.  On top
  of them every method of the lexer is shown to return with the reader at a later place of the
  text, the tokens' spans to be the text read, and written strings, names and operators to be
  recognised.
\<close>

subsection \<open>Loops over the text\<close>

fun holds :: "(code \<Rightarrow> bool) \<Rightarrow> code option \<Rightarrow> bool" where
  "holds P None = False"
| "holds P (Some c) = P c"

lemma holds_first_char: "\<not> holds P (first_char (dropWhile P cs))"
  by (induction cs) auto

locale skip_loop =
  fixes P :: "code \<Rightarrow> bool" and skip :: "lex_reader \<Rightarrow> lex_reader result"
  assumes skip_eq: "skip r = rbind (curr r) (\<lambda>ch. if holds P ch then rbind (read_char r) skip else Inr r)"
begin

lemma skip_at:
  "reader_at r pre post \<Longrightarrow>
     \<exists>r'. skip r = Inr r' \<and> reader_at r' (pre @ takeWhile P post) (dropWhile P post)"
proof (induction post arbitrary: r pre)
  case Nil
  then show ?case by (subst skip_eq) (simp add: curr_at)
next
  case (Cons c post)
  show ?case
  proof (cases "P c")
    case True
    obtain r1 where "read_char r = Inr r1" "reader_at r1 (pre @ [c]) post"
      using read_char_at [OF Cons.prems] by blast
    with Cons.IH [of r1 "pre @ [c]"] True curr_at [OF Cons.prems] show ?thesis
      by (subst skip_eq) simp
  next
    case False
    with curr_at [OF Cons.prems] Cons.prems show ?thesis by (subst skip_eq) simp
  qed
qed

end

locale scan_loop =
  fixes P :: "code \<Rightarrow> bool" and scan :: "lex_reader \<Rightarrow> (chars \<times> lex_reader) result"
  assumes scan_eq: "scan r = rbind (curr r) (\<lambda>ch.
      if holds P ch then
        rbind (read_char r) (\<lambda>r. rbind (scan r) (\<lambda>(value, r). Inr (the ch # value, r)))
      else Inr ([], r))"
begin

lemma scan_at:
  "reader_at r pre post \<Longrightarrow>
     \<exists>r'. scan r = Inr (takeWhile P post, r') \<and> reader_at r' (pre @ takeWhile P post) (dropWhile P post)"
proof (induction post arbitrary: r pre)
  case Nil
  then show ?case by (subst scan_eq) (simp add: curr_at)
next
  case (Cons c post)
  show ?case
  proof (cases "P c")
    case True
    obtain r1 where "read_char r = Inr r1" "reader_at r1 (pre @ [c]) post"
      using read_char_at [OF Cons.prems] by blast
    with Cons.IH [of r1 "pre @ [c]"] True curr_at [OF Cons.prems] show ?thesis
      by (subst scan_eq) auto
  next
    case False
    with curr_at [OF Cons.prems] Cons.prems show ?thesis by (subst scan_eq) simp
  qed
qed

lemma scan_later: "scan r = Inr (v, r') \<Longrightarrow> later_reader r r'"
proof (induction "left r" arbitrary: r v rule: less_induct)
  case less
  from less.prems show ?case
    by (subst (asm) scan_eq)
       (auto simp: rbind_eq_Inr_iff split: if_splits
         intro: later_reader_trans [OF read_char_later] dest: less.hyps [OF read_char_left])
qed

lemma scan_progress:
  assumes "scan r = Inr (v, r')" and "curr r = Inr ch" and "holds P ch"
  shows "left r' < left r"
  using assms
  by (subst (asm) scan_eq)
     (auto simp: rbind_eq_Inr_iff dest!: scan_later [THEN later_reader_left] read_char_left)

end

definition ident_char :: "code \<Rightarrow> bool" where
  "ident_char c = is_identifier (Some c)"

definition digit_char :: "int_base \<Rightarrow> code \<Rightarrow> bool" where
  "digit_char base c = is_digit_or_underscore (Some c) base"

interpretation white: skip_loop char_is_whitespace skip_white
proof
  fix r
  have "is_whitespace ch = holds char_is_whitespace ch" for ch by (cases ch) simp_all
  then show "skip_white r = rbind (curr r) (\<lambda>ch. if holds char_is_whitespace ch
      then rbind (read_char r) skip_white else Inr r)"
    by (subst skip_white.simps) simp
qed

interpretation line: skip_loop "\<lambda>c. c \<noteq> 10" skip_line
proof
  fix r
  have "(ch \<noteq> None \<and> \<not> is_newline ch) = holds (\<lambda>c. c \<noteq> 10) ch" for ch
    by (cases ch) (simp_all add: is_newline_def)
  then show "skip_line r = rbind (curr r) (\<lambda>ch. if holds (\<lambda>c. c \<noteq> 10) ch
      then rbind (read_char r) skip_line else Inr r)"
    by (subst skip_line.simps) simp
qed

interpretation ident: scan_loop ident_char read_identifier_as_string
proof
  fix r
  have "is_identifier ch = holds ident_char ch" for ch
    by (cases ch) (simp_all add: ident_char_def is_identifier_def)
  then show "read_identifier_as_string r = rbind (curr r) (\<lambda>ch. if holds ident_char ch
      then rbind (read_char r) (\<lambda>r. rbind (read_identifier_as_string r)
        (\<lambda>(value, r). Inr (the ch # value, r))) else Inr ([], r))"
    by (subst read_identifier_as_string.simps) simp
qed

interpretation digits: scan_loop "digit_char base" "read_digits base" for base
proof
  fix r
  have "is_digit_or_underscore ch base = holds (digit_char base) ch" for ch
    by (cases ch) (simp_all add: digit_char_def)
  then show "read_digits base r = rbind (curr r) (\<lambda>ch. if holds (digit_char base) ch
      then rbind (read_char r) (\<lambda>r. rbind (read_digits base r)
        (\<lambda>(value, r). Inr (the ch # value, r))) else Inr ([], r))"
    by (subst read_digits.simps) simp
qed

subsection \<open>Sequencing\<close>

text \<open>A computation that returns, having consumed a prefix of the rest.\<close>

definition lexes :: "('a \<times> lex_reader) result \<Rightarrow> chars \<Rightarrow> chars \<Rightarrow> bool" where
  "lexes m pre post =
     (\<exists>x r' xs post'. m = Inr (x, r') \<and> post = xs @ post' \<and> reader_at r' (pre @ xs) post')"

lemma lexes_Inr: "reader_at r (pre @ xs) post' \<Longrightarrow> post = xs @ post' \<Longrightarrow> lexes (Inr (x, r)) pre post"
  by (auto simp: lexes_def)

lemma lexes_return [simp]: "reader_at r pre post \<Longrightarrow> lexes (Inr (x, r)) pre post"
  using lexes_Inr [of r pre "[]" post post] by simp

lemma lexes_extend: "lexes m (pre @ xs) post' \<Longrightarrow> post = xs @ post' \<Longrightarrow> lexes m pre post"
proof -
  assume "lexes m (pre @ xs) post'" and post: "post = xs @ post'"
  then obtain x r' ys post'' where "m = Inr (x, r')" "post' = ys @ post''" "reader_at r' ((pre @ xs) @ ys) post''"
    unfolding lexes_def by blast
  then show "lexes m pre post"
    unfolding lexes_def using post by (intro exI [of _ x] exI [of _ r'] exI [of _ "xs @ ys"] exI [of _ post'']) simp
qed

lemma lexes_bind:
  assumes "lexes m pre post"
    and "\<And>x r xs post'. m = Inr (x, r) \<Longrightarrow> post = xs @ post' \<Longrightarrow> reader_at r (pre @ xs) post' \<Longrightarrow>
           lexes (f (x, r)) (pre @ xs) post'"
  shows "lexes (rbind m f) pre post"
proof -
  from assms(1) obtain x r xs post' where m: "m = Inr (x, r)" "post = xs @ post'" "reader_at r (pre @ xs) post'"
    unfolding lexes_def by blast
  from lexes_extend [OF assms(2) [OF m] m(2)] m(1) show ?thesis by simp
qed

lemma lexes_read_char:
  assumes "reader_at r pre (c # post)"
    and "\<And>r'. reader_at r' (pre @ [c]) post \<Longrightarrow> lexes (f r') (pre @ [c]) post"
  shows "lexes (rbind (read_char r) f) pre (c # post)"
proof -
  obtain r' where "read_char r = Inr r'" "reader_at r' (pre @ [c]) post"
    using read_char_at [OF assms(1)] by blast
  with lexes_extend [OF assms(2), of r' "c # post"] show ?thesis by simp
qed

lemma lexes_scan:
  assumes "scan_loop P scan" and "reader_at r pre post"
    and "\<And>r'. reader_at r' (pre @ takeWhile P post) (dropWhile P post) \<Longrightarrow>
      lexes (f (takeWhile P post, r')) (pre @ takeWhile P post) (dropWhile P post)"
  shows "lexes (rbind (scan r) f) pre post"
proof -
  obtain r' where "scan r = Inr (takeWhile P post, r')"
    "reader_at r' (pre @ takeWhile P post) (dropWhile P post)"
    using scan_loop.scan_at [OF assms(1,2)] by blast
  with lexes_extend [OF assms(3), of r' post] show ?thesis by simp
qed

lemma reader_idx_at: "reader_at r pre post \<Longrightarrow> unat (reader_idx r) = byte_len pre \<and> byte_len pre < 2 ^ 28"
  by (simp add: reader_idx_def reader_at_def)

lemma span_start_ok: "unat (w :: u32) < 2 ^ 28 \<Longrightarrow> w < - 1"
proof -
  assume "unat w < 2 ^ 28"
  moreover have "unat (- 1 :: u32) = 2 ^ 32 - 1" by (simp add: unsigned_minus_1_eq_mask mask_eq_exp_minus_1)
  ultimately show ?thesis by (simp add: word_less_nat_alt)
qed

lemma finish_token_at:
  assumes "reader_at r pre post" and "unat idx < 2 ^ 28"
  shows "finish_token kind pos idx r =
    Inr (Inr (token_new kind pos \<lparr>span_loc = idx, span_count = reader_idx r - idx\<rparr>), r)"
  using span_start_ok [OF assms(2)] by (simp add: finish_token_def span_from_def span_new_def)

lemma lexes_finish [simp]:
  "reader_at r pre post \<Longrightarrow> unat idx < 2 ^ 28 \<Longrightarrow> lexes (finish_token kind pos idx r) pre post"
  by (simp add: finish_token_at)

subsection \<open>Every lexer method returns\<close>

lemma read_identifier_lexes: "reader_at r pre post \<Longrightarrow> lexes (read_identifier r) pre post"
  using reader_idx_at [of r pre post] unfolding read_identifier_def Let_def
  by (intro lexes_scan [OF ident.scan_loop_axioms]) simp_all

lemma read_escaped_char_lexes:
  assumes "reader_at r pre post"
  shows "lexes (read_escaped_char pos unclosed r) pre post"
proof (cases post)
  case Nil
  with assms show ?thesis by (simp add: read_escaped_char_def curr_at)
next
  case (Cons c cs)
  have inner: "lexes (rbind (curr r1) (\<lambda>ch. case ch of None \<Rightarrow> Inr (Inl (unclosed, pos), r1)
      | Some c \<Rightarrow> rbind (read_char r1) (\<lambda>r. case unescape c of
            Some v \<Rightarrow> Inr (Inr v, r) | None \<Rightarrow> Inr (Inl (InvalidEscapeSequence c, pos), r)))) (pre @ [c]) cs"
    if "reader_at r1 (pre @ [c]) cs" for r1
    using that by (cases cs) (auto simp: curr_at intro!: lexes_read_char split: option.split)
  show ?thesis
    using assms inner unfolding read_escaped_char_def Cons
    by (auto simp: curr_at intro!: lexes_read_char)
qed

lemma read_char_literal_lexes:
  assumes "reader_at r pre (c # post)"
  shows "lexes (read_char_literal r) pre (c # post)"
proof -
  have idx: "unat (reader_idx r) < 2 ^ 28" using reader_idx_at [OF assms] by simp
  have fin: "lexes (rbind (curr r1) (\<lambda>q. if is_char_quote q
      then rbind (read_char r1) (finish_token (TkLitChar ch) (lr_pos r) (reader_idx r))
      else Inr (Inl (UnclosedChar, lr_pos r), r1))) pre1 post1"
    if "reader_at r1 pre1 post1" for r1 pre1 post1 ch
    using that idx by (cases post1) (auto simp: curr_at is_char_quote_def intro!: lexes_read_char)
  show ?thesis
    unfolding read_char_literal_def Let_def
    using assms fin
    by (auto intro!: lexes_read_char lexes_bind [OF read_escaped_char_lexes] split: sum.split)
qed

lemma read_string_loop_lexes:
  "reader_at r pre post \<Longrightarrow> lexes (read_string_loop pos val r) pre post"
proof (induction post arbitrary: r pre val rule: length_induct)
  case (1 post)
  note at = "1.prems"
  show ?case
  proof (cases post)
    case Nil
    with at show ?thesis by (subst read_string_loop.simps) (simp add: curr_at)
  next
    case (Cons c cs)
    have at': "reader_at r pre (c # cs)" using at Cons by simp
    have esc: "lexes (rbind (read_escaped_char pos UnclosedString r) (\<lambda>x. case x of
        (Inl e, r) \<Rightarrow> Inr (Inl e, r) | (Inr c, r) \<Rightarrow> read_string_loop pos (val @ [c]) r)) pre (c # cs)"
    proof (rule lexes_bind [OF read_escaped_char_lexes [OF at']])
      fix x r1 xs post'
      assume m: "read_escaped_char pos UnclosedString r = Inr (x, r1)" and sp: "c # cs = xs @ post'"
        and at1: "reader_at r1 (pre @ xs) post'"
      show "lexes (case (x, r1) of (Inl e, r) \<Rightarrow> Inr (Inl e, r)
          | (Inr c, r) \<Rightarrow> read_string_loop pos (val @ [c]) r) (pre @ xs) post'"
      proof (cases x)
        case (Inr v)
        with m have "left r1 < left r" by (auto dest: read_escaped_char_left)
        with at' at1 have "byte_len post' < byte_len (c # cs)" by (simp add: left_def reader_at_def)
        with sp have "length post' < length (c # cs)" by (cases xs) auto
        with "1.IH" Cons at1 Inr show ?thesis by auto
      qed (use at1 in simp)
    qed
    have tmpl: "lexes (rbind (read_char r) (\<lambda>r. rbind (read_char r) (\<lambda>r. Inr (Inr (True, val), r)))) pre (c # cs)"
      if "first_char cs = Some d" for d
      using that at' by (cases cs) (auto intro!: lexes_read_char)
    show ?thesis
    proof (cases "c = cc CHR ''$''")
      case True
      then have "next_char r = Inr (first_char cs)" using next_char_at [OF at'] by simp
      with True esc tmpl Cons at show ?thesis
        by (subst read_string_loop.simps) (auto simp: curr_at is_quote_def)
    next
      case False
      with esc Cons at show ?thesis
        by (subst read_string_loop.simps) (auto simp: curr_at is_quote_def)
    qed
  qed
qed

lemma read_string_lexes:
  assumes "reader_at r pre post" and "skip_quote \<Longrightarrow> \<exists>cs. post = 34 # cs"
  shows "lexes (read_string skip_quote r) pre post"
proof -
  have idx: "unat (reader_idx r) < 2 ^ 28" using reader_idx_at [OF assms(1)] by simp
  let ?fin = "\<lambda>(res, r'). case res of Inl e \<Rightarrow> Inr (Inl e, r')
      | Inr (True, val) \<Rightarrow> finish_token (TkStringExpr val) (lr_pos r) (reader_idx r) r'
      | Inr (False, val) \<Rightarrow> rbind (curr r') (\<lambda>ch. if is_quote ch
          then rbind (read_char r') (\<lambda>r'. finish_token (TkStringTail val) (lr_pos r) (reader_idx r) r')
          else Inr (Inl (UnclosedString, lr_pos r), r'))"
  have close: "lexes (rbind (curr r1) (\<lambda>ch. if is_quote ch
          then rbind (read_char r1) (\<lambda>r'. finish_token (TkStringTail val) (lr_pos r) (reader_idx r) r')
          else Inr (Inl (UnclosedString, lr_pos r), r1))) pre1 post1"
    if "reader_at r1 pre1 post1" for r1 pre1 post1 val
    using that idx by (cases post1) (auto simp: curr_at is_quote_def intro!: lexes_read_char)
  have loop: "lexes (rbind (read_string_loop (lr_pos r) [] r1) ?fin) pre1 post1"
    if "reader_at r1 pre1 post1" for r1 pre1 post1
    using that idx close
    by (auto intro!: lexes_bind [OF read_string_loop_lexes] split: sum.split bool.split)
  show ?thesis
  proof (cases skip_quote)
    case True
    with assms obtain cs where "post = 34 # cs" by blast
    with True assms(1) loop show ?thesis
      unfolding read_string_def Let_def by (auto simp: curr_at intro!: lexes_read_char)
  next
    case False
    with assms(1) loop show ?thesis unfolding read_string_def Let_def by simp
  qed
qed

lemma is_multi_comment_end_at:
  "reader_at r pre post \<Longrightarrow> is_multi_comment_end r = Inr (\<exists>cs. post = 42 # 47 # cs)"
proof (cases post)
  case (Cons c cs)
  assume "reader_at r pre post"
  with Cons show ?thesis
    by (cases cs) (auto simp: is_multi_comment_end_def curr_at next_char_at)
qed (simp add: is_multi_comment_end_def curr_at)

lemma comment_start_at:
  assumes "reader_at r pre post"
  shows "is_comment_start r = Inr (\<exists>cs. post = 47 # 47 # cs)"
    and "is_multi_comment_start r = Inr (\<exists>cs. post = 47 # 42 # cs)"
proof -
  show "is_comment_start r = Inr (\<exists>cs. post = 47 # 47 # cs)"
  proof (cases post)
    case (Cons c cs)
    with assms show ?thesis by (cases cs) (auto simp: is_comment_start_def curr_at next_char_at)
  qed (use assms in \<open>simp add: is_comment_start_def curr_at\<close>)
  show "is_multi_comment_start r = Inr (\<exists>cs. post = 47 # 42 # cs)"
  proof (cases post)
    case (Cons c cs)
    with assms show ?thesis by (cases cs) (auto simp: is_multi_comment_start_def curr_at next_char_at)
  qed (use assms in \<open>simp add: is_multi_comment_start_def curr_at\<close>)
qed

lemma skip_to_comment_end_at:
  "reader_at r pre post \<Longrightarrow>
     \<exists>r' xs post'. skip_to_comment_end r = Inr r' \<and> post = xs @ post' \<and> reader_at r' (pre @ xs) post'
       \<and> (post' = [] \<or> (\<exists>cs. post' = 42 # 47 # cs))"
proof (induction post arbitrary: r pre)
  case Nil
  then show ?case by (subst skip_to_comment_end.simps) (simp add: curr_at)
next
  case (Cons c post)
  show ?case
  proof (cases "\<exists>cs. c # post = 42 # 47 # cs")
    case True
    with Cons.prems have "skip_to_comment_end r = Inr r"
      by (subst skip_to_comment_end.simps) (auto simp: curr_at is_multi_comment_end_at)
    with True Cons.prems show ?thesis by (intro exI [of _ r] exI [of _ "[]"] exI [of _ "c # post"]) auto
  next
    case False
    obtain r1 where r1: "read_char r = Inr r1" "reader_at r1 (pre @ [c]) post"
      using read_char_at [OF Cons.prems] by blast
    obtain r' xs post' where "skip_to_comment_end r1 = Inr r'" "post = xs @ post'"
      "reader_at r' (pre @ [c] @ xs) post'" "post' = [] \<or> (\<exists>cs. post' = 42 # 47 # cs)"
      using Cons.IH [OF r1(2)] by auto
    moreover have "skip_to_comment_end r = skip_to_comment_end r1"
      using False r1(1) Cons.prems
      by (subst skip_to_comment_end.simps) (auto simp: curr_at is_multi_comment_end_at)
    ultimately show ?thesis
      by (intro exI [of _ r'] exI [of _ "c # xs"] exI [of _ post']) simp
  qed
qed

lemma read_multi_comment_lexes:
  assumes "reader_at r pre (c # d # post)"
  shows "lexes (read_multi_comment r) pre (c # d # post)"
proof -
  have rest: "lexes (rbind (skip_to_comment_end r1) (\<lambda>r. rbind (curr r) (\<lambda>ch.
      if ch = None then Inr (Inl (UnclosedComment, p), r)
      else rbind (read_char r) (\<lambda>r. rbind (read_char r) (\<lambda>r. Inr (Inr (), r)))))) pre1 post1"
    if at1: "reader_at r1 pre1 post1" for r1 pre1 post1 p
  proof -
    obtain r' xs post' where s: "skip_to_comment_end r1 = Inr r'" "post1 = xs @ post'"
      "reader_at r' (pre1 @ xs) post'" "post' = [] \<or> (\<exists>cs. post' = 42 # 47 # cs)"
      using skip_to_comment_end_at [OF at1] by blast
    then show ?thesis
      by (intro lexes_extend [OF _ s(2)]) (auto simp: curr_at intro!: lexes_read_char)
  qed
  show ?thesis
    unfolding read_multi_comment_def Let_def using assms by (auto intro!: lexes_read_char rest)
qed

lemma read_chars_lexes:
  "reader_at r pre (xs @ post) \<Longrightarrow> (\<And>r'. reader_at r' (pre @ xs) post \<Longrightarrow> lexes (f r') (pre @ xs) post) \<Longrightarrow>
     lexes (rbind (read_chars (length xs) r) f) pre (xs @ post)"
proof (induction xs arbitrary: r pre)
  case (Cons x xs)
  show ?case
    using Cons.prems
    by (auto simp: rbind_assoc intro!: lexes_read_char Cons.IH)
qed simp

text \<open>An operator's extra characters are those it was chosen by.\<close>

lemma operator_kind_extra:
  "operator_kind ch nch nnch = Some (kind, extra) \<Longrightarrow>
     extra = 0 \<or> (extra = 1 \<and> nch \<noteq> cc CHR ''x'')
     \<or> (extra = 2 \<and> nch \<noteq> cc CHR ''x'' \<and> nnch \<noteq> cc CHR ''x'')"
  unfolding operator_kind_def by (simp split: if_splits)

definition ascii_next :: "chars \<Rightarrow> bool" where
  "ascii_next cs = (case cs of [] \<Rightarrow> True | d # _ \<Rightarrow> d < 128)"

lemma next_after_operator:
  "reader_at r pre post \<Longrightarrow> ascii_next post \<Longrightarrow> next_char r = Inr (first_char (drop 1 post))"
  by (cases post) (simp_all add: next_char_at next_char_at_end ascii_next_def)

lemma read_operator_lexes:
  assumes "reader_at r pre (c # post)" and "ascii_next post"
  shows "lexes (read_operator r) pre (c # post)"
proof -
  have idx: "unat (reader_idx r) < 2 ^ 28" using reader_idx_at [OF assms(1)] by simp
  have rest: "lexes (case operator_kind c (unwrap_or (first_char post) (cc CHR ''x''))
        (unwrap_or (first_char (drop 1 post)) (cc CHR ''x'')) of
      None \<Rightarrow> Inr (Inl (UnknownChar c, lr_pos r), r1)
    | Some (kind, extra) \<Rightarrow> rbind (read_chars extra r1) (finish_token kind (lr_pos r) (reader_idx r))) pre1 post"
    if at1: "reader_at r1 pre1 post" for r1 pre1
  proof (cases "operator_kind c (unwrap_or (first_char post) (cc CHR ''x''))
        (unwrap_or (first_char (drop 1 post)) (cc CHR ''x''))")
    case None
    with at1 show ?thesis by simp
  next
    case (Some p)
    obtain kind extra where p: "p = (kind, extra)" by (cases p)
    have "\<exists>xs post'. post = xs @ post' \<and> length xs = extra"
      using operator_kind_extra [OF Some [unfolded p]]
      by (cases post; cases "drop 1 post")
         (auto simp: unwrap_or_def intro: exI [of _ "[]"] exI [of _ "take 1 post"] exI [of _ "take 2 post"])
    then obtain xs post' where "post = xs @ post'" "length xs = extra" by blast
    with Some p at1 idx show ?thesis by (auto intro!: read_chars_lexes)
  qed
  show ?thesis
    unfolding read_operator_def Let_def
    using assms rest
    by (auto simp: curr_at next_after_operator intro!: lexes_read_char)
qed

lemma rbind_if: "rbind (if b then m else m') f = (if b then rbind m f else rbind m' f)"
  by simp

lemma lexes_read_tl:
  assumes "reader_at r pre post" and "first_char post \<noteq> None"
    and "\<And>r'. reader_at r' (pre @ [hd post]) (tl post) \<Longrightarrow> lexes (f r') (pre @ [hd post]) (tl post)"
  shows "lexes (rbind (read_char r) f) pre post"
  using assms by (cases post) (auto intro: lexes_read_char)

lemmas lexes_rules = lexes_read_tl lexes_scan [OF ident.scan_loop_axioms] lexes_scan [OF digits.scan_loop_axioms]

lemma read_number_as_float_lexes:
  assumes "reader_at r pre (c # post)" and "unat idx < 2 ^ 28"
  shows "lexes (read_number_as_float pos idx value r) pre (c # post)"
  unfolding read_number_as_float_def Let_def rbind_assoc rbind_if
  using assms by (auto simp: curr_at rbind_assoc intro!: lexes_rules)

lemma number_base_lexes:
  assumes "reader_at r pre (c # post)"
  shows "lexes (number_base r) pre (c # post)"
proof (cases "c = cc CHR ''0''")
  case True
  with assms have "next_char r = Inr (first_char post)" by (simp add: next_char_at)
  with True assms show ?thesis
    by (cases post)
       (auto simp: number_base_def curr_at rbind_assoc numeral_2_eq_2 intro!: lexes_read_tl)
qed (use assms in \<open>simp add: number_base_def curr_at\<close>)

lemma next_after_dot: "reader_at r pre post \<Longrightarrow> first_char post = Some 46 \<Longrightarrow> next_char r = Inr (first_char (tl post))"
  by (cases post) (simp_all add: next_char_at)

lemma read_number_lexes:
  assumes "reader_at r pre (c # post)"
  shows "lexes (read_number r) pre (c # post)"
proof -
  have idx: "unat (reader_idx r) < 2 ^ 28" using reader_idx_at [OF assms] by simp
  have float: "lexes (read_number_as_float (lr_pos r) (reader_idx r) v r1) pre1 post1"
    if "reader_at r1 pre1 post1" "first_char post1 = Some x" for r1 pre1 post1 v x
    using that idx by (cases post1) (auto intro: read_number_as_float_lexes)
  have suffix: "lexes (case number_kind v base sf of Some kind \<Rightarrow> finish_token kind (lr_pos r) (reader_idx r) r1
      | None \<Rightarrow> Inr (Inl (InvalidSuffix sf, lr_pos r), r1)) pre1 post1"
    if "reader_at r1 pre1 post1" for r1 pre1 post1 v sf base
    using that idx by (auto split: option.split)
  show ?thesis
    unfolding read_number_def Let_def
    using idx by (intro lexes_bind [OF number_base_lexes [OF assms]])
      (auto simp: curr_at next_after_dot intro!: lexes_rules float suffix)
qed

lemma read_comment_lexes: "reader_at r pre post \<Longrightarrow> lexes (read_comment r) pre post"
  using line.skip_at [of r pre post] unfolding read_comment_def lexes_def
  by (metis rbind_Inr takeWhile_dropWhile_id)

lemma consumed:
  "reader_at r pre (xs @ post') \<Longrightarrow> reader_at r' (pre @ xs) post' \<Longrightarrow> left r' < left r \<Longrightarrow> xs \<noteq> []"
  by (auto simp: reader_at_def left_def)

text \<open>The texts in which every operator is followed by an ASCII character, if any.\<close>

fun op_safe :: "chars \<Rightarrow> bool" where
  "op_safe [] = True"
| "op_safe (c # cs) = ((is_operator (Some c) \<longrightarrow> ascii_next cs) \<and> op_safe cs)"

lemma op_safe_append: "op_safe (xs @ ys) \<Longrightarrow> op_safe ys"
  by (induction xs) auto

subsection \<open>Token spans\<close>

text \<open>The token's span and position are those of the text between two readers.\<close>

definition spans :: "lex_reader \<Rightarrow> lex_reader \<Rightarrow> token \<Rightarrow> bool" where
  "spans r r' t = (tok_position t = lr_pos r
     \<and> tok_span t = \<lparr>span_loc = reader_idx r, span_count = reader_idx r' - reader_idx r\<rparr>)"

lemma finish_token_Inr:
  "finish_token kind pos idx r = Inr (Inr t, r') \<longleftrightarrow>
     r' = r \<and> idx < - 1 \<and> t = token_new kind pos \<lparr>span_loc = idx, span_count = reader_idx r - idx\<rparr>"
  by (auto simp: finish_token_def span_from_def span_new_def rbind_eq_Inr_iff)

lemma case_sum_eq_Inr:
  "(case a of Inl e \<Rightarrow> f e | Inr x \<Rightarrow> g x) = Inr y \<longleftrightarrow>
     (\<exists>e. a = Inl e \<and> f e = Inr y) \<or> (\<exists>x. a = Inr x \<and> g x = Inr y)"
  by (cases a) simp_all

lemmas spans_simps = spans_def finish_token_Inr token_new_def rbind_eq_Inr_iff Let_def case_sum_eq_Inr

lemma read_identifier_spans: "read_identifier r = Inr (Inr t, r') \<Longrightarrow> spans r r' t"
  by (auto simp: read_identifier_def spans_simps)

lemma read_char_literal_spans: "read_char_literal r = Inr (Inr t, r') \<Longrightarrow> spans r r' t"
  by (auto simp: read_char_literal_def spans_simps split: if_splits)

lemma read_string_spans: "read_string skip r = Inr (Inr t, r') \<Longrightarrow> spans r r' t"
  by (auto simp: read_string_def spans_simps split: if_splits bool.splits)

lemma read_operator_spans: "read_operator r = Inr (Inr t, r') \<Longrightarrow> spans r r' t"
  by (auto simp: read_operator_def spans_simps split: option.splits)

lemma read_number_as_float_spans:
  "read_number_as_float (lr_pos r) (reader_idx r) v r1 = Inr (Inr t, r') \<Longrightarrow> spans r r' t"
  by (auto simp: read_number_as_float_def spans_simps split: if_splits)

lemma read_number_spans: "read_number r = Inr (Inr t, r') \<Longrightarrow> spans r r' t"
  unfolding read_number_def Let_def
  by (auto simp: spans_simps split: if_splits option.splits dest: read_number_as_float_spans)

subsection \<open>Tokens consume text\<close>

lemma read_chars_later: "read_chars n r = Inr r' \<Longrightarrow> later_reader r r'"
  by (induction n arbitrary: r)
     (auto simp: rbind_eq_Inr_iff intro: later_reader_trans [OF read_char_later])

lemma case_option_eq_Inr:
  "(case a of None \<Rightarrow> n | Some x \<Rightarrow> g x) = Inr y \<longleftrightarrow> (a = None \<and> n = Inr y) \<or> (\<exists>x. a = Some x \<and> g x = Inr y)"
  by (cases a) simp_all

lemma read_escaped_char_later: "read_escaped_char pos e r = Inr (x, r') \<Longrightarrow> later_reader r r'"
  by (auto simp: read_escaped_char_def rbind_eq_Inr_iff case_option_eq_Inr split: if_splits
      dest!: read_char_later intro: later_reader_trans)

lemma read_string_loop_later: "read_string_loop pos v r = Inr (x, r') \<Longrightarrow> later_reader r r'"
proof (induction "left r" arbitrary: r v rule: less_induct)
  case less
  from less.prems show ?case
    by (subst (asm) read_string_loop.simps)
       (auto simp: rbind_eq_Inr_iff case_sum_eq_Inr split: if_splits
         intro: later_reader_trans [OF read_char_later] later_reader_trans [OF read_escaped_char_later]
           read_char_later read_escaped_char_later
         dest: less.hyps [OF read_escaped_char_left])
qed

lemmas laters = read_char_later read_chars_later read_escaped_char_later read_string_loop_later
  ident.scan_later digits.scan_later

lemmas lefts = laters [THEN later_reader_left] read_char_left

lemma read_operator_left: "read_operator r = Inr (Inr t, r') \<Longrightarrow> left r' < left r"
  by (auto simp: read_operator_def rbind_eq_Inr_iff Let_def finish_token_Inr split: option.splits
      dest!: read_char_left read_chars_later [THEN later_reader_left])

lemma read_char_literal_left: "read_char_literal r = Inr (Inr t, r') \<Longrightarrow> left r' < left r"
  by (auto simp: read_char_literal_def rbind_eq_Inr_iff Let_def finish_token_Inr case_sum_eq_Inr split: if_splits
      dest!: read_char_left read_escaped_char_left)

lemma read_string_left: "read_string True r = Inr (Inr t, r') \<Longrightarrow> left r' < left r"
  by (auto simp: read_string_def rbind_eq_Inr_iff Let_def finish_token_Inr case_sum_eq_Inr split: if_splits bool.splits
      dest!: read_char_left read_string_loop_later [THEN later_reader_left])

lemma read_identifier_left:
  assumes "read_identifier r = Inr (Inr t, r')" and "curr r = Inr ch" and "is_identifier_start ch"
  shows "left r' < left r"
proof -
  from assms(1) obtain v where "read_identifier_as_string r = Inr (v, r')"
    by (auto simp: read_identifier_def rbind_eq_Inr_iff Let_def finish_token_Inr)
  with assms(2,3) ident.scan_progress [of r v r' ch] show ?thesis
    by (cases ch) (auto simp: ident_char_def is_identifier_def)
qed

text \<open>A computation that never moves a reader back.\<close>

definition onward :: "('a \<times> lex_reader) result \<Rightarrow> lex_reader \<Rightarrow> bool" where
  "onward m r = (\<forall>x r'. m = Inr (x, r') \<longrightarrow> later_reader r r')"

lemma onward_read_char: "(\<And>r1. onward (f r1) r1) \<Longrightarrow> onward (rbind (read_char r) f) r"
  by (auto simp: onward_def rbind_eq_Inr_iff intro: later_reader_trans [OF read_char_later])

lemma onward_ident: "(\<And>v r1. onward (f (v, r1)) r1) \<Longrightarrow> onward (rbind (read_identifier_as_string r) f) r"
  by (auto simp: onward_def rbind_eq_Inr_iff intro: later_reader_trans [OF ident.scan_later])

lemma onward_digits: "(\<And>v r1. onward (f (v, r1)) r1) \<Longrightarrow> onward (rbind (read_digits base r) f) r"
  by (auto simp: onward_def rbind_eq_Inr_iff intro: later_reader_trans [OF digits.scan_later])

lemma onward_curr: "(\<And>c. onward (f c) r) \<Longrightarrow> onward (rbind (curr r) f) r"
  by (auto simp: onward_def rbind_eq_Inr_iff)

lemma onward_return [simp]: "onward (Inr (x, r)) r" "onward (finish_token k p i r) r"
  by (auto simp: onward_def finish_token_def rbind_eq_Inr_iff)

lemmas onward_rules = onward_read_char onward_ident onward_digits onward_curr

lemma read_number_as_float_left:
  assumes "read_number_as_float pos idx v r = Inr (Inr t, r')"
  shows "left r' < left r"
proof -
  from assms obtain r1 where r1: "read_char r = Inr r1"
    by (auto simp: read_number_as_float_def rbind_eq_Inr_iff)
  from r1 have "onward (read_number_as_float pos idx v r) r1"
    unfolding read_number_as_float_def Let_def rbind_assoc rbind_if
    by (auto simp: rbind_assoc intro!: onward_rules)
  with assms have "later_reader r1 r'" unfolding onward_def by blast
  with read_char_left [OF r1] later_reader_left show ?thesis by fastforce
qed

lemma number_base_later: "number_base r = Inr (base, r') \<Longrightarrow> later_reader r r'"
  by (auto simp: number_base_def rbind_eq_Inr_iff split: if_splits dest!: read_chars_later)

lemma number_base_Dec: "number_base r = Inr (BaseDec, r') \<Longrightarrow> r' = r"
  by (auto simp: number_base_def rbind_eq_Inr_iff split: if_splits)

lemma number_base_left: "number_base r = Inr (base, r') \<Longrightarrow> base \<noteq> BaseDec \<Longrightarrow> left r' < left r"
  by (auto simp: number_base_def rbind_eq_Inr_iff numeral_2_eq_2 split: if_splits dest!: read_char_left)

lemma read_number_left:
  assumes "read_number r = Inr (Inr t, r')" and "curr r = Inr ch" and "is_digit ch"
  shows "left r' < left r"
proof -
  from assms(1) obtain base r1 v r2 where r12: "number_base r = Inr (base, r1)" "read_digits base r1 = Inr (v, r2)"
    by (auto simp: read_number_def Let_def rbind_eq_Inr_iff)
  have "left r2 < left r"
  proof (cases "base = BaseDec")
    case True
    with r12 number_base_Dec have "read_digits BaseDec r = Inr (v, r2)" by blast
    with assms(2,3) digits.scan_progress [of BaseDec r v r2 ch] show ?thesis
      by (cases ch) (auto simp: digit_char_def)
  next
    case False
    with number_base_left [OF r12(1)] digits.scan_later [OF r12(2)] later_reader_left show ?thesis
      by fastforce
  qed
  moreover have "left r' \<le> left r2"
    using assms(1) r12
    by (auto simp: read_number_def Let_def rbind_eq_Inr_iff finish_token_Inr case_option_eq_Inr split: if_splits
        dest!: read_number_as_float_left ident.scan_later [THEN later_reader_left])
  ultimately show ?thesis by simp
qed

lemma keyword_not_end: "map_of keyword_map v \<noteq> Some TkEnd"
proof
  assume "map_of keyword_map v = Some TkEnd"
  then have "(v, TkEnd) \<in> set keyword_map" by (rule map_of_SomeD)
  then show False by (simp add: keyword_map_def)
qed

text \<open>No method but \<open>read_token\<close> itself makes the end token.\<close>

lemma read_identifier_not_end: "read_identifier r = Inr (Inr t, r') \<Longrightarrow> tok_kind t \<noteq> TkEnd"
  by (auto simp: read_identifier_def spans_simps keyword_not_end split: option.splits if_splits)

lemma read_char_literal_not_end: "read_char_literal r = Inr (Inr t, r') \<Longrightarrow> tok_kind t \<noteq> TkEnd"
  by (auto simp: read_char_literal_def spans_simps split: if_splits)

lemma read_string_not_end: "read_string skip r = Inr (Inr t, r') \<Longrightarrow> tok_kind t \<noteq> TkEnd"
  by (auto simp: read_string_def spans_simps split: if_splits bool.splits)

lemma operator_kind_not_end: "operator_kind c d e \<noteq> Some (TkEnd, n)"
  unfolding operator_kind_def by (simp split: if_splits)

lemma read_operator_not_end: "read_operator r = Inr (Inr t, r') \<Longrightarrow> tok_kind t \<noteq> TkEnd"
  by (auto simp: read_operator_def spans_simps operator_kind_not_end split: option.splits)

lemma read_number_as_float_not_end: "read_number_as_float p i v r = Inr (Inr t, r') \<Longrightarrow> tok_kind t \<noteq> TkEnd"
  by (auto simp: read_number_as_float_def spans_simps split: if_splits)

lemma number_kind_not_end: "number_kind v base sf \<noteq> Some TkEnd"
  unfolding number_kind_def by (simp split: if_splits)

lemma read_number_not_end: "read_number r = Inr (Inr t, r') \<Longrightarrow> tok_kind t \<noteq> TkEnd"
  unfolding read_number_def Let_def
  by (auto simp: spans_simps number_kind_not_end split: if_splits option.splits dest: read_number_as_float_not_end)

text \<open>What a token that was read says about the text: it is the end token and nothing is left,
  or its span is the text read, which is not empty.\<close>

definition token_ok :: "lex_reader \<Rightarrow> lex_reader \<Rightarrow> token \<Rightarrow> bool" where
  "token_ok r r' t =
     (if tok_kind t = TkEnd
      then r' = r \<and> curr r = Inr None
        \<and> t = token_new TkEnd (lr_pos r) \<lparr>span_loc = reader_idx r, span_count = 0\<rparr>
      else spans r r' t \<and> left r' < left r)"

definition tok_lexes :: "token lres \<Rightarrow> chars \<Rightarrow> chars \<Rightarrow> bool" where
  "tok_lexes m pre post = (\<exists>x r r' ws xs post'. m = Inr (x, r') \<and> post = ws @ xs @ post'
     \<and> reader_at r (pre @ ws) (xs @ post') \<and> reader_at r' (pre @ ws @ xs) post'
     \<and> (\<forall>t. x = Inr t \<longrightarrow> token_ok r r' t))"

lemma tok_lexesI:
  assumes "lexes m pre post" and "reader_at r pre post"
    and "\<And>t r'. m = Inr (Inr t, r') \<Longrightarrow> token_ok r r' t"
  shows "tok_lexes m pre post"
proof -
  from assms(1) obtain x r' xs post' where m: "m = Inr (x, r')" "post = xs @ post'" "reader_at r' (pre @ xs) post'"
    unfolding lexes_def by blast
  with assms(2,3) show ?thesis
    unfolding tok_lexes_def
    by (intro exI [of _ x] exI [of _ r] exI [of _ r'] exI [of _ "[]"] exI [of _ xs] exI [of _ post']) auto
qed

lemma tok_lexes_extend: "tok_lexes m (pre @ ys) post' \<Longrightarrow> post = ys @ post' \<Longrightarrow> tok_lexes m pre post"
proof -
  assume "tok_lexes m (pre @ ys) post'" and post: "post = ys @ post'"
  then obtain x r r' ws xs post'' where "m = Inr (x, r')" "post' = ws @ xs @ post''"
    "reader_at r ((pre @ ys) @ ws) (xs @ post'')" "reader_at r' ((pre @ ys) @ ws @ xs) post''"
    "\<forall>t. x = Inr t \<longrightarrow> token_ok r r' t"
    unfolding tok_lexes_def by blast
  then show "tok_lexes m pre post"
    unfolding tok_lexes_def using post
    by (intro exI [of _ x] exI [of _ r] exI [of _ r'] exI [of _ "ys @ ws"] exI [of _ xs] exI [of _ post'']) simp
qed

lemma tok_lexes_restart:
  assumes at: "reader_at r pre post" and "lexes m pre post"
    and "\<And>u r'. m = Inr (Inr u, r') \<Longrightarrow> left r' < left r"
    and "\<And>r1 pre1 post1 xs. reader_at r1 pre1 post1 \<Longrightarrow> post = xs @ post1 \<Longrightarrow> xs \<noteq> [] \<Longrightarrow>
           tok_lexes (read_token r1) pre1 post1"
  shows "tok_lexes (rbind m (\<lambda>x. case x of (Inl e, r) \<Rightarrow> Inr (Inl e, r) | (Inr _, r) \<Rightarrow> read_token r)) pre post"
proof -
  from assms(2) obtain x r1 xs post1 where m: "m = Inr (x, r1)" "post = xs @ post1" "reader_at r1 (pre @ xs) post1"
    unfolding lexes_def by blast
  show ?thesis
  proof (cases x)
    case (Inl e)
    with m show ?thesis by (intro tok_lexesI [OF _ at]) (auto intro: lexes_Inr)
  next
    case (Inr u)
    with m assms(3) consumed [OF at [unfolded m(2)] m(3)] have "xs \<noteq> []" by blast
    from assms(4) [OF m(3,2) this] m(2) have "tok_lexes (read_token r1) pre post" by (rule tok_lexes_extend)
    with m(1) Inr show ?thesis by simp
  qed
qed

lemmas token_methods_lex = read_number_lexes read_identifier_lexes read_string_lexes
  read_char_literal_lexes read_operator_lexes

lemmas token_methods_span = read_number_spans read_identifier_spans read_string_spans
  read_char_literal_spans read_operator_spans

lemmas token_methods_left = read_number_left read_identifier_left read_string_left
  read_char_literal_left read_operator_left

lemmas token_methods_not_end = read_number_not_end read_identifier_not_end read_string_not_end
  read_char_literal_not_end read_operator_not_end

lemma token_okI: "tok_kind t \<noteq> TkEnd \<Longrightarrow> spans r r' t \<Longrightarrow> left r' < left r \<Longrightarrow> token_ok r r' t"
  by (simp add: token_ok_def)

lemma read_token_dispatch:
  assumes "skip_white r0 = Inr r" and "reader_at r pre (c # cs)"
    and "\<nexists>cs'. c # cs = 47 # 47 # cs'" and "\<nexists>cs'. c # cs = 47 # 42 # cs'"
  shows "read_token r0 = (if is_digit (Some c) then read_number r
    else if is_identifier_start (Some c) then read_identifier r
    else if is_quote (Some c) then read_string True r
    else if is_char_quote (Some c) then read_char_literal r
    else if is_operator (Some c) then read_operator r
    else Inr (Inl (UnknownChar c, lr_pos r), r))"
proof -
  have "is_comment_start r = Inr False" "is_multi_comment_start r = Inr False"
    using comment_start_at [OF assms(2)] assms(3,4) by auto
  with assms(1) curr_at [OF assms(2)] show ?thesis
    by (subst read_token.simps)
       (simp add: Let_def del: is_digit.simps is_identifier_start.simps is_operator.simps)
qed

lemma read_token_method:
  assumes at: "reader_at r pre (c # cs)" and op: "is_operator (Some c) \<Longrightarrow> ascii_next cs"
  shows "tok_lexes (if is_digit (Some c) then read_number r
    else if is_identifier_start (Some c) then read_identifier r
    else if is_quote (Some c) then read_string True r
    else if is_char_quote (Some c) then read_char_literal r
    else if is_operator (Some c) then read_operator r
    else Inr (Inl (UnknownChar c, lr_pos r), r)) pre (c # cs)" (is "tok_lexes ?m pre _")
proof (rule tok_lexesI [OF _ at])
  show "lexes ?m pre (c # cs)"
    using at op by (auto simp: is_quote_def intro!: token_methods_lex)
  have "curr r = Inr (Some c)" using at by (simp add: curr_at)
  then show "token_ok r r' t" if "?m = Inr (Inr t, r')" for t r'
    using that
    by (intro token_okI)
       (auto split: if_splits dest: token_methods_span token_methods_not_end token_methods_left)
qed

lemma read_token_here:
  assumes white: "skip_white r0 = Inr r" and at: "reader_at r pre post" and safe: "op_safe post"
    and again: "\<And>r1 pre1 post1 xs. reader_at r1 pre1 post1 \<Longrightarrow> post = xs @ post1 \<Longrightarrow> xs \<noteq> [] \<Longrightarrow>
           tok_lexes (read_token r1) pre1 post1"
  shows "tok_lexes (read_token r0) pre post"
proof -
  have idx: "unat (reader_idx r) < 2 ^ 28" using reader_idx_at [OF at] by simp
  consider "post = []" | cs where "post = 47 # 47 # cs" | cs where "post = 47 # 42 # cs"
    | c cs where "post = c # cs" "\<nexists>cs. post = 47 # 47 # cs" "\<nexists>cs. post = 47 # 42 # cs"
    by (cases post) auto
  then show ?thesis
  proof cases
    case 1
    with white at span_start_ok [OF idx]
    have "read_token r0 = Inr (Inr (token_new TkEnd (lr_pos r) \<lparr>span_loc = reader_idx r, span_count = 0\<rparr>), r)"
      by (subst read_token.simps) (simp add: curr_at span_at_def)
    with at 1 show ?thesis
      by (intro tok_lexesI [OF _ at]) (auto simp: token_ok_def token_new_def curr_at)
  next
    case 2
    with comment_start_at [OF at] have "is_comment_start r = Inr True" by simp
    with 2 white at read_comment_left [OF this] tok_lexes_restart [OF at read_comment_lexes [OF at]] again
    show ?thesis by (subst read_token.simps) (auto simp: curr_at Let_def char_is_digit_def)
  next
    case 3
    with comment_start_at [OF at] have "is_comment_start r = Inr False" "is_multi_comment_start r = Inr True"
      by auto
    moreover have "lexes (read_multi_comment r) pre post"
      using 3 at by (auto intro: read_multi_comment_lexes)
    ultimately show ?thesis
      using 3 white at tok_lexes_restart [OF at, of "read_multi_comment r"] again read_multi_comment_left [of r]
      by (subst read_token.simps) (auto simp: curr_at Let_def char_is_digit_def)
  next
    case 4
    with comment_start_at [OF at] have "is_comment_start r = Inr False" "is_multi_comment_start r = Inr False"
      by auto
    with white 4 read_token_dispatch [OF _ at [unfolded 4(1)]] safe read_token_method [of r pre c cs] at
    show ?thesis by simp
  qed
qed

lemma read_token_lexes:
  "reader_at r0 pre0 post0 \<Longrightarrow> op_safe post0 \<Longrightarrow> tok_lexes (read_token r0) pre0 post0"
proof (induction post0 arbitrary: r0 pre0 rule: length_induct)
  case (1 post0)
  define ws post where "ws = takeWhile char_is_whitespace post0" and "post = dropWhile char_is_whitespace post0"
  obtain r where r: "skip_white r0 = Inr r" "reader_at r (pre0 @ ws) post"
    using white.skip_at [OF "1.prems"(1)] unfolding ws_def post_def by blast
  have split: "post0 = ws @ post" by (simp add: ws_def post_def)
  have safe: "op_safe post" using "1.prems"(2) split op_safe_append by simp
  have "tok_lexes (read_token r1) pre1 post1"
    if "reader_at r1 pre1 post1" "post = xs @ post1" "xs \<noteq> []" for r1 pre1 post1 xs
    using "1.IH" that split safe op_safe_append [of xs post1] by auto
  from read_token_here [OF r safe this] split show ?case by (rule tok_lexes_extend)
qed

lemma span_of_text:
  assumes "reader_at r pre (xs @ post)" and "reader_at r' (pre @ xs) post" and "spans r r' t"
  shows "unat (span_loc (tok_span t)) = byte_len pre \<and> unat (span_count (tok_span t)) = byte_len xs"
proof -
  have i: "unat (reader_idx r) = byte_len pre" "unat (reader_idx r') = byte_len pre + byte_len xs"
    using reader_idx_at [OF assms(1)] reader_idx_at [OF assms(2)] by simp_all
  then have "unat (reader_idx r' - reader_idx r) = byte_len xs" by (simp add: unat_sub word_le_nat_alt)
  with i assms(3) show ?thesis by (simp add: spans_def)
qed

subsection \<open>Reading back what was written\<close>

lemma no_white:
  "reader_at r pre (c # cs) \<Longrightarrow> \<not> char_is_whitespace c \<Longrightarrow> skip_white r = Inr r"
  by (subst skip_white.simps) (simp add: curr_at)

text \<open>A string as it is written between quotes.\<close>

primrec escape :: "chars \<Rightarrow> chars" where
  "escape [] = []"
| "escape (c # cs) = (if c = 92 \<or> c = 34 \<or> c = cc CHR ''$'' then [92, c] else [c]) @ escape cs"

lemma read_escaped_char_escaped:
  assumes "reader_at r pre (escape [c] @ post)"
  shows "\<exists>r'. read_escaped_char pos e r = Inr (Inr c, r') \<and> reader_at r' (pre @ escape [c]) post"
proof (cases "c = 92 \<or> c = 34 \<or> c = cc CHR ''$''")
  case True
  with assms have at: "reader_at r pre (92 # c # post)" by auto
  then obtain r1 where r1: "read_char r = Inr r1" "reader_at r1 (pre @ [92]) (c # post)"
    using read_char_at by blast
  then obtain r2 where r2: "read_char r1 = Inr r2" "reader_at r2 (pre @ [92, c]) post"
    using read_char_at [of r1 "pre @ [92]" c post] by auto
  with r1 True at curr_at [OF at] curr_at [OF r1(2)] show ?thesis
    by (auto simp: read_escaped_char_def unescape_def)
next
  case False
  with assms have at: "reader_at r pre (c # post)" by auto
  then obtain r1 where "read_char r = Inr r1" "reader_at r1 (pre @ [c]) post"
    using read_char_at by blast
  with False curr_at [OF at] show ?thesis by (auto simp: read_escaped_char_def)
qed

lemma escape_append: "escape (c # cs) = escape [c] @ escape cs"
  by simp

lemma read_string_loop_escaped:
  "reader_at r pre (escape s @ 34 # post) \<Longrightarrow>
     \<exists>r'. read_string_loop pos v r = Inr (Inr (False, v @ s), r') \<and> reader_at r' (pre @ escape s) (34 # post)"
proof (induction s arbitrary: r pre v)
  case Nil
  then show ?case by (subst read_string_loop.simps) (simp add: curr_at is_quote_def)
next
  case (Cons c s)
  have at: "reader_at r pre (escape [c] @ escape s @ 34 # post)" using Cons.prems by simp
  obtain r1 where r1: "read_escaped_char pos UnclosedString r = Inr (Inr c, r1)"
    "reader_at r1 (pre @ escape [c]) (escape s @ 34 # post)"
    using read_escaped_char_escaped [OF at] by blast
  have "read_string_loop pos v r = read_string_loop pos (v @ [c]) r1"
    using r1(1) curr_at [OF at] by (subst read_string_loop.simps) (auto simp: is_quote_def)
  with Cons.IH [OF r1(2), of "v @ [c]"] show ?case by auto
qed

lemma read_string_at:
  assumes "reader_at r pre ((34 # escape s @ [34]) @ post)"
  shows "\<exists>t r'. read_string True r = Inr (Inr t, r') \<and> tok_kind t = TkStringTail s
    \<and> reader_at r' (pre @ 34 # escape s @ [34]) post"
proof -
  have at: "reader_at r pre (34 # escape s @ 34 # post)" using assms by simp
  have idx: "unat (reader_idx r) < 2 ^ 28" using reader_idx_at [OF at] by simp
  obtain r1 where r1: "read_char r = Inr r1" "reader_at r1 (pre @ [34]) (escape s @ 34 # post)"
    using read_char_at [OF at] by blast
  obtain r2 where r2: "read_string_loop (lr_pos r) [] r1 = Inr (Inr (False, s), r2)"
    "reader_at r2 ((pre @ [34]) @ escape s) (34 # post)"
    using read_string_loop_escaped [OF r1(2), of "lr_pos r" "[]"] by auto
  obtain r3 where r3: "read_char r2 = Inr r3" "reader_at r3 (((pre @ [34]) @ escape s) @ [34]) post"
    using read_char_at [OF r2(2)] by blast
  have "read_string True r = finish_token (TkStringTail s) (lr_pos r) (reader_idx r) r3"
    using r1(1) r2(1) r3(1) curr_at [OF at] curr_at [OF r2(2)] by (simp add: read_string_def is_quote_def)
  with finish_token_at [OF r3(2) idx] r3(2) show ?thesis by (simp add: token_new_def)
qed

lemma read_identifier_at:
  assumes at: "reader_at r pre (name @ post)" and "list_all ident_char name" and "\<not> holds ident_char (first_char post)"
  shows "\<exists>t r'. read_identifier r = Inr (Inr t, r') \<and> reader_at r' (pre @ name) post
    \<and> tok_kind t = (case map_of keyword_map name of Some k \<Rightarrow> k
        | None \<Rightarrow> if name = str ''_'' then TkUnderscore else TkIdentifier name)"
proof -
  have idx: "unat (reader_idx r) < 2 ^ 28" using reader_idx_at [OF at] by simp
  have "takeWhile ident_char post = []" "dropWhile ident_char post = post"
    using assms(3) by (cases post; simp)+
  then have "takeWhile ident_char (name @ post) = name" "dropWhile ident_char (name @ post) = post"
    using assms(2) by (simp_all add: list_all_iff takeWhile_append2 dropWhile_append2)
  with ident.scan_at [OF at] obtain r' where "read_identifier_as_string r = Inr (name, r')" "reader_at r' (pre @ name) post"
    by auto
  with idx show ?thesis by (simp add: read_identifier_def finish_token_at token_new_def)
qed

text \<open>The tokens that are written in one way only: keywords and operators.\<close>

definition operator_tokens :: "token_kind list" where
  "operator_tokens = [TkAdd, TkSub, TkMul, TkDiv, TkModulo, TkNot, TkOr, TkAnd, TkCaret, TkAndAnd, TkOrOr,
     TkEqEq, TkNotEq, TkEqEqEq, TkNeEqEq, TkLt, TkLe, TkGt, TkGe, TkGtGt, TkGtGtGt, TkLtLt, TkEq, TkComma,
     TkSemicolon, TkDot, TkDotDotDot, TkColon, TkColonColon, TkAt, TkArrow, TkDoubleArrow, TkLParen, TkRParen,
     TkLBracket, TkRBracket, TkLBrace, TkRBrace]"

definition separates :: "chars \<Rightarrow> bool" where
  "separates cs = (case cs of [] \<Rightarrow> True | d # _ \<Rightarrow> d < 128 \<and> \<not> is_operator (Some d) \<and> \<not> is_identifier (Some d))"

text \<open>An operator followed by a character that belongs to none is recognised by its name.\<close>

definition named_operator :: "code \<Rightarrow> code \<Rightarrow> token_kind \<Rightarrow> bool" where
  "named_operator d e kind =
     (case str (token_name kind) of
        [] \<Rightarrow> False
      | [c] \<Rightarrow> operator_kind c d e = Some (kind, 0)
      | [c, c1] \<Rightarrow> operator_kind c c1 d = Some (kind, 1) \<and> c \<noteq> 47
      | c # c1 # c2 # cs \<Rightarrow> operator_kind c c1 c2 = Some (kind, 2) \<and> c \<noteq> 47 \<and> cs = [])"

lemma named_operators:
  assumes "d \<notin> set operator_chars"
  shows "list_all (named_operator d e) operator_tokens"
proof -
  have "d \<noteq> 62" "d \<noteq> 124" "d \<noteq> 38" "d \<noteq> 58" "d \<noteq> 46" "d \<noteq> 61" "d \<noteq> 60"
    using assms by (simp_all add: operator_chars_def str_def)
  then show ?thesis
    by (simp add: operator_tokens_def named_operator_def operator_kind_def str_def)
qed

lemma operator_names:
  "list_all (\<lambda>kind. list_all (\<lambda>c. c \<in> set operator_chars) (str (token_name kind))) operator_tokens"
  by (simp add: operator_tokens_def operator_chars_def str_def)

lemma operator_char_only:
  assumes "c \<in> set operator_chars"
  shows "c < 128" "\<not> char_is_whitespace c" "\<not> is_digit (Some c)" "\<not> is_identifier_start (Some c)"
    "\<not> is_quote (Some c)" "\<not> is_char_quote (Some c)"
  using assms
  by (auto simp: operator_chars_def str_def char_is_whitespace_def char_is_digit_def is_quote_def is_char_quote_def)

lemma read_operator_kind:
  assumes at: "reader_at r pre (c # cs)" and "ascii_next cs"
    and "operator_kind c (unwrap_or (first_char cs) (cc CHR ''x''))
      (unwrap_or (first_char (drop 1 cs)) (cc CHR ''x'')) = Some (kind, length xs)"
    and split: "cs = xs @ post"
  shows "\<exists>t r'. read_operator r = Inr (Inr t, r') \<and> tok_kind t = kind \<and> reader_at r' (pre @ c # xs) post"
proof -
  have idx: "unat (reader_idx r) < 2 ^ 28" using reader_idx_at [OF at] by simp
  obtain r1 where r1: "read_char r = Inr r1" "reader_at r1 (pre @ [c]) cs"
    using read_char_at [OF at] by blast
  have "\<exists>r2. read_chars (length xs) r1 = Inr r2 \<and> reader_at r2 ((pre @ [c]) @ xs) post"
    using r1(2) unfolding split
  proof (induction xs arbitrary: r1 pre c)
    case (Cons x xs)
    then obtain r2 where "read_char r1 = Inr r2" "reader_at r2 ((pre @ [c]) @ [x]) (xs @ post)"
      using read_char_at [of r1 "pre @ [c]" x "xs @ post"] by auto
    with Cons.IH [of r2 "pre @ [c]" x] show ?case by auto
  qed simp
  then obtain r2 where r2: "read_chars (length xs) r1 = Inr r2" "reader_at r2 (pre @ c # xs) post" by auto
  have "read_operator r = finish_token kind (lr_pos r) (reader_idx r) r2"
    using r1 r2(1) assms(3) curr_at [OF at] curr_at [OF r1(2)] next_after_operator [OF r1(2) assms(2)]
    by (simp add: read_operator_def Let_def)
  with finish_token_at [OF r2(2) idx] r2(2) show ?thesis by (simp add: token_new_def)
qed

lemma read_operator_named:
  assumes at: "reader_at r pre (str (token_name kind) @ post)" and kind: "kind \<in> set operator_tokens"
    and sep: "separates post"
  shows "\<exists>t r'. read_operator r = Inr (Inr t, r') \<and> tok_kind t = kind
    \<and> reader_at r' (pre @ str (token_name kind)) post"
proof -
  define d where "d = unwrap_or (first_char post) (cc CHR ''x'')"
  define e where "e = unwrap_or (first_char (drop 1 post)) (cc CHR ''x'')"
  have "d \<notin> set operator_chars" using sep
    by (cases post) (auto simp: d_def unwrap_or_def separates_def operator_chars_def str_def)
  then have named: "named_operator d e kind" using named_operators kind by (auto simp: list_all_iff)
  have ascii: "ascii_next post" using sep by (cases post) (auto simp: separates_def ascii_next_def)
  have chars: "list_all (\<lambda>c. c \<in> set operator_chars) (str (token_name kind))"
    using operator_names kind by (auto simp: list_all_iff)
  obtain c xs where n: "str (token_name kind) = c # xs"
    using named by (cases "str (token_name kind)") (auto simp: named_operator_def)
  have "ascii_next (xs @ post)"
    using ascii chars n operator_char_only(1) by (cases xs) (auto simp: ascii_next_def)
  moreover have "operator_kind c (unwrap_or (first_char (xs @ post)) (cc CHR ''x''))
      (unwrap_or (first_char (drop 1 (xs @ post))) (cc CHR ''x'')) = Some (kind, length xs)"
    using named n by (auto simp: named_operator_def d_def e_def unwrap_or_def split: list.splits)
  ultimately show ?thesis using read_operator_kind [of r pre c "xs @ post" kind xs post] at n by simp
qed

lemma ident_start_only:
  assumes "is_identifier_start (Some c)"
  shows "\<not> char_is_whitespace c" "\<not> is_digit (Some c)" "c \<noteq> 47"
  using assms by (auto simp: char_is_whitespace_def char_is_digit_def)

lemma keyword_names:
  assumes "(w, kind) \<in> set keyword_map"
  shows "str (token_name kind) = w" "map_of keyword_map w = Some kind"
    "list_all ident_char w" "w \<noteq> []" "is_identifier_start (Some (hd w))"
proof -
  have "list_all (\<lambda>(w, kind). str (token_name kind) = w \<and> w \<noteq> []) keyword_map"
    by (simp add: keyword_map_def str_def)
  moreover have "list_all (\<lambda>(w, kind). list_all ident_char w \<and> is_identifier_start (Some (hd w))) keyword_map"
    by (simp add: keyword_map_def str_def ident_char_def is_identifier_def)
  moreover have "distinct (map fst keyword_map)" by (simp add: keyword_map_def str_def)
  ultimately show "str (token_name kind) = w" "map_of keyword_map w = Some kind"
    "list_all ident_char w" "w \<noteq> []" "is_identifier_start (Some (hd w))"
    using assms by (auto simp: list_all_iff)
qed

end
