(* ===== verification/LexerTheorems.thy ===== *)
theory LexerTheorems
  imports LexerProgress
begin

text \<open>
  Properties of the lexer: reading a token returns for every text in which no operator is
  followed by a non-ASCII character, it panics where one is, and strings, operators, keywords and
  identifiers are read back as what was written.
\<close>

subsection \<open>The lexer's properties\<close>

text \<open>
  C18.  Reading a token always returns when no operator in the rest of the text is followed by a
  non-ASCII character: either an error, or a token whose span is exactly the text read after the
  skipped white space and comments; the reader is left behind it, and the token is the end token
  exactly when nothing was left to read.
\<close>

theorem read_token_returns:
  assumes "reader_at r pre post" and "op_safe post"
  shows "\<exists>x r' ws tx rest. read_token r = Inr (x, r') \<and> post = ws @ tx @ rest
    \<and> reader_at r' (pre @ ws @ tx) rest
    \<and> (\<forall>t. x = Inr t \<longrightarrow>
         unat (span_loc (tok_span t)) = byte_len (pre @ ws) \<and> unat (span_count (tok_span t)) = byte_len tx
         \<and> (tok_kind t = TkEnd \<longleftrightarrow> tx = []) \<and> (tok_kind t = TkEnd \<longrightarrow> rest = []))"
proof -
  obtain x r1 r' ws tx rest where m: "read_token r = Inr (x, r')" "post = ws @ tx @ rest"
    and at: "reader_at r1 (pre @ ws) (tx @ rest)" "reader_at r' ((pre @ ws) @ tx) rest"
    and ok: "\<forall>t. x = Inr t \<longrightarrow> token_ok r1 r' t"
    using read_token_lexes [OF assms] unfolding tok_lexes_def by auto
  have "unat (span_loc (tok_span t)) = byte_len (pre @ ws) \<and> unat (span_count (tok_span t)) = byte_len tx
         \<and> (tok_kind t = TkEnd \<longleftrightarrow> tx = []) \<and> (tok_kind t = TkEnd \<longrightarrow> rest = [])" if "token_ok r1 r' t" for t
  proof (cases "tok_kind t = TkEnd")
    case True
    with that have t: "r' = r1" "curr r1 = Inr None"
      "t = token_new TkEnd (lr_pos r1) \<lparr>span_loc = reader_idx r1, span_count = 0\<rparr>"
      by (simp_all add: token_ok_def)
    then have "first_char (tx @ rest) = None" using curr_at [OF at(1)] by simp
    then have "tx @ rest = []" by (cases "tx @ rest") auto
    with t True reader_idx_at [OF at(1)] show ?thesis by (simp add: token_new_def)
  next
    case False
    with that have "spans r1 r' t" "left r' < left r1" by (simp_all add: token_ok_def)
    with False span_of_text [OF at] consumed [OF at] show ?thesis by simp
  qed
  with ok m at(2) show ?thesis unfolding append_assoc by blast
qed

theorem read_token_returns_witness:
  "reader_at (from_string (str ''/* c */ x+1'')) [] (str ''/* c */ x+1'') \<and> op_safe (str ''/* c */ x+1'')
   \<and> (\<exists>x r' ws tx rest. read_token (from_string (str ''/* c */ x+1'')) = Inr (x, r')
        \<and> str ''/* c */ x+1'' = ws @ tx @ rest \<and> reader_at r' (ws @ tx) rest)"
proof -
  have at: "reader_at (from_string (str ''/* c */ x+1'')) [] (str ''/* c */ x+1'')"
    by (rule reader_at_from_string) (simp add: str_def len_utf8_def)
  have safe: "op_safe (str ''/* c */ x+1'')"
    by (simp add: str_def ascii_next_def operator_chars_def)
  from at safe read_token_returns [OF at safe] show ?thesis unfolding append_Nil by blast
qed

text \<open>
  C39.  An operator character at the start of a token, directly followed by a non-ASCII character, makes
  the lexer panic: the look-ahead of \<open>read_operator\<close> slices the text one byte into that character.
\<close>

theorem operator_before_non_ascii_panics:
  assumes "reader_at r pre (ws @ c # d # post)" and "list_all char_is_whitespace ws"
    and "is_operator (Some c)" and "128 \<le> d"
  shows "read_token r = Inl IndexOutOfBounds"
proof -
  have c: "c \<in> set operator_chars" using assms(3) by simp
  have "takeWhile char_is_whitespace (ws @ c # d # post) = ws"
    "dropWhile char_is_whitespace (ws @ c # d # post) = c # d # post"
    using assms(2) operator_char_only(2) [OF c] by (simp_all add: list_all_iff takeWhile_append2 dropWhile_append2)
  with white.skip_at [OF assms(1)] obtain r1 where r1: "skip_white r = Inr r1"
    "reader_at r1 (pre @ ws) (c # d # post)" by auto
  obtain r2 where r2: "read_char r1 = Inr r2" "reader_at r2 ((pre @ ws) @ [c]) (d # post)"
    using read_char_at [OF r1(2)] by blast
  have "read_token r = read_operator r1"
    using read_token_dispatch [OF r1] assms(4) operator_char_only [OF c] c
    by (simp del: is_identifier_start.simps is_digit.simps)
  also have "\<dots> = Inl IndexOutOfBounds"
    using curr_at [OF r1(2)] curr_at [OF r2(2)] r2(1) next_char_inside [OF r2(2) assms(4)]
    by (simp add: read_operator_def)
  finally show ?thesis .
qed

theorem operator_before_non_ascii_panics_witness:
  "reader_at (from_string [32, 61, 228]) [] [32, 61, 228] \<and> list_all char_is_whitespace [32]
   \<and> is_operator (Some 61) \<and> read_token (from_string [32, 61, 228]) = Inl IndexOutOfBounds"
proof -
  have at: "reader_at (from_string [32, 61, 228]) [] ([32] @ 61 # 228 # [])"
    using reader_at_from_string [of "[32, 61, 228]"] by (simp add: len_utf8_def)
  have ws: "list_all char_is_whitespace [32]" by (simp add: char_is_whitespace_def)
  have op: "is_operator (Some 61)" by (simp add: operator_chars_def str_def)
  have "read_token (from_string [32, 61, 228]) = Inl IndexOutOfBounds"
    by (rule operator_before_non_ascii_panics [OF at ws op]) simp
  with at ws op show ?thesis by simp
qed

text \<open>
  A string written between quotes with its backslashes, quotes and dollar signs escaped is read
  back as one string token with that text.
\<close>

theorem string_literal_reads_back:
  assumes "reader_at r pre ((34 # escape s @ [34]) @ post)"
  shows "\<exists>t r'. read_token r = Inr (Inr t, r') \<and> tok_kind t = TkStringTail s
    \<and> reader_at r' (pre @ 34 # escape s @ [34]) post"
proof -
  have at: "reader_at r pre (34 # escape s @ 34 # post)" using assms by simp
  have "skip_white r = Inr r" using at by (rule no_white) (simp add: char_is_whitespace_def)
  from read_token_dispatch [OF this at] have "read_token r = read_string True r"
    by (simp add: is_quote_def char_is_digit_def)
  with read_string_at [OF assms] show ?thesis by simp
qed

theorem string_literal_reads_back_witness:
  "reader_at (from_string (34 # escape [97, 34, 36] @ [34])) [] ((34 # escape [97, 34, 36] @ [34]) @ [])
   \<and> (\<exists>t r'. read_token (from_string (34 # escape [97, 34, 36] @ [34])) = Inr (Inr t, r')
        \<and> tok_kind t = TkStringTail [97, 34, 36])"
proof -
  have at: "reader_at (from_string (34 # escape [97, 34, 36] @ [34])) [] ((34 # escape [97, 34, 36] @ [34]) @ [])"
    using reader_at_from_string [of "34 # escape [97, 34, 36] @ [34]"] by (simp add: len_utf8_def)
  with string_literal_reads_back [OF at] show ?thesis by blast
qed

text \<open>
  Every keyword and every operator, written as its name and followed by a character that is part
  of neither, is read back as that token.
\<close>

theorem token_names_read_back:
  assumes "kind \<in> set (map snd keyword_map @ operator_tokens)"
    and "reader_at r pre (str (token_name kind) @ post)" and "separates post"
  shows "\<exists>t r'. read_token r = Inr (Inr t, r') \<and> tok_kind t = kind
    \<and> reader_at r' (pre @ str (token_name kind)) post"
proof (cases "kind \<in> set operator_tokens")
  case True
  then have "named_operator 0 0 kind"
    using named_operators [of 0 0] by (auto simp: list_all_iff operator_chars_def str_def)
  then obtain c cs where n: "str (token_name kind) = c # cs" and no: "cs \<noteq> [] \<Longrightarrow> c \<noteq> 47"
    by (auto simp: named_operator_def split: list.splits)
  have c: "c \<in> set operator_chars" using operator_names True n by (auto simp: list_all_iff)
  have at: "reader_at r pre (c # cs @ post)" using assms(2) n by simp
  have "d \<noteq> 47 \<and> d \<noteq> 42" if "post = d # ds" for d ds
    using assms(3) that by (auto simp: separates_def operator_chars_def str_def)
  then have "read_token r = read_operator r"
    using read_token_dispatch [OF no_white [OF at operator_char_only(2) [OF c]] at] no
      operator_char_only [OF c] c
    by (cases cs; cases post) (simp_all del: is_identifier_start.simps is_digit.simps)
  with read_operator_named [OF assms(2) True assms(3)] show ?thesis by simp
next
  case False
  with assms(1) obtain w where w: "(w, kind) \<in> set keyword_map" by auto
  with keyword_names have n: "str (token_name kind) = w" "map_of keyword_map w = Some kind"
    "list_all ident_char w" "w \<noteq> []" "is_identifier_start (Some (hd w))" by auto
  obtain c cs where "w = c # cs" using n(4) by (cases w) auto
  with n assms(2) have at: "reader_at r pre (c # cs @ post)" and start: "is_identifier_start (Some c)" by simp_all
  have "read_token r = read_identifier r"
    using read_token_dispatch [OF no_white [OF at] at] start ident_start_only [OF start] by auto
  moreover have "\<not> holds ident_char (first_char post)"
    using assms(3) by (cases post) (simp_all add: separates_def ident_char_def)
  ultimately show ?thesis using read_identifier_at [of r pre w post] assms(2) n by auto
qed

theorem token_names_read_back_witness:
  "TkGtGtGt \<in> set (map snd keyword_map @ operator_tokens)
   \<and> reader_at (from_string (str ''>>> b'')) [] (str (token_name TkGtGtGt) @ str '' b'') \<and> separates (str '' b'')
   \<and> (\<exists>t r'. read_token (from_string (str ''>>> b'')) = Inr (Inr t, r') \<and> tok_kind t = TkGtGtGt)"
proof -
  have k: "TkGtGtGt \<in> set (map snd keyword_map @ operator_tokens)" by (simp add: operator_tokens_def)
  have at: "reader_at (from_string (str ''>>> b'')) [] (str (token_name TkGtGtGt) @ str '' b'')"
    using reader_at_from_string [of "str ''>>> b''"] by (simp add: str_def len_utf8_def)
  have sep: "separates (str '' b'')"
    by (simp add: separates_def str_def operator_chars_def is_identifier_def char_is_digit_def)
  from k at sep token_names_read_back [OF k at sep] show ?thesis by blast
qed

text \<open>
  A name that starts like an identifier, consists of identifier characters and is no keyword is
  read back as that identifier, up to the first character that cannot continue it.
\<close>

theorem identifier_reads_back:
  assumes "reader_at r pre (name @ post)" and "name \<noteq> []" and "is_identifier_start (Some (hd name))"
    and "list_all (\<lambda>c. is_identifier (Some c)) name" and "\<not> is_identifier (first_char post)"
    and "map_of keyword_map name = None" and "name \<noteq> str ''_''"
  shows "\<exists>t r'. read_token r = Inr (Inr t, r') \<and> tok_kind t = TkIdentifier name
    \<and> reader_at r' (pre @ name) post"
proof -
  obtain c cs where n: "name = c # cs" using assms(2) by (cases name) auto
  then have at: "reader_at r pre (c # cs @ post)" and start: "is_identifier_start (Some c)"
    using assms(1,3) by simp_all
  have "read_token r = read_identifier r"
    using read_token_dispatch [OF no_white [OF at] at] start ident_start_only [OF start] by auto
  moreover have "list_all ident_char name" "\<not> holds ident_char (first_char post)"
    using assms(4,5) by (auto simp: ident_char_def list_all_iff) (cases post, auto simp: ident_char_def)
  ultimately show ?thesis using read_identifier_at [OF assms(1)] assms(6,7) by auto
qed

theorem identifier_reads_back_witness:
  "reader_at (from_string (str ''self1+'')) [] (str ''self1'' @ str ''+'')
   \<and> map_of keyword_map (str ''self1'') = None
   \<and> (\<exists>t r'. read_token (from_string (str ''self1+'')) = Inr (Inr t, r') \<and> tok_kind t = TkIdentifier (str ''self1''))"
proof -
  have at: "reader_at (from_string (str ''self1+'')) [] (str ''self1'' @ str ''+'')"
    using reader_at_from_string [of "str ''self1+''"] by (simp add: str_def len_utf8_def)
  have k: "map_of keyword_map (str ''self1'') = None" by (simp add: keyword_map_def str_def)
  have "\<exists>t r'. read_token (from_string (str ''self1+'')) = Inr (Inr t, r') \<and> tok_kind t = TkIdentifier (str ''self1'')
    \<and> reader_at r' ([] @ str ''self1'') (str ''+'')"
    by (rule identifier_reads_back [OF at _ _ _ _ k]) (simp_all add: str_def is_identifier_def char_is_digit_def)
  with at k show ?thesis by blast
qed

end
