(* ===== verification/Safepoint.thy ===== *)
theory Safepoint
  imports Prelude
begin

text \<open>
  Threads and stop-the-world safepoints (\<open>dora/src/threads.rs\<close>, \<open>dora/src/safepoint.rs\<close>).  The
  system is the shared state of all threads together with the place each thread has reached; one
  step of a thread is one atomic operation on a thread's state word or one critical section of the
  barrier's or the thread list's mutex.  A step that waits for a condition variable or a mutex is
  blocked (\<open>None\<close>), one that fails an assertion is a panic.  The atomics are taken to be
  sequentially consistent.
\<close>

subsection \<open>Thread states and the barrier\<close>

datatype thread_state = Running | Parked | SafepointRequested | ParkedSafepoint | Safepoint

primrec state_to_usize :: "thread_state \<Rightarrow> usize" where
  "state_to_usize Running = 0"
| "state_to_usize Parked = 1"
| "state_to_usize SafepointRequested = 2"
| "state_to_usize ParkedSafepoint = 3"
| "state_to_usize Safepoint = 4"

definition state_from_usize :: "usize \<Rightarrow> thread_state result" where
  "state_from_usize v =
     (if v = 0 then Inr Running
      else if v = 1 then Inr Parked
      else if v = 2 then Inr SafepointRequested
      else if v = 3 then Inr ParkedSafepoint
      else if v = 4 then Inr Safepoint
      else Inl Unreachable)"

fun is_running :: "thread_state \<Rightarrow> bool" where
  "is_running Running = True"
| "is_running SafepointRequested = True"
| "is_running _ = False"

fun is_parked :: "thread_state \<Rightarrow> bool" where
  "is_parked Parked = True"
| "is_parked ParkedSafepoint = True"
| "is_parked _ = False"

record barrier =
  armed :: bool
  stopped :: usize

definition barrier_new :: barrier where
  "barrier_new = \<lparr>armed = False, stopped = 0\<rparr>"

definition arm :: "barrier \<Rightarrow> barrier result" where
  "arm b = rbind (rassert (\<not> armed b)) (\<lambda>_. Inr \<lparr>armed = True, stopped = 0\<rparr>)"

definition disarm :: "barrier \<Rightarrow> barrier result" where
  "disarm b = rbind (rassert (armed b)) (\<lambda>_. Inr (b\<lparr>armed := False\<rparr>))"

definition notify_park :: "barrier \<Rightarrow> barrier result" where
  "notify_park b = rbind (rassert (armed b)) (\<lambda>_. Inr (b\<lparr>stopped := stopped b + 1\<rparr>))"

text \<open>\<open>wait_in_safepoint\<close> up to its waiting loop, which like that of \<open>wait_in_unpark\<close> is left
  when the barrier is no longer armed.\<close>

definition wait_in_safepoint :: "barrier \<Rightarrow> barrier result" where
  "wait_in_safepoint b = rbind (rassert (armed b)) (\<lambda>_. Inr (b\<lparr>stopped := stopped b + 1\<rparr>))"

definition wakeup_ready :: "barrier \<Rightarrow> bool" where
  "wakeup_ready b = (\<not> armed b)"

text \<open>\<open>wait_until_threads_stopped\<close>: blocked while too few threads have stopped.\<close>

definition wait_until_threads_stopped :: "usize \<Rightarrow> barrier \<Rightarrow> unit result option" where
  "wait_until_threads_stopped n b =
     (if \<not> armed b then Some (Inl AssertionFailed)
      else if stopped b < n then None
      else Some (rassert (stopped b = n)))"

subsection \<open>The system\<close>

type_synonym tid = nat

text \<open>What a thread is parked for: foreign code, \<open>stop_the_world\<close>, \<open>add_thread\<close> of a new
  thread, or \<open>remove_current_thread\<close>.\<close>

datatype scope = InNative | InStw | InAdd tid | InRemove

text \<open>Places.  A place of \<open>stop_threads\<close> or \<open>resume_threads\<close> carries the threads its loop has
  still to visit, and the count and the last state seen where there is one.  \<open>Unpark\<close> and its slow
  path carry the thread to start afterwards, in \<open>spawn_thread\<close>.\<close>

datatype place =
    Mutator
  | SafepointSwap
  | SafepointWait
  | SafepointBlocked
  | Park scope
  | ParkSlow scope
  | ParkNotify scope
  | Scope scope
  | Unpark "tid option"
  | UnparkSlow "tid option"
  | UnparkWait "tid option"
  | StwArm
  | StwRequest "tid list"
  | StwLoad usize "tid list"
  | StwCas usize thread_state "tid list"
  | StwWait usize
  | StwOperation bool
  | StwClear "tid list"
  | StwSwap "tid list"
  | StwDisarm
  | StwUnlock
  | Unstarted
  | Finished

record system =
  sy_state :: "tid \<Rightarrow> thread_state"
  sy_requested :: "tid \<Rightarrow> bool"
  sy_place :: "tid \<Rightarrow> place"
  sy_barrier :: barrier
  sy_lock :: "tid option"
  sy_threads :: "tid list"
  sy_next_id :: usize

type_synonym sys_step = "tid \<Rightarrow> system \<Rightarrow> system result option"

definition goto :: "tid \<Rightarrow> place \<Rightarrow> system \<Rightarrow> system" where
  "goto t p s = s\<lparr>sy_place := (sy_place s)(t := p)\<rparr>"

definition set_state :: "tid \<Rightarrow> thread_state \<Rightarrow> system \<Rightarrow> system" where
  "set_state t v s = s\<lparr>sy_state := (sy_state s)(t := v)\<rparr>"

definition set_requested :: "tid \<Rightarrow> bool \<Rightarrow> system \<Rightarrow> system" where
  "set_requested t b s = s\<lparr>sy_requested := (sy_requested s)(t := b)\<rparr>"

definition compare_exchange :: "thread_state \<Rightarrow> thread_state \<Rightarrow> tid \<Rightarrow> system \<Rightarrow> (thread_state + unit) \<times> system" where
  "compare_exchange old new t s =
     (if sy_state s t = old then (Inr (), set_state t new s) else (Inl (sy_state s t), s))"

definition with_barrier :: "(barrier \<Rightarrow> barrier result) \<Rightarrow> place \<Rightarrow> sys_step" where
  "with_barrier f p t s =
     Some (rbind (f (sy_barrier s)) (\<lambda>b. Inr (goto t p (s\<lparr>sy_barrier := b\<rparr>))))"

subsection \<open>Parking and unparking\<close>

definition park :: "scope \<Rightarrow> sys_step" where
  "park k t s =
     (case compare_exchange Running Parked t s of
        (Inr _, s) \<Rightarrow> Some (Inr (goto t (Scope k) s))
      | (Inl _, s) \<Rightarrow> Some (Inr (goto t (ParkSlow k) s)))"

definition park_slow :: "scope \<Rightarrow> sys_step" where
  "park_slow k t s =
     (case compare_exchange SafepointRequested ParkedSafepoint t s of
        (Inr _, s) \<Rightarrow> Some (Inr (goto t (ParkNotify k) s))
      | (Inl _, s) \<Rightarrow> Some (Inl AssertionFailed))"

text \<open>Behind \<open>unpark\<close> a thread runs on; in \<open>spawn_thread\<close> it first starts the new thread, whose
  \<open>thread_main\<close> begins with an \<open>unpark\<close>.\<close>

definition after_unpark :: "tid option \<Rightarrow> tid \<Rightarrow> system \<Rightarrow> system" where
  "after_unpark spawn t s =
     (case spawn of None \<Rightarrow> goto t Mutator s | Some u \<Rightarrow> goto t Mutator (goto u (Unpark None) s))"

definition unpark :: "tid option \<Rightarrow> sys_step" where
  "unpark k t s =
     (case compare_exchange Parked Running t s of
        (Inr _, s) \<Rightarrow> Some (Inr (after_unpark k t s))
      | (Inl _, s) \<Rightarrow> Some (Inr (goto t (UnparkSlow k) s)))"

definition unpark_slow :: "tid option \<Rightarrow> sys_step" where
  "unpark_slow k t s =
     (case compare_exchange Parked Running t s of
        (Inr _, s) \<Rightarrow> Some (Inr (after_unpark k t s))
      | (Inl v, s) \<Rightarrow>
          Some (rbind (rassert (v = ParkedSafepoint)) (\<lambda>_. Inr (goto t (UnparkWait k) s))))"

definition unpark_wait :: "tid option \<Rightarrow> sys_step" where
  "unpark_wait k t s =
     (if wakeup_ready (sy_barrier s) then Some (Inr (goto t (UnparkSlow k) s)) else None)"

subsection \<open>Safepoints\<close>

definition safepoint_slow :: sys_step where
  "safepoint_slow t s =
     Some (rbind (rassert (sy_state s t = SafepointRequested \<or> sy_state s t = Running))
       (\<lambda>_. Inr (goto t SafepointWait (set_state t Safepoint s))))"

definition safepoint_blocked :: sys_step where
  "safepoint_blocked t s =
     (if wakeup_ready (sy_barrier s) then Some (Inr (goto t (Unpark None) s)) else None)"

subsection \<open>Stopping and resuming the world\<close>

definition stop_the_world :: sys_step where
  "stop_the_world t s =
     (if sy_lock s \<noteq> None then None
      else Some (Inr (goto t (if length (sy_threads s) = 1 then StwOperation True else StwArm)
                           (s\<lparr>sy_lock := Some t\<rparr>))))"

definition stop_request :: "tid list \<Rightarrow> sys_step" where
  "stop_request us t s =
     Some (Inr (case us of
        [] \<Rightarrow> goto t (StwLoad 0 (sy_threads s)) s
      | u # us \<Rightarrow> goto t (StwRequest us) (set_requested u True s)))"

definition stop_load :: "usize \<Rightarrow> tid list \<Rightarrow> sys_step" where
  "stop_load running us t s =
     Some (Inr (case us of
        [] \<Rightarrow> goto t (StwWait running) s
      | u # _ \<Rightarrow> goto t (StwCas running (sy_state s u) us) s))"

definition stop_cas :: "usize \<Rightarrow> thread_state \<Rightarrow> tid list \<Rightarrow> sys_step" where
  "stop_cas running current_state us t s =
     (case us of
        [] \<Rightarrow> None
      | u # us' \<Rightarrow>
          (case current_state of
             Running \<Rightarrow>
               (case compare_exchange Running SafepointRequested u s of
                  (Inr _, s) \<Rightarrow> Some (Inr (goto t (StwLoad (running + 1) us') s))
                | (Inl v, s) \<Rightarrow> Some (Inr (goto t (StwCas running v us) s)))
           | Parked \<Rightarrow>
               (case compare_exchange Parked ParkedSafepoint u s of
                  (Inr _, s) \<Rightarrow> Some (Inr (goto t (StwLoad running us') s))
                | (Inl v, s) \<Rightarrow> Some (Inr (goto t (StwCas running v us) s)))
           | Safepoint \<Rightarrow> Some (Inr (goto t (StwLoad (running + 1) us') s))
           | _ \<Rightarrow> Some (Inl ExplicitPanic)))"

definition stop_wait :: "usize \<Rightarrow> sys_step" where
  "stop_wait running t s =
     map_option (\<lambda>res. rbind res (\<lambda>_. Inr (goto t (StwOperation False) s)))
       (wait_until_threads_stopped running (sy_barrier s))"

text \<open>The end of the operation: with one thread only, \<open>stop_the_world\<close> returns at once.\<close>

definition stop_operation :: "bool \<Rightarrow> sys_step" where
  "stop_operation alone t s =
     Some (Inr (if alone then goto t StwUnlock s
                else goto t (StwClear (sy_threads s)) s))"

definition resume_clear :: "tid list \<Rightarrow> sys_step" where
  "resume_clear us t s =
     Some (Inr (case us of
        [] \<Rightarrow> goto t (StwSwap (sy_threads s)) s
      | u # us \<Rightarrow> goto t (StwClear us) (set_requested u False s)))"

definition resume_swap :: "tid list \<Rightarrow> sys_step" where
  "resume_swap us t s =
     (case us of
        [] \<Rightarrow> Some (Inr (goto t StwDisarm s))
      | u # us \<Rightarrow>
          Some (rbind (rassert (sy_state s u = Safepoint \<or> sy_state s u = ParkedSafepoint))
            (\<lambda>_. Inr (goto t (StwSwap us) (set_state u Parked s)))))"

text \<open>The mutex of the thread list is released when the scope of its guard ends.\<close>

definition stw_unlock :: sys_step where
  "stw_unlock t s = Some (Inr (goto t (Unpark None) (s\<lparr>sy_lock := None\<rparr>)))"

subsection \<open>The thread list\<close>

definition add_main_thread :: "tid \<Rightarrow> system \<Rightarrow> system result" where
  "add_main_thread t s =
     rbind (rassert (is_running (sy_state s t))) (\<lambda>_.
     rbind (rassert (sy_threads s = [])) (\<lambda>_.
     Inr (s\<lparr>sy_threads := sy_threads s @ [t]\<rparr>)))"

text \<open>\<open>spawn_thread\<close> makes a parked thread and calls \<open>add_thread\<close>, which parks the caller around
  the critical section on the list.\<close>

definition spawn_thread :: sys_step where
  "spawn_thread t s =
     (let u = sy_next_id s;
          s = set_state u Parked (s\<lparr>sy_next_id := u + 1\<rparr>)
      in Some (rbind (rassert (is_parked (sy_state s u))) (\<lambda>_. Inr (goto t (Park (InAdd u)) s))))"

definition add_thread :: "tid \<Rightarrow> sys_step" where
  "add_thread u t s =
     (if sy_lock s \<noteq> None then None
      else Some (Inr (goto t (Unpark (Some u)) (s\<lparr>sy_threads := sy_threads s @ [u]\<rparr>))))"

definition remove_current_thread :: sys_step where
  "remove_current_thread t s =
     (if sy_lock s \<noteq> None then None
      else Some (Inr (goto t Finished (s\<lparr>sy_threads := filter (\<lambda>u. u \<noteq> t) (sy_threads s)\<rparr>))))"

subsection \<open>Steps\<close>

text \<open>What running Dora code may do next: poll for a safepoint, call foreign code that parks,
  start a collection, spawn a thread or end.\<close>

datatype action = Poll | CallNative | Collect | Spawn | Exit

definition mutate :: "action \<Rightarrow> sys_step" where
  "mutate a t s =
     (case a of
        Poll \<Rightarrow> Some (Inr (if sy_requested s t then goto t SafepointSwap s else s))
      | CallNative \<Rightarrow> Some (Inr (goto t (Park InNative) s))
      | Collect \<Rightarrow> Some (Inr (goto t (Park InStw) s))
      | Spawn \<Rightarrow> spawn_thread t s
      | Exit \<Rightarrow> Some (Inr (goto t (Park InRemove) s)))"

definition in_scope :: "scope \<Rightarrow> sys_step" where
  "in_scope k t s =
     (case k of
        InNative \<Rightarrow> Some (Inr (goto t (Unpark None) s))
      | InStw \<Rightarrow> stop_the_world t s
      | InAdd u \<Rightarrow> add_thread u t s
      | InRemove \<Rightarrow> remove_current_thread t s)"

definition thread_step :: "action \<Rightarrow> sys_step" where
  "thread_step a t s =
     (case sy_place s t of
        Mutator \<Rightarrow> mutate a t s
      | SafepointSwap \<Rightarrow> safepoint_slow t s
      | SafepointWait \<Rightarrow> with_barrier wait_in_safepoint SafepointBlocked t s
      | SafepointBlocked \<Rightarrow> safepoint_blocked t s
      | Park k \<Rightarrow> park k t s
      | ParkSlow k \<Rightarrow> park_slow k t s
      | ParkNotify k \<Rightarrow> with_barrier notify_park (Scope k) t s
      | Scope k \<Rightarrow> in_scope k t s
      | Unpark k \<Rightarrow> unpark k t s
      | UnparkSlow k \<Rightarrow> unpark_slow k t s
      | UnparkWait k \<Rightarrow> unpark_wait k t s
      | StwArm \<Rightarrow> with_barrier arm (StwRequest (sy_threads s)) t s
      | StwRequest us \<Rightarrow> stop_request us t s
      | StwLoad n us \<Rightarrow> stop_load n us t s
      | StwCas n v us \<Rightarrow> stop_cas n v us t s
      | StwWait n \<Rightarrow> stop_wait n t s
      | StwOperation alone \<Rightarrow> stop_operation alone t s
      | StwClear us \<Rightarrow> resume_clear us t s
      | StwSwap us \<Rightarrow> resume_swap us t s
      | StwDisarm \<Rightarrow> with_barrier disarm StwUnlock t s
      | StwUnlock \<Rightarrow> stw_unlock t s
      | Unstarted \<Rightarrow> None
      | Finished \<Rightarrow> None)"

text \<open>The system after \<open>execute_on_main\<close> has registered the main thread.\<close>

definition sys_new :: system where
  "sys_new = \<lparr>sy_state = (\<lambda>_. Parked)(1 := Running), sy_requested = (\<lambda>_. False),
     sy_place = (\<lambda>_. Unstarted)(1 := Mutator), sy_barrier = barrier_new, sy_lock = None,
     sy_threads = [], sy_next_id = 2\<rparr>"

definition sys_init :: system where
  "sys_init = sys_new\<lparr>sy_threads := [1]\<rparr>"

inductive sys_reach :: "system \<Rightarrow> bool" where
  init: "sys_reach sys_init"
| step: "sys_reach s \<Longrightarrow> thread_step a t s = Some (Inr s') \<Longrightarrow> sys_reach s'"

inductive_cases sys_reachE: "sys_reach s"

end
