(* ===== verification/SafepointInvariant.thy ===== *)
theory SafepointInvariant
  imports Safepoint
begin

text \<open>
  The invariant of the safepoint protocol.  The thread holding the list's mutex determines the
  phase of the protocol, a thread's stage is how far the protocol has got with it, and the stage
  limits where the thread can be and in which state.  While threads are being stopped, the barrier's
  count and the coordinator's count differ exactly by the threads that still owe a notification or
  gave one early.
\<close>

subsection \<open>Phases and stages\<close>

datatype phase =
    Idle
  | Requesting "tid list"
  | Stopping usize "tid list"
  | Waiting usize
  | Halted
  | Resuming "tid list"
  | Disarming

fun place_phase :: "place \<Rightarrow> phase" where
  "place_phase (StwRequest us) = Requesting us"
| "place_phase (StwLoad n us) = Stopping n us"
| "place_phase (StwCas n v us) = Stopping n us"
| "place_phase (StwWait n) = Waiting n"
| "place_phase (StwOperation alone) = (if alone then Idle else Halted)"
| "place_phase (StwClear us) = Halted"
| "place_phase (StwSwap us) = Resuming us"
| "place_phase StwDisarm = Disarming"
| "place_phase _ = Idle"

fun holds_lock :: "place \<Rightarrow> bool" where
  "holds_lock StwArm = True"
| "holds_lock (StwRequest us) = True"
| "holds_lock (StwLoad n us) = True"
| "holds_lock (StwCas n v us) = True"
| "holds_lock (StwWait n) = True"
| "holds_lock (StwOperation alone) = True"
| "holds_lock (StwClear us) = True"
| "holds_lock (StwSwap us) = True"
| "holds_lock StwDisarm = True"
| "holds_lock StwUnlock = True"
| "holds_lock _ = False"

definition sys_phase :: "system \<Rightarrow> phase" where
  "sys_phase s = (case sy_lock s of None \<Rightarrow> Idle | Some c \<Rightarrow> place_phase (sy_place s c))"

datatype stage = Free | Asked | Caught | Held

fun stage_of :: "phase \<Rightarrow> tid \<Rightarrow> stage" where
  "stage_of Idle t = Free"
| "stage_of (Requesting us) t = (if t \<in> set us then Free else Asked)"
| "stage_of (Stopping n us) t = (if t \<in> set us then Asked else Caught)"
| "stage_of (Waiting n) t = Caught"
| "stage_of Halted t = Held"
| "stage_of (Resuming us) t = (if t \<in> set us then Held else Free)"
| "stage_of Disarming t = Free"

text \<open>Places with the same rules.\<close>

datatype place_kind = KRun | KSwap | KWait | KBlocked | KSlow | KNotify | KStill | KGone

fun kind_of :: "place \<Rightarrow> place_kind" where
  "kind_of Mutator = KRun"
| "kind_of (Park k) = KRun"
| "kind_of SafepointSwap = KSwap"
| "kind_of SafepointWait = KWait"
| "kind_of SafepointBlocked = KBlocked"
| "kind_of (ParkSlow k) = KSlow"
| "kind_of (ParkNotify k) = KNotify"
| "kind_of Finished = KGone"
| "kind_of _ = KStill"

fun allowed :: "stage \<Rightarrow> place_kind \<Rightarrow> thread_state \<Rightarrow> bool" where
  "allowed Free KRun st = (st = Running)"
| "allowed Free KBlocked st = (st = Parked)"
| "allowed Free KStill st = (st = Parked)"
| "allowed Asked KRun st = (st = Running)"
| "allowed Asked KSwap st = (st = Running)"
| "allowed Asked KWait st = (st = Safepoint)"
| "allowed Asked KBlocked st = (st = Parked \<or> st = Safepoint)"
| "allowed Asked KStill st = (st = Parked)"
| "allowed Caught KRun st = (st = SafepointRequested)"
| "allowed Caught KSwap st = (st = SafepointRequested)"
| "allowed Caught KSlow st = (st = SafepointRequested)"
| "allowed Caught KNotify st = (st = ParkedSafepoint)"
| "allowed Caught KWait st = (st = Safepoint)"
| "allowed Caught KBlocked st = (st = Safepoint \<or> st = ParkedSafepoint)"
| "allowed Caught KStill st = (st = ParkedSafepoint)"
| "allowed Held KBlocked st = (st = Safepoint \<or> st = ParkedSafepoint)"
| "allowed Held KStill st = (st = ParkedSafepoint)"
| "allowed _ _ st = False"

text \<open>A caught thread owes a notification until it has stopped; a thread that was asked may have
  given one before it was caught.\<close>

fun owes :: "stage \<Rightarrow> place_kind \<Rightarrow> thread_state \<Rightarrow> int" where
  "owes Caught k st = of_bool (st = SafepointRequested \<or> k = KWait \<or> k = KNotify)"
| "owes Asked k st = - of_bool (k = KBlocked \<and> st = Safepoint)"
| "owes _ k st = 0"

fun counted :: "phase \<Rightarrow> usize option" where
  "counted (Requesting us) = Some 0"
| "counted (Stopping n us) = Some n"
| "counted (Waiting n) = Some n"
| "counted _ = None"

abbreviation owed :: "system \<Rightarrow> tid \<Rightarrow> int" where
  "owed s t \<equiv> owes (stage_of (sys_phase s) t) (kind_of (sy_place s t)) (sy_state s t)"

subsection \<open>The invariant\<close>

text \<open>A thread's flag is set from when it is asked until it is resumed.\<close>

fun flag_ok :: "stage \<Rightarrow> bool \<Rightarrow> bool" where
  "flag_ok Free r = (\<not> r)"
| "flag_ok Asked r = r"
| "flag_ok Caught r = r"
| "flag_ok Held r = True"

definition local_inv :: "system \<Rightarrow> bool" where
  "local_inv s = (\<forall>t\<in>set (sy_threads s).
     allowed (stage_of (sys_phase s) t) (kind_of (sy_place s t)) (sy_state s t)
     \<and> (flag_ok (stage_of (sys_phase s) t) (sy_requested s t)))"

text \<open>The rest of the coordinator's loop is a part of the list, the state it saw last is one its
  loop expects, and flags it has cleared stay cleared.\<close>

fun place_ok :: "system \<Rightarrow> place \<Rightarrow> bool" where
  "place_ok s (StwRequest us) = (distinct us \<and> set us \<subseteq> set (sy_threads s))"
| "place_ok s (StwLoad n us) = (distinct us \<and> set us \<subseteq> set (sy_threads s))"
| "place_ok s (StwCas n v us) = (distinct us \<and> set us \<subseteq> set (sy_threads s) \<and> us \<noteq> []
     \<and> v \<in> {Running, Parked, Safepoint} \<and> (v = Safepoint \<longrightarrow> sy_state s (hd us) = Safepoint))"
| "place_ok s (StwClear us) = (\<forall>t\<in>set (sy_threads s). sy_requested s t \<longrightarrow> t \<in> set us)"
| "place_ok s (StwSwap us) = (distinct us \<and> set us \<subseteq> set (sy_threads s)
     \<and> (\<forall>t\<in>set (sy_threads s). \<not> sy_requested s t))"
| "place_ok s (StwOperation alone) = (alone \<longrightarrow> length (sy_threads s) = 1)"
| "place_ok s _ = True"

definition lock_inv :: "system \<Rightarrow> bool" where
  "lock_inv s = ((\<forall>t. holds_lock (sy_place s t) \<longleftrightarrow> sy_lock s = Some t)
     \<and> (armed (sy_barrier s) \<longleftrightarrow> sys_phase s \<noteq> Idle)
     \<and> (\<forall>c. sy_lock s = Some c \<longrightarrow> place_ok s (sy_place s c)))"

definition count_inv :: "system \<Rightarrow> bool" where
  "count_inv s = (\<forall>n. counted (sys_phase s) = Some n \<longrightarrow>
     int (stopped (sy_barrier s)) + (\<Sum>t\<in>set (sy_threads s). owed s t) = int n)"

definition core_inv :: "system \<Rightarrow> bool" where
  "core_inv s = (local_inv s \<and> lock_inv s \<and> count_inv s)"

text \<open>Threads that are being spawned.\<close>

fun scope_spawns :: "scope \<Rightarrow> tid option" where
  "scope_spawns (InAdd u) = Some u"
| "scope_spawns _ = None"

fun adding :: "place \<Rightarrow> tid option" where
  "adding (Park k) = scope_spawns k"
| "adding (ParkSlow k) = scope_spawns k"
| "adding (ParkNotify k) = scope_spawns k"
| "adding (Scope k) = scope_spawns k"
| "adding _ = None"

fun starting :: "place \<Rightarrow> tid option" where
  "starting (Unpark k) = k"
| "starting (UnparkSlow k) = k"
| "starting (UnparkWait k) = k"
| "starting _ = None"

definition at_most_one :: "(tid \<Rightarrow> tid option) \<Rightarrow> bool" where
  "at_most_one f = (\<forall>t t' u. f t = Some u \<longrightarrow> f t' = Some u \<longrightarrow> t = t')"

definition spawn_inv :: "system \<Rightarrow> bool" where
  "spawn_inv s = (distinct (sy_threads s)
     \<and> (\<forall>t. t \<notin> set (sy_threads s) \<longrightarrow>
          sy_place s t \<in> {Unstarted, Finished} \<and> sy_state s t = Parked \<and> \<not> sy_requested s t)
     \<and> (\<forall>t. sy_next_id s \<le> t \<longrightarrow> t \<notin> set (sy_threads s) \<and> sy_place s t = Unstarted)
     \<and> (\<forall>t u. adding (sy_place s t) = Some u \<longrightarrow>
          u \<notin> set (sy_threads s) \<and> u < sy_next_id s \<and> sy_place s u = Unstarted)
     \<and> (\<forall>t u. starting (sy_place s t) = Some u \<longrightarrow> u \<in> set (sy_threads s) \<and> sy_place s u = Unstarted)
     \<and> at_most_one (\<lambda>t. adding (sy_place s t)) \<and> at_most_one (\<lambda>t. starting (sy_place s t)))"

subsection \<open>Moves of one thread\<close>

lemma sum_change:
  fixes f g :: "'a \<Rightarrow> int"
  assumes "finite A" and "t \<in> A" and "\<And>u. u \<in> A \<Longrightarrow> u \<noteq> t \<Longrightarrow> g u = f u"
  shows "sum g A = sum f A - f t + g t"
proof -
  have "sum g (A - {t}) = sum f (A - {t})" using assms(3) by (intro sum.cong) auto
  with assms(1,2) show ?thesis by (simp add: sum.remove)
qed

text \<open>A thread without the lock moves to another place, possibly changing its own state and the
  barrier's count.\<close>

definition move :: "tid \<Rightarrow> place \<Rightarrow> thread_state \<Rightarrow> usize \<Rightarrow> system \<Rightarrow> system" where
  "move t p v n s = s\<lparr>sy_state := (sy_state s)(t := v), sy_place := (sy_place s)(t := p),
     sy_barrier := (sy_barrier s)\<lparr>stopped := n\<rparr>\<rparr>"

lemma move_simps [simp]:
  "sy_state (move t p v n s) = (sy_state s)(t := v)"
  "sy_place (move t p v n s) = (sy_place s)(t := p)"
  "sy_requested (move t p v n s) = sy_requested s"
  "sy_lock (move t p v n s) = sy_lock s" "sy_threads (move t p v n s) = sy_threads s"
  "sy_next_id (move t p v n s) = sy_next_id s"
  "armed (sy_barrier (move t p v n s)) = armed (sy_barrier s)"
  "stopped (sy_barrier (move t p v n s)) = n"
  by (simp_all add: move_def)

lemma place_ok_move:
  "place_ok s q \<Longrightarrow> (sy_state s t = Safepoint \<longrightarrow> v = Safepoint) \<Longrightarrow> place_ok (move t p v n s) q"
  by (cases q) auto

lemma core_move:
  assumes core: "core_inv s" and t: "t \<in> set (sy_threads s)"
    and lock: "\<not> holds_lock (sy_place s t)" "\<not> holds_lock p"
    and ok: "allowed (stage_of (sys_phase s) t) (kind_of p) v"
    and sp: "sy_state s t = Safepoint \<longrightarrow> v = Safepoint"
    and count: "counted (sys_phase s) \<noteq> None \<Longrightarrow>
      int n + owes (stage_of (sys_phase s) t) (kind_of p) v = int (stopped (sy_barrier s)) + owed s t"
  shows "core_inv (move t p v n s)"
proof -
  have ph: "sys_phase (move t p v n s) = sys_phase s"
    using core lock unfolding core_inv_def lock_inv_def
    by (cases "sy_lock s") (auto simp: sys_phase_def)
  have "local_inv (move t p v n s)"
    using core ok unfolding core_inv_def local_inv_def ph by auto
  moreover have "lock_inv (move t p v n s)"
    using core lock place_ok_move [OF _ sp] unfolding core_inv_def lock_inv_def ph by auto
  moreover have "count_inv (move t p v n s)"
    unfolding count_inv_def
  proof (intro allI impI)
    fix m
    assume m: "counted (sys_phase (move t p v n s)) = Some m"
    have "(\<Sum>u\<in>set (sy_threads s). owed (move t p v n s) u)
        = (\<Sum>u\<in>set (sy_threads s). owed s u) - owed s t + owed (move t p v n s) t"
      by (rule sum_change) (use t in \<open>auto simp: ph\<close>)
    with core count m show "int (stopped (sy_barrier (move t p v n s)))
        + (\<Sum>u\<in>set (sy_threads (move t p v n s)). owed (move t p v n s) u) = int m"
      unfolding core_inv_def count_inv_def ph by auto
  qed
  ultimately show ?thesis by (simp add: core_inv_def)
qed

lemma spawn_move:
  assumes "spawn_inv s" and "t \<in> set (sy_threads s)"
    and "adding p = adding (sy_place s t)" and "starting p = starting (sy_place s t)"
    and "sy_place s t \<noteq> Unstarted"
  shows "spawn_inv (move t p v n s)"
proof -
  have a: "adding (sy_place (move t p v n s) x) = adding (sy_place s x)"
    and b: "starting (sy_place (move t p v n s) x) = starting (sy_place s x)" for x
    using assms(3,4) by auto
  have c: "sy_place s x = Unstarted \<Longrightarrow> sy_place (move t p v n s) x = Unstarted"
    and d: "x \<notin> set (sy_threads s) \<Longrightarrow> sy_place (move t p v n s) x = sy_place s x"
    and e: "x \<notin> set (sy_threads s) \<Longrightarrow> sy_state (move t p v n s) x = sy_state s x" for x
    using assms(2,5) by auto
  show ?thesis
    using assms(1) unfolding spawn_inv_def a b move_simps(3-6)
    by (elim conjE, intro conjI) (assumption | metis c d e)+
qed

text \<open>A listed thread that has not started will be started by another.\<close>

definition starter_inv :: "system \<Rightarrow> bool" where
  "starter_inv s = (\<forall>u\<in>set (sy_threads s). sy_place s u = Unstarted \<longrightarrow> (\<exists>t. starting (sy_place s t) = Some u))"

lemma starter_keep:
  assumes "starter_inv s"
    and "\<And>x u. starting (sy_place s x) = Some u \<Longrightarrow> sy_place s' u = Unstarted \<Longrightarrow> starting (sy_place s' x) = Some u"
    and "\<And>x. x \<in> set (sy_threads s') \<Longrightarrow> sy_place s' x = Unstarted \<Longrightarrow> x \<in> set (sy_threads s) \<and> sy_place s x = Unstarted"
  shows "starter_inv s'"
  using assms unfolding starter_inv_def by metis

definition sys_inv :: "system \<Rightarrow> bool" where
  "sys_inv s = (core_inv s \<and> spawn_inv s \<and> starter_inv s)"

text \<open>The step is blocked, or it succeeds and the invariant holds again.\<close>

definition safe :: "system result option \<Rightarrow> bool" where
  "safe r = (case r of None \<Rightarrow> True | Some (Inl e) \<Rightarrow> False | Some (Inr s) \<Rightarrow> sys_inv s)"

lemma safe_simps [simp]: "safe None" "\<not> safe (Some (Inl e))" "safe (Some (Inr s)) = sys_inv s"
  by (simp_all add: safe_def)

lemma goto_simps [simp]:
  "sy_state (goto t p s) = sy_state s" "sy_barrier (goto t p s) = sy_barrier s"
  "sy_place (goto t p s) = (sy_place s)(t := p)" "sy_threads (goto t p s) = sy_threads s"
  "sy_lock (goto t p s) = sy_lock s" "sy_requested (goto t p s) = sy_requested s"
  "sy_next_id (goto t p s) = sy_next_id s"
  by (simp_all add: goto_def)

lemma goto_move: "goto t p s = move t p (sy_state s t) (stopped (sy_barrier s)) s"
  by (simp add: goto_def move_def)

lemma move_set_state [simp]: "move t p w n (set_state t v s) = move t p w n s"
  by (simp add: set_state_def move_def)

lemma set_state_simps [simp]:
  "sy_state (set_state t v s) = (sy_state s)(t := v)" "sy_barrier (set_state t v s) = sy_barrier s"
  "sy_place (set_state t v s) = sy_place s" "sy_threads (set_state t v s) = sy_threads s"
  "sy_lock (set_state t v s) = sy_lock s" "sy_requested (set_state t v s) = sy_requested s"
  "sy_next_id (set_state t v s) = sy_next_id s"
  by (simp_all add: set_state_def)

lemma with_barrier_move:
  "armed (sy_barrier s) \<Longrightarrow>
     with_barrier notify_park p t s = Some (Inr (move t p (sy_state s t) (stopped (sy_barrier s) + 1) s))"
  "armed (sy_barrier s) \<Longrightarrow>
     with_barrier wait_in_safepoint p t s = Some (Inr (move t p (sy_state s t) (stopped (sy_barrier s) + 1) s))"
  by (simp_all add: with_barrier_def notify_park_def wait_in_safepoint_def goto_def move_def)

lemma inv_allowed:
  assumes "sys_inv s" and "t \<in> set (sy_threads s)"
  shows "allowed (stage_of (sys_phase s) t) (kind_of (sy_place s t)) (sy_state s t)"
  using assms by (auto simp: sys_inv_def core_inv_def local_inv_def)

lemma inv_move:
  assumes "sys_inv s" and "t \<in> set (sy_threads s)"
    and "\<not> holds_lock (sy_place s t)" "\<not> holds_lock p"
    and "allowed (stage_of (sys_phase s) t) (kind_of p) v"
    and "sy_state s t = Safepoint \<longrightarrow> v = Safepoint"
    and "counted (sys_phase s) \<noteq> None \<Longrightarrow>
      int n + owes (stage_of (sys_phase s) t) (kind_of p) v = int (stopped (sy_barrier s)) + owed s t"
    and "adding p = adding (sy_place s t)" and "starting p = starting (sy_place s t)"
    and "sy_place s t \<noteq> Unstarted" "p \<noteq> Unstarted"
  shows "sys_inv (move t p v n s)"
proof -
  have "starter_inv (move t p v n s)"
  proof (rule starter_keep)
    show "starter_inv s" using assms(1) by (simp add: sys_inv_def)
  qed (use assms(4,9,10,11) in \<open>auto split: if_splits\<close>)
  then show ?thesis
    using assms core_move [of s t p v n] spawn_move [of s t p v n] by (simp add: sys_inv_def)
qed

text \<open>Steps that only change the place, to one of the same kind.\<close>

lemma inv_goto:
  assumes "sys_inv s" and "t \<in> set (sy_threads s)"
    and "\<not> holds_lock (sy_place s t)" "\<not> holds_lock p" and "kind_of p = kind_of (sy_place s t)"
    and "adding p = adding (sy_place s t)" and "starting p = starting (sy_place s t)"
    and "sy_place s t \<noteq> Unstarted" "p \<noteq> Unstarted"
  shows "sys_inv (goto t p s)"
  unfolding goto_move using assms inv_allowed [OF assms(1,2)] by (intro inv_move) auto

lemma inv_armed: "sys_inv s \<Longrightarrow> armed (sy_barrier s) \<longleftrightarrow> sys_phase s \<noteq> Idle"
  by (simp add: sys_inv_def core_inv_def lock_inv_def)

lemma stage_armed: "sys_inv s \<Longrightarrow> stage_of (sys_phase s) t \<noteq> Free \<Longrightarrow> armed (sy_barrier s)"
  using inv_armed [of s] by (cases "sys_phase s") auto

lemma inv_requested:
  "sys_inv s \<Longrightarrow> t \<in> set (sy_threads s) \<Longrightarrow> sy_requested s t \<Longrightarrow> stage_of (sys_phase s) t \<noteq> Free"
  by (auto simp: sys_inv_def core_inv_def local_inv_def)

subsection \<open>Steps of running and parked threads\<close>

lemma park_safe:
  assumes "sys_inv s" "t \<in> set (sy_threads s)" "sy_place s t = Park k"
  shows "safe (park k t s)"
  using inv_allowed [OF assms(1,2)] assms
  by (cases "stage_of (sys_phase s) t")
     (auto simp: park_def compare_exchange_def goto_move intro!: inv_move)

lemma park_slow_safe:
  assumes "sys_inv s" "t \<in> set (sy_threads s)" "sy_place s t = ParkSlow k"
  shows "safe (park_slow k t s)"
  using inv_allowed [OF assms(1,2)] assms
  by (cases "stage_of (sys_phase s) t")
     (auto simp: park_slow_def compare_exchange_def goto_move intro!: inv_move)

lemma notify_safe:
  assumes "sys_inv s" "t \<in> set (sy_threads s)" "sy_place s t = ParkNotify k"
  shows "safe (with_barrier notify_park (Scope k) t s)"
  using inv_allowed [OF assms(1,2)] assms stage_armed [OF assms(1), of t]
  by (cases "stage_of (sys_phase s) t") (auto simp: with_barrier_move intro!: inv_move)

lemma safepoint_slow_safe:
  assumes "sys_inv s" "t \<in> set (sy_threads s)" "sy_place s t = SafepointSwap"
  shows "safe (safepoint_slow t s)"
  using inv_allowed [OF assms(1,2)] assms
  by (cases "stage_of (sys_phase s) t") (auto simp: safepoint_slow_def goto_move intro!: inv_move)

lemma safepoint_wait_safe:
  assumes "sys_inv s" "t \<in> set (sy_threads s)" "sy_place s t = SafepointWait"
  shows "safe (with_barrier wait_in_safepoint SafepointBlocked t s)"
  using inv_allowed [OF assms(1,2)] assms stage_armed [OF assms(1), of t]
  by (cases "stage_of (sys_phase s) t") (auto simp: with_barrier_move intro!: inv_move)

lemma safepoint_blocked_safe:
  assumes "sys_inv s" "t \<in> set (sy_threads s)" "sy_place s t = SafepointBlocked"
  shows "safe (safepoint_blocked t s)"
  using inv_allowed [OF assms(1,2)] assms stage_armed [OF assms(1), of t]
  by (cases "stage_of (sys_phase s) t")
     (auto simp: safepoint_blocked_def wakeup_ready_def goto_move intro!: inv_move)

lemma spawn_starting:
  "spawn_inv s \<Longrightarrow> starting (sy_place s t) = Some u \<Longrightarrow> u \<in> set (sy_threads s) \<and> sy_place s u = Unstarted"
  unfolding spawn_inv_def by blast

lemma spawn_adding:
  "spawn_inv s \<Longrightarrow> adding (sy_place s t) = Some u \<Longrightarrow>
     u \<notin> set (sy_threads s) \<and> u < sy_next_id s \<and> sy_place s u = Unstarted"
  unfolding spawn_inv_def by blast

lemma spawn_outside:
  "spawn_inv s \<Longrightarrow> t \<notin> set (sy_threads s) \<Longrightarrow>
     sy_place s t \<in> {Unstarted, Finished} \<and> sy_state s t = Parked \<and> \<not> sy_requested s t"
  unfolding spawn_inv_def by blast

lemma spawn_fresh: "spawn_inv s \<Longrightarrow> sy_next_id s \<le> t \<Longrightarrow> t \<notin> set (sy_threads s) \<and> sy_place s t = Unstarted"
  unfolding spawn_inv_def by blast

lemma spawn_unique:
  "spawn_inv s \<Longrightarrow> adding (sy_place s t) = Some u \<Longrightarrow> adding (sy_place s t') = Some u \<Longrightarrow> t = t'"
  "spawn_inv s \<Longrightarrow> starting (sy_place s t) = Some u \<Longrightarrow> starting (sy_place s t') = Some u \<Longrightarrow> t = t'"
  unfolding spawn_inv_def at_most_one_def by blast+

lemma spawn_cong:
  assumes "sy_place s = sy_place s'" "sy_state s = sy_state s'" "sy_requested s = sy_requested s'"
    "sy_threads s = sy_threads s'" "sy_next_id s = sy_next_id s'"
  shows "spawn_inv s \<longleftrightarrow> spawn_inv s'"
  unfolding spawn_inv_def assms ..

lemma spawn_distinct: "spawn_inv s \<Longrightarrow> distinct (sy_threads s)"
  unfolding spawn_inv_def by blast

lemma starting_not_adding: "starting p = Some u \<Longrightarrow> adding p = None"
  by (cases p) auto

lemma spawn_start:
  assumes inv: "spawn_inv s" and t: "t \<in> set (sy_threads s)" and u: "starting (sy_place s t) = Some u"
  shows "spawn_inv (move t Mutator v n (goto u (Unpark None) s))" (is "spawn_inv ?s")
proof -
  have uT: "u \<in> set (sy_threads s)" "sy_place s u = Unstarted" using spawn_starting [OF inv u] by blast+
  have "u \<noteq> t" using uT u by auto
  have a: "adding (sy_place ?s x) = adding (sy_place s x)"
    and b: "starting (sy_place ?s x) = (if x = t then None else starting (sy_place s x))" for x
    using uT u starting_not_adding [OF u] \<open>u \<noteq> t\<close> by auto
  have c: "sy_place s x = Unstarted \<Longrightarrow> x \<noteq> u \<Longrightarrow> sy_place ?s x = Unstarted"
    and d: "x \<notin> set (sy_threads s) \<Longrightarrow> sy_place ?s x = sy_place s x"
    and e: "x \<notin> set (sy_threads s) \<Longrightarrow> sy_state ?s x = sy_state s x" for x
    using t uT u by auto
  have f: "x = t" if "starting (sy_place s x) = Some u" for x
    using spawn_unique(2) [OF inv that u] .
  have g: "sy_threads ?s = sy_threads s" "sy_requested ?s = sy_requested s" "sy_next_id ?s = sy_next_id s"
    by simp_all
  show ?thesis
    using inv unfolding spawn_inv_def a b g at_most_one_def
    by (elim conjE, intro conjI) (assumption | metis c d e f uT(1) option.distinct(1))+
qed

lemma inv_unparked:
  assumes "sys_inv s" and t: "t \<in> set (sy_threads s)" and p: "sy_place s t \<in> {Unpark k, UnparkSlow k}"
    and "sy_state s t = Parked"
  shows "sys_inv (after_unpark k t (set_state t Running s))"
proof -
  have stage: "stage_of (sys_phase s) t = Free \<or> stage_of (sys_phase s) t = Asked"
    using inv_allowed [OF assms(1,2)] p assms(4) by (cases "stage_of (sys_phase s) t") auto
  show ?thesis
  proof (cases k)
    case None
    from stage p show ?thesis
      unfolding None after_unpark_def goto_move option.case move_set_state set_state_simps
      using assms by (intro inv_move) auto
  next
    case (Some u)
    then have st: "starting (sy_place s t) = Some u" using p by auto
    have uT: "u \<in> set (sy_threads s)" "sy_place s u = Unstarted"
      using assms(1) st spawn_starting unfolding sys_inv_def by blast+
    then have ut: "u \<noteq> t" using p by auto
    let ?s1 = "goto u (Unpark None) s"
    have core1: "core_inv ?s1"
      unfolding goto_move using assms(1) uT inv_allowed [OF assms(1) uT(1)]
      by (intro core_move) (auto simp: sys_inv_def)
    have ph: "sys_phase ?s1 = sys_phase s"
      using assms(1) uT unfolding sys_inv_def core_inv_def lock_inv_def
      by (cases "sy_lock s") (auto simp: sys_phase_def)
    have "core_inv (move t Mutator Running (stopped (sy_barrier s)) ?s1)"
      using core1 t p assms(4) stage ut by (intro core_move) (auto simp: ph)
    moreover have "starter_inv (move t Mutator Running (stopped (sy_barrier s)) ?s1)"
    proof (rule starter_keep)
      show "starter_inv s" using assms(1) by (simp add: sys_inv_def)
    qed (use st uT in \<open>auto split: if_splits\<close>)
    ultimately have "sys_inv (move t Mutator Running (stopped (sy_barrier s)) ?s1)"
      using spawn_start [OF _ t st] assms(1) by (simp add: sys_inv_def)
    moreover have "after_unpark k t (set_state t Running s) = move t Mutator Running (stopped (sy_barrier s)) ?s1"
      by (simp add: Some after_unpark_def goto_def move_def set_state_def)
    ultimately show ?thesis by simp
  qed
qed

lemma unpark_safe:
  assumes "sys_inv s" "t \<in> set (sy_threads s)" "sy_place s t = Unpark k"
  shows "safe (unpark k t s)"
  using inv_unparked [OF assms(1,2), of k] inv_allowed [OF assms(1,2)] assms
  by (auto simp: unpark_def compare_exchange_def intro!: inv_goto)

lemma unpark_slow_safe:
  assumes "sys_inv s" "t \<in> set (sy_threads s)" "sy_place s t = UnparkSlow k"
  shows "safe (unpark_slow k t s)"
  using inv_unparked [OF assms(1,2), of k] inv_allowed [OF assms(1,2)] assms
  by (cases "stage_of (sys_phase s) t")
     (auto simp: unpark_slow_def compare_exchange_def intro!: inv_goto)

lemma unpark_wait_safe:
  assumes "sys_inv s" "t \<in> set (sy_threads s)" "sy_place s t = UnparkWait k"
  shows "safe (unpark_wait k t s)"
  using assms by (auto simp: unpark_wait_def intro!: inv_goto)

subsection \<open>Steps of the coordinator\<close>

text \<open>The thread holding the lock moves to another place, changing states, flags and the barrier.\<close>

definition coord :: "tid \<Rightarrow> place \<Rightarrow> (tid \<Rightarrow> thread_state) \<Rightarrow> (tid \<Rightarrow> bool) \<Rightarrow> barrier \<Rightarrow> system \<Rightarrow> system" where
  "coord c p st rq b s = s\<lparr>sy_state := st, sy_requested := rq, sy_place := (sy_place s)(c := p), sy_barrier := b\<rparr>"

lemma coord_simps [simp]:
  "sy_state (coord c p st rq b s) = st" "sy_requested (coord c p st rq b s) = rq"
  "sy_place (coord c p st rq b s) = (sy_place s)(c := p)" "sy_barrier (coord c p st rq b s) = b"
  "sy_lock (coord c p st rq b s) = sy_lock s" "sy_threads (coord c p st rq b s) = sy_threads s"
  "sy_next_id (coord c p st rq b s) = sy_next_id s"
  by (simp_all add: coord_def)

lemma holds_lock_kind: "holds_lock p \<Longrightarrow> kind_of p = KStill \<and> adding p = None \<and> starting p = None \<and> p \<noteq> Unstarted \<and> p \<noteq> Finished"
  by (cases p) auto

lemma lock_holder:
  assumes "sys_inv s" and "holds_lock (sy_place s c)"
  shows "sy_lock s = Some c" "sys_phase s = place_phase (sy_place s c)" "c \<in> set (sy_threads s)"
    "place_ok s (sy_place s c)"
proof -
  show l: "sy_lock s = Some c" using assms unfolding sys_inv_def core_inv_def lock_inv_def by blast
  then show "sys_phase s = place_phase (sy_place s c)" by (simp add: sys_phase_def)
  show "c \<in> set (sy_threads s)"
    using assms holds_lock_kind [of "sy_place s c"] spawn_outside [of s c] unfolding sys_inv_def by auto
  show "place_ok s (sy_place s c)"
    using assms(1) l unfolding sys_inv_def core_inv_def lock_inv_def by blast
qed

lemma spawn_coord:
  assumes "spawn_inv s" and "holds_lock (sy_place s c)" "holds_lock p" and c: "c \<in> set (sy_threads s)"
    and "\<And>t. t \<notin> set (sy_threads s) \<Longrightarrow> st t = sy_state s t" "\<And>t. t \<notin> set (sy_threads s) \<Longrightarrow> rq t = sy_requested s t"
  shows "spawn_inv (coord c p st rq b s)" (is "spawn_inv ?s")
proof -
  note k = holds_lock_kind [OF assms(2)] holds_lock_kind [OF assms(3)]
  have a: "adding (sy_place ?s x) = adding (sy_place s x)"
    and b: "starting (sy_place ?s x) = starting (sy_place s x)" for x using k by auto
  have d: "sy_place s x = Unstarted \<Longrightarrow> sy_place ?s x = Unstarted"
    and e: "x \<notin> set (sy_threads s) \<Longrightarrow> sy_place ?s x = sy_place s x" for x
    using k c by auto
  show ?thesis
    using assms(1) unfolding spawn_inv_def a b coord_simps(1,2,6,7)
    by (elim conjE, intro conjI) (assumption | metis d e assms(5,6))+
qed

lemma inv_coord:
  assumes inv: "sys_inv s" and h: "holds_lock (sy_place s c)" "holds_lock p"
    and out: "\<And>t. t \<notin> set (sy_threads s) \<Longrightarrow> st t = sy_state s t"
      "\<And>t. t \<notin> set (sy_threads s) \<Longrightarrow> rq t = sy_requested s t"
    and ok: "\<And>t. t \<in> set (sy_threads s) \<Longrightarrow>
      allowed (stage_of (place_phase p) t) (kind_of (sy_place s t)) (st t)
      \<and> (flag_ok (stage_of (place_phase p) t) (rq t))"
    and arm: "armed b \<longleftrightarrow> place_phase p \<noteq> Idle"
    and place: "place_ok (coord c p st rq b s) p"
    and count: "\<And>n. counted (place_phase p) = Some n \<Longrightarrow>
      int (stopped b) + (\<Sum>t\<in>set (sy_threads s). owes (stage_of (place_phase p) t) (kind_of (sy_place s t)) (st t)) = int n"
  shows "sys_inv (coord c p st rq b s)"
proof -
  let ?s = "coord c p st rq b s"
  note l = lock_holder [OF inv h(1)]
  have ph: "sys_phase ?s = place_phase p" using l by (simp add: sys_phase_def)
  have kind: "kind_of (sy_place ?s t) = kind_of (sy_place s t)" for t
    using holds_lock_kind [OF h(1)] holds_lock_kind [OF h(2)] by auto
  have "local_inv ?s" unfolding local_inv_def ph kind using ok by simp
  moreover have "lock_inv ?s"
    unfolding lock_inv_def ph using inv h l arm place
    unfolding sys_inv_def core_inv_def lock_inv_def by auto
  moreover have "count_inv ?s" unfolding count_inv_def ph kind using count by simp
  moreover have "spawn_inv ?s"
    using spawn_coord [OF _ h l(3) out] inv unfolding sys_inv_def by blast
  moreover have "starter_inv ?s"
  proof (rule starter_keep)
    show "starter_inv s" using inv by (simp add: sys_inv_def)
  qed (use holds_lock_kind [OF h(1)] holds_lock_kind [OF h(2)] in \<open>auto split: if_splits\<close>)
  ultimately show ?thesis by (simp add: sys_inv_def core_inv_def)
qed

lemma core_next_id [simp]: "core_inv (s\<lparr>sy_next_id := n\<rparr>) = core_inv s"
proof -
  have "place_ok (s\<lparr>sy_next_id := n\<rparr>) p = place_ok s p" for p by (cases p) auto
  moreover have "sys_phase (s\<lparr>sy_next_id := n\<rparr>) = sys_phase s"
    by (cases "sy_lock s") (simp_all add: sys_phase_def)
  ultimately show ?thesis by (simp add: core_inv_def local_inv_def lock_inv_def count_inv_def)
qed

lemma goto_coord: "goto c p s = coord c p (sy_state s) (sy_requested s) (sy_barrier s) s"
  by (simp add: goto_def coord_def)

lemma set_requested_simps [simp]:
  "sy_requested (set_requested t r s) = (sy_requested s)(t := r)" "sy_state (set_requested t r s) = sy_state s"
  "sy_barrier (set_requested t r s) = sy_barrier s"
  by (simp_all add: set_requested_def)

lemma coord_absorbs [simp]:
  "coord c p st rq b (set_state u v s) = coord c p st rq b s"
  "coord c p st rq b (set_requested u r s) = coord c p st rq b s"
  "coord c p st rq b (s\<lparr>sy_barrier := b'\<rparr>) = coord c p st rq b s"
  by (simp_all add: set_requested_def set_state_def coord_def)

lemma inv_local:
  assumes "sys_inv s" and "t \<in> set (sy_threads s)"
  shows "allowed (stage_of (sys_phase s) t) (kind_of (sy_place s t)) (sy_state s t)"
    "(flag_ok (stage_of (sys_phase s) t) (sy_requested s t))"
  using assms by (auto simp: sys_inv_def core_inv_def local_inv_def)

lemma inv_count:
  "sys_inv s \<Longrightarrow> counted (sys_phase s) = Some n \<Longrightarrow>
     int (stopped (sy_barrier s)) + (\<Sum>t\<in>set (sy_threads s). owed s t) = int n"
  by (auto simp: sys_inv_def core_inv_def count_inv_def)

lemma inv_distinct: "sys_inv s \<Longrightarrow> distinct (sy_threads s)"
  by (simp add: sys_inv_def spawn_inv_def)

text \<open>Steps that leave every thread in its stage.\<close>

lemma inv_coord_same:
  assumes inv: "sys_inv s" and h: "holds_lock (sy_place s c)" "holds_lock p"
    and stage: "\<And>t. t \<in> set (sy_threads s) \<Longrightarrow> stage_of (place_phase p) t = stage_of (place_phase (sy_place s c)) t"
    and cnt: "counted (place_phase p) = counted (place_phase (sy_place s c))"
    and arm: "place_phase p = Idle \<longleftrightarrow> place_phase (sy_place s c) = Idle"
    and place: "place_ok (goto c p s) p"
  shows "sys_inv (goto c p s)"
  unfolding goto_coord
proof (rule inv_coord [OF inv h])
  note l = lock_holder [OF inv h(1)]
  show "allowed (stage_of (place_phase p) t) (kind_of (sy_place s t)) (sy_state s t)
      \<and> (flag_ok (stage_of (place_phase p) t) (sy_requested s t))" if "t \<in> set (sy_threads s)" for t
    using inv_local [OF inv that] stage [OF that] l(2) by simp
  show "armed (sy_barrier s) \<longleftrightarrow> place_phase p \<noteq> Idle" using inv_armed [OF inv] l(2) arm by simp
  show "place_ok (coord c p (sy_state s) (sy_requested s) (sy_barrier s) s) p"
    using place by (simp add: goto_coord)
  show "int (stopped (sy_barrier s)) + (\<Sum>t\<in>set (sy_threads s).
      owes (stage_of (place_phase p) t) (kind_of (sy_place s t)) (sy_state s t)) = int n"
    if "counted (place_phase p) = Some n" for n
    using inv_count [OF inv, of n] that stage l(2) cnt by simp
qed simp_all

text \<open>Steps that take one thread to its next stage.\<close>

lemma inv_coord_one:
  assumes inv: "sys_inv s" and h: "holds_lock (sy_place s c)" "holds_lock p"
    and u: "u \<in> set (sy_threads s)"
    and others: "\<And>t. t \<in> set (sy_threads s) \<Longrightarrow> t \<noteq> u \<Longrightarrow>
      stage_of (place_phase p) t = stage_of (place_phase (sy_place s c)) t"
    and one: "allowed (stage_of (place_phase p) u) (kind_of (sy_place s u)) v"
      "(flag_ok (stage_of (place_phase p) u) (r))"
    and arm: "place_phase p \<noteq> Idle" "place_phase (sy_place s c) \<noteq> Idle"
    and place: "place_ok (coord c p ((sy_state s)(u := v)) ((sy_requested s)(u := r)) (sy_barrier s) s) p"
    and cnt: "\<And>n. counted (place_phase p) = Some n \<Longrightarrow> \<exists>m. counted (place_phase (sy_place s c)) = Some m
      \<and> int n = int m + owes (stage_of (place_phase p) u) (kind_of (sy_place s u)) v - owed s u"
  shows "sys_inv (coord c p ((sy_state s)(u := v)) ((sy_requested s)(u := r)) (sy_barrier s) s)"
proof (rule inv_coord [OF inv h])
  note l = lock_holder [OF inv h(1)]
  show "allowed (stage_of (place_phase p) t) (kind_of (sy_place s t)) (((sy_state s)(u := v)) t)
      \<and> (flag_ok (stage_of (place_phase p) t) (((sy_requested s)(u := r)) t))" if "t \<in> set (sy_threads s)" for t
    using inv_local [OF inv that] others [OF that] one l(2) by (cases "t = u") simp_all
  show "armed (sy_barrier s) \<longleftrightarrow> place_phase p \<noteq> Idle" using inv_armed [OF inv] l(2) arm by simp
  show "place_ok (coord c p ((sy_state s)(u := v)) ((sy_requested s)(u := r)) (sy_barrier s) s) p" by (rule place)
  fix n
  assume "counted (place_phase p) = Some n"
  then obtain m where m: "counted (sys_phase s) = Some m"
    "int n = int m + owes (stage_of (place_phase p) u) (kind_of (sy_place s u)) v - owed s u"
    using cnt l(2) by auto
  have "(\<Sum>t\<in>set (sy_threads s). owes (stage_of (place_phase p) t) (kind_of (sy_place s t)) (((sy_state s)(u := v)) t))
      = (\<Sum>t\<in>set (sy_threads s). owed s t) - owed s u
        + owes (stage_of (place_phase p) u) (kind_of (sy_place s u)) (((sy_state s)(u := v)) u)"
    by (rule sum_change) (use u others l(2) in auto)
  with inv_count [OF inv m(1)] m(2)
  show "int (stopped (sy_barrier s)) + (\<Sum>t\<in>set (sy_threads s).
      owes (stage_of (place_phase p) t) (kind_of (sy_place s t)) (((sy_state s)(u := v)) t)) = int n"
    by simp
qed (use u in auto)

lemma arm_safe:
  assumes inv: "sys_inv s" and c: "sy_place s c = StwArm"
  shows "safe (with_barrier arm (StwRequest (sy_threads s)) c s)"
proof -
  have h: "holds_lock (sy_place s c)" using c by simp
  note l = lock_holder [OF inv h]
  have idle: "sys_phase s = Idle" "\<not> armed (sy_barrier s)" using l c inv_armed [OF inv] by auto
  have "sys_inv (coord c (StwRequest (sy_threads s)) (sy_state s) (sy_requested s) \<lparr>armed = True, stopped = 0\<rparr> s)"
    using inv_local [OF inv] inv_distinct [OF inv] idle by (intro inv_coord [OF inv h]) auto
  with idle show ?thesis by (simp add: with_barrier_def arm_def goto_coord)
qed

lemma stop_request_safe:
  assumes inv: "sys_inv s" and c: "sy_place s c = StwRequest us"
  shows "safe (stop_request us c s)"
proof (cases us)
  case Nil
  with inv c inv_distinct [OF inv] show ?thesis
    by (auto simp: stop_request_def intro!: inv_coord_same)
next
  case (Cons u us')
  have h: "holds_lock (sy_place s c)" using c by simp
  note l = lock_holder [OF inv h]
  have us: "distinct (u # us')" "set (u # us') \<subseteq> set (sy_threads s)" using l(4) c Cons by simp_all
  have a: "allowed Free (kind_of (sy_place s u)) (sy_state s u)"
    using inv_local [OF inv, of u] us l(2) c Cons by auto
  have "sys_inv (coord c (StwRequest us') ((sy_state s)(u := sy_state s u)) ((sy_requested s)(u := True)) (sy_barrier s) s)"
    using us c Cons a l(2)
    by (intro inv_coord_one [OF inv h]) (cases "kind_of (sy_place s u)"; auto)+
  with Cons show ?thesis by (simp add: stop_request_def goto_coord)
qed

lemma stop_load_safe:
  assumes inv: "sys_inv s" and c: "sy_place s c = StwLoad n us"
  shows "safe (stop_load n us c s)"
proof (cases us)
  case Nil
  with inv c show ?thesis by (auto simp: stop_load_def intro!: inv_coord_same)
next
  case (Cons u us')
  have h: "holds_lock (sy_place s c)" using c by simp
  note l = lock_holder [OF inv h]
  have a: "allowed Asked (kind_of (sy_place s u)) (sy_state s u)"
    using inv_local [OF inv, of u] l(2,4) c Cons by auto
  have "sys_inv (goto c (StwCas n (sy_state s u) us) s)"
    using c Cons a l(4) by (intro inv_coord_same [OF inv h]) (cases "kind_of (sy_place s u)"; auto)+
  with Cons show ?thesis by (simp add: stop_load_def)
qed

lemma stop_cas_safe:
  assumes inv: "sys_inv s" and c: "sy_place s c = StwCas n v us"
  shows "safe (stop_cas n v us c s)"
proof -
  have h: "holds_lock (sy_place s c)" using c by simp
  note l = lock_holder [OF inv h]
  obtain u us' where us: "us = u # us'" using l(4) c by (cases us) auto
  have d: "distinct (u # us')" "set (u # us') \<subseteq> set (sy_threads s)"
    and v: "v \<in> {Running, Parked, Safepoint}" "v = Safepoint \<Longrightarrow> sy_state s u = Safepoint"
    using l(4) c us by auto
  have a: "allowed Asked (kind_of (sy_place s u)) (sy_state s u)" "sy_requested s u"
    using inv_local [OF inv, of u] d l(2) c us by auto
  have retry: "sys_inv (goto c (StwCas n (sy_state s u) us) s)"
    using c us a l(4) by (intro inv_coord_same [OF inv h]) (cases "kind_of (sy_place s u)"; auto)+
  have rq: "(sy_requested s)(u := True) = sy_requested s" using a(2) by (simp add: fun_eq_iff)
  have caught: "sys_inv (coord c (StwLoad m us') ((sy_state s)(u := w)) (sy_requested s) (sy_barrier s) s)"
    if "allowed Caught (kind_of (sy_place s u)) w"
      "int m = int n + owes Caught (kind_of (sy_place s u)) w - owed s u" for m w
    using that d c us l(2) a(2) rq inv_coord_one [OF inv h, of "StwLoad m us'" u w True] by auto
  have o: "owed s u = - of_bool (kind_of (sy_place s u) = KBlocked \<and> sy_state s u = Safepoint)"
    using l(2) c us by simp
  from v(1) consider "v = Running" | "v = Parked" | "v = Safepoint" by auto
  then show ?thesis
  proof cases
    case 1
    with retry caught [of SafepointRequested "n + 1"] a o us show ?thesis
      by (cases "kind_of (sy_place s u)") (auto simp: stop_cas_def compare_exchange_def goto_coord)
  next
    case 2
    with retry caught [of ParkedSafepoint n] a o us show ?thesis
      by (cases "kind_of (sy_place s u)") (auto simp: stop_cas_def compare_exchange_def goto_coord)
  next
    case 3
    with v caught [of Safepoint "n + 1"] a o us show ?thesis
      by (cases "kind_of (sy_place s u)") (auto simp: stop_cas_def goto_coord fun_upd_idem)
  qed
qed

lemma allowed_stopped:
  "allowed Caught k v \<Longrightarrow> owes Caught k v = 0 \<Longrightarrow> allowed Held k v"
  by (cases k) (auto split: if_splits)

lemma stop_wait_safe:
  assumes inv: "sys_inv s" and c: "sy_place s c = StwWait n"
  shows "safe (stop_wait n c s)"
proof (cases "stopped (sy_barrier s) < n")
  case True
  have "armed (sy_barrier s)" using lock_holder [OF inv, of c] c inv_armed [OF inv] by simp
  with True show ?thesis by (simp add: stop_wait_def wait_until_threads_stopped_def)
next
  case False
  have h: "holds_lock (sy_place s c)" using c by simp
  note l = lock_holder [OF inv h]
  have ph: "sys_phase s = Waiting n" using l(2) c by simp
  have sum: "int (stopped (sy_barrier s)) + (\<Sum>t\<in>set (sy_threads s). owed s t) = int n"
    using inv_count [OF inv] ph by simp
  have nonneg: "0 \<le> owed s t" for t by (simp add: ph)
  then have "0 \<le> (\<Sum>t\<in>set (sy_threads s). owed s t)" by (intro sum_nonneg) simp
  with sum False have n: "stopped (sy_barrier s) = n" and "(\<Sum>t\<in>set (sy_threads s). owed s t) = 0" by simp_all
  then have zero: "owed s t = 0" if "t \<in> set (sy_threads s)" for t
    using that nonneg by (subst (asm) sum_nonneg_eq_0_iff) auto
  have "sys_inv (coord c (StwOperation False) (sy_state s) (sy_requested s) (sy_barrier s) s)"
  proof (rule inv_coord [OF inv h])
    show "allowed (stage_of (place_phase (StwOperation False)) t) (kind_of (sy_place s t)) (sy_state s t)
      \<and> (flag_ok (stage_of (place_phase (StwOperation False)) t) (sy_requested s t))"
      if "t \<in> set (sy_threads s)" for t
      using allowed_stopped [of "kind_of (sy_place s t)" "sy_state s t"] zero [OF that] inv_local [OF inv that]
      by (simp add: ph)
  qed (use inv_armed [OF inv] ph in simp_all)
  moreover have "armed (sy_barrier s)" using inv_armed [OF inv] ph by simp
  ultimately show ?thesis using n by (simp add: stop_wait_def wait_until_threads_stopped_def goto_coord)
qed

lemma stop_operation_safe:
  assumes inv: "sys_inv s" and c: "sy_place s c = StwOperation alone"
  shows "safe (stop_operation alone c s)"
  using inv c by (auto simp: stop_operation_def intro!: inv_coord_same)

lemma resume_clear_safe:
  assumes inv: "sys_inv s" and c: "sy_place s c = StwClear us"
  shows "safe (resume_clear us c s)"
proof -
  have h: "holds_lock (sy_place s c)" using c by simp
  note l = lock_holder [OF inv h]
  have ph: "sys_phase s = Halted" using l(2) c by simp
  have clear: "sys_inv (coord c (StwClear us') (sy_state s) ((sy_requested s)(u := False)) (sy_barrier s) s)"
    if "us = u # us'" for u us'
    using that inv_local [OF inv] inv_armed [OF inv] ph l(4) c spawn_outside [of s] inv
    by (intro inv_coord [OF inv h]) (auto simp: sys_inv_def)
  show ?thesis
  proof (cases us)
    case Nil
    then have "sys_inv (goto c (StwSwap (sy_threads s)) s)"
      using inv c l(4) inv_distinct [OF inv] by (intro inv_coord_same [OF inv h]) auto
    with Nil show ?thesis by (simp add: resume_clear_def)
  next
    case (Cons u us')
    with clear show ?thesis by (simp add: resume_clear_def goto_coord)
  qed
qed

lemma resume_swap_safe:
  assumes inv: "sys_inv s" and c: "sy_place s c = StwSwap us"
  shows "safe (resume_swap us c s)"
proof (cases us)
  case Nil
  with inv c show ?thesis by (auto simp: resume_swap_def intro!: inv_coord_same)
next
  case (Cons u us')
  have h: "holds_lock (sy_place s c)" using c by simp
  note l = lock_holder [OF inv h]
  have us: "distinct (u # us')" "set (u # us') \<subseteq> set (sy_threads s)" "\<not> sy_requested s u" using l(4) c Cons by simp_all
  have a: "allowed Held (kind_of (sy_place s u)) (sy_state s u)"
    using inv_local [OF inv, of u] us l(2) c Cons by auto
  then have st: "sy_state s u = Safepoint \<or> sy_state s u = ParkedSafepoint"
    and a': "allowed Free (kind_of (sy_place s u)) Parked"
    by (cases "kind_of (sy_place s u)"; auto)+
  have "sys_inv (coord c (StwSwap us') ((sy_state s)(u := Parked)) ((sy_requested s)(u := sy_requested s u)) (sy_barrier s) s)"
    using us c Cons a' l(4) by (intro inv_coord_one [OF inv h]) auto
  with Cons st show ?thesis by (auto simp: resume_swap_def goto_coord)
qed

lemma disarm_safe:
  assumes inv: "sys_inv s" and c: "sy_place s c = StwDisarm"
  shows "safe (with_barrier disarm StwUnlock c s)"
proof -
  have h: "holds_lock (sy_place s c)" using c by simp
  note l = lock_holder [OF inv h]
  have ph: "sys_phase s = Disarming" "armed (sy_barrier s)" using l(2) c inv_armed [OF inv] by simp_all
  have "sys_inv (coord c StwUnlock (sy_state s) (sy_requested s) ((sy_barrier s)\<lparr>armed := False\<rparr>) s)"
    using inv_local [OF inv] ph by (intro inv_coord [OF inv h]) auto
  with ph show ?thesis by (simp add: with_barrier_def disarm_def goto_coord)
qed

subsection \<open>Taking and releasing the lock\<close>

lemma core_idle:
  assumes "sys_phase s = Idle"
  shows "core_inv s \<longleftrightarrow>
    (\<forall>t\<in>set (sy_threads s). allowed Free (kind_of (sy_place s t)) (sy_state s t) \<and> \<not> sy_requested s t)
    \<and> (\<forall>t. holds_lock (sy_place s t) \<longleftrightarrow> sy_lock s = Some t) \<and> \<not> armed (sy_barrier s)
    \<and> (\<forall>c. sy_lock s = Some c \<longrightarrow> place_ok s (sy_place s c))"
  using assms by (auto simp: core_inv_def local_inv_def lock_inv_def count_inv_def)

lemma unlocked_idle: "sy_lock s = None \<Longrightarrow> sys_phase s = Idle"
  by (simp add: sys_phase_def)

text \<open>The lock changes hands between a thread and nobody while the protocol is idle.\<close>

lemma inv_relock:
  assumes inv: "sys_inv s" and t: "t \<in> set (sy_threads s)" and idle: "sys_phase s = Idle"
    and "sy_lock s = None \<or> sy_lock s = Some t" "l = None \<or> l = Some t"
    and "holds_lock p \<longleftrightarrow> l = Some t" and "place_phase p = Idle"
    and "kind_of p = KStill" "kind_of (sy_place s t) = KStill" "place_ok s p"
    and "adding p = adding (sy_place s t)" "starting p = starting (sy_place s t)" "sy_place s t \<noteq> Unstarted" "p \<noteq> Unstarted"
  shows "sys_inv (goto t p (s\<lparr>sy_lock := l\<rparr>))" (is "sys_inv ?s")
proof -
  have ph: "sys_phase ?s = Idle" using assms by (auto simp: sys_phase_def)
  have pk: "place_ok ?s p" using assms(10) by (cases p) auto
  have core: "core_inv s" and spawn: "spawn_inv s" using inv by (simp_all add: sys_inv_def)
  have "core_inv ?s"
    using core assms pk unfolding core_idle [OF ph] core_idle [OF idle] by auto
  moreover have "spawn_inv ?s"
  proof -
    have "spawn_inv (move t p (sy_state s t) (stopped (sy_barrier s)) s)"
      using spawn_move [OF spawn t] assms by blast
    then show ?thesis by (rule spawn_cong [THEN iffD1, rotated -1]) (simp_all add: goto_def)
  qed
  moreover have "starter_inv ?s"
  proof (rule starter_keep)
    show "starter_inv s" using inv by (simp add: sys_inv_def)
  qed (use assms(11-14) in \<open>auto split: if_splits\<close>)
  ultimately show ?thesis by (simp add: sys_inv_def)
qed

lemma stop_the_world_safe:
  assumes inv: "sys_inv s" and "t \<in> set (sy_threads s)" and "sy_place s t = Scope InStw"
  shows "safe (stop_the_world t s)"
  using assms by (auto simp: stop_the_world_def unlocked_idle intro!: inv_relock)

lemma stw_unlock_safe:
  assumes inv: "sys_inv s" and c: "sy_place s c = StwUnlock"
  shows "safe (stw_unlock c s)"
  using lock_holder [OF inv, of c] assms by (auto simp: stw_unlock_def intro!: inv_relock)

subsection \<open>The thread list\<close>

lemma spawn_added:
  assumes spawn: "spawn_inv s" and t: "t \<in> set (sy_threads s)" and p: "sy_place s t = Scope (InAdd u)"
  shows "spawn_inv (goto t (Unpark (Some u)) (s\<lparr>sy_threads := sy_threads s @ [u]\<rparr>))" (is "spawn_inv ?s")
proof -
  have u: "u \<notin> set (sy_threads s)" "u < sy_next_id s" "sy_place s u = Unstarted"
    using spawn_adding [OF spawn, of t u] p by simp_all
  have a: "adding (sy_place ?s x) = (if x = t then None else adding (sy_place s x))"
    and b: "starting (sy_place ?s x) = (if x = t then Some u else starting (sy_place s x))" for x
    by simp_all
  have c: "sy_place s x = Unstarted \<Longrightarrow> sy_place ?s x = Unstarted"
    and d: "x \<notin> set (sy_threads s) \<Longrightarrow> sy_place ?s x = sy_place s x" for x
    using p t by auto
  have e: "x = t" if "adding (sy_place s x) = Some u" for x
    using spawn_unique(1) [OF spawn that, of t] p by simp
  have f: "starting (sy_place s x) \<noteq> Some u" for x
    using spawn_starting [OF spawn, of x u] u(1) by blast
  have g: "set (sy_threads ?s) = insert u (set (sy_threads s))" "distinct (sy_threads s) \<Longrightarrow> distinct (sy_threads ?s)"
    "sy_requested ?s = sy_requested s" "sy_next_id ?s = sy_next_id s" "sy_state ?s = sy_state s"
    using u(1) by simp_all
  show ?thesis
    unfolding spawn_inv_def a b g(1,3-5) at_most_one_def
  proof (intro conjI allI impI)
    show "distinct (sy_threads ?s)" using spawn_distinct [OF spawn] g(2) by blast
  next
    fix x
    assume "x \<notin> insert u (set (sy_threads s))"
    then show "sy_place ?s x \<in> {Unstarted, Finished}" "sy_state s x = Parked" "\<not> sy_requested s x"
      using spawn_outside [OF spawn, of x] d [of x] by auto
  next
    fix x
    assume x: "sy_next_id s \<le> x"
    with spawn_fresh [OF spawn x] u(2) c [of x]
    show "x \<notin> insert u (set (sy_threads s))" "sy_place ?s x = Unstarted" by auto
  next
    fix x y
    assume "(if x = t then None else adding (sy_place s x)) = Some y"
    then have xy: "x \<noteq> t" "adding (sy_place s x) = Some y" by (auto split: if_splits)
    with e have "y \<noteq> u" by blast
    with spawn_adding [OF spawn xy(2)] c [of y]
    show "y \<notin> insert u (set (sy_threads s))" "y < sy_next_id s" "sy_place ?s y = Unstarted" by auto
  next
    fix x y
    assume "(if x = t then Some u else starting (sy_place s x)) = Some y"
    then have "y = u \<or> starting (sy_place s x) = Some y" by (auto split: if_splits)
    then show "y \<in> insert u (set (sy_threads s))" "sy_place ?s y = Unstarted"
      using spawn_starting [OF spawn, of x y] c [of y] u(3) by blast+
  next
    fix x x' y
    assume "(if x = t then None else adding (sy_place s x)) = Some y"
      "(if x' = t then None else adding (sy_place s x')) = Some y"
    then show "x = x'" by (intro spawn_unique(1) [OF spawn]) (auto split: if_splits)
  next
    fix x x' y
    assume "(if x = t then Some u else starting (sy_place s x)) = Some y"
      "(if x' = t then Some u else starting (sy_place s x')) = Some y"
    then have "x = t \<and> x' = t \<or> starting (sy_place s x) = Some y \<and> starting (sy_place s x') = Some y"
      using f [of x] f [of x'] by (auto split: if_splits)
    then show "x = x'" using spawn_unique(2) [OF spawn] by blast
  qed
qed

lemma add_thread_safe:
  assumes inv: "sys_inv s" and t: "t \<in> set (sy_threads s)" and p: "sy_place s t = Scope (InAdd u)"
  shows "safe (add_thread u t s)"
proof (cases "sy_lock s")
  case None
  let ?s = "goto t (Unpark (Some u)) (s\<lparr>sy_threads := sy_threads s @ [u]\<rparr>)"
  have core: "core_inv s" and spawn: "spawn_inv s" using inv by (simp_all add: sys_inv_def)
  have u: "u \<notin> set (sy_threads s)" "u < sy_next_id s" "sy_place s u = Unstarted"
    using spawn_adding [OF spawn, of t u] p by simp_all
  have out: "sy_state s u = Parked" "\<not> sy_requested s u" using spawn_outside [OF spawn u(1)] by simp_all
  have ut: "u \<noteq> t" using u t by auto
  have ph: "sys_phase s = Idle" "sys_phase ?s = Idle" using None by (simp_all add: sys_phase_def)
  have "core_inv ?s"
    using core u out ut p None unfolding core_idle [OF ph(1)] core_idle [OF ph(2)] by auto
  moreover have "spawn_inv ?s" by (rule spawn_added [OF spawn t p])
  moreover have "starter_inv ?s"
    unfolding starter_inv_def
  proof (intro ballI impI)
    fix x
    assume x: "x \<in> set (sy_threads ?s)" "sy_place ?s x = Unstarted"
    show "\<exists>y. starting (sy_place ?s y) = Some x"
    proof (cases "x = u")
      case True
      then show ?thesis by (intro exI [of _ t]) simp
    next
      case False
      with x inv obtain y where y: "starting (sy_place s y) = Some x"
        unfolding sys_inv_def starter_inv_def by (auto split: if_splits)
      with p show ?thesis by (intro exI [of _ y]) auto
    qed
  qed
  ultimately show ?thesis using None by (simp add: add_thread_def sys_inv_def)
qed (simp add: add_thread_def)

lemma spawn_removed:
  assumes spawn: "spawn_inv s" and t: "t \<in> set (sy_threads s)" and p: "sy_place s t = Scope InRemove"
    and st: "sy_state s t = Parked" "\<not> sy_requested s t"
  shows "spawn_inv (goto t Finished (s\<lparr>sy_threads := filter (\<lambda>u. u \<noteq> t) (sy_threads s)\<rparr>))" (is "spawn_inv ?s")
proof -
  have a: "adding (sy_place ?s x) = adding (sy_place s x)"
    and b: "starting (sy_place ?s x) = starting (sy_place s x)" for x using p by auto
  have c: "sy_place s x = Unstarted \<Longrightarrow> x \<noteq> t \<and> sy_place ?s x = Unstarted" for x using p by auto
  have g: "set (sy_threads ?s) = set (sy_threads s) - {t}" "distinct (sy_threads ?s)"
    "sy_requested ?s = sy_requested s" "sy_next_id ?s = sy_next_id s" "sy_state ?s = sy_state s"
    using spawn_distinct [OF spawn] by auto
  show ?thesis
    unfolding spawn_inv_def a b g(1,3-5) at_most_one_def
  proof (intro conjI allI impI)
    fix x
    assume "x \<notin> set (sy_threads s) - {t}"
    then show "sy_place ?s x \<in> {Unstarted, Finished}" "sy_state s x = Parked" "\<not> sy_requested s x"
      using spawn_outside [OF spawn, of x] st by auto
  next
    fix x
    assume x: "sy_next_id s \<le> x"
    with spawn_fresh [OF spawn x] c [of x]
    show "x \<notin> set (sy_threads s) - {t}" "sy_place ?s x = Unstarted" by auto
  next
    fix x y
    assume "adding (sy_place s x) = Some y"
    with spawn_adding [OF spawn, of x y] c [of y]
    show "y \<notin> set (sy_threads s) - {t}" "y < sy_next_id s" "sy_place ?s y = Unstarted" by auto
  next
    fix x y
    assume "starting (sy_place s x) = Some y"
    with spawn_starting [OF spawn, of x y] c [of y]
    show "y \<in> set (sy_threads s) - {t}" "sy_place ?s y = Unstarted" by auto
  qed (use g(2) spawn_unique [OF spawn] in blast)+
qed

lemma remove_current_thread_safe:
  assumes inv: "sys_inv s" and t: "t \<in> set (sy_threads s)" and p: "sy_place s t = Scope InRemove"
  shows "safe (remove_current_thread t s)"
proof (cases "sy_lock s")
  case None
  let ?s = "goto t Finished (s\<lparr>sy_threads := filter (\<lambda>u. u \<noteq> t) (sy_threads s)\<rparr>)"
  have ph: "sys_phase s = Idle" "sys_phase ?s = Idle" using None by (simp_all add: sys_phase_def)
  have st: "sy_state s t = Parked" "\<not> sy_requested s t" using inv_local [OF inv t] p ph by simp_all
  have "core_inv ?s"
    using inv p None unfolding sys_inv_def core_idle [OF ph(1)] core_idle [OF ph(2)] by auto
  moreover have "spawn_inv ?s" using spawn_removed [OF _ t p st] inv by (simp add: sys_inv_def)
  moreover have "starter_inv ?s"
  proof (rule starter_keep)
    show "starter_inv s" using inv by (simp add: sys_inv_def)
  qed (use p in \<open>auto split: if_splits\<close>)
  ultimately show ?thesis using None by (simp add: remove_current_thread_def sys_inv_def)
qed (simp add: remove_current_thread_def)

lemma spawn_spawned:
  assumes spawn: "spawn_inv s" and t: "t \<in> set (sy_threads s)" and p: "sy_place s t = Mutator"
  shows "spawn_inv (goto t (Park (InAdd (sy_next_id s))) (s\<lparr>sy_next_id := sy_next_id s + 1\<rparr>))" (is "spawn_inv ?s")
proof -
  let ?u = "sy_next_id s"
  have a: "adding (sy_place ?s x) = (if x = t then Some ?u else adding (sy_place s x))"
    and b: "starting (sy_place ?s x) = starting (sy_place s x)" for x using p by auto
  have c: "sy_place s x = Unstarted \<Longrightarrow> sy_place ?s x = Unstarted"
    and d: "x \<notin> set (sy_threads s) \<Longrightarrow> sy_place ?s x = sy_place s x" for x using p t by auto
  have f: "adding (sy_place s x) \<noteq> Some ?u" for x using spawn_adding [OF spawn, of x ?u] by blast
  have g: "sy_threads ?s = sy_threads s" "sy_requested ?s = sy_requested s"
    "sy_next_id ?s = ?u + 1" "sy_state ?s = sy_state s" by simp_all
  show ?thesis
    unfolding spawn_inv_def a b g at_most_one_def
  proof (intro conjI allI impI)
    fix x
    assume "x \<notin> set (sy_threads s)"
    with spawn_outside [OF spawn, of x] d [of x]
    show "sy_place ?s x \<in> {Unstarted, Finished}" "sy_state s x = Parked" "\<not> sy_requested s x" by auto
  next
    fix x
    assume "?u + 1 \<le> x"
    with spawn_fresh [OF spawn, of x] c [of x] show "x \<notin> set (sy_threads s)" "sy_place ?s x = Unstarted" by auto
  next
    fix x y
    assume "(if x = t then Some ?u else adding (sy_place s x)) = Some y"
    then have "y = ?u \<or> adding (sy_place s x) = Some y" by (auto split: if_splits)
    then show "y \<notin> set (sy_threads s)" "y < ?u + 1" "sy_place ?s y = Unstarted"
      using spawn_adding [OF spawn, of x y] spawn_fresh [OF spawn, of ?u] c [of y] by force+
  next
    fix x y
    assume "starting (sy_place s x) = Some y"
    with spawn_starting [OF spawn, of x y] c [of y]
    show "y \<in> set (sy_threads s)" "sy_place ?s y = Unstarted" by auto
  next
    fix x x' y
    assume "(if x = t then Some ?u else adding (sy_place s x)) = Some y"
      "(if x' = t then Some ?u else adding (sy_place s x')) = Some y"
    then have "x = t \<and> x' = t \<or> adding (sy_place s x) = Some y \<and> adding (sy_place s x') = Some y"
      using f [of x] f [of x'] by (auto split: if_splits)
    then show "x = x'" using spawn_unique(1) [OF spawn] by blast
  qed (use spawn_distinct [OF spawn] spawn_unique(2) [OF spawn] in blast)+
qed

lemma spawn_thread_safe:
  assumes inv: "sys_inv s" and t: "t \<in> set (sy_threads s)" and p: "sy_place s t = Mutator"
  shows "safe (spawn_thread t s)"
proof -
  let ?s = "goto t (Park (InAdd (sy_next_id s))) (s\<lparr>sy_next_id := sy_next_id s + 1\<rparr>)"
  have core: "core_inv s" and spawn: "spawn_inv s" using inv by (simp_all add: sys_inv_def)
  have "sy_next_id s \<notin> set (sy_threads s)" using spawn_fresh [OF spawn] by simp
  then have "sy_state s (sy_next_id s) = Parked" using spawn_outside [OF spawn] by blast
  then have eq: "set_state (sy_next_id s) Parked (s\<lparr>sy_next_id := Suc (sy_next_id s)\<rparr>) = s\<lparr>sy_next_id := Suc (sy_next_id s)\<rparr>"
    by (simp add: set_state_def fun_upd_idem)
  have "core_inv (goto t (Park (InAdd (sy_next_id s))) s)"
    unfolding goto_move using core t p inv_allowed [OF inv t] by (intro core_move) auto
  then have "core_inv ((goto t (Park (InAdd (sy_next_id s))) s)\<lparr>sy_next_id := sy_next_id s + 1\<rparr>)" by simp
  moreover have "(goto t (Park (InAdd (sy_next_id s))) s)\<lparr>sy_next_id := sy_next_id s + 1\<rparr> = ?s"
    by (simp add: goto_def)
  moreover have "starter_inv ?s"
  proof (rule starter_keep)
    show "starter_inv s" using inv by (simp add: sys_inv_def)
  qed (use p in \<open>auto split: if_splits\<close>)
  ultimately have "sys_inv ?s" using spawn_spawned [OF spawn t p] by (simp only: sys_inv_def)
  with eq show ?thesis
    by (simp add: spawn_thread_def Let_def \<open>sy_state s (sy_next_id s) = Parked\<close>)
qed

subsection \<open>Every step keeps the invariant\<close>

lemma mutate_safe:
  assumes inv: "sys_inv s" and t: "t \<in> set (sy_threads s)" and p: "sy_place s t = Mutator"
  shows "safe (mutate a t s)"
proof -
  have "sys_inv (goto t SafepointSwap s)" if "sy_requested s t"
    using inv_requested [OF inv t that] inv_allowed [OF inv t] inv t p unfolding goto_move
    by (cases "stage_of (sys_phase s) t") (auto intro!: inv_move)
  then show ?thesis
    using inv t p spawn_thread_safe [OF inv t p]
    by (cases a) (auto simp: mutate_def intro!: inv_goto)
qed

lemma in_scope_safe:
  assumes "sys_inv s" and "t \<in> set (sy_threads s)" and "sy_place s t = Scope k"
  shows "safe (in_scope k t s)"
  using assms stop_the_world_safe add_thread_safe remove_current_thread_safe
  by (cases k) (auto simp: in_scope_def intro!: inv_goto)

lemmas step_safe = mutate_safe safepoint_slow_safe safepoint_wait_safe safepoint_blocked_safe park_safe
  park_slow_safe notify_safe in_scope_safe unpark_safe unpark_slow_safe unpark_wait_safe

lemmas coordinator_safe = arm_safe stop_request_safe stop_load_safe stop_cas_safe stop_wait_safe
  stop_operation_safe resume_clear_safe resume_swap_safe disarm_safe stw_unlock_safe

lemma thread_step_safe:
  assumes inv: "sys_inv s"
  shows "safe (thread_step a t s)"
proof (cases "t \<in> set (sy_threads s)")
  case True
  then show ?thesis
    using inv step_safe coordinator_safe by (cases "sy_place s t") (simp_all add: thread_step_def)
next
  case False
  with inv spawn_outside [of s t] show ?thesis by (auto simp: sys_inv_def thread_step_def)
qed

lemma sys_inv_init: "sys_inv sys_init"
proof -
  have "sys_phase sys_init = Idle" by (simp add: sys_phase_def sys_init_def sys_new_def)
  from core_idle [OF this] have "core_inv sys_init"
    by (auto simp: sys_init_def sys_new_def barrier_new_def)
  moreover have "spawn_inv sys_init"
    by (auto simp: spawn_inv_def at_most_one_def sys_init_def sys_new_def split: if_splits)
  moreover have "starter_inv sys_init" by (simp add: starter_inv_def sys_init_def sys_new_def)
  ultimately show ?thesis by (simp add: sys_inv_def)
qed

lemma reach_inv: "sys_reach s \<Longrightarrow> sys_inv s"
proof (induction rule: sys_reach.induct)
  case init
  show ?case by (rule sys_inv_init)
next
  case (step s a t s')
  with thread_step_safe [of s a t] show ?case by simp
qed

end
