(* ===== verification/SafepointTheorems.thy ===== *)
theory SafepointTheorems
  imports SafepointInvariant
begin

text \<open>
  Properties of the safepoint protocol, for every interleaving of any number of threads that park,
  unpark, reach safepoints, spawn threads, end and stop the world.
\<close>

subsection \<open>Schedules\<close>

text \<open>A schedule names the thread that steps next and what it does if it runs Dora code.\<close>

fun run_schedule :: "(tid \<times> action) list \<Rightarrow> system \<Rightarrow> system option" where
  "run_schedule [] s = Some s"
| "run_schedule ((t, a) # ts) s =
     (case thread_step a t s of Some (Inr s') \<Rightarrow> run_schedule ts s' | _ \<Rightarrow> None)"

lemma run_schedule_reach: "sys_reach s \<Longrightarrow> run_schedule ts s = Some s' \<Longrightarrow> sys_reach s'"
  by (induction ts s rule: run_schedule.induct)
     (auto split: option.splits sum.splits intro: sys_reach.step)

text \<open>Thread 1 spawns thread 2 and then stops the world while thread 2 runs.\<close>

definition demo_schedule :: "(tid \<times> action) list" where
  "demo_schedule = [(1, Spawn), (1, Poll), (1, Poll), (1, Poll), (2, Poll), (1, Collect), (1, Poll), (1, Poll),
     (1, Poll), (1, Poll), (1, Poll), (1, Poll), (1, Poll), (1, Poll), (1, Poll), (1, Poll), (1, Poll),
     (2, Poll), (2, Poll), (2, Poll), (1, Poll)]"

definition demo_system :: system where
  "demo_system = (case run_schedule demo_schedule sys_init of Some s \<Rightarrow> s | None \<Rightarrow> sys_init)"

lemma demo_reach: "sys_reach demo_system"
  unfolding demo_system_def
  by (cases "run_schedule demo_schedule sys_init")
     (auto intro: sys_reach.init run_schedule_reach)

lemma demo_place: "sy_place demo_system 1 = StwOperation False" "sy_threads demo_system = [1, 2]"
  by code_simp+

subsection \<open>The world is stopped\<close>

lemma allowed_Held_stopped: "allowed Held k v \<Longrightarrow> \<not> is_running v \<and> k \<noteq> KRun \<and> k \<noteq> KSwap \<and> k \<noteq> KSlow"
  by (cases k) auto

lemma halted_stopped:
  assumes inv: "sys_inv s" and h: "holds_lock (sy_place s c)"
    and ph: "place_phase (sy_place s c) = Halted \<or> length (sy_threads s) = 1"
  shows "\<not> is_running (sy_state s t) \<and> sy_place s t \<noteq> Mutator"
proof (cases "t \<in> set (sy_threads s)")
  case True
  note l = lock_holder [OF inv h]
  show ?thesis
  proof (cases "place_phase (sy_place s c) = Halted")
    case True
    with inv_allowed [OF inv \<open>t \<in> _\<close>] l(2) show ?thesis using allowed_Held_stopped by fastforce
  next
    case False
    with ph l(3) True have "t = c" by (auto simp: length_Suc_conv)
    with inv_allowed [OF inv l(3)] holds_lock_kind [OF h] show ?thesis
      by (cases "stage_of (sys_phase s) c") auto
  qed
next
  case False
  with spawn_outside [of s t] inv show ?thesis by (auto simp: sys_inv_def)
qed

text \<open>
  C3.  The world is stopped: while a thread executes the operation of \<open>stop_the_world\<close>, no thread
  at all is in a running state or executes Dora code, whichever way the threads interleave.
\<close>

theorem world_stopped_during_operation:
  assumes "sys_reach s" and "sy_place s c = StwOperation alone"
  shows "\<forall>t. \<not> is_running (sy_state s t) \<and> sy_place s t \<noteq> Mutator"
proof -
  have inv: "sys_inv s" using assms(1) by (rule reach_inv)
  have h: "holds_lock (sy_place s c)" using assms(2) by simp
  from lock_holder(4) [OF inv h] assms(2)
  have "place_phase (sy_place s c) = Halted \<or> length (sy_threads s) = 1" by auto
  with halted_stopped [OF inv h] show ?thesis by blast
qed

theorem world_stopped_during_operation_witness:
  "sys_reach demo_system \<and> sy_place demo_system 1 = StwOperation False
   \<and> sy_threads demo_system = [1, 2] \<and> \<not> is_running (sy_state demo_system 2)"
  using demo_reach demo_place world_stopped_during_operation [OF demo_reach demo_place(1)] by blast

text \<open>
  C20.  No assertion of the protocol can fail: neither those on the states a thread finds when it
  parks, unparks or enters a safepoint, nor those of the barrier about being armed and about the
  number of stopped threads, nor the panic on an unexpected state when stopping threads.
\<close>

theorem safepoint_protocol_never_panics:
  assumes "sys_reach s"
  shows "thread_step a t s \<noteq> Some (Inl e)"
  using thread_step_safe [OF reach_inv [OF assms], of a t] by (auto simp: safe_def)

theorem safepoint_protocol_never_panics_witness:
  "sys_reach demo_system \<and> thread_step Poll 1 demo_system \<noteq> Some (Inl AssertionFailed)"
  using demo_reach safepoint_protocol_never_panics [OF demo_reach] by blast

subsection \<open>No deadlock\<close>

lemma active_enabled:
  "kind_of (sy_place s t) \<in> {KRun, KSwap, KSlow, KWait, KNotify} \<Longrightarrow> thread_step Poll t s \<noteq> None"
  by (cases "sy_place s t")
     (auto simp: thread_step_def mutate_def safepoint_slow_def with_barrier_def park_def park_slow_def
       compare_exchange_def)

lemma unlocked_enabled:
  assumes "sy_lock s = None" and "\<not> armed (sy_barrier s)"
    and "sy_place s t \<noteq> Unstarted" "sy_place s t \<noteq> Finished" "\<not> holds_lock (sy_place s t)"
  shows "thread_step Poll t s \<noteq> None"
proof (cases "sy_place s t")
  case (Scope k)
  with assms show ?thesis
    by (cases k) (auto simp: thread_step_def in_scope_def stop_the_world_def add_thread_def remove_current_thread_def)
qed (use assms in \<open>auto simp: thread_step_def mutate_def safepoint_slow_def with_barrier_def park_def
       park_slow_def compare_exchange_def safepoint_blocked_def wakeup_ready_def unpark_def unpark_slow_def
       unpark_wait_def\<close>)

lemma coordinator_enabled:
  assumes inv: "sys_inv s" and h: "holds_lock (sy_place s c)"
  shows "thread_step Poll c s \<noteq> None \<or> (\<exists>n. sy_place s c = StwWait n \<and> stopped (sy_barrier s) < n)"
proof (cases "sy_place s c")
  case (StwCas n v us)
  with lock_holder(4) [OF inv h] obtain u us' where "us = u # us'" by (cases us) auto
  with StwCas show ?thesis by (cases v) (auto simp: thread_step_def stop_cas_def compare_exchange_def)
next
  case (StwWait n)
  then show ?thesis by (auto simp: thread_step_def stop_wait_def wait_until_threads_stopped_def)
qed (use h in \<open>auto simp: thread_step_def with_barrier_def stop_request_def stop_load_def
       stop_operation_def resume_clear_def resume_swap_def stw_unlock_def split: list.split\<close>)

lemma waiting_enabled:
  assumes inv: "sys_inv s" and c: "sy_place s c = StwWait n" and less: "stopped (sy_barrier s) < n"
  shows "\<exists>t. thread_step Poll t s \<noteq> None"
proof -
  have ph: "sys_phase s = Waiting n" using lock_holder(2) [OF inv, of c] c by simp
  have "int (stopped (sy_barrier s)) + (\<Sum>t\<in>set (sy_threads s). owed s t) = int n"
    using inv_count [OF inv] ph by simp
  with less have "(\<Sum>t\<in>set (sy_threads s). owed s t) \<noteq> 0" by simp
  then obtain t where t: "t \<in> set (sy_threads s)" "owed s t \<noteq> 0" by (meson sum.neutral)
  with inv_allowed [OF inv t(1)] have "kind_of (sy_place s t) \<in> {KRun, KSwap, KSlow, KWait, KNotify}"
    by (cases "kind_of (sy_place s t)") (auto simp: ph)
  with active_enabled show ?thesis by blast
qed

lemma unlocked_some_enabled:
  assumes inv: "sys_inv s" and l: "sy_lock s = None" and t: "t \<in> set (sy_threads s)"
  shows "\<exists>t. thread_step Poll t s \<noteq> None"
proof -
  have idle: "sys_phase s = Idle" "\<not> armed (sy_barrier s)"
    using unlocked_idle [OF l] inv_armed [OF inv] by simp_all
  have nolock: "\<not> holds_lock (sy_place s x)" for x using lock_holder(1) [OF inv, of x] l by auto
  have gone: "sy_place s x \<noteq> Finished" if "x \<in> set (sy_threads s)" for x
    using inv_allowed [OF inv that] idle by auto
  show ?thesis
  proof (cases "sy_place s t = Unstarted")
    case True
    with inv t obtain x where x: "starting (sy_place s x) = Some t"
      unfolding sys_inv_def starter_inv_def by blast
    then have "sy_place s x \<noteq> Unstarted" "sy_place s x \<noteq> Finished" by auto
    with unlocked_enabled [OF l idle(2) _ _ nolock] show ?thesis by blast
  next
    case False
    with unlocked_enabled [OF l idle(2) _ _ nolock] gone [OF t] show ?thesis by blast
  qed
qed

text \<open>
  C21.  The protocol never deadlocks: as long as a thread is registered, some thread can take a
  step, also while threads wait for the barrier, the list's mutex or the threads still running.
\<close>

theorem safepoint_protocol_no_deadlock:
  assumes "sys_reach s" and "sy_threads s \<noteq> []"
  shows "\<exists>a t s'. thread_step a t s = Some (Inr s')"
proof -
  have inv: "sys_inv s" using assms(1) by (rule reach_inv)
  have "\<exists>t. thread_step Poll t s \<noteq> None"
  proof (cases "sy_lock s")
    case None
    with unlocked_some_enabled [OF inv None, of "hd (sy_threads s)"] assms(2) show ?thesis by simp
  next
    case (Some c)
    then have "holds_lock (sy_place s c)" using inv unfolding sys_inv_def core_inv_def lock_inv_def by blast
    with coordinator_enabled [OF inv this] waiting_enabled [OF inv, of c] show ?thesis by blast
  qed
  then obtain t r where "thread_step Poll t s = Some r" by auto
  with thread_step_safe [OF inv, of Poll t] show ?thesis by (cases r) auto
qed

theorem safepoint_protocol_no_deadlock_witness:
  "sys_reach demo_system \<and> sy_threads demo_system \<noteq> [] \<and> (\<exists>a t s'. thread_step a t demo_system = Some (Inr s'))"
  using demo_reach demo_place(2) safepoint_protocol_no_deadlock [OF demo_reach] by simp

end
