(* ===== verification/Calls.thy ===== *)
theory Calls
  imports Prelude
begin

text \<open>
  Calls that may panic and may not return: \<open>None\<close> is a call that never returns, \<open>Some (Inl e)\<close> one
  that panics.
\<close>

type_synonym 'a call = "'a result option"

definition cbind :: "'a call \<Rightarrow> ('a \<Rightarrow> 'b call) \<Rightarrow> 'b call" where
  "cbind m f = (case m of None \<Rightarrow> None | Some (Inl e) \<Rightarrow> Some (Inl e) | Some (Inr x) \<Rightarrow> f x)"

lemma cbind_simps [simp]:
  "cbind None f = None" "cbind (Some (Inl e)) f = Some (Inl e)" "cbind (Some (Inr x)) f = f x"
  by (simp_all add: cbind_def)

lemma cbind_Inr: "cbind m f = Some (Inr y) \<longleftrightarrow> (\<exists>x. m = Some (Inr x) \<and> f x = Some (Inr y))"
  by (cases m; cases "the m") (auto simp: cbind_def split: sum.splits)

definition ret :: "'a \<Rightarrow> 'a call" where
  "ret x = Some (Inr x)"

definition ccheck :: "bool \<Rightarrow> unit call" where
  "ccheck b = Some (rassert b)"

lemma ret_inject [simp]: "ret x = ret y \<longleftrightarrow> x = y"
  by (simp add: ret_def)

lemma cbind_ret [simp]: "cbind (ret x) f = f x"
  by (simp add: ret_def)

end
