(* ===== verification/ObjectHashMap.thy ===== *)
theory ObjectHashMap
  imports Calls
begin

text \<open>
  The hash map from object addresses used by the wait lists (\<open>ObjectHashMap\<close> in
  \<open>dora/src/vm/waitlists.rs\<close>): open addressing with linear probing, keys 0 for empty and 1 for
  deleted slots, rehashing when the load or the garbage collector's epoch changes.  A probing loop
  that runs into no empty slot does not end; such a call has the value \<open>None\<close>.  The current epoch
  of the collector is an argument.
\<close>

subsection \<open>The map\<close>

type_synonym address = usize

definition MIN_CAPACITY :: usize where "MIN_CAPACITY = 8"
definition EMPTY :: usize where "EMPTY = 0"
definition DELETED :: usize where "DELETED = 1"

datatype 'v hash_map_entry = HashMapEntry (en_key: address) (en_value: 'v)

definition entry_default :: "'v::default hash_map_entry" where
  "entry_default = HashMapEntry 0 default"

record 'v object_map =
  om_data :: "'v hash_map_entry list"
  om_entries :: usize
  om_capacity :: usize
  om_gc_epoch :: usize

definition om_new :: "'v object_map" where
  "om_new = \<lparr>om_data = [], om_entries = 0, om_capacity = 0, om_gc_epoch = 0\<rparr>"

definition om_with_capacity :: "usize \<Rightarrow> usize \<Rightarrow> 'v::default object_map" where
  "om_with_capacity epoch capacity =
     \<lparr>om_data = replicate capacity entry_default, om_entries = 0, om_capacity = capacity, om_gc_epoch = epoch\<rparr>"

definition live_entry :: "'v hash_map_entry \<Rightarrow> bool" where
  "live_entry e = (DELETED < en_key e)"

definition deleted_entry :: "'v hash_map_entry \<Rightarrow> bool" where
  "deleted_entry e = (en_key e = DELETED)"

definition empty_entry :: "'v hash_map_entry \<Rightarrow> bool" where
  "empty_entry e = (en_key e = EMPTY)"

definition invalidated_by_gc :: "usize \<Rightarrow> 'v object_map \<Rightarrow> bool" where
  "invalidated_by_gc epoch m = (om_gc_epoch m \<noteq> epoch)"

definition overflow :: "'v object_map \<Rightarrow> bool" where
  "overflow m = (om_capacity m - om_capacity m div 4 < om_entries m + 1)"

definition underflow :: "'v object_map \<Rightarrow> bool" where
  "underflow m = (om_entries m < om_capacity m div 4)"

text \<open>The loop of \<open>capacity_for_entries\<close> starts at \<open>MIN_CAPACITY\<close>, so its capacity is positive.\<close>

function grow_capacity :: "usize \<Rightarrow> usize \<Rightarrow> usize" where
  "grow_capacity entries capacity =
     (if capacity - capacity div 4 < entries \<and> 0 < capacity
      then grow_capacity entries (capacity * 2) else capacity)"
  by pat_completeness auto
termination
  by (relation "measure (\<lambda>(entries, capacity). 2 * entries - capacity)") auto

declare grow_capacity.simps [simp del]

definition capacity_for_entries :: "usize \<Rightarrow> usize" where
  "capacity_for_entries entries = grow_capacity entries MIN_CAPACITY"

text \<open>\<open>hash & (capacity - 1)\<close>; the subtraction underflows for the empty map.\<close>

definition start_idx :: "'v object_map \<Rightarrow> address \<Rightarrow> usize call" where
  "start_idx m key =
     (if om_capacity m = 0 then Some (Inl ArithmeticOverflow) else ret (key AND (om_capacity m - 1)))"

definition next_idx :: "'v object_map \<Rightarrow> usize \<Rightarrow> usize" where
  "next_idx m idx = (idx + 1) AND (om_capacity m - 1)"

subsection \<open>Probing\<close>

partial_function (option) get_loop :: "'v object_map \<Rightarrow> address \<Rightarrow> usize \<Rightarrow> 'v option call" where
  "get_loop m key idx =
     (if length (om_data m) \<le> idx then Some (Inl IndexOutOfBounds)
      else if live_entry (om_data m ! idx) then
        (if en_key (om_data m ! idx) = key then Some (Inr (Some (en_value (om_data m ! idx))))
         else get_loop m key (next_idx m idx))
      else if deleted_entry (om_data m ! idx) then get_loop m key (next_idx m idx)
      else Some (Inr None))"

partial_function (option) insert_loop ::
  "address \<Rightarrow> 'v \<Rightarrow> 'v object_map \<Rightarrow> usize \<Rightarrow> usize option \<Rightarrow> 'v object_map call" where
  "insert_loop key v m idx insert_idx =
     (if length (om_data m) \<le> idx then Some (Inl IndexOutOfBounds)
      else if live_entry (om_data m ! idx) then
        (if en_key (om_data m ! idx) = key
         then Some (Inr (m\<lparr>om_data := (om_data m)[idx := HashMapEntry key v]\<rparr>))
         else insert_loop key v m (next_idx m idx) insert_idx)
      else if deleted_entry (om_data m ! idx) then
        insert_loop key v m (next_idx m idx) (if insert_idx = None then Some idx else insert_idx)
      else Some (Inr (m\<lparr>om_data := (om_data m)[(case insert_idx of Some i \<Rightarrow> i | None \<Rightarrow> idx) := HashMapEntry key v],
                        om_entries := om_entries m + 1\<rparr>)))"

text \<open>The value left behind in a deleted slot is uninitialised memory and never read.\<close>

partial_function (option) remove_loop ::
  "address \<Rightarrow> 'v object_map \<Rightarrow> usize \<Rightarrow> ('v option \<times> 'v object_map) call" where
  "remove_loop key m idx =
     (if length (om_data m) \<le> idx then Some (Inl IndexOutOfBounds)
      else if live_entry (om_data m ! idx) then
        (if key = en_key (om_data m ! idx)
         then Some (Inr (Some (en_value (om_data m ! idx)),
                m\<lparr>om_data := (om_data m)[idx := HashMapEntry DELETED (en_value (om_data m ! idx))],
                  om_entries := om_entries m - 1\<rparr>))
         else remove_loop key m (next_idx m idx))
      else if deleted_entry (om_data m ! idx) then remove_loop key m (next_idx m idx)
      else Some (Inr (None, m)))"

declare get_loop.simps [code] insert_loop.simps [code] remove_loop.simps [code]

subsection \<open>Operations\<close>

text \<open>\<open>rehash\<close> inserts the live entries into a new map; \<open>insert\<close> itself may rehash first.  The
  nesting is bounded by an argument, and two levels are shown to suffice.\<close>

fun reinsert ::
  "(address \<Rightarrow> 'v \<Rightarrow> 'v object_map \<Rightarrow> 'v object_map call) \<Rightarrow> 'v hash_map_entry list \<Rightarrow> 'v object_map \<Rightarrow>
   'v object_map call" where
  "reinsert ins [] m = ret m"
| "reinsert ins (e # es) m =
     (if live_entry e then cbind (ins (en_key e) (en_value e) m) (reinsert ins es) else reinsert ins es m)"

definition rehash_with ::
  "(address \<Rightarrow> 'v \<Rightarrow> 'v object_map \<Rightarrow> 'v object_map call) \<Rightarrow> usize \<Rightarrow> usize \<Rightarrow> 'v::default object_map \<Rightarrow>
   'v object_map call" where
  "rehash_with ins epoch new_capacity m = reinsert ins (om_data m) (om_with_capacity epoch new_capacity)"

primrec insert_nested :: "nat \<Rightarrow> usize \<Rightarrow> address \<Rightarrow> 'v \<Rightarrow> 'v::default object_map \<Rightarrow> 'v object_map call" where
  "insert_nested 0 epoch key v m = None"
| "insert_nested (Suc n) epoch key v m =
     cbind (if invalidated_by_gc epoch m \<or> overflow m
            then rehash_with (insert_nested n epoch) epoch (capacity_for_entries (om_entries m + 1)) m
            else ret m) (\<lambda>m.
     cbind (ccheck (om_entries m < om_capacity m)) (\<lambda>_.
     cbind (start_idx m key) (\<lambda>idx.
     insert_loop key v m idx None)))"

definition om_insert :: "usize \<Rightarrow> address \<Rightarrow> 'v \<Rightarrow> 'v::default object_map \<Rightarrow> 'v object_map call" where
  "om_insert = insert_nested 2"

definition rehash :: "usize \<Rightarrow> usize \<Rightarrow> 'v::default object_map \<Rightarrow> 'v object_map call" where
  "rehash epoch new_capacity m = rehash_with (om_insert epoch) epoch new_capacity m"

definition om_get :: "usize \<Rightarrow> address \<Rightarrow> 'v::default object_map \<Rightarrow> ('v option \<times> 'v object_map) call" where
  "om_get epoch key m =
     (if om_entries m = 0 then ret (None, m)
      else cbind (if invalidated_by_gc epoch m then rehash epoch (om_capacity m) m else ret m) (\<lambda>m.
           cbind (start_idx m key) (\<lambda>idx.
           cbind (get_loop m key idx) (\<lambda>v. ret (v, m)))))"

definition om_remove :: "usize \<Rightarrow> address \<Rightarrow> 'v::default object_map \<Rightarrow> ('v option \<times> 'v object_map) call" where
  "om_remove epoch key m =
     cbind (if invalidated_by_gc epoch m \<or> underflow m
            then rehash epoch (capacity_for_entries (om_entries m)) m else ret m) (\<lambda>m.
     cbind (start_idx m key) (\<lambda>idx.
     remove_loop key m idx))"

text \<open>\<open>visit_roots\<close> hands the slots of the live keys to the collector, which may move the objects.\<close>

definition om_visit_roots :: "(address \<Rightarrow> address) \<Rightarrow> 'v object_map \<Rightarrow> 'v object_map" where
  "om_visit_roots fct m =
     m\<lparr>om_data := map (\<lambda>e. if live_entry e then HashMapEntry (fct (en_key e)) (en_value e) else e) (om_data m)\<rparr>"

end
