(* ===== verification/ObjectHashMapProofs.thy ===== *)
theory ObjectHashMapProofs
  imports ObjectHashMap
begin

text \<open>
  Correctness of the address hash map.  \<open>om_lookup\<close> is the finite map a table stands for and
  \<open>om_wf\<close> its invariant: every live entry is reached from its hash over slots that are not empty.
  As long as a slot is empty every operation returns and does what it does on the finite map.
\<close>

subsection \<open>The finite map and the invariant\<close>

definition om_lookup :: "'v object_map \<Rightarrow> address \<Rightarrow> 'v option" where
  "om_lookup m k = map_option en_value (find (\<lambda>e. live_entry e \<and> en_key e = k) (om_data m))"

definition slot :: "'v object_map \<Rightarrow> address \<Rightarrow> nat \<Rightarrow> 'v hash_map_entry" where
  "slot m k j = om_data m ! ((k + j) mod om_capacity m)"

definition probed :: "'v object_map \<Rightarrow> address \<Rightarrow> usize \<Rightarrow> bool" where
  "probed m k i = (\<exists>j<om_capacity m. i = (k + j) mod om_capacity m \<and> (\<forall>j'<j. \<not> empty_entry (slot m k j')))"

definition has_empty :: "'v object_map \<Rightarrow> bool" where
  "has_empty m = list_ex empty_entry (om_data m)"

definition om_shape :: "'v object_map \<Rightarrow> bool" where
  "om_shape m = (length (om_data m) = om_capacity m \<and> (om_capacity m = 0 \<or> (\<exists>n\<ge>3. om_capacity m = 2 ^ n)))"

definition om_keys_ok :: "'v object_map \<Rightarrow> bool" where
  "om_keys_ok m = (\<forall>i<om_capacity m. live_entry (om_data m ! i) \<longrightarrow>
     probed m (en_key (om_data m ! i)) i
     \<and> (\<forall>j<om_capacity m. live_entry (om_data m ! j) \<longrightarrow> en_key (om_data m ! j) = en_key (om_data m ! i) \<longrightarrow> j = i))"

definition om_wf :: "'v object_map \<Rightarrow> bool" where
  "om_wf m = (om_shape m \<and> om_keys_ok m \<and> om_entries m = length (filter live_entry (om_data m))
     \<and> om_entries m \<le> om_capacity m - om_capacity m div 4)"

lemma entry_kinds:
  "live_entry e \<Longrightarrow> \<not> empty_entry e" "live_entry e \<Longrightarrow> \<not> deleted_entry e" "deleted_entry e \<Longrightarrow> \<not> empty_entry e"
  "\<not> live_entry e \<Longrightarrow> \<not> deleted_entry e \<Longrightarrow> empty_entry e"
  by (auto simp: live_entry_def empty_entry_def deleted_entry_def DELETED_def EMPTY_def)

lemma entry_kind_cases:
  "live_entry e \<and> \<not> deleted_entry e \<and> \<not> empty_entry e \<or> \<not> live_entry e \<and> deleted_entry e \<and> \<not> empty_entry e
   \<or> \<not> live_entry e \<and> \<not> deleted_entry e \<and> empty_entry e"
  using entry_kinds by blast

lemma om_new_wf: "om_wf om_new"
  by (simp add: om_wf_def om_shape_def om_keys_ok_def om_new_def)

lemma lookup_Some:
  assumes "om_shape m" and "om_keys_ok m"
  shows "om_lookup m k = Some v \<longleftrightarrow>
    (\<exists>i<om_capacity m. live_entry (om_data m ! i) \<and> en_key (om_data m ! i) = k \<and> en_value (om_data m ! i) = v)"
  (is "?l \<longleftrightarrow> ?r")
proof
  assume ?l
  then show ?r using assms(1) by (auto simp: om_lookup_def find_Some_iff om_shape_def)
next
  assume ?r
  then obtain i where i: "i < om_capacity m" "live_entry (om_data m ! i)" "en_key (om_data m ! i) = k"
    "en_value (om_data m ! i) = v" by blast
  then obtain e where e: "find (\<lambda>e. live_entry e \<and> en_key e = k) (om_data m) = Some e"
    using assms(1) unfolding om_shape_def
    by (cases "find (\<lambda>e. live_entry e \<and> en_key e = k) (om_data m)") (auto simp: find_None_iff)
  then obtain j where "j < om_capacity m" "live_entry (om_data m ! j)" "en_key (om_data m ! j) = k" "e = om_data m ! j"
    using assms(1) by (auto simp: find_Some_iff om_shape_def)
  with i assms(2) e show ?l unfolding om_keys_ok_def om_lookup_def by auto
qed

lemma lookup_None:
  assumes "om_shape m"
  shows "om_lookup m k = None \<longleftrightarrow> (\<forall>i<om_capacity m. live_entry (om_data m ! i) \<longrightarrow> en_key (om_data m ! i) \<noteq> k)"
  using assms by (auto simp: om_lookup_def find_None_iff om_shape_def in_set_conv_nth)

subsection \<open>Indices\<close>

lemma and_capacity:
  assumes "om_shape m" and "0 < om_capacity m"
  shows "a AND (om_capacity m - Suc 0) = a mod om_capacity m"
proof -
  obtain n where "om_capacity m = 2 ^ n" using assms by (auto simp: om_shape_def)
  then show ?thesis by (simp add: take_bit_eq_mod [symmetric] take_bit_eq_mask mask_eq_exp_minus_1)
qed

lemma start_idx_ok: "om_shape m \<Longrightarrow> 0 < om_capacity m \<Longrightarrow> start_idx m k = ret ((k + 0) mod om_capacity m)"
  by (simp add: start_idx_def and_capacity)

lemma next_idx_ok:
  "om_shape m \<Longrightarrow> 0 < om_capacity m \<Longrightarrow> next_idx m ((k + j) mod om_capacity m) = (k + Suc j) mod om_capacity m"
  by (simp add: next_idx_def and_capacity mod_Suc_eq)

text \<open>The first slot at which a search for a key stops.\<close>

definition stops :: "'v object_map \<Rightarrow> address \<Rightarrow> 'v hash_map_entry \<Rightarrow> bool" where
  "stops m k e = (empty_entry e \<or> live_entry e \<and> en_key e = k)"

definition stop_at :: "'v object_map \<Rightarrow> address \<Rightarrow> nat \<Rightarrow> bool" where
  "stop_at m k j = (j < om_capacity m \<and> stops m k (slot m k j) \<and> (\<forall>j'<j. \<not> stops m k (slot m k j')))"

lemma offset_of_index:
  fixes i c k :: nat
  assumes "i < c"
  shows "\<exists>j<c. (k + j) mod c = i"
proof (intro exI conjI)
  show "(i + (c - k mod c)) mod c < c" using assms by simp
  have "k mod c < c" using assms by simp
  then have "k mod c + (i + (c - k mod c)) = i + c" by linarith
  then have "(k mod c + (i + (c - k mod c))) mod c = i" using assms by (simp only: mod_add_self2 mod_less)
  then show "(k + (i + (c - k mod c)) mod c) mod c = i" by (simp add: mod_simps)
qed

lemma stop_exists:
  assumes "om_shape m" and "has_empty m"
  shows "\<exists>j. stop_at m k j"
proof -
  obtain i where i: "i < om_capacity m" "empty_entry (om_data m ! i)"
    using assms by (auto simp: has_empty_def om_shape_def list_ex_length)
  obtain j where "j < om_capacity m" "(k + j) mod om_capacity m = i" using offset_of_index [OF i(1)] by blast
  then have "j < om_capacity m \<and> stops m k (slot m k j)" using i by (simp add: stops_def slot_def)
  then have "\<exists>j. (j < om_capacity m \<and> stops m k (slot m k j)) \<and> (\<forall>j'<j. \<not> (j' < om_capacity m \<and> stops m k (slot m k j')))"
    using exists_least_iff [of "\<lambda>j. j < om_capacity m \<and> stops m k (slot m k j)"] by blast
  then show ?thesis unfolding stop_at_def by (meson less_trans)
qed

subsection \<open>Loops\<close>

text \<open>A loop that moves on from every slot at which the search for its key does not stop.\<close>

locale probe_loop =
  fixes m :: "'v object_map" and k :: address and loop :: "usize \<Rightarrow> 'r call"
  assumes moves_on: "\<And>idx. idx < length (om_data m) \<Longrightarrow> \<not> stops m k (om_data m ! idx) \<Longrightarrow> loop idx = loop (next_idx m idx)"
begin

lemma at_stop:
  assumes shape: "om_shape m" and stop: "stop_at m k j"
  shows "loop ((k + 0) mod om_capacity m) = loop ((k + j) mod om_capacity m)"
proof -
  have "i \<le> j \<Longrightarrow> loop ((k + 0) mod om_capacity m) = loop ((k + i) mod om_capacity m)" for i
  proof (induction i)
    case (Suc i)
    have cap: "0 < om_capacity m" using stop by (auto simp: stop_at_def)
    have "\<not> stops m k (slot m k i)" using stop Suc.prems by (simp add: stop_at_def)
    then have "loop ((k + i) mod om_capacity m) = loop (next_idx m ((k + i) mod om_capacity m))"
      using shape cap by (intro moves_on) (simp_all add: slot_def om_shape_def)
    with Suc next_idx_ok [OF shape cap] show ?case by simp
  qed simp
  then show ?thesis by simp
qed

end

interpretation getting: probe_loop m k "get_loop m k" for m k
  by unfold_locales (subst get_loop.simps, auto simp: stops_def dest: entry_kinds)

interpretation removing: probe_loop m k "remove_loop k m" for m k
  by unfold_locales (subst remove_loop.simps, auto simp: stops_def dest: entry_kinds)

text \<open>Where the search stops decides whether the key is there.\<close>

lemma stop_slot:
  assumes wf: "om_shape m" "om_keys_ok m" and stop: "stop_at m k j"
  shows "empty_entry (slot m k j) \<and> om_lookup m k = None
    \<or> live_entry (slot m k j) \<and> en_key (slot m k j) = k \<and> om_lookup m k = Some (en_value (slot m k j))"
proof -
  have j: "j < om_capacity m" "(k + j) mod om_capacity m < om_capacity m" using stop by (auto simp: stop_at_def)
  show ?thesis
  proof (cases "empty_entry (slot m k j)")
    case True
    have "om_lookup m k = None"
    proof (rule ccontr)
      assume "om_lookup m k \<noteq> None"
      then obtain i where i: "i < om_capacity m" "live_entry (om_data m ! i)" "en_key (om_data m ! i) = k"
        unfolding lookup_None [OF wf(1)] by blast
      then obtain j' where j': "j' < om_capacity m" "i = (k + j') mod om_capacity m" "\<forall>j''<j'. \<not> empty_entry (slot m k j'')"
        using wf(2) unfolding om_keys_ok_def probed_def by blast
      then have live: "stops m k (slot m k j')" "\<not> empty_entry (slot m k j')"
        using i entry_kinds by (auto simp: stops_def slot_def)
      then have "j \<le> j'" using stop unfolding stop_at_def by (meson not_le)
      with j'(3) True live(2) show False by (cases "j = j'") auto
    qed
    with True show ?thesis by simp
  next
    case False
    then have "live_entry (slot m k j)" "en_key (slot m k j) = k" using stop by (auto simp: stop_at_def stops_def)
    moreover from this have "om_lookup m k = Some (en_value (slot m k j))"
      unfolding lookup_Some [OF wf] slot_def using j(2) by blast
    ultimately show ?thesis by blast
  qed
qed

lemma get_loop_ok:
  assumes "om_shape m" "om_keys_ok m" "has_empty m"
  shows "get_loop m k ((k + 0) mod om_capacity m) = ret (om_lookup m k)"
proof -
  obtain j where j: "stop_at m k j" using stop_exists [OF assms(1,3)] by blast
  have i: "(k + j) mod om_capacity m < length (om_data m)" using j assms(1) by (auto simp: stop_at_def om_shape_def)
  have "get_loop m k ((k + j) mod om_capacity m) = ret (om_lookup m k)"
    using stop_slot [OF assms(1,2) j] i
    by (subst get_loop.simps) (auto simp: slot_def ret_def dest: entry_kinds)
  with getting.at_stop [OF assms(1) j] show ?thesis by simp
qed

subsection \<open>Changing one slot\<close>

lemma length_filter_update:
  assumes "i < length xs"
  shows "length (filter P (xs[i := x])) + of_bool (P (xs ! i)) = length (filter P xs) + of_bool (P x)"
proof -
  have "xs = take i xs @ xs ! i # drop (Suc i) xs" using assms by (rule id_take_nth_drop)
  then have "filter P xs = filter P (take i xs) @ filter P [xs ! i] @ filter P (drop (Suc i) xs)"
    by (metis append_Cons append_Nil filter_append)
  moreover have "filter P (xs[i := x]) = filter P (take i xs) @ filter P [x] @ filter P (drop (Suc i) xs)"
    using assms by (simp add: upd_conv_take_nth_drop)
  ultimately show ?thesis by simp
qed

text \<open>Slots that are in use stay in use, so everything stays reachable.\<close>

definition put :: "usize \<Rightarrow> 'v hash_map_entry \<Rightarrow> usize \<Rightarrow> 'v object_map \<Rightarrow> 'v object_map" where
  "put i e n m = m\<lparr>om_data := (om_data m)[i := e], om_entries := n\<rparr>"

lemma put_simps [simp]:
  "om_data (put i e n m) = (om_data m)[i := e]" "om_capacity (put i e n m) = om_capacity m"
  "om_entries (put i e n m) = n" "om_gc_epoch (put i e n m) = om_gc_epoch m"
  by (simp_all add: put_def)

lemma om_shape_put [simp]: "om_shape (put i e n m) = om_shape m"
  by (simp add: om_shape_def)

lemma slot_put: "om_shape m \<Longrightarrow> i < om_capacity m \<Longrightarrow>
    slot (put i e n m) k j = (if (k + j) mod om_capacity m = i then e else slot m k j)"
  by (simp add: slot_def om_shape_def nth_list_update)

lemma probed_put:
  assumes "om_shape m" "i < om_capacity m" "\<not> empty_entry e" "probed m k i'"
  shows "probed (put i e n m) k i'"
  using assms unfolding probed_def by (auto simp: slot_put split: if_splits)

lemma keys_ok_put_live:
  assumes wf: "om_shape m" "om_keys_ok m" and i: "i < om_capacity m" and e: "live_entry e"
    and reach: "probed m (en_key e) i"
    and new: "\<And>i'. i' < om_capacity m \<Longrightarrow> i' \<noteq> i \<Longrightarrow> live_entry (om_data m ! i') \<Longrightarrow> en_key (om_data m ! i') \<noteq> en_key e"
  shows "om_keys_ok (put i e n m)"
proof -
  have p: "probed m k i' \<Longrightarrow> probed (put i e n m) k i'" for k i'
    using probed_put [OF wf(1) i] entry_kinds(1) [OF e] by blast
  have at: "om_data (put i e n m) ! i' = (if i' = i then e else om_data m ! i')" if "i' < om_capacity m" for i'
    using that wf(1) i by (simp add: om_shape_def nth_list_update)
  have old: "\<And>i' j'. i' < om_capacity m \<Longrightarrow> j' < om_capacity m \<Longrightarrow> live_entry (om_data m ! i') \<Longrightarrow> live_entry (om_data m ! j')
      \<Longrightarrow> en_key (om_data m ! j') = en_key (om_data m ! i') \<Longrightarrow> j' = i'"
    and reached: "\<And>i'. i' < om_capacity m \<Longrightarrow> live_entry (om_data m ! i') \<Longrightarrow> probed m (en_key (om_data m ! i')) i'"
    using wf(2) unfolding om_keys_ok_def by blast+
  show ?thesis unfolding om_keys_ok_def put_simps(2)
  proof (intro allI impI conjI)
    fix i' assume i': "i' < om_capacity m" "live_entry (om_data (put i e n m) ! i')"
    then show "probed (put i e n m) (en_key (om_data (put i e n m) ! i')) i'"
      using at p reach reached by (simp split: if_splits)
    fix j' assume "j' < om_capacity m" "live_entry (om_data (put i e n m) ! j')"
      "en_key (om_data (put i e n m) ! j') = en_key (om_data (put i e n m) ! i')"
    with i' show "j' = i'" using at new old by (metis (no_types))
  qed
qed

lemma keys_ok_put_deleted:
  assumes wf: "om_shape m" "om_keys_ok m" and i: "i < om_capacity m" and e: "deleted_entry e"
  shows "om_keys_ok (put i e n m)"
proof -
  have p: "probed m k i' \<Longrightarrow> probed (put i e n m) k i'" for k i'
    using probed_put [OF wf(1) i] entry_kinds(3) [OF e] by blast
  have "\<not> live_entry e" using e entry_kinds by blast
  with wf i p show ?thesis unfolding om_keys_ok_def by (auto simp: om_shape_def nth_list_update)
qed

lemma lookup_put_live:
  assumes wf: "om_shape m" "om_keys_ok m" and i: "i < om_capacity m" "probed m k i" and k: "DELETED < k"
    and new: "live_entry (om_data m ! i) \<and> en_key (om_data m ! i) = k \<or> \<not> live_entry (om_data m ! i) \<and> om_lookup m k = None"
  shows "om_keys_ok (put i (HashMapEntry k v) n m)"
    and "om_lookup (put i (HashMapEntry k v) n m) = (om_lookup m)(k \<mapsto> v)"
proof -
  let ?m = "put i (HashMapEntry k v) n m"
  have other: "en_key (om_data m ! i') \<noteq> k" if "i' < om_capacity m" "i' \<noteq> i" "live_entry (om_data m ! i')" for i'
    using new that i(1) wf(2) unfolding lookup_None [OF wf(1)] om_keys_ok_def by blast
  show ok: "om_keys_ok ?m"
    using wf i k other by (intro keys_ok_put_live) (simp_all add: live_entry_def)
  have at: "om_data ?m ! i' = (if i' = i then HashMapEntry k v else om_data m ! i')" if "i' < om_capacity m" for i'
    using that wf(1) i by (simp add: om_shape_def nth_list_update)
  have shape: "om_shape ?m" using wf(1) by simp
  have "om_lookup ?m k' = Some v' \<longleftrightarrow> ((om_lookup m)(k \<mapsto> v)) k' = Some v'" for k' v'
  proof (cases "k' = k")
    case True
    have "live_entry (HashMapEntry k v)" using k by (simp add: live_entry_def)
    with True show ?thesis unfolding lookup_Some [OF shape ok] put_simps(2) using at i(1) other
      by (metis fun_upd_same hash_map_entry.sel option.inject)
  next
    case False
    then have "((om_lookup m)(k \<mapsto> v)) k' = Some v' \<longleftrightarrow> om_lookup m k' = Some v'" by simp
    also have "\<dots> \<longleftrightarrow> om_lookup ?m k' = Some v'"
      unfolding lookup_Some [OF shape ok] lookup_Some [OF wf] put_simps(2) using at i(1) new False
      by (metis hash_map_entry.sel(1))
    finally show ?thesis by simp
  qed
  then show "om_lookup ?m = (om_lookup m)(k \<mapsto> v)" by (intro ext) (metis option.exhaust)
qed

lemma lookup_put_deleted:
  assumes wf: "om_shape m" "om_keys_ok m" and i: "i < om_capacity m" "live_entry (om_data m ! i)" and e: "deleted_entry e"
  shows "om_lookup (put i e n m) = (om_lookup m)(en_key (om_data m ! i) := None)"
proof -
  let ?m = "put i e n m"
  have at: "om_data ?m ! i' = (if i' = i then e else om_data m ! i')" if "i' < om_capacity m" for i'
    using that wf(1) i by (simp add: om_shape_def nth_list_update)
  have ok: "om_shape ?m" "om_keys_ok ?m" using wf keys_ok_put_deleted [OF wf i(1) e] by simp_all
  have other: "en_key (om_data m ! i') \<noteq> en_key (om_data m ! i)"
    if "i' < om_capacity m" "i' \<noteq> i" "live_entry (om_data m ! i')" for i'
    using that i wf(2) unfolding om_keys_ok_def by blast
  have "\<not> live_entry e" using e entry_kinds by blast
  then have "om_lookup ?m k' = Some v' \<longleftrightarrow> om_lookup m k' = Some v' \<and> k' \<noteq> en_key (om_data m ! i)" for k' v'
    unfolding lookup_Some [OF ok] lookup_Some [OF wf] put_simps(2) using at other by metis
  then show ?thesis by (intro ext) (metis fun_upd_apply option.exhaust)
qed

subsection \<open>Insertion and removal in place\<close>

definition insert_idx_ok :: "'v object_map \<Rightarrow> address \<Rightarrow> nat \<Rightarrow> usize option \<Rightarrow> bool" where
  "insert_idx_ok m k i acc = (\<forall>a. acc = Some a \<longrightarrow> (\<exists>a'<i. a = (k + a') mod om_capacity m \<and> deleted_entry (slot m k a')))"

lemma insert_loop_cases:
  assumes "idx < length (om_data m)"
  shows "\<not> stops m k (om_data m ! idx) \<Longrightarrow> insert_loop k v m idx acc =
      insert_loop k v m (next_idx m idx) (if deleted_entry (om_data m ! idx) \<and> acc = None then Some idx else acc)"
    and "empty_entry (om_data m ! idx) \<Longrightarrow> insert_loop k v m idx acc =
      ret (put (case acc of Some i \<Rightarrow> i | None \<Rightarrow> idx) (HashMapEntry k v) (om_entries m + 1) m)"
    and "live_entry (om_data m ! idx) \<Longrightarrow> en_key (om_data m ! idx) = k \<Longrightarrow> insert_loop k v m idx acc =
      ret (put idx (HashMapEntry k v) (om_entries m) m)"
  using assms entry_kind_cases [of "om_data m ! idx"]
  by (elim disjE; simp add: insert_loop.simps [of k v m idx acc] stops_def ret_def put_def)+

lemma insert_loop_steps:
  assumes shape: "om_shape m" and stop: "stop_at m k j"
  shows "i \<le> j \<Longrightarrow> \<exists>acc. insert_idx_ok m k i acc
    \<and> insert_loop k v m ((k + 0) mod om_capacity m) None = insert_loop k v m ((k + i) mod om_capacity m) acc"
proof (induction i)
  case 0
  then show ?case by (intro exI [of _ None]) (simp add: insert_idx_ok_def)
next
  case (Suc i)
  then obtain acc where acc: "insert_idx_ok m k i acc"
    "insert_loop k v m ((k + 0) mod om_capacity m) None = insert_loop k v m ((k + i) mod om_capacity m) acc" by auto
  have cap: "0 < om_capacity m" using stop by (auto simp: stop_at_def)
  let ?i = "(k + i) mod om_capacity m"
  define acc' where "acc' = (if deleted_entry (om_data m ! ?i) \<and> acc = None then Some ?i else acc)"
  have "\<not> stops m k (slot m k i)" using stop Suc.prems by (simp add: stop_at_def)
  then have "insert_loop k v m ?i acc = insert_loop k v m ((k + Suc i) mod om_capacity m) acc'"
    using shape cap insert_loop_cases(1) [of ?i m k v acc]
    by (simp add: slot_def om_shape_def acc'_def next_idx_ok [OF shape cap] del: add_Suc_right)
  moreover have "insert_idx_ok m k (Suc i) acc'"
    using acc(1) unfolding insert_idx_ok_def acc'_def slot_def by (auto simp: less_Suc_eq)
  ultimately show ?case using acc(2) by metis
qed

lemma insert_loop_ok:
  assumes wf: "om_shape m" "om_keys_ok m" "has_empty m"
  shows "\<exists>i n. insert_loop k v m ((k + 0) mod om_capacity m) None = ret (put i (HashMapEntry k v) n m)
    \<and> i < om_capacity m \<and> probed m k i
    \<and> (live_entry (om_data m ! i) \<and> en_key (om_data m ! i) = k \<and> n = om_entries m
       \<or> \<not> live_entry (om_data m ! i) \<and> om_lookup m k = None \<and> n = om_entries m + 1)"
proof -
  obtain j where j: "stop_at m k j" using stop_exists [OF wf(1,3)] by blast
  obtain acc where acc: "insert_idx_ok m k j acc"
    "insert_loop k v m ((k + 0) mod om_capacity m) None = insert_loop k v m ((k + j) mod om_capacity m) acc"
    using insert_loop_steps [OF wf(1) j order_refl] by blast
  let ?j = "(k + j) mod om_capacity m"
  have bounds: "j < om_capacity m" "?j < om_capacity m" "length (om_data m) = om_capacity m"
    using j wf(1) by (auto simp: stop_at_def om_shape_def)
  have free: "\<forall>j'<j. \<not> empty_entry (slot m k j')" using j by (auto simp: stop_at_def stops_def)
  have probed: "probed m k ((k + a) mod om_capacity m)" if "a \<le> j" for a
    unfolding probed_def using that bounds(1) free by (intro exI [of _ a]) auto
  from stop_slot [OF wf(1,2) j] show ?thesis
  proof
    assume stop: "empty_entry (slot m k j) \<and> om_lookup m k = None"
    define i where "i = (case acc of Some a \<Rightarrow> a | None \<Rightarrow> ?j)"
    have "\<exists>a\<le>j. i = (k + a) mod om_capacity m \<and> \<not> live_entry (slot m k a)"
      using acc(1) stop unfolding i_def insert_idx_ok_def
      by (cases acc) (auto dest: entry_kinds intro: less_imp_le)
    then obtain a where a: "a \<le> j" "i = (k + a) mod om_capacity m" "\<not> live_entry (slot m k a)" by blast
    have "insert_loop k v m ?j acc = ret (put i (HashMapEntry k v) (om_entries m + 1) m)"
      using stop bounds insert_loop_cases(2) [of ?j m k v acc] by (simp add: slot_def i_def)
    with acc(2) a probed [OF a(1)] bounds stop show ?thesis
      by (intro exI [of _ i] exI [of _ "om_entries m + 1"]) (simp add: slot_def)
  next
    assume stop: "live_entry (slot m k j) \<and> en_key (slot m k j) = k \<and> om_lookup m k = Some (en_value (slot m k j))"
    have "insert_loop k v m ?j acc = ret (put ?j (HashMapEntry k v) (om_entries m) m)"
      using stop bounds insert_loop_cases(3) [of ?j m k v acc] by (simp add: slot_def)
    with acc(2) probed [OF order_refl] bounds stop show ?thesis
      unfolding slot_def by metis
  qed
qed

lemma remove_loop_ok:
  assumes wf: "om_shape m" "om_keys_ok m" "has_empty m"
  shows "om_lookup m k = None \<and> remove_loop k m ((k + 0) mod om_capacity m) = ret (None, m)
    \<or> (\<exists>i<om_capacity m. live_entry (om_data m ! i) \<and> en_key (om_data m ! i) = k
       \<and> om_lookup m k = Some (en_value (om_data m ! i))
       \<and> remove_loop k m ((k + 0) mod om_capacity m) = ret (Some (en_value (om_data m ! i)),
            put i (HashMapEntry DELETED (en_value (om_data m ! i))) (om_entries m - 1) m))"
proof -
  obtain j where j: "stop_at m k j" using stop_exists [OF wf(1,3)] by blast
  have at: "remove_loop k m ((k + 0) mod om_capacity m) = remove_loop k m ((k + j) mod om_capacity m)"
    using removing.at_stop [OF wf(1) j] .
  have bounds: "(k + j) mod om_capacity m < om_capacity m" "length (om_data m) = om_capacity m"
    using j wf(1) by (auto simp: stop_at_def om_shape_def)
  from stop_slot [OF wf(1,2) j] show ?thesis
  proof
    assume stop: "empty_entry (slot m k j) \<and> om_lookup m k = None"
    then have "remove_loop k m ((k + j) mod om_capacity m) = ret (None, m)"
      using bounds by (subst remove_loop.simps) (auto simp: slot_def ret_def dest: entry_kinds)
    with at stop show ?thesis by simp
  next
    let ?i = "(k + j) mod om_capacity m"
    assume stop: "live_entry (slot m k j) \<and> en_key (slot m k j) = k \<and> om_lookup m k = Some (en_value (slot m k j))"
    then have "remove_loop k m ?i = ret (Some (en_value (om_data m ! ?i)),
            put ?i (HashMapEntry DELETED (en_value (om_data m ! ?i))) (om_entries m - 1) m)"
      using bounds by (subst remove_loop.simps) (auto simp: slot_def ret_def put_def)
    with at stop bounds show ?thesis unfolding slot_def by metis
  qed
qed

end
