(* ===== verification/ObjectHashMapTheorems.thy ===== *)
theory ObjectHashMapTheorems
  imports ObjectHashMapProofs
begin

text \<open>
  The operations of the address hash map, rehashing included, as operations of a finite map:
  \<open>om_sound\<close> is what survives a garbage collection that moves the keys, \<open>om_usable\<close> what an operation
  needs in order to return.
\<close>

definition om_sound :: "'v object_map \<Rightarrow> bool" where
  "om_sound m = (om_shape m \<and> distinct (map en_key (filter live_entry (om_data m)))
     \<and> om_entries m = length (filter live_entry (om_data m))
     \<and> om_entries m \<le> om_capacity m - om_capacity m div 4)"

definition om_valid :: "usize \<Rightarrow> 'v object_map \<Rightarrow> bool" where
  "om_valid epoch m = (om_sound m \<and> (om_gc_epoch m = epoch \<longrightarrow> om_keys_ok m))"

definition om_usable :: "usize \<Rightarrow> 'v object_map \<Rightarrow> bool" where
  "om_usable epoch m = (om_valid epoch m \<and> (om_gc_epoch m = epoch \<longrightarrow> om_capacity m = 0 \<or> has_empty m))"

definition no_deleted :: "'v object_map \<Rightarrow> bool" where
  "no_deleted m = list_all (\<lambda>e. \<not> deleted_entry e) (om_data m)"

definition entries_map :: "'v hash_map_entry list \<Rightarrow> address \<Rightarrow> 'v option" where
  "entries_map es k = map_option en_value (find (\<lambda>e. live_entry e \<and> en_key e = k) es)"

lemma om_lookup_entries: "om_lookup m = entries_map (om_data m)"
  by (rule ext) (simp add: om_lookup_def entries_map_def)

lemma entries_map_simps [simp]:
  "entries_map [] = Map.empty"
  "entries_map (e # es) = (if live_entry e then (entries_map es)(en_key e \<mapsto> en_value e) else entries_map es)"
  by (auto simp: entries_map_def fun_eq_iff)

lemma dom_entries_map: "dom (entries_map es) = en_key ` set (filter live_entry es)"
  by (induction es) (simp_all add: set_eq_iff dom_def)

lemma wf_distinct:
  assumes "om_shape m" "om_keys_ok m"
  shows "distinct (map en_key (filter live_entry (om_data m)))"
proof -
  have "distinct (map en_key (filter live_entry es))"
    if "\<forall>i<length es. \<forall>j<length es. live_entry (es ! i) \<longrightarrow> live_entry (es ! j) \<longrightarrow> en_key (es ! j) = en_key (es ! i) \<longrightarrow> j = i"
    for es :: "'a hash_map_entry list"
    using that
  proof (induction es)
    case (Cons e es)
    have "\<forall>i<length es. \<forall>j<length es. live_entry (es ! i) \<longrightarrow> live_entry (es ! j) \<longrightarrow> en_key (es ! j) = en_key (es ! i) \<longrightarrow> j = i"
      using Cons.prems by (metis (no_types, lifting) Suc_less_eq length_Cons nat.inject nth_Cons_Suc)
    then have "distinct (map en_key (filter live_entry es))" by (rule Cons.IH)
    moreover have "en_key e \<notin> en_key ` set (filter live_entry es)" if "live_entry e"
    proof
      assume "en_key e \<in> en_key ` set (filter live_entry es)"
      then obtain i where "i < length es" "live_entry (es ! i)" "en_key (es ! i) = en_key e"
        by (auto simp: in_set_conv_nth)
      moreover from this(1) have "0 < length (e # es)" "Suc i < length (e # es)" by simp_all
      ultimately show False using Cons.prems that
        by (metis nat.distinct(1) nth_Cons_0 nth_Cons_Suc)
    qed
    ultimately show ?case by auto
  qed simp
  from this [of "om_data m"] assms show ?thesis unfolding om_keys_ok_def om_shape_def by metis
qed

lemma om_wf_sound: "om_wf m \<longleftrightarrow> om_sound m \<and> om_keys_ok m"
  using wf_distinct [of m] by (auto simp: om_wf_def om_sound_def)

lemma om_usable_wf: "om_usable epoch m \<Longrightarrow> om_gc_epoch m = epoch \<Longrightarrow> om_wf m \<and> (om_capacity m = 0 \<or> has_empty m)"
  by (simp add: om_usable_def om_valid_def om_wf_sound)

lemma om_wf_valid: "om_wf m \<Longrightarrow> om_valid epoch m"
  by (simp add: om_valid_def om_wf_sound)

lemma no_deleted_has_empty:
  assumes "om_wf m" "no_deleted m" "om_entries m < om_capacity m"
  shows "has_empty m"
proof (rule ccontr)
  assume "\<not> has_empty m"
  then have "\<forall>e\<in>set (om_data m). live_entry e"
    using assms(2) entry_kinds(4) unfolding has_empty_def no_deleted_def list_ex_iff list_all_iff by blast
  then have "filter live_entry (om_data m) = om_data m" by (simp add: filter_id_conv)
  with assms show False by (simp add: om_wf_def om_shape_def)
qed

subsection \<open>Insertion without rehashing\<close>

lemma insert_in_place:
  assumes wf: "om_wf m" "has_empty m" and k: "DELETED < k" and epoch: "om_gc_epoch m = epoch"
    and room: "om_entries m + 1 \<le> om_capacity m - om_capacity m div 4"
  shows "\<exists>i e n. insert_nested (Suc d) epoch k v m = ret (put i e n m) \<and> i < om_capacity m \<and> live_entry e
    \<and> om_wf (put i e n m) \<and> om_lookup (put i e n m) = (om_lookup m)(k \<mapsto> v)
    \<and> n = (if om_lookup m k = None then om_entries m + 1 else om_entries m)"
proof -
  have shape: "om_shape m" "om_keys_ok m" using wf(1) by (simp_all add: om_wf_def)
  have cap: "0 < om_capacity m" using room by simp
  obtain i n where i: "insert_loop k v m ((k + 0) mod om_capacity m) None = ret (put i (HashMapEntry k v) n m)"
    "i < om_capacity m" "probed m k i"
    and slot: "live_entry (om_data m ! i) \<and> en_key (om_data m ! i) = k \<and> n = om_entries m
       \<or> \<not> live_entry (om_data m ! i) \<and> om_lookup m k = None \<and> n = om_entries m + 1"
    using insert_loop_ok [OF shape wf(2), of k v] by blast
  let ?e = "HashMapEntry k v" let ?m = "put i ?e n m"
  have live: "live_entry ?e" using k by (simp add: live_entry_def)
  have "insert_nested (Suc d) epoch k v m = ret ?m"
    using i(1) room cap epoch start_idx_ok [OF shape(1) cap, of k]
    by (simp add: invalidated_by_gc_def overflow_def ccheck_def ret_def rassert_def)
  moreover have new: "live_entry (om_data m ! i) \<and> en_key (om_data m ! i) = k \<or> \<not> live_entry (om_data m ! i) \<and> om_lookup m k = None"
    using slot by blast
  moreover have "om_keys_ok ?m" "om_lookup ?m = (om_lookup m)(k \<mapsto> v)"
    using lookup_put_live [OF shape i(2,3) k new] by blast+
  moreover have "n = (if om_lookup m k = None then om_entries m + 1 else om_entries m)"
    using slot i(2) lookup_None [OF shape(1)] by auto
  moreover have "om_wf ?m"
  proof -
    have "length (filter live_entry ((om_data m)[i := ?e])) + of_bool (live_entry (om_data m ! i))
        = length (filter live_entry (om_data m)) + of_bool (live_entry ?e)"
      using i(2) shape(1) by (intro length_filter_update) (simp add: om_shape_def)
    then have "n = length (filter live_entry ((om_data m)[i := ?e]))"
      using slot live wf(1) by (auto simp: om_wf_def)
    with \<open>om_keys_ok ?m\<close> shape(1) slot room wf(1) show ?thesis by (auto simp: om_wf_def)
  qed
  ultimately show ?thesis using i(2) live by blast
qed

declare insert_nested.simps(2) [simp del]

subsection \<open>Rehashing\<close>

lemma no_deleted_put: "no_deleted m \<Longrightarrow> live_entry e \<Longrightarrow> no_deleted (put i e n m)"
  using entry_kinds(2) set_update_subset_insert [of "om_data m" i e]
  by (fastforce simp: no_deleted_def list_all_iff)

lemma reinsert_ok:
  assumes "om_wf m" "no_deleted m" "om_gc_epoch m = epoch"
    and "distinct (map en_key (filter live_entry es))" "dom (entries_map es) \<inter> dom (om_lookup m) = {}"
    and "om_entries m + length (filter live_entry es) \<le> om_capacity m - om_capacity m div 4"
  shows "\<exists>m'. reinsert (insert_nested (Suc d) epoch) es m = ret m' \<and> om_wf m' \<and> no_deleted m'
    \<and> om_capacity m' = om_capacity m \<and> om_gc_epoch m' = epoch
    \<and> om_entries m' = om_entries m + length (filter live_entry es) \<and> om_lookup m' = om_lookup m ++ entries_map es"
  using assms
proof (induction es arbitrary: m)
  case (Cons e es)
  show ?case
  proof (cases "live_entry e")
    case True
    have small: "om_entries m < om_capacity m" and room: "om_entries m + 1 \<le> om_capacity m - om_capacity m div 4"
      using Cons.prems(6) True by simp_all
    have new: "om_lookup m (en_key e) = None" using Cons.prems(5) True by auto
    have "DELETED < en_key e" using True by (simp add: live_entry_def)
    from insert_in_place [OF Cons.prems(1) no_deleted_has_empty [OF Cons.prems(1,2) small] this Cons.prems(3) room, of d "en_value e"]
    obtain i e' n where ins: "insert_nested (Suc d) epoch (en_key e) (en_value e) m = ret (put i e' n m)" "live_entry e'"
      "om_wf (put i e' n m)" "om_lookup (put i e' n m) = (om_lookup m)(en_key e \<mapsto> en_value e)" "n = om_entries m + 1"
      by (simp only: new simp_thms if_True) blast
    have key: "en_key e \<notin> dom (entries_map es)" "distinct (map en_key (filter live_entry es))"
      using Cons.prems(4) True by (simp_all add: dom_entries_map)
    have disj: "dom (entries_map es) \<inter> dom (om_lookup (put i e' n m)) = {}"
      using Cons.prems(5) True key(1) unfolding ins(4) dom_entries_map by auto
    obtain m' where m': "reinsert (insert_nested (Suc d) epoch) es (put i e' n m) = ret m'" "om_wf m'" "no_deleted m'"
      "om_capacity m' = om_capacity m" "om_gc_epoch m' = epoch"
      "om_entries m' = om_entries m + 1 + length (filter live_entry es)"
      "om_lookup m' = (om_lookup m)(en_key e \<mapsto> en_value e) ++ entries_map es"
      using Cons.IH [OF ins(3) no_deleted_put [OF Cons.prems(2) ins(2)] _ key(2) disj] Cons.prems(3,6) True ins(4,5) by auto
    have "om_lookup m' = om_lookup m ++ entries_map (e # es)"
      using m'(7) True key(1) by (simp add: map_add_upd_left)
    with m' ins(1) True show ?thesis by (intro exI [of _ m']) (simp add: ret_def del: entries_map_simps)
  next
    case False
    with Cons show ?thesis by simp
  qed
qed (simp add: ret_def)

lemma with_capacity_ok:
  assumes "3 \<le> n" "c = 2 ^ n"
  shows "om_wf (om_with_capacity epoch c)" "no_deleted (om_with_capacity epoch c)" "om_lookup (om_with_capacity epoch c) = Map.empty"
  using assms
  by (auto simp: om_wf_def om_shape_def om_keys_ok_def om_with_capacity_def live_entry_def entry_default_def
      no_deleted_def deleted_entry_def DELETED_def list_all_iff om_lookup_def find_None_iff fun_eq_iff)

lemma rehash_with_ok:
  assumes sound: "om_sound m" and cap: "3 \<le> n" "c = 2 ^ n" and room: "om_entries m \<le> c - c div 4"
  shows "\<exists>m'. rehash_with (insert_nested (Suc d) epoch) epoch c m = ret m' \<and> om_wf m' \<and> has_empty m'
    \<and> om_capacity m' = c \<and> om_gc_epoch m' = epoch \<and> om_entries m' = om_entries m \<and> om_lookup m' = om_lookup m"
proof -
  let ?m = "om_with_capacity epoch c :: 'a object_map"
  note new = with_capacity_ok [OF cap, of epoch]
  have fields: "om_capacity ?m = c" "om_entries ?m = 0" "om_gc_epoch ?m = epoch" by (simp_all add: om_with_capacity_def)
  have "8 \<le> c" using cap power_increasing [of 3 n "2 :: nat"] by simp
  obtain m' where m': "reinsert (insert_nested (Suc d) epoch) (om_data m) ?m = ret m'" "om_wf m'" "no_deleted m'"
    "om_capacity m' = c" "om_gc_epoch m' = epoch" "om_entries m' = om_entries m" "om_lookup m' = om_lookup m"
    using reinsert_ok [OF new(1,2) fields(3), of "om_data m" d] sound room
    by (simp add: new(3) fields om_sound_def om_lookup_entries [of m]) blast
  moreover have "has_empty m'"
    using m' room \<open>8 \<le> c\<close> by (intro no_deleted_has_empty) auto
  ultimately show ?thesis unfolding rehash_with_def by blast
qed

lemma grow_capacity_ok:
  "3 \<le> n \<Longrightarrow> c = 2 ^ n \<Longrightarrow> \<exists>n'\<ge>3. grow_capacity entries c = 2 ^ n' \<and> entries \<le> 2 ^ n' - 2 ^ n' div 4"
proof (induction entries c arbitrary: n rule: grow_capacity.induct)
  case (1 entries c)
  show ?case
  proof (cases "c - c div 4 < entries \<and> 0 < c")
    case True
    from 1(1) [OF True, of "Suc n"] 1(2,3) True show ?thesis by (subst grow_capacity.simps) simp
  next
    case False
    with 1(2,3) show ?thesis by (subst grow_capacity.simps) auto
  qed
qed

lemma capacity_for_entries_ok:
  "\<exists>n\<ge>3. capacity_for_entries entries = 2 ^ n \<and> entries \<le> capacity_for_entries entries - capacity_for_entries entries div 4"
  using grow_capacity_ok [of 3 8 entries] by (auto simp: capacity_for_entries_def MIN_CAPACITY_def)

subsection \<open>The operations\<close>

lemma om_insert_refines:
  assumes usable: "om_usable epoch m" and k: "DELETED < k"
  shows "\<exists>m'. om_insert epoch k v m = ret m' \<and> om_valid epoch m' \<and> om_gc_epoch m' = epoch \<and> om_lookup m' = (om_lookup m)(k \<mapsto> v)"
proof -
  have insert: "\<exists>m'. insert_nested (Suc 1) epoch k v m0 = ret m' \<and> om_valid epoch m' \<and> om_gc_epoch m' = epoch
      \<and> om_lookup m' = (om_lookup m0)(k \<mapsto> v)"
    if "om_wf m0" "has_empty m0" "om_gc_epoch m0 = epoch" "om_entries m0 + 1 \<le> om_capacity m0 - om_capacity m0 div 4" for m0
    using insert_in_place [OF that(1,2) k that(3,4), of 1 v] om_wf_valid that(3) by fastforce
  have sound: "om_sound m" using usable by (simp add: om_usable_def om_valid_def)
  show ?thesis
  proof (cases "invalidated_by_gc epoch m \<or> overflow m")
    case True
    obtain n where n: "3 \<le> n" "capacity_for_entries (om_entries m + 1) = 2 ^ n"
      and room: "om_entries m + 1 \<le> capacity_for_entries (om_entries m + 1) - capacity_for_entries (om_entries m + 1) div 4"
      using capacity_for_entries_ok by blast
    from rehash_with_ok [OF sound n, of 0 epoch] room
    obtain m0 where m0: "rehash_with (insert_nested (Suc 0) epoch) epoch (capacity_for_entries (om_entries m + 1)) m = ret m0"
      "om_wf m0" "has_empty m0" "om_capacity m0 = capacity_for_entries (om_entries m + 1)" "om_gc_epoch m0 = epoch"
      "om_entries m0 = om_entries m" "om_lookup m0 = om_lookup m" by auto
    have ok: "om_entries m0 + 1 \<le> om_capacity m0 - om_capacity m0 div 4" using m0 room by simp
    have "om_insert epoch k v m = insert_nested (Suc 1) epoch k v m0"
      using True m0(1,5) ok
      by (simp add: om_insert_def numeral_2_eq_2 insert_nested.simps(2) ret_def invalidated_by_gc_def overflow_def)
    with insert [OF m0(2,3,5) ok] m0(7) show ?thesis by simp
  next
    case False
    then have "om_wf m" "has_empty m" "om_gc_epoch m = epoch" "om_entries m + 1 \<le> om_capacity m - om_capacity m div 4"
      using om_usable_wf [OF usable] by (auto simp: invalidated_by_gc_def overflow_def)
    from insert [OF this] show ?thesis by (simp add: om_insert_def numeral_2_eq_2)
  qed
qed

lemma rehash_ok:
  assumes "om_sound m" and "3 \<le> n" "c = 2 ^ n" and "om_entries m \<le> c - c div 4"
  shows "\<exists>m'. rehash epoch c m = ret m' \<and> om_wf m' \<and> has_empty m' \<and> 0 < om_capacity m'
    \<and> om_gc_epoch m' = epoch \<and> om_lookup m' = om_lookup m"
  using rehash_with_ok [OF assms, of 1 epoch] assms by (auto simp: rehash_def om_insert_def numeral_2_eq_2)

lemma om_get_refines:
  assumes usable: "om_usable epoch m"
  shows "\<exists>m'. om_get epoch k m = ret (om_lookup m k, m') \<and> om_usable epoch m' \<and> om_lookup m' = om_lookup m"
proof (cases "om_entries m = 0")
  case True
  then have "om_lookup m k = None"
    using usable unfolding om_usable_def om_valid_def om_sound_def om_lookup_def
    by (auto simp: find_None_iff filter_empty_conv)
  with True usable show ?thesis by (auto simp: om_get_def)
next
  case False
  have sound: "om_sound m" using usable by (simp add: om_usable_def om_valid_def)
  have get: "om_get epoch k m = ret (om_lookup m0 k, m0)"
    if "(if invalidated_by_gc epoch m then rehash epoch (om_capacity m) m else ret m) = ret m0"
      "om_wf m0" "has_empty m0" "0 < om_capacity m0" for m0
    using that False get_loop_ok [of m0 k] start_idx_ok [of m0 k]
    by (simp add: om_get_def ret_def om_wf_def)
  show ?thesis
  proof (cases "invalidated_by_gc epoch m")
    case True
    have "\<exists>n\<ge>3. om_capacity m = 2 ^ n" using sound False by (auto simp: om_sound_def om_shape_def)
    with rehash_ok [OF sound, of _ "om_capacity m" epoch] sound obtain m' where
      m': "rehash epoch (om_capacity m) m = ret m'" "om_wf m'" "has_empty m'" "0 < om_capacity m'"
      "om_gc_epoch m' = epoch" "om_lookup m' = om_lookup m" unfolding om_sound_def by blast
    with get [of m'] True show ?thesis by (auto simp: om_usable_def om_wf_valid)
  next
    case current: False
    then have "om_wf m" "om_capacity m = 0 \<or> has_empty m"
      using om_usable_wf [OF usable] by (auto simp: invalidated_by_gc_def)
    moreover from this False have "0 < om_capacity m" by (cases "om_capacity m") (auto simp: om_wf_def)
    ultimately show ?thesis using get [of m] usable current by auto
  qed
qed

lemma remove_in_place:
  assumes wf: "om_wf m" "has_empty m"
  shows "\<exists>m'. remove_loop k m ((k + 0) mod om_capacity m) = ret (om_lookup m k, m') \<and> om_wf m'
    \<and> om_gc_epoch m' = om_gc_epoch m \<and> om_lookup m' = (om_lookup m)(k := None)"
proof -
  have shape: "om_shape m" "om_keys_ok m" using wf(1) by (simp_all add: om_wf_def)
  from remove_loop_ok [OF shape wf(2), of k] show ?thesis
  proof
    assume "om_lookup m k = None \<and> remove_loop k m ((k + 0) mod om_capacity m) = ret (None, m)"
    with wf(1) show ?thesis by (intro exI [of _ m]) (auto simp: fun_eq_iff)
  next
    assume "\<exists>i<om_capacity m. live_entry (om_data m ! i) \<and> en_key (om_data m ! i) = k
       \<and> om_lookup m k = Some (en_value (om_data m ! i))
       \<and> remove_loop k m ((k + 0) mod om_capacity m) = ret (Some (en_value (om_data m ! i)),
            put i (HashMapEntry DELETED (en_value (om_data m ! i))) (om_entries m - 1) m)"
    then obtain i where i: "i < om_capacity m" "live_entry (om_data m ! i)" "en_key (om_data m ! i) = k"
      "om_lookup m k = Some (en_value (om_data m ! i))"
      "remove_loop k m ((k + 0) mod om_capacity m) = ret (Some (en_value (om_data m ! i)),
            put i (HashMapEntry DELETED (en_value (om_data m ! i))) (om_entries m - 1) m)" by blast
    let ?e = "HashMapEntry DELETED (en_value (om_data m ! i))" let ?m = "put i ?e (om_entries m - 1) m"
    have e: "deleted_entry ?e" "\<not> live_entry ?e" by (simp_all add: deleted_entry_def live_entry_def)
    have "length (filter live_entry ((om_data m)[i := ?e])) + of_bool (live_entry (om_data m ! i))
        = length (filter live_entry (om_data m)) + of_bool (live_entry ?e)"
      using i(1) shape(1) by (intro length_filter_update) (simp add: om_shape_def)
    then have "om_wf ?m"
      using keys_ok_put_deleted [OF shape i(1) e(1)] shape(1) wf(1) i(2) e(2) by (auto simp: om_wf_def)
    with i lookup_put_deleted [OF shape i(1,2) e(1)] show ?thesis by auto
  qed
qed

lemma om_remove_refines:
  assumes usable: "om_usable epoch m" and used: "0 < om_capacity m \<or> om_gc_epoch m \<noteq> epoch"
  shows "\<exists>m'. om_remove epoch k m = ret (om_lookup m k, m') \<and> om_valid epoch m' \<and> om_gc_epoch m' = epoch
    \<and> om_lookup m' = (om_lookup m)(k := None)"
proof -
  have sound: "om_sound m" using usable by (simp add: om_usable_def om_valid_def)
  have "\<exists>m0. (if invalidated_by_gc epoch m \<or> underflow m
            then rehash epoch (capacity_for_entries (om_entries m)) m else ret m) = ret m0
       \<and> om_wf m0 \<and> has_empty m0 \<and> 0 < om_capacity m0 \<and> om_gc_epoch m0 = epoch \<and> om_lookup m0 = om_lookup m"
  proof (cases "invalidated_by_gc epoch m \<or> underflow m")
    case True
    then show ?thesis
      using rehash_ok [OF sound, of _ "capacity_for_entries (om_entries m)" epoch] capacity_for_entries_ok [of "om_entries m"]
      by (metis (no_types, lifting))
  next
    case False
    with om_usable_wf [OF usable] used show ?thesis by (auto simp: invalidated_by_gc_def)
  qed
  then obtain m0 where m0: "(if invalidated_by_gc epoch m \<or> underflow m
            then rehash epoch (capacity_for_entries (om_entries m)) m else ret m) = ret m0"
       "om_wf m0" "has_empty m0" "0 < om_capacity m0" "om_gc_epoch m0 = epoch" "om_lookup m0 = om_lookup m" by blast
  then have "om_remove epoch k m = remove_loop k m0 ((k + 0) mod om_capacity m0)"
    using start_idx_ok [of m0 k] by (simp add: om_remove_def ret_def om_wf_def)
  with remove_in_place [OF m0(2,3), of k] m0(5,6) om_wf_valid show ?thesis by auto
qed

lemma om_remove_present:
  assumes "om_usable epoch m" and "om_lookup m k \<noteq> None"
  shows "\<exists>m'. om_remove epoch k m = ret (om_lookup m k, m') \<and> om_valid epoch m' \<and> om_lookup m' = (om_lookup m)(k := None)"
proof -
  have "om_shape m" using assms(1) by (simp add: om_usable_def om_valid_def om_sound_def)
  with assms(2) have "0 < om_capacity m" by (auto simp: lookup_None)
  with om_remove_refines [OF assms(1), of k] show ?thesis by blast
qed

text \<open>What a client of the table relies on.\<close>

locale address_map =
  fixes get_op :: "usize \<Rightarrow> address \<Rightarrow> 'm \<Rightarrow> ('v option \<times> 'm) call"
    and insert_op :: "usize \<Rightarrow> address \<Rightarrow> 'v \<Rightarrow> 'm \<Rightarrow> 'm call"
    and remove_op :: "usize \<Rightarrow> address \<Rightarrow> 'm \<Rightarrow> ('v option \<times> 'm) call"
    and lookup :: "'m \<Rightarrow> address \<Rightarrow> 'v option"
    and usable :: "usize \<Rightarrow> 'm \<Rightarrow> bool"
    and valid :: "usize \<Rightarrow> 'm \<Rightarrow> bool"
  assumes get_law: "usable epoch m \<Longrightarrow>
      \<exists>m'. get_op epoch k m = ret (lookup m k, m') \<and> usable epoch m' \<and> lookup m' = lookup m"
    and insert_law: "usable epoch m \<Longrightarrow> DELETED < k \<Longrightarrow>
      \<exists>m'. insert_op epoch k v m = ret m' \<and> valid epoch m' \<and> lookup m' = (lookup m)(k \<mapsto> v)"
    and remove_law: "usable epoch m \<Longrightarrow> lookup m k \<noteq> None \<Longrightarrow>
      \<exists>m'. remove_op epoch k m = ret (lookup m k, m') \<and> valid epoch m' \<and> lookup m' = (lookup m)(k := None)"
begin

lemma get_then_insert:
  assumes "usable epoch m" and "DELETED < k"
  shows "\<exists>m1. get_op epoch k m = ret (lookup m k, m1)
    \<and> (\<forall>v. \<exists>m2. insert_op epoch k v m1 = ret m2 \<and> valid epoch m2 \<and> lookup m2 = (lookup m)(k \<mapsto> v))"
  using get_law [OF assms(1), of k] insert_law [OF _ assms(2), of epoch] by metis

lemma get_then_remove:
  assumes "usable epoch m" and "lookup m k \<noteq> None"
  shows "\<exists>m1 m2. get_op epoch k m = ret (lookup m k, m1)
    \<and> remove_op epoch k m1 = ret (lookup m k, m2) \<and> valid epoch m2 \<and> lookup m2 = (lookup m)(k := None)"
  using get_law [OF assms(1), of k] remove_law [of epoch _ k] assms(2) by metis

end

interpretation table: address_map om_get om_insert om_remove om_lookup om_usable om_valid
proof unfold_locales
  fix epoch and m :: "'a :: default object_map" and k v
  assume usable: "om_usable epoch m"
  then show "\<exists>m'. om_get epoch k m = ret (om_lookup m k, m') \<and> om_usable epoch m' \<and> om_lookup m' = om_lookup m"
    by (rule om_get_refines)
  show "\<exists>m'. om_insert epoch k v m = ret m' \<and> om_valid epoch m' \<and> om_lookup m' = (om_lookup m)(k \<mapsto> v)" if "DELETED < k"
    using om_insert_refines [OF usable that] by blast
  show "\<exists>m'. om_remove epoch k m = ret (om_lookup m k, m') \<and> om_valid epoch m' \<and> om_lookup m' = (om_lookup m)(k := None)"
    if "om_lookup m k \<noteq> None"
    using om_remove_present [OF usable that] .
qed

subsection \<open>Properties\<close>

text \<open>Insertions (\<open>Inl\<close>) and removals (\<open>Inr\<close>) one after the other.\<close>

fun run_script :: "usize \<Rightarrow> (address + address) list \<Rightarrow> unit object_map \<Rightarrow> unit object_map call" where
  "run_script epoch [] m = ret m"
| "run_script epoch (Inl k # ops) m = cbind (om_insert epoch k () m) (run_script epoch ops)"
| "run_script epoch (Inr k # ops) m = cbind (om_remove epoch k m) (\<lambda>(_, m). run_script epoch ops m)"

text \<open>C12.  As long as a slot is empty (or the table has never been used, or has to be rehashed
  anyway), \<open>get\<close>, \<open>insert\<close> and \<open>remove\<close> return without an error (\<open>remove\<close> if the table has been used
  before) and do to the finite map the table stands for what their names say; rehashing in between, for the load or because the collector ran,
  is not observable.\<close>

theorem object_map_refines_finite_map:
  assumes "om_usable epoch m" and "DELETED < k"
  shows "(\<exists>m'. om_get epoch k m = ret (om_lookup m k, m') \<and> om_usable epoch m' \<and> om_lookup m' = om_lookup m)
    \<and> (\<exists>m'. om_insert epoch k v m = ret m' \<and> om_valid epoch m' \<and> om_lookup m' = (om_lookup m)(k \<mapsto> v))
    \<and> (0 < om_capacity m \<or> om_gc_epoch m \<noteq> epoch \<longrightarrow>
       (\<exists>m'. om_remove epoch k m = ret (om_lookup m k, m') \<and> om_valid epoch m' \<and> om_lookup m' = (om_lookup m)(k := None)))"
  using om_get_refines [OF assms(1)] om_insert_refines [OF assms] om_remove_refines [OF assms(1)] by blast

definition demo_map :: "unit object_map" where
  "demo_map = \<lparr>om_data = map (\<lambda>k. HashMapEntry k ()) [16, 1, 48, 0, 0, 0, 0, 0], om_entries = 2, om_capacity = 8, om_gc_epoch = 0\<rparr>"

lemma run_demo_script: "run_script 0 [Inl 16, Inl 32, Inl 48, Inr 32] om_new = ret demo_map"
  by code_simp

lemma demo_map_usable: "om_usable 0 demo_map"
proof -
  have "om_shape demo_map" by (auto simp: om_shape_def demo_map_def intro!: exI [of _ 3])
  moreover have "om_keys_ok demo_map"
  proof -
    have live: "i = 0 \<or> i = 2" if "i < om_capacity demo_map" "live_entry (om_data demo_map ! i)" for i
    proof -
      have "i \<in> {0, 1, 2, 3, 4, 5, 6, 7}" using that(1) by (auto simp: demo_map_def)
      with that(2) show ?thesis by (auto simp: demo_map_def live_entry_def DELETED_def)
    qed
    have keys: "en_key (om_data demo_map ! 0) = 16" "en_key (om_data demo_map ! 2) = 48" by (simp_all add: demo_map_def)
    have "probed demo_map 16 0"
      unfolding probed_def by (rule exI [of _ 0]) (simp add: demo_map_def)
    moreover have "probed demo_map 48 2"
      unfolding probed_def by (rule exI [of _ 2])
        (auto simp: demo_map_def slot_def empty_entry_def EMPTY_def less_Suc_eq numeral_2_eq_2)
    ultimately show ?thesis using keys live unfolding om_keys_ok_def by (auto dest!: live)
  qed
  moreover have "has_empty demo_map" by code_simp
  ultimately show ?thesis
    by (simp add: om_usable_def om_valid_def om_sound_def)
      (simp add: demo_map_def live_entry_def DELETED_def)
qed

theorem object_map_refines_finite_map_witness:
  "om_usable 0 demo_map \<and> (\<exists>m'. om_get 0 48 demo_map = ret (Some (), m'))
     \<and> (\<exists>m'. om_insert 0 32 () demo_map = ret m' \<and> om_lookup m' 32 = Some ())
     \<and> (\<exists>m'. om_remove 0 48 demo_map = ret (Some (), m') \<and> om_lookup m' 48 = None)"
proof -
  have "om_lookup demo_map 48 = Some ()" "0 < om_capacity demo_map" by code_simp+
  with object_map_refines_finite_map [OF demo_map_usable, of 48 "()"] object_map_refines_finite_map [OF demo_map_usable, of 32 "()"]
    demo_map_usable
  show ?thesis by (auto simp: DELETED_def)
qed

text \<open>The collector hands every live key to its visitor; the moved keys are found again because the
  epoch has changed.\<close>

lemma visit_roots_lookup:
  assumes "inj_on f (insert k (en_key ` set (filter live_entry es)))" "\<And>a. DELETED < a \<Longrightarrow> DELETED < f a"
  shows "entries_map (map (\<lambda>e. if live_entry e then HashMapEntry (f (en_key e)) (en_value e) else e) es) (f k) = entries_map es k"
  using assms
proof (induction es)
  case (Cons e es)
  have inj: "inj_on f (insert k (en_key ` set (filter live_entry es)))"
    by (rule inj_on_subset [OF Cons.prems(1)]) auto
  have "f k = f (en_key e) \<longleftrightarrow> k = en_key e" if "live_entry e"
    using Cons.prems(1) that by (auto simp: inj_on_def)
  with Cons.IH [OF inj Cons.prems(2)] Cons.prems(2) show ?case by (auto simp: live_entry_def)
qed simp

lemma visit_roots_filter:
  assumes "\<And>a. DELETED < a \<Longrightarrow> DELETED < f a"
  shows "map en_key (filter live_entry (map (\<lambda>e. if live_entry e then HashMapEntry (f (en_key e)) (en_value e) else e) es))
    = map f (map en_key (filter live_entry es))"
  using assms by (induction es) (auto simp: live_entry_def)

lemma visit_roots_usable:
  assumes valid: "om_valid old m" and f: "inj_on f (dom (om_lookup m))" "\<And>a. DELETED < a \<Longrightarrow> DELETED < f a"
    and epoch: "om_gc_epoch m \<noteq> epoch"
  shows "om_usable epoch (om_visit_roots f m)"
proof -
  let ?m = "om_visit_roots f m"
  have sound: "om_sound m" using valid by (simp add: om_valid_def)
  have keys: "map en_key (filter live_entry (map (\<lambda>e. if live_entry e then HashMapEntry (f (en_key e)) (en_value e) else e) (om_data m)))
    = map f (map en_key (filter live_entry (om_data m)))"
    by (rule visit_roots_filter) (rule f(2))
  have "distinct (map en_key (filter live_entry (om_data ?m)))"
  proof -
    have "distinct (map f (map en_key (filter live_entry (om_data m))))"
      using sound f(1) unfolding om_lookup_entries dom_entries_map by (subst distinct_map) (simp add: om_sound_def)
    moreover have "om_data ?m = map (\<lambda>e. if live_entry e then HashMapEntry (f (en_key e)) (en_value e) else e) (om_data m)"
      by (simp add: om_visit_roots_def)
    ultimately show ?thesis by (simp only: keys)
  qed
  moreover have "length (filter live_entry (om_data ?m)) = length (filter live_entry (om_data m))"
    using arg_cong [OF keys, of length] by (simp add: om_visit_roots_def)
  ultimately have "om_sound ?m" using sound by (simp add: om_sound_def om_shape_def om_visit_roots_def)
  with epoch show ?thesis by (simp add: om_usable_def om_valid_def om_visit_roots_def)
qed

text \<open>C31.  After a collection that moves the keys without merging any and that advances the epoch, the
  entry of a key is found under its new address.\<close>

theorem object_map_survives_collection:
  assumes "om_valid old m" and "om_gc_epoch m \<noteq> epoch"
    and "inj_on f (insert k (dom (om_lookup m)))" and "\<And>a. DELETED < a \<Longrightarrow> DELETED < f a"
  shows "\<exists>m'. om_get epoch (f k) (om_visit_roots f m) = ret (om_lookup m k, m') \<and> om_usable epoch m'"
proof -
  have "inj_on f (dom (om_lookup m))" using assms(3) by (rule inj_on_subset) auto
  then have "om_usable epoch (om_visit_roots f m)" by (rule visit_roots_usable [OF assms(1) _ assms(4,2)])
  moreover have "om_lookup (om_visit_roots f m) (f k) = om_lookup m k"
    using visit_roots_lookup [OF _ assms(4)] assms(3) by (simp add: om_lookup_entries om_visit_roots_def dom_entries_map)
  ultimately show ?thesis using om_get_refines by metis
qed

theorem object_map_survives_collection_witness:
  "om_valid 0 demo_map \<and> om_gc_epoch demo_map \<noteq> 1
     \<and> (\<exists>m'. om_get 1 4144 (om_visit_roots (\<lambda>a. a + 4096) demo_map) = ret (Some (), m'))"
proof -
  have "om_lookup demo_map 48 = Some ()" by code_simp
  moreover have "om_valid 0 demo_map" "om_gc_epoch demo_map \<noteq> 1"
    using demo_map_usable by (simp_all add: om_usable_def) (simp add: demo_map_def)
  moreover have "inj_on (\<lambda>a. a + 4096) (insert 48 (dom (om_lookup demo_map)))" by simp
  ultimately show ?thesis
    using object_map_survives_collection [of 0 demo_map 1 "\<lambda>a. a + 4096" 48] by (auto simp: DELETED_def)
qed

text \<open>A probing loop that stops at no slot never returns.\<close>

lemma get_loop_diverges:
  assumes "om_shape m" "idx < om_capacity m" "\<forall>e\<in>set (om_data m). \<not> stops m k e"
  shows "get_loop m k idx = None"
proof -
  have False if "get_loop m k idx = Some r" "om_shape m" "\<forall>e\<in>set (om_data m). \<not> stops m k e" "idx < om_capacity m" for r
    using that
  proof (induction m k idx r rule: get_loop.raw_induct)
    case (1 loop m k idx r)
    have slot: "om_data m ! idx \<in> set (om_data m)" "idx < length (om_data m)" using 1 by (simp_all add: om_shape_def)
    then have "\<not> stops m k (om_data m ! idx)" using 1 by blast
    then have "loop m k (next_idx m idx) = Some r" "get_loop m k (next_idx m idx) = Some r"
      using getting.moves_on [OF slot(2)] 1(3) 1(2) slot(2) entry_kind_cases [of "om_data m ! idx"] by (auto simp: stops_def split: if_splits)
    moreover have "next_idx m idx < om_capacity m"
      using 1(4,6) by (simp add: and_capacity next_idx_def)
    ultimately show ?case using 1(1,4,5) by blast
  qed (rule that(1))
  with assms show ?thesis by (cases "get_loop m k idx") auto
qed

text \<open>Deleted slots count neither as entries nor as free: \<open>overflow\<close> looks at the entries only.\<close>

definition clogging_script :: "(address + address) list" where
  "clogging_script = map Inl [16, 32, 48, 64, 80, 96, 112, 128, 24, 40, 56, 72] @ map Inr [16, 32, 48, 64]
     @ map Inl [88, 104, 120, 136]"

definition clogged_map :: "unit object_map" where
  "clogged_map = \<lparr>om_data = map (\<lambda>k. HashMapEntry k ())
     [1, 1, 1, 1, 80, 96, 112, 128, 24, 40, 56, 72, 88, 104, 120, 136], om_entries = 12, om_capacity = 16, om_gc_epoch = 0\<rparr>"

lemma run_clogging_script: "run_script 0 clogging_script om_new = ret clogged_map"
  by code_simp

text \<open>C35.  Twelve insertions, four removals and four more insertions of aligned addresses into a new
  table leave twelve entries in sixteen slots, none of which is empty, and \<open>overflow\<close> does not hold
  before any of the last insertions.  The next \<open>get\<close> of an address that is not in the table never
  returns.\<close>

theorem object_map_get_diverges_on_tombstones:
  "\<exists>m. run_script 0 clogging_script om_new = ret m \<and> om_entries m = 12 \<and> om_capacity m = 16
     \<and> om_lookup m 144 = None \<and> om_get 0 144 m = None"
proof (intro exI conjI)
  show "run_script 0 clogging_script om_new = ret clogged_map" by (rule run_clogging_script)
  have "om_shape clogged_map" by (auto simp: om_shape_def clogged_map_def intro!: exI [of _ 4])
  moreover have "\<forall>e\<in>set (om_data clogged_map). \<not> stops clogged_map 144 e"
    by (simp add: clogged_map_def stops_def empty_entry_def EMPTY_def)
  moreover have "(0 :: nat) < om_capacity clogged_map" by (simp add: clogged_map_def)
  ultimately have "get_loop clogged_map 144 0 = None" by (metis get_loop_diverges)
  moreover have "start_idx clogged_map 144 = ret 0" by code_simp
  ultimately show "om_get 0 144 clogged_map = None"
    by (simp add: om_get_def invalidated_by_gc_def ret_def) (simp add: clogged_map_def)
qed (simp_all add: clogged_map_def om_lookup_def live_entry_def DELETED_def)

text \<open>\<open>remove\<close> on a table that was never used, in the epoch it was created in, panics (the
  capacity is 0 and \<open>capacity - 1\<close> underflows).  The library code calls \<open>wakeup_all\<close> only when the condition has had a waiter.\<close>

lemma object_map_remove_unused_panics: "om_remove 0 k om_new = Some (Inl ArithmeticOverflow)"
  by (simp add: om_remove_def invalidated_by_gc_def underflow_def om_new_def start_idx_def ret_def)

end
