(* ===== verification/WaitLists.thy ===== *)
theory WaitLists
  imports ObjectHashMapTheorems
begin

text \<open>
  The wait lists of blocked threads (\<open>WaitLists\<close> in \<open>dora/src/vm/waitlists.rs\<close>) and the blocking data
  of a thread (\<open>dora/src/threads.rs\<close>): a hash map from the address of a mutex or condition to the
  head and tail of a list that is linked through the threads themselves.  A thread pointer is its
  address, 0 the null pointer; the operations run with the map's lock held, and a call is the effect
  it has under the lock.
\<close>

subsection \<open>Threads\<close>

type_synonym thread_ptr = usize

text \<open>\<open>BlockingData\<close>: whether the thread is blocked and its successor in the list.\<close>

type_synonym blocking = "thread_ptr \<Rightarrow> bool \<times> thread_ptr"

definition prepare_for_waitlist :: "thread_ptr \<Rightarrow> blocking \<Rightarrow> blocking result" where
  "prepare_for_waitlist t bd =
     rbind (rassert (\<not> fst (bd t) \<and> snd (bd t) = 0)) (\<lambda>_. Inr (bd(t := (True, 0))))"

definition set_waitlist_successor :: "thread_ptr \<Rightarrow> thread_ptr \<Rightarrow> blocking \<Rightarrow> blocking result" where
  "set_waitlist_successor t new_tail bd =
     rbind (rassert (fst (bd t) \<and> snd (bd t) = 0)) (\<lambda>_. Inr (bd(t := (True, new_tail))))"

definition remove_from_waitlist :: "thread_ptr \<Rightarrow> blocking \<Rightarrow> (thread_ptr \<times> blocking) result" where
  "remove_from_waitlist t bd =
     rbind (rassert (fst (bd t))) (\<lambda>_. Inr (snd (bd t), bd(t := (False, 0))))"

text \<open>The thread goes on once its \<open>block\<close> finds the flag cleared.\<close>

definition may_continue :: "thread_ptr \<Rightarrow> blocking \<Rightarrow> bool" where
  "may_continue t bd = (\<not> fst (bd t))"

subsection \<open>Wait lists\<close>

datatype head_and_tail = HeadAndTail (ht_head: thread_ptr) (ht_tail: thread_ptr)

definition head_and_tail_default :: head_and_tail where
  "head_and_tail_default = HeadAndTail 0 0"

instantiation head_and_tail :: default
begin

definition default_head_and_tail :: head_and_tail where
  "default_head_and_tail = head_and_tail_default"

instance ..

end

text \<open>\<open>ManagedMutex\<close> and \<open>ManagedCondition\<close> hold a reference to an atomic integer.\<close>

record wait_lists =
  wl_data :: "head_and_tail object_map"
  wl_blocking :: blocking
  wl_state :: "address \<Rightarrow> address"
  wl_atomic :: "address \<Rightarrow> 32 word"

definition wait_lists_new :: "(address \<Rightarrow> address) \<Rightarrow> (address \<Rightarrow> 32 word) \<Rightarrow> wait_lists" where
  "wait_lists_new state atomic =
     \<lparr>wl_data = om_new, wl_blocking = (\<lambda>_. (False, 0)), wl_state = state, wl_atomic = atomic\<rparr>"

definition append_to_waitlist :: "usize \<Rightarrow> thread_ptr \<Rightarrow> address \<Rightarrow> wait_lists \<Rightarrow> wait_lists call" where
  "append_to_waitlist epoch thread_ptr key wl =
     cbind (om_get epoch key (wl_data wl)) (\<lambda>(entry, data).
     cbind (case entry of
         Some e \<Rightarrow> cbind (Some (set_waitlist_successor (ht_tail e) thread_ptr (wl_blocking wl)))
                     (\<lambda>bd. ret (ht_head e, thread_ptr, bd))
       | None \<Rightarrow> ret (thread_ptr, thread_ptr, wl_blocking wl)) (\<lambda>(head, tail, bd).
     cbind (Some (prepare_for_waitlist thread_ptr bd)) (\<lambda>bd.
     cbind (om_insert epoch key (HeadAndTail head tail) data) (\<lambda>data.
     ret (wl\<lparr>wl_data := data, wl_blocking := bd\<rparr>)))))"

text \<open>The condition is evaluated under the lock and may change the atomic.\<close>

definition conditionally_enqueue ::
  "usize \<Rightarrow> thread_ptr \<Rightarrow> address \<Rightarrow> (wait_lists \<Rightarrow> bool \<times> wait_lists) \<Rightarrow> wait_lists \<Rightarrow> (bool \<times> wait_lists) call" where
  "conditionally_enqueue epoch thread_ptr object fct wl =
     (case fct wl of (go, wl) \<Rightarrow>
       if go then cbind (append_to_waitlist epoch thread_ptr object wl) (\<lambda>wl. ret (True, wl))
       else ret (False, wl))"

text \<open>\<open>block\<close> up to the point where the thread parks: whether it was queued.\<close>

definition wl_block :: "usize \<Rightarrow> thread_ptr \<Rightarrow> address \<Rightarrow> 32 word \<Rightarrow> wait_lists \<Rightarrow> (bool \<times> wait_lists) call" where
  "wl_block epoch thread mutex expected_value =
     conditionally_enqueue epoch thread mutex
       (\<lambda>wl. (wl_atomic wl (wl_state wl mutex) = expected_value, wl))"

definition wl_enqueue :: "usize \<Rightarrow> thread_ptr \<Rightarrow> address \<Rightarrow> wait_lists \<Rightarrow> wait_lists call" where
  "wl_enqueue epoch thread condition wl =
     cbind (conditionally_enqueue epoch thread condition
       (\<lambda>wl. (True, wl\<lparr>wl_atomic := (wl_atomic wl)(wl_state wl condition := 1)\<rparr>)) wl) (\<lambda>(queued, wl).
     cbind (ccheck queued) (\<lambda>_. ret wl))"

definition wl_wakeup :: "usize \<Rightarrow> address \<Rightarrow> wait_lists \<Rightarrow> wait_lists call" where
  "wl_wakeup epoch key wl =
     cbind (om_get epoch key (wl_data wl)) (\<lambda>(entry, data).
       case entry of
         None \<Rightarrow> ret (wl\<lparr>wl_data := data\<rparr>)
       | Some e \<Rightarrow>
           cbind (Some (remove_from_waitlist (ht_head e) (wl_blocking wl))) (\<lambda>(next_ptr, bd).
           if next_ptr = 0
           then cbind (om_remove epoch key data) (\<lambda>(_, data). ret (wl\<lparr>wl_data := data, wl_blocking := bd\<rparr>))
           else cbind (om_insert epoch key (HeadAndTail next_ptr (ht_tail e)) data) (\<lambda>data.
                ret (wl\<lparr>wl_data := data, wl_blocking := bd\<rparr>))))"

partial_function (option) wake_loop :: "blocking \<Rightarrow> thread_ptr \<Rightarrow> blocking call" where
  "wake_loop bd next_ptr =
     (if next_ptr = 0 then Some (Inr bd)
      else case remove_from_waitlist next_ptr bd of
        Inl e \<Rightarrow> Some (Inl e)
      | Inr r \<Rightarrow> wake_loop (snd r) (fst r))"

declare wake_loop.simps [code]

definition wl_wakeup_all :: "usize \<Rightarrow> address \<Rightarrow> wait_lists \<Rightarrow> wait_lists call" where
  "wl_wakeup_all epoch key wl =
     cbind (om_remove epoch key (wl_data wl)) (\<lambda>(entry, data).
       case entry of
         None \<Rightarrow> ret (wl\<lparr>wl_data := data\<rparr>)
       | Some e \<Rightarrow> cbind (wake_loop (wl_blocking wl) (ht_head e)) (\<lambda>bd.
           ret (wl\<lparr>wl_data := data, wl_blocking := bd\<rparr>)))"

definition wl_visit_roots :: "(address \<Rightarrow> address) \<Rightarrow> wait_lists \<Rightarrow> wait_lists" where
  "wl_visit_roots fct wl = wl\<lparr>wl_data := om_visit_roots fct (wl_data wl)\<rparr>"

subsection \<open>Queues\<close>

text \<open>A chain of blocked threads linked through their successors.\<close>

fun chained :: "blocking \<Rightarrow> thread_ptr list \<Rightarrow> bool" where
  "chained bd [] = True"
| "chained bd [t] = (bd t = (True, 0))"
| "chained bd (t # u # ts) = (bd t = (True, u) \<and> chained bd (u # ts))"

definition queue_entry :: "thread_ptr list \<Rightarrow> head_and_tail option" where
  "queue_entry ts = (if ts = [] then None else Some (HeadAndTail (hd ts) (last ts)))"

text \<open>The wait lists stand for a first-in first-out queue of threads per object.\<close>

definition represents :: "wait_lists \<Rightarrow> (address \<Rightarrow> thread_ptr list) \<Rightarrow> bool" where
  "represents wl q =
     ((\<forall>k. om_lookup (wl_data wl) k = queue_entry (q k) \<and> chained (wl_blocking wl) (q k)
        \<and> distinct (q k) \<and> 0 \<notin> set (q k))
      \<and> (\<forall>k k'. k \<noteq> k' \<longrightarrow> set (q k) \<inter> set (q k') = {})
      \<and> (\<forall>t. (\<forall>k. t \<notin> set (q k)) \<longrightarrow> wl_blocking wl t = (False, 0)))"

lemma chained_other: "t \<notin> set ts \<Longrightarrow> chained (bd(t := x)) ts = chained bd ts"
  by (induction bd ts rule: chained.induct) auto

lemma chained_blocked: "chained bd ts \<Longrightarrow> t \<in> set ts \<Longrightarrow> fst (bd t)"
  by (induction bd ts rule: chained.induct) auto

lemma chained_last: "chained bd ts \<Longrightarrow> ts \<noteq> [] \<Longrightarrow> bd (last ts) = (True, 0)"
  by (induction bd ts rule: chained.induct) auto

lemma chained_hd: "chained bd (t # ts) \<Longrightarrow> bd t = (True, if ts = [] then 0 else hd ts)"
  by (cases ts) auto

lemma chained_tl: "chained bd (t # ts) \<Longrightarrow> chained bd ts"
  by (cases ts) auto

lemma chained_snoc:
  "chained bd ts \<Longrightarrow> distinct (ts @ [t]) \<Longrightarrow> ts \<noteq> [] \<Longrightarrow> chained ((bd(last ts := (True, t)))(t := (True, 0))) (ts @ [t])"
proof (induction bd ts rule: chained.induct)
  case (3 bd t' u ts)
  then show ?case by (cases ts) (auto simp: chained_other)
qed auto

lemma representsD:
  assumes "represents wl q"
  shows "om_lookup (wl_data wl) k = queue_entry (q k)" "chained (wl_blocking wl) (q k)" "distinct (q k)" "0 \<notin> set (q k)"
    "k \<noteq> k' \<Longrightarrow> t \<in> set (q k) \<Longrightarrow> t \<notin> set (q k')" "(\<And>k. t \<notin> set (q k)) \<Longrightarrow> wl_blocking wl t = (False, 0)"
  using assms unfolding represents_def by blast+

text \<open>Changing one queue and the blocking data of threads that are in no other.\<close>

lemma represents_change:
  assumes rep: "represents wl q"
    and data: "om_lookup data = (om_lookup (wl_data wl))(key := queue_entry ts)"
    and queue: "chained bd ts" "distinct ts" "0 \<notin> set ts"
    and own: "\<And>t k. t \<in> set ts \<Longrightarrow> k \<noteq> key \<Longrightarrow> t \<notin> set (q k)"
    and others: "\<And>k. k \<noteq> key \<Longrightarrow> chained bd (q k)"
    and idle: "\<And>t. t \<notin> set ts \<Longrightarrow> (\<And>k. k \<noteq> key \<Longrightarrow> t \<notin> set (q k)) \<Longrightarrow> bd t = (False, 0)"
  shows "represents (wl\<lparr>wl_data := data, wl_blocking := bd\<rparr>) (q(key := ts))"
proof -
  note old = representsD [OF rep]
  have "set ((q(key := ts)) k) \<inter> set ((q(key := ts)) k') = {}" if "k \<noteq> k'" for k k'
    using that own old(5) [of k k'] by auto
  moreover have "bd t = (False, 0)" if "\<And>k. t \<notin> set ((q(key := ts)) k)" for t
  proof (rule idle)
    show "t \<notin> set ts" using that [of key] by simp
    show "t \<notin> set (q k)" if "k \<noteq> key" for k using that \<open>\<And>k. t \<notin> set ((q(key := ts)) k)\<close> [of k] by simp
  qed
  ultimately show ?thesis using queue others old(1,3,4) unfolding represents_def by (auto simp: data)
qed

lemma chained_update_foreign:
  assumes "represents wl q" "k \<noteq> key" "t \<in> set (q key)"
  shows "chained ((wl_blocking wl)(t := x)) (q k) = chained (wl_blocking wl) (q k)"
  using representsD(5) [OF assms(1), of key k t] assms(2,3) by (intro chained_other) auto

lemma append_refines:
  assumes usable: "om_usable epoch (wl_data wl)" and key: "DELETED < key" and rep: "represents wl q"
    and t: "t \<noteq> 0" "\<And>k. t \<notin> set (q k)"
  shows "\<exists>wl'. append_to_waitlist epoch t key wl = ret wl' \<and> represents wl' (q(key := q key @ [t]))
    \<and> om_valid epoch (wl_data wl') \<and> wl_atomic wl' = wl_atomic wl \<and> wl_state wl' = wl_state wl"
proof -
  note old = representsD [OF rep]
  let ?bd = "wl_blocking wl" let ?ts = "q key @ [t]"
  define bd where "bd = ((if q key = [] then ?bd else ?bd(last (q key) := (True, t)))(t := (True, 0)))"
  have idle: "?bd t = (False, 0)" using t(2) old(6) by blast
  have entry: "queue_entry ?ts = Some (HeadAndTail (hd ?ts) t)" by (simp add: queue_entry_def)
  from table.get_then_insert [OF usable key] obtain m1 m2 where
    m: "om_get epoch key (wl_data wl) = ret (queue_entry (q key), m1)"
       "om_insert epoch key (HeadAndTail (hd ?ts) t) m1 = ret m2" "om_valid epoch m2"
       "om_lookup m2 = (om_lookup (wl_data wl))(key := queue_entry ?ts)"
    unfolding old(1) entry by blast
  have run: "append_to_waitlist epoch t key wl = ret (wl\<lparr>wl_data := m2, wl_blocking := bd\<rparr>)"
  proof (cases "q key = []")
    case True
    then show ?thesis using m idle
      by (simp add: append_to_waitlist_def queue_entry_def prepare_for_waitlist_def bd_def ret_def rbind_def rassert_def)
  next
    case False
    then have "?bd (last (q key)) = (True, 0)" "last (q key) \<noteq> t" using chained_last [OF old(2)] t(2) [of key] by auto
    then show ?thesis using m idle False
      by (simp add: append_to_waitlist_def queue_entry_def prepare_for_waitlist_def set_waitlist_successor_def bd_def ret_def
          rbind_def rassert_def)
  qed
  have "represents (wl\<lparr>wl_data := m2, wl_blocking := bd\<rparr>) (q(key := ?ts))"
  proof (rule represents_change [OF rep m(4)])
    show "chained bd ?ts"
      using chained_snoc [OF old(2), of key t] old(3) [of key] t(2) [of key] by (cases "q key = []") (auto simp: bd_def)
    show "distinct ?ts" "0 \<notin> set ?ts" using old(3,4) t by simp_all
    show "u \<notin> set (q k)" if "u \<in> set ?ts" "k \<noteq> key" for u k using that t(2) old(5) [of key k u] by auto
    show "chained bd (q k)" if "k \<noteq> key" for k
      using that old(2) [of k] t(2) [of k] chained_update_foreign [OF rep that, of "last (q key)"]
      by (auto simp: bd_def chained_other)
    show "bd u = (False, 0)" if "u \<notin> set ?ts" "\<And>k. k \<noteq> key \<Longrightarrow> u \<notin> set (q k)" for u
    proof -
      have "u \<notin> set (q k)" for k using that by (cases "k = key") auto
      then have "?bd u = (False, 0)" using old(6) by blast
      moreover have "u \<noteq> t" "q key \<noteq> [] \<longrightarrow> u \<noteq> last (q key)" using that(1) by auto
      ultimately show ?thesis by (simp add: bd_def)
    qed
  qed
  with run m(3) show ?thesis by simp
qed

lemma wakeup_refines:
  assumes usable: "om_usable epoch (wl_data wl)" and key: "DELETED < key" and rep: "represents wl q"
  shows "\<exists>wl'. wl_wakeup epoch key wl = ret wl' \<and> represents wl' (q(key := tl (q key)))
    \<and> om_valid epoch (wl_data wl') \<and> wl_atomic wl' = wl_atomic wl \<and> wl_state wl' = wl_state wl
    \<and> (q key \<noteq> [] \<longrightarrow> may_continue (hd (q key)) (wl_blocking wl'))"
proof (cases "q key")
  case Nil
  then have none: "om_lookup (wl_data wl) key = None" using representsD(1) [OF rep, of key] by (simp add: queue_entry_def)
  with table.get_law [OF usable, of key] obtain m1 where
    m1: "om_get epoch key (wl_data wl) = ret (None, m1)" "om_usable epoch m1" "om_lookup m1 = om_lookup (wl_data wl)" by auto
  have "represents (wl\<lparr>wl_data := m1\<rparr>) q" using rep m1(3) by (simp add: represents_def)
  moreover have "q(key := []) = q" using Nil by (auto simp: fun_eq_iff)
  ultimately show ?thesis using m1 Nil by (simp add: wl_wakeup_def ret_def om_usable_def)
next
  case (Cons t ts)
  note old = representsD [OF rep]
  let ?bd = "(wl_blocking wl)(t := (False, 0))"
  have t: "wl_blocking wl t = (True, if ts = [] then 0 else hd ts)" using chained_hd old(2) [of key] Cons by simp
  have entry: "om_lookup (wl_data wl) key = Some (HeadAndTail t (last (t # ts)))" using old(1) [of key] Cons by (simp add: queue_entry_def)
  have nz: "ts \<noteq> [] \<Longrightarrow> hd ts \<noteq> 0" using old(4) [of key] Cons by (cases ts) auto
  have "\<exists>m2. wl_wakeup epoch key wl = ret (wl\<lparr>wl_data := m2, wl_blocking := ?bd\<rparr>) \<and> om_valid epoch m2
      \<and> om_lookup m2 = (om_lookup (wl_data wl))(key := queue_entry ts)"
  proof (cases "ts = []")
    case True
    with table.get_then_remove [OF usable, of key] entry t show ?thesis
      by (auto simp: wl_wakeup_def remove_from_waitlist_def rbind_def rassert_def queue_entry_def ret_def)
  next
    case False
    from table.get_then_insert [OF usable key] obtain m1 m2 where
      "om_get epoch key (wl_data wl) = ret (om_lookup (wl_data wl) key, m1)"
      "om_insert epoch key (HeadAndTail (hd ts) (last ts)) m1 = ret m2" "om_valid epoch m2"
      "om_lookup m2 = (om_lookup (wl_data wl))(key \<mapsto> HeadAndTail (hd ts) (last ts))" by blast
    with False entry t nz show ?thesis
      by (auto simp: wl_wakeup_def remove_from_waitlist_def rbind_def rassert_def queue_entry_def ret_def)
  qed
  then obtain m2 where m2: "wl_wakeup epoch key wl = ret (wl\<lparr>wl_data := m2, wl_blocking := ?bd\<rparr>)" "om_valid epoch m2"
      "om_lookup m2 = (om_lookup (wl_data wl))(key := queue_entry ts)" by blast
  have "represents (wl\<lparr>wl_data := m2, wl_blocking := ?bd\<rparr>) (q(key := ts))"
  proof (rule represents_change [OF rep m2(3)])
    show "chained ?bd ts" using chained_tl [of "wl_blocking wl" t ts] old(2) [of key] old(3) [of key] Cons by (simp add: chained_other)
    show "distinct ts" "0 \<notin> set ts" using old(3,4) [of key] Cons by simp_all
    show "u \<notin> set (q k)" if "u \<in> set ts" "k \<noteq> key" for u k using that old(5) [of key k u] Cons by auto
    show "chained ?bd (q k)" if "k \<noteq> key" for k
      using chained_update_foreign [OF rep that, of t] old(2) [of k] Cons by simp
    show "?bd u = (False, 0)" if "u \<notin> set ts" "\<And>k. k \<noteq> key \<Longrightarrow> u \<notin> set (q k)" for u
    proof (cases "u = t")
      case False
      then have "u \<notin> set (q k)" for k using that Cons by (cases "k = key") auto
      with False old(6) show ?thesis by simp
    qed simp
  qed
  with m2 Cons show ?thesis by (simp add: may_continue_def)
qed

lemma wake_loop_ok:
  "chained bd ts \<Longrightarrow> distinct ts \<Longrightarrow> 0 \<notin> set ts \<Longrightarrow>
   wake_loop bd (if ts = [] then 0 else hd ts) = ret (\<lambda>t. if t \<in> set ts then (False, 0) else bd t)"
proof (induction ts arbitrary: bd)
  case Nil
  then show ?case by (simp add: wake_loop.simps ret_def)
next
  case (Cons t ts)
  have "chained (bd(t := (False, 0))) ts" using Cons.prems(2) chained_tl [OF Cons.prems(1)] by (simp add: chained_other)
  then have "wake_loop (bd(t := (False, 0))) (if ts = [] then 0 else hd ts)
      = ret (\<lambda>u. if u \<in> set ts then (False, 0) else (bd(t := (False, 0))) u)"
    by (rule Cons.IH) (use Cons.prems in auto)
  moreover have "wake_loop bd t = wake_loop (bd(t := (False, 0))) (if ts = [] then 0 else hd ts)"
    using chained_hd [OF Cons.prems(1)] Cons.prems(3)
    by (simp add: wake_loop.simps [of bd t] remove_from_waitlist_def rbind_def rassert_def)
  ultimately show ?case by (auto simp: ret_def fun_eq_iff)
qed

lemma wakeup_all_refines:
  assumes usable: "om_usable epoch (wl_data wl)" and rep: "represents wl q"
    and used: "0 < om_capacity (wl_data wl) \<or> om_gc_epoch (wl_data wl) \<noteq> epoch"
  shows "\<exists>wl'. wl_wakeup_all epoch key wl = ret wl' \<and> represents wl' (q(key := []))
    \<and> om_valid epoch (wl_data wl') \<and> wl_atomic wl' = wl_atomic wl \<and> wl_state wl' = wl_state wl
    \<and> (\<forall>t\<in>set (q key). may_continue t (wl_blocking wl'))"
proof -
  note old = representsD [OF rep]
  let ?bd = "\<lambda>t. if t \<in> set (q key) then (False, 0) else wl_blocking wl t"
  obtain m1 where m1: "om_remove epoch key (wl_data wl) = ret (queue_entry (q key), m1)" "om_valid epoch m1"
    "om_lookup m1 = (om_lookup (wl_data wl))(key := queue_entry [])"
    using om_remove_refines [OF usable used, of key] old(1) by (auto simp: queue_entry_def)
  have run: "wl_wakeup_all epoch key wl = ret (wl\<lparr>wl_data := m1, wl_blocking := ?bd\<rparr>)"
  proof (cases "q key = []")
    case True
    with m1(1) show ?thesis by (simp add: wl_wakeup_all_def queue_entry_def ret_def)
  next
    case False
    with m1(1) wake_loop_ok [OF old(2,3,4), of key] show ?thesis by (simp add: wl_wakeup_all_def queue_entry_def ret_def)
  qed
  have "represents (wl\<lparr>wl_data := m1, wl_blocking := ?bd\<rparr>) (q(key := []))"
  proof (rule represents_change [OF rep m1(3)])
    have foreign: "chained ?bd ts = chained (wl_blocking wl) ts" if "set ts \<inter> set (q key) = {}" for ts
      using that by (induction "wl_blocking wl" ts rule: chained.induct) auto
    show "chained ?bd (q k)" if "k \<noteq> key" for k
      using foreign [of "q k"] old(2) [of k] old(5) [OF that] by blast
    show "?bd u = (False, 0)" if "\<And>k. k \<noteq> key \<Longrightarrow> u \<notin> set (q k)" for u
      using that old(6) [of u] by (metis (full_types))
  qed auto
  with run m1(2) show ?thesis by (simp add: may_continue_def)
qed

subsection \<open>Properties\<close>

lemma represents_atomic: "represents (wl\<lparr>wl_atomic := a\<rparr>) q = represents wl q"
  by (simp add: represents_def)

lemma block_refines:
  assumes "om_usable epoch (wl_data wl)" "DELETED < key" "represents wl q" "t \<noteq> 0" "\<And>k. t \<notin> set (q k)"
  shows "\<exists>wl'. wl_block epoch t key v wl = ret (wl_atomic wl (wl_state wl key) = v, wl')
    \<and> represents wl' (if wl_atomic wl (wl_state wl key) = v then q(key := q key @ [t]) else q) \<and> om_valid epoch (wl_data wl')"
  using append_refines [OF assms] assms(1,3) by (auto simp: wl_block_def conditionally_enqueue_def ret_def om_usable_def)

lemma enqueue_refines:
  assumes "om_usable epoch (wl_data wl)" "DELETED < key" "represents wl q" "t \<noteq> 0" "\<And>k. t \<notin> set (q k)"
  shows "\<exists>wl'. wl_enqueue epoch t key wl = ret wl' \<and> represents wl' (q(key := q key @ [t]))
    \<and> wl_atomic wl' = (wl_atomic wl)(wl_state wl key := 1) \<and> om_valid epoch (wl_data wl')"
proof -
  let ?wl = "wl\<lparr>wl_atomic := (wl_atomic wl)(wl_state wl key := 1)\<rparr>"
  have "om_usable epoch (wl_data ?wl)" "represents ?wl q" using assms by (simp_all add: represents_atomic)
  from append_refines [OF this(1) assms(2) this(2) assms(4,5)] show ?thesis
    by (auto simp: wl_enqueue_def conditionally_enqueue_def ret_def ccheck_def)
qed

text \<open>C16.  The wait lists are first-in first-out queues, one per mutex or condition, as long as the hash map
  behind them has an empty slot left.  On such a map, for the address of an object and a thread that is in no
  queue, \<open>block\<close> appends the thread exactly when the mutex still has the expected value, \<open>enqueue\<close> sets the
  condition's state and appends it, \<open>wakeup\<close> removes the thread that has waited longest and lets it
  continue, and, if the map has been used before, \<open>wakeup_all\<close> empties the queue and lets all its threads
  continue.  No assertion on the blocking data fails, the loop over the list ends, and the map stays
  valid; whether an empty slot is left for the next call depends on the addresses.\<close>

theorem wait_lists_refine_queues:
  assumes "om_usable epoch (wl_data wl)" and "DELETED < key" and "represents wl q"
    and "t \<noteq> 0" and "\<And>k. t \<notin> set (q k)"
  shows "(\<exists>wl'. wl_block epoch t key v wl = ret (wl_atomic wl (wl_state wl key) = v, wl')
      \<and> represents wl' (if wl_atomic wl (wl_state wl key) = v then q(key := q key @ [t]) else q)
      \<and> om_valid epoch (wl_data wl'))
    \<and> (\<exists>wl'. wl_enqueue epoch t key wl = ret wl' \<and> represents wl' (q(key := q key @ [t]))
      \<and> wl_atomic wl' = (wl_atomic wl)(wl_state wl key := 1) \<and> om_valid epoch (wl_data wl'))
    \<and> (\<exists>wl'. wl_wakeup epoch key wl = ret wl' \<and> represents wl' (q(key := tl (q key)))
      \<and> (q key \<noteq> [] \<longrightarrow> may_continue (hd (q key)) (wl_blocking wl')) \<and> om_valid epoch (wl_data wl'))
    \<and> (0 < om_capacity (wl_data wl) \<or> om_gc_epoch (wl_data wl) \<noteq> epoch \<longrightarrow>
       (\<exists>wl'. wl_wakeup_all epoch key wl = ret wl' \<and> represents wl' (q(key := []))
         \<and> (\<forall>u\<in>set (q key). may_continue u (wl_blocking wl')) \<and> om_valid epoch (wl_data wl')))"
  using block_refines [OF assms] enqueue_refines [OF assms] wakeup_refines [OF assms(1-3)]
    wakeup_all_refines [OF assms(1,3)] by blast

definition demo_wait_lists :: wait_lists where
  "demo_wait_lists = \<lparr>wl_data = \<lparr>om_data = HashMapEntry 16 (HeadAndTail 1000 2000) # replicate 7 (HashMapEntry 0 (HeadAndTail 0 0)),
       om_entries = 1, om_capacity = 8, om_gc_epoch = 0\<rparr>,
     wl_blocking = (\<lambda>_. (False, 0))(1000 := (True, 2000), 2000 := (True, 0)),
     wl_state = (\<lambda>a. a + 8), wl_atomic = (\<lambda>_. 1)\<rparr>"

definition demo_queues :: "address \<Rightarrow> thread_ptr list" where
  "demo_queues = (\<lambda>_. [])(16 := [1000, 2000])"

theorem wait_lists_refine_queues_witness:
  "om_usable 1 (wl_data demo_wait_lists) \<and> represents demo_wait_lists demo_queues
   \<and> (\<exists>wl'. wl_block 1 3000 16 1 demo_wait_lists = ret (True, wl') \<and> represents wl' (demo_queues(16 := [1000, 2000, 3000])))
   \<and> (\<exists>wl'. wl_wakeup 1 16 demo_wait_lists = ret wl' \<and> may_continue 1000 (wl_blocking wl'))
   \<and> (\<exists>wl'. wl_wakeup_all 1 16 demo_wait_lists = ret wl' \<and> may_continue 2000 (wl_blocking wl'))"
proof -
  have "om_shape (wl_data demo_wait_lists)" by (auto simp: om_shape_def demo_wait_lists_def intro!: exI [of _ 3])
  then have usable: "om_usable 1 (wl_data demo_wait_lists)"
    by (simp add: om_usable_def om_valid_def om_sound_def)
      (simp add: demo_wait_lists_def live_entry_def DELETED_def)
  have rep: "represents demo_wait_lists demo_queues"
    by (auto simp: represents_def demo_queues_def demo_wait_lists_def queue_entry_def om_lookup_def live_entry_def DELETED_def
        find_None_iff)
  have state: "wl_atomic demo_wait_lists (wl_state demo_wait_lists 16) = 1" "demo_queues 16 = [1000, 2000]"
    "om_gc_epoch (wl_data demo_wait_lists) \<noteq> 1" "\<And>k. 3000 \<notin> set (demo_queues k)"
    by (simp_all add: demo_wait_lists_def demo_queues_def)
  have "DELETED < 16" "(3000 :: nat) \<noteq> 0" by (simp_all add: DELETED_def)
  from wait_lists_refine_queues [OF usable this(1) rep this(2) state(4), of 1] state(1-3) usable rep
  show ?thesis by auto
qed

end
