(* ===== verification/HeapAddress.thy ===== *)
theory HeapAddress
  imports Prelude
begin

text \<open>
  Addresses, regions and alignment (\<open>dora/src/mem.rs\<close>, \<open>Address\<close> and \<open>Region\<close> of
  \<open>dora/src/gc.rs\<close>).  Addresses are natural numbers below \<open>2 ^ 64\<close>; an addition that leaves that
  range or a subtraction below 0 is an arithmetic overflow.  The operating system's page size is the
  power of two with the exponent \<open>page_bits\<close>, an argument of the definitions that use it.
\<close>

type_synonym heap_address = usize

definition checked_add :: "usize \<Rightarrow> usize \<Rightarrow> usize result" where
  "checked_add a b = (if a + b < 2 ^ 64 then Inr (a + b) else Inl ArithmeticOverflow)"

definition checked_sub :: "usize \<Rightarrow> usize \<Rightarrow> usize result" where
  "checked_sub a b = (if b \<le> a then Inr (a - b) else Inl ArithmeticOverflow)"

lemma checked_add_eq_Inr [simp]: "checked_add a b = Inr c \<longleftrightarrow> c = a + b \<and> a + b < 2 ^ 64"
  by (auto simp: checked_add_def)

lemma checked_sub_eq_Inr [simp]: "checked_sub a b = Inr c \<longleftrightarrow> c = a - b \<and> b \<le> a"
  by (auto simp: checked_sub_def)

subsection \<open>Alignment\<close>

definition ptr_width_usize :: usize where "ptr_width_usize = 8"

definition is_page_aligned :: "nat \<Rightarrow> usize \<Rightarrow> bool" where
  "is_page_aligned page_bits val = (val = push_bit page_bits (drop_bit page_bits val))"

text \<open>\<open>((val + (1 << align) - 1) >> align) << align\<close>; the sum may overflow, the shift drops no bit
  then.\<close>

definition align_bits :: "nat \<Rightarrow> usize \<Rightarrow> usize result" where
  "align_bits bits val =
     rbind (checked_add val (push_bit bits 1)) (\<lambda>s. Inr (push_bit bits (drop_bit bits (s - 1))))"

definition page_align :: "nat \<Rightarrow> usize \<Rightarrow> usize result" where
  "page_align page_bits val = align_bits page_bits val"

definition align_usize :: "usize \<Rightarrow> usize \<Rightarrow> usize result" where
  "align_usize val align =
     (if align = 0 then Inr val
      else rbind (checked_add val align) (\<lambda>s. Inr ((s - 1) div align * align)))"

text \<open>The intermediate results may overflow.\<close>

definition align_i32 :: "int \<Rightarrow> int \<Rightarrow> int result" where
  "align_i32 val align =
     (if align = 0 then Inr val
      else rbind (checked_i32 (val + align)) (\<lambda>s.
           rbind (checked_i32 (s - 1)) (\<lambda>s.
           checked_i32 (rust_div s align * align))))"

definition fits_i32 :: "int \<Rightarrow> bool" where
  "fits_i32 val = (- (2 ^ 31) \<le> val \<and> val \<le> 2 ^ 31 - 1)"

definition GEN_ALIGNMENT_BITS :: nat where "GEN_ALIGNMENT_BITS = 17"
definition GEN_SIZE :: usize where "GEN_SIZE = push_bit GEN_ALIGNMENT_BITS 1"

definition align_gen :: "usize \<Rightarrow> usize result" where
  "align_gen val = align_bits GEN_ALIGNMENT_BITS val"

text \<open>\<open>value & !(GEN_SIZE - 1)\<close> on 64 bits.\<close>

definition align_gen_down :: "usize \<Rightarrow> usize" where
  "align_gen_down val = unat (word_of_nat val AND NOT (word_of_nat (GEN_SIZE - 1)) :: u64)"

definition gen_aligned :: "usize \<Rightarrow> bool" where
  "gen_aligned sz = (sz AND (GEN_SIZE - 1) = 0)"

definition REGION_SIZE_BITS :: nat where "REGION_SIZE_BITS = 20"

definition REGION_SIZE :: usize where "REGION_SIZE = push_bit REGION_SIZE_BITS 1"

definition align_region :: "usize \<Rightarrow> usize result" where
  "align_region val = align_bits REGION_SIZE_BITS val"

subsection \<open>Addresses\<close>

definition offset_from :: "heap_address \<Rightarrow> heap_address \<Rightarrow> usize result" where
  "offset_from a base = rbind (rassert (base \<le> a)) (\<lambda>_. Inr (a - base))"

definition offset :: "heap_address \<Rightarrow> usize \<Rightarrow> heap_address result" where
  "offset a off = checked_add a off"

definition addr_sub :: "heap_address \<Rightarrow> usize \<Rightarrow> heap_address result" where
  "addr_sub a off = checked_sub a off"

definition add_ptr :: "heap_address \<Rightarrow> usize \<Rightarrow> heap_address result" where
  "add_ptr a wrds = checked_add a (wrds * ptr_width_usize)"

definition sub_ptr :: "heap_address \<Rightarrow> usize \<Rightarrow> heap_address result" where
  "sub_ptr a wrds = checked_sub a (wrds * ptr_width_usize)"

definition addr_null :: heap_address where "addr_null = 0"

subsection \<open>Regions\<close>

record region =
  r_start :: heap_address
  r_end :: heap_address

definition region_new :: "heap_address \<Rightarrow> heap_address \<Rightarrow> region result" where
  "region_new s e = rbind (rassert (s \<le> e)) (\<lambda>_. Inr \<lparr>r_start = s, r_end = e\<rparr>)"

definition region_start :: "heap_address \<Rightarrow> usize \<Rightarrow> region result" where
  "region_start a sz = rbind (offset a sz) (region_new a)"

definition r_contains :: "region \<Rightarrow> heap_address \<Rightarrow> bool" where
  "r_contains r addr = (r_start r \<le> addr \<and> addr < r_end r)"

definition valid_top :: "region \<Rightarrow> heap_address \<Rightarrow> bool" where
  "valid_top r addr = (r_start r \<le> addr \<and> addr \<le> r_end r)"

definition r_size :: "region \<Rightarrow> usize result" where
  "r_size r = checked_sub (r_end r) (r_start r)"

definition r_empty :: "region \<Rightarrow> bool" where
  "r_empty r = (r_start r = r_end r)"

definition disjunct :: "region \<Rightarrow> region \<Rightarrow> bool" where
  "disjunct r other = (r_end r \<le> r_start other \<or> r_end other \<le> r_start r)"

definition overlaps :: "region \<Rightarrow> region \<Rightarrow> bool" where
  "overlaps r other = (\<not> disjunct r other)"

definition fully_contains :: "region \<Rightarrow> region \<Rightarrow> bool" where
  "fully_contains r other = (r_contains r (r_start other) \<and> valid_top r (r_end other))"

subsection \<open>What the alignment functions compute\<close>

lemma push_drop_bit_nat: "push_bit n (drop_bit n (a :: nat)) = a div 2 ^ n * 2 ^ n"
  by (simp add: push_bit_eq_mult drop_bit_eq_div)

text \<open>The least multiple that is not below a value.\<close>

definition is_round_up :: "usize \<Rightarrow> usize \<Rightarrow> usize \<Rightarrow> bool" where
  "is_round_up align val r = (align dvd r \<and> val \<le> r \<and> r < val + align)"

lemma round_up_least:
  assumes "is_round_up align val r" "align dvd r'" "val \<le> r'"
  shows "r \<le> r'"
proof (rule ccontr)
  assume "\<not> r \<le> r'"
  moreover from assms have "align dvd r - r'" by (simp add: is_round_up_def dvd_diff_nat)
  ultimately have "align \<le> r - r'" by (intro dvd_imp_le) auto
  with assms \<open>\<not> r \<le> r'\<close> show False by (auto simp: is_round_up_def)
qed

lemma round_up_div: "0 < align \<Longrightarrow> is_round_up align val ((val + align - 1) div align * align)" for val align :: nat
proof -
  assume pos: "0 < align"
  let ?s = "val + align - 1"
  have split: "?s = ?s div align * align + ?s mod align" by simp
  have "?s mod align < align" using pos by simp
  with split pos have "val \<le> ?s div align * align" "?s div align * align < val + align" by linarith+
  then show ?thesis by (simp add: is_round_up_def)
qed

lemma align_bits_ok: "align_bits bits val = Inr r \<longleftrightarrow> val + 2 ^ bits < 2 ^ 64 \<and> r = (val + 2 ^ bits - 1) div 2 ^ bits * 2 ^ bits"
  by (auto simp: align_bits_def rbind_eq_Inr_iff push_drop_bit_nat)

lemma align_usize_ok:
  "0 < align \<Longrightarrow> align_usize val align = Inr r \<longleftrightarrow> val + align < 2 ^ 64 \<and> r = (val + align - 1) div align * align"
  by (auto simp: align_usize_def rbind_eq_Inr_iff)

lemma and_not_mask: "unat (word_of_nat a AND NOT (word_of_nat (2 ^ n - 1)) :: u64) = a div 2 ^ n * 2 ^ n"
  if "a < 2 ^ 64" "n < 64"
proof -
  have "word_of_nat (2 ^ n - 1) = (mask n :: u64)" by (simp add: mask_eq_exp_minus_1 of_nat_diff)
  then have "word_of_nat a AND NOT (word_of_nat (2 ^ n - 1)) = (push_bit n (drop_bit n (word_of_nat a)) :: u64)"
    by (simp add: bit_eq_iff bit_simps) (auto simp: bit_simps)
  also have "\<dots> = word_of_nat (push_bit n (drop_bit n a))"
    using that by (intro bit_word_eqI) (auto simp: bit_simps)
  also have "unat \<dots> = push_bit n (drop_bit n a)"
  proof -
    have "push_bit n (drop_bit n a) < 2 ^ 64"
      using that(1) div_times_less_eq_dividend [of a "2 ^ n"] unfolding push_drop_bit_nat by linarith
    then show ?thesis by (simp only: unsigned_of_nat) (simp add: take_bit_nat_eq_self)
  qed
  finally show ?thesis by (simp add: push_drop_bit_nat)
qed

text \<open>The shifts and the division agree, also on when they overflow.\<close>

lemma align_bits_align_usize: "align_bits bits val = align_usize val (2 ^ bits)"
  by (simp add: align_bits_def align_usize_def push_drop_bit_nat)

text \<open>C37.  Rounding up never undershoots and never overshoots: \<open>align_usize\<close>, \<open>page_align\<close>, \<open>align_gen\<close>
  and \<open>align_region\<close> return the least multiple of their alignment that is not below the value, and
  they overflow only for values within one alignment of the end of the address space.  The first takes any
  positive alignment, the others powers of two.\<close>

theorem aligning_gives_least_multiple:
  assumes "0 < align" and "val + align < 2 ^ 64"
  shows "\<exists>r. align_usize val align = Inr r \<and> (\<forall>bits. align = 2 ^ bits \<longrightarrow> page_align bits val = Inr r) \<and> align dvd r \<and> val \<le> r \<and> r < val + align
    \<and> (\<forall>r'. align dvd r' \<longrightarrow> val \<le> r' \<longrightarrow> r \<le> r')
    \<and> (align = 2 ^ GEN_ALIGNMENT_BITS \<longrightarrow> align_gen val = Inr r \<and> gen_aligned r)
    \<and> (align = 2 ^ REGION_SIZE_BITS \<longrightarrow> align_region val = Inr r)"
proof -
  let ?r = "(val + align - 1) div align * align"
  have up: "is_round_up align val ?r" using assms(1) by (rule round_up_div)
  have eq: "align_usize val align = Inr ?r" using align_usize_ok [OF assms(1)] assms(2) by blast
  have bits: "align_bits bits val = Inr ?r" if "align = 2 ^ bits" for bits using eq unfolding align_bits_align_usize that .
  have "?r AND mask GEN_ALIGNMENT_BITS = ?r mod 2 ^ GEN_ALIGNMENT_BITS" by (simp only: take_bit_eq_mask [symmetric] take_bit_eq_mod)
  then have gen: "gen_aligned ?r" if "align = 2 ^ GEN_ALIGNMENT_BITS"
    using that by (simp add: gen_aligned_def GEN_SIZE_def push_bit_eq_mult mask_eq_exp_minus_1)
  show ?thesis
  proof (intro exI [of _ ?r] conjI impI allI)
    show "align_gen val = Inr ?r" "gen_aligned ?r" if "align = 2 ^ GEN_ALIGNMENT_BITS"
      using bits gen that unfolding align_gen_def by blast+
    show "align_region val = Inr ?r" if "align = 2 ^ REGION_SIZE_BITS" using bits that unfolding align_region_def by blast
    show "?r \<le> r'" if "align dvd r'" "val \<le> r'" for r' using round_up_least [OF up that] .
  qed (use up eq bits in \<open>simp_all add: is_round_up_def page_align_def\<close>)
qed

theorem aligning_gives_least_multiple_witness:
  "\<exists>r. align_usize 200000 131072 = Inr r \<and> align_gen 200000 = Inr r \<and> gen_aligned r \<and> 200000 \<le> r"
proof -
  have "(0 :: nat) < 131072" "(200000 :: nat) + 131072 < 2 ^ 64" by simp_all
  from aligning_gives_least_multiple [OF this] have "\<exists>r. align_usize 200000 131072 = Inr r
      \<and> (131072 = (2 :: nat) ^ GEN_ALIGNMENT_BITS \<longrightarrow> align_gen 200000 = Inr r \<and> gen_aligned r) \<and> 200000 \<le> r" by blast
  then show ?thesis by (simp add: GEN_ALIGNMENT_BITS_def)
qed

lemma align_gen_down_ok:
  "val < 2 ^ 64 \<Longrightarrow> align_gen_down val \<le> val \<and> GEN_SIZE dvd align_gen_down val \<and> val < align_gen_down val + GEN_SIZE"
  using and_not_mask [of val 17] div_times_less_eq_dividend [of val "2 ^ 17"] mod_less_divisor [of "2 ^ 17" val]
    div_mult_mod_eq [of val "2 ^ 17"]
  by (simp add: align_gen_down_def GEN_SIZE_def GEN_ALIGNMENT_BITS_def push_bit_eq_mult)

end
