(* ===== verification/HeapObjects.thy ===== *)
theory HeapObjects
  imports HeapAddress
begin

text \<open>
  Objects in the managed heap (\<open>dora/src/object.rs\<close>, \<open>dora/src/size.rs\<close>, \<open>Slot\<close> and weak roots of
  \<open>dora/src/gc/root.rs\<close>, the fillers of \<open>dora/src/gc.rs\<close>).  Memory is a map from the addresses of
  8-byte words to their contents; stack and global slots are words like any other.  What a vtable
  says about its class is a function of the vtable's address.  Address computations within an object
  do not overflow and are written without a check.
\<close>

type_synonym memory = "heap_address \<Rightarrow> usize"

subsection \<open>Sizes\<close>

datatype instance_size =
    Fixed usize
  | PrimitiveArray usize
  | ObjArray
  | UnitArray
  | StructArray usize
  | FreeArray
  | CodeObject
  | Str

definition header_size :: usize where "header_size = 16"

definition array_header_size :: usize where "array_header_size = header_size + ptr_width_usize"

fun instance_size_of :: "instance_size \<Rightarrow> usize option" where
  "instance_size_of (PrimitiveArray _) = None"
| "instance_size_of ObjArray = None"
| "instance_size_of Str = None"
| "instance_size_of (Fixed n) = Some n"
| "instance_size_of FreeArray = None"
| "instance_size_of (StructArray _) = None"
| "instance_size_of UnitArray = Some array_header_size"
| "instance_size_of CodeObject = None"

fun element_size_of :: "instance_size \<Rightarrow> usize option" where
  "element_size_of (PrimitiveArray esize) = Some esize"
| "element_size_of ObjArray = Some ptr_width_usize"
| "element_size_of Str = Some 1"
| "element_size_of (Fixed _) = None"
| "element_size_of FreeArray = Some ptr_width_usize"
| "element_size_of (StructArray esize) = Some esize"
| "element_size_of UnitArray = None"
| "element_size_of CodeObject = Some ptr_width_usize"

text \<open>A class instance as its vtable shows it: the vtable's own two sizes are computed from the
  instance size when the class is created (\<open>create_class_instance_with_vtable\<close>).\<close>

record class_info =
  ci_size :: instance_size
  ci_ref_fields :: "usize list"

type_synonym classes = "heap_address \<Rightarrow> class_info"

definition vt_instance_size :: "class_info \<Rightarrow> usize" where
  "vt_instance_size c = (case instance_size_of (ci_size c) of Some n \<Rightarrow> n | None \<Rightarrow> 0)"

definition vt_element_size :: "class_info \<Rightarrow> usize" where
  "vt_element_size c = (case element_size_of (ci_size c) of Some n \<Rightarrow> n | None \<Rightarrow> 2 ^ 64 - 1)"

subsection \<open>Headers\<close>

definition MARK_BITS :: nat where "MARK_BITS = 2"
definition MARK_MASK :: usize where "MARK_MASK = push_bit MARK_BITS 2 - 1"
definition FWD_MASK :: usize where "FWD_MASK = 2 ^ 64 - 1 - MARK_MASK"

definition vtblptr :: "memory \<Rightarrow> heap_address \<Rightarrow> heap_address" where
  "vtblptr m obj = m obj"

definition fwd_word :: "heap_address \<Rightarrow> heap_address" where
  "fwd_word obj = obj + 8"

definition set_vtblptr :: "heap_address \<Rightarrow> heap_address \<Rightarrow> memory \<Rightarrow> memory" where
  "set_vtblptr obj addr m = m(obj := addr)"

definition vtblptr_forward :: "heap_address \<Rightarrow> heap_address \<Rightarrow> memory \<Rightarrow> memory" where
  "vtblptr_forward obj addr m = m(obj := addr OR 1)"

definition vtblptr_forwarded :: "memory \<Rightarrow> heap_address \<Rightarrow> heap_address option" where
  "vtblptr_forwarded m obj = (if m obj AND 1 = 1 then Some (m obj AND (2 ^ 64 - 1 - 1)) else None)"

definition clear_fwdptr :: "heap_address \<Rightarrow> memory \<Rightarrow> memory" where
  "clear_fwdptr obj m = m(fwd_word obj := 0)"

definition fwdptr_non_atomic :: "memory \<Rightarrow> heap_address \<Rightarrow> heap_address" where
  "fwdptr_non_atomic m obj = m (fwd_word obj) AND FWD_MASK"

definition set_fwdptr_non_atomic :: "heap_address \<Rightarrow> heap_address \<Rightarrow> memory \<Rightarrow> memory result" where
  "set_fwdptr_non_atomic obj addr m =
     rbind (rassert (addr AND MARK_MASK = 0)) (\<lambda>_.
     Inr (m(fwd_word obj := addr OR (m (fwd_word obj) AND MARK_MASK))))"

definition mark_non_atomic :: "heap_address \<Rightarrow> memory \<Rightarrow> memory" where
  "mark_non_atomic obj m = m(fwd_word obj := m (fwd_word obj) OR 1)"

definition unmark_non_atomic :: "heap_address \<Rightarrow> memory \<Rightarrow> memory" where
  "unmark_non_atomic obj m = m(fwd_word obj := m (fwd_word obj) AND FWD_MASK)"

definition is_marked_non_atomic :: "memory \<Rightarrow> heap_address \<Rightarrow> bool" where
  "is_marked_non_atomic m obj = (m (fwd_word obj) AND MARK_MASK \<noteq> 0)"

definition try_mark_non_atomic :: "heap_address \<Rightarrow> memory \<Rightarrow> bool \<times> memory" where
  "try_mark_non_atomic obj m =
     (if m (fwd_word obj) AND MARK_MASK \<noteq> 0 then (False, m)
      else (True, m(fwd_word obj := m (fwd_word obj) OR 1)))"

subsection \<open>Objects\<close>

definition array_len :: "memory \<Rightarrow> heap_address \<Rightarrow> usize" where
  "array_len m obj = m (obj + header_size)"

definition array_data :: "heap_address \<Rightarrow> heap_address" where
  "array_data obj = obj + array_header_size"

definition determine_array_size :: "memory \<Rightarrow> heap_address \<Rightarrow> usize \<Rightarrow> usize" where
  "determine_array_size m obj element_size =
     (header_size + ptr_width_usize + element_size * array_len m obj + 7) div 8 * 8"

definition size_for_vtblptr :: "classes \<Rightarrow> memory \<Rightarrow> heap_address \<Rightarrow> heap_address \<Rightarrow> usize" where
  "size_for_vtblptr cls m obj vtbl =
     (if vt_instance_size (cls vtbl) \<noteq> 0 then vt_instance_size (cls vtbl)
      else determine_array_size m obj (vt_element_size (cls vtbl)))"

definition obj_size :: "classes \<Rightarrow> memory \<Rightarrow> heap_address \<Rightarrow> usize" where
  "obj_size cls m obj = size_for_vtblptr cls m obj (vtblptr m obj)"

definition is_array_ref :: "classes \<Rightarrow> memory \<Rightarrow> heap_address \<Rightarrow> bool" where
  "is_array_ref cls m obj = (ci_size (cls (vtblptr m obj)) = ObjArray)"

text \<open>The slots \<open>visit_refs\<close> passes to its callback, in order.  A callback stores into slots and mark
  words only, so the bounds are those at the start of the visit.\<close>

definition visit_object_array_refs :: "memory \<Rightarrow> heap_address \<Rightarrow> region option \<Rightarrow> heap_address list" where
  "visit_object_array_refs m obj rng =
     (let ptr = array_data obj; limit = ptr + array_len m obj * 8;
          ptr' = (case rng of Some r \<Rightarrow> max ptr (r_start r) | None \<Rightarrow> ptr);
          limit' = (case rng of Some r \<Rightarrow> min limit (r_end r) | None \<Rightarrow> limit)
      in map (\<lambda>i. ptr' + i * 8) [0..<(limit' - ptr' + 7) div 8])"

definition visit_struct_array_refs ::
  "memory \<Rightarrow> heap_address \<Rightarrow> class_info \<Rightarrow> usize \<Rightarrow> region option \<Rightarrow> heap_address list" where
  "visit_struct_array_refs m obj c element_size rng =
     (if ci_ref_fields c = [] then []
      else let array_start = array_data obj; array_limit = array_start + element_size * array_len m obj;
          ptr = (case rng of Some r \<Rightarrow> if array_start < r_start r
                    then array_start + (r_start r - array_start + element_size - 1) div element_size * element_size
                    else array_start
                | None \<Rightarrow> array_start);
          limit = (case rng of Some r \<Rightarrow> min array_limit (r_end r) | None \<Rightarrow> array_limit)
      in concat (map (\<lambda>i. map (\<lambda>off. ptr + i * element_size + off) (ci_ref_fields c))
           [0..<(limit - ptr + element_size - 1) div element_size]))"

definition visit_fixed_object :: "heap_address \<Rightarrow> class_info \<Rightarrow> heap_address list" where
  "visit_fixed_object obj c = map (\<lambda>off. obj + off) (ci_ref_fields c)"

definition visit_refs :: "memory \<Rightarrow> heap_address \<Rightarrow> class_info \<Rightarrow> region option \<Rightarrow> heap_address list result" where
  "visit_refs m obj c rng =
     (case ci_size c of
        ObjArray \<Rightarrow> Inr (visit_object_array_refs m obj rng)
      | StructArray element_size \<Rightarrow> Inr (visit_struct_array_refs m obj c element_size rng)
      | UnitArray \<Rightarrow> Inr []
      | PrimitiveArray _ \<Rightarrow> Inr []
      | Str \<Rightarrow> Inr []
      | FreeArray \<Rightarrow> Inr []
      | Fixed _ \<Rightarrow> Inr (visit_fixed_object obj c)
      | CodeObject \<Rightarrow> Inl Unreachable)"

definition visit_reference_fields :: "classes \<Rightarrow> memory \<Rightarrow> heap_address \<Rightarrow> heap_address list result" where
  "visit_reference_fields cls m obj = visit_refs m obj (cls (vtblptr m obj)) None"

definition visit_reference_fields_within :: "classes \<Rightarrow> memory \<Rightarrow> heap_address \<Rightarrow> region \<Rightarrow> heap_address list result" where
  "visit_reference_fields_within cls m obj rng = visit_refs m obj (cls (vtblptr m obj)) (Some rng)"

text \<open>\<open>ptr::copy\<close> of a whole number of words; source and destination may overlap.\<close>

definition copy_to :: "heap_address \<Rightarrow> heap_address \<Rightarrow> usize \<Rightarrow> memory \<Rightarrow> memory" where
  "copy_to obj dest sz m = (\<lambda>a. if dest \<le> a \<and> a < dest + sz then m (a - dest + obj) else m a)"

subsection \<open>Roots\<close>

definition slot_get :: "memory \<Rightarrow> heap_address \<Rightarrow> heap_address" where
  "slot_get m slot = m slot"

definition slot_set :: "heap_address \<Rightarrow> heap_address \<Rightarrow> memory \<Rightarrow> memory" where
  "slot_set slot obj m = m(slot := obj)"

text \<open>\<open>iterate_weak_roots\<close>: the finalizers' objects are updated and the dead ones dropped.\<close>

definition iterate_weak_roots :: "(heap_address \<Rightarrow> heap_address option) \<Rightarrow> (heap_address \<times> 't) list \<Rightarrow> (heap_address \<times> 't) list" where
  "iterate_weak_roots object_updater finalizers =
     (let updated = map (\<lambda>(a, t). (case object_updater a of Some a' \<Rightarrow> a' | None \<Rightarrow> addr_null, t)) finalizers
      in if list_ex (\<lambda>(a, t). object_updater a = None) finalizers
         then filter (\<lambda>(a, t). a \<noteq> addr_null) updated else updated)"

subsection \<open>Fillers\<close>

text \<open>The vtables of the two filler classes.\<close>

record fillers =
  free_object_vtable :: heap_address
  free_array_vtable :: heap_address

definition fill_region :: "fillers \<Rightarrow> heap_address \<Rightarrow> heap_address \<Rightarrow> memory \<Rightarrow> memory result" where
  "fill_region fs start fin m =
     (if start = fin then Inr m
      else rbind (offset_from fin start) (\<lambda>d.
        if d = ptr_width_usize then Inr (m(start := 0))
        else if d = header_size then Inr (m(start := free_object_vtable fs))
        else rbind (offset start array_header_size) (\<lambda>data.
             rbind (offset_from fin data) (\<lambda>bytes.
             Inr (m(start := free_array_vtable fs, start + ptr_width_usize := 0,
                    start + header_size := bytes div ptr_width_usize))))))"

definition fill_region_with_free ::
  "fillers \<Rightarrow> heap_address \<Rightarrow> heap_address \<Rightarrow> heap_address \<Rightarrow> memory \<Rightarrow> memory result" where
  "fill_region_with_free fs start fin next_free m =
     (if start = fin then Inl ExplicitPanic
      else rbind (offset_from fin start) (\<lambda>d.
        if d = ptr_width_usize then Inl ExplicitPanic
        else if d = header_size then
          Inr (m(start := free_object_vtable fs, start + 8 := next_free))
        else rbind (offset start array_header_size) (\<lambda>data.
             rbind (offset_from fin data) (\<lambda>bytes.
             Inr (m(start := free_array_vtable fs, start + 8 := next_free,
                    start + 16 := bytes div ptr_width_usize))))))"

end
