(* ===== verification/MarkCompact.thy ===== *)
theory MarkCompact
  imports HeapObjects Calls
begin

text \<open>
  The mark-compact collector (\<open>dora/src/gc/compact.rs\<close>) with its marking phase
  (\<open>dora/src/gc/marking.rs\<close>): marking from the roots, computing forwarding addresses in the order of
  the heap, updating every reference, and sliding the live objects down.  The collection runs with the
  world stopped.  Walking a heap with an object of size 0, like marking for ever, has the value
  \<open>None\<close>.
\<close>

subsection \<open>Marking\<close>

text \<open>The memory and the marking stack, top first.\<close>

type_synonym marking = "memory \<times> heap_address list"

definition mark_slot :: "region \<Rightarrow> region \<Rightarrow> heap_address \<Rightarrow> marking \<Rightarrow> marking result" where
  "mark_slot heap perm slot = (\<lambda>(m, stack).
     let ptr = slot_get m slot in
     if r_contains heap ptr then
       (if \<not> is_marked_non_atomic m ptr then Inr (mark_non_atomic ptr m, ptr # stack) else Inr (m, stack))
     else rbind (rassert (ptr = addr_null \<or> r_contains perm ptr)) (\<lambda>_. Inr (m, stack)))"

fun mark_slots :: "region \<Rightarrow> region \<Rightarrow> heap_address list \<Rightarrow> marking \<Rightarrow> marking result" where
  "mark_slots heap perm [] s = Inr s"
| "mark_slots heap perm (slot # slots) s = rbind (mark_slot heap perm slot s) (mark_slots heap perm slots)"

partial_function (option) mark_loop :: "classes \<Rightarrow> region \<Rightarrow> region \<Rightarrow> memory \<Rightarrow> heap_address list \<Rightarrow> memory call" where
  "mark_loop cls heap perm m stack =
     (case stack of
        [] \<Rightarrow> Some (Inr m)
      | obj # stack \<Rightarrow>
          (case rbind (visit_reference_fields cls m obj) (\<lambda>slots. mark_slots heap perm slots (m, stack)) of
             Inl e \<Rightarrow> Some (Inl e)
           | Inr s \<Rightarrow> mark_loop cls heap perm (fst s) (snd s)))"

declare mark_loop.simps [code]

definition marking_start :: "classes \<Rightarrow> heap_address list \<Rightarrow> region \<Rightarrow> region \<Rightarrow> memory \<Rightarrow> memory call" where
  "marking_start cls rootset heap perm m =
     cbind (Some (mark_slots heap perm rootset (m, []))) (\<lambda>s. mark_loop cls heap perm (fst s) (snd s))"

subsection \<open>The collector\<close>

record mark_compact =
  mc_heap :: region
  mc_readonly :: region
  mc_init_top :: heap_address
  mc_top :: heap_address
  mc_rootset :: "heap_address list"
  mc_memory :: memory
  mc_finalizers :: "(heap_address \<times> usize) list"

text \<open>\<open>walk_heap\<close> calls its callback for every object between the start of the heap and its old top.\<close>

partial_function (option) walk_from ::
  "classes \<Rightarrow> (heap_address \<Rightarrow> usize \<Rightarrow> mark_compact \<Rightarrow> mark_compact result) \<Rightarrow> heap_address \<Rightarrow> mark_compact \<Rightarrow>
   mark_compact call" where
  "walk_from cls fct scan mc =
     (if scan < mc_init_top mc then
        (if vtblptr (mc_memory mc) scan = addr_null then walk_from cls fct (scan + 8) mc
         else (case fct scan (obj_size cls (mc_memory mc) scan) mc of
                 Inl e \<Rightarrow> Some (Inl e)
               | Inr mc' \<Rightarrow> walk_from cls fct (scan + obj_size cls (mc_memory mc) scan) mc'))
      else Some (Inr mc))"

declare walk_from.simps [code]

definition walk_heap ::
  "classes \<Rightarrow> (heap_address \<Rightarrow> usize \<Rightarrow> mark_compact \<Rightarrow> mark_compact result) \<Rightarrow> mark_compact \<Rightarrow> mark_compact call" where
  "walk_heap cls fct mc = walk_from cls fct (r_start (mc_heap mc)) mc"

definition mark_live :: "classes \<Rightarrow> mark_compact \<Rightarrow> mark_compact call" where
  "mark_live cls mc =
     cbind (marking_start cls (mc_rootset mc) (mc_heap mc) (mc_readonly mc) (mc_memory mc)) (\<lambda>m.
     Some (Inr (mc\<lparr>mc_memory := m\<rparr>)))"

definition mc_allocate :: "usize \<Rightarrow> mark_compact \<Rightarrow> (heap_address \<times> mark_compact) result" where
  "mc_allocate object_size mc =
     rbind (offset (mc_top mc) object_size) (\<lambda>next_top.
     if next_top \<le> r_end (mc_heap mc) then Inr (mc_top mc, mc\<lparr>mc_top := next_top\<rparr>) else Inl ExplicitPanic)"

definition forward_object :: "heap_address \<Rightarrow> usize \<Rightarrow> mark_compact \<Rightarrow> mark_compact result" where
  "forward_object addr object_size mc =
     (if is_marked_non_atomic (mc_memory mc) addr then
        rbind (mc_allocate object_size mc) (\<lambda>(fwd, mc).
        rbind (set_fwdptr_non_atomic addr fwd (mc_memory mc)) (\<lambda>m.
        Inr (mc\<lparr>mc_memory := m\<rparr>)))
      else Inr mc)"

definition compute_forward :: "classes \<Rightarrow> mark_compact \<Rightarrow> mark_compact call" where
  "compute_forward cls mc = walk_heap cls forward_object mc"

definition forward_reference :: "heap_address \<Rightarrow> mark_compact \<Rightarrow> mark_compact result" where
  "forward_reference slot mc =
     (let m = mc_memory mc; object_addr = slot_get m slot in
      if r_contains (mc_heap mc) object_addr then
        rbind (rassert (is_marked_non_atomic m object_addr)) (\<lambda>_.
        rbind (rassert (r_contains (mc_heap mc) (fwdptr_non_atomic m object_addr))) (\<lambda>_.
        Inr (mc\<lparr>mc_memory := slot_set slot (fwdptr_non_atomic m object_addr) m\<rparr>)))
      else rbind (rassert (object_addr = addr_null \<or> r_contains (mc_readonly mc) object_addr)) (\<lambda>_. Inr mc))"

fun forward_slots :: "heap_address list \<Rightarrow> mark_compact \<Rightarrow> mark_compact result" where
  "forward_slots [] mc = Inr mc"
| "forward_slots (slot # slots) mc = rbind (forward_reference slot mc) (forward_slots slots)"

definition update_object :: "classes \<Rightarrow> heap_address \<Rightarrow> usize \<Rightarrow> mark_compact \<Rightarrow> mark_compact result" where
  "update_object cls addr object_size mc =
     (if is_marked_non_atomic (mc_memory mc) addr then
        rbind (visit_reference_fields cls (mc_memory mc) addr) (\<lambda>slots. forward_slots slots mc)
      else Inr mc)"

definition weak_root_updater :: "memory \<Rightarrow> heap_address \<Rightarrow> heap_address option" where
  "weak_root_updater m current_address =
     (if is_marked_non_atomic m current_address then Some (fwdptr_non_atomic m current_address) else None)"

definition update_references :: "classes \<Rightarrow> mark_compact \<Rightarrow> mark_compact call" where
  "update_references cls mc =
     cbind (walk_heap cls (update_object cls) mc) (\<lambda>mc.
     Some (forward_slots (mc_rootset mc)
       (mc\<lparr>mc_finalizers := iterate_weak_roots (weak_root_updater (mc_memory mc)) (mc_finalizers mc)\<rparr>)))"

definition relocate_object :: "heap_address \<Rightarrow> usize \<Rightarrow> mark_compact \<Rightarrow> mark_compact result" where
  "relocate_object address object_size mc =
     (if is_marked_non_atomic (mc_memory mc) address then
        (let dest = fwdptr_non_atomic (mc_memory mc) address in
         rbind (rassert (r_contains (mc_heap mc) dest)) (\<lambda>_.
         rbind (offset dest object_size) (\<lambda>next_dest.
         rbind (rassert (valid_top (mc_heap mc) next_dest)) (\<lambda>_.
         let m = (if address \<noteq> dest then copy_to address dest object_size (mc_memory mc) else mc_memory mc)
         in Inr (mc\<lparr>mc_memory := unmark_non_atomic dest m\<rparr>)))))
      else Inr mc)"

definition relocate :: "classes \<Rightarrow> mark_compact \<Rightarrow> mark_compact call" where
  "relocate cls mc = walk_heap cls relocate_object mc"

definition mc_collect :: "classes \<Rightarrow> mark_compact \<Rightarrow> mark_compact call" where
  "mc_collect cls mc =
     cbind (mark_live cls mc) (\<lambda>mc.
     cbind (compute_forward cls mc) (\<lambda>mc.
     cbind (update_references cls mc) (relocate cls)))"

end
