(* ===== verification/MarkCompactProofs.thy ===== *)
theory MarkCompactProofs
  imports MarkCompact
begin

text \<open>
  The four phases of the mark-compact collector on a heap that is laid out as a sequence of objects
  and one-word gaps.
\<close>

subsection \<open>Mark bits\<close>

lemma MARK_MASK_mask: "MARK_MASK = mask 3"
  by (simp add: MARK_MASK_def MARK_BITS_def mask_eq_exp_minus_1 push_bit_eq_mult)

lemma FWD_MASK_bit: "bit FWD_MASK n \<longleftrightarrow> 3 \<le> n \<and> n < 64"
proof -
  have "FWD_MASK = push_bit 3 (mask 61)"
    by (simp add: FWD_MASK_def MARK_MASK_mask mask_eq_exp_minus_1 push_bit_eq_mult)
  then show ?thesis unfolding \<open>FWD_MASK = push_bit 3 (mask 61)\<close> by (auto simp: bit_simps)
qed

text \<open>Aligned addresses, and mark words without and with a mark.\<close>

definition aligned :: "heap_address \<Rightarrow> bool" where
  "aligned a = (8 dvd a \<and> a < 2 ^ 64)"

lemma aligned_and_mark: "aligned a \<Longrightarrow> a AND MARK_MASK = 0"
  by (simp add: aligned_def MARK_MASK_mask take_bit_eq_mask [symmetric] take_bit_eq_mod)

lemma nat_bit_small: "a < 2 ^ k \<Longrightarrow> bit a n \<Longrightarrow> n < k" for a :: nat
proof (rule ccontr)
  assume a: "a < 2 ^ k" "bit a n" "\<not> n < k"
  then have "(2 :: nat) ^ k \<le> 2 ^ n" by (intro power_increasing) auto
  with a show False by (simp add: bit_iff_odd)
qed

lemma aligned_bits: "aligned a \<Longrightarrow> bit a n \<Longrightarrow> 3 \<le> n \<and> n < 64"
proof -
  assume a: "aligned a" "bit a n"
  then have "bit (take_bit 3 a) n = False"
    using aligned_and_mark [OF a(1)] by (simp add: MARK_MASK_mask take_bit_eq_mask)
  with a nat_bit_small [of a 64 n] show ?thesis by (auto simp: aligned_def bit_take_bit_iff)
qed

lemma marked_fwd:
  assumes "aligned a"
  shows "(a OR 1) AND MARK_MASK \<noteq> 0" "(a OR 1) AND FWD_MASK = a" "a AND FWD_MASK = a"
proof -
  have "bit ((a OR 1) AND MARK_MASK) 0" by (simp add: MARK_MASK_mask bit_simps)
  then show "(a OR 1) AND MARK_MASK \<noteq> 0" by (metis bit_0_eq bot_apply bot_bool_def)
  show "(a OR 1) AND FWD_MASK = a"
    using aligned_bits [OF assms] by (intro bit_eqI) (auto simp: bit_simps FWD_MASK_bit)
  show "a AND FWD_MASK = a"
    using aligned_bits [OF assms] by (intro bit_eqI) (auto simp: bit_simps FWD_MASK_bit)
qed

lemma mark_sets: "(x OR 1) AND MARK_MASK \<noteq> 0" for x :: nat
proof -
  have "bit ((x OR 1) AND MARK_MASK) 0" by (simp add: MARK_MASK_mask bit_simps)
  then show ?thesis by (metis bit_0_eq bot_apply bot_bool_def)
qed

lemma mark_only: "x AND MARK_MASK = 0 \<Longrightarrow> (x OR 1) AND MARK_MASK = 1" for x :: nat
proof -
  assume x: "x AND MARK_MASK = 0"
  have "\<not> bit (x AND MARK_MASK) n" for n using x by simp
  then have "bit x n \<Longrightarrow> \<not> n < 3" for n by (simp add: MARK_MASK_mask bit_simps)
  then show ?thesis by (intro bit_eqI) (auto simp: bit_simps MARK_MASK_mask)
qed

subsection \<open>Layout\<close>

datatype cell = Object (cell_addr: heap_address) (cell_size: usize) | Gap (cell_addr: heap_address)

fun cell_end :: "cell \<Rightarrow> heap_address" where
  "cell_end (Object a sz) = a + sz"
| "cell_end (Gap a) = a + 8"

fun contiguous :: "heap_address \<Rightarrow> cell list \<Rightarrow> heap_address \<Rightarrow> bool" where
  "contiguous s [] e = (s = e)"
| "contiguous s (c # cs) e = (cell_addr c = s \<and> s < cell_end c \<and> contiguous (cell_end c) cs e)"

definition objects :: "cell list \<Rightarrow> heap_address set" where
  "objects cs = {a. \<exists>sz. Object a sz \<in> set cs}"

lemma objects_simps [simp]:
  "objects [] = {}" "objects (Object a sz # cs) = insert a (objects cs)" "objects (Gap a # cs) = objects cs"
  "objects (cs @ cs') = objects cs \<union> objects cs'"
  by (auto simp: objects_def)

lemma finite_objects: "finite (objects cs)"
proof (induction cs)
  case (Cons c cs)
  then show ?case by (cases c) simp_all
qed simp

lemma contiguous_append: "contiguous s (cs @ cs') e \<longleftrightarrow> (\<exists>p. contiguous s cs p \<and> contiguous p cs' e)"
  by (induction cs arbitrary: s) auto

lemma contiguous_le: "contiguous s cs e \<Longrightarrow> s \<le> e"
  by (induction cs arbitrary: s) fastforce+

lemma contiguous_bounds: "contiguous s cs e \<Longrightarrow> c \<in> set cs \<Longrightarrow> s \<le> cell_addr c \<and> cell_addr c < cell_end c \<and> cell_end c \<le> e"
proof (induction cs arbitrary: s)
  case (Cons c' cs)
  then show ?case using contiguous_le [of "cell_end c'" cs e] by fastforce
qed simp

lemma contiguous_disjoint:
  "contiguous s cs e \<Longrightarrow> c \<in> set cs \<Longrightarrow> c' \<in> set cs \<Longrightarrow> c = c' \<or> cell_end c \<le> cell_addr c' \<or> cell_end c' \<le> cell_addr c"
proof (induction cs arbitrary: s)
  case (Cons d cs)
  then have "contiguous (cell_end d) cs e" by simp
  with Cons contiguous_bounds [OF this] show ?case by auto
qed simp

text \<open>What a walk reads of a cell.\<close>

definition cell_shape :: "classes \<Rightarrow> memory \<Rightarrow> cell \<Rightarrow> bool" where
  "cell_shape cls m c = (case c of Object a sz \<Rightarrow> m a \<noteq> 0 \<and> obj_size cls m a = sz | Gap a \<Rightarrow> m a = 0)"

lemma walk_from_invariant:
  assumes "contiguous s cs e" and "I cs mc"
    and top: "\<And>cs mc. I cs mc \<Longrightarrow> mc_init_top mc = e"
    and shape: "\<And>c cs mc. I (c # cs) mc \<Longrightarrow> cell_shape cls (mc_memory mc) c"
    and gap: "\<And>a cs mc. I (Gap a # cs) mc \<Longrightarrow> I cs mc"
    and step: "\<And>a sz cs mc. I (Object a sz # cs) mc \<Longrightarrow> \<exists>mc'. fct a sz mc = Inr mc' \<and> I cs mc'"
  shows "\<exists>mc'. walk_from cls fct s mc = ret mc' \<and> I [] mc'"
  using assms(1,2)
proof (induction cs arbitrary: s mc)
  case Nil
  then show ?case using top by (auto simp: walk_from.simps ret_def)
next
  case (Cons c cs)
  have "s < e" using Cons.prems(1) contiguous_le by fastforce
  show ?case
  proof (cases c)
    case (Gap a)
    then have "walk_from cls fct s mc = walk_from cls fct (s + 8) mc"
      using shape [OF Cons.prems(2)] Cons.prems(1) \<open>s < e\<close> top [OF Cons.prems(2)]
      by (simp add: walk_from.simps [of cls fct s] cell_shape_def vtblptr_def addr_null_def)
    moreover have "I cs mc" using gap Cons.prems(2) Gap by blast
    ultimately show ?thesis using Cons.IH [of "s + 8" mc] Cons.prems(1) Gap by auto
  next
    case (Object a sz)
    then obtain mc' where mc': "fct a sz mc = Inr mc'" "I cs mc'" using step Cons.prems(2) by blast
    have "walk_from cls fct s mc = walk_from cls fct (a + sz) mc'"
      using shape [OF Cons.prems(2)] Cons.prems(1) \<open>s < e\<close> top [OF Cons.prems(2)] mc'(1) Object
      by (simp add: walk_from.simps [of cls fct s] cell_shape_def vtblptr_def addr_null_def)
    with Cons.IH [of "a + sz" mc'] Cons.prems(1) mc'(2) Object show ?thesis by auto
  qed
qed

subsection \<open>Well-formed heaps\<close>

text \<open>The objects reachable from the roots.\<close>

inductive_set reachable :: "classes \<Rightarrow> region \<Rightarrow> memory \<Rightarrow> heap_address list \<Rightarrow> heap_address set"
  for cls heap m roots where
  root: "r \<in> set roots \<Longrightarrow> r_contains heap (m r) \<Longrightarrow> m r \<in> reachable cls heap m roots"
| field: "a \<in> reachable cls heap m roots \<Longrightarrow> visit_reference_fields cls m a = Inr ss \<Longrightarrow> s \<in> set ss \<Longrightarrow>
    r_contains heap (m s) \<Longrightarrow> m s \<in> reachable cls heap m roots"

definition ptr_ok :: "region \<Rightarrow> region \<Rightarrow> heap_address set \<Rightarrow> heap_address \<Rightarrow> bool" where
  "ptr_ok heap perm objs p = (if r_contains heap p then p \<in> objs else p = addr_null \<or> r_contains perm p)"

definition body_start :: "classes \<Rightarrow> memory \<Rightarrow> heap_address \<Rightarrow> heap_address" where
  "body_start cls m a = a + (if vt_instance_size (cls (m a)) = 0 then array_header_size else header_size)"

text \<open>The references of an object lie in its body and point to objects or outside of the heap.\<close>

definition fields_ok :: "classes \<Rightarrow> region \<Rightarrow> region \<Rightarrow> heap_address set \<Rightarrow> memory \<Rightarrow> heap_address \<Rightarrow> usize \<Rightarrow> bool" where
  "fields_ok cls heap perm objs m a sz =
     (case visit_reference_fields cls m a of Inl _ \<Rightarrow> False
      | Inr ss \<Rightarrow> distinct ss \<and> (\<forall>s\<in>set ss. 8 dvd s \<and> body_start cls m a \<le> s \<and> s + 8 \<le> a + sz \<and> ptr_ok heap perm objs (m s)))"

definition object_ok :: "classes \<Rightarrow> mark_compact \<Rightarrow> cell list \<Rightarrow> heap_address \<Rightarrow> usize \<Rightarrow> bool" where
  "object_ok cls mc cs a sz =
     (8 dvd sz \<and> header_size \<le> sz \<and> mc_memory mc (fwd_word a) AND MARK_MASK = 0
      \<and> fields_ok cls (mc_heap mc) (mc_readonly mc) (objects cs) (mc_memory mc) a sz)"

definition heap_ok :: "classes \<Rightarrow> mark_compact \<Rightarrow> cell list \<Rightarrow> bool" where
  "heap_ok cls mc cs =
     (0 < r_start (mc_heap mc) \<and> 8 dvd r_start (mc_heap mc) \<and> r_end (mc_heap mc) < 2 ^ 64
      \<and> mc_init_top mc \<le> r_end (mc_heap mc) \<and> mc_top mc = r_start (mc_heap mc)
      \<and> contiguous (r_start (mc_heap mc)) cs (mc_init_top mc)
      \<and> (\<forall>c\<in>set cs. cell_shape cls (mc_memory mc) c)
      \<and> (\<forall>a sz. Object a sz \<in> set cs \<longrightarrow> object_ok cls mc cs a sz)
      \<and> distinct (mc_rootset mc)
      \<and> (\<forall>r\<in>set (mc_rootset mc). \<not> r_contains (mc_heap mc) r
           \<and> ptr_ok (mc_heap mc) (mc_readonly mc) (objects cs) (mc_memory mc r))
      \<and> (\<forall>(a, t)\<in>set (mc_finalizers mc). a \<in> objects cs))"

definition live :: "classes \<Rightarrow> mark_compact \<Rightarrow> heap_address set" where
  "live cls mc = reachable cls (mc_heap mc) (mc_memory mc) (mc_rootset mc)"

definition obj_slots :: "classes \<Rightarrow> memory \<Rightarrow> heap_address \<Rightarrow> heap_address list" where
  "obj_slots cls m a = (case visit_reference_fields cls m a of Inr ss \<Rightarrow> ss | Inl _ \<Rightarrow> [])"

lemma array_size_large: "vt_instance_size (cls (m a)) = 0 \<Longrightarrow> array_header_size \<le> obj_size cls m a"
proof -
  assume "vt_instance_size (cls (m a)) = 0"
  moreover have "(24 + x + 7) div 8 * 8 \<ge> 24" for x :: nat by (simp add: mult.commute [of _ 8])
  ultimately show ?thesis
    by (simp add: obj_size_def vtblptr_def size_for_vtblptr_def determine_array_size_def array_header_size_def header_size_def
        ptr_width_usize_def)
qed

lemma shape_frame:
  assumes "m' a = m a" "vt_instance_size (cls (m a)) = 0 \<Longrightarrow> m' (a + header_size) = m (a + header_size)"
  shows "obj_size cls m' a = obj_size cls m a" "visit_reference_fields cls m' a = visit_reference_fields cls m a"
  using assms
  by (auto simp: obj_size_def vtblptr_def size_for_vtblptr_def determine_array_size_def array_len_def
      visit_reference_fields_def visit_refs_def visit_object_array_refs_def visit_struct_array_refs_def visit_fixed_object_def
      vt_instance_size_def split: instance_size.splits)

lemma heap_okD:
  assumes "heap_ok cls mc cs"
  shows "contiguous (r_start (mc_heap mc)) cs (mc_init_top mc)" "mc_init_top mc \<le> r_end (mc_heap mc)"
    "r_end (mc_heap mc) < 2 ^ 64" "0 < r_start (mc_heap mc)" "8 dvd r_start (mc_heap mc)" "mc_top mc = r_start (mc_heap mc)"
    "c \<in> set cs \<Longrightarrow> cell_shape cls (mc_memory mc) c"
    "Object a sz \<in> set cs \<Longrightarrow> object_ok cls mc cs a sz"
    "distinct (mc_rootset mc)"
    "r \<in> set (mc_rootset mc) \<Longrightarrow> \<not> r_contains (mc_heap mc) r \<and> ptr_ok (mc_heap mc) (mc_readonly mc) (objects cs) (mc_memory mc r)"
    "(a, t) \<in> set (mc_finalizers mc) \<Longrightarrow> a \<in> objects cs"
  using assms unfolding heap_ok_def by blast+

lemma same_cell:
  assumes "contiguous s cs e" "c \<in> set cs" "c' \<in> set cs" "cell_addr c \<le> x" "x < cell_end c" "cell_addr c' \<le> x" "x < cell_end c'"
  shows "c = c'"
  using contiguous_disjoint [OF assms(1-3)] assms(4-7) by linarith

lemma object_slots:
  assumes "heap_ok cls mc cs" "Object a sz \<in> set cs"
  shows "visit_reference_fields cls (mc_memory mc) a = Inr (obj_slots cls (mc_memory mc) a)"
    "distinct (obj_slots cls (mc_memory mc) a)"
    "s \<in> set (obj_slots cls (mc_memory mc) a) \<Longrightarrow> body_start cls (mc_memory mc) a \<le> s \<and> s + 8 \<le> a + sz
       \<and> ptr_ok (mc_heap mc) (mc_readonly mc) (objects cs) (mc_memory mc s)"
  using heap_okD(8) [OF assms] by (auto simp: object_ok_def fields_ok_def obj_slots_def split: sum.splits)

text \<open>The words a collection may change before it moves the objects: the mark words and references of
  objects, and words outside of the heap.\<close>

definition touchable :: "classes \<Rightarrow> mark_compact \<Rightarrow> cell list \<Rightarrow> heap_address set" where
  "touchable cls mc cs = fwd_word ` objects cs \<union> (\<Union>a\<in>objects cs. set (obj_slots cls (mc_memory mc) a))
     \<union> {x. \<not> r_contains (mc_heap mc) x}"

lemma touchable_cell:
  assumes ok: "heap_ok cls mc cs" and x: "x \<in> touchable cls mc cs" and c: "c \<in> set cs" "cell_addr c \<le> x" "x < cell_end c"
  shows "\<exists>a sz. c = Object a sz \<and> (x = fwd_word a \<or> x \<in> set (obj_slots cls (mc_memory mc) a))"
proof -
  note lay = heap_okD(1) [OF ok]
  have "r_contains (mc_heap mc) x"
    using contiguous_bounds [OF lay c(1)] c heap_okD(2) [OF ok] by (auto simp: r_contains_def)
  then obtain a where a: "a \<in> objects cs" "x = fwd_word a \<or> x \<in> set (obj_slots cls (mc_memory mc) a)"
    using x unfolding touchable_def by blast
  then obtain sz where sz: "Object a sz \<in> set cs" by (auto simp: objects_def)
  have "a \<le> x \<and> x < a + sz"
    using a(2) object_slots(3) [OF ok sz, of x] heap_okD(8) [OF ok sz]
    by (auto simp: fwd_word_def object_ok_def header_size_def array_header_size_def ptr_width_usize_def body_start_def split: if_splits)
  then have "c = Object a sz" using same_cell [OF lay c(1) sz c(2,3)] by simp
  with a(2) show ?thesis by blast
qed

lemma untouched:
  assumes ok: "heap_ok cls mc cs"
  shows "Object a sz \<in> set cs \<Longrightarrow> a \<notin> touchable cls mc cs"
    and "Object a sz \<in> set cs \<Longrightarrow> vt_instance_size (cls (mc_memory mc a)) = 0 \<Longrightarrow> a + header_size \<notin> touchable cls mc cs"
    and "Gap a \<in> set cs \<Longrightarrow> a \<notin> touchable cls mc cs"
proof -
  show "a \<notin> touchable cls mc cs" if obj: "Object a sz \<in> set cs"
  proof
    assume "a \<in> touchable cls mc cs"
    then have "a = fwd_word a \<or> a \<in> set (obj_slots cls (mc_memory mc) a)"
      using touchable_cell [OF ok _ obj] heap_okD(8) [OF ok obj] by (auto simp: object_ok_def header_size_def)
    with object_slots(3) [OF ok obj, of a] show False
      by (auto simp: fwd_word_def body_start_def header_size_def array_header_size_def split: if_splits)
  qed
  show "a + header_size \<notin> touchable cls mc cs"
    if obj: "Object a sz \<in> set cs" and arr: "vt_instance_size (cls (mc_memory mc a)) = 0"
  proof
    assume t: "a + header_size \<in> touchable cls mc cs"
    have "a + header_size < a + sz"
      using array_size_large [of cls "mc_memory mc" a, OF arr] heap_okD(7) [OF ok obj]
      by (simp add: cell_shape_def array_header_size_def ptr_width_usize_def)
    then have "a + header_size = fwd_word a \<or> a + header_size \<in> set (obj_slots cls (mc_memory mc) a)"
      using touchable_cell [OF ok t obj] by simp
    with object_slots(3) [OF ok obj, of "a + header_size"] arr show False
      by (auto simp: fwd_word_def body_start_def header_size_def array_header_size_def ptr_width_usize_def)
  qed
  show "a \<notin> touchable cls mc cs" if gap: "Gap a \<in> set cs"
    using touchable_cell [OF ok _ gap, of a] by auto
qed

lemma shape_kept:
  assumes ok: "heap_ok cls mc cs" and same: "\<And>x. x \<notin> touchable cls mc cs \<Longrightarrow> m' x = mc_memory mc x"
  shows "c \<in> set cs \<Longrightarrow> cell_shape cls m' c"
    and "Object a sz \<in> set cs \<Longrightarrow> visit_reference_fields cls m' a = Inr (obj_slots cls (mc_memory mc) a)"
proof -
  have frame: "m' a = mc_memory mc a" "vt_instance_size (cls (mc_memory mc a)) = 0 \<Longrightarrow> m' (a + header_size) = mc_memory mc (a + header_size)"
    if "Object a sz \<in> set cs" for a sz
    using untouched(1,2) [OF ok that] same by blast+
  have kept: "obj_size cls m' a = obj_size cls (mc_memory mc) a"
    "visit_reference_fields cls m' a = visit_reference_fields cls (mc_memory mc) a" if "Object a sz \<in> set cs" for a sz
    by (rule shape_frame [of m' a "mc_memory mc" cls]; use frame that in blast)+
  show "cell_shape cls m' c" if c: "c \<in> set cs"
  proof (cases c)
    case (Object a sz)
    with c heap_okD(7) [OF ok c] kept(1) [of a sz] frame(1) [of a sz] show ?thesis by (auto simp: cell_shape_def)
  next
    case (Gap a)
    with c heap_okD(7) [OF ok c] untouched(3) [OF ok] same show ?thesis by (auto simp: cell_shape_def)
  qed
  show "visit_reference_fields cls m' a = Inr (obj_slots cls (mc_memory mc) a)" if obj: "Object a sz \<in> set cs"
    using kept(2) [OF obj] object_slots(1) [OF ok obj] by simp
qed

subsection \<open>Marking\<close>

definition mark_all :: "heap_address set \<Rightarrow> memory \<Rightarrow> memory" where
  "mark_all M m = (\<lambda>x. if x \<in> fwd_word ` M then m x OR 1 else m x)"

lemma fwd_word_inj [simp]: "fwd_word a = fwd_word b \<longleftrightarrow> a = b"
  by (simp add: fwd_word_def)

lemma fwd_word_image [simp]: "fwd_word a \<in> fwd_word ` M \<longleftrightarrow> a \<in> M"
  by auto

lemma mark_all_marked:
  assumes "heap_ok cls mc cs" "a \<in> objects cs"
  shows "is_marked_non_atomic (mark_all M (mc_memory mc)) a \<longleftrightarrow> a \<in> M"
  using heap_okD(8) [OF assms(1), of a] assms(2) mark_sets
  by (auto simp: is_marked_non_atomic_def mark_all_def object_ok_def objects_def)

lemma mark_all_mark: "a \<notin> M \<Longrightarrow> mark_non_atomic a (mark_all M m) = mark_all (insert a M) m"
  by (auto simp: mark_non_atomic_def mark_all_def fun_eq_iff)

lemma mark_all_untouched: "M \<subseteq> objects cs \<Longrightarrow> x \<notin> touchable cls mc cs \<Longrightarrow> mark_all M m x = m x"
  by (auto simp: mark_all_def touchable_def)

text \<open>Slots are never mark words.\<close>

definition good_slot :: "mark_compact \<Rightarrow> cell list \<Rightarrow> heap_address \<Rightarrow> bool" where
  "good_slot mc cs s = (s \<notin> fwd_word ` objects cs \<and> ptr_ok (mc_heap mc) (mc_readonly mc) (objects cs) (mc_memory mc s))"

lemma good_root_slots:
  assumes ok: "heap_ok cls mc cs" and r: "r \<in> set (mc_rootset mc)"
  shows "good_slot mc cs r"
proof -
  have "r_contains (mc_heap mc) (fwd_word a)" if a: "a \<in> objects cs" for a
  proof -
    obtain sz where sz: "Object a sz \<in> set cs" using a by (auto simp: objects_def)
    with contiguous_bounds [OF heap_okD(1) [OF ok] sz] heap_okD(2) [OF ok] heap_okD(8) [OF ok sz] show ?thesis
      by (auto simp: r_contains_def fwd_word_def object_ok_def header_size_def)
  qed
  with heap_okD(10) [OF ok r] show ?thesis by (auto simp: good_slot_def)
qed

lemma good_object_slots:
  assumes ok: "heap_ok cls mc cs" and a: "Object a sz \<in> set cs" and s: "s \<in> set (obj_slots cls (mc_memory mc) a)"
  shows "good_slot mc cs s"
proof -
  have "s \<noteq> fwd_word b" if b: "b \<in> objects cs" for b
  proof
    assume s_eq: "s = fwd_word b"
    obtain sz' where sz': "Object b sz' \<in> set cs" using b by (auto simp: objects_def)
    note slot = object_slots(3) [OF ok a s]
    have "Object a sz = Object b sz'"
      using same_cell [OF heap_okD(1) [OF ok] a sz', of s] slot heap_okD(8) [OF ok sz'] s_eq
      by (auto simp: fwd_word_def body_start_def object_ok_def header_size_def array_header_size_def split: if_splits)
    with slot s_eq show False
      by (auto simp: fwd_word_def body_start_def header_size_def array_header_size_def split: if_splits)
  qed
  with object_slots(3) [OF ok a s] show ?thesis by (auto simp: good_slot_def)
qed

definition targets :: "mark_compact \<Rightarrow> heap_address list \<Rightarrow> heap_address set" where
  "targets mc ss = {mc_memory mc s | s. s \<in> set ss \<and> r_contains (mc_heap mc) (mc_memory mc s)}"

lemma mark_slots_ok:
  assumes ok: "heap_ok cls mc cs" and slots: "\<forall>s\<in>set ss. good_slot mc cs s" and M: "M \<subseteq> objects cs"
  shows "\<exists>new. mark_slots (mc_heap mc) (mc_readonly mc) ss (mark_all M (mc_memory mc), stack)
      = Inr (mark_all (M \<union> set new) (mc_memory mc), new @ stack)
    \<and> set new = targets mc ss - M \<and> distinct new \<and> set new \<subseteq> objects cs"
  using slots M
proof (induction ss arbitrary: M stack)
  case Nil
  then show ?case by (simp add: targets_def)
next
  case (Cons s ss)
  let ?m = "mc_memory mc" let ?p = "mc_memory mc s"
  have good: "s \<notin> fwd_word ` objects cs" "ptr_ok (mc_heap mc) (mc_readonly mc) (objects cs) ?p"
    using Cons.prems(1) by (simp_all add: good_slot_def)
  have get: "slot_get (mark_all M ?m) s = ?p"
    using good(1) Cons.prems(2) by (auto simp: slot_get_def mark_all_def)
  show ?case
  proof (cases "r_contains (mc_heap mc) ?p \<and> ?p \<notin> M")
    case True
    then have p: "?p \<in> objects cs" using good(2) by (simp add: ptr_ok_def)
    have "mark_slot (mc_heap mc) (mc_readonly mc) s (mark_all M ?m, stack) = Inr (mark_all (insert ?p M) ?m, ?p # stack)"
      using True get mark_all_marked [OF ok p] mark_all_mark [of ?p M ?m] by (simp add: mark_slot_def Let_def)
    moreover obtain new where new: "mark_slots (mc_heap mc) (mc_readonly mc) ss (mark_all (insert ?p M) ?m, ?p # stack)
        = Inr (mark_all (insert ?p M \<union> set new) ?m, new @ ?p # stack)"
      "set new = targets mc ss - insert ?p M" "distinct new" "set new \<subseteq> objects cs"
      using Cons.IH [of "insert ?p M" "?p # stack"] Cons.prems p by (metis insert_subset list.set_intros(2))
    moreover have "targets mc (s # ss) - M = insert ?p (targets mc ss - insert ?p M)"
      using True by (auto simp: targets_def)
    moreover have "insert ?p M \<union> set new = M \<union> set (new @ [?p])" by auto
    ultimately show ?thesis using p by (intro exI [of _ "new @ [?p]"]) (simp only: mark_slots.simps rbind_Inr, auto)
  next
    case False
    then have "mark_slot (mc_heap mc) (mc_readonly mc) s (mark_all M ?m, stack) = Inr (mark_all M ?m, stack)"
      using good(2) get mark_all_marked [OF ok, of ?p M] by (auto simp: mark_slot_def ptr_ok_def Let_def split: if_splits)
    moreover have "targets mc (s # ss) - M = targets mc ss - M"
      using False by (auto simp: targets_def)
    ultimately show ?thesis using Cons by simp
  qed
qed

lemma live_closed:
  assumes ok: "heap_ok cls mc cs" and M: "targets mc (mc_rootset mc) \<subseteq> M"
    and closed: "\<And>a. a \<in> M \<Longrightarrow> targets mc (obj_slots cls (mc_memory mc) a) \<subseteq> M"
  shows "live cls mc \<subseteq> M"
proof
  fix a
  assume "a \<in> live cls mc"
  then show "a \<in> M" unfolding live_def
  proof (induction rule: reachable.induct)
    case (root r)
    then show ?case using M by (auto simp: targets_def)
  next
    case (field a ss s)
    then show ?case using closed [of a] by (auto simp: targets_def obj_slots_def)
  qed
qed

lemma live_objects:
  assumes ok: "heap_ok cls mc cs"
  shows "live cls mc \<subseteq> objects cs"
proof (rule live_closed [OF ok])
  show "targets mc (mc_rootset mc) \<subseteq> objects cs"
    using heap_okD(10) [OF ok] by (auto simp: targets_def ptr_ok_def)
  show "targets mc (obj_slots cls (mc_memory mc) a) \<subseteq> objects cs" if "a \<in> objects cs" for a
    using that object_slots(3) [OF ok] by (fastforce simp: targets_def ptr_ok_def objects_def)
qed

lemma live_targets:
  assumes ok: "heap_ok cls mc cs"
  shows "targets mc (mc_rootset mc) \<subseteq> live cls mc"
    and "a \<in> live cls mc \<Longrightarrow> targets mc (obj_slots cls (mc_memory mc) a) \<subseteq> live cls mc"
proof -
  show "targets mc (mc_rootset mc) \<subseteq> live cls mc" by (auto simp: targets_def live_def intro: reachable.root)
  assume a: "a \<in> live cls mc"
  then obtain sz where "Object a sz \<in> set cs" using live_objects [OF ok] by (auto simp: objects_def)
  with object_slots(1) [OF ok] a show "targets mc (obj_slots cls (mc_memory mc) a) \<subseteq> live cls mc"
    by (auto simp: targets_def live_def intro: reachable.field)
qed

lemma mark_loop_ok:
  assumes ok: "heap_ok cls mc cs"
  shows "M \<subseteq> live cls mc \<Longrightarrow> set stack \<subseteq> M \<Longrightarrow> targets mc (mc_rootset mc) \<subseteq> M \<Longrightarrow>
    (\<And>a. a \<in> M - set stack \<Longrightarrow> targets mc (obj_slots cls (mc_memory mc) a) \<subseteq> M) \<Longrightarrow>
    mark_loop cls (mc_heap mc) (mc_readonly mc) (mark_all M (mc_memory mc)) stack = ret (mark_all (live cls mc) (mc_memory mc))"
proof (induction "2 * card (objects cs - M) + length stack" arbitrary: M stack rule: less_induct)
  case less
  let ?m = "mc_memory mc"
  show ?case
  proof (cases stack)
    case Nil
    have "live cls mc \<subseteq> M" using live_closed [OF ok less.prems(3)] less.prems(4) Nil by simp
    with less.prems(1) have "M = live cls mc" by blast
    with Nil show ?thesis by (simp add: mark_loop.simps ret_def)
  next
    case (Cons a rest)
    have a: "a \<in> live cls mc" and M: "M \<subseteq> objects cs" using less.prems(1,2) Cons live_objects [OF ok] by auto
    then obtain sz where sz: "Object a sz \<in> set cs" using live_objects [OF ok] by (auto simp: objects_def)
    let ?ss = "obj_slots cls ?m a"
    obtain new where new: "mark_slots (mc_heap mc) (mc_readonly mc) ?ss (mark_all M ?m, rest) = Inr (mark_all (M \<union> set new) ?m, new @ rest)"
      "set new = targets mc ?ss - M" "distinct new" "set new \<subseteq> objects cs"
      using mark_slots_ok [OF ok _ M, of ?ss rest] good_object_slots [OF ok sz] by blast
    have "visit_reference_fields cls (mark_all M ?m) a = Inr ?ss"
      using shape_kept(2) [OF ok _ sz] mark_all_untouched [OF M] by blast
    then have "mark_loop cls (mc_heap mc) (mc_readonly mc) (mark_all M ?m) stack
        = mark_loop cls (mc_heap mc) (mc_readonly mc) (mark_all (M \<union> set new) ?m) (new @ rest)"
      using new(1) Cons by (simp add: mark_loop.simps [of cls "mc_heap mc" "mc_readonly mc" "mark_all M ?m" "a # rest"])
    also have "\<dots> = ret (mark_all (live cls mc) ?m)"
    proof (rule less.hyps)
      have "card (objects cs - (M \<union> set new)) = card (objects cs - M) - length new"
      proof -
        have "objects cs - (M \<union> set new) = (objects cs - M) - set new" by blast
        moreover have "set new \<subseteq> objects cs - M" using new(2,4) by blast
        ultimately show ?thesis using new(3) by (simp add: card_Diff_subset distinct_card)
      qed
      moreover have "card (set new) \<le> card (objects cs - M)"
        by (rule card_mono) (use new(2,4) finite_objects in blast)+
      then have "length new \<le> card (objects cs - M)" using distinct_card [OF new(3)] by simp
      ultimately show "2 * card (objects cs - (M \<union> set new)) + length (new @ rest) < 2 * card (objects cs - M) + length stack"
        using Cons by simp
      show "M \<union> set new \<subseteq> live cls mc" using less.prems(1) new(2) live_targets(2) [OF ok a] by blast
      show "set (new @ rest) \<subseteq> M \<union> set new" using less.prems(2) Cons by auto
      show "targets mc (mc_rootset mc) \<subseteq> M \<union> set new" using less.prems(3) by blast
      show "targets mc (obj_slots cls ?m b) \<subseteq> M \<union> set new" if "b \<in> M \<union> set new - set (new @ rest)" for b
        using that new(2) less.prems(4) [of b] Cons by (cases "b = a") auto
    qed
    finally show ?thesis .
  qed
qed

lemma marking_ok:
  assumes ok: "heap_ok cls mc cs"
  shows "marking_start cls (mc_rootset mc) (mc_heap mc) (mc_readonly mc) (mc_memory mc) = ret (mark_all (live cls mc) (mc_memory mc))"
proof -
  let ?m = "mc_memory mc"
  have empty: "mark_all {} ?m = ?m" by (simp add: mark_all_def)
  obtain new where new: "mark_slots (mc_heap mc) (mc_readonly mc) (mc_rootset mc) (?m, []) = Inr (mark_all (set new) ?m, new)"
    "set new = targets mc (mc_rootset mc)"
    using mark_slots_ok [OF ok, of "mc_rootset mc" "{}" "[]"] good_root_slots [OF ok] empty by auto
  have "mark_loop cls (mc_heap mc) (mc_readonly mc) (mark_all (set new) ?m) new = ret (mark_all (live cls mc) ?m)"
    using live_targets(1) [OF ok] new(2) by (intro mark_loop_ok [OF ok]) auto
  with new(1) show ?thesis by (simp add: marking_start_def)
qed

subsection \<open>Forwarding addresses\<close>

fun live_size :: "heap_address set \<Rightarrow> cell list \<Rightarrow> usize" where
  "live_size R [] = 0"
| "live_size R (Object a sz # cs) = (if a \<in> R then sz else 0) + live_size R cs"
| "live_size R (Gap a # cs) = live_size R cs"

text \<open>Where the collector puts an object: after the live objects before it.\<close>

definition new_addr :: "classes \<Rightarrow> mark_compact \<Rightarrow> cell list \<Rightarrow> heap_address \<Rightarrow> heap_address" where
  "new_addr cls mc cs a = r_start (mc_heap mc) + live_size (live cls mc) (takeWhile (\<lambda>c. cell_addr c \<noteq> a) cs)"

lemma live_size_append [simp]: "live_size R (cs @ cs') = live_size R cs + live_size R cs'"
proof (induction cs)
  case (Cons c cs)
  then show ?case by (cases c) simp_all
qed simp

lemma live_size_le: "contiguous s cs e \<Longrightarrow> s + live_size R cs \<le> e"
proof (induction cs arbitrary: s)
  case (Cons c cs)
  then have "cell_end c + live_size R cs \<le> e" by simp
  with Cons.prems show ?case by (cases c) auto
qed simp

lemma heap_split:
  assumes "heap_ok cls mc cs" "cs = pre @ c # post"
  shows "contiguous (r_start (mc_heap mc)) pre (cell_addr c)" "contiguous (cell_addr c) (c # post) (mc_init_top mc)"
    "c' \<in> set pre \<Longrightarrow> cell_end c' \<le> cell_addr c \<and> cell_addr c' \<noteq> cell_addr c"
proof -
  have "contiguous (r_start (mc_heap mc)) (pre @ c # post) (mc_init_top mc)" using heap_okD(1) [OF assms(1)] assms(2) by simp
  then show pre: "contiguous (r_start (mc_heap mc)) pre (cell_addr c)" "contiguous (cell_addr c) (c # post) (mc_init_top mc)"
    unfolding contiguous_append by auto
  show "cell_end c' \<le> cell_addr c \<and> cell_addr c' \<noteq> cell_addr c" if "c' \<in> set pre"
    using contiguous_bounds [OF pre(1) that] by simp
qed

lemma new_addr_split:
  assumes "heap_ok cls mc cs" "cs = pre @ Object a sz # post"
  shows "new_addr cls mc cs a = r_start (mc_heap mc) + live_size (live cls mc) pre"
proof -
  have "cell_addr c \<noteq> a" if "c \<in> set pre" for c
    using heap_split(3) [OF assms that] by simp
  then have "takeWhile (\<lambda>c. cell_addr c \<noteq> a) cs = pre" unfolding assms(2) by (simp add: takeWhile_append2)
  then show ?thesis by (simp add: new_addr_def)
qed

lemma live_size_dvd:
  assumes "heap_ok cls mc cs" "set pre \<subseteq> set cs"
  shows "8 dvd live_size R pre"
  using assms(2)
proof (induction pre)
  case (Cons c pre)
  then show ?case using heap_okD(8) [OF assms(1)] by (cases c) (auto simp: object_ok_def)
qed simp

lemma new_addr_bounds:
  assumes ok: "heap_ok cls mc cs" and a: "Object a sz \<in> set cs"
  shows "aligned (new_addr cls mc cs a)" "new_addr cls mc cs a \<le> a" "r_start (mc_heap mc) \<le> new_addr cls mc cs a"
    "a + sz \<le> mc_init_top mc" "0 < sz" "r_contains (mc_heap mc) (new_addr cls mc cs a)"
proof -
  obtain pre post where split: "cs = pre @ Object a sz # post" using a by (meson split_list)
  note fwd = new_addr_split [OF ok split]
  note p = heap_split(1,2) [OF ok split]
  show le: "new_addr cls mc cs a \<le> a" using fwd live_size_le [OF p(1)] by simp
  show "r_start (mc_heap mc) \<le> new_addr cls mc cs a" using fwd by simp
  show top: "a + sz \<le> mc_init_top mc" "0 < sz" using p(2) contiguous_le by fastforce+
  have "8 dvd new_addr cls mc cs a"
  proof -
    have "set pre \<subseteq> set cs" using split by auto
    with live_size_dvd [OF ok this] heap_okD(5) [OF ok] show ?thesis unfolding fwd by simp
  qed
  with le top heap_okD(2,3) [OF ok] show "aligned (new_addr cls mc cs a)" unfolding aligned_def by linarith
  show "r_contains (mc_heap mc) (new_addr cls mc cs a)"
    using le top heap_okD(2) [OF ok] fwd by (simp add: r_contains_def)
qed

definition forward_all :: "classes \<Rightarrow> mark_compact \<Rightarrow> cell list \<Rightarrow> heap_address set \<Rightarrow> memory" where
  "forward_all cls mc cs D = (\<lambda>x. if x \<in> fwd_word ` (live cls mc \<inter> D) then new_addr cls mc cs (x - 8) OR 1
     else mark_all (live cls mc) (mc_memory mc) x)"

lemma forward_all_untouched: "heap_ok cls mc cs \<Longrightarrow> x \<notin> touchable cls mc cs \<Longrightarrow> forward_all cls mc cs D x = mc_memory mc x"
  using mark_all_untouched [OF live_objects, of cls mc cs x] live_objects [of cls mc cs]
  by (auto simp: forward_all_def touchable_def)

lemma forward_all_marked:
  assumes "heap_ok cls mc cs" "a \<in> objects cs"
  shows "is_marked_non_atomic (forward_all cls mc cs D) a \<longleftrightarrow> a \<in> live cls mc"
    and "a \<in> live cls mc \<inter> D \<Longrightarrow> fwdptr_non_atomic (forward_all cls mc cs D) a = new_addr cls mc cs a"
proof -
  obtain sz where sz: "Object a sz \<in> set cs" using assms(2) by (auto simp: objects_def)
  note al = new_addr_bounds(1) [OF assms(1) sz]
  show "is_marked_non_atomic (forward_all cls mc cs D) a \<longleftrightarrow> a \<in> live cls mc"
    using mark_all_marked [OF assms, of "live cls mc"] marked_fwd(1) [OF al]
    by (auto simp: is_marked_non_atomic_def forward_all_def fwd_word_def)
  show "fwdptr_non_atomic (forward_all cls mc cs D) a = new_addr cls mc cs a" if "a \<in> live cls mc \<inter> D"
    using that marked_fwd(2) [OF al] by (auto simp: fwdptr_non_atomic_def forward_all_def fwd_word_def)
qed

definition forwarded :: "classes \<Rightarrow> mark_compact \<Rightarrow> cell list \<Rightarrow> cell list \<Rightarrow> mark_compact" where
  "forwarded cls mc cs pre =
     mc\<lparr>mc_memory := forward_all cls mc cs (objects pre), mc_top := r_start (mc_heap mc) + live_size (live cls mc) pre\<rparr>"

lemma forward_object_ok:
  assumes ok: "heap_ok cls mc cs" and split: "cs = pre @ Object a sz # post"
  shows "forward_object a sz (forwarded cls mc cs pre) = Inr (forwarded cls mc cs (pre @ [Object a sz]))"
proof -
  have a: "Object a sz \<in> set cs" "a \<in> objects cs" using split by (auto simp: objects_def)
  note fwd = new_addr_split [OF ok split] and bounds = new_addr_bounds [OF ok a(1)]
  have fresh: "a \<notin> objects pre"
  proof
    assume "a \<in> objects pre"
    then obtain sz' where sz': "Object a sz' \<in> set pre" by (auto simp: objects_def)
    from heap_split(3) [OF ok split sz'] show False by simp
  qed
  show ?thesis
  proof (cases "a \<in> live cls mc")
    case True
    have word: "forward_all cls mc cs (objects pre) (fwd_word a) AND MARK_MASK = 1"
      using True fresh mark_only heap_okD(8) [OF ok a(1)] by (auto simp: forward_all_def mark_all_def object_ok_def)
    have "new_addr cls mc cs a + sz < 2 ^ 64" "new_addr cls mc cs a + sz \<le> r_end (mc_heap mc)"
      using bounds heap_okD(2,3) [OF ok] by linarith+
    moreover have "(forward_all cls mc cs (objects pre))(fwd_word a := new_addr cls mc cs a OR 1)
        = forward_all cls mc cs (objects (pre @ [Object a sz]))"
      using True by (auto simp: forward_all_def fun_eq_iff fwd_word_def)
    ultimately show ?thesis
      using True fwd forward_all_marked(1) [OF ok a(2)] aligned_and_mark [OF bounds(1)] word
      by (simp add: forward_object_def forwarded_def mc_allocate_def offset_def checked_add_def set_fwdptr_non_atomic_def)
  next
    case False
    then have "forward_all cls mc cs (objects pre) = forward_all cls mc cs (objects (pre @ [Object a sz]))"
      by (auto simp: forward_all_def)
    with False forward_all_marked(1) [OF ok a(2)] show ?thesis
      by (simp add: forward_object_def forwarded_def)
  qed
qed

lemma compute_forward_ok:
  assumes ok: "heap_ok cls mc cs"
  shows "compute_forward cls (mc\<lparr>mc_memory := mark_all (live cls mc) (mc_memory mc)\<rparr>) = ret (forwarded cls mc cs cs)"
proof -
  let ?I = "\<lambda>rest mc'. \<exists>pre. cs = pre @ rest \<and> mc' = forwarded cls mc cs pre"
  have "\<exists>mc'. walk_from cls forward_object (r_start (mc_heap mc)) (forwarded cls mc cs []) = ret mc' \<and> ?I [] mc'"
  proof (rule walk_from_invariant [where I = ?I, OF heap_okD(1) [OF ok]])
    show "\<exists>mc''. forward_object a sz mc' = Inr mc'' \<and> ?I cs' mc''" if "?I (Object a sz # cs') mc'" for a sz cs' mc'
      using that forward_object_ok [OF ok] by (metis append.assoc append_Cons append_Nil)
    show "?I cs' mc'" if "?I (Gap a # cs') mc'" for a cs' mc'
    proof -
      from that obtain pre where "cs = pre @ Gap a # cs'" "mc' = forwarded cls mc cs pre" by blast
      moreover have "forwarded cls mc cs pre = forwarded cls mc cs (pre @ [Gap a])" by (simp add: forwarded_def)
      ultimately show ?thesis by (metis append.assoc append_Cons append_Nil)
    qed
    show "cell_shape cls (mc_memory mc') c" if "?I (c # cs') mc'" for c cs' mc'
      using that shape_kept(1) [OF ok forward_all_untouched [OF ok]] by (auto simp: forwarded_def)
  qed (auto simp: forwarded_def)
  moreover have "forwarded cls mc cs [] = mc\<lparr>mc_memory := mark_all (live cls mc) (mc_memory mc)\<rparr>"
    using heap_okD(6) [OF ok] by (simp add: forwarded_def forward_all_def)
  ultimately show ?thesis by (simp add: compute_forward_def walk_heap_def)
qed

subsection \<open>Updating references\<close>

text \<open>A reference after the collection.\<close>

definition relocated :: "classes \<Rightarrow> mark_compact \<Rightarrow> cell list \<Rightarrow> heap_address \<Rightarrow> heap_address" where
  "relocated cls mc cs p = (if r_contains (mc_heap mc) p then new_addr cls mc cs p else p)"

definition update_all :: "classes \<Rightarrow> mark_compact \<Rightarrow> cell list \<Rightarrow> heap_address set \<Rightarrow> memory" where
  "update_all cls mc cs S = (\<lambda>x. if x \<in> S then relocated cls mc cs (mc_memory mc x) else forward_all cls mc cs (objects cs) x)"

definition updated :: "classes \<Rightarrow> mark_compact \<Rightarrow> cell list \<Rightarrow> heap_address set \<Rightarrow> mark_compact" where
  "updated cls mc cs S = (forwarded cls mc cs cs)\<lparr>mc_memory := update_all cls mc cs S\<rparr>"

lemma update_all_marked:
  assumes ok: "heap_ok cls mc cs" and S: "S \<inter> fwd_word ` objects cs = {}" and a: "a \<in> objects cs"
  shows "is_marked_non_atomic (update_all cls mc cs S) a \<longleftrightarrow> a \<in> live cls mc"
    and "a \<in> live cls mc \<Longrightarrow> fwdptr_non_atomic (update_all cls mc cs S) a = new_addr cls mc cs a"
proof -
  have "update_all cls mc cs S (fwd_word a) = forward_all cls mc cs (objects cs) (fwd_word a)"
    using S a by (auto simp: update_all_def)
  with forward_all_marked [OF ok a, of "objects cs"] a
  show "is_marked_non_atomic (update_all cls mc cs S) a \<longleftrightarrow> a \<in> live cls mc"
    "a \<in> live cls mc \<Longrightarrow> fwdptr_non_atomic (update_all cls mc cs S) a = new_addr cls mc cs a"
    by (simp_all add: is_marked_non_atomic_def fwdptr_non_atomic_def)
qed

lemma forward_slots_ok:
  assumes ok: "heap_ok cls mc cs"
  shows "distinct ss \<Longrightarrow> set ss \<inter> S = {} \<Longrightarrow> S \<inter> fwd_word ` objects cs = {} \<Longrightarrow> (\<And>s. s \<in> set ss \<Longrightarrow> good_slot mc cs s) \<Longrightarrow>
    targets mc ss \<subseteq> live cls mc \<Longrightarrow>
    forward_slots ss (updated cls mc cs S\<lparr>mc_finalizers := fs\<rparr>) = Inr (updated cls mc cs (S \<union> set ss)\<lparr>mc_finalizers := fs\<rparr>)"
proof (induction ss arbitrary: S)
  case (Cons s ss)
  let ?p = "mc_memory mc s" and ?mc = "updated cls mc cs S\<lparr>mc_finalizers := fs\<rparr>"
  have good: "s \<notin> fwd_word ` objects cs" "ptr_ok (mc_heap mc) (mc_readonly mc) (objects cs) ?p"
    using Cons.prems(4) [of s] by (simp_all add: good_slot_def)
  have get: "update_all cls mc cs S s = ?p"
    using good(1) Cons.prems(2) live_objects [OF ok] by (auto simp: update_all_def forward_all_def mark_all_def)
  have next_mem: "(update_all cls mc cs S)(s := relocated cls mc cs ?p) = update_all cls mc cs (insert s S)"
    by (auto simp: update_all_def fun_eq_iff)
  have same: "update_all cls mc cs (insert s S) = update_all cls mc cs S" if "relocated cls mc cs ?p = ?p"
    using next_mem get that by (metis fun_upd_triv)
  have step: "forward_reference s ?mc = Inr (updated cls mc cs (insert s S)\<lparr>mc_finalizers := fs\<rparr>)"
  proof (cases "r_contains (mc_heap mc) ?p")
    case True
    then have p: "?p \<in> objects cs" "?p \<in> live cls mc"
      using good(2) Cons.prems(5) by (auto simp: ptr_ok_def targets_def)
    then obtain sz where sz: "Object ?p sz \<in> set cs" by (auto simp: objects_def)
    show ?thesis
      using True get next_mem update_all_marked [OF ok Cons.prems(3) p(1)] p(2) new_addr_bounds(6) [OF ok sz]
      by (simp add: forward_reference_def Let_def updated_def forwarded_def slot_get_def slot_set_def relocated_def)
  next
    case False
    then show ?thesis
      using get good(2) same by (simp add: forward_reference_def Let_def updated_def forwarded_def slot_get_def relocated_def ptr_ok_def)
  qed
  have "forward_slots ss (updated cls mc cs (insert s S)\<lparr>mc_finalizers := fs\<rparr>)
      = Inr (updated cls mc cs (insert s S \<union> set ss)\<lparr>mc_finalizers := fs\<rparr>)"
    by (rule Cons.IH) (use Cons.prems good(1) in \<open>auto simp: targets_def\<close>)
  with step show ?case by simp
qed simp

text \<open>The slots of the live objects of a prefix of the heap.\<close>

definition live_slots :: "classes \<Rightarrow> mark_compact \<Rightarrow> cell list \<Rightarrow> heap_address set" where
  "live_slots cls mc pre = (\<Union>a\<in>live cls mc \<inter> objects pre. set (obj_slots cls (mc_memory mc) a))"

lemma live_slots_inside:
  assumes ok: "heap_ok cls mc cs" and pre: "set pre \<subseteq> set cs" and s: "s \<in> live_slots cls mc pre"
  shows "\<exists>a sz. Object a sz \<in> set pre \<and> a \<in> live cls mc \<and> s \<in> set (obj_slots cls (mc_memory mc) a) \<and> a \<le> s \<and> s < a + sz \<and> good_slot mc cs s"
proof -
  obtain a sz where a: "Object a sz \<in> set pre" "a \<in> live cls mc" "s \<in> set (obj_slots cls (mc_memory mc) a)"
    using s by (auto simp: live_slots_def objects_def)
  then have cs: "Object a sz \<in> set cs" using pre by blast
  have "a \<le> s \<and> s < a + sz" using object_slots(3) [OF ok cs a(3)] by (auto simp: body_start_def split: if_splits)
  with a good_object_slots [OF ok cs a(3)] show ?thesis by blast
qed

lemma update_all_untouched:
  assumes ok: "heap_ok cls mc cs" and S: "S \<subseteq> touchable cls mc cs" and x: "x \<notin> touchable cls mc cs"
  shows "update_all cls mc cs S x = mc_memory mc x"
  using forward_all_untouched [OF ok x] S x by (auto simp: update_all_def)

lemma live_slots_touchable: "set pre \<subseteq> set cs \<Longrightarrow> live_slots cls mc pre \<subseteq> touchable cls mc cs"
  by (auto simp: live_slots_def touchable_def objects_def)

lemma update_object_ok:
  assumes ok: "heap_ok cls mc cs" and split: "cs = pre @ Object a sz # post"
  shows "update_object cls a sz (updated cls mc cs (live_slots cls mc pre))
    = Inr (updated cls mc cs (live_slots cls mc (pre @ [Object a sz])))"
proof -
  let ?S = "live_slots cls mc pre" let ?ss = "obj_slots cls (mc_memory mc) a"
  have a: "Object a sz \<in> set cs" "a \<in> objects cs" and pre: "set pre \<subseteq> set cs" using split by (auto simp: objects_def)
  note inside = live_slots_inside [OF ok pre]
  have S: "?S \<inter> fwd_word ` objects cs = {}" using inside by (fastforce simp: good_slot_def)
  show ?thesis
  proof (cases "a \<in> live cls mc")
    case True
    have "set ?ss \<inter> ?S = {}"
    proof (rule ccontr)
      assume "set ?ss \<inter> ?S \<noteq> {}"
      then obtain s where s: "s \<in> set ?ss" "s \<in> ?S" by blast
      obtain b sz' where b: "Object b sz' \<in> set pre" "s < b + sz'" using inside [OF s(2)] by blast
      have "a \<le> s" using object_slots(3) [OF ok a(1) s(1)] by (simp add: body_start_def split: if_splits)
      with heap_split(3) [OF ok split b(1)] b(2) show False by simp
    qed
    moreover have "visit_reference_fields cls (update_all cls mc cs ?S) a = Inr ?ss"
      using shape_kept(2) [OF ok _ a(1)] update_all_untouched [OF ok live_slots_touchable [OF pre]] by blast
    moreover have "live_slots cls mc (pre @ [Object a sz]) = ?S \<union> set ?ss" using True by (auto simp: live_slots_def)
    ultimately show ?thesis
      using True update_all_marked(1) [OF ok S a(2)] object_slots(2) [OF ok a(1)] live_targets(2) [OF ok True]
        forward_slots_ok [OF ok, of ?ss ?S "mc_finalizers mc"] good_object_slots [OF ok a(1)] S
      by (simp add: update_object_def updated_def forwarded_def)
  next
    case False
    then have "live_slots cls mc (pre @ [Object a sz]) = ?S" by (auto simp: live_slots_def)
    with False update_all_marked(1) [OF ok S a(2)] show ?thesis by (simp add: update_object_def updated_def)
  qed
qed

lemma iterate_weak_roots_ok:
  assumes "\<And>a t. (a, t) \<in> set fs \<Longrightarrow> up a = (if a \<in> L then Some (g a) else None) \<and> (a \<in> L \<longrightarrow> g a \<noteq> addr_null)"
  shows "iterate_weak_roots up fs = map (\<lambda>(a, t). (g a, t)) (filter (\<lambda>(a, t). a \<in> L) fs)"
proof -
  have up: "map (\<lambda>(a, t). (case up a of Some a' \<Rightarrow> a' | None \<Rightarrow> addr_null, t)) fs
      = map (\<lambda>(a, t). (if a \<in> L then g a else addr_null, t)) fs"
    using assms by (auto intro!: map_cong)
  have dead: "list_ex (\<lambda>(a, t). up a = None) fs \<longleftrightarrow> (\<exists>(a, t)\<in>set fs. a \<notin> L)"
    using assms by (fastforce simp: list_ex_iff)
  have "\<forall>(a, t)\<in>set fs. a \<in> L \<longrightarrow> g a \<noteq> addr_null" using assms by blast
  then have "filter (\<lambda>(a, t). a \<noteq> addr_null) (map (\<lambda>(a, t). (if a \<in> L then g a else addr_null, t)) fs)
      = map (\<lambda>(a, t). (g a, t)) (filter (\<lambda>(a, t). a \<in> L) fs)"
    by (induction fs) auto
  moreover have "map (\<lambda>(a, t). (if a \<in> L then g a else addr_null, t)) fs = map (\<lambda>(a, t). (g a, t)) (filter (\<lambda>(a, t). a \<in> L) fs)"
    if "\<not> (\<exists>(a, t)\<in>set fs. a \<notin> L)"
    using that by (induction fs) auto
  ultimately show ?thesis unfolding iterate_weak_roots_def Let_def up dead by presburger
qed

definition all_slots :: "classes \<Rightarrow> mark_compact \<Rightarrow> cell list \<Rightarrow> heap_address set" where
  "all_slots cls mc cs = live_slots cls mc cs \<union> set (mc_rootset mc)"

definition live_finalizers :: "classes \<Rightarrow> mark_compact \<Rightarrow> cell list \<Rightarrow> (heap_address \<times> usize) list" where
  "live_finalizers cls mc cs = map (\<lambda>(a, t). (new_addr cls mc cs a, t)) (filter (\<lambda>(a, t). a \<in> live cls mc) (mc_finalizers mc))"

lemma update_references_ok:
  assumes ok: "heap_ok cls mc cs"
  shows "update_references cls (forwarded cls mc cs cs)
    = ret (updated cls mc cs (all_slots cls mc cs)\<lparr>mc_finalizers := live_finalizers cls mc cs\<rparr>)"
proof -
  let ?S = "live_slots cls mc cs"
  let ?I = "\<lambda>rest mc'. \<exists>pre. cs = pre @ rest \<and> mc' = updated cls mc cs (live_slots cls mc pre)"
  have init: "forwarded cls mc cs cs = updated cls mc cs (live_slots cls mc [])"
    by (simp add: updated_def update_all_def live_slots_def forwarded_def)
  have "\<exists>mc'. walk_from cls (update_object cls) (r_start (mc_heap mc)) (updated cls mc cs (live_slots cls mc [])) = ret mc' \<and> ?I [] mc'"
  proof (rule walk_from_invariant [where I = ?I, OF heap_okD(1) [OF ok]])
    show "\<exists>mc''. update_object cls a sz mc' = Inr mc'' \<and> ?I cs' mc''" if "?I (Object a sz # cs') mc'" for a sz cs' mc'
      using that update_object_ok [OF ok] by (metis append.assoc append_Cons append_Nil)
    show "?I cs' mc'" if "?I (Gap a # cs') mc'" for a cs' mc'
    proof -
      from that obtain pre where "cs = pre @ Gap a # cs'" "mc' = updated cls mc cs (live_slots cls mc pre)" by blast
      moreover have "live_slots cls mc pre = live_slots cls mc (pre @ [Gap a])" by (simp add: live_slots_def)
      ultimately show ?thesis by (metis append.assoc append_Cons append_Nil)
    qed
    show "cell_shape cls (mc_memory mc') c" if "?I (c # cs') mc'" for c cs' mc'
    proof -
      from that obtain pre where pre: "cs = pre @ c # cs'" "mc' = updated cls mc cs (live_slots cls mc pre)" by blast
      then have "set pre \<subseteq> set cs" "c \<in> set cs" by auto
      with shape_kept(1) [OF ok update_all_untouched [OF ok live_slots_touchable [of pre]]] pre(2) show ?thesis
        by (simp add: updated_def)
    qed
  qed (auto simp: updated_def forwarded_def)
  then have walk: "walk_heap cls (update_object cls) (forwarded cls mc cs cs) = ret (updated cls mc cs ?S)"
    unfolding init by (simp add: walk_heap_def updated_def forwarded_def)
  have S: "?S \<inter> fwd_word ` objects cs = {}" using live_slots_inside [OF ok order_refl] by (fastforce simp: good_slot_def)
  have "iterate_weak_roots (weak_root_updater (update_all cls mc cs ?S)) (mc_finalizers mc) = live_finalizers cls mc cs"
    unfolding live_finalizers_def
  proof (rule iterate_weak_roots_ok)
    fix a t
    assume "(a, t) \<in> set (mc_finalizers mc)"
    then have a: "a \<in> objects cs" using heap_okD(11) [OF ok] by blast
    then obtain sz where sz: "Object a sz \<in> set cs" by (auto simp: objects_def)
    show "weak_root_updater (update_all cls mc cs ?S) a = (if a \<in> live cls mc then Some (new_addr cls mc cs a) else None)
        \<and> (a \<in> live cls mc \<longrightarrow> new_addr cls mc cs a \<noteq> addr_null)"
      using update_all_marked [OF ok S a] new_addr_bounds(3) [OF ok sz] heap_okD(4) [OF ok]
      by (auto simp: weak_root_updater_def addr_null_def)
  qed
  moreover have "set (mc_rootset mc) \<inter> ?S = {}"
  proof (rule ccontr)
    assume "set (mc_rootset mc) \<inter> ?S \<noteq> {}"
    then obtain r a sz where r: "r \<in> set (mc_rootset mc)" "Object a sz \<in> set cs" "a \<le> r" "r < a + sz"
      using live_slots_inside [OF ok order_refl] by blast
    have "r_contains (mc_heap mc) r"
      using contiguous_bounds [OF heap_okD(1) [OF ok] r(2)] r(3,4) heap_okD(2) [OF ok] by (simp add: r_contains_def)
    with heap_okD(10) [OF ok r(1)] show False by simp
  qed
  ultimately show ?thesis
    using walk forward_slots_ok [OF ok heap_okD(9) [OF ok] _ S good_root_slots [OF ok] live_targets(1) [OF ok]]
    by (simp add: update_references_def all_slots_def updated_def forwarded_def ret_def)
qed

subsection \<open>Moving the objects\<close>

text \<open>An object after the collection, word by word: its mark word holds the forwarding address without a
  mark, its references are relocated and everything else is as it was.\<close>

definition moved_word :: "classes \<Rightarrow> mark_compact \<Rightarrow> cell list \<Rightarrow> heap_address \<Rightarrow> usize \<Rightarrow> usize" where
  "moved_word cls mc cs a i =
     (if i = 8 then new_addr cls mc cs a else update_all cls mc cs (all_slots cls mc cs) (a + i))"

definition relocating :: "classes \<Rightarrow> mark_compact \<Rightarrow> cell list \<Rightarrow> cell list \<Rightarrow> cell list \<Rightarrow> memory \<Rightarrow> bool" where
  "relocating cls mc cs pre rest m =
     ((\<forall>a sz i. Object a sz \<in> set pre \<longrightarrow> a \<in> live cls mc \<longrightarrow> i < sz \<longrightarrow> m (new_addr cls mc cs a + i) = moved_word cls mc cs a i)
      \<and> (\<forall>x. \<not> r_contains (mc_heap mc) x \<longrightarrow> m x = update_all cls mc cs (all_slots cls mc cs) x)
      \<and> (\<forall>c\<in>set rest. \<forall>x. cell_addr c \<le> x \<longrightarrow> x < cell_end c \<longrightarrow> m x = update_all cls mc cs (all_slots cls mc cs) x))"

lemma new_addr_before:
  assumes ok: "heap_ok cls mc cs" and split: "cs = pre @ Object a sz # post" and b: "Object b szb \<in> set pre" "b \<in> live cls mc"
  shows "new_addr cls mc cs b + szb \<le> new_addr cls mc cs a"
proof -
  obtain pre1 pre2 where pre: "pre = pre1 @ Object b szb # pre2" using b(1) by (meson split_list)
  then have "cs = pre1 @ Object b szb # (pre2 @ Object a sz # post)" using split by simp
  from new_addr_split [OF ok this] new_addr_split [OF ok split] pre b(2) show ?thesis by simp
qed

lemma all_slots_touchable: "heap_ok cls mc cs \<Longrightarrow> all_slots cls mc cs \<subseteq> touchable cls mc cs"
  using live_slots_touchable [of cs cs cls mc] heap_okD(10) by (auto simp: all_slots_def touchable_def)

lemma all_slots_fwd: "heap_ok cls mc cs \<Longrightarrow> all_slots cls mc cs \<inter> fwd_word ` objects cs = {}"
  using live_slots_inside [of cls mc cs cs] good_root_slots [of cls mc cs] by (fastforce simp: all_slots_def good_slot_def)

lemma relocate_move:
  assumes ok: "heap_ok cls mc cs" and split: "cs = pre @ Object a sz # post" and a: "a \<in> live cls mc"
    and inv: "relocating cls mc cs pre (Object a sz # post) m"
  defines "d \<equiv> new_addr cls mc cs a"
  shows "relocating cls mc cs (pre @ [Object a sz]) post
    (unmark_non_atomic d (if a \<noteq> d then copy_to a d sz m else m))" (is "relocating _ _ _ _ _ ?m")
proof -
  have obj: "Object a sz \<in> set cs" "a \<in> objects cs" using split by (auto simp: objects_def)
  note bounds = new_addr_bounds [OF ok obj(1)]
  have sz: "16 \<le> sz" using heap_okD(8) [OF ok obj(1)] by (simp add: object_ok_def header_size_def)
  let ?u = "update_all cls mc cs (all_slots cls mc cs)"
  have src: "m (a + i) = ?u (a + i)" if "i < sz" for i using inv that by (simp add: relocating_def)
  have mark: "?u (a + 8) AND FWD_MASK = d"
    using update_all_marked(2) [OF ok all_slots_fwd [OF ok] obj(2) a] by (simp add: fwdptr_non_atomic_def fwd_word_def d_def)
  have here: "?m (d + i) = moved_word cls mc cs a i" if "i < sz" for i
    using src [OF that] src [of 8] that sz mark
    by (auto simp: unmark_non_atomic_def fwd_word_def copy_to_def moved_word_def d_def add.commute [of i a] add.commute [of 8 a])
  have else_where: "?m x = m x" if "x < d \<or> d + sz \<le> x" for x
    using that sz by (auto simp: unmark_non_atomic_def fwd_word_def copy_to_def)
  show ?thesis unfolding relocating_def
  proof (intro conjI allI impI ballI)
    fix b szb i
    assume b: "Object b szb \<in> set (pre @ [Object a sz])" "b \<in> live cls mc" "i < szb"
    show "?m (new_addr cls mc cs b + i) = moved_word cls mc cs b i"
    proof (cases "Object b szb \<in> set pre")
      case True
      then have "new_addr cls mc cs b + i < d" using new_addr_before [OF ok split True b(2)] b(3) by (simp add: d_def)
      with else_where inv True b show ?thesis by (simp add: relocating_def)
    next
      case False
      then have "b = a" "szb = sz" using b(1) by simp_all
      with here b(3) show ?thesis by (simp add: d_def)
    qed
  next
    fix x
    assume x: "\<not> r_contains (mc_heap mc) x"
    then have "x < d \<or> d + sz \<le> x" using bounds heap_okD(2) [OF ok] by (auto simp: r_contains_def d_def)
    with else_where inv x show "?m x = ?u x" by (simp add: relocating_def)
  next
    fix c x
    assume c: "c \<in> set post" "cell_addr c \<le> x" "x < cell_end c"
    have "a + sz \<le> cell_addr c"
      using contiguous_bounds [of "a + sz" post "mc_init_top mc" c] heap_split(2) [OF ok split] c(1) by simp
    then have "d + sz \<le> x" using bounds(2) c(2) by (simp add: d_def)
    with else_where inv c show "?m x = ?u x" by (auto simp: relocating_def)
  qed
qed

lemma relocate_object_ok:
  assumes ok: "heap_ok cls mc cs" and split: "cs = pre @ Object a sz # post"
    and mc': "mc' = (updated cls mc cs (all_slots cls mc cs))\<lparr>mc_finalizers := fs, mc_memory := m\<rparr>"
    and inv: "relocating cls mc cs pre (Object a sz # post) m"
  shows "\<exists>m'. relocate_object a sz mc' = Inr (mc'\<lparr>mc_memory := m'\<rparr>) \<and> relocating cls mc cs (pre @ [Object a sz]) post m'"
proof -
  let ?u = "update_all cls mc cs (all_slots cls mc cs)" let ?d = "new_addr cls mc cs a"
  have obj: "Object a sz \<in> set cs" "a \<in> objects cs" using split by (auto simp: objects_def)
  note bounds = new_addr_bounds [OF ok obj(1)] and marked = update_all_marked [OF ok all_slots_fwd [OF ok] obj(2)]
  have "16 \<le> sz" using heap_okD(8) [OF ok obj(1)] by (simp add: object_ok_def header_size_def)
  then have word: "m (fwd_word a) = ?u (fwd_word a)" using inv by (simp add: relocating_def fwd_word_def)
  show ?thesis
  proof (cases "a \<in> live cls mc")
    case True
    have "is_marked_non_atomic m a" "fwdptr_non_atomic m a = ?d"
      using marked True word by (simp_all add: is_marked_non_atomic_def fwdptr_non_atomic_def)
    moreover have "?d + sz < 2 ^ 64" "valid_top (mc_heap mc) (?d + sz)"
      using bounds heap_okD(2,3) [OF ok] unfolding valid_top_def by linarith+
    ultimately have "relocate_object a sz mc' = Inr (mc'\<lparr>mc_memory := unmark_non_atomic ?d (if a \<noteq> ?d then copy_to a ?d sz m else m)\<rparr>)"
      using bounds(6) by (simp add: relocate_object_def mc' updated_def forwarded_def offset_def checked_add_def Let_def)
    with relocate_move [OF ok split True inv] show ?thesis by blast
  next
    case False
    then have "\<not> is_marked_non_atomic m a" using marked(1) word by (simp add: is_marked_non_atomic_def)
    then have "relocate_object a sz mc' = Inr (mc'\<lparr>mc_memory := m\<rparr>)" by (simp add: relocate_object_def mc')
    moreover have "relocating cls mc cs (pre @ [Object a sz]) post m" using inv False by (auto simp: relocating_def)
    ultimately show ?thesis by blast
  qed
qed

lemma relocating_shape:
  assumes ok: "heap_ok cls mc cs" and split: "cs = pre @ c # post" and inv: "relocating cls mc cs pre (c # post) m"
  shows "cell_shape cls m c"
proof -
  let ?u = "update_all cls mc cs (all_slots cls mc cs)"
  have c: "c \<in> set cs" using split by simp
  have shape: "cell_shape cls ?u c"
    using shape_kept(1) [OF ok update_all_untouched [OF ok all_slots_touchable [OF ok]] c] .
  have same: "m x = ?u x" if "cell_addr c \<le> x" "x < cell_end c" for x using inv that by (simp add: relocating_def)
  show ?thesis
  proof (cases c)
    case (Object a sz)
    have "0 < sz" using heap_split(2) [OF ok split] Object by simp
    then have a: "m a = ?u a" using same [of a] Object by simp
    have "obj_size cls m a = obj_size cls ?u a"
    proof (rule shape_frame(1) [of m a ?u cls, OF a])
      assume "vt_instance_size (cls (?u a)) = 0"
      from array_size_large [of cls ?u a, OF this] shape Object have "array_header_size \<le> sz" by (simp add: cell_shape_def)
      then show "m (a + header_size) = ?u (a + header_size)"
        using same [of "a + header_size"] Object by (simp add: array_header_size_def ptr_width_usize_def)
    qed
    with a shape Object show ?thesis by (simp add: cell_shape_def)
  next
    case (Gap a)
    with same [of a] shape show ?thesis by (simp add: cell_shape_def)
  qed
qed

lemma relocate_ok:
  assumes ok: "heap_ok cls mc cs"
  shows "\<exists>m'. relocate cls (updated cls mc cs (all_slots cls mc cs)\<lparr>mc_finalizers := fs\<rparr>)
      = ret (updated cls mc cs (all_slots cls mc cs)\<lparr>mc_finalizers := fs, mc_memory := m'\<rparr>) \<and> relocating cls mc cs cs [] m'"
proof -
  let ?mc = "updated cls mc cs (all_slots cls mc cs)\<lparr>mc_finalizers := fs\<rparr>"
  let ?I = "\<lambda>rest mc'. \<exists>pre m. cs = pre @ rest \<and> mc' = ?mc\<lparr>mc_memory := m\<rparr> \<and> relocating cls mc cs pre rest m"
  have "\<exists>mc'. walk_from cls relocate_object (r_start (mc_heap mc)) ?mc = ret mc' \<and> ?I [] mc'"
  proof (rule walk_from_invariant [where I = ?I, OF heap_okD(1) [OF ok]])
    show "?I cs ?mc" by (intro exI [of _ "[]"] exI [of _ "mc_memory ?mc"]) (simp add: relocating_def updated_def)
    show "\<exists>mc''. relocate_object a sz mc' = Inr mc'' \<and> ?I cs' mc''" if "?I (Object a sz # cs') mc'" for a sz cs' mc'
    proof -
      from that obtain pre m where pre: "cs = pre @ Object a sz # cs'" "mc' = ?mc\<lparr>mc_memory := m\<rparr>"
        "relocating cls mc cs pre (Object a sz # cs') m" by blast
      obtain m' where "relocate_object a sz mc' = Inr (mc'\<lparr>mc_memory := m'\<rparr>)" "relocating cls mc cs (pre @ [Object a sz]) cs' m'"
        using relocate_object_ok [OF ok pre] by blast
      with pre(1,2) show ?thesis by (intro exI conjI; (rule exI [of _ "pre @ [Object a sz]"])?) auto
    qed
    show "?I cs' mc'" if "?I (Gap a # cs') mc'" for a cs' mc'
    proof -
      from that obtain pre m where "cs = pre @ Gap a # cs'" "mc' = ?mc\<lparr>mc_memory := m\<rparr>" "relocating cls mc cs pre (Gap a # cs') m" by blast
      then show ?thesis by (intro exI [of _ "pre @ [Gap a]"]) (auto simp: relocating_def)
    qed
    show "cell_shape cls (mc_memory mc') c" if "?I (c # cs') mc'" for c cs' mc'
      using that relocating_shape [OF ok] by auto
    show "mc_init_top mc' = mc_init_top mc" if "?I cs' mc'" for cs' mc' using that by (auto simp: updated_def forwarded_def)
  qed
  then show ?thesis by (auto simp: relocate_def walk_heap_def updated_def forwarded_def)
qed

end
