(* ===== verification/MarkCompactTheorems.thy ===== *)
theory MarkCompactTheorems
  imports MarkCompactProofs
begin

text \<open>
  A whole mark-compact collection: what becomes of the live objects, of the references to them and of
  the weak roots.
\<close>

lemma moved_word_content:
  assumes ok: "heap_ok cls mc cs" and obj: "Object a sz \<in> set cs" "a \<in> live cls mc" "i < sz" "i \<noteq> 8"
  shows "moved_word cls mc cs a i = (if a + i \<in> set (obj_slots cls (mc_memory mc) a)
    then relocated cls mc cs (mc_memory mc (a + i)) else mc_memory mc (a + i))"
proof -
  have cell: "c = Object a sz" if "c \<in> set cs" "cell_addr c \<le> a + i" "a + i < cell_end c" for c
    using same_cell [OF heap_okD(1) [OF ok] that(1) obj(1) that(2,3)] obj(3) by simp
  have heap: "r_contains (mc_heap mc) (a + i)"
    using new_addr_bounds(4) [OF ok obj(1)] contiguous_bounds [OF heap_okD(1) [OF ok] obj(1)] heap_okD(2) [OF ok] obj(3)
    by (simp add: r_contains_def)
  have "a + i \<in> all_slots cls mc cs \<longleftrightarrow> a + i \<in> set (obj_slots cls (mc_memory mc) a)"
  proof
    assume "a + i \<in> all_slots cls mc cs"
    then have "a + i \<in> live_slots cls mc cs" using heap heap_okD(10) [OF ok] by (auto simp: all_slots_def)
    from live_slots_inside [OF ok order_refl this] cell show "a + i \<in> set (obj_slots cls (mc_memory mc) a)" by fastforce
  next
    assume "a + i \<in> set (obj_slots cls (mc_memory mc) a)"
    then show "a + i \<in> all_slots cls mc cs" using obj(1,2) by (auto simp: all_slots_def live_slots_def objects_def)
  qed
  moreover have "a + i \<noteq> fwd_word b" if "b \<in> objects cs" for b
  proof
    assume eq: "a + i = fwd_word b"
    obtain szb where szb: "Object b szb \<in> set cs" using \<open>b \<in> objects cs\<close> by (auto simp: objects_def)
    with cell [OF szb] eq heap_okD(8) [OF ok szb] have "b = a" by (simp add: fwd_word_def object_ok_def header_size_def)
    with eq obj(4) show False by (simp add: fwd_word_def)
  qed
  then have "forward_all cls mc cs (objects cs) (a + i) = mc_memory mc (a + i)"
    using live_objects [OF ok] by (auto simp: forward_all_def mark_all_def)
  ultimately show ?thesis using obj(4) by (simp add: moved_word_def update_all_def)
qed

lemma collect_runs:
  assumes ok: "heap_ok cls mc cs"
  shows "\<exists>m'. mc_collect cls mc = ret (mc\<lparr>mc_memory := m', mc_top := r_start (mc_heap mc) + live_size (live cls mc) cs,
      mc_finalizers := live_finalizers cls mc cs\<rparr>) \<and> relocating cls mc cs cs [] m'"
proof -
  obtain m' where m': "relocate cls (updated cls mc cs (all_slots cls mc cs)\<lparr>mc_finalizers := live_finalizers cls mc cs\<rparr>)
      = ret (updated cls mc cs (all_slots cls mc cs)\<lparr>mc_finalizers := live_finalizers cls mc cs, mc_memory := m'\<rparr>)"
    "relocating cls mc cs cs [] m'"
    using relocate_ok [OF ok] by blast
  have "mc_collect cls mc = ret (updated cls mc cs (all_slots cls mc cs)\<lparr>mc_finalizers := live_finalizers cls mc cs, mc_memory := m'\<rparr>)"
    using m'(1) update_references_ok [OF ok] compute_forward_ok [OF ok] marking_ok [OF ok]
    by (simp add: mc_collect_def mark_live_def ret_def)
  moreover have "updated cls mc cs (all_slots cls mc cs)\<lparr>mc_finalizers := live_finalizers cls mc cs, mc_memory := m'\<rparr>
      = mc\<lparr>mc_memory := m', mc_top := r_start (mc_heap mc) + live_size (live cls mc) cs, mc_finalizers := live_finalizers cls mc cs\<rparr>"
    by (simp add: updated_def forwarded_def)
  ultimately show ?thesis using m'(2) by auto
qed

text \<open>A heap with a dead object, a live one that refers to a second live one, and a gap.\<close>

definition demo_classes :: classes where
  "demo_classes = (\<lambda>_. \<lparr>ci_size = Fixed 24, ci_ref_fields = [16]\<rparr>)"

definition demo_cells :: "cell list" where
  "demo_cells = [Object 1024 24, Object 1048 24, Gap 1072, Object 1080 24]"

definition demo_mc :: mark_compact where
  "demo_mc = \<lparr>mc_heap = \<lparr>r_start = 1024, r_end = 2048\<rparr>, mc_readonly = \<lparr>r_start = 4096, r_end = 8192\<rparr>,
     mc_init_top = 1104, mc_top = 1024, mc_rootset = [8],
     mc_memory = (\<lambda>_. 0)(1024 := 5000, 1040 := 1080, 1048 := 5000, 1064 := 1080, 1080 := 5000, 1096 := 4104, 8 := 1048),
     mc_finalizers = [(1024, 1), (1080, 2)]\<rparr>"

lemma demo_objects: "objects demo_cells = {1024, 1048, 1080}"
  by (auto simp: objects_def demo_cells_def)

lemma demo_slots: "visit_reference_fields demo_classes m a = Inr [a + 16]"
  by (simp add: visit_reference_fields_def visit_refs_def demo_classes_def visit_fixed_object_def)

lemma demo_ok: "heap_ok demo_classes demo_mc demo_cells"
proof -
  have shape: "cell_shape demo_classes (mc_memory demo_mc) c" if "c \<in> set demo_cells" for c
    using that by (auto simp: demo_cells_def cell_shape_def demo_mc_def obj_size_def size_for_vtblptr_def vt_instance_size_def
        demo_classes_def)
  have "object_ok demo_classes demo_mc demo_cells a sz" if "Object a sz \<in> set demo_cells" for a sz
    using that unfolding object_ok_def fields_ok_def demo_slots
    by (auto simp: demo_cells_def demo_mc_def fwd_word_def body_start_def header_size_def vt_instance_size_def demo_classes_def
        ptr_ok_def demo_objects [unfolded demo_cells_def] r_contains_def addr_null_def)
  with shape show ?thesis unfolding heap_ok_def
    by (simp add: demo_mc_def demo_objects ptr_ok_def r_contains_def) (simp add: demo_cells_def)
qed

lemma demo_live: "live demo_classes demo_mc = {1048, 1080}"
proof
  have slots: "obj_slots demo_classes (mc_memory demo_mc) a = [a + 16]" for a by (simp add: obj_slots_def demo_slots)
  show "live demo_classes demo_mc \<subseteq> {1048, 1080}"
    by (rule live_closed [OF demo_ok]) (auto simp: targets_def slots demo_mc_def r_contains_def)
  have a: "1048 \<in> live demo_classes demo_mc"
    using live_targets(1) [OF demo_ok] by (auto simp: targets_def demo_mc_def r_contains_def)
  have "1080 \<in> targets demo_mc [1064]" by (auto simp: targets_def demo_mc_def r_contains_def)
  then have "1080 \<in> live demo_classes demo_mc"
    using live_targets(2) [OF demo_ok a] unfolding slots by auto
  with a show "{1048, 1080} \<subseteq> live demo_classes demo_mc" by simp
qed

lemma demo_new_addr: "new_addr demo_classes demo_mc demo_cells 1048 = 1024" "new_addr demo_classes demo_mc demo_cells 1080 = 1048"
  unfolding new_addr_def demo_live by (simp_all add: demo_cells_def demo_mc_def)

text \<open>C4.  On a well-formed heap the collection ends without a panic.  Every object that is reachable from
  the roots is found, word for word, at its new address, which is not above the old one: its
  references and the roots point to the new addresses of the objects they pointed to, and references
  out of the heap are unchanged.  No object carries a mark afterwards, and the finalizers that remain
  are those of live objects, under their new addresses.\<close>

theorem mark_compact_preserves_live_objects:
  assumes "heap_ok cls mc cs"
  shows "\<exists>mc'. mc_collect cls mc = ret mc'
    \<and> (\<forall>a sz i. Object a sz \<in> set cs \<and> a \<in> live cls mc \<and> i < sz \<and> i \<noteq> 8 \<longrightarrow>
         mc_memory mc' (new_addr cls mc cs a + i) = (if a + i \<in> set (obj_slots cls (mc_memory mc) a)
            then relocated cls mc cs (mc_memory mc (a + i)) else mc_memory mc (a + i)))
    \<and> (\<forall>a\<in>live cls mc. new_addr cls mc cs a \<le> a \<and> \<not> is_marked_non_atomic (mc_memory mc') (new_addr cls mc cs a))
    \<and> (\<forall>r\<in>set (mc_rootset mc). mc_memory mc' r = relocated cls mc cs (mc_memory mc r))
    \<and> mc_finalizers mc' = live_finalizers cls mc cs"
proof -
  note ok = assms
  obtain m' where m': "mc_collect cls mc = ret (mc\<lparr>mc_memory := m', mc_top := r_start (mc_heap mc) + live_size (live cls mc) cs,
      mc_finalizers := live_finalizers cls mc cs\<rparr>)" "relocating cls mc cs cs [] m'"
    using collect_runs [OF ok] by blast
  have moved: "m' (new_addr cls mc cs a + i) = moved_word cls mc cs a i" if "Object a sz \<in> set cs" "a \<in> live cls mc" "i < sz" for a sz i
    using m'(2) that by (simp add: relocating_def)
  have root: "m' r = relocated cls mc cs (mc_memory mc r)" if "r \<in> set (mc_rootset mc)" for r
    using m'(2) that heap_okD(10) [OF ok that] by (simp add: relocating_def update_all_def all_slots_def)
  have unmarked: "new_addr cls mc cs a \<le> a \<and> \<not> is_marked_non_atomic m' (new_addr cls mc cs a)" if a: "a \<in> live cls mc" for a
  proof -
    obtain sz where sz: "Object a sz \<in> set cs" using a live_objects [OF ok] by (auto simp: objects_def)
    have "8 < sz" using heap_okD(8) [OF ok sz] by (simp add: object_ok_def header_size_def)
    with moved [OF sz a, of 8] new_addr_bounds(1,2) [OF ok sz] aligned_and_mark show ?thesis
      by (simp add: is_marked_non_atomic_def fwd_word_def moved_word_def)
  qed
  show ?thesis
    using m'(1) moved moved_word_content [OF ok] root unmarked
    by (intro exI conjI; (rule m'(1))?) auto
qed

theorem mark_compact_preserves_live_objects_witness:
  "heap_ok demo_classes demo_mc demo_cells \<and> (\<exists>mc'. mc_collect demo_classes demo_mc = ret mc'
     \<and> mc_memory mc' 8 = 1024 \<and> mc_memory mc' 1024 = 5000 \<and> mc_memory mc' 1040 = 1048 \<and> mc_memory mc' 1064 = 4104
     \<and> mc_finalizers mc' = [(1048, 2)])"
proof -
  have slots: "obj_slots demo_classes (mc_memory demo_mc) a = [a + 16]" for a by (simp add: obj_slots_def demo_slots)
  have cells: "Object 1048 24 \<in> set demo_cells" "Object 1080 24 \<in> set demo_cells" by (simp_all add: demo_cells_def)
  have mem: "mc_memory demo_mc 1048 = 5000" "mc_memory demo_mc 1064 = 1080" "mc_memory demo_mc 1096 = 4104" "mc_memory demo_mc 8 = 1048"
    "set (mc_rootset demo_mc) = {8}" by (simp_all add: demo_mc_def)
  have rel: "relocated demo_classes demo_mc demo_cells 1048 = 1024" "relocated demo_classes demo_mc demo_cells 1080 = 1048"
    "relocated demo_classes demo_mc demo_cells 4104 = 4104"
    using demo_new_addr by (simp_all add: relocated_def) (simp_all add: demo_mc_def r_contains_def)
  have fin: "live_finalizers demo_classes demo_mc demo_cells = [(1048, 2)]"
    unfolding live_finalizers_def demo_live by (simp add: demo_new_addr demo_mc_def [THEN arg_cong [of _ _ mc_finalizers]])
  obtain mc' where run: "mc_collect demo_classes demo_mc = ret mc'"
    and word: "\<And>a sz i. Object a sz \<in> set demo_cells \<Longrightarrow> a \<in> {1048, 1080} \<Longrightarrow> i < sz \<Longrightarrow> i \<noteq> 8 \<Longrightarrow>
         mc_memory mc' (new_addr demo_classes demo_mc demo_cells a + i) = (if i = 16
            then relocated demo_classes demo_mc demo_cells (mc_memory demo_mc (a + i)) else mc_memory demo_mc (a + i))"
    and root: "mc_memory mc' 8 = relocated demo_classes demo_mc demo_cells (mc_memory demo_mc 8)"
    and final: "mc_finalizers mc' = live_finalizers demo_classes demo_mc demo_cells"
    using mark_compact_preserves_live_objects [OF demo_ok] unfolding demo_live slots mem(5) by auto
  show ?thesis
    using demo_ok run root final word [OF cells(1), of 0] word [OF cells(1), of 16] word [OF cells(2), of 16] demo_new_addr mem rel fin
    by simp
qed

text \<open>C27.  The live objects end up one after the other without gaps, in their old order, from the start of
  the heap up to the new top: the block of each lies between the start and the top, blocks do not
  overlap, and their sizes add up to the size of the used heap.\<close>

theorem mark_compact_compacts:
  assumes "heap_ok cls mc cs"
  shows "\<exists>mc'. mc_collect cls mc = ret mc'
    \<and> mc_top mc' = r_start (mc_heap mc) + live_size (live cls mc) cs \<and> mc_top mc' \<le> mc_init_top mc
    \<and> (\<forall>a sz. Object a sz \<in> set cs \<and> a \<in> live cls mc \<longrightarrow>
         r_start (mc_heap mc) \<le> new_addr cls mc cs a \<and> new_addr cls mc cs a + sz \<le> mc_top mc')
    \<and> (\<forall>a sz b szb. Object a sz \<in> set cs \<and> Object b szb \<in> set cs \<and> a \<in> live cls mc \<and> b \<in> live cls mc \<and> a < b \<longrightarrow>
         new_addr cls mc cs a + sz \<le> new_addr cls mc cs b)"
proof -
  note ok = assms
  obtain m' where m': "mc_collect cls mc = ret (mc\<lparr>mc_memory := m', mc_top := r_start (mc_heap mc) + live_size (live cls mc) cs,
      mc_finalizers := live_finalizers cls mc cs\<rparr>)"
    using collect_runs [OF ok] by blast
  have "r_start (mc_heap mc) \<le> new_addr cls mc cs a \<and> new_addr cls mc cs a + sz \<le> r_start (mc_heap mc) + live_size (live cls mc) cs"
    if a: "Object a sz \<in> set cs" "a \<in> live cls mc" for a sz
  proof -
    obtain pre post where split: "cs = pre @ Object a sz # post" using a(1) by (meson split_list)
    have "live_size (live cls mc) cs = live_size (live cls mc) pre + sz + live_size (live cls mc) post"
      using split a(2) by simp
    with new_addr_split [OF ok split] show ?thesis by simp
  qed
  moreover have "new_addr cls mc cs a + sz \<le> new_addr cls mc cs b"
    if ab: "Object a sz \<in> set cs" "Object b szb \<in> set cs" "a \<in> live cls mc" "a < b" for a sz b szb
  proof -
    obtain pre post where split: "cs = pre @ Object b szb # post" using ab(2) by (meson split_list)
    have "Object a sz \<in> set pre"
    proof (rule ccontr)
      assume "Object a sz \<notin> set pre"
      then have "Object a sz \<in> set (Object b szb # post)" using ab(1) split by auto
      with contiguous_bounds [OF heap_split(2) [OF ok split] this] ab(4) show False by simp
    qed
    with new_addr_before [OF ok split] ab(3) show ?thesis by blast
  qed
  moreover have "r_start (mc_heap mc) + live_size (live cls mc) cs \<le> mc_init_top mc"
    using live_size_le [OF heap_okD(1) [OF ok]] .
  ultimately show ?thesis using m' by (intro exI conjI; (rule m')?) auto
qed

theorem mark_compact_compacts_witness:
  "heap_ok demo_classes demo_mc demo_cells \<and> (\<exists>mc'. mc_collect demo_classes demo_mc = ret mc' \<and> mc_top mc' = 1072)"
proof -
  have "r_start (mc_heap demo_mc) + live_size (live demo_classes demo_mc) demo_cells = 1072"
    unfolding demo_live by (simp add: demo_cells_def demo_mc_def)
  with mark_compact_compacts [OF demo_ok] demo_ok show ?thesis by auto
qed

end
