(* ===== verification/Allocators.thy ===== *)
theory Allocators
  imports HeapObjects Calls
begin

text \<open>
  Bump-pointer allocation: \<open>BumpAllocator\<close> (\<open>dora/src/gc/bump.rs\<close>), \<open>Space\<close>
  (\<open>dora/src/gc/space.rs\<close>), the allocation side of the region collector (\<open>dora/src/gc/region.rs\<close>) and
  thread-local buffers (\<open>dora/src/gc/tlab.rs\<close> and \<open>Gc::alloc_tlab\<close> of \<open>dora/src/gc.rs\<close>).
  Committing memory is the operating system's part; the model records the end of what is committed.
  A compare-and-exchange loop is modelled by its iterations where threads interleave and by its
  result where one thread runs alone.
\<close>

subsection \<open>Bump allocator\<close>

record bump_allocator =
  ba_top :: heap_address
  ba_limit :: heap_address

definition bump_new :: "heap_address \<Rightarrow> heap_address \<Rightarrow> bump_allocator" where
  "bump_new t limit = \<lparr>ba_top = t, ba_limit = limit\<rparr>"

definition bump_reset :: "heap_address \<Rightarrow> heap_address \<Rightarrow> bump_allocator \<Rightarrow> bump_allocator" where
  "bump_reset t limit b = b\<lparr>ba_top := t, ba_limit := limit\<rparr>"

definition bump_reset_limit :: "heap_address \<Rightarrow> bump_allocator \<Rightarrow> bump_allocator" where
  "bump_reset_limit limit b = b\<lparr>ba_limit := limit\<rparr>"

text \<open>One iteration of the loop of \<open>bump_alloc\<close> with the value of \<open>top\<close> the thread read last; the weak
  compare-and-exchange may fail spuriously.  \<open>Inl old\<close> goes round again, \<open>Inr a\<close> returns.\<close>

definition bump_iter :: "bool \<Rightarrow> usize \<Rightarrow> heap_address \<Rightarrow> bump_allocator \<Rightarrow> ((heap_address + heap_address) \<times> bump_allocator) result" where
  "bump_iter spurious sz old b =
     rbind (checked_add old sz) (\<lambda>new.
     if ba_limit b < new then Inr (Inr addr_null, b)
     else if ba_top b = old \<and> \<not> spurious then Inr (Inr old, b\<lparr>ba_top := new\<rparr>)
     else Inr (Inl (ba_top b), b))"

text \<open>The call of a thread that runs alone.\<close>

definition bump_alloc :: "usize \<Rightarrow> bump_allocator \<Rightarrow> (heap_address \<times> bump_allocator) result" where
  "bump_alloc sz b =
     rbind (checked_add (ba_top b) sz) (\<lambda>new.
     if ba_limit b < new then Inr (addr_null, b) else Inr (ba_top b, b\<lparr>ba_top := new\<rparr>))"

subsection \<open>Space\<close>

record space_config =
  sc_executable :: bool
  sc_chunk :: usize
  sc_limit :: usize
  sc_align :: usize

record space =
  sp_config :: space_config
  sp_total :: region
  sp_top :: heap_address
  sp_end :: heap_address

definition adapt_to_page_size :: "nat \<Rightarrow> space_config \<Rightarrow> space_config result" where
  "adapt_to_page_size page_bits config =
     rbind (page_align page_bits (sc_chunk config)) (\<lambda>chunk.
     rbind (page_align page_bits (sc_limit config)) (\<lambda>limit.
     Inr (config\<lparr>sc_chunk := chunk, sc_limit := limit\<rparr>)))"

text \<open>The start of the reservation is the operating system's answer.\<close>

definition space_new :: "nat \<Rightarrow> heap_address \<Rightarrow> space_config \<Rightarrow> space result" where
  "space_new page_bits space_start config =
     rbind (adapt_to_page_size page_bits config) (\<lambda>config.
     rbind (offset space_start (sc_limit config)) (\<lambda>space_end.
     rbind (offset space_start (sc_chunk config)) (\<lambda>fin.
     rbind (region_new space_start space_end) (\<lambda>total.
     Inr \<lparr>sp_config = config, sp_total = total, sp_top = space_start, sp_end = fin\<rparr>))))"

definition raw_alloc :: "usize \<Rightarrow> space \<Rightarrow> (heap_address \<times> space) result" where
  "raw_alloc sz s =
     rbind (checked_add (sp_top s) sz) (\<lambda>new.
     if sp_end s < new then Inr (addr_null, s) else Inr (sp_top s, s\<lparr>sp_top := new\<rparr>))"

definition space_extend :: "usize \<Rightarrow> space \<Rightarrow> (bool \<times> space) result" where
  "space_extend sz s =
     rbind (checked_add (sp_top s) sz) (\<lambda>new_top.
     if new_top \<le> sp_end s then Inr (True, s)
     else rbind (checked_sub (sp_end s) (sp_top s)) (\<lambda>rest.
          rbind (checked_sub sz rest) (\<lambda>missing.
          rbind (align_usize missing (sc_chunk (sp_config s))) (\<lambda>grow.
          rbind (checked_add (sp_end s) grow) (\<lambda>new_end.
          if new_end \<le> r_end (sp_total s) then Inr (True, s\<lparr>sp_end := new_end\<rparr>) else Inr (False, s))))))"

partial_function (option) space_alloc_loop :: "usize \<Rightarrow> space \<Rightarrow> (heap_address \<times> space) call" where
  "space_alloc_loop sz s =
     (case raw_alloc sz s of
        Inl e \<Rightarrow> Some (Inl e)
      | Inr r \<Rightarrow>
          if fst r \<noteq> addr_null then Some (Inr r)
          else (case space_extend sz (snd r) of
                  Inl e \<Rightarrow> Some (Inl e)
                | Inr x \<Rightarrow> if fst x then space_alloc_loop sz (snd x) else Some (Inr (addr_null, snd x))))"

declare space_alloc_loop.simps [code]

definition space_alloc :: "usize \<Rightarrow> space \<Rightarrow> (heap_address \<times> space) call" where
  "space_alloc sz s = cbind (Some (align_usize sz (sc_align (sp_config s)))) (\<lambda>sz. space_alloc_loop sz s)"

definition space_contains :: "space \<Rightarrow> heap_address \<Rightarrow> bool" where
  "space_contains s addr = r_contains (sp_total s) addr"

definition used_region :: "space \<Rightarrow> region result" where
  "used_region s = region_new (r_start (sp_total s)) (sp_top s)"

subsection \<open>Regions\<close>

datatype region_state = RegionFree | RegionUsed

record heap_region =
  hr_area_start :: heap_address
  hr_area_end :: heap_address
  hr_top :: heap_address
  hr_state :: region_state

record region_collector =
  rc_regions :: "heap_region list"
  rc_number_regions :: usize
  rc_alloc_region :: "usize option"

fun regions_from :: "usize \<Rightarrow> heap_address \<Rightarrow> nat \<Rightarrow> heap_region list" where
  "regions_from page_size start 0 = []"
| "regions_from page_size start (Suc n) =
     \<lparr>hr_area_start = start, hr_area_end = start + (REGION_SIZE - page_size), hr_top = start, hr_state = RegionFree\<rparr>
     # regions_from page_size (start + REGION_SIZE) n"

definition region_collector_new :: "usize \<Rightarrow> heap_address \<Rightarrow> usize \<Rightarrow> region_collector result" where
  "region_collector_new page_size reservation_start max_heap_size =
     rbind (align_region max_heap_size) (\<lambda>heap_size.
     rbind (offset reservation_start heap_size) (\<lambda>_.
     let n = heap_size div REGION_SIZE in
     Inr \<lparr>rc_regions = regions_from page_size reservation_start n, rc_number_regions = n, rc_alloc_region = None\<rparr>))"

definition bump_pointer_alloc :: "usize \<Rightarrow> heap_region \<Rightarrow> (heap_address \<times> heap_region) result" where
  "bump_pointer_alloc sz r =
     rbind (checked_add (hr_top r) sz) (\<lambda>new.
     if new \<le> hr_area_end r then Inr (hr_top r, r\<lparr>hr_top := new\<rparr>) else Inr (addr_null, r))"

fun find_free_from :: "heap_region list \<Rightarrow> usize \<Rightarrow> usize option" where
  "find_free_from [] i = None"
| "find_free_from (r # rs) i = (if hr_state r = RegionFree then Some i else find_free_from rs (i + 1))"

definition find_free_region :: "region_collector \<Rightarrow> usize option" where
  "find_free_region rc = find_free_from (take (rc_number_regions rc) (rc_regions rc)) 0"

definition init_region :: "usize \<Rightarrow> region_collector \<Rightarrow> region_collector result" where
  "init_region i rc =
     rbind (vec_get (rc_regions rc) i) (\<lambda>r.
     rbind (checked_sub (hr_area_end r) (hr_area_start r)) (\<lambda>_.
     Inr (rc\<lparr>rc_regions := (rc_regions rc)[i := r\<lparr>hr_state := RegionUsed\<rparr>]\<rparr>)))"

text \<open>The region the loop of \<open>regular_alloc\<close> tries next; \<open>None\<close> when there is none left.\<close>

definition current_region :: "region_collector \<Rightarrow> (usize option \<times> region_collector) result" where
  "current_region rc =
     (case rc_alloc_region rc of
        Some i \<Rightarrow> Inr (Some i, rc)
      | None \<Rightarrow> (case find_free_region rc of
                   None \<Rightarrow> Inr (None, rc)
                 | Some i \<Rightarrow> rbind (init_region i rc) (\<lambda>rc. Inr (Some i, rc\<lparr>rc_alloc_region := Some i\<rparr>))))"

definition try_region :: "usize \<Rightarrow> usize \<Rightarrow> region_collector \<Rightarrow> (heap_address \<times> region_collector) result" where
  "try_region sz i rc =
     rbind (vec_get (rc_regions rc) i) (\<lambda>r.
     rbind (bump_pointer_alloc sz r) (\<lambda>(addr, r).
     if addr \<noteq> addr_null then Inr (addr, rc\<lparr>rc_regions := (rc_regions rc)[i := r]\<rparr>)
     else Inr (addr_null, rc\<lparr>rc_alloc_region := None\<rparr>)))"

partial_function (option) regular_alloc_loop :: "usize \<Rightarrow> region_collector \<Rightarrow> (heap_address \<times> region_collector) call" where
  "regular_alloc_loop sz rc =
     (case current_region rc of
        Inl e \<Rightarrow> Some (Inl e)
      | Inr x \<Rightarrow>
          (case fst x of
             None \<Rightarrow> Some (Inr (addr_null, snd x))
           | Some i \<Rightarrow>
               (case try_region sz i (snd x) of
                  Inl e \<Rightarrow> Some (Inl e)
                | Inr y \<Rightarrow> if fst y \<noteq> addr_null then Some (Inr y) else regular_alloc_loop sz (snd y))))"

declare regular_alloc_loop.simps [code]

definition regular_alloc :: "usize \<Rightarrow> region_collector \<Rightarrow> (heap_address \<times> region_collector) call" where
  "regular_alloc sz rc = cbind (ccheck (sz < REGION_SIZE div 2)) (\<lambda>_. regular_alloc_loop sz rc)"

definition rc_alloc_tlab_area :: "usize \<Rightarrow> region_collector \<Rightarrow> (region option \<times> region_collector) call" where
  "rc_alloc_tlab_area sz rc =
     cbind (regular_alloc sz rc) (\<lambda>(addr, rc).
     if addr = addr_null then ret (None, rc)
     else cbind (Some (region_start addr sz)) (\<lambda>r. ret (Some r, rc)))"

definition rc_alloc :: "usize \<Rightarrow> region_collector \<Rightarrow> (heap_address \<times> region_collector) call" where
  "rc_alloc sz rc = (if sz < REGION_SIZE div 2 then regular_alloc sz rc else Some (Inl Unimplemented))"

subsection \<open>Thread-local buffers\<close>

definition TLAB_SIZE :: usize where "TLAB_SIZE = 32 * 1024"
definition TLAB_OBJECT_SIZE :: usize where "TLAB_OBJECT_SIZE = 8 * 1024"

record tlab =
  tlab_top :: heap_address
  tlab_end :: heap_address

definition tlab_initialize :: "heap_address \<Rightarrow> heap_address \<Rightarrow> tlab result" where
  "tlab_initialize s e = rbind (rassert (s \<le> e)) (\<lambda>_. Inr \<lparr>tlab_top = s, tlab_end = e\<rparr>)"

definition tlab_region :: "tlab \<Rightarrow> region result" where
  "tlab_region t = region_new (tlab_top t) (tlab_end t)"

definition tlab_allocate :: "usize \<Rightarrow> tlab \<Rightarrow> (heap_address option \<times> tlab) result" where
  "tlab_allocate sz t =
     rbind (rassert (sz < TLAB_OBJECT_SIZE)) (\<lambda>_.
     rbind (tlab_region t) (\<lambda>r.
     rbind (r_size r) (\<lambda>rsize.
     if sz \<le> rsize
     then rbind (offset (r_start r) sz) (\<lambda>top.
          rbind (tlab_initialize top (r_end r)) (\<lambda>t.
          Inr (Some (r_start r), t)))
     else Inr (None, t))))"

definition make_iterable_current :: "fillers \<Rightarrow> tlab \<Rightarrow> memory \<Rightarrow> (tlab \<times> memory) result" where
  "make_iterable_current fs t m =
     rbind (tlab_region t) (\<lambda>r.
     rbind (fill_region fs (r_start r) (r_end r) m) (\<lambda>m.
     rbind (tlab_initialize addr_null addr_null) (\<lambda>t.
     Inr (t, m))))"

fun make_iterable_all :: "fillers \<Rightarrow> tlab list \<Rightarrow> memory \<Rightarrow> (tlab list \<times> memory) result" where
  "make_iterable_all fs [] m = Inr ([], m)"
| "make_iterable_all fs (t # ts) m =
     rbind (make_iterable_current fs t m) (\<lambda>(t, m).
     rbind (make_iterable_all fs ts m) (\<lambda>(ts, m).
     Inr (t # ts, m)))"

text \<open>\<open>Gc::alloc_tlab\<close> with the collector's \<open>alloc_tlab_area\<close> as an argument that acts on the collector's
  state and leaves the heap alone, as that of the region collector does.\<close>

definition alloc_tlab ::
  "fillers \<Rightarrow> (usize \<Rightarrow> 's \<Rightarrow> (region option \<times> 's) call) \<Rightarrow> usize \<Rightarrow> tlab \<Rightarrow> memory \<Rightarrow> 's \<Rightarrow>
   (heap_address \<times> tlab \<times> memory \<times> 's) call" where
  "alloc_tlab fs alloc_tlab_area sz t m s =
     cbind (Some (tlab_allocate sz t)) (\<lambda>(res, t).
       case res of
         Some addr \<Rightarrow> ret (addr, t, m, s)
       | None \<Rightarrow>
           cbind (Some (make_iterable_current fs t m)) (\<lambda>(t, m).
           cbind (alloc_tlab_area TLAB_SIZE s) (\<lambda>(area, s).
             case area of
               None \<Rightarrow> ret (addr_null, t, m, s)
             | Some r \<Rightarrow>
                 cbind (Some (offset (r_start r) sz)) (\<lambda>top.
                 cbind (Some (region_new top (r_end r))) (\<lambda>rest.
                 cbind (Some (tlab_initialize (r_start rest) (r_end rest))) (\<lambda>t.
                 ret (r_start r, t, m, s)))))))"

end
