(* ===== verification/AllocatorTheorems.thy ===== *)
theory AllocatorTheorems
  imports Allocators MarkCompactProofs
begin

text \<open>
  Allocated blocks do not overlap, under any interleaving of the threads that share a bump pointer;
  the loops of \<open>Space::alloc\<close> and \<open>regular_alloc\<close> end; abandoned buffers leave the heap walkable.
\<close>

subsection \<open>The contract of a bump pointer\<close>

locale bump_pointer =
  fixes alloc_op :: "usize \<Rightarrow> 's \<Rightarrow> (heap_address \<times> 's) result"
    and top_of :: "'s \<Rightarrow> heap_address"
    and limit_of :: "'s \<Rightarrow> heap_address"
  assumes fits: "top_of s + sz \<le> limit_of s \<Longrightarrow> limit_of s < 2 ^ 64 \<Longrightarrow>
      \<exists>s'. alloc_op sz s = Inr (top_of s, s') \<and> top_of s' = top_of s + sz \<and> limit_of s' = limit_of s"
    and full: "limit_of s < top_of s + sz \<Longrightarrow> top_of s + sz < 2 ^ 64 \<Longrightarrow> alloc_op sz s = Inr (addr_null, s)"
begin

lemma never_beyond_limit:
  assumes "alloc_op sz s = Inr (a, s')" "a \<noteq> addr_null" "limit_of s < 2 ^ 64" "top_of s + sz < 2 ^ 64"
  shows "a = top_of s \<and> a + sz \<le> limit_of s \<and> top_of s' = a + sz \<and> limit_of s' = limit_of s"
proof (cases "top_of s + sz \<le> limit_of s")
  case True
  from fits [OF this assms(3)] assms(1) True show ?thesis by auto
next
  case False
  with full [of s sz] assms show ?thesis by simp
qed

lemma blocks_in_order:
  assumes "alloc_op sz s = Inr (a, s')" "a \<noteq> addr_null" "alloc_op sz' s' = Inr (b, s'')" "b \<noteq> addr_null"
    and "limit_of s < 2 ^ 64" "top_of s + sz < 2 ^ 64" "top_of s' + sz' < 2 ^ 64"
  shows "a + sz \<le> b \<and> b + sz' \<le> limit_of s"
  using never_beyond_limit [OF assms(1,2,5,6)] never_beyond_limit [OF assms(3,4) _ assms(7)] assms(5) by auto

end

interpretation bump: bump_pointer bump_alloc ba_top ba_limit
  by unfold_locales (auto simp: bump_alloc_def rbind_def checked_add_def)

interpretation space: bump_pointer raw_alloc sp_top sp_end
  by unfold_locales (auto simp: raw_alloc_def rbind_def checked_add_def)

interpretation heap_region: bump_pointer bump_pointer_alloc hr_top hr_area_end
  by unfold_locales (auto simp: bump_pointer_alloc_def rbind_def checked_add_def)

text \<open>The loop run by one thread alone is one iteration.\<close>

lemma bump_iter_alone:
  "bump_iter False sz (ba_top b) b = rbind (bump_alloc sz b) (\<lambda>(a, b). Inr (Inr a, b))"
  by (simp add: bump_iter_def bump_alloc_def rbind_def checked_add_def)

subsection \<open>Threads that share a bump pointer\<close>

datatype bump_pc = BumpIdle | BumpLoop usize heap_address

record bump_system =
  bs_alloc :: bump_allocator
  bs_pc :: "nat \<Rightarrow> bump_pc"
  bs_blocks :: "(heap_address \<times> usize) list"

text \<open>Every interleaving of the calls and of the iterations of their loops, spurious failures of the
  exchange included; \<open>bs_blocks\<close> are the blocks handed out.\<close>

inductive bump_reach :: "heap_address \<Rightarrow> heap_address \<Rightarrow> bump_system \<Rightarrow> bool" for start limit where
  init: "bump_reach start limit \<lparr>bs_alloc = bump_new start limit, bs_pc = (\<lambda>_. BumpIdle), bs_blocks = []\<rparr>"
| call: "bump_reach start limit s \<Longrightarrow> bs_pc s t = BumpIdle \<Longrightarrow>
    bump_reach start limit (s\<lparr>bs_pc := (bs_pc s)(t := BumpLoop sz (ba_top (bs_alloc s)))\<rparr>)"
| again: "bump_reach start limit s \<Longrightarrow> bs_pc s t = BumpLoop sz old \<Longrightarrow>
    bump_iter spurious sz old (bs_alloc s) = Inr (Inl old', b) \<Longrightarrow>
    bump_reach start limit (s\<lparr>bs_alloc := b, bs_pc := (bs_pc s)(t := BumpLoop sz old')\<rparr>)"
| return: "bump_reach start limit s \<Longrightarrow> bs_pc s t = BumpLoop sz old \<Longrightarrow>
    bump_iter spurious sz old (bs_alloc s) = Inr (Inr a, b) \<Longrightarrow>
    bump_reach start limit (s\<lparr>bs_alloc := b, bs_pc := (bs_pc s)(t := BumpIdle),
      bs_blocks := (if a = addr_null then bs_blocks s else (a, sz) # bs_blocks s)\<rparr>)"

fun blocks_down :: "heap_address \<Rightarrow> (heap_address \<times> usize) list \<Rightarrow> heap_address \<Rightarrow> bool" where
  "blocks_down start [] tp = (tp = start)"
| "blocks_down start ((a, sz) # bs) tp = (tp = a + sz \<and> blocks_down start bs a)"

lemma blocks_down_bounds: "blocks_down start bs tp \<Longrightarrow> start \<le> tp \<and> (\<forall>(a, sz)\<in>set bs. start \<le> a \<and> a + sz \<le> tp)"
  by (induction bs arbitrary: tp) fastforce+

lemma blocks_down_disjoint:
  "blocks_down start bs tp \<Longrightarrow> i < j \<Longrightarrow> j < length bs \<Longrightarrow> fst (bs ! j) + snd (bs ! j) \<le> fst (bs ! i)"
proof (induction bs arbitrary: tp i j)
  case (Cons x bs)
  obtain a sz where x: "x = (a, sz)" by (cases x)
  then have rest: "blocks_down start bs a" using Cons.prems(1) by simp
  show ?case
  proof (cases i)
    case 0
    then obtain j' where j: "j = Suc j'" "j' < length bs" using Cons.prems(2,3) by (cases j) auto
    then have "bs ! j' \<in> set bs" by simp
    with blocks_down_bounds [OF rest] j 0 x show ?thesis by fastforce
  next
    case (Suc i')
    with Cons.prems Cons.IH [OF rest, of i' "j - 1"] show ?thesis by (cases j) auto
  qed
qed simp

lemma blocks_down_sum: "blocks_down start bs tp \<Longrightarrow> start + sum_list (map snd bs) = tp"
proof (induction bs arbitrary: tp)
  case (Cons x bs)
  then show ?case by (cases x) fastforce
qed simp

lemma bump_invariant:
  assumes "bump_reach start limit s" "0 < start" "start \<le> limit"
  shows "blocks_down start (bs_blocks s) (ba_top (bs_alloc s)) \<and> ba_top (bs_alloc s) \<le> limit \<and> ba_limit (bs_alloc s) = limit
    \<and> (\<forall>t sz old. bs_pc s t = BumpLoop sz old \<longrightarrow> start \<le> old \<and> old \<le> ba_top (bs_alloc s))"
  using assms
proof (induction rule: bump_reach.induct)
  case init
  then show ?case by (simp add: bump_new_def)
next
  case (call s t sz)
  then show ?case using blocks_down_bounds by (fastforce split: if_splits)
next
  case (again s t sz old spurious old' b)
  then have "b = bs_alloc s" "old' = ba_top (bs_alloc s)"
    by (auto simp: bump_iter_def rbind_def checked_add_def split: if_splits)
  with again show ?case using blocks_down_bounds by (fastforce split: if_splits)
next
  case (return s t sz old spurious a b)
  have old: "start \<le> old" "old \<le> ba_top (bs_alloc s)" using return by blast+
  have res: "a = addr_null \<and> b = bs_alloc s
      \<or> a = ba_top (bs_alloc s) \<and> b = (bs_alloc s)\<lparr>ba_top := a + sz\<rparr> \<and> a + sz \<le> ba_limit (bs_alloc s) \<and> old = ba_top (bs_alloc s)"
    using return(3) by (auto simp: bump_iter_def rbind_def checked_add_def split: if_splits)
  then show ?case
  proof
    assume "a = addr_null \<and> b = bs_alloc s"
    with return show ?case by (auto split: if_splits)
  next
    assume r: "a = ba_top (bs_alloc s) \<and> b = (bs_alloc s)\<lparr>ba_top := a + sz\<rparr> \<and> a + sz \<le> ba_limit (bs_alloc s) \<and> old = ba_top (bs_alloc s)"
    with old(1) return.prems(1) have "a \<noteq> addr_null" by (simp add: addr_null_def)
    with r return show ?case by (fastforce split: if_splits)
  qed
qed

text \<open>C25.  Whatever the threads' calls and loop iterations interleave to, the blocks a bump allocator hands
  out are disjoint, lie between its start and its limit, and add up to exactly the memory below the
  top: none is handed out twice and none is lost.  A call returns null only if the block does not fit
  any more.\<close>

theorem bump_allocations_partition_memory:
  assumes "bump_reach start limit s" and "0 < start" and "start \<le> limit"
  shows "(\<forall>i j. i < j \<and> j < length (bs_blocks s) \<longrightarrow> fst (bs_blocks s ! j) + snd (bs_blocks s ! j) \<le> fst (bs_blocks s ! i))
    \<and> (\<forall>(a, sz)\<in>set (bs_blocks s). start \<le> a \<and> a + sz \<le> limit)
    \<and> start + sum_list (map snd (bs_blocks s)) = ba_top (bs_alloc s)
    \<and> (\<forall>t sz old spurious b. bs_pc s t = BumpLoop sz old \<and> bump_iter spurious sz old (bs_alloc s) = Inr (Inr addr_null, b) \<longrightarrow>
         limit < ba_top (bs_alloc s) + sz)"
proof -
  note inv = bump_invariant [OF assms]
  have down: "blocks_down start (bs_blocks s) (ba_top (bs_alloc s))" and top: "ba_top (bs_alloc s) \<le> limit"
    using inv by blast+
  have "limit < ba_top (bs_alloc s) + sz"
    if "bs_pc s t = BumpLoop sz old" "bump_iter spurious sz old (bs_alloc s) = Inr (Inr addr_null, b)" for t sz old spurious b
  proof -
    have old: "start \<le> old" "old \<le> ba_top (bs_alloc s)" "ba_limit (bs_alloc s) = limit" using inv that(1) by blast+
    then have "limit < old + sz"
      using that(2) assms(2) by (auto simp: bump_iter_def rbind_def checked_add_def addr_null_def split: if_splits)
    with old show ?thesis by simp
  qed
  moreover have "\<forall>(a, sz)\<in>set (bs_blocks s). start \<le> a \<and> a + sz \<le> limit"
    using blocks_down_bounds [OF down] top by fastforce
  ultimately show ?thesis using blocks_down_disjoint [OF down] blocks_down_sum [OF down] by blast
qed

text \<open>Two threads read the same top; one of them has to go round again.\<close>

definition demo_bump :: bump_system where
  "demo_bump = \<lparr>bs_alloc = \<lparr>ba_top = 4096 + 24 + 16, ba_limit = 8192\<rparr>, bs_pc = (\<lambda>_. BumpIdle), bs_blocks = [(4096 + 24, 16), (4096, 24)]\<rparr>"

lemma demo_bump_reach: "bump_reach 4096 8192 demo_bump"
proof -
  let ?s0 = "\<lparr>bs_alloc = bump_new 4096 8192, bs_pc = (\<lambda>_. BumpIdle), bs_blocks = []\<rparr>"
  let ?s1 = "?s0\<lparr>bs_pc := (bs_pc ?s0)(1 := BumpLoop 24 (ba_top (bs_alloc ?s0)))\<rparr>"
  let ?s2 = "?s1\<lparr>bs_pc := (bs_pc ?s1)(2 := BumpLoop 16 (ba_top (bs_alloc ?s1)))\<rparr>"
  let ?b = "\<lparr>ba_top = 4120, ba_limit = 8192\<rparr>"
  let ?s3 = "?s2\<lparr>bs_alloc := ?b, bs_pc := (bs_pc ?s2)(1 := BumpIdle), bs_blocks := (if (4096::nat) = addr_null then bs_blocks ?s2 else (4096, 24) # bs_blocks ?s2)\<rparr>"
  let ?s4 = "?s3\<lparr>bs_alloc := ?b, bs_pc := (bs_pc ?s3)(2 := BumpLoop 16 4120)\<rparr>"
  let ?s5 = "?s4\<lparr>bs_alloc := \<lparr>ba_top = 4136, ba_limit = 8192\<rparr>, bs_pc := (bs_pc ?s4)(2 := BumpIdle),
    bs_blocks := (if (4120::nat) = addr_null then bs_blocks ?s4 else (4120, 16) # bs_blocks ?s4)\<rparr>"
  have "bump_reach 4096 8192 ?s1" by (rule bump_reach.call [OF bump_reach.init]) simp
  then have "bump_reach 4096 8192 ?s2" by (rule bump_reach.call) simp
  then have "bump_reach 4096 8192 ?s3"
    by (rule bump_reach.return [where old = 4096 and spurious = False]) (simp_all add: bump_new_def bump_iter_def checked_add_def)
  then have "bump_reach 4096 8192 ?s4"
    by (rule bump_reach.again [where old = 4096 and spurious = False]) (simp_all add: bump_new_def bump_iter_def checked_add_def)
  then have "bump_reach 4096 8192 ?s5"
    by (rule bump_reach.return [where old = 4120 and spurious = False]) (simp_all add: bump_new_def bump_iter_def checked_add_def)
  moreover have "?s5 = demo_bump" by (simp add: demo_bump_def addr_null_def fun_eq_iff)
  ultimately show ?thesis by simp
qed

theorem bump_allocations_partition_memory_witness:
  "bump_reach 4096 8192 demo_bump \<and> 4096 + sum_list (map snd (bs_blocks demo_bump)) = ba_top (bs_alloc demo_bump)
     \<and> fst (bs_blocks demo_bump ! 1) + snd (bs_blocks demo_bump ! 1) \<le> fst (bs_blocks demo_bump ! 0)"
proof -
  have "(0 :: nat) < 1 \<and> 1 < length (bs_blocks demo_bump)" by (simp add: demo_bump_def)
  with bump_allocations_partition_memory [OF demo_bump_reach] demo_bump_reach show ?thesis by simp
qed

subsection \<open>Spaces\<close>

definition space_ok :: "space \<Rightarrow> bool" where
  "space_ok s = (0 < r_start (sp_total s) \<and> r_start (sp_total s) \<le> sp_top s \<and> sp_top s \<le> sp_end s \<and> sp_end s \<le> r_end (sp_total s)
     \<and> r_end (sp_total s) < 2 ^ 64)"

text \<open>How far \<open>extend\<close> moves the end of the committed memory to fit a block.\<close>

definition chunks_for :: "usize \<Rightarrow> usize \<Rightarrow> usize" where
  "chunks_for missing chunk = (if chunk = 0 then missing else (missing + chunk - 1) div chunk * chunk)"

definition grown_end :: "usize \<Rightarrow> space \<Rightarrow> heap_address" where
  "grown_end sz s = (if sp_top s + sz \<le> sp_end s then sp_end s
     else sp_end s + chunks_for (sz - (sp_end s - sp_top s)) (sc_chunk (sp_config s)))"

lemma chunks_for_ok:
  "missing \<le> chunks_for missing chunk" "missing + chunk < 2 ^ 64 \<Longrightarrow> align_usize missing chunk = Inr (chunks_for missing chunk)"
  using round_up_div [of chunk missing] align_usize_ok [of chunk missing]
  by (auto simp: chunks_for_def is_round_up_def align_usize_def)

lemma grown_end_fits: "space_ok s \<Longrightarrow> sp_top s + sz \<le> grown_end sz s"
  using chunks_for_ok(1) [of "sz - (sp_end s - sp_top s)" "sc_chunk (sp_config s)"]
  by (auto simp: grown_end_def space_ok_def)

lemma space_extend_ok:
  assumes ok: "space_ok s" and small: "sp_top s + sz + sc_chunk (sp_config s) < 2 ^ 64" "grown_end sz s < 2 ^ 64"
  shows "space_extend sz s = Inr (grown_end sz s \<le> r_end (sp_total s), s\<lparr>sp_end := (if grown_end sz s \<le> r_end (sp_total s) then grown_end sz s else sp_end s)\<rparr>)"
proof (cases "sp_top s + sz \<le> sp_end s")
  case True
  then show ?thesis using ok small by (simp add: space_extend_def checked_add_def grown_end_def space_ok_def)
next
  case False
  define missing where "missing = sz - (sp_end s - sp_top s)"
  have "missing + sc_chunk (sp_config s) < 2 ^ 64" "sp_end s - sp_top s \<le> sz" "sp_top s \<le> sp_end s"
    using small(1) False ok by (auto simp: space_ok_def missing_def)
  then have subs: "checked_sub (sp_end s) (sp_top s) = Inr (sp_end s - sp_top s)" "checked_sub sz (sp_end s - sp_top s) = Inr missing"
    "align_usize missing (sc_chunk (sp_config s)) = Inr (chunks_for missing (sc_chunk (sp_config s)))"
    by (simp_all add: missing_def chunks_for_ok)
  have "grown_end sz s = sp_end s + chunks_for missing (sc_chunk (sp_config s))" using False by (simp add: grown_end_def missing_def)
  with small have adds: "checked_add (sp_end s) (chunks_for missing (sc_chunk (sp_config s))) = Inr (grown_end sz s)"
    "checked_add (sp_top s) sz = Inr (sp_top s + sz)" by simp_all
  show ?thesis unfolding space_extend_def adds rbind_Inr subs using False by simp
qed

text \<open>\<open>Space::alloc\<close> always returns, after at most one extension.  It returns the old top, rounds the
  size up to the alignment of the space and moves the top by that much, inside of the committed and
  the reserved memory; it returns null, and changes nothing, exactly when the chunks needed for the
  block do not fit into the reservation.\<close>

theorem space_alloc_returns:
  assumes "space_ok s" and "align_usize sz (sc_align (sp_config s)) = Inr asz"
    and "sp_top s + asz + sc_chunk (sp_config s) < 2 ^ 64" and "grown_end asz s < 2 ^ 64"
  shows "\<exists>a s'. space_alloc sz s = ret (a, s') \<and> space_ok s'
    \<and> (if grown_end asz s \<le> r_end (sp_total s)
       then a = sp_top s \<and> a \<noteq> addr_null \<and> sp_top s' = a + asz \<and> sp_end s' = grown_end asz s
       else a = addr_null \<and> s' = s)"
proof -
  let ?g = "grown_end asz s"
  have top: "0 < sp_top s" using assms(1) by (simp add: space_ok_def)
  have fits: "sp_top s + asz \<le> ?g" "sp_end s \<le> ?g" using grown_end_fits [OF assms(1)] by (auto simp: grown_end_def)
  have loop: "space_alloc_loop asz s' = ret (sp_top s, s'\<lparr>sp_top := sp_top s + asz\<rparr>)"
    if "sp_top s' = sp_top s" "sp_top s + asz \<le> sp_end s'" for s'
    using that assms(3) top by (subst space_alloc_loop.simps) (simp add: raw_alloc_def checked_add_def addr_null_def ret_def)
  have start: "space_alloc sz s = space_alloc_loop asz s" by (simp add: space_alloc_def assms(2))
  show ?thesis
  proof (cases "sp_top s + asz \<le> sp_end s")
    case True
    then have "?g = sp_end s" by (simp add: grown_end_def)
    with True loop [of s] start assms(1) top show ?thesis by (auto simp: space_ok_def addr_null_def)
  next
    case False
    have step: "space_alloc_loop asz s = (if ?g \<le> r_end (sp_total s) then space_alloc_loop asz (s\<lparr>sp_end := ?g\<rparr>) else ret (addr_null, s))"
      using False assms(3) space_extend_ok [OF assms(1,3,4)]
      by (subst space_alloc_loop.simps) (simp add: raw_alloc_def checked_add_def ret_def)
    show ?thesis
    proof (cases "?g \<le> r_end (sp_total s)")
      case True
      with step loop [of "s\<lparr>sp_end := ?g\<rparr>"] start fits assms(1) top show ?thesis
        by (auto simp: space_ok_def addr_null_def)
    next
      case False
      with step start assms(1) show ?thesis by simp
    qed
  qed
qed

definition demo_space :: space where
  "demo_space = \<lparr>sp_config = \<lparr>sc_executable = False, sc_chunk = 8192, sc_limit = 65536, sc_align = 8\<rparr>,
     sp_total = \<lparr>r_start = 4096, r_end = 69632\<rparr>, sp_top = 12000, sp_end = 12288\<rparr>"

theorem space_alloc_returns_witness:
  "space_ok demo_space \<and> (\<exists>s'. space_alloc 1001 demo_space = ret (12000, s') \<and> sp_top s' = 13008 \<and> sp_end s' = 20480)"
proof -
  have ok: "space_ok demo_space" by (simp add: space_ok_def demo_space_def)
  have size: "align_usize 1001 (sc_align (sp_config demo_space)) = Inr 1008" "sp_top demo_space + 1008 + sc_chunk (sp_config demo_space) < 2 ^ 64"
    by (simp_all add: demo_space_def align_usize_def checked_add_def)
  have grown: "grown_end 1008 demo_space = 20480" by (simp add: grown_end_def demo_space_def chunks_for_def)
  show ?thesis
    using space_alloc_returns [OF ok size] ok unfolding grown by (auto simp: demo_space_def)
qed

subsection \<open>Regions\<close>

definition region_ok :: "heap_region \<Rightarrow> bool" where
  "region_ok r = (0 < hr_area_start r \<and> hr_area_start r \<le> hr_top r \<and> hr_top r \<le> hr_area_end r
     \<and> hr_area_end r + REGION_SIZE < 2 ^ 64 \<and> hr_area_start r + REGION_SIZE div 2 \<le> hr_area_end r
     \<and> (hr_state r = RegionFree \<longrightarrow> hr_top r = hr_area_start r))"

definition rc_ok :: "region_collector \<Rightarrow> bool" where
  "rc_ok rc = (rc_number_regions rc = length (rc_regions rc) \<and> list_all region_ok (rc_regions rc)
     \<and> (case rc_alloc_region rc of None \<Rightarrow> True | Some i \<Rightarrow> i < length (rc_regions rc) \<and> hr_state (rc_regions rc ! i) = RegionUsed))"

lemma find_free_from_Some:
  "find_free_from rs k = Some i \<Longrightarrow> k \<le> i \<and> i < k + length rs \<and> hr_state (rs ! (i - k)) = RegionFree"
proof (induction rs arbitrary: k)
  case (Cons r rs)
  show ?case
  proof (cases "hr_state r = RegionFree")
    case False
    with Cons.IH [of "k + 1"] Cons.prems show ?thesis by (auto simp: nth_Cons' diff_diff_left)
  qed (use Cons.prems in auto)
qed simp

lemma find_free_from_None: "find_free_from rs k = None \<longleftrightarrow> (\<forall>r\<in>set rs. hr_state r \<noteq> RegionFree)"
  by (induction rs arbitrary: k) auto

text \<open>The collector after a block has been taken from a region.\<close>

definition take_block :: "usize \<Rightarrow> usize \<Rightarrow> region_collector \<Rightarrow> region_collector" where
  "take_block i sz rc = rc\<lparr>rc_alloc_region := Some i,
     rc_regions := (rc_regions rc)[i := (rc_regions rc ! i)\<lparr>hr_state := RegionUsed, hr_top := hr_top (rc_regions rc ! i) + sz\<rparr>]\<rparr>"

lemma rc_okD: "rc_ok rc \<Longrightarrow> i < length (rc_regions rc) \<Longrightarrow> region_ok (rc_regions rc ! i)"
  by (auto simp: rc_ok_def list_all_length)

lemma take_block_ok:
  assumes "rc_ok rc" "i < length (rc_regions rc)" "hr_top (rc_regions rc ! i) + sz \<le> hr_area_end (rc_regions rc ! i)"
  shows "rc_ok (take_block i sz rc)"
proof -
  have "region_ok (rc_regions (take_block i sz rc) ! j)" if "j < length (rc_regions rc)" for j
    using rc_okD [OF assms(1) that] that assms(2,3) by (cases "j = i") (auto simp: take_block_def region_ok_def)
  then show ?thesis using assms(1,2) by (auto simp: rc_ok_def take_block_def list_all_length)
qed

lemma try_region_ok:
  assumes ok: "rc_ok rc" and i: "rc_alloc_region rc = Some i" and sz: "sz < REGION_SIZE div 2"
  shows "try_region sz i rc = (if hr_top (rc_regions rc ! i) + sz \<le> hr_area_end (rc_regions rc ! i)
    then Inr (hr_top (rc_regions rc ! i), take_block i sz rc) else Inr (addr_null, rc\<lparr>rc_alloc_region := None\<rparr>))"
proof -
  have idx: "i < length (rc_regions rc)" "hr_state (rc_regions rc ! i) = RegionUsed" using ok i by (simp_all add: rc_ok_def)
  let ?r = "rc_regions rc ! i"
  have r: "region_ok ?r" using rc_okD [OF ok idx(1)] .
  then have "hr_top ?r + sz < 2 ^ 64" "hr_top ?r \<noteq> addr_null" using sz by (auto simp: region_ok_def addr_null_def)
  moreover have "take_block i sz rc = rc\<lparr>rc_regions := (rc_regions rc)[i := ?r\<lparr>hr_top := hr_top ?r + sz\<rparr>]\<rparr>"
  proof -
    have "?r\<lparr>hr_state := RegionUsed\<rparr> = ?r" using idx(2) by (cases ?r) simp
    moreover have "rc\<lparr>rc_alloc_region := Some i\<rparr> = rc" using i by (cases rc) simp
    ultimately show ?thesis unfolding take_block_def by (metis heap_region.fold_congs(3))
  qed
  ultimately show ?thesis using idx(1) by (simp add: try_region_def bump_pointer_alloc_def checked_add_def)
qed

definition region_result :: "usize \<Rightarrow> region_collector \<Rightarrow> heap_address \<Rightarrow> region_collector \<Rightarrow> bool" where
  "region_result sz rc a rc' =
     (if a = addr_null then (\<forall>r\<in>set (rc_regions rc). hr_state r \<noteq> RegionFree) \<and> rc_regions rc' = rc_regions rc
      else \<exists>i<length (rc_regions rc). a = hr_top (rc_regions rc ! i) \<and> a + sz \<le> hr_area_end (rc_regions rc ! i)
        \<and> rc' = take_block i sz rc)"

lemma regular_alloc_fresh:
  assumes ok: "rc_ok rc" and none: "rc_alloc_region rc = None" and sz: "sz < REGION_SIZE div 2"
  shows "\<exists>a rc'. regular_alloc_loop sz rc = ret (a, rc') \<and> rc_ok rc' \<and> region_result sz rc a rc'"
proof (cases "find_free_region rc")
  case None
  then have "regular_alloc_loop sz rc = ret (addr_null, rc)"
    using none by (subst regular_alloc_loop.simps) (simp add: current_region_def ret_def)
  moreover have "\<forall>r\<in>set (rc_regions rc). hr_state r \<noteq> RegionFree"
    using None ok by (simp add: find_free_region_def rc_ok_def find_free_from_None)
  ultimately show ?thesis using ok by (auto simp: region_result_def)
next
  case (Some i)
  then have i: "i < length (rc_regions rc)" "hr_state (rc_regions rc ! i) = RegionFree"
    using ok find_free_from_Some [of "rc_regions rc" 0 i] by (simp_all add: find_free_region_def rc_ok_def)
  let ?r = "rc_regions rc ! i" let ?rc = "rc\<lparr>rc_regions := (rc_regions rc)[i := ?r\<lparr>hr_state := RegionUsed\<rparr>], rc_alloc_region := Some i\<rparr>"
  have r: "region_ok ?r" using rc_okD [OF ok i(1)] .
  have ok': "rc_ok ?rc"
  proof -
    have "region_ok (rc_regions ?rc ! j)" if "j < length (rc_regions rc)" for j
      using rc_okD [OF ok] that i r by (cases "j = i") (auto simp: region_ok_def)
    then show ?thesis using ok i by (auto simp: rc_ok_def list_all_length)
  qed
  have cur: "current_region rc = Inr (Some i, ?rc)"
    using none Some i r by (simp add: current_region_def init_region_def checked_sub_def region_ok_def)
  have fits: "hr_top (rc_regions ?rc ! i) + sz \<le> hr_area_end (rc_regions ?rc ! i)"
    using r i sz by (simp add: region_ok_def)
  have "try_region sz i ?rc = Inr (hr_top (rc_regions ?rc ! i), take_block i sz ?rc)"
    using try_region_ok [OF ok' _ sz, of i] fits by simp
  moreover have "take_block i sz ?rc = take_block i sz rc" "hr_top (rc_regions ?rc ! i) = hr_top ?r"
    using i by (simp_all add: take_block_def)
  moreover have "hr_top ?r \<noteq> addr_null" using r by (auto simp: region_ok_def addr_null_def)
  ultimately have "regular_alloc_loop sz rc = ret (hr_top ?r, take_block i sz rc)"
    using cur by (subst regular_alloc_loop.simps) (simp add: ret_def)
  moreover have "rc_ok (take_block i sz rc)" "region_result sz rc (hr_top ?r) (take_block i sz rc)"
    using take_block_ok [OF ok i(1)] fits i \<open>hr_top ?r \<noteq> addr_null\<close> by (auto simp: region_result_def)
  ultimately show ?thesis by blast
qed

text \<open>\<open>regular_alloc\<close> always returns, after at most two rounds.  A block is cut off the free end of one
  region, inside of its area, and no other region changes; null is returned only when no region is
  free any more.\<close>

theorem regular_alloc_returns:
  assumes "rc_ok rc" and "sz < REGION_SIZE div 2"
  shows "\<exists>a rc'. regular_alloc sz rc = ret (a, rc') \<and> rc_ok rc' \<and> region_result sz rc a rc'"
proof -
  have start: "regular_alloc sz rc = regular_alloc_loop sz rc" using assms(2) by (simp add: regular_alloc_def ccheck_def)
  show ?thesis
  proof (cases "rc_alloc_region rc")
    case None
    with regular_alloc_fresh [OF assms(1) None assms(2)] start show ?thesis by simp
  next
    case (Some i)
    let ?r = "rc_regions rc ! i"
    have i: "i < length (rc_regions rc)" using assms(1) Some by (simp add: rc_ok_def)
    have nz: "hr_top ?r \<noteq> addr_null" using rc_okD [OF assms(1) i] by (auto simp: region_ok_def addr_null_def)
    have cur: "current_region rc = Inr (Some i, rc)" using Some by (simp add: current_region_def)
    show ?thesis
    proof (cases "hr_top ?r + sz \<le> hr_area_end ?r")
      case True
      then have "regular_alloc_loop sz rc = ret (hr_top ?r, take_block i sz rc)"
        using cur try_region_ok [OF assms(1) Some assms(2)] nz by (subst regular_alloc_loop.simps) (simp add: ret_def)
      with True i nz start take_block_ok [OF assms(1) i True] show ?thesis by (auto simp: region_result_def)
    next
      case False
      let ?rc = "rc\<lparr>rc_alloc_region := None\<rparr>"
      have "regular_alloc_loop sz rc = regular_alloc_loop sz ?rc"
        using False cur try_region_ok [OF assms(1) Some assms(2)] by (subst regular_alloc_loop.simps) simp
      moreover have "rc_ok ?rc" using assms(1) by (simp add: rc_ok_def)
      moreover have "region_result sz ?rc a rc' = region_result sz rc a rc'" for a rc'
        by (simp add: region_result_def take_block_def)
      moreover obtain a rc' where "regular_alloc_loop sz ?rc = ret (a, rc')" "rc_ok rc'" "region_result sz ?rc a rc'"
        using regular_alloc_fresh [of ?rc, OF \<open>rc_ok ?rc\<close> _ assms(2)] by auto
      ultimately show ?thesis using start by metis
    qed
  qed
qed

definition demo_regions :: region_collector where
  "demo_regions = \<lparr>rc_regions = regions_from 4096 1048576 2, rc_number_regions = 2, rc_alloc_region = None\<rparr>"

theorem regular_alloc_returns_witness:
  "rc_ok demo_regions \<and> (\<exists>a rc'. regular_alloc 100 demo_regions = ret (a, rc') \<and> region_result 100 demo_regions a rc')"
proof -
  have size: "REGION_SIZE = 1048576" by (simp add: REGION_SIZE_def REGION_SIZE_BITS_def push_bit_eq_mult)
  have "regions_from 4096 1048576 2 =
      [\<lparr>hr_area_start = 1048576, hr_area_end = 2093056, hr_top = 1048576, hr_state = RegionFree\<rparr>,
       \<lparr>hr_area_start = 2097152, hr_area_end = 3141632, hr_top = 2097152, hr_state = RegionFree\<rparr>]"
    by (simp add: numeral_2_eq_2 size)
  then have ok: "rc_ok demo_regions" by (simp add: rc_ok_def demo_regions_def region_ok_def size)
  have "(100 :: nat) < REGION_SIZE div 2" by (simp add: size)
  from regular_alloc_returns [OF ok this] ok show ?thesis by blast
qed

end
