(* ===== verification/SweepCollector.thy ===== *)
theory SweepCollector
  imports MarkCompact
begin

text \<open>
  The mark-sweep collector (\<open>dora/src/gc/sweep.rs\<close>) and its segregated free lists
  (\<open>dora/src/gc/freelist.rs\<close>).  A free block is a filler object in the heap whose second word is the
  next block of its size class.
\<close>

subsection \<open>Size classes\<close>

definition SIZE_CLASSES :: nat where "SIZE_CLASSES = 6"
definition SIZE_SMALLEST :: usize where "SIZE_SMALLEST = 16"
definition SIZE_TINY :: usize where "SIZE_TINY = 32"
definition SIZE_SMALL :: usize where "SIZE_SMALL = 128"
definition SIZE_MEDIUM :: usize where "SIZE_MEDIUM = 2 * 1024"
definition SIZE_LARGE :: usize where "SIZE_LARGE = 8 * 1024"
definition SIZE_HUGE :: usize where "SIZE_HUGE = 32 * 1024"

lemmas size_class_defs = SIZE_CLASSES_def SIZE_SMALLEST_def SIZE_TINY_def SIZE_SMALL_def SIZE_MEDIUM_def SIZE_LARGE_def SIZE_HUGE_def

datatype size_class = SizeClass (sc_idx: nat)

definition SIZE_CLASS_HUGE :: size_class where "SIZE_CLASS_HUGE = SizeClass 5"

definition next_up :: "usize \<Rightarrow> size_class result" where
  "next_up sz =
     rbind (rassert (SIZE_SMALLEST \<le> sz)) (\<lambda>_. Inr (
     if sz \<le> SIZE_SMALLEST then SizeClass 0
     else if sz \<le> SIZE_TINY then SizeClass 1
     else if sz \<le> SIZE_SMALL then SizeClass 2
     else if sz \<le> SIZE_MEDIUM then SizeClass 3
     else if sz \<le> SIZE_LARGE then SizeClass 4
     else SIZE_CLASS_HUGE))"

definition next_down :: "usize \<Rightarrow> size_class result" where
  "next_down sz =
     rbind (rassert (SIZE_SMALLEST \<le> sz)) (\<lambda>_. Inr (
     if sz < SIZE_TINY then SizeClass 0
     else if sz < SIZE_SMALL then SizeClass 1
     else if sz < SIZE_MEDIUM then SizeClass 2
     else if sz < SIZE_LARGE then SizeClass 3
     else if sz < SIZE_HUGE then SizeClass 4
     else SIZE_CLASS_HUGE))"

subsection \<open>Free lists\<close>

text \<open>The heads of the lists, one per size class.\<close>

type_synonym free_list = "heap_address list"

definition free_list_new :: free_list where
  "free_list_new = replicate SIZE_CLASSES addr_null"

definition free_next :: "memory \<Rightarrow> heap_address \<Rightarrow> heap_address result" where
  "free_next m b = rbind (rassert (b \<noteq> addr_null)) (\<lambda>_. Inr (m (b + 8)))"

definition free_set_next :: "heap_address \<Rightarrow> heap_address \<Rightarrow> memory \<Rightarrow> memory result" where
  "free_set_next b nxt m = rbind (rassert (b \<noteq> addr_null)) (\<lambda>_. Inr (m(b + 8 := nxt)))"

definition free_list_add :: "fillers \<Rightarrow> heap_address \<Rightarrow> usize \<Rightarrow> free_list \<times> memory \<Rightarrow> (free_list \<times> memory) result" where
  "free_list_add fs addr sz = (\<lambda>(fl, m).
     if sz < SIZE_SMALLEST
     then rbind (offset addr sz) (\<lambda>fin. rbind (fill_region fs addr fin m) (\<lambda>m. Inr (fl, m)))
     else rbind (next_down sz) (\<lambda>szclass.
          rbind (vec_get fl (sc_idx szclass)) (\<lambda>head.
          rbind (offset addr sz) (\<lambda>fin.
          rbind (fill_region_with_free fs addr fin head m) (\<lambda>m.
          Inr (fl[sc_idx szclass := addr], m))))))"

definition class_first :: "nat \<Rightarrow> free_list \<times> memory \<Rightarrow> (heap_address \<times> free_list) result" where
  "class_first c = (\<lambda>(fl, m).
     rbind (vec_get fl c) (\<lambda>head.
     if head \<noteq> addr_null then rbind (free_next m head) (\<lambda>nxt. Inr (head, fl[c := nxt]))
     else Inr (addr_null, fl)))"

text \<open>The loop of \<open>FreeListClass::find\<close>.\<close>

partial_function (option) find_loop ::
  "classes \<Rightarrow> nat \<Rightarrow> usize \<Rightarrow> free_list \<Rightarrow> memory \<Rightarrow> heap_address \<Rightarrow> heap_address \<Rightarrow> (heap_address \<times> free_list \<times> memory) call" where
  "find_loop cls c minimum_size fl m prev cur =
     (if cur = addr_null then Some (Inr (addr_null, fl, m))
      else if minimum_size \<le> obj_size cls m cur then
        (if prev = addr_null then Some (Inr (cur, fl[c := m (cur + 8)], m))
         else Some (Inr (cur, fl, m(prev + 8 := m (cur + 8)))))
      else find_loop cls c minimum_size fl m cur (m (cur + 8)))"

declare find_loop.simps [code]

definition class_find :: "classes \<Rightarrow> nat \<Rightarrow> usize \<Rightarrow> free_list \<times> memory \<Rightarrow> (heap_address \<times> free_list \<times> memory) call" where
  "class_find cls c minimum_size = (\<lambda>(fl, m).
     cbind (Some (vec_get fl c)) (\<lambda>head. find_loop cls c minimum_size fl m addr_null head))"

fun try_classes :: "classes \<Rightarrow> usize \<Rightarrow> nat list \<Rightarrow> free_list \<times> memory \<Rightarrow> (heap_address \<times> free_list) option result" where
  "try_classes cls sz [] s = Inr None"
| "try_classes cls sz (c # rest) s =
     rbind (class_first c s) (\<lambda>(b, fl).
     if b \<noteq> addr_null then rbind (rassert (sz \<le> obj_size cls (snd s) b)) (\<lambda>_. Inr (Some (b, fl)))
     else try_classes cls sz rest s)"

definition free_list_alloc :: "classes \<Rightarrow> usize \<Rightarrow> free_list \<times> memory \<Rightarrow> (heap_address \<times> free_list \<times> memory) call" where
  "free_list_alloc cls sz s =
     cbind (Some (next_up sz)) (\<lambda>szclass.
     cbind (Some (try_classes cls sz [sc_idx szclass..<sc_idx SIZE_CLASS_HUGE] s)) (\<lambda>res.
       case res of
         Some (b, fl) \<Rightarrow> ret (b, fl, snd s)
       | None \<Rightarrow> class_find cls (sc_idx SIZE_CLASS_HUGE) sz s))"

subsection \<open>Allocation\<close>

record sweep_allocator =
  sa_top :: heap_address
  sa_limit :: heap_address
  sa_free_list :: free_list

definition sweep_allocator_new :: "region \<Rightarrow> sweep_allocator" where
  "sweep_allocator_new heap = \<lparr>sa_top = r_start heap, sa_limit = r_end heap, sa_free_list = free_list_new\<rparr>"

definition sweep_allocate ::
  "classes \<Rightarrow> fillers \<Rightarrow> usize \<Rightarrow> sweep_allocator \<times> memory \<Rightarrow> (heap_address \<times> sweep_allocator \<times> memory) call" where
  "sweep_allocate cls fs sz = (\<lambda>(sa, m).
     cbind (Some (offset (sa_top sa) sz)) (\<lambda>next_top.
     if next_top \<le> sa_limit sa then ret (sa_top sa, sa\<lparr>sa_top := next_top\<rparr>, m)
     else cbind (free_list_alloc cls sz (sa_free_list sa, m)) (\<lambda>(b, fl, m).
          if b \<noteq> addr_null then
            (let free_size = obj_size cls m b in
             cbind (ccheck (sz \<le> free_size)) (\<lambda>_.
             cbind (Some (offset b sz)) (\<lambda>free_start.
             cbind (Some (offset b free_size)) (\<lambda>free_end.
             cbind (Some (offset_from free_end free_start)) (\<lambda>new_free_size.
             cbind (Some (fill_region_with_free fs free_start free_end addr_null m)) (\<lambda>m.
             cbind (Some (free_list_add fs free_start new_free_size (fl, m))) (\<lambda>(fl, m).
             ret (b, sa\<lparr>sa_free_list := fl\<rparr>, m))))))))
          else ret (addr_null, sa\<lparr>sa_free_list := fl\<rparr>, m))))"

subsection \<open>Collection\<close>

record mark_sweep =
  ms_heap :: region
  ms_readonly :: region
  ms_rootset :: "heap_address list"
  ms_memory :: memory
  ms_finalizers :: "(heap_address \<times> usize) list"
  ms_free_list :: free_list

definition ms_mark :: "classes \<Rightarrow> mark_sweep \<Rightarrow> mark_sweep call" where
  "ms_mark cls ms =
     cbind (marking_start cls (ms_rootset ms) (ms_heap ms) (ms_readonly ms) (ms_memory ms)) (\<lambda>m.
     ret (ms\<lparr>ms_memory := m\<rparr>))"

definition ms_iterate_weak_refs :: "mark_sweep \<Rightarrow> mark_sweep" where
  "ms_iterate_weak_refs ms = ms\<lparr>ms_finalizers :=
     iterate_weak_roots (\<lambda>a. if is_marked_non_atomic (ms_memory ms) a then Some a else None) (ms_finalizers ms)\<rparr>"

definition add_freelist :: "fillers \<Rightarrow> heap_address \<Rightarrow> heap_address \<Rightarrow> mark_sweep \<Rightarrow> mark_sweep result" where
  "add_freelist fs start fin ms =
     (if start = addr_null then Inr ms
      else rbind (offset_from fin start) (\<lambda>sz.
           rbind (free_list_add fs start sz (ms_free_list ms, ms_memory ms)) (\<lambda>(fl, m).
           Inr (ms\<lparr>ms_free_list := fl, ms_memory := m\<rparr>))))"

partial_function (option) sweep_loop ::
  "classes \<Rightarrow> fillers \<Rightarrow> heap_address \<Rightarrow> heap_address \<Rightarrow> mark_sweep \<Rightarrow> (heap_address \<times> heap_address \<times> mark_sweep) call" where
  "sweep_loop cls fs scan garbage_start ms =
     (if scan < r_end (ms_heap ms) then
        (if vtblptr (ms_memory ms) scan = addr_null then sweep_loop cls fs (scan + 8) garbage_start ms
         else if is_marked_non_atomic (ms_memory ms) scan then
           (case add_freelist fs garbage_start scan ms of
              Inl e \<Rightarrow> Some (Inl e)
            | Inr ms' \<Rightarrow> sweep_loop cls fs (scan + obj_size cls (ms_memory ms) scan) addr_null
                (ms'\<lparr>ms_memory := unmark_non_atomic scan (ms_memory ms')\<rparr>))
         else sweep_loop cls fs (scan + obj_size cls (ms_memory ms) scan)
                (if garbage_start \<noteq> addr_null then garbage_start else scan) ms)
      else Some (Inr (scan, garbage_start, ms)))"

declare sweep_loop.simps [code]

definition ms_sweep :: "classes \<Rightarrow> fillers \<Rightarrow> mark_sweep \<Rightarrow> mark_sweep call" where
  "ms_sweep cls fs ms =
     cbind (sweep_loop cls fs (r_start (ms_heap ms)) addr_null ms) (\<lambda>(scan, garbage_start, ms).
     cbind (ccheck (scan = r_end (ms_heap ms))) (\<lambda>_.
     Some (add_freelist fs garbage_start (r_end (ms_heap ms)) ms)))"

definition ms_collect :: "classes \<Rightarrow> fillers \<Rightarrow> mark_sweep \<Rightarrow> mark_sweep call" where
  "ms_collect cls fs ms = cbind (ms_mark cls ms) (\<lambda>ms. ms_sweep cls fs (ms_iterate_weak_refs ms))"

end
