(* ===== verification/SweepTheorems.thy ===== *)
theory SweepTheorems
  imports SweepCollector MarkCompactProofs
begin

text \<open>
  The free lists hold blocks of their size class and give out blocks that are large enough;
  an allocation that fits a free block exactly panics.
\<close>

subsection \<open>Size classes\<close>

text \<open>A block of the class a size rounds down to is large enough for every size that rounds up to it.\<close>

lemma size_class_sound:
  assumes "next_up want = Inr up" "next_down have = Inr down" "sc_idx up \<le> sc_idx down" "sc_idx up < 5"
  shows "want \<le> have"
  using assms unfolding next_up_def next_down_def SIZE_CLASS_HUGE_def
  by (auto simp: size_class_defs rbind_eq_Inr_iff split: if_splits)

lemma next_up_idx: "SIZE_SMALLEST \<le> sz \<Longrightarrow> \<exists>c. next_up sz = Inr c \<and> sc_idx c \<le> 5"
  by (auto simp: next_up_def SIZE_CLASS_HUGE_def)

lemma next_down_idx: "SIZE_SMALLEST \<le> sz \<Longrightarrow> \<exists>c. next_down sz = Inr c \<and> sc_idx c < 6"
  by (auto simp: next_down_def SIZE_CLASS_HUGE_def)

subsection \<open>Free lists\<close>

fun free_chain :: "memory \<Rightarrow> heap_address \<Rightarrow> heap_address list \<Rightarrow> bool" where
  "free_chain m h [] = (h = addr_null)"
| "free_chain m h (b # bs) = (h = b \<and> b \<noteq> addr_null \<and> free_chain m (m (b + 8)) bs)"

definition apart :: "classes \<Rightarrow> memory \<Rightarrow> heap_address set \<Rightarrow> bool" where
  "apart cls m B = (\<forall>b\<in>B. \<forall>b'\<in>B. b \<noteq> b' \<longrightarrow> b + obj_size cls m b \<le> b' \<or> b' + obj_size cls m b' \<le> b)"

definition blocks :: "heap_address list list \<Rightarrow> heap_address set" where
  "blocks bss = set (concat bss)"

definition class_ok :: "classes \<Rightarrow> memory \<Rightarrow> free_list \<Rightarrow> heap_address list list \<Rightarrow> nat \<Rightarrow> bool" where
  "class_ok cls m fl bss c = (free_chain m (fl ! c) (bss ! c) \<and> (\<forall>b\<in>set (bss ! c). next_down (obj_size cls m b) = Inr (SizeClass c)))"

definition free_list_ok :: "classes \<Rightarrow> memory \<Rightarrow> free_list \<Rightarrow> heap_address list list \<Rightarrow> bool" where
  "free_list_ok cls m fl bss =
     (length fl = 6 \<and> length bss = 6 \<and> (\<forall>c<6. class_ok cls m fl bss c) \<and> distinct (concat bss) \<and> apart cls m (blocks bss))"

lemma free_chain_frame: "(\<And>b. b \<in> set bs \<Longrightarrow> m' (b + 8) = m (b + 8)) \<Longrightarrow> free_chain m' h bs = free_chain m h bs"
  by (induction bs arbitrary: h) auto

lemma free_chain_null: "free_chain m h bs \<Longrightarrow> h = addr_null \<longleftrightarrow> bs = []"
  by (cases bs) auto

lemma next_down_size: "next_down sz = Inr c \<Longrightarrow> 16 \<le> sz"
  by (simp add: next_down_def rbind_eq_Inr_iff SIZE_SMALLEST_def)

lemma class_ok_blocks: "class_ok cls m fl bss c \<Longrightarrow> b \<in> set (bss ! c) \<Longrightarrow> 16 \<le> obj_size cls m b \<and> b \<noteq> addr_null"
proof
  assume ok: "class_ok cls m fl bss c" "b \<in> set (bss ! c)"
  then show "16 \<le> obj_size cls m b" using next_down_size by (auto simp: class_ok_def)
  have "free_chain m h bs \<Longrightarrow> b \<in> set bs \<Longrightarrow> b \<noteq> addr_null" for h bs by (induction bs arbitrary: h) auto
  with ok show "b \<noteq> addr_null" unfolding class_ok_def by blast
qed

text \<open>Storing into the link of one block changes neither the sizes nor the other links.\<close>

lemma link_frame:
  assumes "apart cls m B" "p \<in> B" "b \<in> B" "\<forall>b\<in>B. 16 \<le> obj_size cls m b"
  shows "obj_size cls (m(p + 8 := v)) b = obj_size cls m b" "b \<noteq> p \<Longrightarrow> (m(p + 8 := v)) (b + 8) = m (b + 8)"
proof -
  have far: "b \<noteq> p \<Longrightarrow> b + obj_size cls m b \<le> p \<or> p + obj_size cls m p \<le> b" using assms(1-3) unfolding apart_def by blast
  have sizes: "16 \<le> obj_size cls m b" "16 \<le> obj_size cls m p" using assms by auto
  show "obj_size cls (m(p + 8 := v)) b = obj_size cls m b"
  proof (rule shape_frame(1))
    show "(m(p + 8 := v)) b = m b" using far sizes by (cases "b = p") auto
    assume arr: "vt_instance_size (cls (m b)) = 0"
    have "array_header_size \<le> obj_size cls m b" by (rule array_size_large [of cls m b, OF arr])
    then show "(m(p + 8 := v)) (b + header_size) = m (b + header_size)"
      using far sizes by (cases "b = p") (auto simp: header_size_def array_header_size_def ptr_width_usize_def)
  qed
  show "(m(p + 8 := v)) (b + 8) = m (b + 8)" if "b \<noteq> p" using that by simp
qed

lemma blocks_at: "length bss = 6 \<Longrightarrow> b \<in> blocks bss \<longleftrightarrow> (\<exists>c<6. b \<in> set (bss ! c))"
  unfolding blocks_def set_concat by (metis UN_iff in_set_conv_nth nth_mem)

lemma concat_at: "c < length bss \<Longrightarrow> concat bss = concat (take c bss) @ bss ! c @ concat (drop (Suc c) bss)"
  by (metis concat.simps(2) concat_append id_take_nth_drop)

lemma concat_update: "c < length bss \<Longrightarrow> concat (bss[c := bs]) = concat (take c bss) @ bs @ concat (drop (Suc c) bss)"
  by (simp add: upd_conv_take_nth_drop)

text \<open>Taking a block out of its list.\<close>

lemma take_out:
  assumes ok: "free_list_ok cls m fl bss" and c: "c < 6" "bss ! c = xs @ b # ys"
  shows "distinct (concat (bss[c := xs @ ys]))" "blocks (bss[c := xs @ ys]) = blocks bss - {b}"
proof -
  have len: "c < length bss" using ok c(1) by (simp add: free_list_ok_def)
  have d: "distinct (concat bss)" using ok by (simp add: free_list_ok_def)
  show "distinct (concat (bss[c := xs @ ys]))"
    using d unfolding concat_update [OF len] concat_at [OF len] c(2) by auto
  show "blocks (bss[c := xs @ ys]) = blocks bss - {b}"
    using d unfolding blocks_def concat_update [OF len] concat_at [OF len] c(2) by auto
qed

lemma take_out_ok:
  assumes ok: "free_list_ok cls m fl bss" and c: "c < 6" "bss ! c = xs @ b # ys"
    and mem: "\<And>b'. b' \<in> blocks bss \<Longrightarrow> obj_size cls m' b' = obj_size cls m b'"
      "\<And>b' c'. c' < 6 \<Longrightarrow> c' \<noteq> c \<Longrightarrow> b' \<in> set (bss ! c') \<Longrightarrow> m' (b' + 8) = m (b' + 8)"
    and heads: "length fl' = 6" "\<And>c'. c' < 6 \<Longrightarrow> c' \<noteq> c \<Longrightarrow> fl' ! c' = fl ! c'" "free_chain m' (fl' ! c) (xs @ ys)"
  shows "free_list_ok cls m' fl' (bss[c := xs @ ys])"
proof -
  have len: "length bss = 6" "length fl = 6" using ok by (simp_all add: free_list_ok_def)
  note out = take_out [OF ok c]
  have cls_ok: "class_ok cls m' fl' (bss[c := xs @ ys]) c'" if c': "c' < 6" for c'
  proof -
    have old: "class_ok cls m fl bss c'" using ok c' by (simp add: free_list_ok_def)
    have sizes: "obj_size cls m' b' = obj_size cls m b'" if "b' \<in> set (bss ! c')" for b'
      using mem(1) blocks_at [OF len(1)] c' that by blast
    show ?thesis
    proof (cases "c' = c")
      case True
      with old c heads(3) len sizes show ?thesis by (auto simp: class_ok_def)
    next
      case False
      have "free_chain m' (fl ! c') (bss ! c') = free_chain m (fl ! c') (bss ! c')"
        using mem(2) [OF c' False] by (rule free_chain_frame)
      with False old sizes heads(2) [OF c' False] show ?thesis by (auto simp: class_ok_def)
    qed
  qed
  have "apart cls m' (blocks bss - {b})"
    using ok mem(1) unfolding free_list_ok_def apart_def by (metis DiffD1)
  with cls_ok out len heads(1) show ?thesis by (simp add: free_list_ok_def)
qed

lemma free_list_sizes: "free_list_ok cls m fl bss \<Longrightarrow> \<forall>b\<in>blocks bss. 16 \<le> obj_size cls m b"
  using blocks_at [of bss] class_ok_blocks unfolding free_list_ok_def by blast

lemma try_classes_ok:
  assumes ok: "free_list_ok cls m fl bss" and up: "next_up sz = Inr up"
  shows "(\<forall>c\<in>set cs. sc_idx up \<le> c \<and> c < 5) \<Longrightarrow>
    (\<exists>c\<in>set cs. \<exists>b bs. bss ! c = b # bs \<and> sz \<le> obj_size cls m b \<and> try_classes cls sz cs (fl, m) = Inr (Some (b, fl[c := m (b + 8)])))
    \<or> try_classes cls sz cs (fl, m) = Inr None \<and> (\<forall>c\<in>set cs. bss ! c = [])"
proof (induction cs)
  case (Cons c cs)
  then have c: "sc_idx up \<le> c" "c < 5" "c < 6" by auto
  have cok: "class_ok cls m fl bss c" "c < length fl" using ok c by (simp_all add: free_list_ok_def)
  show ?case
  proof (cases "bss ! c")
    case Nil
    then have "fl ! c = addr_null" using cok(1) by (simp add: class_ok_def)
    with Nil Cons cok(2) show ?thesis by (auto simp: class_first_def)
  next
    case (Cons b bs)
    then have b: "fl ! c = b" "b \<noteq> addr_null" "next_down (obj_size cls m b) = Inr (SizeClass c)"
      using cok(1) by (auto simp: class_ok_def)
    have "sz \<le> obj_size cls m b" using size_class_sound [OF up b(3)] c by simp
    with b cok(2) Cons show ?thesis by (auto simp: class_first_def free_next_def)
  qed
qed simp

lemma find_loop_ok:
  "free_chain m cur ys \<Longrightarrow> find_loop cls c sz fl m prev cur =
    (case dropWhile (\<lambda>y. obj_size cls m y < sz) ys of
       [] \<Rightarrow> ret (addr_null, fl, m)
     | y # _ \<Rightarrow> (let p = (if takeWhile (\<lambda>y. obj_size cls m y < sz) ys = [] then prev else last (takeWhile (\<lambda>y. obj_size cls m y < sz) ys))
         in ret (if p = addr_null then (y, fl[c := m (y + 8)], m) else (y, fl, m(p + 8 := m (y + 8))))))"
proof (induction ys arbitrary: prev cur)
  case Nil
  then show ?case by (simp add: find_loop.simps ret_def)
next
  case (Cons y ys)
  show ?case
  proof (cases "sz \<le> obj_size cls m y")
    case True
    with Cons.prems show ?thesis by (simp add: find_loop.simps [of _ _ _ _ _ _ y] ret_def)
  next
    case False
    have "find_loop cls c sz fl m prev cur = find_loop cls c sz fl m y (m (y + 8))"
      using Cons.prems False by (simp add: find_loop.simps [of _ _ _ _ _ prev y])
    with Cons.IH [of "m (y + 8)" y] Cons.prems False show ?thesis
      by (cases "dropWhile (\<lambda>y. obj_size cls m y < sz) ys") (simp_all add: Let_def del: dropWhile_eq_Nil_conv)
  qed
qed

lemma free_chain_unlink:
  "free_chain m h (xs @ y # ys) \<Longrightarrow> distinct (xs @ y # ys) \<Longrightarrow> xs \<noteq> [] \<Longrightarrow> free_chain (m(last xs + 8 := m (y + 8))) h (xs @ ys)"
proof (induction xs arbitrary: h)
  case (Cons x xs)
  show ?case
  proof (cases xs)
    case Nil
    define m' where "m' = m(x + 8 := m (y + 8))"
    have "m' (x + 8) = m (y + 8)" by (simp add: m'_def)
    moreover have "free_chain m' (m (y + 8)) ys = free_chain m (m (y + 8)) ys"
      using Cons.prems(2) Nil by (intro free_chain_frame) (auto simp: m'_def)
    ultimately show ?thesis using Nil Cons.prems by (simp add: m'_def [symmetric])
  next
    case (Cons x' xs'')
    then have ne: "xs \<noteq> []" by simp
    define m' where "m' = m(last xs + 8 := m (y + 8))"
    have "last xs \<in> set xs" using ne by simp
    then have "m' (x + 8) = m (x + 8)" using Cons.prems(2) by (auto simp: m'_def)
    moreover have "free_chain m' (m (x + 8)) (xs @ ys)"
      unfolding m'_def by (rule Cons.IH) (use Cons.prems(1,2) ne in auto)
    ultimately show ?thesis using Cons.prems ne by (simp add: m'_def [symmetric])
  qed
qed simp

lemma class_find_ok:
  assumes ok: "free_list_ok cls m fl bss"
  shows "(\<exists>b fl' m' bss'. class_find cls 5 sz (fl, m) = ret (b, fl', m') \<and> b \<in> set (bss ! 5) \<and> sz \<le> obj_size cls m b
      \<and> free_list_ok cls m' fl' bss' \<and> blocks bss' = blocks bss - {b} \<and> obj_size cls m' b = obj_size cls m b)
    \<or> class_find cls 5 sz (fl, m) = ret (addr_null, fl, m) \<and> (\<forall>b\<in>set (bss ! 5). obj_size cls m b < sz)"
proof -
  have len: "length fl = 6" "length bss = 6" using ok by (simp_all add: free_list_ok_def)
  have five: "(5 :: nat) < 6" by simp
  then have cok: "class_ok cls m fl bss 5" using ok unfolding free_list_ok_def by blast
  then have chain: "free_chain m (fl ! 5) (bss ! 5)" by (simp add: class_ok_def)
  let ?small = "\<lambda>y. obj_size cls m y < sz" let ?xs = "takeWhile ?small (bss ! 5)"
  have run: "class_find cls 5 sz (fl, m) = find_loop cls 5 sz fl m addr_null (fl ! 5)"
    using len by (simp add: class_find_def)
  show ?thesis
  proof (cases "dropWhile ?small (bss ! 5)")
    case Nil
    then have "\<forall>b\<in>set (bss ! 5). obj_size cls m b < sz" by (simp add: dropWhile_eq_Nil_conv)
    moreover have "class_find cls 5 sz (fl, m) = ret (addr_null, fl, m)"
      unfolding run find_loop_ok [OF chain] Nil by simp
    ultimately show ?thesis by blast
  next
    case (Cons y ys)
    have split: "bss ! 5 = ?xs @ y # ys" using Cons takeWhile_dropWhile_id [of ?small "bss ! 5"] by simp
    have y: "sz \<le> obj_size cls m y" using Cons by (metis hd_dropWhile leI list.discI list.sel(1))
    have yb: "y \<in> set (bss ! 5)" using split by (metis in_set_conv_decomp)
    have distinct: "distinct (bss ! 5)"
      using ok concat_at [of 5 bss] len unfolding free_list_ok_def by simp
    show ?thesis
    proof (cases "?xs = []")
      case True
      then have res: "class_find cls 5 sz (fl, m) = ret (y, fl[5 := m (y + 8)], m)"
        using run find_loop_ok [OF chain, of cls 5 sz fl addr_null] Cons by (simp add: Let_def)
      have head: "bss ! 5 = [] @ y # ys" using split True by simp
      have "free_list_ok cls m (fl[5 := m (y + 8)]) (bss[5 := [] @ ys])"
        by (rule take_out_ok [OF ok five head]) (use len chain head in auto)
      with res y yb take_out(2) [OF ok five head] show ?thesis by auto
    next
      case False
      let ?p = "last ?xs" let ?m = "m(?p + 8 := m (y + 8))"
      have p: "?p \<in> set (bss ! 5)" using False split by (metis Un_iff last_in_set set_append)
      have bl: "?p \<in> blocks bss" "y \<in> blocks bss" using p yb blocks_at [OF len(2)] five by blast+
      have "?p \<noteq> addr_null" using class_ok_blocks [OF cok p] by simp
      then have res: "class_find cls 5 sz (fl, m) = ret (y, fl, ?m)"
        using run find_loop_ok [OF chain, of cls 5 sz fl addr_null] Cons False by (simp add: Let_def)
      have apart: "apart cls m (blocks bss)" using ok by (simp add: free_list_ok_def)
      note frame = link_frame [OF apart bl(1) _ free_list_sizes [OF ok]]
      have "free_list_ok cls ?m fl (bss[5 := ?xs @ ys])"
      proof (rule take_out_ok [OF ok five split])
        show "obj_size cls ?m b' = obj_size cls m b'" if "b' \<in> blocks bss" for b' using frame(1) [OF that] .
        show "?m (b' + 8) = m (b' + 8)" if c': "c' < 6" "c' \<noteq> 5" "b' \<in> set (bss ! c')" for b' c'
        proof -
          have "b' \<noteq> ?p"
          proof
            assume "b' = ?p"
            then have "next_down (obj_size cls m b') = Inr (SizeClass c')" "next_down (obj_size cls m b') = Inr (SizeClass 5)"
              using ok cok p c' unfolding free_list_ok_def class_ok_def by blast+
            with c'(2) show False by simp
          qed
          then show ?thesis by simp
        qed
        show "free_chain ?m (fl ! 5) (?xs @ ys)"
          using free_chain_unlink [of m "fl ! 5" ?xs y ys] chain distinct False split by metis
      qed (use len in auto)
      with res y yb take_out(2) [OF ok five split] frame(1) [OF bl(2)] show ?thesis by blast
    qed
  qed
qed

text \<open>C30.  An allocation from the free lists always returns, its assertion on the block's size never fails,
  and a block it returns is large enough and is taken out of its list, with all lists still linked
  correctly.  It returns null only if the lists of all classes that are certain to be large enough are
  empty and no huge block is large enough.\<close>

theorem free_list_alloc_sound:
  assumes "free_list_ok cls m fl bss" and "SIZE_SMALLEST \<le> sz" and "next_up sz = Inr up"
  shows "\<exists>b fl' m' bss'. free_list_alloc cls sz (fl, m) = ret (b, fl', m') \<and> free_list_ok cls m' fl' bss'
    \<and> (if b = addr_null then blocks bss' = blocks bss \<and> (\<forall>c. sc_idx up \<le> c \<and> c < 5 \<longrightarrow> bss ! c = [])
          \<and> (\<forall>b\<in>set (bss ! 5). obj_size cls m b < sz)
       else b \<in> blocks bss \<and> sz \<le> obj_size cls m' b \<and> blocks bss' = blocks bss - {b})"
proof -
  note ok = assms(1)
  have len: "length fl = 6" "length bss = 6" using ok by (simp_all add: free_list_ok_def)
  have huge: "sc_idx SIZE_CLASS_HUGE = 5" by (simp add: SIZE_CLASS_HUGE_def)
  let ?cs = "[sc_idx up..<5]"
  have start: "free_list_alloc cls sz (fl, m) = cbind (Some (try_classes cls sz ?cs (fl, m))) (\<lambda>res.
       case res of Some (b, fl) \<Rightarrow> ret (b, fl, m) | None \<Rightarrow> class_find cls 5 sz (fl, m))"
    by (simp add: free_list_alloc_def assms(3) huge)
  from try_classes_ok [OF ok assms(3), of ?cs] show ?thesis
  proof
    show "\<forall>c\<in>set ?cs. sc_idx up \<le> c \<and> c < 5" by simp
    assume "\<exists>c\<in>set ?cs. \<exists>b bs. bss ! c = b # bs \<and> sz \<le> obj_size cls m b
      \<and> try_classes cls sz ?cs (fl, m) = Inr (Some (b, fl[c := m (b + 8)]))"
    then obtain c b bs where c0: "c \<in> set ?cs" "bss ! c = b # bs" "sz \<le> obj_size cls m b"
      "try_classes cls sz ?cs (fl, m) = Inr (Some (b, fl[c := m (b + 8)]))" by blast
    then have c: "c < 6" "bss ! c = [] @ b # bs" "sz \<le> obj_size cls m b"
      "try_classes cls sz ?cs (fl, m) = Inr (Some (b, fl[c := m (b + 8)]))" by simp_all
    have cok: "class_ok cls m fl bss c" using ok c(1) by (simp add: free_list_ok_def)
    have b: "b \<in> set (bss ! c)" using c(2) by simp
    have "free_list_ok cls m (fl[c := m (b + 8)]) (bss[c := [] @ bs])"
      by (rule take_out_ok [OF ok c(1,2)]) (use len c(1,2) cok in \<open>auto simp: class_ok_def\<close>)
    moreover have "b \<noteq> addr_null" "b \<in> blocks bss" using class_ok_blocks [OF cok b] blocks_at [OF len(2)] b c(1) by blast+
    ultimately show ?thesis using start c(3,4) take_out(2) [OF ok c(1,2)] by auto
  next
    assume none: "try_classes cls sz ?cs (fl, m) = Inr None \<and> (\<forall>c\<in>set ?cs. bss ! c = [])"
    then have run: "free_list_alloc cls sz (fl, m) = class_find cls 5 sz (fl, m)" using start by simp
    have empty: "bss ! c = []" if "sc_idx up \<le> c \<and> c < 5" for c using none that by simp
    from class_find_ok [OF ok, of sz] show ?thesis
    proof
      assume "\<exists>b fl' m' bss'. class_find cls 5 sz (fl, m) = ret (b, fl', m') \<and> b \<in> set (bss ! 5) \<and> sz \<le> obj_size cls m b
      \<and> free_list_ok cls m' fl' bss' \<and> blocks bss' = blocks bss - {b} \<and> obj_size cls m' b = obj_size cls m b"
      then obtain b fl' m' bss' where b: "class_find cls 5 sz (fl, m) = ret (b, fl', m')" "b \<in> set (bss ! 5)" "sz \<le> obj_size cls m' b"
        "free_list_ok cls m' fl' bss'" "blocks bss' = blocks bss - {b}" by auto
      have five: "(5 :: nat) < 6" by simp
      have "class_ok cls m fl bss 5" using ok by (simp add: free_list_ok_def)
      then have "b \<noteq> addr_null" "b \<in> blocks bss" using class_ok_blocks b(2) blocks_at [OF len(2)] five by blast+
      with b run show ?thesis by auto
    next
      assume "class_find cls 5 sz (fl, m) = ret (addr_null, fl, m) \<and> (\<forall>b\<in>set (bss ! 5). obj_size cls m b < sz)"
      with run ok empty show ?thesis by auto
    qed
  qed
qed

text \<open>A heap whose only free block has 32 bytes.\<close>

definition demo_fillers :: fillers where
  "demo_fillers = \<lparr>free_object_vtable = 5000, free_array_vtable = 5008\<rparr>"

definition filler_classes :: classes where
  "filler_classes = (\<lambda>v. if v = 5000 then \<lparr>ci_size = Fixed 16, ci_ref_fields = []\<rparr> else \<lparr>ci_size = FreeArray, ci_ref_fields = []\<rparr>)"

definition demo_free_memory :: memory where
  "demo_free_memory = (\<lambda>_. 0)(1024 := 5008, 1040 := 1)"

definition demo_free_list :: free_list where
  "demo_free_list = [0, 1024, 0, 0, 0, 0]"

definition demo_blocks :: "heap_address list list" where
  "demo_blocks = [[], [1024], [], [], [], []]"

lemma demo_block_size: "obj_size filler_classes demo_free_memory 1024 = 32"
  by (simp add: obj_size_def size_for_vtblptr_def vt_instance_size_def vt_element_size_def determine_array_size_def array_len_def
      filler_classes_def demo_free_memory_def vtblptr_def header_size_def ptr_width_usize_def)

lemma demo_free_list_ok: "free_list_ok filler_classes demo_free_memory demo_free_list demo_blocks"
proof -
  have "class_ok filler_classes demo_free_memory demo_free_list demo_blocks c" if "c < 6" for c
  proof -
    have "c \<in> {0, 1, 2, 3, 4, 5}" using that by auto
    then show ?thesis
      by (auto simp: class_ok_def demo_free_list_def demo_blocks_def addr_null_def demo_block_size next_down_def size_class_defs)
        (simp add: demo_free_memory_def)
  qed
  then show ?thesis by (simp add: free_list_ok_def demo_free_list_def demo_blocks_def apart_def blocks_def)
qed

theorem free_list_alloc_sound_witness:
  "free_list_ok filler_classes demo_free_memory demo_free_list demo_blocks
   \<and> (\<exists>b fl' m' bss'. free_list_alloc filler_classes 24 (demo_free_list, demo_free_memory) = ret (b, fl', m')
        \<and> free_list_ok filler_classes m' fl' bss' \<and> (b = addr_null \<or> b = 1024 \<and> blocks bss' = {}))"
proof -
  have up: "next_up 24 = Inr (SizeClass 1)" "SIZE_SMALLEST \<le> 24" by (simp_all add: next_up_def size_class_defs)
  have "blocks demo_blocks = {1024}" by (simp add: blocks_def demo_blocks_def)
  with free_list_alloc_sound [OF demo_free_list_ok up(2,1)] demo_free_list_ok show ?thesis
    by (auto split: if_splits)
qed

text \<open>C36.  When the rest of the heap is used up and the free lists give a block that has exactly the requested
  size, or eight bytes more, \<open>SweepAllocator::allocate\<close> panics instead of returning the block: it asks
  \<open>fill_region_with_free\<close> to turn the rest of zero or eight bytes into a free object.\<close>

theorem sweep_allocate_exact_fit_panics:
  assumes "sa_limit sa < sa_top sa + sz" and "sa_top sa + sz < 2 ^ 64"
    and "free_list_alloc cls sz (sa_free_list sa, m) = ret (b, fl, m')" and "b \<noteq> addr_null"
    and "obj_size cls m' b = sz \<or> obj_size cls m' b = sz + 8" and "b + obj_size cls m' b < 2 ^ 64"
  shows "sweep_allocate cls fs sz (sa, m) = Some (Inl ExplicitPanic)"
proof -
  have "offset (sa_top sa) sz = Inr (sa_top sa + sz)" "offset b sz = Inr (b + sz)" "offset b (obj_size cls m' b) = Inr (b + obj_size cls m' b)"
    "offset_from (b + obj_size cls m' b) (b + sz) = Inr (obj_size cls m' b - sz)"
    "fill_region_with_free fs (b + sz) (b + obj_size cls m' b) addr_null m' = Inl ExplicitPanic"
    using assms by (auto simp: offset_def checked_add_def offset_from_def fill_region_with_free_def ptr_width_usize_def)
  then show ?thesis using assms(1,3,4,5) by (auto simp: sweep_allocate_def Let_def ccheck_def)
qed

theorem sweep_allocate_exact_fit_panics_witness:
  "sweep_allocate filler_classes demo_fillers 32
     (\<lparr>sa_top = 2040, sa_limit = 2048, sa_free_list = demo_free_list\<rparr>, demo_free_memory) = Some (Inl ExplicitPanic)"
proof -
  have "free_list_alloc filler_classes 32 (demo_free_list, demo_free_memory) = ret (1024, [0, 0, 0, 0, 0, 0], demo_free_memory)"
    by (simp add: free_list_alloc_def next_up_def size_class_defs SIZE_CLASS_HUGE_def class_first_def demo_free_list_def
        vec_get_def free_next_def addr_null_def demo_block_size upt_rec)
      (simp add: demo_free_memory_def)
  with sweep_allocate_exact_fit_panics [of "\<lparr>sa_top = 2040, sa_limit = 2048, sa_free_list = demo_free_list\<rparr>" 32 filler_classes
      demo_free_memory 1024] demo_block_size show ?thesis by (simp add: addr_null_def)
qed

end
