(* ===== verification/SweepCollection.thy ===== *)
theory SweepCollection
  imports SweepTheorems
begin

text \<open>
  A whole mark-sweep collection: the live objects stay where they are, every maximal run of garbage
  becomes one free block on the list of its size class, and the heap can still be walked.
\<close>

definition mc_of :: "mark_sweep \<Rightarrow> mark_compact" where
  "mc_of ms = \<lparr>mc_heap = ms_heap ms, mc_readonly = ms_readonly ms, mc_init_top = r_end (ms_heap ms), mc_top = r_start (ms_heap ms),
     mc_rootset = ms_rootset ms, mc_memory = ms_memory ms, mc_finalizers = ms_finalizers ms\<rparr>"

definition fillers_ok :: "classes \<Rightarrow> fillers \<Rightarrow> bool" where
  "fillers_ok cls fs = (free_object_vtable fs \<noteq> 0 \<and> free_array_vtable fs \<noteq> 0
     \<and> ci_size (cls (free_object_vtable fs)) = Fixed header_size \<and> ci_size (cls (free_array_vtable fs)) = FreeArray)"

subsection \<open>Adding a block\<close>

lemma fill_free_ok:
  assumes fs: "fillers_ok cls fs" and d: "16 \<le> d" "8 dvd d" and small: "g + d < 2 ^ 64"
  shows "\<exists>m'. fill_region_with_free fs g (g + d) head m = Inr m' \<and> m' g \<noteq> 0 \<and> obj_size cls m' g = d \<and> m' (g + 8) = head
    \<and> (\<forall>x. x < g \<or> g + d \<le> x \<longrightarrow> m' x = m x)"
proof (cases "d = 16")
  case True
  then show ?thesis using fs
    by (auto simp: fill_region_with_free_def offset_from_def ptr_width_usize_def header_size_def fillers_ok_def obj_size_def
        vtblptr_def size_for_vtblptr_def vt_instance_size_def)
next
  case False
  obtain j where "d = 8 * j" using d(2) by (rule dvdE)
  with d(1) False have k: "d = 24 + 8 * (j - 3)" by auto
  let ?k = "j - 3"
  let ?m = "m(g := free_array_vtable fs, g + 8 := head, g + 16 := ?k)"
  have "fill_region_with_free fs g (g + d) head m = Inr ?m"
    using False small unfolding k
    by (simp add: fill_region_with_free_def offset_from_def ptr_width_usize_def header_size_def array_header_size_def offset_def
        checked_add_def)
  moreover have "obj_size cls ?m g = d"
    using fs unfolding k by (simp add: fillers_ok_def obj_size_def vtblptr_def size_for_vtblptr_def vt_instance_size_def vt_element_size_def
        determine_array_size_def array_len_def header_size_def ptr_width_usize_def)
  moreover have "24 \<le> d" using k by linarith
  ultimately show ?thesis using fs by (auto simp: fillers_ok_def)
qed

lemma add_block_ok:
  assumes ok: "free_list_ok cls m fl bss" and fs: "fillers_ok cls fs"
    and d: "16 \<le> d" "8 dvd d" and g: "0 < g" "g + d < 2 ^ 64"
    and below: "\<And>b. b \<in> blocks bss \<Longrightarrow> b + obj_size cls m b \<le> g"
  shows "\<exists>m' fl' bss'. free_list_add fs g d (fl, m) = Inr (fl', m') \<and> free_list_ok cls m' fl' bss' \<and> blocks bss' = insert g (blocks bss)
    \<and> m' g \<noteq> 0 \<and> obj_size cls m' g = d \<and> (\<forall>x. x < g \<or> g + d \<le> x \<longrightarrow> m' x = m x)"
proof -
  have len: "length bss = 6" "length fl = 6" using ok by (simp_all add: free_list_ok_def)
  obtain c where c: "next_down d = Inr (SizeClass c)" "c < 6"
    using next_down_idx [of d] d(1) by (auto simp: SIZE_SMALLEST_def) (metis size_class.exhaust_sel)
  obtain m' where m': "fill_region_with_free fs g (g + d) (fl ! c) m = Inr m'" "m' g \<noteq> 0" "obj_size cls m' g = d" "m' (g + 8) = fl ! c"
    "\<forall>x. x < g \<or> g + d \<le> x \<longrightarrow> m' x = m x"
    using fill_free_ok [OF fs d g(2)] by blast
  have add: "free_list_add fs g d (fl, m) = Inr (fl[c := g], m')"
    using d(1) c g(2) m'(1) len by (simp add: free_list_add_def SIZE_SMALLEST_def vec_get_def offset_def checked_add_def)
  let ?bss = "bss[c := g # bss ! c]"
  have sizes: "\<forall>b\<in>blocks bss. 16 \<le> obj_size cls m b" using ok by (rule free_list_sizes)
  have frame: "obj_size cls m' b = obj_size cls m b" "m' (b + 8) = m (b + 8)" "b \<noteq> g" if b: "b \<in> blocks bss" for b
  proof -
    have near: "b + obj_size cls m b \<le> g" "16 \<le> obj_size cls m b" using below sizes b by auto
    then show "m' (b + 8) = m (b + 8)" "b \<noteq> g" using m'(5) by auto
    show "obj_size cls m' b = obj_size cls m b"
    proof (rule shape_frame(1))
      show "m' b = m b" using near m'(5) by simp
      assume "vt_instance_size (cls (m b)) = 0"
      then have "array_header_size \<le> obj_size cls m b" by (rule array_size_large)
      then show "m' (b + header_size) = m (b + header_size)"
        using near m'(5) by (simp add: array_header_size_def ptr_width_usize_def)
    qed
  qed
  have blocks: "blocks ?bss = insert g (blocks bss)"
    using c(2) len unfolding blocks_def by (auto simp: concat_update concat_at [of c bss])
  have "distinct (concat ?bss)"
    using ok c(2) len frame(3) unfolding free_list_ok_def blocks_def
    by (auto simp: concat_update concat_at [of c bss])
  moreover have "apart cls m' (blocks ?bss)"
    using ok frame(1,3) below m'(3) unfolding blocks apart_def free_list_ok_def by auto
  moreover have "class_ok cls m' (fl[c := g]) ?bss c'" if c': "c' < 6" for c'
  proof -
    have old: "class_ok cls m fl bss c'" using ok c' by (simp add: free_list_ok_def)
    have mem: "b \<in> blocks bss" if "b \<in> set (bss ! c')" for b using blocks_at [OF len(1)] c' that by blast
    have "free_chain m' (fl ! c') (bss ! c') = free_chain m (fl ! c') (bss ! c')" using frame(2) mem by (intro free_chain_frame) blast
    with old c m'(3,4) g(1) len frame(1) mem show ?thesis by (cases "c' = c") (auto simp: class_ok_def addr_null_def)
  qed
  ultimately have "free_list_ok cls m' (fl[c := g]) ?bss" using len by (simp add: free_list_ok_def)
  with add blocks m'(2,3,5) show ?thesis by blast
qed

subsection \<open>The part of the heap that has been swept\<close>

text \<open>The cells \<open>pre\<close> up to \<open>g\<close> have been swept into the cells \<open>pre'\<close>.\<close>

definition swept :: "classes \<Rightarrow> heap_address \<Rightarrow> memory \<Rightarrow> heap_address set \<Rightarrow> cell list \<Rightarrow> heap_address \<Rightarrow> memory \<Rightarrow> free_list \<Rightarrow>
    cell list \<Rightarrow> heap_address list list \<Rightarrow> bool" where
  "swept cls s m0 L pre g m fl pre' bss =
     (contiguous s pre' g \<and> (\<forall>c\<in>set pre'. cell_shape cls m c)
      \<and> objects pre' = (L \<inter> objects pre) \<union> blocks bss \<and> L \<inter> blocks bss = {}
      \<and> (\<forall>a sz. Object a sz \<in> set pre \<and> a \<in> L \<longrightarrow> Object a sz \<in> set pre' \<and> 16 \<le> sz \<and> \<not> is_marked_non_atomic m a
           \<and> (\<forall>i < sz. i \<noteq> 8 \<longrightarrow> m (a + i) = m0 (a + i)))
      \<and> free_list_ok cls m fl bss)"

lemma shape_within:
  assumes "cell_shape cls m c" "cell_addr c < cell_end c" "\<And>x. cell_addr c \<le> x \<Longrightarrow> x < cell_end c \<Longrightarrow> m' x = m x"
  shows "cell_shape cls m' c"
proof (cases c)
  case (Object a sz)
  have "obj_size cls m' a = obj_size cls m a"
  proof (rule shape_frame(1))
    show "m' a = m a" using assms Object by simp
    assume "vt_instance_size (cls (m a)) = 0"
    then have "array_header_size \<le> obj_size cls m a" by (rule array_size_large)
    with assms Object show "m' (a + header_size) = m (a + header_size)"
      by (simp add: array_header_size_def ptr_width_usize_def cell_shape_def)
  qed
  with assms Object show ?thesis by (simp add: cell_shape_def)
qed (use assms in \<open>simp add: cell_shape_def\<close>)

lemma swept_block_below:
  assumes "swept cls s m0 L pre g m fl pre' bss" "b \<in> blocks bss"
  shows "b + obj_size cls m b \<le> g" "16 \<le> obj_size cls m b"
proof -
  obtain sz where sz: "Object b sz \<in> set pre'" using assms by (auto simp: swept_def objects_def)
  then have "cell_shape cls m (Object b sz)" "contiguous s pre' g" using assms(1) by (auto simp: swept_def)
  with contiguous_bounds [of s pre' g, OF _ sz] show "b + obj_size cls m b \<le> g" by (simp add: cell_shape_def)
  show "16 \<le> obj_size cls m b" using assms free_list_sizes unfolding swept_def by blast
qed

lemma free_list_frame:
  assumes "free_list_ok cls m fl bss" "\<And>b. b \<in> blocks bss \<Longrightarrow> obj_size cls m' b = obj_size cls m b \<and> m' (b + 8) = m (b + 8)"
  shows "free_list_ok cls m' fl bss"
proof -
  have len: "length bss = 6" using assms(1) by (simp add: free_list_ok_def)
  have "class_ok cls m' fl bss c" if c: "c < 6" for c
  proof -
    have mem: "b \<in> blocks bss" if "b \<in> set (bss ! c)" for b using blocks_at [OF len] c that by blast
    then have "free_chain m' (fl ! c) (bss ! c) = free_chain m (fl ! c) (bss ! c)" using assms(2) by (intro free_chain_frame) blast
    with assms c mem show ?thesis by (auto simp: class_ok_def free_list_ok_def)
  qed
  with assms show ?thesis by (auto simp: free_list_ok_def apart_def)
qed

lemma swept_frame:
  assumes sw: "swept cls s m0 L pre g m fl pre' bss" and same: "\<And>x. x < g \<Longrightarrow> m' x = m x"
  shows "swept cls s m0 L pre g m' fl pre' bss"
proof -
  note bounds = contiguous_bounds [of s pre' g]
  have lay: "contiguous s pre' g" using sw by (simp add: swept_def)
  have shape: "cell_shape cls m' c" if "c \<in> set pre'" for c
    using sw that bounds [OF lay that] same unfolding swept_def by (intro shape_within [of cls m c m']) auto
  have "free_list_ok cls m' fl bss"
  proof (rule free_list_frame [of cls m])
    show "free_list_ok cls m fl bss" using sw by (simp add: swept_def)
    fix b assume b: "b \<in> blocks bss"
    then obtain sz where sz: "Object b sz \<in> set pre'" using sw by (auto simp: swept_def objects_def)
    have "cell_shape cls m (Object b sz)" using sw sz by (auto simp: swept_def)
    with shape [OF sz] swept_block_below [OF sw b] same show "obj_size cls m' b = obj_size cls m b \<and> m' (b + 8) = m (b + 8)"
      by (auto simp: cell_shape_def)
  qed
  moreover have "\<not> is_marked_non_atomic m' a \<and> (\<forall>i < sz. i \<noteq> 8 \<longrightarrow> m' (a + i) = m0 (a + i))"
    if a: "Object a sz \<in> set pre" "a \<in> L" for a sz
  proof -
    have new: "Object a sz \<in> set pre'" "16 \<le> sz" "\<not> is_marked_non_atomic m a" "\<forall>i < sz. i \<noteq> 8 \<longrightarrow> m (a + i) = m0 (a + i)"
      using sw a unfolding swept_def by blast+
    then have "a + sz \<le> g" using bounds [OF lay new(1)] by simp
    with new(2-4) same show ?thesis by (simp add: is_marked_non_atomic_def fwd_word_def)
  qed
  ultimately show ?thesis using sw shape unfolding swept_def by blast
qed

lemma unmarked: "(x AND FWD_MASK) AND MARK_MASK = 0" for x :: nat
  by (rule bit_eqI) (auto simp: bit_simps FWD_MASK_bit MARK_MASK_mask)

lemma swept_gap:
  assumes "swept cls s m0 L pre g m fl pre' bss" "m g = 0"
  shows "swept cls s m0 L (pre @ [Gap g]) (g + 8) m fl (pre' @ [Gap g]) bss"
  using assms by (auto simp: swept_def contiguous_append cell_shape_def)

lemma swept_live:
  assumes sw: "swept cls s m0 L pre g m fl pre' bss" and g: "g \<in> L" "16 \<le> sz" "m g \<noteq> 0" "obj_size cls m g = sz"
    and same: "\<And>i. i < sz \<Longrightarrow> m (g + i) = m0 (g + i)"
  shows "swept cls s m0 L (pre @ [Object g sz]) (g + sz) (unmark_non_atomic g m) fl (pre' @ [Object g sz]) bss"
proof -
  let ?m = "unmark_non_atomic g m"
  have m: "?m x = (if x = g + 8 then m x AND FWD_MASK else m x)" for x by (simp add: unmark_non_atomic_def fwd_word_def)
  have "swept cls s m0 L pre g ?m fl pre' bss" using sw by (rule swept_frame) (simp add: m)
  moreover have "cell_shape cls ?m (Object g sz)"
    using g(3) g(4) shape_frame(1) [of ?m g m cls] by (simp add: cell_shape_def m header_size_def)
  moreover have "\<forall>i < sz. i \<noteq> 8 \<longrightarrow> ?m (g + i) = m0 (g + i)" using same by (simp add: m)
  moreover have "\<not> is_marked_non_atomic ?m g"
    by (simp add: is_marked_non_atomic_def unmark_non_atomic_def fwd_word_def unmarked)
  ultimately show ?thesis using g(1,2) unfolding swept_def by (auto simp: contiguous_append)
qed

lemma swept_free:
  assumes sw: "swept cls s m0 L pre g m fl pre' bss" and fs: "fillers_ok cls fs"
    and run: "contiguous g grb p" "L \<inter> objects grb = {}" "g \<notin> L"
    and d: "g + 16 \<le> p" "8 dvd p - g" "0 < g" "p < 2 ^ 64"
  shows "\<exists>m' fl' bss'. free_list_add fs g (p - g) (fl, m) = Inr (fl', m')
    \<and> swept cls s m0 L (pre @ grb) p m' fl' (pre' @ [Object g (p - g)]) bss' \<and> (\<forall>x. x < g \<or> p \<le> x \<longrightarrow> m' x = m x)"
proof -
  have "free_list_ok cls m fl bss" using sw by (simp add: swept_def)
  then obtain m' fl' bss' where new: "free_list_add fs g (p - g) (fl, m) = Inr (fl', m')" "free_list_ok cls m' fl' bss'"
    "blocks bss' = insert g (blocks bss)" "m' g \<noteq> 0" "obj_size cls m' g = p - g" "\<forall>x. x < g \<or> p \<le> x \<longrightarrow> m' x = m x"
    using add_block_ok [of cls m fl bss fs "p - g" g] fs d swept_block_below(1) [OF sw] by force
  have "swept cls s m0 L pre g m' fl pre' bss" using sw by (rule swept_frame) (use new(6) in simp)
  then have "swept cls s m0 L (pre @ grb) p m' fl' (pre' @ [Object g (p - g)]) bss'"
    using new(2-5) run d unfolding swept_def
    by (auto simp: contiguous_append cell_shape_def) (auto simp: objects_def)
  with new(1,6) show ?thesis by blast
qed

subsection \<open>The sweep\<close>

text \<open>The loop at \<open>p\<close>: the cells \<open>pre\<close> have been swept, the run of garbage \<open>grb\<close> from \<open>g\<close> on is open, and
  nothing has been changed from \<open>g\<close> on.\<close>

definition sweeping :: "classes \<Rightarrow> mark_compact \<Rightarrow> cell list \<Rightarrow> cell list \<Rightarrow> cell list \<Rightarrow> heap_address \<Rightarrow> heap_address \<Rightarrow> mark_sweep \<Rightarrow> bool" where
  "sweeping cls mc cs grb rest p gs ms = (\<exists>pre g pre' bss. cs = pre @ grb @ rest
     \<and> contiguous (r_start (mc_heap mc)) pre g \<and> contiguous g grb p \<and> contiguous p rest (r_end (mc_heap mc))
     \<and> swept cls (r_start (mc_heap mc)) (mark_all (live cls mc) (mc_memory mc)) (live cls mc) pre g (ms_memory ms) (ms_free_list ms) pre' bss
     \<and> (\<forall>x. x < r_start (mc_heap mc) \<or> g \<le> x \<longrightarrow> ms_memory ms x = mark_all (live cls mc) (mc_memory mc) x)
     \<and> gs = (if grb = [] then addr_null else g) \<and> (grb \<noteq> [] \<longrightarrow> (\<exists>sz. hd grb = Object g sz)) \<and> live cls mc \<inter> objects grb = {})"

lemma contiguous_dvd: "contiguous g cs p \<Longrightarrow> (\<And>a sz. Object a sz \<in> set cs \<Longrightarrow> 8 dvd sz) \<Longrightarrow> 8 dvd p - g"
proof (induction cs arbitrary: g)
  case (Cons c cs)
  have rest: "contiguous (cell_end c) cs p" "8 dvd p - cell_end c" using Cons by auto
  have "8 dvd cell_end c - g" using Cons.prems by (cases c) auto
  moreover have "p - g = (p - cell_end c) + (cell_end c - g)" using contiguous_le [OF rest(1)] Cons.prems(1) by auto
  ultimately show ?case using rest(2) by simp
qed simp

lemma marked_shape:
  assumes "heap_ok cls mc cs" "c \<in> set cs"
  shows "cell_shape cls (mark_all (live cls mc) (mc_memory mc)) c"
  using shape_kept(1) [OF assms(1) _ assms(2)] mark_all_untouched [OF live_objects [OF assms(1)]] by blast

lemma sweeping_cell:
  assumes full: "heap_ok cls mc cs" and sw: "sweeping cls mc cs grb (c # rest) p gs ms"
  shows "cell_addr c = p" "p < r_end (mc_heap mc)" "c \<in> set cs" "cell_shape cls (ms_memory ms) c"
    "\<And>a sz. c = Object a sz \<Longrightarrow> is_marked_non_atomic (ms_memory ms) a \<longleftrightarrow> a \<in> live cls mc"
proof -
  obtain pre g where st: "cs = pre @ grb @ c # rest" "contiguous g grb p" "contiguous p (c # rest) (r_end (mc_heap mc))"
    "\<forall>x. g \<le> x \<longrightarrow> ms_memory ms x = mark_all (live cls mc) (mc_memory mc) x"
    using sw unfolding sweeping_def by blast
  have "g \<le> p" using st(2) by (rule contiguous_le)
  with st(4) have same: "p \<le> x \<Longrightarrow> ms_memory ms x = mark_all (live cls mc) (mc_memory mc) x" for x by simp
  show c: "cell_addr c = p" "c \<in> set cs" using st by auto
  show "p < r_end (mc_heap mc)" using st(3) contiguous_le [of "cell_end c" rest] by fastforce
  show "cell_shape cls (ms_memory ms) c"
    using shape_within [OF marked_shape [OF full c(2)]] st(3) same c(1) by auto
  show "is_marked_non_atomic (ms_memory ms) a \<longleftrightarrow> a \<in> live cls mc" if "c = Object a sz" for a sz
    using mark_all_marked [OF full, of a "live cls mc"] c same that
    by (auto simp: is_marked_non_atomic_def fwd_word_def objects_def)
qed

lemma sweeping_gap:
  assumes "heap_ok cls mc cs" and sw: "sweeping cls mc cs grb (Gap p # rest) p gs ms"
  shows "\<exists>grb'. sweeping cls mc cs grb' rest (p + 8) gs ms"
proof -
  have zero: "ms_memory ms p = 0" using sweeping_cell(4) [OF assms] by (simp add: cell_shape_def)
  show ?thesis
  proof (cases "grb = []")
    case True
    let ?L = "live cls mc" and ?s = "r_start (mc_heap mc)"
    let ?mk = "mark_all ?L (mc_memory mc)"
    obtain pre g pre' bss where st: "cs = pre @ [] @ Gap p # rest" "contiguous ?s pre g" "contiguous g [] p"
      "contiguous p (Gap p # rest) (r_end (mc_heap mc))"
      "swept cls ?s ?mk ?L pre g (ms_memory ms) (ms_free_list ms) pre' bss"
      "\<forall>x. x < ?s \<or> g \<le> x \<longrightarrow> ms_memory ms x = ?mk x" "gs = addr_null"
      using sw True unfolding sweeping_def by (metis (no_types, lifting))
    have "g = p" using st(3) by simp
    have "swept cls ?s ?mk ?L (pre @ [Gap p]) (p + 8) (ms_memory ms) (ms_free_list ms) (pre' @ [Gap p]) bss"
      using swept_gap [OF st(5)] zero \<open>g = p\<close> by simp
    then have "sweeping cls mc cs [] rest (p + 8) gs ms"
      using st(1,2,4,6,7) \<open>g = p\<close> unfolding sweeping_def
      by (intro exI [of _ "pre @ [Gap p]"] exI [of _ "p + 8"] exI [of _ "pre' @ [Gap p]"] exI [of _ bss])
        (simp add: contiguous_append)
    then show ?thesis by blast
  next
    case False
    with sw have "sweeping cls mc cs (grb @ [Gap p]) rest (p + 8) gs ms"
      unfolding sweeping_def by (auto simp: contiguous_append)
    then show ?thesis by blast
  qed
qed

lemma sweeping_dead:
  assumes ok: "heap_ok cls mc cs" and sw: "sweeping cls mc cs grb (Object p sz # rest) p gs ms" and p: "p \<notin> live cls mc"
  shows "\<exists>grb'. sweeping cls mc cs grb' rest (p + sz) (if gs \<noteq> addr_null then gs else p) ms"
proof -
  let ?L = "live cls mc" and ?s = "r_start (mc_heap mc)"
  let ?mk = "mark_all ?L (mc_memory mc)" and ?gs = "if gs \<noteq> addr_null then gs else p"
  obtain pre g pre' bss where st: "cs = pre @ grb @ Object p sz # rest" "contiguous ?s pre g" "contiguous g grb p"
    "contiguous p (Object p sz # rest) (r_end (mc_heap mc))" "swept cls ?s ?mk ?L pre g (ms_memory ms) (ms_free_list ms) pre' bss"
    "\<forall>x. x < ?s \<or> g \<le> x \<longrightarrow> ms_memory ms x = ?mk x" "gs = (if grb = [] then addr_null else g)"
    "grb \<noteq> [] \<longrightarrow> (\<exists>sz. hd grb = Object g sz)" "?L \<inter> objects grb = {}"
    using sw unfolding sweeping_def by (metis (no_types, lifting))
  have "0 < g" using heap_okD(4) [OF ok] contiguous_le [OF st(2)] by simp
  moreover have "grb = [] \<Longrightarrow> g = p" using st(3) by simp
  ultimately have gs: "?gs = g" using st(7) by (auto simp: addr_null_def)
  have "sweeping cls mc cs (grb @ [Object p sz]) rest (p + sz) ?gs ms"
    unfolding sweeping_def gs
  proof (intro exI conjI)
    show "cs = pre @ (grb @ [Object p sz]) @ rest" using st(1) by simp
    show "contiguous g (grb @ [Object p sz]) (p + sz)" "contiguous (p + sz) rest (r_end (mc_heap mc))"
      using st(3,4) by (auto simp: contiguous_append)
    show "swept cls ?s ?mk ?L pre g (ms_memory ms) (ms_free_list ms) pre' bss" by (fact st(5))
    show "\<forall>x. x < ?s \<or> g \<le> x \<longrightarrow> ms_memory ms x = ?mk x" by (fact st(6))
    show "grb @ [Object p sz] \<noteq> [] \<longrightarrow> (\<exists>sz'. hd (grb @ [Object p sz]) = Object g sz')"
      using st(8) \<open>grb = [] \<Longrightarrow> g = p\<close> by (cases grb) auto
    show "?L \<inter> objects (grb @ [Object p sz]) = {}" using st(9) p by simp
  qed (use st(2) in simp_all)
  then show ?thesis by blast
qed

lemma sweeping_flush:
  assumes ok: "heap_ok cls mc cs" and fs: "fillers_ok cls fs" and sw: "sweeping cls mc cs grb rest p gs ms"
  shows "\<exists>m fl. add_freelist fs gs p ms = Inr (ms\<lparr>ms_free_list := fl, ms_memory := m\<rparr>)
    \<and> sweeping cls mc cs [] rest p addr_null (ms\<lparr>ms_free_list := fl, ms_memory := m\<rparr>)"
proof (cases "grb = []")
  case True
  with sw have "gs = addr_null" by (auto simp: sweeping_def)
  with sw True show ?thesis
    by (intro exI [of _ "ms_memory ms"] exI [of _ "ms_free_list ms"]) (simp add: add_freelist_def)
next
  case False
  let ?L = "live cls mc" and ?s = "r_start (mc_heap mc)"
  let ?mk = "mark_all ?L (mc_memory mc)"
  obtain pre g pre' bss sz where st: "cs = pre @ grb @ rest" "contiguous ?s pre g" "contiguous g grb p" "contiguous p rest (r_end (mc_heap mc))"
    "swept cls ?s ?mk ?L pre g (ms_memory ms) (ms_free_list ms) pre' bss"
    "\<forall>x. x < ?s \<or> g \<le> x \<longrightarrow> ms_memory ms x = ?mk x" "gs = g" "hd grb = Object g sz" "?L \<inter> objects grb = {}"
    using sw False unfolding sweeping_def by auto
  have obj: "Object g sz \<in> set grb" using st(8) False by (metis hd_in_set)
  then have in_cs: "Object g sz \<in> set cs" using st(1) by simp
  have g: "0 < g" using heap_okD(4) [OF ok] contiguous_le [OF st(2)] by simp
  have p: "p < 2 ^ 64" using contiguous_le [OF st(4)] heap_okD(3) [OF ok] by simp
  have size: "16 \<le> sz" "g + sz \<le> p"
    using heap_okD(8) [OF ok in_cs] contiguous_bounds [OF st(3) obj] by (simp_all add: object_ok_def header_size_def)
  have dvd: "8 dvd p - g" using st(3) by (rule contiguous_dvd) (use heap_okD(8) [OF ok] st(1) in \<open>auto simp: object_ok_def\<close>)
  have far: "g + 16 \<le> p" using size by linarith
  have dead: "g \<notin> ?L" using obj st(9) by (auto simp: objects_def)
  obtain m fl bss' where new: "free_list_add fs g (p - g) (ms_free_list ms, ms_memory ms) = Inr (fl, m)"
    "swept cls ?s ?mk ?L (pre @ grb) p m fl (pre' @ [Object g (p - g)]) bss'" "\<forall>x. x < g \<or> p \<le> x \<longrightarrow> m x = ms_memory ms x"
    using swept_free [OF st(5) fs st(3,9) dead far dvd g p] by blast
  have le: "?s \<le> g" "g \<le> p" using contiguous_le st(2,3) by blast+
  have "add_freelist fs gs p ms = Inr (ms\<lparr>ms_free_list := fl, ms_memory := m\<rparr>)"
    using new(1) g le(2) st(7) by (simp add: add_freelist_def addr_null_def offset_from_def)
  moreover have "sweeping cls mc cs [] rest p addr_null (ms\<lparr>ms_free_list := fl, ms_memory := m\<rparr>)"
    unfolding sweeping_def
  proof (intro exI conjI)
    show "cs = (pre @ grb) @ [] @ rest" using st(1) by simp
    show "contiguous ?s (pre @ grb) p" using st(2,3) by (auto simp: contiguous_append)
    show "\<forall>x. x < ?s \<or> p \<le> x \<longrightarrow> ms_memory (ms\<lparr>ms_free_list := fl, ms_memory := m\<rparr>) x = ?mk x"
      using new(3) st(6) le by auto
  qed (use new(2) st(4) in simp_all)
  ultimately show ?thesis by blast
qed

lemma sweeping_live:
  assumes ok: "heap_ok cls mc cs" and sw: "sweeping cls mc cs [] (Object p sz # rest) p addr_null ms" and p: "p \<in> live cls mc"
  shows "sweeping cls mc cs [] rest (p + sz) addr_null (ms\<lparr>ms_memory := unmark_non_atomic p (ms_memory ms)\<rparr>)"
proof -
  let ?L = "live cls mc" and ?s = "r_start (mc_heap mc)"
  let ?mk = "mark_all ?L (mc_memory mc)" and ?m = "unmark_non_atomic p (ms_memory ms)"
  obtain pre g pre' bss where st0: "cs = pre @ [] @ Object p sz # rest" "contiguous ?s pre g" "contiguous g [] p"
    "contiguous p (Object p sz # rest) (r_end (mc_heap mc))" "swept cls ?s ?mk ?L pre g (ms_memory ms) (ms_free_list ms) pre' bss"
    "\<forall>x. x < ?s \<or> g \<le> x \<longrightarrow> ms_memory ms x = ?mk x"
    using sw unfolding sweeping_def by (metis (no_types, lifting))
  have "g = p" using st0(3) by simp
  have st: "cs = pre @ Object p sz # rest" "contiguous ?s pre p" "contiguous p (Object p sz # rest) (r_end (mc_heap mc))"
    "swept cls ?s ?mk ?L pre p (ms_memory ms) (ms_free_list ms) pre' bss" "\<forall>x. x < ?s \<or> p \<le> x \<longrightarrow> ms_memory ms x = ?mk x"
    using st0(1,2,4-6) unfolding \<open>g = p\<close> by simp_all
  have size: "16 \<le> sz" using heap_okD(8) [OF ok, of p sz] st(1) by (simp add: object_ok_def header_size_def)
  have shape: "ms_memory ms p \<noteq> 0" "obj_size cls (ms_memory ms) p = sz" using sweeping_cell(4) [OF ok sw] by (simp_all add: cell_shape_def)
  have "?s \<le> p" using contiguous_le [OF st(2)] .
  have "swept cls ?s ?mk ?L (pre @ [Object p sz]) (p + sz) ?m (ms_free_list ms) (pre' @ [Object p sz]) bss"
    using swept_live [OF st(4) p size shape] st(5) by simp
  moreover have "\<forall>x. x < ?s \<or> p + sz \<le> x \<longrightarrow> ?m x = ?mk x"
    using st(5) size \<open>?s \<le> p\<close> by (auto simp: unmark_non_atomic_def fwd_word_def)
  ultimately show ?thesis
    using st(1-3) unfolding sweeping_def
    by (intro exI [of _ "pre @ [Object p sz]"] exI [of _ "p + sz"] exI [of _ "pre' @ [Object p sz]"] exI [of _ bss])
      (auto simp: contiguous_append)
qed

lemma sweep_loop_ok:
  assumes ok: "heap_ok cls mc cs" and fs: "fillers_ok cls fs" and "sweeping cls mc cs grb rest p gs ms" and "ms_heap ms = mc_heap mc"
  shows "\<exists>grb' gs' m fl. sweep_loop cls fs p gs ms = ret (r_end (mc_heap mc), gs', ms\<lparr>ms_free_list := fl, ms_memory := m\<rparr>)
    \<and> sweeping cls mc cs grb' [] (r_end (mc_heap mc)) gs' (ms\<lparr>ms_free_list := fl, ms_memory := m\<rparr>)"
  using assms(3,4)
proof (induction rest arbitrary: grb p gs ms)
  case Nil
  then have "p = r_end (mc_heap mc)" by (auto simp: sweeping_def)
  moreover have "ms = ms\<lparr>ms_free_list := ms_free_list ms, ms_memory := ms_memory ms\<rparr>" by simp
  ultimately show ?case using Nil
    by (intro exI [of _ grb] exI [of _ gs] exI [of _ "ms_memory ms"] exI [of _ "ms_free_list ms"]) (simp add: sweep_loop.simps ret_def)
next
  case (Cons c rest)
  note cell = sweeping_cell [OF ok Cons.prems(1)]
  have inside: "p < r_end (ms_heap ms)" using cell(2) Cons.prems(2) by simp
  show ?case
  proof (cases c)
    case (Gap a)
    then have a: "a = p" "ms_memory ms p = 0" using cell(1,4) by (auto simp: cell_shape_def)
    with Gap obtain grb' where "sweeping cls mc cs grb' rest (p + 8) gs ms" using sweeping_gap [OF ok] Cons.prems(1) by blast
    moreover have "sweep_loop cls fs p gs ms = sweep_loop cls fs (p + 8) gs ms"
      using inside a by (simp add: sweep_loop.simps [of cls fs p] vtblptr_def addr_null_def)
    ultimately show ?thesis using Cons.IH Cons.prems(2) by simp
  next
    case (Object a sz)
    then have a: "a = p" "ms_memory ms p \<noteq> 0" "obj_size cls (ms_memory ms) p = sz" using cell(1,4) by (auto simp: cell_shape_def)
    note marked = cell(5) [OF Object, unfolded a(1)]
    show ?thesis
    proof (cases "p \<in> live cls mc")
      case False
      then obtain grb' where "sweeping cls mc cs grb' rest (p + sz) (if gs \<noteq> addr_null then gs else p) ms"
        using sweeping_dead [OF ok] Cons.prems(1) Object a(1) by blast
      moreover have "sweep_loop cls fs p gs ms = sweep_loop cls fs (p + sz) (if gs \<noteq> addr_null then gs else p) ms"
        using inside a marked False by (simp add: sweep_loop.simps [of cls fs p] vtblptr_def addr_null_def)
      ultimately show ?thesis using Cons.IH Cons.prems(2) by simp
    next
      case True
      obtain m fl where new: "add_freelist fs gs p ms = Inr (ms\<lparr>ms_free_list := fl, ms_memory := m\<rparr>)"
        "sweeping cls mc cs [] (Object p sz # rest) p addr_null (ms\<lparr>ms_free_list := fl, ms_memory := m\<rparr>)"
        using sweeping_flush [OF ok fs] Cons.prems(1) Object a(1) by blast
      let ?ms = "ms\<lparr>ms_free_list := fl, ms_memory := unmark_non_atomic p m\<rparr>"
      have "sweeping cls mc cs [] rest (p + sz) addr_null ?ms" using sweeping_live [OF ok new(2) True] by simp
      from Cons.IH [OF this] Cons.prems(2) obtain grb' gs' m' fl' where rest:
        "sweep_loop cls fs (p + sz) addr_null ?ms = ret (r_end (mc_heap mc), gs', ms\<lparr>ms_free_list := fl', ms_memory := m'\<rparr>)"
        "sweeping cls mc cs grb' [] (r_end (mc_heap mc)) gs' (ms\<lparr>ms_free_list := fl', ms_memory := m'\<rparr>)"
        by auto
      have "sweep_loop cls fs p gs ms = sweep_loop cls fs (p + sz) addr_null ?ms"
        using inside a marked True new(1) by (simp add: sweep_loop.simps [of cls fs p] vtblptr_def addr_null_def)
      with rest show ?thesis by auto
    qed
  qed
qed

lemma sweep_start: "heap_ok cls mc cs \<Longrightarrow> mc_init_top mc = r_end (mc_heap mc) \<Longrightarrow> ms_free_list ms = free_list_new \<Longrightarrow>
  ms_memory ms = mark_all (live cls mc) (mc_memory mc) \<Longrightarrow> sweeping cls mc cs [] cs (r_start (mc_heap mc)) addr_null ms"
  using heap_okD(1)
  by (fastforce simp: sweeping_def swept_def free_list_ok_def free_list_new_def SIZE_CLASSES_def class_ok_def blocks_def apart_def
      intro!: exI [of _ "[]"] exI [of _ "replicate 6 []"])

lemma ms_sweep_ok:
  assumes ok: "heap_ok cls mc cs" and fs: "fillers_ok cls fs" and top: "mc_init_top mc = r_end (mc_heap mc)"
    and ms: "ms_heap ms = mc_heap mc" "ms_free_list ms = free_list_new" "ms_memory ms = mark_all (live cls mc) (mc_memory mc)"
  shows "\<exists>m fl. ms_sweep cls fs ms = ret (ms\<lparr>ms_free_list := fl, ms_memory := m\<rparr>)
    \<and> sweeping cls mc cs [] [] (r_end (mc_heap mc)) addr_null (ms\<lparr>ms_free_list := fl, ms_memory := m\<rparr>)"
proof -
  obtain grb gs m fl where loop:
    "sweep_loop cls fs (r_start (mc_heap mc)) addr_null ms = ret (r_end (mc_heap mc), gs, ms\<lparr>ms_free_list := fl, ms_memory := m\<rparr>)"
    "sweeping cls mc cs grb [] (r_end (mc_heap mc)) gs (ms\<lparr>ms_free_list := fl, ms_memory := m\<rparr>)"
    using sweep_loop_ok [OF ok fs sweep_start [OF ok top ms(2,3)] ms(1)] by blast
  obtain m' fl' where "add_freelist fs gs (r_end (mc_heap mc)) (ms\<lparr>ms_free_list := fl, ms_memory := m\<rparr>)
      = Inr (ms\<lparr>ms_free_list := fl', ms_memory := m'\<rparr>)"
    "sweeping cls mc cs [] [] (r_end (mc_heap mc)) addr_null (ms\<lparr>ms_free_list := fl', ms_memory := m'\<rparr>)"
    using sweeping_flush [OF ok fs loop(2)] by auto
  with loop(1) ms(1) show ?thesis by (auto simp: ms_sweep_def ccheck_def ret_def)
qed

lemma live_pos: "heap_ok cls mc cs \<Longrightarrow> a \<in> objects cs \<Longrightarrow> a \<noteq> addr_null"
  using heap_okD(1,4) contiguous_bounds by (fastforce simp: objects_def addr_null_def)

lemma live_word:
  assumes ok: "heap_ok cls mc cs" and a: "Object a sz \<in> set cs" "a \<in> live cls mc" "i < sz" "i \<noteq> 8"
  shows "a + i \<notin> fwd_word ` live cls mc"
proof
  assume "a + i \<in> fwd_word ` live cls mc"
  then obtain b szb where b: "Object b szb \<in> set cs" "a + i = b + 8"
    using live_objects [OF ok] by (auto simp: fwd_word_def objects_def)
  have "b + 8 < b + szb" using heap_okD(8) [OF ok b(1)] by (simp add: object_ok_def header_size_def)
  then have "Object a sz = Object b szb"
    using same_cell [OF heap_okD(1) [OF ok] a(1) b(1), of "a + i"] a(3) b(2) by simp
  with b(2) a(4) show False by simp
qed

lemma live_word_inside:
  assumes ok: "heap_ok cls mc cs" and x: "x \<in> fwd_word ` live cls mc"
  shows "r_contains (mc_heap mc) x"
proof -
  obtain b szb where b: "Object b szb \<in> set cs" "x = b + 8" using x live_objects [OF ok] by (auto simp: fwd_word_def objects_def)
  have "b + 8 < b + szb" using heap_okD(8) [OF ok b(1)] by (simp add: object_ok_def header_size_def)
  with contiguous_bounds [OF heap_okD(1) [OF ok] b(1)] heap_okD(2) [OF ok] b(2) show ?thesis by (simp add: r_contains_def)
qed

subsection \<open>The collection\<close>

text \<open>C29.  On a well-formed heap a mark-sweep collection ends without a panic.  The live objects stay where
  they are with their contents and lose their marks, memory outside of the heap is unchanged, and the
  finalizers that remain are those of live objects.  Every other object is now a free block on the list
  of its size class; the lists are linked correctly, single words outside of all objects are null, and the
  heap can still be walked.\<close>

theorem mark_sweep_reclaims_garbage:
  assumes "heap_ok cls (mc_of ms) cs" and "fillers_ok cls fs" and "ms_free_list ms = free_list_new"
  shows "\<exists>ms' cs' bss. ms_collect cls fs ms = ret ms'
    \<and> contiguous (r_start (ms_heap ms)) cs' (r_end (ms_heap ms)) \<and> (\<forall>c\<in>set cs'. cell_shape cls (ms_memory ms') c)
    \<and> objects cs' = live cls (mc_of ms) \<union> blocks bss \<and> live cls (mc_of ms) \<inter> blocks bss = {}
    \<and> free_list_ok cls (ms_memory ms') (ms_free_list ms') bss
    \<and> (\<forall>a sz. Object a sz \<in> set cs \<and> a \<in> live cls (mc_of ms) \<longrightarrow> Object a sz \<in> set cs' \<and> \<not> is_marked_non_atomic (ms_memory ms') a
         \<and> (\<forall>i < sz. i \<noteq> 8 \<longrightarrow> ms_memory ms' (a + i) = ms_memory ms (a + i)))
    \<and> (\<forall>x. \<not> r_contains (ms_heap ms) x \<longrightarrow> ms_memory ms' x = ms_memory ms x)
    \<and> ms_finalizers ms' = filter (\<lambda>(a, t). a \<in> live cls (mc_of ms)) (ms_finalizers ms)"
proof -
  note ok = assms(1)
  let ?mc = "mc_of ms" and ?L = "live cls (mc_of ms)" and ?fin = "filter (\<lambda>(a, t). a \<in> live cls (mc_of ms)) (ms_finalizers ms)"
  let ?mk = "mark_all ?L (ms_memory ms)"
  let ?ms = "ms\<lparr>ms_memory := ?mk, ms_finalizers := ?fin\<rparr>"
  have fields: "mc_heap ?mc = ms_heap ms" "mc_memory ?mc = ms_memory ms" "mc_init_top ?mc = r_end (ms_heap ms)"
    "mc_rootset ?mc = ms_rootset ms" "mc_readonly ?mc = ms_readonly ms" "mc_finalizers ?mc = ms_finalizers ms" by (simp_all add: mc_of_def)
  have "iterate_weak_roots (\<lambda>a. if is_marked_non_atomic ?mk a then Some a else None) (ms_finalizers ms) = map (\<lambda>(a, t). (a, t)) ?fin"
    using heap_okD(11) [OF ok] mark_all_marked [OF ok, of _ ?L] live_pos [OF ok] unfolding fields
    by (intro iterate_weak_roots_ok) auto
  then have weak: "ms_iterate_weak_refs (ms\<lparr>ms_memory := ?mk\<rparr>) = ?ms" by (simp add: ms_iterate_weak_refs_def)
  obtain m fl where sweep: "ms_sweep cls fs ?ms = ret (?ms\<lparr>ms_free_list := fl, ms_memory := m\<rparr>)"
    "sweeping cls ?mc cs [] [] (r_end (ms_heap ms)) addr_null (?ms\<lparr>ms_free_list := fl, ms_memory := m\<rparr>)"
    using ms_sweep_ok [OF ok assms(2), of ?ms] assms(3) by (auto simp: fields)
  have run: "ms_collect cls fs ms = ret (?ms\<lparr>ms_free_list := fl, ms_memory := m\<rparr>)"
    using marking_ok [OF ok] sweep(1) weak by (simp add: ms_collect_def ms_mark_def fields ret_def)
  obtain g cs' bss where st: "contiguous g [] (r_end (ms_heap ms))" "swept cls (r_start (ms_heap ms)) ?mk ?L cs g m fl cs' bss"
    "\<forall>x. x < r_start (ms_heap ms) \<or> g \<le> x \<longrightarrow> m x = ?mk x"
    using sweep(2) unfolding sweeping_def fields by auto
  have g: "g = r_end (ms_heap ms)" using st(1) by simp
  have mk: "?mk x = ms_memory ms x" if "x \<notin> fwd_word ` ?L" for x using that by (simp add: mark_all_def)
  have word: "m (a + i) = ms_memory ms (a + i)" if "Object a sz \<in> set cs" "a \<in> ?L" "i < sz" "i \<noteq> 8" for a sz i
    using st(2) that mk [of "a + i"] live_word [OF ok that(1-4)] unfolding swept_def by auto
  have out: "m x = ms_memory ms x" if "\<not> r_contains (ms_heap ms) x" for x
  proof -
    have "x < r_start (ms_heap ms) \<or> g \<le> x" using that g by (auto simp: r_contains_def)
    moreover have "x \<notin> fwd_word ` ?L" using live_word_inside [OF ok] that unfolding fields by blast
    ultimately show ?thesis using st(3) mk by metis
  qed
  show ?thesis
    using run st(2) word out live_objects [OF ok] unfolding swept_def g
    by (intro exI [of _ "?ms\<lparr>ms_free_list := fl, ms_memory := m\<rparr>"] exI [of _ cs'] exI [of _ bss]) auto
qed

text \<open>A live object between two dead ones.\<close>

definition demo_ms :: mark_sweep where
  "demo_ms = \<lparr>ms_heap = \<lparr>r_start = 1024, r_end = 1072\<rparr>, ms_readonly = \<lparr>r_start = 4096, r_end = 8192\<rparr>, ms_rootset = [8],
     ms_memory = (\<lambda>_. 0)(8 := 1040, 1024 := 5000, 1040 := 5000, 1056 := 5000), ms_finalizers = [(1024, 1), (1040, 2)],
     ms_free_list = free_list_new\<rparr>"

definition demo_ms_cells :: "cell list" where
  "demo_ms_cells = [Object 1024 16, Object 1040 16, Object 1056 16]"

lemma demo_ms_ok: "heap_ok filler_classes (mc_of demo_ms) demo_ms_cells"
proof -
  have objs: "objects demo_ms_cells = {1024, 1040, 1056}" by (auto simp: objects_def demo_ms_cells_def)
  have shape: "cell_shape filler_classes (ms_memory demo_ms) c" if "c \<in> set demo_ms_cells" for c
    using that by (auto simp: demo_ms_cells_def cell_shape_def demo_ms_def obj_size_def size_for_vtblptr_def vt_instance_size_def
        filler_classes_def vtblptr_def)
  have "object_ok filler_classes (mc_of demo_ms) demo_ms_cells a sz" if "Object a sz \<in> set demo_ms_cells" for a sz
    using that unfolding object_ok_def fields_ok_def
    by (auto simp: demo_ms_cells_def mc_of_def demo_ms_def fwd_word_def header_size_def visit_reference_fields_def visit_refs_def
        filler_classes_def visit_fixed_object_def vtblptr_def)
  with shape show ?thesis unfolding heap_ok_def
    by (simp add: mc_of_def objs ptr_ok_def) (simp add: demo_ms_def demo_ms_cells_def r_contains_def)
qed

theorem mark_sweep_reclaims_garbage_witness:
  "heap_ok filler_classes (mc_of demo_ms) demo_ms_cells \<and> fillers_ok filler_classes demo_fillers
   \<and> (\<exists>ms' bss. ms_collect filler_classes demo_fillers demo_ms = ret ms' \<and> ms_memory ms' 1040 = 5000 \<and> ms_finalizers ms' = [(1040, 2)]
        \<and> free_list_ok filler_classes (ms_memory ms') (ms_free_list ms') bss \<and> 1040 \<notin> blocks bss)"
proof -
  have fs: "fillers_ok filler_classes demo_fillers" "ms_free_list demo_ms = free_list_new"
    by (simp_all add: fillers_ok_def filler_classes_def demo_fillers_def header_size_def demo_ms_def)
  have live: "live filler_classes (mc_of demo_ms) = {1040}"
  proof
    show "live filler_classes (mc_of demo_ms) \<subseteq> {1040}"
      by (rule live_closed [OF demo_ms_ok])
        (auto simp: targets_def mc_of_def demo_ms_def obj_slots_def visit_reference_fields_def visit_refs_def vtblptr_def filler_classes_def
          visit_fixed_object_def)
    show "{1040} \<subseteq> live filler_classes (mc_of demo_ms)"
      using live_targets(1) [OF demo_ms_ok] by (auto simp: targets_def mc_of_def demo_ms_def r_contains_def)
  qed
  have obj: "Object 1040 16 \<in> set demo_ms_cells" by (simp add: demo_ms_cells_def)
  obtain ms' cs' bss where res: "ms_collect filler_classes demo_fillers demo_ms = ret ms'" "{1040} \<inter> blocks bss = {}"
    "free_list_ok filler_classes (ms_memory ms') (ms_free_list ms') bss"
    "\<forall>a sz. Object a sz \<in> set demo_ms_cells \<and> a \<in> {1040} \<longrightarrow> Object a sz \<in> set cs' \<and> \<not> is_marked_non_atomic (ms_memory ms') a
         \<and> (\<forall>i < sz. i \<noteq> 8 \<longrightarrow> ms_memory ms' (a + i) = ms_memory demo_ms (a + i))"
    "ms_finalizers ms' = filter (\<lambda>(a, t). a \<in> {1040}) (ms_finalizers demo_ms)"
    using mark_sweep_reclaims_garbage [OF demo_ms_ok fs] unfolding live by (elim exE conjE) (rule that)
  have "ms_memory ms' 1040 = 5000"
    using res(4) [rule_format, of 1040 16, THEN conjunct2, THEN conjunct2, rule_format, of 0] obj by (simp add: demo_ms_def)
  moreover have "ms_finalizers ms' = [(1040, 2)]" using res(5) by (simp add: demo_ms_def)
  ultimately show ?thesis using demo_ms_ok fs res(1-3) by blast
qed

end
