(* ===== verification/AsmBuffer.thy ===== *)
theory AsmBuffer
  imports Prelude
begin

text \<open>
  The code buffer the assemblers share (\<open>dora-asm/src/lib.rs\<close>): bytes, a position to write at, and
  labels with the offsets they are bound to.
\<close>

type_synonym asm_label = usize

record assembler_buffer =
  ab_code :: "u8 list"
  ab_position :: usize
  ab_labels :: "u32 option list"

definition buffer_new :: assembler_buffer where
  "buffer_new = \<lparr>ab_code = [], ab_position = 0, ab_labels = []\<rparr>"

text \<open>\<open>try_into().unwrap()\<close> from \<open>usize\<close> to \<open>u32\<close>.\<close>

definition try_u32 :: "usize \<Rightarrow> u32 result" where
  "try_u32 n = (if n < 2 ^ 32 then Inr (word_of_nat n) else Inl ExpectFailed)"

lemma try_u32_code [code]: "try_u32 n = (if int n < 2 ^ 32 then Inr (word_of_nat n) else Inl ExpectFailed)"
  by (simp add: try_u32_def)

definition buf_create_label :: "assembler_buffer \<Rightarrow> asm_label \<times> assembler_buffer" where
  "buf_create_label b = (length (ab_labels b), b\<lparr>ab_labels := ab_labels b @ [None]\<rparr>)"

definition buf_create_and_bind_label :: "assembler_buffer \<Rightarrow> (asm_label \<times> assembler_buffer) result" where
  "buf_create_and_bind_label b =
     rbind (try_u32 (ab_position b)) (\<lambda>pos.
     Inr (length (ab_labels b), b\<lparr>ab_labels := ab_labels b @ [Some pos]\<rparr>))"

definition buf_bind_label :: "asm_label \<Rightarrow> assembler_buffer \<Rightarrow> assembler_buffer result" where
  "buf_bind_label idx b =
     rbind (vec_get (ab_labels b) idx) (\<lambda>l.
     rbind (rassert (l = None)) (\<lambda>_.
     rbind (try_u32 (ab_position b)) (\<lambda>pos.
     Inr (b\<lparr>ab_labels := (ab_labels b)[idx := Some pos]\<rparr>))))"

definition buf_offset :: "asm_label \<Rightarrow> assembler_buffer \<Rightarrow> u32 option result" where
  "buf_offset idx b = vec_get (ab_labels b) idx"

definition buf_set_position :: "usize \<Rightarrow> assembler_buffer \<Rightarrow> assembler_buffer" where
  "buf_set_position pos b = b\<lparr>ab_position := pos\<rparr>"

definition buf_set_position_end :: "assembler_buffer \<Rightarrow> assembler_buffer" where
  "buf_set_position_end b = b\<lparr>ab_position := length (ab_code b)\<rparr>"

definition buf_emit_u8 :: "u8 \<Rightarrow> assembler_buffer \<Rightarrow> assembler_buffer result" where
  "buf_emit_u8 v b =
     rbind (if ab_position b = length (ab_code b) then Inr (ab_code b @ [v]) else vec_set (ab_code b) (ab_position b) v) (\<lambda>code.
     Inr (b\<lparr>ab_code := code, ab_position := ab_position b + 1\<rparr>))"

text \<open>Little-endian bytes.  Over existing code the bytes are written into the slice from the position
  on; the slice panics beyond the end, and the write fails when the slice is too short.\<close>

definition u32_bytes :: "u32 \<Rightarrow> u8 list" where
  "u32_bytes w = [ucast w, ucast (drop_bit 8 w), ucast (drop_bit 16 w), ucast (drop_bit 24 w)]"

definition u64_bytes :: "u64 \<Rightarrow> u8 list" where
  "u64_bytes w = map (\<lambda>i. ucast (drop_bit (8 * i) w)) [0..<8]"

definition write_slice :: "u8 list \<Rightarrow> usize \<Rightarrow> u8 list \<Rightarrow> u8 list result" where
  "write_slice code pos bs =
     (if length code < pos then Inl IndexOutOfBounds
      else if length code < pos + length bs then Inl ExpectFailed
      else Inr (take pos code @ bs @ drop (pos + length bs) code))"

definition buf_write :: "u8 list \<Rightarrow> assembler_buffer \<Rightarrow> assembler_buffer result" where
  "buf_write bs b =
     rbind (if ab_position b = length (ab_code b) then Inr (ab_code b @ bs) else write_slice (ab_code b) (ab_position b) bs) (\<lambda>code.
     Inr (b\<lparr>ab_code := code, ab_position := ab_position b + length bs\<rparr>))"

definition buf_emit_u32 :: "u32 \<Rightarrow> assembler_buffer \<Rightarrow> assembler_buffer result" where
  "buf_emit_u32 w = buf_write (u32_bytes w)"

definition buf_emit_u64 :: "u64 \<Rightarrow> assembler_buffer \<Rightarrow> assembler_buffer result" where
  "buf_emit_u64 w = buf_write (u64_bytes w)"

subsection \<open>Reading back\<close>

definition bytes_u32 :: "u8 list \<Rightarrow> u32" where
  "bytes_u32 bs = ucast (bs ! 0) OR push_bit 8 (ucast (bs ! 1)) OR push_bit 16 (ucast (bs ! 2)) OR push_bit 24 (ucast (bs ! 3))"

definition word_at :: "u8 list \<Rightarrow> usize \<Rightarrow> u32" where
  "word_at code pos = bytes_u32 (drop pos code)"

lemma length_u32_bytes [simp]: "length (u32_bytes w) = 4"
  by (simp add: u32_bytes_def)

lemma bytes_u32_bytes [simp]: "bytes_u32 (u32_bytes w @ bs) = w"
proof (rule bit_word_eqI)
  fix n assume "n < LENGTH(32)"
  then have "n < 8 \<or> 8 \<le> n \<and> n < 16 \<or> 16 \<le> n \<and> n < 24 \<or> 24 \<le> n \<and> n < 32" by auto
  then show "bit (bytes_u32 (u32_bytes w @ bs)) n = bit w n"
    by (auto simp: bytes_u32_def u32_bytes_def bit_simps)
qed

lemma word_at_written [simp]: "pos = length xs \<Longrightarrow> word_at (xs @ u32_bytes w @ ys) pos = w"
  by (simp add: word_at_def)

text \<open>A word outside of the four bytes that are written is kept.\<close>

lemma word_at_kept:
  assumes "p + 4 \<le> pos \<or> pos + length bs \<le> p" "p + 4 \<le> length code" "pos + length bs \<le> length code"
  shows "word_at (take pos code @ bs @ drop (pos + length bs) code) p = word_at code p"
proof -
  define c where "c = take pos code @ bs @ drop (pos + length bs) code"
  have "c ! (p + i) = code ! (p + i)" if "i < 4" for i
    using assms that by (auto simp: c_def nth_append min_def)
  moreover have "p \<le> length c" using assms by (auto simp: c_def)
  ultimately have "drop p c ! i = drop p code ! i" if "i < 4" for i using assms that by simp
  then show ?thesis unfolding c_def [symmetric] by (simp add: word_at_def bytes_u32_def)
qed

lemma word_at_append: "p + 4 \<le> length code \<Longrightarrow> word_at (code @ bs) p = word_at code p"
  by (simp add: word_at_def bytes_u32_def nth_append)

end
