(* ===== verification/Arm64Inst.thy ===== *)
theory Arm64Inst
  imports Prelude
begin

text \<open>
  The encoders of arm64 instructions (\<open>dora-asm/src/arm64.rs\<close>): registers, conditions, the range checks
  on operands, and one function per instruction class of the module \<open>cls\<close>.  An encoder asserts that its
  operands are in range and combines them, shifted to their places, with bitwise or; the list of
  \<open>pack\<close> has the operands of this expression in the order of the code.
\<close>

subsection \<open>Registers\<close>

datatype register = Register (reg_no: u8)

definition REG_ZERO :: register where "REG_ZERO = Register 100"
definition REG_SP :: register where "REG_SP = Register 101"

definition register_new :: "u8 \<Rightarrow> register result" where
  "register_new v = rbind (rassert (v < 31)) (\<lambda>_. Inr (Register v))"

definition is_gpr :: "register \<Rightarrow> bool" where
  "is_gpr r = (reg_no r \<le> 30)"

definition is_gpr_or_zero :: "register \<Rightarrow> bool" where
  "is_gpr_or_zero r = (reg_no r \<le> 30 \<or> r = REG_ZERO)"

definition is_gpr_or_sp :: "register \<Rightarrow> bool" where
  "is_gpr_or_sp r = (reg_no r \<le> 30 \<or> r = REG_SP)"

definition encoding :: "register \<Rightarrow> u32 result" where
  "encoding r = rbind (rassert (is_gpr r)) (\<lambda>_. Inr (ucast (reg_no r)))"

definition encoding_zero :: "register \<Rightarrow> u32 result" where
  "encoding_zero r = rbind (rassert (is_gpr_or_zero r)) (\<lambda>_. Inr (if is_gpr r then ucast (reg_no r) else 31))"

definition encoding_sp :: "register \<Rightarrow> u32 result" where
  "encoding_sp r = rbind (rassert (is_gpr_or_sp r)) (\<lambda>_. Inr (if is_gpr r then ucast (reg_no r) else 31))"

definition encoding_zero_or_sp :: "register \<Rightarrow> u32 result" where
  "encoding_zero_or_sp r =
     (if is_gpr r then Inr (ucast (reg_no r)) else if r = REG_ZERO \<or> r = REG_SP then Inr 31 else Inl Unreachable)"

definition encoding_rn :: "register \<Rightarrow> u32 result" where
  "encoding_rn r = rbind (rassert (is_gpr r)) (\<lambda>_. rbind (encoding r) (\<lambda>e. Inr (push_bit 5 e)))"

datatype neon_register = NeonRegister (neon_no: u8)

definition neon_register_new :: "u8 \<Rightarrow> neon_register result" where
  "neon_register_new v = rbind (rassert (v < 32)) (\<lambda>_. Inr (NeonRegister v))"

definition neon_encoding :: "neon_register \<Rightarrow> u32" where
  "neon_encoding r = ucast (neon_no r)"

subsection \<open>Conditions, extensions and shifts\<close>

datatype cond = EQ | NE | CS | HS | CC | LO | MI | PL | VS | VC | HI | LS | GE | LT | GT | LE

fun cond_invert :: "cond \<Rightarrow> cond" where
  "cond_invert EQ = NE"
| "cond_invert NE = EQ"
| "cond_invert CS = CC"
| "cond_invert HS = CC"
| "cond_invert CC = CS"
| "cond_invert LO = CS"
| "cond_invert MI = PL"
| "cond_invert PL = MI"
| "cond_invert VS = VC"
| "cond_invert VC = VS"
| "cond_invert HI = LS"
| "cond_invert LS = HI"
| "cond_invert GE = LT"
| "cond_invert LT = GE"
| "cond_invert GT = LE"
| "cond_invert LE = GT"

fun cond_u32 :: "cond \<Rightarrow> u32" where
  "cond_u32 EQ = 0b0000"
| "cond_u32 NE = 0b0001"
| "cond_u32 CS = 0b0010"
| "cond_u32 HS = 0b0010"
| "cond_u32 CC = 0b0011"
| "cond_u32 LO = 0b0011"
| "cond_u32 MI = 0b0100"
| "cond_u32 PL = 0b0101"
| "cond_u32 VS = 0b0110"
| "cond_u32 VC = 0b0111"
| "cond_u32 HI = 0b1000"
| "cond_u32 LS = 0b1001"
| "cond_u32 GE = 0b1010"
| "cond_u32 LT = 0b1011"
| "cond_u32 GT = 0b1100"
| "cond_u32 LE = 0b1101"

datatype extend = UXTB | UXTH | LSL_ext | UXTW | UXTX | SXTB | SXTH | SXTW | SXTX

fun extend_encoding :: "extend \<Rightarrow> u32" where
  "extend_encoding UXTB = 0b000"
| "extend_encoding UXTH = 0b001"
| "extend_encoding LSL_ext = 0b010"
| "extend_encoding UXTW = 0b010"
| "extend_encoding UXTX = 0b011"
| "extend_encoding SXTB = 0b100"
| "extend_encoding SXTH = 0b101"
| "extend_encoding SXTW = 0b110"
| "extend_encoding SXTX = 0b111"

definition ldst_encoding :: "extend \<Rightarrow> u32 result" where
  "ldst_encoding e = (case e of UXTW \<Rightarrow> Inr 0b010 | LSL_ext \<Rightarrow> Inr 0b011 | SXTW \<Rightarrow> Inr 0b110 | SXTX \<Rightarrow> Inr 0b111 | _ \<Rightarrow> Inl Unreachable)"

datatype shift = LSL | LSR | ASR | ROR

definition is_ror :: "shift \<Rightarrow> bool" where
  "is_ror s = (case s of ROR \<Rightarrow> True | _ \<Rightarrow> False)"

definition shift_u32 :: "shift \<Rightarrow> u32" where
  "shift_u32 s = (case s of LSL \<Rightarrow> 0 | LSR \<Rightarrow> 1 | ASR \<Rightarrow> 2 | ROR \<Rightarrow> 3)"

subsection \<open>Ranges of operands\<close>

definition fits_bit :: "u32 \<Rightarrow> bool" where "fits_bit imm = (imm < 2 ^ 1)"
definition fits_i7 :: "int \<Rightarrow> bool" where "fits_i7 imm = (- (2 ^ 6) \<le> imm \<and> imm < 2 ^ 6)"
definition fits_i9 :: "int \<Rightarrow> bool" where "fits_i9 imm = (- (2 ^ 8) \<le> imm \<and> imm < 2 ^ 8)"
definition fits_i19 :: "int \<Rightarrow> bool" where "fits_i19 imm = (- (2 ^ 18) \<le> imm \<and> imm < 2 ^ 18)"
definition fits_i21 :: "int \<Rightarrow> bool" where "fits_i21 imm = (- (2 ^ 20) \<le> imm \<and> imm < 2 ^ 20)"
definition fits_i26 :: "int \<Rightarrow> bool" where "fits_i26 imm = (- (2 ^ 25) \<le> imm \<and> imm < 2 ^ 25)"
definition fits_u2 :: "u32 \<Rightarrow> bool" where "fits_u2 imm = (imm < 2 ^ 2)"
definition fits_u3 :: "u32 \<Rightarrow> bool" where "fits_u3 imm = (imm < 2 ^ 3)"
definition fits_u4 :: "u32 \<Rightarrow> bool" where "fits_u4 imm = (imm < 2 ^ 4)"
definition fits_u5 :: "u32 \<Rightarrow> bool" where "fits_u5 imm = (imm < 2 ^ 5)"
definition fits_u6 :: "u32 \<Rightarrow> bool" where "fits_u6 imm = (imm < 2 ^ 6)"
definition fits_u7 :: "u32 \<Rightarrow> bool" where "fits_u7 imm = (imm < 2 ^ 7)"
definition fits_u12 :: "u32 \<Rightarrow> bool" where "fits_u12 imm = (imm < 2 ^ 12)"
definition fits_u13 :: "u32 \<Rightarrow> bool" where "fits_u13 imm = (imm < 2 ^ 13)"
definition fits_u16 :: "u32 \<Rightarrow> bool" where "fits_u16 imm = (imm < 2 ^ 16)"

lemmas fits_defs = fits_bit_def fits_i7_def fits_i9_def fits_i19_def fits_i21_def fits_i26_def fits_u2_def fits_u3_def fits_u4_def
  fits_u5_def fits_u6_def fits_u7_def fits_u12_def fits_u13_def fits_u16_def

subsection \<open>Combining fields\<close>

text \<open>\<open>a << i | b << j | ...\<close>, evaluated from the left; an operand may panic.\<close>

fun pack :: "(u32 result \<times> nat) list \<Rightarrow> u32 result" where
  "pack [] = Inr 0"
| "pack ((v, k) # fs) = rbind v (\<lambda>v. rbind (pack fs) (\<lambda>w. Inr (push_bit k v OR w)))"

subsection \<open>Instruction classes\<close>

definition cls_addsub_extreg ::
  "u32 \<Rightarrow> u32 \<Rightarrow> u32 \<Rightarrow> u32 \<Rightarrow> register \<Rightarrow> extend \<Rightarrow> u32 \<Rightarrow> register \<Rightarrow> register \<Rightarrow> u32 result" where
  "cls_addsub_extreg sf op s opt rm option imm3 rn rd =
     rbind (rassert (fits_bit sf \<and> fits_bit op \<and> fits_bit s \<and> opt = 0 \<and> is_gpr_or_zero rm \<and> fits_u2 imm3 \<and> is_gpr_or_sp rn \<and>
      (if s \<noteq> 0 then is_gpr_or_zero rd else is_gpr_or_sp rd))) (\<lambda>_.
     pack [(Inr sf, 31), (Inr op, 30), (Inr s, 29), (Inr 0b01011, 24), (Inr opt, 22), (Inr 1, 21),
           (encoding_zero rm, 16), (Inr (extend_encoding option), 13), (Inr imm3, 10), (encoding_sp rn, 5),
           (encoding_zero_or_sp rd, 0)])"

definition cls_addsub_shreg :: "u32 \<Rightarrow> u32 \<Rightarrow> u32 \<Rightarrow> shift \<Rightarrow> register \<Rightarrow> u32 \<Rightarrow> register \<Rightarrow> register \<Rightarrow> u32 result" where
  "cls_addsub_shreg sf op s shift rm imm6 rn rd =
     rbind (rassert (fits_bit sf \<and> fits_bit op \<and> fits_bit s \<and> \<not> is_ror shift \<and> is_gpr rm \<and> fits_u6 imm6 \<and>
      is_gpr_or_zero rn \<and> is_gpr_or_zero rd)) (\<lambda>_.
     pack [(Inr 0b01011, 24), (Inr sf, 31), (Inr op, 30), (Inr s, 29), (Inr (shift_u32 shift), 22),
           (encoding rm, 16), (Inr imm6, 10), (encoding_zero rn, 5), (encoding_zero rd, 0)])"

definition cls_addsub_imm :: "u32 \<Rightarrow> u32 \<Rightarrow> u32 \<Rightarrow> u32 \<Rightarrow> u32 \<Rightarrow> register \<Rightarrow> register \<Rightarrow> u32 result" where
  "cls_addsub_imm sf op s shift imm12 rn rd =
     rbind (rassert (fits_bit sf \<and> fits_bit op \<and> fits_bit s \<and> fits_bit shift \<and> fits_u12 imm12 \<and> is_gpr_or_sp rn)) (\<lambda>_.
     rbind (if s \<noteq> 0 then rbind (rassert (is_gpr_or_zero rd)) (\<lambda>_. encoding_zero rd)
       else rbind (rassert (is_gpr_or_sp rd)) (\<lambda>_. encoding_sp rd)) (\<lambda>rd.
     pack [(Inr 0b10001, 24), (Inr sf, 31), (Inr op, 30), (Inr s, 29), (Inr shift, 22), (Inr imm12, 10),
           (encoding_sp rn, 5), (Inr rd, 0)]))"

definition cls_atomic_op :: "u32 \<Rightarrow> u32 \<Rightarrow> u32 \<Rightarrow> u32 \<Rightarrow> register \<Rightarrow> u32 \<Rightarrow> u32 \<Rightarrow> register \<Rightarrow> register \<Rightarrow> u32 result" where
  "cls_atomic_op sz v a r rs o3 opc rn rt =
     rbind (rassert (is_gpr rs \<and> is_gpr rn \<and> is_gpr rt)) (\<lambda>_.
     pack [(Inr sz, 30), (Inr 0b111, 27), (Inr v, 26), (Inr a, 23), (Inr r, 22), (Inr 1, 21),
           (encoding rs, 16), (Inr o3, 15), (Inr opc, 12), (encoding rn, 5), (encoding rt, 0)])"

definition cls_bitfield :: "u32 \<Rightarrow> u32 \<Rightarrow> u32 \<Rightarrow> u32 \<Rightarrow> u32 \<Rightarrow> register \<Rightarrow> register \<Rightarrow> u32 result" where
  "cls_bitfield sf opc n immr imms rn rd =
     rbind (rassert (fits_bit sf \<and> fits_u2 opc \<and> fits_bit n \<and> fits_u6 immr \<and> fits_u6 imms \<and> is_gpr rn \<and> is_gpr rd)) (\<lambda>_.
     pack [(Inr sf, 31), (Inr opc, 29), (Inr 0b100110, 23), (Inr n, 22), (Inr (immr AND 0x3F), 16),
           (Inr (imms AND 0x3F), 10), (encoding rn, 5), (encoding rd, 0)])"

definition cls_cmp_branch_imm :: "u32 \<Rightarrow> u32 \<Rightarrow> register \<Rightarrow> int \<Rightarrow> u32 result" where
  "cls_cmp_branch_imm sf op rt imm19 =
     rbind (rassert (fits_bit sf \<and> fits_bit op \<and> fits_i19 imm19 \<and> is_gpr rt)) (\<lambda>_.
     let imm = i32_as_u32 imm19 AND 0x7FFFF in
     pack [(Inr sf, 31), (Inr 0b011010, 25), (Inr op, 24), (Inr imm, 5), (encoding rt, 0)])"

definition cls_cond_branch_imm :: "cond \<Rightarrow> int \<Rightarrow> u32 result" where
  "cls_cond_branch_imm cond imm19 =
     rbind (rassert (fits_i19 imm19)) (\<lambda>_.
     let imm = i32_as_u32 imm19 AND 0x7FFFF in
     pack [(Inr 0b01010100, 24), (Inr imm, 5), (Inr (cond_u32 cond), 0)])"

definition cls_csel :: "u32 \<Rightarrow> u32 \<Rightarrow> u32 \<Rightarrow> register \<Rightarrow> cond \<Rightarrow> u32 \<Rightarrow> register \<Rightarrow> register \<Rightarrow> u32 result" where
  "cls_csel sf op s rm cond op2 rn rd =
     rbind (rassert (fits_bit sf \<and> fits_bit op \<and> fits_bit s \<and> is_gpr_or_zero rm \<and> fits_bit op2 \<and> is_gpr_or_zero rn \<and>
      is_gpr rd)) (\<lambda>_.
     pack [(Inr 0b11010100, 21), (Inr sf, 31), (Inr op, 30), (Inr s, 29), (encoding_zero rm, 16),
           (Inr (cond_u32 cond), 12), (Inr op2, 10), (encoding_zero rn, 5), (encoding rd, 0)])"

definition cls_dataproc1 :: "u32 \<Rightarrow> u32 \<Rightarrow> u32 \<Rightarrow> u32 \<Rightarrow> register \<Rightarrow> register \<Rightarrow> u32 result" where
  "cls_dataproc1 sf s opcode2 opcode rn rd =
     rbind (rassert (fits_bit sf \<and> fits_bit sf \<and> fits_u5 opcode2 \<and> fits_u6 opcode \<and> is_gpr rn \<and> is_gpr rd)) (\<lambda>_.
     pack [(Inr sf, 31), (Inr 1, 30), (Inr s, 29), (Inr 0b11010110, 21), (Inr opcode2, 16), (Inr opcode, 10),
           (encoding rn, 5), (encoding rd, 0)])"

definition cls_dataproc2 :: "u32 \<Rightarrow> u32 \<Rightarrow> register \<Rightarrow> u32 \<Rightarrow> register \<Rightarrow> register \<Rightarrow> u32 result" where
  "cls_dataproc2 sf s rm opcode rn rd =
     rbind (rassert (fits_bit sf \<and> fits_bit s \<and> is_gpr rm \<and> fits_u6 opcode \<and> is_gpr rn \<and> is_gpr rd)) (\<lambda>_.
     pack [(Inr sf, 31), (Inr s, 29), (Inr 0b11010110, 21), (encoding rm, 16), (Inr opcode, 10),
           (encoding rn, 5), (encoding rd, 0)])"

definition cls_dataproc3 :: "u32 \<Rightarrow> u32 \<Rightarrow> u32 \<Rightarrow> register \<Rightarrow> u32 \<Rightarrow> register \<Rightarrow> register \<Rightarrow> register \<Rightarrow> u32 result" where
  "cls_dataproc3 sf op54 op31 rm o0 ra rn rd =
     rbind (rassert (fits_bit sf \<and> fits_u2 op54 \<and> fits_u3 op31 \<and> is_gpr rm \<and> fits_bit o0 \<and> is_gpr_or_zero ra \<and> is_gpr rn \<and>
      is_gpr rd)) (\<lambda>_.
     pack [(Inr sf, 31), (Inr op54, 29), (Inr 0b11011, 24), (Inr op31, 21), (encoding rm, 16), (Inr o0, 15),
           (encoding_zero ra, 10), (encoding rn, 5), (encoding rd, 0)])"

definition cls_exception :: "u32 \<Rightarrow> u32 \<Rightarrow> u32 \<Rightarrow> u32 \<Rightarrow> u32 result" where
  "cls_exception opc imm16 op2 ll =
     rbind (rassert (fits_u3 opc \<and> fits_u16 imm16 \<and> op2 = 0 \<and> fits_u2 ll)) (\<lambda>_.
     pack [(Inr 0b11010100, 24), (Inr opc, 21), (Inr imm16, 5), (Inr op2, 2), (Inr ll, 0)])"

definition cls_fp_compare :: "u32 \<Rightarrow> u32 \<Rightarrow> u32 \<Rightarrow> neon_register \<Rightarrow> u32 \<Rightarrow> neon_register \<Rightarrow> u32 \<Rightarrow> u32 result" where
  "cls_fp_compare m s ty rm op rn opcode2 =
     rbind (rassert (m = 0 \<and> s = 0 \<and> fits_bit ty \<and> fits_u2 op \<and> fits_u5 opcode2)) (\<lambda>_.
     pack [(Inr m, 31), (Inr s, 29), (Inr 0b11110, 24), (Inr ty, 22), (Inr 1, 21),
           (Inr (neon_encoding rm), 16), (Inr op, 14), (Inr 0b1000, 10), (Inr (neon_encoding rn), 5),
           (Inr opcode2, 0)])"

definition cls_fp_dataproc1 :: "u32 \<Rightarrow> u32 \<Rightarrow> u32 \<Rightarrow> u32 \<Rightarrow> neon_register \<Rightarrow> neon_register \<Rightarrow> u32 result" where
  "cls_fp_dataproc1 m s ty opcode rn rd =
     rbind (rassert (m = 0 \<and> s = 0 \<and> fits_u2 ty \<and> fits_u6 opcode)) (\<lambda>_.
     pack [(Inr m, 31), (Inr s, 29), (Inr 0b11110, 24), (Inr ty, 22), (Inr 1, 21), (Inr opcode, 15),
           (Inr 0b10000, 10), (Inr (neon_encoding rn), 5), (Inr (neon_encoding rd), 0)])"

definition cls_fp_dataproc2 ::
  "u32 \<Rightarrow> u32 \<Rightarrow> u32 \<Rightarrow> neon_register \<Rightarrow> u32 \<Rightarrow> neon_register \<Rightarrow> neon_register \<Rightarrow> u32 result" where
  "cls_fp_dataproc2 m s ty rm opcode rn rd =
     rbind (rassert (m = 0 \<and> s = 0 \<and> fits_bit ty \<and> fits_u4 opcode)) (\<lambda>_.
     pack [(Inr m, 31), (Inr s, 29), (Inr 0b11110, 24), (Inr ty, 22), (Inr 1, 21),
           (Inr (neon_encoding rm), 16), (Inr opcode, 12), (Inr 0b10, 10), (Inr (neon_encoding rn), 5),
           (Inr (neon_encoding rd), 0)])"

definition cls_fp_int :: "u32 \<Rightarrow> u32 \<Rightarrow> u32 \<Rightarrow> u32 \<Rightarrow> u32 \<Rightarrow> u32 \<Rightarrow> u32 \<Rightarrow> u32 result" where
  "cls_fp_int sf s ty rmode opcode rn rd =
     rbind (rassert (fits_bit sf \<and> fits_bit s \<and> fits_u2 ty \<and> fits_u2 rmode \<and> fits_u3 opcode \<and> fits_u5 rn \<and> fits_u5 rd)) (\<lambda>_.
     pack [(Inr sf, 31), (Inr s, 29), (Inr 0b11110, 24), (Inr ty, 22), (Inr 1, 21), (Inr rmode, 19),
           (Inr opcode, 16), (Inr rn, 5), (Inr rd, 0)])"

definition cls_ldst_exclusive ::
  "u32 \<Rightarrow> u32 \<Rightarrow> u32 \<Rightarrow> u32 \<Rightarrow> register \<Rightarrow> u32 \<Rightarrow> register \<Rightarrow> register \<Rightarrow> register \<Rightarrow> u32 result" where
  "cls_ldst_exclusive sz o2 l o1 rs o0 rt2 rn rt =
     rbind (rassert (is_gpr_or_zero rs \<and> is_gpr_or_zero rt2 \<and> is_gpr_or_sp rn \<and> is_gpr_or_zero rt)) (\<lambda>_.
     pack [(Inr sz, 30), (Inr 0b001000, 24), (Inr o2, 23), (Inr l, 22), (Inr o1, 21), (encoding_zero rs, 16),
           (Inr o0, 15), (encoding_zero rt2, 10), (encoding_sp rn, 5), (encoding_zero rt, 0)])"

definition cls_ldst_pair :: "u32 \<Rightarrow> u32 \<Rightarrow> u32 \<Rightarrow> int \<Rightarrow> register \<Rightarrow> register \<Rightarrow> register \<Rightarrow> u32 result" where
  "cls_ldst_pair opc v l imm7 rt2 rn rt =
     rbind (rassert (fits_u2 opc \<and> fits_bit v \<and> fits_bit l \<and> fits_i7 imm7 \<and> is_gpr rt2 \<and> is_gpr_or_sp rn \<and> is_gpr rt)) (\<lambda>_.
     let imm = i32_as_u32 imm7 AND 0x7F in
     pack [(Inr opc, 30), (Inr 0b101, 27), (Inr 1, 24), (Inr l, 22), (Inr imm, 15), (encoding rt2, 10),
           (encoding_sp rn, 5), (encoding rt, 0)])"

definition cls_ldst_pair_post :: "u32 \<Rightarrow> u32 \<Rightarrow> u32 \<Rightarrow> int \<Rightarrow> register \<Rightarrow> register \<Rightarrow> register \<Rightarrow> u32 result" where
  "cls_ldst_pair_post opc v l imm7 rt2 rn rt =
     rbind (rassert (fits_u2 opc \<and> fits_bit v \<and> fits_bit l \<and> fits_i7 imm7 \<and> is_gpr rt2 \<and> is_gpr_or_sp rn \<and> is_gpr rt)) (\<lambda>_.
     let imm7 = i32_as_u32 imm7 AND 0x7F in
     pack [(Inr opc, 30), (Inr 0b101, 27), (Inr v, 26), (Inr 0b001, 23), (Inr l, 22), (Inr imm7, 15),
           (encoding rt2, 10), (encoding_sp rn, 5), (encoding rt, 0)])"

definition cls_ldst_pair_pre :: "u32 \<Rightarrow> u32 \<Rightarrow> u32 \<Rightarrow> int \<Rightarrow> register \<Rightarrow> register \<Rightarrow> register \<Rightarrow> u32 result" where
  "cls_ldst_pair_pre opc v l imm7 rt2 rn rt =
     rbind (rassert (fits_u2 opc \<and> fits_bit v \<and> fits_bit l \<and> fits_i7 imm7 \<and> is_gpr rt2 \<and> is_gpr_or_sp rn \<and> is_gpr rt)) (\<lambda>_.
     let imm7 = i32_as_u32 imm7 AND 0x7F in
     pack [(Inr opc, 30), (Inr 0b101, 27), (Inr v, 26), (Inr 0b011, 23), (Inr l, 22), (Inr imm7, 15),
           (encoding rt2, 10), (encoding_sp rn, 5), (encoding rt, 0)])"

definition cls_logical_imm :: "u32 \<Rightarrow> u32 \<Rightarrow> u32 \<Rightarrow> register \<Rightarrow> register \<Rightarrow> u32 result" where
  "cls_logical_imm sf opc n_immr_imms rn rd =
     rbind (rassert (fits_bit sf \<and> fits_u2 opc \<and> fits_u13 n_immr_imms \<and> is_gpr rn \<and> is_gpr rd)) (\<lambda>_.
     pack [(Inr sf, 31), (Inr opc, 29), (Inr 0b100100, 23), (Inr n_immr_imms, 10), (encoding rn, 5),
           (encoding rd, 0)])"

definition cls_logical_shreg :: "u32 \<Rightarrow> u32 \<Rightarrow> shift \<Rightarrow> u32 \<Rightarrow> register \<Rightarrow> u32 \<Rightarrow> register \<Rightarrow> register \<Rightarrow> u32 result" where
  "cls_logical_shreg sf opc shift n rm imm6 rn rd =
     rbind (rassert (fits_bit sf \<and> fits_u2 opc \<and> fits_bit n \<and> is_gpr_or_zero rm \<and> fits_u5 imm6 \<and> is_gpr_or_zero rn \<and>
      is_gpr rd)) (\<lambda>_.
     pack [(Inr 0b01010, 24), (Inr sf, 31), (Inr opc, 29), (Inr (shift_u32 shift), 22), (Inr n, 21),
           (encoding_zero rm, 16), (Inr imm6, 10), (encoding_zero rn, 5), (encoding rd, 0)])"

definition cls_move_wide_imm :: "u32 \<Rightarrow> u32 \<Rightarrow> u32 \<Rightarrow> u32 \<Rightarrow> register \<Rightarrow> u32 result" where
  "cls_move_wide_imm sf opc hw imm16 rd =
     rbind (rassert (fits_bit sf \<and> fits_u2 opc \<and> fits_u2 hw \<and> (sf = 0 \<longrightarrow> fits_bit hw) \<and> fits_u16 imm16 \<and> is_gpr rd)) (\<lambda>_.
     pack [(Inr 0b100101, 23), (Inr sf, 31), (Inr opc, 29), (Inr hw, 21), (Inr imm16, 5), (encoding rd, 0)])"

definition cls_ldst_regimm :: "u32 \<Rightarrow> u32 \<Rightarrow> u32 \<Rightarrow> u32 \<Rightarrow> register \<Rightarrow> u32 \<Rightarrow> u32 result" where
  "cls_ldst_regimm sz v opc imm12 rn rt =
     rbind (rassert (fits_u2 sz \<and> fits_bit v \<and> fits_u2 opc \<and> fits_u12 imm12 \<and> is_gpr_or_sp rn \<and> fits_u5 rt)) (\<lambda>_.
     pack [(Inr 0b111001, 24), (Inr sz, 30), (Inr v, 26), (Inr opc, 22), (Inr imm12, 10),
           (encoding_sp rn, 5), (Inr rt, 0)])"

definition cls_ldst_regoffset :: "u32 \<Rightarrow> u32 \<Rightarrow> u32 \<Rightarrow> register \<Rightarrow> extend \<Rightarrow> u32 \<Rightarrow> register \<Rightarrow> u32 \<Rightarrow> u32 result" where
  "cls_ldst_regoffset sz v opc rm option s rn rt =
     rbind (rassert (fits_u2 sz \<and> fits_bit v \<and> fits_u2 opc \<and> is_gpr_or_zero rm \<and> fits_bit s \<and> is_gpr_or_sp rn \<and> fits_u5 rt)) (\<lambda>_.
     pack [(Inr 0b111, 27), (Inr 1, 21), (Inr 0b10, 10), (Inr sz, 30), (Inr v, 26), (Inr opc, 22),
           (encoding_zero rm, 16), (ldst_encoding option, 13), (Inr s, 12), (encoding_sp rn, 5), (Inr rt, 0)])"

definition cls_ldst_reg_unscaledimm :: "u32 \<Rightarrow> u32 \<Rightarrow> u32 \<Rightarrow> int \<Rightarrow> register \<Rightarrow> u32 \<Rightarrow> u32 result" where
  "cls_ldst_reg_unscaledimm sz v opc imm9 rn rt =
     rbind (rassert (fits_u2 sz \<and> fits_bit v \<and> fits_u2 opc \<and> fits_i9 imm9 \<and> is_gpr_or_sp rn \<and> fits_u5 rt)) (\<lambda>_.
     let imm = i32_as_u32 imm9 AND 0x1FF in
     pack [(Inr sz, 30), (Inr 0b111, 27), (Inr v, 26), (Inr opc, 22), (Inr imm, 12), (encoding_sp rn, 5),
           (Inr rt, 0)])"

definition cls_simd_across_lanes :: "u32 \<Rightarrow> u32 \<Rightarrow> u32 \<Rightarrow> u32 \<Rightarrow> neon_register \<Rightarrow> neon_register \<Rightarrow> u32 result" where
  "cls_simd_across_lanes q u sz opcode rn rd =
     rbind (rassert (fits_bit q \<and> fits_bit u \<and> fits_u2 sz \<and> fits_u5 opcode)) (\<lambda>_.
     pack [(Inr q, 30), (Inr u, 29), (Inr 0b01110, 24), (Inr sz, 22), (Inr 0b11000, 17), (Inr opcode, 12),
           (Inr 0b10, 10), (Inr (neon_encoding rn), 5), (Inr (neon_encoding rd), 0)])"

definition cls_pcrel :: "u32 \<Rightarrow> int \<Rightarrow> register \<Rightarrow> u32 result" where
  "cls_pcrel op imm rd =
     rbind (rassert (fits_i21 imm \<and> fits_bit op \<and> is_gpr rd)) (\<lambda>_.
     let imm = i32_as_u32 imm in
     let immlo = imm AND 3 in
     let immhi = drop_bit 2 imm AND 0x7FFFF in
     pack [(Inr 1, 28), (Inr op, 31), (Inr immlo, 29), (Inr immhi, 5), (encoding rd, 0)])"

definition cls_simd_2regs_misc :: "u32 \<Rightarrow> u32 \<Rightarrow> u32 \<Rightarrow> u32 \<Rightarrow> neon_register \<Rightarrow> neon_register \<Rightarrow> u32 result" where
  "cls_simd_2regs_misc q u sz opcode rn rd =
     rbind (rassert (fits_bit q \<and> fits_bit u \<and> fits_u2 sz \<and> fits_u5 opcode)) (\<lambda>_.
     pack [(Inr q, 30), (Inr u, 29), (Inr 0b01110, 24), (Inr sz, 22), (Inr 0b10000, 17), (Inr opcode, 12),
           (Inr 0b10, 10), (Inr (neon_encoding rn), 5), (Inr (neon_encoding rd), 0)])"

definition cls_system :: "u32 \<Rightarrow> u32 result" where
  "cls_system imm =
     rbind (rassert (fits_u7 imm)) (\<lambda>_.
     pack [(Inr 0xD503201F, 0), (Inr imm, 5)])"

definition cls_uncond_branch_imm :: "u32 \<Rightarrow> int \<Rightarrow> u32 result" where
  "cls_uncond_branch_imm op imm26 =
     rbind (rassert (fits_bit op \<and> fits_i26 imm26)) (\<lambda>_.
     pack [(Inr 0b101, 26), (Inr op, 31), (Inr (i32_as_u32 imm26 AND 0x3FFFFFF), 0)])"

definition cls_uncond_branch_reg :: "u32 \<Rightarrow> u32 \<Rightarrow> u32 \<Rightarrow> register \<Rightarrow> u32 \<Rightarrow> u32 result" where
  "cls_uncond_branch_reg opc op2 op3 rn op4 =
     rbind (rassert (fits_u4 opc \<and> fits_u5 op2 \<and> fits_u6 op3 \<and> fits_u5 op4)) (\<lambda>_.
     pack [(Inr 0b1101011, 25), (Inr opc, 21), (Inr op2, 16), (Inr op3, 10), (encoding_rn rn, 0), (Inr op4, 0)])"

subsection \<open>Instructions with an immediate target\<close>

definition inst_b_cond_imm :: "cond \<Rightarrow> int \<Rightarrow> u32 result" where
  "inst_b_cond_imm cond imm19 = cls_cond_branch_imm cond imm19"

definition inst_b_i :: "int \<Rightarrow> u32 result" where
  "inst_b_i imm26 = cls_uncond_branch_imm 0 imm26"

definition inst_cbz :: "u32 \<Rightarrow> register \<Rightarrow> int \<Rightarrow> u32 result" where
  "inst_cbz sf rt imm19 = cls_cmp_branch_imm sf 0b0 rt imm19"

definition inst_cbnz :: "u32 \<Rightarrow> register \<Rightarrow> int \<Rightarrow> u32 result" where
  "inst_cbnz sf rt imm19 = cls_cmp_branch_imm sf 0b1 rt imm19"

subsection \<open>Immediates\<close>

text \<open>\<open>u64::trailing_zeros\<close> and \<open>u64::leading_zeros\<close>; both are 64 for 0.\<close>

definition trailing_zeros :: "u64 \<Rightarrow> nat" where
  "trailing_zeros x = length (takeWhile (\<lambda>i. \<not> bit x i) [0..<64])"

definition leading_zeros :: "u64 \<Rightarrow> nat" where
  "leading_zeros x = length (takeWhile (\<lambda>i. \<not> bit x i) (rev [0..<64]))"

definition is_mask :: "u64 \<Rightarrow> bool" where
  "is_mask imm = (imm \<noteq> 0 \<and> (imm + 1) AND imm = 0)"

definition is_shifted_mask :: "u64 \<Rightarrow> bool" where
  "is_shifted_mask imm = (imm \<noteq> 0 \<and> is_mask ((imm - 1) OR imm))"

text \<open>The loop that looks for the smallest element size.\<close>

function element_size :: "u64 \<Rightarrow> nat \<Rightarrow> nat" where
  "element_size imm sz =
     (if 2 < sz then
        (let h = sz div 2; m = push_bit h 1 - 1
         in if imm AND m \<noteq> drop_bit h imm AND m then h * 2 else element_size imm h)
      else sz)"
  by auto
termination by (relation "measure snd") auto

declare element_size.simps [simp del]

definition checked_u32_sub :: "nat \<Rightarrow> nat \<Rightarrow> nat result" where
  "checked_u32_sub a b = (if b \<le> a then Inr (a - b) else Inl ArithmeticOverflow)"

text \<open>The rotation and the number of ones of an element.\<close>

definition rotated_ones :: "u64 \<Rightarrow> nat \<Rightarrow> (nat \<times> nat) option result" where
  "rotated_ones imm sz =
     (let m = drop_bit (64 - sz) (- 1); imm = imm AND m
      in if is_shifted_mask imm then
           (let tz = trailing_zeros imm in
            rbind (checked_u32_sub sz tz) (\<lambda>d.
            Inr (Some (d AND (sz - 1), trailing_zeros (NOT (drop_bit tz imm))))))
         else
           (let imm = imm OR NOT m in
            if \<not> is_shifted_mask (NOT imm) then Inr None
            else
              (let lo = leading_zeros (NOT imm); to = trailing_zeros (NOT imm) in
               rbind (checked_u32_sub lo (64 - sz)) (\<lambda>rotation.
               rbind (checked_u32_sub (lo + to) (64 - sz)) (\<lambda>ones.
               Inr (Some (rotation, ones)))))))"

definition encode_logical_imm :: "u64 \<Rightarrow> nat \<Rightarrow> u32 option result" where
  "encode_logical_imm imm reg_size =
     rbind (rassert (reg_size = 32 \<or> reg_size = 64)) (\<lambda>_.
     if imm = 0 \<or> imm = - 1 \<or> reg_size \<noteq> 64 \<and> (drop_bit reg_size imm \<noteq> 0 \<or> imm = 0xFFFFFFFF) then Inr None
     else
       (let sz = element_size imm reg_size in
        rbind (rotated_ones imm sz) (\<lambda>res.
        case res of
          None \<Rightarrow> Inr None
        | Some (rotation, ones) \<Rightarrow>
            rbind (rassert (0 < ones \<and> rotation < sz)) (\<lambda>_.
            let immr = word_of_nat rotation :: u32;
                nimms = push_bit 1 (NOT (word_of_nat (sz - 1))) OR word_of_nat (ones - 1) :: u32;
                n = (drop_bit 6 nimms AND 1) XOR 1
            in Inr (Some (push_bit 12 n OR push_bit 6 immr OR nimms AND 0x3F))))))"

fun count_empty_from :: "nat \<Rightarrow> u64 \<Rightarrow> nat" where
  "count_empty_from 0 imm = 0"
| "count_empty_from (Suc n) imm = (if imm AND 0xFFFF = 0 then 1 else 0) + count_empty_from n (drop_bit 16 imm)"

definition count_empty_half_words :: "u64 \<Rightarrow> nat \<Rightarrow> nat result" where
  "count_empty_half_words imm register_size =
     rbind (rassert (register_size = 32 \<or> register_size = 64)) (\<lambda>_.
     Inr (count_empty_from (register_size div 16) imm))"

definition fits_movz :: "u64 \<Rightarrow> nat \<Rightarrow> bool result" where
  "fits_movz imm register_size =
     rbind (rassert (register_size = 32 \<or> register_size = 64)) (\<lambda>_.
     rbind (count_empty_half_words imm register_size) (\<lambda>n.
     Inr (register_size div 16 - 1 \<le> n)))"

definition fits_movn :: "u64 \<Rightarrow> nat \<Rightarrow> bool result" where
  "fits_movn imm register_size = fits_movz (NOT imm) register_size"

fun shift_movz_from :: "nat \<Rightarrow> nat \<Rightarrow> u64 \<Rightarrow> nat" where
  "shift_movz_from count 0 imm = 0"
| "shift_movz_from count (Suc n) imm = (if imm AND 0xFFFF \<noteq> 0 then count else shift_movz_from (count + 1) n (drop_bit 16 imm))"

definition shift_movz :: "u64 \<Rightarrow> nat" where
  "shift_movz imm = shift_movz_from 0 4 imm"

definition shift_movn :: "u64 \<Rightarrow> nat" where
  "shift_movn imm = shift_movz (NOT imm)"

definition fits_addsub_imm :: "u32 \<Rightarrow> bool" where
  "fits_addsub_imm v = fits_u12 v"

definition fits_ldst_unscaled :: "int \<Rightarrow> bool" where
  "fits_ldst_unscaled v = fits_i9 v"

definition FLOAT_TYPE_HALF :: u32 where "FLOAT_TYPE_HALF = 0b11"
definition FLOAT_TYPE_SINGLE :: u32 where "FLOAT_TYPE_SINGLE = 0b00"
definition FLOAT_TYPE_DOUBLE :: u32 where "FLOAT_TYPE_DOUBLE = 0b01"

end
