(* ===== verification/Arm64Assembler.thy ===== *)
theory Arm64Assembler
  imports AsmBuffer Arm64Inst
begin

text \<open>
  The arm64 assembler (\<open>AssemblerArm64\<close> in \<open>dora-asm/src/arm64.rs\<close>): the methods that emit instructions,
  forward jumps to labels that are not bound yet, and their resolution at the end.
\<close>

datatype jump_kind = Unconditional | Conditional cond | NonZero bool register | Zero bool register

record forward_jump =
  fj_offset :: u32
  fj_label :: asm_label
  fj_kind :: jump_kind

record assembler_arm64 =
  unresolved_jumps :: "forward_jump list"
  asm_buffer :: assembler_buffer

type_synonym a64_step = "assembler_arm64 \<Rightarrow> assembler_arm64 result"

definition a64_new :: assembler_arm64 where
  "a64_new = \<lparr>unresolved_jumps = [], asm_buffer = buffer_new\<rparr>"

definition with_buffer :: "(assembler_buffer \<Rightarrow> assembler_buffer result) \<Rightarrow> a64_step" where
  "with_buffer f s = rbind (f (asm_buffer s)) (\<lambda>b. Inr (s\<lparr>asm_buffer := b\<rparr>))"

definition a64_create_label :: "assembler_arm64 \<Rightarrow> asm_label \<times> assembler_arm64" where
  "a64_create_label s = (case buf_create_label (asm_buffer s) of (l, b) \<Rightarrow> (l, s\<lparr>asm_buffer := b\<rparr>))"

definition a64_create_and_bind_label :: "assembler_arm64 \<Rightarrow> (asm_label \<times> assembler_arm64) result" where
  "a64_create_and_bind_label s =
     rbind (buf_create_and_bind_label (asm_buffer s)) (\<lambda>(l, b). Inr (l, s\<lparr>asm_buffer := b\<rparr>))"

definition a64_bind_label :: "asm_label \<Rightarrow> a64_step" where
  "a64_bind_label lbl = with_buffer (buf_bind_label lbl)"

definition a64_offset :: "asm_label \<Rightarrow> assembler_arm64 \<Rightarrow> u32 option result" where
  "a64_offset lbl s = buf_offset lbl (asm_buffer s)"

definition a64_position :: "assembler_arm64 \<Rightarrow> usize" where
  "a64_position s = ab_position (asm_buffer s)"

definition a64_set_position :: "usize \<Rightarrow> assembler_arm64 \<Rightarrow> assembler_arm64" where
  "a64_set_position pos s = s\<lparr>asm_buffer := buf_set_position pos (asm_buffer s)\<rparr>"

definition a64_set_position_end :: "assembler_arm64 \<Rightarrow> assembler_arm64" where
  "a64_set_position_end s = s\<lparr>asm_buffer := buf_set_position_end (asm_buffer s)\<rparr>"

definition a64_emit_u8 :: "u8 \<Rightarrow> a64_step" where
  "a64_emit_u8 v = with_buffer (buf_emit_u8 v)"

definition a64_emit_u32 :: "u32 \<Rightarrow> a64_step" where
  "a64_emit_u32 v = with_buffer (buf_emit_u32 v)"

definition a64_emit_u64 :: "u64 \<Rightarrow> a64_step" where
  "a64_emit_u64 v = with_buffer (buf_emit_u64 v)"

text \<open>An instruction is encoded first, and then emitted.\<close>

definition a64_emit :: "u32 result \<Rightarrow> a64_step" where
  "a64_emit w s = rbind w (\<lambda>w. a64_emit_u32 w s)"

definition checked_sub_u32 :: "u32 \<Rightarrow> u32 \<Rightarrow> u32 result" where
  "checked_sub_u32 a b = (if b \<le> a then Inr (a - b) else Inl ArithmeticOverflow)"

text \<open>The distance to a bound label in instructions, and the jump that is left open when the label is not
  bound yet.\<close>

definition jump_diff :: "assembler_arm64 \<Rightarrow> u32 \<Rightarrow> int result" where
  "jump_diff s target_offset =
     rbind (checked_i32 (as_i32 (as_u32 (a64_position s)) - as_i32 target_offset)) (\<lambda>d.
     rbind (checked_i32 (- d)) (\<lambda>diff.
     rbind (rassert (rust_rem diff 4 = 0)) (\<lambda>_.
     Inr (rust_div diff 4))))"

definition a64_forward :: "asm_label \<Rightarrow> jump_kind \<Rightarrow> a64_step" where
  "a64_forward target kind s =
     (let pos = as_u32 (a64_position s) in
      rbind (a64_emit_u32 0 s) (\<lambda>s.
      Inr (s\<lparr>unresolved_jumps := unresolved_jumps s @ [\<lparr>fj_offset = pos, fj_label = target, fj_kind = kind\<rparr>]\<rparr>)))"

subsection \<open>Instructions\<close>

definition a64_add_ext :: "register \<Rightarrow> register \<Rightarrow> register \<Rightarrow> extend \<Rightarrow> u32 \<Rightarrow> a64_step" where
  "a64_add_ext rd rn rm ext amount = a64_emit (cls_addsub_extreg 1 0 0 0 rm ext amount rn rd)"

definition a64_add_sh :: "register \<Rightarrow> register \<Rightarrow> register \<Rightarrow> shift \<Rightarrow> u32 \<Rightarrow> a64_step" where
  "a64_add_sh rd rn rm shift amount = a64_emit (cls_addsub_shreg 1 0 0 shift rm amount rn rd)"

definition a64_add :: "register \<Rightarrow> register \<Rightarrow> register \<Rightarrow> a64_step" where
  "a64_add rd rn rm = (if rd = REG_SP \<or> rn = REG_SP then a64_add_ext rd rn rm UXTX 0 else a64_add_sh rd rn rm LSL 0)"

definition a64_add_ext_w :: "register \<Rightarrow> register \<Rightarrow> register \<Rightarrow> extend \<Rightarrow> u32 \<Rightarrow> a64_step" where
  "a64_add_ext_w rd rn rm ext amount = a64_emit (cls_addsub_extreg 0 0 0 0 rm ext amount rn rd)"

definition a64_add_sh_w :: "register \<Rightarrow> register \<Rightarrow> register \<Rightarrow> shift \<Rightarrow> u32 \<Rightarrow> a64_step" where
  "a64_add_sh_w rd rn rm shift amount = a64_emit (cls_addsub_shreg 0 0 0 shift rm amount rn rd)"

definition a64_add_w :: "register \<Rightarrow> register \<Rightarrow> register \<Rightarrow> a64_step" where
  "a64_add_w rd rn rm = (if rd = REG_SP \<or> rn = REG_SP then a64_add_ext_w rd rn rm UXTX 0 else a64_add_sh_w rd rn rm LSL 0)"

definition a64_add_imm :: "register \<Rightarrow> register \<Rightarrow> u32 \<Rightarrow> u32 \<Rightarrow> a64_step" where
  "a64_add_imm rd rn imm12 shift = a64_emit (cls_addsub_imm 1 0 0 shift imm12 rn rd)"

definition a64_add_imm_w :: "register \<Rightarrow> register \<Rightarrow> u32 \<Rightarrow> u32 \<Rightarrow> a64_step" where
  "a64_add_imm_w rd rn imm12 shift = a64_emit (cls_addsub_imm 0 0 0 shift imm12 rn rd)"

definition a64_adds_imm :: "register \<Rightarrow> register \<Rightarrow> u32 \<Rightarrow> u32 \<Rightarrow> a64_step" where
  "a64_adds_imm rd rn imm12 shift = a64_emit (cls_addsub_imm 1 0 1 shift imm12 rn rd)"

definition a64_adds_imm_w :: "register \<Rightarrow> register \<Rightarrow> u32 \<Rightarrow> u32 \<Rightarrow> a64_step" where
  "a64_adds_imm_w rd rn imm12 shift = a64_emit (cls_addsub_imm 0 0 1 shift imm12 rn rd)"

definition a64_adds_sh :: "register \<Rightarrow> register \<Rightarrow> register \<Rightarrow> shift \<Rightarrow> u32 \<Rightarrow> a64_step" where
  "a64_adds_sh rd rn rm shift amount = a64_emit (cls_addsub_shreg 1 0 1 shift rm amount rn rd)"

definition a64_adds_sh_w :: "register \<Rightarrow> register \<Rightarrow> register \<Rightarrow> shift \<Rightarrow> u32 \<Rightarrow> a64_step" where
  "a64_adds_sh_w rd rn rm shift amount = a64_emit (cls_addsub_shreg 0 0 1 shift rm amount rn rd)"

definition a64_adds :: "register \<Rightarrow> register \<Rightarrow> register \<Rightarrow> a64_step" where
  "a64_adds rd rn rm = a64_emit (cls_addsub_shreg 1 0 1 LSL rm 0 rn rd)"

definition a64_adds_w :: "register \<Rightarrow> register \<Rightarrow> register \<Rightarrow> a64_step" where
  "a64_adds_w rd rn rm = a64_emit (cls_addsub_shreg 0 0 1 LSL rm 0 rn rd)"

definition a64_addv :: "u32 \<Rightarrow> u32 \<Rightarrow> neon_register \<Rightarrow> neon_register \<Rightarrow> a64_step" where
  "a64_addv q sz rd rn = a64_emit (cls_simd_across_lanes q 0 sz 0b11011 rn rd)"

definition a64_adr_imm :: "register \<Rightarrow> int \<Rightarrow> a64_step" where
  "a64_adr_imm rd imm = a64_emit (cls_pcrel 0 imm rd)"

definition a64_adrp_imm :: "register \<Rightarrow> int \<Rightarrow> a64_step" where
  "a64_adrp_imm rd imm = a64_emit (cls_pcrel 1 imm rd)"

definition a64_and_imm :: "register \<Rightarrow> register \<Rightarrow> u64 \<Rightarrow> a64_step" where
  "a64_and_imm rd rn imm = a64_emit (
     rbind (encode_logical_imm imm 64) (\<lambda>e. rbind (rexpect e) (\<lambda>n_immr_imms. cls_logical_imm 1 0b00 n_immr_imms rn rd)))"

definition a64_and_imm_w :: "register \<Rightarrow> register \<Rightarrow> u64 \<Rightarrow> a64_step" where
  "a64_and_imm_w rd rn imm = a64_emit (
     rbind (encode_logical_imm imm 32) (\<lambda>e. rbind (rexpect e) (\<lambda>n_immr_imms. cls_logical_imm 0 0b00 n_immr_imms rn rd)))"

definition a64_and_sh :: "register \<Rightarrow> register \<Rightarrow> register \<Rightarrow> shift \<Rightarrow> u32 \<Rightarrow> a64_step" where
  "a64_and_sh rd rn rm shift imm6 = a64_emit (cls_logical_shreg 1 0b00 shift 0 rm imm6 rn rd)"

definition a64_and_sh_w :: "register \<Rightarrow> register \<Rightarrow> register \<Rightarrow> shift \<Rightarrow> u32 \<Rightarrow> a64_step" where
  "a64_and_sh_w rd rn rm shift imm6 = a64_emit (cls_logical_shreg 0 0b00 shift 0 rm imm6 rn rd)"

definition a64_ands_sh :: "register \<Rightarrow> register \<Rightarrow> register \<Rightarrow> shift \<Rightarrow> u32 \<Rightarrow> a64_step" where
  "a64_ands_sh rd rn rm shift imm6 = a64_emit (cls_logical_shreg 1 0b11 shift 0 rm imm6 rn rd)"

definition a64_ands_sh_w :: "register \<Rightarrow> register \<Rightarrow> register \<Rightarrow> shift \<Rightarrow> u32 \<Rightarrow> a64_step" where
  "a64_ands_sh_w rd rn rm shift imm6 = a64_emit (cls_logical_shreg 0 0b11 shift 0 rm imm6 rn rd)"

definition a64_asrv :: "register \<Rightarrow> register \<Rightarrow> register \<Rightarrow> a64_step" where
  "a64_asrv rd rn rm = a64_emit (cls_dataproc2 1 0 rm 0b1010 rn rd)"

definition a64_asrv_w :: "register \<Rightarrow> register \<Rightarrow> register \<Rightarrow> a64_step" where
  "a64_asrv_w rd rn rm = a64_emit (cls_dataproc2 0 0 rm 0b1010 rn rd)"

definition a64_b_imm :: "int \<Rightarrow> a64_step" where
  "a64_b_imm imm26 = a64_emit (inst_b_i imm26)"

definition a64_b_l :: "asm_label \<Rightarrow> a64_step" where
  "a64_b_l target s =
     rbind (a64_offset target s) (\<lambda>v.
     case v of
       Some target_offset \<Rightarrow> rbind (jump_diff s target_offset) (\<lambda>diff. a64_b_imm diff s)
     | None \<Rightarrow> a64_forward target Unconditional s)"

definition a64_b_r :: "register \<Rightarrow> a64_step" where
  "a64_b_r rn = a64_emit (cls_uncond_branch_reg 0b0000 0b11111 0 rn 0)"

definition a64_bc_imm :: "cond \<Rightarrow> int \<Rightarrow> a64_step" where
  "a64_bc_imm cond diff = a64_emit (inst_b_cond_imm cond diff)"

definition a64_bc_l :: "cond \<Rightarrow> asm_label \<Rightarrow> a64_step" where
  "a64_bc_l cond target s =
     rbind (a64_offset target s) (\<lambda>v.
     case v of
       Some target_offset \<Rightarrow> rbind (jump_diff s target_offset) (\<lambda>diff. a64_bc_imm cond diff s)
     | None \<Rightarrow> a64_forward target (Conditional cond) s)"

definition a64_bfm :: "register \<Rightarrow> register \<Rightarrow> u32 \<Rightarrow> u32 \<Rightarrow> a64_step" where
  "a64_bfm rd rn immr imms = a64_emit (cls_bitfield 1 0b01 1 immr imms rn rd)"

definition a64_bfm_w :: "register \<Rightarrow> register \<Rightarrow> u32 \<Rightarrow> u32 \<Rightarrow> a64_step" where
  "a64_bfm_w rd rn immr imms = a64_emit (cls_bitfield 0 0b01 0 immr imms rn rd)"

definition a64_bic_sh :: "register \<Rightarrow> register \<Rightarrow> register \<Rightarrow> shift \<Rightarrow> u32 \<Rightarrow> a64_step" where
  "a64_bic_sh rd rn rm shift imm6 = a64_emit (cls_logical_shreg 1 0b00 shift 1 rm imm6 rn rd)"

definition a64_bic_sh_w :: "register \<Rightarrow> register \<Rightarrow> register \<Rightarrow> shift \<Rightarrow> u32 \<Rightarrow> a64_step" where
  "a64_bic_sh_w rd rn rm shift imm6 = a64_emit (cls_logical_shreg 0 0b00 shift 1 rm imm6 rn rd)"

definition a64_bics_sh :: "register \<Rightarrow> register \<Rightarrow> register \<Rightarrow> shift \<Rightarrow> u32 \<Rightarrow> a64_step" where
  "a64_bics_sh rd rn rm shift imm6 = a64_emit (cls_logical_shreg 1 0b11 shift 1 rm imm6 rn rd)"

definition a64_bics_sh_w :: "register \<Rightarrow> register \<Rightarrow> register \<Rightarrow> shift \<Rightarrow> u32 \<Rightarrow> a64_step" where
  "a64_bics_sh_w rd rn rm shift imm6 = a64_emit (cls_logical_shreg 0 0b11 shift 1 rm imm6 rn rd)"

definition a64_bl_imm :: "int \<Rightarrow> a64_step" where
  "a64_bl_imm imm26 = a64_emit (cls_uncond_branch_imm 1 imm26)"

definition a64_bl_r :: "register \<Rightarrow> a64_step" where
  "a64_bl_r rn = a64_emit (cls_uncond_branch_reg 0b0001 0b11111 0 rn 0)"

definition a64_brk :: "u32 \<Rightarrow> a64_step" where
  "a64_brk imm16 = a64_emit (cls_exception 0b001 imm16 0 0)"

definition a64_cas :: "register \<Rightarrow> register \<Rightarrow> register \<Rightarrow> a64_step" where
  "a64_cas cmp new addr = a64_emit (cls_ldst_exclusive 0b11 1 0 1 cmp 0 REG_ZERO addr new)"

definition a64_cas_w :: "register \<Rightarrow> register \<Rightarrow> register \<Rightarrow> a64_step" where
  "a64_cas_w cmp new addr = a64_emit (cls_ldst_exclusive 0b10 1 0 1 cmp 0 REG_ZERO addr new)"

definition a64_casa :: "register \<Rightarrow> register \<Rightarrow> register \<Rightarrow> a64_step" where
  "a64_casa cmp new addr = a64_emit (cls_ldst_exclusive 0b11 1 1 1 cmp 0 REG_ZERO addr new)"

definition a64_casa_w :: "register \<Rightarrow> register \<Rightarrow> register \<Rightarrow> a64_step" where
  "a64_casa_w cmp new addr = a64_emit (cls_ldst_exclusive 0b10 1 1 1 cmp 0 REG_ZERO addr new)"

definition a64_casal :: "register \<Rightarrow> register \<Rightarrow> register \<Rightarrow> a64_step" where
  "a64_casal cmp new addr = a64_emit (cls_ldst_exclusive 0b11 1 1 1 cmp 1 REG_ZERO addr new)"

definition a64_casal_w :: "register \<Rightarrow> register \<Rightarrow> register \<Rightarrow> a64_step" where
  "a64_casal_w cmp new addr = a64_emit (cls_ldst_exclusive 0b10 1 1 1 cmp 1 REG_ZERO addr new)"

definition a64_casl :: "register \<Rightarrow> register \<Rightarrow> register \<Rightarrow> a64_step" where
  "a64_casl cmp new addr = a64_emit (cls_ldst_exclusive 0b11 1 0 1 cmp 1 REG_ZERO addr new)"

definition a64_casl_w :: "register \<Rightarrow> register \<Rightarrow> register \<Rightarrow> a64_step" where
  "a64_casl_w cmp new addr = a64_emit (cls_ldst_exclusive 0b10 1 0 1 cmp 1 REG_ZERO addr new)"

definition a64_cbnz_imm :: "register \<Rightarrow> int \<Rightarrow> a64_step" where
  "a64_cbnz_imm reg diff = a64_emit (inst_cbnz 1 reg diff)"

definition a64_cbnz_imm_w :: "register \<Rightarrow> int \<Rightarrow> a64_step" where
  "a64_cbnz_imm_w reg diff = a64_emit (inst_cbnz 0 reg diff)"

definition a64_cbz_imm :: "register \<Rightarrow> int \<Rightarrow> a64_step" where
  "a64_cbz_imm reg diff = a64_emit (inst_cbz 1 reg diff)"

definition a64_cbz_imm_w :: "register \<Rightarrow> int \<Rightarrow> a64_step" where
  "a64_cbz_imm_w reg diff = a64_emit (inst_cbz 0 reg diff)"

definition a64_common_cbz_cbnz :: "bool \<Rightarrow> bool \<Rightarrow> register \<Rightarrow> asm_label \<Rightarrow> a64_step" where
  "a64_common_cbz_cbnz sf zero reg target s =
     rbind (a64_offset target s) (\<lambda>v.
     case v of
       Some target_offset \<Rightarrow> rbind (jump_diff s target_offset) (\<lambda>diff.
         if zero then (if sf then a64_cbz_imm reg diff s else a64_cbz_imm_w reg diff s)
         else (if sf then a64_cbnz_imm reg diff s else a64_cbnz_imm_w reg diff s))
     | None \<Rightarrow> a64_forward target (if zero then Zero sf reg else NonZero sf reg) s)"

definition a64_cbnz :: "register \<Rightarrow> asm_label \<Rightarrow> a64_step" where
  "a64_cbnz reg target = a64_common_cbz_cbnz True False reg target"

definition a64_cbnz_w :: "register \<Rightarrow> asm_label \<Rightarrow> a64_step" where
  "a64_cbnz_w reg target = a64_common_cbz_cbnz False False reg target"

definition a64_cbz :: "register \<Rightarrow> asm_label \<Rightarrow> a64_step" where
  "a64_cbz reg target = a64_common_cbz_cbnz True True reg target"

definition a64_cbz_w :: "register \<Rightarrow> asm_label \<Rightarrow> a64_step" where
  "a64_cbz_w reg target = a64_common_cbz_cbnz False True reg target"

definition a64_cls_w :: "register \<Rightarrow> register \<Rightarrow> a64_step" where
  "a64_cls_w rd rn = a64_emit (cls_dataproc1 0 0 0b00000 0b000101 rn rd)"

definition a64_cls :: "register \<Rightarrow> register \<Rightarrow> a64_step" where
  "a64_cls rd rn = a64_emit (cls_dataproc1 1 0 0b00000 0b000101 rn rd)"

definition a64_clz_w :: "register \<Rightarrow> register \<Rightarrow> a64_step" where
  "a64_clz_w rd rn = a64_emit (cls_dataproc1 0 0 0b00000 0b000100 rn rd)"

definition a64_clz :: "register \<Rightarrow> register \<Rightarrow> a64_step" where
  "a64_clz rd rn = a64_emit (cls_dataproc1 1 0 0b00000 0b000100 rn rd)"

definition a64_cmn_imm :: "register \<Rightarrow> u32 \<Rightarrow> u32 \<Rightarrow> a64_step" where
  "a64_cmn_imm rn imm32 shift = a64_adds_imm REG_ZERO rn imm32 shift"

definition a64_cmn_imm_w :: "register \<Rightarrow> u32 \<Rightarrow> u32 \<Rightarrow> a64_step" where
  "a64_cmn_imm_w rn imm32 shift = a64_adds_imm_w REG_ZERO rn imm32 shift"

definition a64_subs :: "register \<Rightarrow> register \<Rightarrow> register \<Rightarrow> a64_step" where
  "a64_subs rd rn rm = a64_emit (cls_addsub_shreg 1 1 1 LSL rm 0 rn rd)"

definition a64_cmp :: "register \<Rightarrow> register \<Rightarrow> a64_step" where
  "a64_cmp rn rm = a64_subs REG_ZERO rn rm"

definition a64_subs_w :: "register \<Rightarrow> register \<Rightarrow> register \<Rightarrow> a64_step" where
  "a64_subs_w rd rn rm = a64_emit (cls_addsub_shreg 0 1 1 LSL rm 0 rn rd)"

definition a64_cmp_w :: "register \<Rightarrow> register \<Rightarrow> a64_step" where
  "a64_cmp_w rn rm = a64_subs_w REG_ZERO rn rm"

definition a64_subs_ext :: "register \<Rightarrow> register \<Rightarrow> register \<Rightarrow> extend \<Rightarrow> u32 \<Rightarrow> a64_step" where
  "a64_subs_ext rd rn rm ext amount = a64_emit (cls_addsub_extreg 1 1 1 0 rm ext amount rn rd)"

definition a64_cmp_ext :: "register \<Rightarrow> register \<Rightarrow> extend \<Rightarrow> u32 \<Rightarrow> a64_step" where
  "a64_cmp_ext rn rm ext amount = a64_subs_ext REG_ZERO rn rm ext amount"

definition a64_cmp_ext_w :: "register \<Rightarrow> register \<Rightarrow> extend \<Rightarrow> u32 \<Rightarrow> a64_step" where
  "a64_cmp_ext_w rn rm ext amount = a64_subs_ext REG_ZERO rn rm ext amount"

definition a64_subs_imm :: "register \<Rightarrow> register \<Rightarrow> u32 \<Rightarrow> u32 \<Rightarrow> a64_step" where
  "a64_subs_imm rd rn imm12 shift = a64_emit (cls_addsub_imm 1 1 1 shift imm12 rn rd)"

definition a64_cmp_imm :: "register \<Rightarrow> u32 \<Rightarrow> u32 \<Rightarrow> a64_step" where
  "a64_cmp_imm rn imm12 shift = a64_subs_imm REG_ZERO rn imm12 shift"

definition a64_subs_imm_w :: "register \<Rightarrow> register \<Rightarrow> u32 \<Rightarrow> u32 \<Rightarrow> a64_step" where
  "a64_subs_imm_w rd rn imm12 shift = a64_emit (cls_addsub_imm 0 1 1 shift imm12 rn rd)"

definition a64_cmp_imm_w :: "register \<Rightarrow> u32 \<Rightarrow> u32 \<Rightarrow> a64_step" where
  "a64_cmp_imm_w rn imm12 shift = a64_subs_imm_w REG_ZERO rn imm12 shift"

definition a64_cmp_sh :: "register \<Rightarrow> register \<Rightarrow> shift \<Rightarrow> u32 \<Rightarrow> a64_step" where
  "a64_cmp_sh rn rm shift amount = a64_emit (cls_addsub_shreg 1 1 1 shift rm amount rn REG_ZERO)"

definition a64_cmp_sh_w :: "register \<Rightarrow> register \<Rightarrow> shift \<Rightarrow> u32 \<Rightarrow> a64_step" where
  "a64_cmp_sh_w rn rm shift amount = a64_emit (cls_addsub_shreg 0 1 1 shift rm amount rn REG_ZERO)"

definition a64_cnt :: "u32 \<Rightarrow> u32 \<Rightarrow> neon_register \<Rightarrow> neon_register \<Rightarrow> a64_step" where
  "a64_cnt q sz rd rn = a64_emit (cls_simd_2regs_misc q 0 sz 0b00101 rn rd)"

definition a64_csel :: "register \<Rightarrow> register \<Rightarrow> register \<Rightarrow> cond \<Rightarrow> a64_step" where
  "a64_csel rd rn rm cond = a64_emit (cls_csel 1 0 0 rm cond 0 rn rd)"

definition a64_csel_w :: "register \<Rightarrow> register \<Rightarrow> register \<Rightarrow> cond \<Rightarrow> a64_step" where
  "a64_csel_w rd rn rm cond = a64_emit (cls_csel 0 0 0 rm cond 0 rn rd)"

definition a64_csinc :: "register \<Rightarrow> register \<Rightarrow> register \<Rightarrow> cond \<Rightarrow> a64_step" where
  "a64_csinc rd rn rm cond = a64_emit (cls_csel 1 0 0 rm cond 1 rn rd)"

definition a64_cset :: "register \<Rightarrow> cond \<Rightarrow> a64_step" where
  "a64_cset rd cond = a64_csinc rd REG_ZERO REG_ZERO (cond_invert cond)"

definition a64_csinc_w :: "register \<Rightarrow> register \<Rightarrow> register \<Rightarrow> cond \<Rightarrow> a64_step" where
  "a64_csinc_w rd rn rm cond = a64_emit (cls_csel 0 0 0 rm cond 1 rn rd)"

definition a64_cset_w :: "register \<Rightarrow> cond \<Rightarrow> a64_step" where
  "a64_cset_w rd cond = a64_csinc_w rd REG_ZERO REG_ZERO (cond_invert cond)"

definition a64_csinv :: "register \<Rightarrow> register \<Rightarrow> register \<Rightarrow> cond \<Rightarrow> a64_step" where
  "a64_csinv rd rn rm cond = a64_emit (cls_csel 1 1 0 rm cond 0 rn rd)"

definition a64_csinv_w :: "register \<Rightarrow> register \<Rightarrow> register \<Rightarrow> cond \<Rightarrow> a64_step" where
  "a64_csinv_w rd rn rm cond = a64_emit (cls_csel 0 1 0 rm cond 0 rn rd)"

definition a64_eon_sh :: "register \<Rightarrow> register \<Rightarrow> register \<Rightarrow> shift \<Rightarrow> u32 \<Rightarrow> a64_step" where
  "a64_eon_sh rd rn rm shift imm6 = a64_emit (cls_logical_shreg 1 0b10 shift 1 rm imm6 rn rd)"

definition a64_eon_sh_w :: "register \<Rightarrow> register \<Rightarrow> register \<Rightarrow> shift \<Rightarrow> u32 \<Rightarrow> a64_step" where
  "a64_eon_sh_w rd rn rm shift imm6 = a64_emit (cls_logical_shreg 0 0b10 shift 1 rm imm6 rn rd)"

definition a64_eor_sh :: "register \<Rightarrow> register \<Rightarrow> register \<Rightarrow> shift \<Rightarrow> u32 \<Rightarrow> a64_step" where
  "a64_eor_sh rd rn rm shift imm6 = a64_emit (cls_logical_shreg 1 0b10 shift 0 rm imm6 rn rd)"

definition a64_eor_sh_w :: "register \<Rightarrow> register \<Rightarrow> register \<Rightarrow> shift \<Rightarrow> u32 \<Rightarrow> a64_step" where
  "a64_eor_sh_w rd rn rm shift imm6 = a64_emit (cls_logical_shreg 0 0b10 shift 0 rm imm6 rn rd)"

definition a64_fadd_h :: "neon_register \<Rightarrow> neon_register \<Rightarrow> neon_register \<Rightarrow> a64_step" where
  "a64_fadd_h rd rn rm = a64_emit (cls_fp_dataproc2 0 0 FLOAT_TYPE_HALF rm 0b0010 rn rd)"

definition a64_fadd_s :: "neon_register \<Rightarrow> neon_register \<Rightarrow> neon_register \<Rightarrow> a64_step" where
  "a64_fadd_s rd rn rm = a64_emit (cls_fp_dataproc2 0 0 FLOAT_TYPE_SINGLE rm 0b0010 rn rd)"

definition a64_fadd_d :: "neon_register \<Rightarrow> neon_register \<Rightarrow> neon_register \<Rightarrow> a64_step" where
  "a64_fadd_d rd rn rm = a64_emit (cls_fp_dataproc2 0 0 FLOAT_TYPE_DOUBLE rm 0b0010 rn rd)"

definition a64_fcmp_d :: "neon_register \<Rightarrow> neon_register \<Rightarrow> a64_step" where
  "a64_fcmp_d rn rm = a64_emit (cls_fp_compare 0 0 FLOAT_TYPE_DOUBLE rm 0 rn 0)"

definition a64_fcmp_h :: "neon_register \<Rightarrow> neon_register \<Rightarrow> a64_step" where
  "a64_fcmp_h rn rm = a64_emit (cls_fp_compare 0 0 FLOAT_TYPE_HALF rm 0 rn 0)"

definition a64_fcmp_s :: "neon_register \<Rightarrow> neon_register \<Rightarrow> a64_step" where
  "a64_fcmp_s rn rm = a64_emit (cls_fp_compare 0 0 FLOAT_TYPE_SINGLE rm 0 rn 0)"

definition a64_fcmpe_d :: "neon_register \<Rightarrow> neon_register \<Rightarrow> a64_step" where
  "a64_fcmpe_d rn rm = a64_emit (cls_fp_compare 0 0 FLOAT_TYPE_DOUBLE rm 0 rn 0b10000)"

definition a64_fcmpe_h :: "neon_register \<Rightarrow> neon_register \<Rightarrow> a64_step" where
  "a64_fcmpe_h rn rm = a64_emit (cls_fp_compare 0 0 FLOAT_TYPE_HALF rm 0 rn 0b10000)"

definition a64_fcmpe_s :: "neon_register \<Rightarrow> neon_register \<Rightarrow> a64_step" where
  "a64_fcmpe_s rn rm = a64_emit (cls_fp_compare 0 0 FLOAT_TYPE_SINGLE rm 0 rn 0b10000)"

definition a64_fcvt_ds :: "neon_register \<Rightarrow> neon_register \<Rightarrow> a64_step" where
  "a64_fcvt_ds rd rn = a64_emit (cls_fp_dataproc1 0 0 0b01 0b000100 rn rd)"

definition a64_fcvt_sd :: "neon_register \<Rightarrow> neon_register \<Rightarrow> a64_step" where
  "a64_fcvt_sd rd rn = a64_emit (cls_fp_dataproc1 0 0 0b00 0b000101 rn rd)"

definition a64_fcvtzs_d :: "register \<Rightarrow> neon_register \<Rightarrow> a64_step" where
  "a64_fcvtzs_d rd rn =
     a64_emit (rbind (encoding rd) (\<lambda>rd_no. cls_fp_int 1 0 FLOAT_TYPE_DOUBLE 0b11 0b000 (neon_encoding rn) rd_no))"

definition a64_fcvtzs_h :: "register \<Rightarrow> neon_register \<Rightarrow> a64_step" where
  "a64_fcvtzs_h rd rn =
     a64_emit (rbind (encoding rd) (\<lambda>rd_no. cls_fp_int 1 0 FLOAT_TYPE_HALF 0b11 0b000 (neon_encoding rn) rd_no))"

definition a64_fcvtzs_s :: "register \<Rightarrow> neon_register \<Rightarrow> a64_step" where
  "a64_fcvtzs_s rd rn =
     a64_emit (rbind (encoding rd) (\<lambda>rd_no. cls_fp_int 1 0 FLOAT_TYPE_SINGLE 0b11 0b000 (neon_encoding rn) rd_no))"

definition a64_fcvtzs_wd :: "register \<Rightarrow> neon_register \<Rightarrow> a64_step" where
  "a64_fcvtzs_wd rd rn =
     a64_emit (rbind (encoding rd) (\<lambda>rd_no. cls_fp_int 0 0 FLOAT_TYPE_DOUBLE 0b11 0b000 (neon_encoding rn) rd_no))"

definition a64_fcvtzs_wh :: "register \<Rightarrow> neon_register \<Rightarrow> a64_step" where
  "a64_fcvtzs_wh rd rn =
     a64_emit (rbind (encoding rd) (\<lambda>rd_no. cls_fp_int 0 0 FLOAT_TYPE_HALF 0b11 0b000 (neon_encoding rn) rd_no))"

definition a64_fcvtzs_ws :: "register \<Rightarrow> neon_register \<Rightarrow> a64_step" where
  "a64_fcvtzs_ws rd rn =
     a64_emit (rbind (encoding rd) (\<lambda>rd_no. cls_fp_int 0 0 FLOAT_TYPE_SINGLE 0b11 0b000 (neon_encoding rn) rd_no))"

definition a64_fdiv_d :: "neon_register \<Rightarrow> neon_register \<Rightarrow> neon_register \<Rightarrow> a64_step" where
  "a64_fdiv_d rd rn rm = a64_emit (cls_fp_dataproc2 0 0 FLOAT_TYPE_DOUBLE rm 0b0001 rn rd)"

definition a64_fdiv_h :: "neon_register \<Rightarrow> neon_register \<Rightarrow> neon_register \<Rightarrow> a64_step" where
  "a64_fdiv_h rd rn rm = a64_emit (cls_fp_dataproc2 0 0 FLOAT_TYPE_HALF rm 0b0001 rn rd)"

definition a64_fdiv_s :: "neon_register \<Rightarrow> neon_register \<Rightarrow> neon_register \<Rightarrow> a64_step" where
  "a64_fdiv_s rd rn rm = a64_emit (cls_fp_dataproc2 0 0 FLOAT_TYPE_SINGLE rm 0b0001 rn rd)"

definition a64_fmov_d :: "neon_register \<Rightarrow> neon_register \<Rightarrow> a64_step" where
  "a64_fmov_d rd rn = a64_emit (cls_fp_dataproc1 0 0 FLOAT_TYPE_DOUBLE 0b000000 rn rd)"

definition a64_fmov_h :: "neon_register \<Rightarrow> neon_register \<Rightarrow> a64_step" where
  "a64_fmov_h rd rn = a64_emit (cls_fp_dataproc1 0 0 FLOAT_TYPE_HALF 0b000000 rn rd)"

definition a64_fmov_s :: "neon_register \<Rightarrow> neon_register \<Rightarrow> a64_step" where
  "a64_fmov_s rd rn = a64_emit (cls_fp_dataproc1 0 0 FLOAT_TYPE_SINGLE 0b000000 rn rd)"

definition a64_fmov_fs_d :: "neon_register \<Rightarrow> register \<Rightarrow> a64_step" where
  "a64_fmov_fs_d rd rn =
     a64_emit (rbind (encoding rn) (\<lambda>rn_no. cls_fp_int 1 0 FLOAT_TYPE_DOUBLE 0b00 0b111 rn_no (neon_encoding rd)))"

definition a64_fmov_fs_h :: "neon_register \<Rightarrow> register \<Rightarrow> a64_step" where
  "a64_fmov_fs_h rd rn =
     a64_emit (rbind (encoding rn) (\<lambda>rn_no. cls_fp_int 1 0 FLOAT_TYPE_HALF 0b00 0b111 rn_no (neon_encoding rd)))"

definition a64_fmov_fs_s :: "neon_register \<Rightarrow> register \<Rightarrow> a64_step" where
  "a64_fmov_fs_s rd rn =
     a64_emit (rbind (encoding rn) (\<lambda>rn_no. cls_fp_int 1 0 FLOAT_TYPE_SINGLE 0b00 0b111 rn_no (neon_encoding rd)))"

definition a64_fmov_fs_wd :: "neon_register \<Rightarrow> register \<Rightarrow> a64_step" where
  "a64_fmov_fs_wd rd rn =
     a64_emit (rbind (encoding rn) (\<lambda>rn_no. cls_fp_int 0 0 FLOAT_TYPE_DOUBLE 0b00 0b111 rn_no (neon_encoding rd)))"

definition a64_fmov_fs_wh :: "neon_register \<Rightarrow> register \<Rightarrow> a64_step" where
  "a64_fmov_fs_wh rd rn =
     a64_emit (rbind (encoding rn) (\<lambda>rn_no. cls_fp_int 0 0 FLOAT_TYPE_HALF 0b00 0b111 rn_no (neon_encoding rd)))"

definition a64_fmov_fs_ws :: "neon_register \<Rightarrow> register \<Rightarrow> a64_step" where
  "a64_fmov_fs_ws rd rn =
     a64_emit (rbind (encoding rn) (\<lambda>rn_no. cls_fp_int 0 0 FLOAT_TYPE_SINGLE 0b00 0b111 rn_no (neon_encoding rd)))"

definition a64_fmov_sf_d :: "register \<Rightarrow> neon_register \<Rightarrow> a64_step" where
  "a64_fmov_sf_d rd rn =
     a64_emit (rbind (encoding rd) (\<lambda>rd_no. cls_fp_int 1 0 FLOAT_TYPE_DOUBLE 0b00 0b110 (neon_encoding rn) rd_no))"

definition a64_fmov_sf_h :: "register \<Rightarrow> neon_register \<Rightarrow> a64_step" where
  "a64_fmov_sf_h rd rn =
     a64_emit (rbind (encoding rd) (\<lambda>rd_no. cls_fp_int 1 0 FLOAT_TYPE_HALF 0b00 0b110 (neon_encoding rn) rd_no))"

definition a64_fmov_sf_s :: "register \<Rightarrow> neon_register \<Rightarrow> a64_step" where
  "a64_fmov_sf_s rd rn =
     a64_emit (rbind (encoding rd) (\<lambda>rd_no. cls_fp_int 1 0 FLOAT_TYPE_SINGLE 0b00 0b110 (neon_encoding rn) rd_no))"

definition a64_fmov_sf_wd :: "register \<Rightarrow> neon_register \<Rightarrow> a64_step" where
  "a64_fmov_sf_wd rd rn =
     a64_emit (rbind (encoding rd) (\<lambda>rd_no. cls_fp_int 0 0 FLOAT_TYPE_DOUBLE 0b00 0b110 (neon_encoding rn) rd_no))"

definition a64_fmov_sf_wh :: "register \<Rightarrow> neon_register \<Rightarrow> a64_step" where
  "a64_fmov_sf_wh rd rn =
     a64_emit (rbind (encoding rd) (\<lambda>rd_no. cls_fp_int 0 0 FLOAT_TYPE_HALF 0b00 0b110 (neon_encoding rn) rd_no))"

definition a64_fmov_sf_ws :: "register \<Rightarrow> neon_register \<Rightarrow> a64_step" where
  "a64_fmov_sf_ws rd rn =
     a64_emit (rbind (encoding rd) (\<lambda>rd_no. cls_fp_int 0 0 FLOAT_TYPE_SINGLE 0b00 0b110 (neon_encoding rn) rd_no))"

definition a64_fmul_h :: "neon_register \<Rightarrow> neon_register \<Rightarrow> neon_register \<Rightarrow> a64_step" where
  "a64_fmul_h rd rn rm = a64_emit (cls_fp_dataproc2 0 0 FLOAT_TYPE_HALF rm 0b0000 rn rd)"

definition a64_fmul_s :: "neon_register \<Rightarrow> neon_register \<Rightarrow> neon_register \<Rightarrow> a64_step" where
  "a64_fmul_s rd rn rm = a64_emit (cls_fp_dataproc2 0 0 FLOAT_TYPE_SINGLE rm 0b0000 rn rd)"

definition a64_fmul_d :: "neon_register \<Rightarrow> neon_register \<Rightarrow> neon_register \<Rightarrow> a64_step" where
  "a64_fmul_d rd rn rm = a64_emit (cls_fp_dataproc2 0 0 FLOAT_TYPE_DOUBLE rm 0b0000 rn rd)"

definition a64_fabs_d :: "neon_register \<Rightarrow> neon_register \<Rightarrow> a64_step" where
  "a64_fabs_d rd rn = a64_emit (cls_fp_dataproc1 0 0 FLOAT_TYPE_DOUBLE 0b000001 rn rd)"

definition a64_fabs_h :: "neon_register \<Rightarrow> neon_register \<Rightarrow> a64_step" where
  "a64_fabs_h rd rn = a64_emit (cls_fp_dataproc1 0 0 FLOAT_TYPE_HALF 0b000001 rn rd)"

definition a64_fabs_s :: "neon_register \<Rightarrow> neon_register \<Rightarrow> a64_step" where
  "a64_fabs_s rd rn = a64_emit (cls_fp_dataproc1 0 0 FLOAT_TYPE_SINGLE 0b000001 rn rd)"

definition a64_fneg_d :: "neon_register \<Rightarrow> neon_register \<Rightarrow> a64_step" where
  "a64_fneg_d rd rn = a64_emit (cls_fp_dataproc1 0 0 FLOAT_TYPE_DOUBLE 0b000010 rn rd)"

definition a64_fneg_h :: "neon_register \<Rightarrow> neon_register \<Rightarrow> a64_step" where
  "a64_fneg_h rd rn = a64_emit (cls_fp_dataproc1 0 0 FLOAT_TYPE_HALF 0b000010 rn rd)"

definition a64_fneg_s :: "neon_register \<Rightarrow> neon_register \<Rightarrow> a64_step" where
  "a64_fneg_s rd rn = a64_emit (cls_fp_dataproc1 0 0 FLOAT_TYPE_SINGLE 0b000010 rn rd)"

definition a64_frintn_d :: "neon_register \<Rightarrow> neon_register \<Rightarrow> a64_step" where
  "a64_frintn_d rd rn = a64_emit (cls_fp_dataproc1 0 0 FLOAT_TYPE_DOUBLE 0b001000 rn rd)"

definition a64_frintn_s :: "neon_register \<Rightarrow> neon_register \<Rightarrow> a64_step" where
  "a64_frintn_s rd rn = a64_emit (cls_fp_dataproc1 0 0 FLOAT_TYPE_SINGLE 0b001000 rn rd)"

definition a64_frintp_d :: "neon_register \<Rightarrow> neon_register \<Rightarrow> a64_step" where
  "a64_frintp_d rd rn = a64_emit (cls_fp_dataproc1 0 0 FLOAT_TYPE_DOUBLE 0b001001 rn rd)"

definition a64_frintp_s :: "neon_register \<Rightarrow> neon_register \<Rightarrow> a64_step" where
  "a64_frintp_s rd rn = a64_emit (cls_fp_dataproc1 0 0 FLOAT_TYPE_SINGLE 0b001001 rn rd)"

definition a64_frintm_d :: "neon_register \<Rightarrow> neon_register \<Rightarrow> a64_step" where
  "a64_frintm_d rd rn = a64_emit (cls_fp_dataproc1 0 0 FLOAT_TYPE_DOUBLE 0b001010 rn rd)"

definition a64_frintm_s :: "neon_register \<Rightarrow> neon_register \<Rightarrow> a64_step" where
  "a64_frintm_s rd rn = a64_emit (cls_fp_dataproc1 0 0 FLOAT_TYPE_SINGLE 0b001010 rn rd)"

definition a64_frintz_d :: "neon_register \<Rightarrow> neon_register \<Rightarrow> a64_step" where
  "a64_frintz_d rd rn = a64_emit (cls_fp_dataproc1 0 0 FLOAT_TYPE_DOUBLE 0b001011 rn rd)"

definition a64_frintz_s :: "neon_register \<Rightarrow> neon_register \<Rightarrow> a64_step" where
  "a64_frintz_s rd rn = a64_emit (cls_fp_dataproc1 0 0 FLOAT_TYPE_SINGLE 0b001011 rn rd)"

definition a64_frinta_d :: "neon_register \<Rightarrow> neon_register \<Rightarrow> a64_step" where
  "a64_frinta_d rd rn = a64_emit (cls_fp_dataproc1 0 0 FLOAT_TYPE_DOUBLE 0b001100 rn rd)"

definition a64_frinta_s :: "neon_register \<Rightarrow> neon_register \<Rightarrow> a64_step" where
  "a64_frinta_s rd rn = a64_emit (cls_fp_dataproc1 0 0 FLOAT_TYPE_SINGLE 0b001100 rn rd)"

definition a64_fsqrt_d :: "neon_register \<Rightarrow> neon_register \<Rightarrow> a64_step" where
  "a64_fsqrt_d rd rn = a64_emit (cls_fp_dataproc1 0 0 FLOAT_TYPE_DOUBLE 0b000011 rn rd)"

definition a64_fsqrt_h :: "neon_register \<Rightarrow> neon_register \<Rightarrow> a64_step" where
  "a64_fsqrt_h rd rn = a64_emit (cls_fp_dataproc1 0 0 FLOAT_TYPE_HALF 0b000011 rn rd)"

definition a64_fsqrt_s :: "neon_register \<Rightarrow> neon_register \<Rightarrow> a64_step" where
  "a64_fsqrt_s rd rn = a64_emit (cls_fp_dataproc1 0 0 FLOAT_TYPE_SINGLE 0b000011 rn rd)"

definition a64_fsub_h :: "neon_register \<Rightarrow> neon_register \<Rightarrow> neon_register \<Rightarrow> a64_step" where
  "a64_fsub_h rd rn rm = a64_emit (cls_fp_dataproc2 0 0 FLOAT_TYPE_HALF rm 0b0011 rn rd)"

definition a64_fsub_s :: "neon_register \<Rightarrow> neon_register \<Rightarrow> neon_register \<Rightarrow> a64_step" where
  "a64_fsub_s rd rn rm = a64_emit (cls_fp_dataproc2 0 0 FLOAT_TYPE_SINGLE rm 0b0011 rn rd)"

definition a64_fsub_d :: "neon_register \<Rightarrow> neon_register \<Rightarrow> neon_register \<Rightarrow> a64_step" where
  "a64_fsub_d rd rn rm = a64_emit (cls_fp_dataproc2 0 0 FLOAT_TYPE_DOUBLE rm 0b0011 rn rd)"

definition a64_ldadd :: "register \<Rightarrow> register \<Rightarrow> register \<Rightarrow> a64_step" where
  "a64_ldadd value dest address = a64_emit (cls_atomic_op 0b11 0 0 0 value 0 0b000 address dest)"

definition a64_ldadd_w :: "register \<Rightarrow> register \<Rightarrow> register \<Rightarrow> a64_step" where
  "a64_ldadd_w value dest address = a64_emit (cls_atomic_op 0b10 0 0 0 value 0 0b000 address dest)"

definition a64_ldadda :: "register \<Rightarrow> register \<Rightarrow> register \<Rightarrow> a64_step" where
  "a64_ldadda value dest address = a64_emit (cls_atomic_op 0b11 0 1 0 value 0 0b000 address dest)"

definition a64_ldadda_w :: "register \<Rightarrow> register \<Rightarrow> register \<Rightarrow> a64_step" where
  "a64_ldadda_w value dest address = a64_emit (cls_atomic_op 0b10 0 1 0 value 0 0b000 address dest)"

definition a64_ldaddal :: "register \<Rightarrow> register \<Rightarrow> register \<Rightarrow> a64_step" where
  "a64_ldaddal value dest address = a64_emit (cls_atomic_op 0b11 0 1 1 value 0 0b000 address dest)"

definition a64_ldaddal_w :: "register \<Rightarrow> register \<Rightarrow> register \<Rightarrow> a64_step" where
  "a64_ldaddal_w value dest address = a64_emit (cls_atomic_op 0b10 0 1 1 value 0 0b000 address dest)"

definition a64_ldaddl :: "register \<Rightarrow> register \<Rightarrow> register \<Rightarrow> a64_step" where
  "a64_ldaddl value dest address = a64_emit (cls_atomic_op 0b11 0 0 1 value 0 0b000 address dest)"

definition a64_ldaddl_w :: "register \<Rightarrow> register \<Rightarrow> register \<Rightarrow> a64_step" where
  "a64_ldaddl_w value dest address = a64_emit (cls_atomic_op 0b10 0 0 1 value 0 0b000 address dest)"

definition a64_ldar :: "register \<Rightarrow> register \<Rightarrow> a64_step" where
  "a64_ldar rt rn = a64_emit (cls_ldst_exclusive 0b11 1 1 0 REG_ZERO 1 REG_ZERO rn rt)"

definition a64_ldar_w :: "register \<Rightarrow> register \<Rightarrow> a64_step" where
  "a64_ldar_w rt rn = a64_emit (cls_ldst_exclusive 0b10 1 1 0 REG_ZERO 1 REG_ZERO rn rt)"

definition a64_ldp :: "register \<Rightarrow> register \<Rightarrow> register \<Rightarrow> int \<Rightarrow> a64_step" where
  "a64_ldp rt rt2 rn imm7 = a64_emit (cls_ldst_pair 0b10 0 1 imm7 rt2 rn rt)"

definition a64_ldp_w :: "register \<Rightarrow> register \<Rightarrow> register \<Rightarrow> int \<Rightarrow> a64_step" where
  "a64_ldp_w rt rt2 rn imm7 = a64_emit (cls_ldst_pair 0b00 0 1 imm7 rt2 rn rt)"

definition a64_ldp_post :: "register \<Rightarrow> register \<Rightarrow> register \<Rightarrow> int \<Rightarrow> a64_step" where
  "a64_ldp_post rt rt2 rn imm7 = a64_emit (cls_ldst_pair_post 0b10 0 1 imm7 rt2 rn rt)"

definition a64_ldp_post_w :: "register \<Rightarrow> register \<Rightarrow> register \<Rightarrow> int \<Rightarrow> a64_step" where
  "a64_ldp_post_w rt rt2 rn imm7 = a64_emit (cls_ldst_pair_post 0b00 0 1 imm7 rt2 rn rt)"

definition a64_ldr_imm :: "register \<Rightarrow> register \<Rightarrow> u32 \<Rightarrow> a64_step" where
  "a64_ldr_imm rt rn imm12 =
     a64_emit (rbind (rassert (is_gpr rt)) (\<lambda>_. rbind (encoding rt) (\<lambda>rt_no. cls_ldst_regimm 0b11 0 0b01 imm12 rn rt_no)))"

definition a64_ldr_ind :: "register \<Rightarrow> register \<Rightarrow> register \<Rightarrow> extend \<Rightarrow> u32 \<Rightarrow> a64_step" where
  "a64_ldr_ind rt rn rm ext amount =
     a64_emit (rbind (rassert (is_gpr rt)) (\<lambda>_. rbind (encoding rt) (\<lambda>rt_no. cls_ldst_regoffset 0b11 0 0b01 rm ext amount rn rt_no)))"

definition a64_ldr_unscaled :: "register \<Rightarrow> register \<Rightarrow> int \<Rightarrow> a64_step" where
  "a64_ldr_unscaled rt rn imm9 =
     a64_emit (rbind (rassert (is_gpr rt)) (\<lambda>_. rbind (encoding rt) (\<lambda>rt_no. cls_ldst_reg_unscaledimm 0b11 0 0b01 imm9 rn rt_no)))"

definition a64_ldr_imm_b :: "register \<Rightarrow> register \<Rightarrow> u32 \<Rightarrow> a64_step" where
  "a64_ldr_imm_b rt rn imm12 =
     a64_emit (rbind (rassert (is_gpr rt)) (\<lambda>_. rbind (encoding rt) (\<lambda>rt_no. cls_ldst_regimm 0b00 0 0b01 imm12 rn rt_no)))"

definition a64_ldr_ind_b :: "register \<Rightarrow> register \<Rightarrow> register \<Rightarrow> extend \<Rightarrow> u32 \<Rightarrow> a64_step" where
  "a64_ldr_ind_b rt rn rm ext amount =
     a64_emit (rbind (rassert (is_gpr rt)) (\<lambda>_. rbind (encoding rt) (\<lambda>rt_no. cls_ldst_regoffset 0b00 0 0b01 rm ext amount rn rt_no)))"

definition a64_ldr_unscaled_b :: "register \<Rightarrow> register \<Rightarrow> int \<Rightarrow> a64_step" where
  "a64_ldr_unscaled_b rt rn imm9 =
     a64_emit (rbind (rassert (is_gpr rt)) (\<lambda>_. rbind (encoding rt) (\<lambda>rt_no. cls_ldst_reg_unscaledimm 0b00 0 0b01 imm9 rn rt_no)))"

definition a64_ldr_imm_d :: "neon_register \<Rightarrow> register \<Rightarrow> u32 \<Rightarrow> a64_step" where
  "a64_ldr_imm_d rt rn imm12 = a64_emit (cls_ldst_regimm 0b11 1 0b01 imm12 rn (neon_encoding rt))"

definition a64_ldr_ind_d :: "neon_register \<Rightarrow> register \<Rightarrow> register \<Rightarrow> extend \<Rightarrow> u32 \<Rightarrow> a64_step" where
  "a64_ldr_ind_d rt rn rm ext amount = a64_emit (cls_ldst_regoffset 0b11 1 0b01 rm ext amount rn (neon_encoding rt))"

definition a64_ldr_unscaled_d :: "neon_register \<Rightarrow> register \<Rightarrow> int \<Rightarrow> a64_step" where
  "a64_ldr_unscaled_d rt rn imm9 = a64_emit (cls_ldst_reg_unscaledimm 0b11 1 0b01 imm9 rn (neon_encoding rt))"

definition a64_ldr_imm_h :: "register \<Rightarrow> register \<Rightarrow> u32 \<Rightarrow> a64_step" where
  "a64_ldr_imm_h rt rn imm12 =
     a64_emit (rbind (rassert (is_gpr rt)) (\<lambda>_. rbind (encoding rt) (\<lambda>rt_no. cls_ldst_regimm 0b01 0 0b01 imm12 rn rt_no)))"

definition a64_ldr_ind_h :: "register \<Rightarrow> register \<Rightarrow> register \<Rightarrow> extend \<Rightarrow> u32 \<Rightarrow> a64_step" where
  "a64_ldr_ind_h rt rn rm ext amount =
     a64_emit (rbind (rassert (is_gpr rt)) (\<lambda>_. rbind (encoding rt) (\<lambda>rt_no. cls_ldst_regoffset 0b01 0 0b01 rm ext amount rn rt_no)))"

definition a64_ldr_unscaled_h :: "register \<Rightarrow> register \<Rightarrow> int \<Rightarrow> a64_step" where
  "a64_ldr_unscaled_h rt rn imm9 =
     a64_emit (rbind (rassert (is_gpr rt)) (\<lambda>_. rbind (encoding rt) (\<lambda>rt_no. cls_ldst_reg_unscaledimm 0b01 0 0b01 imm9 rn rt_no)))"

definition a64_ldr_imm_s :: "neon_register \<Rightarrow> register \<Rightarrow> u32 \<Rightarrow> a64_step" where
  "a64_ldr_imm_s rt rn imm12 = a64_emit (cls_ldst_regimm 0b10 1 0b01 imm12 rn (neon_encoding rt))"

definition a64_ldr_ind_s :: "neon_register \<Rightarrow> register \<Rightarrow> register \<Rightarrow> extend \<Rightarrow> u32 \<Rightarrow> a64_step" where
  "a64_ldr_ind_s rt rn rm ext amount = a64_emit (cls_ldst_regoffset 0b10 1 0b01 rm ext amount rn (neon_encoding rt))"

definition a64_ldr_unscaled_s :: "neon_register \<Rightarrow> register \<Rightarrow> int \<Rightarrow> a64_step" where
  "a64_ldr_unscaled_s rt rn imm9 = a64_emit (cls_ldst_reg_unscaledimm 0b10 1 0b01 imm9 rn (neon_encoding rt))"

definition a64_ldr_imm_w :: "register \<Rightarrow> register \<Rightarrow> u32 \<Rightarrow> a64_step" where
  "a64_ldr_imm_w rt rn imm12 =
     a64_emit (rbind (rassert (is_gpr rt)) (\<lambda>_. rbind (encoding rt) (\<lambda>rt_no. cls_ldst_regimm 0b10 0 0b01 imm12 rn rt_no)))"

definition a64_ldr_ind_w :: "register \<Rightarrow> register \<Rightarrow> register \<Rightarrow> extend \<Rightarrow> u32 \<Rightarrow> a64_step" where
  "a64_ldr_ind_w rt rn rm ext amount =
     a64_emit (rbind (rassert (is_gpr rt)) (\<lambda>_. rbind (encoding rt) (\<lambda>rt_no. cls_ldst_regoffset 0b10 0 0b01 rm ext amount rn rt_no)))"

definition a64_ldr_unscaled_w :: "register \<Rightarrow> register \<Rightarrow> int \<Rightarrow> a64_step" where
  "a64_ldr_unscaled_w rt rn imm9 =
     a64_emit (rbind (rassert (is_gpr rt)) (\<lambda>_. rbind (encoding rt) (\<lambda>rt_no. cls_ldst_reg_unscaledimm 0b10 0 0b01 imm9 rn rt_no)))"

definition a64_ldxr :: "register \<Rightarrow> register \<Rightarrow> a64_step" where
  "a64_ldxr rt rn = a64_emit (cls_ldst_exclusive 0b11 0 1 0 REG_ZERO 0 REG_ZERO rn rt)"

definition a64_ldxr_w :: "register \<Rightarrow> register \<Rightarrow> a64_step" where
  "a64_ldxr_w rt rn = a64_emit (cls_ldst_exclusive 0b10 0 1 0 REG_ZERO 0 REG_ZERO rn rt)"

definition a64_ldaxr :: "register \<Rightarrow> register \<Rightarrow> a64_step" where
  "a64_ldaxr rt rn = a64_emit (cls_ldst_exclusive 0b11 0 1 0 REG_ZERO 1 REG_ZERO rn rt)"

definition a64_ldaxr_w :: "register \<Rightarrow> register \<Rightarrow> a64_step" where
  "a64_ldaxr_w rt rn = a64_emit (cls_ldst_exclusive 0b10 0 1 0 REG_ZERO 1 REG_ZERO rn rt)"

definition a64_stlr :: "register \<Rightarrow> register \<Rightarrow> a64_step" where
  "a64_stlr rt rn = a64_emit (cls_ldst_exclusive 0b11 1 0 0 REG_ZERO 1 REG_ZERO rn rt)"

definition a64_stlr_w :: "register \<Rightarrow> register \<Rightarrow> a64_step" where
  "a64_stlr_w rt rn = a64_emit (cls_ldst_exclusive 0b10 1 0 0 REG_ZERO 1 REG_ZERO rn rt)"

definition a64_stp :: "register \<Rightarrow> register \<Rightarrow> register \<Rightarrow> int \<Rightarrow> a64_step" where
  "a64_stp rt rt2 rn imm7 = a64_emit (cls_ldst_pair 0b10 0 0 imm7 rt2 rn rt)"

definition a64_stp_w :: "register \<Rightarrow> register \<Rightarrow> register \<Rightarrow> int \<Rightarrow> a64_step" where
  "a64_stp_w rt rt2 rn imm7 = a64_emit (cls_ldst_pair 0b00 0 0 imm7 rt2 rn rt)"

definition a64_stp_pre :: "register \<Rightarrow> register \<Rightarrow> register \<Rightarrow> int \<Rightarrow> a64_step" where
  "a64_stp_pre rt rt2 rn imm7 = a64_emit (cls_ldst_pair_pre 0b10 0 0 imm7 rt2 rn rt)"

definition a64_stp_pre_w :: "register \<Rightarrow> register \<Rightarrow> register \<Rightarrow> int \<Rightarrow> a64_step" where
  "a64_stp_pre_w rt rt2 rn imm7 = a64_emit (cls_ldst_pair_pre 0b00 0 0 imm7 rt2 rn rt)"

definition a64_str_imm :: "register \<Rightarrow> register \<Rightarrow> u32 \<Rightarrow> a64_step" where
  "a64_str_imm rt rn imm12 =
     a64_emit (rbind (rassert (is_gpr_or_zero rt)) (\<lambda>_. rbind (encoding_zero rt) (\<lambda>rt_no. cls_ldst_regimm 0b11 0 0b00 imm12 rn rt_no)))"

definition a64_str_ind :: "register \<Rightarrow> register \<Rightarrow> register \<Rightarrow> extend \<Rightarrow> u32 \<Rightarrow> a64_step" where
  "a64_str_ind rt rn rm ext amount =
     a64_emit (rbind (rassert (is_gpr_or_zero rt)) (\<lambda>_. rbind (encoding_zero rt) (\<lambda>rt_no. cls_ldst_regoffset 0b11 0 0b00 rm ext amount rn rt_no)))"

definition a64_str_unscaled :: "register \<Rightarrow> register \<Rightarrow> int \<Rightarrow> a64_step" where
  "a64_str_unscaled rt rn imm9 =
     a64_emit (rbind (rassert (is_gpr_or_zero rt)) (\<lambda>_. rbind (encoding_zero rt) (\<lambda>rt_no. cls_ldst_reg_unscaledimm 0b11 0 0b00 imm9 rn rt_no)))"

definition a64_str_imm_b :: "register \<Rightarrow> register \<Rightarrow> u32 \<Rightarrow> a64_step" where
  "a64_str_imm_b rt rn imm12 =
     a64_emit (rbind (rassert (is_gpr_or_zero rt)) (\<lambda>_. rbind (encoding_zero rt) (\<lambda>rt_no. cls_ldst_regimm 0b00 0 0b00 imm12 rn rt_no)))"

definition a64_str_ind_b :: "register \<Rightarrow> register \<Rightarrow> register \<Rightarrow> extend \<Rightarrow> u32 \<Rightarrow> a64_step" where
  "a64_str_ind_b rt rn rm ext amount =
     a64_emit (rbind (rassert (is_gpr_or_zero rt)) (\<lambda>_. rbind (encoding_zero rt) (\<lambda>rt_no. cls_ldst_regoffset 0b00 0 0b00 rm ext amount rn rt_no)))"

definition a64_str_unscaled_b :: "register \<Rightarrow> register \<Rightarrow> int \<Rightarrow> a64_step" where
  "a64_str_unscaled_b rt rn imm9 =
     a64_emit (rbind (rassert (is_gpr_or_zero rt)) (\<lambda>_. rbind (encoding_zero rt) (\<lambda>rt_no. cls_ldst_reg_unscaledimm 0b00 0 0b00 imm9 rn rt_no)))"

definition a64_str_imm_d :: "neon_register \<Rightarrow> register \<Rightarrow> u32 \<Rightarrow> a64_step" where
  "a64_str_imm_d rt rn imm12 = a64_emit (cls_ldst_regimm 0b11 1 0b00 imm12 rn (neon_encoding rt))"

definition a64_str_ind_d :: "neon_register \<Rightarrow> register \<Rightarrow> register \<Rightarrow> extend \<Rightarrow> u32 \<Rightarrow> a64_step" where
  "a64_str_ind_d rt rn rm ext amount = a64_emit (cls_ldst_regoffset 0b11 1 0b00 rm ext amount rn (neon_encoding rt))"

definition a64_str_unscaled_d :: "neon_register \<Rightarrow> register \<Rightarrow> int \<Rightarrow> a64_step" where
  "a64_str_unscaled_d rt rn imm9 = a64_emit (cls_ldst_reg_unscaledimm 0b11 1 0b00 imm9 rn (neon_encoding rt))"

definition a64_str_imm_h :: "register \<Rightarrow> register \<Rightarrow> u32 \<Rightarrow> a64_step" where
  "a64_str_imm_h rt rn imm12 =
     a64_emit (rbind (rassert (is_gpr_or_zero rt)) (\<lambda>_. rbind (encoding_zero rt) (\<lambda>rt_no. cls_ldst_regimm 0b01 0 0b00 imm12 rn rt_no)))"

definition a64_str_ind_h :: "register \<Rightarrow> register \<Rightarrow> register \<Rightarrow> extend \<Rightarrow> u32 \<Rightarrow> a64_step" where
  "a64_str_ind_h rt rn rm ext amount =
     a64_emit (rbind (rassert (is_gpr_or_zero rt)) (\<lambda>_. rbind (encoding_zero rt) (\<lambda>rt_no. cls_ldst_regoffset 0b01 0 0b00 rm ext amount rn rt_no)))"

definition a64_str_unscaled_h :: "register \<Rightarrow> register \<Rightarrow> int \<Rightarrow> a64_step" where
  "a64_str_unscaled_h rt rn imm9 =
     a64_emit (rbind (rassert (is_gpr_or_zero rt)) (\<lambda>_. rbind (encoding_zero rt) (\<lambda>rt_no. cls_ldst_reg_unscaledimm 0b01 0 0b00 imm9 rn rt_no)))"

definition a64_str_imm_s :: "neon_register \<Rightarrow> register \<Rightarrow> u32 \<Rightarrow> a64_step" where
  "a64_str_imm_s rt rn imm12 = a64_emit (cls_ldst_regimm 0b10 1 0b00 imm12 rn (neon_encoding rt))"

definition a64_str_ind_s :: "neon_register \<Rightarrow> register \<Rightarrow> register \<Rightarrow> extend \<Rightarrow> u32 \<Rightarrow> a64_step" where
  "a64_str_ind_s rt rn rm ext amount = a64_emit (cls_ldst_regoffset 0b10 1 0b00 rm ext amount rn (neon_encoding rt))"

definition a64_str_unscaled_s :: "neon_register \<Rightarrow> register \<Rightarrow> int \<Rightarrow> a64_step" where
  "a64_str_unscaled_s rt rn imm9 = a64_emit (cls_ldst_reg_unscaledimm 0b10 1 0b00 imm9 rn (neon_encoding rt))"

definition a64_str_imm_w :: "register \<Rightarrow> register \<Rightarrow> u32 \<Rightarrow> a64_step" where
  "a64_str_imm_w rt rn imm12 =
     a64_emit (rbind (rassert (is_gpr_or_zero rt)) (\<lambda>_. rbind (encoding_zero rt) (\<lambda>rt_no. cls_ldst_regimm 0b10 0 0b00 imm12 rn rt_no)))"

definition a64_str_ind_w :: "register \<Rightarrow> register \<Rightarrow> register \<Rightarrow> extend \<Rightarrow> u32 \<Rightarrow> a64_step" where
  "a64_str_ind_w rt rn rm ext amount =
     a64_emit (rbind (rassert (is_gpr_or_zero rt)) (\<lambda>_. rbind (encoding_zero rt) (\<lambda>rt_no. cls_ldst_regoffset 0b10 0 0b00 rm ext amount rn rt_no)))"

definition a64_str_unscaled_w :: "register \<Rightarrow> register \<Rightarrow> int \<Rightarrow> a64_step" where
  "a64_str_unscaled_w rt rn imm9 =
     a64_emit (rbind (rassert (is_gpr_or_zero rt)) (\<lambda>_. rbind (encoding_zero rt) (\<lambda>rt_no. cls_ldst_reg_unscaledimm 0b10 0 0b00 imm9 rn rt_no)))"

definition a64_stxr :: "register \<Rightarrow> register \<Rightarrow> register \<Rightarrow> a64_step" where
  "a64_stxr status src addr = a64_emit (cls_ldst_exclusive 0b11 0 0 0 status 0 REG_ZERO addr src)"

definition a64_stxr_w :: "register \<Rightarrow> register \<Rightarrow> register \<Rightarrow> a64_step" where
  "a64_stxr_w status src addr = a64_emit (cls_ldst_exclusive 0b10 0 0 0 status 0 REG_ZERO addr src)"

definition a64_stlxr :: "register \<Rightarrow> register \<Rightarrow> register \<Rightarrow> a64_step" where
  "a64_stlxr status src addr = a64_emit (cls_ldst_exclusive 0b11 0 0 0 status 1 REG_ZERO addr src)"

definition a64_stlxr_w :: "register \<Rightarrow> register \<Rightarrow> register \<Rightarrow> a64_step" where
  "a64_stlxr_w status src addr = a64_emit (cls_ldst_exclusive 0b10 0 0 0 status 1 REG_ZERO addr src)"

definition a64_swp :: "register \<Rightarrow> register \<Rightarrow> register \<Rightarrow> a64_step" where
  "a64_swp new old address = a64_emit (cls_atomic_op 0b11 0 0 0 new 1 0b000 address old)"

definition a64_swp_w :: "register \<Rightarrow> register \<Rightarrow> register \<Rightarrow> a64_step" where
  "a64_swp_w new old address = a64_emit (cls_atomic_op 0b10 0 0 0 new 1 0b000 address old)"

definition a64_swpa :: "register \<Rightarrow> register \<Rightarrow> register \<Rightarrow> a64_step" where
  "a64_swpa new old address = a64_emit (cls_atomic_op 0b11 0 1 0 new 1 0b000 address old)"

definition a64_swpa_w :: "register \<Rightarrow> register \<Rightarrow> register \<Rightarrow> a64_step" where
  "a64_swpa_w new old address = a64_emit (cls_atomic_op 0b10 0 1 0 new 1 0b000 address old)"

definition a64_swpal :: "register \<Rightarrow> register \<Rightarrow> register \<Rightarrow> a64_step" where
  "a64_swpal new old address = a64_emit (cls_atomic_op 0b11 0 1 1 new 1 0b000 address old)"

definition a64_swpal_w :: "register \<Rightarrow> register \<Rightarrow> register \<Rightarrow> a64_step" where
  "a64_swpal_w new old address = a64_emit (cls_atomic_op 0b10 0 1 1 new 1 0b000 address old)"

definition a64_swpl :: "register \<Rightarrow> register \<Rightarrow> register \<Rightarrow> a64_step" where
  "a64_swpl new old address = a64_emit (cls_atomic_op 0b11 0 0 1 new 1 0b000 address old)"

definition a64_swpl_w :: "register \<Rightarrow> register \<Rightarrow> register \<Rightarrow> a64_step" where
  "a64_swpl_w new old address = a64_emit (cls_atomic_op 0b10 0 0 1 new 1 0b000 address old)"

definition a64_ubfm :: "register \<Rightarrow> register \<Rightarrow> u32 \<Rightarrow> u32 \<Rightarrow> a64_step" where
  "a64_ubfm rd rn immr imms = a64_emit (cls_bitfield 1 0b10 1 immr imms rn rd)"

definition a64_lsl_imm :: "register \<Rightarrow> register \<Rightarrow> u32 \<Rightarrow> a64_step" where
  "a64_lsl_imm rd rn shift s =
     rbind (checked_sub_u32 64 shift) (\<lambda>d. rbind (checked_sub_u32 (64 - 1) shift) (\<lambda>e. a64_ubfm rd rn (d AND 0x3F) e s))"

definition a64_ubfm_w :: "register \<Rightarrow> register \<Rightarrow> u32 \<Rightarrow> u32 \<Rightarrow> a64_step" where
  "a64_ubfm_w rd rn immr imms = a64_emit (cls_bitfield 0 0b10 0 immr imms rn rd)"

definition a64_lsl_imm_w :: "register \<Rightarrow> register \<Rightarrow> u32 \<Rightarrow> a64_step" where
  "a64_lsl_imm_w rd rn shift s =
     rbind (checked_sub_u32 32 shift) (\<lambda>d. rbind (checked_sub_u32 (32 - 1) shift) (\<lambda>e. a64_ubfm_w rd rn (d AND 0x1F) e s))"

definition a64_lslv :: "register \<Rightarrow> register \<Rightarrow> register \<Rightarrow> a64_step" where
  "a64_lslv rd rn rm = a64_emit (cls_dataproc2 1 0 rm 0b1000 rn rd)"

definition a64_lslv_w :: "register \<Rightarrow> register \<Rightarrow> register \<Rightarrow> a64_step" where
  "a64_lslv_w rd rn rm = a64_emit (cls_dataproc2 0 0 rm 0b1000 rn rd)"

definition a64_lsr_imm :: "register \<Rightarrow> register \<Rightarrow> u32 \<Rightarrow> a64_step" where
  "a64_lsr_imm rd rn shift = a64_ubfm rd rn shift 63"

definition a64_lsr_imm_w :: "register \<Rightarrow> register \<Rightarrow> u32 \<Rightarrow> a64_step" where
  "a64_lsr_imm_w rd rn shift = a64_ubfm_w rd rn shift 31"

definition a64_lsrv :: "register \<Rightarrow> register \<Rightarrow> register \<Rightarrow> a64_step" where
  "a64_lsrv rd rn rm = a64_emit (cls_dataproc2 1 0 rm 0b1001 rn rd)"

definition a64_lsrv_w :: "register \<Rightarrow> register \<Rightarrow> register \<Rightarrow> a64_step" where
  "a64_lsrv_w rd rn rm = a64_emit (cls_dataproc2 0 0 rm 0b1001 rn rd)"

definition a64_madd :: "register \<Rightarrow> register \<Rightarrow> register \<Rightarrow> register \<Rightarrow> a64_step" where
  "a64_madd rd rn rm ra = a64_emit (cls_dataproc3 1 0 0 rm 0 ra rn rd)"

definition a64_madd_w :: "register \<Rightarrow> register \<Rightarrow> register \<Rightarrow> register \<Rightarrow> a64_step" where
  "a64_madd_w rd rn rm ra = a64_emit (cls_dataproc3 0 0 0 rm 0 ra rn rd)"

definition a64_orr_sh :: "register \<Rightarrow> register \<Rightarrow> register \<Rightarrow> shift \<Rightarrow> u32 \<Rightarrow> a64_step" where
  "a64_orr_sh rd rn rm shift imm6 = a64_emit (cls_logical_shreg 1 0b01 shift 0 rm imm6 rn rd)"

definition a64_mov :: "register \<Rightarrow> register \<Rightarrow> a64_step" where
  "a64_mov rd rs = (if rd = REG_SP \<or> rs = REG_SP then a64_add_imm rd rs 0 0 else a64_orr_sh rd REG_ZERO rs LSL 0)"

definition a64_orr_sh_w :: "register \<Rightarrow> register \<Rightarrow> register \<Rightarrow> shift \<Rightarrow> u32 \<Rightarrow> a64_step" where
  "a64_orr_sh_w rd rn rm shift imm6 = a64_emit (cls_logical_shreg 0 0b01 shift 0 rm imm6 rn rd)"

definition a64_mov_w :: "register \<Rightarrow> register \<Rightarrow> a64_step" where
  "a64_mov_w rd rs = (if rd = REG_SP \<or> rs = REG_SP then a64_add_imm_w rd rs 0 0 else a64_orr_sh_w rd REG_ZERO rs LSL 0)"

definition a64_movn :: "register \<Rightarrow> u32 \<Rightarrow> u32 \<Rightarrow> a64_step" where
  "a64_movn rd imm16 shift = a64_emit (cls_move_wide_imm 1 0b00 shift imm16 rd)"

definition a64_movn_w :: "register \<Rightarrow> u32 \<Rightarrow> u32 \<Rightarrow> a64_step" where
  "a64_movn_w rd imm16 shift = a64_emit (cls_move_wide_imm 0 0b00 shift imm16 rd)"

definition a64_movz :: "register \<Rightarrow> u32 \<Rightarrow> u32 \<Rightarrow> a64_step" where
  "a64_movz rd imm16 shift = a64_emit (cls_move_wide_imm 1 0b10 shift imm16 rd)"

definition a64_movz_w :: "register \<Rightarrow> u32 \<Rightarrow> u32 \<Rightarrow> a64_step" where
  "a64_movz_w rd imm16 shift = a64_emit (cls_move_wide_imm 0 0b10 shift imm16 rd)"

definition a64_movk :: "register \<Rightarrow> u32 \<Rightarrow> u32 \<Rightarrow> a64_step" where
  "a64_movk rd imm16 shift = a64_emit (cls_move_wide_imm 1 0b11 shift imm16 rd)"

definition a64_movk_w :: "register \<Rightarrow> u32 \<Rightarrow> u32 \<Rightarrow> a64_step" where
  "a64_movk_w rd imm16 shift = a64_emit (cls_move_wide_imm 0 0b11 shift imm16 rd)"

definition a64_msub :: "register \<Rightarrow> register \<Rightarrow> register \<Rightarrow> register \<Rightarrow> a64_step" where
  "a64_msub rd rn rm ra = a64_emit (cls_dataproc3 1 0 0 rm 1 ra rn rd)"

definition a64_msub_w :: "register \<Rightarrow> register \<Rightarrow> register \<Rightarrow> register \<Rightarrow> a64_step" where
  "a64_msub_w rd rn rm ra = a64_emit (cls_dataproc3 0 0 0 rm 1 ra rn rd)"

definition a64_mul :: "register \<Rightarrow> register \<Rightarrow> register \<Rightarrow> a64_step" where
  "a64_mul rd rn rm = a64_madd rd rn rm REG_ZERO"

definition a64_mul_w :: "register \<Rightarrow> register \<Rightarrow> register \<Rightarrow> a64_step" where
  "a64_mul_w rd rn rm = a64_madd_w rd rn rm REG_ZERO"

definition a64_muls :: "register \<Rightarrow> register \<Rightarrow> register \<Rightarrow> a64_step" where
  "a64_muls rd rn rm = a64_madd rd rn rm REG_ZERO"

definition a64_muls_w :: "register \<Rightarrow> register \<Rightarrow> register \<Rightarrow> a64_step" where
  "a64_muls_w rd rn rm = a64_madd_w rd rn rm REG_ZERO"

definition a64_nop :: "a64_step" where
  "a64_nop = a64_emit (cls_system 0)"

definition a64_orn_sh :: "register \<Rightarrow> register \<Rightarrow> register \<Rightarrow> shift \<Rightarrow> u32 \<Rightarrow> a64_step" where
  "a64_orn_sh rd rn rm shift imm6 = a64_emit (cls_logical_shreg 1 0b01 shift 1 rm imm6 rn rd)"

definition a64_orn_sh_w :: "register \<Rightarrow> register \<Rightarrow> register \<Rightarrow> shift \<Rightarrow> u32 \<Rightarrow> a64_step" where
  "a64_orn_sh_w rd rn rm shift imm6 = a64_emit (cls_logical_shreg 0 0b01 shift 1 rm imm6 rn rd)"

definition a64_rbit_w :: "register \<Rightarrow> register \<Rightarrow> a64_step" where
  "a64_rbit_w rd rn = a64_emit (cls_dataproc1 0 0 0b00000 0b000000 rn rd)"

definition a64_rbit :: "register \<Rightarrow> register \<Rightarrow> a64_step" where
  "a64_rbit rd rn = a64_emit (cls_dataproc1 1 0 0b00000 0b000000 rn rd)"

definition a64_ret :: "register \<Rightarrow> a64_step" where
  "a64_ret rn = a64_emit (cls_uncond_branch_reg 0b0010 0b11111 0 rn 0)"

definition a64_rev_w :: "register \<Rightarrow> register \<Rightarrow> a64_step" where
  "a64_rev_w rd rn = a64_emit (cls_dataproc1 0 0 0b00000 0b000001 rn rd)"

definition a64_rev :: "register \<Rightarrow> register \<Rightarrow> a64_step" where
  "a64_rev rd rn = a64_emit (cls_dataproc1 0 0 0b00000 0b000001 rn rd)"

definition a64_rorv :: "register \<Rightarrow> register \<Rightarrow> register \<Rightarrow> a64_step" where
  "a64_rorv rd rn rm = a64_emit (cls_dataproc2 1 0 rm 0b1011 rn rd)"

definition a64_rorv_w :: "register \<Rightarrow> register \<Rightarrow> register \<Rightarrow> a64_step" where
  "a64_rorv_w rd rn rm = a64_emit (cls_dataproc2 0 0 rm 0b1011 rn rd)"

definition a64_sbfm :: "register \<Rightarrow> register \<Rightarrow> u32 \<Rightarrow> u32 \<Rightarrow> a64_step" where
  "a64_sbfm rd rn immr imms = a64_emit (cls_bitfield 1 0b00 1 immr imms rn rd)"

definition a64_sbfm_w :: "register \<Rightarrow> register \<Rightarrow> u32 \<Rightarrow> u32 \<Rightarrow> a64_step" where
  "a64_sbfm_w rd rn immr imms = a64_emit (cls_bitfield 0 0b00 0 immr imms rn rd)"

definition a64_sdiv :: "register \<Rightarrow> register \<Rightarrow> register \<Rightarrow> a64_step" where
  "a64_sdiv rd rn rm = a64_emit (cls_dataproc2 1 0 rm 0b11 rn rd)"

definition a64_sdiv_w :: "register \<Rightarrow> register \<Rightarrow> register \<Rightarrow> a64_step" where
  "a64_sdiv_w rd rn rm = a64_emit (cls_dataproc2 0 0 rm 0b11 rn rd)"

definition a64_scvtf_d :: "neon_register \<Rightarrow> register \<Rightarrow> a64_step" where
  "a64_scvtf_d rd rn =
     a64_emit (rbind (encoding rn) (\<lambda>rn_no. cls_fp_int 1 0 FLOAT_TYPE_DOUBLE 0b00 0b010 rn_no (neon_encoding rd)))"

definition a64_scvtf_h :: "neon_register \<Rightarrow> register \<Rightarrow> a64_step" where
  "a64_scvtf_h rd rn =
     a64_emit (rbind (encoding rn) (\<lambda>rn_no. cls_fp_int 1 0 FLOAT_TYPE_HALF 0b00 0b010 rn_no (neon_encoding rd)))"

definition a64_scvtf_s :: "neon_register \<Rightarrow> register \<Rightarrow> a64_step" where
  "a64_scvtf_s rd rn =
     a64_emit (rbind (encoding rn) (\<lambda>rn_no. cls_fp_int 1 0 FLOAT_TYPE_SINGLE 0b00 0b010 rn_no (neon_encoding rd)))"

definition a64_scvtf_wd :: "neon_register \<Rightarrow> register \<Rightarrow> a64_step" where
  "a64_scvtf_wd rd rn =
     a64_emit (rbind (encoding rn) (\<lambda>rn_no. cls_fp_int 0 0 FLOAT_TYPE_DOUBLE 0b00 0b010 rn_no (neon_encoding rd)))"

definition a64_scvtf_wh :: "neon_register \<Rightarrow> register \<Rightarrow> a64_step" where
  "a64_scvtf_wh rd rn =
     a64_emit (rbind (encoding rn) (\<lambda>rn_no. cls_fp_int 0 0 FLOAT_TYPE_HALF 0b00 0b010 rn_no (neon_encoding rd)))"

definition a64_scvtf_ws :: "neon_register \<Rightarrow> register \<Rightarrow> a64_step" where
  "a64_scvtf_ws rd rn =
     a64_emit (rbind (encoding rn) (\<lambda>rn_no. cls_fp_int 0 0 FLOAT_TYPE_SINGLE 0b00 0b010 rn_no (neon_encoding rd)))"

definition a64_smaddl :: "register \<Rightarrow> register \<Rightarrow> register \<Rightarrow> register \<Rightarrow> a64_step" where
  "a64_smaddl rd rn rm ra = a64_emit (cls_dataproc3 1 0b00 0b001 rm 0 ra rn rd)"

definition a64_smull :: "register \<Rightarrow> register \<Rightarrow> register \<Rightarrow> a64_step" where
  "a64_smull rd rn rm = a64_smaddl rd rn rm REG_ZERO"

definition a64_smulh :: "register \<Rightarrow> register \<Rightarrow> register \<Rightarrow> a64_step" where
  "a64_smulh rd rn rm = a64_emit (cls_dataproc3 1 0 0b010 rm 0 REG_ZERO rn rd)"

definition a64_sub_ext :: "register \<Rightarrow> register \<Rightarrow> register \<Rightarrow> extend \<Rightarrow> u32 \<Rightarrow> a64_step" where
  "a64_sub_ext rd rn rm ext amount = a64_emit (cls_addsub_extreg 1 1 0 0 rm ext amount rn rd)"

definition a64_sub_sh :: "register \<Rightarrow> register \<Rightarrow> register \<Rightarrow> shift \<Rightarrow> u32 \<Rightarrow> a64_step" where
  "a64_sub_sh rd rn rm shift amount = a64_emit (cls_addsub_shreg 1 1 0 shift rm amount rn rd)"

definition a64_sub :: "register \<Rightarrow> register \<Rightarrow> register \<Rightarrow> a64_step" where
  "a64_sub rd rn rm = (if rd = REG_SP \<or> rn = REG_SP then a64_sub_ext rd rn rm UXTX 0 else a64_sub_sh rd rn rm LSL 0)"

definition a64_sub_ext_w :: "register \<Rightarrow> register \<Rightarrow> register \<Rightarrow> extend \<Rightarrow> u32 \<Rightarrow> a64_step" where
  "a64_sub_ext_w rd rn rm ext amount = a64_emit (cls_addsub_extreg 0 1 0 0 rm ext amount rn rd)"

definition a64_sub_sh_w :: "register \<Rightarrow> register \<Rightarrow> register \<Rightarrow> shift \<Rightarrow> u32 \<Rightarrow> a64_step" where
  "a64_sub_sh_w rd rn rm shift amount = a64_emit (cls_addsub_shreg 0 1 0 shift rm amount rn rd)"

definition a64_sub_w :: "register \<Rightarrow> register \<Rightarrow> register \<Rightarrow> a64_step" where
  "a64_sub_w rd rn rm = (if rd = REG_SP \<or> rn = REG_SP then a64_sub_ext_w rd rn rm UXTX 0 else a64_sub_sh_w rd rn rm LSL 0)"

definition a64_sub_imm :: "register \<Rightarrow> register \<Rightarrow> u32 \<Rightarrow> u32 \<Rightarrow> a64_step" where
  "a64_sub_imm rd rn imm12 shift = a64_emit (cls_addsub_imm 1 1 0 shift imm12 rn rd)"

definition a64_sub_imm_w :: "register \<Rightarrow> register \<Rightarrow> u32 \<Rightarrow> u32 \<Rightarrow> a64_step" where
  "a64_sub_imm_w rd rn imm12 shift = a64_emit (cls_addsub_imm 0 1 0 shift imm12 rn rd)"

definition a64_subs_ext_w :: "register \<Rightarrow> register \<Rightarrow> register \<Rightarrow> extend \<Rightarrow> u32 \<Rightarrow> a64_step" where
  "a64_subs_ext_w rd rn rm ext amount = a64_emit (cls_addsub_extreg 0 1 1 0 rm ext amount rn rd)"

definition a64_subs_sh :: "register \<Rightarrow> register \<Rightarrow> register \<Rightarrow> shift \<Rightarrow> u32 \<Rightarrow> a64_step" where
  "a64_subs_sh rd rn rm shift amount = a64_emit (cls_addsub_shreg 1 1 1 shift rm amount rn rd)"

definition a64_subs_sh_w :: "register \<Rightarrow> register \<Rightarrow> register \<Rightarrow> shift \<Rightarrow> u32 \<Rightarrow> a64_step" where
  "a64_subs_sh_w rd rn rm shift amount = a64_emit (cls_addsub_shreg 0 1 1 shift rm amount rn rd)"

definition a64_sxtw :: "register \<Rightarrow> register \<Rightarrow> a64_step" where
  "a64_sxtw rd rn = a64_sbfm rd rn 0 31"

definition a64_udiv :: "register \<Rightarrow> register \<Rightarrow> register \<Rightarrow> a64_step" where
  "a64_udiv rd rn rm = a64_emit (cls_dataproc2 1 0 rm 0b10 rn rd)"

definition a64_udiv_w :: "register \<Rightarrow> register \<Rightarrow> register \<Rightarrow> a64_step" where
  "a64_udiv_w rd rn rm = a64_emit (cls_dataproc2 0 0 rm 0b10 rn rd)"

definition a64_uxtb :: "register \<Rightarrow> register \<Rightarrow> a64_step" where
  "a64_uxtb rd rn = a64_ubfm_w rd rn 0 7"

definition a64_uxtw :: "register \<Rightarrow> register \<Rightarrow> a64_step" where
  "a64_uxtw rd rn = a64_ubfm rd rn 0 31"

subsection \<open>Resolving jumps\<close>

definition emit_jump :: "jump_kind \<Rightarrow> int \<Rightarrow> a64_step" where
  "emit_jump kind distance =
     (case kind of
        Conditional cond \<Rightarrow> a64_bc_imm cond distance
      | Unconditional \<Rightarrow> a64_b_imm distance
      | NonZero sf rt \<Rightarrow> (if sf then a64_cbnz_imm rt distance else a64_cbnz_imm_w rt distance)
      | Zero sf rt \<Rightarrow> (if sf then a64_cbz_imm rt distance else a64_cbz_imm_w rt distance))"

definition resolve_jump :: "forward_jump \<Rightarrow> a64_step" where
  "resolve_jump jmp s =
     rbind (a64_offset (fj_label jmp) s) (\<lambda>v.
     case v of
       None \<Rightarrow> Inl ExplicitPanic
     | Some lbl_offset \<Rightarrow>
         rbind (checked_i32 (as_i32 lbl_offset - as_i32 (fj_offset jmp))) (\<lambda>distance.
         rbind (rassert (rust_rem distance 4 = 0)) (\<lambda>_.
         emit_jump (fj_kind jmp) (rust_div distance 4) (a64_set_position (unat (fj_offset jmp)) s))))"

fun resolve_each :: "forward_jump list \<Rightarrow> a64_step" where
  "resolve_each [] s = Inr s"
| "resolve_each (jmp # jmps) s = rbind (resolve_jump jmp s) (resolve_each jmps)"

definition resolve_jumps :: a64_step where
  "resolve_jumps s =
     (let jmps = unresolved_jumps s; old_position = a64_position s
      in rbind (resolve_each jmps (s\<lparr>unresolved_jumps := []\<rparr>)) (\<lambda>s. Inr (a64_set_position old_position s)))"

text \<open>The loop that pads with \<open>brk\<close> may not end.\<close>

partial_function (option) align_loop :: "usize \<Rightarrow> assembler_arm64 \<Rightarrow> assembler_arm64 result option" where
  "align_loop alignment s =
     (if length (ab_code (asm_buffer s)) mod alignment \<noteq> 0 then
        (case a64_brk 0 s of Inl e \<Rightarrow> Some (Inl e) | Inr s' \<Rightarrow> align_loop alignment s')
      else Some (Inr s))"

declare align_loop.simps [code]

definition align_to :: "usize \<Rightarrow> assembler_arm64 \<Rightarrow> assembler_arm64 result option" where
  "align_to alignment s = (if alignment = 0 then Some (Inl ArithmeticOverflow) else align_loop alignment s)"

definition a64_finalize :: "usize option \<Rightarrow> assembler_arm64 \<Rightarrow> u8 list result option" where
  "a64_finalize alignment s =
     (case resolve_jumps s of
        Inl e \<Rightarrow> Some (Inl e)
      | Inr s \<Rightarrow> map_option (\<lambda>res. rbind res (\<lambda>s. Inr (ab_code (asm_buffer s))))
          (case alignment of None \<Rightarrow> Some (Inr s) | Some al \<Rightarrow> align_to al s))"

end
