(* ===== verification/Arm64Fields.thy ===== *)
theory Arm64Fields
  imports Arm64Inst
begin

text \<open>
  Words made of fields: a pattern of fixed bits and operands placed into the positions the pattern
  leaves open can be read back field by field.
\<close>

definition field :: "nat \<Rightarrow> nat \<Rightarrow> u32 \<Rightarrow> u32" where
  "field p w x = take_bit w (drop_bit p x)"

text \<open>A pattern lists the bits of a word from the highest to the lowest as \<open>0\<close>, \<open>1\<close> or \<open>x\<close>.\<close>

definition pattern_bit :: "string \<Rightarrow> nat \<Rightarrow> char" where
  "pattern_bit pat n = pat ! (31 - n)"

definition matches :: "string \<Rightarrow> u32 \<Rightarrow> bool" where
  "matches pat x = list_all (\<lambda>n. pattern_bit pat n = CHR ''x'' \<or> bit x n = (pattern_bit pat n = CHR ''1'')) [0..<32]"

definition conflict :: "string \<Rightarrow> string \<Rightarrow> bool" where
  "conflict p q = list_ex (\<lambda>n. pattern_bit p n \<noteq> CHR ''x'' \<and> pattern_bit q n \<noteq> CHR ''x''
     \<and> (pattern_bit p n = CHR ''1'') \<noteq> (pattern_bit q n = CHR ''1'')) [0..<32]"

definition pattern_word :: "string \<Rightarrow> u32" where
  "pattern_word pat = horner_sum of_bool 2 (map (\<lambda>n. pattern_bit pat n = CHR ''1'') [0..<32])"

fun place :: "(nat \<times> nat) list \<Rightarrow> u32 list \<Rightarrow> u32" where
  "place ((p, w) # fs) (v # vs) = push_bit p v OR place fs vs"
| "place _ _ = 0"

text \<open>The fields cover open positions only, and do not overlap.\<close>

definition field_bits :: "nat \<times> nat \<Rightarrow> nat list" where
  "field_bits = (\<lambda>(p, w). [p..<p + w])"

definition layout_ok :: "string \<Rightarrow> (nat \<times> nat) list \<Rightarrow> bool" where
  "layout_ok pat fs = (distinct (concat (map field_bits fs))
     \<and> list_all (\<lambda>n. n < 32 \<and> pattern_bit pat n = CHR ''x'') (concat (map field_bits fs)))"

definition fits :: "(nat \<times> nat) list \<Rightarrow> u32 list \<Rightarrow> bool" where
  "fits fs vs = list_all2 (\<lambda>(p, w) v. v < 2 ^ w) fs vs"

lemma conflict_exclusive: "conflict p q \<Longrightarrow> matches p x \<Longrightarrow> \<not> matches q x"
  unfolding conflict_def matches_def list_all_iff list_ex_iff by metis

lemma small_bit: "v < 2 ^ w \<Longrightarrow> bit v n \<Longrightarrow> n < w" for v :: u32
proof (rule ccontr)
  assume v: "v < 2 ^ w" "bit v n" "\<not> n < w"
  have "n < 32" using v(2) bit_imp_le_length by fastforce
  with v(3) have "w < 32" by simp
  with v(1) have "take_bit w v = v" by (simp add: less_mask_eq take_bit_eq_mask)
  with v(2,3) show False by (metis bit_take_bit_iff)
qed

lemma bit_place:
  "fits fs vs \<Longrightarrow> bit (place fs vs) n \<longleftrightarrow> n < 32 \<and> (\<exists>i < length fs. fst (fs ! i) \<le> n \<and> bit (vs ! i) (n - fst (fs ! i)))"
proof (induction fs vs rule: place.induct)
  case (1 p w fs v vs)
  then have "bit (place fs vs) n \<longleftrightarrow> n < 32 \<and> (\<exists>i < length fs. fst (fs ! i) \<le> n \<and> bit (vs ! i) (n - fst (fs ! i)))"
    by (simp add: fits_def)
  then show ?case
    by (simp only: place.simps bit_or_iff bit_push_bit_iff length_Cons Ex_less_Suc2 nth_Cons_0 nth_Cons_Suc fst_conv)
      (auto simp: bit_simps)
qed (auto simp: fits_def)

lemma layout_index:
  assumes "layout_ok pat fs" "i < length fs" "fst (fs ! i) \<le> n" "n < fst (fs ! i) + snd (fs ! i)"
  shows "n < 32" "pattern_bit pat n = CHR ''x''"
proof -
  have "n \<in> set (field_bits (fs ! i))" using assms(3,4) by (simp add: field_bits_def case_prod_beta)
  then have "n \<in> set (concat (map field_bits fs))" using assms(2) by force
  with assms(1) show "n < 32" "pattern_bit pat n = CHR ''x''" by (auto simp: layout_ok_def list_all_iff)
qed

lemma layout_disjoint:
  assumes "layout_ok pat fs" "i < length fs" "j < length fs" "n \<in> set (field_bits (fs ! i))" "n \<in> set (field_bits (fs ! j))"
  shows "i = j"
proof (rule ccontr)
  assume ne: "i \<noteq> j"
  have "distinct (concat (map field_bits fs))" using assms(1) by (simp add: layout_ok_def)
  then have "distinct (concat (map field_bits fs)) \<Longrightarrow> i < j \<Longrightarrow> j < length fs \<Longrightarrow> set (field_bits (fs ! i)) \<inter> set (field_bits (fs ! j)) = {}" for i j
  proof (induction fs arbitrary: i j)
    case (Cons f fs)
    then show ?case by (cases i; cases j) (auto, force)
  qed simp
  with ne assms \<open>distinct (concat (map field_bits fs))\<close> show False by (metis IntI empty_iff nat_neq_iff)
qed

lemma bit_pattern_word: "bit (pattern_word pat) n \<longleftrightarrow> n < 32 \<and> pattern_bit pat n = CHR ''1''"
  by (auto simp: pattern_word_def bit_horner_sum_bit_word_iff)

text \<open>The word of a pattern with operands in the open positions matches the pattern, and every operand
  is read back from its field.\<close>

lemma placed:
  assumes layout: "layout_ok pat fs" and fits: "fits fs vs" and x: "x = pattern_word pat OR place fs vs"
  shows "matches pat x" and "map (\<lambda>(p, w). field p w x) fs = vs"
proof -
  have len: "length fs = length vs" using fits by (simp add: fits_def list_all2_lengthD)
  have small: "vs ! i < 2 ^ snd (fs ! i)" if "i < length fs" for i
    using fits that len by (auto simp: fits_def list_all2_conv_all_nth case_prod_beta)
  have inside: "n \<in> set (field_bits (fs ! i))" if "i < length fs" "fst (fs ! i) \<le> n" "bit (vs ! i) (n - fst (fs ! i))" for i n
    using small_bit [OF small that(3)] that by (simp add: field_bits_def case_prod_beta less_diff_conv2 add.commute)
  have bits: "bit x n \<longleftrightarrow> n < 32 \<and> (pattern_bit pat n = CHR ''1'' \<or>
      (\<exists>i < length fs. fst (fs ! i) \<le> n \<and> bit (vs ! i) (n - fst (fs ! i))))" for n
    unfolding x bit_or_iff bit_pattern_word bit_place [OF fits] by blast
  have hole: "pattern_bit pat n = CHR ''x''" if "i < length fs" "fst (fs ! i) \<le> n" "bit (vs ! i) (n - fst (fs ! i))" for i n
    using layout_index(2) [OF layout that(1,2)] inside [OF that] by (simp add: field_bits_def case_prod_beta)
  have "pattern_bit pat n = CHR ''x'' \<or> bit x n = (pattern_bit pat n = CHR ''1'')" if "n < 32" for n
    unfolding bits using that hole by blast
  then show "matches pat x" by (simp add: matches_def list_all_iff)
  have "field (fst (fs ! i)) (snd (fs ! i)) x = vs ! i" if i: "i < length fs" for i
  proof (rule bit_word_eqI)
    fix n assume "n < LENGTH(32)"
    show "bit (field (fst (fs ! i)) (snd (fs ! i)) x) n = bit (vs ! i) n"
    proof (cases "n < snd (fs ! i)")
      case False
      then show ?thesis using small_bit [OF small [OF i]] by (auto simp: field_def bit_take_bit_iff)
    next
      case True
      let ?n = "fst (fs ! i) + n"
      have here: "?n \<in> set (field_bits (fs ! i))" using True by (simp add: field_bits_def case_prod_beta)
      have "?n < 32" "pattern_bit pat ?n \<noteq> CHR ''1''" using layout_index [OF layout i, of ?n] True by simp_all
      moreover have "(\<exists>j < length fs. fst (fs ! j) \<le> ?n \<and> bit (vs ! j) (?n - fst (fs ! j))) \<longleftrightarrow> bit (vs ! i) n"
        using layout_disjoint [OF layout i _ here] inside i by (metis add_diff_cancel_left' le_add1)
      ultimately have "bit x ?n \<longleftrightarrow> bit (vs ! i) n" unfolding bits by blast
      with True show ?thesis by (simp add: field_def bit_take_bit_iff bit_drop_bit_eq)
    qed
  qed
  then show "map (\<lambda>(p, w). field p w x) fs = vs"
    using len by (auto intro!: nth_equalityI simp: case_prod_beta)
qed

end
