(* ===== verification/Arm64Decode.thy ===== *)
theory Arm64Decode
  imports Arm64Fields
begin

text \<open>
  The instruction formats of the architecture as a table of patterns and operand fields, a decoder for
  it, and the proof that every encoder of \<open>cls\<close> produces a word that decodes to the format it is named
  after and to the operands it was given.
\<close>

subsection \<open>Formats\<close>

text \<open>Name, pattern and operand fields with position and width.\<close>

definition a64_table :: "(string \<times> string \<times> (nat \<times> nat) list) list" where
  "a64_table = [
     (''addsub_extreg'', ''xxx01011001xxxxxxxxxxxxxxxxxxxxx'', [(31, 1), (30, 1), (29, 1), (16, 5), (13, 3), (10, 3), (5, 5), (0, 5)]),
     (''addsub_shreg'', ''xxx01011xx0xxxxxxxxxxxxxxxxxxxxx'', [(31, 1), (30, 1), (29, 1), (22, 2), (16, 5), (10, 6), (5, 5), (0, 5)]),
     (''addsub_imm'', ''xxx100010xxxxxxxxxxxxxxxxxxxxxxx'', [(31, 1), (30, 1), (29, 1), (22, 1), (10, 12), (5, 5), (0, 5)]),
     (''atomic_op'', ''xx111x00xx1xxxxxxxxx00xxxxxxxxxx'', [(30, 2), (26, 1), (23, 1), (22, 1), (16, 5), (15, 1), (12, 3), (5, 5), (0, 5)]),
     (''bitfield'', ''xxx100110xxxxxxxxxxxxxxxxxxxxxxx'', [(31, 1), (29, 2), (22, 1), (16, 6), (10, 6), (5, 5), (0, 5)]),
     (''cmp_branch_imm'', ''x011010xxxxxxxxxxxxxxxxxxxxxxxxx'', [(31, 1), (24, 1), (0, 5), (5, 19)]),
     (''cond_branch_imm'', ''01010100xxxxxxxxxxxxxxxxxxx0xxxx'', [(0, 4), (5, 19)]),
     (''csel'', ''xxx11010100xxxxxxxxxxxxxxxxxxxxx'', [(31, 1), (30, 1), (29, 1), (16, 5), (12, 4), (10, 2), (5, 5), (0, 5)]),
     (''dataproc1'', ''x1x11010110xxxxxxxxxxxxxxxxxxxxx'', [(31, 1), (29, 1), (16, 5), (10, 6), (5, 5), (0, 5)]),
     (''dataproc2'', ''x0x11010110xxxxxxxxxxxxxxxxxxxxx'', [(31, 1), (29, 1), (16, 5), (10, 6), (5, 5), (0, 5)]),
     (''dataproc3'', ''xxx11011xxxxxxxxxxxxxxxxxxxxxxxx'', [(31, 1), (29, 2), (21, 3), (16, 5), (15, 1), (10, 5), (5, 5), (0, 5)]),
     (''exception'', ''11010100xxxxxxxxxxxxxxxxxxxxxxxx'', [(21, 3), (5, 16), (2, 3), (0, 2)]),
     (''fp_compare'', ''x0x11110xx1xxxxxxx1000xxxxxxxxxx'', [(31, 1), (29, 1), (22, 2), (16, 5), (14, 2), (5, 5), (0, 5)]),
     (''fp_dataproc1'', ''x0x11110xx1xxxxxx10000xxxxxxxxxx'', [(31, 1), (29, 1), (22, 2), (15, 6), (5, 5), (0, 5)]),
     (''fp_dataproc2'', ''x0x11110xx1xxxxxxxxx10xxxxxxxxxx'', [(31, 1), (29, 1), (22, 2), (16, 5), (12, 4), (5, 5), (0, 5)]),
     (''fp_int'', ''x0x11110xx1xxxxx000000xxxxxxxxxx'', [(31, 1), (29, 1), (22, 2), (19, 2), (16, 3), (5, 5), (0, 5)]),
     (''ldst_exclusive'', ''xx001000xxxxxxxxxxxxxxxxxxxxxxxx'', [(30, 2), (23, 1), (22, 1), (21, 1), (16, 5), (15, 1), (10, 5), (5, 5), (0, 5)]),
     (''ldst_pair'', ''xx101x010xxxxxxxxxxxxxxxxxxxxxxx'', [(30, 2), (26, 1), (22, 1), (15, 7), (10, 5), (5, 5), (0, 5)]),
     (''ldst_pair_post'', ''xx101x001xxxxxxxxxxxxxxxxxxxxxxx'', [(30, 2), (26, 1), (22, 1), (15, 7), (10, 5), (5, 5), (0, 5)]),
     (''ldst_pair_pre'', ''xx101x011xxxxxxxxxxxxxxxxxxxxxxx'', [(30, 2), (26, 1), (22, 1), (15, 7), (10, 5), (5, 5), (0, 5)]),
     (''logical_imm'', ''xxx100100xxxxxxxxxxxxxxxxxxxxxxx'', [(31, 1), (29, 2), (10, 13), (5, 5), (0, 5)]),
     (''logical_shreg'', ''xxx01010xxxxxxxxxxxxxxxxxxxxxxxx'', [(31, 1), (29, 2), (22, 2), (21, 1), (16, 5), (10, 6), (5, 5), (0, 5)]),
     (''move_wide_imm'', ''xxx100101xxxxxxxxxxxxxxxxxxxxxxx'', [(31, 1), (29, 2), (21, 2), (5, 16), (0, 5)]),
     (''ldst_regimm'', ''xx111x01xxxxxxxxxxxxxxxxxxxxxxxx'', [(30, 2), (26, 1), (22, 2), (10, 12), (5, 5), (0, 5)]),
     (''ldst_regoffset'', ''xx111x00xx1xxxxxxxxx10xxxxxxxxxx'', [(30, 2), (26, 1), (22, 2), (16, 5), (13, 3), (12, 1), (5, 5), (0, 5)]),
     (''ldst_reg_unscaledimm'', ''xx111x00xx0xxxxxxxxx00xxxxxxxxxx'', [(30, 2), (26, 1), (22, 2), (12, 9), (5, 5), (0, 5)]),
     (''simd_across_lanes'', ''0xx01110xx11000xxxxx10xxxxxxxxxx'', [(30, 1), (29, 1), (22, 2), (12, 5), (5, 5), (0, 5)]),
     (''pcrel'', ''xxx10000xxxxxxxxxxxxxxxxxxxxxxxx'', [(31, 1), (29, 2), (5, 19), (0, 5)]),
     (''simd_2regs_misc'', ''0xx01110xx10000xxxxx10xxxxxxxxxx'', [(30, 1), (29, 1), (22, 2), (12, 5), (5, 5), (0, 5)]),
     (''system'', ''11010101000000110010xxxxxxx11111'', [(5, 7)]),
     (''uncond_branch_imm'', ''x00101xxxxxxxxxxxxxxxxxxxxxxxxxx'', [(31, 1), (0, 26)]),
     (''uncond_branch_reg'', ''1101011xxxxxxxxxxxxxxxxxxxxxxxxx'', [(21, 4), (16, 5), (10, 6), (5, 5), (0, 5)])]"

definition a64_decode :: "u32 \<Rightarrow> (string \<times> u32 list) option" where
  "a64_decode x = map_option (\<lambda>(name, pat, fs). (name, map (\<lambda>(p, w). field p w x) fs))
     (find (\<lambda>(name, pat, fs). matches pat x) a64_table)"

lemma a64_table_layouts: "list_all (\<lambda>(name, pat, fs). layout_ok pat fs) a64_table"
  by code_simp

lemma a64_table_exclusive: "sorted_wrt (\<lambda>r r'. conflict (fst (snd r)) (fst (snd r'))) a64_table"
  by code_simp

lemma find_exclusive:
  "sorted_wrt (\<lambda>r r'. \<not> (P r \<and> P r')) rs \<Longrightarrow> r \<in> set rs \<Longrightarrow> P r \<Longrightarrow> find P rs = Some r"
  by (induction rs) auto

lemma a64_decode_row:
  assumes mem: "(name, pat, fs) \<in> set a64_table" and fits: "fits fs vs" and x: "x = pattern_word pat OR place fs vs"
  shows "a64_decode x = Some (name, vs)"
proof -
  have layout: "layout_ok pat fs" using mem a64_table_layouts by (auto simp: list_all_iff)
  have "sorted_wrt (\<lambda>r r'. \<not> (matches (fst (snd r)) x \<and> matches (fst (snd r')) x)) a64_table"
    using a64_table_exclusive by (rule sorted_wrt_mono_rel [rotated]) (use conflict_exclusive in blast)
  from find_exclusive [OF this mem] placed(1) [OF layout fits x]
  have "find (\<lambda>(name, pat, fs). matches pat x) a64_table = Some (name, pat, fs)"
    by (simp add: case_prod_beta')
  with placed(2) [OF layout fits x] show ?thesis by (simp add: a64_decode_def)
qed

subsection \<open>Encoders\<close>

text \<open>The numbers that stand for registers and extensions in an instruction.\<close>

definition reg_field :: "register \<Rightarrow> u32" where
  "reg_field r = (if is_gpr r then ucast (reg_no r) else 31)"

definition ldst_field :: "extend \<Rightarrow> u32" where
  "ldst_field e = (if e = LSL_ext then 0b011 else extend_encoding e)"

lemma gpr_iff: "is_gpr r \<longleftrightarrow> reg_no r \<le> 30" "is_gpr r \<Longrightarrow> is_gpr_or_zero r" "is_gpr r \<Longrightarrow> is_gpr_or_sp r"
  by (simp_all add: is_gpr_def is_gpr_or_zero_def is_gpr_or_sp_def)

lemma reg_field_small: "reg_field r < 32"
proof (cases "is_gpr r")
  case True
  then have "unat (reg_no r) \<le> 30" by (simp add: is_gpr_def word_le_nat_alt)
  then have "unat (ucast (reg_no r) :: u32) < 32" by (simp add: unsigned_ucast_eq take_bit_nat_eq_self)
  then show ?thesis using True by (simp add: reg_field_def word_less_nat_alt)
qed (simp add: reg_field_def)

lemma encoding_field:
  "is_gpr r \<Longrightarrow> encoding r = Inr (reg_field r)"
  "is_gpr_or_zero r \<Longrightarrow> encoding_zero r = Inr (reg_field r)"
  "is_gpr_or_sp r \<Longrightarrow> encoding_sp r = Inr (reg_field r)"
  "is_gpr_or_zero r \<or> is_gpr_or_sp r \<Longrightarrow> encoding_zero_or_sp r = Inr (reg_field r)"
  "encoding_rn r = (if is_gpr r then Inr (push_bit 5 (reg_field r)) else Inl AssertionFailed)"
  by (auto simp: encoding_def encoding_zero_def encoding_sp_def encoding_zero_or_sp_def encoding_rn_def reg_field_def is_gpr_def
      is_gpr_or_zero_def is_gpr_or_sp_def)

lemma neon_small: "neon_no r < 32 \<Longrightarrow> neon_encoding r < 32"
proof -
  assume "neon_no r < 32"
  then have "unat (ucast (neon_no r) :: u32) < 32" by (simp add: unsigned_ucast_eq take_bit_nat_eq_self word_less_nat_alt)
  then show ?thesis by (simp add: neon_encoding_def word_less_nat_alt)
qed

lemma code_small: "cond_u32 c < 16" "extend_encoding e < 8" "shift_u32 s < 4" "ldst_encoding e = Inr v \<Longrightarrow> v = ldst_field e \<and> v < 8"
proof -
  show "cond_u32 c < 16" by (cases c) simp_all
  show "extend_encoding e < 8" by (cases e) simp_all
  show "shift_u32 s < 4" by (cases s) (simp_all add: shift_u32_def)
  show "ldst_encoding e = Inr v \<Longrightarrow> v = ldst_field e \<and> v < 8" by (cases e) (auto simp: ldst_encoding_def ldst_field_def)
qed

text \<open>A successful call of an encoder, with the name of its format, its operands as numbers and the word
  it returns.  The encoders of atomic and exclusive accesses and of one-source instructions do not check
  all their operands, and the one for loads and stores of pairs drops the vector flag; these are the
  additional conditions.  The numbers of vector registers are below 32 by construction.\<close>

inductive encoded :: "string \<Rightarrow> u32 list \<Rightarrow> u32 \<Rightarrow> bool" where
  addsub_extreg: "cls_addsub_extreg sf op s opt rm option imm3 rn rd = Inr x \<Longrightarrow> encoded ''addsub_extreg'' [sf, op, s, reg_field
    rm, extend_encoding option, imm3, reg_field rn, reg_field rd] x"
| addsub_shreg: "cls_addsub_shreg sf op s shift rm imm6 rn rd = Inr x \<Longrightarrow> encoded ''addsub_shreg'' [sf, op, s, shift_u32 shift,
    reg_field rm, imm6, reg_field rn, reg_field rd] x"
| addsub_imm: "cls_addsub_imm sf op s shift imm12 rn rd = Inr x \<Longrightarrow> encoded ''addsub_imm'' [sf, op, s, shift, imm12, reg_field
    rn, reg_field rd] x"
| atomic_op: "cls_atomic_op sz v a r rs o3 opc rn rt = Inr x \<Longrightarrow> sz < 4 \<Longrightarrow> v < 2 \<Longrightarrow> a < 2 \<Longrightarrow> r < 2 \<Longrightarrow> o3 < 2 \<Longrightarrow> opc < 8 \<Longrightarrow> encoded
    ''atomic_op'' [sz, v, a, r, reg_field rs, o3, opc, reg_field rn, reg_field rt] x"
| bitfield: "cls_bitfield sf opc n immr imms rn rd = Inr x \<Longrightarrow> encoded ''bitfield'' [sf, opc, n, immr, imms, reg_field rn,
    reg_field rd] x"
| cmp_branch_imm: "cls_cmp_branch_imm sf op rt imm19 = Inr x \<Longrightarrow> encoded ''cmp_branch_imm'' [sf, op, reg_field rt, take_bit 19
    (i32_as_u32 imm19)] x"
| cond_branch_imm: "cls_cond_branch_imm cond imm19 = Inr x \<Longrightarrow> encoded ''cond_branch_imm'' [cond_u32 cond, take_bit 19
    (i32_as_u32 imm19)] x"
| csel: "cls_csel sf op s rm cond op2 rn rd = Inr x \<Longrightarrow> encoded ''csel'' [sf, op, s, reg_field rm, cond_u32 cond, op2, reg_field
    rn, reg_field rd] x"
| dataproc1: "cls_dataproc1 sf s opcode2 opcode rn rd = Inr x \<Longrightarrow> s < 2 \<Longrightarrow> encoded ''dataproc1'' [sf, s, opcode2, opcode,
    reg_field rn, reg_field rd] x"
| dataproc2: "cls_dataproc2 sf s rm opcode rn rd = Inr x \<Longrightarrow> encoded ''dataproc2'' [sf, s, reg_field rm, opcode, reg_field rn,
    reg_field rd] x"
| dataproc3: "cls_dataproc3 sf op54 op31 rm o0 ra rn rd = Inr x \<Longrightarrow> encoded ''dataproc3'' [sf, op54, op31, reg_field rm, o0,
    reg_field ra, reg_field rn, reg_field rd] x"
| exception: "cls_exception opc imm16 op2 ll = Inr x \<Longrightarrow> encoded ''exception'' [opc, imm16, op2, ll] x"
| fp_compare: "cls_fp_compare m s ty rm op rn opcode2 = Inr x \<Longrightarrow> neon_no rm < 32 \<Longrightarrow> neon_no rn < 32 \<Longrightarrow> encoded ''fp_compare'' [m,
    s, ty, neon_encoding rm, op, neon_encoding rn, opcode2] x"
| fp_dataproc1: "cls_fp_dataproc1 m s ty opcode rn rd = Inr x \<Longrightarrow> neon_no rn < 32 \<Longrightarrow> neon_no rd < 32 \<Longrightarrow> encoded ''fp_dataproc1''
    [m, s, ty, opcode, neon_encoding rn, neon_encoding rd] x"
| fp_dataproc2: "cls_fp_dataproc2 m s ty rm opcode rn rd = Inr x \<Longrightarrow> neon_no rm < 32 \<Longrightarrow> neon_no rn < 32 \<Longrightarrow> neon_no rd < 32 \<Longrightarrow>
    encoded ''fp_dataproc2'' [m, s, ty, neon_encoding rm, opcode, neon_encoding rn, neon_encoding rd] x"
| fp_int: "cls_fp_int sf s ty rmode opcode rn rd = Inr x \<Longrightarrow> encoded ''fp_int'' [sf, s, ty, rmode, opcode, rn, rd] x"
| ldst_exclusive: "cls_ldst_exclusive sz o2 l o1 rs o0 rt2 rn rt = Inr x \<Longrightarrow> sz < 4 \<Longrightarrow> o2 < 2 \<Longrightarrow> l < 2 \<Longrightarrow> o1 < 2 \<Longrightarrow> o0 < 2 \<Longrightarrow> encoded
    ''ldst_exclusive'' [sz, o2, l, o1, reg_field rs, o0, reg_field rt2, reg_field rn, reg_field rt] x"
| ldst_pair: "cls_ldst_pair opc v l imm7 rt2 rn rt = Inr x \<Longrightarrow> v = 0 \<Longrightarrow> encoded ''ldst_pair'' [opc, v, l, take_bit 7 (i32_as_u32
    imm7), reg_field rt2, reg_field rn, reg_field rt] x"
| ldst_pair_post: "cls_ldst_pair_post opc v l imm7 rt2 rn rt = Inr x \<Longrightarrow> encoded ''ldst_pair_post'' [opc, v, l, take_bit 7
    (i32_as_u32 imm7), reg_field rt2, reg_field rn, reg_field rt] x"
| ldst_pair_pre: "cls_ldst_pair_pre opc v l imm7 rt2 rn rt = Inr x \<Longrightarrow> encoded ''ldst_pair_pre'' [opc, v, l, take_bit 7
    (i32_as_u32 imm7), reg_field rt2, reg_field rn, reg_field rt] x"
| logical_imm: "cls_logical_imm sf opc n_immr_imms rn rd = Inr x \<Longrightarrow> encoded ''logical_imm'' [sf, opc, n_immr_imms, reg_field rn,
    reg_field rd] x"
| logical_shreg: "cls_logical_shreg sf opc shift n rm imm6 rn rd = Inr x \<Longrightarrow> encoded ''logical_shreg'' [sf, opc, shift_u32 shift,
    n, reg_field rm, imm6, reg_field rn, reg_field rd] x"
| move_wide_imm: "cls_move_wide_imm sf opc hw imm16 rd = Inr x \<Longrightarrow> encoded ''move_wide_imm'' [sf, opc, hw, imm16, reg_field rd]
    x"
| ldst_regimm: "cls_ldst_regimm sz v opc imm12 rn rt = Inr x \<Longrightarrow> encoded ''ldst_regimm'' [sz, v, opc, imm12, reg_field rn, rt] x"
| ldst_regoffset: "cls_ldst_regoffset sz v opc rm option s rn rt = Inr x \<Longrightarrow> encoded ''ldst_regoffset'' [sz, v, opc, reg_field
    rm, ldst_field option, s, reg_field rn, rt] x"
| ldst_reg_unscaledimm: "cls_ldst_reg_unscaledimm sz v opc imm9 rn rt = Inr x \<Longrightarrow> encoded ''ldst_reg_unscaledimm'' [sz, v, opc,
    take_bit 9 (i32_as_u32 imm9), reg_field rn, rt] x"
| simd_across_lanes: "cls_simd_across_lanes q u sz opcode rn rd = Inr x \<Longrightarrow> neon_no rn < 32 \<Longrightarrow> neon_no rd < 32 \<Longrightarrow> encoded
    ''simd_across_lanes'' [q, u, sz, opcode, neon_encoding rn, neon_encoding rd] x"
| pcrel: "cls_pcrel op imm rd = Inr x \<Longrightarrow> encoded ''pcrel'' [op, take_bit 2 (i32_as_u32 imm), take_bit 19 (drop_bit 2 (i32_as_u32
    imm)), reg_field rd] x"
| simd_2regs_misc: "cls_simd_2regs_misc q u sz opcode rn rd = Inr x \<Longrightarrow> neon_no rn < 32 \<Longrightarrow> neon_no rd < 32 \<Longrightarrow> encoded
    ''simd_2regs_misc'' [q, u, sz, opcode, neon_encoding rn, neon_encoding rd] x"
| system: "cls_system imm = Inr x \<Longrightarrow> encoded ''system'' [imm] x"
| uncond_branch_imm: "cls_uncond_branch_imm op imm26 = Inr x \<Longrightarrow> encoded ''uncond_branch_imm'' [op, take_bit 26 (i32_as_u32
    imm26)] x"
| uncond_branch_reg: "cls_uncond_branch_reg opc op2 op3 rn op4 = Inr x \<Longrightarrow> encoded ''uncond_branch_reg'' [opc, op2, op3,
    reg_field rn, op4] x"

subsection \<open>Every encoder follows its format\<close>

lemma take_bit_small: "n < 32 \<Longrightarrow> take_bit n x < 2 ^ n" for x :: u32
  using and_mask_less' [of n x] by (simp add: take_bit_eq_mask)

lemmas field_small = reg_field_small neon_small code_small(1-3) take_bit_small [where n = 2, simplified] take_bit_small [where n = 7, simplified]
  take_bit_small [where n = 9, simplified] take_bit_small [where n = 19, simplified] take_bit_small [where n = 26, simplified]

lemma and_mask_take: "x AND 0x3F = take_bit 6 x" "x AND 0x7F = take_bit 7 x" "x AND 0x1FF = take_bit 9 x"
  "x AND 0x7FFFF = take_bit 19 x" "x AND 0x3FFFFFF = take_bit 26 x" "x AND 3 = take_bit 2 x" for x :: u32
  by (simp_all add: take_bit_eq_mask mask_eq_exp_minus_1)

lemma widen: "v < 2 \<Longrightarrow> v < 4" "v < 4 \<Longrightarrow> v < 8" "v < 32 \<Longrightarrow> v < 64" for v :: u32
  by (erule less_trans; simp)+

lemma take_bit_6: "v < 64 \<Longrightarrow> take_bit 6 v = v" for v :: u32
  using less_mask_eq [of v 6] by (simp add: take_bit_eq_mask)

text \<open>A word as the or of a set of words.\<close>

definition orl :: "u32 list \<Rightarrow> u32" where
  "orl xs = foldr (OR) xs 0"

lemma orl_bit: "bit (orl xs) n \<longleftrightarrow> (\<exists>x\<in>set xs. bit x n)"
  by (induction xs) (auto simp: orl_def bit_or_iff)

lemma orl_append: "orl (xs @ ys) = orl xs OR orl ys"
  by (intro bit_word_eqI) (auto simp: orl_bit bit_or_iff)

lemma orl_cong: "insert 0 (set xs) = insert 0 (set ys) \<Longrightarrow> orl xs = orl ys"
proof (rule bit_word_eqI)
  fix n assume eq: "insert 0 (set xs) = insert 0 (set ys)"
  have "(\<exists>x\<in>set zs. bit x n) \<longleftrightarrow> (\<exists>x\<in>insert 0 (set zs). bit x n)" for zs :: "u32 list" by simp
  then show "bit (orl xs) n \<longleftrightarrow> bit (orl ys) n" using eq unfolding orl_bit by metis
qed

lemma pack_orl: "pack fs = Inr x \<longleftrightarrow> list_all (\<lambda>(v, k). \<not> isl v) fs \<and> x = orl (map (\<lambda>(v, k). push_bit k (projr v)) fs)"
proof (induction fs arbitrary: x)
  case (Cons f fs)
  obtain v k where f: "f = (v, k)" by force
  show ?case
  proof (cases v)
    case (Inr w)
    then show ?thesis using Cons.IH by (auto simp: f orl_def rbind_eq_Inr_iff)
  qed (simp add: f)
qed (auto simp: orl_def)

lemma place_orl: "length fs = length vs \<Longrightarrow> place fs vs = orl (map2 (\<lambda>(p, w) v. push_bit p v) fs vs)"
  by (induction fs vs rule: place.induct) (auto simp: orl_def)

lemma rassert_Inr: "rbind (rassert P) f = Inr y \<longleftrightarrow> P \<and> f () = Inr y"
  by (simp add: rassert_def)

lemma ldst_projr [simp]: "\<not> isl (ldst_encoding e) \<Longrightarrow> projr (ldst_encoding e) = ldst_field e \<and> ldst_field e < 8"
  using code_small(4) [of e] by (cases "ldst_encoding e") auto

definition a64_words :: "(string \<times> u32 \<times> (nat \<times> nat) list) list" where
  "a64_words = map (\<lambda>(name, pat, fs). (name, pattern_word pat, fs)) a64_table"

lemma a64_words_table: "map_of a64_words name = Some (c, fs) \<Longrightarrow> \<exists>pat. (name, pat, fs) \<in> set a64_table \<and> c = pattern_word pat"
  by (drule map_of_SomeD) (auto simp: a64_words_def)

text \<open>A word decodes when it is the or of the constants and the shifted operands of its format.\<close>

lemma format_decodes:
  assumes "map_of a64_words name = Some (c, fs)" "c = orl cs" "fits fs vs" "x = orl ys"
    and "insert 0 (set ys) = insert 0 (set cs \<union> set (map2 (\<lambda>(p, w) v. push_bit p v) fs vs))"
  shows "a64_decode x = Some (name, vs)"
proof -
  have "length fs = length vs" using assms(3) by (simp add: fits_def list_all2_lengthD)
  then have "c OR place fs vs = orl (cs @ map2 (\<lambda>(p, w) v. push_bit p v) fs vs)"
    by (simp add: place_orl orl_append assms(2))
  moreover have "orl ys = orl (cs @ map2 (\<lambda>(p, w) v. push_bit p v) fs vs)"
    by (rule orl_cong) (simp only: assms(5) set_append)
  ultimately show ?thesis using a64_words_table [OF assms(1)] assms(3,4) by (auto intro!: a64_decode_row)
qed

lemma encoder_decodes:
  assumes "rbind (rassert P) (\<lambda>_. pack ps) = Inr x" "map_of a64_words name = Some (orl cs, fs)"
    and "P \<Longrightarrow> list_all (\<lambda>(v, k). \<not> isl v) ps \<Longrightarrow> fits fs vs"
    and "P \<Longrightarrow> list_all (\<lambda>(v, k). \<not> isl v) ps \<Longrightarrow> insert 0 (set (map (\<lambda>(v, k). push_bit k (projr v)) ps))
      = insert 0 (set cs \<union> set (map2 (\<lambda>(p, w) v. push_bit p v) fs vs))"
  shows "a64_decode x = Some (name, vs)"
proof -
  have "P" "pack ps = Inr x" using assms(1) by (simp_all add: rassert_Inr)
  then have "list_all (\<lambda>(v, k). \<not> isl v) ps" "x = orl (map (\<lambda>(v, k). push_bit k (projr v)) ps)"
    by (simp_all add: pack_orl)
  with \<open>P\<close> show ?thesis by (metis format_decodes assms(2-4))
qed

lemmas fitting = fits_def fits_defs field_small widen
lemmas fields = encoding_field and_mask_take take_bit_6 fits_u6_def

text \<open>Encoder by encoder.\<close>

lemma a64_words_eq: "a64_words = [
     (''addsub_extreg'', 186646528, [(31, 1), (30, 1), (29, 1), (16, 5), (13, 3), (10, 3), (5, 5), (0, 5)]),
     (''addsub_shreg'', 184549376, [(31, 1), (30, 1), (29, 1), (22, 2), (16, 5), (10, 6), (5, 5), (0, 5)]),
     (''addsub_imm'', 285212672, [(31, 1), (30, 1), (29, 1), (22, 1), (10, 12), (5, 5), (0, 5)]),
     (''atomic_op'', 941621248, [(30, 2), (26, 1), (23, 1), (22, 1), (16, 5), (15, 1), (12, 3), (5, 5), (0, 5)]),
     (''bitfield'', 318767104, [(31, 1), (29, 2), (22, 1), (16, 6), (10, 6), (5, 5), (0, 5)]),
     (''cmp_branch_imm'', 872415232, [(31, 1), (24, 1), (0, 5), (5, 19)]),
     (''cond_branch_imm'', 1409286144, [(0, 4), (5, 19)]),
     (''csel'', 444596224, [(31, 1), (30, 1), (29, 1), (16, 5), (12, 4), (10, 2), (5, 5), (0, 5)]),
     (''dataproc1'', 1522532352, [(31, 1), (29, 1), (16, 5), (10, 6), (5, 5), (0, 5)]),
     (''dataproc2'', 448790528, [(31, 1), (29, 1), (16, 5), (10, 6), (5, 5), (0, 5)]),
     (''dataproc3'', 452984832, [(31, 1), (29, 2), (21, 3), (16, 5), (15, 1), (10, 5), (5, 5), (0, 5)]),
     (''exception'', 3556769792, [(21, 3), (5, 16), (2, 3), (0, 2)]),
     (''fp_compare'', 505421824, [(31, 1), (29, 1), (22, 2), (16, 5), (14, 2), (5, 5), (0, 5)]),
     (''fp_dataproc1'', 505430016, [(31, 1), (29, 1), (22, 2), (15, 6), (5, 5), (0, 5)]),
     (''fp_dataproc2'', 505415680, [(31, 1), (29, 1), (22, 2), (16, 5), (12, 4), (5, 5), (0, 5)]),
     (''fp_int'', 505413632, [(31, 1), (29, 1), (22, 2), (19, 2), (16, 3), (5, 5), (0, 5)]),
     (''ldst_exclusive'', 134217728, [(30, 2), (23, 1), (22, 1), (21, 1), (16, 5), (15, 1), (10, 5), (5, 5), (0, 5)]),
     (''ldst_pair'', 687865856, [(30, 2), (26, 1), (22, 1), (15, 7), (10, 5), (5, 5), (0, 5)]),
     (''ldst_pair_post'', 679477248, [(30, 2), (26, 1), (22, 1), (15, 7), (10, 5), (5, 5), (0, 5)]),
     (''ldst_pair_pre'', 696254464, [(30, 2), (26, 1), (22, 1), (15, 7), (10, 5), (5, 5), (0, 5)]),
     (''logical_imm'', 301989888, [(31, 1), (29, 2), (10, 13), (5, 5), (0, 5)]),
     (''logical_shreg'', 167772160, [(31, 1), (29, 2), (22, 2), (21, 1), (16, 5), (10, 6), (5, 5), (0, 5)]),
     (''move_wide_imm'', 310378496, [(31, 1), (29, 2), (21, 2), (5, 16), (0, 5)]),
     (''ldst_regimm'', 956301312, [(30, 2), (26, 1), (22, 2), (10, 12), (5, 5), (0, 5)]),
     (''ldst_regoffset'', 941623296, [(30, 2), (26, 1), (22, 2), (16, 5), (13, 3), (12, 1), (5, 5), (0, 5)]),
     (''ldst_reg_unscaledimm'', 939524096, [(30, 2), (26, 1), (22, 2), (12, 9), (5, 5), (0, 5)]),
     (''simd_across_lanes'', 238028800, [(30, 1), (29, 1), (22, 2), (12, 5), (5, 5), (0, 5)]),
     (''pcrel'', 268435456, [(31, 1), (29, 2), (5, 19), (0, 5)]),
     (''simd_2regs_misc'', 236980224, [(30, 1), (29, 1), (22, 2), (12, 5), (5, 5), (0, 5)]),
     (''system'', 3573751839, [(5, 7)]),
     (''uncond_branch_imm'', 335544320, [(31, 1), (0, 26)]),
     (''uncond_branch_reg'', 3590324224, [(21, 4), (16, 5), (10, 6), (5, 5), (0, 5)])]"
  by code_simp

lemma addsub_extreg_decodes: "cls_addsub_extreg sf op s opt rm option imm3 rn rd = Inr x \<Longrightarrow> a64_decode x = Some
  (''addsub_extreg'', [sf, op, s, reg_field rm, extend_encoding option, imm3, reg_field rn, reg_field rd])"
  unfolding cls_addsub_extreg_def
  by (erule encoder_decodes [where cs = "[push_bit 24 11, push_bit 21 1]" and fs = "[(31, 1), (30, 1), (29, 1), (16, 5), (13, 3), (10, 3), (5, 5), (0, 5)]"])
    (simp add: a64_words_eq orl_def, (auto simp: fitting)[1], auto simp: fields split: if_splits)

lemma addsub_shreg_decodes: "cls_addsub_shreg sf op s shift rm imm6 rn rd = Inr x \<Longrightarrow> a64_decode x = Some (''addsub_shreg'',
  [sf, op, s, shift_u32 shift, reg_field rm, imm6, reg_field rn, reg_field rd])"
  unfolding cls_addsub_shreg_def
  by (erule encoder_decodes [where cs = "[push_bit 24 11]" and fs = "[(31, 1), (30, 1), (29, 1), (22, 2), (16, 5), (10, 6), (5, 5), (0, 5)]"])
    (simp add: a64_words_eq orl_def, (auto simp: fitting)[1], auto simp: fields split: if_splits)

lemma addsub_imm_pack: "cls_addsub_imm sf op s shift imm12 rn rd =
  rbind (rassert (fits_bit sf \<and> fits_bit op \<and> fits_bit s \<and> fits_bit shift \<and> fits_u12 imm12 \<and> is_gpr_or_sp rn
      \<and> (if s \<noteq> 0 then is_gpr_or_zero rd else is_gpr_or_sp rd)))
    (\<lambda>_. pack [(Inr 0b10001, 24), (Inr sf, 31), (Inr op, 30), (Inr s, 29), (Inr shift, 22), (Inr imm12, 10),
      (encoding_sp rn, 5), (Inr (reg_field rd), 0)])"
  unfolding cls_addsub_imm_def by (auto simp: rassert_def encoding_field)

lemma addsub_imm_decodes: "cls_addsub_imm sf op s shift imm12 rn rd = Inr x \<Longrightarrow> a64_decode x = Some (''addsub_imm'', [sf, op,
  s, shift, imm12, reg_field rn, reg_field rd])"
  unfolding addsub_imm_pack
  by (erule encoder_decodes [where cs = "[push_bit 24 17]" and fs = "[(31, 1), (30, 1), (29, 1), (22, 1), (10, 12), (5, 5), (0, 5)]"])
    (simp add: a64_words_eq orl_def, (auto simp: fitting)[1], auto simp: fields split: if_splits)

lemma atomic_op_decodes: "cls_atomic_op sz v a r rs o3 opc rn rt = Inr x \<Longrightarrow> sz < 4 \<Longrightarrow> v < 2 \<Longrightarrow> a < 2 \<Longrightarrow> r < 2 \<Longrightarrow> o3 < 2 \<Longrightarrow> opc < 8
  \<Longrightarrow> a64_decode x = Some (''atomic_op'', [sz, v, a, r, reg_field rs, o3, opc, reg_field rn, reg_field rt])"
  unfolding cls_atomic_op_def
  by (erule encoder_decodes [where cs = "[push_bit 27 7, push_bit 21 1]" and fs = "[(30, 2), (26, 1), (23, 1), (22, 1), (16, 5), (15, 1), (12, 3), (5, 5), (0, 5)]"])
    (simp add: a64_words_eq orl_def, (auto simp: fitting)[1], auto simp: fields split: if_splits)

lemma bitfield_decodes: "cls_bitfield sf opc n immr imms rn rd = Inr x \<Longrightarrow> a64_decode x = Some (''bitfield'', [sf, opc, n,
  immr, imms, reg_field rn, reg_field rd])"
  unfolding cls_bitfield_def
  by (erule encoder_decodes [where cs = "[push_bit 23 38]" and fs = "[(31, 1), (29, 2), (22, 1), (16, 6), (10, 6), (5, 5), (0, 5)]"])
    (simp add: a64_words_eq orl_def, (auto simp: fitting)[1], auto simp: fields split: if_splits)

lemma cmp_branch_imm_decodes: "cls_cmp_branch_imm sf op rt imm19 = Inr x \<Longrightarrow> a64_decode x = Some (''cmp_branch_imm'', [sf, op,
  reg_field rt, take_bit 19 (i32_as_u32 imm19)])"
  unfolding cls_cmp_branch_imm_def Let_def
  by (erule encoder_decodes [where cs = "[push_bit 25 26]" and fs = "[(31, 1), (24, 1), (0, 5), (5, 19)]"])
    (simp add: a64_words_eq orl_def, (auto simp: fitting)[1], auto simp: fields split: if_splits)

lemma cond_branch_imm_decodes: "cls_cond_branch_imm cond imm19 = Inr x \<Longrightarrow> a64_decode x = Some (''cond_branch_imm'', [cond_u32
  cond, take_bit 19 (i32_as_u32 imm19)])"
  unfolding cls_cond_branch_imm_def Let_def
  by (erule encoder_decodes [where cs = "[push_bit 24 84]" and fs = "[(0, 4), (5, 19)]"])
    (simp add: a64_words_eq orl_def, (auto simp: fitting)[1], auto simp: fields split: if_splits)

lemma csel_decodes: "cls_csel sf op s rm cond op2 rn rd = Inr x \<Longrightarrow> a64_decode x = Some (''csel'', [sf, op, s, reg_field rm,
  cond_u32 cond, op2, reg_field rn, reg_field rd])"
  unfolding cls_csel_def
  by (erule encoder_decodes [where cs = "[push_bit 21 212]" and fs = "[(31, 1), (30, 1), (29, 1), (16, 5), (12, 4), (10, 2), (5, 5), (0, 5)]"])
    (simp add: a64_words_eq orl_def, (auto simp: fitting)[1], auto simp: fields split: if_splits)

lemma dataproc1_decodes: "cls_dataproc1 sf s opcode2 opcode rn rd = Inr x \<Longrightarrow> s < 2 \<Longrightarrow> a64_decode x = Some (''dataproc1'', [sf,
  s, opcode2, opcode, reg_field rn, reg_field rd])"
  unfolding cls_dataproc1_def
  by (erule encoder_decodes [where cs = "[push_bit 30 1, push_bit 21 214]" and fs = "[(31, 1), (29, 1), (16, 5), (10, 6), (5, 5), (0, 5)]"])
    (simp add: a64_words_eq orl_def, (auto simp: fitting)[1], auto simp: fields split: if_splits)

lemma dataproc2_decodes: "cls_dataproc2 sf s rm opcode rn rd = Inr x \<Longrightarrow> a64_decode x = Some (''dataproc2'', [sf, s, reg_field
  rm, opcode, reg_field rn, reg_field rd])"
  unfolding cls_dataproc2_def
  by (erule encoder_decodes [where cs = "[push_bit 21 214]" and fs = "[(31, 1), (29, 1), (16, 5), (10, 6), (5, 5), (0, 5)]"])
    (simp add: a64_words_eq orl_def, (auto simp: fitting)[1], auto simp: fields split: if_splits)

lemma dataproc3_decodes: "cls_dataproc3 sf op54 op31 rm o0 ra rn rd = Inr x \<Longrightarrow> a64_decode x = Some (''dataproc3'', [sf, op54,
  op31, reg_field rm, o0, reg_field ra, reg_field rn, reg_field rd])"
  unfolding cls_dataproc3_def
  by (erule encoder_decodes [where cs = "[push_bit 24 27]" and fs = "[(31, 1), (29, 2), (21, 3), (16, 5), (15, 1), (10, 5), (5, 5), (0, 5)]"])
    (simp add: a64_words_eq orl_def, (auto simp: fitting)[1], auto simp: fields split: if_splits)

lemma exception_decodes: "cls_exception opc imm16 op2 ll = Inr x \<Longrightarrow> a64_decode x = Some (''exception'', [opc, imm16, op2,
  ll])"
  unfolding cls_exception_def
  by (erule encoder_decodes [where cs = "[push_bit 24 212]" and fs = "[(21, 3), (5, 16), (2, 3), (0, 2)]"])
    (simp add: a64_words_eq orl_def, (auto simp: fitting)[1], auto simp: fields split: if_splits)

lemma fp_compare_decodes: "cls_fp_compare m s ty rm op rn opcode2 = Inr x \<Longrightarrow> neon_no rm < 32 \<Longrightarrow> neon_no rn < 32 \<Longrightarrow> a64_decode x
  = Some (''fp_compare'', [m, s, ty, neon_encoding rm, op, neon_encoding rn, opcode2])"
  unfolding cls_fp_compare_def
  by (erule encoder_decodes [where cs = "[push_bit 24 30, push_bit 21 1, push_bit 10 8]" and fs = "[(31, 1), (29, 1), (22, 2), (16, 5), (14, 2), (5, 5), (0, 5)]"])
    (simp add: a64_words_eq orl_def, (auto simp: fitting)[1], auto simp: fields split: if_splits)

lemma fp_dataproc1_decodes: "cls_fp_dataproc1 m s ty opcode rn rd = Inr x \<Longrightarrow> neon_no rn < 32 \<Longrightarrow> neon_no rd < 32 \<Longrightarrow> a64_decode x
  = Some (''fp_dataproc1'', [m, s, ty, opcode, neon_encoding rn, neon_encoding rd])"
  unfolding cls_fp_dataproc1_def
  by (erule encoder_decodes [where cs = "[push_bit 24 30, push_bit 21 1, push_bit 10 16]" and fs = "[(31, 1), (29, 1), (22, 2), (15, 6), (5, 5), (0, 5)]"])
    (simp add: a64_words_eq orl_def, (auto simp: fitting)[1], auto simp: fields split: if_splits)

lemma fp_dataproc2_decodes: "cls_fp_dataproc2 m s ty rm opcode rn rd = Inr x \<Longrightarrow> neon_no rm < 32 \<Longrightarrow> neon_no rn < 32 \<Longrightarrow> neon_no rd
  < 32 \<Longrightarrow> a64_decode x = Some (''fp_dataproc2'', [m, s, ty, neon_encoding rm, opcode, neon_encoding rn, neon_encoding rd])"
  unfolding cls_fp_dataproc2_def
  by (erule encoder_decodes [where cs = "[push_bit 24 30, push_bit 21 1, push_bit 10 2]" and fs = "[(31, 1), (29, 1), (22, 2), (16, 5), (12, 4), (5, 5), (0, 5)]"])
    (simp add: a64_words_eq orl_def, (auto simp: fitting)[1], auto simp: fields split: if_splits)

lemma fp_int_decodes: "cls_fp_int sf s ty rmode opcode rn rd = Inr x \<Longrightarrow> a64_decode x = Some (''fp_int'', [sf, s, ty, rmode,
  opcode, rn, rd])"
  unfolding cls_fp_int_def
  by (erule encoder_decodes [where cs = "[push_bit 24 30, push_bit 21 1]" and fs = "[(31, 1), (29, 1), (22, 2), (19, 2), (16, 3), (5, 5), (0, 5)]"])
    (simp add: a64_words_eq orl_def, (auto simp: fitting)[1], auto simp: fields split: if_splits)

lemma ldst_exclusive_decodes: "cls_ldst_exclusive sz o2 l o1 rs o0 rt2 rn rt = Inr x \<Longrightarrow> sz < 4 \<Longrightarrow> o2 < 2 \<Longrightarrow> l < 2 \<Longrightarrow> o1 < 2 \<Longrightarrow> o0
  < 2 \<Longrightarrow> a64_decode x = Some (''ldst_exclusive'', [sz, o2, l, o1, reg_field rs, o0, reg_field rt2, reg_field rn, reg_field
  rt])"
  unfolding cls_ldst_exclusive_def
  by (erule encoder_decodes [where cs = "[push_bit 24 8]" and fs = "[(30, 2), (23, 1), (22, 1), (21, 1), (16, 5), (15, 1), (10, 5), (5, 5), (0, 5)]"])
    (simp add: a64_words_eq orl_def, (auto simp: fitting)[1], auto simp: fields split: if_splits)

lemma ldst_pair_decodes: "cls_ldst_pair opc v l imm7 rt2 rn rt = Inr x \<Longrightarrow> v = 0 \<Longrightarrow> a64_decode x = Some (''ldst_pair'', [opc, v,
  l, take_bit 7 (i32_as_u32 imm7), reg_field rt2, reg_field rn, reg_field rt])"
  unfolding cls_ldst_pair_def Let_def
  by (erule encoder_decodes [where cs = "[push_bit 27 5, push_bit 24 1]" and fs = "[(30, 2), (26, 1), (22, 1), (15, 7), (10, 5), (5, 5), (0, 5)]"])
    (simp add: a64_words_eq orl_def, (auto simp: fitting)[1], auto simp: fields split: if_splits)

lemma ldst_pair_post_decodes: "cls_ldst_pair_post opc v l imm7 rt2 rn rt = Inr x \<Longrightarrow> a64_decode x = Some (''ldst_pair_post'',
  [opc, v, l, take_bit 7 (i32_as_u32 imm7), reg_field rt2, reg_field rn, reg_field rt])"
  unfolding cls_ldst_pair_post_def Let_def
  by (erule encoder_decodes [where cs = "[push_bit 27 5, push_bit 23 1]" and fs = "[(30, 2), (26, 1), (22, 1), (15, 7), (10, 5), (5, 5), (0, 5)]"])
    (simp add: a64_words_eq orl_def, (auto simp: fitting)[1], auto simp: fields split: if_splits)

lemma ldst_pair_pre_decodes: "cls_ldst_pair_pre opc v l imm7 rt2 rn rt = Inr x \<Longrightarrow> a64_decode x = Some (''ldst_pair_pre'',
  [opc, v, l, take_bit 7 (i32_as_u32 imm7), reg_field rt2, reg_field rn, reg_field rt])"
  unfolding cls_ldst_pair_pre_def Let_def
  by (erule encoder_decodes [where cs = "[push_bit 27 5, push_bit 23 3]" and fs = "[(30, 2), (26, 1), (22, 1), (15, 7), (10, 5), (5, 5), (0, 5)]"])
    (simp add: a64_words_eq orl_def, (auto simp: fitting)[1], auto simp: fields split: if_splits)

lemma logical_imm_decodes: "cls_logical_imm sf opc n_immr_imms rn rd = Inr x \<Longrightarrow> a64_decode x = Some (''logical_imm'', [sf,
  opc, n_immr_imms, reg_field rn, reg_field rd])"
  unfolding cls_logical_imm_def
  by (erule encoder_decodes [where cs = "[push_bit 23 36]" and fs = "[(31, 1), (29, 2), (10, 13), (5, 5), (0, 5)]"])
    (simp add: a64_words_eq orl_def, (auto simp: fitting)[1], auto simp: fields split: if_splits)

lemma logical_shreg_decodes: "cls_logical_shreg sf opc shift n rm imm6 rn rd = Inr x \<Longrightarrow> a64_decode x = Some
  (''logical_shreg'', [sf, opc, shift_u32 shift, n, reg_field rm, imm6, reg_field rn, reg_field rd])"
  unfolding cls_logical_shreg_def
  by (erule encoder_decodes [where cs = "[push_bit 24 10]" and fs = "[(31, 1), (29, 2), (22, 2), (21, 1), (16, 5), (10, 6), (5, 5), (0, 5)]"])
    (simp add: a64_words_eq orl_def, (auto simp: fitting)[1], auto simp: fields split: if_splits)

lemma move_wide_imm_decodes: "cls_move_wide_imm sf opc hw imm16 rd = Inr x \<Longrightarrow> a64_decode x = Some (''move_wide_imm'', [sf,
  opc, hw, imm16, reg_field rd])"
  unfolding cls_move_wide_imm_def
  by (erule encoder_decodes [where cs = "[push_bit 23 37]" and fs = "[(31, 1), (29, 2), (21, 2), (5, 16), (0, 5)]"])
    (simp add: a64_words_eq orl_def, (auto simp: fitting)[1], auto simp: fields split: if_splits)

lemma ldst_regimm_decodes: "cls_ldst_regimm sz v opc imm12 rn rt = Inr x \<Longrightarrow> a64_decode x = Some (''ldst_regimm'', [sz, v, opc,
  imm12, reg_field rn, rt])"
  unfolding cls_ldst_regimm_def
  by (erule encoder_decodes [where cs = "[push_bit 24 57]" and fs = "[(30, 2), (26, 1), (22, 2), (10, 12), (5, 5), (0, 5)]"])
    (simp add: a64_words_eq orl_def, (auto simp: fitting)[1], auto simp: fields split: if_splits)

lemma ldst_regoffset_decodes: "cls_ldst_regoffset sz v opc rm option s rn rt = Inr x \<Longrightarrow> a64_decode x = Some
  (''ldst_regoffset'', [sz, v, opc, reg_field rm, ldst_field option, s, reg_field rn, rt])"
  unfolding cls_ldst_regoffset_def
  by (erule encoder_decodes [where cs = "[push_bit 27 7, push_bit 21 1, push_bit 10 2]" and fs = "[(30, 2), (26, 1), (22, 2), (16, 5), (13, 3), (12, 1), (5, 5), (0, 5)]"])
    (simp add: a64_words_eq orl_def, (auto simp: fitting)[1], auto simp: fields split: if_splits)

lemma ldst_reg_unscaledimm_decodes: "cls_ldst_reg_unscaledimm sz v opc imm9 rn rt = Inr x \<Longrightarrow> a64_decode x = Some
  (''ldst_reg_unscaledimm'', [sz, v, opc, take_bit 9 (i32_as_u32 imm9), reg_field rn, rt])"
  unfolding cls_ldst_reg_unscaledimm_def Let_def
  by (erule encoder_decodes [where cs = "[push_bit 27 7]" and fs = "[(30, 2), (26, 1), (22, 2), (12, 9), (5, 5), (0, 5)]"])
    (simp add: a64_words_eq orl_def, (auto simp: fitting)[1], auto simp: fields split: if_splits)

lemma simd_across_lanes_decodes: "cls_simd_across_lanes q u sz opcode rn rd = Inr x \<Longrightarrow> neon_no rn < 32 \<Longrightarrow> neon_no rd < 32 \<Longrightarrow>
  a64_decode x = Some (''simd_across_lanes'', [q, u, sz, opcode, neon_encoding rn, neon_encoding rd])"
  unfolding cls_simd_across_lanes_def
  by (erule encoder_decodes [where cs = "[push_bit 24 14, push_bit 17 24, push_bit 10 2]" and fs = "[(30, 1), (29, 1), (22, 2), (12, 5), (5, 5), (0, 5)]"])
    (simp add: a64_words_eq orl_def, (auto simp: fitting)[1], auto simp: fields split: if_splits)

lemma pcrel_decodes: "cls_pcrel op imm rd = Inr x \<Longrightarrow> a64_decode x = Some (''pcrel'', [op, take_bit 2 (i32_as_u32 imm),
  take_bit 19 (drop_bit 2 (i32_as_u32 imm)), reg_field rd])"
  unfolding cls_pcrel_def Let_def
  by (erule encoder_decodes [where cs = "[push_bit 28 1]" and fs = "[(31, 1), (29, 2), (5, 19), (0, 5)]"])
    (simp add: a64_words_eq orl_def, (auto simp: fitting)[1], auto simp: fields split: if_splits)

lemma simd_2regs_misc_decodes: "cls_simd_2regs_misc q u sz opcode rn rd = Inr x \<Longrightarrow> neon_no rn < 32 \<Longrightarrow> neon_no rd < 32 \<Longrightarrow>
  a64_decode x = Some (''simd_2regs_misc'', [q, u, sz, opcode, neon_encoding rn, neon_encoding rd])"
  unfolding cls_simd_2regs_misc_def
  by (erule encoder_decodes [where cs = "[push_bit 24 14, push_bit 17 16, push_bit 10 2]" and fs = "[(30, 1), (29, 1), (22, 2), (12, 5), (5, 5), (0, 5)]"])
    (simp add: a64_words_eq orl_def, (auto simp: fitting)[1], auto simp: fields split: if_splits)

lemma system_decodes: "cls_system imm = Inr x \<Longrightarrow> a64_decode x = Some (''system'', [imm])"
  unfolding cls_system_def
  by (erule encoder_decodes [where cs = "[push_bit 0 3573751839]" and fs = "[(5, 7)]"])
    (simp add: a64_words_eq orl_def, (auto simp: fitting)[1], auto simp: fields split: if_splits)

lemma uncond_branch_imm_decodes: "cls_uncond_branch_imm op imm26 = Inr x \<Longrightarrow> a64_decode x = Some (''uncond_branch_imm'', [op,
  take_bit 26 (i32_as_u32 imm26)])"
  unfolding cls_uncond_branch_imm_def
  by (erule encoder_decodes [where cs = "[push_bit 26 5]" and fs = "[(31, 1), (0, 26)]"])
    (simp add: a64_words_eq orl_def, (auto simp: fitting)[1], auto simp: fields split: if_splits)

lemma uncond_branch_reg_decodes: "cls_uncond_branch_reg opc op2 op3 rn op4 = Inr x \<Longrightarrow> a64_decode x = Some
  (''uncond_branch_reg'', [opc, op2, op3, reg_field rn, op4])"
  unfolding cls_uncond_branch_reg_def
  by (erule encoder_decodes [where cs = "[push_bit 25 107]" and fs = "[(21, 4), (16, 5), (10, 6), (5, 5), (0, 5)]"])
    (simp add: a64_words_eq orl_def, (auto simp: fitting)[1], auto simp: fields split: if_splits)

end
