(* ===== verification/Arm64Jumps.thy ===== *)
theory Arm64Jumps
  imports Arm64Assembler Arm64Decode
begin

text \<open>
  Labels and jumps of the arm64 assembler.  The assembler goes over the program once: a jump to a label
  that is already bound is encoded at once, any other jump is emitted as a zero word and written over in
  the end.  The reference here goes over the program twice, places the labels first and then encodes
  every instruction with its distance; the two are shown to produce the same code.
\<close>

subsection \<open>Programs for the assembler\<close>

text \<open>What a client calls: a method that emits an instruction, one that creates or binds a label, or one
  that jumps to a label.\<close>

datatype a64_item =
    Plain "u32 result"
  | NewLabel
  | NewBoundLabel
  | BindLabel asm_label
  | Jump jump_kind asm_label

definition a64_jump :: "jump_kind \<Rightarrow> asm_label \<Rightarrow> a64_step" where
  "a64_jump kind target =
     (case kind of
        Unconditional \<Rightarrow> a64_b_l target
      | Conditional cond \<Rightarrow> a64_bc_l cond target
      | NonZero sf rt \<Rightarrow> (if sf then a64_cbnz rt target else a64_cbnz_w rt target)
      | Zero sf rt \<Rightarrow> (if sf then a64_cbz rt target else a64_cbz_w rt target))"

fun assemble_item :: "a64_item \<Rightarrow> a64_step" where
  "assemble_item (Plain w) s = a64_emit w s"
| "assemble_item NewLabel s = Inr (snd (a64_create_label s))"
| "assemble_item NewBoundLabel s = rbind (a64_create_and_bind_label s) (\<lambda>(l, s). Inr s)"
| "assemble_item (BindLabel l) s = a64_bind_label l s"
| "assemble_item (Jump kind l) s = a64_jump kind l s"

fun assemble :: "a64_item list \<Rightarrow> a64_step" where
  "assemble [] s = Inr s"
| "assemble (item # items) s = rbind (assemble_item item s) (assemble items)"

definition assemble_program :: "a64_item list \<Rightarrow> u8 list result option" where
  "assemble_program items =
     (case assemble items a64_new of Inl e \<Rightarrow> Some (Inl e) | Inr s \<Rightarrow> a64_finalize None s)"

subsection \<open>The reference: two passes\<close>

text \<open>The first pass places the labels, counting in instructions, and rejects a label that does not exist
  or is bound twice.\<close>

fun place_labels :: "a64_item list \<Rightarrow> nat \<Rightarrow> nat option list \<Rightarrow> nat option list option" where
  "place_labels [] pc ls = Some ls"
| "place_labels (Plain w # items) pc ls = place_labels items (pc + 1) ls"
| "place_labels (NewLabel # items) pc ls = place_labels items pc (ls @ [None])"
| "place_labels (NewBoundLabel # items) pc ls = place_labels items pc (ls @ [Some pc])"
| "place_labels (BindLabel l # items) pc ls =
     (if l < length ls \<and> ls ! l = None then place_labels items pc (ls[l := Some pc]) else None)"
| "place_labels (Jump kind l # items) pc ls = (if l < length ls then place_labels items (pc + 1) ls else None)"

definition ok :: "'a result \<Rightarrow> 'a option" where
  "ok r = (case r of Inl e \<Rightarrow> None | Inr x \<Rightarrow> Some x)"

definition jump_word :: "jump_kind \<Rightarrow> int \<Rightarrow> u32 result" where
  "jump_word kind distance =
     (case kind of
        Unconditional \<Rightarrow> inst_b_i distance
      | Conditional cond \<Rightarrow> inst_b_cond_imm cond distance
      | NonZero sf rt \<Rightarrow> inst_cbnz (if sf then 1 else 0) rt distance
      | Zero sf rt \<Rightarrow> inst_cbz (if sf then 1 else 0) rt distance)"

definition jump_to :: "nat option list \<Rightarrow> nat \<Rightarrow> jump_kind \<Rightarrow> asm_label \<Rightarrow> u32 option" where
  "jump_to ls pc kind l = Option.bind (ls ! l) (\<lambda>t. ok (jump_word kind (int t - int pc)))"

text \<open>The second pass encodes the instructions.\<close>

fun item_words :: "nat option list \<Rightarrow> nat \<Rightarrow> a64_item \<Rightarrow> u32 list option" where
  "item_words ls pc (Plain w) = map_option (\<lambda>w. [w]) (ok w)"
| "item_words ls pc (Jump kind l) = map_option (\<lambda>w. [w]) (jump_to ls pc kind l)"
| "item_words ls pc _ = Some []"

fun item_size :: "a64_item \<Rightarrow> nat" where
  "item_size (Plain w) = 1"
| "item_size (Jump kind l) = 1"
| "item_size _ = 0"

fun code_words :: "nat option list \<Rightarrow> nat \<Rightarrow> a64_item list \<Rightarrow> u32 list option" where
  "code_words ls pc [] = Some []"
| "code_words ls pc (item # items) =
     Option.bind (item_words ls pc item) (\<lambda>ws. map_option (\<lambda>ws'. ws @ ws') (code_words ls (pc + item_size item) items))"

definition two_pass :: "a64_item list \<Rightarrow> u32 list option" where
  "two_pass items = Option.bind (place_labels items 0 []) (\<lambda>ls. code_words ls 0 items)"

definition program_size :: "a64_item list \<Rightarrow> nat" where
  "program_size items = sum_list (map item_size items)"

lemma program_size_simps [simp]: "program_size [] = 0" "program_size (xs @ ys) = program_size xs + program_size ys"
  "program_size (x # xs) = item_size x + program_size xs"
  by (simp_all add: program_size_def)

lemma ok_simps [simp]: "ok (Inr x) = Some x" "ok (Inl e) = None"
  by (simp_all add: ok_def)

lemma ok_eq_Some [simp]: "ok r = Some x \<longleftrightarrow> r = Inr x"
  by (cases r) auto

lemma ok_rbind: "ok (rbind m f) = Option.bind (ok m) (\<lambda>x. ok (f x))"
  by (cases m) auto

lemma place_labels_append:
  "place_labels (xs @ ys) pc ls = Option.bind (place_labels xs pc ls) (place_labels ys (pc + program_size xs))"
  by (induction xs pc ls rule: place_labels.induct) (auto simp: add.assoc)

lemma code_words_append:
  "code_words ls pc (xs @ ys) =
     Option.bind (code_words ls pc xs) (\<lambda>ws. map_option (\<lambda>ws'. ws @ ws') (code_words ls (pc + program_size xs) ys))"
proof (induction xs arbitrary: pc)
  case Nil
  then show ?case by (cases "code_words ls pc ys") simp_all
next
  case (Cons x xs)
  show ?case
    by (cases "item_words ls pc x"; cases "code_words ls (pc + item_size x) xs";
        cases "code_words ls (pc + (item_size x + program_size xs)) ys") (simp_all add: Cons.IH add.assoc)
qed

lemma assemble_append: "assemble (xs @ ys) s = rbind (assemble xs s) (assemble ys)"
proof (induction xs arbitrary: s)
  case (Cons x xs)
  show ?case by (cases "assemble_item x s") (simp_all add: Cons.IH)
qed simp

subsection \<open>The assembler on words\<close>

text \<open>The state of the assembler as words, labels in instructions, and open jumps with their positions.\<close>

record word_asm =
  w_words :: "u32 list"
  w_labels :: "nat option list"
  w_open :: "(nat \<times> asm_label \<times> jump_kind) list"

definition concrete :: "word_asm \<Rightarrow> assembler_arm64" where
  "concrete a = \<lparr>unresolved_jumps =
        map (\<lambda>(p, l, k). \<lparr>fj_offset = as_u32 (4 * p), fj_label = l, fj_kind = k\<rparr>) (w_open a),
      asm_buffer = \<lparr>ab_code = concat (map u32_bytes (w_words a)), ab_position = 4 * length (w_words a),
        ab_labels = map (map_option (\<lambda>t. as_u32 (4 * t))) (w_labels a)\<rparr>\<rparr>"

definition word_ok :: "word_asm \<Rightarrow> bool" where
  "word_ok a = (4 * length (w_words a) < 2 ^ 31 \<and> (\<forall>t. Some t \<in> set (w_labels a) \<longrightarrow> t \<le> length (w_words a)))"

fun word_item :: "a64_item \<Rightarrow> word_asm \<Rightarrow> word_asm option" where
  "word_item (Plain w) a = Option.bind (ok w) (\<lambda>w. Some (a\<lparr>w_words := w_words a @ [w]\<rparr>))"
| "word_item NewLabel a = Some (a\<lparr>w_labels := w_labels a @ [None]\<rparr>)"
| "word_item NewBoundLabel a = Some (a\<lparr>w_labels := w_labels a @ [Some (length (w_words a))]\<rparr>)"
| "word_item (BindLabel l) a =
     (if l < length (w_labels a) \<and> w_labels a ! l = None then Some (a\<lparr>w_labels := (w_labels a)[l := Some (length (w_words a))]\<rparr>)
      else None)"
| "word_item (Jump kind l) a =
     (if l < length (w_labels a) then
        (if w_labels a ! l = None then Some (a\<lparr>w_words := w_words a @ [0], w_open := w_open a @ [(length (w_words a), l, kind)]\<rparr>)
         else map_option (\<lambda>w. a\<lparr>w_words := w_words a @ [w]\<rparr>) (jump_to (w_labels a) (length (w_words a)) kind l))
      else None)"

fun word_patch :: "nat option list \<Rightarrow> (nat \<times> asm_label \<times> jump_kind) list \<Rightarrow> u32 list \<Rightarrow> u32 list option" where
  "word_patch ls [] ws = Some ws"
| "word_patch ls ((p, l, k) # open) ws =
     Option.bind (if l < length ls then jump_to ls p k l else None) (\<lambda>w. word_patch ls open (ws[p := w]))"

lemma length_u32_concat [simp]: "length (concat (map u32_bytes ws)) = 4 * length ws"
  by (induction ws) auto

lemma take_words: "take (4 * p) (concat (map u32_bytes ws)) = concat (map u32_bytes (take p ws))"
proof (induction ws arbitrary: p)
  case (Cons w ws)
  then show ?case by (cases p) (auto simp: take_append)
qed simp

lemma drop_words: "drop (4 * p) (concat (map u32_bytes ws)) = concat (map u32_bytes (drop p ws))"
proof (induction ws arbitrary: p)
  case (Cons w ws)
  then show ?case by (cases p) (auto simp: drop_append)
qed simp

lemma word_at_concat: "p < length ws \<Longrightarrow> word_at (concat (map u32_bytes ws)) (4 * p) = ws ! p"
  unfolding word_at_def drop_words by (simp add: Cons_nth_drop_Suc [symmetric])

lemma sint_small: "n < 2 ^ 31 \<Longrightarrow> sint (as_u32 n) = int n"
  by (simp add: as_u32_def signed_of_nat signed_take_bit_int_eq_self)

lemma unat_small: "n < 2 ^ 31 \<Longrightarrow> unat (as_u32 n) = n"
  by simp

lemma rust_div_4: "rust_div (4 * k) 4 = k" "rust_rem (4 * k) 4 = 0"
  by (auto simp: rust_rem_def rust_div_def sgn_mult abs_mult sgn_if)

lemma distance_range: "4 * n < 2 ^ 31 \<Longrightarrow> 4 * m < 2 ^ 31 \<Longrightarrow> i32_range (4 * (int n - int m))"
  by (simp add: i32_range_def)

lemma distance_i32:
  assumes "4 * n < 2 ^ 31" "4 * m < 2 ^ 31"
  shows "checked_i32 (as_i32 (as_u32 (4 * n)) - as_i32 (as_u32 (4 * m))) = Inr (4 * (int n - int m))"
  using distance_range [OF assms] by (simp add: as_i32_def sint_small [OF assms(1)] sint_small [OF assms(2)] checked_i32_def)

text \<open>Emitting at the end and writing over a word.\<close>

lemma emit_end: "a64_emit_u32 w (concrete a) = Inr (concrete (a\<lparr>w_words := w_words a @ [w]\<rparr>))"
  by (simp add: a64_emit_u32_def with_buffer_def buf_emit_u32_def buf_write_def concrete_def)

lemma emit_over:
  assumes "p < length (w_words a)"
  shows "a64_emit_u32 w (a64_set_position (4 * p) (concrete a)) =
    Inr (a64_set_position (4 * p + 4) (concrete (a\<lparr>w_words := (w_words a)[p := w]\<rparr>)))"
proof -
  have "take (4 * p) (concat (map u32_bytes (w_words a))) @ u32_bytes w @ drop (4 * p + 4) (concat (map u32_bytes (w_words a)))
      = concat (map u32_bytes ((w_words a)[p := w]))"
    using take_words [of p "w_words a"] drop_words [of "p + 1" "w_words a"] assms
    by (simp add: upd_conv_take_nth_drop add.commute)
  then show ?thesis using assms
    by (simp add: a64_emit_u32_def with_buffer_def buf_emit_u32_def buf_write_def concrete_def a64_set_position_def
        buf_set_position_def write_slice_def)
qed

lemma offset_concrete: "a64_offset l (concrete a) =
    (if l < length (w_labels a) then Inr (map_option (\<lambda>t. as_u32 (4 * t)) (w_labels a ! l)) else Inl IndexOutOfBounds)"
  by (simp add: a64_offset_def buf_offset_def concrete_def vec_get_def)

lemma emit_jump_word: "emit_jump kind d = a64_emit (jump_word kind d)"
  by (cases kind) (auto simp: emit_jump_def jump_word_def a64_bc_imm_def a64_b_imm_def a64_cbnz_imm_def a64_cbnz_imm_w_def
      a64_cbz_imm_def a64_cbz_imm_w_def)

lemma a64_jump_steps: "a64_jump kind l s = rbind (a64_offset l s) (\<lambda>v.
     case v of Some t \<Rightarrow> rbind (jump_diff s t) (\<lambda>diff. emit_jump kind diff s) | None \<Rightarrow> a64_forward l kind s)"
  by (cases kind) (auto simp: a64_jump_def emit_jump_def a64_b_l_def a64_bc_l_def a64_cbnz_def a64_cbnz_w_def a64_cbz_def
      a64_cbz_w_def a64_common_cbz_cbnz_def cong: option.case_cong)

lemma jump_diff_concrete:
  assumes "word_ok a" "t \<le> length (w_words a)"
  shows "jump_diff (concrete a) (as_u32 (4 * t)) = Inr (int t - int (length (w_words a)))"
proof -
  let ?n = "length (w_words a)"
  have n: "4 * ?n < 2 ^ 31" "4 * t < 2 ^ 31" using assms by (auto simp: word_ok_def)
  have "jump_diff (concrete a) (as_u32 (4 * t)) = rbind (checked_i32 (- (4 * (int ?n - int t)))) (\<lambda>diff.
     rbind (rassert (rust_rem diff 4 = 0)) (\<lambda>_. Inr (rust_div diff 4)))"
    using distance_i32 [OF n] by (simp add: jump_diff_def a64_position_def concrete_def)
  also have "- (4 * (int ?n - int t)) = 4 * (int t - int ?n)" by simp
  finally show ?thesis using distance_range [OF n(2,1)] by (simp add: checked_i32_def rust_div_4 del: right_diff_distrib_numeral)
qed

lemma word_item_simulates:
  assumes "word_ok a"
  shows "ok (assemble_item item (concrete a)) = map_option concrete (word_item item a)"
proof (cases item)
  case (Plain w)
  then show ?thesis by (cases w) (simp_all add: a64_emit_def emit_end)
next
  case NewLabel
  then show ?thesis by (simp add: a64_create_label_def buf_create_label_def concrete_def)
next
  case NewBoundLabel
  then show ?thesis using assms
    by (simp add: a64_create_and_bind_label_def buf_create_and_bind_label_def try_u32_def concrete_def word_ok_def as_u32_def)
next
  case (BindLabel l)
  then show ?thesis using assms
    by (auto simp: a64_bind_label_def with_buffer_def buf_bind_label_def try_u32_def concrete_def word_ok_def as_u32_def
        vec_get_def rassert_def map_update)
next
  case (Jump kind l)
  have at: "t \<le> length (w_words a)" if "l < length (w_labels a)" "w_labels a ! l = Some t" for t
    using assms that by (metis word_ok_def nth_mem)
  show ?thesis
  proof (cases "l < length (w_labels a)")
    case True
    show ?thesis
    proof (cases "w_labels a ! l")
      case None
      with Jump True show ?thesis
        by (simp add: a64_jump_steps offset_concrete a64_forward_def emit_end) (simp add: a64_position_def concrete_def)
    next
      case (Some t)
      with Jump True show ?thesis using jump_diff_concrete [OF assms at [OF True Some]]
        by (cases "jump_word kind (int t - int (length (w_words a)))")
          (simp_all add: a64_jump_steps offset_concrete emit_jump_word a64_emit_def emit_end jump_to_def)
    qed
  qed (simp add: Jump a64_jump_steps offset_concrete)
qed

fun word_items :: "a64_item list \<Rightarrow> word_asm \<Rightarrow> word_asm option" where
  "word_items [] a = Some a"
| "word_items (item # items) a = Option.bind (word_item item a) (word_items items)"

lemma word_items_append: "word_items (xs @ ys) a = Option.bind (word_items xs a) (word_items ys)"
proof (induction xs arbitrary: a)
  case (Cons x xs)
  show ?case by (cases "word_item x a") (simp_all add: Cons.IH)
qed simp

lemma word_item_ok:
  assumes "word_ok a" "word_item item a = Some b" "4 * (length (w_words a) + item_size item) < 2 ^ 31"
  shows "word_ok b" "length (w_words b) = length (w_words a) + item_size item"
proof -
  show len: "length (w_words b) = length (w_words a) + item_size item"
    using assms(2) by (cases item) (auto simp: Option.bind_eq_Some_conv split: if_splits)
  have "set (w_labels b) \<subseteq> insert None (insert (Some (length (w_words a))) (set (w_labels a)))"
    using assms(2) set_update_subset_insert
    by (cases item) (fastforce simp: Option.bind_eq_Some_conv split: if_splits)+
  then show "word_ok b" using assms(1,3) len unfolding word_ok_def by (auto, fastforce)
qed

lemma word_items_simulate:
  assumes "word_ok a" "4 * (length (w_words a) + program_size items) < 2 ^ 31"
  shows "ok (assemble items (concrete a)) = map_option concrete (word_items items a)
    \<and> (\<forall>b. word_items items a = Some b \<longrightarrow> word_ok b)"
  using assms
proof (induction items arbitrary: a)
  case (Cons item items)
  note sim = word_item_simulates [OF Cons.prems(1), of item]
  show ?case
  proof (cases "word_item item a")
    case None
    then show ?thesis using sim by (simp add: ok_rbind)
  next
    case (Some b)
    then show ?thesis using sim Cons.IH [of b] word_item_ok [OF Cons.prems(1) Some] Cons.prems(2) by (simp add: ok_rbind)
  qed
qed simp

lemma resolve_jump_word:
  assumes "word_ok a" "p < length (w_words a)"
  shows "ok (resolve_jump \<lparr>fj_offset = as_u32 (4 * p), fj_label = l, fj_kind = k\<rparr> (a64_set_position q (concrete a))) =
    map_option (\<lambda>w. a64_set_position (4 * p + 4) (concrete (a\<lparr>w_words := (w_words a)[p := w]\<rparr>)))
      (if l < length (w_labels a) then jump_to (w_labels a) p k l else None)"
proof (cases "l < length (w_labels a)")
  case True
  have off: "a64_offset l (a64_set_position q (concrete a)) = a64_offset l (concrete a)"
    by (simp add: a64_offset_def a64_set_position_def buf_offset_def buf_set_position_def)
  have pos: "a64_set_position q' (a64_set_position q (concrete a)) = a64_set_position q' (concrete a)" for q'
    by (simp add: a64_set_position_def buf_set_position_def)
  have p: "4 * p < 2 ^ 31" using assms by (simp add: word_ok_def)
  show ?thesis
  proof (cases "w_labels a ! l")
    case None
    then show ?thesis using True by (simp add: resolve_jump_def off offset_concrete jump_to_def)
  next
    case (Some t)
    then have "t \<le> length (w_words a)" using assms(1) True by (metis word_ok_def nth_mem)
    then have t: "4 * t < 2 ^ 31" using assms(1) by (simp add: word_ok_def)
    show ?thesis using Some True distance_i32 [OF t p] unat_small [OF p] emit_over [OF assms(2)]
      by (cases "jump_word k (int t - int p)")
        (simp_all add: resolve_jump_def off pos offset_concrete jump_to_def rust_div_4 emit_jump_word a64_emit_def
          del: right_diff_distrib_numeral)
  qed
qed (simp add: resolve_jump_def a64_offset_def buf_offset_def a64_set_position_def buf_set_position_def concrete_def vec_get_def)

lemma resolve_each_words:
  assumes "word_ok a" "\<forall>(p, l, k)\<in>set open. p < length (w_words a)"
  shows "map_option (a64_set_position r)
      (ok (resolve_each (map (\<lambda>(p, l, k). \<lparr>fj_offset = as_u32 (4 * p), fj_label = l, fj_kind = k\<rparr>) open)
        (a64_set_position q (concrete a))))
    = map_option (\<lambda>ws. a64_set_position r (concrete (a\<lparr>w_words := ws\<rparr>))) (word_patch (w_labels a) open (w_words a))"
  using assms
proof (induction "open" arbitrary: a q)
  case Nil
  then show ?case by (simp add: a64_set_position_def buf_set_position_def)
next
  case (Cons j "open")
  obtain p l k where j: "j = (p, l, k)" by (cases j)
  note step = resolve_jump_word [OF Cons.prems(1), of p l k q]
  show ?case
  proof (cases "if l < length (w_labels a) then jump_to (w_labels a) p k l else None")
    case None
    then show ?thesis using step Cons.prems(2) by (simp add: j ok_rbind)
  next
    case (Some w)
    let ?a = "a\<lparr>w_words := (w_words a)[p := w]\<rparr>"
    have "word_ok ?a" "\<forall>(p, l, k)\<in>set open. p < length (w_words ?a)"
      using Cons.prems by (auto simp: word_ok_def)
    from Cons.IH [OF this] show ?thesis using step Some Cons.prems(2) by (simp add: j ok_rbind)
  qed
qed

lemma finalize_words:
  assumes "word_ok a" "\<forall>(p, l, k)\<in>set (w_open a). p < length (w_words a)"
  shows "a64_finalize None (concrete a) = Some (Inr code) \<longleftrightarrow>
    (\<exists>ws. word_patch (w_labels a) (w_open a) (w_words a) = Some ws \<and> code = concat (map u32_bytes ws))"
proof -
  let ?b = "a\<lparr>w_open := []\<rparr>" and ?n = "4 * length (w_words a)"
  have b: "(concrete a)\<lparr>unresolved_jumps := []\<rparr> = a64_set_position ?n (concrete ?b)"
    by (simp add: concrete_def a64_set_position_def buf_set_position_def)
  have pos: "a64_position (concrete a) = ?n" "unresolved_jumps (concrete a) =
      map (\<lambda>(p, l, k). \<lparr>fj_offset = as_u32 (4 * p), fj_label = l, fj_kind = k\<rparr>) (w_open a)"
    by (simp_all add: a64_position_def concrete_def)
  have "word_ok ?b" using assms(1) by (simp add: word_ok_def)
  from resolve_each_words [OF this, of "w_open a" ?n ?n] assms(2)
  have "ok (resolve_jumps (concrete a)) = map_option (\<lambda>ws. a64_set_position ?n (concrete (?b\<lparr>w_words := ws\<rparr>)))
      (word_patch (w_labels a) (w_open a) (w_words a))"
    by (simp add: resolve_jumps_def Let_def pos b ok_rbind map_conv_bind_option o_def)
  then show ?thesis
    by (cases "resolve_jumps (concrete a)"; cases "word_patch (w_labels a) (w_open a) (w_words a)")
      (auto simp: a64_finalize_def a64_set_position_def buf_set_position_def concrete_def)
qed

subsection \<open>One pass and two passes agree\<close>

text \<open>A label that is bound stays bound where it is.\<close>

definition extends :: "nat option list \<Rightarrow> nat option list \<Rightarrow> bool" where
  "extends ls ls' \<longleftrightarrow> length ls \<le> length ls' \<and> (\<forall>l < length ls. ls ! l \<noteq> None \<longrightarrow> ls' ! l = ls ! l)"

lemma extends_refl: "extends ls ls"
  by (simp add: extends_def)

lemma extends_trans: "extends ls ls' \<Longrightarrow> extends ls' ls'' \<Longrightarrow> extends ls ls''"
  unfolding extends_def by (metis order_trans order_less_le_trans)

lemma place_labels_extends: "place_labels items pc ls = Some ls' \<Longrightarrow> extends ls ls'"
proof (induction items pc ls rule: place_labels.induct)
  case (3 items pc ls)
  then have "extends (ls @ [None]) ls'" by simp
  moreover have "extends ls (ls @ [None])" by (simp add: extends_def nth_append)
  ultimately show ?case by (rule extends_trans [rotated])
next
  case (4 items pc ls)
  then have "extends (ls @ [Some pc]) ls'" by simp
  moreover have "extends ls (ls @ [Some pc])" by (simp add: extends_def nth_append)
  ultimately show ?case by (rule extends_trans [rotated])
next
  case (5 l items pc ls)
  then have "extends (ls[l := Some pc]) ls'" "ls ! l = None" by (simp_all split: if_splits)
  moreover from this(2) have "extends ls (ls[l := Some pc])" by (auto simp: extends_def nth_list_update_neq)
    (metis nth_list_update_neq option.distinct(1))
  ultimately show ?case by (blast intro: extends_trans)
qed (auto simp: extends_refl split: if_splits)

lemma word_patch_append: "word_patch ls (xs @ ys) ws = Option.bind (word_patch ls xs ws) (word_patch ls ys)"
  by (induction ls xs ws rule: word_patch.induct) (auto split: bind_splits)

lemma length_word_patch: "word_patch ls op ws = Some ws' \<Longrightarrow> length ws' = length ws"
  by (induction ls op ws rule: word_patch.induct) (auto simp: Option.bind_eq_Some_conv split: if_splits)

lemma word_patch_end:
  "\<forall>(p, l, k)\<in>set op. p < length ws \<Longrightarrow> word_patch ls op (ws @ xs) = map_option (\<lambda>ws'. ws' @ xs) (word_patch ls op ws)"
proof (induction ls op ws rule: word_patch.induct)
  case (2 ls p l k op ws)
  show ?case
  proof (cases "if l < length ls then jump_to ls p k l else None")
    case (Some w)
    then show ?thesis using 2 by (auto simp: list_update_append)
  qed auto
qed simp

abbreviation word_new :: word_asm where
  "word_new \<equiv> \<lparr>w_words = [], w_labels = [], w_open = []\<rparr>"

definition tracks :: "a64_item list \<Rightarrow> word_asm \<Rightarrow> bool" where
  "tracks items a \<longleftrightarrow> place_labels items 0 [] = Some (w_labels a) \<and> length (w_words a) = program_size items
     \<and> (\<forall>(p, l, k)\<in>set (w_open a). p < length (w_words a))
     \<and> (\<forall>ls. extends (w_labels a) ls \<longrightarrow> word_patch ls (w_open a) (w_words a) = code_words ls 0 items)"

definition rejected :: "a64_item list \<Rightarrow> bool" where
  "rejected items \<longleftrightarrow> (\<forall>ls0 ls. place_labels items 0 [] = Some ls0 \<longrightarrow> extends ls0 ls \<longrightarrow> code_words ls 0 items = None)"

lemma rejected_append: "rejected xs \<Longrightarrow> rejected (xs @ ys)"
  unfolding rejected_def place_labels_append code_words_append
  by (auto simp: Option.bind_eq_Some_conv bind_eq_None_conv dest: place_labels_extends extends_trans)

lemma tracks_word:
  assumes "tracks items a" "place_labels [item] (program_size items) (w_labels a) = Some (w_labels a)"
    and "\<And>ls. extends (w_labels a) ls \<Longrightarrow> item_words ls (program_size items) item = Some [w]" "item_size item = 1"
  shows "tracks (items @ [item]) (a\<lparr>w_words := w_words a @ [w]\<rparr>)"
proof -
  have "word_patch ls (w_open a) (w_words a @ [w]) = code_words ls 0 (items @ [item])" if "extends (w_labels a) ls" for ls
  proof -
    have "\<forall>(p, l, k)\<in>set (w_open a). p < length (w_words a)" "word_patch ls (w_open a) (w_words a) = code_words ls 0 items"
      using assms(1) that unfolding tracks_def by blast+
    then show ?thesis using word_patch_end [of "w_open a" "w_words a" ls "[w]"] assms(3) [OF that]
      by (cases "code_words ls 0 items") (simp_all add: code_words_append)
  qed
  then show ?thesis using assms by (auto simp: tracks_def place_labels_append)
qed

lemma tracks_label:
  assumes "tracks items a" "place_labels [item] (program_size items) (w_labels a) = Some ls"
    and "\<And>ls pc. item_words ls pc item = Some []" "item_size item = 0"
  shows "tracks (items @ [item]) (a\<lparr>w_labels := ls\<rparr>)"
proof -
  have "extends (w_labels a) ls" using assms(2) by (rule place_labels_extends)
  then show ?thesis using assms
    by (auto simp: tracks_def place_labels_append code_words_append extends_trans split: bind_splits)
qed

lemma tracks_item:
  assumes a: "tracks items a"
  shows "case word_item item a of None \<Rightarrow> rejected (items @ [item]) | Some b \<Rightarrow> tracks (items @ [item]) b"
proof (cases item)
  case (Plain w)
  then show ?thesis using tracks_word [OF a, of item]
    by (cases w) (auto simp: rejected_def code_words_append bind_eq_None_conv)
next
  case NewLabel
  then show ?thesis using tracks_label [OF a, of item] by simp
next
  case NewBoundLabel
  then show ?thesis using tracks_label [OF a, of item] a by (simp add: tracks_def)
next
  case (BindLabel l)
  then show ?thesis using tracks_label [OF a, of item] a by (auto simp: tracks_def rejected_def place_labels_append)
next
  case (Jump kind l)
  have labels: "place_labels items 0 [] = Some (w_labels a)" and len: "length (w_words a) = program_size items"
    using a by (simp_all add: tracks_def)
  consider "l \<ge> length (w_labels a)" | "l < length (w_labels a)" "w_labels a ! l = None"
    | t where "l < length (w_labels a)" "w_labels a ! l = Some t" by fastforce
  then show ?thesis
  proof cases
    case 1
    then show ?thesis using labels Jump by (simp add: rejected_def place_labels_append)
  next
    case 2
    let ?n = "length (w_words a)"
    have "word_patch ls (w_open a @ [(?n, l, kind)]) (w_words a @ [0]) = code_words ls 0 (items @ [item])"
      if ls: "extends (w_labels a) ls" for ls
    proof -
      have "l < length ls" using ls 2 by (simp add: extends_def)
      moreover have "\<forall>(p, l, k)\<in>set (w_open a). p < ?n" "word_patch ls (w_open a) (w_words a) = code_words ls 0 items"
        using a ls unfolding tracks_def by blast+
      ultimately show ?thesis using length_word_patch [of ls "w_open a" "w_words a"]
        by (cases "code_words ls 0 items"; cases "jump_to ls ?n kind l")
          (simp_all add: word_patch_append word_patch_end code_words_append Jump len list_update_append)
    qed
    then have "tracks (items @ [item]) (a\<lparr>w_words := w_words a @ [0], w_open := w_open a @ [(?n, l, kind)]\<rparr>)"
      using a 2 Jump by (auto simp: tracks_def place_labels_append)
    then show ?thesis using 2 Jump by simp
  next
    case 3
    have same: "ls ! l = Some t" if "extends (w_labels a) ls" for ls using that 3 by (simp add: extends_def)
    show ?thesis using tracks_word [OF a, of item] 3 Jump labels len same
      by (cases "jump_word kind (int t - int (program_size items))")
        (auto simp: jump_to_def rejected_def place_labels_append code_words_append bind_eq_None_conv)
  qed
qed

lemma tracks_items: "case word_items items word_new of None \<Rightarrow> rejected items | Some a \<Rightarrow> tracks items a"
proof (induction items rule: rev_induct)
  case (snoc item items)
  then show ?case using tracks_item [of items _ item] rejected_append [of items "[item]"]
    by (cases "word_items items word_new"; cases "word_item item (the (word_items items word_new))")
      (fastforce simp: word_items_append)+
qed (simp add: tracks_def)

lemma two_pass_words:
  "two_pass items = Option.bind (word_items items word_new) (\<lambda>a. word_patch (w_labels a) (w_open a) (w_words a))"
  using tracks_items [of items] extends_refl
  by (cases "place_labels items 0 []") (auto simp: two_pass_def tracks_def rejected_def split: option.splits)

lemma assemble_two_pass:
  assumes "4 * program_size items < 2 ^ 31"
  shows "assemble_program items = Some (Inr code) \<longleftrightarrow> (\<exists>ws. two_pass items = Some ws \<and> code = concat (map u32_bytes ws))"
proof -
  have new: "concrete word_new = a64_new" "word_ok word_new"
    by (simp_all add: concrete_def a64_new_def buffer_new_def word_ok_def)
  note sim = word_items_simulate [OF new(2), of items, unfolded new(1)]
  show ?thesis
  proof (cases "word_items items word_new")
    case None
    then show ?thesis using sim assms
      by (cases "assemble items a64_new") (simp_all add: assemble_program_def two_pass_words)
  next
    case (Some a)
    then have "tracks items a" using tracks_items [of items] by simp
    then show ?thesis using Some sim assms finalize_words [of a code]
      by (cases "assemble items a64_new") (auto simp: assemble_program_def two_pass_words tracks_def)
  qed
qed

subsection \<open>Where jumps go\<close>

text \<open>The format and the leading operands of a jump, and the field with its distance, which is signed.\<close>

definition sign_extend :: "nat \<Rightarrow> u32 \<Rightarrow> int" where
  "sign_extend n w = signed_take_bit (n - 1) (uint w)"

fun jump_format :: "jump_kind \<Rightarrow> string \<times> u32 list \<times> nat" where
  "jump_format Unconditional = (''uncond_branch_imm'', [0], 26)"
| "jump_format (Conditional cond) = (''cond_branch_imm'', [cond_u32 cond], 19)"
| "jump_format (NonZero sf rt) = (''cmp_branch_imm'', [if sf then 1 else 0, 1, reg_field rt], 19)"
| "jump_format (Zero sf rt) = (''cmp_branch_imm'', [if sf then 1 else 0, 0, reg_field rt], 19)"

definition jumps_to :: "jump_kind \<Rightarrow> nat \<Rightarrow> u32 \<Rightarrow> nat \<Rightarrow> bool" where
  "jumps_to kind pc x t =
     (case jump_format kind of (f, vs, n) \<Rightarrow>
        (case a64_decode x of
           None \<Rightarrow> False
         | Some (f', vs') \<Rightarrow> f' = f \<and> vs' \<noteq> [] \<and> butlast vs' = vs \<and> int pc + sign_extend n (last vs') = int t))"

lemma sign_extend_take_bit:
  assumes "0 < n" "n \<le> 32" "- (2 ^ (n - 1)) \<le> d" "d < 2 ^ (n - 1)"
  shows "sign_extend n (take_bit n (i32_as_u32 d)) = d"
proof -
  have "sign_extend n (take_bit n (i32_as_u32 d)) = signed_take_bit (n - 1) (take_bit n d)"
    using assms by (simp add: sign_extend_def i32_as_u32_def unsigned_take_bit_eq uint_word_of_int_eq min_def)
  also have "\<dots> = signed_take_bit (n - 1) d"
    using assms by (cases n) (simp_all add: signed_take_bit_take_bit)
  finally show ?thesis using assms by (simp add: signed_take_bit_int_eq_self)
qed

lemma jump_word_goes:
  assumes "jump_word kind (int t - int pc) = Inr x"
  shows "jumps_to kind pc x t"
proof (cases kind)
  case Unconditional
  then have x: "cls_uncond_branch_imm 0 (int t - int pc) = Inr x" using assms by (simp add: jump_word_def inst_b_i_def)
  then have "fits_i26 (int t - int pc)" by (simp add: cls_uncond_branch_imm_def rassert_Inr)
  then show ?thesis using uncond_branch_imm_decodes [OF x] Unconditional sign_extend_take_bit [of 26 "int t - int pc"]
    by (simp add: jumps_to_def fits_i26_def)
next
  case (Conditional cond)
  then have x: "cls_cond_branch_imm cond (int t - int pc) = Inr x" using assms by (simp add: jump_word_def inst_b_cond_imm_def)
  then have "fits_i19 (int t - int pc)" by (simp add: cls_cond_branch_imm_def rassert_Inr)
  then show ?thesis using cond_branch_imm_decodes [OF x] Conditional sign_extend_take_bit [of 19 "int t - int pc"]
    by (simp add: jumps_to_def fits_i19_def)
next
  case (NonZero sf rt)
  then have x: "cls_cmp_branch_imm (if sf then 1 else 0) 1 rt (int t - int pc) = Inr x"
    using assms by (simp add: jump_word_def inst_cbnz_def)
  then have "fits_i19 (int t - int pc)" by (simp add: cls_cmp_branch_imm_def rassert_Inr)
  then show ?thesis using cmp_branch_imm_decodes [OF x] NonZero sign_extend_take_bit [of 19 "int t - int pc"]
    by (simp add: jumps_to_def fits_i19_def)
next
  case (Zero sf rt)
  then have x: "cls_cmp_branch_imm (if sf then 1 else 0) 0 rt (int t - int pc) = Inr x"
    using assms by (simp add: jump_word_def inst_cbz_def)
  then have "fits_i19 (int t - int pc)" by (simp add: cls_cmp_branch_imm_def rassert_Inr)
  then show ?thesis using cmp_branch_imm_decodes [OF x] Zero sign_extend_take_bit [of 19 "int t - int pc"]
    by (simp add: jumps_to_def fits_i19_def)
qed

lemma length_code_words: "code_words ls pc items = Some ws \<Longrightarrow> length ws = program_size items"
proof (induction items arbitrary: pc ws)
  case (Cons item items)
  then obtain u v where uv: "item_words ls pc item = Some u" "code_words ls (pc + item_size item) items = Some v" "ws = u @ v"
    by (auto simp: Option.bind_eq_Some_conv)
  then have "length u = item_size item" by (cases item) auto
  then show ?case using uv Cons.IH by simp
qed simp

lemma code_words_nth:
  assumes "code_words ls 0 items = Some ws" "i < length items" "items ! i = Jump kind l"
  shows "program_size (take i items) < length ws"
    and "jump_to ls (program_size (take i items)) kind l = Some (ws ! program_size (take i items))"
proof -
  let ?p = "program_size (take i items)"
  have "code_words ls 0 (take i items @ Jump kind l # drop (Suc i) items) = Some ws"
    using assms(1,2) id_take_nth_drop [of i items] by (simp add: assms(3))
  then obtain u w v where "code_words ls 0 (take i items) = Some u" "jump_to ls ?p kind l = Some w" "ws = u @ w # v"
    by (auto simp: code_words_append Option.bind_eq_Some_conv)
  moreover from this have "length u = ?p" by (simp add: length_code_words)
  ultimately show "?p < length ws" "jump_to ls ?p kind l = Some (ws ! ?p)" by (simp_all add: nth_append)
qed

end
