(* ===== verification/Arm64Immediates.thy ===== *)
theory Arm64Immediates
  imports Arm64Inst
begin

text \<open>
  Logical immediates.  The architecture defines which constants an instruction like \<open>and\<close> can hold by
  how it expands thirteen bits to a bit mask: a run of ones, rotated inside an element of 2, 4, ..., 64
  bits, and copied over the register.  \<open>encode_logical_imm\<close> is shown to be its inverse.
\<close>

subsection \<open>Expanding an encoded immediate\<close>

definition logical_esize :: "u32 \<Rightarrow> nat" where
  "logical_esize e =
     (if bit e 12 then 64 else if \<not> bit e 5 then 32 else if \<not> bit e 4 then 16 else if \<not> bit e 3 then 8
      else if \<not> bit e 2 then 4 else if \<not> bit e 1 then 2 else 0)"

definition rotated_run :: "nat \<Rightarrow> nat \<Rightarrow> nat \<Rightarrow> nat \<Rightarrow> u64" where
  "rotated_run esize r s reg_size = horner_sum of_bool 2 (map (\<lambda>i. (i + r) mod esize \<le> s) [0..<reg_size])"

definition decode_logical_imm :: "u32 \<Rightarrow> nat \<Rightarrow> u64 option" where
  "decode_logical_imm e reg_size =
     (let esize = logical_esize e;
          s = unat (e AND word_of_nat (esize - 1));
          r = unat (drop_bit 6 e AND word_of_nat (esize - 1))
      in if esize = 0 \<or> reg_size < esize \<or> s = esize - 1 then None else Some (rotated_run esize r s reg_size))"

lemma bit_rotated_run: "reg_size \<le> 64 \<Longrightarrow> bit (rotated_run esize r s reg_size) i \<longleftrightarrow> i < reg_size \<and> (i + r) mod esize \<le> s"
  by (auto simp: rotated_run_def bit_horner_sum_bit_word_iff)

subsection \<open>Masks\<close>

text \<open>The bits that are set are the interval from \<open>lo\<close> to below \<open>hi\<close>.\<close>

definition interval :: "u64 \<Rightarrow> nat \<Rightarrow> nat \<Rightarrow> bool" where
  "interval x lo hi \<longleftrightarrow> (\<forall>i < 64. bit x i \<longleftrightarrow> lo \<le> i \<and> i < hi)"

lemma u64_eqI: "(\<And>i. i < 64 \<Longrightarrow> bit x i = bit y i) \<Longrightarrow> x = y" for x y :: u64
  by (rule bit_word_eqI) simp

lemma low_zero_split:
  fixes x :: u64
  assumes "k < 64" "\<not> bit x k" "\<forall>i < k. bit x i"
  shows "(x + 1) AND x = x AND NOT (mask (Suc k))"
proof -
  let ?r = "x AND NOT (mask (Suc k))"
  have x: "x = mask k OR ?r"
    using assms by (intro u64_eqI) (auto simp: bit_simps less_Suc_eq)
  have "mask k + ?r = mask k OR ?r" "2 ^ k + ?r = 2 ^ k OR ?r"
    using assms by (auto intro!: disjunctive_add simp: bit_simps)
  then have "x + 1 = 2 ^ k OR ?r"
    using x by (metis (no_types, opaque_lifting) add.assoc add.commute mask_eq_exp_minus_1 diff_add_cancel)
  then show ?thesis
    using assms by (intro u64_eqI) (auto simp: bit_simps less_Suc_eq)
qed

lemma is_mask_interval: "is_mask x \<longleftrightarrow> (\<exists>hi > 0. hi \<le> 64 \<and> interval x 0 hi)"
proof
  assume m: "is_mask x"
  show "\<exists>hi > 0. hi \<le> 64 \<and> interval x 0 hi"
  proof (cases "\<forall>i < 64. bit x i")
    case True
    then show ?thesis by (intro exI [of _ 64]) (simp add: interval_def)
  next
    case False
    define k where "k = (LEAST i. i < 64 \<and> \<not> bit x i)"
    obtain j where "j < 64 \<and> \<not> bit x j" using False by blast
    then have "k < 64 \<and> \<not> bit x k" unfolding k_def by (rule LeastI)
    moreover have "bit x i" if "i < k" for i
      using not_less_Least [OF that [unfolded k_def]] that calculation by simp
    ultimately have k: "k < 64" "\<not> bit x k" "\<forall>i < k. bit x i" by blast+
    then have "x AND NOT (mask (Suc k)) = 0" using low_zero_split m by (simp add: is_mask_def)
    then have "\<not> bit (x AND NOT (mask (Suc k))) i" for i by simp
    then have "interval x 0 k" using k by (force simp: interval_def bit_simps less_Suc_eq)
    moreover from this have "k > 0" using m by (auto simp: interval_def is_mask_def intro!: u64_eqI)
    ultimately show ?thesis using k(1) by (metis less_imp_le)
  qed
next
  assume "\<exists>hi > 0. hi \<le> 64 \<and> interval x 0 hi"
  then obtain hi where hi: "hi > 0" "hi \<le> 64" "interval x 0 hi" by blast
  then have nz: "x \<noteq> 0" by (auto simp: interval_def)
  show "is_mask x"
  proof (cases "hi = 64")
    case True
    then have "x = - 1" using hi by (intro u64_eqI) (simp add: interval_def)
    then show ?thesis by (simp add: is_mask_def)
  next
    case False
    then have "(x + 1) AND x = x AND NOT (mask (Suc hi))"
      using hi by (intro low_zero_split) (auto simp: interval_def)
    also have "\<dots> = 0" using hi by (intro u64_eqI) (auto simp: interval_def bit_simps)
    finally show ?thesis using nz by (simp add: is_mask_def)
  qed
qed

lemma low_one_split:
  fixes x :: u64
  assumes "k < 64" "bit x k" "\<forall>i < k. \<not> bit x i"
  shows "(x - 1) OR x = mask (Suc k) OR x"
proof -
  let ?r = "x AND NOT (mask (Suc k))"
  have x: "x = 2 ^ k OR ?r"
    using assms by (intro u64_eqI) (auto simp: bit_simps less_Suc_eq)
  have "mask k + ?r = mask k OR ?r" "2 ^ k + ?r = 2 ^ k OR ?r"
    using assms by (auto intro!: disjunctive_add simp: bit_simps)
  then have "x - 1 = mask k OR ?r"
    using x by (metis (no_types, opaque_lifting) add_diff_eq add.commute mask_eq_exp_minus_1)
  then show ?thesis
    using assms by (intro u64_eqI) (auto simp: bit_simps less_Suc_eq)
qed

lemma is_shifted_mask_interval: "is_shifted_mask x \<longleftrightarrow> (\<exists>lo hi. lo < hi \<and> hi \<le> 64 \<and> interval x lo hi)"
proof (cases "x = 0")
  case True
  then have "\<not> interval x lo hi" if "lo < hi" "hi \<le> 64" for lo hi
    using that by (auto simp: interval_def intro!: exI [of _ lo])
  then show ?thesis using True by (auto simp: is_shifted_mask_def)
next
  case False
  define k where "k = (LEAST i. bit x i)"
  have "\<exists>i. bit x i" using False bit_eq_iff by fastforce
  then have k: "bit x k" "\<forall>i < k. \<not> bit x i" unfolding k_def by (auto intro: LeastI_ex dest: not_less_Least)
  then have k64: "k < 64" using bit_imp_le_length by fastforce
  have "is_shifted_mask x \<longleftrightarrow> (\<exists>hi > 0. hi \<le> 64 \<and> interval (mask (Suc k) OR x) 0 hi)"
    using False low_one_split [OF k64 k] by (simp add: is_shifted_mask_def is_mask_interval)
  also have "\<dots> \<longleftrightarrow> (\<exists>lo hi. lo < hi \<and> hi \<le> 64 \<and> interval x lo hi)"
  proof
    assume "\<exists>hi > 0. hi \<le> 64 \<and> interval (mask (Suc k) OR x) 0 hi"
    then obtain hi where hi: "hi \<le> 64" "interval (mask (Suc k) OR x) 0 hi" by blast
    then have "k < hi" using k64 by (auto simp: interval_def bit_simps)
    moreover have "bit x i \<longleftrightarrow> k \<le> i \<and> i < hi" if "i < 64" for i
      using hi(2) k that by (cases i k rule: linorder_cases) (auto simp: interval_def bit_simps)
    ultimately show "\<exists>lo hi. lo < hi \<and> hi \<le> 64 \<and> interval x lo hi" using hi(1) unfolding interval_def by blast
  next
    assume "\<exists>lo hi. lo < hi \<and> hi \<le> 64 \<and> interval x lo hi"
    then obtain lo hi where x: "lo < hi" "hi \<le> 64" "interval x lo hi" by blast
    then have "bit x lo" by (simp add: interval_def)
    then have "k \<le> lo" using k by (meson not_le)
    moreover have "lo \<le> k" "k < hi" using k k64 x(3) by (auto simp: interval_def)
    ultimately show "\<exists>hi > 0. hi \<le> 64 \<and> interval (mask (Suc k) OR x) 0 hi"
      using x by (intro exI [of _ hi]) (auto simp: interval_def bit_simps)
  qed
  finally show ?thesis .
qed

lemma length_takeWhile_upt:
  assumes "m \<le> n" "\<forall>i < m. P i" "m < n \<longrightarrow> \<not> P m"
  shows "length (takeWhile P [0..<n]) = m"
proof -
  have "takeWhile P ([0..<m] @ [m..<n]) = [0..<m]"
    using assms by (subst takeWhile_append2) (auto simp: upt_conv_Cons takeWhile_eq_Nil_iff)
  then show ?thesis using assms(1) upt_add_eq_append [of 0 m "n - m"] by simp
qed

lemma trailing_zeros_eq: "m \<le> 64 \<Longrightarrow> \<forall>i < m. \<not> bit x i \<Longrightarrow> m < 64 \<longrightarrow> bit x m \<Longrightarrow> trailing_zeros x = m"
  unfolding trailing_zeros_def by (rule length_takeWhile_upt) auto

lemma leading_zeros_eq:
  assumes "0 < m" "m \<le> 64" "bit x (m - 1)" "\<forall>i. m \<le> i \<and> i < 64 \<longrightarrow> \<not> bit x i"
  shows "leading_zeros x = 64 - m"
proof -
  have "rev [0..<64] = rev [m..<64] @ (m - 1) # rev [0..<m - 1]"
    using assms(1,2) upt_add_eq_append [of 0 m "64 - m"] by (cases m) auto
  moreover have "takeWhile (\<lambda>i. \<not> bit x i) (rev [m..<64] @ (m - 1) # rev [0..<m - 1]) = rev [m..<64]"
    using assms(3,4) by (subst takeWhile_append2) auto
  ultimately show ?thesis unfolding leading_zeros_def by simp
qed

subsection \<open>Element sizes\<close>

definition periodic :: "u64 \<Rightarrow> nat \<Rightarrow> nat \<Rightarrow> bool" where
  "periodic imm n reg_size \<longleftrightarrow> (\<forall>i < reg_size. bit imm i = bit imm (i mod n))"

lemma periodic_mult:
  assumes "periodic imm n reg_size" "n dvd m"
  shows "periodic imm m reg_size"
  unfolding periodic_def
proof (intro allI impI)
  fix i assume "i < reg_size"
  moreover have "i mod m < reg_size" using \<open>i < reg_size\<close> mod_less_eq_dividend [of i m] by linarith
  ultimately show "bit imm i = bit imm (i mod m)" using assms by (simp add: periodic_def mod_mod_cancel)
qed

lemma halves_equal:
  "h < 64 \<Longrightarrow> imm AND (push_bit h 1 - 1) = drop_bit h imm AND (push_bit h 1 - 1) \<longleftrightarrow> (\<forall>i < h. bit imm i = bit imm (i + h))"
  for imm :: u64
proof -
  assume h: "h < 64"
  have m: "push_bit h 1 - 1 = (mask h :: u64)" by (simp add: mask_eq_exp_minus_1 push_bit_eq_mult)
  show ?thesis
  proof
    assume "imm AND (push_bit h 1 - 1) = drop_bit h imm AND (push_bit h 1 - 1)"
    then have "bit (imm AND mask h) i = bit (drop_bit h imm AND mask h) i" for i by (simp only: m)
    then show "\<forall>i < h. bit imm i = bit imm (i + h)" using h by (fastforce simp: bit_simps add.commute)
  next
    assume "\<forall>i < h. bit imm i = bit imm (i + h)"
    then show "imm AND (push_bit h 1 - 1) = drop_bit h imm AND (push_bit h 1 - 1)"
      unfolding m by (intro u64_eqI) (auto simp: bit_simps add.commute)
  qed
qed

lemma periodic_half:
  assumes "periodic imm (2 * h) reg_size" "2 * h \<le> reg_size" "0 < h"
  shows "periodic imm h reg_size \<longleftrightarrow> (\<forall>i < h. bit imm i = bit imm (i + h))"
proof
  assume p: "periodic imm h reg_size"
  show "\<forall>i < h. bit imm i = bit imm (i + h)"
  proof (intro allI impI)
    fix i assume "i < h"
    then have "i + h < reg_size" using assms(2) by simp
    then have "bit imm (i + h) = bit imm ((i + h) mod h)" using p unfolding periodic_def by blast
    then show "bit imm i = bit imm (i + h)" using \<open>i < h\<close> by simp
  qed
next
  assume eq: "\<forall>i < h. bit imm i = bit imm (i + h)"
  show "periodic imm h reg_size"
    unfolding periodic_def
  proof (intro allI impI)
    fix i assume "i < reg_size"
    then have i: "bit imm i = bit imm (i mod (2 * h))" using assms(1) unfolding periodic_def by blast
    let ?r = "i mod (2 * h)"
    have r: "?r < 2 * h" "i mod h = ?r mod h" using assms(3) by (simp_all add: mod_mod_cancel)
    show "bit imm i = bit imm (i mod h)"
    proof (cases "?r < h")
      case False
      then have "h \<le> ?r" "?r - h < h" using r(1) by linarith+
      then have "?r mod h = ?r - h" using le_mod_geq [of h ?r] by (simp only: mod_less)
      moreover have "bit imm (?r - h) = bit imm (?r - h + h)" using eq \<open>?r - h < h\<close> by blast
      ultimately show ?thesis using i r(2) \<open>h \<le> ?r\<close> by (simp only: le_add_diff_inverse2)
    qed (simp add: i r(2))
  qed
qed

lemma element_size_spec:
  assumes "1 \<le> k" "k \<le> 6" "2 ^ k \<le> reg_size" "periodic imm (2 ^ k) reg_size"
  shows "\<exists>j. 1 \<le> j \<and> j \<le> k \<and> element_size imm (2 ^ k) = 2 ^ j \<and> periodic imm (2 ^ j) reg_size
    \<and> (j = 1 \<or> \<not> periodic imm (2 ^ (j - 1)) reg_size)"
  using assms
proof (induction k)
  case (Suc k)
  show ?case
  proof (cases "k = 0")
    case True
    then show ?thesis using Suc.prems by (intro exI [of _ 1]) (simp add: element_size.simps)
  next
    case False
    have "(2::nat) ^ k < 2 ^ 6" using Suc.prems by (intro power_strict_increasing) auto
    then have h: "2 ^ k < (64::nat)" by simp
    have gt: "2 < (2::nat) ^ Suc k" using False power_strict_increasing [of 1 "Suc k" "2::nat"] by simp
    have step: "element_size imm (2 ^ Suc k) =
        (if periodic imm (2 ^ k) reg_size then element_size imm (2 ^ k) else 2 ^ Suc k)"
      using gt halves_equal [OF h, of imm] periodic_half [of imm "2 ^ k" reg_size] Suc.prems
      by (subst element_size.simps) (auto simp: Let_def)
    show ?thesis
    proof (cases "periodic imm (2 ^ k) reg_size")
      case True
      then show ?thesis using Suc.IH Suc.prems False step by fastforce
    next
      case False
      then show ?thesis using Suc.prems step by (intro exI [of _ "Suc k"]) simp
    qed
  qed
qed simp

subsection \<open>Rotated runs\<close>

lemma rotated_less: "i < e \<Longrightarrow> r < e \<Longrightarrow> (i + r) mod e = (if i + r < e then i + r else i + r - e)" for i r e :: nat
  by (auto simp: le_mod_geq)

lemma element_bits: "drop_bit (64 - e) (- 1) = (mask e :: u64)" if "e \<le> 64"
  using that by (intro u64_eqI) (auto simp: bit_simps)

lemma interval_bound: "interval x lo hi \<Longrightarrow> lo < hi \<Longrightarrow> hi \<le> 64 \<Longrightarrow> \<forall>i. e \<le> i \<longrightarrow> \<not> bit x i \<Longrightarrow> hi \<le> e"
  using less_imp_diff_less [of hi 64] by (auto simp: interval_def dest!: spec [of _ "hi - 1"])

lemma interval_counts:
  assumes "interval x lo hi" "lo < hi" "hi \<le> 64"
  shows "trailing_zeros x = lo" "leading_zeros x = 64 - hi" "trailing_zeros (NOT (drop_bit lo x)) = hi - lo"
proof -
  show "trailing_zeros x = lo" using assms by (intro trailing_zeros_eq) (auto simp: interval_def)
  show "leading_zeros x = 64 - hi" using assms by (intro leading_zeros_eq) (auto simp: interval_def)
  have "bit x (lo + i) \<longleftrightarrow> i < hi - lo" for i
    using assms bit_imp_le_length [of x "lo + i"] by (cases "lo + i < 64") (auto simp: interval_def)
  then have "bit (NOT (drop_bit lo x)) i \<longleftrightarrow> hi - lo \<le> i" if "i < 64" for i
    using that by (simp add: bit_not_iff bit_drop_bit_eq not_less)
  then show "trailing_zeros (NOT (drop_bit lo x)) = hi - lo"
    using assms by (intro trailing_zeros_eq) simp_all
qed

definition ones_run :: "u64 \<Rightarrow> nat \<Rightarrow> nat \<Rightarrow> nat \<Rightarrow> bool" where
  "ones_run imm e r n \<longleftrightarrow> 0 < n \<and> n < e \<and> r < e \<and> (\<forall>i < e. bit imm i \<longleftrightarrow> (i + r) mod e < n)"

lemma rotation_mod: "(2 ^ j - lo) AND (2 ^ j - 1) = (if lo = 0 then 0 else 2 ^ j - lo)" if "lo < 2 ^ j" for lo j :: nat
proof -
  have "(2 ^ j - lo) AND (2 ^ j - 1) = (2 ^ j - lo) mod 2 ^ j"
    using take_bit_eq_mask [of j "2 ^ j - lo"] by (simp only: take_bit_eq_mod mask_eq_exp_minus_1)
  then show ?thesis using that by simp
qed

lemma ones_run_interval:
  assumes "\<forall>i < e. bit imm i \<longleftrightarrow> lo \<le> i \<and> i < hi" "lo < hi" "hi \<le> e" "\<exists>i < e. \<not> bit imm i"
  shows "ones_run imm e (if lo = 0 then 0 else e - lo) (hi - lo)"
proof -
  have "hi - lo < e" using assms by (cases "lo = 0 \<and> hi = e") auto
  moreover have "bit imm i \<longleftrightarrow> (i + (if lo = 0 then 0 else e - lo)) mod e < hi - lo" if "i < e" for i
  proof -
    have "(if lo = 0 then 0 else e - lo) < e" using assms by simp
    then show ?thesis using assms that by (subst rotated_less) auto
  qed
  ultimately show ?thesis using assms by (auto simp: ones_run_def)
qed

lemma ones_run_gap:
  assumes "\<forall>i < e. bit imm i \<longleftrightarrow> \<not> (lo \<le> i \<and> i < hi)" "lo < hi" "hi \<le> e" "\<exists>i < e. bit imm i"
  shows "ones_run imm e (e - hi) (e - hi + lo)"
proof -
  have "0 < e - hi + lo" using assms by (cases "lo = 0 \<and> hi = e") auto
  moreover have "bit imm i \<longleftrightarrow> (i + (e - hi)) mod e < e - hi + lo" if "i < e" for i
  proof -
    have "e - hi < e" using assms by simp
    then show ?thesis using assms(1-3) that by (subst rotated_less) auto
  qed
  ultimately show ?thesis using assms by (auto simp: ones_run_def)
qed

lemma interval_element:
  assumes "hi \<le> e" "e \<le> 64"
  shows "interval (imm AND mask e) lo hi \<longleftrightarrow> (\<forall>i < e. bit imm i \<longleftrightarrow> lo \<le> i \<and> i < hi)"
proof -
  have "(\<forall>i < 64. (bit imm i \<and> i < e) = (lo \<le> i \<and> i < hi)) \<longleftrightarrow> (\<forall>i < e. bit imm i \<longleftrightarrow> lo \<le> i \<and> i < hi)"
    using assms by (meson order_less_le_trans)
  then show ?thesis by (simp add: interval_def bit_simps conj_commute)
qed

lemma interval_gap:
  assumes "hi \<le> e" "e \<le> 64"
  shows "interval (NOT (imm AND mask e OR NOT (mask e))) lo hi \<longleftrightarrow> (\<forall>i < e. bit imm i \<longleftrightarrow> \<not> (lo \<le> i \<and> i < hi))"
proof -
  have "NOT (imm AND mask e OR NOT (mask e)) = NOT imm AND mask e" by (intro u64_eqI) (auto simp: bit_simps)
  moreover have "(\<forall>i < e. bit (NOT imm) i \<longleftrightarrow> lo \<le> i \<and> i < hi) \<longleftrightarrow> (\<forall>i < e. bit imm i \<longleftrightarrow> \<not> (lo \<le> i \<and> i < hi))"
    using assms(2) by (auto simp: bit_simps)
  ultimately show ?thesis using interval_element [OF assms, of "NOT imm" lo] by simp
qed

lemma rotated_ones_run:
  assumes "e = 2 ^ j" "e \<le> 64" "\<exists>i < e. bit imm i" "\<exists>i < e. \<not> bit imm i"
  shows "(\<exists>r n. rotated_ones imm e = Inr (Some (r, n)) \<and> ones_run imm e r n)
    \<or> rotated_ones imm e = Inr None \<and> \<not> is_shifted_mask (imm AND mask e)
      \<and> \<not> is_shifted_mask (NOT (imm AND mask e OR NOT (mask e)))"
proof (cases "is_shifted_mask (imm AND mask e)")
  case True
  then obtain lo hi where iv: "lo < hi" "hi \<le> 64" "interval (imm AND mask e) lo hi" by (auto simp: is_shifted_mask_interval)
  then have hi: "hi \<le> e" by (intro interval_bound [OF iv(3,1,2)]) (simp add: bit_simps)
  have "\<forall>i < e. bit imm i \<longleftrightarrow> lo \<le> i \<and> i < hi" using iv(3) by (simp only: interval_element [OF hi assms(2)])
  then have run: "ones_run imm e (if lo = 0 then 0 else e - lo) (hi - lo)" using iv(1) hi assms(4) by (rule ones_run_interval)
  have "rotated_ones imm e = Inr (Some ((e - lo) AND (e - 1), hi - lo))"
    using True iv(1) hi interval_counts [OF iv(3,1,2)] assms(2)
    by (simp add: rotated_ones_def Let_def element_bits checked_u32_sub_def)
  moreover have "(e - lo) AND (e - 1) = (if lo = 0 then 0 else e - lo)"
    using rotation_mod [of lo j] iv(1) hi assms(1) by simp
  ultimately show ?thesis using run by auto
next
  case no: False
  let ?gap = "NOT (imm AND mask e OR NOT (mask e))"
  show ?thesis
  proof (cases "is_shifted_mask ?gap")
    case True
    then obtain lo hi where iv: "lo < hi" "hi \<le> 64" "interval ?gap lo hi" by (auto simp: is_shifted_mask_interval)
    then have hi: "hi \<le> e" by (intro interval_bound [OF iv(3,1,2)]) (simp add: bit_simps)
    have "\<forall>i < e. bit imm i \<longleftrightarrow> \<not> (lo \<le> i \<and> i < hi)" using iv(3) by (simp only: interval_gap [OF hi assms(2)])
    then have run: "ones_run imm e (e - hi) (e - hi + lo)" using iv(1) hi assms(3) by (rule ones_run_gap)
    have "rotated_ones imm e = Inr (Some (e - hi, e - hi + lo))"
      using no True iv(1) hi interval_counts(1,2) [OF iv(3,1,2)] assms(2)
      by (auto simp: rotated_ones_def Let_def element_bits checked_u32_sub_def)
    then show ?thesis using run by blast
  next
    case False
    then show ?thesis using no assms(2) by (simp add: rotated_ones_def Let_def element_bits)
  qed
qed

lemma ones_run_shifted_mask:
  assumes "ones_run imm e r n" "e \<le> 64"
  shows "is_shifted_mask (imm AND mask e) \<or> is_shifted_mask (NOT (imm AND mask e OR NOT (mask e)))"
proof -
  have run: "0 < n" "n < e" "r < e" "\<And>i. i < e \<Longrightarrow> bit imm i \<longleftrightarrow> (if i + r < e then i + r else i + r - e) < n"
    using assms(1) by (auto simp: ones_run_def rotated_less)
  show ?thesis
  proof (cases "r = 0 \<or> n \<le> r")
    case True
    let ?lo = "if r = 0 then 0 else e - r"
    have hi: "?lo + n \<le> e" "?lo < ?lo + n" using run(1-3) True by auto
    have "bit imm i \<longleftrightarrow> ?lo \<le> i \<and> i < ?lo + n" if "i < e" for i
      unfolding run(4) [OF that] using run(1-3) True that by (cases "r = 0"; cases "i + r < e") auto
    then have "interval (imm AND mask e) ?lo (?lo + n)" by (simp add: interval_element [OF hi(1) assms(2)])
    then show ?thesis unfolding is_shifted_mask_interval using hi assms(2) by (meson order_trans)
  next
    case False
    have hi: "e - r \<le> e" "n - r < e - r" using run(1-3) False by auto
    have "bit imm i \<longleftrightarrow> \<not> (n - r \<le> i \<and> i < e - r)" if "i < e" for i
      unfolding run(4) [OF that] using run(1-3) False that by (cases "i + r < e") auto
    then have "interval (NOT (imm AND mask e OR NOT (mask e))) (n - r) (e - r)" unfolding interval_gap [OF hi(1) assms(2)] by blast
    then show ?thesis unfolding is_shifted_mask_interval using hi assms(2) by (meson order_trans)
  qed
qed

lemma ones_run_both:
  assumes "ones_run imm e r n"
  shows "\<exists>i < e. bit imm i" "\<exists>i < e. \<not> bit imm i"
proof -
  have at: "(x + (e - r)) mod e < e" "((x + (e - r)) mod e + r) mod e = x" if "x < e" for x
    using assms that by (auto simp: ones_run_def mod_simps)
  show "\<exists>i < e. bit imm i" using assms at [of 0] unfolding ones_run_def by (metis less_trans)
  show "\<exists>i < e. \<not> bit imm i" using assms at [of n] unfolding ones_run_def by (metis less_irrefl)
qed

lemma ones_run_not_periodic:
  assumes "ones_run imm (2 * h) r n" "2 * h \<le> reg_size"
  shows "\<not> periodic imm h reg_size"
proof
  assume p: "periodic imm h reg_size"
  have same: "bit imm (i + h) = bit imm i" if "i < h" for i
  proof -
    have "i + h < reg_size" using that assms(2) by simp
    then have "bit imm (i + h) = bit imm ((i + h) mod h)" using p unfolding periodic_def by blast
    then show ?thesis using that by simp
  qed
  have run: "0 < n" "n < 2 * h" "r < 2 * h" "\<And>i. i < 2 * h \<Longrightarrow> bit imm i \<longleftrightarrow> (i + r) mod (2 * h) < n"
    using assms(1) by (auto simp: ones_run_def)
  have half: "bit imm ((i + h) mod (2 * h)) = bit imm i" if "i < 2 * h" for i
    using same [of i] same [of "i - h"] that by (cases "i < h") (simp_all add: le_mod_geq)
  have shift: "(x + h) mod (2 * h) < n \<longleftrightarrow> x < n" if "x < 2 * h" for x
  proof -
    let ?i = "(x + (2 * h - r)) mod (2 * h)"
    have "(?i + r) mod (2 * h) = x" using that run(3) by (simp add: mod_simps)
    moreover have "((?i + h) mod (2 * h) + r) mod (2 * h) = ((?i + r) mod (2 * h) + h) mod (2 * h)"
      by (simp add: mod_simps ac_simps)
    ultimately show ?thesis using run(2,4) half [of ?i] by simp
  qed
  have "h < n" using shift [of 0] run(1,2) by simp
  then have "n - h < 2 * h" using run(2) by linarith
  with \<open>h < n\<close> show False using shift [of "n - h"] run(2) by simp
qed

subsection \<open>Encoding and decoding\<close>

definition logical_code :: "nat \<Rightarrow> nat \<Rightarrow> nat \<Rightarrow> u32" where
  "logical_code e r n =
     (let nimms = push_bit 1 (NOT (word_of_nat (e - 1))) OR word_of_nat (n - 1) :: u32
      in push_bit 12 ((drop_bit 6 nimms AND 1) XOR 1) OR push_bit 6 (word_of_nat r) OR nimms AND 0x3F)"

lemma bit_small_word: "k < 2 ^ j \<Longrightarrow> j \<le> i \<Longrightarrow> \<not> bit (word_of_nat k :: u32) i"
proof -
  assume "k < 2 ^ j" "j \<le> i"
  then have "k < 2 ^ i" by (meson one_le_numeral order_less_le_trans power_increasing)
  then have "\<not> bit k i" by (simp add: bit_iff_odd)
  then show ?thesis by (simp add: bit_simps)
qed

lemma bit_logical_code:
  assumes "1 \<le> j" "j \<le> 6" "0 < n" "n < 2 ^ j" "r < 2 ^ j"
  shows "bit (logical_code (2 ^ j) r n) i \<longleftrightarrow>
    (if i < 6 then j < i \<or> i < j \<and> bit (n - 1) i else if i < 12 then bit r (i - 6) else i = 12 \<and> j = 6)"
proof -
  have "n - 1 < 2 ^ j" using assms(4) by simp
  note small = bit_small_word [OF this] bit_small_word [OF assms(5)]
  have mask: "word_of_nat (2 ^ j - 1) = (mask j :: u32)" by (simp add: of_nat_diff mask_eq_exp_minus_1)
  have m6: "(0x3F :: u32) = mask 6" by (simp add: mask_eq_exp_minus_1)
  define nimms where "nimms = (push_bit 1 (NOT (mask j)) OR word_of_nat (n - 1) :: u32)"
  have nimms: "bit nimms i \<longleftrightarrow> j < i \<or> i < j \<and> bit (n - 1) i" if "i < 32" for i
  proof -
    have "bit (push_bit 1 (NOT (mask j)) :: u32) i \<longleftrightarrow> j < i"
      using that by (auto simp only: bit_push_bit_iff bit_not_iff bit_mask_iff) (auto simp: not_less)
    then show ?thesis using small(1) [of i] that unfolding nimms_def by (cases "i < j") (auto simp: bit_or_iff bit_simps)
  qed
  define top where "top = (drop_bit 6 nimms AND 1) XOR 1"
  have code: "logical_code (2 ^ j) r n = push_bit 12 top OR push_bit 6 (word_of_nat r) OR nimms AND mask 6"
    by (simp only: logical_code_def Let_def mask m6 nimms_def top_def)
  have "bit nimms 6 \<longleftrightarrow> j \<noteq> 6" using nimms [of 6] assms(2) by auto
  then have top: "bit top i \<longleftrightarrow> i = 0 \<and> j = 6" for i by (auto simp: top_def bit_simps)
  consider "i < 6" | "6 \<le> i" "i < 12" | "12 \<le> i" by linarith
  then show ?thesis
  proof cases
    case 1
    then show ?thesis using nimms [of i] by (auto simp: code bit_simps)
  next
    case 2
    then show ?thesis by (auto simp: code bit_simps less_imp_diff_less)
  next
    case 3
    then have "j \<le> i - 6" using assms(2) by linarith
    then show ?thesis using 3 small(2) top [of "i - 12"] by (auto simp: code bit_simps)
  qed
qed

lemma word_mask: "word_of_nat (2 ^ j - 1) = (mask j :: u32)"
  by (simp add: of_nat_diff mask_eq_exp_minus_1)

lemma unat_small_bits:
  assumes "k < 2 ^ j" "j \<le> 6" "\<And>i. i < 32 \<Longrightarrow> bit w i \<longleftrightarrow> i < j \<and> bit k i"
  shows "unat (w :: u32) = k"
proof -
  have "bit w i = bit (word_of_nat k :: u32) i" if "i < 32" for i
    using bit_small_word [OF assms(1), of i] assms(3) [OF that] that by (cases "i < j") (auto simp: bit_simps)
  then have "w = word_of_nat k" by (intro bit_word_eqI) simp
  moreover have "(2::nat) ^ j \<le> 2 ^ 6" using assms(2) by (rule power_increasing) simp
  then have "k < 2 ^ 32" using assms(1) by simp
  ultimately show ?thesis by (simp add: unat_of_nat)
qed

lemma decode_logical_code:
  assumes "1 \<le> j" "j \<le> 6" "0 < n" "n < 2 ^ j" "r < 2 ^ j" "2 ^ j \<le> reg_size"
  shows "decode_logical_imm (logical_code (2 ^ j) r n) reg_size = Some (rotated_run (2 ^ j) r (n - 1) reg_size)"
proof -
  let ?e = "logical_code (2 ^ j) r n"
  note bits = bit_logical_code [OF assms(1-5)]
  have "j = 1 \<or> j = 2 \<or> j = 3 \<or> j = 4 \<or> j = 5 \<or> j = 6" using assms(1,2) by auto
  then have es: "logical_esize ?e = 2 ^ j" unfolding logical_esize_def bits by (elim disjE) simp_all
  have s: "unat (?e AND mask j) = n - 1" using assms
    by (intro unat_small_bits [of _ j]) (auto simp: bit_and_iff bit_mask_iff bits)
  have r: "unat (drop_bit 6 ?e AND mask j) = r" using assms
    by (intro unat_small_bits [of _ j]) (auto simp: bit_and_iff bit_mask_iff bit_drop_bit_eq bits)
  show ?thesis unfolding decode_logical_imm_def Let_def es word_mask s r using assms by auto
qed

lemma decode_logical_imm_run:
  assumes "decode_logical_imm e reg_size = Some imm" "reg_size \<le> 64"
  shows "\<exists>j r n. 1 \<le> j \<and> j \<le> 6 \<and> 2 ^ j \<le> reg_size \<and> ones_run imm (2 ^ j) r n \<and> periodic imm (2 ^ j) reg_size
    \<and> (\<forall>i. reg_size \<le> i \<longrightarrow> \<not> bit imm i)"
proof -
  let ?es = "logical_esize e"
  define s r where "s = unat (e AND word_of_nat (?es - 1))" and "r = unat (drop_bit 6 e AND word_of_nat (?es - 1))"
  have "imm = rotated_run ?es r s reg_size" "?es \<noteq> 0" "?es \<le> reg_size" "s \<noteq> ?es - 1"
    using assms(1) unfolding s_def r_def decode_logical_imm_def Let_def by (auto split: if_splits)
  moreover obtain j where j: "?es = 2 ^ j" "1 \<le> j" "j \<le> 6"
  proof -
    have "?es = 2 ^ 1 \<or> ?es = 2 ^ 2 \<or> ?es = 2 ^ 3 \<or> ?es = 2 ^ 4 \<or> ?es = 2 ^ 5 \<or> ?es = 2 ^ 6"
      using \<open>?es \<noteq> 0\<close> by (auto simp: logical_esize_def split: if_splits)
    then show ?thesis by (elim disjE) (rule that, assumption, simp, simp)+
  qed
  moreover have "unat (x AND word_of_nat (2 ^ j - 1) :: u32) < 2 ^ j" for x
    unfolding word_mask take_bit_eq_mask [symmetric] by (simp add: unsigned_take_bit_eq)
  then have "s < ?es" "r < ?es" unfolding s_def r_def j(1) by simp_all
  ultimately have bits: "bit imm i \<longleftrightarrow> i < reg_size \<and> (i + r) mod ?es < s + 1" and "s + 1 < ?es" "r < ?es" for i
    using assms(2) by (auto simp: bit_rotated_run less_Suc_eq_le)
  moreover have "periodic imm ?es reg_size"
    unfolding periodic_def bits using \<open>?es \<le> reg_size\<close> \<open>?es \<noteq> 0\<close>
    by (auto simp: mod_add_left_eq dest: order_le_less_trans [OF mod_less_eq_dividend])
  ultimately have "ones_run imm (2 ^ j) r (s + 1) \<and> periodic imm (2 ^ j) reg_size"
    using \<open>?es \<le> reg_size\<close> unfolding ones_run_def j(1) by auto
  then show ?thesis using j \<open>?es \<le> reg_size\<close> bits by (metis not_less)
qed

lemma element_size_unique:
  assumes "periodic imm (2 ^ j) reg_size" "j = 1 \<or> \<not> periodic imm (2 ^ (j - 1)) reg_size" "1 \<le> j"
    and "periodic imm (2 ^ j') reg_size" "ones_run imm (2 ^ j') r n" "2 ^ j' \<le> reg_size" "1 \<le> j'"
  shows "j = j'"
proof -
  have "2 * 2 ^ (j' - 1) = (2::nat) ^ j'" using assms(7) by (simp flip: power_Suc)
  then have "\<not> periodic imm (2 ^ (j' - 1)) reg_size"
    using ones_run_not_periodic [of imm "2 ^ (j' - 1)" r n reg_size] assms(5,6) by simp
  then have "\<not> j \<le> j' - 1" using periodic_mult [OF assms(1), of "2 ^ (j' - 1)"] le_imp_power_dvd by blast
  moreover have "j = 1 \<or> \<not> j' \<le> j - 1"
    using periodic_mult [OF assms(4), of "2 ^ (j - 1)"] assms(2) le_imp_power_dvd by blast
  ultimately show ?thesis using assms(3,7) by linarith
qed

text \<open>The immediates that are rejected before the search.\<close>

definition plain_imm :: "u64 \<Rightarrow> nat \<Rightarrow> bool" where
  "plain_imm imm reg_size \<longleftrightarrow> imm = 0 \<or> imm = - 1 \<or> reg_size \<noteq> 64 \<and> (drop_bit reg_size imm \<noteq> 0 \<or> imm = 0xFFFFFFFF)"

lemma not_plain_imm:
  assumes "reg_size = 32 \<or> reg_size = 64"
  shows "\<not> plain_imm imm reg_size \<longleftrightarrow>
    (\<exists>i < reg_size. bit imm i) \<and> (\<exists>i < reg_size. \<not> bit imm i) \<and> (\<forall>i \<ge> reg_size. \<not> bit imm i)"
proof -
  have none: "(\<forall>i. \<not> bit x i) \<longleftrightarrow> x = 0" for x :: u64 by (auto intro: u64_eqI)
  have all: "(\<forall>i < 64. bit imm i) \<longleftrightarrow> imm = - 1" by (auto intro: u64_eqI)
  have high: "drop_bit 32 imm = 0 \<longleftrightarrow> (\<forall>i \<ge> 32. \<not> bit imm i)"
  proof -
    have "drop_bit 32 imm = 0 \<longleftrightarrow> (\<forall>i. \<not> bit imm (32 + i))" unfolding none [symmetric] by (simp add: bit_drop_bit_eq)
    then show ?thesis by (metis le_add1 le_Suc_ex)
  qed
  have m: "(0xFFFFFFFF :: u64) = mask 32" by (simp add: mask_eq_exp_minus_1)
  have low: "(\<forall>i < 32. bit imm i) \<and> (\<forall>i \<ge> 32. \<not> bit imm i) \<longleftrightarrow> imm = 0xFFFFFFFF"
    unfolding m by (auto simp: bit_mask_iff intro!: u64_eqI) (meson not_less)
  have long: "\<not> bit imm i" if "64 \<le> i" for i using bit_imp_le_length [of imm i] that by auto
  from assms show ?thesis
  proof
    assume "reg_size = 64"
    then show ?thesis unfolding plain_imm_def none [of imm, symmetric] all [symmetric] using long by (metis not_less)
  next
    assume r: "reg_size = 32"
    have "imm = - 1 \<Longrightarrow> drop_bit 32 imm \<noteq> 0" by simp
    then have "plain_imm imm reg_size \<longleftrightarrow> (\<forall>i. \<not> bit imm i) \<or> \<not> (\<forall>i \<ge> 32. \<not> bit imm i)
        \<or> (\<forall>i < 32. bit imm i) \<and> (\<forall>i \<ge> 32. \<not> bit imm i)"
      unfolding plain_imm_def r low none high by auto
    then show ?thesis unfolding r by (meson not_less)
  qed
qed

lemma encode_logical_imm_steps:
  assumes "reg_size = 32 \<or> reg_size = 64"
  shows "encode_logical_imm imm reg_size =
    (if plain_imm imm reg_size then Inr None
     else rbind (rotated_ones imm (element_size imm reg_size)) (\<lambda>res.
       case res of None \<Rightarrow> Inr None
       | Some (r, n) \<Rightarrow> rbind (rassert (0 < n \<and> r < element_size imm reg_size)) (\<lambda>_.
           Inr (Some (logical_code (element_size imm reg_size) r n)))))"
  using assms unfolding encode_logical_imm_def plain_imm_def logical_code_def Let_def by simp

lemma encode_logical_imm_decodes:
  assumes reg: "reg_size = 32 \<or> reg_size = 64"
  shows "(\<exists>e. encode_logical_imm imm reg_size = Inr (Some e) \<and> decode_logical_imm e reg_size = Some imm)
    \<or> encode_logical_imm imm reg_size = Inr None \<and> (\<forall>e. decode_logical_imm e reg_size \<noteq> Some imm)"
proof (cases "plain_imm imm reg_size")
  case True
  have False if "decode_logical_imm e reg_size = Some imm" for e
  proof -
    have "reg_size \<le> 64" using reg by auto
    from decode_logical_imm_run [OF that this] obtain j r n
      where run: "2 ^ j \<le> reg_size" "ones_run imm (2 ^ j) r n" "\<forall>i. reg_size \<le> i \<longrightarrow> \<not> bit imm i" by blast
    then have "\<not> plain_imm imm reg_size" unfolding not_plain_imm [OF reg] using ones_run_both [OF run(2)]
      by (meson order_less_le_trans)
    then show False using True by blast
  qed
  then show ?thesis using True by (auto simp: encode_logical_imm_steps [OF reg])
next
  case False
  then have imm: "\<exists>i < reg_size. bit imm i" "\<exists>i < reg_size. \<not> bit imm i" "\<forall>i \<ge> reg_size. \<not> bit imm i"
    using not_plain_imm [OF reg] by blast+
  obtain k where k: "reg_size = 2 ^ k" "1 \<le> k" "k \<le> 6"
    using reg by (elim disjE) (force intro: that [of 5], force intro: that [of 6])
  have "periodic imm (2 ^ k) reg_size" by (simp add: periodic_def k(1))
  from element_size_spec [OF k(2,3) _ this] obtain j
    where j: "1 \<le> j" "j \<le> k" "element_size imm reg_size = 2 ^ j" "periodic imm (2 ^ j) reg_size"
      "j = 1 \<or> \<not> periodic imm (2 ^ (j - 1)) reg_size"
    unfolding k(1) by blast
  let ?e = "2 ^ j :: nat"
  have "(2::nat) ^ k \<le> 2 ^ 6" using k(3) by (rule power_increasing) simp
  then have e: "?e \<le> reg_size" "reg_size \<le> 64" using j(2) by (simp_all add: k(1) power_increasing)
  have both: "\<exists>i < ?e. bit imm i" "\<exists>i < ?e. \<not> bit imm i"
    using imm(1,2) j(4) unfolding periodic_def by (metis mod_less_divisor zero_less_numeral zero_less_power)+
  from rotated_ones_run [of ?e j imm, OF refl _ both] e
  consider (some) r n where "rotated_ones imm ?e = Inr (Some (r, n))" "ones_run imm ?e r n"
    | (none) "rotated_ones imm ?e = Inr None" "\<not> is_shifted_mask (imm AND mask ?e)"
        "\<not> is_shifted_mask (NOT (imm AND mask ?e OR NOT (mask ?e)))" by auto
  then show ?thesis
  proof cases
    case some
    then have run: "0 < n" "n < ?e" "r < ?e" "\<And>i. i < ?e \<Longrightarrow> bit imm i \<longleftrightarrow> (i + r) mod ?e < n" by (auto simp: ones_run_def)
    have "bit imm i \<longleftrightarrow> bit (rotated_run ?e r (n - 1) reg_size) i" for i
    proof (cases "i < reg_size")
      case True
      then have "bit imm i = bit imm (i mod ?e)" using j(4) by (simp add: periodic_def)
      also have "\<dots> = ((i + r) mod ?e < n)" by (simp add: run(4) mod_add_left_eq)
      finally show ?thesis using True run(1) e(2) by (auto simp: bit_rotated_run)
    qed (use imm(3) e(2) in \<open>simp add: bit_rotated_run\<close>)
    then have "rotated_run ?e r (n - 1) reg_size = imm" by (simp add: bit_eq_iff)
    moreover have "encode_logical_imm imm reg_size = Inr (Some (logical_code ?e r n))"
      using False some run(1,3) by (simp add: encode_logical_imm_steps [OF reg] j(3))
    ultimately show ?thesis using decode_logical_code [of j n r reg_size] j(1,2) k(3) run(1-3) e(1) by auto
  next
    case none
    have False if dec: "decode_logical_imm c reg_size = Some imm" for c
    proof -
      from decode_logical_imm_run [OF dec e(2)] obtain j' r n
        where run: "1 \<le> j'" "2 ^ j' \<le> reg_size" "ones_run imm (2 ^ j') r n" "periodic imm (2 ^ j') reg_size" by blast
      then have "j = j'" using element_size_unique [OF j(4,5,1)] by blast
      then show False using ones_run_shifted_mask [OF run(3)] none e by simp
    qed
    then show ?thesis using False none(1) by (auto simp: encode_logical_imm_steps [OF reg] j(3))
  qed
qed

end
