(* ===== verification/Arm64Theorems.thy ===== *)
theory Arm64Theorems
  imports Arm64Jumps Arm64Immediates
begin

text \<open>
  The properties of the arm64 assembler: encoders and decoder agree, one pass with back-patching is as
  good as two passes, every jump goes to its label, and the immediates for logical instructions and wide
  moves are exactly those the architecture can hold.
\<close>

lemmas encoders_decode = addsub_extreg_decodes addsub_shreg_decodes addsub_imm_decodes atomic_op_decodes bitfield_decodes
  cmp_branch_imm_decodes cond_branch_imm_decodes csel_decodes dataproc1_decodes dataproc2_decodes dataproc3_decodes
  exception_decodes fp_compare_decodes fp_dataproc1_decodes fp_dataproc2_decodes fp_int_decodes ldst_exclusive_decodes
  ldst_pair_decodes ldst_pair_post_decodes ldst_pair_pre_decodes logical_imm_decodes logical_shreg_decodes move_wide_imm_decodes
  ldst_regimm_decodes ldst_regoffset_decodes ldst_reg_unscaledimm_decodes simd_across_lanes_decodes pcrel_decodes
  simd_2regs_misc_decodes system_decodes uncond_branch_imm_decodes uncond_branch_reg_decodes

text \<open>C5.  When an encoder of the arm64 assembler returns a word and the operands that it does not check fit
  their fields, the word is an instruction of the format the encoder is for, and reading the operand fields
  off the word gives back the operands, with registers and distances as the fields hold them; so no two
  formats share a word.  The operands that have to fit are the size, the flags and the operation of
  \<open>atomic_op\<close>, the size and the flags of \<open>ldst_exclusive\<close>, the flag of \<open>dataproc1\<close> and the numbers of vector
  registers; and \<open>ldst_pair\<close>, which drops its vector flag, is taken with a flag of 0.\<close>

theorem arm64_encoders_decode:
  assumes "encoded name operands x"
  shows "a64_decode x = Some (name, operands)"
  using assms by induction (rule encoders_decode; assumption)+

theorem arm64_encoders_decode_witness:
  "a64_decode 0x910043FD = Some (''addsub_imm'', [1, 0, 0, 0, 16, 31, 29])"
proof -
  have "cls_addsub_imm 1 0 0 0 16 REG_SP (Register 29) = Inr 0x910043FD" by code_simp
  then have "encoded ''addsub_imm'' [1, 0, 0, 0, 16, reg_field REG_SP, reg_field (Register 29)] 0x910043FD"
    by (rule encoded.addsub_imm)
  from arm64_encoders_decode [OF this] show ?thesis
    by (simp add: reg_field_def is_gpr_def REG_SP_def)
qed

text \<open>C11.  The assembler, which emits a zero word for a jump to a label that is not bound yet and writes
  over it in the end, accepts exactly the programs that the two-pass reference accepts, and produces the
  same code: none of the assertions on alignment and none of the conversions fails on its own, as long as
  the code stays below two gigabytes.\<close>

theorem arm64_one_pass_two_pass:
  assumes "4 * program_size items < 2 ^ 31"
  shows "assemble_program items = Some (Inr code) \<longleftrightarrow> (\<exists>ws. two_pass items = Some ws \<and> code = concat (map u32_bytes ws))"
  using assms by (rule assemble_two_pass)

theorem arm64_one_pass_two_pass_witness:
  "assemble_program [NewLabel, Jump (Conditional EQ) 0, Plain (Inr 7), BindLabel 0, Jump Unconditional 0]
     = Some (Inr (concat (map u32_bytes [0x54000040, 7, 0x14000000])))"
proof -
  let ?p = "[NewLabel, Jump (Conditional EQ) 0, Plain (Inr 7), BindLabel 0, Jump Unconditional 0]"
  have "4 * program_size ?p < 2 ^ 31" by simp
  moreover have "two_pass ?p = Some [0x54000040, 7, 0x14000000]" by code_simp
  ultimately show ?thesis using arm64_one_pass_two_pass [of ?p] by blast
qed

text \<open>C19.  When a program is assembled, the word at the place of every jump decodes to a branch of the
  jump's kind, on its condition or register, and the signed distance in it leads to the instruction the
  jump's label was bound at; forward and backward alike.\<close>

theorem arm64_jumps_reach_labels:
  assumes "4 * program_size items < 2 ^ 31" "assemble_program items = Some (Inr code)"
    and "i < length items" "items ! i = Jump kind l" "pc = program_size (take i items)"
  shows "\<exists>ls t. place_labels items 0 [] = Some ls \<and> ls ! l = Some t \<and> jumps_to kind pc (word_at code (4 * pc)) t"
proof -
  obtain ws where ws: "two_pass items = Some ws" and code: "code = concat (map u32_bytes ws)"
    using assemble_two_pass [OF assms(1)] assms(2) by blast
  then obtain ls where ls: "place_labels items 0 [] = Some ls" "code_words ls 0 items = Some ws"
    by (auto simp: two_pass_def Option.bind_eq_Some_conv)
  from code_words_nth [OF ls(2) assms(3,4)]
  obtain t where "pc < length ws" "ls ! l = Some t" "jump_word kind (int t - int pc) = Inr (ws ! pc)"
    by (auto simp: jump_to_def Option.bind_eq_Some_conv assms(5))
  then show ?thesis using ls(1) jump_word_goes by (auto simp: code word_at_concat)
qed

theorem arm64_jumps_reach_labels_witness:
  "\<exists>ls t. place_labels [NewLabel, Jump (Zero True (Register 3)) 0, Plain (Inr 7), BindLabel 0] 0 [] = Some ls \<and> ls ! 0 = Some t
     \<and> jumps_to (Zero True (Register 3)) 0 (word_at (concat (map u32_bytes [0xB4000043, 7])) 0) t"
proof -
  let ?p = "[NewLabel, Jump (Zero True (Register 3)) 0, Plain (Inr 7), BindLabel 0]"
  have size: "4 * program_size ?p < 2 ^ 31" by simp
  have "two_pass ?p = Some [0xB4000043, 7]" by code_simp
  then have "assemble_program ?p = Some (Inr (concat (map u32_bytes [0xB4000043, 7])))"
    using assemble_two_pass [OF size] by blast
  from arm64_jumps_reach_labels [OF size this, of 1 "Zero True (Register 3)" 0 0] show ?thesis by simp
qed

text \<open>C24.  For both register sizes \<open>encode_logical_imm\<close> never panics.  When it returns an encoding, the
  architecture expands it to the very immediate; when it returns none, no encoding of the architecture
  expands to the immediate.\<close>

theorem logical_immediates_exact:
  assumes "reg_size = 32 \<or> reg_size = 64"
  shows "(\<exists>e. encode_logical_imm imm reg_size = Inr (Some e) \<and> decode_logical_imm e reg_size = Some imm)
    \<or> encode_logical_imm imm reg_size = Inr None \<and> (\<forall>e. decode_logical_imm e reg_size \<noteq> Some imm)"
  using assms by (rule encode_logical_imm_decodes)

theorem logical_immediates_exact_witness:
  "\<exists>e. encode_logical_imm 0xF000000F 32 = Inr (Some e) \<and> decode_logical_imm e 32 = Some 0xF000000F"
proof -
  have "encode_logical_imm 0xF000000F 32 \<noteq> Inr None" by code_simp
  then show ?thesis using logical_immediates_exact [of 32 "0xF000000F"] by blast
qed

text \<open>The methods for half-precision numbers pass a type that the encoders of two-operand arithmetic and of
  comparisons do not accept: they panic on all operands.\<close>

lemma half_precision_panics:
  "a64_fadd_h rd rn rm s = Inl AssertionFailed" "a64_fsub_h rd rn rm s = Inl AssertionFailed"
  "a64_fmul_h rd rn rm s = Inl AssertionFailed" "a64_fdiv_h rd rn rm s = Inl AssertionFailed"
  "a64_fcmp_h rn rm s = Inl AssertionFailed" "a64_fcmpe_h rn rm s = Inl AssertionFailed"
  by (simp_all add: a64_fadd_h_def a64_fsub_h_def a64_fmul_h_def a64_fdiv_h_def a64_fcmp_h_def a64_fcmpe_h_def a64_emit_def
      cls_fp_dataproc2_def cls_fp_compare_def FLOAT_TYPE_HALF_def fits_bit_def rassert_def)

end
