(* ===== verification/ConstPool.thy ===== *)
theory ConstPool
  imports HeapAddress AsmBuffer
begin

text \<open>
  The constant pool of a function (\<open>dora/src/constpool.rs\<close>).  It is laid out backwards from the start of
  the code: an entry is named by its distance to the code.  Floating-point values are the words that
  represent them.
\<close>

datatype const_pool_value = CPtr u64 | CFloat32 u32 | CFloat64 u64 | CInt32 u32

record const_pool_entry =
  cpe_disp :: int
  cpe_value :: const_pool_value

record const_pool =
  cp_entries :: "const_pool_entry list"
  cp_size :: int

fun cpv_size :: "const_pool_value \<Rightarrow> int" where
  "cpv_size (CPtr _) = 8"
| "cpv_size (CFloat32 _) = 4"
| "cpv_size (CFloat64 _) = 8"
| "cpv_size (CInt32 _) = 4"

definition cp_new :: const_pool where
  "cp_new = \<lparr>cp_entries = [], cp_size = 0\<rparr>"

fun cpv_bytes :: "const_pool_value \<Rightarrow> u8 list" where
  "cpv_bytes (CPtr v) = u64_bytes v"
| "cpv_bytes (CFloat32 v) = u32_bytes v"
| "cpv_bytes (CFloat64 v) = u64_bytes v"
| "cpv_bytes (CInt32 v) = u32_bytes v"

type_synonym byte_memory = "usize \<Rightarrow> u8"

definition store_bytes :: "u8 list \<Rightarrow> usize \<Rightarrow> byte_memory \<Rightarrow> byte_memory" where
  "store_bytes bs a m = (\<lambda>b. if a \<le> b \<and> b < a + length bs then bs ! (b - a) else m b)"

definition load_bytes :: "nat \<Rightarrow> usize \<Rightarrow> byte_memory \<Rightarrow> u8 list" where
  "load_bytes n a m = map m [a..<a + n]"

definition install_entry :: "const_pool \<Rightarrow> usize \<Rightarrow> const_pool_entry \<Rightarrow> byte_memory \<Rightarrow> byte_memory result" where
  "install_entry p ptr e m =
     rbind (checked_i32 (cp_size p - cpe_disp e)) (\<lambda>off.
     Inr (store_bytes (cpv_bytes (cpe_value e)) (nat (int ptr + off)) m))"

fun install_entries :: "const_pool \<Rightarrow> usize \<Rightarrow> const_pool_entry list \<Rightarrow> byte_memory \<Rightarrow> byte_memory result" where
  "install_entries p ptr [] m = Inr m"
| "install_entries p ptr (e # es) m = rbind (install_entry p ptr e m) (install_entries p ptr es)"

definition cp_install :: "const_pool \<Rightarrow> usize \<Rightarrow> byte_memory \<Rightarrow> byte_memory result" where
  "cp_install p ptr m = install_entries p ptr (cp_entries p) m"

definition cp_add_value :: "const_pool_value \<Rightarrow> const_pool \<Rightarrow> (int \<times> const_pool) result" where
  "cp_add_value v p =
     rbind (checked_i32 (cp_size p + cpv_size v)) (\<lambda>s.
     rbind (align_i32 s (cpv_size v)) (\<lambda>s.
     Inr (s, \<lparr>cp_entries = cp_entries p @ [\<lparr>cpe_disp = s, cpe_value = v\<rparr>], cp_size = s\<rparr>)))"

definition cp_add_addr :: "u64 \<Rightarrow> const_pool \<Rightarrow> (int \<times> const_pool) result" where
  "cp_add_addr ptr = cp_add_value (CPtr ptr)"

definition cp_add_addr_reuse :: "u64 \<Rightarrow> const_pool \<Rightarrow> (int \<times> const_pool) result" where
  "cp_add_addr_reuse ptr p =
     (case find (\<lambda>e. cpe_value e = CPtr ptr) (cp_entries p) of
        Some e \<Rightarrow> Inr (cpe_disp e, p)
      | None \<Rightarrow> cp_add_addr ptr p)"

definition cp_add_f32 :: "u32 \<Rightarrow> const_pool \<Rightarrow> (int \<times> const_pool) result" where
  "cp_add_f32 v = cp_add_value (CFloat32 v)"

definition cp_add_f64 :: "u64 \<Rightarrow> const_pool \<Rightarrow> (int \<times> const_pool) result" where
  "cp_add_f64 v = cp_add_value (CFloat64 v)"

definition cp_add_i32 :: "u32 \<Rightarrow> const_pool \<Rightarrow> (int \<times> const_pool) result" where
  "cp_add_i32 v = cp_add_value (CInt32 v)"

definition cp_align :: "int \<Rightarrow> const_pool \<Rightarrow> const_pool result" where
  "cp_align sz p =
     rbind (rassert (0 < sz)) (\<lambda>_.
     rbind (align_i32 (cp_size p) sz) (\<lambda>s. Inr (p\<lparr>cp_size := s\<rparr>)))"

subsection \<open>Layout\<close>

text \<open>Every entry is aligned to its size and lies beyond the one before.\<close>

fun entries_ok :: "int \<Rightarrow> const_pool_entry list \<Rightarrow> bool" where
  "entries_ok t [] \<longleftrightarrow> True"
| "entries_ok t (e # es) \<longleftrightarrow> t + cpv_size (cpe_value e) \<le> cpe_disp e \<and> cpe_disp e mod cpv_size (cpe_value e) = 0
     \<and> entries_ok (cpe_disp e) es"

fun entries_top :: "int \<Rightarrow> const_pool_entry list \<Rightarrow> int" where
  "entries_top t [] = t"
| "entries_top t (e # es) = entries_top (cpe_disp e) es"

definition cp_ok :: "const_pool \<Rightarrow> bool" where
  "cp_ok p \<longleftrightarrow> entries_ok 0 (cp_entries p) \<and> entries_top 0 (cp_entries p) \<le> cp_size p \<and> cp_size p < 2 ^ 31"

lemma cpv_size_pos: "cpv_size v = 4 \<or> cpv_size v = 8" "length (cpv_bytes v) = nat (cpv_size v)"
  by (cases v; simp add: u64_bytes_def)+

lemma align_i32_spec:
  assumes "align_i32 v al = Inr w" "0 \<le> v" "0 < al"
  shows "v \<le> w" "w mod al = 0" "w < v + al" "w < 2 ^ 31"
proof -
  have "rust_div (v + al - 1) al = (v + al - 1) div al"
    using assms(2,3) by (cases "v + al - 1 = 0") (simp_all add: rust_div_def)
  then have w: "w = (v + al - 1) div al * al" "i32_range w"
    using assms by (auto simp: align_i32_def rbind_eq_Inr_iff checked_i32_def split: if_splits)
  show "w mod al = 0" by (simp add: w(1))
  have "(v + al - 1) div al * al + (v + al - 1) mod al = v + al - 1" by simp
  moreover have "0 \<le> (v + al - 1) mod al" "(v + al - 1) mod al < al" using assms(3) by simp_all
  ultimately show "v \<le> w" "w < v + al" unfolding w(1) by linarith+
  show "w < 2 ^ 31" using w(2) by (simp add: i32_range_def)
qed

lemma entries_append:
  "entries_ok t (es @ [e]) \<longleftrightarrow> entries_ok t es \<and> entries_top t es + cpv_size (cpe_value e) \<le> cpe_disp e
     \<and> cpe_disp e mod cpv_size (cpe_value e) = 0"
  "entries_top t (es @ [e]) = cpe_disp e"
  by (induction t es rule: entries_ok.induct) auto

lemma entries_top_le: "entries_ok t es \<Longrightarrow> t \<le> entries_top t es"
proof (induction t es rule: entries_ok.induct)
  case (2 t e es)
  then show ?case using cpv_size_pos(1) [of "cpe_value e"] by auto
qed simp

lemma cp_ok_new: "cp_ok cp_new"
  by (simp add: cp_ok_def cp_new_def)

lemma cp_ok_size: "cp_ok p \<Longrightarrow> 0 \<le> cp_size p"
  using entries_top_le [of 0 "cp_entries p"] by (simp add: cp_ok_def)

lemma cp_ok_add:
  assumes "cp_ok p" "cp_add_value v p = Inr (d, p')"
  shows "cp_ok p'" "cp_entries p' = cp_entries p @ [\<lparr>cpe_disp = d, cpe_value = v\<rparr>]" "0 < d" "d \<le> cp_size p'"
proof -
  have d: "align_i32 (cp_size p + cpv_size v) (cpv_size v) = Inr d"
    and p': "p' = \<lparr>cp_entries = cp_entries p @ [\<lparr>cpe_disp = d, cpe_value = v\<rparr>], cp_size = d\<rparr>"
    using assms(2) by (auto simp: cp_add_value_def rbind_eq_Inr_iff checked_i32_def split: if_splits)
  have v: "0 < cpv_size v" using cpv_size_pos(1) [of v] by auto
  note al = align_i32_spec [OF d _ v]
  show "cp_entries p' = cp_entries p @ [\<lparr>cpe_disp = d, cpe_value = v\<rparr>]" "0 < d" "d \<le> cp_size p'"
    using p' al(1) v cp_ok_size [OF assms(1)] by auto
  show "cp_ok p'" using assms(1) p' al v cp_ok_size [OF assms(1)] by (auto simp: cp_ok_def entries_append)
qed

lemma cp_ok_align: "cp_ok p \<Longrightarrow> cp_align n p = Inr p' \<Longrightarrow> cp_ok p' \<and> cp_entries p' = cp_entries p \<and> cp_size p' mod n = 0"
  using align_i32_spec [of "cp_size p" n] cp_ok_size [of p]
  by (fastforce simp: cp_align_def cp_ok_def rbind_eq_Inr_iff)

lemma load_stored: "load_bytes (length bs) a (store_bytes bs a m) = bs"
  by (rule nth_equalityI) (auto simp: load_bytes_def store_bytes_def)

lemma install_entries_spec:
  assumes "entries_ok t es" "0 \<le> t" "entries_top t es \<le> cp_size p" "cp_size p < 2 ^ 31"
  shows "\<exists>m'. install_entries p ptr es m = Inr m'
    \<and> (\<forall>e\<in>set es. load_bytes (length (cpv_bytes (cpe_value e))) (ptr + nat (cp_size p - cpe_disp e)) m' = cpv_bytes (cpe_value e))
    \<and> (\<forall>b. b < ptr + nat (cp_size p - entries_top t es) \<or> ptr + nat (cp_size p - t) \<le> b \<longrightarrow> m' b = m b)"
  using assms
proof (induction es arbitrary: t m)
  case (Cons e es)
  let ?v = "cpe_value e" and ?d = "cpe_disp e"
  have d: "t + cpv_size ?v \<le> ?d" "entries_ok ?d es" "?d \<le> entries_top ?d es" "entries_top ?d es \<le> cp_size p"
    using Cons.prems entries_top_le [of ?d es] by auto
  have v: "0 < cpv_size ?v" "length (cpv_bytes ?v) = nat (cpv_size ?v)" using cpv_size_pos [of ?v] by auto
  let ?a = "ptr + nat (cp_size p - ?d)"
  let ?m = "store_bytes (cpv_bytes ?v) ?a m"
  have "i32_range (cp_size p - ?d)" using d v Cons.prems by (auto simp: i32_range_def)
  moreover have "nat (int ptr + (cp_size p - ?d)) = ?a" using d by linarith
  ultimately have first: "install_entry p ptr e m = Inr ?m" by (simp add: install_entry_def checked_i32_def)
  obtain m' where m': "install_entries p ptr es ?m = Inr m'"
    "\<forall>e\<in>set es. load_bytes (length (cpv_bytes (cpe_value e))) (ptr + nat (cp_size p - cpe_disp e)) m' = cpv_bytes (cpe_value e)"
    "\<forall>b. b < ptr + nat (cp_size p - entries_top ?d es) \<or> ?a \<le> b \<longrightarrow> m' b = ?m b"
    using Cons.IH [of ?d ?m] d v Cons.prems by auto
  have "load_bytes (length (cpv_bytes ?v)) ?a m' = load_bytes (length (cpv_bytes ?v)) ?a ?m"
    using m'(3) by (simp add: load_bytes_def)
  moreover have "m' b = m b" if "b < ptr + nat (cp_size p - entries_top ?d es) \<or> ptr + nat (cp_size p - t) \<le> b" for b
  proof -
    have "b < ?a \<or> ?a + length (cpv_bytes ?v) \<le> b" using that d v by linarith
    then have "?m b = m b" by (auto simp: store_bytes_def)
    moreover have "b < ptr + nat (cp_size p - entries_top ?d es) \<or> ?a \<le> b" using that d v by linarith
    ultimately show ?thesis using m'(3) by metis
  qed
  ultimately show ?case using first m'(1,2) by (auto simp: load_stored)
qed simp

lemma cp_install_spec:
  assumes "cp_ok p"
  shows "\<exists>m'. cp_install p ptr m = Inr m'
    \<and> (\<forall>e\<in>set (cp_entries p). load_bytes (length (cpv_bytes (cpe_value e))) (ptr + nat (cp_size p - cpe_disp e)) m' = cpv_bytes (cpe_value e))
    \<and> (\<forall>b. b < ptr \<or> ptr + nat (cp_size p) \<le> b \<longrightarrow> m' b = m b)"
proof -
  from install_entries_spec [of 0 "cp_entries p" p ptr m] assms
  obtain m' where "install_entries p ptr (cp_entries p) m = Inr m'"
    "\<forall>e\<in>set (cp_entries p). load_bytes (length (cpv_bytes (cpe_value e))) (ptr + nat (cp_size p - cpe_disp e)) m' = cpv_bytes (cpe_value e)"
    "\<forall>b. b < ptr + nat (cp_size p - entries_top 0 (cp_entries p)) \<or> ptr + nat (cp_size p) \<le> b \<longrightarrow> m' b = m b"
    by (auto simp: cp_ok_def)
  then show ?thesis by (auto simp: cp_install_def)
qed

lemma entry_aligned:
  assumes "cp_ok p" "e \<in> set (cp_entries p)" "(int ptr + cp_size p) mod 8 = 0"
  shows "int (ptr + nat (cp_size p - cpe_disp e)) mod cpv_size (cpe_value e) = 0" "cpe_disp e \<le> cp_size p"
proof -
  have "cpe_disp e mod cpv_size (cpe_value e) = 0 \<and> cpe_disp e \<le> entries_top t es" if "entries_ok t es" "e \<in> set es" for t es
    using that
  proof (induction t es rule: entries_ok.induct)
    case (2 t a es)
    then show ?case using entries_top_le [of "cpe_disp a" es] by auto
  qed simp
  then have e: "cpe_disp e mod cpv_size (cpe_value e) = 0" "cpe_disp e \<le> cp_size p"
    using assms(1,2) unfolding cp_ok_def by (auto, force)
  have "cpv_size (cpe_value e) dvd 8" using cpv_size_pos(1) [of "cpe_value e"] by auto
  then have "cpv_size (cpe_value e) dvd int ptr + cp_size p" using assms(3) by (meson dvd_trans mod_0_imp_dvd)
  moreover have "int (ptr + nat (cp_size p - cpe_disp e)) = int ptr + cp_size p - cpe_disp e" using e(2) by simp
  ultimately show "int (ptr + nat (cp_size p - cpe_disp e)) mod cpv_size (cpe_value e) = 0"
    using e(1) by (simp only: mod_eq_0_iff_dvd dvd_diff)
  show "cpe_disp e \<le> cp_size p" by (rule e(2))
qed

end
