(* ===== verification/MacroAssembler.thy ===== *)
theory MacroAssembler
  imports Arm64Assembler ConstPool BytecodeData
begin

text \<open>
  The macro assembler for arm64 (\<open>dora/src/masm.rs\<close>, \<open>dora/src/masm/arm64.rs\<close>) with the registers of
  the processor (\<open>dora/src/cpu/arm64.rs\<close>), machine modes (\<open>dora/src/mode.rs\<close>) and the tables that go with
  the code (\<open>dora/src/vm/code.rs\<close>).  What the processor supports, the address of the trap stub and offsets
  inside structures without a fixed layout are arguments.
\<close>

subsection \<open>Machine modes and registers\<close>

datatype machine_mode = ModeInt8 | ModeInt32 | ModeInt64 | ModeIntPtr | ModeFloat32 | ModeFloat64 | ModePtr

fun mode_size :: "machine_mode \<Rightarrow> int" where
  "mode_size ModeInt8 = 1"
| "mode_size ModeInt32 = 4"
| "mode_size ModeInt64 = 8"
| "mode_size ModeIntPtr = 8"
| "mode_size ModePtr = 8"
| "mode_size ModeFloat32 = 4"
| "mode_size ModeFloat64 = 8"

datatype cpu_reg = Reg u8

datatype cpu_freg = FReg u8

datatype any_reg = AnyReg cpu_reg | AnyFReg cpu_freg

definition REG_PARAMS :: "cpu_reg list" where "REG_PARAMS = map Reg [0, 1, 2, 3, 4, 5, 6, 7]"
definition SCRATCH :: "cpu_reg list" where "SCRATCH = map Reg [9, 12, 13, 14, 15]"
definition REG_RESULT :: cpu_reg where "REG_RESULT = Reg 0"
definition REG_TMP1 :: cpu_reg where "REG_TMP1 = Reg 10"
definition REG_TMP2 :: cpu_reg where "REG_TMP2 = Reg 11"
definition REG_FP :: cpu_reg where "REG_FP = Reg 29"
definition REG_LR :: cpu_reg where "REG_LR = Reg 30"
definition REG_THREAD :: cpu_reg where "REG_THREAD = Reg 28"
definition CPU_REG_SP :: cpu_reg where "CPU_REG_SP = Reg 32"
definition CPU_REG_ZERO :: cpu_reg where "CPU_REG_ZERO = Reg 33"
definition FREG_TMP1 :: cpu_freg where "FREG_TMP1 = FReg 16"

definition reg_into :: "cpu_reg \<Rightarrow> Arm64Inst.register result" where
  "reg_into reg =
     (case reg of Reg n \<Rightarrow>
        if n < 31 then register_new n
        else if reg = CPU_REG_ZERO then Inr REG_ZERO
        else rbind (rassert (reg = CPU_REG_SP)) (\<lambda>_. Inr REG_SP))"

definition freg_into :: "cpu_freg \<Rightarrow> neon_register result" where
  "freg_into reg = (case reg of FReg n \<Rightarrow> neon_register_new n)"

definition any_is_reg :: "any_reg \<Rightarrow> bool" where
  "any_is_reg r = (case r of AnyReg _ \<Rightarrow> True | AnyFReg _ \<Rightarrow> False)"

definition any_reg_reg :: "any_reg \<Rightarrow> cpu_reg result" where
  "any_reg_reg r = (case r of AnyReg reg \<Rightarrow> Inr reg | AnyFReg _ \<Rightarrow> Inl ExplicitPanic)"

definition any_reg_freg :: "any_reg \<Rightarrow> cpu_freg result" where
  "any_reg_freg r = (case r of AnyFReg reg \<Rightarrow> Inr reg | AnyReg _ \<Rightarrow> Inl ExplicitPanic)"

datatype cond_code =
    CcZero | CcNonZero | CcEqual | CcNotEqual | CcGreater | CcGreaterEq | CcLess | CcLessEq
  | CcUnsignedGreater | CcUnsignedGreaterEq | CcUnsignedLess | CcUnsignedLessEq

fun cond_into :: "cond_code \<Rightarrow> cond" where
  "cond_into CcZero = EQ"
| "cond_into CcNonZero = NE"
| "cond_into CcEqual = EQ"
| "cond_into CcNotEqual = NE"
| "cond_into CcGreater = GT"
| "cond_into CcGreaterEq = GE"
| "cond_into CcLess = LT"
| "cond_into CcLessEq = LE"
| "cond_into CcUnsignedGreater = HI"
| "cond_into CcUnsignedGreaterEq = HS"
| "cond_into CcUnsignedLess = LO"
| "cond_into CcUnsignedLessEq = LS"

datatype trap = DIV0 | ASSERT | INDEX_OUT_OF_BOUNDS | NIL | CAST | OOM | STACK_OVERFLOW | ILLEGAL | OVERFLOW

fun trap_int :: "trap \<Rightarrow> u32" where
  "trap_int DIV0 = 1"
| "trap_int ASSERT = 2"
| "trap_int INDEX_OUT_OF_BOUNDS = 3"
| "trap_int NIL = 4"
| "trap_int CAST = 5"
| "trap_int OOM = 6"
| "trap_int STACK_OVERFLOW = 7"
| "trap_int ILLEGAL = 8"
| "trap_int OVERFLOW = 9"

definition trap_from :: "u32 \<Rightarrow> trap option" where
  "trap_from v =
     (if v = 1 then Some DIV0 else if v = 2 then Some ASSERT else if v = 3 then Some INDEX_OUT_OF_BOUNDS
      else if v = 4 then Some NIL else if v = 5 then Some CAST else if v = 6 then Some OOM
      else if v = 7 then Some STACK_OVERFLOW else if v = 8 then Some ILLEGAL else if v = 9 then Some OVERFLOW else None)"

datatype mem = Local int | Base cpu_reg int | Index cpu_reg cpu_reg int int | Offset cpu_reg int int

subsection \<open>State\<close>

datatype lazy_compilation_site =
    LazyDirect usize int source_type_array
  | LazyVirtual bool usize u32 source_type_array
  | LazyLambda bool

record gc_point =
  gcp_offsets :: "int list"

record masm =
  m_asm :: assembler_arm64
  m_bailouts :: "(asm_label \<times> trap \<times> position) list"
  m_lazy_compilation :: "(u32 \<times> lazy_compilation_site) list"
  m_constpool :: const_pool
  m_gcpoints :: "(u32 \<times> gc_point) list"
  m_comments :: "(u32 \<times> string) list"
  m_positions :: "(u32 \<times> position) list"
  m_scratch_value :: u32

record code_descriptor =
  cd_constpool :: const_pool
  cd_code :: "u8 list"
  cd_lazy_compilation :: "(u32 \<times> lazy_compilation_site) list"
  cd_gcpoints :: "(u32 \<times> gc_point) list"
  cd_comments :: "(u32 \<times> string) list"
  cd_positions :: "(u32 \<times> position) list"

type_synonym masm_step = "masm \<Rightarrow> masm result"

definition masm_new :: masm where
  "masm_new = \<lparr>m_asm = a64_new, m_bailouts = [], m_lazy_compilation = [], m_constpool = cp_new, m_gcpoints = [],
     m_comments = [], m_positions = [], m_scratch_value = 0\<rparr>"

definition from_buffer :: "u8 list \<Rightarrow> code_descriptor" where
  "from_buffer code = \<lparr>cd_constpool = cp_new, cd_code = code, cd_lazy_compilation = [], cd_gcpoints = [], cd_comments = [],
     cd_positions = []\<rparr>"

text \<open>The tables are sorted by offset; the insertions assert it.\<close>

definition table_insert :: "u32 \<Rightarrow> 'a \<Rightarrow> (u32 \<times> 'a) list \<Rightarrow> (u32 \<times> 'a) list result" where
  "table_insert off x t = rbind (rassert (t = [] \<or> fst (last t) < off)) (\<lambda>_. Inr (t @ [(off, x)]))"

definition comment_insert :: "u32 \<Rightarrow> string \<Rightarrow> (u32 \<times> string) list \<Rightarrow> (u32 \<times> string) list result" where
  "comment_insert off x t = rbind (rassert (t = [] \<or> fst (last t) \<le> off)) (\<lambda>_. Inr (t @ [(off, x)]))"

definition table_get :: "u32 \<Rightarrow> (u32 \<times> 'a) list \<Rightarrow> 'a option" where
  "table_get off t = (case bsearch_key t off 0 (length t) of Inr idx \<Rightarrow> Some (snd (t ! idx)) | Inl _ \<Rightarrow> None)"

definition comment_get :: "u32 \<Rightarrow> (u32 \<times> string) list \<Rightarrow> string list" where
  "comment_get off t =
     (case bsearch_key t off 0 (length t) of
        Inr idx \<Rightarrow> map snd (takeWhile (\<lambda>e. fst e = off) (drop idx t))
      | Inl _ \<Rightarrow> [])"

text \<open>Sequences of steps, calls of the assembler with converted registers, and failures.\<close>

fun msteps :: "masm_step list \<Rightarrow> masm_step" where
  "msteps [] s = Inr s"
| "msteps (f # fs) s = rbind (f s) (msteps fs)"

definition mfail :: "panic \<Rightarrow> masm_step" where
  "mfail e s = Inl e"

definition mcheck :: "bool \<Rightarrow> masm_step" where
  "mcheck b s = rbind (rassert b) (\<lambda>_. Inr s)"

definition asm_op :: "a64_step \<Rightarrow> masm_step" where
  "asm_op f s = rbind (f (m_asm s)) (\<lambda>a. Inr (s\<lparr>m_asm := a\<rparr>))"

definition mwith :: "'a result \<Rightarrow> ('a \<Rightarrow> masm_step) \<Rightarrow> masm_step" where
  "mwith r f s = rbind r (\<lambda>x. f x s)"

definition asm_r1 :: "(Arm64Inst.register \<Rightarrow> a64_step) \<Rightarrow> cpu_reg \<Rightarrow> masm_step" where
  "asm_r1 f a = mwith (reg_into a) (\<lambda>a. asm_op (f a))"

definition asm_r2 :: "(Arm64Inst.register \<Rightarrow> Arm64Inst.register \<Rightarrow> a64_step) \<Rightarrow> cpu_reg \<Rightarrow> cpu_reg \<Rightarrow> masm_step" where
  "asm_r2 f a b = mwith (reg_into a) (\<lambda>a. asm_r1 (f a) b)"

definition asm_r3 :: "(Arm64Inst.register \<Rightarrow> Arm64Inst.register \<Rightarrow> Arm64Inst.register \<Rightarrow> a64_step) \<Rightarrow>
    cpu_reg \<Rightarrow> cpu_reg \<Rightarrow> cpu_reg \<Rightarrow> masm_step" where
  "asm_r3 f a b c = mwith (reg_into a) (\<lambda>a. asm_r2 (f a) b c)"

definition asm_r4 :: "(Arm64Inst.register \<Rightarrow> Arm64Inst.register \<Rightarrow> Arm64Inst.register \<Rightarrow> Arm64Inst.register \<Rightarrow> a64_step) \<Rightarrow>
    cpu_reg \<Rightarrow> cpu_reg \<Rightarrow> cpu_reg \<Rightarrow> cpu_reg \<Rightarrow> masm_step" where
  "asm_r4 f a b c d = mwith (reg_into a) (\<lambda>a. asm_r3 (f a) b c d)"

definition asm_f1 :: "(neon_register \<Rightarrow> a64_step) \<Rightarrow> cpu_freg \<Rightarrow> masm_step" where
  "asm_f1 f a = mwith (freg_into a) (\<lambda>a. asm_op (f a))"

definition asm_f2 :: "(neon_register \<Rightarrow> neon_register \<Rightarrow> a64_step) \<Rightarrow> cpu_freg \<Rightarrow> cpu_freg \<Rightarrow> masm_step" where
  "asm_f2 f a b = mwith (freg_into a) (\<lambda>a. asm_f1 (f a) b)"

definition asm_f3 :: "(neon_register \<Rightarrow> neon_register \<Rightarrow> neon_register \<Rightarrow> a64_step) \<Rightarrow>
    cpu_freg \<Rightarrow> cpu_freg \<Rightarrow> cpu_freg \<Rightarrow> masm_step" where
  "asm_f3 f a b c = mwith (freg_into a) (\<lambda>a. asm_f2 (f a) b c)"

definition asm_fr :: "(neon_register \<Rightarrow> Arm64Inst.register \<Rightarrow> a64_step) \<Rightarrow> cpu_freg \<Rightarrow> cpu_reg \<Rightarrow> masm_step" where
  "asm_fr f a b = mwith (freg_into a) (\<lambda>a. asm_r1 (f a) b)"

definition asm_rf :: "(Arm64Inst.register \<Rightarrow> neon_register \<Rightarrow> a64_step) \<Rightarrow> cpu_reg \<Rightarrow> cpu_freg \<Rightarrow> masm_step" where
  "asm_rf f a b = mwith (reg_into a) (\<lambda>a. asm_f1 (f a) b)"

text \<open>An access with an operand that is a general or a floating-point register.\<close>

definition asm_any_r :: "(Arm64Inst.register \<Rightarrow> Arm64Inst.register \<Rightarrow> a64_step) \<Rightarrow> any_reg \<Rightarrow> cpu_reg \<Rightarrow> masm_step" where
  "asm_any_r f a b = mwith (any_reg_reg a) (\<lambda>a. asm_r2 f a b)"

definition asm_any_f :: "(neon_register \<Rightarrow> Arm64Inst.register \<Rightarrow> a64_step) \<Rightarrow> any_reg \<Rightarrow> cpu_reg \<Rightarrow> masm_step" where
  "asm_any_f f a b = mwith (any_reg_freg a) (\<lambda>a. asm_fr f a b)"

definition asm_any_rr ::
  "(Arm64Inst.register \<Rightarrow> Arm64Inst.register \<Rightarrow> Arm64Inst.register \<Rightarrow> a64_step) \<Rightarrow> any_reg \<Rightarrow> cpu_reg \<Rightarrow> cpu_reg \<Rightarrow> masm_step" where
  "asm_any_rr f a b c = mwith (any_reg_reg a) (\<lambda>a. asm_r3 f a b c)"

definition asm_any_fr ::
  "(neon_register \<Rightarrow> Arm64Inst.register \<Rightarrow> Arm64Inst.register \<Rightarrow> a64_step) \<Rightarrow> any_reg \<Rightarrow> cpu_reg \<Rightarrow> cpu_reg \<Rightarrow> masm_step" where
  "asm_any_fr f a b c = mwith (any_reg_freg a) (\<lambda>a. mwith (freg_into a) (\<lambda>a. asm_r2 (f a) b c))"

subsection \<open>Scratch registers\<close>

text \<open>A scratch register is taken when it is asked for and freed when its scope ends.\<close>

fun scratch_find :: "u32 \<Rightarrow> nat \<Rightarrow> cpu_reg list \<Rightarrow> (nat \<times> cpu_reg) option" where
  "scratch_find v ind [] = None"
| "scratch_find v ind (reg # regs) = (if drop_bit ind v AND 1 = 0 then Some (ind, reg) else scratch_find v (ind + 1) regs)"

definition scratch_get :: "masm \<Rightarrow> (nat \<times> cpu_reg \<times> masm) result" where
  "scratch_get s =
     (let v = m_scratch_value s in
      case scratch_find v 0 SCRATCH of
        Some (ind, reg) \<Rightarrow> Inr (ind, reg, s\<lparr>m_scratch_value := v OR push_bit ind 1\<rparr>)
      | None \<Rightarrow> Inl ExplicitPanic)"

definition scratch_free :: "nat \<Rightarrow> masm \<Rightarrow> masm" where
  "scratch_free ind s = s\<lparr>m_scratch_value := m_scratch_value s AND NOT (push_bit ind 1)\<rparr>"

definition with_scratch :: "(cpu_reg \<Rightarrow> masm_step) \<Rightarrow> masm_step" where
  "with_scratch f s = rbind (scratch_get s) (\<lambda>(ind, reg, s). rbind (f reg s) (\<lambda>s. Inr (scratch_free ind s)))"

subsection \<open>Positions, labels and tables\<close>

definition m_pos :: "masm \<Rightarrow> usize" where
  "m_pos s = a64_position (m_asm s)"

definition m_pos_i32 :: "masm \<Rightarrow> int" where
  "m_pos_i32 s = as_i32 (as_u32 (m_pos s))"

definition m_create_label :: "masm \<Rightarrow> asm_label \<times> masm" where
  "m_create_label s = (case a64_create_label (m_asm s) of (l, a) \<Rightarrow> (l, s\<lparr>m_asm := a\<rparr>))"

definition with_label :: "(asm_label \<Rightarrow> masm_step) \<Rightarrow> masm_step" where
  "with_label f s = (case m_create_label s of (l, s) \<Rightarrow> f l s)"

definition m_create_and_bind_label :: "masm \<Rightarrow> (asm_label \<times> masm) result" where
  "m_create_and_bind_label s = rbind (a64_create_and_bind_label (m_asm s)) (\<lambda>(l, a). Inr (l, s\<lparr>m_asm := a\<rparr>))"

definition with_bound_label :: "(asm_label \<Rightarrow> masm_step) \<Rightarrow> masm_step" where
  "with_bound_label f s = rbind (m_create_and_bind_label s) (\<lambda>(l, s). f l s)"

definition m_bind_label :: "asm_label \<Rightarrow> masm_step" where
  "m_bind_label lbl = asm_op (a64_bind_label lbl)"

definition m_add_addr :: "u64 \<Rightarrow> masm \<Rightarrow> (int \<times> masm) result" where
  "m_add_addr ptr s = rbind (cp_add_addr ptr (m_constpool s)) (\<lambda>(d, p). Inr (d, s\<lparr>m_constpool := p\<rparr>))"

definition m_emit_position :: "position \<Rightarrow> masm_step" where
  "m_emit_position position s =
     rbind (table_insert (as_u32 (m_pos s)) position (m_positions s)) (\<lambda>t. Inr (s\<lparr>m_positions := t\<rparr>))"

definition m_emit_gcpoint :: "gc_point \<Rightarrow> masm_step" where
  "m_emit_gcpoint gcpoint s =
     rbind (table_insert (as_u32 (m_pos s)) gcpoint (m_gcpoints s)) (\<lambda>t. Inr (s\<lparr>m_gcpoints := t\<rparr>))"

definition m_emit_only_gcpoint :: "gc_point \<Rightarrow> masm_step" where
  "m_emit_only_gcpoint gcpoint s = rbind (table_insert 0 gcpoint (m_gcpoints s)) (\<lambda>t. Inr (s\<lparr>m_gcpoints := t\<rparr>))"

definition m_emit_lazy_compilation_site :: "lazy_compilation_site \<Rightarrow> masm_step" where
  "m_emit_lazy_compilation_site info s =
     rbind (table_insert (as_u32 (m_pos s)) info (m_lazy_compilation s)) (\<lambda>t. Inr (s\<lparr>m_lazy_compilation := t\<rparr>))"

definition m_emit_comment :: "string \<Rightarrow> masm_step" where
  "m_emit_comment comment s =
     rbind (comment_insert (as_u32 (m_pos s)) comment (m_comments s)) (\<lambda>t. Inr (s\<lparr>m_comments := t\<rparr>))"

definition m_emit_bailout :: "asm_label \<Rightarrow> trap \<Rightarrow> position \<Rightarrow> masm_step" where
  "m_emit_bailout lbl trap pos s = Inr (s\<lparr>m_bailouts := m_bailouts s @ [(lbl, trap, pos)]\<rparr>)"

definition m_emit_u8 :: "u8 \<Rightarrow> masm_step" where "m_emit_u8 v = asm_op (a64_emit_u8 v)"
definition m_emit_u32 :: "u32 \<Rightarrow> masm_step" where "m_emit_u32 v = asm_op (a64_emit_u32 v)"
definition m_emit_u64 :: "u64 \<Rightarrow> masm_step" where "m_emit_u64 v = asm_op (a64_emit_u64 v)"

subsection \<open>Constants\<close>

definition size_flag :: "machine_mode \<Rightarrow> u32 result" where
  "size_flag mode =
     (case mode of
        ModeInt8 \<Rightarrow> Inr 0 | ModeInt32 \<Rightarrow> Inr 0
      | ModeIntPtr \<Rightarrow> Inr 1 | ModePtr \<Rightarrow> Inr 1 | ModeInt64 \<Rightarrow> Inr 1
      | ModeFloat32 \<Rightarrow> Inl Unimplemented | ModeFloat64 \<Rightarrow> Inl Unimplemented)"

definition register_bits :: "machine_mode \<Rightarrow> nat result" where
  "register_bits mode =
     (case mode of
        ModeInt8 \<Rightarrow> Inr 32 | ModeInt32 \<Rightarrow> Inr 32
      | ModeIntPtr \<Rightarrow> Inr 64 | ModePtr \<Rightarrow> Inr 64 | ModeInt64 \<Rightarrow> Inr 64
      | ModeFloat32 \<Rightarrow> Inl Unreachable | ModeFloat64 \<Rightarrow> Inl Unreachable)"

definition imm_half :: "u64 \<Rightarrow> nat \<Rightarrow> u32" where
  "imm_half imm ind = ucast (drop_bit (16 * ind) imm AND 0xFFFF)"

definition movz_sf :: "u32 \<Rightarrow> cpu_reg \<Rightarrow> u32 \<Rightarrow> u32 \<Rightarrow> masm_step" where
  "movz_sf sf dest imm shift =
     (if sf \<noteq> 0 then asm_r1 (\<lambda>d. a64_movz d imm shift) dest else asm_r1 (\<lambda>d. a64_movz_w d imm shift) dest)"

definition movn_sf :: "u32 \<Rightarrow> cpu_reg \<Rightarrow> u32 \<Rightarrow> u32 \<Rightarrow> masm_step" where
  "movn_sf sf dest imm shift =
     (if sf \<noteq> 0 then asm_r1 (\<lambda>d. a64_movn d imm shift) dest else asm_r1 (\<lambda>d. a64_movn_w d imm shift) dest)"

definition movk_sf :: "u32 \<Rightarrow> cpu_reg \<Rightarrow> u32 \<Rightarrow> u32 \<Rightarrow> masm_step" where
  "movk_sf sf dest imm shift =
     (if sf \<noteq> 0 then asm_r1 (\<lambda>d. a64_movk d imm shift) dest else asm_r1 (\<lambda>d. a64_movk_w d imm shift) dest)"

fun load_halves :: "u32 \<Rightarrow> cpu_reg \<Rightarrow> u64 \<Rightarrow> u32 \<Rightarrow> bool \<Rightarrow> bool \<Rightarrow> nat list \<Rightarrow> masm_step" where
  "load_halves sf dest imm halfword invert first [] s = Inr s"
| "load_halves sf dest imm halfword invert first (ind # inds) s =
     (let cur_halfword = imm_half imm ind in
      if cur_halfword \<noteq> halfword then
        rbind (if first then
                 if invert then movn_sf sf dest (NOT cur_halfword AND 0xFFFF) (word_of_nat ind) s
                 else movz_sf sf dest cur_halfword (word_of_nat ind) s
               else movk_sf sf dest cur_halfword (word_of_nat ind) s)
          (load_halves sf dest imm halfword invert False inds)
      else load_halves sf dest imm halfword invert first inds s)"

definition m_load_int_const :: "machine_mode \<Rightarrow> cpu_reg \<Rightarrow> int \<Rightarrow> masm_step" where
  "m_load_int_const mode dest imm s =
     rbind (size_flag mode) (\<lambda>sf.
     rbind (register_bits mode) (\<lambda>register_size.
     let imm = word_of_int imm :: u64 in
     rbind (fits_movz imm register_size) (\<lambda>z.
     if z then
       (let shift = shift_movz imm in movz_sf sf dest (imm_half imm shift) (word_of_nat shift) s)
     else rbind (fits_movn imm register_size) (\<lambda>n.
     if n then
       (let shift = shift_movn imm in movn_sf sf dest (imm_half (NOT imm) shift) (word_of_nat shift) s)
     else
       rbind (count_empty_half_words (NOT imm) register_size) (\<lambda>ones.
       rbind (count_empty_half_words imm register_size) (\<lambda>zeros.
       load_halves sf dest imm (if ones > zeros then 0xFFFF else 0) (ones > zeros) True [0..<register_size div 16] s))))))"

subsection \<open>Comparisons and jumps\<close>

definition m_cmp_reg :: "machine_mode \<Rightarrow> cpu_reg \<Rightarrow> cpu_reg \<Rightarrow> masm_step" where
  "m_cmp_reg mode lhs rhs =
     (case mode of
        ModeInt8 \<Rightarrow> asm_r2 a64_cmp_w lhs rhs
      | ModeInt32 \<Rightarrow> asm_r2 a64_cmp_w lhs rhs
      | ModeIntPtr \<Rightarrow> asm_r2 a64_cmp lhs rhs
      | ModePtr \<Rightarrow> asm_r2 a64_cmp lhs rhs
      | ModeInt64 \<Rightarrow> asm_r2 a64_cmp lhs rhs
      | _ \<Rightarrow> mfail Unimplemented)"

definition m_cmp_reg_imm :: "machine_mode \<Rightarrow> cpu_reg \<Rightarrow> int \<Rightarrow> masm_step" where
  "m_cmp_reg_imm mode lhs imm =
     with_scratch (\<lambda>scratch. msteps [m_load_int_const mode scratch imm, m_cmp_reg mode lhs scratch])"

definition m_cmp_zero :: "machine_mode \<Rightarrow> cpu_reg \<Rightarrow> masm_step" where
  "m_cmp_zero mode lhs =
     (case mode of
        ModeInt8 \<Rightarrow> asm_r1 (\<lambda>l. a64_cmp_imm_w l 0 0) lhs
      | ModeInt32 \<Rightarrow> asm_r1 (\<lambda>l. a64_cmp_imm_w l 0 0) lhs
      | ModeInt64 \<Rightarrow> asm_r1 (\<lambda>l. a64_cmp_imm l 0 0) lhs
      | ModePtr \<Rightarrow> asm_r1 (\<lambda>l. a64_cmp_imm l 0 0) lhs
      | _ \<Rightarrow> mfail Unreachable)"

definition m_jump_if :: "cond_code \<Rightarrow> asm_label \<Rightarrow> masm_step" where
  "m_jump_if cond target =
     asm_op (a64_bc_l (cond_into cond) target)"

definition m_jump :: "asm_label \<Rightarrow> masm_step" where
  "m_jump target =
     asm_op (a64_b_l target)"

definition m_jump_reg :: "cpu_reg \<Rightarrow> masm_step" where
  "m_jump_reg reg =
     asm_r1 a64_b_r reg"

definition m_test_and_jump_if :: "cond_code \<Rightarrow> cpu_reg \<Rightarrow> asm_label \<Rightarrow> masm_step" where
  "m_test_and_jump_if cond reg lbl =
     msteps [mcheck (cond = CcZero \<or> cond = CcNonZero), asm_r1 (\<lambda>r. a64_cmp_imm r 0 0) reg, m_jump_if cond lbl]"

definition m_test_if_nil :: "cpu_reg \<Rightarrow> (asm_label \<Rightarrow> masm_step) \<Rightarrow> masm_step" where
  "m_test_if_nil reg k = msteps [m_cmp_zero ModePtr reg, with_label (\<lambda>lbl. msteps [m_jump_if CcEqual lbl, k lbl])]"

definition m_test_if_not_nil :: "cpu_reg \<Rightarrow> (asm_label \<Rightarrow> masm_step) \<Rightarrow> masm_step" where
  "m_test_if_not_nil reg k = msteps [m_cmp_zero ModePtr reg, with_label (\<lambda>lbl. msteps [m_jump_if CcNotEqual lbl, k lbl])]"

definition m_test_if_nil_bailout :: "position \<Rightarrow> cpu_reg \<Rightarrow> trap \<Rightarrow> masm_step" where
  "m_test_if_nil_bailout pos reg trap =
     m_test_if_nil reg (\<lambda>lbl. m_emit_bailout lbl trap pos)"

definition m_bailout_if :: "cond_code \<Rightarrow> trap \<Rightarrow> position \<Rightarrow> masm_step" where
  "m_bailout_if cond trap pos =
     with_label (\<lambda>lbl. msteps [m_jump_if cond lbl, m_emit_bailout lbl trap pos])"

definition m_set :: "cpu_reg \<Rightarrow> cond_code \<Rightarrow> masm_step" where
  "m_set dest op =
     asm_r1 (\<lambda>d. a64_cset_w d (cond_into op)) dest"

subsection \<open>Integer arithmetic\<close>

definition m_int_add :: "machine_mode \<Rightarrow> cpu_reg \<Rightarrow> cpu_reg \<Rightarrow> cpu_reg \<Rightarrow> masm_step" where
  "m_int_add mode dest lhs rhs =
     (case mode of
        ModeInt32 \<Rightarrow> asm_r3 a64_add_w dest lhs rhs
      | ModeInt64 \<Rightarrow> asm_r3 a64_add dest lhs rhs
      | ModePtr \<Rightarrow> asm_r3 a64_add dest lhs rhs
      | _ \<Rightarrow> mfail ExplicitPanic)"

definition m_int_add_checked :: "machine_mode \<Rightarrow> cpu_reg \<Rightarrow> cpu_reg \<Rightarrow> cpu_reg \<Rightarrow> position \<Rightarrow> masm_step" where
  "m_int_add_checked mode dest lhs rhs pos =
     msteps
       [(case mode of
           ModeInt32 \<Rightarrow> asm_r3 a64_adds_w dest lhs rhs
         | ModeInt64 \<Rightarrow> asm_r3 a64_adds dest lhs rhs
         | ModePtr \<Rightarrow> asm_r3 a64_adds dest lhs rhs
         | _ \<Rightarrow> mfail ExplicitPanic),
        with_label (\<lambda>lbl_overflow. msteps [asm_op (a64_bc_l VS lbl_overflow), m_emit_bailout lbl_overflow OVERFLOW pos])]"

definition m_int_add_imm :: "machine_mode \<Rightarrow> cpu_reg \<Rightarrow> cpu_reg \<Rightarrow> int \<Rightarrow> masm_step" where
  "m_int_add_imm mode dest lhs value =
     (if uint (word_of_int value :: u32) = value \<and> fits_addsub_imm (word_of_int value) then
        (case mode of
           ModeInt32 \<Rightarrow> asm_r2 (\<lambda>d l. a64_add_imm_w d l (word_of_int value) 0) dest lhs
         | ModeInt64 \<Rightarrow> asm_r2 (\<lambda>d l. a64_add_imm d l (word_of_int value) 0) dest lhs
         | ModePtr \<Rightarrow> asm_r2 (\<lambda>d l. a64_add_imm d l (word_of_int value) 0) dest lhs
         | _ \<Rightarrow> mfail Unreachable)
      else with_scratch (\<lambda>scratch. msteps [m_load_int_const mode scratch value, m_int_add mode dest lhs scratch]))"

definition m_int_sub :: "machine_mode \<Rightarrow> cpu_reg \<Rightarrow> cpu_reg \<Rightarrow> cpu_reg \<Rightarrow> masm_step" where
  "m_int_sub mode dest lhs rhs =
     (case mode of
        ModeInt32 \<Rightarrow> asm_r3 a64_sub_w dest lhs rhs
      | ModeInt64 \<Rightarrow> asm_r3 a64_sub dest lhs rhs
      | _ \<Rightarrow> mfail ExplicitPanic)"

definition m_int_sub_checked :: "machine_mode \<Rightarrow> cpu_reg \<Rightarrow> cpu_reg \<Rightarrow> cpu_reg \<Rightarrow> position \<Rightarrow> masm_step" where
  "m_int_sub_checked mode dest lhs rhs pos =
     msteps
       [(case mode of
           ModeInt32 \<Rightarrow> asm_r3 a64_subs_w dest lhs rhs
         | ModeInt64 \<Rightarrow> asm_r3 a64_subs dest lhs rhs
         | _ \<Rightarrow> mfail ExplicitPanic),
        with_label (\<lambda>lbl_overflow. msteps [asm_op (a64_bc_l VS lbl_overflow), m_emit_bailout lbl_overflow OVERFLOW pos])]"

definition m_int_mul :: "machine_mode \<Rightarrow> cpu_reg \<Rightarrow> cpu_reg \<Rightarrow> cpu_reg \<Rightarrow> masm_step" where
  "m_int_mul mode dest lhs rhs =
     (case mode of
        ModeInt32 \<Rightarrow> asm_r3 a64_mul_w dest lhs rhs
      | ModeInt64 \<Rightarrow> asm_r3 a64_mul dest lhs rhs
      | _ \<Rightarrow> mfail ExplicitPanic)"

definition m_int_mul_checked :: "machine_mode \<Rightarrow> cpu_reg \<Rightarrow> cpu_reg \<Rightarrow> cpu_reg \<Rightarrow> position \<Rightarrow> masm_step" where
  "m_int_mul_checked mode dest lhs rhs pos =
     (case mode of
        ModeInt32 \<Rightarrow> msteps
          [asm_r3 a64_smull dest lhs rhs,
           asm_r2 (\<lambda>d d'. a64_cmp_ext d d' SXTW 0) dest dest,
           with_label (\<lambda>lbl_overflow. msteps [asm_op (a64_bc_l NE lbl_overflow), m_emit_bailout lbl_overflow OVERFLOW pos])]
      | ModeInt64 \<Rightarrow> with_label (\<lambda>lbl_overflow. with_scratch (\<lambda>tmp. msteps
          [if lhs = dest then asm_r2 a64_mov tmp lhs
           else if rhs = dest then asm_r2 a64_mov tmp rhs
           else mcheck (dest \<noteq> lhs \<and> dest \<noteq> rhs),
           asm_r3 a64_mul dest lhs rhs,
           if lhs = dest then asm_r3 a64_smulh tmp tmp rhs
           else if rhs = dest then asm_r3 a64_smulh tmp lhs tmp
           else asm_r3 a64_smulh tmp lhs rhs,
           asm_r2 (\<lambda>t d. a64_cmp_sh t d ASR 63) tmp dest,
           asm_op (a64_bc_l NE lbl_overflow),
           m_emit_bailout lbl_overflow OVERFLOW pos]))
      | _ \<Rightarrow> mfail ExplicitPanic)"

definition m_divmod_common :: "machine_mode \<Rightarrow> cpu_reg \<Rightarrow> cpu_reg \<Rightarrow> cpu_reg \<Rightarrow> position \<Rightarrow> bool \<Rightarrow> masm_step" where
  "m_divmod_common mode dest lhs rhs pos is_div =
     with_label (\<lambda>lbl_zero. with_label (\<lambda>lbl_div. msteps
       [(case mode of
           ModeInt32 \<Rightarrow> asm_r1 (\<lambda>r. a64_cbz r lbl_zero) rhs
         | ModeInt64 \<Rightarrow> asm_r1 (\<lambda>r. a64_cbz_w r lbl_zero) rhs
         | _ \<Rightarrow> mfail Unreachable),
        m_emit_bailout lbl_zero DIV0 pos,
        with_label (\<lambda>lbl_overflow. with_scratch (\<lambda>scratch. msteps
          [(case mode of
              ModeInt32 \<Rightarrow> msteps
               [asm_r1 (\<lambda>t. a64_movz_w t 0x8000 1) scratch,
                asm_r2 a64_cmp_w lhs scratch,
                asm_op (a64_bc_l NE lbl_div),
                asm_r1 (\<lambda>r. a64_cmn_imm_w r 1 0) rhs,
                asm_op (a64_bc_l EQ lbl_overflow)]
            | ModeInt64 \<Rightarrow> msteps
               [asm_r1 (\<lambda>t. a64_movz t 0x8000 3) scratch,
                asm_r2 a64_cmp lhs scratch,
                asm_op (a64_bc_l NE lbl_div),
                asm_r1 (\<lambda>r. a64_cmn_imm r 1 0) rhs,
                asm_op (a64_bc_l EQ lbl_overflow)]
            | _ \<Rightarrow> mfail Unreachable),
           m_emit_bailout lbl_overflow OVERFLOW pos,
           m_bind_label lbl_div,
           if is_div then
             (case mode of
                ModeInt32 \<Rightarrow> asm_r3 a64_sdiv_w dest lhs rhs
              | ModeInt64 \<Rightarrow> asm_r3 a64_sdiv dest lhs rhs
              | _ \<Rightarrow> mfail Unreachable)
           else with_scratch (\<lambda>scratch.
             (case mode of
                ModeInt32 \<Rightarrow> msteps [asm_r3 a64_sdiv_w scratch lhs rhs, asm_r4 a64_msub dest scratch rhs lhs]
              | ModeInt64 \<Rightarrow> msteps [asm_r3 a64_sdiv scratch lhs rhs, asm_r4 a64_msub_w dest scratch rhs lhs]
              | _ \<Rightarrow> mfail Unreachable))]))]))"

definition m_int_div :: "machine_mode \<Rightarrow> cpu_reg \<Rightarrow> cpu_reg \<Rightarrow> cpu_reg \<Rightarrow> position \<Rightarrow> masm_step" where
  "m_int_div mode dest lhs rhs pos =
     m_divmod_common mode dest lhs rhs pos True"

definition m_int_mod :: "machine_mode \<Rightarrow> cpu_reg \<Rightarrow> cpu_reg \<Rightarrow> cpu_reg \<Rightarrow> position \<Rightarrow> masm_step" where
  "m_int_mod mode dest lhs rhs pos =
     m_divmod_common mode dest lhs rhs pos False"

definition m_int_shl :: "machine_mode \<Rightarrow> cpu_reg \<Rightarrow> cpu_reg \<Rightarrow> cpu_reg \<Rightarrow> masm_step" where
  "m_int_shl mode dest lhs rhs =
     (case mode of
        ModeInt32 \<Rightarrow> asm_r3 a64_lslv_w dest lhs rhs
      | ModeInt64 \<Rightarrow> asm_r3 a64_lslv dest lhs rhs
      | _ \<Rightarrow> mfail ExplicitPanic)"

definition m_int_shr :: "machine_mode \<Rightarrow> cpu_reg \<Rightarrow> cpu_reg \<Rightarrow> cpu_reg \<Rightarrow> masm_step" where
  "m_int_shr mode dest lhs rhs =
     (case mode of
        ModeInt32 \<Rightarrow> asm_r3 a64_lsrv_w dest lhs rhs
      | ModeInt64 \<Rightarrow> asm_r3 a64_lsrv dest lhs rhs
      | _ \<Rightarrow> mfail ExplicitPanic)"

definition m_int_sar :: "machine_mode \<Rightarrow> cpu_reg \<Rightarrow> cpu_reg \<Rightarrow> cpu_reg \<Rightarrow> masm_step" where
  "m_int_sar mode dest lhs rhs =
     (case mode of
        ModeInt32 \<Rightarrow> asm_r3 a64_asrv_w dest lhs rhs
      | ModeInt64 \<Rightarrow> asm_r3 a64_asrv dest lhs rhs
      | _ \<Rightarrow> mfail ExplicitPanic)"

definition m_int_rol :: "machine_mode \<Rightarrow> cpu_reg \<Rightarrow> cpu_reg \<Rightarrow> cpu_reg \<Rightarrow> masm_step" where
  "m_int_rol mode dest lhs rhs =
     (case mode of
        ModeInt32 \<Rightarrow> with_scratch (\<lambda>scratch. msteps
          [m_load_int_const mode scratch 32,
           asm_r3 a64_sub_w scratch scratch rhs,
           asm_r3 a64_rorv_w dest lhs scratch])
      | ModeInt64 \<Rightarrow> with_scratch (\<lambda>scratch. msteps
          [m_load_int_const mode scratch 64,
           asm_r3 a64_sub scratch scratch rhs,
           asm_r3 a64_rorv dest lhs scratch])
      | _ \<Rightarrow> mfail ExplicitPanic)"

definition m_int_ror :: "machine_mode \<Rightarrow> cpu_reg \<Rightarrow> cpu_reg \<Rightarrow> cpu_reg \<Rightarrow> masm_step" where
  "m_int_ror mode dest lhs rhs =
     (case mode of
        ModeInt32 \<Rightarrow> asm_r3 a64_rorv_w dest lhs rhs
      | ModeInt64 \<Rightarrow> asm_r3 a64_rorv dest lhs rhs
      | _ \<Rightarrow> mfail ExplicitPanic)"

definition m_int_or :: "machine_mode \<Rightarrow> cpu_reg \<Rightarrow> cpu_reg \<Rightarrow> cpu_reg \<Rightarrow> masm_step" where
  "m_int_or mode dest lhs rhs =
     (case mode of
        ModeInt32 \<Rightarrow> asm_r3 (\<lambda>d l r. a64_orr_sh_w d l r LSL 0) dest lhs rhs
      | ModeInt64 \<Rightarrow> asm_r3 (\<lambda>d l r. a64_orr_sh d l r LSL 0) dest lhs rhs
      | _ \<Rightarrow> mfail Unreachable)"

definition m_int_and :: "machine_mode \<Rightarrow> cpu_reg \<Rightarrow> cpu_reg \<Rightarrow> cpu_reg \<Rightarrow> masm_step" where
  "m_int_and mode dest lhs rhs =
     (case mode of
        ModeInt32 \<Rightarrow> asm_r3 (\<lambda>d l r. a64_and_sh_w d l r LSL 0) dest lhs rhs
      | ModeInt64 \<Rightarrow> asm_r3 (\<lambda>d l r. a64_and_sh d l r LSL 0) dest lhs rhs
      | _ \<Rightarrow> mfail ExplicitPanic)"

definition m_int_xor :: "machine_mode \<Rightarrow> cpu_reg \<Rightarrow> cpu_reg \<Rightarrow> cpu_reg \<Rightarrow> masm_step" where
  "m_int_xor mode dest lhs rhs =
     (case mode of
        ModeInt32 \<Rightarrow> asm_r3 (\<lambda>d l r. a64_eor_sh_w d l r LSL 0) dest lhs rhs
      | ModeInt64 \<Rightarrow> asm_r3 (\<lambda>d l r. a64_eor_sh d l r LSL 0) dest lhs rhs
      | _ \<Rightarrow> mfail ExplicitPanic)"

definition m_int_neg :: "machine_mode \<Rightarrow> cpu_reg \<Rightarrow> cpu_reg \<Rightarrow> masm_step" where
  "m_int_neg mode dest src =
     (case mode of
        ModeInt32 \<Rightarrow> asm_r3 a64_sub_w dest CPU_REG_ZERO src
      | ModeInt64 \<Rightarrow> asm_r3 a64_sub dest CPU_REG_ZERO src
      | _ \<Rightarrow> mfail ExplicitPanic)"

definition m_int_not :: "machine_mode \<Rightarrow> cpu_reg \<Rightarrow> cpu_reg \<Rightarrow> masm_step" where
  "m_int_not mode dest src =
     (case mode of
        ModeInt32 \<Rightarrow> asm_r3 (\<lambda>d z n. a64_orn_sh_w d z n LSL 0) dest CPU_REG_ZERO src
      | ModeInt64 \<Rightarrow> asm_r3 (\<lambda>d z n. a64_orn_sh d z n LSL 0) dest CPU_REG_ZERO src
      | _ \<Rightarrow> mfail Unreachable)"

definition m_bool_not :: "cpu_reg \<Rightarrow> cpu_reg \<Rightarrow> masm_step" where
  "m_bool_not dest src =
     with_scratch (\<lambda>scratch. msteps
       [asm_r1 (\<lambda>t. a64_movz_w t 1 0) scratch,
        asm_r3 (\<lambda>d n t. a64_eor_sh_w d n t LSL 0) dest src scratch,
        asm_r2 a64_uxtb dest dest])"

definition m_count_bits :: "machine_mode \<Rightarrow> cpu_reg \<Rightarrow> cpu_reg \<Rightarrow> bool \<Rightarrow> masm_step" where
  "m_count_bits mode dest src one =
     with_scratch (\<lambda>scratch_src. msteps
       [if one then Inr else m_int_not mode scratch_src src,
        let src = (if one then src else scratch_src) in
        (case mode of
           ModeInt32 \<Rightarrow> msteps
            [asm_fr a64_fmov_fs_ws FREG_TMP1 src,
             asm_f2 (a64_cnt 0 0b00) FREG_TMP1 FREG_TMP1,
             asm_f2 (a64_addv 0 0b00) FREG_TMP1 FREG_TMP1,
             asm_rf a64_fmov_sf_ws dest FREG_TMP1]
         | ModeInt64 \<Rightarrow> msteps
            [asm_fr a64_fmov_fs_d FREG_TMP1 src,
             asm_f2 (a64_cnt 0 0b00) FREG_TMP1 FREG_TMP1,
             asm_f2 (a64_addv 0 0b00) FREG_TMP1 FREG_TMP1,
             asm_rf a64_fmov_sf_d dest FREG_TMP1]
         | _ \<Rightarrow> mfail Unimplemented)])"

definition m_count_bits_leading :: "machine_mode \<Rightarrow> cpu_reg \<Rightarrow> cpu_reg \<Rightarrow> bool \<Rightarrow> masm_step" where
  "m_count_bits_leading mode dest src one =
     (if one then msteps
        [m_int_not mode dest src,
         (case mode of
            ModeInt32 \<Rightarrow> asm_r2 a64_clz_w dest dest
          | ModeInt64 \<Rightarrow> asm_r2 a64_clz dest dest
          | _ \<Rightarrow> mfail ExplicitPanic)]
      else
        (case mode of
           ModeInt32 \<Rightarrow> asm_r2 a64_clz_w dest src
         | ModeInt64 \<Rightarrow> asm_r2 a64_clz dest src
         | _ \<Rightarrow> mfail ExplicitPanic))"

definition m_count_bits_trailing :: "machine_mode \<Rightarrow> cpu_reg \<Rightarrow> cpu_reg \<Rightarrow> bool \<Rightarrow> masm_step" where
  "m_count_bits_trailing mode dest src one =
     (case mode of
        ModeInt32 \<Rightarrow> msteps [asm_r2 a64_rbit_w dest src, if one then m_int_not mode dest dest else Inr, asm_r2 a64_clz_w dest dest]
      | ModeInt64 \<Rightarrow> msteps [asm_r2 a64_rbit dest src, if one then m_int_not mode dest dest else Inr, asm_r2 a64_clz dest dest]
      | _ \<Rightarrow> mfail ExplicitPanic)"

definition m_cmp_int :: "machine_mode \<Rightarrow> cpu_reg \<Rightarrow> cpu_reg \<Rightarrow> cpu_reg \<Rightarrow> masm_step" where
  "m_cmp_int mode dest lhs rhs =
     msteps
       [(case mode of
           ModeInt8 \<Rightarrow> asm_r2 a64_cmp_w lhs rhs
         | ModeInt32 \<Rightarrow> asm_r2 a64_cmp_w lhs rhs
         | ModeInt64 \<Rightarrow> asm_r2 a64_cmp lhs rhs
         | _ \<Rightarrow> mfail Unreachable),
        asm_r1 (\<lambda>d. a64_cset_w d NE) dest,
        asm_r3 (\<lambda>d d' z. a64_csinv_w d d' z GE) dest dest CPU_REG_ZERO]"

subsection \<open>Floating point\<close>

definition m_int_to_float :: "machine_mode \<Rightarrow> cpu_freg \<Rightarrow> machine_mode \<Rightarrow> cpu_reg \<Rightarrow> masm_step" where
  "m_int_to_float dest_mode fdest src_mode src =
     (case (dest_mode, src_mode) of
        (ModeFloat32, ModeInt32) \<Rightarrow> asm_fr a64_scvtf_ws fdest src
      | (ModeFloat32, ModeInt64) \<Rightarrow> asm_fr a64_scvtf_ws fdest src
      | (ModeFloat64, ModeInt32) \<Rightarrow> asm_fr a64_scvtf_wd fdest src
      | (ModeFloat64, ModeInt64) \<Rightarrow> asm_fr a64_scvtf_wd fdest src
      | _ \<Rightarrow> mfail Unreachable)"

definition m_float_to_int :: "machine_mode \<Rightarrow> cpu_reg \<Rightarrow> machine_mode \<Rightarrow> cpu_freg \<Rightarrow> masm_step" where
  "m_float_to_int dest_mode dest src_mode fsrc =
     (case (dest_mode, src_mode) of
        (ModeInt32, ModeFloat32) \<Rightarrow> asm_rf a64_fcvtzs_ws dest fsrc
      | (ModeInt32, ModeFloat64) \<Rightarrow> asm_rf a64_fcvtzs_wd dest fsrc
      | (ModeInt64, ModeFloat32) \<Rightarrow> asm_rf a64_fcvtzs_s dest fsrc
      | (ModeInt64, ModeFloat64) \<Rightarrow> asm_rf a64_fcvtzs_d dest fsrc
      | _ \<Rightarrow> mfail Unreachable)"

definition m_float32_to_float64 :: "cpu_freg \<Rightarrow> cpu_freg \<Rightarrow> masm_step" where
  "m_float32_to_float64 fdest fsrc =
     asm_f2 a64_fcvt_sd fdest fsrc"

definition m_float64_to_float32 :: "cpu_freg \<Rightarrow> cpu_freg \<Rightarrow> masm_step" where
  "m_float64_to_float32 fdest fsrc =
     asm_f2 a64_fcvt_ds fdest fsrc"

definition m_int_as_float :: "machine_mode \<Rightarrow> cpu_freg \<Rightarrow> machine_mode \<Rightarrow> cpu_reg \<Rightarrow> masm_step" where
  "m_int_as_float dest_mode fdest src_mode src =
     (case (dest_mode, src_mode) of
        (ModeFloat32, ModeInt32) \<Rightarrow> asm_fr a64_fmov_fs_ws fdest src
      | (ModeFloat64, ModeInt64) \<Rightarrow> asm_fr a64_fmov_fs_d fdest src
      | _ \<Rightarrow> mfail Unreachable)"

definition m_float_as_int :: "machine_mode \<Rightarrow> cpu_reg \<Rightarrow> machine_mode \<Rightarrow> cpu_freg \<Rightarrow> masm_step" where
  "m_float_as_int dest_mode dest src_mode fsrc =
     (case (dest_mode, src_mode) of
        (ModeInt32, ModeFloat32) \<Rightarrow> asm_rf a64_fmov_sf_ws dest fsrc
      | (ModeInt64, ModeFloat64) \<Rightarrow> asm_rf a64_fmov_sf_d dest fsrc
      | _ \<Rightarrow> mfail Unreachable)"

definition m_float_add :: "machine_mode \<Rightarrow> cpu_freg \<Rightarrow> cpu_freg \<Rightarrow> cpu_freg \<Rightarrow> masm_step" where
  "m_float_add mode fdest flhs frhs =
     (case mode of
        ModeFloat32 \<Rightarrow> asm_f3 a64_fadd_s fdest flhs frhs
      | ModeFloat64 \<Rightarrow> asm_f3 a64_fadd_d fdest flhs frhs
      | _ \<Rightarrow> mfail Unreachable)"

definition m_float_sub :: "machine_mode \<Rightarrow> cpu_freg \<Rightarrow> cpu_freg \<Rightarrow> cpu_freg \<Rightarrow> masm_step" where
  "m_float_sub mode fdest flhs frhs =
     (case mode of
        ModeFloat32 \<Rightarrow> asm_f3 a64_fsub_s fdest flhs frhs
      | ModeFloat64 \<Rightarrow> asm_f3 a64_fsub_d fdest flhs frhs
      | _ \<Rightarrow> mfail Unreachable)"

definition m_float_mul :: "machine_mode \<Rightarrow> cpu_freg \<Rightarrow> cpu_freg \<Rightarrow> cpu_freg \<Rightarrow> masm_step" where
  "m_float_mul mode fdest flhs frhs =
     (case mode of
        ModeFloat32 \<Rightarrow> asm_f3 a64_fmul_s fdest flhs frhs
      | ModeFloat64 \<Rightarrow> asm_f3 a64_fmul_d fdest flhs frhs
      | _ \<Rightarrow> mfail Unimplemented)"

definition m_float_div :: "machine_mode \<Rightarrow> cpu_freg \<Rightarrow> cpu_freg \<Rightarrow> cpu_freg \<Rightarrow> masm_step" where
  "m_float_div mode fdest flhs frhs =
     (case mode of
        ModeFloat32 \<Rightarrow> asm_f3 a64_fdiv_s fdest flhs frhs
      | ModeFloat64 \<Rightarrow> asm_f3 a64_fdiv_d fdest flhs frhs
      | _ \<Rightarrow> mfail Unimplemented)"

definition m_float_abs :: "machine_mode \<Rightarrow> cpu_freg \<Rightarrow> cpu_freg \<Rightarrow> masm_step" where
  "m_float_abs mode fdest fsrc =
     (case mode of
        ModeFloat32 \<Rightarrow> asm_f2 a64_fabs_s fdest fsrc
      | ModeFloat64 \<Rightarrow> asm_f2 a64_fabs_d fdest fsrc
      | _ \<Rightarrow> mfail Unimplemented)"

definition m_float_neg :: "machine_mode \<Rightarrow> cpu_freg \<Rightarrow> cpu_freg \<Rightarrow> masm_step" where
  "m_float_neg mode fdest fsrc =
     (case mode of
        ModeFloat32 \<Rightarrow> asm_f2 a64_fneg_s fdest fsrc
      | ModeFloat64 \<Rightarrow> asm_f2 a64_fneg_d fdest fsrc
      | _ \<Rightarrow> mfail Unimplemented)"

definition m_float_round_tozero :: "machine_mode \<Rightarrow> cpu_freg \<Rightarrow> cpu_freg \<Rightarrow> masm_step" where
  "m_float_round_tozero mode fdest fsrc =
     (case mode of
        ModeFloat32 \<Rightarrow> asm_f2 a64_frintz_s fdest fsrc
      | ModeFloat64 \<Rightarrow> asm_f2 a64_frintz_d fdest fsrc
      | _ \<Rightarrow> mfail Unimplemented)"

definition m_float_round_up :: "machine_mode \<Rightarrow> cpu_freg \<Rightarrow> cpu_freg \<Rightarrow> masm_step" where
  "m_float_round_up mode fdest fsrc =
     (case mode of
        ModeFloat32 \<Rightarrow> asm_f2 a64_frintp_s fdest fsrc
      | ModeFloat64 \<Rightarrow> asm_f2 a64_frintp_d fdest fsrc
      | _ \<Rightarrow> mfail Unimplemented)"

definition m_float_round_down :: "machine_mode \<Rightarrow> cpu_freg \<Rightarrow> cpu_freg \<Rightarrow> masm_step" where
  "m_float_round_down mode fdest fsrc =
     (case mode of
        ModeFloat32 \<Rightarrow> asm_f2 a64_frintm_s fdest fsrc
      | ModeFloat64 \<Rightarrow> asm_f2 a64_frintm_d fdest fsrc
      | _ \<Rightarrow> mfail Unimplemented)"

definition m_float_round_halfeven :: "machine_mode \<Rightarrow> cpu_freg \<Rightarrow> cpu_freg \<Rightarrow> masm_step" where
  "m_float_round_halfeven mode fdest fsrc =
     (case mode of
        ModeFloat32 \<Rightarrow> asm_f2 a64_frintn_s fdest fsrc
      | ModeFloat64 \<Rightarrow> asm_f2 a64_frintn_d fdest fsrc
      | _ \<Rightarrow> mfail Unimplemented)"

definition m_float_sqrt :: "machine_mode \<Rightarrow> cpu_freg \<Rightarrow> cpu_freg \<Rightarrow> masm_step" where
  "m_float_sqrt mode fdest fsrc =
     (case mode of
        ModeFloat32 \<Rightarrow> asm_f2 a64_fsqrt_s fdest fsrc
      | ModeFloat64 \<Rightarrow> asm_f2 a64_fsqrt_d fdest fsrc
      | _ \<Rightarrow> mfail Unimplemented)"

definition m_float_cmp_int :: "machine_mode \<Rightarrow> cpu_reg \<Rightarrow> cpu_freg \<Rightarrow> cpu_freg \<Rightarrow> masm_step" where
  "m_float_cmp_int mode dest flhs frhs =
     msteps
       [(case mode of
           ModeFloat32 \<Rightarrow> asm_f2 a64_fcmp_s flhs frhs
         | ModeFloat64 \<Rightarrow> asm_f2 a64_fcmp_d flhs frhs
         | _ \<Rightarrow> mfail Unimplemented),
        asm_r1 (\<lambda>d. a64_cset_w d GT) dest,
        with_scratch (\<lambda>scratch. msteps
          [asm_r1 (\<lambda>t. a64_movn_w t 0 0) scratch,
           asm_r3 (\<lambda>d t d'. a64_csel_w d t d' MI) dest scratch dest])]"

definition float_cond :: "cond_code \<Rightarrow> cond result" where
  "float_cond cond =
     (case cond of
        CcEqual \<Rightarrow> Inr EQ | CcNotEqual \<Rightarrow> Inr NE | CcGreater \<Rightarrow> Inr GT | CcGreaterEq \<Rightarrow> Inr GE
      | CcLess \<Rightarrow> Inr MI | CcLessEq \<Rightarrow> Inr LS | _ \<Rightarrow> Inl Unreachable)"

definition m_float_cmp :: "machine_mode \<Rightarrow> cpu_reg \<Rightarrow> cpu_freg \<Rightarrow> cpu_freg \<Rightarrow> cond_code \<Rightarrow> masm_step" where
  "m_float_cmp mode dest flhs frhs cond =
     mwith (float_cond cond) (\<lambda>cond. msteps
       [(case mode of
           ModeFloat32 \<Rightarrow> asm_f2 a64_fcmp_s flhs frhs
         | ModeFloat64 \<Rightarrow> asm_f2 a64_fcmp_d flhs frhs
         | _ \<Rightarrow> mfail Unimplemented),
        asm_r1 (\<lambda>d. a64_cset_w d cond) dest])"

definition m_float_cmp_nan :: "machine_mode \<Rightarrow> cpu_reg \<Rightarrow> cpu_freg \<Rightarrow> masm_step" where
  "m_float_cmp_nan mode dest fsrc =
     msteps
       [(case mode of
           ModeFloat32 \<Rightarrow> asm_f2 a64_fcmp_s fsrc fsrc
         | ModeFloat64 \<Rightarrow> asm_f2 a64_fcmp_d fsrc fsrc
         | _ \<Rightarrow> mfail Unimplemented),
        asm_r1 (\<lambda>d. a64_cset_w d VS) dest]"

subsection \<open>Memory\<close>

definition m_common_load_base_with_offset :: "machine_mode \<Rightarrow> any_reg \<Rightarrow> cpu_reg \<Rightarrow> int \<Rightarrow> masm_step" where
  "m_common_load_base_with_offset mode any base disp =
     (if 0 \<le> disp \<and> rust_rem disp (mode_size mode) = 0 \<and> fits_addsub_imm (word_of_int (rust_div disp (mode_size mode))) then
        (case mode of
           ModeInt8 \<Rightarrow> asm_any_r (\<lambda>a b. a64_ldr_imm_b a b (word_of_int (rust_div disp (mode_size mode)))) any base
         | ModeInt32 \<Rightarrow> asm_any_r (\<lambda>a b. a64_ldr_imm_w a b (word_of_int (rust_div disp (mode_size mode)))) any base
         | ModeIntPtr \<Rightarrow> asm_any_r (\<lambda>a b. a64_ldr_imm a b (word_of_int (rust_div disp (mode_size mode)))) any base
         | ModeInt64 \<Rightarrow> asm_any_r (\<lambda>a b. a64_ldr_imm a b (word_of_int (rust_div disp (mode_size mode)))) any base
         | ModePtr \<Rightarrow> asm_any_r (\<lambda>a b. a64_ldr_imm a b (word_of_int (rust_div disp (mode_size mode)))) any base
         | ModeFloat32 \<Rightarrow> asm_any_f (\<lambda>a b. a64_ldr_imm_s a b (word_of_int (rust_div disp (mode_size mode)))) any base
         | ModeFloat64 \<Rightarrow> asm_any_f (\<lambda>a b. a64_ldr_imm_d a b (word_of_int (rust_div disp (mode_size mode)))) any base)
      else if fits_ldst_unscaled disp then
        (case mode of
           ModeInt8 \<Rightarrow> asm_any_r (\<lambda>a b. a64_ldr_unscaled_b a b disp) any base
         | ModeInt32 \<Rightarrow> asm_any_r (\<lambda>a b. a64_ldr_unscaled_w a b disp) any base
         | ModeIntPtr \<Rightarrow> asm_any_r (\<lambda>a b. a64_ldr_unscaled a b disp) any base
         | ModeInt64 \<Rightarrow> asm_any_r (\<lambda>a b. a64_ldr_unscaled a b disp) any base
         | ModePtr \<Rightarrow> asm_any_r (\<lambda>a b. a64_ldr_unscaled a b disp) any base
         | ModeFloat32 \<Rightarrow> asm_any_f (\<lambda>a b. a64_ldr_unscaled_s a b disp) any base
         | ModeFloat64 \<Rightarrow> asm_any_f (\<lambda>a b. a64_ldr_unscaled_d a b disp) any base)
      else with_scratch (\<lambda>scratch. msteps
        [m_load_int_const ModePtr scratch disp,
         (case mode of
            ModeInt8 \<Rightarrow> asm_any_rr (\<lambda>a b t. a64_ldr_ind_b a b t LSL_ext 0) any base scratch
          | ModeInt32 \<Rightarrow> asm_any_rr (\<lambda>a b t. a64_ldr_ind_w a b t LSL_ext 0) any base scratch
          | ModeIntPtr \<Rightarrow> asm_any_rr (\<lambda>a b t. a64_ldr_ind a b t LSL_ext 0) any base scratch
          | ModeInt64 \<Rightarrow> asm_any_rr (\<lambda>a b t. a64_ldr_ind a b t LSL_ext 0) any base scratch
          | ModePtr \<Rightarrow> asm_any_rr (\<lambda>a b t. a64_ldr_ind a b t LSL_ext 0) any base scratch
          | ModeFloat32 \<Rightarrow> asm_any_fr (\<lambda>a b t. a64_ldr_ind_s a b t LSL_ext 0) any base scratch
          | ModeFloat64 \<Rightarrow> asm_any_fr (\<lambda>a b t. a64_ldr_ind_d a b t LSL_ext 0) any base scratch)]))"

definition m_load_mem :: "machine_mode \<Rightarrow> any_reg \<Rightarrow> mem \<Rightarrow> masm_step" where
  "m_load_mem mode any mem =
     (case mem of
        Local disp \<Rightarrow> m_common_load_base_with_offset mode any REG_FP disp
      | Base base disp \<Rightarrow> m_common_load_base_with_offset mode any base disp
      | Index base index scale disp \<Rightarrow> msteps
          [mcheck (mode_size mode = scale),
           with_scratch (\<lambda>scratch. msteps
             [m_load_int_const ModePtr scratch disp,
              asm_r3 a64_add scratch scratch base,
              (case mode of
                 ModeInt8 \<Rightarrow> asm_any_rr (\<lambda>a t i. a64_ldr_ind_b a t i LSL_ext 0) any scratch index
               | ModeInt32 \<Rightarrow> asm_any_rr (\<lambda>a t i. a64_ldr_ind_w a t i LSL_ext 1) any scratch index
               | ModeIntPtr \<Rightarrow> asm_any_rr (\<lambda>a t i. a64_ldr_ind a t i LSL_ext 1) any scratch index
               | ModeInt64 \<Rightarrow> asm_any_rr (\<lambda>a t i. a64_ldr_ind a t i LSL_ext 1) any scratch index
               | ModePtr \<Rightarrow> asm_any_rr (\<lambda>a t i. a64_ldr_ind a t i LSL_ext 1) any scratch index
               | ModeFloat32 \<Rightarrow> asm_any_fr (\<lambda>a t i. a64_ldr_ind_s a t i LSL_ext 1) any scratch index
               | ModeFloat64 \<Rightarrow> asm_any_fr (\<lambda>a t i. a64_ldr_ind_d a t i LSL_ext 1) any scratch index)])]
      | Offset _ _ _ \<Rightarrow> mfail Unimplemented)"

definition m_common_store_base_with_offset :: "machine_mode \<Rightarrow> any_reg \<Rightarrow> cpu_reg \<Rightarrow> int \<Rightarrow> masm_step" where
  "m_common_store_base_with_offset mode any base disp =
     (if 0 \<le> disp \<and> rust_rem disp (mode_size mode) = 0 \<and> fits_addsub_imm (word_of_int (rust_div disp (mode_size mode))) then
        (case mode of
           ModeInt8 \<Rightarrow> asm_any_r (\<lambda>a b. a64_str_imm_b a b (word_of_int (rust_div disp (mode_size mode)))) any base
         | ModeInt32 \<Rightarrow> asm_any_r (\<lambda>a b. a64_str_imm_w a b (word_of_int (rust_div disp (mode_size mode)))) any base
         | ModeIntPtr \<Rightarrow> asm_any_r (\<lambda>a b. a64_str_imm a b (word_of_int (rust_div disp (mode_size mode)))) any base
         | ModeInt64 \<Rightarrow> asm_any_r (\<lambda>a b. a64_str_imm a b (word_of_int (rust_div disp (mode_size mode)))) any base
         | ModePtr \<Rightarrow> asm_any_r (\<lambda>a b. a64_str_imm a b (word_of_int (rust_div disp (mode_size mode)))) any base
         | ModeFloat32 \<Rightarrow> asm_any_f (\<lambda>a b. a64_str_imm_s a b (word_of_int (rust_div disp (mode_size mode)))) any base
         | ModeFloat64 \<Rightarrow> asm_any_f (\<lambda>a b. a64_str_imm_d a b (word_of_int (rust_div disp (mode_size mode)))) any base)
      else if fits_ldst_unscaled disp then
        (case mode of
           ModeInt8 \<Rightarrow> asm_any_r (\<lambda>a b. a64_str_unscaled_b a b disp) any base
         | ModeInt32 \<Rightarrow> asm_any_r (\<lambda>a b. a64_str_unscaled_w a b disp) any base
         | ModeIntPtr \<Rightarrow> asm_any_r (\<lambda>a b. a64_str_unscaled a b disp) any base
         | ModeInt64 \<Rightarrow> asm_any_r (\<lambda>a b. a64_str_unscaled a b disp) any base
         | ModePtr \<Rightarrow> asm_any_r (\<lambda>a b. a64_str_unscaled a b disp) any base
         | ModeFloat32 \<Rightarrow> asm_any_f (\<lambda>a b. a64_str_unscaled_s a b disp) any base
         | ModeFloat64 \<Rightarrow> asm_any_f (\<lambda>a b. a64_str_unscaled_d a b disp) any base)
      else with_scratch (\<lambda>scratch. msteps
        [m_load_int_const ModePtr scratch disp,
         (case mode of
            ModeInt8 \<Rightarrow> asm_any_rr (\<lambda>a b t. a64_str_ind_b a b t LSL_ext 0) any base scratch
          | ModeInt32 \<Rightarrow> asm_any_rr (\<lambda>a b t. a64_str_ind_w a b t LSL_ext 0) any base scratch
          | ModeIntPtr \<Rightarrow> asm_any_rr (\<lambda>a b t. a64_str_ind a b t LSL_ext 0) any base scratch
          | ModeInt64 \<Rightarrow> asm_any_rr (\<lambda>a b t. a64_str_ind a b t LSL_ext 0) any base scratch
          | ModePtr \<Rightarrow> asm_any_rr (\<lambda>a b t. a64_str_ind a b t LSL_ext 0) any base scratch
          | ModeFloat32 \<Rightarrow> asm_any_fr (\<lambda>a b t. a64_str_ind_s a b t LSL_ext 0) any base scratch
          | ModeFloat64 \<Rightarrow> asm_any_fr (\<lambda>a b t. a64_str_ind_d a b t LSL_ext 0) any base scratch)]))"

definition m_store_mem :: "machine_mode \<Rightarrow> mem \<Rightarrow> any_reg \<Rightarrow> masm_step" where
  "m_store_mem mode mem any =
     (case mem of
        Local disp \<Rightarrow> m_common_store_base_with_offset mode any REG_FP disp
      | Base base disp \<Rightarrow> m_common_store_base_with_offset mode any base disp
      | Index base index scale disp \<Rightarrow> msteps
          [mcheck (mode_size mode = scale),
           with_scratch (\<lambda>scratch. msteps
             [m_load_int_const ModePtr scratch disp,
              asm_r3 a64_add scratch scratch base,
              (case mode of
                 ModeInt8 \<Rightarrow> asm_any_rr (\<lambda>a t i. a64_str_ind_b a t i LSL_ext 0) any scratch index
               | ModeInt32 \<Rightarrow> asm_any_rr (\<lambda>a t i. a64_str_ind_w a t i LSL_ext 1) any scratch index
               | ModeIntPtr \<Rightarrow> asm_any_rr (\<lambda>a t i. a64_str_ind a t i LSL_ext 1) any scratch index
               | ModeInt64 \<Rightarrow> asm_any_rr (\<lambda>a t i. a64_str_ind a t i LSL_ext 1) any scratch index
               | ModePtr \<Rightarrow> asm_any_rr (\<lambda>a t i. a64_str_ind a t i LSL_ext 1) any scratch index
               | ModeFloat32 \<Rightarrow> asm_any_fr (\<lambda>a t i. a64_str_ind_s a t i LSL_ext 1) any scratch index
               | ModeFloat64 \<Rightarrow> asm_any_fr (\<lambda>a t i. a64_str_ind_d a t i LSL_ext 1) any scratch index)])]
      | Offset _ _ _ \<Rightarrow> mfail Unimplemented)"

definition m_store_zero :: "machine_mode \<Rightarrow> mem \<Rightarrow> masm_step" where
  "m_store_zero mode mem =
     m_store_mem mode mem (AnyReg CPU_REG_ZERO)"

definition m_cmp_mem :: "machine_mode \<Rightarrow> mem \<Rightarrow> cpu_reg \<Rightarrow> masm_step" where
  "m_cmp_mem mode mem rhs =
     with_scratch (\<lambda>scratch. msteps [m_load_mem mode (AnyReg scratch) mem, m_cmp_reg mode scratch rhs])"

definition m_cmp_mem_imm :: "machine_mode \<Rightarrow> mem \<Rightarrow> int \<Rightarrow> masm_step" where
  "m_cmp_mem_imm mode mem imm =
     with_scratch (\<lambda>scratch1. msteps
       [m_load_mem mode (AnyReg scratch1) mem,
        with_scratch (\<lambda>scratch2. msteps [m_load_int_const mode scratch2 imm, m_cmp_reg mode scratch1 scratch2])])"

definition lea_shift :: "int \<Rightarrow> u32 result" where
  "lea_shift scale =
     (if scale = 1 then Inr 0 else if scale = 2 then Inr 1 else if scale = 4 then Inr 2 else if scale = 8 then Inr 3
      else Inl Unimplemented)"

definition m_lea :: "cpu_reg \<Rightarrow> mem \<Rightarrow> masm_step" where
  "m_lea dest mem =
     (case mem of
        Local disp \<Rightarrow> (if fits_addsub_imm (i32_as_u32 disp) then asm_r2 (\<lambda>d b. a64_add_imm d b (i32_as_u32 disp) 0) dest REG_FP
           else with_scratch (\<lambda>scratch. msteps [m_load_int_const ModePtr scratch disp, asm_r3 a64_add dest REG_FP scratch]))
      | Base base disp \<Rightarrow> (if fits_addsub_imm (i32_as_u32 disp) then asm_r2 (\<lambda>d b. a64_add_imm d b (i32_as_u32 disp) 0) dest base
           else with_scratch (\<lambda>scratch. msteps [m_load_int_const ModePtr scratch disp, asm_r3 a64_add dest base scratch]))
      | Index base index scale disp \<Rightarrow> with_scratch (\<lambda>scratch. msteps
          [if fits_addsub_imm (i32_as_u32 disp) then asm_r2 (\<lambda>t b. a64_add_imm t b (i32_as_u32 disp) 0) scratch base
           else msteps [m_load_int_const ModePtr scratch disp, asm_r3 a64_add scratch base scratch],
           mwith (lea_shift scale) (\<lambda>shift. asm_r3 (\<lambda>d t i. a64_add_sh d t i LSL shift) dest scratch index)])
      | Offset _ _ _ \<Rightarrow> mfail Unimplemented)"

definition m_load_array_elem :: "machine_mode \<Rightarrow> any_reg \<Rightarrow> cpu_reg \<Rightarrow> cpu_reg \<Rightarrow> masm_step" where
  "m_load_array_elem mode any array index =
     m_load_mem mode any (Index array index (mode_size mode) 24)"

definition m_emit_barrier :: "cpu_reg \<Rightarrow> usize \<Rightarrow> masm_step" where
  "m_emit_barrier src card_table_offset =
     with_scratch (\<lambda>scratch1. msteps
       [asm_r2 (\<lambda>t n. a64_lsr_imm t n 9) scratch1 src,
        with_scratch (\<lambda>scratch2. msteps
          [m_load_int_const ModePtr scratch2 (sint (word_of_nat card_table_offset :: u64)),
           asm_r3 (\<lambda>z a b. a64_str_ind_b z a b LSL_ext 0) CPU_REG_ZERO scratch1 scratch2])])"

definition m_copy_reg :: "machine_mode \<Rightarrow> cpu_reg \<Rightarrow> cpu_reg \<Rightarrow> masm_step" where
  "m_copy_reg mode dest src =
     (case mode of
        ModeInt32 \<Rightarrow> asm_r2 a64_mov_w dest src
      | ModeInt8 \<Rightarrow> asm_r2 a64_mov_w dest src
      | ModePtr \<Rightarrow> asm_r2 a64_mov dest src
      | ModeInt64 \<Rightarrow> asm_r2 a64_mov dest src
      | _ \<Rightarrow> mfail Unreachable)"

definition m_copy_sp :: "cpu_reg \<Rightarrow> masm_step" where
  "m_copy_sp dest =
     asm_r2 (\<lambda>d n. a64_add_imm d n 0 0) dest CPU_REG_SP"

definition m_set_sp :: "cpu_reg \<Rightarrow> masm_step" where
  "m_set_sp src =
     asm_r2 (\<lambda>d n. a64_add_imm d n 0 0) CPU_REG_SP src"

definition m_copy_pc :: "cpu_reg \<Rightarrow> masm_step" where
  "m_copy_pc dest =
     asm_r1 (\<lambda>d. a64_adr_imm d 0) dest"

definition m_copy_ra :: "cpu_reg \<Rightarrow> masm_step" where
  "m_copy_ra dest =
     m_copy_reg ModePtr dest REG_LR"

definition m_copy_freg :: "machine_mode \<Rightarrow> cpu_freg \<Rightarrow> cpu_freg \<Rightarrow> masm_step" where
  "m_copy_freg mode fdest fsrc =
     (case mode of
        ModeFloat32 \<Rightarrow> asm_f2 a64_fmov_s fdest fsrc
      | ModeFloat64 \<Rightarrow> asm_f2 a64_fmov_d fdest fsrc
      | _ \<Rightarrow> mfail Unreachable)"

definition m_copy :: "machine_mode \<Rightarrow> any_reg \<Rightarrow> any_reg \<Rightarrow> masm_step" where
  "m_copy mode dest src =
     msteps
       [mcheck (any_is_reg dest = any_is_reg src),
        if any_is_reg dest then mwith (any_reg_reg dest) (\<lambda>d. mwith (any_reg_reg src) (\<lambda>n. m_copy_reg mode d n))
        else mwith (any_reg_freg dest) (\<lambda>d. mwith (any_reg_freg src) (\<lambda>n. m_copy_freg mode d n))]"

definition m_extend_int_long :: "cpu_reg \<Rightarrow> cpu_reg \<Rightarrow> masm_step" where
  "m_extend_int_long dest src =
     asm_r2 a64_sxtw dest src"

definition m_extend_byte :: "machine_mode \<Rightarrow> cpu_reg \<Rightarrow> cpu_reg \<Rightarrow> masm_step" where
  "m_extend_byte mode dest src =
     (case mode of
        ModeInt32 \<Rightarrow> Inr
      | ModeInt64 \<Rightarrow> asm_r2 a64_uxtw dest src
      | _ \<Rightarrow> mfail ExplicitPanic)"

definition m_load_nil :: "cpu_reg \<Rightarrow> masm_step" where
  "m_load_nil dest =
     asm_r1 (\<lambda>d. a64_movz d 0 0) dest"

definition m_load_true :: "cpu_reg \<Rightarrow> masm_step" where
  "m_load_true dest =
     asm_r1 (\<lambda>d. a64_movz_w d 1 0) dest"

definition m_load_false :: "cpu_reg \<Rightarrow> masm_step" where
  "m_load_false dest =
     asm_r1 (\<lambda>d. a64_movz_w d 0 0) dest"

definition m_load_constpool :: "cpu_reg \<Rightarrow> int \<Rightarrow> masm_step" where
  "m_load_constpool dest disp =
     mwith (checked_i32 (- disp)) (\<lambda>d. msteps [asm_r1 (\<lambda>r. a64_adr_imm r d) dest, m_load_mem ModePtr (AnyReg dest) (Base dest 0)])"

text \<open>Converting a double to a float is an argument.\<close>

definition m_load_float_const :: "(u64 \<Rightarrow> u32) \<Rightarrow> machine_mode \<Rightarrow> cpu_freg \<Rightarrow> u64 \<Rightarrow> masm_step" where
  "m_load_float_const f32_of mode dest imm s =
     rbind (case mode of
              ModeFloat32 \<Rightarrow> cp_add_f32 (f32_of imm) (m_constpool s)
            | ModeFloat64 \<Rightarrow> cp_add_f64 imm (m_constpool s)
            | _ \<Rightarrow> Inl Unreachable) (\<lambda>(off, p).
     let s = s\<lparr>m_constpool := p\<rparr> in
     rbind (checked_i32 (off + m_pos_i32 s)) (\<lambda>disp.
     with_scratch (\<lambda>scratch. mwith (checked_i32 (- disp)) (\<lambda>d. msteps
       [asm_r1 (\<lambda>r. a64_adr_imm r d) scratch,
        m_load_mem mode (AnyFReg dest) (Base scratch 0)])) s))"

subsection \<open>Arrays\<close>

definition m_determine_array_size :: "cpu_reg \<Rightarrow> cpu_reg \<Rightarrow> int \<Rightarrow> bool \<Rightarrow> masm_step" where
  "m_determine_array_size dest len elem_size with_header =
     (let sz = (if with_header then 16 + 8 else 0) + (if elem_size \<noteq> 8 then 8 - 1 else 0) in msteps
       [if elem_size = 1 then asm_r2 (\<lambda>d l. a64_add_imm d l (i32_as_u32 sz) 0) dest len
        else if elem_size = 2 \<or> elem_size = 4 \<or> elem_size = 8 then
          (let shift = (if elem_size = 2 then 1 else if elem_size = 4 then 2 else 3) in msteps
             [asm_r2 (\<lambda>d l. a64_lsl_imm d l shift) dest len,
              asm_r2 (\<lambda>d d'. a64_add_imm d d' (i32_as_u32 sz) 0) dest dest])
        else with_scratch (\<lambda>scratch. msteps
          [m_load_int_const ModePtr scratch elem_size,
           asm_r3 a64_mul dest len scratch,
           asm_r2 (\<lambda>d d'. a64_add_imm d d' (i32_as_u32 sz) 0) dest dest]),
        if elem_size \<noteq> 8 then asm_r2 (\<lambda>d d'. a64_and_imm d d' (- 8)) dest dest else Inr])"

definition m_array_address :: "cpu_reg \<Rightarrow> cpu_reg \<Rightarrow> cpu_reg \<Rightarrow> int \<Rightarrow> masm_step" where
  "m_array_address dest obj index elem_size =
     with_scratch (\<lambda>scratch. msteps
       [m_load_int_const ModePtr scratch elem_size,
        asm_r3 a64_mul scratch index scratch,
        asm_r2 (\<lambda>t t'. a64_add_imm t t' (16 + 8) 0) scratch scratch,
        asm_r3 a64_add dest obj scratch])"

definition m_check_index_out_of_bounds :: "position \<Rightarrow> cpu_reg \<Rightarrow> cpu_reg \<Rightarrow> masm_step" where
  "m_check_index_out_of_bounds pos array index =
     with_scratch (\<lambda>scratch. msteps
       [m_load_mem ModeInt64 (AnyReg scratch) (Base array 16),
        m_cmp_reg ModeInt64 index scratch,
        with_label (\<lambda>lbl. msteps [m_jump_if CcUnsignedGreaterEq lbl, m_emit_bailout lbl INDEX_OUT_OF_BOUNDS pos])])"

subsection \<open>Atomic accesses\<close>

definition m_load_int32_synchronized :: "cpu_reg \<Rightarrow> cpu_reg \<Rightarrow> masm_step" where
  "m_load_int32_synchronized dest address =
     asm_r2 a64_ldar_w dest address"

definition m_store_int32_synchronized :: "cpu_reg \<Rightarrow> cpu_reg \<Rightarrow> masm_step" where
  "m_store_int32_synchronized dest address =
     asm_r2 a64_stlr_w dest address"

definition m_exchange_int32_synchronized :: "bool \<Rightarrow> cpu_reg \<Rightarrow> cpu_reg \<Rightarrow> cpu_reg \<Rightarrow> masm_step" where
  "m_exchange_int32_synchronized lse old new address =
     (if lse then asm_r3 a64_swpal_w new old address
      else with_scratch (\<lambda>scratch. with_bound_label (\<lambda>loop_start. msteps
        [asm_r2 a64_ldaxr_w old address,
         asm_r3 a64_stlxr_w scratch new address,
         asm_r1 (\<lambda>t. a64_cbnz_w t loop_start) scratch])))"

definition m_compare_exchange_int32_synchronized ::
  "bool \<Rightarrow> cpu_reg \<Rightarrow> cpu_reg \<Rightarrow> cpu_reg \<Rightarrow> masm \<Rightarrow> (cpu_reg \<times> masm) result" where
  "m_compare_exchange_int32_synchronized lse expected new address s =
     (if lse then rbind (asm_r3 a64_casal_w expected new address s) (\<lambda>s. Inr (expected, s))
      else rbind (scratch_get s) (\<lambda>(ind, current, s).
        rbind (with_scratch (\<lambda>state. with_bound_label (\<lambda>loop_start. with_label (\<lambda>loop_end. msteps
          [asm_r2 a64_ldaxr_w current address,
           asm_r2 a64_cmp_w current expected,
           asm_op (a64_bc_l NE loop_end),
           asm_r3 a64_stlxr_w state new address,
           asm_r1 (\<lambda>t. a64_cbnz_w t loop_start) state,
           m_bind_label loop_end]))) s) (\<lambda>s.
        Inr (current, scratch_free ind s))))"

definition m_fetch_add_int32_synchronized :: "bool \<Rightarrow> cpu_reg \<Rightarrow> cpu_reg \<Rightarrow> cpu_reg \<Rightarrow> masm_step" where
  "m_fetch_add_int32_synchronized lse previous val address =
     (if lse then asm_r3 a64_ldaddal_w val previous address
      else with_scratch (\<lambda>new_value. with_scratch (\<lambda>state. with_bound_label (\<lambda>loop_start. msteps
        [asm_r2 a64_ldaxr_w previous address,
         asm_r3 a64_add_w new_value previous val,
         asm_r3 a64_stlxr_w state new_value address,
         asm_r1 (\<lambda>t. a64_cbnz_w t loop_start) state]))))"

definition m_load_int64_synchronized :: "cpu_reg \<Rightarrow> cpu_reg \<Rightarrow> masm_step" where
  "m_load_int64_synchronized dest address =
     asm_r2 a64_ldar dest address"

definition m_store_int64_synchronized :: "cpu_reg \<Rightarrow> cpu_reg \<Rightarrow> masm_step" where
  "m_store_int64_synchronized dest address =
     asm_r2 a64_stlr dest address"

definition m_exchange_int64_synchronized :: "bool \<Rightarrow> cpu_reg \<Rightarrow> cpu_reg \<Rightarrow> cpu_reg \<Rightarrow> masm_step" where
  "m_exchange_int64_synchronized lse old new address =
     (if lse then asm_r3 a64_swpal new old address
      else with_scratch (\<lambda>scratch. with_bound_label (\<lambda>loop_start. msteps
        [asm_r2 a64_ldaxr old address,
         asm_r3 a64_stlxr scratch new address,
         asm_r1 (\<lambda>t. a64_cbnz_w t loop_start) scratch])))"

definition m_compare_exchange_int64_synchronized ::
  "bool \<Rightarrow> cpu_reg \<Rightarrow> cpu_reg \<Rightarrow> cpu_reg \<Rightarrow> masm \<Rightarrow> (cpu_reg \<times> masm) result" where
  "m_compare_exchange_int64_synchronized lse expected new address s =
     (if lse then rbind (asm_r3 a64_casal expected new address s) (\<lambda>s. Inr (expected, s))
      else rbind (scratch_get s) (\<lambda>(ind, current, s).
        rbind (with_scratch (\<lambda>state. with_bound_label (\<lambda>loop_start. with_label (\<lambda>loop_end. msteps
          [asm_r2 a64_ldaxr current address,
           asm_r2 a64_cmp current expected,
           asm_op (a64_bc_l NE loop_end),
           asm_r3 a64_stlxr state new address,
           asm_r1 (\<lambda>t. a64_cbnz t loop_start) state,
           m_bind_label loop_end]))) s) (\<lambda>s.
        Inr (current, scratch_free ind s))))"

definition m_fetch_add_int64_synchronized :: "bool \<Rightarrow> cpu_reg \<Rightarrow> cpu_reg \<Rightarrow> cpu_reg \<Rightarrow> masm_step" where
  "m_fetch_add_int64_synchronized lse previous val address =
     (if lse then asm_r3 a64_ldaddal val previous address
      else with_scratch (\<lambda>new_value. with_scratch (\<lambda>state. with_bound_label (\<lambda>loop_start. msteps
        [asm_r2 a64_ldaxr previous address,
         asm_r3 a64_add new_value previous val,
         asm_r3 a64_stlxr state new_value address,
         asm_r1 (\<lambda>t. a64_cbnz_w t loop_start) state]))))"

subsection \<open>Frames and calls\<close>

definition m_prolog :: "int \<Rightarrow> masm_step" where
  "m_prolog stacksize =
     msteps
       [asm_r3 (\<lambda>f l p. a64_stp_pre f l p (- 2)) REG_FP REG_LR CPU_REG_SP,
        asm_r3 a64_add REG_FP CPU_REG_SP CPU_REG_ZERO,
        if 0 < stacksize then msteps [m_load_int_const ModePtr REG_TMP1 stacksize, asm_r3 a64_sub CPU_REG_SP CPU_REG_SP REG_TMP1] else Inr]"

definition m_check_stack_pointer :: "u32 \<Rightarrow> asm_label \<Rightarrow> masm_step" where
  "m_check_stack_pointer stack_limit_offset lbl_overflow =
     msteps
       [mcheck (stack_limit_offset mod 8 = 0),
        asm_r2 (\<lambda>t n. a64_ldr_imm t n (stack_limit_offset div 8)) REG_TMP1 REG_THREAD,
        asm_r3 a64_add REG_TMP2 CPU_REG_SP CPU_REG_ZERO,
        m_cmp_reg ModePtr REG_TMP1 REG_TMP2,
        m_jump_if CcUnsignedGreater lbl_overflow]"

definition m_safepoint :: "u32 \<Rightarrow> asm_label \<Rightarrow> masm_step" where
  "m_safepoint safepoint_requested_offset lbl_safepoint =
     msteps
       [asm_r2 (\<lambda>t n. a64_ldr_imm_b t n safepoint_requested_offset) REG_TMP1 REG_THREAD,
        asm_r1 (\<lambda>t. a64_cbnz t lbl_safepoint) REG_TMP1]"

definition m_epilog_without_return :: "masm_step" where
  "m_epilog_without_return =
     msteps
       [asm_r3 a64_add CPU_REG_SP REG_FP CPU_REG_ZERO,
        asm_r3 (\<lambda>f l p. a64_ldp_post f l p 2) REG_FP REG_LR CPU_REG_SP]"

definition m_epilog :: "masm_step" where
  "m_epilog =
     msteps [m_epilog_without_return, asm_r1 a64_ret REG_LR]"

definition m_increase_stack_frame :: "int \<Rightarrow> masm_step" where
  "m_increase_stack_frame stacksize =
     (if 0 < stacksize then msteps [m_load_int_const ModePtr REG_TMP1 stacksize, asm_r3 a64_sub CPU_REG_SP CPU_REG_SP REG_TMP1] else Inr)"

definition m_decrease_stack_frame :: "int \<Rightarrow> masm_step" where
  "m_decrease_stack_frame stacksize =
     (if 0 < stacksize then msteps [m_load_int_const ModePtr REG_TMP1 stacksize, asm_r3 a64_add CPU_REG_SP CPU_REG_SP REG_TMP1] else Inr)"

definition m_raw_call :: "u64 \<Rightarrow> masm_step" where
  "m_raw_call ptr s =
     rbind (m_add_addr ptr s) (\<lambda>(disp, s).
     with_scratch (\<lambda>scratch. mwith (checked_i32 (disp + m_pos_i32 s)) (\<lambda>d.
       msteps [m_load_constpool scratch d, asm_r1 a64_bl_r scratch])) s)"

definition m_direct_call :: "usize \<Rightarrow> u64 \<Rightarrow> source_type_array \<Rightarrow> masm_step" where
  "m_direct_call fct_id ptr tparams s =
     rbind (m_add_addr ptr s) (\<lambda>(disp, s).
     with_scratch (\<lambda>scratch. mwith (checked_i32 (disp + m_pos_i32 s)) (\<lambda>d.
       msteps
         [m_load_constpool scratch d,
          asm_r1 a64_bl_r scratch,
          (\<lambda>s. rbind (checked_i32 (disp + m_pos_i32 s)) (\<lambda>d. m_emit_lazy_compilation_site (LazyDirect fct_id d tparams) s))])) s)"

definition m_virtual_call :: "position \<Rightarrow> u32 \<Rightarrow> u32 \<Rightarrow> lazy_compilation_site \<Rightarrow> masm_step" where
  "m_virtual_call pos vtable_index self_index site =
     mwith (vec_get REG_PARAMS (unat self_index)) (\<lambda>obj. msteps
       [m_test_if_nil_bailout pos obj NIL,
        with_scratch (\<lambda>scratch. msteps
          [m_load_mem ModePtr (AnyReg scratch) (Base obj 0),
           mwith (rbind (checked_i32 (as_i32 vtable_index * 8)) (\<lambda>d. checked_i32 (32 + d))) (\<lambda>disp. msteps
             [m_load_mem ModePtr (AnyReg scratch) (Base scratch disp),
              asm_r1 a64_bl_r scratch,
              m_emit_lazy_compilation_site site])])])"

definition m_call_reg :: "cpu_reg \<Rightarrow> masm_step" where
  "m_call_reg reg =
     asm_r1 a64_bl_r reg"

definition m_debug :: "masm_step" where
  "m_debug =
     asm_op (a64_brk 0)"

definition m_nop :: "masm_step" where
  "m_nop =
     asm_op a64_nop"

definition m_trap :: "u64 \<Rightarrow> trap \<Rightarrow> position \<Rightarrow> masm_step" where
  "m_trap stub trap pos =
     mwith (vec_get REG_PARAMS 0) (\<lambda>r. msteps
       [m_load_int_const ModeInt32 r (uint (trap_int trap)),
        m_raw_call stub,
        m_emit_position pos])"

subsection \<open>Clearing memory\<close>

definition m_fill_zero_dynamic :: "cpu_reg \<Rightarrow> cpu_reg \<Rightarrow> masm_step" where
  "m_fill_zero_dynamic obj obj_end =
     with_label (\<lambda>finished. with_label (\<lambda>start. with_scratch (\<lambda>zero. msteps
       [m_load_int_const ModePtr zero 0,
        with_scratch (\<lambda>cur. msteps
          [m_copy_reg ModePtr cur obj,
           m_bind_label start,
           m_cmp_reg ModePtr cur obj_end,
           m_jump_if CcEqual finished,
           m_store_mem ModePtr (Base cur 0) (AnyReg zero),
           m_int_add_imm ModePtr cur cur 8,
           m_jump start,
           m_bind_label finished])])))"

definition m_fill_zero :: "cpu_reg \<Rightarrow> bool \<Rightarrow> usize \<Rightarrow> masm_step" where
  "m_fill_zero obj is_array sz =
     (let header = 16 + (if is_array then 8 else 0) in msteps
        [mcheck (header \<le> sz),
         mcheck (sz mod 8 = 0),
         let size_words = (sz - header) div 8 in
         if size_words = 0 then Inr
         else if size_words \<le> 8 then
           with_scratch (\<lambda>zero. msteps
             (m_load_int_const ModeInt32 zero 0 #
              map (\<lambda>i. m_store_mem ModePtr (Base obj (int header + int i * 8)) (AnyReg zero)) [0..<size_words]))
         else
           with_scratch (\<lambda>obj_end. msteps
             [m_copy_reg ModePtr obj_end obj,
              mwith (rbind (checked_i32 (as_i32 (as_u32 size_words) * 8)) (\<lambda>d. checked_i32 (int header + d))) (\<lambda>off.
                m_int_add_imm ModePtr obj_end obj_end off),
              m_int_add_imm ModePtr obj obj (int header),
              m_fill_zero_dynamic obj obj_end])])"

subsection \<open>Finishing\<close>

definition m_finish :: "u64 \<Rightarrow> masm_step" where
  "m_finish trap_stub s =
     (let bailouts = m_bailouts s in msteps
        (map (\<lambda>(lbl, trap, pos). msteps [m_bind_label lbl, m_trap trap_stub trap pos]) bailouts
           @ [if 0 < length bailouts then m_nop else Inr])
        (s\<lparr>m_bailouts := []\<rparr>))"

definition CODE_ALIGNMENT :: usize where "CODE_ALIGNMENT = 16"

definition m_code :: "u64 \<Rightarrow> masm \<Rightarrow> code_descriptor result option" where
  "m_code trap_stub s =
     (case rbind (m_finish trap_stub s) (\<lambda>s. rbind (cp_align (int CODE_ALIGNMENT) (m_constpool s)) (\<lambda>p. Inr (s\<lparr>m_constpool := p\<rparr>))) of
        Inl e \<Rightarrow> Some (Inl e)
      | Inr s \<Rightarrow> map_option (\<lambda>res. rbind res (\<lambda>code. Inr
          \<lparr>cd_constpool = m_constpool s, cd_code = code, cd_lazy_compilation = m_lazy_compilation s, cd_gcpoints = m_gcpoints s,
           cd_comments = m_comments s, cd_positions = m_positions s\<rparr>)) (a64_finalize (Some CODE_ALIGNMENT) (m_asm s)))"

definition m_data :: "u64 \<Rightarrow> masm \<Rightarrow> u8 list result option" where
  "m_data trap_stub s =
     (case m_finish trap_stub s of Inl e \<Rightarrow> Some (Inl e) | Inr s \<Rightarrow> a64_finalize None (m_asm s))"

end
