(* ===== verification/CodeObjects.thy ===== *)
theory CodeObjects
  imports MacroAssembler
begin

text \<open>
  Installed code: the code space (\<open>dora/src/gc/code.rs\<close>), \<open>install_code\<close> and the table of code objects
  (\<open>dora/src/vm/code.rs\<close>), the map from addresses to code (\<open>dora/src/vm/code_map.rs\<close>) and \<open>add_code\<close>
  (\<open>dora/src/vm.rs\<close>).  Memory is a function from addresses to bytes.  The address of the class's vtable
  and that of the native code object are arguments; changing the protection of pages and flushing the
  instruction cache are left out.
\<close>

subsection \<open>The code space\<close>

record code_space =
  cs_total :: region
  cs_top :: heap_address
  cs_limit :: heap_address
  cs_chunk_size :: usize

definition CHUNK_SIZE :: usize where "CHUNK_SIZE = 128 * 1024"

text \<open>The start of the reservation is the operating system's answer.\<close>

definition code_space_new :: "nat \<Rightarrow> heap_address \<Rightarrow> usize \<Rightarrow> code_space result" where
  "code_space_new page_bits space_start limit =
     rbind (offset space_start limit) (\<lambda>space_end.
     rbind (region_new space_start space_end) (\<lambda>total.
     rbind (page_align page_bits CHUNK_SIZE) (\<lambda>chunk.
     Inr \<lparr>cs_total = total, cs_top = space_start, cs_limit = space_start, cs_chunk_size = chunk\<rparr>)))"

definition code_space_grow :: "usize \<Rightarrow> code_space \<Rightarrow> code_space result" where
  "code_space_grow aligned_size s =
     rbind (offset_from (cs_limit s) (cs_top s)) (\<lambda>rest.
     rbind (checked_sub aligned_size rest) (\<lambda>missing.
     rbind (align_usize missing (cs_chunk_size s)) (\<lambda>sz.
     rbind (offset (cs_limit s) sz) (\<lambda>new_limit.
     if r_end (cs_total s) < new_limit then Inl ExplicitPanic else Inr (s\<lparr>cs_limit := new_limit\<rparr>)))))"

definition code_space_alloc :: "usize \<Rightarrow> code_space \<Rightarrow> (heap_address \<times> code_space) result" where
  "code_space_alloc sz s =
     rbind (rassert (0 < sz)) (\<lambda>_.
     rbind (align_usize sz CODE_ALIGNMENT) (\<lambda>aligned_size.
     rbind (offset (cs_top s) aligned_size) (\<lambda>new_top.
     rbind (if cs_limit s < new_top then code_space_grow aligned_size s else Inr s) (\<lambda>s.
     rbind (rassert (new_top \<le> cs_limit s)) (\<lambda>_.
     Inr (cs_top s, s\<lparr>cs_top := new_top\<rparr>))))))"

definition allocated_region :: "code_space \<Rightarrow> region result" where
  "allocated_region s = region_new (r_start (cs_total s)) (cs_top s)"

subsection \<open>Code objects\<close>

datatype code_kind =
    DoraFct usize | CompileStub | TrapStub | AllocStub | VerifyStub | NativeStub usize | DoraStub | GuardCheckStub | SafepointStub

record code =
  code_object_start :: heap_address
  code_object_end :: heap_address
  code_instruction_start :: heap_address
  code_descr :: code_kind
  code_lazy_compilation :: "(u32 \<times> lazy_compilation_site) list"
  code_gcpoints :: "(u32 \<times> gc_point) list"
  code_comments :: "(u32 \<times> string) list"
  code_positions :: "(u32 \<times> position) list"

definition position_for_offset :: "u32 \<Rightarrow> code \<Rightarrow> position option" where
  "position_for_offset off c = table_get off (code_positions c)"

definition gcpoint_for_offset :: "u32 \<Rightarrow> code \<Rightarrow> gc_point option" where
  "gcpoint_for_offset off c = table_get off (code_gcpoints c)"

definition comments_for_offset :: "u32 \<Rightarrow> code \<Rightarrow> string list" where
  "comments_for_offset off c = comment_get off (code_comments c)"

definition lazy_for_offset :: "u32 \<Rightarrow> code \<Rightarrow> lazy_compilation_site option" where
  "lazy_for_offset off c = table_get off (code_lazy_compilation c)"

definition code_fct_id :: "code \<Rightarrow> usize result" where
  "code_fct_id c = (case code_descr c of NativeStub f \<Rightarrow> Inr f | DoraFct f \<Rightarrow> Inr f | _ \<Rightarrow> Inl ExplicitPanic)"

text \<open>Two header words, the length of the array and the address of the native object.\<close>

definition managed_code_header_size :: usize where "managed_code_header_size = 32"

definition i32_as_usize :: "int \<Rightarrow> usize" where
  "i32_as_usize v = nat (v mod 2 ^ 64)"

definition usize_bytes :: "usize \<Rightarrow> u8 list" where
  "usize_bytes v = u64_bytes (word_of_nat v)"

definition write_code_header :: "heap_address \<Rightarrow> heap_address \<Rightarrow> usize \<Rightarrow> byte_memory \<Rightarrow> byte_memory" where
  "write_code_header vtable obj len m =
     store_bytes (usize_bytes 0) (obj + 24) (store_bytes (usize_bytes len) (obj + 16)
       (store_bytes (usize_bytes 0) (obj + 8) (store_bytes (usize_bytes vtable) obj m)))"

definition install_code ::
  "heap_address option \<Rightarrow> heap_address \<Rightarrow> code_descriptor \<Rightarrow> code_kind \<Rightarrow> code_space \<Rightarrow> byte_memory \<Rightarrow> (code \<times> code_space \<times> byte_memory) result" where
  "install_code vtable native cd kind space m =
     (let header = managed_code_header_size; pool = i32_as_usize (cp_size (cd_constpool cd)); code_len = length (cd_code cd) in
      rbind (rassert (header mod CODE_ALIGNMENT = 0)) (\<lambda>_.
      rbind (rassert (pool mod CODE_ALIGNMENT = 0)) (\<lambda>_.
      rbind (rassert (code_len mod CODE_ALIGNMENT = 0)) (\<lambda>_.
      rbind (checked_add header pool) (\<lambda>sz.
      rbind (checked_add sz code_len) (\<lambda>object_size.
      rbind (rassert (object_size mod CODE_ALIGNMENT = 0)) (\<lambda>_.
      rbind (code_space_alloc object_size space) (\<lambda>(object_start, space).
      rbind (offset object_start object_size) (\<lambda>object_end.
      rbind (checked_sub object_size 16) (\<lambda>body.
      rbind (checked_sub body ptr_width_usize) (\<lambda>elements.
      let array_length = elements div ptr_width_usize in
      rbind (offset object_start header) (\<lambda>constpool_start.
      rbind (offset constpool_start pool) (\<lambda>instruction_start.
      if object_start = addr_null then Inl ExplicitPanic
      else
      rbind (rexpect vtable) (\<lambda>vtable.
      rbind (cp_install (cd_constpool cd) constpool_start (write_code_header vtable object_start array_length m)) (\<lambda>m.
      let m = store_bytes (cd_code cd) instruction_start m;
          m = store_bytes (usize_bytes native) (object_start + 24) m in
      Inr (\<lparr>code_object_start = object_start, code_object_end = object_end, code_instruction_start = instruction_start,
            code_descr = kind, code_lazy_compilation = cd_lazy_compilation cd, code_gcpoints = cd_gcpoints cd,
            code_comments = cd_comments cd, code_positions = cd_positions cd\<rparr>, space, m))))))))))))))))"

subsection \<open>The map from addresses to code\<close>

record code_span =
  span_start :: heap_address
  span_end :: heap_address

definition code_span_new :: "heap_address \<Rightarrow> heap_address \<Rightarrow> code_span result" where
  "code_span_new s e = rbind (rassert (s < e)) (\<lambda>_. Inr \<lparr>span_start = s, span_end = e\<rparr>)"

definition intersect :: "code_span \<Rightarrow> code_span \<Rightarrow> bool" where
  "intersect a b =
     (span_start a \<le> span_start b \<and> span_start b < span_end a
      \<or> span_start a < span_end b \<and> span_end b \<le> span_end a
      \<or> span_start b \<le> span_start a \<and> span_end a \<le> span_end b)"

datatype ordering = Less | Equal | Greater

definition span_cmp :: "code_span \<Rightarrow> code_span \<Rightarrow> ordering" where
  "span_cmp a b = (if intersect a b then Equal else if span_end b \<le> span_start a then Greater else Less)"

text \<open>A \<open>BTreeMap\<close> keeps its keys in order and searches them with the order of the key type: a key that is
  equal is found, and \<open>insert\<close> then only replaces the value.\<close>

fun tree_get :: "code_span \<Rightarrow> (code_span \<times> usize) list \<Rightarrow> usize option" where
  "tree_get k [] = None"
| "tree_get k ((k', v) # t) =
     (case span_cmp k k' of Greater \<Rightarrow> tree_get k t | Equal \<Rightarrow> Some v | Less \<Rightarrow> None)"

fun tree_insert :: "code_span \<Rightarrow> usize \<Rightarrow> (code_span \<times> usize) list \<Rightarrow> usize option \<times> (code_span \<times> usize) list" where
  "tree_insert k v [] = (None, [(k, v)])"
| "tree_insert k v ((k', v') # t) =
     (case span_cmp k k' of
        Greater \<Rightarrow> (case tree_insert k v t of (old, t) \<Rightarrow> (old, (k', v') # t))
      | Equal \<Rightarrow> (Some v', (k', v) # t)
      | Less \<Rightarrow> (None, (k, v) # (k', v') # t))"

definition code_map_insert :: "heap_address \<Rightarrow> heap_address \<Rightarrow> usize \<Rightarrow> (code_span \<times> usize) list \<Rightarrow> (code_span \<times> usize) list result" where
  "code_map_insert s e code_id tree =
     rbind (code_span_new s e) (\<lambda>span.
     case tree_insert span code_id tree of (old, tree) \<Rightarrow> rbind (rassert (old = None)) (\<lambda>_. Inr tree))"

definition code_map_get :: "heap_address \<Rightarrow> (code_span \<times> usize) list \<Rightarrow> usize option result" where
  "code_map_get ptr tree = rbind (offset ptr 1) (\<lambda>e. rbind (code_span_new ptr e) (\<lambda>span. Inr (tree_get span tree)))"

subsection \<open>The table of code objects\<close>

record code_tables =
  ct_space :: code_space
  ct_objects :: "code list"
  ct_map :: "(code_span \<times> usize) list"
  ct_memory :: byte_memory

definition code_objects_add :: "code \<Rightarrow> code list \<Rightarrow> usize \<times> code list" where
  "code_objects_add c objects = (length objects, objects @ [c])"

definition code_objects_get :: "usize \<Rightarrow> code list \<Rightarrow> code result" where
  "code_objects_get code_id objects = vec_get objects code_id"

definition add_code :: "code \<Rightarrow> code_tables \<Rightarrow> (usize \<times> code_tables) result" where
  "add_code c s =
     (case code_objects_add c (ct_objects s) of (code_id, objects) \<Rightarrow>
      rbind (code_map_insert (code_object_start c) (code_object_end c) code_id (ct_map s)) (\<lambda>tree.
      Inr (code_id, s\<lparr>ct_objects := objects, ct_map := tree\<rparr>)))"

definition install_code_stub ::
  "heap_address option \<Rightarrow> heap_address \<Rightarrow> code_descriptor \<Rightarrow> code_kind \<Rightarrow> code_tables \<Rightarrow> (code \<times> code_tables) result" where
  "install_code_stub vtable native cd kind s =
     rbind (install_code vtable native cd kind (ct_space s) (ct_memory s)) (\<lambda>(c, space, m).
     rbind (add_code c (s\<lparr>ct_space := space, ct_memory := m\<rparr>)) (\<lambda>(_, s).
     Inr (c, s)))"

end
