(* ===== verification/CodeTheorems.thy ===== *)
theory CodeTheorems
  imports CodeObjects
begin

text \<open>
  Installed code: every address inside a code object is mapped to it and to nothing else, the pool
  entries are where the code expects them, and installing more code leaves them alone.
\<close>

subsection \<open>Pools as the assembler builds them\<close>

inductive pool_reach :: "const_pool \<Rightarrow> bool" where
  fresh: "pool_reach cp_new"
| add: "pool_reach p \<Longrightarrow> cp_add_value v p = Inr (d, p') \<Longrightarrow> pool_reach p'"
| align: "pool_reach p \<Longrightarrow> cp_align n p = Inr p' \<Longrightarrow> pool_reach p'"

lemma pool_reach_ok: "pool_reach p \<Longrightarrow> cp_ok p"
  by (induction rule: pool_reach.induct) (use cp_ok_new cp_ok_add(1) cp_ok_align in blast)+

subsection \<open>Bytes in memory\<close>

lemma load_other:
  "a + n \<le> b \<or> b + length bs \<le> a \<Longrightarrow> load_bytes n a (store_bytes bs b m) = load_bytes n a m"
  by (auto simp: load_bytes_def store_bytes_def)

lemma load_same: "\<forall>b. a \<le> b \<and> b < a + n \<longrightarrow> m' b = m b \<Longrightarrow> load_bytes n a m' = load_bytes n a m"
  by (simp add: load_bytes_def)

lemma length_usize_bytes [simp]: "length (usize_bytes v) = 8"
  by (simp add: usize_bytes_def u64_bytes_def)

text \<open>What is in memory when a descriptor has been installed as a code object.\<close>

definition code_in_memory :: "code_descriptor \<Rightarrow> code \<Rightarrow> byte_memory \<Rightarrow> bool" where
  "code_in_memory cd c m \<longleftrightarrow>
     load_bytes (length (cd_code cd)) (code_instruction_start c) m = cd_code cd
     \<and> code_instruction_start c + length (cd_code cd) = code_object_end c
     \<and> load_bytes 8 (code_object_start c + 16) m = usize_bytes ((code_object_end c - code_object_start c - 24) div 8)
     \<and> (\<forall>e\<in>set (cp_entries (cd_constpool cd)).
          let n = nat (cpv_size (cpe_value e)); a = code_instruction_start c - nat (cpe_disp e) in
          load_bytes n a m = cpv_bytes (cpe_value e) \<and> n dvd a \<and> code_object_start c + 32 \<le> a \<and> a + n \<le> code_instruction_start c)"

lemma code_in_memory_cong:
  assumes "code_in_memory cd c m" "\<forall>b. code_object_start c \<le> b \<and> b < code_object_end c \<longrightarrow> m' b = m b"
    and "code_object_start c + 32 \<le> code_instruction_start c"
  shows "code_in_memory cd c m'"
proof -
  have same: "load_bytes n a m' = load_bytes n a m" if "code_object_start c \<le> a" "a + n \<le> code_object_end c" for n a
    using assms(2) that by (intro load_same) auto
  show ?thesis
    using assms(1,3) unfolding code_in_memory_def Let_def by (auto simp: same)
qed

subsection \<open>Installing one descriptor\<close>

lemma code_space_alloc_spec:
  assumes "code_space_alloc sz s = Inr (a, s')" "16 dvd sz" "cs_top s \<le> cs_limit s" "cs_limit s \<le> r_end (cs_total s)" "0 < cs_chunk_size s"
  shows "a = cs_top s \<and> cs_top s' = cs_top s + sz \<and> cs_top s' \<le> cs_limit s' \<and> cs_limit s' \<le> r_end (cs_total s')
    \<and> cs_total s' = cs_total s \<and> cs_chunk_size s' = cs_chunk_size s \<and> 0 < sz \<and> cs_top s + sz < 2 ^ 64"
proof -
  have al: "align_usize sz 16 = Inr x \<Longrightarrow> x = sz" for x
    using assms(2) by (auto simp: align_usize_ok elim!: dvdE)
  show ?thesis
    using assms(1,3-5) by (auto simp: code_space_alloc_def code_space_grow_def rbind_eq_Inr_iff CODE_ALIGNMENT_def
        offset_def offset_from_def dest!: al split: if_splits)
qed

lemma pool_entry_bounds:
  assumes "cp_ok p" "e \<in> set (cp_entries p)"
  shows "cpv_size (cpe_value e) \<le> cpe_disp e" "cpe_disp e \<le> cp_size p"
proof -
  have "t + cpv_size (cpe_value e) \<le> cpe_disp e \<and> cpe_disp e \<le> entries_top t es" if "entries_ok t es" "0 \<le> t" "e \<in> set es" for t es
    using that
  proof (induction t es rule: entries_ok.induct)
    case (2 t a es)
    then show ?case using entries_top_le [of "cpe_disp a" es] cpv_size_pos(1) [of "cpe_value a"] by auto
  qed simp
  from this [of 0 "cp_entries p"] show "cpv_size (cpe_value e) \<le> cpe_disp e" "cpe_disp e \<le> cp_size p"
    using assms by (auto simp: cp_ok_def)
qed


definition space_fit :: "code_space \<Rightarrow> bool" where
  "space_fit s \<longleftrightarrow> r_start (cs_total s) \<le> cs_top s \<and> cs_top s \<le> cs_limit s \<and> cs_limit s \<le> r_end (cs_total s) \<and> 0 < cs_chunk_size s
     \<and> 16 dvd cs_top s"

lemma install_code_writes:
  assumes "install_code vt native cd kind s m = Inr (c, s', m')" "cp_ok (cd_constpool cd)" "space_fit s"
  defines "pool \<equiv> nat (cp_size (cd_constpool cd))" and "a \<equiv> cs_top s"
  obtains m1 vtable where
    "cp_install (cd_constpool cd) (a + 32) (write_code_header vtable a ((8 + pool + length (cd_code cd)) div 8) m) = Inr m1"
    "m' = store_bytes (usize_bytes native) (a + 24) (store_bytes (cd_code cd) (a + 32 + pool) m1)"
    "code_object_start c = a" "code_instruction_start c = a + 32 + pool"
    "code_object_end c = a + 32 + pool + length (cd_code cd)" "cs_top s' = code_object_end c" "space_fit s'"
    "cs_total s' = cs_total s" "16 dvd pool" "16 dvd length (cd_code cd)"
proof -
  let ?size = "32 + pool + length (cd_code cd)"
  have nn: "0 \<le> cp_size (cd_constpool cd)" "cp_size (cd_constpool cd) < 2 ^ 31"
    using assms(2) cp_ok_size by (auto simp: cp_ok_def)
  then have pool: "i32_as_usize (cp_size (cd_constpool cd)) = pool" by (simp add: i32_as_usize_def pool_def)
  obtain vtable m1 where body: "16 dvd pool" "16 dvd length (cd_code cd)" "code_space_alloc ?size s = Inr (code_object_start c, s')"
    "cp_install (cd_constpool cd) (code_object_start c + 32) (write_code_header vtable (code_object_start c) ((?size - 24) div 8) m) = Inr m1"
    "m' = store_bytes (usize_bytes native) (code_object_start c + 24) (store_bytes (cd_code cd) (code_instruction_start c) m1)"
    "code_instruction_start c = code_object_start c + 32 + pool" "code_object_end c = code_object_start c + ?size"
    using assms(1) unfolding install_code_def Let_def pool
    by (auto simp: rbind_eq_Inr_iff CODE_ALIGNMENT_def managed_code_header_size_def ptr_width_usize_def offset_def
        rexpect_eq_Inr split: if_splits)
  have dvd: "16 dvd ?size" using body(1,2) by (simp add: dvd_add)
  note alloc = code_space_alloc_spec [OF body(3) dvd] assms(3) [unfolded space_fit_def]
  have start: "code_object_start c = a" using alloc by (simp add: a_def)
  have top: "cs_top s' = a + ?size" using alloc by (simp add: a_def)
  have "space_fit s'" using alloc dvd by (auto simp: space_fit_def dvd_add)
  moreover have "?size - 24 = 8 + pool + length (cd_code cd)" by simp
  ultimately show thesis
    using that [of vtable m1] body alloc start top by (simp add: add.assoc)
qed

lemma install_code_spec:
  assumes "install_code vt native cd kind s m = Inr (c, s', m')" "cp_ok (cd_constpool cd)" "space_fit s"
  shows "code_in_memory cd c m'" "code_object_start c = cs_top s" "code_object_end c = cs_top s'" "space_fit s'"
    "cs_total s' = cs_total s" "code_object_start c + 32 \<le> code_instruction_start c" "code_instruction_start c \<le> code_object_end c"
    "\<forall>b. b < code_object_start c \<or> code_object_end c \<le> b \<longrightarrow> m' b = m b"
proof -
  let ?p = "cd_constpool cd" and ?a = "cs_top s" and ?code = "cd_code cd"
  define pool where "pool = nat (cp_size ?p)"
  obtain m1 vtable where i: "cp_install ?p (?a + 32) (write_code_header vtable ?a ((8 + pool + length ?code) div 8) m) = Inr m1"
    "m' = store_bytes (usize_bytes native) (?a + 24) (store_bytes ?code (?a + 32 + pool) m1)"
    "code_object_start c = ?a" "code_instruction_start c = ?a + 32 + pool"
    "code_object_end c = ?a + 32 + pool + length ?code" "cs_top s' = code_object_end c" "space_fit s'"
    "cs_total s' = cs_total s" "16 dvd pool"
    using install_code_writes [OF assms, folded pool_def] by metis
  let ?h = "write_code_header vtable ?a ((8 + pool + length ?code) div 8) m"
  have pos: "0 \<le> cp_size ?p" using assms(2) by (rule cp_ok_size)
  have inst: "\<forall>e\<in>set (cp_entries ?p). load_bytes (length (cpv_bytes (cpe_value e))) (?a + 32 + nat (cp_size ?p - cpe_disp e)) m1 = cpv_bytes (cpe_value e)"
    "\<forall>b. b < ?a + 32 \<or> ?a + 32 + pool \<le> b \<longrightarrow> m1 b = ?h b"
    using cp_install_spec [OF assms(2), of "?a + 32" ?h] i(1) by (auto simp: pool_def)
  have "load_bytes 8 (?a + 16) m' = load_bytes 8 (?a + 16) m1" unfolding i(2) by (simp add: load_other)
  also have "\<dots> = load_bytes 8 (?a + 16) ?h" using inst(2) by (intro load_same) auto
  also have "\<dots> = usize_bytes ((8 + pool + length ?code) div 8)"
    using load_stored [of "usize_bytes ((8 + pool + length ?code) div 8)" "?a + 16"]
    unfolding write_code_header_def by (subst load_other) simp_all
  finally have len: "load_bytes 8 (?a + 16) m' = usize_bytes ((8 + pool + length ?code) div 8)" .
  have code: "load_bytes (length ?code) (?a + 32 + pool) m' = ?code"
    unfolding i(2) by (subst load_other) (simp_all add: load_stored)
  have entry: "let n = nat (cpv_size (cpe_value e)); b = ?a + 32 + pool - nat (cpe_disp e) in
      load_bytes n b m' = cpv_bytes (cpe_value e) \<and> n dvd b \<and> ?a + 32 \<le> b \<and> b + n \<le> ?a + 32 + pool"
    if "e \<in> set (cp_entries ?p)" for e
  proof -
    note bounds = pool_entry_bounds [OF assms(2) that] and sz = cpv_size_pos [of "cpe_value e"]
    let ?b = "?a + 32 + nat (cp_size ?p - cpe_disp e)"
    have b: "?a + 32 + pool - nat (cpe_disp e) = ?b" using bounds sz pos unfolding pool_def by linarith
    have fit: "?b + nat (cpv_size (cpe_value e)) \<le> ?a + 32 + pool" using bounds sz(1) pos unfolding pool_def by auto
    have "load_bytes (nat (cpv_size (cpe_value e))) ?b m' = load_bytes (nat (cpv_size (cpe_value e))) ?b m1"
      unfolding i(2) using fit by (simp add: load_other)
    then have "load_bytes (nat (cpv_size (cpe_value e))) ?b m' = cpv_bytes (cpe_value e)"
      using inst(1) [rule_format, OF that] sz(2) by simp
    moreover have "16 dvd ?a + 32 + pool" using assms(3) i(9) by (simp add: space_fit_def dvd_add)
    then have "(16::int) dvd int (?a + 32 + pool)" by (metis int_dvd_int_iff of_nat_numeral)
    then have "(int (?a + 32) + cp_size ?p) mod 8 = 0" using pos unfolding pool_def by (simp add: dvd_eq_mod_eq_0) presburger
    from entry_aligned(1) [OF assms(2) that this] have "nat (cpv_size (cpe_value e)) dvd ?b"
      using sz(1) by (auto simp flip: int_dvd_int_iff)
    ultimately show ?thesis using fit unfolding Let_def b by simp
  qed
  show "code_in_memory cd c m'"
    using len code entry unfolding code_in_memory_def i(3-5) by (simp add: add.assoc)
  show "\<forall>b. b < code_object_start c \<or> code_object_end c \<le> b \<longrightarrow> m' b = m b"
    unfolding i(2-5) using inst(2) by (auto simp: store_bytes_def write_code_header_def)
  show "code_object_start c = cs_top s" "code_object_end c = cs_top s'" "space_fit s'" "cs_total s' = cs_total s"
    "code_object_start c + 32 \<le> code_instruction_start c" "code_instruction_start c \<le> code_object_end c"
    using i by simp_all
qed

subsection \<open>The tables\<close>

fun laid_out :: "heap_address \<Rightarrow> code list \<Rightarrow> heap_address \<Rightarrow> bool" where
  "laid_out a [] b \<longleftrightarrow> a = b"
| "laid_out a (c # cs) b \<longleftrightarrow> code_object_start c = a \<and> a < code_object_end c \<and> laid_out (code_object_end c) cs b"

definition span_of :: "code \<Rightarrow> code_span" where
  "span_of c = \<lparr>span_start = code_object_start c, span_end = code_object_end c\<rparr>"

lemma laid_out_append: "laid_out a (cs @ [c]) b \<longleftrightarrow> laid_out a cs (code_object_start c) \<and> code_object_start c < code_object_end c \<and> b = code_object_end c"
  by (induction a cs b rule: laid_out.induct) auto

lemma laid_out_le: "laid_out a cs b \<Longrightarrow> a \<le> b"
  by (induction a cs b rule: laid_out.induct) auto

lemma laid_out_bounds: "laid_out a cs b \<Longrightarrow> c \<in> set cs \<Longrightarrow> a \<le> code_object_start c \<and> code_object_start c < code_object_end c \<and> code_object_end c \<le> b"
proof (induction a cs b rule: laid_out.induct)
  case (2 a d cs b)
  then show ?case using laid_out_le [of "code_object_end d" cs b] by fastforce
qed simp

fun code_tree :: "usize \<Rightarrow> code list \<Rightarrow> (code_span \<times> usize) list" where
  "code_tree n [] = []"
| "code_tree n (c # cs) = (span_of c, n) # code_tree (Suc n) cs"

lemma code_tree_append: "code_tree n (cs @ [c]) = code_tree n cs @ [(span_of c, n + length cs)]"
  by (induction n cs rule: code_tree.induct) auto

lemma tree_insert_last:
  "laid_out a cs b \<Longrightarrow> b \<le> span_start k \<Longrightarrow> span_start k < span_end k \<Longrightarrow>
    tree_insert k v (code_tree n cs) = (None, code_tree n cs @ [(k, v)])"
proof (induction a cs b arbitrary: n rule: laid_out.induct)
  case (2 a c cs b)
  have "code_object_end c \<le> b" using 2 laid_out_le [of "code_object_end c" cs b] by simp
  then have "span_cmp k (span_of c) = Greater" using 2 by (auto simp: span_cmp_def intersect_def span_of_def)
  then show ?case using 2 by simp
qed simp

lemma tree_get_laid_out:
  "laid_out a cs b \<Longrightarrow> tree_get \<lparr>span_start = p, span_end = p + 1\<rparr> (code_tree n cs) = Some i \<longleftrightarrow>
    n \<le> i \<and> i < n + length cs \<and> code_object_start (cs ! (i - n)) \<le> p \<and> p < code_object_end (cs ! (i - n))"
proof (induction a cs b arbitrary: n rule: laid_out.induct)
  case (2 a c cs b)
  let ?k = "\<lparr>span_start = p, span_end = p + 1\<rparr>"
  have c: "code_object_start c = a" "a < code_object_end c" "laid_out (code_object_end c) cs b" using 2 by auto
  have later: "code_object_end c \<le> code_object_start (cs ! (i - Suc n))" if "n < i" "i < n + length (c # cs)"
    using laid_out_bounds [OF c(3), of "cs ! (i - Suc n)"] that by simp
  have nth: "(c # cs) ! (i - n) = (if i \<le> n then c else cs ! (i - Suc n))" by (simp add: nth_Cons')
  consider (below) "p < a" | (here) "a \<le> p" "p < code_object_end c" | (above) "code_object_end c \<le> p" by linarith
  then show ?case
  proof cases
    case below
    then have "span_cmp ?k (span_of c) = Less" using c by (auto simp: span_cmp_def intersect_def span_of_def)
    then show ?thesis using below c later by (auto simp: nth)
  next
    case here
    then have "span_cmp ?k (span_of c) = Equal" using c by (auto simp: span_cmp_def intersect_def span_of_def)
    then show ?thesis using here c later by (auto simp: nth)
  next
    case above
    then have "span_cmp ?k (span_of c) = Greater" using c by (auto simp: span_cmp_def intersect_def span_of_def)
    then show ?thesis using 2(1) [OF c(3), of "Suc n"] above by (auto simp: nth)
  qed
qed simp

fun install_all ::
  "heap_address option \<Rightarrow> (heap_address \<times> code_descriptor \<times> code_kind) list \<Rightarrow> code_tables \<Rightarrow> code_tables result" where
  "install_all vt [] s = Inr s"
| "install_all vt ((native, cd, kind) # reqs) s =
     rbind (install_code_stub vt native cd kind s) (\<lambda>(_, s). install_all vt reqs s)"

definition tables_ok :: "code_descriptor list \<Rightarrow> code_tables \<Rightarrow> bool" where
  "tables_ok cds s \<longleftrightarrow> space_fit (ct_space s) \<and> laid_out (r_start (cs_total (ct_space s))) (ct_objects s) (cs_top (ct_space s))
     \<and> ct_map s = code_tree 0 (ct_objects s)
     \<and> list_all2 (\<lambda>cd c. code_in_memory cd c (ct_memory s) \<and> code_object_start c + 32 \<le> code_instruction_start c) cds (ct_objects s)"

lemma install_step:
  assumes "tables_ok cds s" "install_code vt native cd kind (ct_space s) (ct_memory s) = Inr (c, space, m)" "pool_reach (cd_constpool cd)"
  defines "s' \<equiv> s\<lparr>ct_space := space, ct_memory := m, ct_objects := ct_objects s @ [c], ct_map := ct_map s @ [(span_of c, length (ct_objects s))]\<rparr>"
  shows "install_code_stub vt native cd kind s = Inr (c, s')" "tables_ok (cds @ [cd]) s'"
proof -
  note ok = assms(1) [unfolded tables_ok_def]
  note c = install_code_spec [OF assms(2) pool_reach_ok [OF assms(3)]] ok
  have lay: "laid_out (r_start (cs_total (ct_space s))) (ct_objects s) (code_object_start c)" using c by simp
  have ne: "code_object_start c < code_object_end c" using c by linarith
  show "install_code_stub vt native cd kind s = Inr (c, s')"
    using assms(2) tree_insert_last [OF lay, of "span_of c" "length (ct_objects s)" 0] ok ne
    by (simp add: install_code_stub_def add_code_def code_objects_add_def code_map_insert_def code_span_new_def span_of_def
        s'_def rassert_def)
  have "code_in_memory d x m" if "code_in_memory d x (ct_memory s)" "code_object_start x + 32 \<le> code_instruction_start x" "x \<in> set (ct_objects s)"
    for d x
    using that c laid_out_bounds [OF lay that(3)] by (intro code_in_memory_cong [OF that(1)]) auto
  then have "list_all2 (\<lambda>cd c. code_in_memory cd c m \<and> code_object_start c + 32 \<le> code_instruction_start c) cds (ct_objects s)"
    using ok by (auto elim!: list.rel_mono_strong)
  then show "tables_ok (cds @ [cd]) s'"
    using c ne lay by (simp add: tables_ok_def s'_def laid_out_append code_tree_append list_all2_appendI)
qed

lemma install_all_ok:
  assumes "install_all vt reqs s = Inr s'" "tables_ok cds s" "\<forall>(n, cd, k)\<in>set reqs. pool_reach (cd_constpool cd)"
  shows "tables_ok (cds @ map (\<lambda>(n, cd, k). cd) reqs) s'"
  using assms
proof (induction vt reqs s arbitrary: cds rule: install_all.induct)
  case (2 vt native cd kind reqs s)
  obtain c space m where i: "install_code vt native cd kind (ct_space s) (ct_memory s) = Inr (c, space, m)"
    using 2(2) by (auto simp: install_code_stub_def rbind_eq_Inr_iff)
  from install_step [OF 2(3) i] 2(1) 2(2,4) show ?case by (fastforce simp: rbind_eq_Inr_iff)
qed simp

subsection \<open>Properties\<close>

lemma tables_ok_fresh:
  assumes "code_space_new page_bits start limit = Inr space" "16 dvd start"
  shows "tables_ok [] \<lparr>ct_space = space, ct_objects = [], ct_map = [], ct_memory = m\<rparr>"
proof -
  obtain chunk where chunk: "page_align page_bits CHUNK_SIZE = Inr chunk"
    and space: "space = \<lparr>cs_total = \<lparr>r_start = start, r_end = start + limit\<rparr>, cs_top = start, cs_limit = start, cs_chunk_size = chunk\<rparr>"
    using assms(1) by (auto simp: code_space_new_def rbind_eq_Inr_iff offset_def region_new_def)
  have "is_round_up (2 ^ page_bits) CHUNK_SIZE chunk"
    using chunk round_up_div [of "2 ^ page_bits" CHUNK_SIZE] by (auto simp: page_align_def align_bits_ok)
  then have "0 < chunk" by (auto simp: is_round_up_def CHUNK_SIZE_def)
  then show ?thesis using assms(2) by (simp add: tables_ok_def space_fit_def space)
qed

text \<open>C8.  After any sequence of descriptors has been installed in a fresh code space, the address of
  every byte is mapped to the code object it lies in, and an address outside of all of them to none; no
  installation fails because of an overlap.  The instructions of every descriptor, the length word of its
  object and every entry of its constant pool are in memory, each entry aligned and at its displacement
  before the first instruction, whatever has been installed afterwards.\<close>

theorem installed_code_found:
  assumes "code_space_new page_bits start limit = Inr space" "16 dvd start"
    and "\<forall>(native, cd, kind)\<in>set reqs. pool_reach (cd_constpool cd)"
    and "install_all vt reqs \<lparr>ct_space = space, ct_objects = [], ct_map = [], ct_memory = m\<rparr> = Inr s"
  shows "length (ct_objects s) = length reqs
    \<and> (\<forall>ptr<2 ^ 64 - 1. \<exists>found. code_map_get ptr (ct_map s) = Inr found
        \<and> (\<forall>i. found = Some i \<longleftrightarrow> i < length reqs \<and> code_object_start (ct_objects s ! i) \<le> ptr \<and> ptr < code_object_end (ct_objects s ! i)))
    \<and> (\<forall>i<length reqs. code_in_memory (fst (snd (reqs ! i))) (ct_objects s ! i) (ct_memory s))
    \<and> (\<forall>native cd kind c space' m'. pool_reach (cd_constpool cd) \<longrightarrow>
        install_code vt native cd kind (ct_space s) (ct_memory s) = Inr (c, space', m') \<longrightarrow>
        (\<exists>s'. install_code_stub vt native cd kind s = Inr (c, s')))"
proof (intro conjI)
  let ?cds = "map (\<lambda>(n, cd, k). cd) reqs"
  have ok: "tables_ok ?cds s" using install_all_ok [OF assms(4) tables_ok_fresh [OF assms(1,2)] assms(3)] by simp
  then have all: "list_all2 (\<lambda>cd c. code_in_memory cd c (ct_memory s) \<and> code_object_start c + 32 \<le> code_instruction_start c) ?cds (ct_objects s)"
    and map: "laid_out (r_start (cs_total (ct_space s))) (ct_objects s) (cs_top (ct_space s))" "ct_map s = code_tree 0 (ct_objects s)"
    by (auto simp: tables_ok_def)
  show len: "length (ct_objects s) = length reqs" using list_all2_lengthD [OF all] by simp
  show "\<forall>ptr<2 ^ 64 - 1. \<exists>found. code_map_get ptr (ct_map s) = Inr found
      \<and> (\<forall>i. found = Some i \<longleftrightarrow> i < length reqs \<and> code_object_start (ct_objects s ! i) \<le> ptr \<and> ptr < code_object_end (ct_objects s ! i))"
    using tree_get_laid_out [OF map(1), of _ 0] map(2) len
    by (auto simp: code_map_get_def offset_def code_span_new_def checked_add_def rassert_def)
  show "\<forall>i<length reqs. code_in_memory (fst (snd (reqs ! i))) (ct_objects s ! i) (ct_memory s)"
    using list_all2_nthD [OF all] by (auto simp: split_beta)
  show "\<forall>native cd kind c space' m'. pool_reach (cd_constpool cd) \<longrightarrow>
      install_code vt native cd kind (ct_space s) (ct_memory s) = Inr (c, space', m') \<longrightarrow>
      (\<exists>s'. install_code_stub vt native cd kind s = Inr (c, s'))"
    using install_step(1) [OF ok] by blast
qed

definition demo_code :: code_descriptor where
  "demo_code = (from_buffer (replicate 16 7))\<lparr>cd_constpool := \<lparr>cp_entries = [\<lparr>cpe_disp = 8, cpe_value = CPtr 0xABCD\<rparr>], cp_size = 16\<rparr>\<rparr>"

lemma demo_pool: "pool_reach (cd_constpool demo_code)"
proof -
  have "cp_add_value (CPtr 0xABCD) cp_new = Inr (8, \<lparr>cp_entries = [\<lparr>cpe_disp = 8, cpe_value = CPtr 0xABCD\<rparr>], cp_size = 8\<rparr>)"
    by code_simp
  then have "pool_reach \<lparr>cp_entries = [\<lparr>cpe_disp = 8, cpe_value = CPtr 0xABCD\<rparr>], cp_size = 8\<rparr>"
    by (rule pool_reach.add [OF pool_reach.fresh])
  moreover have "cp_align 16 \<lparr>cp_entries = [\<lparr>cpe_disp = 8, cpe_value = CPtr 0xABCD\<rparr>], cp_size = 8\<rparr> = Inr (cd_constpool demo_code)"
    by code_simp
  ultimately show ?thesis by (rule pool_reach.align)
qed

definition demo_space :: "nat \<Rightarrow> nat \<Rightarrow> code_space" where
  "demo_space t l = \<lparr>cs_total = \<lparr>r_start = 4096, r_end = 1000000\<rparr>, cs_top = t, cs_limit = l, cs_chunk_size = 131072\<rparr>"

lemma demo_install:
  assumes "code_space_alloc 64 space = Inr (a, space')" "0 < a" "a < 5000"
  shows "\<exists>c m'. install_code (Some 64) native demo_code kind space m = Inr (c, space', m')"
proof -
  have sz: "cp_size (cd_constpool demo_code) = 16" "length (cd_code demo_code) = 16"
    by (simp_all add: demo_code_def from_buffer_def)
  obtain m1 where "cp_install (cd_constpool demo_code) (a + 32) (write_code_header 64 a 5 m) = Inr m1"
    using cp_install_spec [OF pool_reach_ok [OF demo_pool]] by blast
  then show ?thesis using assms
    by (simp add: install_code_def sz i32_as_usize_def managed_code_header_size_def CODE_ALIGNMENT_def ptr_width_usize_def offset_def
        checked_add_def checked_sub_def addr_null_def rassert_def)
qed

theorem installed_code_found_witness:
  "\<exists>s. install_all (Some 64) [(1, demo_code, TrapStub), (2, demo_code, DoraFct 3)]
       \<lparr>ct_space = demo_space 4096 4096, ct_objects = [], ct_map = [], ct_memory = (\<lambda>_. 0)\<rparr> = Inr s
     \<and> length (ct_objects s) = 2 \<and> (\<forall>i<2. code_in_memory demo_code (ct_objects s ! i) (ct_memory s))"
proof -
  let ?s = "\<lparr>ct_space = demo_space 4096 4096, ct_objects = [], ct_map = [], ct_memory = (\<lambda>_. 0)\<rparr>"
  have new: "code_space_new 12 4096 995904 = Inr (demo_space 4096 4096)"
    by (simp add: code_space_new_def demo_space_def offset_def region_new_def page_align_def align_bits_def CHUNK_SIZE_def
        checked_add_def rassert_def push_drop_bit_nat)
  have alloc: "code_space_alloc 64 (demo_space 4096 4096) = Inr (4096, demo_space 4160 135168)"
    "code_space_alloc 64 (demo_space 4160 135168) = Inr (4160, demo_space 4224 135168)"
    by (simp_all add: code_space_alloc_def code_space_grow_def demo_space_def offset_def offset_from_def align_usize_def
        CODE_ALIGNMENT_def checked_add_def checked_sub_def rassert_def)
  have fresh: "tables_ok [] ?s" using tables_ok_fresh [OF new] by simp
  obtain c m where c: "install_code (Some 64) 1 demo_code TrapStub (ct_space ?s) (ct_memory ?s) = Inr (c, demo_space 4160 135168, m)"
    using demo_install [OF alloc(1), of 1 TrapStub "ct_memory ?s"] by auto
  obtain s1 where s1: "install_code_stub (Some 64) 1 demo_code TrapStub ?s = Inr (c, s1)" "tables_ok ([] @ [demo_code]) s1"
    "ct_space s1 = demo_space 4160 135168"
    using install_step [OF fresh c demo_pool] by simp
  obtain d m where "install_code (Some 64) 2 demo_code (DoraFct 3) (ct_space s1) (ct_memory s1) = Inr (d, demo_space 4224 135168, m)"
    using demo_install [OF alloc(2), of 2 "DoraFct 3" "ct_memory s1"] s1(3) by auto
  then obtain s where "install_code_stub (Some 64) 2 demo_code (DoraFct 3) s1 = Inr (d, s)"
    using install_step [OF s1(2) _ demo_pool] by blast
  then have s: "install_all (Some 64) [(1, demo_code, TrapStub), (2, demo_code, DoraFct 3)] ?s = Inr s" using s1(1) by simp
  have "length (ct_objects s) = 2" "\<forall>i<2. code_in_memory demo_code (ct_objects s ! i) (ct_memory s)"
    using installed_code_found [OF new _ _ s] demo_pool by (auto simp: less_2_cases_iff)
  then show ?thesis using s by blast
qed

end
