(* ===== verification/MasmMethods.thy ===== *)
theory MasmMethods
  imports CodeTheorems "HOL-Library.Sublist"
begin

text \<open>
  What every method of the macro assembler keeps: scratch registers are given back, tables, bailouts and
  the constant pool only grow, the tables stay sorted and the pool stays well laid out.  The methods are
  built from a few combinators, and the property is carried through each of them.
\<close>

subsection \<open>The invariant\<close>

definition table_sorted :: "(u32 \<times> 'a) list \<Rightarrow> bool" where
  "table_sorted t \<longleftrightarrow> sorted_wrt (<) (map fst t)"

definition masm_ok :: "masm \<Rightarrow> bool" where
  "masm_ok s \<longleftrightarrow> pool_reach (m_constpool s) \<and> table_sorted (m_positions s) \<and> table_sorted (m_gcpoints s)
     \<and> table_sorted (m_lazy_compilation s) \<and> sorted (map fst (m_comments s))"

definition masm_extends :: "masm \<Rightarrow> masm \<Rightarrow> bool" where
  "masm_extends s s' \<longleftrightarrow> m_scratch_value s' = m_scratch_value s \<and> prefix (m_bailouts s) (m_bailouts s')
     \<and> prefix (m_positions s) (m_positions s') \<and> prefix (m_gcpoints s) (m_gcpoints s')
     \<and> prefix (m_lazy_compilation s) (m_lazy_compilation s') \<and> prefix (m_comments s) (m_comments s')
     \<and> prefix (cp_entries (m_constpool s)) (cp_entries (m_constpool s'))"

definition balanced :: "masm_step \<Rightarrow> bool" where
  "balanced f \<longleftrightarrow> (\<forall>s s'. masm_ok s \<longrightarrow> f s = Inr s' \<longrightarrow> masm_ok s' \<and> masm_extends s s')"

named_theorems balance

lemma masm_extends_refl [simp]: "masm_extends s s"
  by (simp add: masm_extends_def)

lemma masm_extends_trans: "masm_extends s t \<Longrightarrow> masm_extends t u \<Longrightarrow> masm_extends s u"
  by (auto simp: masm_extends_def intro: prefix_order.trans)

lemma balancedI: "(\<And>s s'. masm_ok s \<Longrightarrow> f s = Inr s' \<Longrightarrow> masm_ok s' \<and> masm_extends s s') \<Longrightarrow> balanced f"
  by (simp add: balanced_def)

lemma balancedD: "balanced f \<Longrightarrow> f s = Inr s' \<Longrightarrow> masm_ok s \<Longrightarrow> masm_ok s' \<and> masm_extends s s'"
  by (simp add: balanced_def)

lemma balanced_bind:
  assumes "balanced f" "balanced g"
  shows "balanced (\<lambda>s. rbind (f s) g)"
  by (rule balancedI) (use balancedD [OF assms(1)] balancedD [OF assms(2)] masm_extends_trans in \<open>fastforce simp: rbind_eq_Inr_iff\<close>)

lemma balanced_done [balance]: "balanced Inr"
  by (simp add: balanced_def)

lemma balanced_fail [balance]: "balanced (mfail e)"
  by (simp add: balanced_def mfail_def)

lemma balanced_check [balance]: "balanced (mcheck b)"
  by (auto simp: balanced_def mcheck_def rbind_eq_Inr_iff)

lemma balanced_op [balance]: "balanced (asm_op f)"
  by (auto simp: balanced_def asm_op_def rbind_eq_Inr_iff masm_ok_def masm_extends_def)

lemma balanced_with [balance]: "(\<And>x. balanced (f x)) \<Longrightarrow> balanced (mwith r f)"
  by (auto simp: balanced_def mwith_def rbind_eq_Inr_iff)

lemma balanced_Nil [balance]: "balanced (msteps [])"
  by (simp add: balanced_def)

lemma balanced_Cons [balance]: "balanced f \<Longrightarrow> balanced (msteps fs) \<Longrightarrow> balanced (msteps (f # fs))"
proof -
  assume "balanced f" "balanced (msteps fs)"
  moreover have "msteps (f # fs) = (\<lambda>s. rbind (f s) (msteps fs))" by (rule ext) simp
  ultimately show ?thesis by (simp only: balanced_bind)
qed

lemma balanced_list: "\<forall>f\<in>set fs. balanced f \<Longrightarrow> balanced (msteps fs)"
  by (induction fs) (auto intro: balanced_Nil balanced_Cons)

lemma balanced_if [balance]: "(b \<Longrightarrow> balanced f) \<Longrightarrow> (\<not> b \<Longrightarrow> balanced g) \<Longrightarrow> balanced (if b then f else g)"
  by simp

lemma balanced_registers [balance]:
  "balanced (asm_r1 f1 a)" "balanced (asm_r2 f2 a b)" "balanced (asm_r3 f3 a b c)" "balanced (asm_r4 f4 a b c d)"
  "balanced (asm_f1 g1 x)" "balanced (asm_f2 g2 x y)" "balanced (asm_f3 g3 x y z)" "balanced (asm_fr h1 x a)" "balanced (asm_rf h2 a x)"
  unfolding asm_r1_def asm_r2_def asm_r3_def asm_r4_def asm_f1_def asm_f2_def asm_f3_def asm_fr_def asm_rf_def
  by (intro balance)+

lemma balanced_any [balance]:
  "balanced (asm_any_r f2 r b)" "balanced (asm_any_f h1 r b)" "balanced (asm_any_rr f3 r b c)" "balanced (asm_any_fr h3 r b c)"
  unfolding asm_any_r_def asm_any_f_def asm_any_rr_def asm_any_fr_def by (intro balance)+

lemma balanced_label [balance]:
  assumes "\<And>l. balanced (f l)"
  shows "balanced (with_label f)"
proof (rule balancedI)
  fix s s' assume "masm_ok s" "with_label f s = Inr s'"
  then obtain l a where "masm_ok (s\<lparr>m_asm := a\<rparr>)" "f l (s\<lparr>m_asm := a\<rparr>) = Inr s'"
    by (auto simp: with_label_def m_create_label_def masm_ok_def split: prod.splits)
  from balancedD [OF assms this(2,1)] show "masm_ok s' \<and> masm_extends s s'" by (simp add: masm_extends_def)
qed

lemma balanced_bound_label [balance]:
  assumes "\<And>l. balanced (f l)"
  shows "balanced (with_bound_label f)"
proof (rule balancedI)
  fix s s' assume "masm_ok s" "with_bound_label f s = Inr s'"
  then obtain l a where "masm_ok (s\<lparr>m_asm := a\<rparr>)" "f l (s\<lparr>m_asm := a\<rparr>) = Inr s'"
    by (auto simp: with_bound_label_def m_create_and_bind_label_def masm_ok_def rbind_eq_Inr_iff)
  from balancedD [OF assms this(2,1)] show "masm_ok s' \<and> masm_extends s s'" by (simp add: masm_extends_def)
qed

subsection \<open>Scratch registers\<close>

lemma scratch_find_free: "scratch_find v n regs = Some (ind, reg) \<Longrightarrow> \<not> bit v ind \<and> n \<le> ind \<and> ind < n + length regs \<and> reg = regs ! (ind - n)"
proof (induction v n regs rule: scratch_find.induct)
  case (2 v n reg' regs)
  have "drop_bit n v AND 1 = of_bool (bit v n)" by (simp add: and_one_eq bit_iff_odd_drop_bit mod_2_eq_odd)
  then show ?case using 2 by (auto split: if_splits simp: nth_Cons' )
qed simp

lemma take_and_free:
  assumes "\<not> bit v n" "n < 32"
  shows "(v OR push_bit n 1) AND NOT (push_bit n 1) = (v :: u32)"
proof (rule bit_word_eqI)
  fix i assume "i < LENGTH(32)"
  then show "bit ((v OR push_bit n 1) AND NOT (push_bit n 1)) i = bit v i" using assms
    by (auto simp: bit_simps)
qed

lemma scratch_get_free:
  assumes "scratch_get s = Inr (ind, reg, t)"
  shows "\<not> bit (m_scratch_value s) ind" "ind < length SCRATCH" "reg = SCRATCH ! ind"
    "t = s\<lparr>m_scratch_value := m_scratch_value s OR push_bit ind 1\<rparr>"
  using assms scratch_find_free [of "m_scratch_value s" 0 SCRATCH]
  by (auto simp: scratch_get_def Let_def split: option.splits)

lemma scratch_ends:
  assumes "masm_ok s" "scratch_get s = Inr (ind, reg, t)" "masm_ok t \<Longrightarrow> masm_ok u \<and> masm_extends t u"
  shows "masm_ok (scratch_free ind u) \<and> masm_extends s (scratch_free ind u)"
proof -
  note got = scratch_get_free [OF assms(2)]
  have ind: "ind < 32" using got(2) by (simp add: SCRATCH_def)
  have "masm_ok t" using assms(1) got(4) by (simp add: masm_ok_def)
  from assms(3) [OF this] show ?thesis
    using got(1,4) take_and_free [OF got(1) ind] by (simp add: scratch_free_def masm_ok_def masm_extends_def)
qed

lemma balanced_scratch [balance]:
  assumes "\<And>r. balanced (f r)"
  shows "balanced (with_scratch f)"
proof (rule balancedI)
  fix s s' assume ok: "masm_ok s" and run: "with_scratch f s = Inr s'"
  then obtain ind reg t u where got: "scratch_get s = Inr (ind, reg, t)" and f: "f reg t = Inr u" and s': "s' = scratch_free ind u"
    by (auto simp: with_scratch_def rbind_eq_Inr_iff)
  from scratch_ends [OF ok got] balancedD [OF assms f] show "masm_ok s' \<and> masm_extends s s'" by (auto simp: s')
qed

subsection \<open>Tables and constants\<close>

lemma table_insert_sorted:
  assumes "table_insert off x t = Inr t'" "table_sorted t"
  shows "table_sorted t' \<and> prefix t t'"
proof -
  have t': "t' = t @ [(off, x)]" "t = [] \<or> fst (last t) < off" using assms(1) by (auto simp: table_insert_def rbind_eq_Inr_iff)
  have "fst e < off" if "e \<in> set t" for e
  proof -
    have ne: "t \<noteq> []" using that by auto
    obtain i where i: "i < length t" "e = t ! i" using \<open>e \<in> set t\<close> by (auto simp: in_set_conv_nth)
    have "fst e \<le> fst (last t)"
    proof (cases "i = length t - 1")
      case False
      then have "fst (t ! i) < fst (t ! (length t - 1))"
        using sorted_wrt_nth_less [of "(<)" "map fst t" i "length t - 1"] assms(2) i by (auto simp: table_sorted_def)
      then show ?thesis using i ne by (simp add: last_conv_nth)
    next
      case True
      then show ?thesis using i ne by (simp add: last_conv_nth)
    qed
    also have "\<dots> < off" using t'(2) ne by simp
    finally show ?thesis .
  qed
  then show ?thesis using assms(2) t'(1) by (auto simp: table_sorted_def sorted_wrt_append)
qed

lemma comment_insert_sorted:
  assumes "comment_insert off x t = Inr t'" "sorted (map fst t)"
  shows "sorted (map fst t') \<and> prefix t t'"
proof -
  have t': "t' = t @ [(off, x)]" "t = [] \<or> fst (last t) \<le> off" using assms(1) by (auto simp: comment_insert_def rbind_eq_Inr_iff)
  have "fst e \<le> off" if "e \<in> set t" for e
  proof -
    have ne: "t \<noteq> []" using that by auto
    obtain i where i: "i < length t" "e = t ! i" using \<open>e \<in> set t\<close> by (auto simp: in_set_conv_nth)
    then have "fst e \<le> fst (last t)" using assms(2) ne sorted_nth_mono [of "map fst t" i "length t - 1"] by (simp add: last_conv_nth)
    also have "\<dots> \<le> off" using t'(2) ne by simp
    finally show ?thesis .
  qed
  then show ?thesis using assms(2) t'(1) by (auto simp: sorted_append)
qed

lemma balanced_tables [balance]:
  "balanced (m_emit_position p)" "balanced (m_emit_gcpoint g)" "balanced (m_emit_only_gcpoint g)"
  "balanced (m_emit_lazy_compilation_site l)" "balanced (m_emit_comment c)" "balanced (m_emit_bailout lbl trap p)"
  by (rule balancedI; auto simp: m_emit_position_def m_emit_gcpoint_def m_emit_only_gcpoint_def m_emit_lazy_compilation_site_def
      m_emit_comment_def m_emit_bailout_def rbind_eq_Inr_iff masm_ok_def masm_extends_def
      dest!: table_insert_sorted comment_insert_sorted)+

lemma balanced_moves [balance]:
  "balanced (movz_sf sf d i k)" "balanced (movn_sf sf d i k)" "balanced (movk_sf sf d i k)"
  unfolding movz_sf_def movn_sf_def movk_sf_def by (intro balance)+

lemma balanced_load_halves: "balanced (load_halves sf d imm hw flip first inds)"
proof (induction inds arbitrary: first)
  case Nil
  then show ?case by (simp add: balanced_def)
next
  case (Cons i inds)
  have "load_halves sf d imm hw flip first (i # inds) =
    (if imm_half imm i \<noteq> hw then
       (\<lambda>s. rbind ((if first then if flip then movn_sf sf d (NOT (imm_half imm i) AND 0xFFFF) (word_of_nat i)
                              else movz_sf sf d (imm_half imm i) (word_of_nat i)
                    else movk_sf sf d (imm_half imm i) (word_of_nat i)) s)
          (load_halves sf d imm hw flip False inds))
     else load_halves sf d imm hw flip first inds)"
    by (rule ext) (simp add: Let_def)
  moreover have "balanced (if first then if flip then movn_sf sf d (NOT (imm_half imm i) AND 0xFFFF) (word_of_nat i)
                              else movz_sf sf d (imm_half imm i) (word_of_nat i)
                    else movk_sf sf d (imm_half imm i) (word_of_nat i))" by (intro balance)
  ultimately show ?case using balanced_bind Cons by simp
qed

lemma balanced_load_int_const [balance]: "balanced (m_load_int_const mode dest imm)"
  unfolding m_load_int_const_def Let_def
  by (rule balancedI)
    (auto simp: rbind_eq_Inr_iff dest: balancedD [OF balanced_moves(1)] balancedD [OF balanced_moves(2)]
      balancedD [OF balanced_load_halves] split: if_splits)

subsection \<open>The methods\<close>

lemma balanced_mode [balance]:
  "balanced a \<Longrightarrow> balanced b \<Longrightarrow> balanced c \<Longrightarrow> balanced d \<Longrightarrow> balanced e \<Longrightarrow> balanced f \<Longrightarrow> balanced g \<Longrightarrow>
    balanced (case mode of ModeInt8 \<Rightarrow> a | ModeInt32 \<Rightarrow> b | ModeInt64 \<Rightarrow> c | ModeIntPtr \<Rightarrow> d | ModeFloat32 \<Rightarrow> e | ModeFloat64 \<Rightarrow> f | ModePtr \<Rightarrow> g)"
  by (cases mode) simp_all

lemma balanced_mem [balance]:
  "(\<And>off. balanced (f off)) \<Longrightarrow> (\<And>r d. balanced (g r d)) \<Longrightarrow> (\<And>a b c d. balanced (h a b c d)) \<Longrightarrow> (\<And>a b c. balanced (k a b c)) \<Longrightarrow>
    balanced (case mem of Local off \<Rightarrow> f off | Base r d \<Rightarrow> g r d | Index a b c d \<Rightarrow> h a b c d | Offset a b c \<Rightarrow> k a b c)"
  by (cases mem) simp_all

lemma balanced_prod [balance]: "(\<And>x y. balanced (f x y)) \<Longrightarrow> balanced (case p of (x, y) \<Rightarrow> f x y)"
  by (cases p) simp

lemma balanced_map [balance]: "(\<And>x. balanced (f x)) \<Longrightarrow> balanced (msteps (map f xs))"
  by (rule balanced_list) auto

lemma balanced_test_nil [balance]:
  assumes "\<And>l. balanced (k l)"
  shows "balanced (m_test_if_nil r1 k)" "balanced (m_test_if_not_nil r1 k)"
  unfolding m_test_if_nil_def m_test_if_not_nil_def m_cmp_zero_def m_jump_if_def by (intro balance assms)+

lemma balanced_pool:
  assumes "cp_add_value v (m_constpool s) = Inr (d, p)" "masm_ok s"
  shows "masm_ok (s\<lparr>m_constpool := p\<rparr>)" "masm_extends s (s\<lparr>m_constpool := p\<rparr>)"
proof -
  have reach: "pool_reach (m_constpool s)" using assms(2) by (simp add: masm_ok_def)
  show "masm_ok (s\<lparr>m_constpool := p\<rparr>)" using pool_reach.add [OF reach assms(1)] assms(2) by (simp add: masm_ok_def)
  show "masm_extends s (s\<lparr>m_constpool := p\<rparr>)"
    using cp_ok_add(2) [OF pool_reach_ok [OF reach] assms(1)] by (simp add: masm_extends_def)
qed

lemma balanced_methods_1_1 [balance]:
  "balanced (m_bind_label lbl)" "balanced (m_emit_u64 v1)" "balanced (m_cmp_reg mode r1 r2)"
  "balanced (m_cmp_zero mode r1)" "balanced (m_jump_if cc lbl)" "balanced (m_jump lbl)"
  "balanced (m_jump_reg r1)" "balanced (m_set r1 cc)"
  unfolding m_bind_label_def m_emit_u64_def m_cmp_reg_def m_cmp_zero_def m_jump_if_def m_jump_def m_jump_reg_def m_set_def Let_def
  by (intro balance)+

lemma balanced_methods_1_2 [balance]:
  "balanced (m_int_add mode r1 r2 r3)" "balanced (m_int_add_checked mode r1 r2 r3 pos)" "balanced (m_int_sub mode r1 r2 r3)"
  "balanced (m_int_sub_checked mode r1 r2 r3 pos)" "balanced (m_int_mul mode r1 r2 r3)" "balanced (m_int_mul_checked mode r1 r2 r3 pos)"
  "balanced (m_int_shl mode r1 r2 r3)" "balanced (m_int_shr mode r1 r2 r3)"
  unfolding m_int_add_def m_int_add_checked_def m_int_sub_def m_int_sub_checked_def m_int_mul_def m_int_mul_checked_def m_int_shl_def m_int_shr_def Let_def
  by (intro balance)+

lemma balanced_methods_1_3 [balance]:
  "balanced (m_int_sar mode r1 r2 r3)" "balanced (m_int_rol mode r1 r2 r3)" "balanced (m_int_ror mode r1 r2 r3)"
  "balanced (m_int_or mode r1 r2 r3)" "balanced (m_int_and mode r1 r2 r3)" "balanced (m_int_xor mode r1 r2 r3)"
  "balanced (m_int_neg mode r1 r2)" "balanced (m_int_not mode r1 r2)"
  unfolding m_int_sar_def m_int_rol_def m_int_ror_def m_int_or_def m_int_and_def m_int_xor_def m_int_neg_def m_int_not_def Let_def
  by (intro balance)+

lemma balanced_methods_1_4 [balance]:
  "balanced (m_bool_not r1 r2)" "balanced (m_cmp_int mode r1 r2 r3)" "balanced (m_int_to_float mode1 f1 mode2 r1)"
  "balanced (m_float_to_int mode1 r1 mode2 f1)" "balanced (m_float32_to_float64 f1 f2)" "balanced (m_float64_to_float32 f1 f2)"
  "balanced (m_int_as_float mode1 f1 mode2 r1)" "balanced (m_float_as_int mode1 r1 mode2 f1)"
  unfolding m_bool_not_def m_cmp_int_def m_int_to_float_def m_float_to_int_def m_float32_to_float64_def m_float64_to_float32_def m_int_as_float_def m_float_as_int_def Let_def
  by (intro balance)+

lemma balanced_methods_1_5 [balance]:
  "balanced (m_float_add mode f1 f2 f3)" "balanced (m_float_sub mode f1 f2 f3)" "balanced (m_float_mul mode f1 f2 f3)"
  "balanced (m_float_div mode f1 f2 f3)" "balanced (m_float_abs mode f1 f2)" "balanced (m_float_neg mode f1 f2)"
  "balanced (m_float_round_tozero mode f1 f2)" "balanced (m_float_round_up mode f1 f2)"
  unfolding m_float_add_def m_float_sub_def m_float_mul_def m_float_div_def m_float_abs_def m_float_neg_def m_float_round_tozero_def m_float_round_up_def Let_def
  by (intro balance)+

lemma balanced_methods_1_6 [balance]:
  "balanced (m_float_round_down mode f1 f2)" "balanced (m_float_round_halfeven mode f1 f2)" "balanced (m_float_sqrt mode f1 f2)"
  "balanced (m_float_cmp_int mode r1 f1 f2)" "balanced (m_float_cmp mode r1 f1 f2 cc)" "balanced (m_float_cmp_nan mode r1 f1)"
  "balanced (m_common_load_base_with_offset mode a1 r1 i1)" "balanced (m_common_store_base_with_offset mode a1 r1 i1)"
  unfolding m_float_round_down_def m_float_round_halfeven_def m_float_sqrt_def m_float_cmp_int_def m_float_cmp_def m_float_cmp_nan_def m_common_load_base_with_offset_def m_common_store_base_with_offset_def Let_def
  by (intro balance)+

lemma balanced_methods_1_7 [balance]:
  "balanced (m_lea r1 mem)" "balanced (m_emit_barrier r1 n1)" "balanced (m_copy_reg mode r1 r2)"
  "balanced (m_copy_sp r1)" "balanced (m_set_sp r1)" "balanced (m_copy_pc r1)"
  "balanced (m_copy_freg mode f1 f2)" "balanced (m_extend_int_long r1 r2)"
  unfolding m_lea_def m_emit_barrier_def m_copy_reg_def m_copy_sp_def m_set_sp_def m_copy_pc_def m_copy_freg_def m_extend_int_long_def Let_def
  by (intro balance)+

lemma balanced_methods_1_8 [balance]:
  "balanced (m_extend_byte mode r1 r2)" "balanced (m_load_nil r1)" "balanced (m_load_true r1)"
  "balanced (m_load_false r1)" "balanced (m_determine_array_size r1 r2 i1 b1)" "balanced (m_array_address r1 r2 r3 i1)"
  "balanced (m_load_int32_synchronized r1 r2)" "balanced (m_store_int32_synchronized r1 r2)"
  unfolding m_extend_byte_def m_load_nil_def m_load_true_def m_load_false_def m_determine_array_size_def m_array_address_def m_load_int32_synchronized_def m_store_int32_synchronized_def Let_def
  by (intro balance)+

lemma balanced_methods_1_9 [balance]:
  "balanced (m_exchange_int32_synchronized b1 r1 r2 r3)" "balanced (m_fetch_add_int32_synchronized b1 r1 r2 r3)" "balanced (m_load_int64_synchronized r1 r2)"
  "balanced (m_store_int64_synchronized r1 r2)" "balanced (m_exchange_int64_synchronized b1 r1 r2 r3)" "balanced (m_fetch_add_int64_synchronized b1 r1 r2 r3)"
  "balanced (m_prolog i1)" "balanced (m_safepoint w1 lbl)"
  unfolding m_exchange_int32_synchronized_def m_fetch_add_int32_synchronized_def m_load_int64_synchronized_def m_store_int64_synchronized_def m_exchange_int64_synchronized_def m_fetch_add_int64_synchronized_def m_prolog_def m_safepoint_def Let_def
  by (intro balance)+

lemma balanced_methods_1_10 [balance]:
  "balanced m_epilog_without_return" "balanced (m_increase_stack_frame i1)" "balanced (m_decrease_stack_frame i1)"
  "balanced (m_call_reg r1)" "balanced m_debug" "balanced m_nop"
  unfolding m_epilog_without_return_def m_increase_stack_frame_def m_decrease_stack_frame_def m_call_reg_def m_debug_def m_nop_def Let_def
  by (intro balance)+

lemma balanced_methods_2_1 [balance]:
  "balanced (m_emit_u32 w1)" "balanced (m_cmp_reg_imm mode r1 i1)" "balanced (m_test_and_jump_if cc r1 lbl)"
  "balanced (m_test_if_nil_bailout pos r1 trap)" "balanced (m_bailout_if cc trap pos)" "balanced (m_int_add_imm mode r1 r2 i1)"
  "balanced (m_divmod_common mode r1 r2 r3 pos b1)" "balanced (m_count_bits mode r1 r2 b1)"
  unfolding m_emit_u32_def m_cmp_reg_imm_def m_test_and_jump_if_def m_test_if_nil_bailout_def m_bailout_if_def m_int_add_imm_def m_divmod_common_def m_count_bits_def Let_def
  by (intro balance)+

lemma balanced_methods_2_2 [balance]:
  "balanced (m_count_bits_leading mode r1 r2 b1)" "balanced (m_count_bits_trailing mode r1 r2 b1)" "balanced (m_load_mem mode a1 mem)"
  "balanced (m_store_mem mode mem a1)" "balanced (m_copy_ra r1)" "balanced (m_copy mode a1 a2)"
  "balanced (m_check_stack_pointer w1 lbl)" "balanced m_epilog"
  unfolding m_count_bits_leading_def m_count_bits_trailing_def m_load_mem_def m_store_mem_def m_copy_ra_def m_copy_def m_check_stack_pointer_def m_epilog_def Let_def
  by (intro balance)+

lemma balanced_methods_3_1 [balance]:
  "balanced (m_emit_u8 byte)" "balanced (m_int_div mode r1 r2 r3 pos)" "balanced (m_int_mod mode r1 r2 r3 pos)"
  "balanced (m_store_zero mode mem)" "balanced (m_cmp_mem mode mem r1)" "balanced (m_cmp_mem_imm mode mem i1)"
  "balanced (m_load_array_elem mode a1 r1 r2)" "balanced (m_load_constpool r1 i1)"
  unfolding m_emit_u8_def m_int_div_def m_int_mod_def m_store_zero_def m_cmp_mem_def m_cmp_mem_imm_def m_load_array_elem_def m_load_constpool_def Let_def
  by (intro balance)+

lemma balanced_methods_3_2 [balance]:
  "balanced (m_check_index_out_of_bounds pos r1 r2)" "balanced (m_virtual_call pos w1 w2 site)" "balanced (m_fill_zero_dynamic r1 r2)"
  unfolding m_check_index_out_of_bounds_def m_virtual_call_def m_fill_zero_dynamic_def Let_def
  by (intro balance)+

lemma balanced_raw_call [balance]: "balanced (m_raw_call ptr)"
proof (rule balancedI)
  fix s s' assume ok: "masm_ok s" and run: "m_raw_call ptr s = Inr s'"
  obtain d p where p: "cp_add_value (CPtr ptr) (m_constpool s) = Inr (d, p)"
    and rest: "with_scratch (\<lambda>scratch. mwith (checked_i32 (d + m_pos_i32 (s\<lparr>m_constpool := p\<rparr>))) (\<lambda>d.
       msteps [m_load_constpool scratch d, asm_r1 a64_bl_r scratch])) (s\<lparr>m_constpool := p\<rparr>) = Inr s'"
    using run by (auto simp: m_raw_call_def m_add_addr_def cp_add_addr_def rbind_eq_Inr_iff)
  have "balanced (with_scratch (\<lambda>scratch. mwith (checked_i32 (d + m_pos_i32 (s\<lparr>m_constpool := p\<rparr>))) (\<lambda>d.
       msteps [m_load_constpool scratch d, asm_r1 a64_bl_r scratch])))"
    by (intro balance)
  from balancedD [OF this rest balanced_pool(1) [OF p ok]] show "masm_ok s' \<and> masm_extends s s'"
    using balanced_pool(2) [OF p ok] masm_extends_trans by blast
qed

lemma balanced_site [balance]:
  "balanced (\<lambda>s. rbind (checked_i32 (d + m_pos_i32 s)) (\<lambda>d. m_emit_lazy_compilation_site (LazyDirect fct_id d tparams) s))"
  by (rule balancedI) (auto simp: rbind_eq_Inr_iff dest: balancedD [OF balanced_tables(4)])

lemma balanced_direct_call [balance]: "balanced (m_direct_call fct_id ptr tparams)"
proof (rule balancedI)
  fix s s' assume ok: "masm_ok s" and run: "m_direct_call fct_id ptr tparams s = Inr s'"
  obtain d p where p: "cp_add_value (CPtr ptr) (m_constpool s) = Inr (d, p)"
    and rest: "with_scratch (\<lambda>scratch. mwith (checked_i32 (d + m_pos_i32 (s\<lparr>m_constpool := p\<rparr>))) (\<lambda>e.
       msteps [m_load_constpool scratch e, asm_r1 a64_bl_r scratch,
         (\<lambda>s. rbind (checked_i32 (d + m_pos_i32 s)) (\<lambda>d. m_emit_lazy_compilation_site (LazyDirect fct_id d tparams) s))]))
       (s\<lparr>m_constpool := p\<rparr>) = Inr s'"
    using run by (auto simp: m_direct_call_def m_add_addr_def cp_add_addr_def rbind_eq_Inr_iff)
  have "balanced (with_scratch (\<lambda>scratch. mwith (checked_i32 (d + m_pos_i32 (s\<lparr>m_constpool := p\<rparr>))) (\<lambda>e.
       msteps [m_load_constpool scratch e, asm_r1 a64_bl_r scratch,
         (\<lambda>s. rbind (checked_i32 (d + m_pos_i32 s)) (\<lambda>d. m_emit_lazy_compilation_site (LazyDirect fct_id d tparams) s))])))"
    by (intro balance)
  from balancedD [OF this rest balanced_pool(1) [OF p ok]] show "masm_ok s' \<and> masm_extends s s'"
    using balanced_pool(2) [OF p ok] masm_extends_trans by blast
qed

lemma balanced_load_float_const [balance]: "balanced (m_load_float_const f32_of mode dest imm)"
proof (rule balancedI)
  fix s s' assume ok: "masm_ok s" and run: "m_load_float_const f32_of mode dest imm s = Inr s'"
  obtain v off p where p: "cp_add_value v (m_constpool s) = Inr (off, p)"
    and rest: "(\<lambda>s. rbind (checked_i32 (off + m_pos_i32 s)) (\<lambda>disp.
     with_scratch (\<lambda>scratch. mwith (checked_i32 (- disp)) (\<lambda>d. msteps
       [asm_r1 (\<lambda>r. a64_adr_imm r d) scratch,
        m_load_mem mode (AnyFReg dest) (Base scratch 0)])) s)) (s\<lparr>m_constpool := p\<rparr>) = Inr s'"
    using run by (auto simp: m_load_float_const_def cp_add_f32_def cp_add_f64_def Let_def rbind_eq_Inr_iff split: machine_mode.splits)
  have inner: "balanced (with_scratch (\<lambda>scratch. mwith (checked_i32 (- disp)) (\<lambda>d. msteps
       [asm_r1 (\<lambda>r. a64_adr_imm r d) scratch, m_load_mem mode (AnyFReg dest) (Base scratch 0)])))" for disp
    by (intro balance)
  from rest obtain disp where "with_scratch (\<lambda>scratch. mwith (checked_i32 (- disp)) (\<lambda>d. msteps
       [asm_r1 (\<lambda>r. a64_adr_imm r d) scratch, m_load_mem mode (AnyFReg dest) (Base scratch 0)])) (s\<lparr>m_constpool := p\<rparr>) = Inr s'"
    by (auto simp: rbind_eq_Inr_iff)
  from balancedD [OF inner this balanced_pool(1) [OF p ok]] show "masm_ok s' \<and> masm_extends s s'"
    using balanced_pool(2) [OF p ok] masm_extends_trans by blast
qed

lemma balanced_methods_4_1 [balance]:
  "balanced (m_trap v1 trap pos)" "balanced (m_fill_zero r1 b1 n1)"
  unfolding m_trap_def m_fill_zero_def Let_def
  by (intro balance)+

end
