(* ===== verification/MasmConstants.thy ===== *)
theory MasmConstants
  imports MacroAssembler Arm64Decode
begin

text \<open>
  Loading constants.  The macro assembler builds a constant from half words with \<open>movz\<close>, \<open>movn\<close> and
  \<open>movk\<close>; here the instructions are executed as the architecture defines them.
\<close>

subsection \<open>Wide moves as the processor executes them\<close>

definition half_at :: "nat \<Rightarrow> u32 \<Rightarrow> u64" where
  "half_at k h = push_bit (16 * k) (ucast h)"

definition move_result :: "u32 \<Rightarrow> nat \<Rightarrow> u32 \<Rightarrow> u64 \<Rightarrow> u64 option" where
  "move_result opc k h v =
     (if opc = 0 then Some (NOT (half_at k h))
      else if opc = 2 then Some (half_at k h)
      else if opc = 3 then Some ((v AND NOT (half_at k 0xFFFF)) OR half_at k h)
      else None)"

definition exec_move :: "u32 \<Rightarrow> (nat \<Rightarrow> u64) \<Rightarrow> (nat \<Rightarrow> u64) option" where
  "exec_move x regs =
     (case a64_decode x of
        Some (f, vs) \<Rightarrow>
          if f = ''move_wide_imm'' then
            map_option (\<lambda>v. regs(unat (vs ! 4) := if vs ! 0 = 0 then take_bit 32 v else v))
              (move_result (vs ! 1) (unat (vs ! 2)) (vs ! 3) (regs (unat (vs ! 4))))
          else None
      | None \<Rightarrow> None)"

fun exec_moves :: "u32 list \<Rightarrow> (nat \<Rightarrow> u64) \<Rightarrow> (nat \<Rightarrow> u64) option" where
  "exec_moves [] regs = Some regs"
| "exec_moves (x # xs) regs = Option.bind (exec_move x regs) (exec_moves xs)"

lemma exec_moves_append: "exec_moves (xs @ ys) regs = Option.bind (exec_moves xs regs) (exec_moves ys)"
  by (induction xs arbitrary: regs) (auto split: bind_splits)

subsection \<open>Half words\<close>

lemma bit_imm_half: "bit (imm_half v k) i \<longleftrightarrow> i < 16 \<and> bit v (16 * k + i)"
proof -
  have "imm_half v k = ucast (take_bit 16 (drop_bit (16 * k) v))"
    by (simp add: imm_half_def take_bit_eq_mask mask_eq_exp_minus_1)
  then show ?thesis by (auto simp: bit_simps)
qed

lemma bit_16_small: "h < 2 ^ 16 \<Longrightarrow> bit h i \<Longrightarrow> i < 16" for h :: u32
proof -
  assume "h < 2 ^ 16" "bit h i"
  then have "bit (take_bit 16 h) i" using less_mask_eq [of h 16] by (simp add: take_bit_eq_mask)
  then show "i < 16" by (simp add: bit_take_bit_iff)
qed

lemma imm_half_small: "imm_half v k < 2 ^ 16"
proof -
  have "imm_half v k = take_bit 16 (imm_half v k)" by (rule bit_word_eqI) (auto simp: bit_imm_half bit_simps)
  also have "\<dots> < 2 ^ 16" using and_mask_less' [of 16 "imm_half v k"] by (simp add: take_bit_eq_mask)
  finally show ?thesis .
qed

lemma halves_eqI:
  assumes "\<And>k. k < 4 \<Longrightarrow> imm_half v k = imm_half w k"
  shows "v = w"
proof (rule bit_word_eqI)
  fix i assume "i < LENGTH(64)"
  then have "i div 16 < 4" by simp
  from assms [OF this] have "bit (imm_half v (i div 16)) (i mod 16) = bit (imm_half w (i div 16)) (i mod 16)" by simp
  then show "bit v i = bit w i" by (simp add: bit_imm_half)
qed

lemma bit_half_at: "bit (half_at k h) i \<longleftrightarrow> 16 * k \<le> i \<and> i < 64 \<and> bit h (i - 16 * k)"
  by (auto simp: half_at_def bit_simps)

lemma imm_half_at:
  assumes "k < 4" "j < 4" "h < 2 ^ 16"
  shows "imm_half (half_at k h) j = (if j = k then h else 0)"
proof (rule bit_word_eqI)
  fix i assume "i < LENGTH(32)"
  have "bit (imm_half (half_at k h) j) i \<longleftrightarrow> i < 16 \<and> 16 * k \<le> 16 * j + i \<and> 16 * j + i < 64 \<and> bit h (16 * j + i - 16 * k)"
    by (simp add: bit_imm_half bit_half_at)
  also have "\<dots> \<longleftrightarrow> j = k \<and> bit h i"
  proof (cases j k rule: linorder_cases)
    case equal
    then show ?thesis using assms bit_16_small [OF assms(3), of i] by auto
  next
    case greater
    then have "16 \<le> 16 * j + i - 16 * k" by linarith
    then show ?thesis using greater bit_16_small [OF assms(3)] by fastforce
  qed auto
  finally show "bit (imm_half (half_at k h) j) i = bit (if j = k then h else 0) i" by simp
qed

lemma imm_half_ops:
  "j < 4 \<Longrightarrow> imm_half (NOT v) j = NOT (imm_half v j) AND 0xFFFF"
  "imm_half (v OR w) j = imm_half v j OR imm_half w j"
  "imm_half (v AND w) j = imm_half v j AND imm_half w j"
  "j < 4 \<Longrightarrow> imm_half (take_bit 32 v) j = (if j < 2 then imm_half v j else 0)"
proof -
  have m: "NOT x AND 0xFFFF = take_bit 16 (NOT x)" for x :: u32 by (simp add: take_bit_eq_mask mask_eq_exp_minus_1)
  show "j < 4 \<Longrightarrow> imm_half (NOT v) j = NOT (imm_half v j) AND 0xFFFF"
    unfolding m by (rule bit_word_eqI) (auto simp: bit_imm_half bit_simps)
  show "imm_half (v OR w) j = imm_half v j OR imm_half w j"
    by (rule bit_word_eqI) (auto simp: bit_imm_half bit_simps)
  show "imm_half (v AND w) j = imm_half v j AND imm_half w j"
    by (rule bit_word_eqI) (auto simp: bit_imm_half bit_simps)
  show "j < 4 \<Longrightarrow> imm_half (take_bit 32 v) j = (if j < 2 then imm_half v j else 0)"
  proof (rule bit_word_eqI)
    fix i assume "j < 4"
    show "bit (imm_half (take_bit 32 v) j) i = bit (if j < 2 then imm_half v j else 0) i"
      by (cases "j < 2") (auto simp: bit_imm_half bit_take_bit_iff)
  qed
qed

definition NOT16 :: "u32 \<Rightarrow> u32" where
  "NOT16 h = NOT h AND 0xFFFF"

lemma NOT16_props: "NOT16 h < 2 ^ 16" "h < 2 ^ 16 \<Longrightarrow> NOT16 (NOT16 h) = h" "NOT16 0 = 0xFFFF" "NOT16 0xFFFF = 0"
proof -
  have m: "NOT16 x = take_bit 16 (NOT x)" for x :: u32 by (simp add: NOT16_def take_bit_eq_mask mask_eq_exp_minus_1)
  show "NOT16 h < 2 ^ 16" using and_mask_less' [of 16 "NOT h"] by (simp add: m take_bit_eq_mask)
  show "h < 2 ^ 16 \<Longrightarrow> NOT16 (NOT16 h) = h"
    unfolding m by (rule bit_word_eqI) (auto simp: bit_simps dest: bit_16_small [simplified])
  show "NOT16 0 = 0xFFFF" "NOT16 0xFFFF = 0" by (simp_all add: NOT16_def)
qed

text \<open>The effect of the three moves on the half words of the register.\<close>

lemma move_halves:
  assumes "k < 4" "j < 4" "h < 2 ^ 16" "move_result opc k h v = Some r"
  shows "imm_half r j = (if opc = 0 then (if j = k then NOT16 h else 0xFFFF)
    else if opc = 2 then (if j = k then h else 0) else (if j = k then h else imm_half v j))"
proof -
  have at: "imm_half (half_at k h) j = (if j = k then h else 0)" "imm_half (half_at k 0xFFFF) j = (if j = k then 0xFFFF else 0)"
    using imm_half_at [OF assms(1,2)] assms(3) by simp_all
  have "x AND 0xFFFF = x" if "x < 2 ^ 16" for x :: u32
    using that less_mask_eq [of x 16] by (simp add: mask_eq_exp_minus_1)
  then have v: "imm_half v j AND 0xFFFF = imm_half v j" using imm_half_small by blast
  consider "opc = 0" "r = NOT (half_at k h)" | "opc = 2" "r = half_at k h"
    | "opc = 3" "r = v AND NOT (half_at k 0xFFFF) OR half_at k h"
    using assms(4) by (auto simp: move_result_def split: if_splits)
  then show ?thesis
  proof cases
    case 1
    then show ?thesis unfolding 1 imm_half_ops(1) [OF assms(2)] at by (simp add: NOT16_def)
  next
    case 2
    then show ?thesis unfolding 2 at by simp
  next
    case 3
    then show ?thesis unfolding 3 imm_half_ops(2,3) imm_half_ops(1) [OF assms(2)] at using v by simp
  qed
qed

subsection \<open>Counting half words\<close>

lemma half_zero: "imm_half v k = 0 \<longleftrightarrow> drop_bit (16 * k) v AND 0xFFFF = 0"
proof -
  have m: "drop_bit (16 * k) v AND 0xFFFF = take_bit 16 (drop_bit (16 * k) v)"
    by (simp add: take_bit_eq_mask mask_eq_exp_minus_1)
  show ?thesis unfolding m
    by (auto simp: bit_eq_iff bit_imm_half bit_simps)
qed

lemma count_empty_halves:
  "count_empty_from n (drop_bit (16 * k) v) = length (filter (\<lambda>j. imm_half v j = 0) [k..<k + n])"
proof (induction n arbitrary: k)
  case (Suc n)
  have "drop_bit 16 (drop_bit (16 * k) v) = drop_bit (16 * Suc k) v" by (simp add: drop_bit_drop_bit add.commute)
  moreover have "[k..<k + Suc n] = k # [Suc k..<Suc k + n]" by (simp add: upt_conv_Cons del: upt_Suc)
  ultimately show ?case using Suc.IH [of "Suc k"] by (simp add: half_zero del: upt_Suc)
qed simp

lemma shift_movz_halves:
  "k \<le> 4 \<Longrightarrow> (\<forall>j<k. imm_half v j = 0) \<Longrightarrow>
    let t = shift_movz_from k (4 - k) (drop_bit (16 * k) v)
    in (t < 4 \<and> imm_half v t \<noteq> 0 \<and> (\<forall>j<t. imm_half v j = 0)) \<or> (t = 0 \<and> (\<forall>j<4. imm_half v j = 0))"
proof (induction "4 - k" arbitrary: k)
  case 0
  then show ?case by simp
next
  case (Suc n)
  then have k: "k < 4" "4 - k = Suc (4 - Suc k)" by simp_all
  have shift: "drop_bit 16 (drop_bit (16 * k) v) = drop_bit (16 * Suc k) v" by (simp add: drop_bit_drop_bit add.commute)
  show ?case
  proof (cases "imm_half v k = 0")
    case True
    then have "\<forall>j<Suc k. imm_half v j = 0" using Suc.prems(2) by (auto simp: less_Suc_eq)
    then show ?thesis using Suc.hyps(1) [of "Suc k"] Suc.hyps(2) k True
      by (simp add: k(2) half_zero shift del: shift_movz_from.simps) (simp add: half_zero shift)
  next
    case False
    then show ?thesis using Suc.prems k by (simp add: k(2) half_zero)
  qed
qed

lemma shift_movz_first:
  "shift_movz v < 4"
  "imm_half v (shift_movz v) \<noteq> 0 \<and> (\<forall>j < shift_movz v. imm_half v j = 0) \<or> shift_movz v = 0 \<and> (\<forall>j<4. imm_half v j = 0)"
  using shift_movz_halves [of 0 v] by (auto simp: shift_movz_def Let_def)

text \<open>At most one half word is not empty.\<close>

lemma fits_movz_halves:
  assumes "rs = 16 * m" "m = 2 \<or> m = 4" "fits_movz v rs = Inr True" "shift_movz v < m"
  shows "\<forall>j<m. j \<noteq> shift_movz v \<longrightarrow> imm_half v j = 0"
proof (intro allI impI, rule ccontr)
  fix j assume j: "j < m" "j \<noteq> shift_movz v" "imm_half v j \<noteq> 0"
  have t: "imm_half v (shift_movz v) \<noteq> 0" using shift_movz_first [of v] j assms(2) by auto
  have "m - 1 \<le> length (filter (\<lambda>j. imm_half v j = 0) [0..<m])"
    using assms(1-3) count_empty_halves [of m 0 v] by (auto simp: fits_movz_def count_empty_half_words_def)
  also have "\<dots> = card {i. i < m \<and> imm_half v i = 0}" by (subst distinct_length_filter) (auto intro!: arg_cong [where f = card])
  also have "\<dots> \<le> card ({0..<m} - {j, shift_movz v})" using j t by (intro card_mono) auto
  also have "\<dots> = m - 2" using j assms(4) by (subst card_Diff_subset) auto
  finally show False using assms(2) by auto
qed

subsection \<open>Emitting moves\<close>

definition m_at_end :: "masm \<Rightarrow> bool" where
  "m_at_end s \<longleftrightarrow> ab_position (asm_buffer (m_asm s)) = length (ab_code (asm_buffer (m_asm s)))"

definition m_append :: "u32 list \<Rightarrow> masm \<Rightarrow> masm" where
  "m_append ws s = s\<lparr>m_asm := (m_asm s)\<lparr>asm_buffer := (asm_buffer (m_asm s))
     \<lparr>ab_code := ab_code (asm_buffer (m_asm s)) @ concat (map u32_bytes ws),
      ab_position := ab_position (asm_buffer (m_asm s)) + 4 * length ws\<rparr>\<rparr>\<rparr>"

lemma m_append_simps [simp]: "m_append [] s = s" "m_append ws (m_append vs s) = m_append (vs @ ws) s"
  "m_at_end s \<Longrightarrow> m_at_end (m_append ws s)"
proof -
  show "m_append [] s = s" by (simp add: m_append_def)
  show "m_append ws (m_append vs s) = m_append (vs @ ws) s" by (simp add: m_append_def)
  have "length (concat (map u32_bytes ws)) = 4 * length ws" by (induction ws) simp_all
  then show "m_at_end s \<Longrightarrow> m_at_end (m_append ws s)" by (simp add: m_append_def m_at_end_def)
qed

lemma asm_emit_append: "m_at_end s \<Longrightarrow> asm_op (a64_emit (Inr w)) s = Inr (m_append [w] s)"
  by (simp add: asm_op_def a64_emit_def a64_emit_u32_def with_buffer_def buf_emit_u32_def buf_write_def m_at_end_def m_append_def)

definition move_ok :: "u32 \<Rightarrow> nat \<Rightarrow> u32 \<Rightarrow> bool" where
  "move_ok sf k h \<longleftrightarrow> (sf = 1 \<and> k < 4 \<or> sf = 0 \<and> k < 2) \<and> h < 2 ^ 16"

definition sf_clip :: "u32 \<Rightarrow> u64 \<Rightarrow> u64" where
  "sf_clip sf v = (if sf = 0 then take_bit 32 v else v)"

lemma move_wide_encodes:
  assumes "move_ok sf k h" "opc = 0 \<or> opc = 2 \<or> opc = 3" "n < 31"
  shows "\<exists>w. cls_move_wide_imm sf opc (word_of_nat k) h (Register n) = Inr w
    \<and> (\<forall>regs. exec_move w regs
        = map_option (\<lambda>v. regs(unat n := sf_clip sf v)) (move_result opc k h (regs (unat n))))"
proof -
  have k: "k < 4" "unat (word_of_nat k :: u32) = k" using assms(1) by (auto simp: move_ok_def unat_of_nat)
  have gpr: "is_gpr (Register n)" using assms(3) by (simp add: is_gpr_def word_le_nat_alt word_less_nat_alt)
  have "(word_of_nat k :: u32) < 4" "sf = 0 \<Longrightarrow> (word_of_nat k :: u32) < 2"
    using assms(1) k by (auto simp: move_ok_def word_less_nat_alt)
  then have "\<exists>w. cls_move_wide_imm sf opc (word_of_nat k) h (Register n) = Inr w"
    using assms gpr by (auto simp: cls_move_wide_imm_def rassert_Inr fits_defs move_ok_def encoding_field)
  then obtain w where w: "cls_move_wide_imm sf opc (word_of_nat k) h (Register n) = Inr w" by blast
  have "reg_field (Register n) = ucast n" using gpr by (simp add: reg_field_def)
  then have "unat (reg_field (Register n)) = unat n" using unat_u8_less [of n] by (simp add: unsigned_ucast_eq take_bit_nat_eq_self)
  then show ?thesis using w move_wide_imm_decodes [OF w] k by (auto simp: exec_move_def sf_clip_def)
qed

lemma move_emits:
  assumes "move_ok sf k h" "n < 31" "m_at_end s"
  shows "\<exists>w. movn_sf sf (Reg n) h (word_of_nat k) s = Inr (m_append [w] s)
      \<and> (\<forall>regs. exec_move w regs = map_option (\<lambda>v. regs(unat n := sf_clip sf v)) (move_result 0 k h (regs (unat n))))"
    and "\<exists>w. movz_sf sf (Reg n) h (word_of_nat k) s = Inr (m_append [w] s)
      \<and> (\<forall>regs. exec_move w regs = map_option (\<lambda>v. regs(unat n := sf_clip sf v)) (move_result 2 k h (regs (unat n))))"
    and "\<exists>w. movk_sf sf (Reg n) h (word_of_nat k) s = Inr (m_append [w] s)
      \<and> (\<forall>regs. exec_move w regs = map_option (\<lambda>v. regs(unat n := sf_clip sf v)) (move_result 3 k h (regs (unat n))))"
proof -
  have into: "reg_into (Reg n) = Inr (Register n)" using assms(2) by (simp add: reg_into_def register_new_def)
  have sf: "sf = 0 \<or> sf = 1" using assms(1) by (auto simp: move_ok_def)
  note defs = asm_r1_def mwith_def into asm_emit_append [OF assms(3)]
  from move_wide_encodes [OF assms(1) _ assms(2), of 0] sf
  show "\<exists>w. movn_sf sf (Reg n) h (word_of_nat k) s = Inr (m_append [w] s)
      \<and> (\<forall>regs. exec_move w regs = map_option (\<lambda>v. regs(unat n := sf_clip sf v)) (move_result 0 k h (regs (unat n))))"
    by (auto simp: movn_sf_def a64_movn_def a64_movn_w_def defs)
  from move_wide_encodes [OF assms(1) _ assms(2), of 2] sf
  show "\<exists>w. movz_sf sf (Reg n) h (word_of_nat k) s = Inr (m_append [w] s)
      \<and> (\<forall>regs. exec_move w regs = map_option (\<lambda>v. regs(unat n := sf_clip sf v)) (move_result 2 k h (regs (unat n))))"
    by (auto simp: movz_sf_def a64_movz_def a64_movz_w_def defs)
  from move_wide_encodes [OF assms(1) _ assms(2), of 3] sf
  show "\<exists>w. movk_sf sf (Reg n) h (word_of_nat k) s = Inr (m_append [w] s)
      \<and> (\<forall>regs. exec_move w regs = map_option (\<lambda>v. regs(unat n := sf_clip sf v)) (move_result 3 k h (regs (unat n))))"
    by (auto simp: movk_sf_def a64_movk_def a64_movk_w_def defs)
qed

text \<open>The halves of a register that count, and what has been loaded of a constant.\<close>

definition sf_halves :: "u32 \<Rightarrow> nat" where
  "sf_halves sf = (if sf = 0 then 2 else 4)"

lemma clip_halves: "j < 4 \<Longrightarrow> imm_half (sf_clip sf v) j = (if j < sf_halves sf then imm_half v j else 0)"
  by (simp add: sf_clip_def sf_halves_def imm_half_ops)

lemma clip_eqI:
  assumes "\<And>j. j < sf_halves sf \<Longrightarrow> imm_half v j = imm_half w j"
  shows "sf_clip sf v = sf_clip sf w"
  by (rule halves_eqI) (simp add: clip_halves assms)

definition loads :: "u32 list \<Rightarrow> nat \<Rightarrow> u64 \<Rightarrow> bool" where
  "loads ws n v \<longleftrightarrow> (\<forall>regs. exec_moves ws regs = Some (regs(n := v)))"

lemma load_one:
  assumes "move_ok sf k h" "n < 31" "m_at_end s"
  shows "\<exists>w. movz_sf sf (Reg n) h (word_of_nat k) s = Inr (m_append [w] s) \<and> loads [w] (unat n) (sf_clip sf (half_at k h))"
    and "\<exists>w. movn_sf sf (Reg n) h (word_of_nat k) s = Inr (m_append [w] s) \<and> loads [w] (unat n) (sf_clip sf (NOT (half_at k h)))"
  using move_emits [OF assms] by (auto simp: loads_def move_result_def)

lemma load_next:
  assumes "move_ok sf k h" "n < 31" "m_at_end s" "loads ws (unat n) v"
  shows "\<exists>w. movk_sf sf (Reg n) h (word_of_nat k) s = Inr (m_append [w] s)
    \<and> loads (ws @ [w]) (unat n) (sf_clip sf ((v AND NOT (half_at k 0xFFFF)) OR half_at k h))"
  using move_emits(3) [OF assms(1-3)] assms(4) by (auto simp: loads_def move_result_def exec_moves_append)

lemma load_halves_next:
  assumes "n < 31" "m_at_end s" "sf = 0 \<or> sf = 1" "m = sf_halves sf" "i \<le> m" "loads ws (unat n) (sf_clip sf v)"
    and "\<forall>j<m. imm_half v j = (if j < i then imm_half imm j else hw)"
  shows "\<exists>vs. load_halves sf (Reg n) imm hw iv False [i..<m] s = Inr (m_append vs s) \<and> loads (ws @ vs) (unat n) (sf_clip sf imm)"
  using assms(2,5-)
proof (induction "m - i" arbitrary: i s ws v)
  case 0
  then have "sf_clip sf v = sf_clip sf imm" using assms(4) by (intro clip_eqI) simp
  then show ?case using 0 by (intro exI [of _ "[]"]) simp
next
  case (Suc d)
  then have i: "i < m" and upt: "[i..<m] = i # [Suc i..<m]" and d: "d = m - Suc i" by (simp_all add: upt_conv_Cons)
  show ?case
  proof (cases "imm_half imm i = hw")
    case True
    then have "\<forall>j<m. imm_half v j = (if j < Suc i then imm_half imm j else hw)" using Suc.prems(4) by (auto simp: less_Suc_eq)
    then show ?thesis using Suc.hyps(1) [of "Suc i" s ws v] d Suc.prems i True by (simp add: upt Let_def)
  next
    case False
    let ?h = "imm_half imm i"
    have m4: "m \<le> 4" "i < 4" using assms(4) i by (auto simp: sf_halves_def split: if_splits)
    have ok: "move_ok sf i ?h" using assms(3,4) i imm_half_small [of imm i] by (auto simp: move_ok_def sf_halves_def split: if_splits)
    let ?u = "(sf_clip sf v AND NOT (half_at i 0xFFFF)) OR half_at i ?h"
    from load_next [OF ok assms(1) Suc.prems(1,3)] obtain w
      where w: "movk_sf sf (Reg n) ?h (word_of_nat i) s = Inr (m_append [w] s)" "loads (ws @ [w]) (unat n) (sf_clip sf ?u)" by blast
    have "imm_half ?u j = (if j < Suc i then imm_half imm j else hw)" if "j < m" for j
      using move_halves [of i j ?h 3 "sf_clip sf v" ?u] that m4 Suc.prems(4) imm_half_small [of imm i] assms(4)
      by (auto simp: move_result_def clip_halves)
    then obtain vs where "load_halves sf (Reg n) imm hw iv False [Suc i..<m] (m_append [w] s) = Inr (m_append vs (m_append [w] s))"
      "loads ((ws @ [w]) @ vs) (unat n) (sf_clip sf imm)"
      using Suc.hyps(1) [of "Suc i" "m_append [w] s" "ws @ [w]" ?u, OF d] Suc.prems(1) i w(2) by fastforce
    then show ?thesis using w(1) False by (intro exI [of _ "w # vs"]) (simp add: upt Let_def)
  qed
qed

lemma load_halves_first:
  assumes "n < 31" "m_at_end s" "sf = 0 \<or> sf = 1" "m = sf_halves sf" "hw = (if iv then 0xFFFF else 0)" "i \<le> m"
    and "\<forall>j<i. imm_half imm j = hw" "\<exists>j<m. imm_half imm j \<noteq> hw"
  shows "\<exists>vs. load_halves sf (Reg n) imm hw iv True [i..<m] s = Inr (m_append vs s) \<and> loads vs (unat n) (sf_clip sf imm)"
  using assms(6-)
proof (induction "m - i" arbitrary: i)
  case 0
  then show ?case by auto
next
  case (Suc d)
  then have i: "i < m" and upt: "[i..<m] = i # [Suc i..<m]" and d: "d = m - Suc i" by (simp_all add: upt_conv_Cons)
  show ?case
  proof (cases "imm_half imm i = hw")
    case True
    then have "\<forall>j<Suc i. imm_half imm j = hw" using Suc.prems(2) by (auto simp: less_Suc_eq)
    then show ?thesis using Suc.hyps(1) [of "Suc i"] d Suc.prems(3) i True by (simp add: upt Let_def)
  next
    case False
    let ?h = "imm_half imm i"
    have m4: "m \<le> 4" "i < 4" using assms(4) i by (auto simp: sf_halves_def split: if_splits)
    have ok: "move_ok sf i ?h" "move_ok sf i (NOT16 ?h)"
      using assms(3,4) i imm_half_small [of imm i] NOT16_props(1)
      by (auto simp: move_ok_def sf_halves_def split: if_splits)
    let ?u = "if iv then NOT (half_at i (NOT16 ?h)) else half_at i ?h"
    obtain w where w: "(if iv then movn_sf sf (Reg n) (NOT16 ?h) (word_of_nat i) s else movz_sf sf (Reg n) ?h (word_of_nat i) s)
        = Inr (m_append [w] s)" "loads [w] (unat n) (sf_clip sf ?u)"
      using load_one(1) [OF ok(1) assms(1,2)] load_one(2) [OF ok(2) assms(1,2)] by (cases iv) auto
    have "imm_half ?u j = (if j < Suc i then imm_half imm j else hw)" if "j < m" for j
      using move_halves [of i j "NOT16 ?h" 0 0 ?u] move_halves [of i j ?h 2 0 ?u] that m4 Suc.prems(2)
        imm_half_small [of imm i] NOT16_props(1,2) [of ?h] assms(5)
      by (auto simp: move_result_def less_Suc_eq)
    then obtain vs where "load_halves sf (Reg n) imm hw iv False [Suc i..<m] (m_append [w] s) = Inr (m_append vs (m_append [w] s))"
      "loads ([w] @ vs) (unat n) (sf_clip sf imm)"
      using load_halves_next [of n "m_append [w] s" sf m "Suc i" "[w]" ?u imm hw iv] assms(1-4) i w(2) by auto
    then show ?thesis using w(1) False by (intro exI [of _ "w # vs"]) (cases iv; simp add: upt Let_def NOT16_def)
  qed
qed

lemma load_int_const_halves:
  assumes "n < 31" "m_at_end s" "size_flag mode = Inr sf" "v = word_of_int imm"
    and low: "shift_movz v < sf_halves sf" "shift_movn v < sf_halves sf"
  shows "\<exists>ws. m_load_int_const mode (Reg n) imm s = Inr (m_append ws s) \<and> loads ws (unat n) (sf_clip sf v)"
proof -
  let ?m = "sf_halves sf"
  have sf: "sf = 0 \<or> sf = 1" "register_bits mode = Inr (16 * ?m)" "?m = 2 \<or> ?m = 4"
    using assms(3) by (cases mode; simp add: size_flag_def register_bits_def sf_halves_def; fail)+
  have counts: "count_empty_half_words x (16 * ?m) = Inr (length (filter (\<lambda>j. imm_half x j = 0) [0..<?m]))" for x
    using sf(3) count_empty_halves [of ?m 0 x] by (auto simp: count_empty_half_words_def)
  have flip: "imm_half (NOT v) j = NOT16 (imm_half v j)" if "j < ?m" for j
    using that sf(3) imm_half_ops(1) [of j v] by (auto simp: NOT16_def)
  consider (z) "fits_movz v (16 * ?m) = Inr True"
    | (n) "fits_movz v (16 * ?m) = Inr False" "fits_movn v (16 * ?m) = Inr True"
    | (many) "fits_movz v (16 * ?m) = Inr False" "fits_movn v (16 * ?m) = Inr False"
    using sf(3) by (auto simp: fits_movz_def fits_movn_def counts)
  then show ?thesis
  proof cases
    case z
    let ?k = "shift_movz v"
    have ok: "move_ok sf ?k (imm_half v ?k)" using low(1) sf imm_half_small by (auto simp: move_ok_def sf_halves_def split: if_splits)
    have "sf_clip sf (half_at ?k (imm_half v ?k)) = sf_clip sf v"
      using fits_movz_halves [OF refl sf(3) z low(1)] low(1) sf(3) imm_half_small [of v ?k]
      by (intro clip_eqI) (subst imm_half_at, auto)
    then show ?thesis using load_one(1) [OF ok assms(1,2)] z sf(2) assms(3,4)
      by (auto simp: m_load_int_const_def Let_def)
  next
    case n
    let ?k = "shift_movn v"
    have ok: "move_ok sf ?k (imm_half (NOT v) ?k)"
      using low(2) sf imm_half_small by (auto simp: move_ok_def sf_halves_def split: if_splits)
    have zero: "\<forall>j<?m. j \<noteq> ?k \<longrightarrow> imm_half (NOT v) j = 0"
      using fits_movz_halves [OF refl sf(3), of "NOT v"] n(2) low(2) by (simp add: fits_movn_def shift_movn_def)
    have "imm_half (NOT (half_at ?k (imm_half (NOT v) ?k))) j = imm_half v j" if j: "j < ?m" for j
    proof -
      have "imm_half (NOT (half_at ?k (imm_half (NOT v) ?k))) j = (if j = ?k then NOT16 (imm_half (NOT v) ?k) else 0xFFFF)"
        using move_halves [of ?k j "imm_half (NOT v) ?k" 0 0] j low(2) sf(3) imm_half_small by (auto simp: move_result_def)
      also have "\<dots> = NOT16 (imm_half (NOT v) j)" using zero j NOT16_props(3) by simp
      also have "\<dots> = imm_half v j" using flip [OF j] NOT16_props(2) [OF imm_half_small] by simp
      finally show ?thesis .
    qed
    then have "sf_clip sf (NOT (half_at ?k (imm_half (NOT v) ?k))) = sf_clip sf v" by (rule clip_eqI)
    then show ?thesis using load_one(2) [OF ok assms(1,2)] n sf(2) assms(3,4)
      by (auto simp: m_load_int_const_def Let_def)
  next
    case many
    let ?zeros = "length (filter (\<lambda>j. imm_half v j = 0) [0..<?m])"
    let ?ones = "length (filter (\<lambda>j. imm_half (NOT v) j = 0) [0..<?m])"
    define hw where "hw = (if ?ones > ?zeros then 0xFFFF else 0 :: u32)"
    have full: "length (filter (\<lambda>j. imm_half x j = 0) [0..<?m]) = ?m" if "\<forall>j<?m. imm_half x j = 0" for x
      using that by (subst filter_True) auto
    have all_fit: "fits_movz x (16 * ?m) = Inr True" if "\<forall>j<?m. imm_half x j = 0" for x
      using sf(3) unfolding fits_movz_def counts full [OF that] by auto
    have "\<not> (\<forall>j<?m. imm_half v j = 0)" using many(1) all_fit [of v] by auto
    moreover have "\<not> (\<forall>j<?m. imm_half (NOT v) j = 0)" using many(2) all_fit [of "NOT v"] by (auto simp: fits_movn_def)
    then have "\<exists>j<?m. imm_half v j \<noteq> 0xFFFF" using flip NOT16_props(4) by fastforce
    ultimately have "\<exists>j<?m. imm_half v j \<noteq> hw" unfolding hw_def by (cases "?ones > ?zeros") auto
    then obtain vs where "load_halves sf (Reg n) v hw (?ones > ?zeros) True [0..<?m] s = Inr (m_append vs s)"
      "loads vs (unat n) (sf_clip sf v)"
      using load_halves_first [OF assms(1,2) sf(1) refl, of hw "?ones > ?zeros" 0 v] unfolding hw_def by auto
    then show ?thesis using many sf(2) assms(3,4)
      by (auto simp: m_load_int_const_def Let_def counts hw_def)
  qed
qed

subsection \<open>Loading a constant\<close>

lemma sign_bits:
  assumes "- (2 ^ 31) \<le> imm" "imm < 2 ^ 31" "31 \<le> i" "i < 64"
  shows "bit (word_of_int imm :: u64) i \<longleftrightarrow> imm < 0"
proof -
  have p: "(2::int) ^ 31 \<le> 2 ^ i" using assms(3) by (intro power_increasing) simp_all
  have "imm div 2 ^ i = (if imm < 0 then - 1 else 0)"
  proof (cases "imm < 0")
    case True
    have "imm div 2 ^ i = - 1" by (rule int_div_pos_eq [of _ _ _ "imm + 2 ^ i"]) (use p assms True in auto)
    then show ?thesis using True by simp
  next
    case False
    then show ?thesis using p assms(2) by (simp add: div_pos_pos_trivial)
  qed
  then have "bit imm i \<longleftrightarrow> imm < 0" by (simp add: bit_iff_odd)
  then show ?thesis using assms(4) by (simp add: bit_word_of_int_iff)
qed

lemma shift_movz_low:
  assumes "\<And>i. 31 \<le> i \<Longrightarrow> i < 64 \<Longrightarrow> bit v i \<longleftrightarrow> b"
  shows "shift_movz v < 2"
proof (rule ccontr)
  assume far: "\<not> shift_movz v < 2"
  note first = shift_movz_first [of v]
  have "imm_half v 1 = 0" using first far by auto
  then have "\<not> bit v 31" using bit_imm_half [of v 1 15] by simp
  then have "\<not> b" using assms [of 31] by simp
  then have "\<not> bit (imm_half v (shift_movz v)) i" for i
    using assms [of "16 * shift_movz v + i"] far first(1) by (auto simp: bit_imm_half)
  then have "imm_half v (shift_movz v) = 0" by (simp add: bit_eq_iff)
  then show False using first(2) far by auto
qed

lemma load_int_const_correct:
  assumes "n < 31" "m_at_end s" "size_flag mode = Inr sf" "sf = 0 \<longrightarrow> - (2 ^ 31) \<le> imm \<and> imm < 2 ^ 31"
  shows "\<exists>ws. m_load_int_const mode (Reg n) imm s = Inr (m_append ws s) \<and> loads ws (unat n) (sf_clip sf (word_of_int imm))"
proof (rule load_int_const_halves [OF assms(1-3) refl])
  have "shift_movz v < 4" for v :: u64 by (rule shift_movz_first(1))
  moreover have "shift_movz (word_of_int imm) < 2" if "sf = 0"
    using assms(4) that sign_bits [of imm] by (intro shift_movz_low [of _ "imm < 0"]) simp
  moreover have "shift_movz (NOT (word_of_int imm)) < 2" if "sf = 0"
    using assms(4) that sign_bits [of imm] by (intro shift_movz_low [of _ "\<not> imm < 0"]) (simp add: bit_not_iff)
  ultimately show "shift_movz (word_of_int imm) < sf_halves sf" "shift_movn (word_of_int imm) < sf_halves sf"
    by (auto simp: sf_halves_def shift_movn_def)
qed

end
