(* ===== verification/MasmTheorems.thy ===== *)
theory MasmTheorems
  imports MasmMethods MasmConstants
begin

text \<open>
  The properties of the macro assembler on arm64: what every program of calls keeps, that the resulting
  code can be installed, and that loading a constant loads it.
\<close>

subsection \<open>Programs of calls\<close>

text \<open>A compiler calls methods one after the other; what it does next may depend on a fresh label, on a
  scratch register it holds for a while, on the displacement of a constant, or on the register an exchange
  returns.  \<open>fix_result\<close> does nothing on arm64.\<close>

inductive masm_program :: "masm_step \<Rightarrow> bool" where
  finished: "masm_program Inr"
| sequence: "masm_program f \<Longrightarrow> masm_program g \<Longrightarrow> masm_program (\<lambda>s. rbind (f s) g)"
| create_label: "(\<And>l. masm_program (k l)) \<Longrightarrow> masm_program (with_label k)"
| create_and_bind_label: "(\<And>l. masm_program (k l)) \<Longrightarrow> masm_program (with_bound_label k)"
| get_scratch: "(\<And>r. masm_program (k r)) \<Longrightarrow> masm_program (with_scratch k)"
| test_if_nil: "(\<And>l. masm_program (k l)) \<Longrightarrow> masm_program (m_test_if_nil reg k)"
| test_if_not_nil: "(\<And>l. masm_program (k l)) \<Longrightarrow> masm_program (m_test_if_not_nil reg k)"
| add_addr: "(\<And>d. masm_program (k d)) \<Longrightarrow> masm_program (\<lambda>s. rbind (m_add_addr v1 s) (\<lambda>(d, s). k d s))"
| compare_exchange_int32_synchronized: "(\<And>r. masm_program (k r)) \<Longrightarrow>
    masm_program (\<lambda>s. rbind (m_compare_exchange_int32_synchronized lse r1 r2 r3 s) (\<lambda>(r, s). k r s))"
| compare_exchange_int64_synchronized: "(\<And>r. masm_program (k r)) \<Longrightarrow>
    masm_program (\<lambda>s. rbind (m_compare_exchange_int64_synchronized lse r1 r2 r3 s) (\<lambda>(r, s). k r s))"
| bind_label: "masm_program (m_bind_label lbl)"
| emit_position: "masm_program (m_emit_position pos)"
| emit_gcpoint: "masm_program (m_emit_gcpoint gp)"
| emit_only_gcpoint: "masm_program (m_emit_only_gcpoint gp)"
| emit_lazy_compilation_site: "masm_program (m_emit_lazy_compilation_site site)"
| emit_comment: "masm_program (m_emit_comment str)"
| emit_bailout: "masm_program (m_emit_bailout lbl trap pos)"
| emit_u8: "masm_program (m_emit_u8 byte)"
| emit_u32: "masm_program (m_emit_u32 w1)"
| emit_u64: "masm_program (m_emit_u64 v1)"
| load_int_const: "masm_program (m_load_int_const mode r1 i1)"
| cmp_reg: "masm_program (m_cmp_reg mode r1 r2)"
| cmp_reg_imm: "masm_program (m_cmp_reg_imm mode r1 i1)"
| cmp_zero: "masm_program (m_cmp_zero mode r1)"
| jump_if: "masm_program (m_jump_if cc lbl)"
| jump: "masm_program (m_jump lbl)"
| jump_reg: "masm_program (m_jump_reg r1)"
| test_and_jump_if: "masm_program (m_test_and_jump_if cc r1 lbl)"
| test_if_nil_bailout: "masm_program (m_test_if_nil_bailout pos r1 trap)"
| bailout_if: "masm_program (m_bailout_if cc trap pos)"
| set: "masm_program (m_set r1 cc)"
| int_add: "masm_program (m_int_add mode r1 r2 r3)"
| int_add_checked: "masm_program (m_int_add_checked mode r1 r2 r3 pos)"
| int_add_imm: "masm_program (m_int_add_imm mode r1 r2 i1)"
| int_sub: "masm_program (m_int_sub mode r1 r2 r3)"
| int_sub_checked: "masm_program (m_int_sub_checked mode r1 r2 r3 pos)"
| int_mul: "masm_program (m_int_mul mode r1 r2 r3)"
| int_mul_checked: "masm_program (m_int_mul_checked mode r1 r2 r3 pos)"
| divmod_common: "masm_program (m_divmod_common mode r1 r2 r3 pos b1)"
| int_div: "masm_program (m_int_div mode r1 r2 r3 pos)"
| int_mod: "masm_program (m_int_mod mode r1 r2 r3 pos)"
| int_shl: "masm_program (m_int_shl mode r1 r2 r3)"
| int_shr: "masm_program (m_int_shr mode r1 r2 r3)"
| int_sar: "masm_program (m_int_sar mode r1 r2 r3)"
| int_rol: "masm_program (m_int_rol mode r1 r2 r3)"
| int_ror: "masm_program (m_int_ror mode r1 r2 r3)"
| int_or: "masm_program (m_int_or mode r1 r2 r3)"
| int_and: "masm_program (m_int_and mode r1 r2 r3)"
| int_xor: "masm_program (m_int_xor mode r1 r2 r3)"
| int_neg: "masm_program (m_int_neg mode r1 r2)"
| int_not: "masm_program (m_int_not mode r1 r2)"
| bool_not: "masm_program (m_bool_not r1 r2)"
| count_bits: "masm_program (m_count_bits mode r1 r2 b1)"
| count_bits_leading: "masm_program (m_count_bits_leading mode r1 r2 b1)"
| count_bits_trailing: "masm_program (m_count_bits_trailing mode r1 r2 b1)"
| cmp_int: "masm_program (m_cmp_int mode r1 r2 r3)"
| int_to_float: "masm_program (m_int_to_float mode1 f1 mode2 r1)"
| float_to_int: "masm_program (m_float_to_int mode1 r1 mode2 f1)"
| float32_to_float64: "masm_program (m_float32_to_float64 f1 f2)"
| float64_to_float32: "masm_program (m_float64_to_float32 f1 f2)"
| int_as_float: "masm_program (m_int_as_float mode1 f1 mode2 r1)"
| float_as_int: "masm_program (m_float_as_int mode1 r1 mode2 f1)"
| float_add: "masm_program (m_float_add mode f1 f2 f3)"
| float_sub: "masm_program (m_float_sub mode f1 f2 f3)"
| float_mul: "masm_program (m_float_mul mode f1 f2 f3)"
| float_div: "masm_program (m_float_div mode f1 f2 f3)"
| float_abs: "masm_program (m_float_abs mode f1 f2)"
| float_neg: "masm_program (m_float_neg mode f1 f2)"
| float_round_tozero: "masm_program (m_float_round_tozero mode f1 f2)"
| float_round_up: "masm_program (m_float_round_up mode f1 f2)"
| float_round_down: "masm_program (m_float_round_down mode f1 f2)"
| float_round_halfeven: "masm_program (m_float_round_halfeven mode f1 f2)"
| float_sqrt: "masm_program (m_float_sqrt mode f1 f2)"
| float_cmp_int: "masm_program (m_float_cmp_int mode r1 f1 f2)"
| float_cmp: "masm_program (m_float_cmp mode r1 f1 f2 cc)"
| float_cmp_nan: "masm_program (m_float_cmp_nan mode r1 f1)"
| common_load_base_with_offset: "masm_program (m_common_load_base_with_offset mode a1 r1 i1)"
| load_mem: "masm_program (m_load_mem mode a1 mem)"
| common_store_base_with_offset: "masm_program (m_common_store_base_with_offset mode a1 r1 i1)"
| store_mem: "masm_program (m_store_mem mode mem a1)"
| store_zero: "masm_program (m_store_zero mode mem)"
| cmp_mem: "masm_program (m_cmp_mem mode mem r1)"
| cmp_mem_imm: "masm_program (m_cmp_mem_imm mode mem i1)"
| lea: "masm_program (m_lea r1 mem)"
| load_array_elem: "masm_program (m_load_array_elem mode a1 r1 r2)"
| emit_barrier: "masm_program (m_emit_barrier r1 n1)"
| copy_reg: "masm_program (m_copy_reg mode r1 r2)"
| copy_sp: "masm_program (m_copy_sp r1)"
| set_sp: "masm_program (m_set_sp r1)"
| copy_pc: "masm_program (m_copy_pc r1)"
| copy_ra: "masm_program (m_copy_ra r1)"
| copy_freg: "masm_program (m_copy_freg mode f1 f2)"
| copy: "masm_program (m_copy mode a1 a2)"
| extend_int_long: "masm_program (m_extend_int_long r1 r2)"
| extend_byte: "masm_program (m_extend_byte mode r1 r2)"
| load_nil: "masm_program (m_load_nil r1)"
| load_true: "masm_program (m_load_true r1)"
| load_false: "masm_program (m_load_false r1)"
| load_constpool: "masm_program (m_load_constpool r1 i1)"
| load_float_const: "masm_program (m_load_float_const conv mode f1 v1)"
| determine_array_size: "masm_program (m_determine_array_size r1 r2 i1 b1)"
| array_address: "masm_program (m_array_address r1 r2 r3 i1)"
| check_index_out_of_bounds: "masm_program (m_check_index_out_of_bounds pos r1 r2)"
| load_int32_synchronized: "masm_program (m_load_int32_synchronized r1 r2)"
| store_int32_synchronized: "masm_program (m_store_int32_synchronized r1 r2)"
| exchange_int32_synchronized: "masm_program (m_exchange_int32_synchronized b1 r1 r2 r3)"
| fetch_add_int32_synchronized: "masm_program (m_fetch_add_int32_synchronized b1 r1 r2 r3)"
| load_int64_synchronized: "masm_program (m_load_int64_synchronized r1 r2)"
| store_int64_synchronized: "masm_program (m_store_int64_synchronized r1 r2)"
| exchange_int64_synchronized: "masm_program (m_exchange_int64_synchronized b1 r1 r2 r3)"
| fetch_add_int64_synchronized: "masm_program (m_fetch_add_int64_synchronized b1 r1 r2 r3)"
| prolog: "masm_program (m_prolog i1)"
| check_stack_pointer: "masm_program (m_check_stack_pointer w1 lbl)"
| safepoint: "masm_program (m_safepoint w1 lbl)"
| epilog_without_return: "masm_program m_epilog_without_return"
| epilog: "masm_program m_epilog"
| increase_stack_frame: "masm_program (m_increase_stack_frame i1)"
| decrease_stack_frame: "masm_program (m_decrease_stack_frame i1)"
| raw_call: "masm_program (m_raw_call v1)"
| direct_call: "masm_program (m_direct_call n1 v1 tps)"
| virtual_call: "masm_program (m_virtual_call pos w1 w2 site)"
| call_reg: "masm_program (m_call_reg r1)"
| debug: "masm_program m_debug"
| nop: "masm_program m_nop"
| trap: "masm_program (m_trap v1 trap pos)"
| fill_zero_dynamic: "masm_program (m_fill_zero_dynamic r1 r2)"
| fill_zero: "masm_program (m_fill_zero r1 b1 n1)"

lemma balanced_scratch_ends:
  assumes "balanced f" "masm_ok s" "scratch_get s = Inr (ind, reg, t)" "f t = Inr u"
  shows "masm_ok (scratch_free ind u)" "masm_extends s (scratch_free ind u)"
  using scratch_ends [OF assms(2,3)] balancedD [OF assms(1,4)] by blast+

lemma balanced_returning:
  assumes "\<And>s r t. masm_ok s \<Longrightarrow> f s = Inr (r, t) \<Longrightarrow> masm_ok t \<and> masm_extends s t" "\<And>r. balanced (k r)"
  shows "balanced (\<lambda>s. rbind (f s) (\<lambda>(r, s). k r s))"
proof (rule balancedI)
  fix s s' assume ok: "masm_ok s" and run: "rbind (f s) (\<lambda>(r, s). k r s) = Inr s'"
  then obtain r t where "f s = Inr (r, t)" "k r t = Inr s'" by (auto simp: rbind_eq_Inr_iff)
  then show "masm_ok s' \<and> masm_extends s s'" using assms(1) [OF ok] balancedD [OF assms(2)] masm_extends_trans by blast
qed

lemma exchange_ok:
  assumes "masm_ok s"
  shows "m_compare_exchange_int32_synchronized lse r1 r2 r3 s = Inr (r, t) \<Longrightarrow> masm_ok t \<and> masm_extends s t"
    and "m_compare_exchange_int64_synchronized lse r1 r2 r3 s = Inr (r, t) \<Longrightarrow> masm_ok t \<and> masm_extends s t"
proof -
  have op: "balanced (asm_r3 f3 a b c)" for f3 a b c by (intro balance)
  have loop: "balanced (with_scratch (\<lambda>state. with_bound_label (\<lambda>loop_start. with_label (\<lambda>loop_end. msteps
          [asm_r2 f current r3, asm_r2 g current r1, asm_op (h loop_end), asm_r3 f' state r2 r3,
           asm_r1 (k loop_start) state, m_bind_label loop_end]))))" for current f g h f' k
    by (intro balance)
  show "m_compare_exchange_int32_synchronized lse r1 r2 r3 s = Inr (r, t) \<Longrightarrow> masm_ok t \<and> masm_extends s t"
    by (auto simp: m_compare_exchange_int32_synchronized_def rbind_eq_Inr_iff split: if_splits
        dest: balancedD [OF op _ assms] balanced_scratch_ends [OF loop assms])
  show "m_compare_exchange_int64_synchronized lse r1 r2 r3 s = Inr (r, t) \<Longrightarrow> masm_ok t \<and> masm_extends s t"
    by (auto simp: m_compare_exchange_int64_synchronized_def rbind_eq_Inr_iff split: if_splits
        dest: balancedD [OF op _ assms] balanced_scratch_ends [OF loop assms])
qed

lemma add_addr_ok:
  assumes "masm_ok s" "m_add_addr v1 s = Inr (d, t)"
  shows "masm_ok t \<and> masm_extends s t"
  using assms balanced_pool [OF _ assms(1)] by (auto simp: m_add_addr_def cp_add_addr_def rbind_eq_Inr_iff)

lemma program_balanced: "masm_program f \<Longrightarrow> balanced f"
  by (induction rule: masm_program.induct)
    ((rule balanced_bind balanced_returning [OF exchange_ok(1)] balanced_returning [OF exchange_ok(2)]
       balanced_returning [OF add_addr_ok] balance; assumption?)+)

subsection \<open>From programs to descriptors\<close>

lemma table_get_found:
  assumes "table_sorted t" "(off, x) \<in> set t"
  shows "table_get off t = Some x"
proof -
  let ?r = "bsearch_key t off 0 (length t)"
  have s: "sorted_wrt (<) (map fst t)" using assms(1) by (simp add: table_sorted_def)
  have "distinct (map fst t)" using s by (simp add: strict_sorted_iff)
  obtain j where j: "j < length t" "t ! j = (off, x)" using assms(2) by (auto simp: in_set_conv_nth)
  have spec: "case ?r of Inr m \<Rightarrow> m < length t \<and> fst (t ! m) = off
      | Inl m \<Rightarrow> m \<le> length t \<and> (\<forall>i<m. fst (t ! i) < off) \<and> (\<forall>i. m \<le> i \<and> i < length t \<longrightarrow> off < fst (t ! i))"
    by (rule bsearch_key_correct [OF s]) auto
  show ?thesis
  proof (cases ?r)
    case (Inl i)
    then have "fst (t ! j) < off \<or> off < fst (t ! j)" using spec j(1) by (cases "j < i") auto
    then show ?thesis using j(2) by simp
  next
    case (Inr i)
    then have "i = j"
      using spec j nth_eq_iff_index_eq [OF \<open>distinct (map fst t)\<close>, of i j] by simp
    then show ?thesis using Inr j by (simp add: table_get_def)
  qed
qed

lemma table_kept: "table_sorted t' \<Longrightarrow> prefix t t' \<Longrightarrow> \<forall>(off, x)\<in>set t. table_get off t' = Some x"
  using table_get_found set_mono_prefix [of t t'] by fastforce

lemma align_loop_aligned: "align_loop n a = Some (Inr b) \<Longrightarrow> length (ab_code (asm_buffer b)) mod n = 0"
proof -
  have "align_loop n a = Some r \<Longrightarrow> \<forall>b. r = Inr b \<longrightarrow> length (ab_code (asm_buffer b)) mod n = 0" for r
    by (erule align_loop.raw_induct [rotated]) (auto split: if_splits sum.splits)
  then show "align_loop n a = Some (Inr b) \<Longrightarrow> length (ab_code (asm_buffer b)) mod n = 0" by blast
qed

lemma finish_balanced:
  "balanced (msteps (map (\<lambda>(lbl, trap, pos). msteps [m_bind_label lbl, m_trap stub trap pos]) bs @ [if 0 < length bs then m_nop else Inr]))"
proof (rule balanced_list, intro ballI)
  fix f assume "f \<in> set (map (\<lambda>(lbl, trap, pos). msteps [m_bind_label lbl, m_trap stub trap pos]) bs @ [if 0 < length bs then m_nop else Inr])"
  then consider lbl trap pos where "f = msteps [m_bind_label lbl, m_trap stub trap pos]" | "f = (if 0 < length bs then m_nop else Inr)"
    by auto
  then show "balanced f" by cases (simp only:, intro balance)+
qed

lemma m_code_descriptor:
  assumes "m_code stub s = Some (Inr cd)" "masm_ok s"
  shows "pool_reach (cd_constpool cd) \<and> cp_size (cd_constpool cd) mod 16 = 0 \<and> length (cd_code cd) mod 16 = 0
    \<and> table_sorted (cd_positions cd) \<and> table_sorted (cd_gcpoints cd) \<and> table_sorted (cd_lazy_compilation cd)
    \<and> prefix (m_positions s) (cd_positions cd) \<and> prefix (m_gcpoints s) (cd_gcpoints cd) \<and> prefix (m_lazy_compilation s) (cd_lazy_compilation cd)"
proof -
  obtain t p a where t: "m_finish stub s = Inr t" "cp_align 16 (m_constpool t) = Inr p" "a64_finalize (Some 16) (m_asm t) = Some (Inr a)"
    and cd: "cd = \<lparr>cd_constpool = p, cd_code = a, cd_lazy_compilation = m_lazy_compilation t, cd_gcpoints = m_gcpoints t,
      cd_comments = m_comments t, cd_positions = m_positions t\<rparr>"
    using assms(1) by (auto simp: m_code_def CODE_ALIGNMENT_def rbind_eq_Inr_iff split: sum.splits)
  let ?s = "s\<lparr>m_bailouts := []\<rparr>"
  have "masm_ok ?s" using assms(2) by (simp add: masm_ok_def)
  then have ok: "masm_ok t" "masm_extends ?s t"
    using balancedD [OF finish_balanced, of stub "m_bailouts s" ?s t] t(1) by (auto simp: m_finish_def Let_def)
  have reach: "pool_reach (m_constpool t)" using ok(1) by (simp add: masm_ok_def)
  have "pool_reach p" "cp_size p mod 16 = 0"
    using pool_reach.align [OF reach t(2)] cp_ok_align [OF pool_reach_ok [OF reach] t(2)] by auto
  moreover have "length a mod 16 = 0"
    using t(3) by (auto simp: a64_finalize_def align_to_def rbind_eq_Inr_iff dest: align_loop_aligned split: sum.splits)
  ultimately show ?thesis using ok by (simp add: cd masm_ok_def masm_extends_def)
qed

subsection \<open>Properties\<close>

text \<open>C13.  Whatever methods a compiler calls on a fresh macro assembler, if no call panics: every scratch register that was
  taken is free again in the end, and the descriptor that \<open>code\<close> returns satisfies all that
  \<open>install_code\<close> asserts of it.  The size of its pool and of its code are multiples of the code alignment, the pool
  is well laid out, and every position, GC point and lazy compilation site that was recorded is found
  under its offset, also when bailouts have been appended.  Comments are left out: when several have the same
  offset, looking them up may miss one.\<close>

theorem masm_code_installable:
  assumes "masm_program f" "f masm_new = Inr s" "m_code stub s = Some (Inr cd)"
  shows "m_scratch_value s = 0 \<and> pool_reach (cd_constpool cd) \<and> cp_size (cd_constpool cd) mod int CODE_ALIGNMENT = 0
    \<and> length (cd_code cd) mod CODE_ALIGNMENT = 0
    \<and> (\<forall>(off, x)\<in>set (m_positions s). table_get off (cd_positions cd) = Some x)
    \<and> (\<forall>(off, x)\<in>set (m_gcpoints s). table_get off (cd_gcpoints cd) = Some x)
    \<and> (\<forall>(off, x)\<in>set (m_lazy_compilation s). table_get off (cd_lazy_compilation cd) = Some x)"
proof -
  have "masm_ok masm_new" by (simp add: masm_ok_def masm_new_def table_sorted_def pool_reach.fresh)
  then have s: "masm_ok s" "masm_extends masm_new s" using balancedD [OF program_balanced] assms(1,2) by auto
  have cd: "pool_reach (cd_constpool cd) \<and> cp_size (cd_constpool cd) mod 16 = 0 \<and> length (cd_code cd) mod 16 = 0
    \<and> table_sorted (cd_positions cd) \<and> table_sorted (cd_gcpoints cd) \<and> table_sorted (cd_lazy_compilation cd)
    \<and> prefix (m_positions s) (cd_positions cd) \<and> prefix (m_gcpoints s) (cd_gcpoints cd) \<and> prefix (m_lazy_compilation s) (cd_lazy_compilation cd)"
    by (rule m_code_descriptor [OF assms(3) s(1)])
  then have "\<forall>(off, x)\<in>set (m_positions s). table_get off (cd_positions cd) = Some x"
    "\<forall>(off, x)\<in>set (m_gcpoints s). table_get off (cd_gcpoints cd) = Some x"
    "\<forall>(off, x)\<in>set (m_lazy_compilation s). table_get off (cd_lazy_compilation cd) = Some x"
    by (intro table_kept; simp)+
  then show ?thesis using s(2) cd by (simp add: masm_extends_def masm_new_def CODE_ALIGNMENT_def)
qed

theorem masm_code_installable_witness:
  "\<exists>s cd. m_raw_call 0xABCD masm_new = Inr s \<and> m_code 1 s = Some (Inr cd) \<and> m_scratch_value s = 0 \<and> pool_reach (cd_constpool cd)
     \<and> cp_size (cd_constpool cd) mod int CODE_ALIGNMENT = 0 \<and> length (cd_code cd) mod CODE_ALIGNMENT = 0"
proof -
  have "case m_raw_call 0xABCD masm_new of Inl _ \<Rightarrow> False | Inr s \<Rightarrow>
      (case m_code 1 s of None \<Rightarrow> False | Some r \<Rightarrow> is_ok r)" by code_simp
  then obtain s cd where "m_raw_call 0xABCD masm_new = Inr s" "m_code 1 s = Some (Inr cd)"
    by (auto simp: is_ok_def split: sum.splits option.splits)
  then show ?thesis using masm_code_installable [OF masm_program.raw_call] by blast
qed

text \<open>C17.  Loading a constant loads it: for every integer mode and every general-purpose register,
  \<open>load_int_const\<close> appends instructions that leave in that register the immediate (for 32-bit modes, its
  low half, the upper half cleared), whatever the registers held before, and change no other register.
  The instructions are decoded and executed as the architecture defines them.\<close>

theorem load_int_const_loads:
  assumes "n < 31" "m_at_end s" "size_flag mode = Inr sf" "sf = 0 \<longrightarrow> - (2 ^ 31) \<le> imm \<and> imm < 2 ^ 31"
  shows "\<exists>ws. m_load_int_const mode (Reg n) imm s = Inr (m_append ws s)
    \<and> (\<forall>regs. exec_moves ws regs = Some (regs(unat n := if sf = 0 then take_bit 32 (word_of_int imm) else word_of_int imm)))"
  using load_int_const_correct [OF assms] by (simp add: loads_def sf_clip_def)

theorem load_int_const_loads_witness:
  "\<exists>ws. m_load_int_const ModeInt64 (Reg 3) (- 70000) masm_new = Inr (m_append ws masm_new)
     \<and> (\<forall>regs. exec_moves ws regs = Some (regs(3 := word_of_int (- 70000))))"
proof -
  have "m_at_end masm_new" by code_simp
  then show ?thesis using load_int_const_loads [of 3 masm_new ModeInt64 1 "- 70000"] by (simp add: size_flag_def)
qed

subsection \<open>Swapped instruction sizes\<close>

text \<open>Division and remainder on 64-bit integers.  The test for a divisor of zero looks at the low 32
  bits only, and the remainder is computed on 32 bits; on 32-bit integers it is the other way round.\<close>

definition emitted :: "masm_step \<Rightarrow> usize \<Rightarrow> u32 result" where
  "emitted f pos = rbind (f masm_new) (\<lambda>s.
     case m_data 0 s of Some r \<Rightarrow> rbind r (\<lambda>code. Inr (word_at code pos)) | None \<Rightarrow> Inl Unreachable)"

lemma div_zero_test_swapped:
  "emitted (m_int_div ModeInt64 (Reg 0) (Reg 1) (Reg 2) pos) 0 = cls_cmp_branch_imm 0 0 (Register 2) 7"
  "emitted (m_int_div ModeInt32 (Reg 0) (Reg 1) (Reg 2) pos) 0 = cls_cmp_branch_imm 1 0 (Register 2) 7"
  by code_simp+

lemma mod_multiply_swapped:
  "emitted (m_int_mod ModeInt64 (Reg 0) (Reg 1) (Reg 2) pos) 28 = cls_dataproc3 0 0 0 (Register 2) 1 (Register 1) (Register 12) (Register 0)"
  "emitted (m_int_mod ModeInt32 (Reg 0) (Reg 1) (Reg 2) pos) 28 = cls_dataproc3 1 0 0 (Register 2) 1 (Register 1) (Register 12) (Register 0)"
  by code_simp+

text \<open>A 64-bit integer is converted to a floating-point number as if it had 32 bits.\<close>

lemma int64_to_float_as_int32:
  "m_int_to_float ModeFloat64 fdest ModeInt64 src = m_int_to_float ModeFloat64 fdest ModeInt32 src"
  "m_int_to_float ModeFloat32 fdest ModeInt64 src = m_int_to_float ModeFloat32 fdest ModeInt32 src"
  by (simp_all add: m_int_to_float_def)

text \<open>When three comments have the same offset, the search may stop at the middle one and drop the first.\<close>

lemma comments_dropped: "comment_get 4 [(4, ''a''), (4, ''b''), (4, ''c'')] = [''b'', ''c'']"
  by code_simp

end
