(* ===== verification/CopyCollector.thy ===== *)
theory CopyCollector
  imports Allocators
begin

text \<open>
  The copying collector (\<open>dora/src/gc/copy.rs\<close>): two semi-spaces, a bump allocator in one of them, and
  a collection that copies what the roots reach into the other, scanning the copies in the order in
  which they were made.  An object that has been copied has its new address in its first word.  The
  collection runs with the world stopped; timing, statistics and page protection are left out.
\<close>

subsection \<open>State\<close>

record copy_collector =
  cc_total :: region
  cc_separator :: heap_address
  cc_alloc :: bump_allocator
  cc_rootset :: "heap_address list"
  cc_memory :: memory
  cc_finalizers :: "(heap_address \<times> usize) list"
  cc_tlabs :: "tlab list"

text \<open>The start of the heap is the operating system's answer.\<close>

definition cc_new :: "usize \<Rightarrow> usize \<Rightarrow> heap_address \<Rightarrow> (region \<times> heap_address \<times> bump_allocator) result" where
  "cc_new page_size max_heap_size heap_start =
     rbind (align_usize max_heap_size (2 * page_size)) (\<lambda>heap_size.
     if heap_start = addr_null then Inl ExplicitPanic
     else rbind (region_start heap_start heap_size) (\<lambda>heap.
     rbind (offset heap_start (heap_size div 2)) (\<lambda>separator.
     Inr (heap, separator, bump_new heap_start separator))))"

definition from_space :: "copy_collector \<Rightarrow> region result" where
  "from_space cc =
     (if ba_limit (cc_alloc cc) = cc_separator cc then region_new (r_start (cc_total cc)) (cc_separator cc)
      else region_new (cc_separator cc) (r_end (cc_total cc)))"

definition to_space :: "copy_collector \<Rightarrow> region result" where
  "to_space cc =
     (if ba_limit (cc_alloc cc) = cc_separator cc then region_new (cc_separator cc) (r_end (cc_total cc))
      else region_new (r_start (cc_total cc)) (cc_separator cc))"

subsection \<open>Copying\<close>

text \<open>The memory and the end of the copies.\<close>

type_synonym copying = "memory \<times> heap_address"

definition copy_object :: "classes \<Rightarrow> heap_address \<Rightarrow> copying \<Rightarrow> (heap_address \<times> copying) result" where
  "copy_object cls obj_addr = (\<lambda>(m, t).
     case vtblptr_forwarded m obj_addr of
       Some fwd \<Rightarrow> Inr (fwd, m, t)
     | None \<Rightarrow>
         (let sz = obj_size cls m obj_addr; m = copy_to obj_addr t sz m in
          rbind (offset t sz) (\<lambda>t'. Inr (t, vtblptr_forward obj_addr t m, t'))))"

definition copy_slot :: "classes \<Rightarrow> region \<Rightarrow> heap_address \<Rightarrow> copying \<Rightarrow> copying result" where
  "copy_slot cls from slot = (\<lambda>(m, t).
     let ptr = slot_get m slot in
     if r_contains from ptr then rbind (copy_object cls ptr (m, t)) (\<lambda>(new, m, t). Inr (slot_set slot new m, t))
     else Inr (m, t))"

fun copy_slots :: "classes \<Rightarrow> region \<Rightarrow> heap_address list \<Rightarrow> copying \<Rightarrow> copying result" where
  "copy_slots cls from [] s = Inr s"
| "copy_slots cls from (slot # slots) s = rbind (copy_slot cls from slot s) (copy_slots cls from slots)"

partial_function (option) scan_loop :: "classes \<Rightarrow> region \<Rightarrow> heap_address \<Rightarrow> memory \<Rightarrow> heap_address \<Rightarrow> copying call" where
  "scan_loop cls from scan m t =
     (if scan < t then
        (case rbind (visit_reference_fields cls m scan) (\<lambda>slots.
              rbind (copy_slots cls from slots (m, t)) (\<lambda>(m, t).
              rbind (offset scan (obj_size cls m scan)) (\<lambda>scan. Inr (scan, m, t)))) of
           Inl e \<Rightarrow> Some (Inl e)
         | Inr (scan, m, t) \<Rightarrow> scan_loop cls from scan m t)
      else Some (Inr (m, t)))"

declare scan_loop.simps [code]

subsection \<open>Weak roots\<close>

definition cc_object_updater :: "region \<Rightarrow> region \<Rightarrow> memory \<Rightarrow> heap_address \<Rightarrow> heap_address option result" where
  "cc_object_updater from to m current_address =
     rbind (rassert (r_contains from current_address)) (\<lambda>_.
     case vtblptr_forwarded m current_address of
       Some new_address \<Rightarrow> rbind (rassert (r_contains to new_address)) (\<lambda>_. Inr (Some new_address))
     | None \<Rightarrow> Inr None)"

fun check_updates :: "(heap_address \<Rightarrow> heap_address option result) \<Rightarrow> (heap_address \<times> usize) list \<Rightarrow> unit result" where
  "check_updates f [] = Inr ()"
| "check_updates f ((a, t) # fs) = rbind (f a) (\<lambda>_. check_updates f fs)"

definition cc_iterate_weak_roots ::
  "region \<Rightarrow> region \<Rightarrow> memory \<Rightarrow> (heap_address \<times> usize) list \<Rightarrow> (heap_address \<times> usize) list result" where
  "cc_iterate_weak_roots from to m finalizers =
     rbind (check_updates (cc_object_updater from to m) finalizers) (\<lambda>_.
     Inr (iterate_weak_roots (vtblptr_forwarded m) finalizers))"

subsection \<open>Collections and allocation\<close>

definition copy_collect :: "classes \<Rightarrow> copy_collector \<Rightarrow> copy_collector call" where
  "copy_collect cls cc =
     cbind (Some (to_space cc)) (\<lambda>to.
     cbind (Some (from_space cc)) (\<lambda>from.
     cbind (Some (offset_from (ba_top (cc_alloc cc)) (r_start from))) (\<lambda>old_size.
     cbind (Some (copy_slots cls from (cc_rootset cc) (cc_memory cc, r_start to))) (\<lambda>(m, t).
     cbind (scan_loop cls from (r_start to) m t) (\<lambda>(m, t).
     cbind (Some (cc_iterate_weak_roots from to m (cc_finalizers cc))) (\<lambda>finalizers.
     ret (cc\<lparr>cc_memory := m, cc_finalizers := finalizers, cc_alloc := bump_reset t (r_end to) (cc_alloc cc)\<rparr>)))))))"

definition cc_collect :: "fillers \<Rightarrow> classes \<Rightarrow> copy_collector \<Rightarrow> copy_collector call" where
  "cc_collect fs cls cc =
     cbind (Some (make_iterable_all fs (cc_tlabs cc) (cc_memory cc))) (\<lambda>(tlabs, m).
     copy_collect cls (cc\<lparr>cc_tlabs := tlabs, cc_memory := m\<rparr>))"

definition cc_minor_collect :: "fillers \<Rightarrow> classes \<Rightarrow> copy_collector \<Rightarrow> copy_collector call" where
  "cc_minor_collect fs cls cc = cc_collect fs cls cc"

definition cc_bump :: "usize \<Rightarrow> copy_collector \<Rightarrow> (heap_address \<times> copy_collector) result" where
  "cc_bump sz cc = rbind (bump_alloc sz (cc_alloc cc)) (\<lambda>(ptr, b). Inr (ptr, cc\<lparr>cc_alloc := b\<rparr>))"

definition cc_allocate :: "fillers \<Rightarrow> classes \<Rightarrow> usize \<Rightarrow> copy_collector \<Rightarrow> (heap_address \<times> copy_collector) call" where
  "cc_allocate fs cls sz cc =
     cbind (Some (cc_bump sz cc)) (\<lambda>(ptr, cc).
     if ptr \<noteq> addr_null then ret (ptr, cc)
     else cbind (cc_collect fs cls cc) (\<lambda>cc. Some (cc_bump sz cc)))"

definition cc_alloc_tlab_area :: "fillers \<Rightarrow> classes \<Rightarrow> usize \<Rightarrow> copy_collector \<Rightarrow> (region option \<times> copy_collector) call" where
  "cc_alloc_tlab_area fs cls sz cc =
     cbind (Some (cc_bump sz cc)) (\<lambda>(ptr, cc).
     if ptr \<noteq> addr_null then cbind (Some (region_start ptr sz)) (\<lambda>r. ret (Some r, cc))
     else cbind (cc_collect fs cls cc) (\<lambda>cc.
          cbind (Some (cc_bump sz cc)) (\<lambda>(ptr, cc).
          if ptr = addr_null then ret (None, cc)
          else cbind (Some (region_start ptr sz)) (\<lambda>r. ret (Some r, cc)))))"

end
