(* ===== verification/CopyProofs.thy ===== *)
theory CopyProofs
  imports CopyCollector MarkCompactProofs
begin

text \<open>
  The copying collection step by step.  The list of the objects copied so far determines where each copy
  lies; an invariant says what every word holds, given the slots that have already been updated.
\<close>

subsection \<open>Places of the copies\<close>

fun place :: "(heap_address \<Rightarrow> usize) \<Rightarrow> heap_address list \<Rightarrow> heap_address \<Rightarrow> usize" where
  "place sz [] a = 0"
| "place sz (b # bs) a = (if a = b then 0 else sz b + place sz bs a)"

abbreviation total :: "(heap_address \<Rightarrow> usize) \<Rightarrow> heap_address list \<Rightarrow> usize" where
  "total sz bs \<equiv> sum_list (map sz bs)"

lemma place_append: "a \<in> set bs \<Longrightarrow> place sz (bs @ cs) a = place sz bs a"
  by (induction bs) auto

lemma place_new: "a \<notin> set bs \<Longrightarrow> place sz (bs @ [a]) a = total sz bs"
  by (induction bs) auto

lemma place_total: "a \<in> set bs \<Longrightarrow> place sz bs a + sz a \<le> total sz bs"
  by (induction bs) auto

lemma place_disjoint:
  "distinct bs \<Longrightarrow> a \<in> set bs \<Longrightarrow> b \<in> set bs \<Longrightarrow> a \<noteq> b \<Longrightarrow> place sz bs a + sz a \<le> place sz bs b \<or> place sz bs b + sz b \<le> place sz bs a"
  using place_total by (induction bs) fastforce+

lemma place_dvd: "\<forall>b\<in>set bs. 8 dvd sz b \<Longrightarrow> 8 dvd place sz bs a"
  by (induction bs) auto

lemma total_le: "distinct bs \<Longrightarrow> set bs \<subseteq> F \<Longrightarrow> finite F \<Longrightarrow> total sz bs \<le> sum sz F"
  by (metis sum_mono2 sum_list_distinct_conv_sum_set zero_le)

subsection \<open>Slots of a copy\<close>

lemma visit_shift:
  assumes "m' b = m a" "vt_instance_size (cls (m a)) = 0 \<Longrightarrow> m' (b + header_size) = m (a + header_size)"
    and "visit_reference_fields cls m a = Inr ss"
  shows "visit_reference_fields cls m' b = Inr (map (\<lambda>s. b + (s - a)) ss)" "\<forall>s\<in>set ss. a \<le> s"
proof -
  have len: "array_len m' b = array_len m a" if "vt_instance_size (cls (m a)) = 0"
    using assms(2) that by (simp add: array_len_def)
  have "visit_reference_fields cls m' b = Inr (map (\<lambda>s. b + (s - a)) ss) \<and> (\<forall>s\<in>set ss. a \<le> s)"
    using assms(1,3) len
    by (auto simp: visit_reference_fields_def visit_refs_def vtblptr_def vt_instance_size_def visit_object_array_refs_def
        visit_struct_array_refs_def visit_fixed_object_def array_data_def Let_def map_concat comp_def algebra_simps
        split: instance_size.splits)
      (rule arg_cong [of _ _ concat], rule map_cong, rule refl, rule map_cong, rule refl, simp)
  then show "visit_reference_fields cls m' b = Inr (map (\<lambda>s. b + (s - a)) ss)" "\<forall>s\<in>set ss. a \<le> s" by blast+
qed

subsection \<open>Heaps to be copied\<close>

definition slots_ok :: "classes \<Rightarrow> region \<Rightarrow> heap_address set \<Rightarrow> memory \<Rightarrow> heap_address \<Rightarrow> usize \<Rightarrow> bool" where
  "slots_ok cls fr F m a sz \<longleftrightarrow> visit_reference_fields cls m a = Inr (obj_slots cls m a) \<and> distinct (obj_slots cls m a)
     \<and> (\<forall>s\<in>set (obj_slots cls m a). body_start cls m a \<le> s \<and> s + 8 \<le> a + sz \<and> (r_contains fr (m s) \<longrightarrow> m s \<in> F))"

definition semi_ok :: "classes \<Rightarrow> region \<Rightarrow> region \<Rightarrow> heap_address list \<Rightarrow> heap_address set \<Rightarrow> (heap_address \<Rightarrow> usize) \<Rightarrow> memory \<Rightarrow> bool" where
  "semi_ok cls fr tos roots F sz m \<longleftrightarrow>
     finite F
     \<and> (\<forall>a\<in>F. r_start fr \<le> a \<and> a + sz a \<le> r_end fr \<and> header_size \<le> sz a \<and> 8 dvd sz a \<and> obj_size cls m a = sz a \<and> even (m a)
          \<and> slots_ok cls fr F m a (sz a))
     \<and> (\<forall>a\<in>F. \<forall>b\<in>F. a \<noteq> b \<longrightarrow> a + sz a \<le> b \<or> b + sz b \<le> a)
     \<and> disjunct fr tos \<and> 0 < r_start tos \<and> 8 dvd r_start tos \<and> r_end tos < 2 ^ 64 \<and> r_start tos + sum sz F \<le> r_end tos
     \<and> distinct roots \<and> (\<forall>r\<in>set roots. \<not> r_contains fr r \<and> \<not> r_contains tos r \<and> (r_contains fr (m r) \<longrightarrow> m r \<in> F))"

lemma semi_okD:
  assumes "semi_ok cls fr tos roots F sz m"
  shows "finite F" "a \<in> F \<Longrightarrow> r_start fr \<le> a" "a \<in> F \<Longrightarrow> a + sz a \<le> r_end fr" "a \<in> F \<Longrightarrow> 16 \<le> sz a" "a \<in> F \<Longrightarrow> 8 dvd sz a"
    "a \<in> F \<Longrightarrow> obj_size cls m a = sz a" "a \<in> F \<Longrightarrow> even (m a)" "a \<in> F \<Longrightarrow> slots_ok cls fr F m a (sz a)"
    "a \<in> F \<Longrightarrow> b \<in> F \<Longrightarrow> a \<noteq> b \<Longrightarrow> a + sz a \<le> b \<or> b + sz b \<le> a"
    "disjunct fr tos" "0 < r_start tos" "8 dvd r_start tos" "r_end tos < 2 ^ 64" "r_start tos + sum sz F \<le> r_end tos"
    "distinct roots" "r \<in> set roots \<Longrightarrow> \<not> r_contains fr r" "r \<in> set roots \<Longrightarrow> \<not> r_contains tos r"
    "r \<in> set roots \<Longrightarrow> r_contains fr (m r) \<Longrightarrow> m r \<in> F"
  using assms unfolding semi_ok_def header_size_def by blast+

lemma object_in_from: "semi_ok cls fr tos roots F sz m \<Longrightarrow> a \<in> F \<Longrightarrow> i < sz a \<Longrightarrow> r_contains fr (a + i)"
  using semi_okD(2,3) [of cls fr tos roots F sz m a] by (simp add: r_contains_def)

lemma array_inside:
  assumes "semi_ok cls fr tos roots F sz m" "a \<in> F" "vt_instance_size (cls (m a)) = 0"
  shows "header_size < sz a"
  using array_size_large [of cls m a, OF assms(3)] semi_okD(6) [OF assms(1,2)]
  by (simp add: array_header_size_def ptr_width_usize_def header_size_def)

lemma slot_offset:
  assumes "semi_ok cls fr tos roots F sz m" "a \<in> F" "s \<in> set (obj_slots cls m a)"
  shows "a + 16 \<le> s" "s + 8 \<le> a + sz a" "vt_instance_size (cls (m a)) = 0 \<Longrightarrow> a + 24 \<le> s"
  using semi_okD(8) [OF assms(1,2)] assms(3)
  by (auto simp: slots_ok_def body_start_def header_size_def array_header_size_def ptr_width_usize_def split: if_splits)

text \<open>The forwarding word.\<close>

lemma forward_word:
  assumes "aligned a"
  shows "(a OR 1) AND 1 = (1 :: nat)" "(a OR 1) AND (2 ^ 64 - 1 - 1) = a"
proof -
  show "(a OR 1) AND 1 = (1 :: nat)" by (rule bit_eqI) (simp only: bit_and_iff bit_or_iff bit_1_iff, blast)
  have eq: "(2 ^ 64 - 1 - 1 :: nat) = push_bit 1 (mask 63)" by (simp add: mask_eq_exp_minus_1 push_bit_eq_mult)
  have bits: "bit (2 ^ 64 - 1 - 1 :: nat) n \<longleftrightarrow> 1 \<le> n \<and> n < 64" for n
    unfolding eq bit_push_bit_iff bit_mask_iff by (auto simp: possible_bit_def)
  show "(a OR 1) AND (2 ^ 64 - 1 - 1) = a"
    using aligned_bits [OF assms] by (intro bit_eqI) (simp only: bit_and_iff bit_or_iff bit_1_iff bits, fastforce)
qed

lemma forwarded_iff:
  "even (m a) \<Longrightarrow> vtblptr_forwarded m a = None" "m a = b OR 1 \<Longrightarrow> aligned b \<Longrightarrow> vtblptr_forwarded m a = Some b"
  using forward_word [of b] by (auto simp: vtblptr_forwarded_def and_one_eq mod_2_eq_odd)

subsection \<open>The invariant\<close>

text \<open>\<open>L\<close> lists the objects copied so far, \<open>S\<close> holds the slots updated so far, among the roots and the
  slots of the copies; \<open>m0\<close> is the memory before the collection.\<close>

definition new_at :: "region \<Rightarrow> (heap_address \<Rightarrow> usize) \<Rightarrow> heap_address list \<Rightarrow> heap_address \<Rightarrow> heap_address" where
  "new_at tos sz L a = r_start tos + place sz L a"

definition fwd_ref :: "region \<Rightarrow> region \<Rightarrow> (heap_address \<Rightarrow> usize) \<Rightarrow> heap_address list \<Rightarrow> heap_address \<Rightarrow> heap_address" where
  "fwd_ref fr tos sz L p = (if r_contains fr p then new_at tos sz L p else p)"

definition is_slot ::
  "classes \<Rightarrow> region \<Rightarrow> heap_address list \<Rightarrow> (heap_address \<Rightarrow> usize) \<Rightarrow> memory \<Rightarrow> heap_address list \<Rightarrow> heap_address \<Rightarrow> heap_address \<Rightarrow> bool" where
  "is_slot cls tos roots sz m0 L s x \<longleftrightarrow> s \<in> set roots \<and> x = s
     \<or> (\<exists>a\<in>set L. x \<in> set (obj_slots cls m0 a) \<and> s = new_at tos sz L a + (x - a))"

definition copying_inv ::
  "classes \<Rightarrow> region \<Rightarrow> region \<Rightarrow> heap_address list \<Rightarrow> heap_address set \<Rightarrow> (heap_address \<Rightarrow> usize) \<Rightarrow> memory \<Rightarrow>
   heap_address list \<Rightarrow> heap_address set \<Rightarrow> memory \<Rightarrow> bool" where
  "copying_inv cls fr tos roots F sz m0 L S m \<longleftrightarrow>
     distinct L \<and> set L \<subseteq> F
     \<and> (\<forall>a\<in>set L. m a = new_at tos sz L a OR 1)
     \<and> (\<forall>a\<in>F - set L. \<forall>i < sz a. m (a + i) = m0 (a + i))
     \<and> (\<forall>a\<in>set L. \<forall>i < sz a. m (new_at tos sz L a + i) =
          (if new_at tos sz L a + i \<in> S then fwd_ref fr tos sz L (m0 (a + i)) else m0 (a + i)))
     \<and> (\<forall>r\<in>set roots. m r = (if r \<in> S then fwd_ref fr tos sz L (m0 r) else m0 r))
     \<and> (\<forall>x. \<not> r_contains fr x \<and> \<not> r_contains tos x \<and> x \<notin> set roots \<longrightarrow> m x = m0 x)
     \<and> (\<forall>s\<in>S. \<exists>x. is_slot cls tos roots sz m0 L s x \<and> (r_contains fr (m0 x) \<longrightarrow> m0 x \<in> set L))"

lemma copying_invD:
  assumes "copying_inv cls fr tos roots F sz m0 L S m"
  shows "distinct L" "set L \<subseteq> F" "a \<in> set L \<Longrightarrow> m a = new_at tos sz L a OR 1"
    "a \<in> F \<Longrightarrow> a \<notin> set L \<Longrightarrow> i < sz a \<Longrightarrow> m (a + i) = m0 (a + i)"
    "a \<in> set L \<Longrightarrow> i < sz a \<Longrightarrow> m (new_at tos sz L a + i) =
       (if new_at tos sz L a + i \<in> S then fwd_ref fr tos sz L (m0 (a + i)) else m0 (a + i))"
    "r \<in> set roots \<Longrightarrow> m r = (if r \<in> S then fwd_ref fr tos sz L (m0 r) else m0 r)"
    "\<not> r_contains fr x \<Longrightarrow> \<not> r_contains tos x \<Longrightarrow> x \<notin> set roots \<Longrightarrow> m x = m0 x"
    "s \<in> S \<Longrightarrow> \<exists>x. is_slot cls tos roots sz m0 L s x \<and> (r_contains fr (m0 x) \<longrightarrow> m0 x \<in> set L)"
  using assms unfolding copying_inv_def by blast+

lemma new_at_bounds:
  assumes ok: "semi_ok cls fr tos roots F sz m0" and L: "distinct L" "set L \<subseteq> F" and a: "a \<in> set L"
  shows "new_at tos sz L a + sz a \<le> r_start tos + total sz L" "r_start tos + total sz L \<le> r_end tos" "aligned (new_at tos sz L a)"
    "i < sz a \<Longrightarrow> r_contains tos (new_at tos sz L a + i)"
proof -
  show le: "new_at tos sz L a + sz a \<le> r_start tos + total sz L" using place_total [OF a] by (simp add: new_at_def)
  have "total sz L \<le> sum sz F" using total_le [OF L] semi_okD(1) [OF ok] by blast
  then show le': "r_start tos + total sz L \<le> r_end tos" using semi_okD(14) [OF ok] by linarith
  have "8 dvd new_at tos sz L a"
    using semi_okD(12) [OF ok] place_dvd [of L sz] semi_okD(5) [OF ok] L(2) by (auto simp: new_at_def intro!: dvd_add)
  then show "aligned (new_at tos sz L a)" using le le' semi_okD(13) [OF ok] by (simp add: aligned_def)
  show "i < sz a \<Longrightarrow> r_contains tos (new_at tos sz L a + i)" using le le' by (simp add: r_contains_def new_at_def)
qed

lemma spaces_apart: "semi_ok cls fr tos roots F sz m0 \<Longrightarrow> r_contains fr x \<Longrightarrow> \<not> r_contains tos x"
  using semi_okD(10) by (fastforce simp: disjunct_def r_contains_def)

text \<open>Where two copies overlap they are copies of the same object.\<close>

lemma same_copy:
  assumes ok: "semi_ok cls fr tos roots F sz m0" and L: "distinct L" "a \<in> set L" "b \<in> set L"
    and eq: "new_at tos sz L a + i = new_at tos sz L b + j" "i < sz a" "j < sz b"
  shows "a = b \<and> i = j"
  using place_disjoint [OF L, of sz] eq by (fastforce simp: new_at_def)

lemma slot_source:
  assumes ok: "semi_ok cls fr tos roots F sz m0" and L: "distinct L" "set L \<subseteq> F"
    and s: "is_slot cls tos roots sz m0 L s x" "is_slot cls tos roots sz m0 L s y"
  shows "x = y"
proof -
  have inside: "new_at tos sz L a + (x - a) \<notin> set roots" if a: "a \<in> set L" "x \<in> set (obj_slots cls m0 a)" for a x
  proof -
    have "a \<in> F" using a L by blast
    then have "x - a < sz a" using slot_offset [OF ok _ a(2)] by auto
    then show ?thesis using new_at_bounds(4) [OF ok L a(1)] semi_okD(17) [OF ok] by blast
  qed
  have "x = y" if a: "a \<in> set L" "x \<in> set (obj_slots cls m0 a)" and b: "b \<in> set L" "y \<in> set (obj_slots cls m0 b)"
    and eq: "new_at tos sz L a + (x - a) = new_at tos sz L b + (y - b)" for a b
  proof -
    have F: "a \<in> F" "b \<in> F" using a b L by auto
    have lt: "x - a < sz a" "y - b < sz b" "a \<le> x" "b \<le> y"
      using slot_offset [OF ok F(1) a(2)] slot_offset [OF ok F(2) b(2)] by auto
    from same_copy [OF ok L(1) a(1) b(1) eq lt(1,2)] lt(3,4) show "x = y" by auto
  qed
  with inside s show ?thesis unfolding is_slot_def by blast
qed

lemma slot_word:
  assumes ok: "semi_ok cls fr tos roots F sz m0" and inv: "copying_inv cls fr tos roots F sz m0 L S m"
    and s: "is_slot cls tos roots sz m0 L s x"
  shows "m s = (if s \<in> S then fwd_ref fr tos sz L (m0 x) else m0 x)" "\<not> r_contains fr s" "r_contains fr (m0 x) \<Longrightarrow> m0 x \<in> F"
proof -
  note D = copying_invD [OF inv]
  consider (root) "s \<in> set roots" "x = s"
    | (field) a where "a \<in> set L" "x \<in> set (obj_slots cls m0 a)" "s = new_at tos sz L a + (x - a)"
    using s unfolding is_slot_def by blast
  then have "m s = (if s \<in> S then fwd_ref fr tos sz L (m0 x) else m0 x) \<and> \<not> r_contains fr s \<and> (r_contains fr (m0 x) \<longrightarrow> m0 x \<in> F)"
  proof cases
    case root
    then show ?thesis using D(6) semi_okD(16,18) [OF ok] by blast
  next
    case field
    then have F: "a \<in> F" using D(2) by blast
    have lt: "x - a < sz a" "a + (x - a) = x" using slot_offset [OF ok F field(2)] by auto
    have "r_contains tos s" using new_at_bounds(4) [OF ok D(1,2) field(1) lt(1)] field(3) by simp
    then have "\<not> r_contains fr s" using spaces_apart [OF ok] by blast
    moreover have "r_contains fr (m0 x) \<longrightarrow> m0 x \<in> F"
      using semi_okD(8) [OF ok F] field(2) by (auto simp: slots_ok_def)
    ultimately show ?thesis using D(5) [OF field(1) lt(1)] lt(2) field(3) by auto
  qed
  then show "m s = (if s \<in> S then fwd_ref fr tos sz L (m0 x) else m0 x)" "\<not> r_contains fr s" "r_contains fr (m0 x) \<Longrightarrow> m0 x \<in> F"
    by blast+
qed

lemma slot_at_copy:
  assumes ok: "semi_ok cls fr tos roots F sz m0" and L: "distinct L" "set L \<subseteq> F" and a: "a \<in> set L" "i < sz a"
    and s: "is_slot cls tos roots sz m0 L (new_at tos sz L a + i) x"
  shows "x = a + i" "x \<in> set (obj_slots cls m0 a)"
proof -
  obtain b where b: "b \<in> set L" "x \<in> set (obj_slots cls m0 b)" "new_at tos sz L a + i = new_at tos sz L b + (x - b)"
    using s semi_okD(17) [OF ok] new_at_bounds(4) [OF ok L a] by (auto simp: is_slot_def)
  have "x - b < sz b" "b \<le> x" using slot_offset [OF ok _ b(2)] b(1) L(2) by fastforce+
  then have "b = a \<and> x = a + i" using same_copy [OF ok L(1) a(1) b(1) b(3) a(2)] by auto
  then show "x = a + i" "x \<in> set (obj_slots cls m0 a)" using b(2) by auto
qed

subsection \<open>Copying one object\<close>

lemma new_at_append: "a \<in> set L \<Longrightarrow> new_at tos sz (L @ L') a = new_at tos sz L a"
  by (simp add: new_at_def place_append)

lemma is_slot_append: "is_slot cls tos roots sz m0 L s x \<Longrightarrow> is_slot cls tos roots sz m0 (L @ L') s x"
  by (auto simp: is_slot_def new_at_append)

lemma slot_below:
  assumes ok: "semi_ok cls fr tos roots F sz m0" and L: "distinct L" "set L \<subseteq> F" and s: "is_slot cls tos roots sz m0 L s x"
    and r: "r_contains tos s"
  shows "s < r_start tos + total sz L"
proof -
  obtain a where a: "a \<in> set L" "x \<in> set (obj_slots cls m0 a)" "s = new_at tos sz L a + (x - a)"
    using s r semi_okD(17) [OF ok] by (auto simp: is_slot_def)
  have "x - a < sz a" using slot_offset [OF ok _ a(2)] a(1) L(2) by fastforce
  then show ?thesis using new_at_bounds(1) [OF ok L a(1)] a(3) by linarith
qed

lemma copy_object_fresh:
  assumes ok: "semi_ok cls fr tos roots F sz m0" and inv: "copying_inv cls fr tos roots F sz m0 L S m"
    and p: "p \<in> F" "p \<notin> set L"
  shows "\<exists>m'. copy_object cls p (m, r_start tos + total sz L) = Inr (new_at tos sz (L @ [p]) p, m', r_start tos + total sz (L @ [p]))
    \<and> copying_inv cls fr tos roots F sz m0 (L @ [p]) S m'"
proof -
  note D = copying_invD [OF inv]
  let ?t = "r_start tos + total sz L" and ?L = "L @ [p]"
  have L': "distinct ?L" "set ?L \<subseteq> F" using D(1,2) p by auto
  have new: "new_at tos sz ?L p = ?t" using place_new [OF p(2)] by (simp add: new_at_def)
  have pl: "p \<in> set ?L" by simp
  note bounds = new_at_bounds [OF ok L' pl]
  have head: "m p = m0 p" "vt_instance_size (cls (m0 p)) = 0 \<Longrightarrow> m (p + header_size) = m0 (p + header_size)"
    using D(4) [OF p, of 0] D(4) [OF p, of header_size] semi_okD(4) [OF ok p(1)] array_inside [OF ok p(1)] by auto
  have size: "obj_size cls m p = sz p" using shape_frame(1) [of m p m0 cls] head semi_okD(6) [OF ok p(1)] by simp
  have none: "vtblptr_forwarded m p = None" using forwarded_iff(1) semi_okD(7) [OF ok p(1)] head(1) by simp
  define m' where "m' = vtblptr_forward p ?t (copy_to p ?t (sz p) m)"
  have run: "copy_object cls p (m, ?t) = Inr (?t, m', r_start tos + total sz ?L)"
    using none size bounds(2) semi_okD(13) [OF ok]
    by (simp add: copy_object_def Let_def offset_def m'_def checked_add_def)
  have p_from: "r_contains fr p" using object_in_from [OF ok p(1), of 0] semi_okD(4) [OF ok p(1)] by simp
  have below: "m' x = (if x = p then ?t OR 1 else m x)" if "x < ?t \<or> \<not> r_contains tos x" for x
    using that bounds(1,2) new by (auto simp: m'_def vtblptr_forward_def copy_to_def r_contains_def)
  have copied: "m' (?t + i) = m0 (p + i)" if "i < sz p" for i
  proof -
    have "?t + i \<noteq> p" using spaces_apart [OF ok p_from] bounds(4) [OF that] new by auto
    then show ?thesis using that D(4) [OF p that] by (simp add: m'_def vtblptr_forward_def copy_to_def add.commute)
  qed
  have to_old: "new_at tos sz L a + i < ?t" "new_at tos sz L a + i \<noteq> p" if "a \<in> set L" "i < sz a" for a i
    using new_at_bounds(1,4) [OF ok D(1,2) that(1)] that(2) spaces_apart [OF ok p_from] by (fastforce, metis)
  have fwd: "fwd_ref fr tos sz ?L v = fwd_ref fr tos sz L v" if "r_contains fr v \<longrightarrow> v \<in> set L" for v
    using that by (simp add: fwd_ref_def new_at_append)
  have S_new: "?t + i \<notin> S" if "i < sz p" for i
    using D(8) slot_below [OF ok D(1,2)] bounds(4) [OF that] new by fastforce
  have S_old: "fwd_ref fr tos sz ?L (m0 x) = fwd_ref fr tos sz L (m0 x)" if "s \<in> S" "is_slot cls tos roots sz m0 L s x" for s x
    using D(8) [OF that(1)] slot_source [OF ok D(1,2) that(2)] fwd by blast
  have "copying_inv cls fr tos roots F sz m0 ?L S m'"
    unfolding copying_inv_def
  proof (intro conjI ballI allI impI)
    show "m' a = new_at tos sz ?L a OR 1" if "a \<in> set ?L" for a
    proof (cases "a = p")
      case False
      then have a: "a \<in> set L" using that by simp
      then have "\<not> r_contains tos a" using spaces_apart [OF ok object_in_from [OF ok, of a 0]] semi_okD(4) [OF ok] D(2) by fastforce
      then show ?thesis using below D(3) [OF a] False new_at_append [OF a] by simp
    qed (use below spaces_apart [OF ok p_from] new in simp)
    show "m' (a + i) = m0 (a + i)" if "a \<in> F - set ?L" "i < sz a" for a i
    proof -
      have a: "a \<in> F" "a \<notin> set L" "a \<noteq> p" using that by auto
      have "a + i \<noteq> p" using semi_okD(9) [OF ok a(1) p(1) a(3)] semi_okD(4) [OF ok p(1)] that(2) by linarith
      moreover have "\<not> r_contains tos (a + i)" using spaces_apart [OF ok object_in_from [OF ok a(1) that(2)]] .
      ultimately show ?thesis using below D(4) [OF a(1,2) that(2)] by simp
    qed
    show "m' (new_at tos sz ?L a + i) = (if new_at tos sz ?L a + i \<in> S then fwd_ref fr tos sz ?L (m0 (a + i)) else m0 (a + i))"
      if "a \<in> set ?L" "i < sz a" for a i
    proof (cases "a = p")
      case True
      then show ?thesis using copied S_new that(2) new by simp
    next
      case False
      then have a: "a \<in> set L" using that by simp
      have "fwd_ref fr tos sz ?L (m0 (a + i)) = fwd_ref fr tos sz L (m0 (a + i))" if S: "new_at tos sz L a + i \<in> S"
      proof -
        obtain x where x: "is_slot cls tos roots sz m0 L (new_at tos sz L a + i) x" "r_contains fr (m0 x) \<longrightarrow> m0 x \<in> set L"
          using D(8) [OF S] by blast
        then have "x = a + i" using slot_at_copy(1) [OF ok D(1,2) a \<open>i < sz a\<close>] by blast
        then show ?thesis using x(2) fwd by simp
      qed
      then show ?thesis using below to_old [OF a that(2)] D(5) [OF a that(2)] new_at_append [OF a] by simp
    qed
    show "m' r = (if r \<in> S then fwd_ref fr tos sz ?L (m0 r) else m0 r)" if r: "r \<in> set roots" for r
    proof -
      have "m' r = m r" using below semi_okD(16,17) [OF ok r] p_from by auto
      moreover have "is_slot cls tos roots sz m0 L r r" using r by (simp add: is_slot_def)
      ultimately show ?thesis using D(6) [OF r] S_old by auto
    qed
    show "m' x = m0 x" if "\<not> r_contains fr x \<and> \<not> r_contains tos x \<and> x \<notin> set roots" for x
      using below that D(7) p_from by auto
    show "\<exists>x. is_slot cls tos roots sz m0 ?L s x \<and> (r_contains fr (m0 x) \<longrightarrow> m0 x \<in> set ?L)" if "s \<in> S" for s
      using D(8) [OF that] is_slot_append by fastforce
  qed (use L' in auto)
  then show ?thesis using run new by simp
qed

subsection \<open>Updating a slot\<close>

lemma slot_update:
  assumes ok: "semi_ok cls fr tos roots F sz m0" and inv: "copying_inv cls fr tos roots F sz m0 L S m"
    and s: "is_slot cls tos roots sz m0 L s x" and known: "r_contains fr (m0 x) \<longrightarrow> m0 x \<in> set L"
  shows "copying_inv cls fr tos roots F sz m0 L (insert s S) (slot_set s (fwd_ref fr tos sz L (m0 x)) m)"
proof -
  note D = copying_invD [OF inv]
  let ?m = "slot_set s (fwd_ref fr tos sz L (m0 x)) m"
  note out = slot_word(2) [OF ok inv s]
  have other: "?m y = m y" if "y \<noteq> s" for y using that by (simp add: slot_set_def)
  have from_kept: "?m (a + i) = m (a + i)" if "a \<in> F" "i < sz a" for a i
    using other out object_in_from [OF ok that] by metis
  show ?thesis unfolding copying_inv_def
  proof (intro conjI ballI allI impI)
    show "?m a = new_at tos sz L a OR 1" if "a \<in> set L" for a
      using from_kept [of a 0] D(2,3) that semi_okD(4) [OF ok, of a] by auto
    show "?m (a + i) = m0 (a + i)" if "a \<in> F - set L" "i < sz a" for a i
      using from_kept D(4) that by auto
    show "?m (new_at tos sz L a + i) =
        (if new_at tos sz L a + i \<in> insert s S then fwd_ref fr tos sz L (m0 (a + i)) else m0 (a + i))"
      if a: "a \<in> set L" "i < sz a" for a i
    proof (cases "new_at tos sz L a + i = s")
      case True
      then have "x = a + i" using slot_at_copy(1) [OF ok D(1,2) a] s by blast
      then show ?thesis using True by (simp add: slot_set_def)
    qed (use other D(5) [OF a] in simp)
    show "?m r = (if r \<in> insert s S then fwd_ref fr tos sz L (m0 r) else m0 r)" if r: "r \<in> set roots" for r
    proof (cases "r = s")
      case True
      moreover have "is_slot cls tos roots sz m0 L r r" using r by (simp add: is_slot_def)
      ultimately have "x = r" using slot_source [OF ok D(1,2) s] by blast
      then show ?thesis using True by (simp add: slot_set_def)
    qed (use other D(6) [OF r] in simp)
    show "?m y = m0 y" if y: "\<not> r_contains fr y \<and> \<not> r_contains tos y \<and> y \<notin> set roots" for y
    proof -
      have "y \<noteq> s"
      proof
        assume "y = s"
        then obtain a where a: "a \<in> set L" "x \<in> set (obj_slots cls m0 a)" "y = new_at tos sz L a + (x - a)"
          using s y by (auto simp: is_slot_def)
        have "x - a < sz a" using slot_offset [OF ok _ a(2)] a(1) D(2) by fastforce
        then show False using new_at_bounds(4) [OF ok D(1,2) a(1)] a(3) y by blast
      qed
      then show ?thesis using other D(7) y by simp
    qed
    show "\<exists>x. is_slot cls tos roots sz m0 L s' x \<and> (r_contains fr (m0 x) \<longrightarrow> m0 x \<in> set L)" if "s' \<in> insert s S" for s'
      using that D(8) s known by blast
  qed (use D(1,2) in auto)
qed

lemma copy_object_known:
  assumes ok: "semi_ok cls fr tos roots F sz m0" and inv: "copying_inv cls fr tos roots F sz m0 L S m" and p: "p \<in> set L"
  shows "copy_object cls p (m, t) = Inr (new_at tos sz L p, m, t)"
  using forwarded_iff(2) [of m p, OF copying_invD(3) [OF inv p] new_at_bounds(3) [OF ok copying_invD(1,2) [OF inv] p]]
  by (simp add: copy_object_def)

definition found :: "region \<Rightarrow> memory \<Rightarrow> heap_address set \<Rightarrow> heap_address set" where
  "found fr m0 X = {m0 x | x. x \<in> X \<and> r_contains fr (m0 x)}"

lemma copy_slot_ok:
  assumes ok: "semi_ok cls fr tos roots F sz m0" and inv: "copying_inv cls fr tos roots F sz m0 L S m"
    and s: "is_slot cls tos roots sz m0 L s x" "s \<notin> S"
  shows "\<exists>L' m'. copy_slot cls fr s (m, r_start tos + total sz L) = Inr (m', r_start tos + total sz (L @ L'))
    \<and> copying_inv cls fr tos roots F sz m0 (L @ L') (insert s S) m' \<and> set (L @ L') = set L \<union> found fr m0 {x}"
proof -
  have ptr: "slot_get m s = m0 x" using slot_word(1) [OF ok inv s(1)] s(2) by (simp add: slot_get_def)
  show ?thesis
  proof (cases "r_contains fr (m0 x)")
    case False
    have "slot_set s (fwd_ref fr tos sz L (m0 x)) m = m"
      using False slot_word(1) [OF ok inv s(1)] s(2) by (auto simp: slot_set_def fwd_ref_def)
    then show ?thesis using False ptr slot_update [OF ok inv s(1)]
      by (intro exI [of _ "[]"] exI [of _ m]) (simp add: copy_slot_def found_def)
  next
    case True
    then have F: "m0 x \<in> F" using slot_word(3) [OF ok inv s(1)] by blast
    have fwd: "fwd_ref fr tos sz L' (m0 x) = new_at tos sz L' (m0 x)" for L' using True by (simp add: fwd_ref_def)
    show ?thesis
    proof (cases "m0 x \<in> set L")
      case known: True
      show ?thesis using True known ptr slot_update [OF ok inv s(1)] copy_object_known [OF ok inv known]
        by (intro exI [of _ "[]"] exI [of _ "slot_set s (fwd_ref fr tos sz L (m0 x)) m"])
          (auto simp: copy_slot_def found_def fwd)
    next
      case False
      obtain m1 where m1: "copy_object cls (m0 x) (m, r_start tos + total sz L)
          = Inr (new_at tos sz (L @ [m0 x]) (m0 x), m1, r_start tos + total sz (L @ [m0 x]))"
        "copying_inv cls fr tos roots F sz m0 (L @ [m0 x]) S m1"
        using copy_object_fresh [OF ok inv F False] by blast
      show ?thesis using True ptr m1(1) slot_update [OF ok m1(2) is_slot_append [OF s(1)]]
        by (intro exI [of _ "[m0 x]"] exI [of _ "slot_set s (fwd_ref fr tos sz (L @ [m0 x]) (m0 x)) m1"])
          (auto simp: copy_slot_def found_def fwd)
    qed
  qed
qed

lemma copy_slots_ok:
  assumes ok: "semi_ok cls fr tos roots F sz m0"
  shows "copying_inv cls fr tos roots F sz m0 L S m \<Longrightarrow> list_all2 (is_slot cls tos roots sz m0 L) ss xs \<Longrightarrow>
    distinct ss \<Longrightarrow> set ss \<inter> S = {} \<Longrightarrow>
    \<exists>L' m'. copy_slots cls fr ss (m, r_start tos + total sz L) = Inr (m', r_start tos + total sz (L @ L'))
      \<and> copying_inv cls fr tos roots F sz m0 (L @ L') (set ss \<union> S) m' \<and> set (L @ L') = set L \<union> found fr m0 (set xs)"
proof (induction ss arbitrary: L S m xs)
  case Nil
  then show ?case by (intro exI [of _ "[]"] exI [of _ m]) (simp add: found_def)
next
  case (Cons s ss)
  then obtain x xs' where xs: "xs = x # xs'" "is_slot cls tos roots sz m0 L s x" "list_all2 (is_slot cls tos roots sz m0 L) ss xs'"
    by (auto simp: list_all2_Cons1)
  have "s \<notin> S" using Cons.prems by auto
  then obtain L1 m1 where one: "copy_slot cls fr s (m, r_start tos + total sz L) = Inr (m1, r_start tos + total sz (L @ L1))"
    "copying_inv cls fr tos roots F sz m0 (L @ L1) (insert s S) m1" "set (L @ L1) = set L \<union> found fr m0 {x}"
    using copy_slot_ok [OF ok Cons.prems(1) xs(2)] by blast
  have "list_all2 (is_slot cls tos roots sz m0 (L @ L1)) ss xs'"
    using xs(3) by (rule list_all2_mono) (rule is_slot_append)
  from Cons.IH [OF one(2) this] Cons.prems(3,4)
  obtain L2 m2 where two: "copy_slots cls fr ss (m1, r_start tos + total sz (L @ L1)) = Inr (m2, r_start tos + total sz ((L @ L1) @ L2))"
    "copying_inv cls fr tos roots F sz m0 ((L @ L1) @ L2) (set ss \<union> insert s S) m2"
    "set ((L @ L1) @ L2) = set (L @ L1) \<union> found fr m0 (set xs')"
    by auto
  have "set (L @ L1 @ L2) = set L \<union> found fr m0 (set xs)" using two(3) one(3) xs(1) by (auto simp: found_def)
  then show ?case using one(1) two(1,2) by (intro exI [of _ "L1 @ L2"] exI [of _ m2]) (simp add: insert_commute Un_commute)
qed

subsection \<open>Scanning the copies\<close>

definition copy_slots_of :: "classes \<Rightarrow> region \<Rightarrow> (heap_address \<Rightarrow> usize) \<Rightarrow> memory \<Rightarrow> heap_address list \<Rightarrow> heap_address \<Rightarrow> heap_address list" where
  "copy_slots_of cls tos sz m0 L a = map (\<lambda>x. new_at tos sz L a + (x - a)) (obj_slots cls m0 a)"

definition scanned ::
  "classes \<Rightarrow> region \<Rightarrow> heap_address list \<Rightarrow> (heap_address \<Rightarrow> usize) \<Rightarrow> memory \<Rightarrow> heap_address list \<Rightarrow> heap_address list \<Rightarrow> heap_address set" where
  "scanned cls tos roots sz m0 L ds = set roots \<union> (\<Union>a\<in>set ds. set (copy_slots_of cls tos sz m0 L a))"

lemma copy_slots_of_append: "a \<in> set L \<Longrightarrow> copy_slots_of cls tos sz m0 (L @ L') a = copy_slots_of cls tos sz m0 L a"
  by (simp add: copy_slots_of_def new_at_append)

lemma scanned_append: "set ds \<subseteq> set L \<Longrightarrow> scanned cls tos roots sz m0 (L @ L') ds = scanned cls tos roots sz m0 L ds"
  by (auto simp: scanned_def copy_slots_of_append subset_iff)

lemma copy_slots_of_slot:
  "a \<in> set L \<Longrightarrow> list_all2 (is_slot cls tos roots sz m0 L) (copy_slots_of cls tos sz m0 L a) (obj_slots cls m0 a)"
  by (auto simp: copy_slots_of_def is_slot_def list_all2_map1 list_all2_same)

lemma copy_slots_of_distinct:
  assumes ok: "semi_ok cls fr tos roots F sz m0" and a: "a \<in> F"
  shows "distinct (copy_slots_of cls tos sz m0 L a)"
proof -
  have "inj_on (\<lambda>x. new_at tos sz L a + (x - a)) (set (obj_slots cls m0 a))"
    using slot_offset(1) [OF ok a] by (fastforce intro!: inj_onI)
  then show ?thesis using semi_okD(8) [OF ok a] by (simp add: copy_slots_of_def distinct_map slots_ok_def)
qed

lemma copy_slots_of_apart:
  assumes ok: "semi_ok cls fr tos roots F sz m0" and L: "distinct L" "set L \<subseteq> F" and a: "a \<in> set L" "a \<notin> set ds" and ds: "set ds \<subseteq> set L"
  shows "set (copy_slots_of cls tos sz m0 L a) \<inter> scanned cls tos roots sz m0 L ds = {}"
proof -
  have "s \<notin> scanned cls tos roots sz m0 L ds" if s: "s \<in> set (copy_slots_of cls tos sz m0 L a)" for s
  proof -
    obtain x where x: "x \<in> set (obj_slots cls m0 a)" "s = new_at tos sz L a + (x - a)" using s by (auto simp: copy_slots_of_def)
    have lt: "x - a < sz a" using slot_offset [OF ok _ x(1)] a(1) L(2) by fastforce
    have "s \<notin> set roots" using new_at_bounds(4) [OF ok L a(1) lt] x(2) semi_okD(17) [OF ok] by blast
    moreover have "s \<notin> set (copy_slots_of cls tos sz m0 L b)" if b: "b \<in> set ds" for b
    proof
      assume "s \<in> set (copy_slots_of cls tos sz m0 L b)"
      then obtain y where y: "y \<in> set (obj_slots cls m0 b)" "s = new_at tos sz L b + (y - b)" by (auto simp: copy_slots_of_def)
      have bL: "b \<in> set L" using b ds by blast
      then have "y - b < sz b" using slot_offset [OF ok _ y(1)] L(2) by fastforce
      then show False using same_copy [OF ok L(1) a(1) bL] x(2) y(2) lt a(2) b by metis
    qed
    ultimately show ?thesis by (auto simp: scanned_def)
  qed
  then show ?thesis by blast
qed

text \<open>The header of a copy is that of the object.\<close>

lemma copy_header:
  assumes ok: "semi_ok cls fr tos roots F sz m0" and inv: "copying_inv cls fr tos roots F sz m0 L S m" and a: "a \<in> set L"
  shows "m (new_at tos sz L a) = m0 a"
    "vt_instance_size (cls (m0 a)) = 0 \<Longrightarrow> m (new_at tos sz L a + header_size) = m0 (a + header_size)"
    "obj_size cls m (new_at tos sz L a) = sz a"
    "visit_reference_fields cls m (new_at tos sz L a) = Inr (copy_slots_of cls tos sz m0 L a)"
proof -
  note D = copying_invD [OF inv]
  have F: "a \<in> F" using a D(2) by blast
  have no_slot: "new_at tos sz L a + i \<notin> S" if i: "i < sz a" "a + i \<notin> set (obj_slots cls m0 a)" for i
    using D(8) slot_at_copy [OF ok D(1,2) a i(1)] i(2) by blast
  have "a + 0 \<notin> set (obj_slots cls m0 a)" using slot_offset(1) [OF ok F] by force
  then show vt: "m (new_at tos sz L a) = m0 a"
    using D(5) [OF a, of 0] no_slot [of 0] semi_okD(4) [OF ok F] by simp
  show len: "m (new_at tos sz L a + header_size) = m0 (a + header_size)" if arr: "vt_instance_size (cls (m0 a)) = 0"
  proof -
    have "a + header_size \<notin> set (obj_slots cls m0 a)"
      using slot_offset(3) [OF ok F _ arr, of "a + header_size"] by (auto simp: header_size_def)
    then show ?thesis using D(5) [OF a] no_slot array_inside [OF ok F arr] by simp
  qed
  have "obj_size cls m (new_at tos sz L a) = obj_size cls m0 a"
    using vt len by (simp add: obj_size_def size_for_vtblptr_def vtblptr_def determine_array_size_def array_len_def)
  then show "obj_size cls m (new_at tos sz L a) = sz a" using semi_okD(6) [OF ok F] by simp
  show "visit_reference_fields cls m (new_at tos sz L a) = Inr (copy_slots_of cls tos sz m0 L a)"
    using visit_shift(1) [of m "new_at tos sz L a" m0 a cls, OF vt len] semi_okD(8) [OF ok F]
    by (simp add: slots_ok_def copy_slots_of_def)
qed

lemma new_at_next: "p \<notin> set ds \<Longrightarrow> new_at tos sz (ds @ p # ps) p = r_start tos + total sz ds"
  using place_append [of p "ds @ [p]" sz ps] place_new [of p ds sz] by (simp add: new_at_def)

lemma reachable_slots:
  assumes ok: "semi_ok cls fr tos roots F sz m0" and a: "a \<in> F" "a \<in> reachable cls fr m0 roots"
  shows "found fr m0 (set (obj_slots cls m0 a)) \<subseteq> reachable cls fr m0 roots"
  using semi_okD(8) [OF ok a(1)] reachable.field [OF a(2)] by (auto simp: found_def slots_ok_def)

lemma scan_loop_ok:
  assumes ok: "semi_ok cls fr tos roots F sz m0"
  shows "copying_inv cls fr tos roots F sz m0 (ds @ ps) (scanned cls tos roots sz m0 (ds @ ps) ds) m \<Longrightarrow>
    set (ds @ ps) \<subseteq> reachable cls fr m0 roots \<Longrightarrow>
    \<exists>L m'. scan_loop cls fr (r_start tos + total sz ds) m (r_start tos + total sz (ds @ ps)) = Some (Inr (m', r_start tos + total sz L))
      \<and> copying_inv cls fr tos roots F sz m0 L (scanned cls tos roots sz m0 L L) m'
      \<and> set (ds @ ps) \<subseteq> set L \<and> set L \<subseteq> reachable cls fr m0 roots"
proof (induction "card F - length ds" arbitrary: ds ps m rule: less_induct)
  case less
  note inv = less.prems(1)
  let ?L = "ds @ ps"
  note D = copying_invD [OF inv]
  show ?case
  proof (cases ps)
    case Nil
    then show ?thesis using less.prems by (intro exI [of _ ds] exI [of _ m]) (simp add: scan_loop.simps)
  next
    case (Cons p ps')
    have p: "p \<in> set ?L" "p \<notin> set ds" "p \<in> F" using Cons D(1,2) by auto
    have scan: "r_start tos + total sz ds = new_at tos sz ?L p" using new_at_next [OF p(2)] Cons by simp
    note head = copy_header [OF ok inv p(1)]
    have slots: "set (copy_slots_of cls tos sz m0 ?L p) \<inter> scanned cls tos roots sz m0 ?L ds = {}"
      using copy_slots_of_apart [OF ok D(1,2) p(1,2)] by simp
    from copy_slots_ok [OF ok inv copy_slots_of_slot [OF p(1)] copy_slots_of_distinct [OF ok p(3)] slots]
    obtain L' m' where step: "copy_slots cls fr (copy_slots_of cls tos sz m0 ?L p) (m, r_start tos + total sz ?L)
        = Inr (m', r_start tos + total sz (?L @ L'))"
      "copying_inv cls fr tos roots F sz m0 (?L @ L') (set (copy_slots_of cls tos sz m0 ?L p) \<union> scanned cls tos roots sz m0 ?L ds) m'"
      "set (?L @ L') = set ?L \<union> found fr m0 (set (obj_slots cls m0 p))"
      by blast
    let ?ds = "ds @ [p]" and ?ps = "ps' @ L'"
    have eq: "?L @ L' = ?ds @ ?ps" using Cons by simp
    have S: "set (copy_slots_of cls tos sz m0 ?L p) \<union> scanned cls tos roots sz m0 ?L ds = scanned cls tos roots sz m0 (?L @ L') ?ds"
      using scanned_append [of ?ds ?L cls tos roots sz m0 L'] p(1) by (auto simp: scanned_def)
    have reach: "set (?ds @ ?ps) \<subseteq> reachable cls fr m0 roots"
      using step(3) less.prems(2) reachable_slots [OF ok p(3)] p(1) unfolding eq by blast
    have "obj_size cls m' (new_at tos sz (?L @ L') p) = sz p" using copy_header(3) [OF ok step(2), of p] p(1) by auto
    then have next_scan: "r_start tos + total sz ds + obj_size cls m' (r_start tos + total sz ds) = r_start tos + total sz ?ds"
      unfolding scan using new_at_append [OF p(1)] scan by simp
    have distinct: "distinct ?ds" "set ?ds \<subseteq> F" using D(1,2) Cons by auto
    have "length ?ds \<le> card F" using distinct_card [OF distinct(1)] card_mono [OF semi_okD(1) [OF ok] distinct(2)] by simp
    then have fewer: "card F - length ?ds < card F - length ds" by simp
    have lt: "r_start tos + total sz ds < r_start tos + total sz ?L" using Cons semi_okD(4) [OF ok p(3)] by simp
    from less.hyps [OF fewer step(2) [unfolded S eq] reach] obtain L m2 where rest:
      "scan_loop cls fr (r_start tos + total sz ?ds) m' (r_start tos + total sz (?ds @ ?ps)) = Some (Inr (m2, r_start tos + total sz L))"
      "copying_inv cls fr tos roots F sz m0 L (scanned cls tos roots sz m0 L L) m2"
      "set (?ds @ ?ps) \<subseteq> set L" "set L \<subseteq> reachable cls fr m0 roots"
      by blast
    have "r_start tos + total sz ?ds < 2 ^ 64"
      using total_le [OF distinct semi_okD(1) [OF ok], of sz] semi_okD(13,14) [OF ok] by linarith
    then have off: "offset (r_start tos + total sz ds) (obj_size cls m' (r_start tos + total sz ds)) = Inr (r_start tos + total sz ?ds)"
      using next_scan by (simp add: offset_def)
    have "scan_loop cls fr (r_start tos + total sz ds) m (r_start tos + total sz ?L) = Some (Inr (m2, r_start tos + total sz L))"
      using lt step(1) head(4) rest(1) off unfolding eq
      by (subst scan_loop.simps) (simp add: scan)
    then show ?thesis using rest(2-4) Cons by (intro exI [of _ L] exI [of _ m2]) auto
  qed
qed

text \<open>At the end the copied objects are the reachable ones.\<close>

lemma scanned_closed:
  assumes ok: "semi_ok cls fr tos roots F sz m0"
    and inv: "copying_inv cls fr tos roots F sz m0 L (scanned cls tos roots sz m0 L L) m"
  shows "reachable cls fr m0 roots \<subseteq> set L"
proof
  note D = copying_invD [OF inv]
  have known: "m0 x \<in> set L" if "s \<in> scanned cls tos roots sz m0 L L" "is_slot cls tos roots sz m0 L s x" "r_contains fr (m0 x)" for s x
    using D(8) [OF that(1)] slot_source [OF ok D(1,2) that(2)] that(3) by blast
  fix a assume "a \<in> reachable cls fr m0 roots"
  then show "a \<in> set L"
  proof induction
    case (root r)
    then show ?case using known [of r r] by (auto simp: scanned_def is_slot_def)
  next
    case (field a ss s)
    then have "a \<in> F" using D(2) by blast
    then have "s \<in> set (obj_slots cls m0 a)" using semi_okD(8) [OF ok] field by (auto simp: slots_ok_def)
    then show ?case
      using known [of "new_at tos sz L a + (s - a)" s] field by (auto simp: scanned_def is_slot_def copy_slots_of_def)
  qed
qed

end
