(* ===== verification/CopyTheorems.thy ===== *)
theory CopyTheorems
  imports CopyProofs MarkCompactTheorems
begin

text \<open>
  A whole collection of the copying collector: what becomes of the live objects and the references to
  them, and that the heap is again one that can be collected.
\<close>

subsection \<open>Well-formed collectors\<close>

text \<open>The half in which objects are allocated and the other one.\<close>

definition used_half :: "copy_collector \<Rightarrow> region" where
  "used_half cc = (if ba_limit (cc_alloc cc) = cc_separator cc then \<lparr>r_start = r_start (cc_total cc), r_end = cc_separator cc\<rparr>
     else \<lparr>r_start = cc_separator cc, r_end = r_end (cc_total cc)\<rparr>)"

definition free_half :: "copy_collector \<Rightarrow> region" where
  "free_half cc = (if ba_limit (cc_alloc cc) = cc_separator cc then \<lparr>r_start = cc_separator cc, r_end = r_end (cc_total cc)\<rparr>
     else \<lparr>r_start = r_start (cc_total cc), r_end = cc_separator cc\<rparr>)"

definition halves_ok :: "copy_collector \<Rightarrow> bool" where
  "halves_ok cc \<longleftrightarrow> 0 < r_start (cc_total cc) \<and> 8 dvd r_start (cc_total cc) \<and> 8 dvd cc_separator cc
     \<and> r_start (cc_total cc) < cc_separator cc \<and> r_end (cc_total cc) = 2 * cc_separator cc - r_start (cc_total cc)
     \<and> r_end (cc_total cc) < 2 ^ 64 \<and> (ba_limit (cc_alloc cc) = cc_separator cc \<or> ba_limit (cc_alloc cc) = r_end (cc_total cc))"

definition cc_object_ok :: "classes \<Rightarrow> copy_collector \<Rightarrow> cell list \<Rightarrow> heap_address \<Rightarrow> usize \<Rightarrow> bool" where
  "cc_object_ok cls cc cs a sz \<longleftrightarrow> header_size \<le> sz \<and> 8 dvd sz \<and> obj_size cls (cc_memory cc) a = sz \<and> even (cc_memory cc a)
     \<and> slots_ok cls (cc_total cc) (objects cs) (cc_memory cc) a sz"

definition cc_ok :: "classes \<Rightarrow> copy_collector \<Rightarrow> cell list \<Rightarrow> bool" where
  "cc_ok cls cc cs \<longleftrightarrow> halves_ok cc
     \<and> contiguous (r_start (used_half cc)) cs (ba_top (cc_alloc cc)) \<and> ba_top (cc_alloc cc) \<le> ba_limit (cc_alloc cc)
     \<and> (\<forall>a sz. Object a sz \<in> set cs \<longrightarrow> cc_object_ok cls cc cs a sz)
     \<and> distinct (cc_rootset cc)
     \<and> (\<forall>r\<in>set (cc_rootset cc). \<not> r_contains (cc_total cc) r
          \<and> (r_contains (cc_total cc) (cc_memory cc r) \<longrightarrow> cc_memory cc r \<in> objects cs))
     \<and> (\<forall>(a, t)\<in>set (cc_finalizers cc). a \<in> objects cs)"

lemma cc_okD:
  assumes "cc_ok cls cc cs"
  shows "halves_ok cc" "contiguous (r_start (used_half cc)) cs (ba_top (cc_alloc cc))" "ba_top (cc_alloc cc) \<le> ba_limit (cc_alloc cc)"
    "Object a sz \<in> set cs \<Longrightarrow> cc_object_ok cls cc cs a sz" "distinct (cc_rootset cc)"
    "r \<in> set (cc_rootset cc) \<Longrightarrow> \<not> r_contains (cc_total cc) r"
    "r \<in> set (cc_rootset cc) \<Longrightarrow> r_contains (cc_total cc) (cc_memory cc r) \<Longrightarrow> cc_memory cc r \<in> objects cs"
    "(a, t) \<in> set (cc_finalizers cc) \<Longrightarrow> a \<in> objects cs"
  using assms unfolding cc_ok_def by blast+

lemma halves:
  assumes "halves_ok cc"
  shows "from_space cc = Inr (used_half cc)" "to_space cc = Inr (free_half cc)" "r_end (used_half cc) = ba_limit (cc_alloc cc)"
    "disjunct (used_half cc) (free_half cc)" "0 < r_start (free_half cc)" "8 dvd r_start (free_half cc)" "r_end (free_half cc) < 2 ^ 64"
    "r_end (free_half cc) - r_start (free_half cc) = r_end (used_half cc) - r_start (used_half cc)"
    "r_start (free_half cc) \<le> r_end (free_half cc)"
    "r_contains (cc_total cc) x \<longleftrightarrow> r_contains (used_half cc) x \<or> r_contains (free_half cc) x"
  using assms
  by (auto simp: halves_ok_def from_space_def to_space_def used_half_def free_half_def region_new_def rassert_def disjunct_def r_contains_def)

text \<open>After a collection the halves have changed places.\<close>

lemma halves_swap:
  assumes ok: "halves_ok cc" and total: "cc_total cc' = cc_total cc" "cc_separator cc' = cc_separator cc"
    and limit: "ba_limit (cc_alloc cc') = r_end (free_half cc)"
  shows "halves_ok cc'" "used_half cc' = free_half cc" "free_half cc' = used_half cc"
  using ok total limit by (auto simp: halves_ok_def used_half_def free_half_def split: if_splits)

lemma objects_in_used:
  assumes ok: "cc_ok cls cc cs" and a: "a \<in> objects cs"
  shows "r_start (used_half cc) \<le> a" "a + obj_size cls (cc_memory cc) a \<le> ba_top (cc_alloc cc)"
    "Object a (obj_size cls (cc_memory cc) a) \<in> set cs"
proof -
  obtain sz where sz: "Object a sz \<in> set cs" using a by (auto simp: objects_def)
  have "obj_size cls (cc_memory cc) a = sz" using cc_okD(4) [OF ok sz] by (simp add: cc_object_ok_def)
  then show "r_start (used_half cc) \<le> a" "a + obj_size cls (cc_memory cc) a \<le> ba_top (cc_alloc cc)"
    "Object a (obj_size cls (cc_memory cc) a) \<in> set cs"
    using contiguous_bounds [OF cc_okD(2) [OF ok] sz] sz by auto
qed

lemma sum_objects:
  "contiguous s cs e \<Longrightarrow> (\<And>a n. Object a n \<in> set cs \<Longrightarrow> sz a = n) \<Longrightarrow> sum sz (objects cs) = live_size UNIV cs"
proof (induction cs arbitrary: s)
  case (Cons c cs)
  then have tail: "contiguous (cell_end c) cs e" by simp
  then have IH: "sum sz (objects cs) = live_size UNIV cs" using Cons by auto
  have "a \<notin> objects cs" if "c = Object a n" for a n
    using contiguous_bounds [OF tail] that Cons.prems(1) by (fastforce simp: objects_def)
  then show ?case using IH Cons.prems(2) finite_objects by (cases c) auto
qed simp

lemma slots_ok_mono:
  "slots_ok cls r F m a sz \<Longrightarrow> (\<And>x. r_contains r' x \<Longrightarrow> r_contains r x) \<Longrightarrow> slots_ok cls r' F m a sz"
  unfolding slots_ok_def by blast

lemma cc_semi_ok:
  assumes ok: "cc_ok cls cc cs"
  shows "semi_ok cls (used_half cc) (free_half cc) (cc_rootset cc) (objects cs) (obj_size cls (cc_memory cc)) (cc_memory cc)"
proof -
  note H = halves [OF cc_okD(1) [OF ok]]
  let ?sz = "obj_size cls (cc_memory cc)"
  have obj: "cc_object_ok cls cc cs a (?sz a)" if "a \<in> objects cs" for a
    using cc_okD(4) [OF ok objects_in_used(3) [OF ok that]] .
  have apart: "a + ?sz a \<le> b \<or> b + ?sz b \<le> a" if "a \<in> objects cs" "b \<in> objects cs" "a \<noteq> b" for a b
    using contiguous_disjoint [OF cc_okD(2) [OF ok] objects_in_used(3) [OF ok that(1)] objects_in_used(3) [OF ok that(2)]] that(3)
    by auto
  have "sum ?sz (objects cs) = live_size UNIV cs"
    using sum_objects [OF cc_okD(2) [OF ok], of ?sz] cc_okD(4) [OF ok] by (simp add: cc_object_ok_def)
  then have fits: "r_start (free_half cc) + sum ?sz (objects cs) \<le> r_end (free_half cc)"
    using live_size_le [OF cc_okD(2) [OF ok], of UNIV] cc_okD(3) [OF ok] H(3,8,9) by linarith
  have "slots_ok cls (used_half cc) (objects cs) (cc_memory cc) a (?sz a)" if "a \<in> objects cs" for a
    using obj [OF that] slots_ok_mono H(10) unfolding cc_object_ok_def by blast
  then have objs: "r_start (used_half cc) \<le> a \<and> a + ?sz a \<le> r_end (used_half cc) \<and> header_size \<le> ?sz a \<and> 8 dvd ?sz a
      \<and> ?sz a = ?sz a \<and> even (cc_memory cc a) \<and> slots_ok cls (used_half cc) (objects cs) (cc_memory cc) a (?sz a)" if "a \<in> objects cs" for a
    using obj [OF that] objects_in_used(1,2) [OF ok that] cc_okD(3) [OF ok] H(3) that unfolding cc_object_ok_def by simp
  show ?thesis unfolding semi_ok_def
  proof (intro conjI ballI impI)
    show "r_start (free_half cc) + sum ?sz (objects cs) \<le> r_end (free_half cc)" by (rule fits)
    show "\<not> r_contains (used_half cc) r" "\<not> r_contains (free_half cc) r" if "r \<in> set (cc_rootset cc)" for r
      using cc_okD(6) [OF ok that] H(10) by blast+
    show "cc_memory cc r \<in> objects cs" if "r \<in> set (cc_rootset cc)" "r_contains (used_half cc) (cc_memory cc r)" for r
      using cc_okD(7) [OF ok that(1)] H(10) that(2) by blast
  qed (use finite_objects H(4-7) cc_okD(5) [OF ok] objs apart in blast)+
qed

subsection \<open>A collection\<close>

lemma copying_start: "semi_ok cls fr tos roots F sz m0 \<Longrightarrow> copying_inv cls fr tos roots F sz m0 [] {} m0"
  by (simp add: copying_inv_def)

lemma roots_found: "found fr m0 (set roots) \<subseteq> reachable cls fr m0 roots"
  by (auto simp: found_def intro: reachable.root)

lemma roots_copied:
  assumes ok: "semi_ok cls fr tos roots F sz m0"
  shows "\<exists>ps m. copy_slots cls fr roots (m0, r_start tos) = Inr (m, r_start tos + total sz ps)
    \<and> copying_inv cls fr tos roots F sz m0 ps (scanned cls tos roots sz m0 ps []) m \<and> set ps \<subseteq> reachable cls fr m0 roots"
proof -
  have "list_all2 (is_slot cls tos roots sz m0 []) roots roots" by (simp add: list_all2_same is_slot_def)
  from copy_slots_ok [OF ok copying_start [OF ok] this semi_okD(15) [OF ok]] roots_found show ?thesis
    by (fastforce simp: scanned_def)
qed

lemma tracing_ok:
  assumes ok: "semi_ok cls fr tos roots F sz m0"
  shows "\<exists>m1 t1 m L. copy_slots cls fr roots (m0, r_start tos) = Inr (m1, t1)
    \<and> scan_loop cls fr (r_start tos) m1 t1 = Some (Inr (m, r_start tos + total sz L))
    \<and> copying_inv cls fr tos roots F sz m0 L (scanned cls tos roots sz m0 L L) m \<and> set L = reachable cls fr m0 roots"
proof -
  obtain ps m1 where r: "copy_slots cls fr roots (m0, r_start tos) = Inr (m1, r_start tos + total sz ps)"
    "copying_inv cls fr tos roots F sz m0 ps (scanned cls tos roots sz m0 ps []) m1" "set ps \<subseteq> reachable cls fr m0 roots"
    using roots_copied [OF ok] by blast
  from scan_loop_ok [OF ok, of "[]" ps m1] r(2,3) obtain L m where
    "scan_loop cls fr (r_start tos) m1 (r_start tos + total sz ps) = Some (Inr (m, r_start tos + total sz L))"
    "copying_inv cls fr tos roots F sz m0 L (scanned cls tos roots sz m0 L L) m" "set L \<subseteq> reachable cls fr m0 roots"
    by auto
  then show ?thesis using r(1) scanned_closed [OF ok] by blast
qed

text \<open>The finalizers of the objects that were copied remain, under their new addresses.\<close>

definition moved_finalizers ::
  "region \<Rightarrow> (heap_address \<Rightarrow> usize) \<Rightarrow> heap_address list \<Rightarrow> (heap_address \<times> usize) list \<Rightarrow> (heap_address \<times> usize) list" where
  "moved_finalizers tos sz L fs = map (\<lambda>(a, t). (new_at tos sz L a, t)) (filter (\<lambda>(a, t). a \<in> set L) fs)"

lemma weak_roots_copied:
  assumes ok: "semi_ok cls fr tos roots F sz m0" and inv: "copying_inv cls fr tos roots F sz m0 L S m"
    and fs: "\<forall>(a, t)\<in>set fs. a \<in> F"
  shows "cc_iterate_weak_roots fr tos m fs = Inr (moved_finalizers tos sz L fs)"
proof -
  note D = copying_invD [OF inv]
  have up: "vtblptr_forwarded m a = (if a \<in> set L then Some (new_at tos sz L a) else None)" if "a \<in> F" for a
    using forwarded_iff(2) [of m a, OF D(3) new_at_bounds(3) [OF ok D(1,2)]] forwarded_iff(1) [of m a] D(4) [OF that, of 0]
      semi_okD(4,7) [OF ok that] by (cases "a \<in> set L") simp_all
  have in_from: "r_contains fr a" if "a \<in> F" for a using object_in_from [OF ok that, of 0] semi_okD(4) [OF ok that] by simp
  have in_to: "r_contains tos (new_at tos sz L a)" "new_at tos sz L a \<noteq> addr_null" if "a \<in> set L" for a
    using new_at_bounds(4) [OF ok D(1,2) that, of 0] semi_okD(4,11) [OF ok] D(2) that
    by (fastforce, simp add: new_at_def addr_null_def)
  have "cc_object_updater fr tos m a = Inr (vtblptr_forwarded m a)" if "a \<in> F" for a
    using up in_from in_to(1) that by (simp add: cc_object_updater_def)
  then have "check_updates (cc_object_updater fr tos m) fs = Inr ()" using fs by (induction fs) auto
  moreover have "iterate_weak_roots (vtblptr_forwarded m) fs = moved_finalizers tos sz L fs"
    unfolding moved_finalizers_def by (rule iterate_weak_roots_ok) (use fs up in_to(2) in auto)
  ultimately show ?thesis by (simp add: cc_iterate_weak_roots_def)
qed

definition collected ::
  "classes \<Rightarrow> copy_collector \<Rightarrow> heap_address list \<Rightarrow> memory \<Rightarrow> copy_collector" where
  "collected cls cc L m = cc\<lparr>cc_memory := m,
     cc_finalizers := moved_finalizers (free_half cc) (obj_size cls (cc_memory cc)) L (cc_finalizers cc),
     cc_alloc := \<lparr>ba_top = r_start (free_half cc) + total (obj_size cls (cc_memory cc)) L, ba_limit = r_end (free_half cc)\<rparr>\<rparr>"

lemma copy_collect_runs:
  assumes ok: "cc_ok cls cc cs"
  shows "\<exists>L m. copy_collect cls cc = ret (collected cls cc L m)
    \<and> copying_inv cls (used_half cc) (free_half cc) (cc_rootset cc) (objects cs) (obj_size cls (cc_memory cc)) (cc_memory cc)
        L (scanned cls (free_half cc) (cc_rootset cc) (obj_size cls (cc_memory cc)) (cc_memory cc) L L) m
    \<and> set L = reachable cls (used_half cc) (cc_memory cc) (cc_rootset cc)"
proof -
  note semi = cc_semi_ok [OF ok] and H = halves [OF cc_okD(1) [OF ok]]
  obtain m1 t1 m L where tr: "copy_slots cls (used_half cc) (cc_rootset cc) (cc_memory cc, r_start (free_half cc)) = Inr (m1, t1)"
    "scan_loop cls (used_half cc) (r_start (free_half cc)) m1 t1
       = Some (Inr (m, r_start (free_half cc) + total (obj_size cls (cc_memory cc)) L))"
    and inv: "copying_inv cls (used_half cc) (free_half cc) (cc_rootset cc) (objects cs) (obj_size cls (cc_memory cc)) (cc_memory cc)
        L (scanned cls (free_half cc) (cc_rootset cc) (obj_size cls (cc_memory cc)) (cc_memory cc) L L) m"
    and L: "set L = reachable cls (used_half cc) (cc_memory cc) (cc_rootset cc)"
    using tracing_ok [OF semi] by blast
  have weak: "cc_iterate_weak_roots (used_half cc) (free_half cc) m (cc_finalizers cc)
      = Inr (moved_finalizers (free_half cc) (obj_size cls (cc_memory cc)) L (cc_finalizers cc))"
    using weak_roots_copied [OF semi inv] cc_okD(8) [OF ok] by blast
  have "offset_from (ba_top (cc_alloc cc)) (r_start (used_half cc)) = Inr (ba_top (cc_alloc cc) - r_start (used_half cc))"
    using contiguous_le [OF cc_okD(2) [OF ok]] by (simp add: offset_from_def)
  then have "copy_collect cls cc = ret (collected cls cc L m)"
    using H(1,2) tr weak by (simp add: copy_collect_def collected_def bump_reset_def ret_def)
  then show ?thesis using inv L by blast
qed

subsection \<open>What a collection leaves behind\<close>

lemma copied_word:
  assumes ok: "semi_ok cls fr tos roots F sz m0"
    and inv: "copying_inv cls fr tos roots F sz m0 L (scanned cls tos roots sz m0 L L) m" and a: "a \<in> set L" "i < sz a"
  shows "m (new_at tos sz L a + i) = (if a + i \<in> set (obj_slots cls m0 a) then fwd_ref fr tos sz L (m0 (a + i)) else m0 (a + i))"
proof -
  note D = copying_invD [OF inv]
  have "new_at tos sz L a + i \<in> scanned cls tos roots sz m0 L L \<longleftrightarrow> a + i \<in> set (obj_slots cls m0 a)"
  proof
    assume "new_at tos sz L a + i \<in> scanned cls tos roots sz m0 L L"
    then show "a + i \<in> set (obj_slots cls m0 a)" using D(8) slot_at_copy [OF ok D(1,2) a] by blast
  next
    assume "a + i \<in> set (obj_slots cls m0 a)"
    then show "new_at tos sz L a + i \<in> scanned cls tos roots sz m0 L L"
      using a(1) by (force simp: scanned_def copy_slots_of_def)
  qed
  then show ?thesis using D(5) [OF a] by simp
qed

lemma copied_root:
  "copying_inv cls fr tos roots F sz m0 L (scanned cls tos roots sz m0 L L) m \<Longrightarrow> r \<in> set roots \<Longrightarrow> m r = fwd_ref fr tos sz L (m0 r)"
  using copying_invD(6) by (fastforce simp: scanned_def)

definition copy_cells :: "region \<Rightarrow> (heap_address \<Rightarrow> usize) \<Rightarrow> heap_address list \<Rightarrow> cell list" where
  "copy_cells tos sz L = map (\<lambda>a. Object (new_at tos sz L a) (sz a)) L"

lemma objects_copy_cells: "objects (copy_cells tos sz L) = new_at tos sz L ` set L"
  by (auto simp: objects_def copy_cells_def)

lemma copies_contiguous:
  "distinct L \<Longrightarrow> \<forall>a\<in>set L. 0 < sz a \<Longrightarrow> contiguous s (map (\<lambda>a. Object (s + place sz L a) (sz a)) L) (s + total sz L)"
proof (induction L arbitrary: s)
  case (Cons b L)
  have eq: "map (\<lambda>a. Object (s + place sz (b # L) a) (sz a)) L = map (\<lambda>a. Object ((s + sz b) + place sz L a) (sz a)) L"
    using Cons.prems(1) by auto
  have "contiguous (s + sz b) (map (\<lambda>a. Object (s + place sz (b # L) a) (sz a)) L) ((s + sz b) + total sz L)"
    unfolding eq using Cons by simp
  then show ?case using Cons.prems by (simp add: add.assoc)
qed simp

lemma copy_object_ok:
  assumes ok: "semi_ok cls fr tos roots F sz m0"
    and inv: "copying_inv cls fr tos roots F sz m0 L (scanned cls tos roots sz m0 L L) m"
    and a: "a \<in> set L" and closed: "\<forall>x\<in>set (obj_slots cls m0 a). r_contains hp (m0 x) \<longrightarrow> m0 x \<in> set L"
    and hp: "\<And>x. r_contains fr x \<Longrightarrow> r_contains hp x"
  shows "slots_ok cls hp (new_at tos sz L ` set L) m (new_at tos sz L a) (sz a)"
proof -
  note D = copying_invD [OF inv] and head = copy_header [OF ok inv a]
  have F: "a \<in> F" using a D(2) by blast
  have slots: "obj_slots cls m (new_at tos sz L a) = copy_slots_of cls tos sz m0 L a" using head(4) by (simp add: obj_slots_def)
  have body: "body_start cls m (new_at tos sz L a) = new_at tos sz L a + (body_start cls m0 a - a)"
    using head(1) by (simp add: body_start_def)
  have "body_start cls m (new_at tos sz L a) \<le> s \<and> s + 8 \<le> new_at tos sz L a + sz a
      \<and> (r_contains hp (m s) \<longrightarrow> m s \<in> new_at tos sz L ` set L)" if s: "s \<in> set (copy_slots_of cls tos sz m0 L a)" for s
  proof -
    obtain x where x: "x \<in> set (obj_slots cls m0 a)" "s = new_at tos sz L a + (x - a)" using s by (auto simp: copy_slots_of_def)
    have off: "a \<le> x" "x + 8 \<le> a + sz a" "body_start cls m0 a \<le> x"
      using slot_offset [OF ok F x(1)] semi_okD(8) [OF ok F] x(1) by (auto simp: slots_ok_def)
    then have ms: "m s = fwd_ref fr tos sz L (m0 x)" using copied_word [OF ok inv a, of "x - a"] x by simp
    have "r_contains hp (m s) \<longrightarrow> m s \<in> new_at tos sz L ` set L"
    proof (cases "r_contains fr (m0 x)")
      case True
      then show ?thesis using ms closed x(1) hp by (simp add: fwd_ref_def)
    next
      case False
      then have "\<not> r_contains hp (m0 x)"
        using closed x(1) D(2) object_in_from [OF ok, of "m0 x" 0] semi_okD(4) [OF ok, of "m0 x"] by fastforce
      then show ?thesis using ms False by (simp add: fwd_ref_def)
    qed
    then show ?thesis using off x(2) body by auto
  qed
  then show ?thesis using head(4) slots copy_slots_of_distinct [OF ok F] by (simp add: slots_ok_def)
qed

lemma collected_ok:
  assumes ok: "cc_ok cls cc cs"
    and inv: "copying_inv cls (used_half cc) (free_half cc) (cc_rootset cc) (objects cs) (obj_size cls (cc_memory cc)) (cc_memory cc)
        L (scanned cls (free_half cc) (cc_rootset cc) (obj_size cls (cc_memory cc)) (cc_memory cc) L L) m"
    and L: "set L = reachable cls (used_half cc) (cc_memory cc) (cc_rootset cc)"
  shows "cc_ok cls (collected cls cc L m) (copy_cells (free_half cc) (obj_size cls (cc_memory cc)) L)"
proof -
  note semi = cc_semi_ok [OF ok] and H = halves [OF cc_okD(1) [OF ok]] and D = copying_invD [OF inv]
  let ?sz = "obj_size cls (cc_memory cc)" and ?to = "free_half cc" and ?m0 = "cc_memory cc"
  let ?cc = "collected cls cc L m" and ?cs = "copy_cells (free_half cc) (obj_size cls (cc_memory cc)) L"
  have sel: "cc_total ?cc = cc_total cc" "cc_separator ?cc = cc_separator cc" "cc_memory ?cc = m" "cc_rootset ?cc = cc_rootset cc"
    "cc_alloc ?cc = \<lparr>ba_top = r_start ?to + total ?sz L, ba_limit = r_end ?to\<rparr>"
    "cc_finalizers ?cc = moved_finalizers ?to ?sz L (cc_finalizers cc)"
    by (simp_all add: collected_def)
  note swap = halves_swap [OF cc_okD(1) [OF ok] sel(1,2)]
  have used: "r_contains (used_half cc) a" if "a \<in> objects cs" for a
    using object_in_from [OF semi that, of 0] semi_okD(4) [OF semi that] by simp
  have root: "?m0 r \<in> set L" if "r \<in> set (cc_rootset cc)" "r_contains (cc_total cc) (?m0 r)" for r
    using cc_okD(7) [OF ok that] used that(1) L by (auto intro: reachable.root)
  have field: "?m0 x \<in> set L" if "a \<in> set L" "x \<in> set (obj_slots cls ?m0 a)" "r_contains (cc_total cc) (?m0 x)" for a x
  proof -
    have a: "a \<in> objects cs" using that D(2) by blast
    have "slots_ok cls (cc_total cc) (objects cs) ?m0 a (?sz a)"
      using cc_okD(4) [OF ok objects_in_used(3) [OF ok a]] by (simp add: cc_object_ok_def)
    then have "?m0 x \<in> objects cs" "visit_reference_fields cls ?m0 a = Inr (obj_slots cls ?m0 a)"
      using that by (auto simp: slots_ok_def)
    then show ?thesis using reachable.field [of a cls "used_half cc" ?m0] that L used by blast
  qed
  have "cc_object_ok cls ?cc ?cs b n" if b: "Object b n \<in> set ?cs" for b n
  proof -
    obtain a where a: "a \<in> set L" "b = new_at ?to ?sz L a" "n = ?sz a" using b by (auto simp: copy_cells_def)
    then have F: "a \<in> objects cs" using D(2) by blast
    have "slots_ok cls (cc_total cc) (new_at ?to ?sz L ` set L) m b (?sz a)"
      unfolding a(2) by (rule copy_object_ok [OF semi inv a(1)]) (use field a(1) H(10) in auto)
    then show ?thesis
      using copy_header(1,3) [OF semi inv a(1)] semi_okD(4,5,7) [OF semi F] a
      by (simp add: cc_object_ok_def sel objects_copy_cells header_size_def)
  qed
  moreover have "r_contains (cc_total cc) (m r) \<longrightarrow> m r \<in> new_at ?to ?sz L ` set L" if r: "r \<in> set (cc_rootset cc)" for r
    using root [OF r] copied_root [OF inv r] H(10) used D(2) by (auto simp: fwd_ref_def)
  moreover have "contiguous (r_start ?to) ?cs (r_start ?to + total ?sz L)"
    using copies_contiguous [OF D(1), of ?sz] semi_okD(4) [OF semi] D(2)
    unfolding copy_cells_def new_at_def by (metis gr0I not_numeral_le_zero subsetD)
  moreover have "r_start ?to + total ?sz L \<le> r_end ?to"
    using total_le [OF D(1,2) semi_okD(1) [OF semi], of ?sz] semi_okD(14) [OF semi] by simp
  ultimately show ?thesis
    using swap cc_okD(5,6) [OF ok] by (auto simp: cc_ok_def sel objects_copy_cells moved_finalizers_def)
qed

text \<open>Two live objects and a dead one in the lower half; the live ones move to the upper half.\<close>

definition demo_cc :: copy_collector where
  "demo_cc = \<lparr>cc_total = \<lparr>r_start = 1024, r_end = 3072\<rparr>, cc_separator = 2048, cc_alloc = \<lparr>ba_top = 1104, ba_limit = 2048\<rparr>,
     cc_rootset = [8], cc_memory = mc_memory demo_mc, cc_finalizers = [(1024, 1), (1080, 2)], cc_tlabs = []\<rparr>"

lemma demo_cc_slots: "obj_slots demo_classes m a = [a + 16]"
  by (simp add: obj_slots_def demo_slots)

lemma demo_cc_size: "obj_size demo_classes m a = 24"
  by (simp add: obj_size_def size_for_vtblptr_def vt_instance_size_def demo_classes_def)

lemma demo_cc_ok: "cc_ok demo_classes demo_cc demo_cells"
proof -
  have "cc_object_ok demo_classes demo_cc demo_cells a sz" if "Object a sz \<in> set demo_cells" for a sz
    using that unfolding cc_object_ok_def slots_ok_def demo_cc_slots demo_cc_size demo_objects demo_slots
    by (auto simp: demo_cells_def demo_cc_def demo_mc_def header_size_def body_start_def vt_instance_size_def demo_classes_def r_contains_def)
  moreover have "contiguous (r_start (used_half demo_cc)) demo_cells (ba_top (cc_alloc demo_cc))" "halves_ok demo_cc"
    by (simp_all add: demo_cells_def used_half_def halves_ok_def demo_cc_def)
  ultimately show ?thesis
    by (simp add: cc_ok_def demo_objects) (simp add: demo_cc_def demo_mc_def r_contains_def)
qed

lemma demo_cc_halves: "used_half demo_cc = \<lparr>r_start = 1024, r_end = 2048\<rparr>" "free_half demo_cc = \<lparr>r_start = 2048, r_end = 3072\<rparr>"
  by (simp_all add: used_half_def free_half_def demo_cc_def)

lemma demo_cc_reachable: "reachable demo_classes (used_half demo_cc) (cc_memory demo_cc) (cc_rootset demo_cc) = {1048, 1080}"
  unfolding demo_cc_halves using demo_live by (simp add: live_def demo_cc_def demo_mc_def)

subsection \<open>Theorems\<close>

text \<open>C7.  A collection of a well-formed heap ends without a panic.  It copies exactly the objects that the
  roots reach, one after the other from the start of the free half; every word of a copy is that of the
  object, except that the references into the used half point to the copies.  The roots point to the
  copies as well, the finalizers that remain are those of the copied objects under their new addresses,
  and allocation goes on behind the last copy.\<close>

theorem copy_collect_preserves_live_objects:
  assumes "cc_ok cls cc cs"
  shows "\<exists>cc' L. copy_collect cls cc = ret cc'
    \<and> distinct L \<and> set L = reachable cls (used_half cc) (cc_memory cc) (cc_rootset cc)
    \<and> (\<forall>a\<in>set L. \<forall>i < obj_size cls (cc_memory cc) a.
         cc_memory cc' (new_at (free_half cc) (obj_size cls (cc_memory cc)) L a + i) =
           (if a + i \<in> set (obj_slots cls (cc_memory cc) a)
            then fwd_ref (used_half cc) (free_half cc) (obj_size cls (cc_memory cc)) L (cc_memory cc (a + i)) else cc_memory cc (a + i)))
    \<and> (\<forall>r\<in>set (cc_rootset cc). cc_memory cc' r =
         fwd_ref (used_half cc) (free_half cc) (obj_size cls (cc_memory cc)) L (cc_memory cc r))
    \<and> cc_finalizers cc' = map (\<lambda>(a, t). (new_at (free_half cc) (obj_size cls (cc_memory cc)) L a, t))
         (filter (\<lambda>(a, t). a \<in> set L) (cc_finalizers cc))
    \<and> ba_top (cc_alloc cc') = r_start (free_half cc) + sum_list (map (obj_size cls (cc_memory cc)) L)"
proof -
  note semi = cc_semi_ok [OF assms]
  obtain L m where run: "copy_collect cls cc = ret (collected cls cc L m)"
    and inv: "copying_inv cls (used_half cc) (free_half cc) (cc_rootset cc) (objects cs) (obj_size cls (cc_memory cc)) (cc_memory cc)
        L (scanned cls (free_half cc) (cc_rootset cc) (obj_size cls (cc_memory cc)) (cc_memory cc) L L) m"
    and L: "set L = reachable cls (used_half cc) (cc_memory cc) (cc_rootset cc)"
    using copy_collect_runs [OF assms] by blast
  show ?thesis
    using run L copied_word [OF semi inv] copied_root [OF inv] copying_invD(1) [OF inv]
    by (intro exI [of _ "collected cls cc L m"] exI [of _ L] conjI) (simp_all add: collected_def moved_finalizers_def)
qed

theorem copy_collect_preserves_live_objects_witness:
  "cc_ok demo_classes demo_cc demo_cells \<and> (\<exists>cc'. copy_collect demo_classes demo_cc = ret cc'
     \<and> cc_memory cc' (cc_memory cc' (cc_memory cc' 8 + 16) + 16) = 4104 \<and> cc_memory cc' (cc_memory cc' 8) = 5000
     \<and> cc_memory cc' 8 \<in> {2048, 2072} \<and> cc_finalizers cc' = [(cc_memory cc' (cc_memory cc' 8 + 16), 2)]
     \<and> ba_top (cc_alloc cc') = 2096)"
proof -
  let ?new = "\<lambda>L. new_at (free_half demo_cc) (obj_size demo_classes (cc_memory demo_cc)) L"
  let ?ref = "\<lambda>L. fwd_ref (used_half demo_cc) (free_half demo_cc) (obj_size demo_classes (cc_memory demo_cc)) L"
  obtain cc' L where run: "copy_collect demo_classes demo_cc = ret cc'" and L: "distinct L" "set L = {1048, 1080}"
    and words: "\<forall>a\<in>set L. \<forall>i < obj_size demo_classes (cc_memory demo_cc) a. cc_memory cc' (?new L a + i) =
      (if a + i \<in> set (obj_slots demo_classes (cc_memory demo_cc) a) then ?ref L (cc_memory demo_cc (a + i)) else cc_memory demo_cc (a + i))"
    and roots: "\<forall>r\<in>set (cc_rootset demo_cc). cc_memory cc' r = ?ref L (cc_memory demo_cc r)"
    and fin: "cc_finalizers cc' = map (\<lambda>(a, t). (?new L a, t)) (filter (\<lambda>(a, t). a \<in> set L) (cc_finalizers demo_cc))"
    and t: "ba_top (cc_alloc cc') = r_start (free_half demo_cc) + sum_list (map (obj_size demo_classes (cc_memory demo_cc)) L)"
    using copy_collect_preserves_live_objects [OF demo_cc_ok] unfolding demo_cc_reachable by blast
  have word: "cc_memory cc' (?new L a + i) = (if i = 16 then ?ref L (cc_memory demo_cc (a + i)) else cc_memory demo_cc (a + i))"
    if "a \<in> set L" "i < 24" for a i
    using words that by (simp add: demo_cc_slots demo_cc_size)
  have root: "cc_memory cc' 8 = ?ref L (cc_memory demo_cc 8)" using roots by (simp add: demo_cc_def)
  have mem: "cc_memory demo_cc 8 = 1048" "cc_memory demo_cc 1048 = 5000" "cc_memory demo_cc 1064 = 1080" "cc_memory demo_cc 1096 = 4104"
    "cc_finalizers demo_cc = [(1024, 1), (1080, 2)]"
    by (simp_all add: demo_cc_def demo_mc_def)
  have ref: "?ref L 1048 = ?new L 1048" "?ref L 1080 = ?new L 1080" "?ref L 4104 = 4104"
    by (simp_all add: fwd_ref_def demo_cc_halves r_contains_def)
  have len: "length L = 2" using distinct_card [OF L(1)] L(2) by simp
  obtain x y where xy: "L = [x, y]" using len by (metis One_nat_def Suc_1 length_0_conv length_Suc_conv)
  then have tot: "sum_list (map (obj_size demo_classes (cc_memory demo_cc)) L) = 48" by (simp add: demo_cc_size)
  have "(x = 1048 \<and> y = 1080) \<or> (x = 1080 \<and> y = 1048)" using L xy by auto
  then have pl: "?new L 1048 \<in> {2048, 2072}" using xy by (auto simp: new_at_def demo_cc_size demo_cc_halves)
  show ?thesis
    using demo_cc_ok run root fin t L word [of 1048 0] word [of 1048 16] word [of 1080 16] mem ref tot pl demo_cc_halves(2)
    by simp
qed

text \<open>C22.  A collection keeps the heap well formed: the copies fill the beginning of what was the free half
  without gaps, every reference from a copy or a root into the heap is to the start of a copy, the halves
  have changed places, and no more memory is in use than before.\<close>

theorem copy_collect_keeps_heap:
  assumes "cc_ok cls cc cs"
  shows "\<exists>cc' cs'. copy_collect cls cc = ret cc' \<and> cc_ok cls cc' cs'
    \<and> from_space cc' = to_space cc \<and> to_space cc' = from_space cc
    \<and> (\<forall>c\<in>set cs'. \<exists>a n. c = Object a n)
    \<and> ba_top (cc_alloc cc') - r_start (free_half cc) \<le> ba_top (cc_alloc cc) - r_start (used_half cc)"
proof -
  note semi = cc_semi_ok [OF assms] and H = halves [OF cc_okD(1) [OF assms]]
  let ?sz = "obj_size cls (cc_memory cc)"
  obtain L m where run: "copy_collect cls cc = ret (collected cls cc L m)"
    and inv: "copying_inv cls (used_half cc) (free_half cc) (cc_rootset cc) (objects cs) ?sz (cc_memory cc)
        L (scanned cls (free_half cc) (cc_rootset cc) ?sz (cc_memory cc) L L) m"
    and L: "set L = reachable cls (used_half cc) (cc_memory cc) (cc_rootset cc)"
    using copy_collect_runs [OF assms] by blast
  note ok = collected_ok [OF assms inv L]
  have swap: "used_half (collected cls cc L m) = free_half cc" "free_half (collected cls cc L m) = used_half cc"
    using halves_swap [OF cc_okD(1) [OF assms], of "collected cls cc L m"] by (simp_all add: collected_def)
  have "total ?sz L \<le> sum ?sz (objects cs)"
    using total_le [OF copying_invD(1,2) [OF inv] semi_okD(1) [OF semi]] .
  also have "\<dots> = live_size UNIV cs"
    using sum_objects [OF cc_okD(2) [OF assms], of ?sz] cc_okD(4) [OF assms] by (simp add: cc_object_ok_def)
  also have "\<dots> \<le> ba_top (cc_alloc cc) - r_start (used_half cc)"
    using live_size_le [OF cc_okD(2) [OF assms], of UNIV] by simp
  finally have "total ?sz L \<le> ba_top (cc_alloc cc) - r_start (used_half cc)" .
  then show ?thesis
    using run ok swap H(1,2) halves(1,2) [OF cc_okD(1) [OF ok]]
    by (intro exI [of _ "collected cls cc L m"] exI [of _ "copy_cells (free_half cc) ?sz L"] conjI)
      (auto simp: copy_cells_def collected_def)
qed

theorem copy_collect_keeps_heap_witness:
  "cc_ok demo_classes demo_cc demo_cells \<and> (\<exists>cc' cs'. copy_collect demo_classes demo_cc = ret cc' \<and> cc_ok demo_classes cc' cs'
     \<and> from_space cc' = Inr \<lparr>r_start = 2048, r_end = 3072\<rparr>)"
  using copy_collect_keeps_heap [OF demo_cc_ok] demo_cc_ok halves(2) [OF cc_okD(1) [OF demo_cc_ok]] demo_cc_halves(2) by auto

end
