(* ===== verification/X64Assembler.thy ===== *)
theory X64Assembler
  imports AsmBuffer
begin

text \<open>
  The x64 assembler (\<open>dora-asm/src/x64.rs\<close>): registers, immediates, memory operands, the prefix and operand
  bytes, every method that emits an instruction, and jumps to labels.  A method is the list of the calls in
  its body; \<open>x64_do\<close> runs them in order.  Additions of a register's low bits or of a condition to an opcode do
  not leave a byte.
\<close>

subsection \<open>Registers, conditions and immediates\<close>

datatype x64_register = X64Reg (reg_value: u8)

definition x64_register_new :: "u8 \<Rightarrow> x64_register result" where
  "x64_register_new v = rbind (rassert (v < 16)) (\<lambda>_. Inr (X64Reg v))"

definition low_bits :: "x64_register \<Rightarrow> u8" where
  "low_bits r = reg_value r AND 0b111"

definition needs_rex :: "x64_register \<Rightarrow> bool" where
  "needs_rex r = (7 < reg_value r)"

definition RAX :: x64_register where "RAX = X64Reg 0"
definition RCX :: x64_register where "RCX = X64Reg 1"
definition RDX :: x64_register where "RDX = X64Reg 2"
definition RBX :: x64_register where "RBX = X64Reg 3"
definition RSP :: x64_register where "RSP = X64Reg 4"
definition RBP :: x64_register where "RBP = X64Reg 5"
definition RSI :: x64_register where "RSI = X64Reg 6"
definition RDI :: x64_register where "RDI = X64Reg 7"
definition R8 :: x64_register where "R8 = X64Reg 8"
definition R9 :: x64_register where "R9 = X64Reg 9"
definition R10 :: x64_register where "R10 = X64Reg 10"
definition R11 :: x64_register where "R11 = X64Reg 11"
definition R12 :: x64_register where "R12 = X64Reg 12"
definition R13 :: x64_register where "R13 = X64Reg 13"
definition R14 :: x64_register where "R14 = X64Reg 14"
definition R15 :: x64_register where "R15 = X64Reg 15"

datatype xmm_register = XmmReg (xmm_value: u8)

definition xmm_low_bits :: "xmm_register \<Rightarrow> u8" where
  "xmm_low_bits r = xmm_value r AND 0b111"

definition xmm_needs_rex :: "xmm_register \<Rightarrow> bool" where
  "xmm_needs_rex r = (7 < xmm_value r)"

definition xmm_new :: "u8 \<Rightarrow> xmm_register" where
  "xmm_new v = XmmReg v"

definition XMM0 :: xmm_register where "XMM0 = XmmReg 0"
definition XMM1 :: xmm_register where "XMM1 = XmmReg 1"
definition XMM2 :: xmm_register where "XMM2 = XmmReg 2"
definition XMM3 :: xmm_register where "XMM3 = XmmReg 3"
definition XMM4 :: xmm_register where "XMM4 = XmmReg 4"
definition XMM5 :: xmm_register where "XMM5 = XmmReg 5"
definition XMM6 :: xmm_register where "XMM6 = XmmReg 6"
definition XMM7 :: xmm_register where "XMM7 = XmmReg 7"
definition XMM8 :: xmm_register where "XMM8 = XmmReg 8"
definition XMM9 :: xmm_register where "XMM9 = XmmReg 9"
definition XMM10 :: xmm_register where "XMM10 = XmmReg 10"
definition XMM11 :: xmm_register where "XMM11 = XmmReg 11"
definition XMM12 :: xmm_register where "XMM12 = XmmReg 12"
definition XMM13 :: xmm_register where "XMM13 = XmmReg 13"
definition XMM14 :: xmm_register where "XMM14 = XmmReg 14"
definition XMM15 :: xmm_register where "XMM15 = XmmReg 15"

datatype x64_condition =
    Overflow
  | NoOverflow
  | Below
  | NeitherAboveNorEqual
  | NotBelow
  | AboveOrEqual
  | Equal
  | Zero
  | NotEqual
  | NotZero
  | BelowOrEqual
  | NotAbove
  | NeitherBelowNorEqual
  | Above
  | Sign
  | NoSign
  | Parity
  | ParityEven
  | NoParity
  | ParityOdd
  | Less
  | NeitherGreaterNorEqual
  | NotLess
  | GreaterOrEqual
  | LessOrEqual
  | NotGreater
  | NeitherLessNorEqual
  | Greater

fun condition_int :: "x64_condition \<Rightarrow> u8" where
  "condition_int Overflow = 0b0000"
| "condition_int NoOverflow = 0b0001"
| "condition_int Below = 0b0010"
| "condition_int NeitherAboveNorEqual = 0b0010"
| "condition_int NotBelow = 0b0011"
| "condition_int AboveOrEqual = 0b0011"
| "condition_int Equal = 0b0100"
| "condition_int Zero = 0b0100"
| "condition_int NotEqual = 0b0101"
| "condition_int NotZero = 0b0101"
| "condition_int BelowOrEqual = 0b0110"
| "condition_int NotAbove = 0b0110"
| "condition_int NeitherBelowNorEqual = 0b0111"
| "condition_int Above = 0b0111"
| "condition_int Sign = 0b1000"
| "condition_int NoSign = 0b1001"
| "condition_int Parity = 0b1010"
| "condition_int ParityEven = 0b1010"
| "condition_int NoParity = 0b1011"
| "condition_int ParityOdd = 0b1011"
| "condition_int Less = 0b1100"
| "condition_int NeitherGreaterNorEqual = 0b1100"
| "condition_int NotLess = 0b1101"
| "condition_int GreaterOrEqual = 0b1101"
| "condition_int LessOrEqual = 0b1110"
| "condition_int NotGreater = 0b1110"
| "condition_int NeitherLessNorEqual = 0b1111"
| "condition_int Greater = 0b1111"

text \<open>An immediate is an \<open>i64\<close>.\<close>

type_synonym immediate = int

definition is_int8 :: "immediate \<Rightarrow> bool" where
  "is_int8 i = (- (2 ^ 7) \<le> i \<and> i < 2 ^ 7)"

definition is_int32 :: "immediate \<Rightarrow> bool" where
  "is_int32 i = (- (2 ^ 31) \<le> i \<and> i < 2 ^ 31)"

definition is_uint8 :: "immediate \<Rightarrow> bool" where
  "is_uint8 i = (0 \<le> i \<and> i < 256)"

definition is_uint32 :: "immediate \<Rightarrow> bool" where
  "is_uint32 i = (0 \<le> i \<and> i < 2 ^ 32)"

definition imm_uint8 :: "immediate \<Rightarrow> u8" where
  "imm_uint8 i = word_of_int i"

definition imm_int8 :: "immediate \<Rightarrow> int" where
  "imm_int8 i = sint (word_of_int i :: u8)"

definition imm_int32 :: "immediate \<Rightarrow> int" where
  "imm_int32 i = sint (word_of_int i :: u32)"

definition imm_uint32 :: "immediate \<Rightarrow> u32" where
  "imm_uint32 i = word_of_int i"

definition imm_int64 :: "immediate \<Rightarrow> int" where
  "imm_int64 i = i"

text \<open>The casts \<open>as u8\<close>, \<open>as u32\<close> and \<open>as u64\<close> of a signed integer.\<close>

definition int_as_u8 :: "int \<Rightarrow> u8" where "int_as_u8 i = word_of_int i"
definition int_as_u32 :: "int \<Rightarrow> u32" where "int_as_u32 i = word_of_int i"
definition int_as_u64 :: "int \<Rightarrow> u64" where "int_as_u64 i = word_of_int i"

subsection \<open>Memory operands\<close>

datatype scale_factor = One | Two | Four | Eight

fun scale_value :: "scale_factor \<Rightarrow> u8" where
  "scale_value One = 0"
| "scale_value Two = 1"
| "scale_value Four = 2"
| "scale_value Eight = 3"

record x64_address =
  ad_rex :: u8
  ad_length :: u8
  ad_bytes :: "u8 list"

definition address_new :: x64_address where
  "address_new = \<lparr>ad_rex = 0, ad_length = 0, ad_bytes = replicate 6 0\<rparr>"

definition set_modrm :: "u8 \<Rightarrow> x64_register \<Rightarrow> x64_address \<Rightarrow> x64_address result" where
  "set_modrm mode reg a =
     rbind (rassert (mode < 4)) (\<lambda>_.
     rbind (rassert (ad_length a = 0)) (\<lambda>_.
     let a = (if needs_rex reg then a\<lparr>ad_rex := ad_rex a OR 0x41\<rparr> else a) in
     Inr (a\<lparr>ad_bytes := (ad_bytes a)[0 := push_bit 6 mode OR low_bits reg], ad_length := ad_length a + 1\<rparr>)))"

definition set_sib :: "scale_factor \<Rightarrow> x64_register \<Rightarrow> x64_register \<Rightarrow> x64_address \<Rightarrow> x64_address result" where
  "set_sib scale index base a =
     rbind (rassert (ad_length a = 1)) (\<lambda>_.
     let a = (if needs_rex base then a\<lparr>ad_rex := ad_rex a OR 0x41\<rparr> else a);
         a = (if needs_rex index then a\<lparr>ad_rex := ad_rex a OR 0x42\<rparr> else a) in
     Inr (a\<lparr>ad_bytes := (ad_bytes a)[1 := push_bit 6 (scale_value scale) OR push_bit 3 (low_bits index) OR low_bits base],
            ad_length := ad_length a + 1\<rparr>))"

definition set_disp8 :: "int \<Rightarrow> x64_address \<Rightarrow> x64_address result" where
  "set_disp8 imm a =
     rbind (rassert (ad_length a = 1 \<or> ad_length a = 2)) (\<lambda>_.
     Inr (a\<lparr>ad_bytes := (ad_bytes a)[unat (ad_length a) := int_as_u8 imm], ad_length := ad_length a + 1\<rparr>))"

definition set_disp32 :: "int \<Rightarrow> x64_address \<Rightarrow> x64_address result" where
  "set_disp32 imm a =
     rbind (rassert (ad_length a = 1 \<or> ad_length a = 2)) (\<lambda>_.
     let idx = unat (ad_length a); imm = int_as_u32 imm in
     Inr (a\<lparr>ad_bytes := (ad_bytes a)[idx := ucast imm, idx + 1 := ucast (drop_bit 8 imm),
              idx + 2 := ucast (drop_bit 16 imm), idx + 3 := ucast (drop_bit 24 imm)],
            ad_length := ad_length a + 4\<rparr>))"

text \<open>The mode and the displacement that goes with it.\<close>

definition address_mode :: "x64_register \<Rightarrow> int \<Rightarrow> u8" where
  "address_mode base off = (if off = 0 \<and> base \<noteq> RBP then 0b00 else if -128 \<le> off \<and> off < 128 then 0b01 else 0b10)"

definition set_disp :: "u8 \<Rightarrow> int \<Rightarrow> x64_address \<Rightarrow> x64_address result" where
  "set_disp mode off a =
     (if mode = 0b00 then Inr a else if mode = 0b01 then set_disp8 (imm_int8 off) a
      else if mode = 0b10 then set_disp32 off a else Inl Unreachable)"

definition address_offset :: "x64_register \<Rightarrow> int \<Rightarrow> x64_address result" where
  "address_offset base off =
     (let mode = address_mode base off in
      rbind (set_modrm mode base address_new) (\<lambda>a.
      rbind (if base = RSP then set_sib One RSP base a else Inr a) (\<lambda>a.
      set_disp mode off a)))"

definition address_reg :: "x64_register \<Rightarrow> x64_address result" where
  "address_reg base = address_offset base 0"

definition address_index :: "x64_register \<Rightarrow> scale_factor \<Rightarrow> int \<Rightarrow> x64_address result" where
  "address_index index factor disp =
     rbind (set_modrm 0b00 RSP address_new) (\<lambda>a.
     rbind (rassert (index \<noteq> RSP)) (\<lambda>_.
     rbind (set_sib factor index RBP a) (\<lambda>a.
     set_disp32 disp a)))"

definition address_array :: "x64_register \<Rightarrow> x64_register \<Rightarrow> scale_factor \<Rightarrow> int \<Rightarrow> x64_address result" where
  "address_array base index factor disp =
     (let mode = address_mode base disp in
      rbind (set_modrm mode RSP address_new) (\<lambda>a.
      rbind (rassert (index \<noteq> RSP)) (\<lambda>_.
      rbind (set_sib factor index base a) (\<lambda>a.
      set_disp mode disp a))))"

definition address_rip :: "int \<Rightarrow> x64_address result" where
  "address_rip disp = rbind (set_modrm 0b00 RBP address_new) (set_disp32 disp)"

definition encoded_bytes :: "x64_address \<Rightarrow> u8 list" where
  "encoded_bytes a = take (unat (ad_length a)) (ad_bytes a)"

subsection \<open>The assembler\<close>

datatype jump_distance = Near | Far

record x64_forward_jump =
  xj_offset :: u32
  xj_label :: asm_label
  xj_distance :: jump_distance

record assembler_x64 =
  x64_unresolved :: "x64_forward_jump list"
  x64_buffer :: assembler_buffer

type_synonym x64_step = "assembler_x64 \<Rightarrow> assembler_x64 result"

definition x64_new :: assembler_x64 where
  "x64_new = \<lparr>x64_unresolved = [], x64_buffer = buffer_new\<rparr>"

fun x64_do :: "x64_step list \<Rightarrow> x64_step" where
  "x64_do [] s = Inr s"
| "x64_do (f # fs) s = rbind (f s) (x64_do fs)"

definition x64_assert :: "bool \<Rightarrow> x64_step" where
  "x64_assert b s = rbind (rassert b) (\<lambda>_. Inr s)"

definition on_buffer :: "(assembler_buffer \<Rightarrow> assembler_buffer result) \<Rightarrow> x64_step" where
  "on_buffer f s = rbind (f (x64_buffer s)) (\<lambda>b. Inr (s\<lparr>x64_buffer := b\<rparr>))"

definition x64_create_label :: "assembler_x64 \<Rightarrow> asm_label \<times> assembler_x64" where
  "x64_create_label s = (case buf_create_label (x64_buffer s) of (l, b) \<Rightarrow> (l, s\<lparr>x64_buffer := b\<rparr>))"

definition x64_create_and_bind_label :: "assembler_x64 \<Rightarrow> (asm_label \<times> assembler_x64) result" where
  "x64_create_and_bind_label s =
     rbind (buf_create_and_bind_label (x64_buffer s)) (\<lambda>(l, b). Inr (l, s\<lparr>x64_buffer := b\<rparr>))"

definition x64_bind_label :: "asm_label \<Rightarrow> x64_step" where
  "x64_bind_label lbl = on_buffer (buf_bind_label lbl)"

definition x64_offset :: "asm_label \<Rightarrow> assembler_x64 \<Rightarrow> u32 option result" where
  "x64_offset lbl s = buf_offset lbl (x64_buffer s)"

definition x64_position :: "assembler_x64 \<Rightarrow> usize" where
  "x64_position s = ab_position (x64_buffer s)"

definition x64_set_position :: "usize \<Rightarrow> assembler_x64 \<Rightarrow> assembler_x64" where
  "x64_set_position pos s = s\<lparr>x64_buffer := buf_set_position pos (x64_buffer s)\<rparr>"

definition x64_set_position_end :: "assembler_x64 \<Rightarrow> assembler_x64" where
  "x64_set_position_end s = s\<lparr>x64_buffer := buf_set_position_end (x64_buffer s)\<rparr>"

definition emit_u8 :: "u8 \<Rightarrow> x64_step" where
  "emit_u8 v = on_buffer (buf_emit_u8 v)"

definition emit_u32 :: "u32 \<Rightarrow> x64_step" where
  "emit_u32 v = on_buffer (buf_emit_u32 v)"

definition emit_u64 :: "u64 \<Rightarrow> x64_step" where
  "emit_u64 v = on_buffer (buf_emit_u64 v)"

subsection \<open>Prefixes and operand bytes\<close>

definition emit_lock_prefix :: x64_step where
  "emit_lock_prefix = emit_u8 0xF0"

definition emit_rex :: "bool \<Rightarrow> bool \<Rightarrow> bool \<Rightarrow> bool \<Rightarrow> x64_step" where
  "emit_rex w r x b = emit_u8 (0x40 OR push_bit 3 (of_bool w) OR push_bit 2 (of_bool r) OR push_bit 1 (of_bool x) OR of_bool b)"

definition emit_rex_optional :: "bool \<Rightarrow> bool \<Rightarrow> bool \<Rightarrow> bool \<Rightarrow> x64_step" where
  "emit_rex_optional w r x b = (if w \<or> r \<or> x \<or> b then emit_rex w r x b else Inr)"

definition emit_rex_sse_modrm_optional :: "xmm_register \<Rightarrow> xmm_register \<Rightarrow> x64_step" where
  "emit_rex_sse_modrm_optional reg rm =
     (if xmm_needs_rex reg \<or> xmm_needs_rex rm then emit_rex False (xmm_needs_rex reg) False (xmm_needs_rex rm) else Inr)"

definition emit_rex_sse_address_optional :: "xmm_register \<Rightarrow> x64_address \<Rightarrow> x64_step" where
  "emit_rex_sse_address_optional reg a =
     (if ad_rex a \<noteq> 0 \<or> xmm_needs_rex reg then emit_u8 (0x40 OR ad_rex a OR (if xmm_needs_rex reg then 0x04 else 0)) else Inr)"

definition emit_rex32_rm_optional :: "x64_register \<Rightarrow> x64_step" where
  "emit_rex32_rm_optional reg = (if needs_rex reg then emit_rex False False False True else Inr)"

definition emit_rex32_byte_optional :: "x64_register \<Rightarrow> x64_register \<Rightarrow> x64_step" where
  "emit_rex32_byte_optional reg rm =
     (if needs_rex reg \<or> needs_rex rm \<or> 3 < reg_value rm then emit_rex False (needs_rex reg) False (needs_rex rm) else Inr)"

definition emit_rex32_optional :: "x64_register \<Rightarrow> x64_register \<Rightarrow> x64_step" where
  "emit_rex32_optional reg rm =
     (if needs_rex reg \<or> needs_rex rm then emit_rex False (needs_rex reg) False (needs_rex rm) else Inr)"

definition emit_rex64 :: x64_step where
  "emit_rex64 = emit_rex True False False False"

definition emit_rex64_rm :: "x64_register \<Rightarrow> x64_step" where
  "emit_rex64_rm rm = emit_rex True False False (needs_rex rm)"

definition emit_rex64_modrm_address :: "x64_register \<Rightarrow> x64_address \<Rightarrow> x64_step" where
  "emit_rex64_modrm_address reg a = emit_u8 (0x48 OR ad_rex a OR (if needs_rex reg then 0x04 else 0))"

definition emit_rex64_address :: "x64_address \<Rightarrow> x64_step" where
  "emit_rex64_address a = emit_u8 (0x48 OR ad_rex a)"

definition emit_rex32_modrm_address :: "x64_register \<Rightarrow> x64_address \<Rightarrow> x64_step" where
  "emit_rex32_modrm_address reg a =
     (if ad_rex a \<noteq> 0 \<or> needs_rex reg then emit_u8 (0x40 OR ad_rex a OR (if needs_rex reg then 0x04 else 0)) else Inr)"

definition emit_rex32_byte_address :: "x64_register \<Rightarrow> x64_address \<Rightarrow> x64_step" where
  "emit_rex32_byte_address reg a =
     (if ad_rex a \<noteq> 0 \<or> 3 < reg_value reg then emit_u8 (0x40 OR ad_rex a OR (if needs_rex reg then 0x04 else 0)) else Inr)"

definition emit_rex32_address_optional :: "x64_address \<Rightarrow> x64_step" where
  "emit_rex32_address_optional a = (if ad_rex a \<noteq> 0 then emit_u8 (0x40 OR ad_rex a) else Inr)"

definition emit_rex64_modrm :: "x64_register \<Rightarrow> x64_register \<Rightarrow> x64_step" where
  "emit_rex64_modrm reg rm = emit_rex True (needs_rex reg) False (needs_rex rm)"

definition emit_modrm :: "u8 \<Rightarrow> u8 \<Rightarrow> u8 \<Rightarrow> x64_step" where
  "emit_modrm mode reg rm = x64_do [x64_assert (mode < 4), x64_assert (reg < 8), x64_assert (rm < 8),
     emit_u8 (push_bit 6 mode OR push_bit 3 reg OR rm)]"

definition emit_modrm_registers :: "x64_register \<Rightarrow> x64_register \<Rightarrow> x64_step" where
  "emit_modrm_registers reg rm = emit_modrm 0b11 (low_bits reg) (low_bits rm)"

definition emit_modrm_sse_registers :: "xmm_register \<Rightarrow> xmm_register \<Rightarrow> x64_step" where
  "emit_modrm_sse_registers reg rm = emit_modrm 0b11 (xmm_low_bits reg) (xmm_low_bits rm)"

definition emit_modrm_opcode :: "u8 \<Rightarrow> x64_register \<Rightarrow> x64_step" where
  "emit_modrm_opcode opcode reg = emit_modrm 0b11 opcode (low_bits reg)"

definition emit_address :: "u8 \<Rightarrow> x64_address \<Rightarrow> x64_step" where
  "emit_address reg_or_opcode a s =
     rbind (rassert (reg_or_opcode < 8)) (\<lambda>_.
     let bytes = encoded_bytes a in
     rbind (vec_get bytes 0) (\<lambda>modrm.
     x64_do (emit_u8 (push_bit 3 reg_or_opcode OR modrm) # map emit_u8 (drop 1 bytes)) s))"

definition emit_alu64_imm :: "x64_register \<Rightarrow> immediate \<Rightarrow> u8 \<Rightarrow> u8 \<Rightarrow> x64_step" where
  "emit_alu64_imm reg imm modrm_reg rax_opcode = x64_do ([x64_assert (is_int32 imm), emit_rex64_rm reg] @
     (if is_int8 imm then [emit_u8 0x83, emit_modrm_opcode modrm_reg reg, emit_u8 (int_as_u8 (imm_int8 imm))]
      else if reg = RAX then [emit_u8 rax_opcode, emit_u32 (int_as_u32 (imm_int32 imm))]
      else [emit_u8 0x81, emit_modrm_opcode modrm_reg reg, emit_u32 (int_as_u32 (imm_int32 imm))]))"

definition emit_alu32_imm :: "x64_register \<Rightarrow> immediate \<Rightarrow> u8 \<Rightarrow> u8 \<Rightarrow> x64_step" where
  "emit_alu32_imm reg imm modrm_reg rax_opcode = x64_do ([x64_assert (is_int32 imm), emit_rex32_rm_optional reg] @
     (if is_int8 imm then [emit_u8 0x83, emit_modrm_opcode modrm_reg reg, emit_u8 (int_as_u8 (imm_int8 imm))]
      else if reg = RAX then [emit_u8 rax_opcode, emit_u32 (int_as_u32 (imm_int32 imm))]
      else [emit_u8 0x81, emit_modrm_opcode modrm_reg reg, emit_u32 (int_as_u32 (imm_int32 imm))]))"

subsection \<open>Instructions\<close>

definition x64_pushq_r :: "x64_register \<Rightarrow> x64_step" where
  "x64_pushq_r reg = x64_do [emit_rex32_rm_optional reg, emit_u8 (0x50 + low_bits reg)]"

definition x64_popq_r :: "x64_register \<Rightarrow> x64_step" where
  "x64_popq_r reg = x64_do [emit_rex32_rm_optional reg, emit_u8 (0x58 + low_bits reg)]"

definition x64_int3 :: x64_step where
  "x64_int3 = emit_u8 0xCC"

definition x64_retq :: x64_step where
  "x64_retq = emit_u8 0xC3"

definition x64_nop :: x64_step where
  "x64_nop = emit_u8 0x90"

definition x64_setcc_r :: "x64_condition \<Rightarrow> x64_register \<Rightarrow> x64_step" where
  "x64_setcc_r condition dest = x64_do [
     if needs_rex dest \<or> 3 < low_bits dest then emit_rex False False False (needs_rex dest) else Inr,
     emit_u8 0x0F, emit_u8 (0x90 + condition_int condition), emit_modrm_opcode 0 dest]"

definition x64_cmovl :: "x64_condition \<Rightarrow> x64_register \<Rightarrow> x64_register \<Rightarrow> x64_step" where
  "x64_cmovl condition dest src = x64_do [emit_rex32_optional dest src, emit_u8 0x0F,
     emit_u8 (0x40 + condition_int condition), emit_modrm_registers dest src]"

definition x64_cmovq :: "x64_condition \<Rightarrow> x64_register \<Rightarrow> x64_register \<Rightarrow> x64_step" where
  "x64_cmovq condition dest src = x64_do [emit_rex64_modrm dest src, emit_u8 0x0F, emit_u8 (0x40 + condition_int condition),
     emit_modrm_registers dest src]"

definition x64_lea :: "x64_register \<Rightarrow> x64_address \<Rightarrow> x64_step" where
  "x64_lea dest src = x64_do [emit_rex64_modrm_address dest src, emit_u8 0x8D, emit_address (low_bits dest) src]"

definition x64_movq_rr :: "x64_register \<Rightarrow> x64_register \<Rightarrow> x64_step" where
  "x64_movq_rr dest src = x64_do [emit_rex64_modrm src dest, emit_u8 0x89, emit_modrm_registers src dest]"

definition x64_movq_ri :: "x64_register \<Rightarrow> immediate \<Rightarrow> x64_step" where
  "x64_movq_ri dest imm =
     (if is_int32 imm then x64_do [emit_rex64_rm dest, emit_u8 0xC7, emit_modrm_opcode 0 dest, emit_u32 (int_as_u32 (imm_int32 imm))]
      else x64_do [emit_rex64_rm dest, emit_u8 (0xB8 + low_bits dest), emit_u64 (int_as_u64 (imm_int64 imm))])"

definition x64_movq_ra :: "x64_register \<Rightarrow> x64_address \<Rightarrow> x64_step" where
  "x64_movq_ra dest src = x64_do [emit_rex64_modrm_address dest src, emit_u8 0x8B, emit_address (low_bits dest) src]"

definition x64_movb_ar :: "x64_address \<Rightarrow> x64_register \<Rightarrow> x64_step" where
  "x64_movb_ar dest src = x64_do [emit_rex32_byte_address src dest, emit_u8 0x88, emit_address (low_bits src) dest]"

definition x64_movb_ai :: "x64_address \<Rightarrow> immediate \<Rightarrow> x64_step" where
  "x64_movb_ai dest src = x64_do [x64_assert (is_int8 src \<or> is_uint8 src), emit_rex32_address_optional dest,
     emit_u8 0xc6, emit_address 0b000 dest, emit_u8 (imm_uint8 src)]"

definition x64_movq_ar :: "x64_address \<Rightarrow> x64_register \<Rightarrow> x64_step" where
  "x64_movq_ar dest src = x64_do [emit_rex64_modrm_address src dest, emit_u8 0x89, emit_address (low_bits src) dest]"

definition x64_movq_ai :: "x64_address \<Rightarrow> immediate \<Rightarrow> x64_step" where
  "x64_movq_ai dest imm = x64_do [x64_assert (is_int32 imm), emit_rex64_address dest, emit_u8 0xc7, emit_address 0b000 dest,
     emit_u32 (int_as_u32 (imm_int32 imm))]"

definition x64_movl_ra :: "x64_register \<Rightarrow> x64_address \<Rightarrow> x64_step" where
  "x64_movl_ra dest src = x64_do [emit_rex32_modrm_address dest src, emit_u8 0x8B, emit_address (low_bits dest) src]"

definition x64_movl_ar :: "x64_address \<Rightarrow> x64_register \<Rightarrow> x64_step" where
  "x64_movl_ar dest src = x64_do [emit_rex32_modrm_address src dest, emit_u8 0x89, emit_address (low_bits src) dest]"

definition x64_movl_ai :: "x64_address \<Rightarrow> immediate \<Rightarrow> x64_step" where
  "x64_movl_ai dest imm = x64_do [x64_assert (is_int32 imm \<or> is_uint32 imm), emit_rex32_address_optional dest,
     emit_u8 0xc7, emit_address 0b000 dest, emit_u32 (imm_uint32 imm)]"

definition x64_movl_rr :: "x64_register \<Rightarrow> x64_register \<Rightarrow> x64_step" where
  "x64_movl_rr dest src = x64_do [emit_rex32_optional src dest, emit_u8 0x89, emit_modrm_registers src dest]"

definition x64_movl_ri :: "x64_register \<Rightarrow> immediate \<Rightarrow> x64_step" where
  "x64_movl_ri dest imm = x64_do [x64_assert (is_int32 imm), emit_rex32_rm_optional dest, emit_u8 (0xB8 + low_bits dest),
     emit_u32 (int_as_u32 (imm_int32 imm))]"

definition x64_movzxb_rr :: "x64_register \<Rightarrow> x64_register \<Rightarrow> x64_step" where
  "x64_movzxb_rr dest src = x64_do [emit_rex32_byte_optional dest src, emit_u8 0x0f, emit_u8 0xb6, emit_modrm_registers dest src]"

definition x64_movzxb_ra :: "x64_register \<Rightarrow> x64_address \<Rightarrow> x64_step" where
  "x64_movzxb_ra dest src = x64_do [emit_rex32_modrm_address dest src, emit_u8 0x0f, emit_u8 0xb6, emit_address (low_bits dest) src]"

definition x64_movsxbl_rr :: "x64_register \<Rightarrow> x64_register \<Rightarrow> x64_step" where
  "x64_movsxbl_rr dest src = x64_do [emit_rex32_byte_optional dest src, emit_u8 0x0f, emit_u8 0xbe, emit_modrm_registers dest src]"

definition x64_movsxbl_ra :: "x64_register \<Rightarrow> x64_address \<Rightarrow> x64_step" where
  "x64_movsxbl_ra dest src = x64_do [emit_rex32_modrm_address dest src, emit_u8 0x0f, emit_u8 0xbe, emit_address (low_bits dest) src]"

definition x64_movsxbq_rr :: "x64_register \<Rightarrow> x64_register \<Rightarrow> x64_step" where
  "x64_movsxbq_rr dest src = x64_do [emit_rex64_modrm dest src, emit_u8 0x0f, emit_u8 0xbe, emit_modrm_registers dest src]"

definition x64_movsxbq_ra :: "x64_register \<Rightarrow> x64_address \<Rightarrow> x64_step" where
  "x64_movsxbq_ra dest src = x64_do [emit_rex64_modrm_address dest src, emit_u8 0x0f, emit_u8 0xbe, emit_address (low_bits dest) src]"

definition x64_movsxlq_rr :: "x64_register \<Rightarrow> x64_register \<Rightarrow> x64_step" where
  "x64_movsxlq_rr dest src = x64_do [emit_rex64_modrm dest src, emit_u8 0x63, emit_modrm_registers dest src]"

definition x64_movss_rr :: "xmm_register \<Rightarrow> xmm_register \<Rightarrow> x64_step" where
  "x64_movss_rr dest src = x64_do [emit_u8 0xf3, emit_rex_sse_modrm_optional dest src, emit_u8 0x0f, emit_u8 0x10,
     emit_modrm_sse_registers dest src]"

definition x64_movss_ra :: "xmm_register \<Rightarrow> x64_address \<Rightarrow> x64_step" where
  "x64_movss_ra dest src = x64_do [emit_u8 0xf3, emit_rex_sse_address_optional dest src, emit_u8 0x0f, emit_u8 0x10,
     emit_address (xmm_low_bits dest) src]"

definition x64_movss_ar :: "x64_address \<Rightarrow> xmm_register \<Rightarrow> x64_step" where
  "x64_movss_ar dest src = x64_do [emit_u8 0xf3, emit_rex_sse_address_optional src dest, emit_u8 0x0f, emit_u8 0x11,
     emit_address (xmm_low_bits src) dest]"

definition x64_movsd_rr :: "xmm_register \<Rightarrow> xmm_register \<Rightarrow> x64_step" where
  "x64_movsd_rr dest src = x64_do [emit_u8 0xf2, emit_rex_sse_modrm_optional dest src, emit_u8 0x0f, emit_u8 0x10,
     emit_modrm_sse_registers dest src]"

definition x64_movsd_ra :: "xmm_register \<Rightarrow> x64_address \<Rightarrow> x64_step" where
  "x64_movsd_ra dest src = x64_do [emit_u8 0xf2, emit_rex_sse_address_optional dest src, emit_u8 0x0f, emit_u8 0x10,
     emit_address (xmm_low_bits dest) src]"

definition x64_movsd_ar :: "x64_address \<Rightarrow> xmm_register \<Rightarrow> x64_step" where
  "x64_movsd_ar dest src = x64_do [emit_u8 0xf2, emit_rex_sse_address_optional src dest, emit_u8 0x0f, emit_u8 0x11,
     emit_address (xmm_low_bits src) dest]"

definition x64_addq_rr :: "x64_register \<Rightarrow> x64_register \<Rightarrow> x64_step" where
  "x64_addq_rr dest src = x64_do [emit_rex64_modrm src dest, emit_u8 0x01, emit_modrm_registers src dest]"

definition x64_addl_ri :: "x64_register \<Rightarrow> immediate \<Rightarrow> x64_step" where
  "x64_addl_ri dest imm = emit_alu32_imm dest imm 0b000 0x05"

definition x64_addq_ri :: "x64_register \<Rightarrow> immediate \<Rightarrow> x64_step" where
  "x64_addq_ri dest imm = emit_alu64_imm dest imm 0b000 0x05"

definition x64_addl_rr :: "x64_register \<Rightarrow> x64_register \<Rightarrow> x64_step" where
  "x64_addl_rr dest src = x64_do [emit_rex32_optional src dest, emit_u8 0x01, emit_modrm_registers src dest]"

definition x64_addss_rr :: "xmm_register \<Rightarrow> xmm_register \<Rightarrow> x64_step" where
  "x64_addss_rr dest src = x64_do [emit_u8 0xf3, emit_rex_sse_modrm_optional dest src, emit_u8 0x0f, emit_u8 0x58,
     emit_modrm_sse_registers dest src]"

definition x64_addsd_rr :: "xmm_register \<Rightarrow> xmm_register \<Rightarrow> x64_step" where
  "x64_addsd_rr dest src = x64_do [emit_u8 0xf2, emit_rex_sse_modrm_optional dest src, emit_u8 0x0f, emit_u8 0x58,
     emit_modrm_sse_registers dest src]"

definition x64_subq_rr :: "x64_register \<Rightarrow> x64_register \<Rightarrow> x64_step" where
  "x64_subq_rr dest src = x64_do [emit_rex64_modrm src dest, emit_u8 0x29, emit_modrm_registers src dest]"

definition x64_subq_ri :: "x64_register \<Rightarrow> immediate \<Rightarrow> x64_step" where
  "x64_subq_ri dest imm = emit_alu64_imm dest imm 0b101 0x2D"

definition x64_subq_ri32 :: "x64_register \<Rightarrow> immediate \<Rightarrow> x64_step" where
  "x64_subq_ri32 dest imm = emit_alu64_imm dest imm 0b101 0x2D"

definition x64_subl_rr :: "x64_register \<Rightarrow> x64_register \<Rightarrow> x64_step" where
  "x64_subl_rr dest src = x64_do [emit_rex32_optional src dest, emit_u8 0x29, emit_modrm_registers src dest]"

definition x64_subss_rr :: "xmm_register \<Rightarrow> xmm_register \<Rightarrow> x64_step" where
  "x64_subss_rr dest src = x64_do [emit_u8 0xf3, emit_rex_sse_modrm_optional dest src, emit_u8 0x0f, emit_u8 0x5c,
     emit_modrm_sse_registers dest src]"

definition x64_subsd_rr :: "xmm_register \<Rightarrow> xmm_register \<Rightarrow> x64_step" where
  "x64_subsd_rr dest src = x64_do [emit_u8 0xf2, emit_rex_sse_modrm_optional dest src, emit_u8 0x0f, emit_u8 0x5c,
     emit_modrm_sse_registers dest src]"

definition x64_andl_rr :: "x64_register \<Rightarrow> x64_register \<Rightarrow> x64_step" where
  "x64_andl_rr dest src = x64_do [emit_rex32_optional src dest, emit_u8 0x21, emit_modrm_registers src dest]"

definition x64_andq_rr :: "x64_register \<Rightarrow> x64_register \<Rightarrow> x64_step" where
  "x64_andq_rr dest src = x64_do [emit_rex64_modrm src dest, emit_u8 0x21, emit_modrm_registers src dest]"

definition x64_andq_ri :: "x64_register \<Rightarrow> immediate \<Rightarrow> x64_step" where
  "x64_andq_ri dest imm = emit_alu64_imm dest imm 0b100 0x25"

definition x64_cmpb_ar :: "x64_address \<Rightarrow> x64_register \<Rightarrow> x64_step" where
  "x64_cmpb_ar lhs rhs = x64_do [emit_rex32_byte_address rhs lhs, emit_u8 0x38, emit_address (low_bits rhs) lhs]"

definition x64_cmpb_ai :: "x64_address \<Rightarrow> immediate \<Rightarrow> x64_step" where
  "x64_cmpb_ai lhs rhs = x64_do [x64_assert (is_int8 rhs \<or> is_uint8 rhs), emit_rex32_address_optional lhs, emit_u8 0x80,
     emit_address 0b111 lhs, emit_u8 (imm_uint8 rhs)]"

definition x64_cmpl_rr :: "x64_register \<Rightarrow> x64_register \<Rightarrow> x64_step" where
  "x64_cmpl_rr dest src = x64_do [emit_rex32_optional src dest, emit_u8 0x39, emit_modrm_registers src dest]"

definition x64_cmpl_ar :: "x64_address \<Rightarrow> x64_register \<Rightarrow> x64_step" where
  "x64_cmpl_ar lhs rhs = x64_do [emit_rex32_modrm_address rhs lhs, emit_u8 0x39, emit_address (low_bits rhs) lhs]"

definition x64_cmpl_ai :: "x64_address \<Rightarrow> immediate \<Rightarrow> x64_step" where
  "x64_cmpl_ai lhs rhs = x64_do (x64_assert (is_int32 rhs \<or> is_uint32 rhs) #
     (if is_int8 rhs then [emit_rex32_address_optional lhs, emit_u8 0x83, emit_address 0b111 lhs, emit_u8 (int_as_u8 (imm_int8 rhs))]
      else [emit_rex32_address_optional lhs, emit_u8 0x81, emit_address 0b111 lhs, emit_u32 (imm_uint32 rhs)]))"

definition x64_cmpq_rr :: "x64_register \<Rightarrow> x64_register \<Rightarrow> x64_step" where
  "x64_cmpq_rr lhs rhs = x64_do [emit_rex64_modrm rhs lhs, emit_u8 0x39, emit_modrm_registers rhs lhs]"

definition x64_cmpq_ar :: "x64_address \<Rightarrow> x64_register \<Rightarrow> x64_step" where
  "x64_cmpq_ar lhs rhs = x64_do [emit_rex64_modrm_address rhs lhs, emit_u8 0x39, emit_address (low_bits rhs) lhs]"

definition x64_cmpq_ai :: "x64_address \<Rightarrow> immediate \<Rightarrow> x64_step" where
  "x64_cmpq_ai lhs rhs = x64_do (x64_assert (is_int32 rhs) #
     (if is_int8 rhs then [emit_rex64_address lhs, emit_u8 0x83, emit_address 0b111 lhs, emit_u8 (int_as_u8 (imm_int8 rhs))]
      else [emit_rex64_address lhs, emit_u8 0x81, emit_address 0b111 lhs, emit_u32 (int_as_u32 (imm_int32 rhs))]))"

definition x64_cmpq_ri :: "x64_register \<Rightarrow> immediate \<Rightarrow> x64_step" where
  "x64_cmpq_ri reg imm = emit_alu64_imm reg imm 0b111 0x3d"

definition x64_cmpl_ri :: "x64_register \<Rightarrow> immediate \<Rightarrow> x64_step" where
  "x64_cmpl_ri reg imm = emit_alu32_imm reg imm 0b111 0x3d"

definition x64_ucomiss_rr :: "xmm_register \<Rightarrow> xmm_register \<Rightarrow> x64_step" where
  "x64_ucomiss_rr dest src = x64_do [emit_rex_sse_modrm_optional dest src, emit_u8 0x0f, emit_u8 0x2e,
     emit_modrm_sse_registers dest src]"

definition x64_ucomisd_rr :: "xmm_register \<Rightarrow> xmm_register \<Rightarrow> x64_step" where
  "x64_ucomisd_rr dest src = x64_do [emit_u8 0x66, emit_rex_sse_modrm_optional dest src, emit_u8 0x0f, emit_u8 0x2e,
     emit_modrm_sse_registers dest src]"

definition x64_roundss_ri :: "xmm_register \<Rightarrow> immediate \<Rightarrow> x64_step" where
  "x64_roundss_ri reg imm = x64_do [emit_u8 0x66, emit_rex_sse_modrm_optional reg reg, emit_u8 0x0f, emit_u8 0x3a,
     emit_u8 0x0a, emit_modrm_sse_registers reg reg, emit_u8 (imm_uint8 imm)]"

definition x64_roundsd_ri :: "xmm_register \<Rightarrow> immediate \<Rightarrow> x64_step" where
  "x64_roundsd_ri reg imm = x64_do [emit_u8 0x66, emit_rex_sse_modrm_optional reg reg, emit_u8 0x0f, emit_u8 0x3a,
     emit_u8 0x0b, emit_modrm_sse_registers reg reg, emit_u8 (imm_uint8 imm)]"

definition x64_sqrtss_rr :: "xmm_register \<Rightarrow> xmm_register \<Rightarrow> x64_step" where
  "x64_sqrtss_rr dest src = x64_do [emit_u8 0xf3, emit_rex_sse_modrm_optional dest src, emit_u8 0x0f, emit_u8 0x51,
     emit_modrm_sse_registers dest src]"

definition x64_sqrtsd_rr :: "xmm_register \<Rightarrow> xmm_register \<Rightarrow> x64_step" where
  "x64_sqrtsd_rr dest src = x64_do [emit_u8 0xf2, emit_rex_sse_modrm_optional dest src, emit_u8 0x0f, emit_u8 0x51,
     emit_modrm_sse_registers dest src]"

definition x64_pxor_rr :: "xmm_register \<Rightarrow> xmm_register \<Rightarrow> x64_step" where
  "x64_pxor_rr dest src = x64_do [emit_u8 0x66, emit_rex_sse_modrm_optional dest src, emit_u8 0x0f, emit_u8 0xef,
     emit_modrm_sse_registers dest src]"

definition x64_orl_rr :: "x64_register \<Rightarrow> x64_register \<Rightarrow> x64_step" where
  "x64_orl_rr dest src = x64_do [emit_rex32_optional src dest, emit_u8 0x09, emit_modrm_registers src dest]"

definition x64_orq_rr :: "x64_register \<Rightarrow> x64_register \<Rightarrow> x64_step" where
  "x64_orq_rr dest src = x64_do [emit_rex64_modrm src dest, emit_u8 0x09, emit_modrm_registers src dest]"

definition x64_xchgq_ar :: "x64_address \<Rightarrow> x64_register \<Rightarrow> x64_step" where
  "x64_xchgq_ar dest src = x64_do [emit_rex64_modrm_address src dest, emit_u8 0x87, emit_address (low_bits src) dest]"

definition x64_xchgl_ar :: "x64_address \<Rightarrow> x64_register \<Rightarrow> x64_step" where
  "x64_xchgl_ar dest src = x64_do [emit_rex32_modrm_address src dest, emit_u8 0x87, emit_address (low_bits src) dest]"

definition x64_cmpxchgq_ar :: "x64_address \<Rightarrow> x64_register \<Rightarrow> x64_step" where
  "x64_cmpxchgq_ar dest src = x64_do [emit_rex64_modrm_address src dest, emit_u8 0x0f, emit_u8 0xb1, emit_address (low_bits src) dest]"

definition x64_cmpxchgl_ar :: "x64_address \<Rightarrow> x64_register \<Rightarrow> x64_step" where
  "x64_cmpxchgl_ar dest src = x64_do [emit_rex32_modrm_address src dest, emit_u8 0x0f, emit_u8 0xb1, emit_address (low_bits src) dest]"

definition x64_lock_cmpxchgq_ar :: "x64_address \<Rightarrow> x64_register \<Rightarrow> x64_step" where
  "x64_lock_cmpxchgq_ar dest src = x64_do [emit_lock_prefix, emit_rex64_modrm_address src dest, emit_u8 0x0f, emit_u8 0xb1,
     emit_address (low_bits src) dest]"

definition x64_lock_cmpxchgl_ar :: "x64_address \<Rightarrow> x64_register \<Rightarrow> x64_step" where
  "x64_lock_cmpxchgl_ar dest src = x64_do [emit_lock_prefix, emit_rex32_modrm_address src dest, emit_u8 0x0f, emit_u8 0xb1,
     emit_address (low_bits src) dest]"

definition x64_andps_ra :: "xmm_register \<Rightarrow> x64_address \<Rightarrow> x64_step" where
  "x64_andps_ra dest src = x64_do [emit_rex_sse_address_optional dest src, emit_u8 0x0f, emit_u8 0x54,
     emit_address (xmm_low_bits dest) src]"

definition x64_xorl_rr :: "x64_register \<Rightarrow> x64_register \<Rightarrow> x64_step" where
  "x64_xorl_rr dest src = x64_do [emit_rex32_optional src dest, emit_u8 0x31, emit_modrm_registers src dest]"

definition x64_xorl_ri :: "x64_register \<Rightarrow> immediate \<Rightarrow> x64_step" where
  "x64_xorl_ri lhs rhs = emit_alu32_imm lhs rhs 0b110 0x35"

definition x64_xorq_rr :: "x64_register \<Rightarrow> x64_register \<Rightarrow> x64_step" where
  "x64_xorq_rr dest src = x64_do [emit_rex64_modrm src dest, emit_u8 0x31, emit_modrm_registers src dest]"

definition x64_xorps_ra :: "xmm_register \<Rightarrow> x64_address \<Rightarrow> x64_step" where
  "x64_xorps_ra dest src = x64_do [emit_rex_sse_address_optional dest src, emit_u8 0x0f, emit_u8 0x57,
     emit_address (xmm_low_bits dest) src]"

definition x64_xorps_rr :: "xmm_register \<Rightarrow> xmm_register \<Rightarrow> x64_step" where
  "x64_xorps_rr dest src = x64_do [emit_rex_sse_modrm_optional dest src, emit_u8 0x0f, emit_u8 0x57,
     emit_modrm_sse_registers dest src]"

definition x64_xorpd_ra :: "xmm_register \<Rightarrow> x64_address \<Rightarrow> x64_step" where
  "x64_xorpd_ra dest src = x64_do [emit_u8 0x66, emit_rex_sse_address_optional dest src, emit_u8 0x0f, emit_u8 0x57,
     emit_address (xmm_low_bits dest) src]"

definition x64_testl_rr :: "x64_register \<Rightarrow> x64_register \<Rightarrow> x64_step" where
  "x64_testl_rr lhs rhs = x64_do [emit_rex32_optional rhs lhs, emit_u8 0x85, emit_modrm_registers rhs lhs]"

definition x64_testl_ri :: "x64_register \<Rightarrow> immediate \<Rightarrow> x64_step" where
  "x64_testl_ri lhs rhs = x64_do (x64_assert (is_int32 rhs) #
     (if is_uint8 rhs then
        (if lhs = RAX then [emit_u8 0xa8]
         else if reg_value lhs < 4 then [emit_u8 0xf6, emit_modrm_opcode 0b000 lhs]
         else [emit_rex False False False (needs_rex lhs), emit_u8 0xf6, emit_modrm_opcode 0b000 lhs]) @
        [emit_u8 (imm_uint8 rhs)]
      else if lhs = RAX then [emit_u8 0xa9, emit_u32 (int_as_u32 (imm_int32 rhs))]
      else [emit_u8 0xf7, emit_modrm_opcode 0b000 lhs, emit_u32 (int_as_u32 (imm_int32 rhs))]))"

definition x64_testl_ar :: "x64_address \<Rightarrow> x64_register \<Rightarrow> x64_step" where
  "x64_testl_ar lhs rhs = x64_do [emit_rex32_modrm_address rhs lhs, emit_u8 0x85, emit_address (low_bits rhs) lhs]"

definition x64_testl_ai :: "x64_address \<Rightarrow> immediate \<Rightarrow> x64_step" where
  "x64_testl_ai lhs rhs = x64_do [x64_assert (is_int32 rhs), emit_rex32_address_optional lhs, emit_u8 0xf7,
     emit_address 0b000 lhs, emit_u32 (int_as_u32 (imm_int32 rhs))]"

definition x64_testq_rr :: "x64_register \<Rightarrow> x64_register \<Rightarrow> x64_step" where
  "x64_testq_rr lhs rhs = x64_do [emit_rex64_modrm rhs lhs, emit_u8 0x85, emit_modrm_registers rhs lhs]"

definition x64_testq_ar :: "x64_address \<Rightarrow> x64_register \<Rightarrow> x64_step" where
  "x64_testq_ar lhs rhs = x64_do [emit_rex64_modrm_address rhs lhs, emit_u8 0x85, emit_address (low_bits rhs) lhs]"

definition x64_testq_ai :: "x64_address \<Rightarrow> immediate \<Rightarrow> x64_step" where
  "x64_testq_ai lhs rhs = x64_do [x64_assert (is_int32 rhs), emit_rex64_address lhs, emit_u8 0xf7, emit_address 0b000 lhs,
     emit_u32 (int_as_u32 (imm_int32 rhs))]"

definition x64_imull_rr :: "x64_register \<Rightarrow> x64_register \<Rightarrow> x64_step" where
  "x64_imull_rr dest src = x64_do [emit_rex32_optional dest src, emit_u8 0x0F, emit_u8 0xAF, emit_modrm_registers dest src]"

definition x64_imulq_rr :: "x64_register \<Rightarrow> x64_register \<Rightarrow> x64_step" where
  "x64_imulq_rr dest src = x64_do [emit_rex64_modrm dest src, emit_u8 0x0F, emit_u8 0xAF, emit_modrm_registers dest src]"

definition x64_mulss_rr :: "xmm_register \<Rightarrow> xmm_register \<Rightarrow> x64_step" where
  "x64_mulss_rr dest src = x64_do [emit_u8 0xf3, emit_rex_sse_modrm_optional dest src, emit_u8 0x0f, emit_u8 0x59,
     emit_modrm_sse_registers dest src]"

definition x64_mulsd_rr :: "xmm_register \<Rightarrow> xmm_register \<Rightarrow> x64_step" where
  "x64_mulsd_rr dest src = x64_do [emit_u8 0xf2, emit_rex_sse_modrm_optional dest src, emit_u8 0x0f, emit_u8 0x59,
     emit_modrm_sse_registers dest src]"

definition x64_divss_rr :: "xmm_register \<Rightarrow> xmm_register \<Rightarrow> x64_step" where
  "x64_divss_rr dest src = x64_do [emit_u8 0xf3, emit_rex_sse_modrm_optional dest src, emit_u8 0x0f, emit_u8 0x5e,
     emit_modrm_sse_registers dest src]"

definition x64_divsd_rr :: "xmm_register \<Rightarrow> xmm_register \<Rightarrow> x64_step" where
  "x64_divsd_rr dest src = x64_do [emit_u8 0xf2, emit_rex_sse_modrm_optional dest src, emit_u8 0x0f, emit_u8 0x5e,
     emit_modrm_sse_registers dest src]"

definition x64_idivl_r :: "x64_register \<Rightarrow> x64_step" where
  "x64_idivl_r reg = x64_do [emit_rex32_rm_optional reg, emit_u8 0xF7, emit_modrm_opcode 0b111 reg]"

definition x64_idivq_r :: "x64_register \<Rightarrow> x64_step" where
  "x64_idivq_r src = x64_do [emit_rex64_rm src, emit_u8 0xF7, emit_modrm_opcode 0b111 src]"

definition x64_call_r :: "x64_register \<Rightarrow> x64_step" where
  "x64_call_r reg = x64_do [emit_rex32_rm_optional reg, emit_u8 0xFF, emit_modrm_opcode 0b010 reg]"

definition x64_cdq :: x64_step where
  "x64_cdq = emit_u8 0x99"

definition x64_cqo :: x64_step where
  "x64_cqo = x64_do [emit_rex64, emit_u8 0x99]"

definition x64_negl :: "x64_register \<Rightarrow> x64_step" where
  "x64_negl reg = x64_do [emit_rex32_rm_optional reg, emit_u8 0xF7, emit_modrm_opcode 0b011 reg]"

definition x64_negq :: "x64_register \<Rightarrow> x64_step" where
  "x64_negq reg = x64_do [emit_rex64_rm reg, emit_u8 0xF7, emit_modrm_opcode 0b011 reg]"

definition x64_notl :: "x64_register \<Rightarrow> x64_step" where
  "x64_notl reg = x64_do [emit_rex32_rm_optional reg, emit_u8 0xF7, emit_modrm_opcode 0b010 reg]"

definition x64_notq :: "x64_register \<Rightarrow> x64_step" where
  "x64_notq reg = x64_do [emit_rex64_rm reg, emit_u8 0xF7, emit_modrm_opcode 0b010 reg]"

definition x64_jmp_r :: "x64_register \<Rightarrow> x64_step" where
  "x64_jmp_r reg = x64_do [emit_rex32_rm_optional reg, emit_u8 0xff, emit_modrm_opcode 0b100 reg]"

definition x64_tzcntl_rr :: "x64_register \<Rightarrow> x64_register \<Rightarrow> x64_step" where
  "x64_tzcntl_rr dest src = x64_do [emit_u8 0xf3, emit_rex32_optional dest src, emit_u8 0x0f, emit_u8 0xbc,
     emit_modrm_registers dest src]"

definition x64_tzcntq_rr :: "x64_register \<Rightarrow> x64_register \<Rightarrow> x64_step" where
  "x64_tzcntq_rr dest src = x64_do [emit_u8 0xf3, emit_rex64_modrm dest src, emit_u8 0x0f, emit_u8 0xbc,
     emit_modrm_registers dest src]"

definition x64_lzcntl_rr :: "x64_register \<Rightarrow> x64_register \<Rightarrow> x64_step" where
  "x64_lzcntl_rr dest src = x64_do [emit_u8 0xf3, emit_rex32_optional dest src, emit_u8 0x0f, emit_u8 0xbd,
     emit_modrm_registers dest src]"

definition x64_lzcntq_rr :: "x64_register \<Rightarrow> x64_register \<Rightarrow> x64_step" where
  "x64_lzcntq_rr dest src = x64_do [emit_u8 0xf3, emit_rex64_modrm dest src, emit_u8 0x0f, emit_u8 0xbd,
     emit_modrm_registers dest src]"

definition x64_popcntl_rr :: "x64_register \<Rightarrow> x64_register \<Rightarrow> x64_step" where
  "x64_popcntl_rr dest src = x64_do [emit_u8 0xf3, emit_rex32_optional dest src, emit_u8 0x0f, emit_u8 0xb8,
     emit_modrm_registers dest src]"

definition x64_popcntq_rr :: "x64_register \<Rightarrow> x64_register \<Rightarrow> x64_step" where
  "x64_popcntq_rr dest src = x64_do [emit_u8 0xf3, emit_rex64_modrm dest src, emit_u8 0x0f, emit_u8 0xb8,
     emit_modrm_registers dest src]"

definition x64_cvtsd2ss_rr :: "xmm_register \<Rightarrow> xmm_register \<Rightarrow> x64_step" where
  "x64_cvtsd2ss_rr dest src = x64_do [emit_u8 0xf2, emit_rex_sse_modrm_optional dest src, emit_u8 0x0f, emit_u8 0x5a,
     emit_modrm_sse_registers dest src]"

definition x64_cvtss2sd_rr :: "xmm_register \<Rightarrow> xmm_register \<Rightarrow> x64_step" where
  "x64_cvtss2sd_rr dest src = x64_do [emit_u8 0xf3, emit_rex_sse_modrm_optional dest src, emit_u8 0x0f, emit_u8 0x5a,
     emit_modrm_sse_registers dest src]"

definition x64_cvtsi2ssd_rr :: "xmm_register \<Rightarrow> x64_register \<Rightarrow> x64_step" where
  "x64_cvtsi2ssd_rr dest src = x64_do [emit_u8 0xf3, emit_rex_optional False (xmm_needs_rex dest) False (needs_rex src),
     emit_u8 0x0f, emit_u8 0x2a, emit_modrm 0b11 (xmm_low_bits dest) (low_bits src)]"

definition x64_cvtsi2ssq_rr :: "xmm_register \<Rightarrow> x64_register \<Rightarrow> x64_step" where
  "x64_cvtsi2ssq_rr dest src = x64_do [emit_u8 0xf3, emit_rex_optional True (xmm_needs_rex dest) False (needs_rex src),
     emit_u8 0x0f, emit_u8 0x2a, emit_modrm 0b11 (xmm_low_bits dest) (low_bits src)]"

definition x64_cvtsi2sdd_rr :: "xmm_register \<Rightarrow> x64_register \<Rightarrow> x64_step" where
  "x64_cvtsi2sdd_rr dest src = x64_do [emit_u8 0xf2, emit_rex_optional False (xmm_needs_rex dest) False (needs_rex src),
     emit_u8 0x0f, emit_u8 0x2a, emit_modrm 0b11 (xmm_low_bits dest) (low_bits src)]"

definition x64_cvtsi2sdq_rr :: "xmm_register \<Rightarrow> x64_register \<Rightarrow> x64_step" where
  "x64_cvtsi2sdq_rr dest src = x64_do [emit_u8 0xf2, emit_rex_optional True (xmm_needs_rex dest) False (needs_rex src),
     emit_u8 0x0f, emit_u8 0x2a, emit_modrm 0b11 (xmm_low_bits dest) (low_bits src)]"

definition x64_cvttss2sid_rr :: "x64_register \<Rightarrow> xmm_register \<Rightarrow> x64_step" where
  "x64_cvttss2sid_rr dest src = x64_do [emit_u8 0xf3, emit_rex_optional False (needs_rex dest) False (xmm_needs_rex src),
     emit_u8 0x0f, emit_u8 0x2c, emit_modrm 0b11 (low_bits dest) (xmm_low_bits src)]"

definition x64_cvttss2siq_rr :: "x64_register \<Rightarrow> xmm_register \<Rightarrow> x64_step" where
  "x64_cvttss2siq_rr dest src = x64_do [emit_u8 0xf3, emit_rex_optional True (needs_rex dest) False (xmm_needs_rex src),
     emit_u8 0x0f, emit_u8 0x2c, emit_modrm 0b11 (low_bits dest) (xmm_low_bits src)]"

definition x64_cvttsd2sid_rr :: "x64_register \<Rightarrow> xmm_register \<Rightarrow> x64_step" where
  "x64_cvttsd2sid_rr dest src = x64_do [emit_u8 0xf2, emit_rex_optional False (needs_rex dest) False (xmm_needs_rex src),
     emit_u8 0x0f, emit_u8 0x2c, emit_modrm 0b11 (low_bits dest) (xmm_low_bits src)]"

definition x64_cvttsd2siq_rr :: "x64_register \<Rightarrow> xmm_register \<Rightarrow> x64_step" where
  "x64_cvttsd2siq_rr dest src = x64_do [emit_u8 0xf2, emit_rex_optional True (needs_rex dest) False (xmm_needs_rex src),
     emit_u8 0x0f, emit_u8 0x2c, emit_modrm 0b11 (low_bits dest) (xmm_low_bits src)]"

definition x64_movd_rx :: "x64_register \<Rightarrow> xmm_register \<Rightarrow> x64_step" where
  "x64_movd_rx dest src = x64_do [emit_u8 0x66, emit_rex_optional False (xmm_needs_rex src) False (needs_rex dest),
     emit_u8 0x0f, emit_u8 0x7e, emit_modrm 0b11 (xmm_low_bits src) (low_bits dest)]"

definition x64_movd_xr :: "xmm_register \<Rightarrow> x64_register \<Rightarrow> x64_step" where
  "x64_movd_xr dest src = x64_do [emit_u8 0x66, emit_rex_optional False (xmm_needs_rex dest) False (needs_rex src),
     emit_u8 0x0f, emit_u8 0x6e, emit_modrm 0b11 (xmm_low_bits dest) (low_bits src)]"

definition x64_movq_rx :: "x64_register \<Rightarrow> xmm_register \<Rightarrow> x64_step" where
  "x64_movq_rx dest src = x64_do [emit_u8 0x66, emit_rex_optional True (xmm_needs_rex src) False (needs_rex dest),
     emit_u8 0x0f, emit_u8 0x7e, emit_modrm 0b11 (xmm_low_bits src) (low_bits dest)]"

definition x64_movq_xr :: "xmm_register \<Rightarrow> x64_register \<Rightarrow> x64_step" where
  "x64_movq_xr dest src = x64_do [emit_u8 0x66, emit_rex_optional True (xmm_needs_rex dest) False (needs_rex src),
     emit_u8 0x0f, emit_u8 0x6e, emit_modrm 0b11 (xmm_low_bits dest) (low_bits src)]"

definition x64_shrl_ri :: "x64_register \<Rightarrow> immediate \<Rightarrow> x64_step" where
  "x64_shrl_ri lhs rhs = x64_do [x64_assert (is_int8 rhs), emit_rex32_rm_optional lhs, emit_u8 0xc1,
     emit_modrm_opcode 0b101 lhs, emit_u8 (int_as_u8 (imm_int8 rhs))]"

definition x64_shrl_r :: "x64_register \<Rightarrow> x64_step" where
  "x64_shrl_r lhs = x64_do [emit_rex32_rm_optional lhs, emit_u8 0xd3, emit_modrm_opcode 0b101 lhs]"

definition x64_shll_r :: "x64_register \<Rightarrow> x64_step" where
  "x64_shll_r lhs = x64_do [emit_rex32_rm_optional lhs, emit_u8 0xd3, emit_modrm_opcode 0b100 lhs]"

definition x64_sarl_r :: "x64_register \<Rightarrow> x64_step" where
  "x64_sarl_r lhs = x64_do [emit_rex32_rm_optional lhs, emit_u8 0xd3, emit_modrm_opcode 0b111 lhs]"

definition x64_shrq_ri :: "x64_register \<Rightarrow> immediate \<Rightarrow> x64_step" where
  "x64_shrq_ri lhs rhs = x64_do [x64_assert (is_int8 rhs), emit_rex64_rm lhs, emit_u8 0xc1, emit_modrm_opcode 0b101 lhs,
     emit_u8 (int_as_u8 (imm_int8 rhs))]"

definition x64_shrq_r :: "x64_register \<Rightarrow> x64_step" where
  "x64_shrq_r lhs = x64_do [emit_rex64_rm lhs, emit_u8 0xd3, emit_modrm_opcode 0b101 lhs]"

definition x64_sarq_r :: "x64_register \<Rightarrow> x64_step" where
  "x64_sarq_r lhs = x64_do [emit_rex64_rm lhs, emit_u8 0xd3, emit_modrm_opcode 0b111 lhs]"

definition x64_sarl_ri :: "x64_register \<Rightarrow> immediate \<Rightarrow> x64_step" where
  "x64_sarl_ri lhs rhs = x64_do [x64_assert (is_int8 rhs), emit_rex32_rm_optional lhs, emit_u8 0xc1,
     emit_modrm_opcode 0b111 lhs, emit_u8 (int_as_u8 (imm_int8 rhs))]"

definition x64_sarq_ri :: "x64_register \<Rightarrow> immediate \<Rightarrow> x64_step" where
  "x64_sarq_ri lhs rhs = x64_do [x64_assert (is_int8 rhs), emit_rex64_rm lhs, emit_u8 0xc1, emit_modrm_opcode 0b111 lhs,
     emit_u8 (int_as_u8 (imm_int8 rhs))]"

definition x64_shll_ri :: "x64_register \<Rightarrow> immediate \<Rightarrow> x64_step" where
  "x64_shll_ri lhs rhs = x64_do [x64_assert (is_int8 rhs), emit_rex32_rm_optional lhs, emit_u8 0xc1,
     emit_modrm_opcode 0b100 lhs, emit_u8 (int_as_u8 (imm_int8 rhs))]"

definition x64_shlq_r :: "x64_register \<Rightarrow> x64_step" where
  "x64_shlq_r lhs = x64_do [emit_rex64_rm lhs, emit_u8 0xd3, emit_modrm_opcode 0b100 lhs]"

definition x64_shlq_ri :: "x64_register \<Rightarrow> immediate \<Rightarrow> x64_step" where
  "x64_shlq_ri lhs rhs = x64_do [x64_assert (is_int8 rhs), emit_rex64_rm lhs, emit_u8 0xc1, emit_modrm_opcode 0b100 lhs,
     emit_u8 (int_as_u8 (imm_int8 rhs))]"

definition x64_roll_r :: "x64_register \<Rightarrow> x64_step" where
  "x64_roll_r opnd = x64_do [emit_rex32_rm_optional opnd, emit_u8 0xd3, emit_modrm_opcode 0b000 opnd]"

definition x64_rolq_r :: "x64_register \<Rightarrow> x64_step" where
  "x64_rolq_r opnd = x64_do [emit_rex64_rm opnd, emit_u8 0xd3, emit_modrm_opcode 0b000 opnd]"

definition x64_rorl_r :: "x64_register \<Rightarrow> x64_step" where
  "x64_rorl_r opnd = x64_do [emit_rex32_rm_optional opnd, emit_u8 0xd3, emit_modrm_opcode 0b001 opnd]"

definition x64_rorq_r :: "x64_register \<Rightarrow> x64_step" where
  "x64_rorq_r opnd = x64_do [emit_rex64_rm opnd, emit_u8 0xd3, emit_modrm_opcode 0b001 opnd]"

definition x64_xaddq_ar :: "x64_address \<Rightarrow> x64_register \<Rightarrow> x64_step" where
  "x64_xaddq_ar dest src = x64_do [emit_rex64_modrm_address src dest, emit_u8 0x0f, emit_u8 0xc1, emit_address (low_bits src) dest]"

definition x64_xaddl_ar :: "x64_address \<Rightarrow> x64_register \<Rightarrow> x64_step" where
  "x64_xaddl_ar dest src = x64_do [emit_rex32_modrm_address src dest, emit_u8 0x0f, emit_u8 0xc1, emit_address (low_bits src) dest]"

definition x64_lock_xaddq_ar :: "x64_address \<Rightarrow> x64_register \<Rightarrow> x64_step" where
  "x64_lock_xaddq_ar dest src = x64_do [emit_lock_prefix, emit_rex64_modrm_address src dest, emit_u8 0x0f, emit_u8 0xc1,
     emit_address (low_bits src) dest]"

definition x64_lock_xaddl_ar :: "x64_address \<Rightarrow> x64_register \<Rightarrow> x64_step" where
  "x64_lock_xaddl_ar dest src = x64_do [emit_lock_prefix, emit_rex32_modrm_address src dest, emit_u8 0x0f, emit_u8 0xc1,
     emit_address (low_bits src) dest]"

subsection \<open>Jumps\<close>

definition x64_forward :: "asm_label \<Rightarrow> jump_distance \<Rightarrow> x64_step" where
  "x64_forward target distance s =
     rbind (try_u32 (x64_position s)) (\<lambda>pos.
     Inr (s\<lparr>x64_unresolved := x64_unresolved s @ [\<lparr>xj_offset = pos, xj_label = target, xj_distance = distance\<rparr>]\<rparr>))"

text \<open>The distance from the end of an instruction of \<open>len\<close> bytes back to a label.\<close>

definition back_distance :: "usize \<Rightarrow> u32 \<Rightarrow> assembler_x64 \<Rightarrow> int" where
  "back_distance len target_offset s = - int (x64_position s + len - unat target_offset)"

definition check_back :: "u32 \<Rightarrow> x64_step" where
  "check_back target_offset s = x64_assert (unat target_offset \<le> x64_position s) s"

definition x64_jcc :: "x64_condition \<Rightarrow> asm_label \<Rightarrow> x64_step" where
  "x64_jcc condition target s = rbind (x64_offset target s) (\<lambda>off.
     case off of
       Some target_offset \<Rightarrow>
         (let distance = back_distance 2 target_offset s in
          x64_do ([check_back target_offset, x64_assert (distance \<le> -2)] @
            (if -128 \<le> distance then [emit_u8 (0x70 + condition_int condition), emit_u8 (int_as_u8 distance)]
             else [emit_u8 0x0F, emit_u8 (0x80 + condition_int condition), emit_u32 (int_as_u32 (back_distance 6 target_offset s))])) s)
     | None \<Rightarrow> x64_do [emit_u8 0x0F, emit_u8 (0x80 + condition_int condition), x64_forward target Far, emit_u32 0] s)"

definition x64_jcc_near :: "x64_condition \<Rightarrow> asm_label \<Rightarrow> x64_step" where
  "x64_jcc_near condition target s = rbind (x64_offset target s) (\<lambda>off.
     case off of
       Some target_offset \<Rightarrow>
         (let distance = back_distance 2 target_offset s in
          x64_do [check_back target_offset, x64_assert (-128 \<le> distance \<and> distance \<le> -2),
            emit_u8 (0x70 + condition_int condition), emit_u8 (int_as_u8 distance)] s)
     | None \<Rightarrow> x64_do [emit_u8 (0x70 + condition_int condition), x64_forward target Near, emit_u8 0] s)"

definition x64_jmp :: "asm_label \<Rightarrow> x64_step" where
  "x64_jmp target s = rbind (x64_offset target s) (\<lambda>off.
     case off of
       Some target_offset \<Rightarrow>
         (let distance = back_distance 2 target_offset s in
          x64_do ([check_back target_offset, x64_assert (distance \<le> -2)] @
            (if -128 \<le> distance then [emit_u8 0xEB, emit_u8 (int_as_u8 distance)]
             else [emit_u8 0xE9, emit_u32 (int_as_u32 (back_distance 5 target_offset s))])) s)
     | None \<Rightarrow> x64_do [emit_u8 0xE9, x64_forward target Far, emit_u32 0] s)"

definition x64_jmp_near :: "asm_label \<Rightarrow> x64_step" where
  "x64_jmp_near target s = rbind (x64_offset target s) (\<lambda>off.
     case off of
       Some target_offset \<Rightarrow>
         (let distance = back_distance 2 target_offset s in
          x64_do [check_back target_offset, x64_assert (-128 \<le> distance \<and> distance \<le> -2),
            emit_u8 0xEB, emit_u8 (int_as_u8 distance)] s)
     | None \<Rightarrow> x64_do [emit_u8 0xEB, x64_forward target Near, emit_u8 0] s)"

subsection \<open>The end of assembly\<close>

definition x64_resolve_jump :: "x64_forward_jump \<Rightarrow> x64_step" where
  "x64_resolve_jump jmp s =
     rbind (x64_offset (xj_label jmp) s) (\<lambda>off.
     rbind (rexpect off) (\<lambda>lbl_offset.
     let s = x64_set_position (unat (xj_offset jmp)) s in
     case xj_distance jmp of
       Near \<Rightarrow>
         rbind (checked_i32 (as_i32 (xj_offset jmp) + 1)) (\<lambda>from_offset.
         rbind (checked_i32 (as_i32 lbl_offset - from_offset)) (\<lambda>distance.
         rbind (rassert (-128 \<le> distance \<and> distance < 128)) (\<lambda>_.
         emit_u8 (int_as_u8 distance) s)))
     | Far \<Rightarrow>
         rbind (checked_i32 (as_i32 (xj_offset jmp) + 4)) (\<lambda>from_offset.
         rbind (checked_i32 (as_i32 lbl_offset - from_offset)) (\<lambda>distance.
         emit_u32 (int_as_u32 distance) s))))"

definition x64_resolve_jumps :: x64_step where
  "x64_resolve_jumps s =
     (let jmps = x64_unresolved s; old_position = x64_position s in
      rbind (x64_do (map x64_resolve_jump jmps) (s\<lparr>x64_unresolved := []\<rparr>)) (\<lambda>s. Inr (x64_set_position old_position s)))"

text \<open>The loop that pads with \<open>int3\<close> may not end.\<close>

partial_function (option) x64_align_loop :: "usize \<Rightarrow> assembler_x64 \<Rightarrow> assembler_x64 result option" where
  "x64_align_loop alignment s =
     (if length (ab_code (x64_buffer s)) mod alignment \<noteq> 0 then
        (case x64_int3 s of Inl e \<Rightarrow> Some (Inl e) | Inr s' \<Rightarrow> x64_align_loop alignment s')
      else Some (Inr s))"

declare x64_align_loop.simps [code]

definition x64_align_to :: "usize \<Rightarrow> assembler_x64 \<Rightarrow> assembler_x64 result option" where
  "x64_align_to alignment s = (if alignment = 0 then Some (Inl ArithmeticOverflow) else x64_align_loop alignment s)"

definition x64_finalize :: "usize option \<Rightarrow> assembler_x64 \<Rightarrow> u8 list result option" where
  "x64_finalize alignment s =
     (case x64_resolve_jumps s of
        Inl e \<Rightarrow> Some (Inl e)
      | Inr s \<Rightarrow> map_option (\<lambda>res. rbind res (\<lambda>s. Inr (ab_code (x64_buffer s))))
          (case alignment of None \<Rightarrow> Some (Inr s) | Some al \<Rightarrow> x64_align_to al s))"

end
