(* ===== verification/X64Decode.thy ===== *)
theory X64Decode
  imports X64Assembler
begin

text \<open>
  A decoder for the part of the x64 instruction set that the assembler emits, after the architecture
  manual: a lock prefix, a mandatory prefix, a REX prefix, one to three opcode bytes, the ModRM and SIB
  bytes with a displacement, and an immediate.  The opcodes are a table in the manual's notation for
  operands.
\<close>

subsection \<open>Instructions\<close>

datatype x64_size = Byte | Dword | Qword

text \<open>A memory operand: base and index register, the index shifted left, and a displacement; or relative to
  the next instruction.\<close>

datatype x64_memory = MemAt "nat option" "(nat \<times> nat) option" int | RipAt int

datatype x64_operand =
    Gpr x64_size nat
  | HighByte nat
  | Xmm nat
  | Mem x64_size x64_memory
  | XmmMem x64_memory
  | Ea x64_memory
  | Imm int
  | Rel int
  | Cc nat

datatype (plugins only: size) mnemonic =
    ADD | OR' | AND' | SUB | XOR' | CMP | TEST | MOV | MOVSXD | MOVSX | MOVZX | LEA | XCHG | CMPXCHG | XADD
  | PUSH | POP | INT3 | RET | NOP | CONVERT | SHL | SHR | SAR | ROL | ROR | NOT' | NEG | IDIV | IMUL | CALL | JMP | JCC
  | CMOVCC | SETCC | POPCNT | TZCNT | LZCNT
  | MOVSS | MOVSD | ADDSS | ADDSD | SUBSS | SUBSD | MULSS | MULSD | DIVSS | DIVSD | SQRTSS | SQRTSD | UCOMISS | UCOMISD
  | CVTSS2SD | CVTSD2SS | CVTSI2SS | CVTSI2SD | CVTTSS2SI | CVTTSD2SI | ANDPS | XORPS | XORPD | PXOR | MOVDQ | ROUNDSS | ROUNDSD

datatype x64_instr = Instr (ins_lock: bool) (ins_mnemonic: mnemonic) (ins_operands: "x64_operand list")

subsection \<open>The opcode table\<close>

datatype x64_prefix = NoPrefix | P66 | PF2 | PF3

datatype opcode_map = OneByte | TwoByte | ThreeByte

text \<open>An opcode, one with a register in its low three bits, one with a condition in its low four bits, and
  one with a digit in the ModRM byte.\<close>

datatype opcode = Fixed u8 | PlusReg u8 | PlusCc u8 | Digit u8 u8

text \<open>Operands as in the manual: \<open>E\<close> the ModRM operand, \<open>G\<close> the ModRM register, \<open>V\<close> and \<open>W\<close> the same with
  vector registers, \<open>O\<close> the register in the opcode, \<open>A\<close> the accumulator, \<open>I\<close> an immediate, \<open>J\<close> a distance;
  \<open>v\<close> has the operand size, \<open>b\<close>, \<open>d\<close>, \<open>q\<close> a fixed one, \<open>z\<close> 32 bits.\<close>

datatype (plugins only: code size) opspec = Ev | Eb | Ed | Eq | M | Gv | Gb | V | W | Ov | Oq | Av | Ab | Ib | Ibs | Iz | Iv | Jb | Jz | CL | Cond

fun x64_table :: "opcode_map \<Rightarrow> x64_prefix \<Rightarrow> (opcode \<times> mnemonic \<times> opspec list) list" where
  "x64_table OneByte NoPrefix =
    [(Fixed 0x01, ADD, [Ev, Gv]), (Fixed 0x09, OR', [Ev, Gv]), (Fixed 0x21, AND', [Ev, Gv]), (Fixed 0x29, SUB, [Ev, Gv]),
     (Fixed 0x31, XOR', [Ev, Gv]), (Fixed 0x38, CMP, [Eb, Gb]), (Fixed 0x39, CMP, [Ev, Gv]), (Fixed 0x05, ADD, [Av, Iz]),
     (Fixed 0x25, AND', [Av, Iz]), (Fixed 0x2D, SUB, [Av, Iz]), (Fixed 0x35, XOR', [Av, Iz]), (Fixed 0x3D, CMP, [Av, Iz]),
     (PlusReg 0x50, PUSH, [Oq]), (PlusReg 0x58, POP, [Oq]), (Fixed 0x63, MOVSXD, [Gv, Ed]), (PlusCc 0x70, JCC, [Cond, Jb]),
     (Digit 0x80 7, CMP, [Eb, Ib]), (Digit 0x81 0, ADD, [Ev, Iz]), (Digit 0x81 4, AND', [Ev, Iz]), (Digit 0x81 5, SUB, [Ev, Iz]),
     (Digit 0x81 6, XOR', [Ev, Iz]), (Digit 0x81 7, CMP, [Ev, Iz]), (Digit 0x83 0, ADD, [Ev, Ibs]),
     (Digit 0x83 4, AND', [Ev, Ibs]), (Digit 0x83 5, SUB, [Ev, Ibs]), (Digit 0x83 6, XOR', [Ev, Ibs]),
     (Digit 0x83 7, CMP, [Ev, Ibs]), (Fixed 0x85, TEST, [Ev, Gv]), (Fixed 0x87, XCHG, [Ev, Gv]), (Fixed 0x88, MOV, [Eb, Gb]),
     (Fixed 0x89, MOV, [Ev, Gv]), (Fixed 0x8B, MOV, [Gv, Ev]), (Fixed 0x8D, LEA, [Gv, M]), (Fixed 0x90, NOP, []),
     (Fixed 0x99, CONVERT, [Av]), (Fixed 0xA8, TEST, [Ab, Ib]), (Fixed 0xA9, TEST, [Av, Iz]), (PlusReg 0xB8, MOV, [Ov, Iv]),
     (Digit 0xC1 4, SHL, [Ev, Ib]), (Digit 0xC1 5, SHR, [Ev, Ib]), (Digit 0xC1 7, SAR, [Ev, Ib]), (Fixed 0xC3, RET, []),
     (Digit 0xC6 0, MOV, [Eb, Ib]), (Digit 0xC7 0, MOV, [Ev, Iz]), (Fixed 0xCC, INT3, []), (Digit 0xD3 0, ROL, [Ev, CL]),
     (Digit 0xD3 1, ROR, [Ev, CL]), (Digit 0xD3 4, SHL, [Ev, CL]), (Digit 0xD3 5, SHR, [Ev, CL]), (Digit 0xD3 7, SAR, [Ev, CL]),
     (Fixed 0xE9, JMP, [Jz]), (Fixed 0xEB, JMP, [Jb]), (Digit 0xF6 0, TEST, [Eb, Ib]), (Digit 0xF7 0, TEST, [Ev, Iz]),
     (Digit 0xF7 2, NOT', [Ev]), (Digit 0xF7 3, NEG, [Ev]), (Digit 0xF7 7, IDIV, [Ev]), (Digit 0xFF 2, CALL, [Eq]),
     (Digit 0xFF 4, JMP, [Eq])]"
| "x64_table TwoByte NoPrefix =
    [(Fixed 0x2E, UCOMISS, [V, W]), (PlusCc 0x40, CMOVCC, [Cond, Gv, Ev]), (Fixed 0x54, ANDPS, [V, W]),
     (Fixed 0x57, XORPS, [V, W]), (PlusCc 0x80, JCC, [Cond, Jz]), (PlusCc 0x90, SETCC, [Cond, Eb]), (Fixed 0xAF, IMUL, [Gv, Ev]),
     (Fixed 0xB1, CMPXCHG, [Ev, Gv]), (Fixed 0xB6, MOVZX, [Gv, Eb]), (Fixed 0xBE, MOVSX, [Gv, Eb]), (Fixed 0xC1, XADD, [Ev, Gv])]"
| "x64_table TwoByte PF3 =
    [(Fixed 0x10, MOVSS, [V, W]), (Fixed 0x11, MOVSS, [W, V]), (Fixed 0x2A, CVTSI2SS, [V, Ev]), (Fixed 0x2C, CVTTSS2SI, [Gv, W]),
     (Fixed 0x51, SQRTSS, [V, W]), (Fixed 0x58, ADDSS, [V, W]), (Fixed 0x59, MULSS, [V, W]), (Fixed 0x5A, CVTSS2SD, [V, W]),
     (Fixed 0x5C, SUBSS, [V, W]), (Fixed 0x5E, DIVSS, [V, W]), (Fixed 0xB8, POPCNT, [Gv, Ev]), (Fixed 0xBC, TZCNT, [Gv, Ev]),
     (Fixed 0xBD, LZCNT, [Gv, Ev])]"
| "x64_table TwoByte PF2 =
    [(Fixed 0x10, MOVSD, [V, W]), (Fixed 0x11, MOVSD, [W, V]), (Fixed 0x2A, CVTSI2SD, [V, Ev]), (Fixed 0x2C, CVTTSD2SI, [Gv, W]),
     (Fixed 0x51, SQRTSD, [V, W]), (Fixed 0x58, ADDSD, [V, W]), (Fixed 0x59, MULSD, [V, W]), (Fixed 0x5A, CVTSD2SS, [V, W]),
     (Fixed 0x5C, SUBSD, [V, W]), (Fixed 0x5E, DIVSD, [V, W])]"
| "x64_table TwoByte P66 =
    [(Fixed 0x2E, UCOMISD, [V, W]), (Fixed 0x57, XORPD, [V, W]), (Fixed 0x6E, MOVDQ, [V, Ev]), (Fixed 0x7E, MOVDQ, [Ev, V]),
     (Fixed 0xEF, PXOR, [V, W])]"
| "x64_table ThreeByte P66 =
    [(Fixed 0x0A, ROUNDSS, [V, W, Ib]), (Fixed 0x0B, ROUNDSD, [V, W, Ib])]"
| "x64_table _ _ = []"

fun opcode_matches :: "opcode \<Rightarrow> u8 \<Rightarrow> u8 \<Rightarrow> bool" where
  "opcode_matches (Fixed c) op digit = (op = c)"
| "opcode_matches (PlusReg c) op digit = (op AND 0xF8 = c)"
| "opcode_matches (PlusCc c) op digit = (op AND 0xF0 = c)"
| "opcode_matches (Digit c n) op digit = (op = c \<and> digit = n)"

definition x64_lookup :: "opcode_map \<Rightarrow> x64_prefix \<Rightarrow> u8 \<Rightarrow> u8 \<Rightarrow> (mnemonic \<times> opspec list) option" where
  "x64_lookup mp pfx op digit = map_option snd (find (\<lambda>(c, _). opcode_matches c op digit) (x64_table mp pfx))"

subsection \<open>Decoding\<close>

text \<open>The four bits of a REX prefix: operand size, and the extensions of the register, index and base fields.\<close>

type_synonym rex = "(bool \<times> bool \<times> bool \<times> bool) option"

fun rex_bits :: "rex \<Rightarrow> bool \<times> bool \<times> bool \<times> bool" where
  "rex_bits None = (False, False, False, False)"
| "rex_bits (Some q) = q"

definition take_lock :: "u8 list \<Rightarrow> bool \<times> u8 list" where
  "take_lock bs = (case bs of [] \<Rightarrow> (False, []) | c # cs \<Rightarrow> if c = 0xF0 then (True, cs) else (False, bs))"

definition take_prefix :: "u8 list \<Rightarrow> x64_prefix \<times> u8 list" where
  "take_prefix bs = (case bs of [] \<Rightarrow> (NoPrefix, [])
     | c # cs \<Rightarrow> if c = 0x66 then (P66, cs) else if c = 0xF2 then (PF2, cs) else if c = 0xF3 then (PF3, cs) else (NoPrefix, bs))"

definition take_rex :: "u8 list \<Rightarrow> rex \<times> u8 list" where
  "take_rex bs = (case bs of [] \<Rightarrow> (None, [])
     | c # cs \<Rightarrow> if c AND 0xF0 = 0x40 then (Some (bit c 3, bit c 2, bit c 1, bit c 0), cs) else (None, bs))"

fun take_opcode :: "u8 list \<Rightarrow> (opcode_map \<times> u8 \<times> u8 list) option" where
  "take_opcode [] = None"
| "take_opcode (c # cs) =
     (if c \<noteq> 0x0F then Some (OneByte, c, cs)
      else (case cs of [] \<Rightarrow> None
            | d # ds \<Rightarrow> if d \<noteq> 0x3A then Some (TwoByte, d, ds)
                       else (case ds of [] \<Rightarrow> None | e # es \<Rightarrow> Some (ThreeByte, e, es))))"

definition mode_field :: "u8 \<Rightarrow> u8" where "mode_field m = drop_bit 6 m"
definition reg_field :: "u8 \<Rightarrow> u8" where "reg_field m = drop_bit 3 m AND 7"
definition rm_field :: "u8 \<Rightarrow> u8" where "rm_field m = m AND 7"

definition extend_reg :: "bool \<Rightarrow> u8 \<Rightarrow> nat" where
  "extend_reg ext f = unat f + (if ext then 8 else 0)"

definition take_i8 :: "u8 list \<Rightarrow> (int \<times> u8 list) option" where
  "take_i8 bs = (case bs of [] \<Rightarrow> None | c # cs \<Rightarrow> Some (sint c, cs))"

definition take_i32 :: "u8 list \<Rightarrow> (int \<times> u8 list) option" where
  "take_i32 bs = (if length bs < 4 then None else Some (sint (bytes_u32 bs), drop 4 bs))"

definition bytes_u64 :: "u8 list \<Rightarrow> u64" where
  "bytes_u64 bs = ucast (bytes_u32 bs) OR push_bit 32 (ucast (bytes_u32 (drop 4 bs)))"

definition take_i64 :: "u8 list \<Rightarrow> (int \<times> u8 list) option" where
  "take_i64 bs = (if length bs < 8 then None else Some (sint (bytes_u64 bs), drop 8 bs))"

definition take_disp :: "u8 \<Rightarrow> u8 list \<Rightarrow> (int \<times> u8 list) option" where
  "take_disp mode bs = (if mode = 1 then take_i8 bs else if mode = 2 then take_i32 bs else Some (0, bs))"

datatype modrm_operand = RmReg nat | RmMem x64_memory

text \<open>The operand of a ModRM byte, with the extensions of the index and the base field.\<close>

definition take_rm :: "bool \<Rightarrow> bool \<Rightarrow> u8 list \<Rightarrow> (modrm_operand \<times> u8 list) option" where
  "take_rm x b bs = (case bs of [] \<Rightarrow> None | m # ms \<Rightarrow>
     if mode_field m = 3 then Some (RmReg (extend_reg b (rm_field m)), ms)
     else if rm_field m = 4 then
       (case ms of [] \<Rightarrow> None | sib # ss \<Rightarrow>
          let index = extend_reg x (reg_field sib);
              idx = (if index = 4 then None else Some (index, unat (mode_field sib))) in
          if mode_field m = 0 \<and> rm_field sib = 5
          then map_option (\<lambda>(d, rest). (RmMem (MemAt None idx d), rest)) (take_i32 ss)
          else map_option (\<lambda>(d, rest). (RmMem (MemAt (Some (extend_reg b (rm_field sib))) idx d), rest)) (take_disp (mode_field m) ss))
     else if mode_field m = 0 \<and> rm_field m = 5 then map_option (\<lambda>(d, rest). (RmMem (RipAt d), rest)) (take_i32 ms)
     else map_option (\<lambda>(d, rest). (RmMem (MemAt (Some (extend_reg b (rm_field m))) None d), rest)) (take_disp (mode_field m) ms))"

definition has_modrm :: "opspec list \<Rightarrow> bool" where
  "has_modrm specs = list_ex (\<lambda>s. s \<in> {Ev, Eb, Ed, Eq, M, Gv, Gb, V, W}) specs"

definition take_modrm :: "opspec list \<Rightarrow> rex \<Rightarrow> u8 list \<Rightarrow> ((nat \<times> modrm_operand) \<times> u8 list) option" where
  "take_modrm specs rx bs = (case rex_bits rx of (w, r, x, b) \<Rightarrow>
     if has_modrm specs
     then map_option (\<lambda>(rm, rest). ((extend_reg r (reg_field (hd bs)), rm), rest)) (take_rm x b bs)
     else Some ((0, RmReg 0), bs))"

fun take_imm :: "opspec list \<Rightarrow> rex \<Rightarrow> u8 list \<Rightarrow> (int \<times> u8 list) option" where
  "take_imm [] rx bs = Some (0, bs)"
| "take_imm (s # specs) rx bs =
     (if s = Ib then (case bs of [] \<Rightarrow> None | c # cs \<Rightarrow> Some (uint c, cs))
      else if s = Ibs \<or> s = Jb then take_i8 bs
      else if s = Iz \<or> s = Jz then take_i32 bs
      else if s = Iv then (if fst (rex_bits rx) then take_i64 bs else take_i32 bs)
      else take_imm specs rx bs)"

text \<open>Without a REX prefix the byte registers 4 to 7 are the high bytes of the first four registers.\<close>

definition byte_reg :: "rex \<Rightarrow> nat \<Rightarrow> x64_operand" where
  "byte_reg rx n = (if rx = None \<and> 4 \<le> n \<and> n < 8 then HighByte (n - 4) else Gpr Byte n)"

definition v_size :: "rex \<Rightarrow> x64_size" where
  "v_size rx = (if fst (rex_bits rx) then Qword else Dword)"

fun gpr_rm :: "x64_size \<Rightarrow> modrm_operand \<Rightarrow> x64_operand" where
  "gpr_rm sz (RmReg n) = Gpr sz n"
| "gpr_rm sz (RmMem m) = Mem sz m"

fun byte_rm :: "rex \<Rightarrow> modrm_operand \<Rightarrow> x64_operand" where
  "byte_rm rx (RmReg n) = byte_reg rx n"
| "byte_rm rx (RmMem m) = Mem Byte m"

fun xmm_rm :: "modrm_operand \<Rightarrow> x64_operand" where
  "xmm_rm (RmReg n) = Xmm n"
| "xmm_rm (RmMem m) = XmmMem m"

fun ea_rm :: "modrm_operand \<Rightarrow> x64_operand" where
  "ea_rm (RmReg n) = Gpr Qword n"
| "ea_rm (RmMem m) = Ea m"

definition op_reg :: "rex \<Rightarrow> u8 \<Rightarrow> nat" where
  "op_reg rx op = (case rex_bits rx of (w, r, x, b) \<Rightarrow> extend_reg b (op AND 7))"

fun operand :: "rex \<Rightarrow> u8 \<Rightarrow> nat \<Rightarrow> modrm_operand \<Rightarrow> int \<Rightarrow> opspec \<Rightarrow> x64_operand" where
  "operand rx op reg rm imm Ev = gpr_rm (v_size rx) rm"
| "operand rx op reg rm imm Eb = byte_rm rx rm"
| "operand rx op reg rm imm Ed = gpr_rm Dword rm"
| "operand rx op reg rm imm Eq = gpr_rm Qword rm"
| "operand rx op reg rm imm M = ea_rm rm"
| "operand rx op reg rm imm Gv = Gpr (v_size rx) reg"
| "operand rx op reg rm imm Gb = byte_reg rx reg"
| "operand rx op reg rm imm V = Xmm reg"
| "operand rx op reg rm imm W = xmm_rm rm"
| "operand rx op reg rm imm Ov = Gpr (v_size rx) (op_reg rx op)"
| "operand rx op reg rm imm Oq = Gpr Qword (op_reg rx op)"
| "operand rx op reg rm imm Av = Gpr (v_size rx) 0"
| "operand rx op reg rm imm Ab = Gpr Byte 0"
| "operand rx op reg rm imm CL = Gpr Byte 1"
| "operand rx op reg rm imm Cond = Cc (unat (op AND 0xF))"
| "operand rx op reg rm imm Jb = Rel imm"
| "operand rx op reg rm imm Jz = Rel imm"
| "operand rx op reg rm imm _ = Imm imm"

definition x64_decode :: "u8 list \<Rightarrow> (x64_instr \<times> u8 list) option" where
  "x64_decode bs =
     (let (lock, bs) = take_lock bs; (pfx, bs) = take_prefix bs; (rx, bs) = take_rex bs in
      Option.bind (take_opcode bs) (\<lambda>(mp, op, bs).
      Option.bind (x64_lookup mp pfx op (case bs of [] \<Rightarrow> 0 | m # _ \<Rightarrow> reg_field m)) (\<lambda>(mn, specs).
      Option.bind (take_modrm specs rx bs) (\<lambda>((reg, rm), bs).
      Option.bind (take_imm specs rx bs) (\<lambda>(imm, bs).
      Some (Instr lock mn (map (operand rx op reg rm imm) specs), bs))))))"

end
