(* ===== verification/X64Encodings.thy ===== *)
theory X64Encodings
  imports X64Decode
begin

text \<open>
  What the parts of a method emit, and how the decoder reads it.  A method that is called at the end of the
  code appends bytes; the decoder takes an instruction apart again in the order in which its parts were
  emitted.
\<close>

subsection \<open>Appending\<close>

definition x64_append :: "u8 list \<Rightarrow> assembler_x64 \<Rightarrow> assembler_x64" where
  "x64_append bs s = s\<lparr>x64_buffer := (x64_buffer s)\<lparr>ab_code := ab_code (x64_buffer s) @ bs, ab_position := ab_position (x64_buffer s) + length bs\<rparr>\<rparr>"

definition x64_at_end :: "assembler_x64 \<Rightarrow> bool" where
  "x64_at_end s \<longleftrightarrow> ab_position (x64_buffer s) = length (ab_code (x64_buffer s))"

definition emits :: "x64_step \<Rightarrow> u8 list \<Rightarrow> bool" where
  "emits f bs \<longleftrightarrow> (\<forall>s. x64_at_end s \<longrightarrow> f s = Inr (x64_append bs s))"

named_theorems emits_intros \<open>what the steps of a method emit\<close>

lemma x64_append_simps [simp]:
  "x64_append [] s = s" "x64_append bs (x64_append as s) = x64_append (as @ bs) s" "x64_at_end s \<Longrightarrow> x64_at_end (x64_append bs s)"
  by (simp_all add: x64_append_def x64_at_end_def add.assoc)

lemma emits_basic [emits_intros]:
  "emits (emit_u8 v) [v]" "emits (emit_u32 w) (u32_bytes w)" "emits (emit_u64 d) (u64_bytes d)" "emits Inr []"
  by (simp_all add: emits_def x64_at_end_def x64_append_def emit_u8_def emit_u32_def emit_u64_def on_buffer_def buf_emit_u8_def
      buf_emit_u32_def buf_emit_u64_def buf_write_def u64_bytes_def)

lemma emits_assert [emits_intros]: "b \<Longrightarrow> emits (x64_assert b) []"
  by (simp add: emits_def x64_assert_def)

lemma emits_Nil [emits_intros]: "emits (x64_do []) []"
  by (simp add: emits_def)

lemma emits_Cons [emits_intros]: "emits f as \<Longrightarrow> emits (x64_do fs) bs \<Longrightarrow> emits (x64_do (f # fs)) (as @ bs)"
  by (simp add: emits_def)

lemma emits_if [emits_intros]: "(b \<Longrightarrow> emits f as) \<Longrightarrow> (\<not> b \<Longrightarrow> emits g bs) \<Longrightarrow> emits (if b then f else g) (if b then as else bs)"
  by simp

lemma emits_all: "emits (x64_do (map emit_u8 bs)) bs"
proof (induction bs)
  case (Cons b bs)
  from emits_Cons [OF emits_basic(1) this, of b] show ?case by (simp del: x64_do.simps)
qed (simp add: emits_basic)

subsection \<open>Prefixes\<close>

fun rex_byte :: "bool \<times> bool \<times> bool \<times> bool \<Rightarrow> u8" where
  "rex_byte (w, r, x, b) = 0x40 OR push_bit 3 (of_bool w) OR push_bit 2 (of_bool r) OR push_bit 1 (of_bool x) OR of_bool b"

declare rex_byte.simps [simp del]

fun rex_bytes :: "rex \<Rightarrow> u8 list" where
  "rex_bytes None = []"
| "rex_bytes (Some q) = [rex_byte q]"

fun prefix_bytes :: "x64_prefix \<Rightarrow> u8 list" where
  "prefix_bytes NoPrefix = []"
| "prefix_bytes P66 = [0x66]"
| "prefix_bytes PF2 = [0xF2]"
| "prefix_bytes PF3 = [0xF3]"

fun opcode_bytes :: "opcode_map \<Rightarrow> u8 \<Rightarrow> u8 list" where
  "opcode_bytes OneByte op = [op]"
| "opcode_bytes TwoByte op = [0x0F, op]"
| "opcode_bytes ThreeByte op = [0x0F, 0x3A, op]"

text \<open>A REX prefix that is left out when it has nothing to say, or when no byte register needs it.\<close>

definition rex_if :: "bool \<Rightarrow> bool \<Rightarrow> bool \<Rightarrow> bool \<Rightarrow> bool \<Rightarrow> rex" where
  "rex_if force w r x b = (if force \<or> w \<or> r \<or> x \<or> b then Some (w, r, x, b) else None)"

lemma rex_if_bits [simp]: "rex_bits (rex_if force w r x b) = (w, r, x, b)"
  by (simp add: rex_if_def)

lemma rex_byte_fields:
  "rex_byte (w, r, x, b) AND 0xF0 = 0x40" "bit (rex_byte (w, r, x, b)) 3 = w" "bit (rex_byte (w, r, x, b)) 2 = r"
  "bit (rex_byte (w, r, x, b)) (Suc 0) = x" "bit (rex_byte (w, r, x, b)) 0 = b"
  "rex_byte (w, r, x, b) \<noteq> 0xF0" "rex_byte (w, r, x, b) \<noteq> 0x66" "rex_byte (w, r, x, b) \<noteq> 0xF2" "rex_byte (w, r, x, b) \<noteq> 0xF3"
  by (cases w; cases r; cases x; cases b; simp add: rex_byte.simps bit_simps)+

lemma emits_rex [emits_intros]: "emits (emit_rex w r x b) (rex_bytes (rex_if True w r x b))"
  using emits_basic(1) by (simp add: emit_rex_def rex_if_def rex_byte.simps)

lemma emits_rex_optional [emits_intros]: "emits (emit_rex_optional w r x b) (rex_bytes (rex_if False w r x b))"
  using emits_rex [of w r x b] by (auto simp: emit_rex_optional_def rex_if_def intro: emits_intros)

lemma emits_rex_registers [emits_intros]:
  "emits (emit_rex_sse_modrm_optional v w) (rex_bytes (rex_if False False (xmm_needs_rex v) False (xmm_needs_rex w)))"
  "emits (emit_rex32_rm_optional q) (rex_bytes (rex_if False False False False (needs_rex q)))"
  "emits (emit_rex32_byte_optional p q) (rex_bytes (rex_if (3 < reg_value q) False (needs_rex p) False (needs_rex q)))"
  "emits (emit_rex32_optional p q) (rex_bytes (rex_if False False (needs_rex p) False (needs_rex q)))"
  "emits emit_rex64 (rex_bytes (rex_if True True False False False))"
  "emits (emit_rex64_rm q) (rex_bytes (rex_if True True False False (needs_rex q)))"
  "emits (emit_rex64_modrm p q) (rex_bytes (rex_if True True (needs_rex p) False (needs_rex q)))"
  using emits_rex emits_basic(4)
  by (auto simp: emit_rex_sse_modrm_optional_def emit_rex32_rm_optional_def emit_rex32_byte_optional_def emit_rex32_optional_def
      emit_rex64_def emit_rex64_rm_def emit_rex64_modrm_def rex_if_def)

lemma emits_lock [emits_intros]: "emits emit_lock_prefix [0xF0]"
  using emits_basic(1) by (simp add: emit_lock_prefix_def)

subsection \<open>Registers and the ModRM byte\<close>

definition valid_reg :: "x64_register \<Rightarrow> bool" where "valid_reg r \<longleftrightarrow> reg_value r < 16"
definition valid_xmm :: "xmm_register \<Rightarrow> bool" where "valid_xmm r \<longleftrightarrow> xmm_value r < 16"
definition reg_no :: "x64_register \<Rightarrow> nat" where "reg_no r = unat (reg_value r)"
definition xmm_no :: "xmm_register \<Rightarrow> nat" where "xmm_no r = unat (xmm_value r)"

lemma u8_less_16: "(v :: u8) < 16 \<longleftrightarrow> v \<in> {0, 1, 2, 3, 4, 5, 6, 7, 8, 9, 10, 11, 12, 13, 14, 15}"
proof
  assume "v < 16"
  then have "unat v < 16" by (simp add: word_less_nat_alt)
  then have "unat v \<in> set [0..<16]" by simp
  then have "word_of_nat (unat v) \<in> (word_of_nat ` set [0..<16] :: u8 set)" by blast
  then show "v \<in> {0, 1, 2, 3, 4, 5, 6, 7, 8, 9, 10, 11, 12, 13, 14, 15}" by (simp add: upt_rec)
qed auto

lemma u8_less_8: "(v :: u8) < 8 \<longleftrightarrow> v \<in> {0, 1, 2, 3, 4, 5, 6, 7}"
proof
  assume "v < 8"
  then have "v < 16" by (simp add: word_less_nat_alt)
  with \<open>v < 8\<close> show "v \<in> {0, 1, 2, 3, 4, 5, 6, 7}" unfolding u8_less_16 by auto
qed auto

lemma low_bits_less [simp]: "v AND 7 < (8 :: u8)"
proof -
  have "v AND 7 \<le> (7 :: u8)" by (rule word_and_le1)
  then show ?thesis by (simp add: word_le_nat_alt word_less_nat_alt)
qed

lemma extend_value: "v < 16 \<Longrightarrow> extend_reg (7 < v) (v AND 7) = unat v"
  unfolding u8_less_16 by (auto simp: extend_reg_def)

lemma register_extend [simp]:
  "valid_reg r \<Longrightarrow> extend_reg (needs_rex r) (low_bits r) = reg_no r" "valid_xmm v \<Longrightarrow> extend_reg (xmm_needs_rex v) (xmm_low_bits v) = xmm_no v"
  by (simp_all add: valid_reg_def valid_xmm_def needs_rex_def xmm_needs_rex_def low_bits_def xmm_low_bits_def reg_no_def xmm_no_def extend_value)

definition modrm :: "u8 \<Rightarrow> u8 \<Rightarrow> u8 \<Rightarrow> u8" where
  "modrm mode reg rm = push_bit 6 mode OR push_bit 3 reg OR rm"

lemma modrm_fields:
  assumes "mode \<in> {0, 1, 2, 3}" "reg < 8" "rm < 8"
  shows "mode_field (modrm mode reg rm) = mode" "reg_field (modrm mode reg rm) = reg" "rm_field (modrm mode reg rm) = rm"
  using assms unfolding u8_less_8 by (elim insertE emptyE; simp add: modrm_def mode_field_def reg_field_def rm_field_def)+

lemma emits_modrm [emits_intros]:
  "reg < 8 \<Longrightarrow> rm < 8 \<Longrightarrow> emits (emit_modrm 3 reg rm) [modrm 3 reg rm]"
  "emits (emit_modrm_registers p q) [modrm 3 (low_bits p) (low_bits q)]"
  "emits (emit_modrm_sse_registers v w) [modrm 3 (xmm_low_bits v) (xmm_low_bits w)]"
  "reg < 8 \<Longrightarrow> emits (emit_modrm_opcode reg q) [modrm 3 reg (low_bits q)]"
proof -
  show main: "emits (emit_modrm 3 reg rm) [modrm 3 reg rm]" if "reg < 8" "rm < 8" for reg rm
    using that emits_basic(1) [of "modrm 3 reg rm"]
    by (simp add: emit_modrm_def emits_def x64_assert_def modrm_def)
  show "emits (emit_modrm_registers p q) [modrm 3 (low_bits p) (low_bits q)]"
    "emits (emit_modrm_sse_registers v w) [modrm 3 (xmm_low_bits v) (xmm_low_bits w)]"
    "reg < 8 \<Longrightarrow> emits (emit_modrm_opcode reg q) [modrm 3 reg (low_bits q)]"
    by (simp_all add: emit_modrm_registers_def emit_modrm_sse_registers_def emit_modrm_opcode_def main low_bits_def xmm_low_bits_def)
qed

lemma low_bits_small [simp]: "low_bits r < 8" "xmm_low_bits v < 8"
  by (simp_all add: low_bits_def xmm_low_bits_def)

lemma take_rm_register: "reg < 8 \<Longrightarrow> rm < 8 \<Longrightarrow> take_rm x b (modrm 3 reg rm # bs) = Some (RmReg (extend_reg b rm), bs)"
  by (simp add: take_rm_def modrm_fields)

subsection \<open>Memory operands\<close>

text \<open>An address stands for a memory operand when the decoder reads that operand from its bytes, whatever is
  in the register field of the first.\<close>

definition address_ok :: "x64_address \<Rightarrow> bool \<Rightarrow> bool \<Rightarrow> x64_memory \<Rightarrow> bool" where
  "address_ok a x b m \<longleftrightarrow> ad_rex a = (if x \<or> b then rex_byte (False, False, x, b) else 0)
     \<and> (\<exists>mode rm ds. mode \<in> {0, 1, 2} \<and> rm < 8 \<and> encoded_bytes a = modrm mode 0 rm # ds
          \<and> (\<forall>reg < 8. \<forall>rest. take_rm x b (modrm mode reg rm # ds @ rest) = Some (RmMem m, rest)))"

definition address_part :: "u8 \<Rightarrow> x64_address \<Rightarrow> u8 list" where
  "address_part reg a = (case encoded_bytes a of [] \<Rightarrow> [] | c # cs \<Rightarrow> (push_bit 3 reg OR c) # cs)"

lemma emits_address [emits_intros]:
  assumes "reg < 8" "encoded_bytes a \<noteq> []"
  shows "emits (emit_address reg a) (address_part reg a)"
proof -
  obtain c cs where cs: "encoded_bytes a = c # cs" using assms(2) by (cases "encoded_bytes a") auto
  have "emits (x64_do (map emit_u8 ((push_bit 3 reg OR c) # cs))) ((push_bit 3 reg OR c) # cs)" by (rule emits_all)
  then show ?thesis using assms(1) cs by (simp add: emits_def emit_address_def address_part_def vec_get_def)
qed

lemma address_part_modrm:
  assumes "address_ok a x b m" "reg < 8"
  obtains mode rm ds where "address_part reg a = modrm mode reg rm # ds" "reg_field (modrm mode reg rm) = reg"
    "\<forall>rest. take_rm x b (modrm mode reg rm # ds @ rest) = Some (RmMem m, rest)"
proof -
  obtain mode rm ds where a: "mode \<in> {0, 1, 2}" "rm < 8" "encoded_bytes a = modrm mode 0 rm # ds"
    "\<forall>reg < 8. \<forall>rest. take_rm x b (modrm mode reg rm # ds @ rest) = Some (RmMem m, rest)"
    using assms(1) by (auto simp: address_ok_def)
  have "push_bit 3 reg OR modrm mode 0 rm = modrm mode reg rm" by (simp add: modrm_def ac_simps)
  then show ?thesis using that [of mode rm ds] a assms(2) modrm_fields(2) [of mode reg rm] by (auto simp: address_part_def)
qed

lemma address_bytes_nonempty: "address_ok a x b m \<Longrightarrow> encoded_bytes a \<noteq> []"
  by (auto simp: address_ok_def)

lemma rex_or:
  "(if x \<or> b then rex_byte (False, False, x, b) else 0) OR (if r then 4 else 0) OR 0x48 = rex_byte (True, r, x, b)"
  "(if x \<or> b then rex_byte (False, False, x, b) else 0) OR (if r then 4 else 0) OR 0x40 = rex_byte (False, r, x, b)"
  by (cases r; cases x; cases b; simp add: rex_byte.simps)+

lemma rex_zero: "(if x \<or> b then rex_byte (False, False, x, b) else 0) = 0 \<longleftrightarrow> \<not> x \<and> \<not> b"
  by (cases x; cases b; simp add: rex_byte.simps)

lemma emits_rex_address [emits_intros]:
  assumes "address_ok a x b m"
  shows "emits (emit_rex_sse_address_optional v a) (rex_bytes (rex_if False False (xmm_needs_rex v) x b))"
    "emits (emit_rex64_modrm_address p a) (rex_bytes (rex_if True True (needs_rex p) x b))"
    "emits (emit_rex64_address a) (rex_bytes (rex_if True True False x b))"
    "emits (emit_rex32_modrm_address p a) (rex_bytes (rex_if False False (needs_rex p) x b))"
    "emits (emit_rex32_address_optional a) (rex_bytes (rex_if False False False x b))"
    "valid_reg p \<Longrightarrow> emits (emit_rex32_byte_address p a) (rex_bytes (rex_if (3 < reg_value p) False (needs_rex p) x b))"
proof -
  have rx: "ad_rex a = (if x \<or> b then rex_byte (False, False, x, b) else 0)" using assms by (simp add: address_ok_def)
  have or48: "0x48 OR ad_rex a OR (if r then 4 else 0) = rex_byte (True, r, x, b)" for r
    using rex_or(1) [of x b r] unfolding rx by (simp add: ac_simps)
  have or40: "0x40 OR ad_rex a OR (if r then 4 else 0) = rex_byte (False, r, x, b)" for r
    using rex_or(2) [of x b r] unfolding rx by (simp add: ac_simps)
  have zero: "ad_rex a = 0 \<longleftrightarrow> \<not> x \<and> \<not> b" unfolding rx by (rule rex_zero)
  have no: "0x48 OR ad_rex a = rex_byte (True, False, x, b)" "0x40 OR ad_rex a = rex_byte (False, False, x, b)"
    using or48 [of False] or40 [of False] by simp_all
  have large: "valid_reg p \<Longrightarrow> needs_rex p \<Longrightarrow> 3 < reg_value p" for p
    by (simp add: needs_rex_def word_less_nat_alt)
  note defs = emit_rex_sse_address_optional_def emit_rex64_modrm_address_def emit_rex64_address_def emit_rex32_modrm_address_def
    emit_rex32_address_optional_def emit_rex32_byte_address_def rex_if_def
  show "emits (emit_rex_sse_address_optional v a) (rex_bytes (rex_if False False (xmm_needs_rex v) x b))"
    "emits (emit_rex64_modrm_address p a) (rex_bytes (rex_if True True (needs_rex p) x b))"
    "emits (emit_rex64_address a) (rex_bytes (rex_if True True False x b))"
    "emits (emit_rex32_modrm_address p a) (rex_bytes (rex_if False False (needs_rex p) x b))"
    "emits (emit_rex32_address_optional a) (rex_bytes (rex_if False False False x b))"
    "valid_reg p \<Longrightarrow> emits (emit_rex32_byte_address p a) (rex_bytes (rex_if (3 < reg_value p) False (needs_rex p) x b))"
    using large unfolding defs or48 or40 no zero by (auto intro: emits_basic)
qed

lemma take_i8_Cons: "take_i8 (int_as_u8 i # bs) = Some (imm_int8 i, bs)"
  by (simp add: take_i8_def int_as_u8_def imm_int8_def)

lemma take_i32_bytes: "take_i32 (u32_bytes w @ bs) = Some (sint w, bs)"
  by (simp add: take_i32_def)

lemma bytes_u64_bytes: "bytes_u64 (u64_bytes d @ bs) = d"
proof -
  have parts: "u64_bytes d = u32_bytes (ucast d) @ u32_bytes (ucast (drop_bit 32 d))"
    by (simp add: u64_bytes_def u32_bytes_def upt_rec) (intro conjI; rule bit_word_eqI; simp add: bit_simps; blast?)+
  show ?thesis unfolding parts bytes_u64_def
    by (simp add: length_u32_bytes) (rule bit_word_eqI, auto simp: bit_simps)
qed

lemma take_i64_bytes: "take_i64 (u64_bytes d @ bs) = Some (sint d, bs)"
  using bytes_u64_bytes by (simp add: take_i64_def u64_bytes_def)

lemma imm_exact: "is_int8 i \<Longrightarrow> imm_int8 i = i" "is_int32 i \<Longrightarrow> imm_int32 i = i" "sint (int_as_u32 i) = imm_int32 i"
  by (simp_all add: is_int8_def is_int32_def imm_int8_def imm_int32_def int_as_u32_def signed_of_int signed_take_bit_int_eq_self)

lemma imm_cast [simp]: "int_as_u32 (imm_int32 i) = int_as_u32 i" "int_as_u8 (imm_int8 i) = int_as_u8 i"
  by (simp_all add: imm_int8_def imm_int32_def int_as_u32_def int_as_u8_def)

lemma low_bits_special:
  assumes "valid_reg r"
  shows "low_bits r = 4 \<longleftrightarrow> r = RSP \<or> r = R12" "low_bits r = 5 \<longleftrightarrow> r = RBP \<or> r = R13" "reg_no r = 4 \<longleftrightarrow> r = RSP"
  using assms unfolding valid_reg_def u8_less_16
  by (cases r; elim insertE emptyE; simp add: low_bits_def reg_no_def RSP_def R12_def RBP_def R13_def)+

lemma modrm_byte: "push_bit 6 mode OR low_bits r = modrm mode 0 (low_bits r)"
  "push_bit 6 mode OR push_bit 3 (low_bits q) OR low_bits r = modrm mode (low_bits q) (low_bits r)"
  by (simp_all add: modrm_def)

lemma bytes6: "replicate 6 (0 :: u8) = [0, 0, 0, 0, 0, 0]"
  by (simp add: numeral_eq_Suc)

text \<open>The displacement bytes of a mode.\<close>

definition disp_bytes :: "u8 \<Rightarrow> int \<Rightarrow> u8 list" where
  "disp_bytes mode d = (if mode = 0 then [] else if mode = 1 then [int_as_u8 d] else u32_bytes (int_as_u32 d))"

lemma set_disp_bytes:
  assumes "ad_length a = 1 \<or> ad_length a = 2" "length (ad_bytes a) = 6" "mode \<in> {0, 1, 2}"
  shows "\<exists>a'. set_disp mode d a = Inr a' \<and> ad_rex a' = ad_rex a \<and> encoded_bytes a' = encoded_bytes a @ disp_bytes mode d"
proof -
  obtain c0 c1 c2 c3 c4 c5 where "ad_bytes a = [c0, c1, c2, c3, c4, c5]"
    using assms(2) by (auto simp: numeral_eq_Suc length_Suc_conv)
  then show ?thesis using assms(1,3)
    by (auto simp: set_disp_def set_disp8_def set_disp32_def disp_bytes_def encoded_bytes_def imm_exact u32_bytes_def Let_def)
qed

lemma take_disp_bytes:
  assumes "mode \<in> {0, 1, 2}" "mode = 0 \<Longrightarrow> d = 0" "mode = 1 \<Longrightarrow> is_int8 d" "is_int32 d"
  shows "take_disp mode (disp_bytes mode d @ rest) = Some (d, rest)"
  using assms take_i8_Cons [of d rest] take_i32_bytes [of "int_as_u32 d" rest]
  by (auto simp: take_disp_def disp_bytes_def imm_exact is_int32_def)

lemma address_mode_cases:
  "address_mode base d \<in> {0, 1, 2}" "address_mode base d = 0 \<Longrightarrow> d = 0 \<and> base \<noteq> RBP" "address_mode base d = 1 \<Longrightarrow> is_int8 d"
  by (auto simp: address_mode_def is_int8_def split: if_splits)

lemma address_okI:
  assumes "ad_rex a = (if x \<or> b then rex_byte (False, False, x, b) else 0)" "mode \<in> {0, 1, 2}" "rm < 8"
    "encoded_bytes a = modrm mode 0 rm # ds"
    "\<And>reg rest. reg < 8 \<Longrightarrow> take_rm x b (modrm mode reg rm # ds @ rest) = Some (RmMem m, rest)"
  shows "address_ok a x b m"
  unfolding address_ok_def using assms by blast

lemma address_offset_ok:
  assumes base: "valid_reg base" "base \<noteq> R12" "base = R13 \<Longrightarrow> d \<noteq> 0" and d: "is_int32 d"
  shows "\<exists>a. address_offset base d = Inr a \<and> address_ok a False (needs_rex base) (MemAt (Some (reg_no base)) None d)"
proof -
  let ?mode = "address_mode base d"
  note mode = address_mode_cases [of base d]
  define a0 where "a0 = \<lparr>ad_rex = (if needs_rex base then 0x41 else 0), ad_length = 1, ad_bytes = [modrm ?mode 0 (low_bits base), 0, 0, 0, 0, 0]\<rparr>"
  have a0: "set_modrm ?mode base address_new = Inr a0"
    using mode(1) by (auto simp: set_modrm_def address_new_def a0_def bytes6 modrm_byte word_less_nat_alt)
  have rx: "(0x41 :: u8) = rex_byte (False, False, False, True)" by (simp add: rex_byte.simps)
  have take: "take_disp ?mode (disp_bytes ?mode d @ rest) = Some (d, rest)" for rest
    using take_disp_bytes [of ?mode d rest] mode d by blast
  show ?thesis
  proof (cases "base = RSP")
    case True
    define a1 where "a1 = a0\<lparr>ad_length := 2, ad_bytes := [modrm ?mode 0 4, modrm 0 4 4, 0, 0, 0, 0]\<rparr>"
    have low: "low_bits RSP = 4" "\<not> needs_rex RSP" "reg_no RSP = 4" by (simp_all add: RSP_def low_bits_def needs_rex_def reg_no_def)
    have a1: "set_sib One RSP base a0 = Inr a1"
      using True low by (simp add: set_sib_def a0_def a1_def modrm_def)
    obtain a where a: "set_disp ?mode d a1 = Inr a" "ad_rex a = ad_rex a1" "encoded_bytes a = encoded_bytes a1 @ disp_bytes ?mode d"
      using set_disp_bytes [of a1 ?mode d] mode(1) by (auto simp: a1_def)
    have "take_rm False False (modrm ?mode reg 4 # modrm 0 4 4 # disp_bytes ?mode d @ rest) = Some (RmMem (MemAt (Some 4) None d), rest)"
      if "reg < 8" for reg rest
      using modrm_fields [of ?mode reg 4] modrm_fields [of 0 4 4] mode(1) that take [of rest]
      by (auto simp: take_rm_def extend_reg_def)
    then have "address_ok a False (needs_rex base) (MemAt (Some (reg_no base)) None d)"
      using True low mode(1) a(2,3) by (intro address_okI [of _ _ _ ?mode 4 "modrm 0 4 4 # disp_bytes ?mode d"])
        (simp_all add: a1_def a0_def encoded_bytes_def)
    then show ?thesis using a0 a1 a(1) True by (simp add: address_offset_def Let_def)
  next
    case False
    obtain a where a: "set_disp ?mode d a0 = Inr a" "ad_rex a = ad_rex a0" "encoded_bytes a = encoded_bytes a0 @ disp_bytes ?mode d"
      using set_disp_bytes [of a0 ?mode d] mode(1) by (auto simp: a0_def)
    have no4: "low_bits base \<noteq> 4" using low_bits_special(1) [OF base(1)] base(2) False by simp
    have no5: "?mode = 0 \<Longrightarrow> low_bits base \<noteq> 5" using low_bits_special(2) [OF base(1)] base(3) mode(2) by auto
    have "take_rm False (needs_rex base) (modrm ?mode reg (low_bits base) # disp_bytes ?mode d @ rest)
        = Some (RmMem (MemAt (Some (reg_no base)) None d), rest)" if "reg < 8" for reg rest
      using modrm_fields [of ?mode reg "low_bits base"] mode(1) that take [of rest] no4 no5 base(1)
      by (auto simp: take_rm_def)
    then have "address_ok a False (needs_rex base) (MemAt (Some (reg_no base)) None d)"
      using mode(1) a(2,3) by (intro address_okI [of _ _ _ ?mode "low_bits base" "disp_bytes ?mode d"])
        (simp_all add: a0_def encoded_bytes_def rx)
    then show ?thesis using a0 a(1) False by (simp add: address_offset_def Let_def)
  qed
qed


text \<open>With an index register.\<close>

definition with_sib :: "u8 \<Rightarrow> scale_factor \<Rightarrow> x64_register \<Rightarrow> x64_register \<Rightarrow> x64_address" where
  "with_sib mode factor index base = \<lparr>ad_rex = (if needs_rex base then 0x41 else 0) OR (if needs_rex index then 0x42 else 0), ad_length = 2,
     ad_bytes = [modrm mode 0 4, modrm (scale_value factor) (low_bits index) (low_bits base), 0, 0, 0, 0]\<rparr>"

lemma set_sib_ok:
  assumes "mode \<in> {0, 1, 2}"
  shows "rbind (set_modrm mode RSP address_new) (set_sib factor index base) = Inr (with_sib mode factor index base)"
  using assms
  by (auto simp: set_modrm_def set_sib_def address_new_def with_sib_def bytes6 modrm_byte word_less_nat_alt RSP_def low_bits_def needs_rex_def
      Let_def) (simp_all add: modrm_def)

lemma with_sib_rex: "ad_rex (with_sib mode factor index base) =
    (if needs_rex index \<or> needs_rex base then rex_byte (False, False, needs_rex index, needs_rex base) else 0)"
  by (cases "needs_rex index"; cases "needs_rex base"; simp add: with_sib_def rex_byte.simps)

lemma scale_value_cases: "scale_value factor \<in> {0, 1, 2, 3}"
  by (cases factor) simp_all

lemma address_array_ok:
  assumes base: "valid_reg base" "base = R13 \<Longrightarrow> d \<noteq> 0" and index: "valid_reg index" "index \<noteq> RSP" and d: "is_int32 d"
  shows "\<exists>a. address_array base index factor d = Inr a
    \<and> address_ok a (needs_rex index) (needs_rex base) (MemAt (Some (reg_no base)) (Some (reg_no index, unat (scale_value factor))) d)"
proof -
  let ?mode = "address_mode base d" and ?a = "with_sib (address_mode base d) factor index base"
  note mode = address_mode_cases [of base d]
  have take: "take_disp ?mode (disp_bytes ?mode d @ rest) = Some (d, rest)" for rest
    using take_disp_bytes [of ?mode d rest] mode d by blast
  obtain a where a: "set_disp ?mode d ?a = Inr a" "ad_rex a = ad_rex ?a" "encoded_bytes a = encoded_bytes ?a @ disp_bytes ?mode d"
    using set_disp_bytes [of ?a ?mode d] mode(1) by (auto simp: with_sib_def)
  have no5: "?mode = 0 \<Longrightarrow> low_bits base \<noteq> 5" using low_bits_special(2) [OF base(1)] base(2) mode(2) by auto
  have no4: "reg_no index \<noteq> 4" using low_bits_special(3) [OF index(1)] index(2) by simp
  have "take_rm (needs_rex index) (needs_rex base) (modrm ?mode reg 4 # modrm (scale_value factor) (low_bits index) (low_bits base)
      # disp_bytes ?mode d @ rest) = Some (RmMem (MemAt (Some (reg_no base)) (Some (reg_no index, unat (scale_value factor))) d), rest)"
    if "reg < 8" for reg rest
    using modrm_fields [of ?mode reg 4] modrm_fields [OF scale_value_cases, of "low_bits index" "low_bits base" factor] mode(1) that
      take [of rest] no4 no5 base(1) index(1)
    by (auto simp: take_rm_def Let_def)
  then have "address_ok a (needs_rex index) (needs_rex base) (MemAt (Some (reg_no base)) (Some (reg_no index, unat (scale_value factor))) d)"
    using mode(1) a(2,3)
    by (intro address_okI [of _ _ _ ?mode 4 "modrm (scale_value factor) (low_bits index) (low_bits base) # disp_bytes ?mode d"])
      (simp_all add: with_sib_rex, simp_all add: with_sib_def encoded_bytes_def)
  moreover have "address_array base index factor d = Inr a"
  proof -
    obtain a0 where "set_modrm ?mode RSP address_new = Inr a0" "set_sib factor index base a0 = Inr ?a"
      using set_sib_ok [OF mode(1), of factor index base] by (auto simp: rbind_eq_Inr_iff)
    then show ?thesis using a(1) index(2) by (simp add: address_array_def Let_def)
  qed
  ultimately show ?thesis by blast
qed

lemma address_index_ok:
  assumes index: "valid_reg index" "index \<noteq> RSP" and d: "is_int32 d"
  shows "\<exists>a. address_index index factor d = Inr a
    \<and> address_ok a (needs_rex index) False (MemAt None (Some (reg_no index, unat (scale_value factor))) d)"
proof -
  let ?a = "with_sib 0 factor index RBP"
  have rbp: "low_bits RBP = 5" "\<not> needs_rex RBP" by (simp_all add: RBP_def low_bits_def needs_rex_def)
  obtain a where a: "set_disp 2 d ?a = Inr a" "ad_rex a = ad_rex ?a" "encoded_bytes a = encoded_bytes ?a @ disp_bytes 2 d"
    using set_disp_bytes [of ?a 2 d] by (auto simp: with_sib_def)
  have no4: "reg_no index \<noteq> 4" using low_bits_special(3) [OF index(1)] index(2) by simp
  have "take_i32 (disp_bytes 2 d @ rest) = Some (d, rest)" for rest
    using take_i32_bytes [of "int_as_u32 d" rest] d by (simp add: disp_bytes_def imm_exact is_int32_def)
  then have "take_rm (needs_rex index) False (modrm 0 reg 4 # modrm (scale_value factor) (low_bits index) 5 # disp_bytes 2 d @ rest)
      = Some (RmMem (MemAt None (Some (reg_no index, unat (scale_value factor))) d), rest)" if "reg < 8" for reg rest
    using modrm_fields [of 0 reg 4] modrm_fields [OF scale_value_cases, of "low_bits index" 5 factor] that no4 index(1)
    by (simp add: take_rm_def Let_def)
  then have "address_ok a (needs_rex index) False (MemAt None (Some (reg_no index, unat (scale_value factor))) d)"
    using a(2,3) rbp
    by (intro address_okI [of _ _ _ 0 4 "modrm (scale_value factor) (low_bits index) 5 # disp_bytes 2 d"])
      (simp_all add: with_sib_rex, simp_all add: with_sib_def encoded_bytes_def)
  moreover have "address_index index factor d = Inr a"
  proof -
    obtain a0 where "set_modrm 0 RSP address_new = Inr a0" "set_sib factor index RBP a0 = Inr ?a"
      using set_sib_ok [of 0 factor index RBP] by (auto simp: rbind_eq_Inr_iff)
    then show ?thesis using a(1) index(2) by (simp add: address_index_def set_disp_def)
  qed
  ultimately show ?thesis by blast
qed

lemma address_rip_ok:
  assumes d: "is_int32 d"
  shows "\<exists>a. address_rip d = Inr a \<and> address_ok a False False (RipAt d)"
proof -
  define a0 where "a0 = \<lparr>ad_rex = 0, ad_length = 1, ad_bytes = [modrm 0 0 5, 0, 0, 0, 0, 0]\<rparr>"
  have a0: "set_modrm 0 RBP address_new = Inr a0"
    by (simp add: set_modrm_def address_new_def a0_def bytes6 RBP_def low_bits_def needs_rex_def modrm_def)
  obtain a where a: "set_disp 2 d a0 = Inr a" "ad_rex a = ad_rex a0" "encoded_bytes a = encoded_bytes a0 @ disp_bytes 2 d"
    using set_disp_bytes [of a0 2 d] by (auto simp: a0_def)
  have "take_i32 (disp_bytes 2 d @ rest) = Some (d, rest)" for rest
    using take_i32_bytes [of "int_as_u32 d" rest] d by (simp add: disp_bytes_def imm_exact is_int32_def)
  then have "take_rm False False (modrm 0 reg 5 # disp_bytes 2 d @ rest) = Some (RmMem (RipAt d), rest)" if "reg < 8" for reg rest
    using modrm_fields [of 0 reg 5] that by (simp add: take_rm_def)
  then have "address_ok a False False (RipAt d)"
    using a(2,3) by (intro address_okI [of _ _ _ 0 5 "disp_bytes 2 d"]) (simp_all add: a0_def encoded_bytes_def)
  then show ?thesis using a0 a(1) by (simp add: address_rip_def set_disp_def)
qed

subsection \<open>Whole instructions\<close>

definition x64_encodes :: "x64_step \<Rightarrow> x64_instr \<Rightarrow> bool" where
  "x64_encodes f ins \<longleftrightarrow> (\<exists>bs. emits f bs \<and> (\<forall>rest. x64_decode (bs @ rest) = Some (ins, rest)))"

text \<open>A byte that starts an instruction and is none of the prefixes.\<close>

definition opcode_start :: "opcode_map \<Rightarrow> u8 \<Rightarrow> bool" where
  "opcode_start mp op \<longleftrightarrow> (case mp of OneByte \<Rightarrow> op \<notin> {0xF0, 0x66, 0xF2, 0xF3, 0x0F} \<and> op AND 0xF0 \<noteq> 0x40 | TwoByte \<Rightarrow> op \<noteq> 0x3A | ThreeByte \<Rightarrow> True)"

lemma take_prefixes:
  assumes "opcode_start mp op"
  shows "take_lock ((if lock then [0xF0] else []) @ prefix_bytes pfx @ rex_bytes rx @ opcode_bytes mp op @ bs)
      = (lock, prefix_bytes pfx @ rex_bytes rx @ opcode_bytes mp op @ bs)"
    "take_prefix (prefix_bytes pfx @ rex_bytes rx @ opcode_bytes mp op @ bs) = (pfx, rex_bytes rx @ opcode_bytes mp op @ bs)"
    "take_rex (rex_bytes rx @ opcode_bytes mp op @ bs) = (rx, opcode_bytes mp op @ bs)"
    "take_opcode (opcode_bytes mp op @ bs) = Some (mp, op, bs)"
proof -
  have first: "\<exists>c cs. opcode_bytes mp op @ bs = c # cs \<and> c \<notin> {0xF0, 0x66, 0xF2, 0xF3} \<and> c AND 0xF0 \<noteq> 0x40"
    using assms by (cases mp) (auto simp: opcode_start_def)
  have rest: "\<exists>c cs. rex_bytes rx @ opcode_bytes mp op @ bs = c # cs \<and> c \<notin> {0xF0, 0x66, 0xF2, 0xF3}"
  proof (cases rx)
    case (Some q)
    then show ?thesis using rex_byte_fields(6-9) by (cases q) auto
  qed (use first in auto)
  show "take_rex (rex_bytes rx @ opcode_bytes mp op @ bs) = (rx, opcode_bytes mp op @ bs)"
  proof (cases rx)
    case (Some q)
    then show ?thesis using rex_byte_fields(1-5) by (cases q) (auto simp: take_rex_def)
  qed (use first in \<open>auto simp: take_rex_def\<close>)
  show "take_prefix (prefix_bytes pfx @ rex_bytes rx @ opcode_bytes mp op @ bs) = (pfx, rex_bytes rx @ opcode_bytes mp op @ bs)"
    using rest by (cases pfx) (auto simp: take_prefix_def)
  have "\<exists>c cs. prefix_bytes pfx @ rex_bytes rx @ opcode_bytes mp op @ bs = c # cs \<and> c \<noteq> 0xF0" using rest by (cases pfx) auto
  then show "take_lock ((if lock then [0xF0] else []) @ prefix_bytes pfx @ rex_bytes rx @ opcode_bytes mp op @ bs)
      = (lock, prefix_bytes pfx @ rex_bytes rx @ opcode_bytes mp op @ bs)"
    by (auto simp: take_lock_def)
  show "take_opcode (opcode_bytes mp op @ bs) = Some (mp, op, bs)" using assms by (cases mp) (auto simp: opcode_start_def)
qed

text \<open>A step that emits the ModRM byte with what belongs to it, and the steps that emit an immediate.\<close>

definition operand_step :: "x64_step \<Rightarrow> bool \<Rightarrow> bool \<Rightarrow> u8 \<Rightarrow> modrm_operand \<Rightarrow> bool" where
  "operand_step f x b reg rm \<longleftrightarrow> (\<exists>m ms. emits f (m # ms) \<and> reg_field m = reg \<and> (\<forall>rest. take_rm x b (m # ms @ rest) = Some (rm, rest)))"

definition imm_steps :: "x64_step list \<Rightarrow> opspec list \<Rightarrow> rex \<Rightarrow> int \<Rightarrow> bool" where
  "imm_steps fs specs rx imm \<longleftrightarrow> (\<exists>ib. emits (x64_do fs) ib \<and> (\<forall>rest. take_imm specs rx (ib @ rest) = Some (imm, rest)))"

lemma operand_step_register:
  "emits f [modrm 3 reg rm] \<Longrightarrow> reg < 8 \<Longrightarrow> rm < 8 \<Longrightarrow> extend_reg b rm = n \<Longrightarrow> operand_step f x b reg (RmReg n)"
  unfolding operand_step_def by (intro exI [of _ "modrm 3 reg rm"] exI [of _ "[]"]) (simp add: modrm_fields take_rm_register)

lemma operand_steps:
  "valid_reg q \<Longrightarrow> operand_step (emit_modrm_registers p q) x (needs_rex q) (low_bits p) (RmReg (reg_no q))"
  "valid_xmm w \<Longrightarrow> operand_step (emit_modrm_sse_registers v w) x (xmm_needs_rex w) (xmm_low_bits v) (RmReg (xmm_no w))"
  "n < 8 \<Longrightarrow> valid_reg q \<Longrightarrow> operand_step (emit_modrm_opcode n q) x (needs_rex q) n (RmReg (reg_no q))"
  "valid_reg q \<Longrightarrow> operand_step (emit_modrm 3 (xmm_low_bits v) (low_bits q)) x (needs_rex q) (xmm_low_bits v) (RmReg (reg_no q))"
  "valid_xmm w \<Longrightarrow> operand_step (emit_modrm 3 (low_bits p) (xmm_low_bits w)) x (xmm_needs_rex w) (low_bits p) (RmReg (xmm_no w))"
  by (auto intro!: operand_step_register emits_modrm)

lemma operand_step_address:
  assumes "address_ok a x b m" "reg < 8"
  shows "operand_step (emit_address reg a) x b reg (RmMem m)"
proof -
  obtain mode rm ds where "address_part reg a = modrm mode reg rm # ds" "reg_field (modrm mode reg rm) = reg"
    "\<forall>rest. take_rm x b (modrm mode reg rm # ds @ rest) = Some (RmMem m, rest)"
    using address_part_modrm [OF assms] by blast
  then show ?thesis using emits_address [OF assms(2) address_bytes_nonempty [OF assms(1)]] by (auto simp: operand_step_def)
qed

lemma imm_steps_Nil: "(\<And>rest. take_imm specs rx rest = Some (0, rest)) \<Longrightarrow> imm_steps [] specs rx 0"
  unfolding imm_steps_def by (intro exI [of _ "[]"]) (simp add: emits_basic emits_Nil del: x64_do.simps)

lemma imm_steps_one:
  "(\<And>rest. take_imm specs rx (v # rest) = Some (imm, rest)) \<Longrightarrow> imm_steps [emit_u8 v] specs rx imm"
  "(\<And>rest. take_imm specs rx (u32_bytes d @ rest) = Some (imm, rest)) \<Longrightarrow> imm_steps [emit_u32 d] specs rx imm"
  "(\<And>rest. take_imm specs rx (u64_bytes q @ rest) = Some (imm, rest)) \<Longrightarrow> imm_steps [emit_u64 q] specs rx imm"
  unfolding imm_steps_def
  using emits_Cons [OF emits_basic(1) emits_Nil] emits_Cons [OF emits_basic(2) emits_Nil] emits_Cons [OF emits_basic(3) emits_Nil]
  by (fastforce simp del: x64_do.simps)+

lemma x64_decode_layout:
  assumes "opcode_start mp op" "x64_lookup mp pfx op (case mb @ ib of [] \<Rightarrow> (case rest of [] \<Rightarrow> 0 | m # _ \<Rightarrow> reg_field m) | m # _ \<Rightarrow> reg_field m) = Some (mn, specs)"
    "take_modrm specs rx (mb @ ib @ rest) = Some ((reg, rm), ib @ rest)" "take_imm specs rx (ib @ rest) = Some (imm, rest)"
  shows "x64_decode (((if lock then [0xF0] else []) @ prefix_bytes pfx @ rex_bytes rx @ opcode_bytes mp op @ mb @ ib) @ rest)
    = Some (Instr lock mn (map (operand rx op reg rm imm) specs), rest)"
proof -
  have digit: "(case mb @ ib @ rest of [] \<Rightarrow> 0 | m # _ \<Rightarrow> reg_field m)
      = (case mb @ ib of [] \<Rightarrow> (case rest of [] \<Rightarrow> 0 | m # _ \<Rightarrow> reg_field m) | m # _ \<Rightarrow> reg_field m)"
    by (cases "mb @ ib") (auto simp: Cons_eq_append_conv append_eq_Cons_conv split: list.splits)
  show ?thesis
    using assms(2-4) by (simp add: x64_decode_def take_prefixes [OF assms(1)] digit)
qed

end
