(* ===== verification/X64Methods.thy ===== *)
theory X64Methods
  imports X64Encodings
begin

text \<open>
  What every method of the assembler emits, read back by the decoder.  The rules follow the order in which
  a method emits the parts of an instruction.
\<close>

subsection \<open>Rules\<close>

lemma encodesI:
  assumes "rex_bits rx = (w, r, x, b)" "operand_step fm x b reg rm" "x64_lookup mp pfx op reg = Some (mn, specs)"
    "imm_steps fi specs rx imm" "opcode_start mp op \<and> has_modrm specs"
    and f: "\<And>mb ib. emits fm mb \<Longrightarrow> emits (x64_do fi) ib \<Longrightarrow>
      emits f ((if lock then [0xF0] else []) @ prefix_bytes pfx @ rex_bytes rx @ opcode_bytes mp op @ mb @ ib)"
    and ins: "ins = Instr lock mn (map (operand rx op (extend_reg r reg) rm imm) specs)"
  shows "x64_encodes f ins"
proof -
  obtain m ms where m: "emits fm (m # ms)" "reg_field m = reg" "\<And>rest. take_rm x b (m # ms @ rest) = Some (rm, rest)"
    using assms(2) by (auto simp: operand_step_def)
  obtain ib where ib: "emits (x64_do fi) ib" "\<And>rest. take_imm specs rx (ib @ rest) = Some (imm, rest)"
    using assms(4) by (auto simp: imm_steps_def)
  have "x64_decode (((if lock then [0xF0] else []) @ prefix_bytes pfx @ rex_bytes rx @ opcode_bytes mp op @ (m # ms) @ ib) @ rest)
      = Some (ins, rest)" for rest
    unfolding ins using assms(1,3,5) m ib(2) by (intro x64_decode_layout) (simp_all add: take_modrm_def)
  then show ?thesis using f [OF m(1) ib(1)] unfolding x64_encodes_def by blast
qed

lemma encodes_one:
  assumes "emits fr (rex_bytes rx)" "rex_bits rx = (w, r, x, b)" "operand_step fm x b reg rm"
    "x64_lookup OneByte NoPrefix op reg = Some (mn, specs)" "imm_steps fi specs rx imm" "opcode_start OneByte op \<and> has_modrm specs"
    "ins = Instr False mn (map (operand rx op (extend_reg r reg) rm imm) specs)"
  shows "x64_encodes (x64_do (fr # emit_u8 op # fm # fi)) ins"
  using assms(2-6) _ assms(7)
  by (rule encodesI) (use emits_Cons [OF assms(1) emits_Cons [OF emits_basic(1) emits_Cons]] in \<open>simp del: x64_do.simps\<close>)

lemma encodes_two:
  assumes "emits fr (rex_bytes rx)" "rex_bits rx = (w, r, x, b)" "operand_step fm x b reg rm"
    "x64_lookup TwoByte NoPrefix op reg = Some (mn, specs)" "imm_steps fi specs rx imm" "opcode_start TwoByte op \<and> has_modrm specs"
    "ins = Instr False mn (map (operand rx op (extend_reg r reg) rm imm) specs)"
  shows "x64_encodes (x64_do (fr # emit_u8 0x0F # emit_u8 op # fm # fi)) ins"
  using assms(2-6) _ assms(7)
  by (rule encodesI)
    (use emits_Cons [OF assms(1) emits_Cons [OF emits_basic(1) emits_Cons [OF emits_basic(1) emits_Cons]]] in \<open>simp del: x64_do.simps\<close>)

lemma encodes_lock_two:
  assumes "emits fr (rex_bytes rx)" "rex_bits rx = (w, r, x, b)" "operand_step fm x b reg rm"
    "x64_lookup TwoByte NoPrefix op reg = Some (mn, specs)" "imm_steps fi specs rx imm" "opcode_start TwoByte op \<and> has_modrm specs"
    "ins = Instr True mn (map (operand rx op (extend_reg r reg) rm imm) specs)"
  shows "x64_encodes (x64_do (emit_lock_prefix # fr # emit_u8 0x0F # emit_u8 op # fm # fi)) ins"
  using assms(2-6) _ assms(7)
  by (rule encodesI)
    (use emits_Cons [OF emits_lock emits_Cons [OF assms(1) emits_Cons [OF emits_basic(1) emits_Cons [OF emits_basic(1) emits_Cons]]]]
     in \<open>simp del: x64_do.simps\<close>)

lemma encodes_prefix_two:
  assumes "prefix_bytes pfx = [p]" "emits fr (rex_bytes rx)" "rex_bits rx = (w, r, x, b)" "operand_step fm x b reg rm"
    "x64_lookup TwoByte pfx op reg = Some (mn, specs)" "imm_steps fi specs rx imm" "opcode_start TwoByte op \<and> has_modrm specs"
    "ins = Instr False mn (map (operand rx op (extend_reg r reg) rm imm) specs)"
  shows "x64_encodes (x64_do (emit_u8 p # fr # emit_u8 0x0F # emit_u8 op # fm # fi)) ins"
  using assms(3-7) _ assms(8)
  by (rule encodesI)
    (use emits_Cons [OF emits_basic(1) emits_Cons [OF assms(2) emits_Cons [OF emits_basic(1) emits_Cons [OF emits_basic(1) emits_Cons]]]] assms(1)
     in \<open>simp del: x64_do.simps\<close>)

lemma encodes_prefix_three:
  assumes "prefix_bytes pfx = [p]" "emits fr (rex_bytes rx)" "rex_bits rx = (w, r, x, b)" "operand_step fm x b reg rm"
    "x64_lookup ThreeByte pfx op reg = Some (mn, specs)" "imm_steps fi specs rx imm" "opcode_start ThreeByte op \<and> has_modrm specs"
    "ins = Instr False mn (map (operand rx op (extend_reg r reg) rm imm) specs)"
  shows "x64_encodes (x64_do (emit_u8 p # fr # emit_u8 0x0F # emit_u8 0x3A # emit_u8 op # fm # fi)) ins"
  using assms(3-7) _ assms(8)
  by (rule encodesI)
    (use emits_Cons [OF emits_basic(1) emits_Cons [OF assms(2) emits_Cons [OF emits_basic(1) emits_Cons [OF emits_basic(1)
       emits_Cons [OF emits_basic(1) emits_Cons]]]]] assms(1) in \<open>simp del: x64_do.simps\<close>)

text \<open>Without a ModRM byte.\<close>

lemma encodes_plain:
  assumes "emits fr (rex_bytes rx)" "\<And>digit. x64_lookup OneByte NoPrefix op digit = Some (mn, specs)" "imm_steps fi specs rx imm"
    "opcode_start OneByte op \<and> \<not> has_modrm specs" "ins = Instr False mn (map (operand rx op 0 (RmReg 0) imm) specs)"
  shows "x64_encodes (x64_do (fr # emit_u8 op # fi)) ins"
proof -
  obtain ib where ib: "emits (x64_do fi) ib" "\<And>rest. take_imm specs rx (ib @ rest) = Some (imm, rest)"
    using assms(3) by (auto simp: imm_steps_def)
  have "x64_decode (((if False then [0xF0] else []) @ prefix_bytes NoPrefix @ rex_bytes rx @ opcode_bytes OneByte op @ [] @ ib) @ rest)
      = Some (ins, rest)" for rest
    unfolding assms(5) using assms(2,4) ib(2) by (intro x64_decode_layout) (simp_all add: take_modrm_def split: prod.splits)
  moreover have "emits (x64_do (fr # emit_u8 op # fi)) ((if False then [0xF0] else []) @ prefix_bytes NoPrefix @ rex_bytes rx @ opcode_bytes OneByte op @ [] @ ib)"
    using emits_Cons [OF assms(1) emits_Cons [OF emits_basic(1) ib(1)]] by (simp del: x64_do.simps)
  ultimately show ?thesis unfolding x64_encodes_def by blast
qed

lemma x64_do_skip: "x64_do (Inr # fs) = x64_do fs"
  by (rule ext) simp

lemma encodes_byte:
  assumes "\<And>digit. x64_lookup OneByte NoPrefix op digit = Some (mn, specs)" "imm_steps [] specs None 0"
    "opcode_start OneByte op \<and> \<not> has_modrm specs" "ins = Instr False mn (map (operand None op 0 (RmReg 0) 0) specs)"
  shows "x64_encodes (emit_u8 op) ins"
proof -
  have "emits Inr (rex_bytes None)" by (simp add: emits_basic)
  from encodes_plain [OF this assms] have "x64_encodes (x64_do [emit_u8 op]) ins" by (simp only: x64_do_skip)
  moreover have "x64_do [emit_u8 op] = emit_u8 op" by (rule ext) (simp add: rbind_def split: sum.splits)
  ultimately show ?thesis by simp
qed

lemma encodes_assert: "b \<Longrightarrow> x64_encodes (x64_do fs) ins \<Longrightarrow> x64_encodes (x64_do (x64_assert b # fs)) ins"
  using emits_Cons [OF emits_assert] by (fastforce simp: x64_encodes_def simp del: x64_do.simps)

lemma imm_byte: "(\<And>bs. take_imm specs rx bs = take_imm [Ib] rx bs) \<Longrightarrow> imm_steps [emit_u8 v] specs rx (uint v)"
  "(\<And>bs. take_imm specs rx bs = take_imm [Ibs] rx bs) \<Longrightarrow> imm_steps [emit_u8 v] specs rx (sint v)"
  by (rule imm_steps_one; simp add: take_i8_def)+

lemma imm_dword: "(\<And>bs. take_imm specs rx bs = take_imm [Iz] rx bs) \<Longrightarrow> imm_steps [emit_u32 d] specs rx (sint d)"
  by (rule imm_steps_one) (simp add: take_i32_bytes)

lemma sint_int_as_u8: "sint (int_as_u8 i) = imm_int8 i"
  by (simp add: int_as_u8_def imm_int8_def)

lemma uint8_cast: "imm_uint8 i = int_as_u8 i" "imm_uint32 i = int_as_u32 i"
  by (simp_all add: imm_uint8_def int_as_u8_def imm_uint32_def int_as_u32_def)

subsection \<open>The opcode table by opcode\<close>

lemma lookup_rows:
  "x64_lookup OneByte NoPrefix 0x01 d = Some (ADD, [Ev, Gv])"
  "x64_lookup OneByte NoPrefix 0x09 d = Some (OR', [Ev, Gv])"
  "x64_lookup OneByte NoPrefix 0x21 d = Some (AND', [Ev, Gv])"
  "x64_lookup OneByte NoPrefix 0x29 d = Some (SUB, [Ev, Gv])"
  "x64_lookup OneByte NoPrefix 0x31 d = Some (XOR', [Ev, Gv])"
  "x64_lookup OneByte NoPrefix 0x38 d = Some (CMP, [Eb, Gb])"
  "x64_lookup OneByte NoPrefix 0x39 d = Some (CMP, [Ev, Gv])"
  "x64_lookup OneByte NoPrefix 0x05 d = Some (ADD, [Av, Iz])"
  "x64_lookup OneByte NoPrefix 0x25 d = Some (AND', [Av, Iz])"
  "x64_lookup OneByte NoPrefix 0x2D d = Some (SUB, [Av, Iz])"
  "x64_lookup OneByte NoPrefix 0x35 d = Some (XOR', [Av, Iz])"
  "x64_lookup OneByte NoPrefix 0x3D d = Some (CMP, [Av, Iz])"
  "x64_lookup OneByte NoPrefix 0x63 d = Some (MOVSXD, [Gv, Ed])"
  "x64_lookup OneByte NoPrefix 0x80 7 = Some (CMP, [Eb, Ib])"
  "x64_lookup OneByte NoPrefix 0x81 0 = Some (ADD, [Ev, Iz])"
  "x64_lookup OneByte NoPrefix 0x81 4 = Some (AND', [Ev, Iz])"
  "x64_lookup OneByte NoPrefix 0x81 5 = Some (SUB, [Ev, Iz])"
  "x64_lookup OneByte NoPrefix 0x81 6 = Some (XOR', [Ev, Iz])"
  "x64_lookup OneByte NoPrefix 0x81 7 = Some (CMP, [Ev, Iz])"
  "x64_lookup OneByte NoPrefix 0x83 0 = Some (ADD, [Ev, Ibs])"
  "x64_lookup OneByte NoPrefix 0x83 4 = Some (AND', [Ev, Ibs])"
  "x64_lookup OneByte NoPrefix 0x83 5 = Some (SUB, [Ev, Ibs])"
  "x64_lookup OneByte NoPrefix 0x83 6 = Some (XOR', [Ev, Ibs])"
  "x64_lookup OneByte NoPrefix 0x83 7 = Some (CMP, [Ev, Ibs])"
  "x64_lookup OneByte NoPrefix 0x85 d = Some (TEST, [Ev, Gv])"
  "x64_lookup OneByte NoPrefix 0x87 d = Some (XCHG, [Ev, Gv])"
  "x64_lookup OneByte NoPrefix 0x88 d = Some (MOV, [Eb, Gb])"
  "x64_lookup OneByte NoPrefix 0x89 d = Some (MOV, [Ev, Gv])"
  "x64_lookup OneByte NoPrefix 0x8B d = Some (MOV, [Gv, Ev])"
  "x64_lookup OneByte NoPrefix 0x8D d = Some (LEA, [Gv, M])"
  "x64_lookup OneByte NoPrefix 0x90 d = Some (NOP, [])"
  "x64_lookup OneByte NoPrefix 0x99 d = Some (CONVERT, [Av])"
  "x64_lookup OneByte NoPrefix 0xA8 d = Some (TEST, [Ab, Ib])"
  "x64_lookup OneByte NoPrefix 0xA9 d = Some (TEST, [Av, Iz])"
  "x64_lookup OneByte NoPrefix 0xC1 4 = Some (SHL, [Ev, Ib])"
  "x64_lookup OneByte NoPrefix 0xC1 5 = Some (SHR, [Ev, Ib])"
  "x64_lookup OneByte NoPrefix 0xC1 7 = Some (SAR, [Ev, Ib])"
  "x64_lookup OneByte NoPrefix 0xC3 d = Some (RET, [])"
  "x64_lookup OneByte NoPrefix 0xC6 0 = Some (MOV, [Eb, Ib])"
  "x64_lookup OneByte NoPrefix 0xC7 0 = Some (MOV, [Ev, Iz])"
  "x64_lookup OneByte NoPrefix 0xCC d = Some (INT3, [])"
  "x64_lookup OneByte NoPrefix 0xD3 0 = Some (ROL, [Ev, CL])"
  "x64_lookup OneByte NoPrefix 0xD3 1 = Some (ROR, [Ev, CL])"
  "x64_lookup OneByte NoPrefix 0xD3 4 = Some (SHL, [Ev, CL])"
  "x64_lookup OneByte NoPrefix 0xD3 5 = Some (SHR, [Ev, CL])"
  "x64_lookup OneByte NoPrefix 0xD3 7 = Some (SAR, [Ev, CL])"
  "x64_lookup OneByte NoPrefix 0xE9 d = Some (JMP, [Jz])"
  "x64_lookup OneByte NoPrefix 0xEB d = Some (JMP, [Jb])"
  "x64_lookup OneByte NoPrefix 0xF6 0 = Some (TEST, [Eb, Ib])"
  "x64_lookup OneByte NoPrefix 0xF7 0 = Some (TEST, [Ev, Iz])"
  "x64_lookup OneByte NoPrefix 0xF7 2 = Some (NOT', [Ev])"
  "x64_lookup OneByte NoPrefix 0xF7 3 = Some (NEG, [Ev])"
  "x64_lookup OneByte NoPrefix 0xF7 7 = Some (IDIV, [Ev])"
  "x64_lookup OneByte NoPrefix 0xFF 2 = Some (CALL, [Eq])"
  "x64_lookup OneByte NoPrefix 0xFF 4 = Some (JMP, [Eq])"
  "x64_lookup TwoByte NoPrefix 0x2E d = Some (UCOMISS, [V, W])"
  "x64_lookup TwoByte NoPrefix 0x54 d = Some (ANDPS, [V, W])"
  "x64_lookup TwoByte NoPrefix 0x57 d = Some (XORPS, [V, W])"
  "x64_lookup TwoByte NoPrefix 0xAF d = Some (IMUL, [Gv, Ev])"
  "x64_lookup TwoByte NoPrefix 0xB1 d = Some (CMPXCHG, [Ev, Gv])"
  "x64_lookup TwoByte NoPrefix 0xB6 d = Some (MOVZX, [Gv, Eb])"
  "x64_lookup TwoByte NoPrefix 0xBE d = Some (MOVSX, [Gv, Eb])"
  "x64_lookup TwoByte NoPrefix 0xC1 d = Some (XADD, [Ev, Gv])"
  "x64_lookup TwoByte PF3 0x10 d = Some (MOVSS, [V, W])"
  "x64_lookup TwoByte PF3 0x11 d = Some (MOVSS, [W, V])"
  "x64_lookup TwoByte PF3 0x2A d = Some (CVTSI2SS, [V, Ev])"
  "x64_lookup TwoByte PF3 0x2C d = Some (CVTTSS2SI, [Gv, W])"
  "x64_lookup TwoByte PF3 0x51 d = Some (SQRTSS, [V, W])"
  "x64_lookup TwoByte PF3 0x58 d = Some (ADDSS, [V, W])"
  "x64_lookup TwoByte PF3 0x59 d = Some (MULSS, [V, W])"
  "x64_lookup TwoByte PF3 0x5A d = Some (CVTSS2SD, [V, W])"
  "x64_lookup TwoByte PF3 0x5C d = Some (SUBSS, [V, W])"
  "x64_lookup TwoByte PF3 0x5E d = Some (DIVSS, [V, W])"
  "x64_lookup TwoByte PF3 0xB8 d = Some (POPCNT, [Gv, Ev])"
  "x64_lookup TwoByte PF3 0xBC d = Some (TZCNT, [Gv, Ev])"
  "x64_lookup TwoByte PF3 0xBD d = Some (LZCNT, [Gv, Ev])"
  "x64_lookup TwoByte PF2 0x10 d = Some (MOVSD, [V, W])"
  "x64_lookup TwoByte PF2 0x11 d = Some (MOVSD, [W, V])"
  "x64_lookup TwoByte PF2 0x2A d = Some (CVTSI2SD, [V, Ev])"
  "x64_lookup TwoByte PF2 0x2C d = Some (CVTTSD2SI, [Gv, W])"
  "x64_lookup TwoByte PF2 0x51 d = Some (SQRTSD, [V, W])"
  "x64_lookup TwoByte PF2 0x58 d = Some (ADDSD, [V, W])"
  "x64_lookup TwoByte PF2 0x59 d = Some (MULSD, [V, W])"
  "x64_lookup TwoByte PF2 0x5A d = Some (CVTSD2SS, [V, W])"
  "x64_lookup TwoByte PF2 0x5C d = Some (SUBSD, [V, W])"
  "x64_lookup TwoByte PF2 0x5E d = Some (DIVSD, [V, W])"
  "x64_lookup TwoByte P66 0x2E d = Some (UCOMISD, [V, W])"
  "x64_lookup TwoByte P66 0x57 d = Some (XORPD, [V, W])"
  "x64_lookup TwoByte P66 0x6E d = Some (MOVDQ, [V, Ev])"
  "x64_lookup TwoByte P66 0x7E d = Some (MOVDQ, [Ev, V])"
  "x64_lookup TwoByte P66 0xEF d = Some (PXOR, [V, W])"
  "x64_lookup ThreeByte P66 0x0A d = Some (ROUNDSS, [V, W, Ib])"
  "x64_lookup ThreeByte P66 0x0B d = Some (ROUNDSD, [V, W, Ib])"
  by (simp_all add: x64_lookup_def)

lemma lookup_register:
  assumes "l < 8"
  shows "x64_lookup OneByte NoPrefix (0x50 + l) d = Some (PUSH, [Oq])" "x64_lookup OneByte NoPrefix (0x58 + l) d = Some (POP, [Oq])"
    "x64_lookup OneByte NoPrefix (0xB8 + l) d = Some (MOV, [Ov, Iv])"
    "(0x50 + l) AND 7 = l" "(0x58 + l) AND 7 = l" "(0xB8 + l) AND 7 = l"
    "opcode_start OneByte (0x50 + l)" "opcode_start OneByte (0x58 + l)" "opcode_start OneByte (0xB8 + l)"
  using assms unfolding u8_less_8 by (elim insertE emptyE; simp add: x64_lookup_def opcode_start_def)+

lemma condition_less: "condition_int c < 16"
  by (cases c) simp_all

lemma lookup_condition:
  assumes "n < 16"
  shows "x64_lookup OneByte NoPrefix (0x70 + n) d = Some (JCC, [Cond, Jb])" "x64_lookup TwoByte NoPrefix (0x40 + n) d = Some (CMOVCC, [Cond, Gv, Ev])"
    "x64_lookup TwoByte NoPrefix (0x80 + n) d = Some (JCC, [Cond, Jz])" "x64_lookup TwoByte NoPrefix (0x90 + n) d = Some (SETCC, [Cond, Eb])"
    "(0x70 + n) AND 0xF = n" "(0x40 + n) AND 0xF = n" "(0x80 + n) AND 0xF = n" "(0x90 + n) AND 0xF = n"
    "opcode_start OneByte (0x70 + n)" "opcode_start TwoByte (0x40 + n)" "opcode_start TwoByte (0x80 + n)" "opcode_start TwoByte (0x90 + n)"
  using assms unfolding u8_less_16 by (elim insertE emptyE; simp add: x64_lookup_def opcode_start_def)+

subsection \<open>Methods\<close>

lemma byte_reg_ok:
  "byte_reg (rex_if (3 < reg_value q) False r x b) (reg_no q) = Gpr Byte (reg_no q)" "byte_reg (rex_if True w r x b) n = Gpr Byte n"
  by (auto simp: byte_reg_def rex_if_def reg_no_def word_less_nat_alt)

lemma x64_single_byte:
  "x64_encodes x64_int3 (Instr False INT3 [])"
    "x64_encodes x64_retq (Instr False RET [])"
    "x64_encodes x64_nop (Instr False NOP [])"
    "x64_encodes x64_cdq (Instr False CONVERT [Gpr Dword 0])"
  unfolding x64_int3_def x64_retq_def x64_nop_def x64_cdq_def
  by (rule encodes_byte, rule lookup_rows, rule imm_steps_Nil, simp, simp add: opcode_start_def has_modrm_def, simp add: v_size_def)+

lemma x64_memory_one:
  assumes "valid_reg p" "address_ok a x b m"
  shows "x64_encodes (x64_lea p a) (Instr False LEA [Gpr Qword (reg_no p), Ea m])"
    "x64_encodes (x64_movq_ra p a) (Instr False MOV [Gpr Qword (reg_no p), Mem Qword m])"
    "x64_encodes (x64_movb_ar a p) (Instr False MOV [Mem Byte m, Gpr Byte (reg_no p)])"
    "x64_encodes (x64_movq_ar a p) (Instr False MOV [Mem Qword m, Gpr Qword (reg_no p)])"
    "x64_encodes (x64_movl_ra p a) (Instr False MOV [Gpr Dword (reg_no p), Mem Dword m])"
    "x64_encodes (x64_movl_ar a p) (Instr False MOV [Mem Dword m, Gpr Dword (reg_no p)])"
    "x64_encodes (x64_cmpb_ar a p) (Instr False CMP [Mem Byte m, Gpr Byte (reg_no p)])"
    "x64_encodes (x64_cmpl_ar a p) (Instr False CMP [Mem Dword m, Gpr Dword (reg_no p)])"
    "x64_encodes (x64_cmpq_ar a p) (Instr False CMP [Mem Qword m, Gpr Qword (reg_no p)])"
    "x64_encodes (x64_xchgq_ar a p) (Instr False XCHG [Mem Qword m, Gpr Qword (reg_no p)])"
    "x64_encodes (x64_xchgl_ar a p) (Instr False XCHG [Mem Dword m, Gpr Dword (reg_no p)])"
    "x64_encodes (x64_testl_ar a p) (Instr False TEST [Mem Dword m, Gpr Dword (reg_no p)])"
    "x64_encodes (x64_testq_ar a p) (Instr False TEST [Mem Qword m, Gpr Qword (reg_no p)])"
  unfolding x64_lea_def x64_movq_ra_def x64_movb_ar_def x64_movq_ar_def x64_movl_ra_def x64_movl_ar_def x64_cmpb_ar_def
    x64_cmpl_ar_def x64_cmpq_ar_def x64_xchgq_ar_def x64_xchgl_ar_def x64_testl_ar_def x64_testq_ar_def
  by (rule encodes_one, (rule emits_intros; rule assms), rule rex_if_bits, (rule operand_steps operand_step_address; (rule assms | simp)), rule lookup_rows, rule imm_steps_Nil, simp, simp add: opcode_start_def has_modrm_def, simp add: v_size_def byte_reg_ok assms)+

lemma x64_registers_one:
  assumes "valid_reg p" "valid_reg q"
  shows "x64_encodes (x64_movq_rr p q) (Instr False MOV [Gpr Qword (reg_no p), Gpr Qword (reg_no q)])"
    "x64_encodes (x64_movl_rr p q) (Instr False MOV [Gpr Dword (reg_no p), Gpr Dword (reg_no q)])"
    "x64_encodes (x64_movsxlq_rr p q) (Instr False MOVSXD [Gpr Qword (reg_no p), Gpr Dword (reg_no q)])"
    "x64_encodes (x64_addq_rr p q) (Instr False ADD [Gpr Qword (reg_no p), Gpr Qword (reg_no q)])"
    "x64_encodes (x64_addl_rr p q) (Instr False ADD [Gpr Dword (reg_no p), Gpr Dword (reg_no q)])"
    "x64_encodes (x64_subq_rr p q) (Instr False SUB [Gpr Qword (reg_no p), Gpr Qword (reg_no q)])"
    "x64_encodes (x64_subl_rr p q) (Instr False SUB [Gpr Dword (reg_no p), Gpr Dword (reg_no q)])"
    "x64_encodes (x64_andl_rr p q) (Instr False AND' [Gpr Dword (reg_no p), Gpr Dword (reg_no q)])"
    "x64_encodes (x64_andq_rr p q) (Instr False AND' [Gpr Qword (reg_no p), Gpr Qword (reg_no q)])"
    "x64_encodes (x64_cmpl_rr p q) (Instr False CMP [Gpr Dword (reg_no p), Gpr Dword (reg_no q)])"
    "x64_encodes (x64_cmpq_rr p q) (Instr False CMP [Gpr Qword (reg_no p), Gpr Qword (reg_no q)])"
    "x64_encodes (x64_orl_rr p q) (Instr False OR' [Gpr Dword (reg_no p), Gpr Dword (reg_no q)])"
    "x64_encodes (x64_orq_rr p q) (Instr False OR' [Gpr Qword (reg_no p), Gpr Qword (reg_no q)])"
    "x64_encodes (x64_xorl_rr p q) (Instr False XOR' [Gpr Dword (reg_no p), Gpr Dword (reg_no q)])"
    "x64_encodes (x64_xorq_rr p q) (Instr False XOR' [Gpr Qword (reg_no p), Gpr Qword (reg_no q)])"
    "x64_encodes (x64_testl_rr p q) (Instr False TEST [Gpr Dword (reg_no p), Gpr Dword (reg_no q)])"
    "x64_encodes (x64_testq_rr p q) (Instr False TEST [Gpr Qword (reg_no p), Gpr Qword (reg_no q)])"
    "x64_encodes (x64_idivl_r p) (Instr False IDIV [Gpr Dword (reg_no p)])"
    "x64_encodes (x64_idivq_r p) (Instr False IDIV [Gpr Qword (reg_no p)])"
    "x64_encodes (x64_call_r p) (Instr False CALL [Gpr Qword (reg_no p)])"
    "x64_encodes (x64_negl p) (Instr False NEG [Gpr Dword (reg_no p)])"
    "x64_encodes (x64_negq p) (Instr False NEG [Gpr Qword (reg_no p)])"
    "x64_encodes (x64_notl p) (Instr False NOT' [Gpr Dword (reg_no p)])"
    "x64_encodes (x64_notq p) (Instr False NOT' [Gpr Qword (reg_no p)])"
    "x64_encodes (x64_jmp_r p) (Instr False JMP [Gpr Qword (reg_no p)])"
    "x64_encodes (x64_shrl_r p) (Instr False SHR [Gpr Dword (reg_no p), Gpr Byte 1])"
    "x64_encodes (x64_shll_r p) (Instr False SHL [Gpr Dword (reg_no p), Gpr Byte 1])"
    "x64_encodes (x64_sarl_r p) (Instr False SAR [Gpr Dword (reg_no p), Gpr Byte 1])"
    "x64_encodes (x64_shrq_r p) (Instr False SHR [Gpr Qword (reg_no p), Gpr Byte 1])"
    "x64_encodes (x64_sarq_r p) (Instr False SAR [Gpr Qword (reg_no p), Gpr Byte 1])"
    "x64_encodes (x64_shlq_r p) (Instr False SHL [Gpr Qword (reg_no p), Gpr Byte 1])"
    "x64_encodes (x64_roll_r p) (Instr False ROL [Gpr Dword (reg_no p), Gpr Byte 1])"
    "x64_encodes (x64_rolq_r p) (Instr False ROL [Gpr Qword (reg_no p), Gpr Byte 1])"
    "x64_encodes (x64_rorl_r p) (Instr False ROR [Gpr Dword (reg_no p), Gpr Byte 1])"
    "x64_encodes (x64_rorq_r p) (Instr False ROR [Gpr Qword (reg_no p), Gpr Byte 1])"
  unfolding x64_movq_rr_def x64_movl_rr_def x64_movsxlq_rr_def x64_addq_rr_def x64_addl_rr_def x64_subq_rr_def x64_subl_rr_def
    x64_andl_rr_def x64_andq_rr_def x64_cmpl_rr_def x64_cmpq_rr_def x64_orl_rr_def x64_orq_rr_def x64_xorl_rr_def x64_xorq_rr_def
    x64_testl_rr_def x64_testq_rr_def x64_idivl_r_def x64_idivq_r_def x64_call_r_def x64_negl_def x64_negq_def x64_notl_def
    x64_notq_def x64_jmp_r_def x64_shrl_r_def x64_shll_r_def x64_sarl_r_def x64_shrq_r_def x64_sarq_r_def x64_shlq_r_def
    x64_roll_r_def x64_rolq_r_def x64_rorl_r_def x64_rorq_r_def
  by (rule encodes_one, (rule emits_intros; rule assms), rule rex_if_bits, (rule operand_steps operand_step_address; (rule assms | simp)), rule lookup_rows, rule imm_steps_Nil, simp, simp add: opcode_start_def has_modrm_def, simp add: v_size_def byte_reg_ok assms)+

lemma x64_memory_byte:
  assumes "address_ok a x b m" "is_int8 i \<or> is_uint8 i"
  shows "x64_encodes (x64_movb_ai a i) (Instr False MOV [Mem Byte m, Imm (uint (int_as_u8 i))])"
    "x64_encodes (x64_cmpb_ai a i) (Instr False CMP [Mem Byte m, Imm (uint (int_as_u8 i))])"
  unfolding x64_movb_ai_def x64_cmpb_ai_def
  by (rule encodes_assert, rule assms, rule encodes_one, (rule emits_intros; rule assms), rule rex_if_bits, (rule operand_steps operand_step_address; (rule assms | simp)), rule lookup_rows, rule imm_byte, simp, simp add: opcode_start_def has_modrm_def, simp add: v_size_def byte_reg_ok assms uint8_cast)+

lemma x64_memory_dword_1:
  assumes "address_ok a x b m" "is_int32 i"
  shows "x64_encodes (x64_movq_ai a i) (Instr False MOV [Mem Qword m, Imm i])"
    "x64_encodes (x64_testl_ai a i) (Instr False TEST [Mem Dword m, Imm i])"
    "x64_encodes (x64_testq_ai a i) (Instr False TEST [Mem Qword m, Imm i])"
  unfolding x64_movq_ai_def x64_testl_ai_def x64_testq_ai_def
  by (rule encodes_assert, simp add: assms, rule encodes_one, (rule emits_intros; rule assms), rule rex_if_bits, (rule operand_steps operand_step_address; (rule assms | simp)), rule lookup_rows, rule imm_dword, simp, simp add: opcode_start_def has_modrm_def, simp add: v_size_def byte_reg_ok assms imm_exact uint8_cast)+

lemma x64_memory_dword_2:
  assumes "address_ok a x b m" "is_int32 i \<or> is_uint32 i"
  shows "x64_encodes (x64_movl_ai a i) (Instr False MOV [Mem Dword m, Imm (imm_int32 i)])"
  unfolding x64_movl_ai_def
  by (rule encodes_assert, simp add: assms, rule encodes_one, (rule emits_intros; rule assms), rule rex_if_bits, (rule operand_steps operand_step_address; (rule assms | simp)), rule lookup_rows, rule imm_dword, simp, simp add: opcode_start_def has_modrm_def, simp add: v_size_def byte_reg_ok assms imm_exact uint8_cast)+

lemma x64_registers_two:
  assumes "valid_reg p" "valid_reg q" "valid_xmm v" "valid_xmm w"
  shows "x64_encodes (x64_movzxb_rr p q) (Instr False MOVZX [Gpr Dword (reg_no p), Gpr Byte (reg_no q)])"
    "x64_encodes (x64_movsxbl_rr p q) (Instr False MOVSX [Gpr Dword (reg_no p), Gpr Byte (reg_no q)])"
    "x64_encodes (x64_movsxbq_rr p q) (Instr False MOVSX [Gpr Qword (reg_no p), Gpr Byte (reg_no q)])"
    "x64_encodes (x64_ucomiss_rr v w) (Instr False UCOMISS [Xmm (xmm_no v), Xmm (xmm_no w)])"
    "x64_encodes (x64_xorps_rr v w) (Instr False XORPS [Xmm (xmm_no v), Xmm (xmm_no w)])"
    "x64_encodes (x64_imull_rr p q) (Instr False IMUL [Gpr Dword (reg_no p), Gpr Dword (reg_no q)])"
    "x64_encodes (x64_imulq_rr p q) (Instr False IMUL [Gpr Qword (reg_no p), Gpr Qword (reg_no q)])"
  unfolding x64_movzxb_rr_def x64_movsxbl_rr_def x64_movsxbq_rr_def x64_ucomiss_rr_def x64_xorps_rr_def x64_imull_rr_def
    x64_imulq_rr_def
  by (rule encodes_two, (rule emits_intros; rule assms), rule rex_if_bits, (rule operand_steps operand_step_address; (rule assms | simp)), rule lookup_rows, rule imm_steps_Nil, simp, simp add: opcode_start_def has_modrm_def, simp add: v_size_def byte_reg_ok assms)+

lemma x64_memory_two:
  assumes "valid_reg p" "valid_xmm v" "address_ok a x b m"
  shows "x64_encodes (x64_movzxb_ra p a) (Instr False MOVZX [Gpr Dword (reg_no p), Mem Byte m])"
    "x64_encodes (x64_movsxbl_ra p a) (Instr False MOVSX [Gpr Dword (reg_no p), Mem Byte m])"
    "x64_encodes (x64_movsxbq_ra p a) (Instr False MOVSX [Gpr Qword (reg_no p), Mem Byte m])"
    "x64_encodes (x64_cmpxchgq_ar a p) (Instr False CMPXCHG [Mem Qword m, Gpr Qword (reg_no p)])"
    "x64_encodes (x64_cmpxchgl_ar a p) (Instr False CMPXCHG [Mem Dword m, Gpr Dword (reg_no p)])"
    "x64_encodes (x64_andps_ra v a) (Instr False ANDPS [Xmm (xmm_no v), XmmMem m])"
    "x64_encodes (x64_xorps_ra v a) (Instr False XORPS [Xmm (xmm_no v), XmmMem m])"
    "x64_encodes (x64_xaddq_ar a p) (Instr False XADD [Mem Qword m, Gpr Qword (reg_no p)])"
    "x64_encodes (x64_xaddl_ar a p) (Instr False XADD [Mem Dword m, Gpr Dword (reg_no p)])"
  unfolding x64_movzxb_ra_def x64_movsxbl_ra_def x64_movsxbq_ra_def x64_cmpxchgq_ar_def x64_cmpxchgl_ar_def x64_andps_ra_def
    x64_xorps_ra_def x64_xaddq_ar_def x64_xaddl_ar_def
  by (rule encodes_two, (rule emits_intros; rule assms), rule rex_if_bits, (rule operand_steps operand_step_address; (rule assms | simp)), rule lookup_rows, rule imm_steps_Nil, simp, simp add: opcode_start_def has_modrm_def, simp add: v_size_def byte_reg_ok assms)+

lemma x64_prefixed_registers:
  assumes "valid_reg p" "valid_reg q" "valid_xmm v" "valid_xmm w"
  shows "x64_encodes (x64_movss_rr v w) (Instr False MOVSS [Xmm (xmm_no v), Xmm (xmm_no w)])"
    "x64_encodes (x64_movsd_rr v w) (Instr False MOVSD [Xmm (xmm_no v), Xmm (xmm_no w)])"
    "x64_encodes (x64_addss_rr v w) (Instr False ADDSS [Xmm (xmm_no v), Xmm (xmm_no w)])"
    "x64_encodes (x64_addsd_rr v w) (Instr False ADDSD [Xmm (xmm_no v), Xmm (xmm_no w)])"
    "x64_encodes (x64_subss_rr v w) (Instr False SUBSS [Xmm (xmm_no v), Xmm (xmm_no w)])"
    "x64_encodes (x64_subsd_rr v w) (Instr False SUBSD [Xmm (xmm_no v), Xmm (xmm_no w)])"
    "x64_encodes (x64_ucomisd_rr v w) (Instr False UCOMISD [Xmm (xmm_no v), Xmm (xmm_no w)])"
    "x64_encodes (x64_sqrtss_rr v w) (Instr False SQRTSS [Xmm (xmm_no v), Xmm (xmm_no w)])"
    "x64_encodes (x64_sqrtsd_rr v w) (Instr False SQRTSD [Xmm (xmm_no v), Xmm (xmm_no w)])"
    "x64_encodes (x64_pxor_rr v w) (Instr False PXOR [Xmm (xmm_no v), Xmm (xmm_no w)])"
    "x64_encodes (x64_mulss_rr v w) (Instr False MULSS [Xmm (xmm_no v), Xmm (xmm_no w)])"
    "x64_encodes (x64_mulsd_rr v w) (Instr False MULSD [Xmm (xmm_no v), Xmm (xmm_no w)])"
    "x64_encodes (x64_divss_rr v w) (Instr False DIVSS [Xmm (xmm_no v), Xmm (xmm_no w)])"
    "x64_encodes (x64_divsd_rr v w) (Instr False DIVSD [Xmm (xmm_no v), Xmm (xmm_no w)])"
    "x64_encodes (x64_tzcntl_rr p q) (Instr False TZCNT [Gpr Dword (reg_no p), Gpr Dword (reg_no q)])"
    "x64_encodes (x64_tzcntq_rr p q) (Instr False TZCNT [Gpr Qword (reg_no p), Gpr Qword (reg_no q)])"
    "x64_encodes (x64_lzcntl_rr p q) (Instr False LZCNT [Gpr Dword (reg_no p), Gpr Dword (reg_no q)])"
    "x64_encodes (x64_lzcntq_rr p q) (Instr False LZCNT [Gpr Qword (reg_no p), Gpr Qword (reg_no q)])"
    "x64_encodes (x64_popcntl_rr p q) (Instr False POPCNT [Gpr Dword (reg_no p), Gpr Dword (reg_no q)])"
    "x64_encodes (x64_popcntq_rr p q) (Instr False POPCNT [Gpr Qword (reg_no p), Gpr Qword (reg_no q)])"
    "x64_encodes (x64_cvtsd2ss_rr v w) (Instr False CVTSD2SS [Xmm (xmm_no v), Xmm (xmm_no w)])"
    "x64_encodes (x64_cvtss2sd_rr v w) (Instr False CVTSS2SD [Xmm (xmm_no v), Xmm (xmm_no w)])"
    "x64_encodes (x64_cvtsi2ssd_rr v p) (Instr False CVTSI2SS [Xmm (xmm_no v), Gpr Dword (reg_no p)])"
    "x64_encodes (x64_cvtsi2ssq_rr v p) (Instr False CVTSI2SS [Xmm (xmm_no v), Gpr Qword (reg_no p)])"
    "x64_encodes (x64_cvtsi2sdd_rr v p) (Instr False CVTSI2SD [Xmm (xmm_no v), Gpr Dword (reg_no p)])"
    "x64_encodes (x64_cvtsi2sdq_rr v p) (Instr False CVTSI2SD [Xmm (xmm_no v), Gpr Qword (reg_no p)])"
    "x64_encodes (x64_cvttss2sid_rr p v) (Instr False CVTTSS2SI [Gpr Dword (reg_no p), Xmm (xmm_no v)])"
    "x64_encodes (x64_cvttss2siq_rr p v) (Instr False CVTTSS2SI [Gpr Qword (reg_no p), Xmm (xmm_no v)])"
    "x64_encodes (x64_cvttsd2sid_rr p v) (Instr False CVTTSD2SI [Gpr Dword (reg_no p), Xmm (xmm_no v)])"
    "x64_encodes (x64_cvttsd2siq_rr p v) (Instr False CVTTSD2SI [Gpr Qword (reg_no p), Xmm (xmm_no v)])"
    "x64_encodes (x64_movd_rx p v) (Instr False MOVDQ [Gpr Dword (reg_no p), Xmm (xmm_no v)])"
    "x64_encodes (x64_movd_xr v p) (Instr False MOVDQ [Xmm (xmm_no v), Gpr Dword (reg_no p)])"
    "x64_encodes (x64_movq_rx p v) (Instr False MOVDQ [Gpr Qword (reg_no p), Xmm (xmm_no v)])"
    "x64_encodes (x64_movq_xr v p) (Instr False MOVDQ [Xmm (xmm_no v), Gpr Qword (reg_no p)])"
  unfolding x64_movss_rr_def x64_movsd_rr_def x64_addss_rr_def x64_addsd_rr_def x64_subss_rr_def x64_subsd_rr_def x64_ucomisd_rr_def
    x64_sqrtss_rr_def x64_sqrtsd_rr_def x64_pxor_rr_def x64_mulss_rr_def x64_mulsd_rr_def x64_divss_rr_def x64_divsd_rr_def
    x64_tzcntl_rr_def x64_tzcntq_rr_def x64_lzcntl_rr_def x64_lzcntq_rr_def x64_popcntl_rr_def x64_popcntq_rr_def x64_cvtsd2ss_rr_def
    x64_cvtss2sd_rr_def x64_cvtsi2ssd_rr_def x64_cvtsi2ssq_rr_def x64_cvtsi2sdd_rr_def x64_cvtsi2sdq_rr_def x64_cvttss2sid_rr_def
    x64_cvttss2siq_rr_def x64_cvttsd2sid_rr_def x64_cvttsd2siq_rr_def x64_movd_rx_def x64_movd_xr_def x64_movq_rx_def x64_movq_xr_def
  by (rule encodes_prefix_two, rule prefix_bytes.simps, (rule emits_intros; rule assms), rule rex_if_bits, (rule operand_steps operand_step_address; (rule assms | simp)), rule lookup_rows, rule imm_steps_Nil, simp, simp add: opcode_start_def has_modrm_def, simp add: v_size_def byte_reg_ok assms)+

lemma x64_prefixed_memory:
  assumes "valid_xmm v" "address_ok a x b m"
  shows "x64_encodes (x64_movss_ra v a) (Instr False MOVSS [Xmm (xmm_no v), XmmMem m])"
    "x64_encodes (x64_movss_ar a v) (Instr False MOVSS [XmmMem m, Xmm (xmm_no v)])"
    "x64_encodes (x64_movsd_ra v a) (Instr False MOVSD [Xmm (xmm_no v), XmmMem m])"
    "x64_encodes (x64_movsd_ar a v) (Instr False MOVSD [XmmMem m, Xmm (xmm_no v)])"
    "x64_encodes (x64_xorpd_ra v a) (Instr False XORPD [Xmm (xmm_no v), XmmMem m])"
  unfolding x64_movss_ra_def x64_movss_ar_def x64_movsd_ra_def x64_movsd_ar_def x64_xorpd_ra_def
  by (rule encodes_prefix_two, rule prefix_bytes.simps, (rule emits_intros; rule assms), rule rex_if_bits, (rule operand_steps operand_step_address; (rule assms | simp)), rule lookup_rows, rule imm_steps_Nil, simp, simp add: opcode_start_def has_modrm_def, simp add: v_size_def byte_reg_ok assms)+

lemma x64_rounding:
  assumes "valid_xmm v"
  shows "x64_encodes (x64_roundss_ri v i) (Instr False ROUNDSS [Xmm (xmm_no v), Xmm (xmm_no v), Imm (uint (int_as_u8 i))])"
    "x64_encodes (x64_roundsd_ri v i) (Instr False ROUNDSD [Xmm (xmm_no v), Xmm (xmm_no v), Imm (uint (int_as_u8 i))])"
  unfolding x64_roundss_ri_def x64_roundsd_ri_def
  by (rule encodes_prefix_three, rule prefix_bytes.simps, (rule emits_intros; rule assms), rule rex_if_bits, (rule operand_steps operand_step_address; (rule assms | simp)), rule lookup_rows, rule imm_byte, simp, simp add: opcode_start_def has_modrm_def, simp add: v_size_def byte_reg_ok assms uint8_cast)+

lemma x64_locked_memory:
  assumes "valid_reg p" "address_ok a x b m"
  shows "x64_encodes (x64_lock_cmpxchgq_ar a p) (Instr True CMPXCHG [Mem Qword m, Gpr Qword (reg_no p)])"
    "x64_encodes (x64_lock_cmpxchgl_ar a p) (Instr True CMPXCHG [Mem Dword m, Gpr Dword (reg_no p)])"
    "x64_encodes (x64_lock_xaddq_ar a p) (Instr True XADD [Mem Qword m, Gpr Qword (reg_no p)])"
    "x64_encodes (x64_lock_xaddl_ar a p) (Instr True XADD [Mem Dword m, Gpr Dword (reg_no p)])"
  unfolding x64_lock_cmpxchgq_ar_def x64_lock_cmpxchgl_ar_def x64_lock_xaddq_ar_def x64_lock_xaddl_ar_def
  by (rule encodes_lock_two, (rule emits_intros; rule assms), rule rex_if_bits, (rule operand_steps operand_step_address; (rule assms | simp)), rule lookup_rows, rule imm_steps_Nil, simp, simp add: opcode_start_def has_modrm_def, simp add: v_size_def byte_reg_ok assms)+

lemma x64_wide_convert:
  "x64_encodes x64_cqo (Instr False CONVERT [Gpr Qword 0])"
  unfolding x64_cqo_def
  by (rule encodes_plain, rule emits_intros, rule lookup_rows, rule imm_steps_Nil, simp, simp add: opcode_start_def has_modrm_def, simp add: v_size_def)+

lemma x64_shifts:
  assumes "valid_reg p" "is_int8 i"
  shows "x64_encodes (x64_shrl_ri p i) (Instr False SHR [Gpr Dword (reg_no p), Imm (uint (int_as_u8 i))])"
    "x64_encodes (x64_shrq_ri p i) (Instr False SHR [Gpr Qword (reg_no p), Imm (uint (int_as_u8 i))])"
    "x64_encodes (x64_sarl_ri p i) (Instr False SAR [Gpr Dword (reg_no p), Imm (uint (int_as_u8 i))])"
    "x64_encodes (x64_sarq_ri p i) (Instr False SAR [Gpr Qword (reg_no p), Imm (uint (int_as_u8 i))])"
    "x64_encodes (x64_shll_ri p i) (Instr False SHL [Gpr Dword (reg_no p), Imm (uint (int_as_u8 i))])"
    "x64_encodes (x64_shlq_ri p i) (Instr False SHL [Gpr Qword (reg_no p), Imm (uint (int_as_u8 i))])"
  unfolding x64_shrl_ri_def x64_shrq_ri_def x64_sarl_ri_def x64_sarq_ri_def x64_shll_ri_def x64_shlq_ri_def
  by (rule encodes_assert, rule assms, rule encodes_one, (rule emits_intros; rule assms), rule rex_if_bits, (rule operand_steps operand_step_address; (rule assms | simp)), rule lookup_rows, rule imm_byte, simp, simp add: opcode_start_def has_modrm_def, simp add: v_size_def byte_reg_ok assms)+

text \<open>Registers in the opcode, conditions, and immediates whose size decides the form.\<close>

definition is_int64 :: "immediate \<Rightarrow> bool" where
  "is_int64 i \<longleftrightarrow> - (2 ^ 63) \<le> i \<and> i < 2 ^ 63"

lemma x64_stack_registers:
  assumes "valid_reg p"
  shows "x64_encodes (x64_pushq_r p) (Instr False PUSH [Gpr Qword (reg_no p)])"
    "x64_encodes (x64_popq_r p) (Instr False POP [Gpr Qword (reg_no p)])"
  unfolding x64_pushq_r_def x64_popq_r_def
  by (rule encodes_plain, rule emits_intros, rule lookup_register, simp, rule imm_steps_Nil, simp, simp add: lookup_register has_modrm_def,
      simp add: op_reg_def lookup_register assms)+

lemma x64_movl_ri_encodes:
  assumes "valid_reg p" "is_int32 i"
  shows "x64_encodes (x64_movl_ri p i) (Instr False MOV [Gpr Dword (reg_no p), Imm i])"
  unfolding x64_movl_ri_def
  by (rule encodes_assert, rule assms, rule encodes_plain, rule emits_intros, rule lookup_register, simp, rule imm_dword, simp,
      simp add: lookup_register has_modrm_def, simp add: op_reg_def v_size_def lookup_register imm_exact assms)

lemma x64_movq_ri_encodes:
  assumes "valid_reg p" "is_int64 i"
  shows "x64_encodes (x64_movq_ri p i) (Instr False MOV [Gpr Qword (reg_no p), Imm i])"
proof (cases "is_int32 i")
  case True
  show ?thesis unfolding x64_movq_ri_def if_P [OF True]
    by (rule encodes_one, rule emits_intros, rule rex_if_bits, (rule operand_steps; (rule assms | simp)), rule lookup_rows, rule imm_dword, simp,
        simp add: opcode_start_def has_modrm_def, simp add: v_size_def imm_exact assms True)
next
  case False
  have exact: "sint (int_as_u64 i) = i"
    using assms(2) by (simp add: is_int64_def int_as_u64_def signed_of_int signed_take_bit_int_eq_self)
  show ?thesis unfolding x64_movq_ri_def if_not_P [OF False] imm_int64_def
    by (rule encodes_plain, rule emits_intros, rule lookup_register, simp, rule imm_steps_one(3), simp add: take_i64_bytes,
        simp add: lookup_register has_modrm_def, simp add: op_reg_def v_size_def lookup_register assms exact)
qed

lemma x64_conditions:
  assumes "valid_reg p" "valid_reg q"
  shows "x64_encodes (x64_cmovl c p q) (Instr False CMOVCC [Cc (unat (condition_int c)), Gpr Dword (reg_no p), Gpr Dword (reg_no q)])"
    "x64_encodes (x64_cmovq c p q) (Instr False CMOVCC [Cc (unat (condition_int c)), Gpr Qword (reg_no p), Gpr Qword (reg_no q)])"
  unfolding x64_cmovl_def x64_cmovq_def
  by (rule encodes_two, rule emits_intros, rule rex_if_bits, (rule operand_steps; rule assms), rule lookup_condition, rule condition_less,
      rule imm_steps_Nil, simp, simp add: lookup_condition condition_less has_modrm_def,
      simp add: v_size_def lookup_condition condition_less assms)+

lemma x64_setcc_r_encodes:
  assumes "valid_reg p"
  shows "x64_encodes (x64_setcc_r c p) (Instr False SETCC [Cc (unat (condition_int c)), Gpr Byte (reg_no p)])"
proof -
  let ?rex = "rex_if (3 < low_bits p) False False False (needs_rex p)"
  have rex: "emits (if needs_rex p \<or> 3 < low_bits p then emit_rex False False False (needs_rex p) else Inr) (rex_bytes ?rex)"
    using emits_rex [of False False False "needs_rex p"] emits_basic(4) by (auto simp: rex_if_def)
  have byte: "byte_reg ?rex (reg_no p) = Gpr Byte (reg_no p)"
    using assms unfolding valid_reg_def u8_less_16
    by (cases p) (elim insertE emptyE; simp add: byte_reg_def rex_if_def needs_rex_def low_bits_def reg_no_def)
  show ?thesis unfolding x64_setcc_r_def
    by (rule encodes_two, rule rex, rule rex_if_bits, (rule operand_steps; (rule assms | simp)), rule lookup_condition, rule condition_less,
        rule imm_steps_Nil, simp, simp add: lookup_condition condition_less has_modrm_def,
        simp add: lookup_condition condition_less assms byte)
qed

lemma alu_imm_encodes:
  assumes reg: "valid_reg p" and i: "is_int32 i" and n: "n < 8"
    and rows: "x64_lookup OneByte NoPrefix 0x83 n = Some (mn, [Ev, Ibs])" "x64_lookup OneByte NoPrefix 0x81 n = Some (mn, [Ev, Iz])"
      "\<And>d. x64_lookup OneByte NoPrefix rax d = Some (mn, [Av, Iz])" and start: "opcode_start OneByte rax"
  shows "x64_encodes (emit_alu64_imm p i n rax) (Instr False mn [Gpr Qword (reg_no p), Imm i])"
    "x64_encodes (emit_alu32_imm p i n rax) (Instr False mn [Gpr Dword (reg_no p), Imm i])"
proof -
  have RAX: "p = RAX \<Longrightarrow> reg_no p = 0" by (simp add: RAX_def reg_no_def)
  have "x64_encodes (x64_do ([x64_assert (is_int32 i), fr] @
     (if is_int8 i then [emit_u8 0x83, emit_modrm_opcode n p, emit_u8 (int_as_u8 (imm_int8 i))]
      else if p = RAX then [emit_u8 rax, emit_u32 (int_as_u32 (imm_int32 i))]
      else [emit_u8 0x81, emit_modrm_opcode n p, emit_u32 (int_as_u32 (imm_int32 i))])))
     (Instr False mn [Gpr (if w then Qword else Dword) (reg_no p), Imm i])"
    if fr: "emits fr (rex_bytes rx)" "rex_bits rx = (w, False, False, needs_rex p)" for fr rx w
  proof -
    consider "is_int8 i" | "\<not> is_int8 i" "p = RAX" | "\<not> is_int8 i" "p \<noteq> RAX" by blast
    then show ?thesis
    proof cases
      case 1
      show ?thesis unfolding append_Cons append_Nil if_P [OF 1]
        by (rule encodes_assert, rule i, rule encodes_one, rule fr, rule fr, (rule operand_steps; rule n reg), rule rows, rule imm_byte(2),
            simp, simp add: opcode_start_def has_modrm_def, simp add: v_size_def fr(2) sint_int_as_u8 imm_exact 1)
    next
      case 2
      show ?thesis unfolding append_Cons append_Nil if_not_P [OF 2(1)] if_P [OF 2(2)]
        by (rule encodes_assert, rule i, rule encodes_plain, rule fr, rule rows, rule imm_dword,
            simp, simp add: start has_modrm_def, simp add: v_size_def fr(2) imm_exact i RAX [OF 2(2)])
    next
      case 3
      show ?thesis unfolding append_Cons append_Nil if_not_P [OF 3(1)] if_not_P [OF 3(2)]
        by (rule encodes_assert, rule i, rule encodes_one, rule fr, rule fr, (rule operand_steps; rule n reg), rule rows, rule imm_dword,
            simp, simp add: opcode_start_def has_modrm_def, simp add: v_size_def fr(2) imm_exact i)
    qed
  qed
  from this [OF emits_rex_registers(6) rex_if_bits] this [OF emits_rex_registers(2) rex_if_bits]
  show "x64_encodes (emit_alu64_imm p i n rax) (Instr False mn [Gpr Qword (reg_no p), Imm i])"
    "x64_encodes (emit_alu32_imm p i n rax) (Instr False mn [Gpr Dword (reg_no p), Imm i])"
    unfolding emit_alu64_imm_def emit_alu32_imm_def by simp_all
qed

lemma x64_alu_immediates:
  assumes "valid_reg p" "is_int32 i"
  shows "x64_encodes (x64_addl_ri p i) (Instr False ADD [Gpr Dword (reg_no p), Imm i])"
    "x64_encodes (x64_addq_ri p i) (Instr False ADD [Gpr Qword (reg_no p), Imm i])"
    "x64_encodes (x64_subq_ri p i) (Instr False SUB [Gpr Qword (reg_no p), Imm i])"
    "x64_encodes (x64_subq_ri32 p i) (Instr False SUB [Gpr Qword (reg_no p), Imm i])"
    "x64_encodes (x64_andq_ri p i) (Instr False AND' [Gpr Qword (reg_no p), Imm i])"
    "x64_encodes (x64_cmpq_ri p i) (Instr False CMP [Gpr Qword (reg_no p), Imm i])"
    "x64_encodes (x64_cmpl_ri p i) (Instr False CMP [Gpr Dword (reg_no p), Imm i])"
    "x64_encodes (x64_xorl_ri p i) (Instr False XOR' [Gpr Dword (reg_no p), Imm i])"
  unfolding x64_addl_ri_def x64_addq_ri_def x64_subq_ri_def x64_subq_ri32_def x64_andq_ri_def x64_cmpq_ri_def x64_cmpl_ri_def
    x64_xorl_ri_def
  by (rule alu_imm_encodes, rule assms, rule assms, simp, rule lookup_rows, rule lookup_rows, rule lookup_rows, simp add: opcode_start_def)+

lemma x64_cmpl_ai_encodes:
  assumes "address_ok a x b m" "is_int32 i \<or> is_uint32 i"
  shows "x64_encodes (x64_cmpl_ai a i) (Instr False CMP [Mem Dword m, Imm (imm_int32 i)])"
proof (cases "is_int8 i")
  case True
  then have "is_int32 i" by (simp add: is_int8_def is_int32_def)
  then have same: "imm_int8 i = imm_int32 i" using True by (simp add: imm_exact)
  show ?thesis unfolding x64_cmpl_ai_def if_P [OF True]
    by (rule encodes_assert, rule assms, rule encodes_one, (rule emits_intros; rule assms), rule rex_if_bits, (rule operand_step_address; (rule assms | simp)),
        rule lookup_rows, rule imm_byte(2), simp, simp add: opcode_start_def has_modrm_def, simp add: v_size_def sint_int_as_u8 same [symmetric])
next
  case False
  show ?thesis unfolding x64_cmpl_ai_def if_not_P [OF False]
    by (rule encodes_assert, rule assms, rule encodes_one, (rule emits_intros; rule assms), rule rex_if_bits, (rule operand_step_address; (rule assms | simp)),
        rule lookup_rows, rule imm_dword, simp, simp add: opcode_start_def has_modrm_def, simp add: v_size_def uint8_cast imm_exact)
qed

lemma x64_cmpq_ai_encodes:
  assumes "address_ok a x b m" "is_int32 i"
  shows "x64_encodes (x64_cmpq_ai a i) (Instr False CMP [Mem Qword m, Imm i])"
proof (cases "is_int8 i")
  case True
  show ?thesis unfolding x64_cmpq_ai_def if_P [OF True]
    by (rule encodes_assert, rule assms, rule encodes_one, (rule emits_intros; rule assms), rule rex_if_bits, (rule operand_step_address; (rule assms | simp)),
        rule lookup_rows, rule imm_byte(2), simp, simp add: opcode_start_def has_modrm_def, simp add: v_size_def sint_int_as_u8 imm_exact True)
next
  case False
  show ?thesis unfolding x64_cmpq_ai_def if_not_P [OF False]
    by (rule encodes_assert, rule assms, rule encodes_one, (rule emits_intros; rule assms), rule rex_if_bits, (rule operand_step_address; (rule assms | simp)),
        rule lookup_rows, rule imm_dword, simp, simp add: opcode_start_def has_modrm_def, simp add: v_size_def imm_exact assms)
qed

text \<open>Methods that emit no REX prefix.\<close>

lemma encodes_no_rex:
  "operand_step fm False False reg rm \<Longrightarrow> x64_lookup OneByte NoPrefix op reg = Some (mn, specs) \<Longrightarrow> imm_steps fi specs None imm \<Longrightarrow>
    opcode_start OneByte op \<and> has_modrm specs \<Longrightarrow> ins = Instr False mn (map (operand None op (unat reg) rm imm) specs) \<Longrightarrow>
    x64_encodes (x64_do (emit_u8 op # fm # fi)) ins"
  "(\<And>digit. x64_lookup OneByte NoPrefix op digit = Some (mn, specs)) \<Longrightarrow> imm_steps fi specs None imm \<Longrightarrow>
    opcode_start OneByte op \<and> \<not> has_modrm specs \<Longrightarrow> ins = Instr False mn (map (operand None op 0 (RmReg 0) imm) specs) \<Longrightarrow>
    x64_encodes (x64_do (emit_u8 op # fi)) ins"
proof -
  have none: "emits Inr (rex_bytes None)" by (simp add: emits_basic)
  show "x64_encodes (x64_do (emit_u8 op # fm # fi)) ins"
    if "operand_step fm False False reg rm" "x64_lookup OneByte NoPrefix op reg = Some (mn, specs)" "imm_steps fi specs None imm"
      "opcode_start OneByte op \<and> has_modrm specs" "ins = Instr False mn (map (operand None op (unat reg) rm imm) specs)"
    using encodes_one [OF none rex_bits.simps(1) that(1-4), of ins] that(5) by (simp add: x64_do_skip extend_reg_def del: x64_do.simps)
  show "x64_encodes (x64_do (emit_u8 op # fi)) ins"
    if "\<And>digit. x64_lookup OneByte NoPrefix op digit = Some (mn, specs)" "imm_steps fi specs None imm"
      "opcode_start OneByte op \<and> \<not> has_modrm specs" "ins = Instr False mn (map (operand None op 0 (RmReg 0) imm) specs)"
    using encodes_plain [OF none that] by (simp add: x64_do_skip del: x64_do.simps)
qed

lemma x64_testl_ri_encodes:
  assumes "valid_reg p" "is_int32 i" "is_uint8 i \<or> \<not> needs_rex p"
  shows "x64_encodes (x64_testl_ri p i) (Instr False TEST [if is_uint8 i then Gpr Byte (reg_no p) else Gpr Dword (reg_no p), Imm i])"
proof -
  have RAX: "reg_no RAX = 0" by (simp add: RAX_def reg_no_def)
  have byte: "is_uint8 i \<Longrightarrow> uint (imm_uint8 i) = i" by (simp add: is_uint8_def imm_uint8_def unsigned_of_int take_bit_int_eq_self)
  have low: "reg_value p < 4 \<Longrightarrow> \<not> needs_rex p \<and> byte_reg None (reg_no p) = Gpr Byte (reg_no p)"
    by (simp add: needs_rex_def byte_reg_def reg_no_def word_less_nat_alt)
  have direct: "operand_step (emit_modrm_opcode 0 p) False False 0 (RmReg (reg_no p))" if "\<not> needs_rex p"
    using operand_steps(3) [of 0 p False] that assms(1) by simp
  consider "is_uint8 i" "p = RAX" | "is_uint8 i" "p \<noteq> RAX" "reg_value p < 4" | "is_uint8 i" "p \<noteq> RAX" "\<not> reg_value p < 4"
    | "\<not> is_uint8 i" "p = RAX" | "\<not> is_uint8 i" "p \<noteq> RAX" "\<not> needs_rex p" using assms(3) by blast
  then show ?thesis
  proof cases
    case 1
    show ?thesis unfolding x64_testl_ri_def if_P [OF 1(1)] if_P [OF 1(2)] append_Cons append_Nil
      by (rule encodes_assert, rule assms, rule encodes_no_rex(2), rule lookup_rows, rule imm_byte(1), simp,
          simp add: opcode_start_def has_modrm_def, simp add: byte 1 RAX)
  next
    case 2
    show ?thesis unfolding x64_testl_ri_def if_P [OF 2(1)] if_not_P [OF 2(2)] if_P [OF 2(3)] append_Cons append_Nil
      by (rule encodes_assert, rule assms, rule encodes_no_rex(1), rule direct, simp add: low [OF 2(3)], rule lookup_rows, rule imm_byte(1), simp,
          simp add: opcode_start_def has_modrm_def, simp add: byte 2 low [OF 2(3)])
  next
    case 3
    show ?thesis unfolding x64_testl_ri_def if_P [OF 3(1)] if_not_P [OF 3(2)] if_not_P [OF 3(3)] append_Cons append_Nil
      by (rule encodes_assert, rule assms, rule encodes_one, rule emits_intros, rule rex_if_bits, (rule operand_steps; (rule assms | simp)),
          rule lookup_rows, rule imm_byte(1), simp, simp add: opcode_start_def has_modrm_def, simp add: byte 3 byte_reg_ok)
  next
    case 4
    show ?thesis unfolding x64_testl_ri_def if_not_P [OF 4(1)] if_P [OF 4(2)]
      by (rule encodes_assert, rule assms, rule encodes_no_rex(2), rule lookup_rows, rule imm_dword, simp,
          simp add: opcode_start_def has_modrm_def, simp add: v_size_def imm_exact assms 4 RAX)
  next
    case 5
    show ?thesis unfolding x64_testl_ri_def if_not_P [OF 5(1)] if_not_P [OF 5(2)]
      by (rule encodes_assert, rule assms, rule encodes_no_rex(1), rule direct, rule 5, rule lookup_rows, rule imm_dword, simp,
          simp add: opcode_start_def has_modrm_def, simp add: v_size_def imm_exact assms 5)
  qed
qed

end
