(* ===== verification/X64Jumps.thy ===== *)
theory X64Jumps
  imports X64Methods
begin

text \<open>
  Labels and jumps of the x64 assembler.  The code under construction is a list of chunks: finished bytes,
  and jumps to labels that are not bound yet, whose distance bytes are zero.  Resolving the jumps fills in
  the distances and leaves everything else alone.
\<close>

subsection \<open>Programs\<close>

datatype x64_item =
    XInst x64_step
  | XNewLabel
  | XNewBoundLabel
  | XBind asm_label
  | XJmp asm_label
  | XJmpNear asm_label
  | XJcc x64_condition asm_label
  | XJccNear x64_condition asm_label

fun x64_item_step :: "x64_item \<Rightarrow> x64_step" where
  "x64_item_step (XInst f) s = f s"
| "x64_item_step XNewLabel s = Inr (snd (x64_create_label s))"
| "x64_item_step XNewBoundLabel s = rbind (x64_create_and_bind_label s) (\<lambda>(l, s). Inr s)"
| "x64_item_step (XBind l) s = x64_bind_label l s"
| "x64_item_step (XJmp l) s = x64_jmp l s"
| "x64_item_step (XJmpNear l) s = x64_jmp_near l s"
| "x64_item_step (XJcc c l) s = x64_jcc c l s"
| "x64_item_step (XJccNear c l) s = x64_jcc_near c l s"

definition x64_run :: "x64_item list \<Rightarrow> x64_step" where
  "x64_run items = x64_do (map x64_item_step items)"

text \<open>The instruction a jump item stands for, with its distance, and its label.\<close>

fun jump_instr :: "x64_item \<Rightarrow> int \<Rightarrow> x64_instr" where
  "jump_instr (XJcc c l) d = Instr False JCC [Cc (unat (condition_int c)), Rel d]"
| "jump_instr (XJccNear c l) d = Instr False JCC [Cc (unat (condition_int c)), Rel d]"
| "jump_instr _ d = Instr False JMP [Rel d]"

fun jump_label :: "x64_item \<Rightarrow> asm_label option" where
  "jump_label (XJmp l) = Some l"
| "jump_label (XJmpNear l) = Some l"
| "jump_label (XJcc c l) = Some l"
| "jump_label (XJccNear c l) = Some l"
| "jump_label _ = None"

subsection \<open>Chunks\<close>

datatype chunk = Done "u8 list" | Open "u8 list" jump_distance asm_label

fun distance_size :: "jump_distance \<Rightarrow> nat" where
  "distance_size Near = 1"
| "distance_size Far = 4"

fun chunk_bytes :: "chunk \<Rightarrow> u8 list" where
  "chunk_bytes (Done bs) = bs"
| "chunk_bytes (Open op dist l) = op @ replicate (distance_size dist) 0"

definition chunks_code :: "chunk list \<Rightarrow> u8 list" where
  "chunks_code cs = concat (map chunk_bytes cs)"

fun open_jumps :: "nat \<Rightarrow> chunk list \<Rightarrow> x64_forward_jump list" where
  "open_jumps p [] = []"
| "open_jumps p (Done bs # cs) = open_jumps (p + length bs) cs"
| "open_jumps p (Open op dist l # cs) =
     \<lparr>xj_offset = as_u32 (p + length op), xj_label = l, xj_distance = dist\<rparr> # open_jumps (p + length op + distance_size dist) cs"

text \<open>The assembler with these chunks and labels.\<close>

definition of_chunks :: "chunk list \<Rightarrow> nat option list \<Rightarrow> assembler_x64" where
  "of_chunks cs ls = \<lparr>x64_unresolved = open_jumps 0 cs, x64_buffer = \<lparr>ab_code = chunks_code cs,
     ab_position = length (chunks_code cs), ab_labels = map (map_option as_u32) ls\<rparr>\<rparr>"

lemma chunks_code_simps [simp]: "chunks_code [] = []" "chunks_code (c # cs) = chunk_bytes c @ chunks_code cs"
  "chunks_code (cs @ ds) = chunks_code cs @ chunks_code ds"
  by (simp_all add: chunks_code_def)

lemma open_jumps_append: "open_jumps p (cs @ ds) = open_jumps p cs @ open_jumps (p + length (chunks_code cs)) ds"
  by (induction p cs rule: open_jumps.induct) (simp_all add: add.assoc)

lemma of_chunks_append: "x64_append bs (of_chunks cs ls) = of_chunks (cs @ [Done bs]) ls"
  by (simp add: of_chunks_def x64_append_def open_jumps_append)

lemma of_chunks_end [simp]: "x64_at_end (of_chunks cs ls)"
  by (simp add: of_chunks_def x64_at_end_def)

text \<open>The distance of an open jump at \<open>p\<close>, once its label is bound at \<open>t\<close>.\<close>

definition open_distance :: "nat \<Rightarrow> u8 list \<Rightarrow> jump_distance \<Rightarrow> nat \<Rightarrow> int" where
  "open_distance p op dist t = int t - int (p + length op + distance_size dist)"

fun distance_bytes :: "jump_distance \<Rightarrow> int \<Rightarrow> u8 list" where
  "distance_bytes Near d = [int_as_u8 d]"
| "distance_bytes Far d = u32_bytes (int_as_u32 d)"

fun resolved :: "nat option list \<Rightarrow> nat \<Rightarrow> chunk list \<Rightarrow> u8 list" where
  "resolved ls p [] = []"
| "resolved ls p (Done bs # cs) = bs @ resolved ls (p + length bs) cs"
| "resolved ls p (Open op dist l # cs) =
     op @ distance_bytes dist (open_distance p op dist (the (ls ! l))) @ resolved ls (p + length op + distance_size dist) cs"

text \<open>The jumps that can be resolved: the label is bound, and a near distance fits a byte.\<close>

fun resolvable :: "nat option list \<Rightarrow> nat \<Rightarrow> chunk list \<Rightarrow> bool" where
  "resolvable ls p [] = True"
| "resolvable ls p (Done bs # cs) = resolvable ls (p + length bs) cs"
| "resolvable ls p (Open op dist l # cs) \<longleftrightarrow> l < length ls
     \<and> (\<exists>t. ls ! l = Some t \<and> (dist = Near \<longrightarrow> is_int8 (open_distance p op dist t)))
     \<and> resolvable ls (p + length op + distance_size dist) cs"

lemma length_distance_bytes [simp]: "length (distance_bytes dist d) = distance_size dist"
  by (cases dist) simp_all

lemma length_resolved_chunks [simp]: "length (resolved ls p cs) = length (chunks_code cs)"
  by (induction ls p cs rule: resolved.induct) simp_all

subsection \<open>Resolving\<close>

text \<open>While the jumps are resolved only code and position change.\<close>

definition with_code :: "nat option list \<Rightarrow> u8 list \<Rightarrow> nat \<Rightarrow> assembler_x64" where
  "with_code ls code pos = \<lparr>x64_unresolved = [], x64_buffer = \<lparr>ab_code = code, ab_position = pos, ab_labels = map (map_option as_u32) ls\<rparr>\<rparr>"

lemma i32_small: "n < 2 ^ 31 \<Longrightarrow> as_i32 (as_u32 n) = int n"
  by (simp add: as_i32_def as_u32_def signed_of_nat signed_take_bit_int_eq_self)

lemma checked_i32_ok: "is_int32 i \<Longrightarrow> checked_i32 i = Inr i"
  by (simp add: checked_i32_def i32_range_def is_int32_def)

lemma patch_jump:
  assumes l: "l < length ls" "ls ! l = Some t" "t < 2 ^ 31" and p: "p + length op + distance_size dist < 2 ^ 31" and len: "length pre = p"
  shows "x64_resolve_jump \<lparr>xj_offset = as_u32 (p + length op), xj_label = l, xj_distance = dist\<rparr>
      (with_code ls (pre @ op @ replicate (distance_size dist) 0 @ post) pos)
    = rbind (rassert (dist = Near \<longrightarrow> is_int8 (open_distance p op dist t))) (\<lambda>_.
      Inr (with_code ls (pre @ op @ distance_bytes dist (open_distance p op dist t) @ post) (p + length op + distance_size dist)))"
proof -
  let ?q = "p + length op" and ?d = "open_distance p op dist t" and ?s = "with_code ls (pre @ op @ replicate (distance_size dist) 0 @ post) pos"
  have q: "?q < 2 ^ 31" "?q < 2 ^ 32" using p by (cases dist; simp)+
  have off: "x64_offset l ?s = Inr (Some (as_u32 t))" using l by (simp add: x64_offset_def buf_offset_def with_code_def vec_get_def)
  have i32: "as_i32 (as_u32 t) = int t" "as_i32 (as_u32 ?q) = int ?q" using i32_small l(3) q(1) by blast+
  have next_i32: "checked_i32 (int ?q + int (distance_size dist)) = Inr (int (?q + distance_size dist))"
    using p by (subst checked_i32_ok) (simp_all add: is_int32_def)
  have dist_i32: "checked_i32 (int t - int (?q + distance_size dist)) = Inr ?d"
    using p l(3) by (subst checked_i32_ok) (simp_all add: is_int32_def open_distance_def)
  have pos: "x64_set_position (unat (as_u32 ?q)) ?s = with_code ls (pre @ op @ replicate (distance_size dist) 0 @ post) ?q"
    using q(2) by (simp add: x64_set_position_def buf_set_position_def with_code_def)
  show ?thesis
  proof (cases dist)
    case Near
    have "emit_u8 (int_as_u8 ?d) (with_code ls (pre @ op @ [0] @ post) ?q) = Inr (with_code ls (pre @ op @ [int_as_u8 ?d] @ post) (?q + 1))"
      using len by (simp add: emit_u8_def on_buffer_def buf_emit_u8_def with_code_def vec_set_def list_update_append)
    then show ?thesis using off i32 next_i32 dist_i32 pos Near
      by (simp add: x64_resolve_jump_def Let_def is_int8_def del: of_nat_add)
  next
    case Far
    have "emit_u32 (int_as_u32 ?d) (with_code ls (pre @ op @ replicate 4 0 @ post) ?q) = Inr (with_code ls (pre @ op @ u32_bytes (int_as_u32 ?d) @ post) (?q + 4))"
      using len by (simp add: emit_u32_def on_buffer_def buf_emit_u32_def buf_write_def with_code_def write_slice_def)
    then show ?thesis using off i32 next_i32 dist_i32 pos Far
      by (simp add: x64_resolve_jump_def Let_def del: of_nat_add)
  qed
qed

lemma unbound_jump:
  assumes "l < length ls \<longrightarrow> ls ! l = None"
  shows "is_ok (x64_resolve_jump \<lparr>xj_offset = q, xj_label = l, xj_distance = dist\<rparr> (with_code ls code pos)) = False"
  using assms by (simp add: x64_resolve_jump_def x64_offset_def buf_offset_def with_code_def vec_get_def)

lemma resolve_chunks:
  assumes "\<forall>t. Some t \<in> set ls \<longrightarrow> t < 2 ^ 31"
  shows "p + length (chunks_code cs) < 2 ^ 31 \<Longrightarrow> length pre = p \<Longrightarrow>
    (if resolvable ls p cs
     then \<exists>pos'. x64_do (map x64_resolve_jump (open_jumps p cs)) (with_code ls (pre @ chunks_code cs) pos) = Inr (with_code ls (pre @ resolved ls p cs) pos')
     else is_ok (x64_do (map x64_resolve_jump (open_jumps p cs)) (with_code ls (pre @ chunks_code cs) pos)) = False)"
proof (induction p cs arbitrary: pre pos rule: open_jumps.induct)
  case (1 p)
  then show ?case by auto
next
  case (2 p bs cs)
  then show ?case using 2(1) [of "pre @ bs" pos] by (auto simp: add.assoc split: if_splits)
next
  case (3 p op dist l cs)
  let ?q = "p + length op + distance_size dist" and ?j = "\<lparr>xj_offset = as_u32 (p + length op), xj_label = l, xj_distance = dist\<rparr>"
  let ?s = "with_code ls (pre @ chunks_code (Open op dist l # cs)) pos"
  have code: "pre @ chunks_code (Open op dist l # cs) = pre @ op @ replicate (distance_size dist) 0 @ chunks_code cs" by simp
  show ?case
  proof (cases "l < length ls \<and> ls ! l \<noteq> None")
    case False
    then show ?thesis using unbound_jump [of l ls "as_u32 (p + length op)" dist "pre @ chunks_code (Open op dist l # cs)" pos]
      by (cases "x64_resolve_jump ?j ?s") auto
  next
    case True
    then obtain t where t: "l < length ls" "ls ! l = Some t" by auto
    then have "t < 2 ^ 31" using assms by (metis nth_mem)
    note patch = patch_jump [OF t this _ 3(3), of op dist "chunks_code cs" pos, folded code]
    have q: "?q < 2 ^ 31" using 3(2) by simp
    let ?pre = "pre @ op @ distance_bytes dist (open_distance p op dist t)"
    show ?thesis
    proof (cases "dist = Near \<longrightarrow> is_int8 (open_distance p op dist t)")
      case fits: True
      have "x64_resolve_jump ?j ?s = Inr (with_code ls (?pre @ chunks_code cs) ?q)" using patch [OF q] fits by simp
      moreover have "resolvable ls p (Open op dist l # cs) \<longleftrightarrow> resolvable ls ?q cs" using t fits by simp
      ultimately show ?thesis using 3(1) [of ?pre ?q] 3(2,3) t by (simp add: add.assoc split: if_splits)
    next
      case wide: False
      have "x64_resolve_jump ?j ?s = Inl AssertionFailed" using patch [OF q] wide by simp
      then show ?thesis using t wide by simp
    qed
  qed
qed

lemma finalize_chunks:
  assumes "\<forall>t. Some t \<in> set ls \<longrightarrow> t < 2 ^ 31" "length (chunks_code cs) < 2 ^ 31"
  shows "x64_finalize None (of_chunks cs ls) = Some (Inr code) \<longleftrightarrow> resolvable ls 0 cs \<and> code = resolved ls 0 cs"
proof -
  have start: "(of_chunks cs ls)\<lparr>x64_unresolved := []\<rparr> = with_code ls ([] @ chunks_code cs) (length (chunks_code cs))"
    "x64_unresolved (of_chunks cs ls) = open_jumps 0 cs" by (simp_all add: of_chunks_def with_code_def)
  from resolve_chunks [OF assms(1), of 0 cs "[]" "length (chunks_code cs)"] assms(2) show ?thesis
    by (cases "x64_do (map x64_resolve_jump (open_jumps 0 cs)) (with_code ls (chunks_code cs) (length (chunks_code cs)))")
      (auto simp: x64_finalize_def x64_resolve_jumps_def Let_def start x64_set_position_def buf_set_position_def with_code_def split: if_splits)
qed

subsection \<open>What jump instructions look like\<close>

fun jump_opcode :: "x64_item \<Rightarrow> jump_distance \<Rightarrow> u8 list" where
  "jump_opcode (XJcc c l) dist = (if dist = Near then [0x70 + condition_int c] else [0x0F, 0x80 + condition_int c])"
| "jump_opcode (XJccNear c l) dist = (if dist = Near then [0x70 + condition_int c] else [0x0F, 0x80 + condition_int c])"
| "jump_opcode _ dist = (if dist = Near then [0xEB] else [0xE9])"

lemma decode_jump_bytes:
  assumes "opcode_start mp op" "\<And>digit. x64_lookup mp NoPrefix op digit = Some (mn, specs)" "\<not> has_modrm specs"
    "\<And>rest. take_imm specs None (distance_bytes dist d @ rest) = Some (d, rest)"
  shows "x64_decode (opcode_bytes mp op @ distance_bytes dist d @ rest) = Some (Instr False mn (map (operand None op 0 (RmReg 0) d) specs), rest)"
proof -
  have "x64_decode (((if False then [0xF0] else []) @ prefix_bytes NoPrefix @ rex_bytes None @ opcode_bytes mp op @ [] @ distance_bytes dist d) @ rest)
      = Some (Instr False mn (map (operand None op 0 (RmReg 0) d) specs), rest)"
    using assms by (intro x64_decode_layout) (simp_all add: take_modrm_def)
  then show ?thesis by simp
qed

lemma take_distance:
  assumes "dist = Near \<longrightarrow> is_int8 d" "is_int32 d"
  shows "take_imm [if dist = Near then Jb else Jz] None (distance_bytes dist d @ rest) = Some (d, rest)"
    "take_imm [Cond, if dist = Near then Jb else Jz] None (distance_bytes dist d @ rest) = Some (d, rest)"
  using assms take_i8_Cons [of d rest] take_i32_bytes [of "int_as_u32 d" rest] by (cases dist; simp add: imm_exact)+

lemma jump_decodes:
  assumes "dist = Near \<longrightarrow> is_int8 d" "is_int32 d" "jump_label item = Some l"
  shows "x64_decode (jump_opcode item dist @ distance_bytes dist d @ rest) = Some (jump_instr item d, rest)"
proof -
  have jmp: "x64_decode ((if dist = Near then [0xEB] else [0xE9]) @ distance_bytes dist d @ rest) = Some (Instr False JMP [Rel d], rest)"
  proof -
    have "opcode_start OneByte (if dist = Near then 0xEB else 0xE9)" by (simp add: opcode_start_def)
    moreover have "x64_lookup OneByte NoPrefix (if dist = Near then 0xEB else 0xE9) digit = Some (JMP, [if dist = Near then Jb else Jz])" for digit
      by (simp add: lookup_rows)
    ultimately show ?thesis
      using decode_jump_bytes [of OneByte "if dist = Near then 0xEB else 0xE9" JMP "[if dist = Near then Jb else Jz]" dist d rest]
        take_distance(1) [OF assms(1,2)] by (cases dist) (simp_all add: has_modrm_def)
  qed
  have jcc: "x64_decode ((if dist = Near then [0x70 + condition_int c] else [0x0F, 0x80 + condition_int c]) @ distance_bytes dist d @ rest)
      = Some (Instr False JCC [Cc (unat (condition_int c)), Rel d], rest)" for c
  proof (cases dist)
    case Near
    then show ?thesis
      using decode_jump_bytes [of OneByte "0x70 + condition_int c" JCC "[Cond, Jb]" dist d rest] take_distance(2) [OF assms(1,2)]
        lookup_condition(1,5,9) [OF condition_less [of c]] by (simp add: has_modrm_def)
  next
    case Far
    then show ?thesis
      using decode_jump_bytes [of TwoByte "0x80 + condition_int c" JCC "[Cond, Jz]" dist d rest] take_distance(2) [OF assms(1,2)]
        lookup_condition(3,7,11) [OF condition_less [of c]] by (simp add: has_modrm_def)
  qed
  show ?thesis using assms(3) jmp jcc by (cases item) simp_all
qed

subsection \<open>The methods on chunks\<close>

definition labels_ok :: "chunk list \<Rightarrow> nat option list \<Rightarrow> bool" where
  "labels_ok cs ls \<longleftrightarrow> (\<forall>t. Some t \<in> set ls \<longrightarrow> t \<le> length (chunks_code cs) \<and> t < 2 ^ 32)"

text \<open>The form of a jump to a label that is not bound yet.\<close>

fun forward_distance :: "x64_item \<Rightarrow> jump_distance" where
  "forward_distance (XJmpNear l) = Near"
| "forward_distance (XJccNear c l) = Near"
| "forward_distance _ = Far"

text \<open>The chunk of a jump: its label is bound and the instruction leads there, or it is open.\<close>

definition jump_chunk :: "x64_item \<Rightarrow> nat option list \<Rightarrow> nat \<Rightarrow> chunk \<Rightarrow> bool" where
  "jump_chunk item ls p c \<longleftrightarrow> (\<exists>l. jump_label item = Some l \<and> l < length ls \<and>
     ((\<exists>t dist. ls ! l = Some t \<and> c = Done (jump_opcode item dist @ distance_bytes dist (open_distance p (jump_opcode item dist) dist t))
         \<and> (dist = Near \<longrightarrow> is_int8 (open_distance p (jump_opcode item dist) dist t)))
      \<or> c = Open (jump_opcode item (forward_distance item)) (forward_distance item) l))"

lemma jump_opcode_length: "length (jump_opcode item Near) = 1" "length (jump_opcode (XJmp l) Far) = 1" "length (jump_opcode (XJcc c l) Far) = 2"
  by (cases item) simp_all

lemma x64_do_append: "x64_do (fs @ gs) s = rbind (x64_do fs s) (x64_do gs)"
proof (induction fs arbitrary: s)
  case (Cons f fs)
  show ?case by (cases "f s") (simp_all add: Cons.IH)
qed simp

lemma emit_opcode: "x64_do (map emit_u8 as @ fs) (of_chunks cs ls) = x64_do fs (of_chunks (cs @ [Done as]) ls)"
  using emits_all [of as] by (simp add: x64_do_append emits_def of_chunks_append)

lemma emit_done:
  "x64_do (map emit_u8 as @ [emit_u8 (int_as_u8 d)]) (of_chunks cs ls) = Inr (of_chunks (cs @ [Done (as @ distance_bytes Near d)]) ls)"
  "x64_do (map emit_u8 as @ [emit_u32 (int_as_u32 d)]) (of_chunks cs ls) = Inr (of_chunks (cs @ [Done (as @ distance_bytes Far d)]) ls)"
  using emits_basic(1) [of "int_as_u8 d"] emits_basic(2) [of "int_as_u32 d"]
  by (simp_all add: emit_opcode emits_def of_chunks_append) (simp_all add: of_chunks_def open_jumps_append)

lemma zero_bytes: "u32_bytes 0 = replicate 4 0"
  by (simp add: u32_bytes_def numeral_eq_Suc)

definition open_steps :: "jump_distance \<Rightarrow> asm_label \<Rightarrow> x64_step list" where
  "open_steps dist l = [x64_forward l dist, if dist = Near then emit_u8 0 else emit_u32 0]"

lemma emit_open:
  "x64_do (map emit_u8 as @ open_steps dist l) (of_chunks cs ls) =
     rbind (try_u32 (length (chunks_code cs) + length as)) (\<lambda>_. Inr (of_chunks (cs @ [Open as dist l]) ls))"
proof -
  have "emits (if dist = Near then emit_u8 0 else emit_u32 0) (replicate (distance_size dist) 0)"
    using emits_basic(1) [of 0] emits_basic(2) [of 0] by (cases dist) (simp_all add: zero_bytes)
  then show ?thesis unfolding emit_opcode open_steps_def
    by (cases "length (chunks_code cs) + length as < 2 ^ 32")
      (simp_all add: x64_forward_def x64_position_def of_chunks_def try_u32_def emits_def x64_at_end_def x64_append_def open_jumps_append as_u32_def)
qed

lemma bound_distance:
  assumes "labels_ok cs ls" "l < length ls" "ls ! l = Some t"
  shows "x64_offset l (of_chunks cs ls) = Inr (Some (as_u32 t))" "check_back (as_u32 t) (of_chunks cs ls) = Inr (of_chunks cs ls)"
    "back_distance n (as_u32 t) (of_chunks cs ls) = int t - int (length (chunks_code cs) + n)"
    "0 < n \<Longrightarrow> back_distance n (as_u32 t) (of_chunks cs ls) \<le> - int n"
proof -
  have t: "t \<le> length (chunks_code cs)" "t < 2 ^ 32" using assms by (metis labels_ok_def nth_mem)+
  then show "x64_offset l (of_chunks cs ls) = Inr (Some (as_u32 t))" "check_back (as_u32 t) (of_chunks cs ls) = Inr (of_chunks cs ls)"
    using assms(2,3) by (simp_all add: x64_offset_def buf_offset_def of_chunks_def vec_get_def check_back_def x64_assert_def x64_position_def)
  show "back_distance n (as_u32 t) (of_chunks cs ls) = int t - int (length (chunks_code cs) + n)"
    using t by (simp add: back_distance_def x64_position_def of_chunks_def)
  then show "0 < n \<Longrightarrow> back_distance n (as_u32 t) (of_chunks cs ls) \<le> - int n" using t(1) by simp
qed

lemma unbound_offset: "l < length ls \<Longrightarrow> ls ! l = None \<Longrightarrow> x64_offset l (of_chunks cs ls) = Inr None"
  "\<not> l < length ls \<Longrightarrow> x64_offset l (of_chunks cs ls) = Inl IndexOutOfBounds"
  by (simp_all add: x64_offset_def buf_offset_def of_chunks_def vec_get_def)

text \<open>The two forms of a jump.\<close>

lemma forward_form:
  assumes "x64_offset l s = Inr None" "jump_label item = Some l"
  shows "x64_item_step item s = x64_do (map emit_u8 (jump_opcode item (forward_distance item)) @ open_steps (forward_distance item) l) s"
  using assms by (cases item) (simp_all add: x64_jmp_def x64_jmp_near_def x64_jcc_def x64_jcc_near_def open_steps_def)

definition done_steps :: "x64_item \<Rightarrow> jump_distance \<Rightarrow> int \<Rightarrow> x64_step list" where
  "done_steps item dist d = map emit_u8 (jump_opcode item dist) @ [if dist = Near then emit_u8 (int_as_u8 d) else emit_u32 (int_as_u32 d)]"

lemma backward_form:
  assumes off: "x64_offset l s = Inr (Some t)" "check_back t s = Inr s" "back_distance 2 t s \<le> -2" and item: "jump_label item = Some l"
    and run: "x64_item_step item s = Inr s'"
  shows "\<exists>dist. x64_do (done_steps item dist (back_distance (length (jump_opcode item dist) + distance_size dist) t s)) s = Inr s'
    \<and> (dist = Near \<longrightarrow> is_int8 (back_distance 2 t s))"
proof (cases "-128 \<le> back_distance 2 t s")
  case True
  then have "is_int8 (back_distance 2 t s)" using off(3) by (simp add: is_int8_def)
  moreover have "x64_do (done_steps item Near (back_distance 2 t s)) s = Inr s'"
    using run item off True
    by (cases item) (simp_all add: x64_jmp_def x64_jmp_near_def x64_jcc_def x64_jcc_near_def done_steps_def x64_assert_def Let_def)
  ultimately show ?thesis using jump_opcode_length(1) [of item] by (intro exI [of _ Near]) (simp add: numeral_2_eq_2)
next
  case False
  then have "x64_do (done_steps item Far (back_distance (length (jump_opcode item Far) + 4) t s)) s = Inr s'"
    using run item off
    by (cases item) (simp_all add: x64_jmp_def x64_jmp_near_def x64_jcc_def x64_jcc_near_def done_steps_def x64_assert_def Let_def)
  then show ?thesis by (intro exI [of _ Far]) simp
qed

lemma jump_item_chunk:
  assumes ok: "labels_ok cs ls" and jump: "jump_label item = Some l" and run: "x64_item_step item (of_chunks cs ls) = Inr s"
  shows "\<exists>c. s = of_chunks (cs @ [c]) ls \<and> jump_chunk item ls (length (chunks_code cs)) c"
proof -
  let ?p = "length (chunks_code cs)"
  have l: "l < length ls" using jump run unbound_offset(2) [of l ls cs]
    by (cases item; cases "l < length ls") (simp_all add: x64_jmp_def x64_jmp_near_def x64_jcc_def x64_jcc_near_def)
  show ?thesis
  proof (cases "ls ! l")
    case None
    have "s = of_chunks (cs @ [Open (jump_opcode item (forward_distance item)) (forward_distance item) l]) ls"
      using run emit_open [of "jump_opcode item (forward_distance item)" "forward_distance item" l cs ls]
      unfolding forward_form [OF unbound_offset(1) [OF l None] jump] by (auto simp: rbind_eq_Inr_iff)
    then show ?thesis using jump l by (auto simp: jump_chunk_def)
  next
    case (Some t)
    note b = bound_distance [OF ok l Some]
    obtain dist where d: "x64_do (done_steps item dist (back_distance (length (jump_opcode item dist) + distance_size dist) (as_u32 t) (of_chunks cs ls)))
        (of_chunks cs ls) = Inr s" "dist = Near \<longrightarrow> is_int8 (back_distance 2 (as_u32 t) (of_chunks cs ls))"
      using backward_form [OF b(1,2) _ jump run] b(4) [of 2] by auto
    have eq: "back_distance (length (jump_opcode item dist) + distance_size dist) (as_u32 t) (of_chunks cs ls)
        = open_distance ?p (jump_opcode item dist) dist t"
      using b(3) by (simp add: open_distance_def)
    have "s = of_chunks (cs @ [Done (jump_opcode item dist @ distance_bytes dist (open_distance ?p (jump_opcode item dist) dist t))]) ls"
      using d(1) emit_done [of "jump_opcode item dist"] unfolding eq done_steps_def by (cases dist) simp_all
    moreover have "dist = Near \<longrightarrow> is_int8 (open_distance ?p (jump_opcode item dist) dist t)"
      using d(2) b(3) [of 2] jump_opcode_length(1) [of item] by (auto simp: open_distance_def)
    ultimately show ?thesis using jump l Some unfolding jump_chunk_def by blast
  qed
qed

end
