(* ===== verification/X64Programs.thy ===== *)
theory X64Programs
  imports X64Jumps
begin

text \<open>
  Whole programs for the x64 assembler: every item of a program has its place in the code, and the finished
  code reads as the program; jumps lead to their labels.
\<close>

subsection \<open>Whole programs\<close>

text \<open>Labels only become bound; none is bound a second time.\<close>

definition labels_grow :: "nat option list \<Rightarrow> nat option list \<Rightarrow> bool" where
  "labels_grow ls ls' \<longleftrightarrow> length ls \<le> length ls' \<and> (\<forall>l t. l < length ls \<longrightarrow> ls ! l = Some t \<longrightarrow> ls' ! l = Some t)"

lemma labels_grow_refl [simp]: "labels_grow ls ls"
  by (simp add: labels_grow_def)

lemma labels_grow_trans: "labels_grow ls ls' \<Longrightarrow> labels_grow ls' ls'' \<Longrightarrow> labels_grow ls ls''"
  by (auto simp: labels_grow_def)

lemma jump_chunk_grow: "jump_chunk item ls p c \<Longrightarrow> labels_grow ls ls' \<Longrightarrow> jump_chunk item ls' p c"
  unfolding jump_chunk_def labels_grow_def by (metis order_less_le_trans)

text \<open>What an item adds to the code, and what it does to a label.\<close>

definition item_chunks :: "x64_item \<Rightarrow> nat option list \<Rightarrow> nat \<Rightarrow> chunk list \<Rightarrow> bool" where
  "item_chunks item ls p ds \<longleftrightarrow>
     (case item of
        XInst f \<Rightarrow> (\<exists>bs. emits f bs \<and> ds = [Done bs])
      | XNewLabel \<Rightarrow> ds = []
      | XNewBoundLabel \<Rightarrow> ds = []
      | XBind l \<Rightarrow> ds = [] \<and> l < length ls \<and> ls ! l = Some p
      | _ \<Rightarrow> (\<exists>c. ds = [c] \<and> jump_chunk item ls p c))"

lemma item_chunks_grow: "item_chunks item ls p ds \<Longrightarrow> labels_grow ls ls' \<Longrightarrow> item_chunks item ls' p ds"
  using jump_chunk_grow by (cases item) (auto simp: item_chunks_def labels_grow_def)

definition emits_bytes :: "x64_item \<Rightarrow> bool" where
  "emits_bytes item \<longleftrightarrow> (case item of XInst f \<Rightarrow> \<exists>bs. emits f bs | _ \<Rightarrow> True)"

lemma labels_ok_more: "labels_ok cs ls \<Longrightarrow> labels_ok (cs @ ds) ls"
  by (fastforce simp: labels_ok_def)

lemma bind_label_chunks:
  assumes "x64_bind_label l (of_chunks cs ls) = Inr s"
  shows "s = of_chunks cs (ls[l := Some (length (chunks_code cs))])" "l < length ls" "ls ! l = None" "length (chunks_code cs) < 2 ^ 32"
  using assms
  by (auto simp: x64_bind_label_def on_buffer_def buf_bind_label_def of_chunks_def rbind_eq_Inr_iff vec_get_def try_u32_def as_u32_def map_update
      split: if_splits)

lemma item_step_chunks:
  assumes ok: "labels_ok cs ls" and e: "emits_bytes item" and run: "x64_item_step item (of_chunks cs ls) = Inr s"
  shows "\<exists>ds ls'. s = of_chunks (cs @ ds) ls' \<and> labels_ok (cs @ ds) ls' \<and> labels_grow ls ls' \<and> item_chunks item ls' (length (chunks_code cs)) ds"
proof (cases "jump_label item")
  case (Some l)
  from jump_item_chunk [OF ok Some run] obtain c where "s = of_chunks (cs @ [c]) ls" "jump_chunk item ls (length (chunks_code cs)) c" by blast
  then show ?thesis using Some labels_ok_more [OF ok, of "[c]"]
    by (intro exI [of _ "[c]"] exI [of _ ls]) (cases item; simp add: item_chunks_def)
next
  case None
  let ?p = "length (chunks_code cs)"
  consider (inst) f where "item = XInst f" | (fresh) "item = XNewLabel" | (bound) "item = XNewBoundLabel" | (bind) l where "item = XBind l"
    using None by (cases item) auto
  then show ?thesis
  proof cases
    case inst
    then obtain bs where "emits f bs" using e by (auto simp: emits_bytes_def)
    moreover from this have "s = of_chunks (cs @ [Done bs]) ls" using run inst by (simp add: emits_def of_chunks_append)
    ultimately show ?thesis using inst labels_ok_more [OF ok, of "[Done bs]"]
      by (intro exI [of _ "[Done bs]"] exI [of _ ls]) (auto simp: item_chunks_def)
  next
    case fresh
    then show ?thesis using run ok
      by (intro exI [of _ "[]"] exI [of _ "ls @ [None]"])
        (auto simp: item_chunks_def x64_create_label_def buf_create_label_def of_chunks_def labels_ok_def labels_grow_def nth_append)
  next
    case bound
    then show ?thesis using run ok
      by (intro exI [of _ "[]"] exI [of _ "ls @ [Some ?p]"])
        (auto simp: item_chunks_def x64_create_and_bind_label_def buf_create_and_bind_label_def of_chunks_def labels_ok_def labels_grow_def
          nth_append rbind_eq_Inr_iff try_u32_def as_u32_def split: if_splits)
  next
    case bind
    note b = bind_label_chunks [of l cs ls s]
    show ?thesis using run ok b bind
      by (intro exI [of _ "[]"] exI [of _ "ls[l := Some ?p]"])
        (auto simp: item_chunks_def labels_ok_def labels_grow_def nth_list_update dest: subsetD [OF set_update_subset_insert])
  qed
qed

text \<open>The state before item \<open>k\<close>, and the chunks around what the item emits.\<close>

definition placed :: "x64_item list \<Rightarrow> chunk list \<Rightarrow> nat option list \<Rightarrow> nat \<Rightarrow> bool" where
  "placed items cs ls k \<longleftrightarrow> (\<exists>s cs1 ds cs2. x64_run (take k items) x64_new = Inr s \<and> cs = cs1 @ ds @ cs2
     \<and> x64_position s = length (chunks_code cs1) \<and> item_chunks (items ! k) ls (length (chunks_code cs1)) ds)"

lemma placed_snoc:
  assumes "placed items cs ls k" "k < length items" "labels_grow ls ls'"
  shows "placed (items @ [item]) (cs @ ds) ls' k"
proof -
  from assms(1) obtain s cs1 ds1 cs2 where "x64_run (take k items) x64_new = Inr s" "cs = cs1 @ ds1 @ cs2"
    "x64_position s = length (chunks_code cs1)" "item_chunks (items ! k) ls (length (chunks_code cs1)) ds1"
    by (auto simp: placed_def)
  then show ?thesis unfolding placed_def using assms(2) item_chunks_grow [OF _ assms(3)]
    by (intro exI [of _ s] exI [of _ cs1] exI [of _ ds1] exI [of _ "cs2 @ ds"]) (simp add: nth_append)
qed

lemma x64_run_snoc: "x64_run (items @ [item]) s = rbind (x64_run items s) (x64_item_step item)"
proof -
  have "rbind (x64_item_step item t) (x64_do []) = x64_item_step item t" for t by (cases "x64_item_step item t") simp_all
  then show ?thesis by (cases "x64_do (map x64_item_step items) s") (simp_all add: x64_run_def x64_do_append)
qed

lemma run_chunks:
  assumes "list_all emits_bytes items" "x64_run items x64_new = Inr s"
  shows "\<exists>cs ls. s = of_chunks cs ls \<and> labels_ok cs ls \<and> (\<forall>k < length items. placed items cs ls k)
    \<and> (\<forall>c \<in> set cs. \<exists>item \<in> set items. \<exists>p ds. item_chunks item ls p ds \<and> c \<in> set ds)"
  using assms
proof (induction items arbitrary: s rule: rev_induct)
  case Nil
  then show ?case
    by (intro exI [of _ "[]"]) (auto simp: x64_run_def of_chunks_def labels_ok_def x64_new_def buffer_new_def)
next
  case (snoc item items)
  from snoc.prems(2) obtain s0 where s0: "x64_run items x64_new = Inr s0" "x64_item_step item s0 = Inr s"
    by (auto simp: x64_run_snoc rbind_eq_Inr_iff)
  from snoc.IH [OF _ s0(1)] snoc.prems(1) obtain cs ls where cs: "s0 = of_chunks cs ls" "labels_ok cs ls" "\<forall>k < length items. placed items cs ls k"
    and items: "\<forall>c \<in> set cs. \<exists>item \<in> set items. \<exists>p ds. item_chunks item ls p ds \<and> c \<in> set ds"
    by auto
  from item_step_chunks [OF cs(2), of item s] s0(2) snoc.prems(1) cs(1) obtain ds ls' where
    d: "s = of_chunks (cs @ ds) ls'" "labels_ok (cs @ ds) ls'" "labels_grow ls ls'" "item_chunks item ls' (length (chunks_code cs)) ds"
    by (auto simp del: of_chunks_end)
  have last: "placed (items @ [item]) (cs @ ds) ls' (length items)"
    unfolding placed_def using s0(1) cs(1) d(4)
    by (intro exI [of _ s0] exI [of _ cs] exI [of _ ds] exI [of _ "[]"]) (simp add: x64_position_def of_chunks_def)
  have "placed (items @ [item]) (cs @ ds) ls' k" if "k < length (items @ [item])" for k
    using that last placed_snoc [OF _ _ d(3)] cs(3) by (cases "k = length items") auto
  moreover have "\<forall>c \<in> set (cs @ ds). \<exists>i \<in> set (items @ [item]). \<exists>p es. item_chunks i ls' p es \<and> c \<in> set es"
  proof
    fix c assume "c \<in> set (cs @ ds)"
    then show "\<exists>i \<in> set (items @ [item]). \<exists>p es. item_chunks i ls' p es \<and> c \<in> set es"
    proof (cases "c \<in> set cs")
      case True
      then obtain i p es where "i \<in> set items" "item_chunks i ls p es" "c \<in> set es" using items by blast
      with item_chunks_grow [OF _ d(3)] show ?thesis by (metis UnI1 set_append)
    qed (use d(4) \<open>c \<in> set (cs @ ds)\<close> in auto)
  qed
  ultimately show ?case using d(1,2) by blast
qed

lemma resolved_append: "resolved ls p (cs @ ds) = resolved ls p cs @ resolved ls (p + length (chunks_code cs)) ds"
  by (induction ls p cs rule: resolved.induct) (simp_all add: add.assoc)

lemma resolvable_append: "resolvable ls p (cs @ ds) \<longleftrightarrow> resolvable ls p cs \<and> resolvable ls (p + length (chunks_code cs)) ds"
  by (induction ls p cs rule: resolvable.induct) (auto simp: add.assoc)


text \<open>The code at the position of an item reads as the item's instruction; a jump leads to its label.\<close>

definition item_reads :: "x64_item \<Rightarrow> nat option list \<Rightarrow> u8 list \<Rightarrow> nat \<Rightarrow> bool" where
  "item_reads item ls code p \<longleftrightarrow>
     (\<forall>f ins. item = XInst f \<longrightarrow> x64_encodes f ins \<longrightarrow> (\<exists>rest. x64_decode (drop p code) = Some (ins, rest)))
     \<and> (\<forall>l. item = XBind l \<longrightarrow> l < length ls \<and> ls ! l = Some p)
     \<and> (\<forall>l. jump_label item = Some l \<longrightarrow> (\<exists>t d rest. l < length ls \<and> ls ! l = Some t
          \<and> x64_decode (drop p code) = Some (jump_instr item d, rest) \<and> int (length code) - int (length rest) + d = int t))"

lemma emits_unique: "emits f as \<Longrightarrow> emits f bs \<Longrightarrow> as = bs"
  by (drule emits_def [THEN iffD1], drule emits_def [THEN iffD1], drule spec [of _ x64_new], drule spec [of _ x64_new])
    (simp add: x64_new_def buffer_new_def x64_at_end_def x64_append_def)

lemma open_distance_range: "t < 2 ^ 31 \<Longrightarrow> p + length op + distance_size dist < 2 ^ 31 \<Longrightarrow> is_int32 (open_distance p op dist t)"
  by (simp add: open_distance_def is_int32_def)

lemma jump_chunk_reads:
  assumes c: "jump_chunk item ls p c" and res: "resolvable ls p [c]" and b: "\<forall>t. Some t \<in> set ls \<longrightarrow> t < 2 ^ 31" "p + length (chunk_bytes c) < 2 ^ 31"
    and l: "jump_label item = Some l"
  shows "\<exists>t d. l < length ls \<and> ls ! l = Some t \<and> x64_decode (resolved ls p [c] @ rest) = Some (jump_instr item d, rest)
    \<and> int (p + length (chunk_bytes c)) + d = int t"
proof -
  let ?d = "\<lambda>dist. open_distance p (jump_opcode item dist) dist"
  from c res l obtain t dist where t: "l < length ls" "ls ! l = Some t"
    and r: "resolved ls p [c] = jump_opcode item dist @ distance_bytes dist (?d dist t)" "dist = Near \<longrightarrow> is_int8 (?d dist t)"
    by (auto simp: jump_chunk_def)
  have len: "length (chunk_bytes c) = length (jump_opcode item dist) + distance_size dist"
    using arg_cong [OF r(1), of length] by (simp del: resolved.simps)
  have "t < 2 ^ 31" using b(1) t by (metis nth_mem)
  then have "is_int32 (?d dist t)" using b(2) len by (intro open_distance_range) simp_all
  from jump_decodes [OF r(2) this l, of rest] show ?thesis using t len
    by (intro exI [of _ t] exI [of _ "?d dist t"]) (simp add: r(1) open_distance_def del: resolved.simps)
qed

lemma placed_reads:
  assumes "placed items cs ls k" "resolvable ls 0 cs" "\<forall>t. Some t \<in> set ls \<longrightarrow> t < 2 ^ 31" "length (chunks_code cs) < 2 ^ 31"
  shows "\<exists>s. x64_run (take k items) x64_new = Inr s \<and> item_reads (items ! k) ls (resolved ls 0 cs) (x64_position s)"
proof -
  from assms(1) obtain s cs1 ds cs2 where s: "x64_run (take k items) x64_new = Inr s" "cs = cs1 @ ds @ cs2"
    "x64_position s = length (chunks_code cs1)" "item_chunks (items ! k) ls (length (chunks_code cs1)) ds"
    by (auto simp: placed_def)
  let ?p = "length (chunks_code cs1)" and ?rest = "resolved ls (length (chunks_code (cs1 @ ds))) cs2"
  have drop: "drop ?p (resolved ls 0 cs) = resolved ls ?p ds @ ?rest" by (simp add: s(2) resolved_append del: length_resolved_chunks)
      (simp add: drop_append)
  have len: "int (length (resolved ls 0 cs)) - int (length ?rest) = int (?p + length (chunks_code ds))" by (simp add: s(2))
  have "\<exists>rest. x64_decode (resolved ls ?p ds @ ?rest) = Some (ins, rest)" if i: "items ! k = XInst f" "x64_encodes f ins" for f ins
  proof -
    from i(2) obtain bs where bs: "emits f bs" "\<forall>rest. x64_decode (bs @ rest) = Some (ins, rest)" by (auto simp: x64_encodes_def)
    with s(4) i(1) have "ds = [Done bs]" by (auto simp: item_chunks_def dest: emits_unique)
    with bs(2) show ?thesis by simp
  qed
  moreover have "l < length ls \<and> ls ! l = Some ?p" if "items ! k = XBind l" for l
    using s(4) that by (simp add: item_chunks_def)
  moreover have "\<exists>t d rest. l < length ls \<and> ls ! l = Some t \<and> x64_decode (resolved ls ?p ds @ ?rest) = Some (jump_instr (items ! k) d, rest)
      \<and> int (length (resolved ls 0 cs)) - int (length rest) + d = int t" if l: "jump_label (items ! k) = Some l" for l
  proof -
    from s(4) l obtain c where c: "ds = [c]" "jump_chunk (items ! k) ls ?p c" by (cases "items ! k") (auto simp: item_chunks_def)
    have "resolvable ls ?p ([c] @ cs2)" using assms(2) c(1) resolvable_append [of ls 0 cs1 "[c] @ cs2"] by (simp add: s(2))
    then have "resolvable ls ?p [c]" unfolding resolvable_append ..
    from jump_chunk_reads [OF c(2) this assms(3) _ l, of ?rest] assms(4) c(1) len show ?thesis by (fastforce simp: s(2))
  qed
  ultimately have "item_reads (items ! k) ls (resolved ls 0 cs) ?p" unfolding item_reads_def drop by blast
  then show ?thesis using s(1,3) by auto
qed


text \<open>The labels of the assembler, as numbers.\<close>

definition label_offsets :: "assembler_x64 \<Rightarrow> nat option list" where
  "label_offsets s = map (map_option unat) (ab_labels (x64_buffer s))"

lemma label_offsets_chunks: "labels_ok cs ls \<Longrightarrow> label_offsets (of_chunks cs ls) = ls"
  by (auto simp: label_offsets_def of_chunks_def labels_ok_def as_u32_def take_bit_nat_eq_self unat_of_nat option.map_comp comp_def
      intro!: map_idI option.map_ident_strong)

lemma finalize_reads:
  assumes "list_all emits_bytes items" "x64_run items x64_new = Inr s" "x64_position s < 2 ^ 31" "x64_finalize None s = Some (Inr code)" "k < length items"
  shows "\<exists>t. x64_run (take k items) x64_new = Inr t \<and> item_reads (items ! k) (label_offsets s) code (x64_position t)"
proof -
  from run_chunks [OF assms(1,2)] obtain cs ls where cs: "s = of_chunks cs ls" "labels_ok cs ls" "placed items cs ls k"
    using assms(5) by blast
  have len: "length (chunks_code cs) < 2 ^ 31" using assms(3) by (simp add: cs(1) x64_position_def of_chunks_def)
  then have b: "\<forall>t. Some t \<in> set ls \<longrightarrow> t < 2 ^ 31" using cs(2) by (auto simp: labels_ok_def)
  from assms(4) have "resolvable ls 0 cs" "code = resolved ls 0 cs" unfolding cs(1) finalize_chunks [OF b len] by simp_all
  then show ?thesis using placed_reads [OF cs(3) _ b len] by (simp add: cs(1) label_offsets_chunks [OF cs(2)])
qed

text \<open>Far jumps can be resolved once their labels are bound.\<close>

definition far_item :: "x64_item \<Rightarrow> bool" where
  "far_item item \<longleftrightarrow> (case item of XJmpNear l \<Rightarrow> False | XJccNear c l \<Rightarrow> False | _ \<Rightarrow> True)"

lemma far_open:
  assumes "item_chunks item ls p ds" "Open op dist l \<in> set ds" "far_item item"
  shows "dist = Far \<and> l < length ls"
  using assms by (cases item) (auto simp: item_chunks_def jump_chunk_def far_item_def)

lemma far_resolvable:
  "\<forall>op dist l. Open op dist l \<in> set cs \<longrightarrow> dist = Far \<and> l < length ls \<and> ls ! l \<noteq> None \<Longrightarrow> resolvable ls p cs"
proof (induction ls p cs rule: resolvable.induct)
  case (3 ls p op dist l cs)
  then have "dist = Far" "l < length ls" "ls ! l \<noteq> None" "resolvable ls (p + length op + distance_size dist) cs"
    by (meson list.set_intros)+
  then show ?case by auto
qed auto

lemma far_finalizes:
  assumes "list_all emits_bytes items" "list_all far_item items" "x64_run items x64_new = Inr s" "x64_position s < 2 ^ 31"
    "None \<notin> set (label_offsets s)"
  shows "\<exists>code. x64_finalize None s = Some (Inr code) \<and> length code = x64_position s"
proof -
  from run_chunks [OF assms(1,3)] obtain cs ls where cs: "s = of_chunks cs ls" "labels_ok cs ls"
    and items: "\<forall>c \<in> set cs. \<exists>item \<in> set items. \<exists>p ds. item_chunks item ls p ds \<and> c \<in> set ds" by blast
  have pos: "x64_position s = length (chunks_code cs)" by (simp add: cs(1) x64_position_def of_chunks_def)
  then have len: "length (chunks_code cs) < 2 ^ 31" using assms(4) by simp
  then have b: "\<forall>t. Some t \<in> set ls \<longrightarrow> t < 2 ^ 31" using cs(2) by (auto simp: labels_ok_def)
  have "dist = Far \<and> l < length ls \<and> ls ! l \<noteq> None" if "Open op dist l \<in> set cs" for op dist l
  proof -
    from items that assms(2) have "dist = Far \<and> l < length ls" by (meson far_open list_all_iff)
    moreover have "None \<notin> set ls" using assms(5) by (simp add: cs(1) label_offsets_chunks [OF cs(2)])
    ultimately show ?thesis by (metis nth_mem)
  qed
  then have "resolvable ls 0 cs" by (intro far_resolvable) blast
  then show ?thesis using finalize_chunks [OF b len] pos by (auto simp: cs(1))
qed

text \<open>Aligning pads with \<open>int3\<close>.\<close>

lemma align_loop_pads:
  assumes "n < al" "al dvd length (ab_code (x64_buffer s)) + n" "x64_at_end s"
  shows "x64_align_loop al s = Some (Inr (x64_append (replicate n 0xCC) s))"
  using assms
proof (induction n arbitrary: s)
  case 0
  then show ?case by (simp add: x64_align_loop.simps mod_eq_0_iff_dvd)
next
  case (Suc n)
  have "\<not> al dvd length (ab_code (x64_buffer s))"
    using Suc.prems(1,2) by (metis dvd_add_right_iff nat_dvd_not_less zero_less_Suc)
  moreover have "x64_int3 s = Inr (x64_append [0xCC] s)" using Suc.prems(3) emits_basic(1) [of "0xCC"] by (simp add: x64_int3_def emits_def)
  moreover have "x64_align_loop al (x64_append [0xCC] s) = Some (Inr (x64_append (replicate (Suc n) 0xCC) s))"
  proof -
    have "x64_align_loop al (x64_append [0xCC] s) = Some (Inr (x64_append (replicate n 0xCC) (x64_append [0xCC] s)))"
      using Suc.prems by (intro Suc.IH) (simp_all add: x64_append_def x64_at_end_def)
    then show ?thesis by simp
  qed
  ultimately show ?case by (subst x64_align_loop.simps) (simp only: mod_eq_0_iff_dvd if_True not_False_eq_True sum.case)
qed

lemma resolve_jumps_end:
  assumes "x64_at_end s" "x64_resolve_jumps s = Inr t" "length (ab_code (x64_buffer t)) = length (ab_code (x64_buffer s))"
  shows "x64_at_end t"
  using assms by (auto simp: x64_resolve_jumps_def Let_def rbind_eq_Inr_iff x64_at_end_def x64_position_def x64_set_position_def buf_set_position_def)

lemma finalize_aligned:
  assumes "0 < al" "x64_at_end s" "x64_finalize None s = Some (Inr code)" "length code = x64_position s"
  shows "\<exists>n < al. x64_finalize (Some al) s = Some (Inr (code @ replicate n 0xCC)) \<and> al dvd length code + n"
proof -
  obtain t where t: "x64_resolve_jumps s = Inr t" "code = ab_code (x64_buffer t)"
    using assms(3) by (auto simp: x64_finalize_def split: sum.splits)
  have at_end: "x64_at_end t" using assms(2,4) t(2) by (intro resolve_jumps_end [OF assms(2) t(1)]) (simp add: x64_at_end_def x64_position_def)
  define n where "n = (al - length code mod al) mod al"
  have n: "n < al" using assms(1) by (simp add: n_def)
  have "(length code + n) mod al = (length code mod al + (al - length code mod al)) mod al" unfolding n_def by (simp only: mod_add_left_eq mod_add_right_eq)
  also have "\<dots> = 0" using mod_less_divisor [OF assms(1), of "length code"] by (simp del: mod_less_divisor)
  finally have dvd: "al dvd length code + n" by (simp only: mod_eq_0_iff_dvd)
  show ?thesis using n dvd t assms(1) align_loop_pads [OF n _ at_end]
    by (intro exI [of _ n]) (simp add: x64_finalize_def x64_align_to_def x64_append_def)
qed

end
