(* ===== verification/X64Theorems.thy ===== *)
theory X64Theorems
  imports X64Programs
begin

text \<open>
  What the x64 assembler guarantees: the instruction of every method, code that reads as the program, and the
  operands that the assembler gets wrong.
\<close>

subsection \<open>Memory operands\<close>

datatype memory =
    MOffset x64_register int
  | MIndex x64_register scale_factor int
  | MArray x64_register x64_register scale_factor int
  | MRip int

text \<open>The address that stands for a memory operand, and what the operand means.\<close>

fun memory_address :: "memory \<Rightarrow> x64_address result" where
  "memory_address (MOffset base d) = address_offset base d"
| "memory_address (MIndex index factor d) = address_index index factor d"
| "memory_address (MArray base index factor d) = address_array base index factor d"
| "memory_address (MRip d) = address_rip d"

fun memory_meaning :: "memory \<Rightarrow> x64_memory" where
  "memory_meaning (MOffset base d) = MemAt (Some (reg_no base)) None d"
| "memory_meaning (MIndex index factor d) = MemAt None (Some (reg_no index, unat (scale_value factor))) d"
| "memory_meaning (MArray base index factor d) = MemAt (Some (reg_no base)) (Some (reg_no index, unat (scale_value factor))) d"
| "memory_meaning (MRip d) = RipAt d"

text \<open>The operands that can be encoded.  A stack pointer as index is refused by the code; \<open>R12\<close> as the only
  register and \<open>R13\<close> as a base without displacement are left out here, see below.\<close>

fun memory_ok :: "memory \<Rightarrow> bool" where
  "memory_ok (MOffset base d) \<longleftrightarrow> valid_reg base \<and> base \<noteq> R12 \<and> (base = R13 \<longrightarrow> d \<noteq> 0) \<and> is_int32 d"
| "memory_ok (MIndex index factor d) \<longleftrightarrow> valid_reg index \<and> index \<noteq> RSP \<and> is_int32 d"
| "memory_ok (MArray base index factor d) \<longleftrightarrow> valid_reg base \<and> (base = R13 \<longrightarrow> d \<noteq> 0) \<and> valid_reg index \<and> index \<noteq> RSP \<and> is_int32 d"
| "memory_ok (MRip d) \<longleftrightarrow> is_int32 d"

lemma memory_address_ok: "memory_ok mem \<Longrightarrow> \<exists>a x b. memory_address mem = Inr a \<and> address_ok a x b (memory_meaning mem)"
  using address_offset_ok address_index_ok address_array_ok address_rip_ok by (cases mem) (simp_all, blast+)

subsection \<open>The methods\<close>

text \<open>Every method that emits an instruction other than a jump: when it may be called, the method, and the
  instruction.\<close>

definition x64_meanings :: "x64_register \<Rightarrow> x64_register \<Rightarrow> xmm_register \<Rightarrow> xmm_register \<Rightarrow> x64_address \<Rightarrow> x64_memory \<Rightarrow> int \<Rightarrow> x64_condition
    \<Rightarrow> (bool \<times> x64_step \<times> x64_instr) list" where
  "x64_meanings p q v w a m i c =
    [(True, x64_pushq_r p, Instr False PUSH [Gpr Qword (reg_no p)]),
     (True, x64_popq_r p, Instr False POP [Gpr Qword (reg_no p)]),
     (True, x64_int3, Instr False INT3 []),
     (True, x64_retq, Instr False RET []),
     (True, x64_nop, Instr False NOP []),
     (True, x64_setcc_r c p, Instr False SETCC [Cc (unat (condition_int c)), Gpr Byte (reg_no p)]),
     (True, x64_cmovl c p q, Instr False CMOVCC [Cc (unat (condition_int c)), Gpr Dword (reg_no p), Gpr Dword (reg_no q)]),
     (True, x64_cmovq c p q, Instr False CMOVCC [Cc (unat (condition_int c)), Gpr Qword (reg_no p), Gpr Qword (reg_no q)]),
     (True, x64_lea p a, Instr False LEA [Gpr Qword (reg_no p), Ea m]),
     (True, x64_movq_rr p q, Instr False MOV [Gpr Qword (reg_no p), Gpr Qword (reg_no q)]),
     (is_int64 i, x64_movq_ri p i, Instr False MOV [Gpr Qword (reg_no p), Imm i]),
     (True, x64_movq_ra p a, Instr False MOV [Gpr Qword (reg_no p), Mem Qword m]),
     (True, x64_movb_ar a p, Instr False MOV [Mem Byte m, Gpr Byte (reg_no p)]),
     (is_int8 i \<or> is_uint8 i, x64_movb_ai a i, Instr False MOV [Mem Byte m, Imm (uint (int_as_u8 i))]),
     (True, x64_movq_ar a p, Instr False MOV [Mem Qword m, Gpr Qword (reg_no p)]),
     (is_int32 i, x64_movq_ai a i, Instr False MOV [Mem Qword m, Imm i]),
     (True, x64_movl_ra p a, Instr False MOV [Gpr Dword (reg_no p), Mem Dword m]),
     (True, x64_movl_ar a p, Instr False MOV [Mem Dword m, Gpr Dword (reg_no p)]),
     (is_int32 i \<or> is_uint32 i, x64_movl_ai a i, Instr False MOV [Mem Dword m, Imm (imm_int32 i)]),
     (True, x64_movl_rr p q, Instr False MOV [Gpr Dword (reg_no p), Gpr Dword (reg_no q)]),
     (is_int32 i, x64_movl_ri p i, Instr False MOV [Gpr Dword (reg_no p), Imm i]),
     (True, x64_movzxb_rr p q, Instr False MOVZX [Gpr Dword (reg_no p), Gpr Byte (reg_no q)]),
     (True, x64_movzxb_ra p a, Instr False MOVZX [Gpr Dword (reg_no p), Mem Byte m]),
     (True, x64_movsxbl_rr p q, Instr False MOVSX [Gpr Dword (reg_no p), Gpr Byte (reg_no q)]),
     (True, x64_movsxbl_ra p a, Instr False MOVSX [Gpr Dword (reg_no p), Mem Byte m]),
     (True, x64_movsxbq_rr p q, Instr False MOVSX [Gpr Qword (reg_no p), Gpr Byte (reg_no q)]),
     (True, x64_movsxbq_ra p a, Instr False MOVSX [Gpr Qword (reg_no p), Mem Byte m]),
     (True, x64_movsxlq_rr p q, Instr False MOVSXD [Gpr Qword (reg_no p), Gpr Dword (reg_no q)]),
     (True, x64_movss_rr v w, Instr False MOVSS [Xmm (xmm_no v), Xmm (xmm_no w)]),
     (True, x64_movss_ra v a, Instr False MOVSS [Xmm (xmm_no v), XmmMem m]),
     (True, x64_movss_ar a v, Instr False MOVSS [XmmMem m, Xmm (xmm_no v)]),
     (True, x64_movsd_rr v w, Instr False MOVSD [Xmm (xmm_no v), Xmm (xmm_no w)]),
     (True, x64_movsd_ra v a, Instr False MOVSD [Xmm (xmm_no v), XmmMem m]),
     (True, x64_movsd_ar a v, Instr False MOVSD [XmmMem m, Xmm (xmm_no v)]),
     (True, x64_addq_rr p q, Instr False ADD [Gpr Qword (reg_no p), Gpr Qword (reg_no q)]),
     (is_int32 i, x64_addl_ri p i, Instr False ADD [Gpr Dword (reg_no p), Imm i]),
     (is_int32 i, x64_addq_ri p i, Instr False ADD [Gpr Qword (reg_no p), Imm i]),
     (True, x64_addl_rr p q, Instr False ADD [Gpr Dword (reg_no p), Gpr Dword (reg_no q)]),
     (True, x64_addss_rr v w, Instr False ADDSS [Xmm (xmm_no v), Xmm (xmm_no w)]),
     (True, x64_addsd_rr v w, Instr False ADDSD [Xmm (xmm_no v), Xmm (xmm_no w)]),
     (True, x64_subq_rr p q, Instr False SUB [Gpr Qword (reg_no p), Gpr Qword (reg_no q)]),
     (is_int32 i, x64_subq_ri p i, Instr False SUB [Gpr Qword (reg_no p), Imm i]),
     (is_int32 i, x64_subq_ri32 p i, Instr False SUB [Gpr Qword (reg_no p), Imm i]),
     (True, x64_subl_rr p q, Instr False SUB [Gpr Dword (reg_no p), Gpr Dword (reg_no q)]),
     (True, x64_subss_rr v w, Instr False SUBSS [Xmm (xmm_no v), Xmm (xmm_no w)]),
     (True, x64_subsd_rr v w, Instr False SUBSD [Xmm (xmm_no v), Xmm (xmm_no w)]),
     (True, x64_andl_rr p q, Instr False AND' [Gpr Dword (reg_no p), Gpr Dword (reg_no q)]),
     (True, x64_andq_rr p q, Instr False AND' [Gpr Qword (reg_no p), Gpr Qword (reg_no q)]),
     (is_int32 i, x64_andq_ri p i, Instr False AND' [Gpr Qword (reg_no p), Imm i]),
     (True, x64_cmpb_ar a p, Instr False CMP [Mem Byte m, Gpr Byte (reg_no p)]),
     (is_int8 i \<or> is_uint8 i, x64_cmpb_ai a i, Instr False CMP [Mem Byte m, Imm (uint (int_as_u8 i))]),
     (True, x64_cmpl_rr p q, Instr False CMP [Gpr Dword (reg_no p), Gpr Dword (reg_no q)]),
     (True, x64_cmpl_ar a p, Instr False CMP [Mem Dword m, Gpr Dword (reg_no p)]),
     (is_int32 i \<or> is_uint32 i, x64_cmpl_ai a i, Instr False CMP [Mem Dword m, Imm (imm_int32 i)]),
     (True, x64_cmpq_rr p q, Instr False CMP [Gpr Qword (reg_no p), Gpr Qword (reg_no q)]),
     (True, x64_cmpq_ar a p, Instr False CMP [Mem Qword m, Gpr Qword (reg_no p)]),
     (is_int32 i, x64_cmpq_ai a i, Instr False CMP [Mem Qword m, Imm i]),
     (is_int32 i, x64_cmpq_ri p i, Instr False CMP [Gpr Qword (reg_no p), Imm i]),
     (is_int32 i, x64_cmpl_ri p i, Instr False CMP [Gpr Dword (reg_no p), Imm i]),
     (True, x64_ucomiss_rr v w, Instr False UCOMISS [Xmm (xmm_no v), Xmm (xmm_no w)]),
     (True, x64_ucomisd_rr v w, Instr False UCOMISD [Xmm (xmm_no v), Xmm (xmm_no w)]),
     (True, x64_roundss_ri v i, Instr False ROUNDSS [Xmm (xmm_no v), Xmm (xmm_no v), Imm (uint (int_as_u8 i))]),
     (True, x64_roundsd_ri v i, Instr False ROUNDSD [Xmm (xmm_no v), Xmm (xmm_no v), Imm (uint (int_as_u8 i))]),
     (True, x64_sqrtss_rr v w, Instr False SQRTSS [Xmm (xmm_no v), Xmm (xmm_no w)]),
     (True, x64_sqrtsd_rr v w, Instr False SQRTSD [Xmm (xmm_no v), Xmm (xmm_no w)]),
     (True, x64_pxor_rr v w, Instr False PXOR [Xmm (xmm_no v), Xmm (xmm_no w)]),
     (True, x64_orl_rr p q, Instr False OR' [Gpr Dword (reg_no p), Gpr Dword (reg_no q)]),
     (True, x64_orq_rr p q, Instr False OR' [Gpr Qword (reg_no p), Gpr Qword (reg_no q)]),
     (True, x64_xchgq_ar a p, Instr False XCHG [Mem Qword m, Gpr Qword (reg_no p)]),
     (True, x64_xchgl_ar a p, Instr False XCHG [Mem Dword m, Gpr Dword (reg_no p)]),
     (True, x64_cmpxchgq_ar a p, Instr False CMPXCHG [Mem Qword m, Gpr Qword (reg_no p)]),
     (True, x64_cmpxchgl_ar a p, Instr False CMPXCHG [Mem Dword m, Gpr Dword (reg_no p)]),
     (True, x64_lock_cmpxchgq_ar a p, Instr True CMPXCHG [Mem Qword m, Gpr Qword (reg_no p)]),
     (True, x64_lock_cmpxchgl_ar a p, Instr True CMPXCHG [Mem Dword m, Gpr Dword (reg_no p)]),
     (True, x64_andps_ra v a, Instr False ANDPS [Xmm (xmm_no v), XmmMem m]),
     (True, x64_xorl_rr p q, Instr False XOR' [Gpr Dword (reg_no p), Gpr Dword (reg_no q)]),
     (is_int32 i, x64_xorl_ri p i, Instr False XOR' [Gpr Dword (reg_no p), Imm i]),
     (True, x64_xorq_rr p q, Instr False XOR' [Gpr Qword (reg_no p), Gpr Qword (reg_no q)]),
     (True, x64_xorps_ra v a, Instr False XORPS [Xmm (xmm_no v), XmmMem m]),
     (True, x64_xorps_rr v w, Instr False XORPS [Xmm (xmm_no v), Xmm (xmm_no w)]),
     (True, x64_xorpd_ra v a, Instr False XORPD [Xmm (xmm_no v), XmmMem m]),
     (True, x64_testl_rr p q, Instr False TEST [Gpr Dword (reg_no p), Gpr Dword (reg_no q)]),
     (is_int32 i \<and> (is_uint8 i \<or> \<not> needs_rex p), x64_testl_ri p i, Instr False TEST [if is_uint8 i then Gpr Byte (reg_no p) else Gpr Dword (reg_no p), Imm i]),
     (True, x64_testl_ar a p, Instr False TEST [Mem Dword m, Gpr Dword (reg_no p)]),
     (is_int32 i, x64_testl_ai a i, Instr False TEST [Mem Dword m, Imm i]),
     (True, x64_testq_rr p q, Instr False TEST [Gpr Qword (reg_no p), Gpr Qword (reg_no q)]),
     (True, x64_testq_ar a p, Instr False TEST [Mem Qword m, Gpr Qword (reg_no p)]),
     (is_int32 i, x64_testq_ai a i, Instr False TEST [Mem Qword m, Imm i]),
     (True, x64_imull_rr p q, Instr False IMUL [Gpr Dword (reg_no p), Gpr Dword (reg_no q)]),
     (True, x64_imulq_rr p q, Instr False IMUL [Gpr Qword (reg_no p), Gpr Qword (reg_no q)]),
     (True, x64_mulss_rr v w, Instr False MULSS [Xmm (xmm_no v), Xmm (xmm_no w)]),
     (True, x64_mulsd_rr v w, Instr False MULSD [Xmm (xmm_no v), Xmm (xmm_no w)]),
     (True, x64_divss_rr v w, Instr False DIVSS [Xmm (xmm_no v), Xmm (xmm_no w)]),
     (True, x64_divsd_rr v w, Instr False DIVSD [Xmm (xmm_no v), Xmm (xmm_no w)]),
     (True, x64_idivl_r p, Instr False IDIV [Gpr Dword (reg_no p)]),
     (True, x64_idivq_r p, Instr False IDIV [Gpr Qword (reg_no p)]),
     (True, x64_call_r p, Instr False CALL [Gpr Qword (reg_no p)]),
     (True, x64_cdq, Instr False CONVERT [Gpr Dword 0]),
     (True, x64_cqo, Instr False CONVERT [Gpr Qword 0]),
     (True, x64_negl p, Instr False NEG [Gpr Dword (reg_no p)]),
     (True, x64_negq p, Instr False NEG [Gpr Qword (reg_no p)]),
     (True, x64_notl p, Instr False NOT' [Gpr Dword (reg_no p)]),
     (True, x64_notq p, Instr False NOT' [Gpr Qword (reg_no p)]),
     (True, x64_jmp_r p, Instr False JMP [Gpr Qword (reg_no p)]),
     (True, x64_tzcntl_rr p q, Instr False TZCNT [Gpr Dword (reg_no p), Gpr Dword (reg_no q)]),
     (True, x64_tzcntq_rr p q, Instr False TZCNT [Gpr Qword (reg_no p), Gpr Qword (reg_no q)]),
     (True, x64_lzcntl_rr p q, Instr False LZCNT [Gpr Dword (reg_no p), Gpr Dword (reg_no q)]),
     (True, x64_lzcntq_rr p q, Instr False LZCNT [Gpr Qword (reg_no p), Gpr Qword (reg_no q)]),
     (True, x64_popcntl_rr p q, Instr False POPCNT [Gpr Dword (reg_no p), Gpr Dword (reg_no q)]),
     (True, x64_popcntq_rr p q, Instr False POPCNT [Gpr Qword (reg_no p), Gpr Qword (reg_no q)]),
     (True, x64_cvtsd2ss_rr v w, Instr False CVTSD2SS [Xmm (xmm_no v), Xmm (xmm_no w)]),
     (True, x64_cvtss2sd_rr v w, Instr False CVTSS2SD [Xmm (xmm_no v), Xmm (xmm_no w)]),
     (True, x64_cvtsi2ssd_rr v p, Instr False CVTSI2SS [Xmm (xmm_no v), Gpr Dword (reg_no p)]),
     (True, x64_cvtsi2ssq_rr v p, Instr False CVTSI2SS [Xmm (xmm_no v), Gpr Qword (reg_no p)]),
     (True, x64_cvtsi2sdd_rr v p, Instr False CVTSI2SD [Xmm (xmm_no v), Gpr Dword (reg_no p)]),
     (True, x64_cvtsi2sdq_rr v p, Instr False CVTSI2SD [Xmm (xmm_no v), Gpr Qword (reg_no p)]),
     (True, x64_cvttss2sid_rr p v, Instr False CVTTSS2SI [Gpr Dword (reg_no p), Xmm (xmm_no v)]),
     (True, x64_cvttss2siq_rr p v, Instr False CVTTSS2SI [Gpr Qword (reg_no p), Xmm (xmm_no v)]),
     (True, x64_cvttsd2sid_rr p v, Instr False CVTTSD2SI [Gpr Dword (reg_no p), Xmm (xmm_no v)]),
     (True, x64_cvttsd2siq_rr p v, Instr False CVTTSD2SI [Gpr Qword (reg_no p), Xmm (xmm_no v)]),
     (True, x64_movd_rx p v, Instr False MOVDQ [Gpr Dword (reg_no p), Xmm (xmm_no v)]),
     (True, x64_movd_xr v p, Instr False MOVDQ [Xmm (xmm_no v), Gpr Dword (reg_no p)]),
     (True, x64_movq_rx p v, Instr False MOVDQ [Gpr Qword (reg_no p), Xmm (xmm_no v)]),
     (True, x64_movq_xr v p, Instr False MOVDQ [Xmm (xmm_no v), Gpr Qword (reg_no p)]),
     (is_int8 i, x64_shrl_ri p i, Instr False SHR [Gpr Dword (reg_no p), Imm (uint (int_as_u8 i))]),
     (True, x64_shrl_r p, Instr False SHR [Gpr Dword (reg_no p), Gpr Byte 1]),
     (True, x64_shll_r p, Instr False SHL [Gpr Dword (reg_no p), Gpr Byte 1]),
     (True, x64_sarl_r p, Instr False SAR [Gpr Dword (reg_no p), Gpr Byte 1]),
     (is_int8 i, x64_shrq_ri p i, Instr False SHR [Gpr Qword (reg_no p), Imm (uint (int_as_u8 i))]),
     (True, x64_shrq_r p, Instr False SHR [Gpr Qword (reg_no p), Gpr Byte 1]),
     (True, x64_sarq_r p, Instr False SAR [Gpr Qword (reg_no p), Gpr Byte 1]),
     (is_int8 i, x64_sarl_ri p i, Instr False SAR [Gpr Dword (reg_no p), Imm (uint (int_as_u8 i))]),
     (is_int8 i, x64_sarq_ri p i, Instr False SAR [Gpr Qword (reg_no p), Imm (uint (int_as_u8 i))]),
     (is_int8 i, x64_shll_ri p i, Instr False SHL [Gpr Dword (reg_no p), Imm (uint (int_as_u8 i))]),
     (True, x64_shlq_r p, Instr False SHL [Gpr Qword (reg_no p), Gpr Byte 1]),
     (is_int8 i, x64_shlq_ri p i, Instr False SHL [Gpr Qword (reg_no p), Imm (uint (int_as_u8 i))]),
     (True, x64_roll_r p, Instr False ROL [Gpr Dword (reg_no p), Gpr Byte 1]),
     (True, x64_rolq_r p, Instr False ROL [Gpr Qword (reg_no p), Gpr Byte 1]),
     (True, x64_rorl_r p, Instr False ROR [Gpr Dword (reg_no p), Gpr Byte 1]),
     (True, x64_rorq_r p, Instr False ROR [Gpr Qword (reg_no p), Gpr Byte 1]),
     (True, x64_xaddq_ar a p, Instr False XADD [Mem Qword m, Gpr Qword (reg_no p)]),
     (True, x64_xaddl_ar a p, Instr False XADD [Mem Dword m, Gpr Dword (reg_no p)]),
     (True, x64_lock_xaddq_ar a p, Instr True XADD [Mem Qword m, Gpr Qword (reg_no p)]),
     (True, x64_lock_xaddl_ar a p, Instr True XADD [Mem Dword m, Gpr Dword (reg_no p)])]"

lemma x64_methods_encode:
  assumes "valid_reg p" "valid_reg q" "valid_xmm v" "valid_xmm w" "address_ok a x b m"
  shows "list_all (\<lambda>(guard, f, ins). guard \<longrightarrow> x64_encodes f ins) (x64_meanings p q v w a m i c)"
proof -
  note registers = x64_single_byte x64_wide_convert x64_registers_one [OF assms(1,2)] x64_registers_two [OF assms(1-4)]
    x64_prefixed_registers [OF assms(1-4)] x64_rounding [OF assms(3)] x64_stack_registers [OF assms(1)]
    x64_conditions [OF assms(1,2)] x64_setcc_r_encodes [OF assms(1)]
  note memory = x64_memory_one [OF assms(1,5)] x64_memory_two [OF assms(1,3,5)] x64_prefixed_memory [OF assms(3,5)]
    x64_locked_memory [OF assms(1,5)]
  note immediates = x64_memory_byte [OF assms(5)] x64_memory_dword_1 [OF assms(5)] x64_memory_dword_2 [OF assms(5)] x64_shifts [OF assms(1)]
    x64_movl_ri_encodes [OF assms(1)] x64_movq_ri_encodes [OF assms(1)] x64_alu_immediates [OF assms(1)]
    x64_cmpl_ai_encodes [OF assms(5)] x64_cmpq_ai_encodes [OF assms(5)] x64_testl_ri_encodes [OF assms(1)]
  show ?thesis
    unfolding x64_meanings_def list.pred_inject prod.case
    by (intro conjI TrueI) (simp_all add: registers memory immediates del: One_nat_def)
qed

text \<open>C6. Every method of the x64 assembler that emits an instruction other than a jump appends the bytes of that
  instruction: the decoder reads the instruction back, whatever follows.  The operands are all registers and
  conditions, the immediates in the range of the method, and the memory operands with a displacement of 32 bits
  except those that are encoded wrongly or refused: \<open>R12\<close> as the only register of an address, \<open>R13\<close> as a
  base without displacement, and the stack pointer as an index.  \<open>testl_ri\<close> is taken on the registers from
  \<open>R8\<close> on only with immediates of a byte.\<close>

theorem x64_methods_decode:
  assumes "valid_reg p" "valid_reg q" "valid_xmm v" "valid_xmm w" "memory_ok mem"
  shows "\<exists>a. memory_address mem = Inr a
    \<and> (\<forall>(guard, f, ins) \<in> set (x64_meanings p q v w a (memory_meaning mem) i c). guard \<longrightarrow> x64_encodes f ins)"
proof -
  obtain a x b where "memory_address mem = Inr a" "address_ok a x b (memory_meaning mem)" using memory_address_ok [OF assms(5)] by blast
  then show ?thesis using x64_methods_encode [OF assms(1-4)] by (auto simp: list_all_iff)
qed

lemma x64_methods_decode_witness:
  "\<exists>a. memory_address (MArray R13 R9 Eight 16) = Inr a
    \<and> x64_encodes (x64_movq_ra R10 a) (Instr False MOV [Gpr Qword 10, Mem Qword (MemAt (Some 13) (Some (9, 3)) 16)])"
proof -
  have "valid_reg R10" "valid_reg RAX" "valid_xmm XMM0" "memory_ok (MArray R13 R9 Eight 16)"
    by (simp_all add: valid_reg_def valid_xmm_def R10_def RAX_def XMM0_def R13_def R9_def RSP_def is_int32_def)
  from x64_methods_decode [OF this(1,2,3,3,4), of 0 Equal] obtain a where a: "memory_address (MArray R13 R9 Eight 16) = Inr a"
    "\<forall>(guard, f, ins) \<in> set (x64_meanings R10 RAX XMM0 XMM0 a (memory_meaning (MArray R13 R9 Eight 16)) 0 Equal). guard \<longrightarrow> x64_encodes f ins"
    by blast
  have "(True, x64_movq_ra R10 a, Instr False MOV [Gpr Qword (reg_no R10), Mem Qword (memory_meaning (MArray R13 R9 Eight 16))])
      \<in> set (x64_meanings R10 RAX XMM0 XMM0 a (memory_meaning (MArray R13 R9 Eight 16)) 0 Equal)"
    by (simp add: x64_meanings_def del: memory_meaning.simps One_nat_def)
  with a show ?thesis by (auto simp: reg_no_def R10_def R13_def R9_def simp del: memory_address.simps)
qed

subsection \<open>Programs\<close>

lemma encodes_bytes: "\<forall>f. XInst f \<in> set items \<longrightarrow> (\<exists>ins. x64_encodes f ins) \<Longrightarrow> list_all emits_bytes items"
  by (auto simp: list_all_iff emits_bytes_def x64_encodes_def split: x64_item.splits)

text \<open>C14. When the x64 assembler finishes a program of less than two gigabytes, every instruction of the program
  is read at its position in the code, every label is bound where it was bound in the program, and every jump,
  forward or backward, short or long, is read as a jump whose distance leads from its end to its label.\<close>

theorem x64_code_reads_back:
  assumes "\<forall>f. XInst f \<in> set items \<longrightarrow> (\<exists>ins. x64_encodes f ins)" "x64_run items x64_new = Inr s" "x64_position s < 2 ^ 31"
    "x64_finalize None s = Some (Inr code)" "k < length items"
  shows "\<exists>t. x64_run (take k items) x64_new = Inr t \<and> item_reads (items ! k) (label_offsets s) code (x64_position t)"
  using finalize_reads [OF encodes_bytes] assms by blast

definition sample_items :: "x64_item list" where
  "sample_items = [XNewLabel, XNewBoundLabel, XInst x64_nop, XJmp 0, XJcc Equal 1, XBind 0, XInst x64_retq]"

lemma sample_encodes: "\<forall>f. XInst f \<in> set sample_items \<longrightarrow> (\<exists>ins. x64_encodes f ins)"
  using x64_single_byte by (auto simp: sample_items_def)

lemma x64_code_reads_back_witness:
  "\<exists>s code. x64_run sample_items x64_new = Inr s \<and> x64_finalize None s = Some (Inr code)
    \<and> (\<exists>rest d. x64_decode (drop 1 code) = Some (Instr False JMP [Rel d], rest) \<and> int (length code) - int (length rest) + d = 8)"
proof -
  obtain s code where s: "x64_run sample_items x64_new = Inr s" "x64_finalize None s = Some (Inr code)" "x64_position s = 9"
    "label_offsets s = [Some 8, Some 0]"
  proof -
    have "(case x64_run sample_items x64_new of Inl e \<Rightarrow> False | Inr s \<Rightarrow> x64_position s = 9 \<and> label_offsets s = [Some 8, Some 0]
        \<and> x64_finalize None s = Some (Inr [0x90, 0xE9, 2, 0, 0, 0, 0x74, 0xF8, 0xC3]))"
      by code_simp
    then show thesis by (auto intro!: that split: sum.splits)
  qed
  have k: "3 < length sample_items" "take 3 sample_items = [XNewLabel, XNewBoundLabel, XInst x64_nop]" "sample_items ! 3 = XJmp 0"
    by (simp_all add: sample_items_def)
  have "(case x64_run [XNewLabel, XNewBoundLabel, XInst x64_nop] x64_new of Inl e \<Rightarrow> False | Inr t \<Rightarrow> x64_position t = 1)" by code_simp
  moreover from x64_code_reads_back [OF sample_encodes s(1) _ s(2) k(1)] s(3) obtain t where
    "x64_run [XNewLabel, XNewBoundLabel, XInst x64_nop] x64_new = Inr t" "item_reads (XJmp 0) [Some 8, Some 0] code (x64_position t)"
    unfolding k(2,3) s(4) by auto
  ultimately have "item_reads (XJmp 0) [Some 8, Some 0] code 1" by simp
  then show ?thesis using s(1,2) by (auto simp: item_reads_def)
qed

text \<open>C28. Code whose jumps are not restricted to short distances and whose labels are all bound is always finished:
  for every alignment the padding loop ends, after less than one unit of padding, at a multiple of the alignment.\<close>

theorem x64_finalize_returns:
  assumes "\<forall>f. XInst f \<in> set items \<longrightarrow> (\<exists>ins. x64_encodes f ins)" "list_all far_item items" "x64_run items x64_new = Inr s"
    "x64_position s < 2 ^ 31" "None \<notin> set (label_offsets s)" "0 < al"
  shows "\<exists>code n. x64_finalize None s = Some (Inr code) \<and> length code = x64_position s
    \<and> x64_finalize (Some al) s = Some (Inr (code @ replicate n 0xCC)) \<and> n < al \<and> al dvd length code + n"
proof -
  have emits: "list_all emits_bytes items" using assms(1) by (rule encodes_bytes)
  from far_finalizes [OF emits assms(2-5)] obtain code where code: "x64_finalize None s = Some (Inr code)" "length code = x64_position s" by blast
  have "x64_at_end s" using run_chunks [OF emits assms(3)] by auto
  from finalize_aligned [OF assms(6) this code] code show ?thesis by blast
qed

lemma x64_finalize_returns_witness:
  "\<exists>s code n. x64_run sample_items x64_new = Inr s \<and> x64_finalize (Some 16) s = Some (Inr (code @ replicate n 0xCC)) \<and> 16 dvd length code + n"
proof -
  have "(case x64_run sample_items x64_new of Inl e \<Rightarrow> False | Inr s \<Rightarrow> x64_position s = 9 \<and> label_offsets s = [Some 8, Some 0])" by code_simp
  then obtain s where s: "x64_run sample_items x64_new = Inr s" "x64_position s = 9" "label_offsets s = [Some 8, Some 0]"
    by (auto split: sum.splits)
  have "list_all far_item sample_items" by (simp add: sample_items_def far_item_def)
  from x64_finalize_returns [OF sample_encodes this s(1), of 16] s show ?thesis by auto
qed

subsection \<open>Operands that go wrong\<close>

text \<open>What a 64-bit load from an address is read as, also when the address does not stand for an operand.\<close>

definition load_bytes :: "x64_register \<Rightarrow> bool \<Rightarrow> bool \<Rightarrow> u8 list \<Rightarrow> u8 list" where
  "load_bytes p x b ms = rex_bytes (Some (True, needs_rex p, x, b)) @ opcode_bytes OneByte 0x8B @ ms"

lemma load_reads:
  assumes "valid_reg p" "ad_rex a = (if x \<or> b then rex_byte (False, False, x, b) else 0)" "mode \<in> {0, 1, 2}" "rm < 8"
    "encoded_bytes a = modrm mode 0 rm # ds"
  shows "emits (x64_movq_ra p a) (load_bytes p x b (modrm mode (low_bits p) rm # ds))"
    and "take_rm x b (modrm mode (low_bits p) rm # ds @ rest) = Some (m, rest') \<Longrightarrow> x64_decode (load_bytes p x b (modrm mode (low_bits p) rm # ds) @ rest)
      = Some (Instr False MOV [Gpr Qword (reg_no p), gpr_rm Qword m], rest')"
proof -
  let ?rx = "Some (True, needs_rex p, x, b)" and ?m = "modrm mode (low_bits p) rm"
  have "0x48 OR ad_rex a OR (if needs_rex p then 4 else 0) = rex_byte (True, needs_rex p, x, b)"
    using rex_or(1) [of x b "needs_rex p"] unfolding assms(2) by (simp add: ac_simps)
  then have rex: "emits (emit_rex64_modrm_address p a) (rex_bytes ?rx)" by (simp add: emit_rex64_modrm_address_def emits_basic)
  have "push_bit 3 (low_bits p) OR modrm mode 0 rm = ?m" by (simp add: modrm_def ac_simps)
  then have "emits (emit_address (low_bits p) a) (?m # ds)"
    using emits_address [of "low_bits p" a] assms(5) by (simp add: address_part_def)
  from emits_Cons [OF rex emits_Cons [OF emits_basic(1) emits_Cons [OF this emits_Nil]]]
  show "emits (x64_movq_ra p a) (load_bytes p x b (?m # ds))" by (simp add: x64_movq_ra_def load_bytes_def del: x64_do.simps)
  have start: "opcode_start OneByte 0x8B" by (simp add: opcode_start_def)
  have "reg_field ?m = low_bits p" using modrm_fields(2) [of mode "low_bits p" rm] assms(3,4) by auto
  then show "x64_decode (load_bytes p x b (?m # ds) @ rest) = Some (Instr False MOV [Gpr Qword (reg_no p), gpr_rm Qword m], rest')"
    if "take_rm x b (?m # ds @ rest) = Some (m, rest')"
    using take_prefixes(1) [OF start, where lock = False and pfx = NoPrefix and rx = ?rx and bs = "?m # ds @ rest"]
      take_prefixes(2) [OF start, where pfx = NoPrefix and rx = ?rx and bs = "?m # ds @ rest"]
      take_prefixes(3) [OF start, where rx = ?rx and bs = "?m # ds @ rest"] take_prefixes(4) [OF start] assms(1) that
    by (simp add: load_bytes_def x64_decode_def lookup_rows take_modrm_def has_modrm_def v_size_def)
qed

text \<open>The three addresses, and the one test.\<close>

lemma address_offset_R12:
  assumes "is_int32 d"
  obtains a mode where "address_offset R12 d = Inr a" "ad_rex a = (if False \<or> True then rex_byte (False, False, False, True) else 0)"
    "mode \<in> {0, 1, 2}" "encoded_bytes a = modrm mode 0 4 # disp_bytes mode d"
proof -
  let ?mode = "address_mode R12 d"
  note mode = address_mode_cases(1) [of R12 d]
  define a0 where "a0 = \<lparr>ad_rex = 0x41, ad_length = 1, ad_bytes = [modrm ?mode 0 4, 0, 0, 0, 0, 0]\<rparr>"
  have a0: "set_modrm ?mode R12 address_new = Inr a0"
    using mode by (auto simp: set_modrm_def address_new_def a0_def bytes6 modrm_def word_less_nat_alt R12_def needs_rex_def low_bits_def)
  obtain a where a: "set_disp ?mode d a0 = Inr a" "ad_rex a = ad_rex a0" "encoded_bytes a = encoded_bytes a0 @ disp_bytes ?mode d"
    using set_disp_bytes [of a0 ?mode d] mode by (auto simp: a0_def)
  have "address_offset R12 d = Inr a" using a0 a(1) by (simp add: address_offset_def Let_def R12_def RSP_def)
  then show ?thesis using that [OF _ _ mode] a(2,3) by (simp add: a0_def encoded_bytes_def rex_byte.simps)
qed

lemma take_rm_R12:
  assumes "mode \<in> {0, 1, 2}" "reg < 8" "5 \<le> length rest"
  shows "\<exists>m rest'. take_rm x b (modrm mode reg 4 # disp_bytes mode d @ rest) = Some (RmMem m, rest') \<and> length rest' < length rest"
proof -
  obtain c cs where rest: "rest = c # cs" "4 \<le> length cs" using assms(3) by (cases rest) auto
  have fields: "mode_field (modrm mode reg 4) = mode" "rm_field (modrm mode reg 4) = 4"
    using modrm_fields [of mode reg 4] assms(1,2) by auto
  consider "mode = 0" | "mode = 1" | "mode = 2" using assms(1) by auto
  then show ?thesis
  proof cases
    case 1
    then show ?thesis using fields rest by (simp add: take_rm_def disp_bytes_def take_disp_def take_i32_def Let_def) linarith
  next
    case 2
    then show ?thesis using fields rest by (simp add: take_rm_def disp_bytes_def take_disp_def take_i8_def Let_def)
  next
    case 3
    then show ?thesis using fields rest by (simp add: take_rm_def disp_bytes_def take_disp_def take_i32_def u32_bytes_def Let_def)
  qed
qed

lemma address_offset_R13:
  obtains a where "address_offset R13 0 = Inr a" "ad_rex a = (if False \<or> True then rex_byte (False, False, False, True) else 0)"
    "encoded_bytes a = modrm 0 0 5 # []"
  using that by (simp add: address_offset_def address_mode_def set_modrm_def set_disp_def address_new_def encoded_bytes_def bytes6 modrm_def
      R13_def RBP_def RSP_def needs_rex_def low_bits_def rex_byte.simps)

lemma address_array_R13:
  assumes "index \<noteq> RSP"
  shows "address_array R13 index factor 0 = Inr (with_sib 0 factor index R13)"
  using set_sib_ok [of 0 factor index R13] assms
  by (auto simp: address_array_def address_mode_def R13_def RBP_def set_disp_def rbind_eq_Inr_iff)

lemma take_rm_R13:
  assumes "reg < 8"
  shows "take_rm x b (modrm 0 reg 5 # u32_bytes w @ rest) = Some (RmMem (RipAt (sint w)), rest)"
    and "valid_reg index \<Longrightarrow> index \<noteq> RSP \<Longrightarrow> take_rm (needs_rex index) b (modrm 0 reg 4 # modrm (scale_value factor) (low_bits index) 5 # u32_bytes w @ rest)
      = Some (RmMem (MemAt None (Some (reg_no index, unat (scale_value factor))) (sint w)), rest)"
  using assms modrm_fields [of 0 reg 4] modrm_fields [of 0 reg 5] modrm_fields [OF scale_value_cases, of "low_bits index" 5 factor]
    low_bits_special(3) [of index]
  by (simp_all add: take_rm_def take_i32_bytes Let_def)

lemma testl_ri_upper:
  assumes "valid_reg q" "needs_rex q" "is_int32 i" "\<not> is_uint8 i"
  shows "x64_encodes (x64_testl_ri q i) (Instr False TEST [Gpr Dword (reg_no q - 8), Imm i])"
proof -
  have "q \<noteq> RAX" using assms(2) by (auto simp: RAX_def needs_rex_def)
  have "extend_reg False (low_bits q) = reg_no q - 8"
    using register_extend(1) [OF assms(1)] assms(2) by (simp add: extend_reg_def)
  then have direct: "operand_step (emit_modrm_opcode 0 q) False False 0 (RmReg (reg_no q - 8))"
    by (intro operand_step_register [OF emits_modrm(4)]) simp_all
  show ?thesis unfolding x64_testl_ri_def if_not_P [OF assms(4)] if_not_P [OF \<open>q \<noteq> RAX\<close>]
    by (rule encodes_assert, rule assms, rule encodes_no_rex(1), rule direct, rule lookup_rows, rule imm_dword, simp,
        simp add: opcode_start_def has_modrm_def, simp add: v_size_def imm_exact assms)
qed


lemma load_from_R12:
  assumes "valid_reg p" "is_int32 d"
  shows "\<exists>a bs. address_offset R12 d = Inr a \<and> emits (x64_movq_ra p a) bs
        \<and> (\<forall>rest. 5 \<le> length rest \<longrightarrow> (\<exists>m rest'. x64_decode (bs @ rest) = Some (Instr False MOV [Gpr Qword (reg_no p), Mem Qword m], rest')
              \<and> length rest' < length rest))"
proof -
  obtain a mode where a: "address_offset R12 d = Inr a" "ad_rex a = (if False \<or> True then rex_byte (False, False, False, True) else 0)"
    "mode \<in> {0, 1, 2}" "encoded_bytes a = modrm mode 0 4 # disp_bytes mode d"
    by (rule address_offset_R12 [OF assms(2)])
  note load = load_reads [OF assms(1) a(2,3) _ a(4)]
  have "\<exists>m rest'. x64_decode (load_bytes p False True (modrm mode (low_bits p) 4 # disp_bytes mode d) @ rest)
        = Some (Instr False MOV [Gpr Qword (reg_no p), Mem Qword m], rest') \<and> length rest' < length rest" if "5 \<le> length rest" for rest
    using take_rm_R12 [OF a(3) low_bits_small(1) that, of False True p d] load(2) [of rest] by auto
  with load(1) a(1) show ?thesis
    by (intro exI conjI) auto
qed

lemma load_from_R13:
  assumes "valid_reg p"
  shows "\<exists>a bs. address_offset R13 0 = Inr a \<and> emits (x64_movq_ra p a) bs
        \<and> (\<forall>w rest. x64_decode (bs @ u32_bytes w @ rest) = Some (Instr False MOV [Gpr Qword (reg_no p), Mem Qword (RipAt (sint w))], rest))"
proof -
  obtain a where a: "address_offset R13 0 = Inr a" "ad_rex a = (if False \<or> True then rex_byte (False, False, False, True) else 0)"
    "encoded_bytes a = modrm 0 0 5 # []"
    by (rule address_offset_R13)
  note load = load_reads [OF assms(1) a(2) _ _ a(3)]
  have read: "x64_decode (load_bytes p False True (modrm 0 (low_bits p) 5 # []) @ u32_bytes w @ rest)
      = Some (Instr False MOV [Gpr Qword (reg_no p), Mem Qword (RipAt (sint w))], rest)" for w rest
    using load(2) [of "u32_bytes w @ rest" "RmMem (RipAt (sint w))" rest] by (simp add: take_rm_R13)
  show ?thesis
    using a(1) load(1) read by (intro exI [of _ a] exI conjI allI) simp_all
qed

lemma load_from_array_R13:
  assumes "valid_reg p" "valid_reg index" "index \<noteq> RSP"
  shows "\<exists>a bs. address_array R13 index factor 0 = Inr a \<and> emits (x64_movq_ra p a) bs
        \<and> (\<forall>w rest. x64_decode (bs @ u32_bytes w @ rest)
              = Some (Instr False MOV [Gpr Qword (reg_no p), Mem Qword (MemAt None (Some (reg_no index, unat (scale_value factor))) (sint w))], rest))"
proof -
  let ?a = "with_sib 0 factor index R13"
  have "encoded_bytes ?a = modrm 0 0 4 # [modrm (scale_value factor) (low_bits index) 5]"
    by (simp add: with_sib_def encoded_bytes_def R13_def low_bits_def)
  note load = load_reads [OF assms(1) with_sib_rex _ _ this]
  have read: "x64_decode (load_bytes p (needs_rex index) (needs_rex R13) (modrm 0 (low_bits p) 4 # [modrm (scale_value factor) (low_bits index) 5]) @ u32_bytes w @ rest)
      = Some (Instr False MOV [Gpr Qword (reg_no p), Mem Qword (MemAt None (Some (reg_no index, unat (scale_value factor))) (sint w))], rest)" for w rest
    using load(2) [of "u32_bytes w @ rest" "RmMem (MemAt None (Some (reg_no index, unat (scale_value factor))) (sint w))" rest]
      take_rm_R13(2) [OF low_bits_small(1) assms(2,3)] by simp
  show ?thesis
    using address_array_R13 [OF assms(3)] load(1) read by (intro exI [of _ ?a] exI conjI allI) simp_all
qed

text \<open>C38. Registers that the assembler gets wrong, whatever the other operands are.  A 64-bit load from an address
  with \<open>R12\<close> as its only register lacks the SIB byte that the low bits of the base ask for: it is read as a load
  that takes in at least one byte of what follows.  A load from \<open>R13\<close> without displacement takes in four bytes
  and is read as relative to the instruction pointer; with an index register it is read as having no base
  at all.  A test of a register from \<open>R8\<close> on with an immediate of more than a byte lacks the prefix and
  tests the register whose number is eight smaller.\<close>

theorem x64_misread_registers:
  assumes "valid_reg p" "is_int32 d" "valid_reg index" "index \<noteq> RSP" "valid_reg q" "needs_rex q" "is_int32 i" "\<not> is_uint8 i"
  shows "(\<exists>a bs. address_offset R12 d = Inr a \<and> emits (x64_movq_ra p a) bs
        \<and> (\<forall>rest. 5 \<le> length rest \<longrightarrow> (\<exists>m rest'. x64_decode (bs @ rest) = Some (Instr False MOV [Gpr Qword (reg_no p), Mem Qword m], rest')
              \<and> length rest' < length rest)))
    \<and> (\<exists>a bs. address_offset R13 0 = Inr a \<and> emits (x64_movq_ra p a) bs
        \<and> (\<forall>w rest. x64_decode (bs @ u32_bytes w @ rest) = Some (Instr False MOV [Gpr Qword (reg_no p), Mem Qword (RipAt (sint w))], rest)))
    \<and> (\<exists>a bs. address_array R13 index factor 0 = Inr a \<and> emits (x64_movq_ra p a) bs
        \<and> (\<forall>w rest. x64_decode (bs @ u32_bytes w @ rest)
              = Some (Instr False MOV [Gpr Qword (reg_no p), Mem Qword (MemAt None (Some (reg_no index, unat (scale_value factor))) (sint w))], rest)))
    \<and> x64_encodes (x64_testl_ri q i) (Instr False TEST [Gpr Dword (reg_no q - 8), Imm i])"
  using load_from_R12 [OF assms(1,2)] load_from_R13 [OF assms(1)] load_from_array_R13 [OF assms(1,3,4)] testl_ri_upper [OF assms(5-8)]
  by (intro conjI)

lemma x64_misread_registers_witness:
  "(\<exists>a bs. address_offset R12 8 = Inr a \<and> emits (x64_movq_ra RAX a) bs
        \<and> (\<forall>rest. 5 \<le> length rest \<longrightarrow> (\<exists>m rest'. x64_decode (bs @ rest) = Some (Instr False MOV [Gpr Qword 0, Mem Qword m], rest')
              \<and> length rest' < length rest)))
    \<and> x64_encodes (x64_testl_ri R9 1000) (Instr False TEST [Gpr Dword 1, Imm 1000])"
  using x64_misread_registers [of RAX 8 RCX R9 1000 Eight]
  by (simp add: valid_reg_def needs_rex_def is_int32_def is_uint8_def reg_no_def RAX_def RCX_def RSP_def R9_def)

end
