(* ===== verification/CardTables.thy ===== *)
theory CardTables
  imports HeapObjects
begin

text \<open>
  The card table and the crossing map of the generational collector (\<open>dora/src/gc/swiper/card.rs\<close> and
  \<open>crossing.rs\<close>, the constants of \<open>swiper.rs\<close>).  Both are tables of bytes in memory, with one entry for
  each card of 512 bytes; the bytes are a map from addresses, passed along like the rest of the memory.
\<close>

type_synonym byte_memory = "heap_address \<Rightarrow> u8"

subsection \<open>Cards\<close>

definition CARD_SIZE :: usize where "CARD_SIZE = 512"
definition CARD_SIZE_BITS :: nat where "CARD_SIZE_BITS = 9"
definition CARD_REFS :: usize where "CARD_REFS = CARD_SIZE div ptr_width_usize"

definition on_different_cards :: "heap_address \<Rightarrow> heap_address \<Rightarrow> bool" where
  "on_different_cards cur next_addr = (drop_bit CARD_SIZE_BITS cur \<noteq> drop_bit CARD_SIZE_BITS next_addr)"

definition is_card_aligned :: "heap_address \<Rightarrow> bool" where
  "is_card_aligned a = (a AND (CARD_SIZE - 1) = 0)"

definition align_card :: "heap_address \<Rightarrow> heap_address result" where
  "align_card a = align_usize a CARD_SIZE"

definition write_bytes :: "heap_address \<Rightarrow> u8 \<Rightarrow> usize \<Rightarrow> byte_memory \<Rightarrow> byte_memory" where
  "write_bytes start v n b = (\<lambda>a. if start \<le> a \<and> a < start + n then v else b a)"

subsection \<open>The card table\<close>

datatype card_entry = Clean | Dirty

record card_table =
  ct_start :: heap_address
  ct_end :: heap_address
  ct_old_and_large :: region
  ct_old_end :: heap_address
  ct_cards_in_heap :: usize

definition ct_size :: "card_table \<Rightarrow> usize result" where
  "ct_size ct = offset_from (ct_end ct) (ct_start ct)"

definition ct_reset :: "card_table \<Rightarrow> byte_memory \<Rightarrow> byte_memory result" where
  "ct_reset ct b = rbind (ct_size ct) (\<lambda>n. Inr (write_bytes (ct_start ct) 1 n b))"

definition card_table_new ::
  "heap_address \<Rightarrow> heap_address \<Rightarrow> region \<Rightarrow> heap_address \<Rightarrow> usize \<Rightarrow> byte_memory \<Rightarrow> (card_table \<times> byte_memory) result" where
  "card_table_new start fin old_and_large old_end heap_size b =
     rbind (offset start (drop_bit CARD_SIZE_BITS heap_size)) (\<lambda>start.
     rbind (rassert (r_contains old_and_large old_end)) (\<lambda>_.
     let crd = \<lparr>ct_start = start, ct_end = fin, ct_old_and_large = old_and_large, ct_old_end = old_end,
                 ct_cards_in_heap = heap_size div CARD_SIZE\<rparr> in
     rbind (ct_reset crd b) (\<lambda>b. Inr (crd, b))))"

definition ct_index_from_card_idx :: "card_table \<Rightarrow> usize \<Rightarrow> usize result" where
  "ct_index_from_card_idx ct crd = rbind (rassert (crd < 3 * ct_cards_in_heap ct)) (\<lambda>_. Inr crd)"

definition ct_card_idx :: "card_table \<Rightarrow> heap_address \<Rightarrow> usize result" where
  "ct_card_idx ct addr =
     rbind (rassert (r_contains (ct_old_and_large ct) addr)) (\<lambda>_.
     rbind (offset_from addr (r_start (ct_old_and_large ct))) (\<lambda>d.
     Inr (drop_bit CARD_SIZE_BITS d)))"

definition ct_card_indices :: "card_table \<Rightarrow> heap_address \<Rightarrow> heap_address \<Rightarrow> (usize \<times> usize) result" where
  "ct_card_indices ct start fin =
     rbind (rassert (start \<le> fin)) (\<lambda>_.
     rbind (ct_card_idx ct start) (\<lambda>card_start.
     rbind (align_card fin) (\<lambda>aligned.
     rbind (ct_card_idx ct aligned) (\<lambda>card_end.
     Inr (card_start, card_end)))))"

definition ct_is_aligned :: "card_table \<Rightarrow> heap_address \<Rightarrow> bool result" where
  "ct_is_aligned ct addr = rbind (offset_from addr (r_start (ct_old_and_large ct))) (\<lambda>d. Inr (d AND (CARD_SIZE - 1) = 0))"

definition ct_to_address :: "card_table \<Rightarrow> usize \<Rightarrow> heap_address result" where
  "ct_to_address ct crd =
     rbind (ct_index_from_card_idx ct crd) (\<lambda>crd.
     offset (r_start (ct_old_and_large ct)) (push_bit CARD_SIZE_BITS crd))"

definition ct_entry_ptr :: "card_table \<Rightarrow> usize \<Rightarrow> heap_address result" where
  "ct_entry_ptr ct crd =
     rbind (ct_index_from_card_idx ct crd) (\<lambda>crd.
     rbind (offset (ct_start ct) crd) (\<lambda>ptr.
     rbind (rassert (ptr < ct_end ct)) (\<lambda>_. Inr ptr)))"

definition ct_get :: "card_table \<Rightarrow> usize \<Rightarrow> byte_memory \<Rightarrow> card_entry result" where
  "ct_get ct crd b = rbind (ct_entry_ptr ct crd) (\<lambda>ptr. Inr (if b ptr = 0 then Dirty else Clean))"

definition ct_set :: "card_table \<Rightarrow> usize \<Rightarrow> card_entry \<Rightarrow> byte_memory \<Rightarrow> byte_memory result" where
  "ct_set ct crd entry b =
     rbind (ct_entry_ptr ct crd) (\<lambda>ptr. Inr (b(ptr := (case entry of Clean \<Rightarrow> 1 | Dirty \<Rightarrow> 0))))"

definition ct_reset_region :: "card_table \<Rightarrow> heap_address \<Rightarrow> heap_address \<Rightarrow> byte_memory \<Rightarrow> byte_memory result" where
  "ct_reset_region ct start fin b =
     rbind (ct_card_idx ct start) (\<lambda>start_idx.
     rbind (align_card fin) (\<lambda>aligned.
     rbind (ct_card_idx ct aligned) (\<lambda>end_idx.
     rbind (offset (ct_start ct) start_idx) (\<lambda>ptr.
     rbind (checked_sub end_idx start_idx) (\<lambda>n.
     Inr (write_bytes ptr 1 n b))))))"

definition ct_reset_addr :: "card_table \<Rightarrow> heap_address \<Rightarrow> byte_memory \<Rightarrow> byte_memory result" where
  "ct_reset_addr ct addr b = rbind (ct_card_idx ct addr) (\<lambda>crd. ct_set ct crd Clean b)"

text \<open>The callback of \<open>visit_dirty_in_old\<close> works on a state that has the table's bytes in it.\<close>

fun visit_cards :: "card_table \<Rightarrow> ('s \<Rightarrow> byte_memory) \<Rightarrow> (usize \<Rightarrow> 's \<Rightarrow> 's result) \<Rightarrow> usize list \<Rightarrow> 's \<Rightarrow> 's result" where
  "visit_cards ct bytes f [] s = Inr s"
| "visit_cards ct bytes f (crd # cards) s =
     rbind (ct_get ct crd (bytes s)) (\<lambda>e.
     rbind (if e = Dirty then f crd s else Inr s) (visit_cards ct bytes f cards))"

definition visit_dirty_in_old ::
  "card_table \<Rightarrow> ('s \<Rightarrow> byte_memory) \<Rightarrow> heap_address \<Rightarrow> heap_address \<Rightarrow> (usize \<Rightarrow> 's \<Rightarrow> 's result) \<Rightarrow> 's \<Rightarrow> 's result" where
  "visit_dirty_in_old ct bytes start fin f s =
     rbind (rassert (r_start (ct_old_and_large ct) \<le> fin \<and> fin \<le> ct_old_end ct)) (\<lambda>_.
     rbind (ct_card_indices ct start fin) (\<lambda>(start_card_idx, end_card_idx).
     visit_cards ct bytes f [start_card_idx..<end_card_idx] s))"

subsection \<open>The crossing map\<close>

datatype crossing_entry =
    NoRefs
  | LeadingRefs u8
  | FirstObject u8
  | ArrayStart u8
  | PreviousObjectWords u8
  | PreviousObjectCards u8

record crossing_map =
  cm_start :: heap_address
  cm_end :: heap_address
  cm_cards_in_heap :: usize

definition crossing_map_new :: "heap_address \<Rightarrow> heap_address \<Rightarrow> usize \<Rightarrow> crossing_map" where
  "crossing_map_new start fin heap_size = \<lparr>cm_start = start, cm_end = fin, cm_cards_in_heap = heap_size div CARD_SIZE\<rparr>"

definition cm_index_from_card_idx :: "crossing_map \<Rightarrow> usize \<Rightarrow> usize result" where
  "cm_index_from_card_idx cm crd = rbind (rassert (crd < cm_cards_in_heap cm)) (\<lambda>_. Inr crd)"

definition cm_set :: "crossing_map \<Rightarrow> usize \<Rightarrow> u8 \<Rightarrow> byte_memory \<Rightarrow> byte_memory result" where
  "cm_set cm crd v b =
     rbind (cm_index_from_card_idx cm crd) (\<lambda>crd.
     rbind (offset (cm_start cm) crd) (\<lambda>ptr. Inr (b(ptr := v))))"

definition cm_get :: "crossing_map \<Rightarrow> usize \<Rightarrow> byte_memory \<Rightarrow> crossing_entry result" where
  "cm_get cm crd b =
     rbind (cm_index_from_card_idx cm crd) (\<lambda>crd.
     rbind (offset (cm_start cm) crd) (\<lambda>ptr.
     let v = b ptr in
     if v < 64 then Inr (FirstObject v)
     else if v = 64 then Inr NoRefs
     else if v \<le> 128 then Inr (LeadingRefs (v - 64))
     else rbind (rassert (v = 129 \<or> v = 130)) (\<lambda>_. Inr (ArrayStart (v - 128)))))"

definition usize_as_u8 :: "usize \<Rightarrow> u8" where
  "usize_as_u8 n = word_of_nat n"

definition set_no_references :: "crossing_map \<Rightarrow> usize \<Rightarrow> byte_memory \<Rightarrow> byte_memory result" where
  "set_no_references cm crd = cm_set cm crd 64"

definition set_first_object :: "crossing_map \<Rightarrow> usize \<Rightarrow> usize \<Rightarrow> byte_memory \<Rightarrow> byte_memory result" where
  "set_first_object cm crd wrds b = rbind (rassert (wrds < 64)) (\<lambda>_. cm_set cm crd (usize_as_u8 wrds) b)"

definition set_array_start :: "crossing_map \<Rightarrow> usize \<Rightarrow> usize \<Rightarrow> byte_memory \<Rightarrow> byte_memory result" where
  "set_array_start cm crd wrds b = rbind (rassert (wrds = 1 \<or> wrds = 2)) (\<lambda>_. cm_set cm crd (usize_as_u8 (128 + wrds)) b)"

definition set_references_at_start :: "crossing_map \<Rightarrow> usize \<Rightarrow> usize \<Rightarrow> byte_memory \<Rightarrow> byte_memory result" where
  "set_references_at_start cm crd refs b =
     rbind (rassert (0 < refs \<and> refs \<le> 64)) (\<lambda>_. cm_set cm crd (64 + usize_as_u8 refs) b)"

fun for_cards :: "(usize \<Rightarrow> byte_memory \<Rightarrow> byte_memory result) \<Rightarrow> usize list \<Rightarrow> byte_memory \<Rightarrow> byte_memory result" where
  "for_cards f [] b = Inr b"
| "for_cards f (c # cs) b = rbind (f c b) (for_cards f cs)"

definition card_idx :: "heap_address \<Rightarrow> heap_address \<Rightarrow> usize result" where
  "card_idx address start = rbind (offset_from address start) (\<lambda>d. Inr (drop_bit CARD_SIZE_BITS d))"

definition card_address :: "usize \<Rightarrow> heap_address \<Rightarrow> heap_address result" where
  "card_address crd start = offset start (push_bit CARD_SIZE_BITS crd)"

definition update_array ::
  "crossing_map \<Rightarrow> region \<Rightarrow> heap_address \<Rightarrow> heap_address \<Rightarrow> byte_memory \<Rightarrow> byte_memory result" where
  "update_array cm old_total object_start object_end b =
     rbind (card_idx object_end (r_start old_total)) (\<lambda>end_card_idx.
     rbind (card_address end_card_idx (r_start old_total)) (\<lambda>end_card_addr.
     rbind (card_idx object_start (r_start old_total)) (\<lambda>start_card_idx.
     rbind (rbind (card_address start_card_idx (r_start old_total)) (\<lambda>a. offset a CARD_SIZE)) (\<lambda>start_card_end.
     rbind (offset object_start array_header_size) (\<lambda>data.
     rbind (if start_card_end < data
            then rbind (offset_from start_card_end object_start) (\<lambda>d.
                 rbind (set_array_start cm (start_card_idx + 1) (d div ptr_width_usize) b) (\<lambda>b. Inr (start_card_idx + 2, b)))
            else Inr (start_card_idx + 1, b)) (\<lambda>(loop_card_start, b).
     rbind (for_cards (\<lambda>c. set_references_at_start cm c CARD_REFS) [loop_card_start..<end_card_idx] b) (\<lambda>b.
     if loop_card_start \<le> end_card_idx \<and> object_end < r_end old_total then
       if object_end = end_card_addr then set_first_object cm end_card_idx 0 b
       else rbind (offset_from object_end end_card_addr) (\<lambda>d.
            set_references_at_start cm end_card_idx (d div ptr_width_usize) b)
     else Inr b)))))))"

definition update_other ::
  "crossing_map \<Rightarrow> region \<Rightarrow> heap_address \<Rightarrow> heap_address \<Rightarrow> byte_memory \<Rightarrow> byte_memory result" where
  "update_other cm old_total object_start object_end b =
     rbind (card_idx object_end (r_start old_total)) (\<lambda>end_card_idx.
     rbind (card_address end_card_idx (r_start old_total)) (\<lambda>end_card_addr.
     rbind (card_idx object_start (r_start old_total)) (\<lambda>start_card_idx.
     rbind (for_cards (set_no_references cm) [start_card_idx + 1..<end_card_idx] b) (\<lambda>b.
     if object_end < r_end old_total
     then rbind (offset_from object_end end_card_addr) (\<lambda>d. set_first_object cm end_card_idx (d div ptr_width_usize) b)
     else Inr b))))"

definition crossing_update ::
  "crossing_map \<Rightarrow> region \<Rightarrow> heap_address \<Rightarrow> heap_address \<Rightarrow> bool \<Rightarrow> byte_memory \<Rightarrow> byte_memory result" where
  "crossing_update cm old_total object_start object_end array_ref b =
     rbind (rassert (valid_top old_total object_start \<and> valid_top old_total object_end)) (\<lambda>_.
     if drop_bit CARD_SIZE_BITS object_start = drop_bit CARD_SIZE_BITS object_end then Inr b
     else if array_ref then update_array cm old_total object_start object_end b
     else update_other cm old_total object_start object_end b)"

end
