(* ===== verification/CrossingTheorems.thy ===== *)
theory CrossingTheorems
  imports CardTables
begin

text \<open>
  What the crossing map holds.  Objects fill the old generation from the bottom; each update describes how the
  new object crosses card boundaries, and later updates do not touch these entries.
\<close>

subsection \<open>The table\<close>

lemmas card_consts = CARD_SIZE_def CARD_SIZE_BITS_def CARD_REFS_def ptr_width_usize_def array_header_size_def header_size_def

definition cm_ok :: "crossing_map \<Rightarrow> usize \<Rightarrow> bool" where
  "cm_ok cm n \<longleftrightarrow> n \<le> cm_cards_in_heap cm \<and> cm_start cm + cm_cards_in_heap cm < 2 ^ 64"

lemma cm_set_ok: "cm_ok cm n \<Longrightarrow> c < n \<Longrightarrow> cm_set cm c v b = Inr (b(cm_start cm + c := v))"
  by (simp add: cm_ok_def cm_set_def cm_index_from_card_idx_def offset_def checked_add_def)

text \<open>The entry of a byte, and the byte of a card that an object covers.\<close>

definition entry_of :: "u8 \<Rightarrow> crossing_entry result" where
  "entry_of v = (if v < 64 then Inr (FirstObject v) else if v = 64 then Inr NoRefs
     else if v \<le> 128 then Inr (LeadingRefs (v - 64)) else rbind (rassert (v = 129 \<or> v = 130)) (\<lambda>_. Inr (ArrayStart (v - 128))))"

lemma cm_get_ok: "cm_ok cm n \<Longrightarrow> c < n \<Longrightarrow> cm_get cm c b = entry_of (b (cm_start cm + c))"
  by (simp add: cm_ok_def cm_get_def cm_index_from_card_idx_def offset_def checked_add_def entry_of_def Let_def)

type_synonym old_object = "heap_address \<times> heap_address \<times> bool"

fun covered_byte :: "old_object \<Rightarrow> heap_address \<Rightarrow> usize" where
  "covered_byte (st, en, arr) crd =
     (if arr then if crd < st + 24 then 128 + (crd - st) div 8 else if crd + 512 \<le> en then 128 else 64 + (en - crd) div 8
      else if crd + 512 \<le> en then 64 else (en - crd) div 8)"

text \<open>What an update makes of the table.\<close>

fun updated :: "crossing_map \<Rightarrow> region \<Rightarrow> old_object \<Rightarrow> byte_memory \<Rightarrow> byte_memory" where
  "updated cm tot (st, en, arr) b = (\<lambda>a.
     let crd = r_start tot + 512 * (a - cm_start cm) in
     if cm_start cm \<le> a \<and> st < crd \<and> crd < en then usize_as_u8 (covered_byte (st, en, arr) crd)
     else if cm_start cm \<le> a \<and> crd = en \<and> st < en \<and> en < r_end tot then 0 else b a)"

lemma for_cards_set:
  assumes "cm_ok cm n" "j \<le> n" "\<And>c b. i \<le> c \<Longrightarrow> c < j \<Longrightarrow> f c b = cm_set cm c v b"
  shows "for_cards f [i..<j] b = Inr (write_bytes (cm_start cm + i) v (j - i) b)"
  using assms(2,3)
proof (induction j arbitrary: b)
  case 0
  then show ?case by (auto simp: write_bytes_def fun_eq_iff)
next
  case (Suc j)
  have app: "for_cards f (xs @ ys) b = rbind (for_cards f xs b) (for_cards f ys)" for xs ys b
  proof (induction xs arbitrary: b)
    case (Cons c xs)
    show ?case by (cases "f c b") (simp_all add: Cons.IH)
  qed simp
  show ?case
  proof (cases "i \<le> j")
    case True
    have "for_cards f [i..<j] b = Inr (write_bytes (cm_start cm + i) v (j - i) b)" using Suc by auto
    moreover have "f j b' = Inr (b'(cm_start cm + j := v))" for b' using Suc.prems True cm_set_ok [OF assms(1)] by simp
    ultimately show ?thesis using True by (auto simp: app write_bytes_def fun_eq_iff)
  qed (auto simp: write_bytes_def fun_eq_iff)
qed


definition old_ok :: "crossing_map \<Rightarrow> region \<Rightarrow> bool" where
  "old_ok cm tot \<longleftrightarrow> 512 dvd r_start tot \<and> 512 dvd r_end tot \<and> r_start tot \<le> r_end tot \<and> r_end tot + 1024 < 2 ^ 64
     \<and> cm_ok cm ((r_end tot - r_start tot) div 512)"

text \<open>The address of a word in a card of the old generation.\<close>

definition in_card :: "region \<Rightarrow> nat \<Rightarrow> nat \<Rightarrow> heap_address" where
  "in_card tot c w = r_start tot + 512 * c + 8 * w"

lemma card_idx_in_card: "w < 64 \<Longrightarrow> card_idx (in_card tot c w) (r_start tot) = Inr c"
  by (simp add: card_idx_def in_card_def offset_from_def CARD_SIZE_BITS_def drop_bit_eq_div)

lemma card_address_in_card: "in_card tot c 0 < 2 ^ 64 \<Longrightarrow> card_address c (r_start tot) = Inr (in_card tot c 0)"
  by (simp add: card_address_def offset_def CARD_SIZE_BITS_def push_bit_eq_mult checked_add_def mult.commute in_card_def)

lemma in_card_order:
  assumes "w < 64" "v < 64"
  shows "in_card tot c w < in_card tot d v \<longleftrightarrow> c < d \<or> c = d \<and> w < v" "in_card tot c w = in_card tot d v \<longleftrightarrow> c = d \<and> w = v"
    "in_card tot c w \<le> in_card tot d v \<longleftrightarrow> c < d \<or> c = d \<and> w \<le> v"
proof -
  consider "c < d" "c + 1 \<le> d" | "c = d" | "d < c" "d + 1 \<le> c" by linarith
  then show "in_card tot c w < in_card tot d v \<longleftrightarrow> c < d \<or> c = d \<and> w < v" "in_card tot c w = in_card tot d v \<longleftrightarrow> c = d \<and> w = v"
    "in_card tot c w \<le> in_card tot d v \<longleftrightarrow> c < d \<or> c = d \<and> w \<le> v"
    by (cases; use assms in \<open>simp add: in_card_def\<close>)+
qed

lemma byte_table_eqI:
  assumes "\<And>c. b (cm_start cm + c) = b' (cm_start cm + c)" "\<And>a. a < cm_start cm \<Longrightarrow> b a = b' a"
  shows "b = b'"
  using assms by (metis ext le_add_diff_inverse linorder_not_le)

lemma old_ok_end: "old_ok cm tot \<Longrightarrow> \<exists>n. r_end tot = in_card tot n 0 \<and> cm_ok cm n \<and> in_card tot n 128 < 2 ^ 64"
  by (intro exI [of _ "(r_end tot - r_start tot) div 512"]) (auto simp: old_ok_def in_card_def dvd_diff_nat)

lemma update_other_ok:
  assumes ok: "old_ok cm tot" and c: "c < d" "w < 64" "v < 64" and d: "in_card tot d v \<le> r_end tot"
  shows "update_other cm tot (in_card tot c w) (in_card tot d v) b = Inr (updated cm tot (in_card tot c w, in_card tot d v, False) b)"
proof -
  obtain n where n: "r_end tot = in_card tot n 0" "cm_ok cm n" "in_card tot n 128 < 2 ^ 64" using old_ok_end [OF ok] by blast
  have dn: "d \<le> n" "in_card tot d v < r_end tot \<longleftrightarrow> d < n" "d = n \<Longrightarrow> v = 0" using d c(3) by (auto simp: n(1) in_card_order)
  have addr: "card_address d (r_start tot) = Inr (in_card tot d 0)" using n(3) dn(1) by (intro card_address_in_card) (simp add: in_card_def)
  have loop: "for_cards (set_no_references cm) [c + 1..<d] b = Inr (write_bytes (cm_start cm + (c + 1)) 64 (d - (c + 1)) b)"
    using dn(1) by (intro for_cards_set [OF n(2)]) (simp_all add: set_no_references_def)
  have rest: "offset_from (in_card tot d v) (in_card tot d 0) = Inr (8 * v)" by (simp add: offset_from_def in_card_def)
  have "update_other cm tot (in_card tot c w) (in_card tot d v) b =
      Inr (let b' = write_bytes (cm_start cm + (c + 1)) 64 (d - (c + 1)) b in if d < n then b'(cm_start cm + d := usize_as_u8 v) else b')"
    unfolding update_other_def card_idx_in_card [OF c(2)] card_idx_in_card [OF c(3)] addr rbind_Inr loop dn(2) rest
    using cm_set_ok [OF n(2)] c(3) by (simp add: set_first_object_def ptr_width_usize_def Let_def)
  also have "\<dots> = Inr (updated cm tot (in_card tot c w, in_card tot d v, False) b)"
  proof (intro arg_cong [where f = Inr] byte_table_eqI [of _ cm])
    fix k
    have k: "r_start tot + 512 * k = in_card tot k 0" "in_card tot k 0 + 512 \<le> in_card tot d v \<longleftrightarrow> k + 1 \<le> d" "(in_card tot d v - in_card tot d 0) div 8 = v"
      using c(3) in_card_order(3) [of 0 v tot "k + 1" d] by (auto simp: in_card_def)
    show "(let b' = write_bytes (cm_start cm + (c + 1)) 64 (d - (c + 1)) b in if d < n then b'(cm_start cm + d := usize_as_u8 v) else b') (cm_start cm + k)
        = updated cm tot (in_card tot c w, in_card tot d v, False) b (cm_start cm + k)"
      using c dn k by (auto simp: in_card_order write_bytes_def Let_def n(1) usize_as_u8_def)
  qed (auto simp: write_bytes_def Let_def)
  finally show ?thesis .
qed


lemma references_byte: "64 + usize_as_u8 r = usize_as_u8 (64 + r)"
  by (simp add: usize_as_u8_def)

lemma update_array_ok:
  assumes ok: "old_ok cm tot" and c: "c < d" "w < 64" "v < 64" and d: "in_card tot d v \<le> r_end tot"
    and data: "in_card tot c w + 24 \<le> in_card tot d v"
  shows "update_array cm tot (in_card tot c w) (in_card tot d v) b = Inr (updated cm tot (in_card tot c w, in_card tot d v, True) b)"
proof -
  obtain n where n: "r_end tot = in_card tot n 0" "cm_ok cm n" "in_card tot n 128 < 2 ^ 64" using old_ok_end [OF ok] by blast
  have dn: "d \<le> n" "in_card tot d v < r_end tot \<longleftrightarrow> d < n" "d = n \<Longrightarrow> v = 0" using d c(3) by (auto simp: n(1) in_card_order)
  define l b1 where "l = (if 62 \<le> w then c + 2 else c + 1)" and "b1 = (if 62 \<le> w then b(cm_start cm + (c + 1) := usize_as_u8 (128 + (64 - w))) else b)"
  have ld: "62 \<le> w \<Longrightarrow> d = c + 1 \<Longrightarrow> v \<noteq> 0" using data by (auto simp: in_card_def)
  have small: "in_card tot d 0 < 2 ^ 64" "in_card tot c 0 < 2 ^ 64" "in_card tot (c + 1) 0 < 2 ^ 64" "in_card tot c w + 24 < 2 ^ 64"
    using n(3) dn(1) c by (simp_all add: in_card_def)
  have "offset (in_card tot c 0) CARD_SIZE = Inr (in_card tot (c + 1) 0)"
    using small(3) by (simp add: offset_def checked_add_def CARD_SIZE_def in_card_def)
  then have addr: "card_address d (r_start tot) = Inr (in_card tot d 0)"
    "rbind (card_address c (r_start tot)) (\<lambda>a. offset a CARD_SIZE) = Inr (in_card tot (c + 1) 0)"
    "offset (in_card tot c w) array_header_size = Inr (in_card tot c w + 24)"
    using small card_address_in_card by (simp_all add: offset_def checked_add_def array_header_size_def header_size_def ptr_width_usize_def)
  have start: "(if in_card tot (c + 1) 0 < in_card tot c w + 24
            then rbind (offset_from (in_card tot (c + 1) 0) (in_card tot c w)) (\<lambda>e.
                 rbind (set_array_start cm (c + 1) (e div ptr_width_usize) b) (\<lambda>b. Inr (c + 2, b)))
            else Inr (c + 1, b)) = Inr (l, b1)"
  proof (cases "62 \<le> w")
    case True
    have "offset_from (in_card tot (c + 1) 0) (in_card tot c w) = Inr (8 * (64 - w))" using c(2) by (simp add: offset_from_def in_card_def)
    moreover have "64 - w = 1 \<or> 64 - w = 2" "c + 1 < n"
    proof -
      show "64 - w = 1 \<or> 64 - w = 2" using True c(2) by linarith
      show "c + 1 < n"
      proof (rule ccontr)
        assume "\<not> c + 1 < n"
        then have "d = c + 1" "d = n" using c(1) dn(1) by linarith+
        then show False using ld [OF True] dn(3) by blast
      qed
    qed
    ultimately show ?thesis using True cm_set_ok [OF n(2)]
      by (auto simp: l_def b1_def set_array_start_def ptr_width_usize_def) (simp_all add: in_card_def)
  qed (auto simp: l_def b1_def in_card_def)
  have loop: "for_cards (\<lambda>k. set_references_at_start cm k CARD_REFS) [l..<d] b1 = Inr (write_bytes (cm_start cm + l) (usize_as_u8 128) (d - l) b1)"
    using dn(1) by (intro for_cards_set [OF n(2)]) (simp_all add: set_references_at_start_def references_byte card_consts)
  have rest: "offset_from (in_card tot d v) (in_card tot d 0) = Inr (8 * v)" by (simp add: offset_from_def in_card_def)
  have eq: "in_card tot d v = in_card tot d 0 \<longleftrightarrow> v = 0" by (simp add: in_card_def)
  have "update_array cm tot (in_card tot c w) (in_card tot d v) b =
      Inr (let b' = write_bytes (cm_start cm + l) (usize_as_u8 128) (d - l) b1 in
           if l \<le> d \<and> d < n then b'(cm_start cm + d := if v = 0 then 0 else usize_as_u8 (64 + v)) else b')"
    unfolding update_array_def card_idx_in_card [OF c(2)] card_idx_in_card [OF c(3)] addr rbind_Inr start prod.case loop dn(2) rest eq
    using cm_set_ok [OF n(2)] c(3)
    by (simp add: set_first_object_def set_references_at_start_def references_byte ptr_width_usize_def Let_def) (simp add: usize_as_u8_def)
  also have "\<dots> = Inr (updated cm tot (in_card tot c w, in_card tot d v, True) b)"
  proof (intro arg_cong [where f = Inr] byte_table_eqI [of _ cm])
    fix k
    have k: "r_start tot + 512 * k = in_card tot k 0" "in_card tot k 0 + 512 \<le> in_card tot d v \<longleftrightarrow> k + 1 \<le> d" "(in_card tot d v - in_card tot d 0) div 8 = v"
      using c(3) in_card_order(3) [of 0 v tot "k + 1" d] by (auto simp: in_card_def)
    have s: "c < k \<Longrightarrow> in_card tot k 0 < in_card tot c w + 24 \<longleftrightarrow> k = c + 1 \<and> 62 \<le> w" "(in_card tot (c + 1) 0 - in_card tot c w) div 8 = 64 - w"
    proof -
      assume "c < k"
      then consider "k = c + 1" | "c + 2 \<le> k" by linarith
      then show "in_card tot k 0 < in_card tot c w + 24 \<longleftrightarrow> k = c + 1 \<and> 62 \<le> w" by cases (use c(2) in \<open>auto simp: in_card_def\<close>)
    qed (use c(2) in \<open>simp add: in_card_def\<close>)
    show "(let b' = write_bytes (cm_start cm + l) (usize_as_u8 128) (d - l) b1 in
           if l \<le> d \<and> d < n then b'(cm_start cm + d := if v = 0 then 0 else usize_as_u8 (64 + v)) else b') (cm_start cm + k)
        = updated cm tot (in_card tot c w, in_card tot d v, True) b (cm_start cm + k)"
    proof (cases "c < k")
      case True
      note s' = s(1) [OF True] s(2)
      consider "k < d" | "k = d" | "d < k" by linarith
      then show ?thesis
        by cases (use c dn k s' True ld in \<open>auto simp: in_card_order write_bytes_def Let_def n(1) l_def b1_def\<close>)
    next
      case False
      then show ?thesis using c by (auto simp: in_card_order write_bytes_def Let_def l_def b1_def k(1))
    qed
  qed (auto simp: write_bytes_def Let_def b1_def)
  finally show ?thesis .
qed


subsection \<open>Sequences of objects\<close>

text \<open>Objects that lie one after the other, whole words long; an array of references has room for its header.\<close>

fun adjacent :: "heap_address \<Rightarrow> old_object list \<Rightarrow> heap_address \<Rightarrow> bool" where
  "adjacent s [] t \<longleftrightarrow> s = t"
| "adjacent s ((st, en, arr) # objs) t \<longleftrightarrow> st = s \<and> st < en \<and> 8 dvd en \<and> (arr \<longrightarrow> st + 24 \<le> en) \<and> adjacent en objs t"

fun update_all :: "crossing_map \<Rightarrow> region \<Rightarrow> old_object list \<Rightarrow> byte_memory \<Rightarrow> byte_memory result" where
  "update_all cm tot [] b = Inr b"
| "update_all cm tot ((st, en, arr) # objs) b = rbind (crossing_update cm tot st en arr b) (update_all cm tot objs)"

lemma word_in_card:
  assumes "old_ok cm tot" "8 dvd a" "r_start tot \<le> a"
  obtains c w where "a = in_card tot c w" "w < 64"
proof -
  have "8 dvd r_start tot" using assms(1) by (auto simp: old_ok_def intro: dvd_trans [of 8 512])
  then have "8 dvd a - r_start tot" using assms(2) by (simp add: dvd_diff_nat)
  then obtain x where x: "a - r_start tot = 8 * x" by (auto simp: dvd_def)
  have "a = in_card tot (x div 64) (x mod 64)"
  proof -
    have "8 * x = 512 * (x div 64) + 8 * (x mod 64)" using div_mult_mod_eq [of x 64] by linarith
    then show ?thesis using x assms(3) by (simp add: in_card_def)
  qed
  then show thesis using that by simp
qed

lemma crossing_update_ok:
  assumes ok: "old_ok cm tot" and obj: "r_start tot \<le> st" "st < en" "en \<le> r_end tot" "8 dvd st" "8 dvd en" "arr \<longrightarrow> st + 24 \<le> en"
  shows "crossing_update cm tot st en arr b = Inr (updated cm tot (st, en, arr) b)"
proof -
  obtain c w where c: "st = in_card tot c w" "w < 64" using word_in_card [OF ok obj(4,1)] by blast
  have "r_start tot \<le> en" using obj(1,2) by linarith
  then obtain d v where d: "en = in_card tot d v" "v < 64" using word_in_card [OF ok obj(5)] by blast
  have cd: "c \<le> d" using obj(2) c d by (auto simp: in_card_order)
  obtain k where k: "r_start tot = 512 * k" using ok by (auto simp: old_ok_def dvd_def)
  have idx: "drop_bit CARD_SIZE_BITS (in_card tot c w) = k + c" if "w < 64" for c w
    using that by (simp add: CARD_SIZE_BITS_def drop_bit_eq_div in_card_def k)
  have top: "valid_top tot st \<and> valid_top tot en" using obj by (simp add: valid_top_def)
  show ?thesis
  proof (cases "c = d")
    case True
    have "updated cm tot (st, en, arr) b = b"
    proof (rule byte_table_eqI [of _ cm])
      fix j
      have "r_start tot + 512 * j = in_card tot j 0" by (simp add: in_card_def)
      then show "updated cm tot (st, en, arr) b (cm_start cm + j) = b (cm_start cm + j)"
        using True c d obj(2) by (auto simp: in_card_order Let_def)
    qed simp
    moreover have "drop_bit CARD_SIZE_BITS st = drop_bit CARD_SIZE_BITS en" using True idx c d by simp
    ultimately show ?thesis using top by (simp add: crossing_update_def del: updated.simps)
  next
    case False
    then have "c < d" using cd by simp
    then have "arr \<Longrightarrow> update_array cm tot st en b = Inr (updated cm tot (st, en, True) b)"
      "update_other cm tot st en b = Inr (updated cm tot (st, en, False) b)"
      using update_array_ok [OF ok _ c(2) d(2)] update_other_ok [OF ok _ c(2) d(2)] obj(3,6) unfolding c(1) d(1) by blast+
    moreover have "drop_bit CARD_SIZE_BITS st \<noteq> drop_bit CARD_SIZE_BITS en" using False idx c d by simp
    ultimately show ?thesis using top by (cases arr) (simp_all add: crossing_update_def del: updated.simps)
  qed
qed


fun covers :: "old_object \<Rightarrow> heap_address \<Rightarrow> bool" where
  "covers (st, en, arr) a \<longleftrightarrow> st \<le> a \<and> a < en"

definition start_byte :: "old_object \<Rightarrow> heap_address \<Rightarrow> u8" where
  "start_byte obj crd = (if fst obj = crd then 0 else usize_as_u8 (covered_byte obj crd))"

lemma adjacent_le: "adjacent s objs t \<Longrightarrow> s \<le> t"
  by (induction s objs t rule: adjacent.induct) auto

lemma adjacent_first: "adjacent s objs t \<Longrightarrow> s < t \<Longrightarrow> \<exists>en arr. (s, en, arr) \<in> set objs \<and> s < en"
  by (cases objs; fastforce)

lemma update_all_bytes:
  assumes ok: "old_ok cm tot"
  shows "adjacent s objs t \<Longrightarrow> r_start tot \<le> s \<Longrightarrow> t \<le> r_end tot \<Longrightarrow> 8 dvd s \<Longrightarrow>
    \<exists>b'. update_all cm tot objs b = Inr b' \<and>
      (\<forall>k. (s < in_card tot k 0 \<and> in_card tot k 0 < t \<longrightarrow> (\<exists>obj \<in> set objs. covers obj (in_card tot k 0) \<and> b' (cm_start cm + k) = start_byte obj (in_card tot k 0)))
        \<and> (s < in_card tot k 0 \<and> in_card tot k 0 = t \<and> t < r_end tot \<longrightarrow> b' (cm_start cm + k) = 0)
        \<and> (in_card tot k 0 \<le> s \<or> t < in_card tot k 0 \<longrightarrow> b' (cm_start cm + k) = b (cm_start cm + k)))"
proof (induction s objs t arbitrary: b rule: adjacent.induct)
  case (1 s t)
  then show ?case by auto
next
  case (2 s st en arr objs t)
  let ?b = "updated cm tot (st, en, arr) b"
  have obj: "st = s" "st < en" "8 dvd en" "arr \<longrightarrow> st + 24 \<le> en" "adjacent en objs t" using 2(2) by auto
  have en: "en \<le> t" using adjacent_le [OF obj(5)] .
  have step: "crossing_update cm tot st en arr b = Inr ?b" using 2 obj en by (intro crossing_update_ok [OF ok]) auto
  obtain b' where b': "update_all cm tot objs ?b = Inr b'"
    and k: "\<And>k. en < in_card tot k 0 \<and> in_card tot k 0 < t \<Longrightarrow> (\<exists>obj \<in> set objs. covers obj (in_card tot k 0) \<and> b' (cm_start cm + k) = start_byte obj (in_card tot k 0))"
      "\<And>k. en < in_card tot k 0 \<and> in_card tot k 0 = t \<and> t < r_end tot \<Longrightarrow> b' (cm_start cm + k) = 0"
      "\<And>k. in_card tot k 0 \<le> en \<or> t < in_card tot k 0 \<Longrightarrow> b' (cm_start cm + k) = ?b (cm_start cm + k)"
    using 2(1) [of ?b] 2(3-5) obj by auto
  have upd: "?b (cm_start cm + k) = (if st < in_card tot k 0 \<and> in_card tot k 0 < en then usize_as_u8 (covered_byte (st, en, arr) (in_card tot k 0))
      else if in_card tot k 0 = en \<and> st < en \<and> en < r_end tot then 0 else b (cm_start cm + k))" for k
    by (simp add: Let_def in_card_def)
  show ?case
  proof (intro exI [of _ b'] conjI allI impI)
    show "update_all cm tot ((st, en, arr) # objs) b = Inr b'" using step b' by simp
  next
    fix k assume crd: "s < in_card tot k 0 \<and> in_card tot k 0 < t"
    consider "in_card tot k 0 < en" | "in_card tot k 0 = en" | "en < in_card tot k 0" by linarith
    then show "\<exists>obj \<in> set ((st, en, arr) # objs). covers obj (in_card tot k 0) \<and> b' (cm_start cm + k) = start_byte obj (in_card tot k 0)"
    proof cases
      case 1
      then show ?thesis using k(3) [of k] upd [of k] crd obj(1) by (simp add: start_byte_def del: covered_byte.simps updated.simps)
    next
      case 2
      with adjacent_first [OF obj(5)] crd obtain en' arr' where "(en, en', arr') \<in> set objs" "en < en'" by auto
      moreover have "b' (cm_start cm + k) = 0" using k(3) [of k] upd [of k] 2 obj(1,2) crd \<open>t \<le> r_end tot\<close> by (simp del: updated.simps)
      ultimately show ?thesis using 2 by (intro bexI [of _ "(en, en', arr')"]) (auto simp: start_byte_def)
    next
      case 3
      then show ?thesis using k(1) [of k] crd by auto
    qed
  next
    fix k assume "s < in_card tot k 0 \<and> in_card tot k 0 = t \<and> t < r_end tot"
    then show "b' (cm_start cm + k) = 0" using k(2,3) [of k] upd [of k] en obj(1,2) by (cases "en = t") (auto simp del: updated.simps)
  next
    fix k assume "in_card tot k 0 \<le> s \<or> t < in_card tot k 0"
    then show "b' (cm_start cm + k) = b (cm_start cm + k)" using k(3) [of k] upd [of k] en obj(1,2) by (auto simp del: updated.simps)
  qed
qed

text \<open>The entry that describes how an object covers the start of a card.\<close>

fun crossing_for :: "old_object \<Rightarrow> heap_address \<Rightarrow> crossing_entry" where
  "crossing_for (st, en, arr) crd =
     (if st = crd then FirstObject 0
      else if arr then
        if crd < st + 24 then ArrayStart (usize_as_u8 ((crd - st) div 8))
        else LeadingRefs (usize_as_u8 (min 64 ((en - crd) div 8)))
      else if crd + 512 \<le> en then NoRefs else FirstObject (usize_as_u8 ((en - crd) div 8)))"

lemma usize_as_u8_less: "n < 256 \<Longrightarrow> m < 256 \<Longrightarrow> usize_as_u8 n < usize_as_u8 m \<longleftrightarrow> n < m"
  by (simp add: usize_as_u8_def word_less_nat_alt unat_of_nat)

lemma entry_of_bytes:
  "n < 64 \<Longrightarrow> entry_of (usize_as_u8 n) = Inr (FirstObject (usize_as_u8 n))" "entry_of (usize_as_u8 64) = Inr NoRefs"
  "0 < n \<Longrightarrow> n \<le> 64 \<Longrightarrow> entry_of (usize_as_u8 (64 + n)) = Inr (LeadingRefs (usize_as_u8 n))"
  "n = 1 \<or> n = 2 \<Longrightarrow> entry_of (usize_as_u8 (128 + n)) = Inr (ArrayStart (usize_as_u8 n))"
proof -
  show "n < 64 \<Longrightarrow> entry_of (usize_as_u8 n) = Inr (FirstObject (usize_as_u8 n))"
    using usize_as_u8_less [of n 64] by (simp add: entry_of_def usize_as_u8_def)
  show "entry_of (usize_as_u8 64) = Inr NoRefs" by (simp add: entry_of_def usize_as_u8_def)
  show "entry_of (usize_as_u8 (64 + n)) = Inr (LeadingRefs (usize_as_u8 n))" if "0 < n" "n \<le> 64"
    using usize_as_u8_less [of "64 + n" 64] usize_as_u8_less [of 64 "64 + n"] usize_as_u8_less [of "64 + n" 129] usize_as_u8_less [of 128 "64 + n"] that
    by (auto simp: entry_of_def usize_as_u8_def not_less)
  show "entry_of (usize_as_u8 (128 + n)) = Inr (ArrayStart (usize_as_u8 n))" if "n = 1 \<or> n = 2"
    using that by (auto simp: entry_of_def usize_as_u8_def)
qed

lemma entry_of_start_byte:
  assumes "covers (st, en, arr) crd" "8 dvd st" "8 dvd en" "8 dvd crd"
  shows "entry_of (start_byte (st, en, arr) crd) = Inr (crossing_for (st, en, arr) crd)"
proof (cases "st = crd")
  case True
  then show ?thesis using entry_of_bytes(1) [of 0] by (simp add: start_byte_def usize_as_u8_def)
next
  case False
  obtain x y z where x: "st = 8 * x" "en = 8 * y" "crd = 8 * z" using assms(2-4) by (auto elim!: dvdE)
  have xyz: "x < z" "z < y" using assms(1) False x by auto
  have near: "8 * z < 8 * x + 24 \<Longrightarrow> z - x = 1 \<or> z - x = 2" using xyz(1) by linarith
  show ?thesis using False xyz near entry_of_bytes(1) [of "y - z"] entry_of_bytes(2) entry_of_bytes(3) [of "y - z"] entry_of_bytes(3) [of 64] entry_of_bytes(4) [of "z - x"]
    by (auto simp: start_byte_def x min_def simp flip: diff_mult_distrib2)
qed


lemma adjacent_aligned:
  "adjacent s objs t \<Longrightarrow> 8 dvd s \<Longrightarrow> (st, en, arr) \<in> set objs \<Longrightarrow> s \<le> st \<and> st < en \<and> en \<le> t \<and> 8 dvd st \<and> 8 dvd en \<and> (arr \<longrightarrow> st + 24 \<le> en)"
proof (induction s objs t rule: adjacent.induct)
  case (2 s st' en' arr' objs t)
  then show ?case using adjacent_le [of en' objs t] by fastforce
qed simp

text \<open>C10. The crossing map describes every card: when objects are allocated one after the other in the old generation,
  updating the map for each of them never panics, and the entry of every card that begins inside of the
  allocated part tells how the object covering its start continues: where the next object starts, how many
  references lead the card, that an array of references began one or two words before, or that there is nothing
  to visit.\<close>

theorem crossing_map_describes_cards:
  assumes "old_ok cm tot" "adjacent s objs t" "r_start tot \<le> s" "t \<le> r_end tot" "8 dvd s"
  shows "\<exists>b'. update_all cm tot objs b = Inr b' \<and>
    (\<forall>k crd. crd = r_start tot + k * CARD_SIZE \<longrightarrow> s < crd \<longrightarrow> crd < t \<longrightarrow>
      (\<exists>obj \<in> set objs. covers obj crd \<and> cm_get cm k b' = Inr (crossing_for obj crd)))"
proof -
  obtain b' where b': "update_all cm tot objs b = Inr b'" and bytes: "\<And>k. s < in_card tot k 0 \<and> in_card tot k 0 < t \<longrightarrow>
      (\<exists>obj \<in> set objs. covers obj (in_card tot k 0) \<and> b' (cm_start cm + k) = start_byte obj (in_card tot k 0))"
    using update_all_bytes [OF assms(1,2,3,4,5), of b] by blast
  obtain n where n: "r_end tot = in_card tot n 0" "cm_ok cm n" using old_ok_end [OF assms(1)] by blast
  have "\<exists>obj \<in> set objs. covers obj (in_card tot k 0) \<and> cm_get cm k b' = Inr (crossing_for obj (in_card tot k 0))"
    if k: "s < in_card tot k 0" "in_card tot k 0 < t" for k
  proof -
    obtain st en arr where obj: "(st, en, arr) \<in> set objs" "covers (st, en, arr) (in_card tot k 0)"
      "b' (cm_start cm + k) = start_byte (st, en, arr) (in_card tot k 0)" using bytes [of k] k by fast
    have "8 dvd st" "8 dvd en" using adjacent_aligned [OF assms(2,5) obj(1)] by auto
    moreover have "8 dvd in_card tot k 0" using assms(1) by (auto simp: old_ok_def in_card_def intro: dvd_trans [of 8 512])
    moreover have "k < n" using k(2) assms(4) n(1) by (simp add: in_card_def)
    ultimately show ?thesis using obj entry_of_start_byte cm_get_ok [OF n(2)] by metis
  qed
  then show ?thesis using b' by (auto simp: in_card_def CARD_SIZE_def mult.commute)
qed

theorem crossing_map_describes_cards_witness:
  "\<exists>b'. update_all \<lparr>cm_start = 8192, cm_end = 8200, cm_cards_in_heap = 4\<rparr> \<lparr>r_start = 1024, r_end = 3072\<rparr>
      [(1024, 1600, False), (1600, 3000, True)] (\<lambda>_. 0) = Inr b' \<and>
    cm_get \<lparr>cm_start = 8192, cm_end = 8200, cm_cards_in_heap = 4\<rparr> 2 b' = Inr (LeadingRefs 64)"
proof -
  let ?cm = "\<lparr>cm_start = 8192, cm_end = 8200, cm_cards_in_heap = 4\<rparr>" and ?tot = "\<lparr>r_start = 1024, r_end = 3072\<rparr>"
    and ?objs = "[(1024, 1600, False), (1600, 3000, True)] :: old_object list"
  have "old_ok ?cm ?tot" "adjacent 1024 ?objs 3000" by (simp_all add: old_ok_def cm_ok_def)
  from crossing_map_describes_cards [OF this, of "\<lambda>_. 0"] obtain b' where b': "update_all ?cm ?tot ?objs (\<lambda>_. 0) = Inr b'"
    and all: "\<forall>k crd. crd = r_start ?tot + k * CARD_SIZE \<longrightarrow> 1024 < crd \<longrightarrow> crd < 3000 \<longrightarrow>
      (\<exists>obj \<in> set ?objs. covers obj crd \<and> cm_get ?cm k b' = Inr (crossing_for obj crd))"
    by (auto simp del: update_all.simps covers.simps crossing_for.simps)
  from all [rule_format, of 2048 2] have "\<exists>obj \<in> set ?objs. covers obj 2048 \<and> cm_get ?cm 2 b' = Inr (crossing_for obj 2048)"
    by (simp add: CARD_SIZE_def del: covers.simps crossing_for.simps)
  then have "cm_get ?cm 2 b' = Inr (LeadingRefs 64)" by (simp add: usize_as_u8_def)
  with b' show ?thesis by blast
qed

subsection \<open>Arrays of structs\<close>

text \<open>An array of structs with references counts as an object without leading references.  A card in its middle is
  entered as having no references, although an element of the array with a reference lies in it; the write
  barrier marks the card of the element.\<close>

definition struct_array_classes :: classes where
  "struct_array_classes = (\<lambda>_. \<lparr>ci_size = StructArray 8, ci_ref_fields = [0]\<rparr>)"

definition struct_array_memory :: memory where
  "struct_array_memory = (\<lambda>a. if a = 4112 then 200 else 0)"

lemma struct_array_card_without_refs:
  "\<not> is_array_ref struct_array_classes struct_array_memory 4096"
  "obj_size struct_array_classes struct_array_memory 4096 = 1624"
  "\<exists>slots. visit_reference_fields struct_array_classes struct_array_memory 4096 = Inr slots \<and> 4640 \<in> set slots"
  "rbind (crossing_update \<lparr>cm_start = 65536, cm_end = 65544, cm_cards_in_heap = 8\<rparr> \<lparr>r_start = 4096, r_end = 8192\<rparr> 4096 5720 False (\<lambda>_. 0))
     (cm_get \<lparr>cm_start = 65536, cm_end = 65544, cm_cards_in_heap = 8\<rparr> 1) = Inr NoRefs"
proof -
  show "\<not> is_array_ref struct_array_classes struct_array_memory 4096" by (simp add: is_array_ref_def struct_array_classes_def)
  show "obj_size struct_array_classes struct_array_memory 4096 = 1624"
    by (simp add: obj_size_def size_for_vtblptr_def vt_instance_size_def vt_element_size_def struct_array_classes_def struct_array_memory_def
        determine_array_size_def array_len_def header_size_def ptr_width_usize_def)
  have "(65 :: nat) \<in> set [0..<200]" by simp
  then show "\<exists>slots. visit_reference_fields struct_array_classes struct_array_memory 4096 = Inr slots \<and> 4640 \<in> set slots"
    by (force simp: visit_reference_fields_def visit_refs_def visit_struct_array_refs_def struct_array_classes_def struct_array_memory_def
        array_data_def array_len_def array_header_size_def header_size_def ptr_width_usize_def Let_def)
  have ok: "old_ok \<lparr>cm_start = 65536, cm_end = 65544, cm_cards_in_heap = 8\<rparr> \<lparr>r_start = 4096, r_end = 8192\<rparr>" by (simp add: old_ok_def cm_ok_def)
  show "rbind (crossing_update \<lparr>cm_start = 65536, cm_end = 65544, cm_cards_in_heap = 8\<rparr> \<lparr>r_start = 4096, r_end = 8192\<rparr> 4096 5720 False (\<lambda>_. 0))
     (cm_get \<lparr>cm_start = 65536, cm_end = 65544, cm_cards_in_heap = 8\<rparr> 1) = Inr NoRefs"
    by (subst crossing_update_ok [OF ok])
      (simp_all add: cm_get_def cm_index_from_card_idx_def offset_def checked_add_def Let_def usize_as_u8_def)
qed

end
