(* ===== verification/OldGen.thy ===== *)
theory OldGen
  imports CardTables
begin

text \<open>
  The old generation of the generational collector (\<open>dora/src/gc/swiper/old.rs\<close>) and the part of the heap
  configuration it asks for growth (\<open>controller.rs\<close>).  What is committed and given back to the operating
  system is recorded as a list of calls, in order; the calls themselves succeed.
\<close>

datatype os_call = CommitAt heap_address usize | Discard heap_address usize

type_synonym os_log = "os_call list"

subsection \<open>The heap configuration\<close>

record heap_config =
  hc_max_heap_size :: usize
  hc_old_size :: usize
  hc_old_limit :: usize

definition grow_old :: "usize \<Rightarrow> heap_config \<Rightarrow> (bool \<times> heap_config) result" where
  "grow_old sz config =
     rbind (checked_add (hc_old_size config) sz) (\<lambda>new.
     if new \<le> hc_old_limit config then Inr (True, config\<lparr>hc_old_size := new\<rparr>) else Inr (False, config))"

subsection \<open>Regions\<close>

record old_region =
  or_total :: region
  or_total_mapping :: region
  or_top :: heap_address
  or_mapping_top :: heap_address

definition old_region_single :: "nat \<Rightarrow> region \<Rightarrow> old_region result" where
  "old_region_single page_bits r =
     rbind (rassert (is_page_aligned page_bits (r_start r))) (\<lambda>_.
     Inr \<lparr>or_total = r, or_total_mapping = r, or_top = r_start r, or_mapping_top = r_start r\<rparr>)"

definition old_region_new :: "region \<Rightarrow> heap_address \<Rightarrow> region \<Rightarrow> heap_address \<Rightarrow> old_region result" where
  "old_region_new r t mapping mapping_top =
     rbind (rassert (valid_top r t)) (\<lambda>_.
     rbind (rassert (valid_top mapping mapping_top)) (\<lambda>_.
     Inr \<lparr>or_total = r, or_total_mapping = mapping, or_top = t, or_mapping_top = mapping_top\<rparr>))"

definition mapping_start :: "old_region \<Rightarrow> heap_address" where
  "mapping_start r = r_start (or_total_mapping r)"

definition mapping_end :: "old_region \<Rightarrow> heap_address" where
  "mapping_end r = or_mapping_top r"

definition committed_region :: "old_region \<Rightarrow> region result" where
  "committed_region r = region_new (mapping_start r) (mapping_end r)"

definition or_active_size :: "old_region \<Rightarrow> usize result" where
  "or_active_size r = offset_from (or_top r) (r_start (or_total r))"

definition or_active_region :: "old_region \<Rightarrow> region result" where
  "or_active_region r = region_new (r_start (or_total r)) (or_top r)"

definition or_pure_alloc :: "usize \<Rightarrow> old_region \<Rightarrow> (heap_address option \<times> old_region) result" where
  "or_pure_alloc sz r =
     rbind (offset (or_top r) sz) (\<lambda>new_top.
     rbind (rassert (or_top r \<le> or_mapping_top r)) (\<lambda>_.
     rbind (rassert (or_top r \<le> r_end (or_total r))) (\<lambda>_.
     if new_top \<le> min (or_mapping_top r) (r_end (or_total r))
     then Inr (Some (or_top r), r\<lparr>or_top := new_top\<rparr>)
     else Inr (None, r))))"

definition or_extend :: "usize \<Rightarrow> old_region \<Rightarrow> os_log \<Rightarrow> (bool \<times> old_region \<times> os_log) result" where
  "or_extend sz r os =
     rbind (offset (or_mapping_top r) sz) (\<lambda>new_mapping_top.
     if new_mapping_top \<le> r_end (or_total_mapping r)
     then Inr (True, r\<lparr>or_mapping_top := new_mapping_top\<rparr>, os @ [CommitAt (or_mapping_top r) sz])
     else Inr (False, r, os))"

subsection \<open>The old generation\<close>

record old_gen =
  og_total :: region
  og_size :: usize
  og_regions :: "old_region list"
  og_alloc_region :: usize

definition old_gen_new :: "nat \<Rightarrow> region \<Rightarrow> old_gen result" where
  "old_gen_new page_bits r =
     rbind (old_region_single page_bits r) (\<lambda>single.
     Inr \<lparr>og_total = r, og_size = 0, og_regions = [single], og_alloc_region = 0\<rparr>)"

definition contains_slow :: "old_gen \<Rightarrow> heap_address \<Rightarrow> bool" where
  "contains_slow og addr = list_ex (\<lambda>r. r_start (or_total r) \<le> addr \<and> addr < or_top r) (og_regions og)"

fun sum_sizes :: "('a \<Rightarrow> usize result) \<Rightarrow> 'a list \<Rightarrow> usize \<Rightarrow> usize result" where
  "sum_sizes f [] n = Inr n"
| "sum_sizes f (r # rs) n = rbind (f r) (\<lambda>k. rbind (checked_add n k) (sum_sizes f rs))"

definition og_active_size :: "old_gen \<Rightarrow> usize result" where
  "og_active_size og = sum_sizes or_active_size (og_regions og) 0"

text \<open>The first region of a list that can serve a request, with its index.\<close>

fun first_alloc :: "usize \<Rightarrow> usize \<Rightarrow> old_region list \<Rightarrow> (usize \<times> heap_address \<times> old_region) option result" where
  "first_alloc sz idx [] = Inr None"
| "first_alloc sz idx (r # rs) =
     rbind (or_pure_alloc sz r) (\<lambda>(res, r').
     case res of Some addr \<Rightarrow> Inr (Some (idx, addr, r')) | None \<Rightarrow> first_alloc sz (idx + 1) rs)"

definition og_pure_alloc :: "usize \<Rightarrow> old_gen \<Rightarrow> (heap_address \<times> old_gen) result" where
  "og_pure_alloc sz og =
     rbind (vec_get (og_regions og) (og_alloc_region og)) (\<lambda>r.
     rbind (or_pure_alloc sz r) (\<lambda>(res, r').
     case res of
       Some addr \<Rightarrow> Inr (addr, og\<lparr>og_regions := (og_regions og)[og_alloc_region og := r']\<rparr>)
     | None \<Rightarrow>
         rbind (first_alloc sz 0 (og_regions og)) (\<lambda>found.
         case found of
           Some (idx, addr, r') \<Rightarrow> Inr (addr, og\<lparr>og_regions := (og_regions og)[idx := r'], og_alloc_region := idx\<rparr>)
         | None \<Rightarrow> Inr (addr_null, og))))"

fun first_extend :: "usize \<Rightarrow> usize \<Rightarrow> old_region list \<Rightarrow> os_log \<Rightarrow> ((usize \<times> old_region) option \<times> os_log) result" where
  "first_extend sz idx [] os = Inr (None, os)"
| "first_extend sz idx (r # rs) os =
     rbind (or_extend sz r os) (\<lambda>(ok, r', os).
     if ok then Inr (Some (idx, r'), os) else first_extend sz (idx + 1) rs os)"

definition og_extend :: "usize \<Rightarrow> old_gen \<Rightarrow> os_log \<Rightarrow> (bool \<times> old_gen \<times> os_log) result" where
  "og_extend sz og os =
     rbind (vec_get (og_regions og) (og_alloc_region og)) (\<lambda>r.
     rbind (or_extend sz r os) (\<lambda>(ok, r', os).
     if ok then rbind (checked_add (og_size og) sz) (\<lambda>n.
       Inr (True, og\<lparr>og_regions := (og_regions og)[og_alloc_region og := r'], og_size := n\<rparr>, os))
     else rbind (first_extend sz 0 (og_regions og) os) (\<lambda>(found, os).
       case found of
         Some (idx, r') \<Rightarrow> rbind (checked_add (og_size og) sz) (\<lambda>n.
           Inr (True, og\<lparr>og_regions := (og_regions og)[idx := r'], og_size := n, og_alloc_region := idx\<rparr>, os))
       | None \<Rightarrow> Inr (False, og, os))))"

definition og_alloc :: "usize \<Rightarrow> heap_config \<Rightarrow> old_gen \<Rightarrow> os_log \<Rightarrow> (heap_address \<times> heap_config \<times> old_gen \<times> os_log) result" where
  "og_alloc sz config og os =
     rbind (og_pure_alloc sz og) (\<lambda>(ptr, og).
     if ptr \<noteq> addr_null then Inr (ptr, config, og, os)
     else rbind (grow_old GEN_SIZE config) (\<lambda>(grown, config).
     if \<not> grown then Inr (addr_null, config, og, os)
     else rbind (og_extend GEN_SIZE og os) (\<lambda>(extended, og, os).
     if \<not> extended then Inr (addr_null, config, og, os)
     else rbind (og_pure_alloc sz og) (\<lambda>(ptr, og). Inr (ptr, config, og, os)))))"

subsection \<open>Committing and discarding\<close>

fun commit_single_loop :: "heap_address \<Rightarrow> old_region list \<Rightarrow> heap_address \<Rightarrow> os_log \<Rightarrow> os_log" where
  "commit_single_loop limit [] last_mapped os =
     (if last_mapped < limit then os @ [CommitAt last_mapped (limit - last_mapped)] else os)"
| "commit_single_loop limit (r # rs) last_mapped os =
     (let fin = min (mapping_start r) limit;
          os = (if last_mapped < fin then os @ [CommitAt last_mapped (fin - last_mapped)] else os) in
      if fin = limit then os else commit_single_loop limit rs (mapping_end r) os)"

definition commit_single_region :: "heap_address \<Rightarrow> old_gen \<Rightarrow> os_log \<Rightarrow> os_log result" where
  "commit_single_region t og os =
     rbind (align_gen t) (\<lambda>limit.
     rbind (rassert (valid_top (og_total og) limit)) (\<lambda>_.
     Inr (commit_single_loop limit (og_regions og) (r_start (og_total og)) os)))"

text \<open>\<open>commit_regions\<close> and \<open>update_regions\<close> walk two lists of regions in step.  The inner loop skips the
  regions before \<open>start\<close>, stops at the first behind \<open>fin\<close> and makes a call for what lies before an overlap.\<close>

function overlap_loop ::
  "(heap_address \<Rightarrow> usize \<Rightarrow> os_call) \<Rightarrow> (heap_address \<times> heap_address) list \<Rightarrow> usize \<Rightarrow> heap_address \<Rightarrow> heap_address \<Rightarrow> os_log
     \<Rightarrow> usize \<times> heap_address \<times> os_log" where
  "overlap_loop call others idx start fin os =
     (if idx < length others \<and> start < fin then
        if fin \<le> fst (others ! idx) then (idx, start, os)
        else if snd (others ! idx) \<le> start then overlap_loop call others (idx + 1) start fin os
        else overlap_loop call others (idx + 1) (snd (others ! idx)) fin
               (if start < fst (others ! idx) then os @ [call start (fst (others ! idx) - start)] else os)
      else (idx, start, os))"
  by pat_completeness auto
termination by (relation "measure (\<lambda>(call, others, idx, start, fin, os). length others - idx)") auto

declare overlap_loop.simps [simp del]

fun regions_loop ::
  "(heap_address \<Rightarrow> usize \<Rightarrow> os_call) \<Rightarrow> (heap_address \<times> heap_address) list \<Rightarrow> usize \<Rightarrow> heap_address \<Rightarrow> (heap_address \<times> heap_address) list \<Rightarrow> os_log
     \<Rightarrow> os_log" where
  "regions_loop call others idx start [] os = os"
| "regions_loop call others idx start ((s, fin) # rs) os =
     (case overlap_loop call others idx (max s start) fin os of (idx, start, os) \<Rightarrow>
      regions_loop call others idx start rs (if start < fin then os @ [call start (fin - start)] else os))"

definition mappings :: "old_region list \<Rightarrow> (heap_address \<times> heap_address) list" where
  "mappings rs = map (\<lambda>r. (mapping_start r, mapping_end r)) rs"

definition commit_regions :: "region list \<Rightarrow> old_gen \<Rightarrow> os_log \<Rightarrow> os_log" where
  "commit_regions new_regions og os =
     regions_loop CommitAt (mappings (og_regions og)) 0 (r_start (og_total og)) (map (\<lambda>r. (r_start r, r_end r)) new_regions) os"

definition update_regions :: "old_region list \<Rightarrow> old_gen \<Rightarrow> os_log \<Rightarrow> (old_gen \<times> os_log) result" where
  "update_regions new_regions og os =
     (let os = regions_loop Discard (mappings new_regions) 0 (r_start (og_total og)) (mappings (og_regions og)) os in
      rbind (sum_sizes (\<lambda>r. rbind (committed_region r) r_size) new_regions 0) (\<lambda>n.
      Inr (og\<lparr>og_regions := new_regions, og_size := n, og_alloc_region := 0\<rparr>, os)))"

fun discard_above :: "heap_address \<Rightarrow> old_region list \<Rightarrow> os_log \<Rightarrow> os_log result" where
  "discard_above limit [] os = Inr os"
| "discard_above limit (r # rs) os =
     (if mapping_end r \<le> limit then discard_above limit rs os
      else let start = max (mapping_start r) limit in
        rbind (offset_from (mapping_end r) start) (\<lambda>n.
        discard_above limit rs (if 0 < n then os @ [Discard start n] else os)))"

definition update_single_region :: "heap_address \<Rightarrow> old_gen \<Rightarrow> os_log \<Rightarrow> (old_gen \<times> os_log) result" where
  "update_single_region t og os =
     rbind (align_gen t) (\<lambda>limit.
     rbind (rassert (valid_top (og_total og) limit)) (\<lambda>_.
     let region = \<lparr>or_total = og_total og, or_total_mapping = og_total og, or_top = t, or_mapping_top = limit\<rparr> in
     rbind (discard_above limit (og_regions og) os) (\<lambda>os.
     rbind (offset_from limit (r_start (og_total og))) (\<lambda>n.
     Inr (og\<lparr>og_regions := [region], og_size := n, og_alloc_region := 0\<rparr>, os)))))"

end
