(* ===== verification/OldGenTheorems.thy ===== *)
theory OldGenTheorems
  imports OldGen
begin

text \<open>
  What the old generation guarantees: walking two ascending lists of regions in step computes their
  difference exactly, and allocation adds a fresh block to what the generation contains.
\<close>

subsection \<open>Differences of regions\<close>

fun call_span :: "os_call \<Rightarrow> heap_address \<times> heap_address" where
  "call_span (CommitAt a n) = (a, a + n)"
| "call_span (Discard a n) = (a, a + n)"

definition bytes_in :: "(heap_address \<times> heap_address) list \<Rightarrow> heap_address set" where
  "bytes_in rs = (\<Union>(s, e) \<in> set rs. {s..<e})"

text \<open>Regions in ascending order from \<open>lo\<close> on, without overlap.\<close>

fun ascending :: "heap_address \<Rightarrow> (heap_address \<times> heap_address) list \<Rightarrow> bool" where
  "ascending lo [] \<longleftrightarrow> True"
| "ascending lo ((s, e) # rs) \<longleftrightarrow> lo \<le> s \<and> s \<le> e \<and> ascending e rs"

lemma bytes_in_simps [simp]: "bytes_in [] = {}" "bytes_in ((s, e) # rs) = {s..<e} \<union> bytes_in rs" "bytes_in (rs @ ss) = bytes_in rs \<union> bytes_in ss"
  by (auto simp: bytes_in_def)

lemma ascending_le: "ascending lo rs \<Longrightarrow> lo' \<le> lo \<Longrightarrow> ascending lo' rs"
  by (cases rs) auto

lemma ascending_above: "ascending lo rs \<Longrightarrow> (s, e) \<in> set rs \<Longrightarrow> lo \<le> s"
proof (induction lo rs rule: ascending.induct)
  case (2 lo s' e' rs)
  then show ?case by auto
qed simp

lemma ascending_bytes: "ascending lo rs \<Longrightarrow> a \<in> bytes_in rs \<Longrightarrow> lo \<le> a"
  using ascending_above by (fastforce simp: bytes_in_def)

lemma ascending_nth: "ascending lo rs \<Longrightarrow> i < length rs \<Longrightarrow> ascending (fst (rs ! i)) (drop i rs) \<and> fst (rs ! i) \<le> snd (rs ! i) \<and> ascending (snd (rs ! i)) (drop (i + 1) rs)"
proof (induction lo rs arbitrary: i rule: ascending.induct)
  case (2 lo s e rs)
  then show ?case by (cases i) auto
qed simp

text \<open>The regions before \<open>idx\<close> lie below \<open>start\<close>.\<close>

definition passed :: "(heap_address \<times> heap_address) list \<Rightarrow> usize \<Rightarrow> heap_address \<Rightarrow> bool" where
  "passed others idx start \<longleftrightarrow> (\<forall>(s, e) \<in> set (take idx others). e \<le> start)"

lemma passed_Suc: "idx < length others \<Longrightarrow> passed others (idx + 1) start \<longleftrightarrow> passed others idx start \<and> snd (others ! idx) \<le> start"
  by (auto simp: passed_def take_Suc_conv_app_nth split: prod.splits)

lemma passed_mono: "passed others idx start \<Longrightarrow> start \<le> start' \<Longrightarrow> passed others idx start'"
  by (fastforce simp: passed_def)

lemma passed_bytes: "passed others idx start \<Longrightarrow> start \<le> a \<Longrightarrow> a \<in> bytes_in others \<longleftrightarrow> a \<in> bytes_in (drop idx others)"
proof -
  assume p: "passed others idx start" "start \<le> a"
  have "a \<notin> bytes_in (take idx others)" using p by (fastforce simp: passed_def bytes_in_def)
  then show ?thesis using bytes_in_simps(3) [of "take idx others" "drop idx others"] by simp
qed

definition calls_ok :: "(heap_address \<Rightarrow> usize \<Rightarrow> os_call) \<Rightarrow> bool" where
  "calls_ok call \<longleftrightarrow> (\<forall>a n. call_span (call a n) = (a, a + n))"

lemma overlap_loop_spec:
  shows "calls_ok call \<Longrightarrow> ascending lo others \<Longrightarrow> passed others idx start \<Longrightarrow> overlap_loop call others idx start fin os = (idx', start', os') \<Longrightarrow>
    start \<le> start' \<and> passed others idx' start' \<and> (\<forall>a. max fin start \<le> a \<and> a < start' \<longrightarrow> a \<in> bytes_in others)
    \<and> (\<exists>extra. os' = os @ extra \<and> bytes_in (map call_span extra) \<union> {start'..<fin} = {start..<fin} - bytes_in others
        \<and> ascending start (map call_span extra) \<and> (\<forall>(s, e) \<in> set (map call_span extra). e \<le> start') \<and> (\<forall>c \<in> set extra. \<exists>a n. c = call a n))"
proof (induction call others idx start fin os rule: overlap_loop.induct)
  case (1 call others idx start fin os)
  let ?ms = "fst (others ! idx)" and ?me = "snd (others ! idx)"
  note pass = "1.prems"(3)
  have run: "overlap_loop call others idx start fin os = (idx', start', os')" by (rule "1.prems"(4))
  show ?case
  proof (cases "idx < length others \<and> start < fin")
    case False
    then have "(idx', start', os') = (idx, start, os)" using run by (subst (asm) overlap_loop.simps) auto
    moreover have "{start..<fin} \<inter> bytes_in others = {}" using False passed_bytes [OF pass] by auto
    ultimately show ?thesis using pass by auto
  next
    case True
    then have nth: "ascending ?ms (drop idx others)" "?ms \<le> ?me" "ascending ?me (drop (idx + 1) others)"
      using ascending_nth [OF "1.prems"(2), of idx] by auto
    have other: "{?ms..<?me} \<subseteq> bytes_in others" using True nth_mem [of idx others] unfolding bytes_in_def by (metis (no_types, lifting) UN_upper case_prod_unfold)
    have below: "a \<notin> bytes_in others" if "start \<le> a" "a < ?ms" for a
      using passed_bytes [OF pass that(1)] ascending_bytes [OF nth(1), of a] that(2) by auto
    consider (behind) "fin \<le> ?ms" | (before) "?ms < fin" "?me \<le> start" | (overlap) "?ms < fin" "start < ?me" by linarith
    then show ?thesis
    proof cases
      case behind
      then have "(idx', start', os') = (idx, start, os)" using True run by (subst (asm) overlap_loop.simps) auto
      moreover have "{start..<fin} \<inter> bytes_in others = {}" using below behind by auto
      ultimately show ?thesis using pass by auto
    next
      case before
      then have "overlap_loop call others (idx + 1) start fin os = (idx', start', os')" using True run by (subst (asm) overlap_loop.simps) auto
      moreover have "passed others (idx + 1) start" using pass before True by (simp add: passed_Suc del: add_Suc_right One_nat_def)
      ultimately show ?thesis using "1.IH"(1) True before "1.prems"(1,2) by simp
    next
      case overlap
      let ?os = "if start < ?ms then os @ [call start (?ms - start)] else os"
      have run2: "overlap_loop call others (idx + 1) ?me fin ?os = (idx', start', os')" using True run overlap by (subst (asm) overlap_loop.simps) auto
      have "passed others (idx + 1) ?me" using passed_mono [OF pass, of ?me] overlap True by (simp add: passed_Suc del: add_Suc_right One_nat_def)
      with "1.IH"(2) [of] True overlap "1.prems"(1,2) run2 have ih: "?me \<le> start'" "passed others idx' start'"
        "\<forall>a. max fin ?me \<le> a \<and> a < start' \<longrightarrow> a \<in> bytes_in others"
        "\<exists>extra. os' = ?os @ extra \<and> bytes_in (map call_span extra) \<union> {start'..<fin} = {?me..<fin} - bytes_in others
          \<and> ascending ?me (map call_span extra) \<and> (\<forall>(s, e) \<in> set (map call_span extra). e \<le> start') \<and> (\<forall>c \<in> set extra. \<exists>a n. c = call a n)" by auto
      then obtain extra where extra: "os' = ?os @ extra" "bytes_in (map call_span extra) \<union> {start'..<fin} = {?me..<fin} - bytes_in others"
        "ascending ?me (map call_span extra)" "\<forall>(s, e) \<in> set (map call_span extra). e \<le> start'" "\<forall>c \<in> set extra. \<exists>a n. c = call a n" by blast
      define gap where "gap = (if start < ?ms then [call start (?ms - start)] else [])"
      have span: "map call_span gap = (if start < ?ms then [(start, ?ms)] else [])" using "1.prems"(1) by (simp add: gap_def calls_ok_def)
      have gap: "bytes_in (map call_span gap) = {start..<?ms}" by (simp add: span)
      have "{start..<fin} - bytes_in others = {start..<?ms} \<union> ({?me..<fin} - bytes_in others)"
        using below other overlap nth(2) by (auto simp: not_le) (meson atLeastLessThan_iff not_le subsetD)+
      then have bytes: "bytes_in (map call_span (gap @ extra)) \<union> {start'..<fin} = {start..<fin} - bytes_in others"
        using gap extra(2) by auto
      have asc: "ascending start (map call_span (gap @ extra))" using extra(3) span overlap nth(2) by (auto intro: ascending_le)
      have less: "\<forall>(s, e) \<in> set (map call_span (gap @ extra)). e \<le> start'"
        using extra(4) ih(1) nth(2) unfolding map_append set_append span by (auto split: if_splits)
      have kind: "\<forall>c \<in> set (gap @ extra). \<exists>a n. c = call a n" using extra(5) by (auto simp: gap_def)
      have over: "a \<in> bytes_in others" if "max fin start \<le> a" "a < start'" for a
      proof (cases "a < ?me")
        case True
        then show ?thesis using other that(1) overlap by auto
      qed (use ih(3) that in auto)
      have "os' = os @ gap @ extra" using extra(1) by (simp add: gap_def)
      then show ?thesis using bytes asc less kind over ih(1,2) overlap by (intro conjI exI [of _ "gap @ extra"] allI impI) auto
    qed
  qed
qed


lemma ascending_append: "ascending lo xs \<Longrightarrow> \<forall>(s, e) \<in> set xs. e \<le> m \<Longrightarrow> lo \<le> m \<Longrightarrow> ascending m ys \<Longrightarrow> ascending lo (xs @ ys)"
proof (induction lo xs rule: ascending.induct)
  case (1 lo)
  then show ?case by (simp add: ascending_le)
qed auto

lemma regions_loop_spec:
  "calls_ok call \<Longrightarrow> ascending lo0 others \<Longrightarrow> passed others idx start \<Longrightarrow> ascending lo rs \<Longrightarrow> \<forall>a. lo \<le> a \<and> a < start \<longrightarrow> a \<in> bytes_in others \<Longrightarrow>
    \<exists>extra. regions_loop call others idx start rs os = os @ extra \<and> bytes_in (map call_span extra) = bytes_in rs - bytes_in others
      \<and> ascending (max lo start) (map call_span extra) \<and> (\<forall>c \<in> set extra. \<exists>a n. c = call a n)"
proof (induction call others idx start rs os arbitrary: lo rule: regions_loop.induct)
  case (1 call others idx start os)
  then show ?case by simp
next
  case (2 call others idx start s fin rs os)
  obtain idx' start' os' where run: "overlap_loop call others idx (max s start) fin os = (idx', start', os')" by (metis prod_cases3)
  have asc: "lo \<le> s" "s \<le> fin" "ascending fin rs" using "2.prems"(4) by auto
  from overlap_loop_spec [OF "2.prems"(1,2) passed_mono [OF "2.prems"(3)] run]
  obtain extra where o: "max s start \<le> start'" "passed others idx' start'" "\<forall>a. max fin (max s start) \<le> a \<and> a < start' \<longrightarrow> a \<in> bytes_in others"
    "os' = os @ extra" "bytes_in (map call_span extra) \<union> {start'..<fin} = {max s start..<fin} - bytes_in others"
    "ascending (max s start) (map call_span extra)" "\<forall>(s, e) \<in> set (map call_span extra). e \<le> start'" "\<forall>c \<in> set extra. \<exists>a n. c = call a n" by auto
  let ?last = "if start' < fin then [call start' (fin - start')] else []"
  have below: "\<forall>a. fin \<le> a \<and> a < start' \<longrightarrow> a \<in> bytes_in others" 
  proof (intro allI impI)
    fix a assume a: "fin \<le> a \<and> a < start'"
    show "a \<in> bytes_in others"
    proof (cases "a < start")
      case True
      then show ?thesis using "2.prems"(5) a asc(1,2) by auto
    next
      case False
      then show ?thesis using o(3) a asc(2) by auto
    qed
  qed
  from "2.IH" [OF run [symmetric] refl "2.prems"(1,2) o(2) asc(3) below] obtain extra2 where
    e2: "regions_loop call others idx' start' rs (if start' < fin then os' @ [call start' (fin - start')] else os')
        = (if start' < fin then os' @ [call start' (fin - start')] else os') @ extra2"
      "bytes_in (map call_span extra2) = bytes_in rs - bytes_in others" "ascending (max fin start') (map call_span extra2)" "\<forall>c \<in> set extra2. \<exists>a n. c = call a n" by blast
  have last: "map call_span ?last = (if start' < fin then [(start', fin)] else [])" using "2.prems"(1) by (simp add: calls_ok_def)
  have head: "{s..<fin} - bytes_in others = {max s start..<fin} - bytes_in others" using "2.prems"(5) asc(1) by (auto simp: max_def) (meson le_trans not_le)
  show ?case
  proof (intro exI [of _ "extra @ ?last @ extra2"] conjI)
    show "regions_loop call others idx start ((s, fin) # rs) os = os @ extra @ ?last @ extra2"
      using run e2(1) o(4) by (cases "start' < fin") simp_all
    show "bytes_in (map call_span (extra @ ?last @ extra2)) = bytes_in ((s, fin) # rs) - bytes_in others"
    proof -
      have "bytes_in (map call_span ?last) = {start'..<fin}" unfolding last by simp
      then show ?thesis using o(5) e2(2) head unfolding map_append bytes_in_simps by blast
    qed
    have "ascending start' (map call_span (?last @ extra2))" unfolding map_append last using e2(3) by (auto simp: max_def split: if_splits)
    then have "ascending (max s start) (map call_span (extra @ ?last @ extra2))"
      using ascending_append [OF o(6,7,1)] unfolding map_append by blast
    then show "ascending (max lo start) (map call_span (extra @ ?last @ extra2))" by (rule ascending_le) (use asc(1) in auto)
    show "\<forall>c \<in> set (extra @ ?last @ extra2). \<exists>a n. c = call a n" using o(8) e2(4) by auto
  qed
qed


subsection \<open>Allocation\<close>

definition region_ok :: "old_region \<Rightarrow> bool" where
  "region_ok r \<longleftrightarrow> r_start (or_total_mapping r) \<le> r_start (or_total r) \<and> r_start (or_total r) \<le> or_top r \<and> or_top r \<le> or_mapping_top r
     \<and> or_top r \<le> r_end (or_total r) \<and> or_mapping_top r \<le> r_end (or_total_mapping r)"

definition fits :: "usize \<Rightarrow> old_region \<Rightarrow> bool" where
  "fits sz r \<longleftrightarrow> or_top r + sz \<le> min (or_mapping_top r) (r_end (or_total r))"

lemma or_pure_alloc_ok:
  "region_ok r \<Longrightarrow> or_top r + sz < 2 ^ 64 \<Longrightarrow>
    or_pure_alloc sz r = Inr (if fits sz r then (Some (or_top r), r\<lparr>or_top := or_top r + sz\<rparr>) else (None, r))"
  by (simp add: or_pure_alloc_def region_ok_def fits_def offset_def checked_add_def)

lemma first_alloc_ok:
  "\<forall>r \<in> set rs. region_ok r \<and> or_top r + sz < 2 ^ 64 \<Longrightarrow>
    first_alloc sz i rs = Inr None \<and> (\<forall>r \<in> set rs. \<not> fits sz r)
    \<or> (\<exists>j < length rs. fits sz (rs ! j) \<and> first_alloc sz i rs = Inr (Some (i + j, or_top (rs ! j), (rs ! j)\<lparr>or_top := or_top (rs ! j) + sz\<rparr>)))"
proof (induction rs arbitrary: i)
  case (Cons r rs)
  then have alloc: "or_pure_alloc sz r = Inr (if fits sz r then (Some (or_top r), r\<lparr>or_top := or_top r + sz\<rparr>) else (None, r))"
    by (intro or_pure_alloc_ok) auto
  show ?case
  proof (cases "fits sz r")
    case True
    then show ?thesis using alloc by (intro disjI2 exI [of _ 0]) simp
  next
    case False
    then have "first_alloc sz i (r # rs) = first_alloc sz (i + 1) rs" using alloc by simp
    then show ?thesis using Cons.IH [of "i + 1"] Cons.prems False by (auto intro: exI [of _ "Suc j" for j])
  qed
qed simp

definition bump_region :: "usize \<Rightarrow> usize \<Rightarrow> old_gen \<Rightarrow> old_gen" where
  "bump_region sz i og = og\<lparr>og_regions := (og_regions og)[i := (og_regions og ! i)\<lparr>or_top := or_top (og_regions og ! i) + sz\<rparr>], og_alloc_region := i\<rparr>"

definition og_ok :: "old_gen \<Rightarrow> bool" where
  "og_ok og \<longleftrightarrow> og_alloc_region og < length (og_regions og) \<and> 0 < r_start (og_total og)
     \<and> (\<forall>r \<in> set (og_regions og). region_ok r \<and> r_end (or_total r) \<le> r_end (og_total og) \<and> r_end (or_total_mapping r) \<le> r_end (og_total og))
     \<and> ascending (r_start (og_total og)) (map (\<lambda>r. (r_start (or_total r), r_end (or_total r))) (og_regions og))
     \<and> og_size og = sum_list (map (\<lambda>r. mapping_end r - mapping_start r) (og_regions og))"

lemma og_pure_alloc_ok:
  assumes "og_ok og" "r_end (og_total og) + sz < 2 ^ 64"
  shows "og_pure_alloc sz og = Inr (addr_null, og) \<and> (\<forall>r \<in> set (og_regions og). \<not> fits sz r)
    \<or> (\<exists>i < length (og_regions og). fits sz (og_regions og ! i) \<and> og_pure_alloc sz og = Inr (or_top (og_regions og ! i), bump_region sz i og))"
proof -
  let ?i = "og_alloc_region og"
  have i: "?i < length (og_regions og)" using assms(1) by (simp add: og_ok_def)
  have all: "\<forall>r \<in> set (og_regions og). region_ok r \<and> or_top r + sz < 2 ^ 64"
    using assms by (fastforce simp: og_ok_def region_ok_def)
  have alloc: "or_pure_alloc sz (og_regions og ! ?i)
      = Inr (if fits sz (og_regions og ! ?i) then (Some (or_top (og_regions og ! ?i)), (og_regions og ! ?i)\<lparr>or_top := or_top (og_regions og ! ?i) + sz\<rparr>)
             else (None, og_regions og ! ?i))"
    using all i by (intro or_pure_alloc_ok) simp_all
  show ?thesis
  proof (cases "fits sz (og_regions og ! ?i)")
    case True
    then show ?thesis using i alloc by (intro disjI2 exI [of _ ?i]) (simp add: og_pure_alloc_def bump_region_def)
  next
    case False
    then show ?thesis using first_alloc_ok [OF all, of 0] i alloc by (auto simp: og_pure_alloc_def bump_region_def)
  qed
qed


lemma or_extend_ok:
  "or_mapping_top r + sz < 2 ^ 64 \<Longrightarrow> or_extend sz r os = Inr (if or_mapping_top r + sz \<le> r_end (or_total_mapping r)
     then (True, r\<lparr>or_mapping_top := or_mapping_top r + sz\<rparr>, os @ [CommitAt (or_mapping_top r) sz]) else (False, r, os))"
  by (simp add: or_extend_def offset_def checked_add_def)

definition extend_region :: "usize \<Rightarrow> usize \<Rightarrow> old_gen \<Rightarrow> old_gen" where
  "extend_region sz i og = og\<lparr>og_regions := (og_regions og)[i := (og_regions og ! i)\<lparr>or_mapping_top := or_mapping_top (og_regions og ! i) + sz\<rparr>],
     og_size := og_size og + sz, og_alloc_region := i\<rparr>"

definition extendable :: "usize \<Rightarrow> old_region \<Rightarrow> bool" where
  "extendable sz r \<longleftrightarrow> or_mapping_top r + sz \<le> r_end (or_total_mapping r)"

lemma first_extend_ok:
  "\<forall>r \<in> set rs. or_mapping_top r + sz < 2 ^ 64 \<Longrightarrow>
    first_extend sz i rs os = Inr (None, os) \<and> (\<forall>r \<in> set rs. \<not> extendable sz r)
    \<or> (\<exists>j < length rs. extendable sz (rs ! j) \<and> first_extend sz i rs os =
          Inr (Some (i + j, (rs ! j)\<lparr>or_mapping_top := or_mapping_top (rs ! j) + sz\<rparr>), os @ [CommitAt (or_mapping_top (rs ! j)) sz]))"
proof (induction rs arbitrary: i)
  case (Cons r rs)
  note ext = or_extend_ok [of r sz os]
  show ?case
  proof (cases "extendable sz r")
    case True
    then show ?thesis using ext Cons.prems by (intro disjI2 exI [of _ 0]) (simp add: extendable_def)
  next
    case False
    then have "first_extend sz i (r # rs) os = first_extend sz (i + 1) rs os" using ext Cons.prems by (simp add: extendable_def)
    then show ?thesis using Cons.IH [of "i + 1"] Cons.prems False by (auto intro: exI [of _ "Suc j" for j])
  qed
qed simp

lemma og_extend_ok:
  assumes "og_ok og" "r_end (og_total og) + sz < 2 ^ 64" "og_size og + sz < 2 ^ 64"
  shows "og_extend sz og os = Inr (False, og, os) \<and> (\<forall>r \<in> set (og_regions og). \<not> extendable sz r)
    \<or> (\<exists>i < length (og_regions og). extendable sz (og_regions og ! i)
        \<and> og_extend sz og os = Inr (True, extend_region sz i og, os @ [CommitAt (or_mapping_top (og_regions og ! i)) sz]))"
proof -
  let ?i = "og_alloc_region og"
  have i: "?i < length (og_regions og)" using assms(1) by (simp add: og_ok_def)
  have all: "\<forall>r \<in> set (og_regions og). or_mapping_top r + sz < 2 ^ 64"
    using assms(1,2) by (fastforce simp: og_ok_def region_ok_def)
  note ext = or_extend_ok [of "og_regions og ! ?i" sz os]
  show ?thesis
  proof (cases "extendable sz (og_regions og ! ?i)")
    case True
    then show ?thesis using i ext all assms(3) by (intro disjI2 exI [of _ ?i]) (simp add: og_extend_def extend_region_def extendable_def checked_add_def)
  next
    case False
    then show ?thesis using first_extend_ok [OF all, of 0 os] i ext all assms(3) by (auto simp: og_extend_def extend_region_def extendable_def checked_add_def)
  qed
qed

text \<open>Both steps keep the invariant.\<close>

lemma sum_list_nth_update: "i < length xs \<Longrightarrow> f (xs ! i) \<le> f y \<Longrightarrow> sum_list (map f (xs[i := y])) = sum_list (map f xs) + (f y - f (xs ! i))" for f :: "'a \<Rightarrow> nat"
  by (induction xs arbitrary: i) (auto simp: nth_Cons split: nat.splits)

lemma bump_region_ok: "og_ok og \<Longrightarrow> i < length (og_regions og) \<Longrightarrow> fits sz (og_regions og ! i) \<Longrightarrow> og_ok (bump_region sz i og)"
proof -
  assume ok: "og_ok og" and i: "i < length (og_regions og)" "fits sz (og_regions og ! i)"
  let ?r = "og_regions og ! i"
  have r: "region_ok ?r" "r_end (or_total ?r) \<le> r_end (og_total og)" "r_end (or_total_mapping ?r) \<le> r_end (og_total og)" using ok i(1) by (simp_all add: og_ok_def)
  have "region_ok (?r\<lparr>or_top := or_top ?r + sz\<rparr>)" using r(1) i(2) by (simp add: region_ok_def fits_def)
  moreover have "map (\<lambda>r. (r_start (or_total r), r_end (or_total r))) ((og_regions og)[i := ?r\<lparr>or_top := or_top ?r + sz\<rparr>])
      = map (\<lambda>r. (r_start (or_total r), r_end (or_total r))) (og_regions og)" using i(1) by (simp add: map_update list_update_same_conv)
  moreover have "map (\<lambda>r. mapping_end r - mapping_start r) ((og_regions og)[i := ?r\<lparr>or_top := or_top ?r + sz\<rparr>])
      = map (\<lambda>r. mapping_end r - mapping_start r) (og_regions og)" using i(1) by (simp add: map_update list_update_same_conv mapping_end_def mapping_start_def)
  ultimately show ?thesis using ok i(1) r unfolding og_ok_def bump_region_def
    by (auto dest!: subsetD [OF set_update_subset_insert])
qed

lemma extend_region_ok: "og_ok og \<Longrightarrow> i < length (og_regions og) \<Longrightarrow> extendable sz (og_regions og ! i) \<Longrightarrow> og_ok (extend_region sz i og)"
proof -
  assume ok: "og_ok og" and i: "i < length (og_regions og)" "extendable sz (og_regions og ! i)"
  let ?r = "og_regions og ! i"
  have r: "region_ok ?r" "r_end (or_total ?r) \<le> r_end (og_total og)" "r_end (or_total_mapping ?r) \<le> r_end (og_total og)" using ok i(1) by (simp_all add: og_ok_def)
  have "region_ok (?r\<lparr>or_mapping_top := or_mapping_top ?r + sz\<rparr>)" using r(1) i(2) by (simp add: region_ok_def extendable_def)
  moreover have "map (\<lambda>r. (r_start (or_total r), r_end (or_total r))) ((og_regions og)[i := ?r\<lparr>or_mapping_top := or_mapping_top ?r + sz\<rparr>])
      = map (\<lambda>r. (r_start (or_total r), r_end (or_total r))) (og_regions og)" using i(1) by (simp add: map_update list_update_same_conv)
  moreover have "sum_list (map (\<lambda>r. mapping_end r - mapping_start r) ((og_regions og)[i := ?r\<lparr>or_mapping_top := or_mapping_top ?r + sz\<rparr>]))
      = sum_list (map (\<lambda>r. mapping_end r - mapping_start r) (og_regions og)) + sz"
    using r(1) by (subst sum_list_nth_update [OF i(1)]) (auto simp: mapping_end_def mapping_start_def region_ok_def)
  ultimately show ?thesis using ok i(1) r unfolding og_ok_def extend_region_def
    by (auto dest!: subsetD [OF set_update_subset_insert])
qed


text \<open>What the old generation contains after a block has been taken off a region.\<close>

lemma bump_contains:
  assumes ok: "og_ok og" and i: "i < length (og_regions og)" "fits sz (og_regions og ! i)"
  shows "contains_slow (bump_region sz i og) a \<longleftrightarrow> contains_slow og a \<or> or_top (og_regions og ! i) \<le> a \<and> a < or_top (og_regions og ! i) + sz"
proof -
  let ?r = "og_regions og ! i" and ?rs = "(og_regions og)[i := (og_regions og ! i)\<lparr>or_top := or_top (og_regions og ! i) + sz\<rparr>]"
  have start: "r_start (or_total ?r) \<le> or_top ?r" using ok i(1) by (simp add: og_ok_def region_ok_def)
  have "(\<exists>j < length ?rs. r_start (or_total (?rs ! j)) \<le> a \<and> a < or_top (?rs ! j))
      \<longleftrightarrow> (\<exists>j < length (og_regions og). r_start (or_total (og_regions og ! j)) \<le> a \<and> a < or_top (og_regions og ! j)) \<or> or_top ?r \<le> a \<and> a < or_top ?r + sz"
  proof (rule iffI)
    assume "\<exists>j < length ?rs. r_start (or_total (?rs ! j)) \<le> a \<and> a < or_top (?rs ! j)"
    then obtain j where j: "j < length (og_regions og)" "r_start (or_total (?rs ! j)) \<le> a" "a < or_top (?rs ! j)" by auto
    show "(\<exists>j < length (og_regions og). r_start (or_total (og_regions og ! j)) \<le> a \<and> a < or_top (og_regions og ! j)) \<or> or_top ?r \<le> a \<and> a < or_top ?r + sz"
      using j i(1) by (cases "j = i") (auto simp: not_le)
  next
    assume "(\<exists>j < length (og_regions og). r_start (or_total (og_regions og ! j)) \<le> a \<and> a < or_top (og_regions og ! j)) \<or> or_top ?r \<le> a \<and> a < or_top ?r + sz"
    then show "\<exists>j < length ?rs. r_start (or_total (?rs ! j)) \<le> a \<and> a < or_top (?rs ! j)"
    proof (elim disjE exE conjE)
      fix j assume j: "j < length (og_regions og)" "r_start (or_total (og_regions og ! j)) \<le> a" "a < or_top (og_regions og ! j)"
      then show ?thesis using i(1) by (intro exI [of _ j]) (cases "j = i"; simp)
    qed (use i(1) start in \<open>auto intro!: exI [of _ i]\<close>)
  qed
  then show ?thesis by (simp add: contains_slow_def bump_region_def list_ex_length)
qed

lemma ascending_disjoint:
  "ascending lo xs \<Longrightarrow> i < length xs \<Longrightarrow> j < length xs \<Longrightarrow> i \<noteq> j \<Longrightarrow> a \<in> {fst (xs ! i)..<snd (xs ! i)} \<Longrightarrow> a \<notin> {fst (xs ! j)..<snd (xs ! j)}"
proof (induction lo xs arbitrary: i j rule: ascending.induct)
  case (2 lo s e rs)
  have low: "e \<le> fst (rs ! k)" if "k < length rs" for k using ascending_above [of e rs "fst (rs ! k)" "snd (rs ! k)"] that 2(2) by simp
  show ?case
  proof (cases "i = 0 \<or> j = 0")
    case True
    then consider (l) j' where "i = 0" "j = Suc j'" | (r) i' where "j = 0" "i = Suc i'" using 2(5) by (cases i; cases j) auto
    then show ?thesis
    proof cases
      case l
      then show ?thesis using low [of j'] 2(4,6) by auto
    next
      case r
      then show ?thesis using low [of i'] 2(3,6) by auto
    qed
  next
    case False
    then obtain i' j' where "i = Suc i'" "j = Suc j'" by (meson not0_implies_Suc)
    then show ?thesis using 2 by auto
  qed
qed simp

lemma block_fresh:
  assumes ok: "og_ok og" and i: "i < length (og_regions og)" "fits sz (og_regions og ! i)" and a: "or_top (og_regions og ! i) \<le> a" "a < or_top (og_regions og ! i) + sz"
  shows "\<not> contains_slow og a"
proof
  assume "contains_slow og a"
  then obtain j where j: "j < length (og_regions og)" "r_start (or_total (og_regions og ! j)) \<le> a" "a < or_top (og_regions og ! j)"
    by (auto simp: contains_slow_def list_ex_length)
  have r: "region_ok (og_regions og ! i)" "region_ok (og_regions og ! j)" using ok i(1) j(1) by (simp_all add: og_ok_def)
  have "j \<noteq> i" using j(3) a(1) by auto
  let ?xs = "map (\<lambda>r. (r_start (or_total r), r_end (or_total r))) (og_regions og)"
  have "ascending (r_start (og_total og)) ?xs" using ok by (simp add: og_ok_def)
  from ascending_disjoint [OF this, of i j a] show False using i j a r \<open>j \<noteq> i\<close> by (auto simp: fits_def region_ok_def)
qed

lemma top_positive: "og_ok og \<Longrightarrow> i < length (og_regions og) \<Longrightarrow> or_top (og_regions og ! i) \<noteq> addr_null"
proof -
  assume ok: "og_ok og" and i: "i < length (og_regions og)"
  have "r_start (og_total og) \<le> r_start (or_total (og_regions og ! i))"
    using ok i ascending_above [of "r_start (og_total og)" "map (\<lambda>r. (r_start (or_total r), r_end (or_total r))) (og_regions og)"
      "r_start (or_total (og_regions og ! i))" "r_end (or_total (og_regions og ! i))"] by (auto simp: og_ok_def intro!: image_eqI [of _ _ "og_regions og ! i"])
  then show ?thesis using ok i by (auto simp: og_ok_def region_ok_def addr_null_def dest!: nth_mem)
qed

lemma extend_contains: "i < length (og_regions og) \<Longrightarrow> contains_slow (extend_region sz i og) a = contains_slow og a"
  unfolding contains_slow_def extend_region_def list_ex_length by (auto simp: nth_list_update split: if_splits)


text \<open>A block has been added: it is committed, it is new, and nothing else has changed.\<close>

definition adds_block :: "usize \<Rightarrow> heap_address \<Rightarrow> old_gen \<Rightarrow> old_gen \<Rightarrow> bool" where
  "adds_block sz ptr og og' \<longleftrightarrow> ptr \<noteq> addr_null
     \<and> (\<exists>r \<in> set (og_regions og'). r_start (or_total r) \<le> ptr \<and> ptr + sz \<le> or_mapping_top r)
     \<and> (\<forall>a. ptr \<le> a \<and> a < ptr + sz \<longrightarrow> \<not> contains_slow og a)
     \<and> (\<forall>a. contains_slow og' a \<longleftrightarrow> contains_slow og a \<or> ptr \<le> a \<and> a < ptr + sz)"

lemma bump_adds_block:
  assumes "og_ok og" "i < length (og_regions og)" "fits sz (og_regions og ! i)"
  shows "adds_block sz (or_top (og_regions og ! i)) og (bump_region sz i og)"
proof -
  let ?r = "(og_regions og ! i)\<lparr>or_top := or_top (og_regions og ! i) + sz\<rparr>"
  have "?r \<in> set (og_regions (bump_region sz i og))" using assms(2) by (simp add: bump_region_def set_update_memI)
  moreover have "r_start (or_total ?r) \<le> or_top (og_regions og ! i)" "or_top (og_regions og ! i) + sz \<le> or_mapping_top ?r"
    using assms by (simp_all add: og_ok_def region_ok_def fits_def)
  ultimately show ?thesis unfolding adds_block_def
    using top_positive [OF assms(1,2)] block_fresh [OF assms] bump_contains [OF assms] by blast
qed

lemma pure_alloc_cases:
  assumes "og_ok og" "r_end (og_total og) + sz < 2 ^ 64"
  obtains (block) ptr og' where "og_pure_alloc sz og = Inr (ptr, og')" "og_ok og'" "og_total og' = og_total og" "adds_block sz ptr og og'" "ptr \<noteq> addr_null"
    | (full) "og_pure_alloc sz og = Inr (addr_null, og)" "\<forall>r \<in> set (og_regions og). \<not> fits sz r"
proof -
  from og_pure_alloc_ok [OF assms] consider "og_pure_alloc sz og = Inr (addr_null, og)" "\<forall>r \<in> set (og_regions og). \<not> fits sz r"
    | i where "i < length (og_regions og)" "fits sz (og_regions og ! i)" "og_pure_alloc sz og = Inr (or_top (og_regions og ! i), bump_region sz i og)" by blast
  then show thesis
  proof cases
    case 1
    then show thesis by (rule full)
  next
    case 2
    have "og_total (bump_region sz i og) = og_total og" by (simp add: bump_region_def)
    then show thesis using block [OF 2(3)] bump_region_ok [OF assms(1) 2(1,2)] bump_adds_block [OF assms(1) 2(1,2)] top_positive [OF assms(1) 2(1)] by blast
  qed
qed

text \<open>C23. Allocation in the old generation returns and keeps its invariant.  A block that is handed out lies in the
  committed part of a region, did not belong to the old generation before, and afterwards the old
  generation contains exactly the block in addition; when null is returned nothing is added, and then growth
  was refused or no region has room for the block.\<close>

theorem old_alloc_adds_block:
  assumes "og_ok og" "r_end (og_total og) + sz + GEN_SIZE < 2 ^ 64" "og_size og + GEN_SIZE < 2 ^ 64" "hc_old_size config + GEN_SIZE < 2 ^ 64"
  shows "\<exists>ptr config' og' os'. og_alloc sz config og os = Inr (ptr, config', og', os') \<and> og_ok og' \<and> og_total og' = og_total og
    \<and> (ptr \<noteq> addr_null \<longrightarrow> adds_block sz ptr og og')
    \<and> (ptr = addr_null \<longrightarrow> (\<forall>a. contains_slow og' a \<longleftrightarrow> contains_slow og a)
        \<and> (hc_old_limit config < hc_old_size config + GEN_SIZE \<or> (\<forall>r \<in> set (og_regions og'). \<not> fits sz r)))"
proof -
  have bound: "r_end (og_total og) + sz < 2 ^ 64" "r_end (og_total og) + GEN_SIZE < 2 ^ 64" using assms(2) by linarith+
  from assms(1) bound(1) show ?thesis
  proof (cases rule: pure_alloc_cases)
    case (block ptr og')
    then show ?thesis by (simp add: og_alloc_def)
  next
    case full
    let ?config = "config\<lparr>hc_old_size := hc_old_size config + GEN_SIZE\<rparr>"
    have grow: "grow_old GEN_SIZE config = Inr (if hc_old_size config + GEN_SIZE \<le> hc_old_limit config then (True, ?config) else (False, config))"
      using assms(4) by (simp add: grow_old_def checked_add_def)
    from og_extend_ok [OF assms(1) bound(2) assms(3), of os] consider (refused) "hc_old_limit config < hc_old_size config + GEN_SIZE"
      | (stuck) "hc_old_size config + GEN_SIZE \<le> hc_old_limit config" "og_extend GEN_SIZE og os = Inr (False, og, os)"
      | (more) i os' where "hc_old_size config + GEN_SIZE \<le> hc_old_limit config" "i < length (og_regions og)" "extendable GEN_SIZE (og_regions og ! i)"
          "og_extend GEN_SIZE og os = Inr (True, extend_region GEN_SIZE i og, os')" by (meson not_le)
    then show ?thesis
    proof cases
      case refused
      then show ?thesis using assms(1) full grow by (simp add: og_alloc_def)
    next
      case stuck
      then show ?thesis using assms(1) full grow by (simp add: og_alloc_def)
    next
      case more
      let ?og = "extend_region GEN_SIZE i og"
      have ok: "og_ok ?og" "og_total ?og = og_total og" using extend_region_ok [OF assms(1) more(2,3)] by (simp_all add: extend_region_def)
      have same: "contains_slow ?og a = contains_slow og a" for a using extend_contains [OF more(2)] .
      have run: "og_alloc sz config og os = rbind (og_pure_alloc sz ?og) (\<lambda>(ptr, og). Inr (ptr, ?config, og, os'))"
        using full(1) grow more by (simp add: og_alloc_def)
      have "r_end (og_total ?og) + sz < 2 ^ 64" using bound(1) ok(2) by simp
      with ok(1) show ?thesis
      proof (cases rule: pure_alloc_cases)
        case (block ptr og')
        then show ?thesis using run ok(2) unfolding adds_block_def same by simp
      qed (use run ok same in simp)
    qed
  qed
qed

lemma sum_committed:
  "ascending lo (mappings rs) \<Longrightarrow> n + sum_list (map (\<lambda>r. mapping_end r - mapping_start r) rs) < 2 ^ 64 \<Longrightarrow>
    sum_sizes (\<lambda>r. rbind (committed_region r) r_size) rs n = Inr (n + sum_list (map (\<lambda>r. mapping_end r - mapping_start r) rs))"
proof (induction rs arbitrary: lo n)
  case (Cons r rs)
  let ?d = "mapping_end r - mapping_start r"
  have asc: "mapping_start r \<le> mapping_end r" "ascending (mapping_end r) (mappings rs)" using Cons.prems(1) by (simp_all add: mappings_def)
  then have "rbind (committed_region r) r_size = Inr ?d" by (simp add: committed_region_def region_new_def r_size_def checked_sub_def)
  moreover have "checked_add n ?d = Inr (n + ?d)" using Cons.prems(2) by (auto simp: checked_add_def)
  moreover have "n + ?d + sum_list (map (\<lambda>r. mapping_end r - mapping_start r) rs) < 2 ^ 64" using Cons.prems(2) by (simp only: list.map sum_list.Cons add.assoc)
  ultimately show ?case using Cons.IH [OF asc(2), of "n + ?d"] by (simp only: sum_sizes.simps rbind_Inr list.map sum_list.Cons add.assoc)
qed simp

text \<open>C15. Committing and discarding regions is exact: for regions in ascending order \<open>commit_regions\<close> commits precisely the
  bytes of the new regions that were not mapped before, \<open>update_regions\<close> gives back precisely the mapped bytes
  that no new region maps, both without touching a byte twice, and the recorded size is the size of all
  mappings.\<close>

theorem old_regions_committed_exactly:
  assumes "ascending (r_start (og_total og)) (mappings (og_regions og))"
    "ascending (r_start (og_total og)) (map (\<lambda>r. (r_start r, r_end r)) news)" "ascending (r_start (og_total og)) (mappings rs)"
    "sum_list (map (\<lambda>r. mapping_end r - mapping_start r) rs) < 2 ^ 64"
  shows "\<exists>calls discards og'. commit_regions news og os = os @ calls \<and> (\<forall>c \<in> set calls. \<exists>a n. c = CommitAt a n)
    \<and> bytes_in (map call_span calls) = bytes_in (map (\<lambda>r. (r_start r, r_end r)) news) - bytes_in (mappings (og_regions og))
    \<and> ascending (r_start (og_total og)) (map call_span calls)
    \<and> update_regions rs og os = Inr (og', os @ discards) \<and> (\<forall>c \<in> set discards. \<exists>a n. c = Discard a n)
    \<and> bytes_in (map call_span discards) = bytes_in (mappings (og_regions og)) - bytes_in (mappings rs)
    \<and> ascending (r_start (og_total og)) (map call_span discards)
    \<and> og_regions og' = rs \<and> og_size og' = sum_list (map (\<lambda>r. mapping_end r - mapping_start r) rs)"
proof -
  let ?lo = "r_start (og_total og)" and ?new = "map (\<lambda>r. (r_start r, r_end r)) news"
  have ok: "calls_ok CommitAt" "calls_ok Discard" by (simp_all add: calls_ok_def)
  have calls: "\<exists>extra. regions_loop call others 0 ?lo xs os = os @ extra \<and> (\<forall>c \<in> set extra. \<exists>a n. c = call a n)
      \<and> bytes_in (map call_span extra) = bytes_in xs - bytes_in others \<and> ascending ?lo (map call_span extra)"
    if "calls_ok call" "ascending ?lo others" "ascending ?lo xs" for call others xs
  proof -
    have "passed others 0 ?lo" "\<forall>a. ?lo \<le> a \<and> a < ?lo \<longrightarrow> a \<in> bytes_in others" by (auto simp: passed_def)
    from regions_loop_spec [OF that(1,2) this(1) that(3) this(2), of os] show ?thesis unfolding max.idem by blast
  qed
  obtain c where c: "commit_regions news og os = os @ c" "\<forall>x \<in> set c. \<exists>a n. x = CommitAt a n" "ascending ?lo (map call_span c)"
    "bytes_in (map call_span c) = bytes_in ?new - bytes_in (mappings (og_regions og))"
    using calls [OF ok(1) assms(1,2)] unfolding commit_regions_def by blast
  obtain e where e: "regions_loop Discard (mappings rs) 0 ?lo (mappings (og_regions og)) os = os @ e" "\<forall>x \<in> set e. \<exists>a n. x = Discard a n"
    "ascending ?lo (map call_span e)" "bytes_in (map call_span e) = bytes_in (mappings (og_regions og)) - bytes_in (mappings rs)"
    using calls [OF ok(2) assms(3,1)] by blast
  have "sum_sizes (\<lambda>r. rbind (committed_region r) r_size) rs 0 = Inr (sum_list (map (\<lambda>r. mapping_end r - mapping_start r) rs))"
    using sum_committed [OF assms(3), of 0] assms(4) by simp
  then show ?thesis using c e by (auto simp: update_regions_def)
qed

definition sample_region :: "heap_address \<Rightarrow> heap_address \<Rightarrow> old_region" where
  "sample_region s e = \<lparr>or_total = \<lparr>r_start = s, r_end = e\<rparr>, or_total_mapping = \<lparr>r_start = s, r_end = e\<rparr>, or_top = s, or_mapping_top = e\<rparr>"

definition sample_old :: "old_region list \<Rightarrow> usize \<Rightarrow> old_gen" where
  "sample_old rs n = \<lparr>og_total = \<lparr>r_start = 4096, r_end = 65536\<rparr>, og_size = n, og_regions = rs, og_alloc_region = 0\<rparr>"

lemma old_alloc_adds_block_witness:
  "\<exists>config' og' os'. og_alloc 64 \<lparr>hc_max_heap_size = 65536, hc_old_size = 4096, hc_old_limit = 4096\<rparr> (sample_old [sample_region 4096 8192] 4096) []
      = Inr (4096, config', og', os') \<and> og_ok og' \<and> adds_block 64 4096 (sample_old [sample_region 4096 8192] 4096) og'"
proof -
  let ?og = "sample_old [sample_region 4096 8192] 4096" and ?config = "\<lparr>hc_max_heap_size = 65536, hc_old_size = 4096, hc_old_limit = 4096\<rparr>"
  have ok: "og_ok ?og"
    by (simp add: og_ok_def sample_old_def sample_region_def region_ok_def mapping_end_def mapping_start_def)
  have gen: "GEN_SIZE = 131072" by (simp add: GEN_SIZE_def GEN_ALIGNMENT_BITS_def push_bit_eq_mult)
  obtain ptr config' og' os' where run: "og_alloc 64 ?config ?og [] = Inr (ptr, config', og', os')" "og_ok og'" "ptr \<noteq> addr_null \<longrightarrow> adds_block 64 ptr ?og og'"
    using old_alloc_adds_block [OF ok, of 64 ?config "[]"] by (auto simp: gen sample_old_def)
  then have "ptr = 4096"
    by (simp add: og_alloc_def og_pure_alloc_def or_pure_alloc_def sample_old_def sample_region_def offset_def checked_add_def addr_null_def)
  with run show ?thesis by (auto simp: addr_null_def)
qed

lemma old_regions_committed_exactly_witness:
  "\<exists>calls. commit_regions [\<lparr>r_start = 4096, r_end = 12288\<rparr>, \<lparr>r_start = 18432, r_end = 24576\<rparr>]
        (sample_old [sample_region 4096 8192, sample_region 16384 20480] 8192) [] = calls
    \<and> bytes_in (map call_span calls) = bytes_in [(4096, 12288), (18432, 24576)] - bytes_in [(4096, 8192), (16384, 20480)]"
proof -
  let ?og = "sample_old [sample_region 4096 8192, sample_region 16384 20480] 8192"
    and ?news = "[\<lparr>r_start = 4096, r_end = 12288\<rparr>, \<lparr>r_start = 18432, r_end = 24576\<rparr>]"
  have m: "mappings (og_regions ?og) = [(4096, 8192), (16384, 20480)]" "r_start (og_total ?og) = 4096"
    by (simp_all add: mappings_def sample_old_def sample_region_def mapping_start_def mapping_end_def)
  show ?thesis using old_regions_committed_exactly [of ?og ?news "[]" "[]"] unfolding m by (auto simp: mappings_def simp del: bytes_in_simps)
qed

end
