(* ===== verification/Spec2Isabelle.thy ===== *)
theory Spec2Isabelle
  imports SourceTypes BytecodeTheorems BuilderTheorems TypeTheorems FrontendTheorems LexerTheorems
    SafepointTheorems ObjectHashMapTheorems WaitLists MarkCompactTheorems AllocatorTheorems SweepCollection Arm64Theorems
    CodeTheorems MasmTheorems CopyTheorems X64Theorems
    CrossingTheorems OldGenTheorems
begin

text \<open>
  Verification of parts of the Dora virtual machine, a just-in-time compiler and runtime for the
  Dora language written in Rust.

  \<^bold>\<open>The program.\<close>  Source text is cut into tokens by the lexer (\<open>dora-parser/src/lexer.rs\<close>) and
  parsed to a syntax tree.  Semantic analysis (\<open>dora/src/language\<close>) enters definitions into a tree
  of modules, resolves names in nested symbol tables, checks that what is used is accessible and
  specialises generic types.  The bytecode generator drives the bytecode builder
  (\<open>dora/src/bytecode/builder.rs\<close>), which allocates registers and hands instructions to the
  bytecode writer (\<open>writer.rs\<close>); the compilers read the bytecode back with the bytecode reader
  (\<open>reader.rs\<close>).  The baseline compiler calls the macro assembler (\<open>dora/src/masm\<close>), which keeps scratch
  registers, bailouts, tables of positions and a constant pool, and drives the assembler
  (\<open>dora-asm\<close>); the finished code is installed in the code space and entered in a map from addresses
  to code (\<open>vm/code.rs\<close>, \<open>vm/code_map.rs\<close>).  At run time several threads execute the machine code.  They allocate objects from
  thread-local buffers and shared spaces (\<open>dora/src/gc\<close>), wait for each other in lists kept per
  object (\<open>vm/waitlists.rs\<close>), and are stopped at safepoints (\<open>threads.rs\<close>, \<open>safepoint.rs\<close>) while a
  collector marks and compacts, sweeps or copies the heap.

  \<^bold>\<open>Conventions\<close> (theory \<open>Prelude\<close>).  A panic is a value; code that may panic returns
  \<open>panic + 'a\<close>.  \<open>u8\<close>, \<open>u32\<close> and \<open>u64\<close> are words and wrap as in a release build; \<open>usize\<close> is a natural number, and
  every narrowing cast is written out.  Methods with \<open>&mut self\<close> return the new state.  In the
  runtime, where loops may not end, code returns a \<open>call\<close> (theory \<open>Calls\<close>): \<open>None\<close> is a loop that
  never returns, and \<open>ret x\<close> is a normal result.

  \<^bold>\<open>The theories and what they model.\<close>
  \<^item> \<open>SourceTypes\<close>: \<open>SourceType\<close>, \<open>SourceTypeArray\<close>, its iterator and \<open>allows\<close>
    (\<open>language/ty.rs\<close>).  \<open>TypeSpecialization\<close>: \<open>specialize_type\<close>, \<open>replace_type_param\<close>
    (\<open>language/specialize.rs\<close>) and the helpers they call.
  \<^item> \<open>BytecodeData\<close>: opcodes with their numbering, instructions, types, constant pool entries,
    functions (\<open>bytecode/data.rs\<close>, \<open>bytecode/ty.rs\<close>, the enum macros of \<open>utils.rs\<close>).
  \<^item> \<open>BytecodeWriter\<close>: every method of \<open>BytecodeWriter\<close>; its state is the record \<open>writer\<close> with
    the fields of the struct.  Unresolved forward jumps, wide operands and positions are kept as in
    the code, and \<open>generate\<close> consumes the writer.
  \<^item> \<open>BytecodeReader\<close>: the decoder and the dispatch to a visitor; a visitor is a record of
    functions on a client state, so the theorems hold for every visitor.
  \<^item> \<open>Registers\<close> and \<open>Builder\<close>: the builder's methods with their assertions on registers, and the
    allocator.  The order in which \<open>pop_scope\<close> iterates over a hash set is an argument, of which
    only \<open>hash_iter\<close> is assumed: it lists each element once.
  \<^item> \<open>SymTables\<close>: \<open>SymTable\<close>, \<open>ModuleSymTable\<close> and \<open>Sym\<close> (\<open>language/sym.rs\<close>).
    \<open>ModuleAccess\<close>: modules (\<open>sem_analysis/modules.rs\<close>) and the access checks
    (\<open>language/access.rs\<close>).
  \<^item> \<open>LexTokens\<close> and \<open>Lexer\<close>: tokens, reader and lexer.  Characters are code points, the reader's
    index counts UTF-8 bytes as in the code, and slicing inside a character panics.
  \<^item> \<open>Safepoint\<close>: thread states, parking, the barrier, \<open>stop_the_world\<close>, the thread list, and starting
    and ending threads.  A system holds the state word, the request flag and the place of every
    thread; one step is one atomic operation, one critical section of the barrier or of the thread
    list, and \<open>sys_reach\<close> interleaves them freely.  Atomics are sequentially consistent, as almost all
    of the code's are; the relaxed load in \<open>stop_threads\<close> is a guess that the exchange confirms.
    Blocking on a mutex or a condition is a step that is not enabled.
  \<^item> \<open>ObjectHashMap\<close> and \<open>WaitLists\<close>: the hash table keyed by object addresses, with tombstones and
    rehashing (the collector's epoch is an argument of every operation), and the wait lists in it,
    whose links are in the threads.  \<open>insert\<close> calls itself through \<open>rehash\<close>; the nesting is two deep,
    since a table made for its entries does not overflow.
  \<^item> \<open>HeapAddress\<close>: addresses, regions, alignment (\<open>gc.rs\<close>, \<open>mem.rs\<close>).  \<open>HeapObjects\<close>: headers with mark
    bits and forwarding pointers, sizes, reference fields, slots, weak roots and filler objects
    (\<open>object.rs\<close>, \<open>size.rs\<close>, \<open>gc/root.rs\<close>, \<open>gc.rs\<close>).  Memory maps addresses to words; what the code
    reads through a vtable pointer is a function \<open>classes\<close> of its address.
  \<^item> \<open>MarkCompact\<close>: \<open>marking.rs\<close> and the phases of \<open>compact.rs\<close>.  \<open>Allocators\<close>: \<open>bump.rs\<close>, \<open>space.rs\<close>,
    the allocation of \<open>region.rs\<close>, and \<open>tlab.rs\<close>.  \<open>SweepCollector\<close>: \<open>freelist.rs\<close> and \<open>sweep.rs\<close>.
    \<open>CopyCollector\<close>: \<open>copy.rs\<close>.
  \<^item> \<open>CardTables\<close>: the card table and the crossing map of the generational collector (\<open>swiper/card.rs\<close>,
    \<open>swiper/crossing.rs\<close>).  \<open>OldGen\<close>: its old generation (\<open>swiper/old.rs\<close>); what is committed and discarded is a log
    of calls to the operating system.
  \<^item> \<open>AsmBuffer\<close>: the assembler's buffer and labels (\<open>dora-asm/src/lib.rs\<close>).  \<open>Arm64Inst\<close>: registers, conditions,
    the instruction classes with their operand checks, and the immediate encoders; \<open>Arm64Assembler\<close>: every
    method of \<open>AssemblerArm64\<close>, forward jumps and \<open>finalize\<close> (\<open>dora-asm/src/arm64.rs\<close>).
  \<^item> \<open>X64Assembler\<close>: every method of \<open>AssemblerX64\<close> (the method \<open>f\<close> is \<open>x64_f\<close>), with registers, immediates, memory
    operands, prefixes, short and long jumps, their resolution, and alignment (\<open>dora-asm/src/x64.rs\<close>).
  \<^item> \<open>ConstPool\<close>: \<open>constpool.rs\<close> over a byte memory.  \<open>MacroAssembler\<close>: every method of \<open>masm.rs\<close> and
    \<open>masm/arm64.rs\<close> (the method \<open>f\<close> is \<open>m_f\<close>), the registers of \<open>cpu/arm64.rs\<close>, and the tables of \<open>vm/code.rs\<close>.
    A scratch register is held for the scope in which the code holds it (\<open>with_scratch\<close>).
    \<open>CodeObjects\<close>: the code space (\<open>gc/code.rs\<close>), \<open>install_code\<close> and the map from addresses to code.

  \<^bold>\<open>What is shown.\<close>
  \<^item> \<open>BytecodeCodec\<close> gives instructions a reference encoding and proves that the reader inverts
    it; \<open>BytecodeAssembly\<close> is the abstract assembler: a sequence of writer calls (\<open>wcmd\<close>) denotes
    a list of items, and \<open>refines\<close> relates the writer's state to it.  \<open>BytecodeFunctions\<close> relates
    generated functions to resolved items, as a step relation over writer calls.
    \<open>BytecodeTheorems\<close> concludes: what was emitted is what any visitor sees, forward and backward
    jumps land on instruction boundaries, \<open>generate\<close> succeeds exactly when all labels are bound,
    constants and positions are found again, and encodings are unambiguous.
  \<^item> \<open>BuilderTheorems\<close>: builder methods succeed exactly when their registers are in use; functions
    made with the builder use only registers they declare; scopes give back what they took.  The
    contract \<open>register_pool\<close> is proved for temporaries, variables and globals.
  \<^item> \<open>TypeTheorems\<close>: specialisation composes, returns exactly on specialisable types, makes types
    concrete, and \<open>allows\<close> decides type equality.
  \<^item> \<open>FrontendTheorems\<close>: symbol tables behave as nested scopes (contract \<open>scoped_env\<close>), and the
    index-based access check decides a rule over module paths without a panic.
  \<^item> \<open>LexerProgress\<close> and \<open>LexerTheorems\<close>: the loops of the lexer follow two contracts
    (\<open>skip_loop\<close>, \<open>scan_loop\<close>); reading a token returns unless an operator is directly followed by a
    non-ASCII character, where it panics; spans are exact; strings, operators, keywords and
    identifiers are read back.
  \<^item> \<open>SafepointInvariant\<close> gives the invariant of the protocol: the phase of the thread that holds the
    list's mutex determines which states and places every other thread may be in and how many
    notifications the barrier is still owed.  \<open>SafepointTheorems\<close>: the world is stopped during the
    operation, no assertion fails, there is no deadlock.
  \<^item> \<open>ObjectHashMapProofs\<close> and \<open>ObjectHashMapTheorems\<close>: with an empty slot left the table is a finite map
    (contract \<open>address_map\<close>), and a collection that moves its keys and advances the epoch is not observable;
    a table full of tombstones makes \<open>get\<close> loop.  On the contract rests the theorem of \<open>WaitLists\<close>: with an empty
    slot left, a queue of threads per object.
  \<^item> \<open>MarkCompactProofs\<close> describes a heap as a list of cells and follows the four phases over it;
    \<open>MarkCompactTheorems\<close>: live objects survive with their contents and lie without gaps.
  \<^item> \<open>AllocatorTheorems\<close>: the contract \<open>bump_pointer\<close> is proved for the three bump allocators; blocks
    handed out concurrently are disjoint; allocation in spaces and regions returns.
    \<open>SweepTheorems\<close>: the free lists hand out blocks that are large enough and stay linked; an exact
    fit makes the allocator panic.  \<open>SweepCollection\<close>: a mark-sweep collection keeps the live objects
    and turns the rest of the heap into free blocks.
  \<^item> \<open>CopyProofs\<close> carries an invariant through a copying collection: the list of the objects copied so far
    determines where each copy lies, the set of the slots updated so far what each word holds.
    \<open>CopyTheorems\<close>: exactly the reachable objects are copied, with their references forwarded, and the
    heap can be collected again.
  \<^item> \<open>CrossingTheorems\<close>: every entry of the crossing map describes the object that covers the start of its card.
    \<open>OldGenTheorems\<close>: committing and discarding regions computes differences of byte sets exactly, and
    allocation adds one fresh block.
  \<^item> \<open>Arm64Fields\<close> and \<open>Arm64Decode\<close> give the instruction formats as a table of bit patterns with fields and a
    decoder; \<open>Arm64Jumps\<close> relates the assembler to a two-pass reference; \<open>Arm64Immediates\<close> has the
    architecture's expansion of logical immediates.  \<open>Arm64Theorems\<close>: encoders and decoder agree on
    operands that fit, one pass
    is as good as two, jumps lead to their labels, and logical immediates are encoded exactly when they
    can be.
  \<^item> \<open>X64Decode\<close> is a decoder for the instruction formats of x64 that the assembler uses, written as a table of
    opcodes with their operands.  \<open>X64Encodings\<close> and \<open>X64Methods\<close> show what the parts of an instruction and the
    methods emit; \<open>X64Jumps\<close> sees code under construction as chunks with open jumps, and \<open>X64Programs\<close> follows
    whole programs.  \<open>X64Theorems\<close>: every method emits its instruction except for a few registers in a few
    operands, which are read as other operands; finished code reads as the program with jumps that lead to their
    labels, and finishing ends.
  \<^item> \<open>MasmConstants\<close> executes the wide moves and shows that loading a constant loads it.  \<open>MasmMethods\<close>
    carries an invariant through the combinators the methods are built from; \<open>MasmTheorems\<close>: any program of
    calls gives back its scratch registers and yields a descriptor that can be installed.
    \<open>CodeTheorems\<close>: installed code is found by every address in it, with its instructions and aligned
    pool entries in memory.

  \<^bold>\<open>Bounds.\<close>  Code and constant pool are assumed to stay below \<open>2 ^ 32\<close> entries, the range of the
  \<open>u32\<close> offsets and indices stored in them.  Lexed texts are below \<open>2 ^ 28\<close> bytes, so that lines
  and columns, which grow by at most four per byte, stay below \<open>2 ^ 32\<close>.  Heap addresses are below
  \<open>2 ^ 64\<close>, and an addition that leaves this range panics.  No fuel is used: loops are terminating
  recursions, on the code or text that is left, or partial functions for which it is proved that they
  return.  The machine code of one function is assumed to stay below \<open>2 ^ 31\<close> bytes, the range of the
  \<open>i32\<close> distances the assembler computes with.

  \<^bold>\<open>Not modelled.\<close>  The parser and syntax tree, the checking passes over it and the bytecode
  generator; the translation of bytecode to calls of the macro assembler (only the computation of jump
  targets is used), and the macro assembler for x64; the collections of the generational
  collector, its young generation and its large objects, and the region
  collector's collection, which the code leaves unimplemented; the search for roots in stacks, code and
  globals, which needs the compiled frames (the roots are an argument of the collectors); parallel
  marking; debugging output, the driver and system calls.  The next steps are the
  minor collection over the card tables, the macro assembler for x64, and the parser over the token stream.
\<close>

end
